(* ===== verification/Prelude.thy ===== *)
theory Prelude
  imports Main
begin

text \<open>
  Shared vocabulary of the development: results of operations that may throw
  (\<open>bindE\<close> sequences them, an \<open>Inl\<close> is the thrown error), and the SQL table
  operations the stores are written in. A table is the list of its rows in rowid order, so
  \<open>ORDER BY rowid DESC LIMIT 1\<close> is the last matching row, an \<open>UPDATE ... WHERE\<close> is a
  map over the rows and an \<open>INSERT\<close> appends. The locale \<open>keyed_table\<close> collects what
  a write that keeps the primary key guarantees of every lookup.
\<close>

named_theorems store_simps \<open>reads of a store after one of its writes\<close>
named_theorems step_elims \<open>what a successful operation tells about its parts\<close>

section \<open>Results\<close>

definition bindE :: "'e + 'a \<Rightarrow> ('a \<Rightarrow> 'e + 'b) \<Rightarrow> 'e + 'b" where
  "bindE m f = (case m of Inl e \<Rightarrow> Inl e | Inr x \<Rightarrow> f x)"

lemma bindE_simps [simp]:
  "bindE (Inl e) f = Inl e"
  "bindE (Inr x) f = f x"
  by (simp_all add: bindE_def)

lemma bindE_Inr_iff [step_elims]: "bindE m f = Inr y \<longleftrightarrow> (\<exists>x. m = Inr x \<and> f x = Inr y)"
  by (cases m) auto

lemma bindE_Inl_iff: "bindE m f = Inl e \<longleftrightarrow> m = Inl e \<or> (\<exists>x. m = Inr x \<and> f x = Inl e)"
  by (cases m) auto

lemma bindE_assoc: "bindE (bindE m f) g = bindE m (\<lambda>x. bindE (f x) g)"
  by (cases m) auto

definition guardE :: "bool \<Rightarrow> 'e \<Rightarrow> 'e + unit" where
  "guardE b e = (if b then Inr () else Inl e)"

lemma guardE_Inr_iff [step_elims]: "guardE b e = Inr u \<longleftrightarrow> b"
  by (simp add: guardE_def)

lemma guardE_simps [simp]: "guardE True e = Inr ()" "guardE False e = Inl e"
  by (simp_all add: guardE_def)

definition requireE :: "'e \<Rightarrow> 'a option \<Rightarrow> 'e + 'a" where
  "requireE e x = (case x of None \<Rightarrow> Inl e | Some y \<Rightarrow> Inr y)"

lemma requireE_Inr_iff [step_elims]: "requireE e x = Inr y \<longleftrightarrow> x = Some y"
  by (cases x) (simp_all add: requireE_def)

lemma requireE_simps [simp]: "requireE e (Some y) = Inr y" "requireE e None = Inl e"
  by (simp_all add: requireE_def)

text \<open>A loop whose body may throw: the first error ends it.\<close>

fun foldE :: "('x \<Rightarrow> 's \<Rightarrow> 'e + 's) \<Rightarrow> 'x list \<Rightarrow> 's \<Rightarrow> 'e + 's" where
  "foldE f [] s = Inr s"
| "foldE f (x # xs) s = bindE (f x s) (foldE f xs)"

lemma foldE_invariant:
  assumes "\<And>x s s'. x \<in> set xs \<Longrightarrow> P s \<Longrightarrow> f x s = Inr s' \<Longrightarrow> P s'"
    and "foldE f xs s = Inr s'" and "P s"
  shows "P s'"
  using assms
proof (induction xs arbitrary: s)
  case Nil
  then show ?case by simp
next
  case (Cons x xs)
  from Cons.prems(2) obtain t where t: "f x s = Inr t" "foldE f xs t = Inr s'"
    by (auto simp: bindE_Inr_iff)
  have "P t" using Cons.prems(1) [of x s t] Cons.prems(3) t(1) by simp
  show ?case
  proof (rule Cons.IH)
    show "\<And>x s s'. x \<in> set xs \<Longrightarrow> P s \<Longrightarrow> f x s = Inr s' \<Longrightarrow> P s'"
      using Cons.prems(1) by (meson list.set_intros(2))
  qed (use t(2) \<open>P t\<close> in simp_all)
qed

lemma foldE_append: "foldE f (xs @ ys) s = bindE (foldE f xs s) (foldE f ys)"
proof (induction xs arbitrary: s)
  case Nil
  then show ?case by simp
next
  case (Cons x xs)
  then show ?case by (cases "f x s") simp_all
qed

subsection \<open>What a result guarantees\<close>

text \<open>
  \<open>ensures P m\<close>: if \<open>m\<close> returns, what it returns satisfies \<open>P\<close>. Its rules follow the shape
  of an operation, so a property of a long transaction is proved from those of its steps.
\<close>

definition ensures :: "('a \<Rightarrow> bool) \<Rightarrow> 'e + 'a \<Rightarrow> bool" where
  "ensures P m = (case m of Inl _ \<Rightarrow> True | Inr x \<Rightarrow> P x)"

lemma ensures_simps [simp]: "ensures P (Inl e)" "ensures P (Inr x) = P x"
  by (simp_all add: ensures_def)

lemma ensuresD: "ensures P m \<Longrightarrow> m = Inr x \<Longrightarrow> P x"
  by simp

lemma ensuresI: "(\<And>x. m = Inr x \<Longrightarrow> P x) \<Longrightarrow> ensures P m"
  by (cases m) simp_all

lemma ensures_mono: "ensures P m \<Longrightarrow> (\<And>x. P x \<Longrightarrow> Q x) \<Longrightarrow> ensures Q m"
  by (cases m) simp_all

lemma ensures_bind:
  "ensures Q m \<Longrightarrow> (\<And>x. m = Inr x \<Longrightarrow> Q x \<Longrightarrow> ensures P (f x)) \<Longrightarrow> ensures P (bindE m f)"
  by (cases m) simp_all

lemma ensures_bind_any:
  "(\<And>x. m = Inr x \<Longrightarrow> ensures P (f x)) \<Longrightarrow> ensures P (bindE m f)"
  by (cases m) simp_all

lemma ensures_InrI: "P x \<Longrightarrow> ensures P (Inr x)"
  by simp

lemma ensures_if:
  "(b \<Longrightarrow> ensures P m) \<Longrightarrow> (\<not> b \<Longrightarrow> ensures P n) \<Longrightarrow> ensures P (if b then m else n)"
  by simp

lemma ensures_option:
  "(x = None \<Longrightarrow> ensures P m) \<Longrightarrow> (\<And>y. x = Some y \<Longrightarrow> ensures P (f y)) \<Longrightarrow>
     ensures P (case x of None \<Rightarrow> m | Some y \<Rightarrow> f y)"
  by (cases x) simp_all

lemma ensures_let: "(\<And>y. y = x \<Longrightarrow> ensures P (f y)) \<Longrightarrow> ensures P (let y = x in f y)"
  by simp

lemma ensures_prod:
  "(\<And>a b. x = (a, b) \<Longrightarrow> ensures P (f a b)) \<Longrightarrow> ensures P (case x of (a, b) \<Rightarrow> f a b)"
  by (cases x) simp

lemmas ensures_cases = ensures_if ensures_option ensures_prod

lemma ensures_foldE:
  assumes "\<And>x s. x \<in> set xs \<Longrightarrow> P s \<Longrightarrow> ensures P (f x s)" and "P s"
  shows "ensures P (foldE f xs s)"
proof (rule ensuresI)
  fix s' assume m: "foldE f xs s = Inr s'"
  show "P s'"
  proof (rule foldE_invariant [where P = P and f = f and xs = xs and s = s])
    fix x t t' assume x: "x \<in> set xs" "P t" and t: "f x t = Inr t'"
    have "ensures P (f x t)" by (rule assms(1) [OF x])
    with t show "P t'" by simp
  qed (rule m, rule assms(2))
qed

section \<open>Tables\<close>

definition row_with :: "('r \<Rightarrow> 'k) \<Rightarrow> 'k \<Rightarrow> 'r list \<Rightarrow> 'r option" where
  "row_with key k rows = find (\<lambda>r. key r = k) rows"

definition last_row :: "('r \<Rightarrow> bool) \<Rightarrow> 'r list \<Rightarrow> 'r option" where
  "last_row P rows = find P (rev rows)"

definition update_where :: "('r \<Rightarrow> bool) \<Rightarrow> ('r \<Rightarrow> 'r) \<Rightarrow> 'r list \<Rightarrow> 'r list" where
  "update_where P f rows = map (\<lambda>r. if P r then f r else r) rows"

definition count_where :: "('r \<Rightarrow> bool) \<Rightarrow> 'r list \<Rightarrow> nat" where
  "count_where P rows = length (filter P rows)"

definition insert_row :: "('r \<Rightarrow> 'k) \<Rightarrow> 'e \<Rightarrow> 'r \<Rightarrow> 'r list \<Rightarrow> 'e + 'r list" where
  "insert_row key dup r rows = (if row_with key (key r) rows = None then Inr (rows @ [r]) else Inl dup)"

lemma find_cong_set: "(\<And>x. x \<in> set xs \<Longrightarrow> P x = Q x) \<Longrightarrow> find P xs = find Q xs"
  by (induction xs) auto

lemma find_append: "find P (xs @ ys) = (case find P xs of None \<Rightarrow> find P ys | Some x \<Rightarrow> Some x)"
  by (induction xs) auto

lemma find_map_keep:
  "(\<And>x. P (f x) = P x) \<Longrightarrow> find P (map f xs) = map_option f (find P xs)"
  by (induction xs) auto

lemma find_SomeD: "find P xs = Some x \<Longrightarrow> x \<in> set xs \<and> P x"
  by (induction xs) (auto split: if_splits)

lemma find_None_iff_ball: "find P xs = None \<longleftrightarrow> (\<forall>x\<in>set xs. \<not> P x)"
  by (induction xs) auto

lemma row_with_SomeD: "row_with key k rows = Some r \<Longrightarrow> r \<in> set rows \<and> key r = k"
  unfolding row_with_def by (auto dest: find_SomeD)

lemma row_with_None_iff: "row_with key k rows = None \<longleftrightarrow> k \<notin> key ` set rows"
  unfolding row_with_def by (auto simp: find_None_iff_ball)

lemma row_with_distinct:
  "distinct (map key rows) \<Longrightarrow> r \<in> set rows \<Longrightarrow> row_with key (key r) rows = Some r"
  unfolding row_with_def by (induction rows) auto

lemma row_with_append:
  "row_with key k (xs @ ys) =
     (case row_with key k xs of None \<Rightarrow> row_with key k ys | Some x \<Rightarrow> Some x)"
  by (cases "find (\<lambda>r. key r = k) xs") (simp_all add: row_with_def find_append)

lemma row_with_single [simp]: "row_with key k [r] = (if key r = k then Some r else None)"
  by (simp add: row_with_def)

lemma row_with_Nil [simp]: "row_with key k [] = None"
  by (simp add: row_with_def)

lemma last_row_SomeD: "last_row P rows = Some r \<Longrightarrow> r \<in> set rows \<and> P r"
  unfolding last_row_def by (auto dest: find_SomeD)

lemma last_row_None_iff: "last_row P rows = None \<longleftrightarrow> (\<forall>r\<in>set rows. \<not> P r)"
  unfolding last_row_def by (auto simp: find_None_iff_ball)

lemma last_row_append_single [simp]:
  "last_row P (rows @ [r]) = (if P r then Some r else last_row P rows)"
  by (simp add: last_row_def)

lemma set_update_where:
  "set (update_where P f rows) = (\<lambda>r. if P r then f r else r) ` set rows"
  by (simp add: update_where_def)

lemma update_where_Nil [simp]: "update_where P f [] = []"
  by (simp add: update_where_def)

lemma update_where_append [simp]:
  "update_where P f (xs @ ys) = update_where P f xs @ update_where P f ys"
  by (simp add: update_where_def)

lemma update_where_none: "(\<And>r. r \<in> set rows \<Longrightarrow> \<not> P r) \<Longrightarrow> update_where P f rows = rows"
  by (induction rows) (auto simp: update_where_def)

lemma length_update_where [simp]: "length (update_where P f rows) = length rows"
  by (simp add: update_where_def)

lemma count_where_le: "count_where P rows \<le> length rows"
  by (simp add: count_where_def)

lemma count_where_key:
  assumes "distinct (map key rows)"
  shows "count_where (\<lambda>r. key r = k \<and> Q r) rows =
    (case row_with key k rows of None \<Rightarrow> 0 | Some r \<Rightarrow> if Q r then 1 else 0)"
  using assms
proof (induction rows)
  case Nil
  then show ?case by (simp add: count_where_def)
next
  case (Cons a rows)
  show ?case
  proof (cases "key a = k")
    case True
    with Cons.prems have "filter (\<lambda>r. key r = k \<and> Q r) rows = []"
      by (auto simp: filter_empty_conv image_iff)
    with True show ?thesis by (simp add: count_where_def row_with_def)
  next
    case False
    with Cons show ?thesis by (simp add: count_where_def row_with_def)
  qed
qed

lemma insert_row_Inr_iff [step_elims]:
  "insert_row key dup r rows = Inr rows' \<longleftrightarrow>
     row_with key (key r) rows = None \<and> rows' = rows @ [r]"
  by (auto simp: insert_row_def)

lemma distinct_insert_row:
  "insert_row key dup r rows = Inr rows' \<Longrightarrow> distinct (map key rows) \<Longrightarrow> distinct (map key rows')"
  by (auto simp: insert_row_Inr_iff row_with_None_iff)

lemma map_update_where_keep:
  "(\<And>r. g (f r) = g r) \<Longrightarrow> map g (update_where P f rows) = map g rows"
  by (induction rows) (auto simp: update_where_def)

lemma filter_update_where_none:
  "(\<And>r. r \<in> set rows \<Longrightarrow> P r \<Longrightarrow> \<not> Q (f r)) \<Longrightarrow> (\<And>r. r \<in> set rows \<Longrightarrow> \<not> P r \<Longrightarrow> \<not> Q r) \<Longrightarrow>
     filter Q (update_where P f rows) = []"
  by (induction rows) (auto simp: update_where_def)

subsection \<open>Writes that keep the primary key\<close>

locale keyed_table =
  fixes key :: "'r \<Rightarrow> 'k"
    and put :: "'w \<Rightarrow> 'r \<Rightarrow> 'r"
  assumes key_put: "key (put w r) = key r"
begin

lemma row_with_put:
  "row_with key k (update_where P (put w) rows) =
     map_option (\<lambda>r. if P r then put w r else r) (row_with key k rows)"
  unfolding row_with_def update_where_def by (rule find_map_keep) (simp add: key_put)

lemma keys_put: "map key (update_where P (put w) rows) = map key rows"
  by (rule map_update_where_keep) (simp add: key_put)

lemma row_with_put_other:
  "k' \<noteq> k \<Longrightarrow> row_with key k' (update_where (\<lambda>r. key r = k \<and> Q r) (put w) rows) = row_with key k' rows"
  by (cases "row_with key k' rows") (auto simp: row_with_put dest: row_with_SomeD)

lemma row_with_put_same:
  "row_with key k rows = Some r \<Longrightarrow> Q r \<Longrightarrow>
     row_with key k (update_where (\<lambda>r. key r = k \<and> Q r) (put w) rows) = Some (put w r)"
  by (auto simp: row_with_put dest: row_with_SomeD)

end

section \<open>JavaScript values\<close>

text \<open>
  A nullable string column or an optional parameter is a \<open>string option\<close>. \<open>truthy\<close> is the
  test \<open>if (x)\<close> on it: the empty string is false. \<open>a ?? b\<close> is \<open>orElse a b\<close>.
\<close>

definition truthy :: "string option \<Rightarrow> bool" where
  "truthy x = (case x of None \<Rightarrow> False | Some s \<Rightarrow> s \<noteq> [])"

definition orElse :: "'a option \<Rightarrow> 'a option \<Rightarrow> 'a option" where
  "orElse a b = (case a of None \<Rightarrow> b | Some _ \<Rightarrow> a)"

lemma orElse_simps [simp]: "orElse None b = b" "orElse (Some x) b = Some x"
  by (simp_all add: orElse_def)

lemma truthy_simps [simp]: "truthy None = False" "truthy (Some s) = (s \<noteq> [])"
  by (simp_all add: truthy_def)

lemma truthyE: "truthy x \<Longrightarrow> (\<And>s. x = Some s \<Longrightarrow> s \<noteq> [] \<Longrightarrow> P) \<Longrightarrow> P"
  by (cases x) auto

section \<open>Lists\<close>

text \<open>\<open>findIndex\<close>.\<close>

fun find_index :: "('a \<Rightarrow> bool) \<Rightarrow> 'a list \<Rightarrow> nat option" where
  "find_index P [] = None"
| "find_index P (x # xs) = (if P x then Some 0 else map_option Suc (find_index P xs))"

lemma find_index_Some: "find_index P xs = Some n \<Longrightarrow> n < length xs \<and> P (xs ! n) \<and> (\<forall>k<n. \<not> P (xs ! k))"
  by (induction xs arbitrary: n) (auto split: if_splits simp: less_Suc_eq_0_disj)

lemma find_index_None: "find_index P xs = None \<longleftrightarrow> (\<forall>x\<in>set xs. \<not> P x)"
  by (induction xs) auto

end
