(* ===== verification/Orc_Types.thy ===== *)
theory Orc_Types
  imports Texts
begin

text \<open>
  The rows, enumerations and thrown errors of the orchestration store
  (\<open>src/main/runtime/orchestration/types.ts\<close>, the terminal resource rows of
  \<open>worker-terminal-ownership.ts\<close>, the table declarations under \<open>db/schema\<close>).
  A record field is a column: \<open>TEXT\<close> is a string, a nullable column an option, a JSON
  column the value its text encodes (the dependency list, the gate's options) or, where the store
  only carries the text around, the text. The in-memory database is the record \<open>odb\<close> of all
  tables. What an operation reads from its environment, the clock and the random ids, is the record
  \<open>env\<close>: one operation reads the clock once, and \<open>gen p\<close> is the id
  \<open>generateId(p)\<close> returns in it.
\<close>

section \<open>Enumerations\<close>

datatype message_type =
    MT_status | MT_dispatch | MT_worker_done | MT_merge_ready | MT_escalation | MT_handoff
  | MT_decision_gate | MT_question | MT_heartbeat

datatype message_priority = MP_normal | MP_high | MP_urgent

datatype delivery_contract = Legacy_direct | Current_delivery | Audit_only

datatype task_status = T_pending | T_ready | T_dispatched | T_completed | T_failed | T_blocked

datatype dispatch_status = D_pending | D_dispatched | D_completed | D_failed | D_circuit_broken

datatype report_outcome = Report_succeeded | Report_failed

datatype report_reject =
  Unknown_task | Unknown_dispatch | Task_dispatch_mismatch | Inactive_dispatch | Stale_dispatch

datatype report_settlement =
    Settled report_outcome bool \<comment> \<open>the flag is \<open>duplicate\<close>\<close>
  | Rejected report_reject

datatype gate_status = G_pending | G_resolved | G_timeout

datatype coordinator_status = C_idle | C_running | C_completed | C_failed

datatype delivery_status = Outstanding | Acknowledged | Fenced

datatype question_status = Q_pending | Q_answered | Q_closed

datatype mutation_state = Mut_pending | Mut_completed

datatype worker_state =
    W_starting | W_ready | W_start_unknown | W_failed | W_succeeded
  | W_stopping | W_stop_unknown | W_stopped | W_abandoned

datatype ownership_state = Own_owned | Own_transferred | Own_user_owned | Own_external | Own_released

datatype release_state =
  Rel_not_requested | Rel_retained | Rel_requested | Rel_releasing | Rel_released | Rel_unknown

datatype retained_reason =
    RR_external_terminal | RR_ownership_transferred | RR_user_takeover | RR_user_requested
  | RR_user_kept | RR_no_owned_resource | RR_identity_unproven | RR_legacy_ambiguous
  | RR_federation_unsupported

datatype archive_kind = Transcript_pin | Terminal_tail | Structured_journal

datatype archive_status = Archive_captured | Archive_empty | Archive_unavailable

datatype home_auto_release_state = Home_armed | Home_ended

section \<open>Errors\<close>

text \<open>
  \<open>OErr c\<close> is \<open>throw new OrchestrationError(c, ...)\<close>; the message and the data
  record for the reader are left out. \<open>Plain p\<close> is a plain \<open>Error\<close> or an error SQLite
  raises.
\<close>

datatype error_code =
    Lifecycle_not_found | Lifecycle_conflict | Task_not_startable | Task_not_found
  | Resolution_not_in_options | Consumer_fenced | Dispatch_inactive | Dispatch_not_found
  | Question_not_found | Answer_conflict | Request_mismatch | Operation_unknown
  | Mutation_ledger_full | Follow_up_claimed | Terminal_kept_open | Invalid_observation
  | Observation_replay_conflict | Observation_order_conflict | Nested_worker_depth_exceeded
  | Worker_identity_changed | Terminal_release_in_progress | Invalid_argument | Archive_failed

datatype plain_error =
    Run_required | Run_not_found | Parent_not_in_run | Dependency_not_in_run
  | Unique_constraint | No_such_column | Assignee_busy | Unstamped_depth
  | Ambiguous_dispatch_parent | Answer_message_missing

datatype oerror = OErr error_code | Plain plain_error

section \<open>Rows\<close>

record run_row =
  r_id :: string
  r_objective :: string
  r_home_database :: string
  r_coordinator_handle :: "string option"
  r_coordinator_pane_key :: "string option"
  r_coordinator_orca_session_id :: "string option"
  r_coordinator_orca_session_id_generation :: "nat option"
  r_consumer_generation :: nat
  r_legacy :: nat
  r_created_at :: string
  r_updated_at :: string

record delivery_row =
  dl_id :: string
  dl_run_id :: string
  dl_mailbox_handle :: "string option"
  dl_consumer_generation :: nat
  dl_message_ids :: "string list"
  dl_status :: delivery_status
  dl_created_at :: string
  dl_acknowledged_at :: "string option"

record question_row =
  q_message_id :: string
  q_run_id :: string
  q_dispatch_id :: string
  q_asker_handle :: string
  q_status :: question_status
  q_answer_message_id :: "string option"
  q_answer_body :: "string option"
  q_answered_by_generation :: "nat option"
  q_created_at :: string
  q_answered_at :: "string option"
  q_closed_at :: "string option"

record mutation_receipt_row =
  mr_caller_fingerprint :: string
  mr_request_id :: string
  mr_method :: string
  mr_payload_hash :: string
  mr_state :: mutation_state
  mr_receipt :: "string option"
  mr_created_at :: string
  mr_updated_at :: string

record worker_row =
  w_dispatch_id :: string
  w_runtime_epoch :: "string option"
  w_state :: worker_state
  w_stage :: string
  w_worktree_id :: "string option"
  w_agent_terminal_handle :: "string option"
  w_setup_state :: string
  w_effects :: string
  w_residual_resources :: string
  w_start_options :: string
  w_last_error :: "string option"
  w_created_at :: string
  w_updated_at :: string

record federated_row =
  fd_dispatch_id :: string
  fd_environment_id :: string
  fd_environment_name :: string
  fd_peer_fingerprint :: string
  fd_protocol_version :: nat
  fd_home_auto_release_at :: "string option"
  fd_home_auto_release_state :: "home_auto_release_state option"
  fd_updated_at :: string

record attachment_row =
  ra_dispatch_id :: string
  ra_home_run_id :: string
  ra_task_id :: string
  ra_home_peer_fingerprint :: string
  ra_protocol_version :: nat
  ra_runtime_epoch :: string
  ra_pane_key :: "string option"
  ra_process_incarnation :: "string option"
  ra_state :: worker_state
  ra_depth :: nat

text \<open>
  A message's payload is opaque text, but for the question's, whose JSON the store itself writes.
\<close>

datatype message_payload =
    Payload_text string
  | Payload_question string string string "string list"
      \<comment> \<open>\<open>{ taskId, dispatchId, question, options }\<close>\<close>

record message_row =
  m_id :: string
  m_run_id :: string
  m_delivery_contract :: delivery_contract
  m_from_handle :: string
  m_to_handle :: string
  m_subject :: string
  m_body :: string
  m_type :: message_type
  m_priority :: message_priority
  m_thread_id :: "string option"
  m_payload :: "message_payload option"
  m_read :: bool
  m_sequence :: nat
  m_created_at :: string
  m_delivered_at :: "string option"
  m_sender_pane_key :: "string option"
  m_answer_sender_snapshot :: "string option"
  m_pointer_enter_pending :: nat
  m_pointer_pty_id :: "string option"
  m_pointer_process_incarnation :: "string option"

record task_row =
  t_id :: string
  t_run_id :: string
  t_parent_id :: "string option"
  t_created_by_terminal_handle :: "string option"
  t_created_by_pane_key :: "string option"
  t_created_by_process_incarnation :: "string option"
  t_created_by_run_generation :: "nat option"
  t_task_title :: "string option"
  t_display_name :: "string option"
  t_spec :: string
  t_status :: task_status
  t_deps :: "string list"
  t_result :: "string option"
  t_created_at :: string
  t_completed_at :: "string option"

record dispatch_row =
  d_id :: string
  d_run_id :: string
  d_task_id :: string
  d_contract_version :: nat
  d_launch_token_hash :: "string option"
  d_assignee_handle :: "string option"
  d_assignee_pane_key :: "string option"
  d_assignee_orca_session_id :: "string option"
  d_capability_hash :: "string option"
  d_process_incarnation :: "string option"
  d_capability_revoked_at :: "string option"
  d_retry_of_dispatch_id :: "string option"
  d_creator_dispatch_id :: "string option"
  d_creator_handle :: "string option"
  d_creator_pane_key :: "string option"
  d_creator_orca_session_id :: "string option"
  d_host_scope :: "string option"
  d_status :: dispatch_status
  d_failure_count :: nat
  d_last_failure :: "string option"
  d_termination_reason :: "string option"
  d_depth :: nat
  d_consumer_generation :: nat
  d_dispatched_at :: "string option"
  d_completed_at :: "string option"
  d_created_at :: string
  d_last_heartbeat_at :: "string option"
  d_follow_up_of_dispatch_id :: "string option"
  d_follow_up_mail_at :: "string option"

record gate_row =
  g_id :: string
  g_run_id :: string
  g_task_id :: string
  g_question :: string
  g_options :: "string list"
  g_status :: gate_status
  g_resolution :: "string option"
  g_created_at :: string
  g_resolved_at :: "string option"

record coordinator_run =
  cr_id :: string
  cr_spec :: string
  cr_status :: coordinator_status
  cr_coordinator_handle :: string
  cr_poll_interval_ms :: nat
  cr_created_at :: string
  cr_completed_at :: "string option"
  cr_scheduler_lost_at :: "string option"

record resource_row =
  wr_id :: string
  wr_origin_dispatch_id :: string
  wr_owner_dispatch_id :: string
  wr_prior_owner_dispatch_ids :: "string list"
  wr_worktree_id :: "string option"
  wr_terminal_handle :: string
  wr_pane_key :: "string option"
  wr_process_incarnation :: "string option"
  wr_endpoint_id :: "string option"
  wr_endpoint_incarnation :: "string option"
  wr_host_scope :: "string option"
  wr_ownership_state :: ownership_state
  wr_release_state :: release_state
  wr_retained_reason :: "retained_reason option"
  wr_release_requested_at :: "string option"
  wr_release_completed_at :: "string option"
  wr_release_error :: "string option"
  wr_recovery_attempt_count :: nat
  wr_last_recovery_at :: "string option"
  wr_archive_source :: "string option"
  wr_archive_status :: "archive_status option"
  wr_auto_release_at :: "string option"
  wr_auto_release_dispatch_id :: "string option"
  wr_created_at :: string
  wr_updated_at :: string
  wr_resume_session :: "string option"

record archive_row =
  ar_dispatch_id :: string
  ar_resource_id :: string
  ar_kind :: archive_kind
  ar_content :: string
  ar_created_at :: string

datatype fact_payload = Accepted_report report_outcome string | Other_fact string

record fact_row =
  f_id :: string
  f_dispatch_id :: string
  f_task_id :: string
  f_sequence :: int
  f_authority_id :: string
  f_home_clock :: bool
  f_facet :: string
  f_payload :: fact_payload
  f_source_observed_at :: "int option"
  f_execution_received_at :: "int option"
  f_home_received_at :: int
  f_created_at :: string

section \<open>The database and the environment\<close>

record odb =
  runs :: "run_row list"
  messages :: "message_row list"
  deliveries :: "delivery_row list"
  tasks :: "task_row list"
  dispatches :: "dispatch_row list"
  workers :: "worker_row list"
  gates :: "gate_row list"
  questions :: "question_row list"
  receipts :: "mutation_receipt_row list"
  federated :: "federated_row list"
  attachments :: "attachment_row list"
  remote_questions :: "(string \<times> bool \<times> string) list"
    \<comment> \<open>dispatch id, pending, created at\<close>
  coordinator_runs :: "coordinator_run list"
  resources :: "resource_row list"
  archives :: "archive_row list"
  facts :: "fact_row list"

record env =
  iso_now :: string \<comment> \<open>\<open>new Date().toISOString()\<close>\<close>
  sql_now :: string \<comment> \<open>\<open>datetime('now')\<close>\<close>
  now_ms :: int \<comment> \<open>\<open>Date.now()\<close>\<close>
  gen :: "string \<Rightarrow> string"
  cleared_from :: "(string \<times> string) list"
    \<comment> \<open>the sessions chats were cleared from, for the canonical session id\<close>

type_synonym 'a result = "oerror + 'a"

definition empty_db :: odb where
  "empty_db = \<lparr>runs = [], messages = [], deliveries = [], tasks = [], dispatches = [], workers = [],
     gates = [], questions = [], receipts = [], federated = [], attachments = [],
     remote_questions = [], coordinator_runs = [], resources = [], archives = [], facts = []\<rparr>"

definition getTask :: "odb \<Rightarrow> string \<Rightarrow> task_row option" where
  "getTask db i = row_with t_id i (tasks db)"

definition getDispatchContextById :: "odb \<Rightarrow> string \<Rightarrow> dispatch_row option" where
  "getDispatchContextById db i = row_with d_id i (dispatches db)"

definition getWorkerDispatch :: "odb \<Rightarrow> string \<Rightarrow> worker_row option" where
  "getWorkerDispatch db i = row_with w_dispatch_id i (workers db)"

definition getGate :: "odb \<Rightarrow> string \<Rightarrow> gate_row option" where
  "getGate db i = row_with g_id i (gates db)"

definition getQuestionRaw :: "odb \<Rightarrow> string \<Rightarrow> question_row option" where
  "getQuestionRaw db i = row_with q_message_id i (questions db)"

definition getMessageRaw :: "odb \<Rightarrow> string \<Rightarrow> message_row option" where
  "getMessageRaw db i = row_with m_id i (messages db)"

definition getRunRaw :: "odb \<Rightarrow> string \<Rightarrow> run_row option" where
  "getRunRaw db i = row_with r_id i (runs db)"

definition getWorkerTerminalResource :: "odb \<Rightarrow> string \<Rightarrow> resource_row option" where
  "getWorkerTerminalResource db i = row_with wr_id i (resources db)"

definition getRemoteDispatchAttachment :: "odb \<Rightarrow> string \<Rightarrow> attachment_row option" where
  "getRemoteDispatchAttachment db i = row_with ra_dispatch_id i (attachments db)"

definition getFederatedDispatch :: "odb \<Rightarrow> string \<Rightarrow> federated_row option" where
  "getFederatedDispatch db i = row_with fd_dispatch_id i (federated db)"

definition getWorkerTerminalResourceByOwner :: "odb \<Rightarrow> string \<Rightarrow> resource_row option" where
  "getWorkerTerminalResourceByOwner db i = row_with wr_owner_dispatch_id i (resources db)"

definition requireRun :: "odb \<Rightarrow> string \<Rightarrow> unit result" where
  "requireRun db i = guardE (getRunRaw db i \<noteq> None) (Plain Run_not_found)"

text \<open>\<open>status IN ('pending', 'dispatched')\<close>: the Dispatch is live.\<close>

definition active_status :: "dispatch_status \<Rightarrow> bool" where
  "active_status s = (s = D_pending \<or> s = D_dispatched)"

abbreviation active :: "dispatch_row \<Rightarrow> bool" where
  "active d \<equiv> active_status (d_status d)"

definition settled_worker_states :: "worker_state list" where
  "settled_worker_states = [W_succeeded, W_failed, W_stopped, W_abandoned]"

definition worker_settled :: "worker_state \<Rightarrow> bool" where
  "worker_settled s = (s \<in> set settled_worker_states)"

lemma active_status_simps [simp]:
  "active_status D_pending" "active_status D_dispatched" "\<not> active_status D_completed"
  "\<not> active_status D_failed" "\<not> active_status D_circuit_broken"
  by (simp_all add: active_status_def)

lemma worker_settled_simps [simp]:
  "worker_settled W_succeeded" "worker_settled W_failed" "worker_settled W_stopped"
  "worker_settled W_abandoned" "\<not> worker_settled W_starting" "\<not> worker_settled W_ready"
  "\<not> worker_settled W_start_unknown" "\<not> worker_settled W_stopping"
  "\<not> worker_settled W_stop_unknown"
  by (simp_all add: worker_settled_def settled_worker_states_def)

end
