(* ===== verification/Orc_Lifecycle.thy ===== *)
theory Orc_Lifecycle
  imports Orc_Types
begin

text \<open>
  The lifecycle graph and its single writer (\<open>db/lifecycle-transition.ts\<close>). Tasks,
  Dispatches and worker rows change state only through \<open>transitionLifecycleWithDb\<close>: it checks
  that the row exists, that its state is one the caller expects, and that the edge is in
  \<open>LEGAL_TRANSITIONS\<close> (or is the one correction a worker report may make), and then writes the
  state with its projection columns. A projection is a list of \<open>column\<close> values; the datatype is
  the allow-list \<open>PROJECTION_COLUMNS\<close>, and a column the entity's table lacks is SQLite's error.
  Callers own the transaction: an operation that throws leaves the database it was given, which is
  what its \<open>ROLLBACK\<close> does.
\<close>

section \<open>Projection columns\<close>

datatype column =
    Col_result "string option"
  | Col_completed_at "string option"
  | Col_last_failure "string option"
  | Col_failure_count nat
  | Col_capability_revoked_at "string option"
  | Col_termination_reason "string option"
  | Col_stage string
  | Col_worktree_id "string option"
  | Col_agent_terminal_handle "string option"
  | Col_setup_state string
  | Col_effects string
  | Col_residual_resources string
  | Col_last_error "string option"
  | Col_updated_at string
  | Col_runtime_epoch "string option"

fun task_has_column :: "column \<Rightarrow> bool" where
  "task_has_column (Col_result _) = True"
| "task_has_column (Col_completed_at _) = True"
| "task_has_column _ = False"

fun put_task_column :: "column \<Rightarrow> task_row \<Rightarrow> task_row" where
  "put_task_column (Col_result v) r = r\<lparr>t_result := v\<rparr>"
| "put_task_column (Col_completed_at v) r = r\<lparr>t_completed_at := v\<rparr>"
| "put_task_column _ r = r"

fun dispatch_has_column :: "column \<Rightarrow> bool" where
  "dispatch_has_column (Col_completed_at _) = True"
| "dispatch_has_column (Col_last_failure _) = True"
| "dispatch_has_column (Col_failure_count _) = True"
| "dispatch_has_column (Col_capability_revoked_at _) = True"
| "dispatch_has_column (Col_termination_reason _) = True"
| "dispatch_has_column _ = False"

fun put_dispatch_column :: "column \<Rightarrow> dispatch_row \<Rightarrow> dispatch_row" where
  "put_dispatch_column (Col_completed_at v) r = r\<lparr>d_completed_at := v\<rparr>"
| "put_dispatch_column (Col_last_failure v) r = r\<lparr>d_last_failure := v\<rparr>"
| "put_dispatch_column (Col_failure_count v) r = r\<lparr>d_failure_count := v\<rparr>"
| "put_dispatch_column (Col_capability_revoked_at v) r = r\<lparr>d_capability_revoked_at := v\<rparr>"
| "put_dispatch_column (Col_termination_reason v) r = r\<lparr>d_termination_reason := v\<rparr>"
| "put_dispatch_column _ r = r"

fun worker_has_column :: "column \<Rightarrow> bool" where
  "worker_has_column (Col_stage _) = True"
| "worker_has_column (Col_worktree_id _) = True"
| "worker_has_column (Col_agent_terminal_handle _) = True"
| "worker_has_column (Col_setup_state _) = True"
| "worker_has_column (Col_effects _) = True"
| "worker_has_column (Col_residual_resources _) = True"
| "worker_has_column (Col_last_error _) = True"
| "worker_has_column (Col_updated_at _) = True"
| "worker_has_column (Col_runtime_epoch _) = True"
| "worker_has_column _ = False"

fun put_worker_column :: "column \<Rightarrow> worker_row \<Rightarrow> worker_row" where
  "put_worker_column (Col_stage v) r = r\<lparr>w_stage := v\<rparr>"
| "put_worker_column (Col_worktree_id v) r = r\<lparr>w_worktree_id := v\<rparr>"
| "put_worker_column (Col_agent_terminal_handle v) r = r\<lparr>w_agent_terminal_handle := v\<rparr>"
| "put_worker_column (Col_setup_state v) r = r\<lparr>w_setup_state := v\<rparr>"
| "put_worker_column (Col_effects v) r = r\<lparr>w_effects := v\<rparr>"
| "put_worker_column (Col_residual_resources v) r = r\<lparr>w_residual_resources := v\<rparr>"
| "put_worker_column (Col_last_error v) r = r\<lparr>w_last_error := v\<rparr>"
| "put_worker_column (Col_updated_at v) r = r\<lparr>w_updated_at := v\<rparr>"
| "put_worker_column (Col_runtime_epoch v) r = r\<lparr>w_runtime_epoch := v\<rparr>"
| "put_worker_column _ r = r"

definition write_task :: "task_status \<Rightarrow> column list \<Rightarrow> task_row \<Rightarrow> task_row" where
  "write_task s cs r = fold put_task_column cs (r\<lparr>t_status := s\<rparr>)"

definition write_dispatch :: "dispatch_status \<Rightarrow> column list \<Rightarrow> dispatch_row \<Rightarrow> dispatch_row" where
  "write_dispatch s cs r = fold put_dispatch_column cs (r\<lparr>d_status := s\<rparr>)"

definition write_worker :: "worker_state \<Rightarrow> column list \<Rightarrow> worker_row \<Rightarrow> worker_row" where
  "write_worker s cs r = fold put_worker_column cs (r\<lparr>w_state := s\<rparr>)"

section \<open>The lifecycle graph\<close>

definition all_task_statuses :: "task_status list" where
  "all_task_statuses = [T_pending, T_ready, T_dispatched, T_completed, T_failed, T_blocked]"

definition legal_task :: "task_status \<Rightarrow> task_status list" where
  "legal_task s = all_task_statuses"

fun legal_dispatch :: "dispatch_status \<Rightarrow> dispatch_status list" where
  "legal_dispatch D_pending = [D_pending, D_dispatched, D_completed, D_failed, D_circuit_broken]"
| "legal_dispatch D_dispatched = [D_dispatched, D_completed, D_failed, D_circuit_broken]"
| "legal_dispatch D_completed = [D_completed]"
| "legal_dispatch D_failed = [D_failed]"
| "legal_dispatch D_circuit_broken = [D_circuit_broken]"

fun legal_worker :: "worker_state \<Rightarrow> worker_state list" where
  "legal_worker W_starting =
     [W_starting, W_ready, W_start_unknown, W_failed, W_stopping, W_stopped, W_abandoned]"
| "legal_worker W_start_unknown =
     [W_start_unknown, W_ready, W_failed, W_stopping, W_stopped, W_abandoned]"
| "legal_worker W_ready = [W_ready, W_succeeded, W_failed, W_stopping, W_abandoned]"
| "legal_worker W_stopping =
     [W_stopping, W_stopped, W_stop_unknown, W_ready, W_failed, W_abandoned]"
| "legal_worker W_stop_unknown = [W_stop_unknown, W_ready, W_failed, W_stopped, W_abandoned]"
| "legal_worker W_succeeded = [W_succeeded]"
| "legal_worker W_failed = [W_failed]"
| "legal_worker W_stopped = [W_stopped]"
| "legal_worker W_abandoned = [W_abandoned]"

text \<open>\<open>promptReportCorrection\<close>, per entity; \<open>b\<close> is \<open>correction === 'unobserved_prompt_report'\<close>.\<close>

definition task_correction :: "bool \<Rightarrow> task_status \<Rightarrow> task_status \<Rightarrow> bool" where
  "task_correction b s to \<longleftrightarrow> b \<and> s = T_failed \<and> to = T_completed"

definition dispatch_correction :: "bool \<Rightarrow> dispatch_status \<Rightarrow> dispatch_status \<Rightarrow> bool" where
  "dispatch_correction b s to \<longleftrightarrow>
     b \<and> (s = D_failed \<or> s = D_circuit_broken) \<and> to = D_completed"

definition worker_correction :: "bool \<Rightarrow> worker_state \<Rightarrow> worker_state \<Rightarrow> bool" where
  "worker_correction b s to \<longleftrightarrow> b \<and> s = W_failed \<and> to = W_succeeded"

section \<open>The transition\<close>

definition transition_rows ::
  "('r \<Rightarrow> string) \<Rightarrow> ('r \<Rightarrow> 's) \<Rightarrow> ('s \<Rightarrow> column list \<Rightarrow> 'r \<Rightarrow> 'r) \<Rightarrow> (column \<Rightarrow> bool) \<Rightarrow>
   ('s \<Rightarrow> 's list) \<Rightarrow> ('s \<Rightarrow> 's \<Rightarrow> bool) \<Rightarrow>
   'r list \<Rightarrow> string \<Rightarrow> 's list \<Rightarrow> 's \<Rightarrow> column list \<Rightarrow> 'r list result" where
  "transition_rows key state put has_col legal corr rows i allowed to proj =
     (case row_with key i rows of
        None \<Rightarrow> Inl (OErr Lifecycle_not_found)
      | Some r \<Rightarrow>
          if state r \<notin> set allowed then Inl (OErr Lifecycle_conflict)
          else if to \<notin> set (legal (state r)) \<and> \<not> corr (state r) to then Inl (OErr Lifecycle_conflict)
          else if \<not> list_all has_col proj then Inl (Plain No_such_column)
          else if count_where (\<lambda>r. key r = i \<and> state r \<in> set allowed) rows \<noteq> 1
               then Inl (OErr Lifecycle_conflict)
          else Inr (update_where (\<lambda>r. key r = i \<and> state r \<in> set allowed) (put to proj) rows))"

definition transition_task ::
  "bool \<Rightarrow> string \<Rightarrow> task_status list \<Rightarrow> task_status \<Rightarrow> column list \<Rightarrow> odb \<Rightarrow> odb result" where
  "transition_task b i allowed to proj db =
     bindE (transition_rows t_id t_status write_task task_has_column legal_task (task_correction b)
              (tasks db) i allowed to proj)
       (\<lambda>rows. Inr (db\<lparr>tasks := rows\<rparr>))"

definition transition_dispatch ::
  "bool \<Rightarrow> string \<Rightarrow> dispatch_status list \<Rightarrow> dispatch_status \<Rightarrow> column list \<Rightarrow> odb \<Rightarrow> odb result" where
  "transition_dispatch b i allowed to proj db =
     bindE (transition_rows d_id d_status write_dispatch dispatch_has_column legal_dispatch
              (dispatch_correction b) (dispatches db) i allowed to proj)
       (\<lambda>rows. Inr (db\<lparr>dispatches := rows\<rparr>))"

definition transition_worker ::
  "bool \<Rightarrow> string \<Rightarrow> worker_state list \<Rightarrow> worker_state \<Rightarrow> column list \<Rightarrow> odb \<Rightarrow> odb result" where
  "transition_worker b i allowed to proj db =
     bindE (transition_rows w_dispatch_id w_state write_worker worker_has_column legal_worker
              (worker_correction b) (workers db) i allowed to proj)
       (\<lambda>rows. Inr (db\<lparr>workers := rows\<rparr>))"

section \<open>What a transition does, for every entity\<close>

locale lifecycle_entity =
  fixes key :: "'r \<Rightarrow> string"
    and state :: "'r \<Rightarrow> 's"
    and put :: "'s \<Rightarrow> column list \<Rightarrow> 'r \<Rightarrow> 'r"
    and has_col :: "column \<Rightarrow> bool"
    and legal :: "'s \<Rightarrow> 's list"
  assumes key_write: "key (put s cs r) = key r"
    and state_write: "state (put s cs r) = s"
begin

sublocale writes: keyed_table key "\<lambda>(s, cs). put s cs"
  by unfold_locales (auto simp: key_write)

lemma transition_Inr:
  assumes "transition_rows key state put has_col legal corr rows i allowed to proj = Inr rows'"
  shows "\<exists>r. row_with key i rows = Some r \<and> state r \<in> set allowed \<and>
      (to \<in> set (legal (state r)) \<or> corr (state r) to) \<and>
      rows' = update_where (\<lambda>r. key r = i \<and> state r \<in> set allowed) (put to proj) rows \<and>
      row_with key i rows' = Some (put to proj r)"
proof -
  from assms obtain r where r: "row_with key i rows = Some r" "state r \<in> set allowed"
    "to \<in> set (legal (state r)) \<or> corr (state r) to"
    "rows' = update_where (\<lambda>r. key r = i \<and> state r \<in> set allowed) (put to proj) rows"
    unfolding transition_rows_def by (auto split: option.splits if_splits)
  with writes.row_with_put_same [of i rows r "\<lambda>r. state r \<in> set allowed" "(to, proj)"]
  show ?thesis by auto
qed

lemma transition_other:
  assumes "transition_rows key state put has_col legal corr rows i allowed to proj = Inr rows'"
    and "k \<noteq> i"
  shows "row_with key k rows' = row_with key k rows"
  using transition_Inr [OF assms(1)] assms(2)
    writes.row_with_put_other [of k i "\<lambda>r. state r \<in> set allowed" "(to, proj)" rows] by auto

lemma transition_keys:
  assumes "transition_rows key state put has_col legal corr rows i allowed to proj = Inr rows'"
  shows "map key rows' = map key rows"
  using transition_Inr [OF assms] writes.keys_put [of _ "(to, proj)" rows] by auto

lemma transition_fires:
  assumes "distinct (map key rows)" and "row_with key i rows = Some r"
    and "state r \<in> set allowed" and "to \<in> set (legal (state r)) \<or> corr (state r) to"
    and "list_all has_col proj"
  shows "transition_rows key state put has_col legal corr rows i allowed to proj =
    Inr (update_where (\<lambda>r. key r = i \<and> state r \<in> set allowed) (put to proj) rows)"
  using assms count_where_key [OF assms(1), of i "\<lambda>r. state r \<in> set allowed"]
  unfolding transition_rows_def by (auto split: option.splits)

lemma transition_legal:
  assumes t: "transition_rows key state put has_col legal corr rows i allowed to proj = Inr rows'"
    and x: "x \<in> set rows" "key x = i" "state x \<in> set allowed"
  shows "to \<in> set (legal (state x)) \<or> corr (state x) to"
proof -
  let ?P = "\<lambda>r. key r = i \<and> state r \<in> set allowed"
  from transition_Inr [OF t] obtain r where r: "row_with key i rows = Some r" "state r \<in> set allowed"
    "to \<in> set (legal (state r)) \<or> corr (state r) to" by auto
  from t have "count_where ?P rows = 1"
    unfolding transition_rows_def by (auto split: option.splits if_splits)
  then obtain y where y: "filter ?P rows = [y]"
    unfolding count_where_def by (auto simp: length_Suc_conv)
  have "r \<in> set (filter ?P rows)" "x \<in> set (filter ?P rows)"
    using r(1,2) x by (auto dest: row_with_SomeD)
  with y r(3) show ?thesis by auto
qed

text \<open>The row that moves is the only one written, and every row keeps its key.\<close>

lemma transition_member:
  assumes t: "transition_rows key state put has_col legal corr rows i allowed to proj = Inr rows'"
    and r': "r' \<in> set rows'"
  shows "r' \<in> set rows \<or>
    (\<exists>r\<in>set rows. key r = i \<and> state r \<in> set allowed \<and> r' = put to proj r)"
  using transition_Inr [OF t] r' by (auto simp: set_update_where split: if_splits)

end

locale lifecycle_graph = lifecycle_entity +
  fixes terminal
  assumes terminal_absorbing: "terminal s \<Longrightarrow> set (legal s) \<subseteq> {s}"
begin

lemma terminal_kept:
  assumes "transition_rows key state put has_col legal (\<lambda>_ _. False) rows i allowed to proj = Inr rows'"
    and "row_with key k rows = Some r" and "terminal (state r)"
  shows "\<exists>r'. row_with key k rows' = Some r' \<and> state r' = state r"
proof (cases "k = i")
  case True
  from transition_Inr [OF assms(1)] assms(2) True
  have "row_with key k rows' = Some (put to proj r)" "to \<in> set (legal (state r))" by auto
  with terminal_absorbing [OF assms(3)] show ?thesis by (auto simp: state_write)
next
  case False
  with transition_other [OF assms(1)] assms(2) show ?thesis by auto
qed

end

section \<open>The three entities\<close>

lemma put_task_column_frame [simp]:
  "t_id (put_task_column c r) = t_id r" "t_status (put_task_column c r) = t_status r"
  "t_deps (put_task_column c r) = t_deps r" "t_run_id (put_task_column c r) = t_run_id r"
  by (cases c; simp)+

lemma put_dispatch_column_frame [simp]:
  "d_id (put_dispatch_column c r) = d_id r" "d_status (put_dispatch_column c r) = d_status r"
  "d_task_id (put_dispatch_column c r) = d_task_id r"
  "d_run_id (put_dispatch_column c r) = d_run_id r"
  "d_assignee_handle (put_dispatch_column c r) = d_assignee_handle r"
  "d_assignee_pane_key (put_dispatch_column c r) = d_assignee_pane_key r"
  "d_depth (put_dispatch_column c r) = d_depth r"
  "d_creator_dispatch_id (put_dispatch_column c r) = d_creator_dispatch_id r"
  "d_consumer_generation (put_dispatch_column c r) = d_consumer_generation r"
  by (cases c; simp)+

lemma put_worker_column_frame [simp]:
  "w_dispatch_id (put_worker_column c r) = w_dispatch_id r"
  "w_state (put_worker_column c r) = w_state r"
  by (cases c; simp)+

lemma fold_frame: "(\<And>c r. g (f c r) = g r) \<Longrightarrow> g (fold f cs r) = g r"
  by (induction cs arbitrary: r) auto

lemma write_task_simps [simp]:
  "t_id (write_task s cs r) = t_id r" "t_status (write_task s cs r) = s"
  "t_deps (write_task s cs r) = t_deps r" "t_run_id (write_task s cs r) = t_run_id r"
  by (simp_all add: write_task_def fold_frame [of t_id] fold_frame [of t_status]
    fold_frame [of t_deps] fold_frame [of t_run_id])

lemma write_dispatch_simps [simp]:
  "d_id (write_dispatch s cs r) = d_id r" "d_status (write_dispatch s cs r) = s"
  "d_task_id (write_dispatch s cs r) = d_task_id r"
  "d_run_id (write_dispatch s cs r) = d_run_id r"
  "d_assignee_handle (write_dispatch s cs r) = d_assignee_handle r"
  "d_assignee_pane_key (write_dispatch s cs r) = d_assignee_pane_key r"
  "d_depth (write_dispatch s cs r) = d_depth r"
  "d_creator_dispatch_id (write_dispatch s cs r) = d_creator_dispatch_id r"
  "d_consumer_generation (write_dispatch s cs r) = d_consumer_generation r"
  by (simp_all add: write_dispatch_def fold_frame [of d_id] fold_frame [of d_status]
    fold_frame [of d_task_id] fold_frame [of d_run_id] fold_frame [of d_assignee_handle]
    fold_frame [of d_assignee_pane_key] fold_frame [of d_depth] fold_frame [of d_creator_dispatch_id]
    fold_frame [of d_consumer_generation])

lemma write_worker_simps [simp]:
  "w_dispatch_id (write_worker s cs r) = w_dispatch_id r" "w_state (write_worker s cs r) = s"
  by (simp_all add: write_worker_def fold_frame [of w_dispatch_id] fold_frame [of w_state])

definition dispatch_terminal :: "dispatch_status \<Rightarrow> bool" where
  "dispatch_terminal s \<longleftrightarrow> \<not> active_status s"

interpretation task_lc: lifecycle_entity t_id t_status write_task task_has_column legal_task
  by unfold_locales simp_all

interpretation dispatch_lc:
  lifecycle_graph d_id d_status write_dispatch dispatch_has_column legal_dispatch dispatch_terminal
proof unfold_locales
  fix s
  show "dispatch_terminal s \<Longrightarrow> set (legal_dispatch s) \<subseteq> {s}"
    by (cases s) (simp_all add: dispatch_terminal_def)
qed simp_all

interpretation worker_lc:
  lifecycle_graph w_dispatch_id w_state write_worker worker_has_column legal_worker worker_settled
proof unfold_locales
  fix s
  show "worker_settled s \<Longrightarrow> set (legal_worker s) \<subseteq> {s}"
    by (cases s) simp_all
qed simp_all

lemma no_correction [simp]:
  "task_correction False = (\<lambda>_ _. False)" "dispatch_correction False = (\<lambda>_ _. False)"
  "worker_correction False = (\<lambda>_ _. False)"
  by (simp_all add: fun_eq_iff task_correction_def dispatch_correction_def worker_correction_def)

text \<open>A transition writes one table.\<close>

lemma transition_task_frame:
  "transition_task b i allowed to proj db = Inr db' \<Longrightarrow> \<exists>rows. db' = db\<lparr>tasks := rows\<rparr>"
  by (auto simp: transition_task_def bindE_Inr_iff)

lemma transition_dispatch_frame:
  "transition_dispatch b i allowed to proj db = Inr db' \<Longrightarrow> \<exists>rows. db' = db\<lparr>dispatches := rows\<rparr>"
  by (auto simp: transition_dispatch_def bindE_Inr_iff)

lemma transition_worker_frame:
  "transition_worker b i allowed to proj db = Inr db' \<Longrightarrow> \<exists>rows. db' = db\<lparr>workers := rows\<rparr>"
  by (auto simp: transition_worker_def bindE_Inr_iff)

end
