(* ===== verification/Orc_Tasks.thy ===== *)
theory Orc_Tasks
  imports Orc_Lifecycle "HOL-Library.List_Lexorder" "HOL-Library.Char_ord"
begin

text \<open>
  The task store (\<open>db/tasks/task-store.ts\<close>) and the display metadata a task is created with
  (\<open>shared/orchestration-task-display.ts\<close>): creating a task with its dependency gate, the
  lists \<open>ORDER BY created_at\<close> (a stable sort of the rowid order), and the promotion of the tasks
  a completion unblocks. \<open>promote_spec\<close> says in one map over the table what the promotion loop
  computes. Strings are lists of 8-bit code units, so no surrogate pair occurs in them.
\<close>

section \<open>Display metadata\<close>

text \<open>\<open>replace(/\s+/g, ' ')\<close>.\<close>

function collapse_spaces :: "string \<Rightarrow> string" where
  "collapse_spaces [] = []"
| "collapse_spaces (c # cs) =
     (if js_space c then CHR '' '' # collapse_spaces (dropWhile js_space cs)
      else c # collapse_spaces cs)"
  by pat_completeness auto
termination
  by (relation "measure length") (auto simp: le_imp_less_Suc length_dropWhile_le)

definition trimDanglingHighSurrogate :: "string \<Rightarrow> string" where
  "trimDanglingHighSurrogate s =
     (if s = [] then s
      else if (0xd800::nat) \<le> of_char (last s) \<and> of_char (last s) \<le> (0xdbff::nat) then butlast s
      else s)"

definition normalizeSingleLine :: "string option \<Rightarrow> nat \<Rightarrow> string" where
  "normalizeSingleLine v maxLength =
     (if \<not> truthy v then []
      else let normalized = collapse_spaces (trim (the v)) in
        if normalized = [] then []
        else if length normalized \<le> maxLength then normalized
        else trimEnd (trimDanglingHighSurrogate (take (maxLength - 3) normalized)) @ ''...'')"

definition task_title_max_length :: nat where "task_title_max_length = 80"
definition display_name_max_length :: nat where "display_name_max_length = 160"

definition deriveTaskTitleFromSpec :: "string \<Rightarrow> string" where
  "deriveTaskTitleFromSpec spec =
     (case find (\<lambda>t. t \<noteq> [])
        (map (\<lambda>line. normalizeSingleLine (Some line) task_title_max_length) (split_lines [] spec)) of
        Some title \<Rightarrow> title
      | None \<Rightarrow> normalizeSingleLine (Some spec) task_title_max_length)"

text \<open>The pair \<open>{ taskTitle, displayName }\<close>; \<open>a || b\<close> takes \<open>b\<close> when \<open>a\<close> is empty.\<close>

definition buildOrchestrationTaskDisplayMetadata ::
  "string \<Rightarrow> string option \<Rightarrow> string option \<Rightarrow> string \<times> string" where
  "buildOrchestrationTaskDisplayMetadata spec taskTitle displayName =
     (let given = normalizeSingleLine taskTitle task_title_max_length;
          title = (if given \<noteq> [] then given else deriveTaskTitleFromSpec spec);
          name = normalizeSingleLine displayName display_name_max_length
      in (title, if name \<noteq> [] then name else title))"

section \<open>Creating a task\<close>

record create_task_params =
  ct_spec :: string
  ct_taskTitle :: "string option"
  ct_displayName :: "string option"
  ct_deps :: "string list"
  ct_parentId :: "string option"
  ct_createdByTerminalHandle :: "string option"
  ct_createdByPaneKey :: "string option"
  ct_createdByProcessIncarnation :: "string option"
  ct_createdByRunGeneration :: "nat option"
  ct_runId :: "string option"

definition task_in_run :: "odb \<Rightarrow> string \<Rightarrow> string \<Rightarrow> bool" where
  "task_in_run db run i = (case getTask db i of None \<Rightarrow> False | Some t \<Rightarrow> t_run_id t = run)"

definition task_completed :: "odb \<Rightarrow> string \<Rightarrow> bool" where
  "task_completed db i = (case getTask db i of None \<Rightarrow> False | Some t \<Rightarrow> t_status t = T_completed)"

text \<open>The \<open>CASE WHEN EXISTS ... THEN 'pending' ELSE 'ready'\<close> of the insert.\<close>

definition initial_task_status :: "odb \<Rightarrow> string \<Rightarrow> string list \<Rightarrow> task_status" where
  "initial_task_status db run deps =
     (if list_ex (\<lambda>d. case getTask db d of
            None \<Rightarrow> True
          | Some t \<Rightarrow> t_run_id t \<noteq> run \<or> t_status t \<noteq> T_completed) deps
      then T_pending else T_ready)"

definition nonempty :: "string \<Rightarrow> string option" where
  "nonempty s = (if s = [] then None else Some s)"

definition createTask :: "env \<Rightarrow> create_task_params \<Rightarrow> odb \<Rightarrow> (task_row \<times> odb) result" where
  "createTask e p db =
     bindE (guardE (truthy (ct_runId p)) (Plain Run_required)) (\<lambda>_.
     let run = the (ct_runId p) in
     bindE (requireRun db run) (\<lambda>_.
     bindE (guardE (truthy (ct_parentId p) \<longrightarrow> task_in_run db run (the (ct_parentId p)))
              (Plain Parent_not_in_run)) (\<lambda>_.
     bindE (guardE (list_all (task_in_run db run) (ct_deps p)) (Plain Dependency_not_in_run)) (\<lambda>_.
     let display = buildOrchestrationTaskDisplayMetadata (ct_spec p) (ct_taskTitle p) (ct_displayName p);
         row = \<lparr>t_id = gen e ''task'', t_run_id = run, t_parent_id = ct_parentId p,
           t_created_by_terminal_handle = ct_createdByTerminalHandle p,
           t_created_by_pane_key = ct_createdByPaneKey p,
           t_created_by_process_incarnation = ct_createdByProcessIncarnation p,
           t_created_by_run_generation = ct_createdByRunGeneration p,
           t_task_title = nonempty (fst display), t_display_name = nonempty (snd display),
           t_spec = ct_spec p, t_status = initial_task_status db run (ct_deps p),
           t_deps = ct_deps p, t_result = None, t_created_at = sql_now e,
           t_completed_at = None\<rparr>
     in bindE (insert_row t_id (Plain Unique_constraint) row (tasks db)) (\<lambda>rows.
        Inr (row, db\<lparr>tasks := rows\<rparr>))))))"

section \<open>Lists\<close>

record task_filter =
  tf_status :: "task_status option"
  tf_ready :: bool
  tf_runId :: "string option"

definition in_run_filter :: "task_filter \<Rightarrow> task_row \<Rightarrow> bool" where
  "in_run_filter f t = (truthy (tf_runId f) \<longrightarrow> Some (t_run_id t) = tf_runId f)"

definition listTasks :: "odb \<Rightarrow> task_filter \<Rightarrow> task_row list" where
  "listTasks db f =
     (let rows = (if tf_ready f then filter (\<lambda>t. in_run_filter f t \<and> t_status t = T_ready) (tasks db)
        else case tf_status f of
          Some s \<Rightarrow> filter (\<lambda>t. in_run_filter f t \<and> t_status t = s) (tasks db)
        | None \<Rightarrow> filter (in_run_filter f) (tasks db))
      in sort_key t_created_at rows)"

text \<open>The newest live Dispatch of a task: \<open>ORDER BY rowid DESC LIMIT 1\<close>.\<close>

definition getActiveDispatchForTask :: "odb \<Rightarrow> string \<Rightarrow> dispatch_row option" where
  "getActiveDispatchForTask db task = last_row (\<lambda>d. d_task_id d = task \<and> active d) (dispatches db)"

definition listTasksWithDispatch ::
  "odb \<Rightarrow> task_filter \<Rightarrow> (task_row \<times> string option \<times> string option) list" where
  "listTasksWithDispatch db f =
     map (\<lambda>t. case getActiveDispatchForTask db (t_id t) of
            None \<Rightarrow> (t, None, None)
          | Some d \<Rightarrow> (t, d_assignee_handle d, Some (d_id d)))
       (sort_key t_created_at
         (filter (\<lambda>t. in_run_filter f t \<and>
            (if tf_ready f then t_status t = T_ready
             else case tf_status f of Some s \<Rightarrow> t_status t = s | None \<Rightarrow> True)) (tasks db)))"

section \<open>Promotion\<close>

definition promote_one :: "string \<Rightarrow> task_row \<Rightarrow> odb \<Rightarrow> odb result" where
  "promote_one completed t db =
     (if completed \<notin> set (t_deps t) then Inr db
      else if list_all (task_completed db) (t_deps t)
      then transition_task False (t_id t) [T_pending] T_ready [] db
      else Inr db)"

definition promoteReadyTasks :: "string \<Rightarrow> odb \<Rightarrow> odb result" where
  "promoteReadyTasks completed db =
     foldE (promote_one completed) (filter (\<lambda>t. t_status t = T_pending) (tasks db)) db"

text \<open>What the loop computes: every pending task that waited for \<open>completed\<close> and for nothing
  else becomes ready, and no other row changes.\<close>

definition promote_spec :: "string \<Rightarrow> odb \<Rightarrow> task_row \<Rightarrow> task_row" where
  "promote_spec completed db t =
     (if t_status t = T_pending \<and> completed \<in> set (t_deps t) \<and>
        list_all (task_completed db) (t_deps t) then t\<lparr>t_status := T_ready\<rparr> else t)"

lemma t_id_promote_spec [simp]: "t_id (promote_spec c db t) = t_id t"
  by (simp add: promote_spec_def)

lemma t_deps_promote_spec [simp]: "t_deps (promote_spec c db t) = t_deps t"
  by (simp add: promote_spec_def)

lemma task_completed_promote:
  assumes "tasks db' = map (\<lambda>t. if t_id t \<in> S then promote_spec c db t else t) (tasks db)"
  shows "task_completed db' i = task_completed db i"
proof -
  have "getTask db' i =
      map_option (\<lambda>t. if t_id t \<in> S then promote_spec c db t else t) (getTask db i)"
    unfolding getTask_def row_with_def assms by (rule find_map_keep) simp
  then show ?thesis
    by (auto simp: task_completed_def promote_spec_def split: option.splits)
qed

lemma tasks_same: "tasks db = ts \<Longrightarrow> db\<lparr>tasks := ts\<rparr> = db"
  by (drule sym) simp

lemma promote_one_step:
  assumes d: "distinct (map t_id (tasks db0))"
    and T: "tasks db = map (\<lambda>t. if t_id t \<in> S then promote_spec c db0 t else t) (tasks db0)"
    and t: "t \<in> set (tasks db0)" "t_status t = T_pending" "t_id t \<notin> S"
  shows "promote_one c t db = Inr (db\<lparr>tasks :=
    map (\<lambda>u. if t_id u \<in> insert (t_id t) S then promote_spec c db0 u else u) (tasks db0)\<rparr>)"
proof -
  have comp: "task_completed db = task_completed db0"
    by (rule ext) (rule task_completed_promote [OF T])
  have same: "u = t" if "u \<in> set (tasks db0)" "t_id u = t_id t" for u
    using d t(1) that by (metis row_with_distinct option.inject)
  show ?thesis
  proof (cases "c \<in> set (t_deps t) \<and> list_all (task_completed db0) (t_deps t)")
    case True
    have keys: "map t_id (tasks db) = map t_id (tasks db0)" by (auto simp: T)
    have "t \<in> set (tasks db)" using t by (auto simp: T image_iff)
    with keys d have look: "row_with t_id (t_id t) (tasks db) = Some t"
      by (metis row_with_distinct)
    have "transition_task False (t_id t) [T_pending] T_ready [] db =
      Inr (db\<lparr>tasks := update_where (\<lambda>r. t_id r = t_id t \<and> t_status r \<in> {T_pending})
        (write_task T_ready []) (tasks db)\<rparr>)"
      using task_lc.transition_fires [OF _ look, of "[T_pending]" T_ready "\<lambda>_ _. False" "[]"] d keys t(2)
      by (simp add: transition_task_def legal_task_def all_task_statuses_def)
    moreover have "update_where (\<lambda>r. t_id r = t_id t \<and> t_status r \<in> {T_pending})
        (write_task T_ready []) (tasks db) =
      map (\<lambda>u. if t_id u \<in> insert (t_id t) S then promote_spec c db0 u else u) (tasks db0)"
      unfolding T update_where_def map_map
      by (rule map_cong [OF refl])
        (use same t True in \<open>auto simp: promote_spec_def write_task_def\<close>)
    ultimately show ?thesis using True by (simp add: promote_one_def comp)
  next
    case False
    then have "promote_one c t db = Inr db" by (auto simp: promote_one_def comp)
    moreover have "tasks db =
      map (\<lambda>u. if t_id u \<in> insert (t_id t) S then promote_spec c db0 u else u) (tasks db0)"
      unfolding T by (rule map_cong [OF refl]) (use False same in \<open>auto simp: promote_spec_def\<close>)
    ultimately show ?thesis by (simp add: tasks_same)
  qed
qed

lemma promote_loop:
  assumes d: "distinct (map t_id (tasks db0))"
    and "tasks db = map (\<lambda>t. if t_id t \<in> S then promote_spec c db0 t else t) (tasks db0)"
    and "distinct (map t_id ts)" and "set ts \<subseteq> set (tasks db0)"
    and "\<forall>t\<in>set ts. t_status t = T_pending \<and> t_id t \<notin> S"
  shows "foldE (promote_one c) ts db = Inr (db\<lparr>tasks :=
    map (\<lambda>u. if t_id u \<in> S \<union> t_id ` set ts then promote_spec c db0 u else u) (tasks db0)\<rparr>)"
  using assms(2-)
proof (induction ts arbitrary: db S)
  case Nil
  then show ?case by (simp add: tasks_same)
next
  case (Cons t ts)
  let ?db = "db\<lparr>tasks :=
    map (\<lambda>u. if t_id u \<in> insert (t_id t) S then promote_spec c db0 u else u) (tasks db0)\<rparr>"
  have step: "promote_one c t db = Inr ?db"
    using promote_one_step [OF d Cons.prems(1), of t] Cons.prems(3,4) by simp
  have "foldE (promote_one c) ts ?db = Inr (?db\<lparr>tasks :=
    map (\<lambda>u. if t_id u \<in> insert (t_id t) S \<union> t_id ` set ts then promote_spec c db0 u else u)
      (tasks db0)\<rparr>)"
    by (rule Cons.IH) (use Cons.prems in \<open>auto simp: image_iff\<close>)
  with step show ?case by simp
qed

lemma promoteReadyTasks_spec:
  assumes "distinct (map t_id (tasks db))"
  shows "promoteReadyTasks c db = Inr (db\<lparr>tasks := map (promote_spec c db) (tasks db)\<rparr>)"
proof -
  let ?ts = "filter (\<lambda>t. t_status t = T_pending) (tasks db)"
  have "promoteReadyTasks c db = Inr (db\<lparr>tasks :=
      map (\<lambda>u. if t_id u \<in> {} \<union> t_id ` set ?ts then promote_spec c db u else u) (tasks db)\<rparr>)"
    unfolding promoteReadyTasks_def
    by (rule promote_loop [OF assms]) (use assms in \<open>auto simp: distinct_map_filter\<close>)
  moreover have "map (\<lambda>u. if t_id u \<in> {} \<union> t_id ` set ?ts then promote_spec c db u else u) (tasks db)
      = map (promote_spec c db) (tasks db)"
    by (rule map_cong [OF refl]) (auto simp: promote_spec_def)
  ultimately show ?thesis by simp
qed

lemma createTask_Inr:
  "createTask e p db = Inr (row, db') \<Longrightarrow>
     getTask db (t_id row) = None \<and> db' = db\<lparr>tasks := tasks db @ [row]\<rparr> \<and>
     t_id row = gen e ''task'' \<and> Some (t_run_id row) = ct_runId p \<and> t_deps row = ct_deps p \<and>
     t_status row = initial_task_status db (t_run_id row) (ct_deps p) \<and>
     list_all (task_in_run db (t_run_id row)) (ct_deps p)"
  unfolding createTask_def Let_def
  by (cases "ct_runId p") (auto simp: step_elims getTask_def)

end
