(* ===== verification/Orc_Identity.thy ===== *)
theory Orc_Identity
  imports Orc_Types
begin

text \<open>
  The string identities the orchestration store compares: pane keys \<open>tab:leaf\<close> with a UUID leaf
  (\<open>shared/workspace-layout/stable-pane-id.ts\<close>, \<open>db/pane-key-match.ts\<close>), Orca session
  ids and addresses (\<open>shared/orca-session-address.ts\<close>), structured worker handles and
  incarnations, the lineage root a cleared chat is addressed by (\<open>canonical-orca-session-id.ts\<close>),
  and SQLite's timestamp spelling (\<open>db/utc-timestamp.ts\<close>). A regular expression of fixed width is
  the list of character classes it matches one by one.
\<close>

section \<open>Character classes\<close>

definition is_hex :: "char \<Rightarrow> bool" where
  "is_hex c = (is_digit c \<or> ((97::nat) \<le> of_char c \<and> of_char c \<le> (102::nat)))"

definition is_alnum :: "char \<Rightarrow> bool" where
  "is_alnum c = (is_digit c \<or> ((97::nat) \<le> of_char c \<and> of_char c \<le> (122::nat))
     \<or> ((65::nat) \<le> of_char c \<and> of_char c \<le> (90::nat)))"

fun matches_classes :: "(char \<Rightarrow> bool) list \<Rightarrow> string \<Rightarrow> bool" where
  "matches_classes [] [] = True"
| "matches_classes (p # ps) (c # cs) = (p c \<and> matches_classes ps cs)"
| "matches_classes _ _ = False"

lemma matches_classes_length: "matches_classes ps s \<Longrightarrow> length s = length ps"
  by (induction ps s rule: matches_classes.induct) auto

lemma matches_classes_nth: "matches_classes ps s \<Longrightarrow> i < length ps \<Longrightarrow> (ps ! i) (s ! i)"
  by (induction ps s arbitrary: i rule: matches_classes.induct) (auto simp: nth_Cons split: nat.splits)

section \<open>Pane keys\<close>

text \<open>\<open>UUID_RE\<close>.\<close>

definition uuid_classes :: "(char \<Rightarrow> bool) list" where
  "uuid_classes =
     replicate 8 is_hex @ [(=) CHR ''-''] @ replicate 4 is_hex @ [(=) CHR ''-''] @
     [\<lambda>c. (49::nat) \<le> of_char c \<and> of_char c \<le> (53::nat)] @ replicate 3 is_hex @ [(=) CHR ''-''] @
     [\<lambda>c. c \<in> set ''89ab''] @ replicate 3 is_hex @ [(=) CHR ''-''] @ replicate 12 is_hex"

definition isStablePaneId :: "string \<Rightarrow> bool" where
  "isStablePaneId v = matches_classes uuid_classes v"

definition isTerminalLeafId :: "string \<Rightarrow> bool" where
  "isTerminalLeafId v = isStablePaneId v"

text \<open>\<open>makePaneKey\<close>: \<open>None\<close> is the thrown error.\<close>

definition makePaneKey :: "string \<Rightarrow> string \<Rightarrow> string option" where
  "makePaneKey tabId leaf =
     (if tabId = [] \<or> CHR '':'' \<in> set tabId then None
      else if \<not> isTerminalLeafId leaf then None
      else Some (tabId @ '':'' @ leaf))"

definition before_colon :: "string \<Rightarrow> string" where
  "before_colon s = takeWhile (\<lambda>c. c \<noteq> CHR '':'') s"

definition after_colon :: "string \<Rightarrow> string" where
  "after_colon s = drop (Suc (length (before_colon s))) s"

text \<open>
  \<open>parsePaneKey\<close>: exactly one colon, with text on both sides, and a UUID after it. The first colon
  is at position \<open>length (before_colon s)\<close>; it is the last one when none follows it.
\<close>

definition parsePaneKey :: "string \<Rightarrow> (string \<times> string) option" where
  "parsePaneKey k =
     (let tab = before_colon k; leaf = after_colon k in
      if CHR '':'' \<notin> set k \<or> tab = [] \<or> CHR '':'' \<in> set leaf \<or> leaf = [] then None
      else if \<not> isTerminalLeafId leaf then None
      else Some (tab, leaf))"

definition paneKeyMatchSuffix :: "string \<Rightarrow> string" where
  "paneKeyMatchSuffix k = (if CHR '':'' \<in> set k then after_colon k else k)"

definition isEquivalentPaneKey :: "string \<Rightarrow> string \<Rightarrow> bool" where
  "isEquivalentPaneKey a b =
     (a = b \<or> (case (parsePaneKey a, parsePaneKey b) of
        (Some (_, la), Some (_, lb)) \<Rightarrow> la = lb
      | _ \<Rightarrow> False))"

text \<open>\<open>substr(col, instr(col, ':') + 1)\<close> and \<open>instr(col, ':') > 1\<close>, as the SQL prefilter computes them.\<close>

definition sql_pane_suffix :: "string \<Rightarrow> string" where
  "sql_pane_suffix k = (if CHR '':'' \<in> set k then after_colon k else k)"

definition sql_colon_past_start :: "string \<Rightarrow> bool" where
  "sql_colon_past_start k = (CHR '':'' \<in> set k \<and> before_colon k \<noteq> [])"

lemma uuid_no_colon: "isTerminalLeafId v \<Longrightarrow> CHR '':'' \<notin> set v \<and> v \<noteq> []"
proof -
  assume v: "isTerminalLeafId v"
  have all: "\<forall>p\<in>set uuid_classes. \<not> p (CHR '':'')"
    unfolding uuid_classes_def by (simp add: is_hex_def is_digit_def)
  have len: "length v = length uuid_classes" and m: "\<And>i. i < length uuid_classes \<Longrightarrow> (uuid_classes ! i) (v ! i)"
    using v matches_classes_length matches_classes_nth
    unfolding isTerminalLeafId_def isStablePaneId_def by auto
  have "CHR '':'' \<notin> set v"
    using all m len by (metis in_set_conv_nth nth_mem)
  moreover have "v \<noteq> []" using len by (auto simp: uuid_classes_def)
  ultimately show ?thesis by simp
qed

lemma colon_split:
  assumes "CHR '':'' \<notin> set a"
  shows "before_colon (a @ CHR '':'' # b) = a" "after_colon (a @ CHR '':'' # b) = b"
proof -
  show before: "before_colon (a @ CHR '':'' # b) = a"
    unfolding before_colon_def using assms by (subst takeWhile_append2) auto
  then show "after_colon (a @ CHR '':'' # b) = b" by (simp add: after_colon_def)
qed

lemma colon_join:
  assumes "CHR '':'' \<in> set s"
  shows "before_colon s @ CHR '':'' # after_colon s = s"
proof -
  from assms obtain a b where s: "s = a @ CHR '':'' # b" "CHR '':'' \<notin> set a"
    by (meson split_list_first)
  then show ?thesis by (simp add: colon_split)
qed

lemma makePaneKey_parse:
  "makePaneKey tab leaf = Some k \<longleftrightarrow> parsePaneKey k = Some (tab, leaf)"
proof
  assume "makePaneKey tab leaf = Some k"
  then have "k = tab @ CHR '':'' # leaf" "tab \<noteq> []" "CHR '':'' \<notin> set tab" "isTerminalLeafId leaf"
    by (auto simp: makePaneKey_def split: if_splits)
  with uuid_no_colon [of leaf] show "parsePaneKey k = Some (tab, leaf)"
    by (simp add: parsePaneKey_def colon_split)
next
  assume p: "parsePaneKey k = Some (tab, leaf)"
  then have k: "CHR '':'' \<in> set k" and "tab = before_colon k" "leaf = after_colon k" "tab \<noteq> []"
      "isTerminalLeafId leaf"
    by (auto simp: parsePaneKey_def Let_def split: if_splits)
  moreover have "CHR '':'' \<notin> set tab"
    using \<open>tab = before_colon k\<close> by (auto simp: before_colon_def dest: set_takeWhileD)
  ultimately show "makePaneKey tab leaf = Some k"
    using colon_join [OF k] by (simp add: makePaneKey_def)
qed

lemma equivalent_pane_refl [simp]: "isEquivalentPaneKey a a"
  by (simp add: isEquivalentPaneKey_def)

lemma equivalent_pane_sym: "isEquivalentPaneKey a b = isEquivalentPaneKey b a"
  by (auto simp: isEquivalentPaneKey_def split: option.splits prod.splits)

lemma equivalent_pane_trans:
  "isEquivalentPaneKey a b \<Longrightarrow> isEquivalentPaneKey b c \<Longrightarrow> isEquivalentPaneKey a c"
  by (auto simp: isEquivalentPaneKey_def split: option.splits prod.splits)

text \<open>The SQL prefilter loses no equivalent key.\<close>

lemma suffix_prefilter:
  assumes "isEquivalentPaneKey a b" and "parsePaneKey b \<noteq> None"
  shows "sql_colon_past_start a \<and> sql_pane_suffix a = paneKeyMatchSuffix b"
  using assms unfolding isEquivalentPaneKey_def
  by (auto simp: parsePaneKey_def sql_colon_past_start_def sql_pane_suffix_def
    paneKeyMatchSuffix_def Let_def split: if_splits option.splits)

section \<open>Sessions\<close>

text \<open>\<open>SESSION_ID_PATTERN\<close>: 8 to 128 letters, digits, underscores and hyphens.\<close>

definition isAgentSessionId :: "string \<Rightarrow> bool" where
  "isAgentSessionId s =
     (8 \<le> length s \<and> length s \<le> 128 \<and> list_all (\<lambda>c. is_alnum c \<or> c = CHR ''_'' \<or> c = CHR ''-'') s)"

definition structured_worker_handle_prefix :: string where
  "structured_worker_handle_prefix = ''structworker_''"

definition orca_session_address_prefix :: string where
  "orca_session_address_prefix = ''orca_session_id:''"

definition isStructuredWorkerHandle :: "string option \<Rightarrow> bool" where
  "isStructuredWorkerHandle h =
     (case h of None \<Rightarrow> False | Some s \<Rightarrow> starts_with structured_worker_handle_prefix s)"

definition isOrcaSessionId :: "string \<Rightarrow> bool" where
  "isOrcaSessionId i =
     (isAgentSessionId i \<and> \<not> starts_with ''term_'' i \<and> \<not> starts_with structured_worker_handle_prefix i)"

definition parseOrcaSessionAddress :: "string option \<Rightarrow> string option" where
  "parseOrcaSessionAddress a =
     (case a of None \<Rightarrow> None
      | Some s \<Rightarrow> (case strip_prefix orca_session_address_prefix s of
          None \<Rightarrow> None
        | Some i \<Rightarrow> if isOrcaSessionId i then Some i else None))"

text \<open>\<open>formatOrcaSessionAddress\<close>: \<open>None\<close> is the thrown error.\<close>

definition formatOrcaSessionAddress :: "string \<Rightarrow> string option" where
  "formatOrcaSessionAddress i =
     (let address = orca_session_address_prefix @ i in
      if parseOrcaSessionAddress (Some address) = None then None else Some address)"

lemma strip_prefix_SomeD: "strip_prefix p s = Some t \<Longrightarrow> s = p @ t"
  by (auto simp: strip_prefix_def starts_with_def split: if_splits) (metis append_take_drop_id)

lemma session_address_roundtrip:
  "formatOrcaSessionAddress i = Some a \<longleftrightarrow> parseOrcaSessionAddress (Some a) = Some i"
  unfolding formatOrcaSessionAddress_def parseOrcaSessionAddress_def Let_def
  by (auto split: option.splits if_splits dest: strip_prefix_SomeD)

definition structured_worker_incarnation_prefix :: string where
  "structured_worker_incarnation_prefix = ''structured:''"

definition sessionIdFromStructuredWorkerIncarnation :: "string option \<Rightarrow> string option" where
  "sessionIdFromStructuredWorkerIncarnation p =
     (case p of None \<Rightarrow> None
      | Some s \<Rightarrow> (case strip_prefix structured_worker_incarnation_prefix s of
          None \<Rightarrow> None
        | Some i \<Rightarrow> if i = [] then None else Some i))"

definition structuredWorkerOrcaSessionIdForIncarnation :: "string option \<Rightarrow> string option" where
  "structuredWorkerOrcaSessionIdForIncarnation p =
     (case sessionIdFromStructuredWorkerIncarnation p of
        None \<Rightarrow> None
      | Some i \<Rightarrow> if isOrcaSessionId i then Some i else None)"

subsection \<open>The lineage root of a cleared chat\<close>

text \<open>
  \<open>clearedFrom\<close> maps a session to the one it was cleared from. The loop walks it while the next
  id is non-empty and new; the visited set makes it stop even on a corrupt cycle, which the
  measure below shows for every finite map: each step visits one more of its keys.
\<close>

function lineage_root :: "(string \<times> string) list \<Rightarrow> string \<Rightarrow> string list \<Rightarrow> string" where
  "lineage_root edges root earlier =
     (case map_of edges root of
        None \<Rightarrow> root
      | Some prior \<Rightarrow>
          if prior \<noteq> [] \<and> prior \<notin> set earlier
          then lineage_root edges prior (prior # earlier) else root)"
  by pat_completeness auto
termination
proof (relation "measure (\<lambda>(edges, root, earlier). card (snd ` set edges - set earlier))")
  fix edges :: "(string \<times> string) list" and root prior earlier
  assume e: "map_of edges root = Some prior" and n: "prior \<noteq> [] \<and> prior \<notin> set earlier"
  have "prior \<in> snd ` set edges" using map_of_SomeD [OF e] by force
  with n have "snd ` set edges - set (prior # earlier) \<subset> snd ` set edges - set earlier" by auto
  then show "((edges, prior, prior # earlier), edges, root, earlier) \<in>
      measure (\<lambda>(edges, root, earlier). card (snd ` set edges - set earlier))"
    by (simp add: psubset_card_mono)
qed simp

declare lineage_root.simps [simp del]

definition canonicalOrcaSessionFromEdges :: "(string \<times> string) list \<Rightarrow> string \<Rightarrow> string" where
  "canonicalOrcaSessionFromEdges edges i =
     (let root = lineage_root edges i [i] in if isOrcaSessionId root then root else i)"

definition dispatchAssigneeOrcaSessionId ::
  "(string \<times> string) list \<Rightarrow> string \<Rightarrow> string option \<Rightarrow> string option" where
  "dispatchAssigneeOrcaSessionId edges handle processIncarnation =
     map_option (canonicalOrcaSessionFromEdges edges)
       (orElse (structuredWorkerOrcaSessionIdForIncarnation processIncarnation)
          (parseOrcaSessionAddress (Some handle)))"

section \<open>Timestamps\<close>

definition sqlite_timestamp_classes :: "(char \<Rightarrow> bool) list" where
  "sqlite_timestamp_classes =
     replicate 4 is_digit @ [(=) CHR ''-''] @ replicate 2 is_digit @ [(=) CHR ''-''] @
     replicate 2 is_digit @ [(=) CHR '' ''] @ replicate 2 is_digit @ [(=) CHR '':''] @
     replicate 2 is_digit @ [(=) CHR '':''] @ replicate 2 is_digit"

definition sqlite_utc_timestamp :: "string \<Rightarrow> bool" where
  "sqlite_utc_timestamp s =
     (matches_classes sqlite_timestamp_classes (take 19 s) \<and>
      (case drop 19 s of [] \<Rightarrow> True
       | c # fraction \<Rightarrow> c = CHR ''.'' \<and> fraction \<noteq> [] \<and> list_all is_digit fraction))"

definition space_to_T :: "string \<Rightarrow> string" where
  "space_to_T s = takeWhile (\<lambda>c. c \<noteq> CHR '' '') s @
     (case dropWhile (\<lambda>c. c \<noteq> CHR '' '') s of [] \<Rightarrow> [] | _ # rest \<Rightarrow> CHR ''T'' # rest)"

definition exposeUtcTimestamp :: "string option \<Rightarrow> string option" where
  "exposeUtcTimestamp t =
     (if \<not> truthy t \<or> \<not> sqlite_utc_timestamp (the t) then t
      else Some (space_to_T (the t) @ ''Z''))"

definition exposeMessageTimestamps :: "message_row \<Rightarrow> message_row" where
  "exposeMessageTimestamps m = m\<lparr>
     m_created_at := (case exposeUtcTimestamp (Some (m_created_at m)) of
        Some t \<Rightarrow> t | None \<Rightarrow> m_created_at m),
     m_delivered_at := exposeUtcTimestamp (m_delivered_at m)\<rparr>"

definition exposeQuestionTimestamps :: "question_row \<Rightarrow> question_row" where
  "exposeQuestionTimestamps q = q\<lparr>
     q_created_at := (case exposeUtcTimestamp (Some (q_created_at q)) of
        Some t \<Rightarrow> t | None \<Rightarrow> q_created_at q),
     q_answered_at := exposeUtcTimestamp (q_answered_at q),
     q_closed_at := exposeUtcTimestamp (q_closed_at q)\<rparr>"

end
