(* ===== verification/Orc_Mail.thy ===== *)
theory Orc_Mail
  imports Orc_Tasks Orc_Identity
begin

text \<open>
  Messages and the mail side effects of a settlement: inserting a message
  (\<open>db/messages/message-insert.ts\<close>), handing a settled helper creator's unread mail back to its
  Run (\<open>db/messages/helper-mailbox-hand-back.ts\<close>), closing the questions of a settled Dispatch
  (\<open>db/questions/question-threads.ts\<close>) and the mail a follow-up takes over
  (\<open>db/dispatch-context/worker-follow-up-lineage.ts\<close>). The in-memory queue that wakes the
  hand-back listener after the commit is a notification and is not part of the database.
\<close>

section \<open>Addresses\<close>

definition unbound_run_id :: string where "unbound_run_id = ''run_unbound''"

definition dispatch_mailbox :: "string \<Rightarrow> string" where
  "dispatch_mailbox d = ''dispatch:'' @ d"

definition run_mailbox :: "string \<Rightarrow> string" where
  "run_mailbox r = ''run:'' @ r"

definition getMessageById :: "odb \<Rightarrow> string \<Rightarrow> message_row option" where
  "getMessageById db i = map_option exposeMessageTimestamps (getMessageRaw db i)"

section \<open>Inserting\<close>

record message_insert =
  mi_id :: "string option"
  mi_from :: string
  mi_to :: string
  mi_subject :: string
  mi_body :: "string option"
  mi_type :: "message_type option"
  mi_priority :: "message_priority option"
  mi_threadId :: "string option"
  mi_payload :: "message_payload option"
  mi_senderPaneKey :: "string option"
  mi_runId :: "string option"
  mi_answerSenderSnapshot :: "string option"
  mi_deliveryContract :: "delivery_contract option"

definition or_default :: "'a option \<Rightarrow> 'a \<Rightarrow> 'a" where
  "or_default a d = (case a of None \<Rightarrow> d | Some x \<Rightarrow> x)"

lemma or_default_simps [simp]: "or_default None d = d" "or_default (Some x) d = x"
  by (simp_all add: or_default_def)

definition ensure_unbound_run :: "env \<Rightarrow> odb \<Rightarrow> odb" where
  "ensure_unbound_run e db =
     (if getRunRaw db unbound_run_id \<noteq> None then db
      else db\<lparr>runs := runs db @ [\<lparr>r_id = unbound_run_id,
        r_objective = ''Mail from terminals in no Run'', r_home_database = ''this_database'',
        r_coordinator_handle = None, r_coordinator_pane_key = None,
        r_coordinator_orca_session_id = None, r_coordinator_orca_session_id_generation = None,
        r_consumer_generation = 0, r_legacy = 0, r_created_at = sql_now e,
        r_updated_at = sql_now e\<rparr>]\<rparr>)"

definition next_sequence :: "message_row list \<Rightarrow> nat" where
  "next_sequence ms = Suc (fold max (map m_sequence ms) 0)"

definition insertMessage :: "env \<Rightarrow> message_insert \<Rightarrow> odb \<Rightarrow> (message_row \<times> odb) result" where
  "insertMessage e msg db0 =
     (let run = or_default (mi_runId msg) unbound_run_id;
          db = (if mi_runId msg = None then ensure_unbound_run e db0 else db0)
      in bindE (requireRun db run) (\<lambda>_.
         let ty = or_default (mi_type msg) MT_status;
             handled = (ty = MT_heartbeat);
             row = \<lparr>m_id = or_default (mi_id msg) (gen e ''msg''), m_run_id = run,
               m_delivery_contract = or_default (mi_deliveryContract msg) Current_delivery,
               m_from_handle = mi_from msg, m_to_handle = mi_to msg, m_subject = mi_subject msg,
               m_body = or_default (mi_body msg) [], m_type = ty,
               m_priority = or_default (mi_priority msg) MP_normal,
               m_thread_id = mi_threadId msg, m_payload = mi_payload msg, m_read = handled,
               m_sequence = next_sequence (messages db), m_created_at = sql_now e,
               m_delivered_at = (if handled then Some (sql_now e) else None),
               m_sender_pane_key = mi_senderPaneKey msg,
               m_answer_sender_snapshot = mi_answerSenderSnapshot msg,
               m_pointer_enter_pending = 0, m_pointer_pty_id = None,
               m_pointer_process_incarnation = None\<rparr>
         in bindE (insert_row m_id (Plain Unique_constraint) row (messages db)) (\<lambda>rows.
            Inr (exposeMessageTimestamps row, db\<lparr>messages := rows\<rparr>))))"

text \<open>\<open>insertMessages\<close>: one savepoint around the batch, so the first failure undoes them all.\<close>

fun insertMessages ::
  "(nat \<Rightarrow> env) \<Rightarrow> message_insert list \<Rightarrow> odb \<Rightarrow> (message_row list \<times> odb) result" where
  "insertMessages e [] db = Inr ([], db)"
| "insertMessages e (m # ms) db =
     bindE (insertMessage (e 0) m db) (\<lambda>(row, db1).
     bindE (insertMessages (\<lambda>n. e (Suc n)) ms db1) (\<lambda>(rows, db2).
     Inr (row # rows, db2)))"

definition mark_read_delivered :: "env \<Rightarrow> message_row \<Rightarrow> message_row" where
  "mark_read_delivered e m = m\<lparr>m_read := True,
     m_delivered_at := orElse (m_delivered_at m) (Some (sql_now e)),
     m_pointer_enter_pending := 0, m_pointer_pty_id := None,
     m_pointer_process_incarnation := None\<rparr>"

definition markAsReadAndDelivered :: "env \<Rightarrow> string list \<Rightarrow> odb \<Rightarrow> odb" where
  "markAsReadAndDelivered e ids db = db\<lparr>messages :=
     update_where (\<lambda>m. m_id m \<in> set ids) (mark_read_delivered e) (messages db)\<rparr>"

section \<open>Hand-back\<close>

definition fenceUnacknowledgedMailboxDeliveries :: "string \<Rightarrow> odb \<Rightarrow> odb" where
  "fenceUnacknowledgedMailboxDeliveries mailbox db = db\<lparr>deliveries :=
     update_where (\<lambda>d. dl_mailbox_handle d = Some mailbox \<and> dl_status d = Outstanding)
       (\<lambda>d. d\<lparr>dl_status := Fenced\<rparr>) (deliveries db)\<rparr>"

text \<open>The rows the hand-back selects: unread reports, and questions still waiting, read or not.\<close>

definition hand_back_row :: "odb \<Rightarrow> string \<Rightarrow> string \<Rightarrow> message_row \<Rightarrow> bool" where
  "hand_back_row db run mailbox m =
     (m_run_id m = run \<and> m_to_handle m = mailbox \<and>
      ((\<not> m_read m \<and> m_delivery_contract m = Current_delivery \<and>
         m_type m \<in> {MT_worker_done, MT_escalation, MT_status}) \<or>
       list_ex (\<lambda>q. q_message_id q = m_id m \<and> q_run_id q = run \<and> q_status q = Q_pending)
         (questions db)))"

definition hand_back :: "string \<Rightarrow> message_row \<Rightarrow> message_row" where
  "hand_back mailbox m = m\<lparr>m_to_handle := mailbox, m_read := False, m_delivered_at := None,
     m_pointer_enter_pending := 0, m_pointer_pty_id := None,
     m_pointer_process_incarnation := None\<rparr>"

definition handHelperMailToRun :: "string \<Rightarrow> odb \<Rightarrow> odb" where
  "handHelperMailToRun dispatchId db =
     (case getDispatchContextById db dispatchId of
        None \<Rightarrow> db
      | Some d \<Rightarrow>
          let run = d_run_id d; mailbox = dispatch_mailbox dispatchId;
              ids = map m_id (filter (hand_back_row db run mailbox) (messages db))
          in if ids = [] \<or> \<not> list_ex (\<lambda>h. d_creator_dispatch_id h = Some dispatchId \<and> d_run_id h = run)
                  (dispatches db)
             then db
             else fenceUnacknowledgedMailboxDeliveries mailbox
               (db\<lparr>messages := update_where (\<lambda>m. m_id m \<in> set ids) (hand_back (run_mailbox run))
                  (messages db)\<rparr>))"

text \<open>What a restart replays for a settled helper creator: the mailbox and type of its Run's unread mail.\<close>

definition handBackReplayTargets :: "odb \<Rightarrow> string \<Rightarrow> (string \<times> message_type) list" where
  "handBackReplayTargets db dispatchId =
     remdups (concat (map (\<lambda>d.
       map (\<lambda>m. (m_to_handle m, m_type m))
         (filter (\<lambda>m. m_to_handle m = run_mailbox (d_run_id d) \<and> \<not> m_read m \<and>
              m_delivery_contract m = Current_delivery \<and>
              (m_type m \<in> {MT_worker_done, MT_escalation, MT_status} \<or>
               (m_type m = MT_question \<and>
                list_ex (\<lambda>q. q_message_id q = m_id m \<and> q_run_id q = d_run_id d \<and> q_status q = Q_pending)
                  (questions db)))) (messages db)))
       (filter (\<lambda>d. d_id d = dispatchId \<and>
          list_ex (\<lambda>h. d_creator_dispatch_id h = Some (d_id d) \<and> d_run_id h = d_run_id d) (dispatches db))
         (dispatches db))))"

definition committedHandBackTypes :: "odb \<Rightarrow> string \<Rightarrow> string list \<Rightarrow> message_type list" where
  "committedHandBackTypes db mailbox ids =
     remdups (map m_type (filter (\<lambda>m. m_to_handle m = mailbox \<and> \<not> m_read m \<and>
        m_delivery_contract m = Current_delivery \<and> m_id m \<in> set ids \<and>
        (m_type m \<noteq> MT_question \<or>
         list_ex (\<lambda>q. q_message_id q = m_id m \<and> q_status q = Q_pending) (questions db)))
       (messages db)))"

section \<open>Closing questions\<close>

definition pending_question_of :: "string \<Rightarrow> question_row \<Rightarrow> bool" where
  "pending_question_of d q = (q_dispatch_id q = d \<and> q_status q = Q_pending)"

definition close_question :: "env \<Rightarrow> question_row \<Rightarrow> question_row" where
  "close_question e q = q\<lparr>q_status := Q_closed, q_closed_at := Some (sql_now e)\<rparr>"

definition closeQuestionsForDispatch :: "env \<Rightarrow> string \<Rightarrow> odb \<Rightarrow> string list \<times> odb" where
  "closeQuestionsForDispatch e dispatchId db0 =
     (let db = handHelperMailToRun dispatchId db0;
          ids = map q_message_id (filter (pending_question_of dispatchId) (questions db))
      in if ids = [] then ([], db)
         else (ids, db\<lparr>questions :=
            update_where (pending_question_of dispatchId) (close_question e) (questions db)\<rparr>))"

definition close_questions :: "env \<Rightarrow> string \<Rightarrow> odb \<Rightarrow> odb" where
  "close_questions e d db = snd (closeQuestionsForDispatch e d db)"

section \<open>Follow-up mail\<close>

definition getFollowUpDispatch :: "odb \<Rightarrow> string \<Rightarrow> dispatch_row option" where
  "getFollowUpDispatch db i = find (\<lambda>d. d_follow_up_of_dispatch_id d = Some i) (dispatches db)"

definition follow_up_message_types :: "message_type set" where
  "follow_up_message_types = {MT_status, MT_dispatch, MT_handoff}"

definition unread_follow_up_mail :: "odb \<Rightarrow> dispatch_row \<Rightarrow> message_row \<Rightarrow> bool" where
  "unread_follow_up_mail db d m =
     (m_to_handle m = dispatch_mailbox (d_id d) \<and> \<not> m_read m \<and>
      m_delivery_contract m = Current_delivery \<and> m_type m \<in> follow_up_message_types)"

definition markUnreadFollowUpMail :: "env \<Rightarrow> string \<Rightarrow> odb \<Rightarrow> odb" where
  "markUnreadFollowUpMail e i db = db\<lparr>dispatches :=
     update_where (\<lambda>d. d_id d = i \<and> list_ex (unread_follow_up_mail db d) (messages db))
       (\<lambda>d. d\<lparr>d_follow_up_mail_at := Some (sql_now e)\<rparr>) (dispatches db)\<rparr>"

definition receivesMailWhole :: "string option \<Rightarrow> bool" where
  "receivesMailWhole h = (parseOrcaSessionAddress h \<noteq> None \<or> isStructuredWorkerHandle h)"

definition take_mail :: "env \<Rightarrow> bool \<Rightarrow> string \<Rightarrow> message_row \<Rightarrow> message_row" where
  "take_mail e chat mailbox m = m\<lparr>m_to_handle := mailbox,
     m_delivered_at := (if chat then None
       else if m_pointer_enter_pending m = 0 then Some (sql_now e) else m_delivered_at m),
     m_pointer_pty_id := (if m_pointer_enter_pending m = 0 then None else m_pointer_pty_id m),
     m_pointer_process_incarnation :=
       (if m_pointer_enter_pending m = 0 then None else m_pointer_process_incarnation m)\<rparr>"

definition takeFollowUpMail :: "env \<Rightarrow> string \<Rightarrow> string \<Rightarrow> odb \<Rightarrow> odb" where
  "takeFollowUpMail e fromId toId db =
     (let chat = receivesMailWhole (Option.bind (getDispatchContextById db fromId) d_assignee_handle)
      in markUnreadFollowUpMail e toId (db\<lparr>messages :=
           update_where (\<lambda>m. m_to_handle m = dispatch_mailbox fromId \<and> \<not> m_read m \<and>
               m_delivery_contract m = Current_delivery)
             (take_mail e chat (dispatch_mailbox toId)) (messages db)\<rparr>))"

definition hasNewUnreadFollowUpMail :: "odb \<Rightarrow> string \<Rightarrow> bool" where
  "hasNewUnreadFollowUpMail db i = list_ex (\<lambda>d. d_id d = i \<and>
     list_ex (\<lambda>m. unread_follow_up_mail db d m \<and>
       (d_follow_up_of_dispatch_id d = None \<or> d_created_at d \<le> m_created_at m)) (messages db))
     (dispatches db)"

definition clearFollowUpMail :: "string \<Rightarrow> odb \<Rightarrow> odb" where
  "clearFollowUpMail i db = db\<lparr>dispatches :=
     update_where (\<lambda>d. d_id d = i) (\<lambda>d. d\<lparr>d_follow_up_mail_at := None\<rparr>) (dispatches db)\<rparr>"

definition listDispatchesWithFollowUpMail :: "odb \<Rightarrow> string list" where
  "listDispatchesWithFollowUpMail db =
     map d_id (filter (\<lambda>d. d_follow_up_mail_at d \<noteq> None) (dispatches db))"

section \<open>What mail effects leave alone\<close>

text \<open>\<open>mail_only db db'\<close>: \<open>db'\<close> differs from \<open>db\<close> in the mail tables at most.\<close>

definition mail_only :: "odb \<Rightarrow> odb \<Rightarrow> bool" where
  "mail_only db db' \<longleftrightarrow>
     db'\<lparr>messages := messages db, deliveries := deliveries db, questions := questions db\<rparr> = db"

lemma mail_only_fields:
  assumes "mail_only db db'"
  shows "tasks db' = tasks db" "dispatches db' = dispatches db" "workers db' = workers db"
    "gates db' = gates db" "runs db' = runs db" "receipts db' = receipts db"
    "facts db' = facts db" "resources db' = resources db" "federated db' = federated db"
    "archives db' = archives db" "attachments db' = attachments db"
  using arg_cong [OF assms [unfolded mail_only_def], of tasks]
    arg_cong [OF assms [unfolded mail_only_def], of dispatches]
    arg_cong [OF assms [unfolded mail_only_def], of workers]
    arg_cong [OF assms [unfolded mail_only_def], of gates]
    arg_cong [OF assms [unfolded mail_only_def], of runs]
    arg_cong [OF assms [unfolded mail_only_def], of receipts]
    arg_cong [OF assms [unfolded mail_only_def], of facts]
    arg_cong [OF assms [unfolded mail_only_def], of resources]
    arg_cong [OF assms [unfolded mail_only_def], of federated]
    arg_cong [OF assms [unfolded mail_only_def], of archives]
    arg_cong [OF assms [unfolded mail_only_def], of attachments]
  by simp_all

lemma hand_back_mail_only: "mail_only db (handHelperMailToRun i db)"
  by (auto simp: mail_only_def handHelperMailToRun_def fenceUnacknowledgedMailboxDeliveries_def
    Let_def split: option.splits)

lemma hand_back_questions: "questions (handHelperMailToRun i db) = questions db"
  by (auto simp: handHelperMailToRun_def fenceUnacknowledgedMailboxDeliveries_def
    Let_def split: option.splits)

lemma close_questions_mail_only: "mail_only db (close_questions e i db)"
  using hand_back_mail_only [of db i]
  by (auto simp: close_questions_def closeQuestionsForDispatch_def mail_only_def Let_def)

lemmas close_questions_frames [store_simps] = mail_only_fields [OF close_questions_mail_only]

lemma closed_questions:
  "questions (close_questions e i db) =
     update_where (pending_question_of i) (close_question e) (questions db)"
proof (cases "filter (pending_question_of i) (questions db) = []")
  case True
  then have "update_where (pending_question_of i) (close_question e) (questions db) = questions db"
    by (intro update_where_none) (auto simp: filter_empty_conv)
  with True show ?thesis
    unfolding close_questions_def closeQuestionsForDispatch_def Let_def hand_back_questions
    by (simp add: hand_back_questions)
next
  case False
  then show ?thesis
    unfolding close_questions_def closeQuestionsForDispatch_def Let_def hand_back_questions by simp
qed

lemma no_pending_question_left:
  assumes "q \<in> set (questions (close_questions e i db))" and "q_dispatch_id q = i"
  shows "q_status q \<noteq> Q_pending"
proof -
  from assms(1) obtain r where "q = (if pending_question_of i r then close_question e r else r)"
    unfolding closed_questions set_update_where by blast
  with assms(2) show ?thesis
    by (auto simp: pending_question_of_def close_question_def split: if_splits)
qed

lemma mark_follow_up_frames [store_simps]:
  "tasks (markUnreadFollowUpMail e i db) = tasks db"
  "workers (markUnreadFollowUpMail e i db) = workers db"
  "questions (markUnreadFollowUpMail e i db) = questions db"
  "messages (markUnreadFollowUpMail e i db) = messages db"
  "gates (markUnreadFollowUpMail e i db) = gates db"
  "facts (markUnreadFollowUpMail e i db) = facts db"
  by (simp_all add: markUnreadFollowUpMail_def)

end
