(* ===== verification/Orc_Dispatch.thy ===== *)
theory Orc_Dispatch
  imports Orc_Mail
begin

text \<open>
  Settling Dispatches (\<open>db/dispatch-context/dispatch-completion.ts\<close>,
  \<open>task-dispatch-reconciliation.ts\<close>, \<open>worker-dispatch-settlement.ts\<close>,
  \<open>context-only-dispatch-release.ts\<close>), finding the live Dispatch of a terminal
  (\<open>dispatch-lookup.ts\<close>) and the public status update of a task
  (\<open>db/tasks/task-status-transition.ts\<close>). Each operation is wrapped in a transaction or a
  savepoint by the code, so an error leaves the database it started from.
\<close>

section \<open>Live Dispatches\<close>

definition has_active_dispatch :: "odb \<Rightarrow> string \<Rightarrow> bool" where
  "has_active_dispatch db task = list_ex (\<lambda>d. d_task_id d = task \<and> active d) (dispatches db)"

definition has_other_active_dispatch :: "odb \<Rightarrow> string \<Rightarrow> string \<Rightarrow> bool" where
  "has_other_active_dispatch db task i =
     list_ex (\<lambda>d. d_task_id d = task \<and> d_id d \<noteq> i \<and> active d) (dispatches db)"

text \<open>
  The join \<open>dispatch_contexts active JOIN worker_dispatches worker\<close> of a task's live Dispatches with
  a worker that has not settled, newest first.
\<close>

definition worker_live :: "odb \<Rightarrow> string \<Rightarrow> bool" where
  "worker_live db i = (case getWorkerDispatch db i of None \<Rightarrow> False | Some w \<Rightarrow> \<not> worker_settled (w_state w))"

definition activeWorkerDispatch :: "odb \<Rightarrow> string \<Rightarrow> dispatch_row option" where
  "activeWorkerDispatch db task =
     last_row (\<lambda>d. d_task_id d = task \<and> active d \<and> worker_live db (d_id d)) (dispatches db)"

definition conflictingWorkerDispatch :: "odb \<Rightarrow> string \<Rightarrow> string \<Rightarrow> dispatch_row option" where
  "conflictingWorkerDispatch db task i =
     last_row (\<lambda>d. d_task_id d = task \<and> d_id d \<noteq> i \<and> active d \<and> worker_live db (d_id d)) (dispatches db)"

definition getDispatchContext :: "odb \<Rightarrow> string \<Rightarrow> dispatch_row option" where
  "getDispatchContext db task = last_row (\<lambda>d. d_task_id d = task) (dispatches db)"

section \<open>Finding a terminal's Dispatch\<close>

definition pane_suffix_matches :: "string \<Rightarrow> dispatch_row \<Rightarrow> bool" where
  "pane_suffix_matches suffix d =
     (case d_assignee_pane_key d of None \<Rightarrow> False
      | Some k \<Rightarrow> sql_colon_past_start k \<and> sql_pane_suffix k = suffix)"

text \<open>\<open>findDispatchForAssignee\<close>; \<open>live\<close> is its \<open>kind === 'active'\<close>.\<close>

definition findDispatchForAssignee ::
  "odb \<Rightarrow> bool \<Rightarrow> string \<Rightarrow> string option \<Rightarrow> dispatch_row option" where
  "findDispatchForAssignee db live handle paneKey =
     (let newest = (\<lambda>P. last_row (\<lambda>d. P d \<and> (live \<longrightarrow> active d)) (dispatches db));
          byHandle = newest (\<lambda>d. d_assignee_handle d = Some handle)
      in if byHandle \<noteq> None \<or> \<not> truthy paneKey then byHandle
         else let exactPane = newest (\<lambda>d. d_assignee_pane_key d = paneKey)
           in if exactPane \<noteq> None \<or> parsePaneKey (the paneKey) = None then exactPane
              else newest (pane_suffix_matches (paneKeyMatchSuffix (the paneKey))))"

definition findActiveDispatchForAssignee :: "odb \<Rightarrow> string \<Rightarrow> string option \<Rightarrow> dispatch_row option" where
  "findActiveDispatchForAssignee db = findDispatchForAssignee db True"

definition getActiveDispatchForTerminal :: "odb \<Rightarrow> string \<Rightarrow> string option \<Rightarrow> dispatch_row option" where
  "getActiveDispatchForTerminal db = findActiveDispatchForAssignee db"

definition getActiveDispatchForIdentity :: "odb \<Rightarrow> string \<Rightarrow> string option \<Rightarrow> dispatch_row option" where
  "getActiveDispatchForIdentity db = findActiveDispatchForAssignee db"

definition getLatestDispatchForTerminal :: "odb \<Rightarrow> string \<Rightarrow> string option \<Rightarrow> dispatch_row option" where
  "getLatestDispatchForTerminal db = findDispatchForAssignee db False"

definition isDispatchAssignee :: "dispatch_row \<Rightarrow> string \<Rightarrow> string option \<Rightarrow> bool" where
  "isDispatchAssignee d handle paneKey =
     ((truthy paneKey \<and> truthy (d_assignee_pane_key d) \<and>
       isEquivalentPaneKey (the (d_assignee_pane_key d)) (the paneKey)) \<or>
      (Some handle = d_assignee_handle d \<and> (\<not> truthy paneKey \<or> \<not> truthy (d_assignee_pane_key d))))"

definition isDispatchMessageSender :: "odb \<Rightarrow> string \<Rightarrow> string \<Rightarrow> string option \<Rightarrow> bool \<Rightarrow> bool" where
  "isDispatchMessageSender db i handle paneKey canonical =
     (case getDispatchContextById db i of
        None \<Rightarrow> False
      | Some d \<Rightarrow> active d \<and>
          ((canonical \<and> handle = dispatch_mailbox (d_id d)) \<or> isDispatchAssignee d handle paneKey))"

definition hasOpenHelperDispatch :: "odb \<Rightarrow> string \<Rightarrow> bool" where
  "hasOpenHelperDispatch db i = list_ex (\<lambda>d. d_creator_dispatch_id d = Some i \<and> active d) (dispatches db)"

section \<open>Settlement\<close>

definition dispatch_circuit_break_failures :: nat where
  "dispatch_circuit_break_failures = 3"

definition settled_dispatch :: "dispatch_status \<Rightarrow> bool" where
  "settled_dispatch s = (s = D_completed \<or> s = D_failed \<or> s = D_circuit_broken)"

text \<open>\<open>settleWorkerForCompletedDispatch\<close>: a live worker of a settled Dispatch is abandoned.\<close>

definition settleWorkerForCompletedDispatch :: "env \<Rightarrow> string \<Rightarrow> odb \<Rightarrow> odb result" where
  "settleWorkerForCompletedDispatch e i db =
     (case (getWorkerDispatch db i, getDispatchContextById db i) of
        (Some w, Some d) \<Rightarrow>
          if settled_dispatch (d_status d) \<and> \<not> worker_settled (w_state w)
          then transition_worker False i [w_state w] W_abandoned
            [Col_stage ''assignment_settled'', Col_updated_at (iso_now e)] db
          else Inr db
      | _ \<Rightarrow> Inr db)"

definition reconcileSettledWorkerDispatches :: "env \<Rightarrow> odb \<Rightarrow> odb result" where
  "reconcileSettledWorkerDispatches e db =
     foldE (settleWorkerForCompletedDispatch e)
       (map w_dispatch_id (filter (\<lambda>w. \<not> worker_settled (w_state w) \<and>
          (case getDispatchContextById db (w_dispatch_id w) of
             None \<Rightarrow> False | Some d \<Rightarrow> settled_dispatch (d_status d))) (workers db))) db"

definition completeDispatch :: "env \<Rightarrow> string \<Rightarrow> odb \<Rightarrow> odb result" where
  "completeDispatch e i db =
     (case getDispatchContextById db i of
        None \<Rightarrow> Inr db
      | Some d \<Rightarrow>
          if \<not> active d then Inr db
          else bindE (transition_dispatch False i [D_pending, D_dispatched] D_completed
                 [Col_completed_at (Some (iso_now e)),
                  Col_capability_revoked_at (orElse (d_capability_revoked_at d) (Some (iso_now e)))] db)
               (\<lambda>db1. settleWorkerForCompletedDispatch e i (close_questions e i db1)))"

text \<open>The body of the loop of \<open>settleActiveDispatchesForTask\<close>; \<open>ok\<close> is \<open>status === 'completed'\<close>.\<close>

definition settle_one :: "env \<Rightarrow> bool \<Rightarrow> string option \<Rightarrow> dispatch_row \<Rightarrow> odb \<Rightarrow> odb result" where
  "settle_one e ok failure row db =
     bindE (transition_dispatch False (d_id row) [d_status row] (if ok then D_completed else D_failed)
        [Col_completed_at (orElse (d_completed_at row) (Some (iso_now e))),
         Col_last_failure (if ok then d_last_failure row
           else orElse failure (orElse (d_last_failure row) (Some ''Task marked failed''))),
         Col_capability_revoked_at (orElse (d_capability_revoked_at row) (Some (iso_now e)))] db)
       (\<lambda>db1. settleWorkerForCompletedDispatch e (d_id row) (close_questions e (d_id row) db1))"

definition settleActiveDispatchesForTask ::
  "env \<Rightarrow> string \<Rightarrow> bool \<Rightarrow> string option \<Rightarrow> odb \<Rightarrow> odb result" where
  "settleActiveDispatchesForTask e task ok failure db =
     foldE (settle_one e ok failure) (filter (\<lambda>d. d_task_id d = task \<and> active d) (dispatches db)) db"

definition completeActiveDispatchesForTask :: "env \<Rightarrow> string \<Rightarrow> odb \<Rightarrow> odb result" where
  "completeActiveDispatchesForTask e task db = settleActiveDispatchesForTask e task True None db"

definition recordHeartbeat :: "string \<Rightarrow> string \<Rightarrow> odb \<Rightarrow> odb" where
  "recordHeartbeat i at db = db\<lparr>dispatches :=
     update_where (\<lambda>d. d_id d = i \<and> d_status d = D_dispatched)
       (\<lambda>d. d\<lparr>d_last_heartbeat_at := Some at\<rparr>) (dispatches db)\<rparr>"

record fail_options =
  fo_workerProcessExited :: bool
  fo_terminationReason :: "string option"
  fo_workerStage :: "string option"

definition no_fail_options :: fail_options where
  "no_fail_options = \<lparr>fo_workerProcessExited = False, fo_terminationReason = None,
     fo_workerStage = None\<rparr>"

definition fail_projection :: "env \<Rightarrow> string \<Rightarrow> fail_options \<Rightarrow> dispatch_row \<Rightarrow> column list" where
  "fail_projection e err opts b =
     [Col_failure_count (d_failure_count b + 1), Col_last_failure (Some err),
      Col_termination_reason (orElse (fo_terminationReason opts) (d_termination_reason b)),
      Col_completed_at (orElse (d_completed_at b) (Some (iso_now e))),
      Col_capability_revoked_at (orElse (d_capability_revoked_at b) (Some (iso_now e)))]"

definition fail_worker :: "env \<Rightarrow> string \<Rightarrow> string \<Rightarrow> fail_options \<Rightarrow> odb \<Rightarrow> odb result" where
  "fail_worker e i err opts db =
     (case getWorkerDispatch db i of
        None \<Rightarrow> Inr db
      | Some w \<Rightarrow> if fo_workerProcessExited opts
          then transition_worker False i [w_state w] W_failed
            [Col_stage (or_default (fo_workerStage opts) ''process_exited''),
             Col_last_error (Some err), Col_updated_at (iso_now e)] db
          else Inr db)"

definition fail_task :: "env \<Rightarrow> dispatch_row \<Rightarrow> odb \<Rightarrow> odb result" where
  "fail_task e ctx db =
     (let taskStatus = (if d_status ctx = D_circuit_broken then T_failed else T_ready) in
      case getTask db (d_task_id ctx) of
        None \<Rightarrow> Inr db
      | Some t \<Rightarrow>
          if t_status t = T_dispatched \<and> \<not> has_active_dispatch db (d_task_id ctx)
          then transition_task False (d_task_id ctx) [T_dispatched] taskStatus
            [Col_completed_at (if taskStatus = T_failed then Some (iso_now e) else None)] db
          else Inr db)"

definition failDispatch ::
  "env \<Rightarrow> string \<Rightarrow> string \<Rightarrow> fail_options \<Rightarrow> odb \<Rightarrow> (dispatch_row option \<times> odb) result" where
  "failDispatch e i err opts db =
     (let before = getDispatchContextById db i; workerBefore = getWorkerDispatch db i;
          liveWorker = (case workerBefore of None \<Rightarrow> False | Some w \<Rightarrow> \<not> worker_settled (w_state w))
      in case before of
        None \<Rightarrow> Inr (None, db)
      | Some b \<Rightarrow>
        if \<not> fo_workerProcessExited opts \<and> liveWorker then Inl (OErr Task_not_startable)
        else if \<not> active b then Inr (Some b, db)
        else
          let nextStatus = (if dispatch_circuit_break_failures \<le> d_failure_count b + 1
                            then D_circuit_broken else D_failed)
          in bindE (transition_dispatch False i [d_status b] nextStatus (fail_projection e err opts b) db)
             (\<lambda>db1. case getDispatchContextById db1 i of
                None \<Rightarrow> Inr (None, db1)
              | Some ctx \<Rightarrow>
                bindE (fail_worker e i err opts db1) (\<lambda>db2.
                bindE (fail_task e ctx db2) (\<lambda>db3.
                let db4 = close_questions e i db3 in
                Inr (getDispatchContextById db4 i, db4)))))"

definition failActiveDispatchForTask ::
  "env \<Rightarrow> string \<Rightarrow> string \<Rightarrow> odb \<Rightarrow> (dispatch_row option \<times> odb) result" where
  "failActiveDispatchForTask e task err db =
     (case getActiveDispatchForTask db task of
        None \<Rightarrow> Inr (None, db)
      | Some d \<Rightarrow> failDispatch e (d_id d) err no_fail_options db)"

definition reconcileTaskAfterDispatchInterruption :: "string \<Rightarrow> string \<Rightarrow> odb \<Rightarrow> odb result" where
  "reconcileTaskAfterDispatchInterruption task i db =
     (case getTask db task of
        None \<Rightarrow> Inr db
      | Some t \<Rightarrow>
          if t_status t \<notin> {T_dispatched, T_blocked} then Inr db
          else let next = (if has_other_active_dispatch db task i then T_dispatched else T_blocked)
            in if t_status t = next then Inr db
               else transition_task False task [t_status t] next [] db)"

section \<open>Releasing a Dispatch without a worker\<close>

datatype release_reported = Released_abandoned | Released_stopped | Released_status dispatch_status

definition persistedReleaseState :: "dispatch_row \<Rightarrow> release_reported" where
  "persistedReleaseState d =
     (if d_last_failure d = Some ''abandoned'' then Released_abandoned
      else if d_last_failure d = Some ''stopped'' then Released_stopped
      else Released_status (d_status d))"

record release_result =
  rl_state :: release_reported
  rl_alreadySettled :: bool
  rl_releasedCurrentTask :: bool

text \<open>\<open>requestedState\<close> is \<open>'abandoned'\<close> or \<open>'stopped'\<close>: \<open>abandon\<close> tells which.\<close>

definition releaseContextOnlyDispatch ::
  "env \<Rightarrow> dispatch_row \<Rightarrow> bool \<Rightarrow> odb \<Rightarrow> (release_result \<times> odb) result" where
  "releaseContextOnlyDispatch e d abandon db =
     (if \<not> active d
      then Inr (\<lparr>rl_state = persistedReleaseState d, rl_alreadySettled = True,
        rl_releasedCurrentTask = False\<rparr>, db)
      else bindE (transition_dispatch False (d_id d) [d_status d] D_failed
          [Col_last_failure (Some (if abandon then ''abandoned'' else ''stopped'')),
           Col_capability_revoked_at (orElse (d_capability_revoked_at d) (Some (iso_now e))),
           Col_completed_at (orElse (d_completed_at d) (Some (iso_now e)))] db)
        (\<lambda>db1.
        let releases = (\<not> has_active_dispatch db1 (d_task_id d) \<and>
          (case getTask db1 (d_task_id d) of None \<Rightarrow> False | Some t \<Rightarrow> t_status t = T_dispatched)) in
        bindE (if releases then transition_task False (d_task_id d) [T_dispatched] T_blocked [] db1
               else Inr db1)
          (\<lambda>db2. Inr (\<lparr>rl_state = (if abandon then Released_abandoned else Released_stopped),
             rl_alreadySettled = False, rl_releasedCurrentTask = releases\<rparr>, db2))))"

section \<open>The public status update\<close>

definition updateTaskStatus ::
  "env \<Rightarrow> string \<Rightarrow> task_status \<Rightarrow> string option \<Rightarrow> odb \<Rightarrow> (task_row option \<times> odb) result" where
  "updateTaskStatus e i status result_opt db =
     (let terminal = (status = T_completed \<or> status = T_failed);
          requiresActive = (status = T_dispatched);
          permitsActive = (terminal \<or> requiresActive)
      in case getTask db i of
        None \<Rightarrow> Inr (None, db)
      | Some t \<Rightarrow>
        let act = getActiveDispatchForTask db i;
            reopens = (requiresActive \<and> t_status t \<noteq> T_dispatched);
            activeWorker = (if terminal \<or> reopens then activeWorkerDispatch db i else None)
        in if activeWorker \<noteq> None then Inl (OErr Task_not_startable)
           else if requiresActive \<and> act = None then Inl (OErr Task_not_startable)
           else if act \<noteq> None \<and> \<not> permitsActive then Inl (OErr Task_not_startable)
           else if t_status t = status \<and> result_opt = None then Inr (Some t, db)
           else case transition_task False i [t_status t] status
               [Col_result (orElse result_opt (t_result t)),
                Col_completed_at (if terminal then Some (iso_now e) else t_completed_at t)] db of
             Inl err \<Rightarrow>
               if err \<noteq> OErr Lifecycle_conflict then Inl err
               else (case getTask db i of
                   Some cur \<Rightarrow> if t_status cur \<noteq> status then Inl err else Inr (Some cur, db)
                 | None \<Rightarrow> Inl err)
           | Inr db1 \<Rightarrow>
               bindE (if terminal then settleActiveDispatchesForTask e i (status = T_completed) result_opt db1
                      else Inr db1)
                 (\<lambda>db2. bindE (if status = T_completed then promoteReadyTasks i db2 else Inr db2)
                   (\<lambda>db3. Inr (getTask db3 i, db3))))"

end
