(* ===== verification/Orc_Terminals.thy ===== *)
theory Orc_Terminals
  imports Orc_Dispatch
begin

text \<open>
  Custody of worker terminals: the resource row that says which Dispatch owns a terminal and
  whether it is kept, released or due to close (\<open>worker-terminal-ownership.ts\<close> and
  \<open>db/worker-terminal/\<close>: the resource store, transfer, release, archive, keep-open and
  automatic release). A resource moves from one owner to the next through its
  \<open>prior_owner_dispatch_ids\<close>, held here as the decoded list. \<open>enabled\<close> stands for
  \<open>workerAutoReleaseEnabled?.() !== false\<close>, and a listener's wake-up is not part of the
  database. Timestamps are written for the years 0000 to 9999.
\<close>

section \<open>Timestamps\<close>

definition digit :: "int \<Rightarrow> char" where
  "digit n = char_of (nat (48 + n mod 10))"

definition two_digits :: "int \<Rightarrow> string" where
  "two_digits n = [digit (n div 10), digit n]"

definition four_digits :: "int \<Rightarrow> string" where
  "four_digits n = [digit (n div 1000), digit (n div 100), digit (n div 10), digit n]"

text \<open>The proleptic Gregorian date of a day counted from 1970-01-01, as \<open>Date\<close> computes it.\<close>

definition civil_from_days :: "int \<Rightarrow> int \<times> int \<times> int" where
  "civil_from_days days =
     (let z = days + 719468; era = z div 146097; doe = z mod 146097;
          yoe = (doe - doe div 1460 + doe div 36524 - doe div 146096) div 365;
          doy = doe - (365 * yoe + yoe div 4 - yoe div 100);
          mp = (5 * doy + 2) div 153;
          d = doy - (153 * mp + 2) div 5 + 1;
          m = (if mp < 10 then mp + 3 else mp - 9)
      in (yoe + era * 400 + (if m \<le> 2 then 1 else 0), m, d))"

definition toSqliteUtcTimestamp :: "int \<Rightarrow> string" where
  "toSqliteUtcTimestamp ms =
     (let secs = ms div 1000; (y, m, d) = civil_from_days (secs div 86400); sod = secs mod 86400
      in four_digits y @ ''-'' @ two_digits m @ ''-'' @ two_digits d @ '' '' @
         two_digits (sod div 3600) @ '':'' @ two_digits (sod div 60 mod 60) @ '':'' @
         two_digits (sod mod 60))"

section \<open>Ownership and release decisions\<close>

definition worker_releasable :: "worker_state \<Rightarrow> bool" where
  "worker_releasable s = (s = W_succeeded \<or> s = W_failed)"

datatype terminal_list_state =
    TL_active | TL_reclaimable | TL_retained | TL_release_pending | TL_release_unknown | TL_released

text \<open>\<open>workerState\<close> is \<open>None\<close> for \<open>'unsupervised'\<close>.\<close>

definition deriveWorkerTerminalListState ::
  "worker_state option \<Rightarrow> string option \<Rightarrow> resource_row option \<Rightarrow> terminal_list_state option" where
  "deriveWorkerTerminalListState workerState agentHandle resource =
     (case resource of
        None \<Rightarrow> if truthy agentHandle then Some TL_retained else None
      | Some r \<Rightarrow> Some (
          if wr_release_state r = Rel_released then TL_released
          else if wr_release_state r = Rel_unknown then TL_release_unknown
          else if wr_release_state r = Rel_requested \<or> wr_release_state r = Rel_releasing
          then TL_release_pending
          else if wr_ownership_state r \<noteq> Own_owned \<or> wr_release_state r = Rel_retained then TL_retained
          else case workerState of
              None \<Rightarrow> TL_active
            | Some s \<Rightarrow> if worker_releasable s then TL_reclaimable
                else if worker_settled s then TL_retained else TL_active))"

datatype release_decision = Already_released | Decide_retained retained_reason | Proceed

definition isUserKeptWorkerTerminal :: "resource_row \<Rightarrow> bool" where
  "isUserKeptWorkerTerminal r = (wr_release_state r = Rel_retained \<and> wr_retained_reason r = Some RR_user_kept)"

definition decideWorkerTerminalRelease :: "resource_row \<Rightarrow> release_decision" where
  "decideWorkerTerminalRelease r =
     (if wr_release_state r = Rel_released \<or> wr_ownership_state r = Own_released then Already_released
      else case wr_ownership_state r of
          Own_external \<Rightarrow> Decide_retained (or_default (wr_retained_reason r) RR_external_terminal)
        | Own_user_owned \<Rightarrow> Decide_retained RR_user_takeover
        | Own_transferred \<Rightarrow> Decide_retained RR_ownership_transferred
        | Own_owned \<Rightarrow> if isUserKeptWorkerTerminal r then Decide_retained RR_user_kept else Proceed
        | Own_released \<Rightarrow> Already_released)"

definition releasable_row :: "resource_row \<Rightarrow> bool" where
  "releasable_row r = (wr_ownership_state r = Own_owned \<and> wr_release_state r \<noteq> Rel_released)"

definition auto_release_live :: "resource_row \<Rightarrow> bool" where
  "auto_release_live r = (wr_auto_release_at r \<noteq> None \<and>
     wr_auto_release_dispatch_id r = Some (wr_owner_dispatch_id r) \<and>
     wr_ownership_state r = Own_owned \<and> wr_release_state r = Rel_not_requested)"

definition liveWorkerTerminalAutoReleaseAt :: "resource_row option \<Rightarrow> string option" where
  "liveWorkerTerminalAutoReleaseAt resource =
     (case resource of
        None \<Rightarrow> None
      | Some r \<Rightarrow>
          if truthy (wr_auto_release_at r) \<and> wr_auto_release_dispatch_id r = Some (wr_owner_dispatch_id r) \<and>
            wr_ownership_state r = Own_owned \<and> wr_release_state r = Rel_not_requested
          then exposeUtcTimestamp (wr_auto_release_at r) else None)"

definition liveFederatedHomeAutoReleaseAt :: "federated_row option \<Rightarrow> string option" where
  "liveFederatedHomeAutoReleaseAt f =
     (case f of
        None \<Rightarrow> None
      | Some r \<Rightarrow> if fd_home_auto_release_state r = Some Home_armed
          then exposeUtcTimestamp (fd_home_auto_release_at r) else None)"

section \<open>The resource store\<close>

text \<open>\<open>ORDER BY updated_at DESC\<close>: a stable descending sort; \<open>LIMIT 1\<close> is its first row.\<close>

definition newest_first :: "resource_row list \<Rightarrow> resource_row list" where
  "newest_first rows = rev (sort_key wr_updated_at (rev rows))"

definition first_row :: "'r list \<Rightarrow> 'r option" where
  "first_row rows = (case rows of [] \<Rightarrow> None | r # _ \<Rightarrow> Some r)"

definition getWorkerTerminalResourceByHandle :: "odb \<Rightarrow> string \<Rightarrow> resource_row option" where
  "getWorkerTerminalResourceByHandle db h =
     first_row (newest_first (filter (\<lambda>r. wr_terminal_handle r = h) (resources db)))"

definition getWorkerTerminalResourceByProcessIncarnation :: "odb \<Rightarrow> string \<Rightarrow> resource_row option" where
  "getWorkerTerminalResourceByProcessIncarnation db i =
     first_row (newest_first (filter (\<lambda>r. wr_process_incarnation r = Some i) (resources db)))"

text \<open>\<open>LIKE\<close> of a pattern without \<open>%\<close>: \<open>_\<close> is any character and ASCII letters match in either case.\<close>

definition like_id :: "string \<Rightarrow> string \<Rightarrow> bool" where
  "like_id pattern s = list_all2 (\<lambda>p c. p = CHR ''_'' \<or> lower_char p = lower_char c) pattern s"

definition getWorkerTerminalResourceFormerlyOwnedBy :: "odb \<Rightarrow> string \<Rightarrow> resource_row option" where
  "getWorkerTerminalResourceFormerlyOwnedBy db i =
     first_row (newest_first (filter (\<lambda>r. list_ex (like_id i) (wr_prior_owner_dispatch_ids r)) (resources db)))"

definition insert_resource :: "resource_row \<Rightarrow> odb \<Rightarrow> odb result" where
  "insert_resource r db =
     (if row_with wr_id (wr_id r) (resources db) \<noteq> None \<or>
         getWorkerTerminalResourceByOwner db (wr_owner_dispatch_id r) \<noteq> None
      then Inl (Plain Unique_constraint)
      else Inr (db\<lparr>resources := resources db @ [r]\<rparr>))"

definition fresh_resource :: "env \<Rightarrow> string \<Rightarrow> string \<Rightarrow> string option \<Rightarrow> string \<Rightarrow> resource_row" where
  "fresh_resource e i dispatchId worktreeId handle =
     \<lparr>wr_id = i, wr_origin_dispatch_id = dispatchId, wr_owner_dispatch_id = dispatchId,
      wr_prior_owner_dispatch_ids = [], wr_worktree_id = worktreeId, wr_terminal_handle = handle,
      wr_pane_key = None, wr_process_incarnation = None, wr_endpoint_id = None,
      wr_endpoint_incarnation = None, wr_host_scope = None, wr_ownership_state = Own_owned,
      wr_release_state = Rel_not_requested, wr_retained_reason = None, wr_release_requested_at = None,
      wr_release_completed_at = None, wr_release_error = None, wr_recovery_attempt_count = 0,
      wr_last_recovery_at = None, wr_archive_source = None, wr_archive_status = None,
      wr_auto_release_at = None, wr_auto_release_dispatch_id = None, wr_created_at = sql_now e,
      wr_updated_at = sql_now e, wr_resume_session = None\<rparr>"

text \<open>One generated id per backfilled row: \<open>ids n\<close> is the \<open>n\<close>-th \<open>generateId('wtr')\<close>.\<close>

definition backfill_one :: "env \<Rightarrow> (string \<times> worker_row \<times> dispatch_row) \<Rightarrow> odb \<Rightarrow> odb result" where
  "backfill_one e row db =
     (case row of (i, w, d) \<Rightarrow>
        insert_resource ((fresh_resource e i (w_dispatch_id w) (w_worktree_id w)
            (the (w_agent_terminal_handle w)))
          \<lparr>wr_pane_key := d_assignee_pane_key d, wr_process_incarnation := d_process_incarnation d,
           wr_ownership_state := Own_external, wr_release_state := Rel_retained,
           wr_retained_reason := Some RR_legacy_ambiguous\<rparr>) db)"

definition backfillWorkerTerminalResources :: "env \<Rightarrow> (nat \<Rightarrow> string) \<Rightarrow> odb \<Rightarrow> odb result" where
  "backfillWorkerTerminalResources e ids db =
     (let rows = concat (map (\<lambda>w. case getDispatchContextById db (w_dispatch_id w) of
                None \<Rightarrow> []
              | Some d \<Rightarrow> if w_agent_terminal_handle w \<noteq> None \<and>
                    getFederatedDispatch db (w_dispatch_id w) = None \<and>
                    getWorkerTerminalResourceByOwner db (w_dispatch_id w) = None
                  then [(w, d)] else []) (workers db))
      in foldE (backfill_one e) (map (\<lambda>(n, w, d). (ids n, w, d)) (List.enumerate 0 rows)) db)"

record create_resource_params =
  cp_dispatchId :: string
  cp_worktreeId :: "string option"
  cp_terminalHandle :: string
  cp_paneKey :: "string option"
  cp_processIncarnation :: "string option"
  cp_endpointId :: "string option"
  cp_endpointIncarnation :: "string option"
  cp_hostScope :: "string option"
  cp_external :: bool \<comment> \<open>\<open>ownership === 'external'\<close>\<close>

definition createWorkerTerminalResourceStatement ::
  "env \<Rightarrow> create_resource_params \<Rightarrow> odb \<Rightarrow> (resource_row \<times> odb) result" where
  "createWorkerTerminalResourceStatement e p db =
     (let r = (fresh_resource e (gen e ''wtr'') (cp_dispatchId p) (cp_worktreeId p) (cp_terminalHandle p))
            \<lparr>wr_pane_key := cp_paneKey p, wr_process_incarnation := cp_processIncarnation p,
             wr_endpoint_id := cp_endpointId p,
             wr_endpoint_incarnation := orElse (cp_endpointIncarnation p) (cp_processIncarnation p),
             wr_host_scope := cp_hostScope p,
             wr_ownership_state := (if cp_external p then Own_external else Own_owned),
             wr_retained_reason := (if cp_external p then Some RR_external_terminal else None)\<rparr>
      in bindE (insert_resource r db) (\<lambda>db1. Inr (r, db1)))"

definition touch_resources ::
  "(resource_row \<Rightarrow> bool) \<Rightarrow> (resource_row \<Rightarrow> resource_row) \<Rightarrow> odb \<Rightarrow> odb" where
  "touch_resources P f db = db\<lparr>resources := update_where P f (resources db)\<rparr>"

definition recordWorkerTerminalRecoveryAttempt :: "env \<Rightarrow> string \<Rightarrow> odb \<Rightarrow> resource_row option \<times> odb" where
  "recordWorkerTerminalRecoveryAttempt e i db =
     (let db1 = touch_resources (\<lambda>r. wr_id r = i)
        (\<lambda>r. r\<lparr>wr_recovery_attempt_count := min (wr_recovery_attempt_count r + 1) 32,
               wr_last_recovery_at := Some (sql_now e), wr_updated_at := sql_now e\<rparr>) db
      in (getWorkerTerminalResource db1 i, db1))"

definition kept_open :: "resource_row \<Rightarrow> bool" where
  "kept_open r = (wr_release_state r = Rel_retained \<and>
     (wr_retained_reason r = Some RR_user_kept \<or> wr_retained_reason r = Some RR_user_requested))"

record transfer_params =
  tp_resourceId :: string
  tp_toDispatchId :: string
  tp_terminalHandle :: string
  tp_paneKey :: string
  tp_processIncarnation :: string
  tp_endpointId :: "string option"
  tp_endpointIncarnation :: "string option"
  tp_hostScope :: "string option"

definition transfer_row :: "env \<Rightarrow> transfer_params \<Rightarrow> string list \<Rightarrow> resource_row \<Rightarrow> resource_row" where
  "transfer_row e p priorOwners r = r\<lparr>wr_owner_dispatch_id := tp_toDispatchId p,
     wr_prior_owner_dispatch_ids := priorOwners,
     wr_release_state := (if kept_open r then wr_release_state r else Rel_not_requested),
     wr_retained_reason := (if kept_open r then wr_retained_reason r else None),
     wr_release_requested_at := None, wr_release_completed_at := None, wr_release_error := None,
     wr_auto_release_at := None, wr_auto_release_dispatch_id := None,
     wr_terminal_handle := tp_terminalHandle p, wr_pane_key := Some (tp_paneKey p),
     wr_process_incarnation := Some (tp_processIncarnation p),
     wr_endpoint_id := orElse (tp_endpointId p) (wr_endpoint_id r),
     wr_endpoint_incarnation := Some (or_default (tp_endpointIncarnation p) (tp_processIncarnation p)),
     wr_host_scope := tp_hostScope p, wr_updated_at := sql_now e\<rparr>"

text \<open>The unique index on the owner refuses a transfer to a Dispatch that owns another resource.\<close>

definition transferWorkerTerminalResourceStatement ::
  "env \<Rightarrow> transfer_params \<Rightarrow> odb \<Rightarrow> (resource_row option \<times> odb) result" where
  "transferWorkerTerminalResourceStatement e p db =
     (case getWorkerTerminalResource db (tp_resourceId p) of
        None \<Rightarrow> Inl (OErr Dispatch_not_found)
      | Some r \<Rightarrow>
          if wr_ownership_state r = Own_owned \<and>
            list_ex (\<lambda>x. wr_owner_dispatch_id x = tp_toDispatchId p \<and> wr_id x \<noteq> wr_id r) (resources db)
          then Inl (Plain Unique_constraint)
          else let priorOwners = wr_prior_owner_dispatch_ids r @ [wr_owner_dispatch_id r];
                   db1 = touch_resources
                     (\<lambda>x. wr_id x = tp_resourceId p \<and> wr_ownership_state x = Own_owned)
                     (transfer_row e p priorOwners) db
            in Inr (getWorkerTerminalResource db1 (tp_resourceId p), db1))"

definition replaced_resource :: "odb \<Rightarrow> string \<Rightarrow> string \<Rightarrow> string \<Rightarrow> string \<Rightarrow> resource_row \<Rightarrow> bool" where
  "replaced_resource db pane worktree host incarnation r =
     (wr_pane_key r = Some pane \<and> wr_worktree_id r = Some worktree \<and> wr_host_scope r = Some host \<and>
      wr_process_incarnation r \<noteq> None \<and> wr_process_incarnation r \<noteq> Some incarnation \<and>
      wr_ownership_state r = Own_owned \<and> wr_release_state r = Rel_not_requested \<and>
      (case getWorkerDispatch db (wr_owner_dispatch_id r) of
         None \<Rightarrow> False | Some w \<Rightarrow> worker_settled (w_state w)))"

definition retainReplacedWorkerTerminalResources ::
  "env \<Rightarrow> string \<Rightarrow> string \<Rightarrow> string \<Rightarrow> string \<Rightarrow> odb \<Rightarrow> nat \<times> odb" where
  "retainReplacedWorkerTerminalResources e pane worktree host incarnation db =
     (let P = replaced_resource db pane worktree host incarnation
      in (count_where P (resources db),
          touch_resources P (\<lambda>r. r\<lparr>wr_release_state := Rel_retained,
            wr_retained_reason := Some RR_identity_unproven, wr_updated_at := sql_now e\<rparr>) db))"

definition rekeyWorkerTerminalResourcePaneKey :: "env \<Rightarrow> string \<Rightarrow> string \<Rightarrow> odb \<Rightarrow> nat \<times> odb" where
  "rekeyWorkerTerminalResourcePaneKey e fromKey toKey db =
     (let P = (\<lambda>r. wr_pane_key r = Some fromKey \<and> wr_release_state r \<noteq> Rel_released)
      in (count_where P (resources db),
          touch_resources P (\<lambda>r. r\<lparr>wr_pane_key := Some toKey, wr_updated_at := sql_now e\<rparr>) db))"

end
