(* ===== verification/Orc_Release.thy ===== *)
theory Orc_Release
  imports Orc_Terminals
begin

text \<open>
  Releasing a worker terminal: request, archive commit and settlement
  (\<open>db/worker-terminal/worker-terminal-release.ts\<close>, \<open>worker-terminal-archive.ts\<close>), Keep open
  and its undo (\<open>worker-terminal-user-keep.ts\<close>), the automatic release
  (\<open>worker-terminal-auto-release.ts\<close>) and the custody history of a terminal process
  (\<open>worker-custody-read.ts\<close>).
\<close>

section \<open>Requesting a release\<close>

datatype release_disposition =
    Release_requested "resource_row option"
  | Release_already resource_row
  | Release_retained "resource_row option" retained_reason

definition drop_archive :: "string \<Rightarrow> odb \<Rightarrow> odb" where
  "drop_archive i db = db\<lparr>archives := filter (\<lambda>a. ar_dispatch_id a \<noteq> i) (archives db)\<rparr>"

definition request_row :: "env \<Rightarrow> resource_row \<Rightarrow> resource_row" where
  "request_row e r = r\<lparr>
     wr_release_state := (if wr_release_state r = Rel_releasing then Rel_releasing else Rel_requested),
     wr_retained_reason := None, wr_auto_release_at := None,
     wr_release_requested_at := orElse (wr_release_requested_at r) (Some (sql_now e)),
     wr_release_error := None, wr_updated_at := sql_now e\<rparr>"

definition requestWorkerTerminalRelease ::
  "env \<Rightarrow> string \<Rightarrow> odb \<Rightarrow> (release_disposition \<times> odb) result" where
  "requestWorkerTerminalRelease e i db =
     (case getDispatchContextById db i of
        None \<Rightarrow> Inl (OErr Dispatch_not_found)
      | Some d \<Rightarrow>
      (case getWorkerDispatch db i of
        None \<Rightarrow>
          if settled_dispatch (d_status d) then Inr (Release_retained None RR_no_owned_resource, db)
          else Inl (OErr Dispatch_inactive)
      | Some w \<Rightarrow>
        if \<not> worker_settled (w_state w) then Inl (OErr Dispatch_inactive)
        else (case getWorkerTerminalResourceByOwner db i of
          None \<Rightarrow> (case getWorkerTerminalResourceFormerlyOwnedBy db i of
              Some t \<Rightarrow> Inr (Release_retained (Some t) RR_ownership_transferred, db)
            | None \<Rightarrow> Inr (Release_retained None RR_no_owned_resource, db))
        | Some r \<Rightarrow> (case decideWorkerTerminalRelease r of
              Already_released \<Rightarrow> Inr (Release_already r, db)
            | dec \<Rightarrow>
              if w_state w = W_stopped \<or> w_state w = W_abandoned
              then Inr (Release_retained (Some r) RR_identity_unproven, db)
              else (case dec of
                  Decide_retained reason \<Rightarrow> Inr (Release_retained (Some r) reason, db)
                | _ \<Rightarrow>
                  let db1 = (if wr_release_state r = Rel_retained \<and>
                                wr_retained_reason r = Some RR_user_requested
                             then drop_archive i db else db);
                      db2 = touch_resources (\<lambda>x. wr_id x = wr_id r \<and> releasable_row x) (request_row e) db1
                  in Inr (Release_requested (getWorkerTerminalResource db2 (wr_id r)), db2))))))"

definition getWorkerTerminalArchive :: "odb \<Rightarrow> string \<Rightarrow> archive_row option" where
  "getWorkerTerminalArchive db i = row_with ar_dispatch_id i (archives db)"

definition worker_settled_in :: "odb \<Rightarrow> string \<Rightarrow> bool" where
  "worker_settled_in db i = (case getWorkerDispatch db i of None \<Rightarrow> False | Some w \<Rightarrow> worker_settled (w_state w))"

definition dead_release_row :: "env \<Rightarrow> bool \<Rightarrow> resource_row \<Rightarrow> resource_row" where
  "dead_release_row e archived r = r\<lparr>wr_release_state := Rel_released,
     wr_ownership_state := Own_released, wr_retained_reason := None,
     wr_archive_status := (if archived then wr_archive_status r else Some Archive_unavailable),
     wr_release_requested_at := orElse (wr_release_requested_at r) (Some (sql_now e)),
     wr_release_completed_at := Some (sql_now e), wr_release_error := None,
     wr_updated_at := sql_now e\<rparr>"

text \<open>The result is \<open>(disposition === 'released', resource)\<close>.\<close>

definition settleDeadWorkerTerminalRelease ::
  "env \<Rightarrow> string \<Rightarrow> string \<Rightarrow> string \<Rightarrow> odb \<Rightarrow> ((bool \<times> resource_row option) \<times> odb) result" where
  "settleDeadWorkerTerminalRelease e requesting resourceId incarnation db =
     (case getWorkerTerminalResource db resourceId of
        None \<Rightarrow> Inl (OErr Dispatch_not_found)
      | Some r \<Rightarrow>
        let related = (wr_owner_dispatch_id r = requesting \<or> requesting \<in> set (wr_prior_owner_dispatch_ids r));
            archive = getWorkerTerminalArchive db (wr_owner_dispatch_id r);
            unreachable = (wr_owner_dispatch_id r = requesting \<and>
              (wr_release_state r = Rel_not_requested \<or> wr_release_state r = Rel_retained))
        in if \<not> related \<or> \<not> worker_settled_in db requesting \<or>
              \<not> worker_settled_in db (wr_owner_dispatch_id r) \<or>
              wr_process_incarnation r \<noteq> Some incarnation \<or>
              (case archive of Some a \<Rightarrow> ar_resource_id a \<noteq> wr_id r | None \<Rightarrow> \<not> unreachable) \<or>
              decideWorkerTerminalRelease r \<noteq> Proceed
           then Inr ((False, Some r), db)
           else let db1 = touch_resources (\<lambda>x. wr_id x = resourceId \<and>
                      wr_process_incarnation x = Some incarnation \<and> releasable_row x)
                      (dead_release_row e (archive \<noteq> None)) db;
                    released = getWorkerTerminalResource db1 resourceId
                in Inr ((case released of None \<Rightarrow> False | Some x \<Rightarrow> wr_release_state x = Rel_released,
                         released), db1))"

section \<open>Archives\<close>

definition storeWorkerTerminalArchive ::
  "env \<Rightarrow> string \<Rightarrow> string \<Rightarrow> archive_kind \<Rightarrow> string \<Rightarrow> odb \<Rightarrow> odb" where
  "storeWorkerTerminalArchive e dispatchId resourceId kind content db =
     (if getWorkerTerminalArchive db dispatchId = None
      then db\<lparr>archives := archives db @ [\<lparr>ar_dispatch_id = dispatchId, ar_resource_id = resourceId,
        ar_kind = kind, ar_content = content, ar_created_at = sql_now e\<rparr>]\<rparr>
      else db\<lparr>archives := update_where (\<lambda>a. ar_dispatch_id a = dispatchId)
        (\<lambda>a. a\<lparr>ar_resource_id := resourceId, ar_kind := kind, ar_content := content\<rparr>) (archives db)\<rparr>)"

definition storeWorkerTerminalArchiveBeforeStop ::
  "env \<Rightarrow> string \<Rightarrow> string \<Rightarrow> archive_kind \<Rightarrow> string \<Rightarrow> string \<Rightarrow> archive_status \<Rightarrow> odb \<Rightarrow> odb" where
  "storeWorkerTerminalArchiveBeforeStop e dispatchId resourceId kind content source status db =
     (let P = (\<lambda>r. wr_id r = resourceId \<and> wr_owner_dispatch_id r = dispatchId \<and>
            wr_ownership_state r = Own_owned \<and>
            (wr_release_state r = Rel_not_requested \<or> wr_release_state r = Rel_retained));
          db1 = touch_resources P (\<lambda>r. r\<lparr>wr_archive_source := Some source,
            wr_archive_status := Some status, wr_updated_at := sql_now e\<rparr>) db
      in if 0 < count_where P (resources db)
         then storeWorkerTerminalArchive e dispatchId resourceId kind content db1 else db1)"

definition commit_requested :: "string \<Rightarrow> string \<Rightarrow> resource_row \<Rightarrow> bool" where
  "commit_requested dispatchId resourceId r =
     (wr_id r = resourceId \<and> wr_owner_dispatch_id r = dispatchId \<and>
      wr_ownership_state r = Own_owned \<and> wr_release_state r = Rel_requested)"

definition commitWorkerTerminalArchiveForRelease ::
  "env \<Rightarrow> string \<Rightarrow> string \<Rightarrow> (archive_kind \<times> string) option \<Rightarrow> string \<Rightarrow> archive_status \<Rightarrow> odb \<Rightarrow>
   (resource_row option \<times> odb) result" where
  "commitWorkerTerminalArchiveForRelease e dispatchId resourceId captured source status db =
     (case getWorkerTerminalResource db resourceId of
        None \<Rightarrow> Inl (OErr Dispatch_not_found)
      | Some r \<Rightarrow>
        if \<not> commit_requested dispatchId resourceId r then Inr (Some r, db)
        else let db1 = (case captured of None \<Rightarrow> db
                   | Some (kind, content) \<Rightarrow>
                       storeWorkerTerminalArchive e dispatchId resourceId kind content db)
          in case getWorkerTerminalArchive db1 dispatchId of
              None \<Rightarrow> Inl (OErr Archive_failed)
            | Some a \<Rightarrow>
                if ar_resource_id a \<noteq> resourceId then Inl (OErr Archive_failed)
                else let db2 = touch_resources (commit_requested dispatchId resourceId)
                       (\<lambda>x. x\<lparr>wr_release_state := Rel_releasing, wr_archive_source := Some source,
                          wr_archive_status := Some status, wr_updated_at := sql_now e\<rparr>) db1
                  in Inr (getWorkerTerminalResource db2 resourceId, db2))"

definition settleWorkerTerminalRelease :: "env \<Rightarrow> string \<Rightarrow> odb \<Rightarrow> resource_row option \<times> odb" where
  "settleWorkerTerminalRelease e i db =
     (let db1 = touch_resources (\<lambda>r. wr_id r = i \<and>
          (wr_release_state r = Rel_requested \<or> wr_release_state r = Rel_releasing \<or> wr_release_state r = Rel_unknown))
        (\<lambda>r. r\<lparr>wr_release_state := Rel_released, wr_ownership_state := Own_released,
           wr_release_completed_at := Some (sql_now e), wr_release_error := None,
           wr_updated_at := sql_now e\<rparr>) db
      in (getWorkerTerminalResource db1 i, db1))"

definition release_in_flight :: "resource_row \<Rightarrow> bool" where
  "release_in_flight r = (wr_release_state r = Rel_requested \<or> wr_release_state r = Rel_releasing)"

definition markWorkerTerminalReleaseUnknown ::
  "env \<Rightarrow> string \<Rightarrow> string \<Rightarrow> odb \<Rightarrow> resource_row option \<times> odb" where
  "markWorkerTerminalReleaseUnknown e i reason db =
     (let db1 = touch_resources (\<lambda>r. wr_id r = i \<and> release_in_flight r)
        (\<lambda>r. r\<lparr>wr_release_state := Rel_unknown, wr_release_error := Some reason,
           wr_updated_at := sql_now e\<rparr>) db
      in (getWorkerTerminalResource db1 i, db1))"

definition revertWorkerTerminalReleaseToRetained ::
  "env \<Rightarrow> string \<Rightarrow> retained_reason \<Rightarrow> odb \<Rightarrow> resource_row option \<times> odb" where
  "revertWorkerTerminalReleaseToRetained e i reason db =
     (let db1 = touch_resources (\<lambda>r. wr_id r = i \<and> release_in_flight r)
        (\<lambda>r. r\<lparr>wr_release_state := Rel_retained, wr_retained_reason := Some reason,
           wr_updated_at := sql_now e\<rparr>) db
      in (getWorkerTerminalResource db1 i, db1))"

section \<open>Retaining\<close>

definition default_retainable :: "resource_row \<Rightarrow> bool" where
  "default_retainable r = (wr_release_state r = Rel_not_requested \<or> wr_release_state r = Rel_retained \<or>
     wr_release_state r = Rel_requested)"

definition retain_row :: "env \<Rightarrow> retained_reason \<Rightarrow> resource_row \<Rightarrow> resource_row" where
  "retain_row e reason r = r\<lparr>
     wr_retained_reason := (if isUserKeptWorkerTerminal r then wr_retained_reason r else Some reason),
     wr_release_state := Rel_retained, wr_auto_release_at := None, wr_updated_at := sql_now e\<rparr>"

definition stopped_worker :: "odb \<Rightarrow> string \<Rightarrow> bool" where
  "stopped_worker db i = (case getWorkerDispatch db i of None \<Rightarrow> False | Some w \<Rightarrow> w_state w = W_stopped)"

definition retainTerminalResourceInTransaction ::
  "env \<Rightarrow> string \<Rightarrow> string \<Rightarrow> (resource_row \<Rightarrow> bool) \<Rightarrow> retained_reason \<Rightarrow> odb \<Rightarrow> bool \<times> odb" where
  "retainTerminalResourceInTransaction e resourceId dispatchId retainable reason db =
     (let P = (\<lambda>r. wr_id r = resourceId \<and> retainable r);
          db1 = touch_resources P (retain_row e reason) db
      in if count_where P (resources db) = 0 then (False, db1)
         else if getWorkerTerminalArchive db1 dispatchId = None \<or> stopped_worker db1 dispatchId
         then (True, db1)
         else (True, touch_resources (\<lambda>r. wr_id r = resourceId)
                (\<lambda>r. r\<lparr>wr_archive_source := None, wr_archive_status := None\<rparr>)
                (drop_archive dispatchId db1)))"

datatype retain_result =
    Retained "resource_row option" | Retain_already_released resource_row
  | Release_committed "resource_row option" | Retain_no_owned_resource

definition retainOwnedTerminalResource ::
  "env \<Rightarrow> string \<Rightarrow> (odb \<Rightarrow> unit result) \<Rightarrow> odb \<Rightarrow> (retain_result \<times> odb) result" where
  "retainOwnedTerminalResource e i assertRetainable db =
     bindE (assertRetainable db) (\<lambda>_.
     case getWorkerTerminalResourceByOwner db i of
       None \<Rightarrow> Inr (Retain_no_owned_resource, db)
     | Some r \<Rightarrow>
         if wr_release_state r = Rel_released then Inr (Retain_already_released r, db)
         else let (retained, db1) =
                retainTerminalResourceInTransaction e (wr_id r) i default_retainable RR_user_requested db;
                  updated = getWorkerTerminalResource db1 (wr_id r)
              in Inr (if retained then Retained updated else Release_committed updated, db1))"

definition retainWorkerTerminalResource :: "env \<Rightarrow> string \<Rightarrow> odb \<Rightarrow> (retain_result \<times> odb) result" where
  "retainWorkerTerminalResource e i db =
     retainOwnedTerminalResource e i (\<lambda>db.
       bindE (requireE (OErr Dispatch_not_found) (getDispatchContextById db i)) (\<lambda>d.
       guardE (getWorkerDispatch db i = None \<longrightarrow> settled_dispatch (d_status d)) (OErr Dispatch_inactive))) db"

definition retainRemoteAttachmentTerminalResource ::
  "env \<Rightarrow> string \<Rightarrow> odb \<Rightarrow> (retain_result \<times> odb) result" where
  "retainRemoteAttachmentTerminalResource e i db =
     retainOwnedTerminalResource e i (\<lambda>db.
       guardE (getRemoteDispatchAttachment db i \<noteq> None) (OErr Dispatch_not_found)) db"

section \<open>Keep open\<close>

definition pane_has_suffix :: "string \<Rightarrow> resource_row \<Rightarrow> bool" where
  "pane_has_suffix suffix r =
     (case wr_pane_key r of None \<Rightarrow> False | Some k \<Rightarrow> sql_pane_suffix k = suffix)"

definition findResources :: "odb \<Rightarrow> string \<Rightarrow> (resource_row \<Rightarrow> bool) \<Rightarrow> resource_row list" where
  "findResources db paneKey match =
     (let exact = newest_first (filter (\<lambda>r. wr_pane_key r = Some paneKey \<and> match r) (resources db))
      in if exact \<noteq> [] then exact
         else filter (\<lambda>r. isEquivalentPaneKey (the (wr_pane_key r)) paneKey)
           (newest_first (filter (\<lambda>r. match r \<and> pane_has_suffix (paneKeyMatchSuffix paneKey) r) (resources db))))"

definition automatic_request :: "resource_row \<Rightarrow> bool" where
  "automatic_request r = (release_in_flight r \<and> wr_auto_release_at r \<noteq> None \<and>
     wr_auto_release_dispatch_id r = Some (wr_owner_dispatch_id r))"

definition keepable_resource :: "resource_row \<Rightarrow> bool" where
  "keepable_resource r = (wr_ownership_state r = Own_owned \<and>
     (wr_release_state r = Rel_not_requested \<or> automatic_request r))"

definition kept_resource :: "resource_row \<Rightarrow> bool" where
  "kept_resource r = (wr_ownership_state r = Own_owned \<and> isUserKeptWorkerTerminal r)"

fun keep_each :: "env \<Rightarrow> resource_row list \<Rightarrow> odb \<Rightarrow> nat \<times> odb" where
  "keep_each e [] db = (0, db)"
| "keep_each e (r # rs) db =
     (let (kept, db1) = retainTerminalResourceInTransaction e (wr_id r) (wr_owner_dispatch_id r)
            keepable_resource RR_user_kept db;
          (n, db2) = keep_each e rs db1
      in ((if kept then 1 else 0) + n, db2))"

definition keepWorkerTerminalOpen :: "env \<Rightarrow> string \<Rightarrow> odb \<Rightarrow> nat \<times> odb" where
  "keepWorkerTerminalOpen e paneKey db = keep_each e (findResources db paneKey keepable_resource) db"

definition owner_releasable :: "odb \<Rightarrow> resource_row \<Rightarrow> bool" where
  "owner_releasable db r =
     (list_ex (\<lambda>w. w_dispatch_id w = wr_owner_dispatch_id r \<and> worker_releasable (w_state w)) (workers db) \<or>
      list_ex (\<lambda>a. ra_dispatch_id a = wr_owner_dispatch_id r \<and> worker_releasable (ra_state a)) (attachments db))"

definition auto_release_grace_ms :: int where "auto_release_grace_ms = 2 * 60000"

definition allow_row :: "env \<Rightarrow> odb \<Rightarrow> string option \<Rightarrow> resource_row \<Rightarrow> resource_row" where
  "allow_row e db deadline r = r\<lparr>wr_release_state := Rel_not_requested, wr_retained_reason := None,
     wr_auto_release_dispatch_id :=
       (if owner_releasable db r then Some (wr_owner_dispatch_id r) else wr_auto_release_dispatch_id r),
     wr_auto_release_at := (if owner_releasable db r then deadline else None),
     wr_updated_at := sql_now e\<rparr>"

fun allow_each ::
  "env \<Rightarrow> (resource_row \<Rightarrow> int option) \<Rightarrow> resource_row list \<Rightarrow> odb \<Rightarrow> nat \<times> odb" where
  "allow_each e restAt [] db = (0, db)"
| "allow_each e restAt (c # cs) db =
     (let restMs = Option.bind (getWorkerTerminalResource db (wr_id c)) restAt;
          deadline = map_option (\<lambda>ms. toSqliteUtcTimestamp (ms + auto_release_grace_ms)) restMs;
          P = (\<lambda>r. wr_id r = wr_id c \<and> kept_resource r);
          (n, db2) = allow_each e restAt cs (touch_resources P (allow_row e db deadline) db)
      in (count_where P (resources db) + n, db2))"

definition allowWorkerTerminalAutoClose ::
  "env \<Rightarrow> string \<Rightarrow> (resource_row \<Rightarrow> int option) \<Rightarrow> odb \<Rightarrow> nat \<times> odb" where
  "allowWorkerTerminalAutoClose e paneKey restAt db =
     allow_each e restAt (findResources db paneKey kept_resource) db"

definition isUserKeptWorkerTerminalOwner :: "odb \<Rightarrow> string \<Rightarrow> bool" where
  "isUserKeptWorkerTerminalOwner db i =
     (case getWorkerTerminalResourceByOwner db i of
        None \<Rightarrow> False
      | Some r \<Rightarrow> wr_ownership_state r = Own_owned \<and> isUserKeptWorkerTerminal r)"

definition refuseStopWhileKeptOpen :: "odb \<Rightarrow> string \<Rightarrow> unit result" where
  "refuseStopWhileKeptOpen db i =
     guardE (\<not> isUserKeptWorkerTerminalOwner db i) (OErr Terminal_kept_open)"

datatype auto_close_state = Kept_by_user | Closes_at "string option"

definition getWorkerAutoCloseState :: "odb \<Rightarrow> bool \<Rightarrow> string \<Rightarrow> auto_close_state option" where
  "getWorkerAutoCloseState db enabled paneKey =
     (if \<not> enabled then None
      else case Option.bind (first_row (findResources db paneKey
             (\<lambda>r. wr_ownership_state r = Own_owned \<and> wr_release_state r \<noteq> Rel_released)))
             (\<lambda>c. getWorkerTerminalResource db (wr_id c)) of
          None \<Rightarrow> None
        | Some r \<Rightarrow>
            if wr_release_state r = Rel_retained
            then (if wr_retained_reason r = Some RR_user_kept then Some Kept_by_user else None)
            else let ownerState = orElse
                     (map_option w_state (getWorkerDispatch db (wr_owner_dispatch_id r)))
                     (map_option ra_state (getRemoteDispatchAttachment db (wr_owner_dispatch_id r)));
                   late = (if automatic_request r
                     then Some (Closes_at (exposeUtcTimestamp (wr_auto_release_at r))) else None)
              in case ownerState of
                  None \<Rightarrow> late
                | Some s \<Rightarrow>
                    if wr_release_state r = Rel_not_requested then
                      if \<not> worker_settled s then Some (Closes_at None)
                      else if wr_auto_release_dispatch_id r = Some (wr_owner_dispatch_id r)
                      then Some (Closes_at (exposeUtcTimestamp (wr_auto_release_at r)))
                      else late
                    else late)"

section \<open>Automatic release\<close>

definition armed_row :: "resource_row \<Rightarrow> bool" where
  "armed_row r = (wr_auto_release_dispatch_id r = Some (wr_owner_dispatch_id r) \<and>
     wr_ownership_state r = Own_owned \<and> wr_release_state r = Rel_not_requested)"

definition armWorkerTerminalAutoReleaseStatement :: "env \<Rightarrow> string \<Rightarrow> odb \<Rightarrow> odb" where
  "armWorkerTerminalAutoReleaseStatement e i db =
     touch_resources (\<lambda>r. wr_owner_dispatch_id r = i \<and> wr_ownership_state r = Own_owned \<and>
         wr_release_state r = Rel_not_requested \<and>
         wr_auto_release_dispatch_id r \<noteq> Some (wr_owner_dispatch_id r))
       (\<lambda>r. r\<lparr>wr_auto_release_at := Some (toSqliteUtcTimestamp (now_ms e + auto_release_grace_ms)),
          wr_auto_release_dispatch_id := Some (wr_owner_dispatch_id r), wr_updated_at := sql_now e\<rparr>) db"

definition suspendWorkerTerminalAutoRelease :: "env \<Rightarrow> string \<Rightarrow> odb \<Rightarrow> odb" where
  "suspendWorkerTerminalAutoRelease e paneKey db =
     touch_resources (\<lambda>r. wr_pane_key r = Some paneKey \<and> armed_row r \<and> wr_auto_release_at r \<noteq> None)
       (\<lambda>r. r\<lparr>wr_auto_release_at := None, wr_updated_at := sql_now e\<rparr>) db"

definition restartWorkerTerminalAutoRelease :: "env \<Rightarrow> string \<Rightarrow> odb \<Rightarrow> odb" where
  "restartWorkerTerminalAutoRelease e paneKey db =
     touch_resources (\<lambda>r. wr_pane_key r = Some paneKey \<and> armed_row r \<and> wr_auto_release_at r = None)
       (\<lambda>r. r\<lparr>wr_auto_release_at := Some (toSqliteUtcTimestamp (now_ms e + auto_release_grace_ms)),
          wr_updated_at := sql_now e\<rparr>) db"

definition due_row :: "int \<Rightarrow> resource_row \<Rightarrow> bool" where
  "due_row now r = (auto_release_live r \<and> the (wr_auto_release_at r) \<le> toSqliteUtcTimestamp now)"

fun claim_each ::
  "env \<Rightarrow> int \<Rightarrow> (resource_row \<Rightarrow> bool) \<Rightarrow> resource_row list \<Rightarrow> odb \<Rightarrow> nat \<times> odb" where
  "claim_each e now inTurn [] db = (0, db)"
| "claim_each e now inTurn (r # rs) db =
     (if inTurn r
      then claim_each e now inTurn rs
        (if truthy (wr_pane_key r) then suspendWorkerTerminalAutoRelease e (the (wr_pane_key r)) db else db)
      else let P = (\<lambda>x. wr_id x = wr_id r \<and> due_row now x);
             (n, db2) = claim_each e now inTurn rs (touch_resources P
               (\<lambda>x. x\<lparr>wr_release_state := Rel_requested, wr_retained_reason := None,
                  wr_release_requested_at := Some (sql_now e), wr_release_error := None,
                  wr_updated_at := sql_now e\<rparr>) db)
        in (count_where P (resources db) + n, db2))"

definition claimDueWorkerTerminalAutoReleases ::
  "env \<Rightarrow> bool \<Rightarrow> int \<Rightarrow> (resource_row \<Rightarrow> bool) \<Rightarrow> odb \<Rightarrow> nat \<times> odb" where
  "claimDueWorkerTerminalAutoReleases e enabled now inTurn db =
     (if \<not> enabled then (0, db)
      else claim_each e now inTurn (filter (\<lambda>r. due_row now r \<and> owner_releasable db r) (resources db)) db)"

definition deferWorkerTerminalAutoRelease :: "env \<Rightarrow> string \<Rightarrow> odb \<Rightarrow> odb" where
  "deferWorkerTerminalAutoRelease e i db =
     (let P = (\<lambda>r. wr_id r = i \<and> wr_ownership_state r = Own_owned \<and> automatic_request r);
          db1 = touch_resources P (\<lambda>r. r\<lparr>wr_release_state := Rel_not_requested,
            wr_auto_release_at := None, wr_archive_source := None, wr_archive_status := None,
            wr_release_requested_at := None, wr_updated_at := sql_now e\<rparr>) db
      in case getWorkerTerminalResource db i of
           None \<Rightarrow> db1
         | Some r \<Rightarrow> if 0 < count_where P (resources db)
             then drop_archive (wr_owner_dispatch_id r) db1 else db1)"

definition admitWorkerChatReleaseClose ::
  "env \<Rightarrow> string \<Rightarrow> (resource_row \<Rightarrow> bool) \<Rightarrow> odb \<Rightarrow> bool \<times> odb" where
  "admitWorkerChatReleaseClose e i inTurn db =
     (let current = getWorkerTerminalResource db i;
          busy = (case current of None \<Rightarrow> False
            | Some r \<Rightarrow> truthy (wr_auto_release_at r) \<and>
                wr_auto_release_dispatch_id r = Some (wr_owner_dispatch_id r) \<and> inTurn r)
      in if busy then (False, deferWorkerTerminalAutoRelease e i db)
         else let P = (\<lambda>r. wr_id r = i \<and> wr_ownership_state r = Own_owned \<and> wr_release_state r = Rel_releasing)
           in (0 < count_where P (resources db),
               touch_resources P (\<lambda>r. r\<lparr>wr_auto_release_at := None, wr_updated_at := sql_now e\<rparr>) db))"

definition touch_federated ::
  "(federated_row \<Rightarrow> bool) \<Rightarrow> (federated_row \<Rightarrow> federated_row) \<Rightarrow> odb \<Rightarrow> odb" where
  "touch_federated P f db = db\<lparr>federated := update_where P f (federated db)\<rparr>"

definition armFederatedHomeAutoRelease :: "env \<Rightarrow> string \<Rightarrow> odb \<Rightarrow> odb" where
  "armFederatedHomeAutoRelease e i db =
     touch_federated (\<lambda>f. fd_dispatch_id f = i \<and> fd_home_auto_release_state f = None)
       (\<lambda>f. f\<lparr>fd_home_auto_release_at := Some (toSqliteUtcTimestamp (now_ms e + auto_release_grace_ms)),
          fd_home_auto_release_state := Some Home_armed, fd_updated_at := sql_now e\<rparr>) db"

definition endFederatedHomeAutoRelease :: "env \<Rightarrow> string \<Rightarrow> odb \<Rightarrow> odb" where
  "endFederatedHomeAutoRelease e i db =
     touch_federated (\<lambda>f. fd_dispatch_id f = i \<and> fd_home_auto_release_state f \<noteq> Some Home_ended)
       (\<lambda>f. f\<lparr>fd_home_auto_release_at := None, fd_home_auto_release_state := Some Home_ended,
          fd_updated_at := sql_now e\<rparr>) db"

definition home_due :: "int \<Rightarrow> federated_row \<Rightarrow> bool" where
  "home_due now f = (fd_home_auto_release_state f = Some Home_armed \<and>
     (case fd_home_auto_release_at f of None \<Rightarrow> False | Some at \<Rightarrow> at \<le> toSqliteUtcTimestamp now))"

fun claim_home_each :: "env \<Rightarrow> int \<Rightarrow> string list \<Rightarrow> odb \<Rightarrow> string list \<times> odb" where
  "claim_home_each e now [] db = ([], db)"
| "claim_home_each e now (i # is) db =
     (let P = (\<lambda>f. fd_dispatch_id f = i \<and> home_due now f);
          (claimed, db2) = claim_home_each e now is (touch_federated P
            (\<lambda>f. f\<lparr>fd_home_auto_release_at := Some (toSqliteUtcTimestamp (now + auto_release_grace_ms)),
               fd_updated_at := sql_now e\<rparr>) db)
      in (if 0 < count_where P (federated db) then i # claimed else claimed, db2))"

definition claimDueFederatedHomeAutoReleases ::
  "env \<Rightarrow> bool \<Rightarrow> int \<Rightarrow> odb \<Rightarrow> string list \<times> odb" where
  "claimDueFederatedHomeAutoReleases e enabled now db =
     (if \<not> enabled then ([], db)
      else claim_home_each e now (map fd_dispatch_id (filter (home_due now) (federated db))) db)"

definition isFederatedHomeAutoReleaseArmed :: "odb \<Rightarrow> string \<Rightarrow> bool" where
  "isFederatedHomeAutoReleaseArmed db i =
     list_ex (\<lambda>f. fd_dispatch_id f = i \<and> fd_home_auto_release_state f = Some Home_armed) (federated db)"

section \<open>Custody history\<close>

text \<open>The owners of a resource, oldest first; repeating history proves nothing.\<close>

definition custody_history :: "resource_row \<Rightarrow> string list" where
  "custody_history r =
     (let owners = wr_prior_owner_dispatch_ids r @ [wr_owner_dispatch_id r]
      in if distinct owners then owners else [])"

fun predecessor_in :: "string list \<Rightarrow> string \<Rightarrow> string option" where
  "predecessor_in (a # b # rest) i = (if b = i then Some a else predecessor_in (b # rest) i)"
| "predecessor_in _ i = None"

text \<open>The one custody row of an exact process that names \<open>i\<close> as a holder, if a single one does.\<close>

definition cohort_holder :: "resource_row list \<Rightarrow> string \<Rightarrow> resource_row option" where
  "cohort_holder rows i =
     (case filter (\<lambda>r. i \<in> set (custody_history r)) rows of [r] \<Rightarrow> Some r | _ \<Rightarrow> None)"

definition readCustodyCohort :: "odb \<Rightarrow> string \<Rightarrow> string option \<Rightarrow> resource_row list" where
  "readCustodyCohort db incarnation host =
     filter (\<lambda>r. wr_process_incarnation r = Some incarnation \<and> wr_host_scope r = host) (resources db)"

definition previousCustodianLookup :: "odb \<Rightarrow> dispatch_row \<Rightarrow> string option" where
  "previousCustodianLookup db d =
     (let r = orElse (getWorkerTerminalResourceByOwner db (d_id d))
            (if truthy (d_process_incarnation d)
             then cohort_holder (readCustodyCohort db (the (d_process_incarnation d)) (d_host_scope d)) (d_id d)
             else None)
      in case r of None \<Rightarrow> None | Some x \<Rightarrow> predecessor_in (custody_history x) (d_id d))"

end
