(* ===== verification/Orc_Create.thy ===== *)
theory Orc_Create
  imports Orc_Release
begin

text \<open>
  Creating a Dispatch: the nesting depth of its creator (\<open>shared/nested-worker-depth.ts\<close>,
  \<open>db/dispatch-depth.ts\<close>, \<open>db/dispatch-creator-evaluation.ts\<close>), the refusal of a terminal
  that is already busy (\<open>db/worker-terminal/worker-terminal-transfer.ts\<close>), the three writers of
  live rows (\<open>db/dispatch-row-writer.ts\<close>) and the context-only Dispatch
  (\<open>db/dispatch-context/dispatch-context-store.ts\<close>).
\<close>

section \<open>Nesting depth\<close>

definition nested_worker_max_depth_default :: int where "nested_worker_max_depth_default = 4"

definition legacy_nested_worker_max_depth_default :: int where
  "legacy_nested_worker_max_depth_default = 1"

text \<open>\<open>raw\<close> is the stored number when it is an integer; \<open>2 ^ 53 - 1\<close> is the largest safe one.\<close>

definition resolveNestedWorkerMaxDepth :: "int option \<Rightarrow> int" where
  "resolveNestedWorkerMaxDepth raw =
     (case raw of
        None \<Rightarrow> nested_worker_max_depth_default
      | Some n \<Rightarrow> if \<bar>n\<bar> > 2 ^ 53 - 1 \<or> n < 1 then nested_worker_max_depth_default else n)"

text \<open>The result is \<open>nestedWorkerMaxDepth\<close>; the one-shot flag is always set beside it.\<close>

definition migrateNestedWorkerMaxDepthDefault :: "int option \<Rightarrow> bool \<Rightarrow> int \<times> bool" where
  "migrateNestedWorkerMaxDepthDefault raw defaulted =
     (let current = resolveNestedWorkerMaxDepth raw
      in (if \<not> defaulted \<and> current = legacy_nested_worker_max_depth_default
          then nested_worker_max_depth_default else current, True))"

definition root_dispatch_depth :: nat where "root_dispatch_depth = 0"

datatype creator =
    System_creator
  | Terminal_creator string "string option" "string option" "string option"
      \<comment> \<open>handle, pane key, process incarnation, session id\<close>
  | Session_creator string

definition isSelfCreatedDispatch :: "dispatch_row \<Rightarrow> bool" where
  "isSelfCreatedDispatch d =
     (if truthy (d_creator_pane_key d) \<and> truthy (d_assignee_pane_key d)
      then isEquivalentPaneKey (the (d_creator_pane_key d)) (the (d_assignee_pane_key d))
      else d_creator_handle d \<noteq> None \<and> d_creator_handle d = d_assignee_handle d)"

definition potentially_live_attachment :: "worker_state \<Rightarrow> bool" where
  "potentially_live_attachment s =
     (s \<in> {W_starting, W_ready, W_start_unknown, W_stopping, W_stop_unknown})"

text \<open>\<open>recordedCreatorIdentity\<close>: handle, pane key and session id of the new row.\<close>

fun recordedCreatorIdentity :: "creator \<Rightarrow> string option \<times> string option \<times> string option" where
  "recordedCreatorIdentity System_creator = (None, None, None)"
| "recordedCreatorIdentity (Session_creator s) = (None, None, Some s)"
| "recordedCreatorIdentity (Terminal_creator h p _ s) = (Some h, p, s)"

fun findActiveDispatchForCreator :: "odb \<Rightarrow> creator \<Rightarrow> dispatch_row option" where
  "findActiveDispatchForCreator db System_creator = None"
| "findActiveDispatchForCreator db (Terminal_creator h p _ _) = findActiveDispatchForAssignee db h p"
| "findActiveDispatchForCreator db (Session_creator s) =
     last_row (\<lambda>d. d_assignee_orca_session_id d = Some s \<and> active d) (dispatches db)"

fun findPotentiallyLiveAttachmentsForCreator :: "odb \<Rightarrow> creator \<Rightarrow> attachment_row list" where
  "findPotentiallyLiveAttachmentsForCreator db (Terminal_creator _ p inc _) =
     (if \<not> truthy p \<or> \<not> truthy inc then []
      else filter (\<lambda>a. ra_process_incarnation a = inc \<and> ra_pane_key a \<noteq> None \<and>
             potentially_live_attachment (ra_state a)) (attachments db))"
| "findPotentiallyLiveAttachmentsForCreator db _ = []"

text \<open>The remote roles of a creator; more than one live match proves no depth.\<close>

fun remote_roles :: "odb \<Rightarrow> creator \<Rightarrow> attachment_row list result" where
  "remote_roles db (Terminal_creator h p inc s) =
     (let matches = filter (\<lambda>a. ra_process_incarnation a = inc \<and> ra_pane_key a \<noteq> None \<and>
            isEquivalentPaneKey (the (ra_pane_key a)) (the p) \<and> potentially_live_attachment (ra_state a))
            (findPotentiallyLiveAttachmentsForCreator db (Terminal_creator h p inc s))
      in if 1 < length matches then Inl (Plain Ambiguous_dispatch_parent) else Inr matches)"
| "remote_roles db _ = Inr []"

definition own_role :: "odb \<Rightarrow> creator \<Rightarrow> dispatch_row option" where
  "own_role db c =
     (case findActiveDispatchForCreator db c of
        None \<Rightarrow> None | Some d \<Rightarrow> if isSelfCreatedDispatch d then None else Some d)"

definition resolveCreatorDispatchId :: "odb \<Rightarrow> creator \<Rightarrow> string option result" where
  "resolveCreatorDispatchId db c =
     bindE (remote_roles db c) (\<lambda>remote. Inr (case (own_role db c, remote) of
        (Some d, []) \<Rightarrow> Some (d_id d)
      | (None, [a]) \<Rightarrow> Some (ra_dispatch_id a)
      | _ \<Rightarrow> None))"

text \<open>\<open>childDepth\<close>; \<open>maxDepth = None\<close> is \<open>Infinity\<close>.\<close>

definition child_depth :: "odb \<Rightarrow> creator \<Rightarrow> int option \<Rightarrow> nat result" where
  "child_depth db c maxDepth =
     bindE (remote_roles db c) (\<lambda>remote.
     let depths = map ra_depth remote @ (case own_role db c of None \<Rightarrow> [] | Some d \<Rightarrow> [d_depth d]);
         depth = (if depths = [] then root_dispatch_depth else Max (set depths)) + 1
     in case maxDepth of
          None \<Rightarrow> Inr depth
        | Some m \<Rightarrow> if int depth > m then Inl (OErr Nested_worker_depth_exceeded) else Inr depth)"

definition resolveChildDispatchDepth :: "odb \<Rightarrow> creator \<Rightarrow> int \<Rightarrow> nat result" where
  "resolveChildDispatchDepth db c maxDepth = child_depth db c (Some maxDepth)"

definition resolveCreatorDepth :: "odb \<Rightarrow> creator \<Rightarrow> nat result" where
  "resolveCreatorDepth db c = bindE (child_depth db c None) (\<lambda>d. Inr (d - 1))"

section \<open>Taking new work\<close>

definition findTransferableWorkerTerminalResource ::
  "odb \<Rightarrow> string option \<Rightarrow> string option \<Rightarrow> string option \<Rightarrow> resource_row option result" where
  "findTransferableWorkerTerminalResource db paneKey incarnation host =
     (if \<not> truthy paneKey \<or> \<not> truthy incarnation then Inr None
      else let exact = filter (\<lambda>r. wr_process_incarnation r = incarnation \<and> wr_host_scope r = host \<and>
                 wr_ownership_state r \<noteq> Own_released \<and> truthy (wr_pane_key r) \<and>
                 isEquivalentPaneKey (the (wr_pane_key r)) (the paneKey)) (resources db)
        in if list_ex (\<lambda>r. release_in_flight r \<or> wr_release_state r = Rel_unknown) exact
           then Inl (OErr Terminal_release_in_progress)
           else Inr (find (\<lambda>r. wr_ownership_state r = Own_owned \<and>
                  (wr_release_state r = Rel_not_requested \<or> wr_release_state r = Rel_retained) \<and>
                  (case orElse (map_option w_state (getWorkerDispatch db (wr_owner_dispatch_id r)))
                      (map_option ra_state (getRemoteDispatchAttachment db (wr_owner_dispatch_id r))) of
                    None \<Rightarrow> False | Some s \<Rightarrow> worker_settled s)) exact))"

record assignee =
  as_handle :: string
  as_paneKey :: "string option"
  as_processIncarnation :: "string option"
  as_hostScope :: "string option"

definition newWorkRefusal :: "odb \<Rightarrow> assignee \<Rightarrow> oerror option" where
  "newWorkRefusal db a =
     (if findActiveDispatchForAssignee db (as_handle a) (as_paneKey a) \<noteq> None
      then Some (Plain Assignee_busy)
      else case (if truthy (as_paneKey a) \<and> truthy (as_processIncarnation a)
                 then findTransferableWorkerTerminalResource db (as_paneKey a)
                   (as_processIncarnation a) (as_hostScope a)
                 else Inr None) of
          Inl err \<Rightarrow> Some err
        | Inr None \<Rightarrow> None
        | Inr (Some held) \<Rightarrow> Some (OErr Invalid_argument))"

definition assertTakesNewWork :: "odb \<Rightarrow> assignee \<Rightarrow> unit result" where
  "assertTakesNewWork db a = (case newWorkRefusal db a of None \<Rightarrow> Inr () | Some err \<Rightarrow> Inl err)"

definition takesNewWork :: "odb \<Rightarrow> assignee \<Rightarrow> bool" where
  "takesNewWork db a = (newWorkRefusal db a = None)"

definition workerTerminalResourceHasIdentityConflict :: "odb \<Rightarrow> string \<Rightarrow> bool" where
  "workerTerminalResourceHasIdentityConflict db i =
     (case getWorkerTerminalResource db i of
        None \<Rightarrow> True
      | Some r \<Rightarrow>
          if \<not> truthy (wr_pane_key r) \<or> \<not> truthy (wr_process_incarnation r) then True
          else list_ex (\<lambda>c. wr_process_incarnation c = wr_process_incarnation r \<and>
             wr_host_scope c = wr_host_scope r \<and> wr_id c \<noteq> wr_id r \<and>
             wr_ownership_state c \<noteq> Own_released \<and> truthy (wr_pane_key c) \<and>
             isEquivalentPaneKey (the (wr_pane_key c)) (the (wr_pane_key r))) (resources db))"

definition listWorkerTerminalResourcesByIncarnationPrefix :: "odb \<Rightarrow> string \<Rightarrow> resource_row list" where
  "listWorkerTerminalResourcesByIncarnationPrefix db prefix =
     newest_first (filter (\<lambda>r. case wr_process_incarnation r of None \<Rightarrow> False
        | Some s \<Rightarrow> take (length prefix) s = prefix) (resources db))"

section \<open>The writers of live rows\<close>

definition current_contract_version :: nat where "current_contract_version = 1"

definition assertStampedDepth :: "nat \<Rightarrow> unit result" where
  "assertStampedDepth depth = guardE (1 \<le> depth) (Plain Unstamped_depth)"

definition fresh_dispatch :: "env \<Rightarrow> string \<Rightarrow> string \<Rightarrow> string \<Rightarrow> nat \<Rightarrow> dispatch_row" where
  "fresh_dispatch e i run task depth =
     \<lparr>d_id = i, d_run_id = run, d_task_id = task, d_contract_version = current_contract_version,
      d_launch_token_hash = None, d_assignee_handle = None, d_assignee_pane_key = None,
      d_assignee_orca_session_id = None, d_capability_hash = None, d_process_incarnation = None,
      d_capability_revoked_at = None, d_retry_of_dispatch_id = None, d_creator_dispatch_id = None,
      d_creator_handle = None, d_creator_pane_key = None, d_creator_orca_session_id = None,
      d_host_scope = None, d_status = D_pending, d_failure_count = 0, d_last_failure = None,
      d_termination_reason = None, d_depth = depth, d_consumer_generation = 0,
      d_dispatched_at = Some (sql_now e), d_completed_at = None, d_created_at = sql_now e,
      d_last_heartbeat_at = None, d_follow_up_of_dispatch_id = None, d_follow_up_mail_at = None\<rparr>"

record claim_params =
  cl_id :: string
  cl_contractVersion :: nat
  cl_launchTokenHash :: "string option"
  cl_assigneeHandle :: string
  cl_assigneePaneKey :: "string option"
  cl_assigneeOrcaSessionId :: "string option"
  cl_processIncarnation :: "string option"
  cl_creatorDispatchId :: "string option"
  cl_creatorIdentity :: "string option \<times> string option \<times> string option"
  cl_priorFailures :: nat
  cl_depth :: nat
  cl_taskId :: string
  cl_paneSuffix :: "string option"

text \<open>The \<open>NOT EXISTS\<close> conditions of the claim: no live Dispatch holds the handle, pane or leaf.\<close>

definition claim_free :: "odb \<Rightarrow> claim_params \<Rightarrow> bool" where
  "claim_free db p \<longleftrightarrow>
     \<not> list_ex (\<lambda>d. d_assignee_handle d = Some (cl_assigneeHandle p) \<and> active d) (dispatches db) \<and>
     (cl_assigneePaneKey p = None \<or>
        \<not> list_ex (\<lambda>d. d_assignee_pane_key d = cl_assigneePaneKey p \<and> active d) (dispatches db)) \<and>
     (cl_paneSuffix p = None \<or>
        \<not> list_ex (\<lambda>d. active d \<and> pane_suffix_matches (the (cl_paneSuffix p)) d) (dispatches db))"

definition claim_row :: "env \<Rightarrow> claim_params \<Rightarrow> task_row \<Rightarrow> dispatch_row" where
  "claim_row e p t = (fresh_dispatch e (cl_id p) (t_run_id t) (t_id t) (cl_depth p))
     \<lparr>d_contract_version := cl_contractVersion p, d_launch_token_hash := cl_launchTokenHash p,
      d_assignee_handle := Some (cl_assigneeHandle p), d_assignee_pane_key := cl_assigneePaneKey p,
      d_assignee_orca_session_id := cl_assigneeOrcaSessionId p,
      d_process_incarnation := cl_processIncarnation p,
      d_creator_dispatch_id := cl_creatorDispatchId p,
      d_creator_handle := fst (cl_creatorIdentity p),
      d_creator_pane_key := fst (snd (cl_creatorIdentity p)),
      d_creator_orca_session_id := snd (snd (cl_creatorIdentity p)),
      d_status := D_dispatched, d_failure_count := cl_priorFailures p\<rparr>"

text \<open>The result is \<open>(changes === 1, database)\<close>.\<close>

definition claimDispatchContextRow :: "env \<Rightarrow> claim_params \<Rightarrow> odb \<Rightarrow> (bool \<times> odb) result" where
  "claimDispatchContextRow e p db =
     bindE (assertStampedDepth (cl_depth p)) (\<lambda>_.
     case getTask db (cl_taskId p) of
       None \<Rightarrow> Inr (False, db)
     | Some t \<Rightarrow>
         if t_status t \<noteq> T_ready \<or> \<not> claim_free db p then Inr (False, db)
         else bindE (insert_row d_id (Plain Unique_constraint) (claim_row e p t) (dispatches db))
           (\<lambda>rows. Inr (True, db\<lparr>dispatches := rows\<rparr>)))"

record starting_params =
  st_id :: string
  st_runId :: string
  st_taskId :: string
  st_contractVersion :: nat
  st_launchTokenHash :: "string option"
  st_depth :: nat
  st_retryOfDispatchId :: "string option"
  st_creatorDispatchId :: "string option"
  st_creatorIdentity :: "string option \<times> string option \<times> string option"
  st_priorFailures :: nat
  st_followUpOfDispatchId :: "string option"

definition starting_row :: "env \<Rightarrow> starting_params \<Rightarrow> dispatch_row" where
  "starting_row e p = (fresh_dispatch e (st_id p) (st_runId p) (st_taskId p) (st_depth p))
     \<lparr>d_contract_version := st_contractVersion p, d_launch_token_hash := st_launchTokenHash p,
      d_retry_of_dispatch_id := st_retryOfDispatchId p,
      d_creator_dispatch_id := st_creatorDispatchId p,
      d_creator_handle := fst (st_creatorIdentity p),
      d_creator_pane_key := fst (snd (st_creatorIdentity p)),
      d_creator_orca_session_id := snd (snd (st_creatorIdentity p)),
      d_failure_count := st_priorFailures p,
      d_follow_up_of_dispatch_id := st_followUpOfDispatchId p\<rparr>"

definition insertStartingDispatchContextRow :: "env \<Rightarrow> starting_params \<Rightarrow> odb \<Rightarrow> odb result" where
  "insertStartingDispatchContextRow e p db =
     bindE (assertStampedDepth (st_depth p)) (\<lambda>_.
     bindE (insert_row d_id (Plain Unique_constraint) (starting_row e p) (dispatches db))
       (\<lambda>rows. Inr (db\<lparr>dispatches := rows\<rparr>)))"

definition insertRemoteDispatchAttachmentRow ::
  "string \<Rightarrow> string \<Rightarrow> string \<Rightarrow> string \<Rightarrow> nat \<Rightarrow> string \<Rightarrow> nat \<Rightarrow> odb \<Rightarrow> odb result" where
  "insertRemoteDispatchAttachmentRow dispatchId run task peer version epoch depth db =
     bindE (assertStampedDepth depth) (\<lambda>_.
     bindE (insert_row ra_dispatch_id (Plain Unique_constraint)
        \<lparr>ra_dispatch_id = dispatchId, ra_home_run_id = run, ra_task_id = task,
         ra_home_peer_fingerprint = peer, ra_protocol_version = version, ra_runtime_epoch = epoch,
         ra_pane_key = None, ra_process_incarnation = None, ra_state = W_starting, ra_depth = depth\<rparr>
        (attachments db))
       (\<lambda>rows. Inr (db\<lparr>attachments := rows\<rparr>)))"

section \<open>The context-only Dispatch\<close>

record create_dispatch_params =
  cd_taskId :: string
  cd_assigneeHandle :: string
  cd_assigneePaneKey :: "string option"
  cd_launchTokenHash :: "string option"
  cd_processIncarnation :: "string option"
  cd_hostScope :: "string option"
  cd_creator :: creator
  cd_maxDepth :: int

definition prior_failures :: "odb \<Rightarrow> string \<Rightarrow> nat" where
  "prior_failures db task =
     fold max (map d_failure_count (filter (\<lambda>d. d_task_id d = task) (dispatches db))) 0"

definition claim_of :: "env \<Rightarrow> create_dispatch_params \<Rightarrow> nat \<Rightarrow> string option \<Rightarrow> odb \<Rightarrow> claim_params" where
  "claim_of e p depth creatorId db =
     \<lparr>cl_id = gen e ''ctx'', cl_contractVersion = current_contract_version,
      cl_launchTokenHash = cd_launchTokenHash p, cl_assigneeHandle = cd_assigneeHandle p,
      cl_assigneePaneKey = cd_assigneePaneKey p,
      cl_assigneeOrcaSessionId =
        dispatchAssigneeOrcaSessionId (cleared_from e) (cd_assigneeHandle p) (cd_processIncarnation p),
      cl_processIncarnation = cd_processIncarnation p, cl_creatorDispatchId = creatorId,
      cl_creatorIdentity = recordedCreatorIdentity (cd_creator p),
      cl_priorFailures = prior_failures db (cd_taskId p), cl_depth = depth,
      cl_taskId = cd_taskId p,
      cl_paneSuffix = (if truthy (cd_assigneePaneKey p) \<and>
          parsePaneKey (the (cd_assigneePaneKey p)) \<noteq> None
        then Some (paneKeyMatchSuffix (the (cd_assigneePaneKey p))) else None)\<rparr>"

definition createDispatchContext ::
  "env \<Rightarrow> create_dispatch_params \<Rightarrow> odb \<Rightarrow> (dispatch_row option \<times> odb) result" where
  "createDispatchContext e p db =
     bindE (resolveChildDispatchDepth db (cd_creator p) (cd_maxDepth p)) (\<lambda>depth.
     bindE (requireE (OErr Task_not_found) (getTask db (cd_taskId p))) (\<lambda>t.
     bindE (guardE (t_status t = T_ready) (OErr Task_not_startable)) (\<lambda>_.
     bindE (assertTakesNewWork db \<lparr>as_handle = cd_assigneeHandle p, as_paneKey = cd_assigneePaneKey p,
        as_processIncarnation = cd_processIncarnation p, as_hostScope = cd_hostScope p\<rparr>) (\<lambda>_.
     bindE (resolveCreatorDispatchId db (cd_creator p)) (\<lambda>creatorId.
     bindE (claimDispatchContextRow e (claim_of e p depth creatorId db) db) (\<lambda>(inserted, db1).
       if \<not> inserted then
         (case getTask db1 (cd_taskId p) of
            None \<Rightarrow> Inl (OErr Task_not_found)
          | Some current \<Rightarrow>
              if t_status current = T_ready \<and>
                findActiveDispatchForAssignee db1 (cd_assigneeHandle p) (cd_assigneePaneKey p) \<noteq> None
              then Inl (Plain Assignee_busy) else Inl (OErr Task_not_startable))
       else bindE (transition_task False (cd_taskId p) [T_ready] T_dispatched [] db1)
         (\<lambda>db2. Inr (getDispatchContextById db2 (gen e ''ctx''), db2))))))))"

definition commitDispatchLaunchTokenHash ::
  "string \<Rightarrow> string \<Rightarrow> odb \<Rightarrow> (dispatch_row option \<times> odb) result" where
  "commitDispatchLaunchTokenHash i hash db =
     (case getDispatchContextById db i of
        None \<Rightarrow> Inl (OErr Dispatch_not_found)
      | Some d \<Rightarrow>
          if d_contract_version d \<noteq> current_contract_version then Inl (OErr Request_mismatch)
          else if truthy (d_launch_token_hash d) \<and> d_launch_token_hash d \<noteq> Some hash
          then Inl (OErr Request_mismatch)
          else let db1 = db\<lparr>dispatches := update_where (\<lambda>d. d_id d = i)
                 (\<lambda>d. d\<lparr>d_launch_token_hash := orElse (d_launch_token_hash d) (Some hash)\<rparr>) (dispatches db)\<rparr>
            in Inr (getDispatchContextById db1 i, db1))"

end
