(* ===== verification/Orc_Threads.thy ===== *)
theory Orc_Threads
  imports Orc_Create
begin

text \<open>
  Decision gates (\<open>db/decision-gates/decision-gate-store.ts\<close>): a gate blocks its task and ends the
  task's live Dispatches until somebody resolves it or it times out. The transition listener is
  called after the savepoint is released and its failures are swallowed; it is not modelled.
\<close>

definition assertResolutionInOptions :: "gate_row \<Rightarrow> string \<Rightarrow> unit result" where
  "assertResolutionInOptions g resolution =
     guardE (g_options g \<noteq> [] \<longrightarrow> resolution \<in> set (g_options g)) (OErr Resolution_not_in_options)"

record gate_requester =
  gr_handle :: string
  gr_paneKey :: "string option"
  gr_dispatchId :: string

definition requester_owns :: "odb \<Rightarrow> string \<Rightarrow> gate_requester option \<Rightarrow> bool" where
  "requester_owns db task requester =
     (case requester of
        None \<Rightarrow> True
      | Some r \<Rightarrow> (case getActiveDispatchForTask db task of
            None \<Rightarrow> False
          | Some d \<Rightarrow> d_id d = gr_dispatchId r \<and>
              isDispatchMessageSender db (d_id d) (gr_handle r) (gr_paneKey r) True))"

definition createGate ::
  "env \<Rightarrow> string \<Rightarrow> string \<Rightarrow> string list \<Rightarrow> gate_requester option \<Rightarrow> odb \<Rightarrow>
   (gate_row option \<times> odb) result" where
  "createGate e task question options requester db =
     bindE (requireE (OErr Lifecycle_not_found) (getTask db task)) (\<lambda>t.
     bindE (requireRun db (t_run_id t)) (\<lambda>_.
     bindE (guardE (requester_owns db task requester) (OErr Consumer_fenced)) (\<lambda>_.
     bindE (guardE (activeWorkerDispatch db task = None) (OErr Task_not_startable)) (\<lambda>_.
     let g = \<lparr>g_id = gen e ''gate'', g_run_id = t_run_id t, g_task_id = task, g_question = question,
           g_options = options, g_status = G_pending, g_resolution = None,
           g_created_at = sql_now e, g_resolved_at = None\<rparr>
     in bindE (insert_row g_id (Plain Unique_constraint) g (gates db)) (\<lambda>rows.
        bindE (completeActiveDispatchesForTask e task (db\<lparr>gates := rows\<rparr>)) (\<lambda>db1.
        bindE (transition_task False task [t_status t] T_blocked [] db1) (\<lambda>db2.
        Inr (getGate db2 (g_id g), db2))))))))"

definition resolve_row :: "env \<Rightarrow> string \<Rightarrow> gate_row \<Rightarrow> gate_row" where
  "resolve_row e resolution g = g\<lparr>g_status := G_resolved, g_resolution := Some resolution,
     g_resolved_at := Some (sql_now e)\<rparr>"

definition resolveGate :: "env \<Rightarrow> string \<Rightarrow> string \<Rightarrow> odb \<Rightarrow> (gate_row option \<times> odb) result" where
  "resolveGate e i resolution db =
     (case getGate db i of
        None \<Rightarrow> Inr (None, db)
      | Some g \<Rightarrow>
          bindE (assertResolutionInOptions g resolution) (\<lambda>_.
          let db1 = db\<lparr>gates := update_where (\<lambda>g. g_id g = i) (resolve_row e resolution) (gates db)\<rparr>
          in bindE (updateTaskStatus e (g_task_id g) T_ready None db1) (\<lambda>(_, db2).
             Inr (getGate db2 i, db2))))"

definition resolveGateIfPending :: "env \<Rightarrow> string \<Rightarrow> string \<Rightarrow> odb \<Rightarrow> (gate_row option \<times> odb) result" where
  "resolveGateIfPending e i resolution db =
     bindE (case getGate db i of None \<Rightarrow> Inr () | Some g \<Rightarrow> assertResolutionInOptions g resolution) (\<lambda>_.
     let P = (\<lambda>g. g_id g = i \<and> g_status g = G_pending);
         db1 = db\<lparr>gates := update_where P (resolve_row e resolution) (gates db)\<rparr>
     in if count_where P (gates db) = 0 then Inr (None, db1)
        else case getGate db1 i of
            None \<Rightarrow> Inr (None, db1)
          | Some g \<Rightarrow> bindE (updateTaskStatus e (g_task_id g) T_ready None db1) (\<lambda>(_, db2).
              Inr (Some g, db2)))"

definition timeoutGate :: "env \<Rightarrow> string \<Rightarrow> odb \<Rightarrow> gate_row option \<times> odb" where
  "timeoutGate e i db =
     (let db1 = db\<lparr>gates := update_where (\<lambda>g. g_id g = i \<and> g_status g = G_pending)
            (\<lambda>g. g\<lparr>g_status := G_timeout, g_resolved_at := Some (sql_now e)\<rparr>) (gates db)\<rparr>
      in (getGate db1 i, db1))"

definition listGates :: "odb \<Rightarrow> string option \<Rightarrow> gate_status option \<Rightarrow> gate_row list" where
  "listGates db task status =
     sort_key g_created_at (filter (\<lambda>g.
       (truthy task \<longrightarrow> Some (g_task_id g) = task) \<and>
       (case status of None \<Rightarrow> True | Some s \<Rightarrow> g_status g = s)) (gates db))"

text \<open>
  Question threads (\<open>db/questions/question-threads.ts\<close>): a worker asks, its coordinator or the
  worker that started it answers, and a settlement closes what is still pending. A question is
  fenced by the Run's consumer generation (\<open>db/runs/run-delivery.ts\<close>) or by the generation of the
  answering Dispatch.
\<close>

definition requireCurrentConsumer :: "odb \<Rightarrow> string \<Rightarrow> nat \<Rightarrow> run_row result" where
  "requireCurrentConsumer db run generation =
     (case getRunRaw db run of
        None \<Rightarrow> Inl (OErr Consumer_fenced)
      | Some r \<Rightarrow> if r_legacy r = 1 \<or> r_consumer_generation r \<noteq> generation
          then Inl (OErr Consumer_fenced) else Inr r)"

definition blank_message :: "string \<Rightarrow> string \<Rightarrow> string \<Rightarrow> string \<Rightarrow> string \<Rightarrow> message_insert" where
  "blank_message sender receiver subject body run =
     \<lparr>mi_id = None, mi_from = sender, mi_to = receiver, mi_subject = subject, mi_body = Some body,
      mi_type = None, mi_priority = None, mi_threadId = None, mi_payload = None,
      mi_senderPaneKey = None, mi_runId = Some run, mi_answerSenderSnapshot = None,
      mi_deliveryContract = None\<rparr>"

record question_params =
  qp_runId :: string
  qp_dispatchId :: string
  qp_askerHandle :: string
  qp_question :: string
  qp_options :: "string list"
  qp_to :: "string option"

definition question_message :: "question_params \<Rightarrow> string \<Rightarrow> message_insert" where
  "question_message p task =
     (blank_message (dispatch_mailbox (qp_dispatchId p)) (or_default (qp_to p) (run_mailbox (qp_runId p)))
        ''Question'' (qp_question p) (qp_runId p))
       \<lparr>mi_type := Some MT_question,
        mi_payload := Some (Payload_question task (qp_dispatchId p) (qp_question p) (qp_options p))\<rparr>"

definition createQuestion ::
  "env \<Rightarrow> question_params \<Rightarrow> odb \<Rightarrow> ((question_row option \<times> message_row option) \<times> odb) result" where
  "createQuestion e p db =
     bindE (requireRun db (qp_runId p)) (\<lambda>_.
     case getDispatchContextById db (qp_dispatchId p) of
       None \<Rightarrow> Inl (OErr Dispatch_inactive)
     | Some d \<Rightarrow>
       if d_run_id d \<noteq> qp_runId p then Inl (OErr Dispatch_inactive)
       else bindE (insertMessage e (question_message p (d_task_id d)) db) (\<lambda>(m, db1).
         let db2 = db1\<lparr>messages := update_where (\<lambda>x. m_id x = m_id m)
               (\<lambda>x. x\<lparr>m_thread_id := Some (m_id m)\<rparr>) (messages db1)\<rparr>
         in bindE (insert_row q_message_id (Plain Unique_constraint)
              \<lparr>q_message_id = m_id m, q_run_id = qp_runId p, q_dispatch_id = qp_dispatchId p,
               q_asker_handle = qp_askerHandle p, q_status = Q_pending, q_answer_message_id = None,
               q_answer_body = None, q_answered_by_generation = None, q_created_at = sql_now e,
               q_answered_at = None, q_closed_at = None\<rparr> (questions db2)) (\<lambda>rows.
            let db3 = db2\<lparr>questions := rows\<rparr>
            in Inr ((map_option exposeQuestionTimestamps (getQuestionRaw db3 (m_id m)),
                     getMessageById db3 (m_id m)), db3))))"

definition getQuestion :: "odb \<Rightarrow> string \<Rightarrow> question_row option" where
  "getQuestion db i = map_option exposeQuestionTimestamps (getQuestionRaw db i)"

datatype answerer =
    By_consumer nat \<comment> \<open>\<open>consumerGeneration\<close> of the Run\<close>
  | By_dispatch string nat \<comment> \<open>\<open>answeredBy\<close>: the Dispatch and its consumer generation\<close>

record answer_params =
  ap_messageId :: string
  ap_runId :: string
  ap_body :: string
  ap_captureSender :: "string option"
  ap_answerer :: answerer

definition answerer_fence :: "odb \<Rightarrow> answerer \<Rightarrow> question_row \<Rightarrow> bool" where
  "answerer_fence db a q =
     (case a of
        By_consumer _ \<Rightarrow> True
      | By_dispatch i generation \<Rightarrow>
          map_option m_to_handle (getMessageById db (q_message_id q)) = Some (dispatch_mailbox i) \<and>
          (case getDispatchContextById db i of
             None \<Rightarrow> False | Some d \<Rightarrow> active d \<and> d_consumer_generation d = generation))"

definition answer_message :: "answer_params \<Rightarrow> question_row \<Rightarrow> message_insert" where
  "answer_message p q =
     (blank_message (case ap_answerer p of By_dispatch i _ \<Rightarrow> dispatch_mailbox i
                       | By_consumer _ \<Rightarrow> run_mailbox (ap_runId p))
        (dispatch_mailbox (q_dispatch_id q)) ''Re: Question'' (ap_body p) (ap_runId p))
       \<lparr>mi_answerSenderSnapshot := ap_captureSender p, mi_threadId := Some (q_message_id q)\<rparr>"

definition answer_row :: "env \<Rightarrow> answer_params \<Rightarrow> string \<Rightarrow> question_row \<Rightarrow> question_row" where
  "answer_row e p answerId q = q\<lparr>q_status := Q_answered, q_answer_message_id := Some answerId,
     q_answer_body := Some (ap_body p),
     q_answered_by_generation := (case ap_answerer p of By_consumer g \<Rightarrow> Some g | By_dispatch _ _ \<Rightarrow> None),
     q_answered_at := Some (sql_now e)\<rparr>"

record answer_result =
  an_question :: "question_row option"
  an_message :: "message_row option"
  an_duplicate :: bool

definition write_answer ::
  "env \<Rightarrow> answer_params \<Rightarrow> question_row \<Rightarrow> odb \<Rightarrow> (answer_result \<times> odb) result" where
  "write_answer e p q db =
     bindE (insertMessage e (answer_message p q) db) (\<lambda>(m, db1).
     let db2 = (if getFederatedDispatch db1 (q_dispatch_id q) \<noteq> None
                then markAsReadAndDelivered e [m_id m] db1 else db1);
         db3 = db2\<lparr>questions := update_where (\<lambda>x. q_message_id x = q_message_id q \<and> q_status x = Q_pending)
                 (answer_row e p (m_id m)) (questions db2)\<rparr>
     in Inr (\<lparr>an_question = map_option exposeQuestionTimestamps (getQuestionRaw db3 (q_message_id q)),
              an_message = getMessageById db3 (m_id m), an_duplicate = False\<rparr>, db3))"

definition answerQuestion :: "env \<Rightarrow> answer_params \<Rightarrow> odb \<Rightarrow> (answer_result \<times> odb) result" where
  "answerQuestion e p db =
     bindE (case ap_answerer p of
              By_consumer g \<Rightarrow> bindE (requireCurrentConsumer db (ap_runId p) g) (\<lambda>_. Inr ())
            | By_dispatch _ _ \<Rightarrow> Inr ()) (\<lambda>_.
     case getQuestionRaw db (ap_messageId p) of
       None \<Rightarrow> Inl (OErr Question_not_found)
     | Some q \<Rightarrow>
       if q_run_id q \<noteq> ap_runId p then Inl (OErr Question_not_found)
       else if \<not> answerer_fence db (ap_answerer p) q then Inl (OErr Consumer_fenced)
       else (case q_status q of
           Q_closed \<Rightarrow> Inl (OErr Dispatch_inactive)
         | Q_answered \<Rightarrow>
             if q_answer_body q \<noteq> Some (ap_body p) \<or> \<not> truthy (q_answer_message_id q)
             then Inl (OErr Answer_conflict)
             else (case getMessageById db (the (q_answer_message_id q)) of
                 None \<Rightarrow> Inl (Plain Answer_message_missing)
               | Some m \<Rightarrow> Inr (\<lparr>an_question = Some (exposeQuestionTimestamps q),
                   an_message = Some m, an_duplicate = True\<rparr>, db))
         | Q_pending \<Rightarrow> write_answer e p q db))"

definition awaitsAnswerToLatestQuestion :: "odb \<Rightarrow> string \<Rightarrow> bool" where
  "awaitsAnswerToLatestQuestion db i =
     (list_ex (\<lambda>q. q_dispatch_id q = i \<and> q_status q = Q_pending \<and>
        list_ex (\<lambda>asked. m_id asked = q_message_id q \<and>
          \<not> list_ex (\<lambda>m. m_to_handle m = dispatch_mailbox i \<and> m_sequence asked < m_sequence m) (messages db))
          (messages db)) (questions db) \<or>
      list_ex (\<lambda>(d, pending, created). d = i \<and> pending \<and>
        \<not> list_ex (\<lambda>m. m_to_handle m = dispatch_mailbox i \<and> created < m_created_at m) (messages db))
        (remote_questions db))"

end
