(* ===== verification/Orc_Receipts.thy ===== *)
theory Orc_Receipts
  imports Orc_Create
begin

text \<open>
  The durable mutation ledger (\<open>db/mutation-receipts/mutation-receipt-store.ts\<close>,
  \<open>mutation-receipt-capacity.ts\<close>) that makes a retried request run once, and the coordinator
  runs (\<open>db/coordinator-runs/coordinator-run-store.ts\<close>). A receipt's key is the pair of caller
  and request. The row count, kept by triggers, is the length of the table. \<open>cutoff\<close> is the value
  of \<open>datetime('now', '-30 days')\<close>.
\<close>

section \<open>Capacity\<close>

definition mutation_receipt_max_rows :: nat where "mutation_receipt_max_rows = 10000"
definition mutation_receipt_prune_batch_size :: nat where "mutation_receipt_prune_batch_size = 64"

definition mr_key :: "mutation_receipt_row \<Rightarrow> string \<times> string" where
  "mr_key r = (mr_caller_fingerprint r, mr_request_id r)"

text \<open>The first \<open>n\<close> completed rows in the order \<open>updated_at ASC, rowid ASC\<close>.\<close>

definition oldest_completed :: "nat \<Rightarrow> mutation_receipt_row list \<Rightarrow> mutation_receipt_row list" where
  "oldest_completed n rows =
     take n (sort_key mr_updated_at (filter (\<lambda>r. mr_state r = Mut_completed) rows))"

definition prune_receipts :: "nat \<Rightarrow> mutation_receipt_row list \<Rightarrow> mutation_receipt_row list" where
  "prune_receipts n rows =
     filter (\<lambda>r. mr_key r \<notin> mr_key ` set (oldest_completed n rows)) rows"

definition ensureMutationReceiptCapacity :: "string \<Rightarrow> odb \<Rightarrow> odb result" where
  "ensureMutationReceiptCapacity cutoff db =
     (let kept = filter (\<lambda>r. \<not> (mr_state r = Mut_completed \<and> mr_updated_at r < cutoff)) (receipts db);
          count = length kept;
          rows = (if mutation_receipt_max_rows \<le> count
            then prune_receipts (count - mutation_receipt_max_rows + mutation_receipt_prune_batch_size) kept
            else kept)
      in if mutation_receipt_max_rows \<le> length rows then Inl (OErr Mutation_ledger_full)
         else Inr (db\<lparr>receipts := rows\<rparr>))"

section \<open>Receipts\<close>

definition getMutationReceipt :: "odb \<Rightarrow> string \<Rightarrow> string \<Rightarrow> mutation_receipt_row option" where
  "getMutationReceipt db caller request = row_with mr_key (caller, request) (receipts db)"

record receipt_params =
  rp_caller :: string
  rp_request :: string
  rp_method :: string
  rp_payloadHash :: string

definition pending_receipt :: "env \<Rightarrow> receipt_params \<Rightarrow> mutation_receipt_row" where
  "pending_receipt e p = \<lparr>mr_caller_fingerprint = rp_caller p, mr_request_id = rp_request p,
     mr_method = rp_method p, mr_payload_hash = rp_payloadHash p, mr_state = Mut_pending,
     mr_receipt = None, mr_created_at = sql_now e, mr_updated_at = sql_now e\<rparr>"

definition insert_receipt :: "env \<Rightarrow> receipt_params \<Rightarrow> odb \<Rightarrow> odb result" where
  "insert_receipt e p db =
     bindE (insert_row mr_key (Plain Unique_constraint) (pending_receipt e p) (receipts db))
       (\<lambda>rows. Inr (db\<lparr>receipts := rows\<rparr>))"

datatype receipt_disposition = Receipt_started | Receipt_pending | Receipt_completed

definition disposition_of :: "mutation_state \<Rightarrow> receipt_disposition" where
  "disposition_of s = (case s of Mut_pending \<Rightarrow> Receipt_pending | Mut_completed \<Rightarrow> Receipt_completed)"

definition beginMutationReceipt ::
  "env \<Rightarrow> string \<Rightarrow> receipt_params \<Rightarrow> odb \<Rightarrow>
   ((receipt_disposition \<times> mutation_receipt_row option) \<times> odb) result" where
  "beginMutationReceipt e cutoff p db =
     (case getMutationReceipt db (rp_caller p) (rp_request p) of
        Some r \<Rightarrow>
          if mr_method r \<noteq> rp_method p \<or> mr_payload_hash r \<noteq> rp_payloadHash p
          then Inl (OErr Request_mismatch)
          else Inr ((disposition_of (mr_state r), Some r), db)
      | None \<Rightarrow>
          bindE (ensureMutationReceiptCapacity cutoff db) (\<lambda>db1.
          bindE (insert_receipt e p db1) (\<lambda>db2.
          Inr ((Receipt_started, getMutationReceipt db2 (rp_caller p) (rp_request p)), db2))))"

definition receipt_matches :: "receipt_params \<Rightarrow> mutation_receipt_row \<Rightarrow> bool" where
  "receipt_matches p r = (mr_key r = (rp_caller p, rp_request p) \<and> mr_method r = rp_method p \<and>
     mr_payload_hash r = rp_payloadHash p)"

definition write_receipt ::
  "(mutation_receipt_row \<Rightarrow> bool) \<Rightarrow> (mutation_receipt_row \<Rightarrow> mutation_receipt_row) \<Rightarrow>
   receipt_params \<Rightarrow> odb \<Rightarrow> (mutation_receipt_row \<times> odb) result" where
  "write_receipt P f p db =
     (let db1 = db\<lparr>receipts := update_where P f (receipts db)\<rparr>
      in case getMutationReceipt db1 (rp_caller p) (rp_request p) of
           None \<Rightarrow> Inl (OErr Request_mismatch)
         | Some r \<Rightarrow> if count_where P (receipts db) \<noteq> 1 then Inl (OErr Request_mismatch) else Inr (r, db1))"

definition completeMutationReceipt ::
  "env \<Rightarrow> receipt_params \<Rightarrow> string \<Rightarrow> odb \<Rightarrow> (mutation_receipt_row \<times> odb) result" where
  "completeMutationReceipt e p receipt db =
     write_receipt (receipt_matches p)
       (\<lambda>r. r\<lparr>mr_state := Mut_completed, mr_receipt := Some receipt, mr_updated_at := sql_now e\<rparr>) p db"

definition checkpointPendingMutationReceipt ::
  "env \<Rightarrow> receipt_params \<Rightarrow> string \<Rightarrow> odb \<Rightarrow> (mutation_receipt_row \<times> odb) result" where
  "checkpointPendingMutationReceipt e p receipt db =
     write_receipt (\<lambda>r. receipt_matches p r \<and> mr_state r = Mut_pending)
       (\<lambda>r. r\<lparr>mr_receipt := Some receipt, mr_updated_at := sql_now e\<rparr>) p db"

definition discardPendingMutationReceipt :: "string \<Rightarrow> string \<Rightarrow> odb \<Rightarrow> odb" where
  "discardPendingMutationReceipt caller request db = db\<lparr>receipts :=
     filter (\<lambda>r. \<not> (mr_key r = (caller, request) \<and> mr_state r = Mut_pending)) (receipts db)\<rparr>"

definition countPendingMutationReceipts :: "odb \<Rightarrow> string list \<Rightarrow> nat" where
  "countPendingMutationReceipts db callers =
     count_where (\<lambda>r. mr_caller_fingerprint r \<in> set callers \<and> mr_state r = Mut_pending) (receipts db)"

definition settlePendingMutationReceipts :: "env \<Rightarrow> string list \<Rightarrow> string \<Rightarrow> odb \<Rightarrow> odb" where
  "settlePendingMutationReceipts e callers receipt db = db\<lparr>receipts :=
     update_where (\<lambda>r. mr_caller_fingerprint r \<in> set callers \<and> mr_state r = Mut_pending)
       (\<lambda>r. r\<lparr>mr_state := Mut_completed, mr_receipt := Some receipt, mr_updated_at := sql_now e\<rparr>)
       (receipts db)\<rparr>"

section \<open>Coordinator runs\<close>

definition createCoordinatorRun ::
  "env \<Rightarrow> string \<Rightarrow> string \<Rightarrow> nat option \<Rightarrow> odb \<Rightarrow> (coordinator_run \<times> odb) result" where
  "createCoordinatorRun e spec handle poll db =
     (let r = \<lparr>cr_id = gen e ''run'', cr_spec = spec, cr_status = C_running,
            cr_coordinator_handle = handle, cr_poll_interval_ms = or_default poll 2000,
            cr_created_at = sql_now e, cr_completed_at = None, cr_scheduler_lost_at = None\<rparr>
      in bindE (insert_row cr_id (Plain Unique_constraint) r (coordinator_runs db)) (\<lambda>rows.
         Inr (r, db\<lparr>coordinator_runs := rows\<rparr>)))"

definition getCoordinatorRun :: "odb \<Rightarrow> string \<Rightarrow> coordinator_run option" where
  "getCoordinatorRun db i = row_with cr_id i (coordinator_runs db)"

definition updateCoordinatorRun ::
  "env \<Rightarrow> string \<Rightarrow> coordinator_status \<Rightarrow> odb \<Rightarrow> coordinator_run option \<times> odb" where
  "updateCoordinatorRun e i status db =
     (let completedAt = (if status = C_completed \<or> status = C_failed then Some (iso_now e) else None);
          db1 = db\<lparr>coordinator_runs := update_where (\<lambda>r. cr_id r = i)
            (\<lambda>r. r\<lparr>cr_status := status, cr_completed_at := orElse completedAt (cr_completed_at r)\<rparr>)
            (coordinator_runs db)\<rparr>
      in (getCoordinatorRun db1 i, db1))"

definition getActiveCoordinatorRun :: "odb \<Rightarrow> coordinator_run option" where
  "getActiveCoordinatorRun db =
     first_row (rev (sort_key cr_created_at
       (rev (filter (\<lambda>r. cr_status r = C_running) (coordinator_runs db)))))"

definition union_handles :: "odb \<Rightarrow> string list" where
  "union_handles db = remdups (sort (map m_to_handle (messages db) @ map m_from_handle (messages db)))"

definition getIdleTerminals :: "odb \<Rightarrow> string list \<Rightarrow> string list" where
  "getIdleTerminals db exclude =
     filter (\<lambda>h. \<not> list_ex (\<lambda>d. active d \<and> d_assignee_handle d = Some h) (dispatches db) \<and>
                 h \<notin> set exclude) (union_handles db)"

end
