(* ===== verification/Orc_Workers.thy ===== *)
theory Orc_Workers
  imports Orc_Threads Orc_Receipts
begin

text \<open>
  Supervised workers (\<open>db/worker-dispatch/\<close>): starting one, giving it its terminal, the stages of
  its start, its outcome, and stopping or abandoning it. \<open>effect\<close> is one entry of an effects
  array: its \<open>action\<close>, if it is an object with one, and its JSON text.
\<close>

section \<open>Starting\<close>

text \<open>\<open>isWorkerStopRequested\<close>, \<open>isStopStrandedByAnotherRuntime\<close> and the helper list.\<close>

definition isWorkerStopRequested :: "odb \<Rightarrow> string \<Rightarrow> bool" where
  "isWorkerStopRequested db i =
     (case orElse (map_option w_state (getWorkerDispatch db i))
             (map_option ra_state (getRemoteDispatchAttachment db i)) of
        None \<Rightarrow> False
      | Some s \<Rightarrow> s = W_stopping \<or> s = W_stop_unknown \<or> s = W_stopped)"

definition isStopStrandedByAnotherRuntime :: "worker_row \<Rightarrow> string \<Rightarrow> bool" where
  "isStopStrandedByAnotherRuntime w epoch = (w_state w = W_stopping \<and> w_runtime_epoch w \<noteq> Some epoch)"

definition listHelperDispatchIds :: "odb \<Rightarrow> string \<Rightarrow> string list" where
  "listHelperDispatchIds db i = map d_id (filter (\<lambda>d. d_creator_dispatch_id d = Some i) (dispatches db))"

definition isDispatchProcessCurrent :: "odb \<Rightarrow> string \<Rightarrow> string option \<Rightarrow> string option \<Rightarrow> bool" where
  "isDispatchProcessCurrent db i paneKey incarnation =
     (case getDispatchContextById db i of
        None \<Rightarrow> False
      | Some d \<Rightarrow> truthy (d_assignee_pane_key d) \<and> truthy paneKey \<and>
          isEquivalentPaneKey (the (d_assignee_pane_key d)) (the paneKey) \<and>
          truthy (d_process_incarnation d) \<and> incarnation = d_process_incarnation d)"

record start_params =
  sp_taskId :: "string option"
  sp_newTask :: "create_task_params option" \<comment> \<open>given when \<open>taskSpec\<close> is\<close>
  sp_startOptions :: string
  sp_launchTokenHash :: "string option"
  sp_retryOf :: "string option"
  sp_runtimeEpoch :: "string option"
  sp_federation :: "(string \<times> string \<times> string \<times> nat) option"
  sp_mutationReceipt :: "receipt_params option"
  sp_creator :: creator
  sp_maxDepth :: int
  sp_requiredCreatorDispatchId :: "string option"
  sp_followUpOf :: "string option"
  sp_acceptedBy :: "(string \<times> string) option"
  sp_takesMailOf :: "string option"

definition start_receipt :: "env \<Rightarrow> string \<Rightarrow> start_params \<Rightarrow> odb \<Rightarrow> odb result" where
  "start_receipt e cutoff p db =
     (case sp_mutationReceipt p of
        None \<Rightarrow> Inr db
      | Some rp \<Rightarrow> (case getMutationReceipt db (rp_caller rp) (rp_request rp) of
            Some r \<Rightarrow>
              if mr_method r \<noteq> rp_method rp \<or> mr_payload_hash r \<noteq> rp_payloadHash rp
              then Inl (OErr Request_mismatch) else Inl (OErr Operation_unknown)
          | None \<Rightarrow> bindE (ensureMutationReceiptCapacity cutoff db) (insert_receipt e rp)))"

definition start_follow_up :: "start_params \<Rightarrow> odb \<Rightarrow> unit result" where
  "start_follow_up p db =
     guardE (truthy (sp_followUpOf p) \<longrightarrow> getFollowUpDispatch db (the (sp_followUpOf p)) = None)
       (OErr Follow_up_claimed)"

definition start_task :: "env \<Rightarrow> start_params \<Rightarrow> odb \<Rightarrow> (task_row \<times> odb) result" where
  "start_task e p db =
     (if truthy (sp_taskId p)
      then bindE (requireE (OErr Task_not_found) (getTask db (the (sp_taskId p)))) (\<lambda>t. Inr (t, db))
      else case sp_newTask p of
          Some params \<Rightarrow> if ct_spec params \<noteq> [] then createTask e params db else Inl (OErr Task_not_found)
        | None \<Rightarrow> Inl (OErr Task_not_found))"

text \<open>The failures a start inherits; a retry must name the latest, settled Dispatch of its task.\<close>

definition start_prior_failures :: "start_params \<Rightarrow> task_row \<Rightarrow> odb \<Rightarrow> nat result" where
  "start_prior_failures p t db =
     (if \<not> truthy (sp_retryOf p)
      then (if t_status t = T_ready then Inr 0 else Inl (OErr Task_not_startable))
      else let i = the (sp_retryOf p);
               settled = (\<lambda>d. case getWorkerDispatch db i of
                   Some w \<Rightarrow> w_state w = W_failed \<or> w_state w = W_stopped \<or> w_state w = W_abandoned
                 | None \<Rightarrow> d_status d = D_failed)
        in case getDispatchContextById db i of
            None \<Rightarrow> Inl (OErr Task_not_startable)
          | Some prior \<Rightarrow>
              if d_task_id prior \<noteq> t_id t \<or> d_status prior = D_circuit_broken \<or>
                map_option d_id (getDispatchContext db (t_id t)) \<noteq> Some (d_id prior) \<or>
                \<not> settled prior \<or> \<not> (t_status t = T_failed \<or> t_status t = T_blocked)
              then Inl (OErr Task_not_startable)
              else Inr (d_failure_count prior))"

definition start_creator :: "start_params \<Rightarrow> odb \<Rightarrow> string option result" where
  "start_creator p db =
     bindE (resolveCreatorDispatchId db (sp_creator p)) (\<lambda>c.
     bindE (guardE (sp_requiredCreatorDispatchId p \<noteq> None \<longrightarrow> c = sp_requiredCreatorDispatchId p)
              (OErr Consumer_fenced)) (\<lambda>_.
     bindE (guardE (truthy c \<longrightarrow> \<not> isWorkerStopRequested db (the c)) (OErr Consumer_fenced)) (\<lambda>_.
     Inr c)))"

definition quoted :: "string \<Rightarrow> string" where
  "quoted s = [CHR 0x22] @ s @ [CHR 0x22]"

text \<open>\<open>JSON.stringify({ accepted: { taskId, dispatchId } })\<close>; ids hold nothing to escape.\<close>

definition accepted_receipt :: "string \<Rightarrow> string \<Rightarrow> string" where
  "accepted_receipt task i = ''{'' @ quoted ''accepted'' @ '':{'' @ quoted ''taskId'' @ '':'' @ quoted task @
     '','' @ quoted ''dispatchId'' @ '':'' @ quoted i @ ''}}''"

definition start_accept :: "env \<Rightarrow> start_params \<Rightarrow> string \<Rightarrow> string \<Rightarrow> odb \<Rightarrow> odb" where
  "start_accept e p task i db =
     (case orElse (map_option (\<lambda>rp. (rp_caller rp, rp_request rp)) (sp_mutationReceipt p)) (sp_acceptedBy p) of
        None \<Rightarrow> db
      | Some key \<Rightarrow> db\<lparr>receipts := update_where (\<lambda>r. mr_key r = key \<and> mr_state r = Mut_pending)
          (\<lambda>r. r\<lparr>mr_receipt := Some (accepted_receipt task i), mr_updated_at := sql_now e\<rparr>) (receipts db)\<rparr>)"

definition fresh_worker :: "env \<Rightarrow> string \<Rightarrow> start_params \<Rightarrow> worker_row" where
  "fresh_worker e i p = \<lparr>w_dispatch_id = i, w_runtime_epoch = sp_runtimeEpoch p, w_state = W_starting,
     w_stage = ''accepted'', w_worktree_id = None, w_agent_terminal_handle = None,
     w_setup_state = ''not_applicable'', w_effects = ''[]'', w_residual_resources = ''[]'',
     w_start_options = sp_startOptions p, w_last_error = None, w_created_at = sql_now e,
     w_updated_at = sql_now e\<rparr>"

definition start_federation :: "env \<Rightarrow> start_params \<Rightarrow> string \<Rightarrow> odb \<Rightarrow> odb result" where
  "start_federation e p i db =
     (case sp_federation p of
        None \<Rightarrow> Inr db
      | Some (envId, name, peer, version) \<Rightarrow>
          bindE (insert_row fd_dispatch_id (Plain Unique_constraint)
             \<lparr>fd_dispatch_id = i, fd_environment_id = envId, fd_environment_name = name,
              fd_peer_fingerprint = peer, fd_protocol_version = version,
              fd_home_auto_release_at = None, fd_home_auto_release_state = None,
              fd_updated_at = sql_now e\<rparr> (federated db))
            (\<lambda>rows. Inr (db\<lparr>federated := rows\<rparr>)))"

definition starting_of :: "env \<Rightarrow> start_params \<Rightarrow> task_row \<Rightarrow> string option \<Rightarrow> nat \<Rightarrow> nat \<Rightarrow> starting_params" where
  "starting_of e p t creatorId priorFailures depth =
     \<lparr>st_id = gen e ''ctx'', st_runId = t_run_id t, st_taskId = t_id t,
      st_contractVersion = current_contract_version, st_launchTokenHash = sp_launchTokenHash p,
      st_depth = depth, st_retryOfDispatchId = sp_retryOf p, st_creatorDispatchId = creatorId,
      st_creatorIdentity = recordedCreatorIdentity (sp_creator p),
      st_priorFailures = priorFailures, st_followUpOfDispatchId = sp_followUpOf p\<rparr>"

definition createStartingWorkerDispatch ::
  "env \<Rightarrow> string \<Rightarrow> start_params \<Rightarrow> odb \<Rightarrow>
   ((dispatch_row option \<times> worker_row option \<times> task_row option) \<times> odb) result" where
  "createStartingWorkerDispatch e cutoff p db =
     bindE (start_receipt e cutoff p db) (\<lambda>db1.
     bindE (start_follow_up p db1) (\<lambda>_.
     bindE (start_task e p db1) (\<lambda>(t, db2).
     bindE (start_prior_failures p t db2) (\<lambda>priorFailures.
     bindE (start_creator p db2) (\<lambda>creatorId.
     let i = gen e ''ctx''; db3 = start_accept e p (t_id t) i db2 in
     bindE (resolveChildDispatchDepth db3 (sp_creator p) (sp_maxDepth p)) (\<lambda>depth.
     bindE (insertStartingDispatchContextRow e (starting_of e p t creatorId priorFailures depth) db3) (\<lambda>db4.
     let db5 = (if truthy (sp_takesMailOf p) then takeFollowUpMail e (the (sp_takesMailOf p)) i db4 else db4) in
     bindE (insert_row w_dispatch_id (Plain Unique_constraint) (fresh_worker e i p) (workers db5)) (\<lambda>rows.
     bindE (start_federation e p i (db5\<lparr>workers := rows\<rparr>)) (\<lambda>db6.
     bindE (transition_task False (t_id t)
         (if truthy (sp_retryOf p) then [T_failed, T_blocked] else [T_ready]) T_dispatched
         [Col_result None, Col_completed_at None] db6) (\<lambda>db7.
     Inr ((getDispatchContextById db7 i, getWorkerDispatch db7 i, getTask db7 (t_id t)), db7)))))))))))"

section \<open>Authority\<close>

record effect =
  ef_action :: "string option"
  ef_json :: string

definition json_array :: "effect list \<Rightarrow> string" where
  "json_array es = ''['' @ join_with '','' (map ef_json es) @ '']''"

definition residual_effect :: "effect \<Rightarrow> bool" where
  "residual_effect x = (case ef_action x of None \<Rightarrow> False
     | Some a \<Rightarrow> take 7 a = ''created'' \<or> a = ''reused_agent_terminal'')"

record authority_params =
  au_dispatchId :: string
  au_handle :: string
  au_paneKey :: "string option"
  au_processIncarnation :: "string option"
  au_launchTokenHash :: "string option"
  au_worktreeId :: string
  au_effects :: "effect list"
  au_setupState :: string
  au_hostScope :: "string option"
  au_terminalCreated :: "bool option" \<comment> \<open>\<open>terminalOwnership\<close>: created or external\<close>

definition starting_now :: "odb \<Rightarrow> string \<Rightarrow> bool" where
  "starting_now db i =
     (map_option d_status (getDispatchContextById db i) = Some D_pending \<and>
      map_option w_state (getWorkerDispatch db i) = Some W_starting)"

definition authority_row :: "env \<Rightarrow> authority_params \<Rightarrow> dispatch_row \<Rightarrow> dispatch_row" where
  "authority_row e p d = d\<lparr>d_assignee_handle := Some (au_handle p), d_assignee_pane_key := au_paneKey p,
     d_assignee_orca_session_id :=
       dispatchAssigneeOrcaSessionId (cleared_from e) (au_handle p) (au_processIncarnation p),
     d_process_incarnation := au_processIncarnation p, d_host_scope := au_hostScope p,
     d_launch_token_hash := orElse (d_launch_token_hash d) (au_launchTokenHash p),
     d_capability_revoked_at := None, d_consumer_generation := d_consumer_generation d + 1\<rparr>"

definition authority_worker :: "env \<Rightarrow> authority_params \<Rightarrow> worker_row \<Rightarrow> worker_row" where
  "authority_worker e p w = w\<lparr>w_stage := ''authority_attached'', w_worktree_id := Some (au_worktreeId p),
     w_agent_terminal_handle := Some (au_handle p), w_setup_state := au_setupState p,
     w_effects := json_array (au_effects p),
     w_residual_resources := json_array (filter residual_effect (au_effects p)),
     w_updated_at := sql_now e\<rparr>"

definition authority_resource ::
  "env \<Rightarrow> authority_params \<Rightarrow> string option \<Rightarrow> odb \<Rightarrow> odb result" where
  "authority_resource e p endpointId db =
     (case au_terminalCreated p of
        None \<Rightarrow> Inr db
      | Some created \<Rightarrow>
          let fresh = (\<lambda>external. bindE (createWorkerTerminalResourceStatement e
                \<lparr>cp_dispatchId = au_dispatchId p, cp_worktreeId = Some (au_worktreeId p),
                 cp_terminalHandle = au_handle p, cp_paneKey = au_paneKey p,
                 cp_processIncarnation = au_processIncarnation p, cp_endpointId = endpointId,
                 cp_endpointIncarnation = au_processIncarnation p, cp_hostScope = au_hostScope p,
                 cp_external = external\<rparr> db) (\<lambda>(r, db1). Inr db1));
              exact = (truthy (au_paneKey p) \<and> truthy (au_processIncarnation p))
          in if getWorkerTerminalResourceByOwner db (au_dispatchId p) \<noteq> None then Inr db
             else if created then fresh False
             else bindE (if exact then findTransferableWorkerTerminalResource db (au_paneKey p)
                           (au_processIncarnation p) (au_hostScope p) else Inr None)
               (\<lambda>transferable. case transferable of
                   None \<Rightarrow> fresh True
                 | Some r \<Rightarrow> bindE (transferWorkerTerminalResourceStatement e
                     \<lparr>tp_resourceId = wr_id r, tp_toDispatchId = au_dispatchId p,
                      tp_terminalHandle = au_handle p, tp_paneKey = the (au_paneKey p),
                      tp_processIncarnation = the (au_processIncarnation p),
                      tp_endpointId = endpointId, tp_endpointIncarnation = au_processIncarnation p,
                      tp_hostScope = au_hostScope p\<rparr> db) (\<lambda>(_, db1). Inr db1)))"

definition prepareStartingWorkerAuthority :: "env \<Rightarrow> authority_params \<Rightarrow> odb \<Rightarrow> odb result" where
  "prepareStartingWorkerAuthority e p db =
     (let i = au_dispatchId p in
      if \<not> starting_now db i then Inl (OErr Dispatch_inactive)
      else let d = the (getDispatchContextById db i); w = the (getWorkerDispatch db i);
               existing = findActiveDispatchForAssignee db (au_handle p) (au_paneKey p)
      in if truthy (d_launch_token_hash d) \<and> truthy (au_launchTokenHash p) \<and>
            d_launch_token_hash d \<noteq> au_launchTokenHash p
         then Inl (OErr Request_mismatch)
         else if existing \<noteq> None \<and> map_option d_id existing \<noteq> Some i then Inl (Plain Assignee_busy)
         else if count_where (\<lambda>d. d_id d = i \<and> d_status d = D_pending) (dispatches db) \<noteq> 1 \<or>
            count_where (\<lambda>w. w_dispatch_id w = i \<and> w_state w = W_starting) (workers db) \<noteq> 1
         then Inl (OErr Dispatch_inactive)
         else let db1 = fenceUnacknowledgedMailboxDeliveries (dispatch_mailbox i)
                    (db\<lparr>dispatches := update_where (\<lambda>d. d_id d = i \<and> d_status d = D_pending)
                       (authority_row e p) (dispatches db)\<rparr>);
                  db2 = db1\<lparr>workers := update_where (\<lambda>w. w_dispatch_id w = i \<and> w_state w = W_starting)
                       (authority_worker e p) (workers db1)\<rparr>
         in authority_resource e p (w_runtime_epoch w) db2)"

definition recordCreatedWorkerTerminalCustody ::
  "env \<Rightarrow> string \<Rightarrow> string \<Rightarrow> string \<Rightarrow> string \<Rightarrow> string \<Rightarrow> string option \<Rightarrow> odb \<Rightarrow> odb result" where
  "recordCreatedWorkerTerminalCustody e i handle paneKey incarnation worktree host db =
     (if \<not> starting_now db i then Inl (OErr Dispatch_inactive)
      else if getWorkerTerminalResourceByOwner db i \<noteq> None then Inr db
      else bindE (createWorkerTerminalResourceStatement e
         \<lparr>cp_dispatchId = i, cp_worktreeId = Some worktree, cp_terminalHandle = handle,
          cp_paneKey = Some paneKey, cp_processIncarnation = Some incarnation,
          cp_endpointId = w_runtime_epoch (the (getWorkerDispatch db i)),
          cp_endpointIncarnation = Some incarnation, cp_hostScope = host, cp_external = False\<rparr> db)
        (\<lambda>(_, db1). Inr db1))"

end
