(* ===== verification/Orc_Stops.thy ===== *)
theory Orc_Stops
  imports Orc_Workers
begin

text \<open>
  The life of a started worker: its stages (\<open>db/worker-dispatch/worker-dispatch-stage.ts\<close>), the
  outcome of its start (\<open>worker-dispatch-outcome.ts\<close>), its stop (\<open>worker-dispatch-stop.ts\<close>)
  and its abandonment (\<open>worker-dispatch-abandon.ts\<close>), with the identity a failed start leaves on
  its Dispatch (\<open>worker-terminal/failed-start-dispatch-identity.ts\<close>).
\<close>

section \<open>Stages\<close>

record stage_params =
  sg_stage :: string
  sg_worktreeId :: "string option"
  sg_terminalHandle :: "string option"
  sg_setupState :: "string option"
  sg_effects :: "effect list option"
  sg_residualResources :: "effect list option"
  sg_lastError :: "string option"
  sg_state :: "worker_state option"

definition recordWorkerStage ::
  "env \<Rightarrow> string \<Rightarrow> stage_params \<Rightarrow> odb \<Rightarrow> (worker_row option \<times> odb) result" where
  "recordWorkerStage e i p db =
     (case getWorkerDispatch db i of
        None \<Rightarrow> Inl (OErr Dispatch_not_found)
      | Some w \<Rightarrow>
          bindE (transition_worker False i [w_state w] (or_default (sg_state p) (w_state w))
            [Col_stage (sg_stage p), Col_worktree_id (orElse (sg_worktreeId p) (w_worktree_id w)),
             Col_agent_terminal_handle (orElse (sg_terminalHandle p) (w_agent_terminal_handle w)),
             Col_setup_state (or_default (sg_setupState p) (w_setup_state w)),
             Col_effects (case sg_effects p of None \<Rightarrow> w_effects w | Some es \<Rightarrow> json_array es),
             Col_residual_resources
               (case sg_residualResources p of None \<Rightarrow> w_residual_resources w | Some es \<Rightarrow> json_array es),
             Col_last_error (orElse (sg_lastError p) (w_last_error w)),
             Col_updated_at (iso_now e)] db)
          (\<lambda>db1. Inr (getWorkerDispatch db1 i, db1)))"

text \<open>The result is the worker and \<open>changed\<close>.\<close>

definition updateWorkerSetupEvidence ::
  "env \<Rightarrow> string \<Rightarrow> string \<Rightarrow> effect list \<Rightarrow> odb \<Rightarrow> ((worker_row option \<times> bool) \<times> odb) result" where
  "updateWorkerSetupEvidence e i setupState effs db =
     (case getWorkerDispatch db i of
        None \<Rightarrow> Inl (OErr Dispatch_not_found)
      | Some w \<Rightarrow>
          if w_setup_state w = setupState \<and> w_effects w = json_array effs then Inr ((Some w, False), db)
          else bindE (transition_worker False i [w_state w] (w_state w)
              [Col_setup_state setupState, Col_effects (json_array effs), Col_updated_at (iso_now e)] db)
            (\<lambda>db1. Inr ((getWorkerDispatch db1 i, True), db1)))"

section \<open>The outcome of a start\<close>

text \<open>\<open>merge\<close> is \<open>mergeWorkerLaunchObservation\<close> applied to the observation.\<close>

definition retainWorkerLaunchObservation :: "(string \<Rightarrow> string) \<Rightarrow> string \<Rightarrow> odb \<Rightarrow> odb" where
  "retainWorkerLaunchObservation merge i db =
     (case getWorkerDispatch db i of
        None \<Rightarrow> db
      | Some w \<Rightarrow>
          if merge (w_start_options w) = w_start_options w then db
          else db\<lparr>workers := update_where (\<lambda>x. w_dispatch_id x = i)
            (\<lambda>x. x\<lparr>w_start_options := merge (w_start_options w)\<rparr>) (workers db)\<rparr>)"

definition markWorkerDispatchReady ::
  "string \<Rightarrow> effect list option \<Rightarrow> odb \<Rightarrow> (worker_row option \<times> odb) result" where
  "markWorkerDispatchReady i effs db =
     (if \<not> starting_now db i then Inl (OErr Dispatch_inactive)
      else let w = the (getWorkerDispatch db i) in
        bindE (transition_dispatch False i [D_pending] D_dispatched [] db) (\<lambda>db1.
        bindE (transition_worker False i [W_starting] W_ready
            [Col_stage ''input_accepted'',
             Col_effects (case effs of None \<Rightarrow> w_effects w | Some es \<Rightarrow> json_array es)] db1) (\<lambda>db2.
        Inr (getWorkerDispatch db2 i, db2))))"

definition recordFailedStartDispatchIdentity :: "env \<Rightarrow> worker_row \<Rightarrow> odb \<Rightarrow> odb" where
  "recordFailedStartDispatchIdentity e w db =
     (case getWorkerTerminalResourceByOwner db (w_dispatch_id w) of
        None \<Rightarrow> db
      | Some r \<Rightarrow>
          if Some (wr_terminal_handle r) \<noteq> w_agent_terminal_handle w then db
          else db\<lparr>dispatches := update_where
            (\<lambda>d. d_id d = w_dispatch_id w \<and> (d_status d = D_failed \<or> d_status d = D_circuit_broken) \<and>
                 d_process_incarnation d = None)
            (\<lambda>d. d\<lparr>d_assignee_handle := Some (wr_terminal_handle r),
               d_assignee_pane_key := wr_pane_key r,
               d_assignee_orca_session_id := dispatchAssigneeOrcaSessionId (cleared_from e)
                 (wr_terminal_handle r) (wr_process_incarnation r),
               d_process_incarnation := wr_process_incarnation r,
               d_host_scope := wr_host_scope r\<rparr>) (dispatches db)\<rparr>)"

definition failWorkerStart ::
  "env \<Rightarrow> string \<Rightarrow> string \<Rightarrow> string \<Rightarrow> odb \<Rightarrow> (worker_row option \<times> odb) result" where
  "failWorkerStart e i stage reason db =
     (case (getDispatchContextById db i, getWorkerDispatch db i) of
        (Some d, Some w) \<Rightarrow>
          if w_state w \<noteq> W_starting then Inl (OErr Dispatch_inactive)
          else let failureCount = d_failure_count d + 1 in
          bindE (transition_dispatch False i [d_status d]
              (if dispatch_circuit_break_failures \<le> failureCount then D_circuit_broken else D_failed)
              [Col_failure_count failureCount, Col_last_failure (Some reason),
               Col_completed_at (Some (iso_now e)),
               Col_capability_revoked_at (orElse (d_capability_revoked_at d) (Some (iso_now e)))] db) (\<lambda>db1.
          bindE (transition_worker False i [W_starting] W_failed
              [Col_stage stage, Col_last_error (Some reason), Col_updated_at (iso_now e)] db1) (\<lambda>db2.
          bindE (case getTask db2 (d_task_id d) of
                None \<Rightarrow> Inr db2
              | Some t \<Rightarrow>
                  if \<not> has_active_dispatch db2 (d_task_id d) \<and> t_status t \<noteq> T_completed
                  then transition_task False (d_task_id d) [t_status t] T_failed
                    [Col_completed_at (Some (iso_now e))] db2
                  else Inr db2) (\<lambda>db3.
          let db4 = close_questions e i db3;
              db5 = (case getWorkerDispatch db4 i of None \<Rightarrow> db4
                     | Some w4 \<Rightarrow> recordFailedStartDispatchIdentity e w4 db4)
          in Inr (getWorkerDispatch db5 i, db5))))
      | _ \<Rightarrow> Inl (OErr Dispatch_inactive))"

definition markWorkerStartUnknown ::
  "env \<Rightarrow> string \<Rightarrow> string \<Rightarrow> string \<Rightarrow> effect list option \<Rightarrow> odb \<Rightarrow> (worker_row option \<times> odb) result" where
  "markWorkerStartUnknown e i stage reason effs db =
     (case (getDispatchContextById db i, getWorkerDispatch db i) of
        (Some d, Some w) \<Rightarrow>
          if w_state w \<noteq> W_starting then Inl (OErr Dispatch_inactive)
          else
          bindE (transition_worker False i [W_starting] W_start_unknown
              ([Col_stage stage, Col_last_error (Some reason), Col_updated_at (iso_now e)] @
               (case effs of None \<Rightarrow> [] | Some es \<Rightarrow> [Col_effects (json_array es)])) db) (\<lambda>db1.
          bindE (transition_dispatch False i [d_status d] (d_status d) [] db1) (\<lambda>db2.
          bindE (transition_task False (d_task_id d) [T_dispatched] T_blocked [] db2) (\<lambda>db3.
          Inr (getWorkerDispatch db3 i, db3))))
      | _ \<Rightarrow> Inl (OErr Dispatch_inactive))"

section \<open>Stopping\<close>

datatype stop_result =
    Stop_stopping "worker_row option" "dispatch_row option"
  | Stop_already_settled worker_row dispatch_row
  | Stop_context_only release_result

definition release_context_only ::
  "env \<Rightarrow> string \<Rightarrow> dispatch_row \<Rightarrow> bool \<Rightarrow> odb \<Rightarrow> (release_result \<times> odb) result" where
  "release_context_only e i d abandon db =
     bindE (releaseContextOnlyDispatch e d abandon db) (\<lambda>(released, db1).
     Inr (released, if rl_alreadySettled released then db1 else close_questions e i db1))"

definition beginWorkerStop :: "env \<Rightarrow> string \<Rightarrow> string \<Rightarrow> odb \<Rightarrow> (stop_result \<times> odb) result" where
  "beginWorkerStop e i epoch db =
     (case getDispatchContextById db i of
        None \<Rightarrow> Inl (OErr Dispatch_not_found)
      | Some d \<Rightarrow> (case getWorkerDispatch db i of
          None \<Rightarrow> bindE (release_context_only e i d False db)
            (\<lambda>(released, db1). Inr (Stop_context_only released, db1))
        | Some w \<Rightarrow>
          if worker_settled (w_state w) then Inr (Stop_already_settled w d, db)
          else bindE (refuseStopWhileKeptOpen db i) (\<lambda>_.
            if w_state w \<noteq> W_ready \<and> w_state w \<noteq> W_start_unknown \<and>
               \<not> isStopStrandedByAnotherRuntime w epoch
            then Inl (OErr Dispatch_inactive)
            else
            bindE (transition_worker False i [w_state w] W_stopping
                [Col_stage ''stop_requested'', Col_runtime_epoch (Some epoch),
                 Col_updated_at (iso_now e)] db) (\<lambda>db1.
            bindE (transition_dispatch False i [d_status d] (d_status d)
                [Col_capability_revoked_at (orElse (d_capability_revoked_at d) (Some (iso_now e)))] db1) (\<lambda>db2.
            bindE (reconcileTaskAfterDispatchInterruption (d_task_id d) i db2) (\<lambda>db3.
            let db4 = close_questions e i db3 in
            Inr (Stop_stopping (getWorkerDispatch db4 i) (getDispatchContextById db4 i), db4)))))))"

definition settleWorkerStop :: "env \<Rightarrow> string \<Rightarrow> odb \<Rightarrow> (worker_row option \<times> odb) result" where
  "settleWorkerStop e i db =
     (case (getWorkerDispatch db i, getDispatchContextById db i) of
        (Some w, Some d) \<Rightarrow>
          if w_state w \<noteq> W_stopping then Inl (OErr Dispatch_inactive)
          else
          bindE (transition_worker False i [W_stopping] W_stopped
              [Col_stage ''process_stopped'', Col_updated_at (iso_now e)] db) (\<lambda>db1.
          bindE (if active d then transition_dispatch False i [d_status d] D_failed
                   [Col_completed_at (Some (iso_now e)), Col_last_failure (Some ''stopped'')] db1
                 else Inr db1) (\<lambda>db2.
          bindE (reconcileTaskAfterDispatchInterruption (d_task_id d) i db2) (\<lambda>db3.
          let db4 = markUnreadFollowUpMail e i (close_questions e i db3)
          in Inr (getWorkerDispatch db4 i, db4))))
      | _ \<Rightarrow> Inl (OErr Dispatch_inactive))"

definition reconcileFederatedWorkerStop :: "env \<Rightarrow> string \<Rightarrow> odb \<Rightarrow> (worker_row option \<times> odb) result" where
  "reconcileFederatedWorkerStop e i db =
     (case (getWorkerDispatch db i, getDispatchContextById db i, getFederatedDispatch db i) of
        (Some w, Some d, Some f) \<Rightarrow>
          if w_state w = W_stopped then Inr (Some w, db)
          else if w_state w \<noteq> W_stopping \<and> w_state w \<noteq> W_stop_unknown then Inl (OErr Dispatch_inactive)
          else
          bindE (transition_worker False i [w_state w] W_stopped
              [Col_stage ''process_stopped'', Col_last_error None, Col_updated_at (iso_now e)] db) (\<lambda>db1.
          bindE (if active d then transition_dispatch False i [d_status d] D_failed
                   [Col_completed_at (orElse (d_completed_at d) (Some (iso_now e))),
                    Col_last_failure (Some ''stopped'')] db1
                 else Inr db1) (\<lambda>db2.
          bindE (reconcileTaskAfterDispatchInterruption (d_task_id d) i db2) (\<lambda>db3.
          let db4 = close_questions e i db3 in Inr (getWorkerDispatch db4 i, db4))))
      | _ \<Rightarrow> Inl (OErr Dispatch_not_found))"

definition resumeFederatedWorkerForTerminalRelay ::
  "env \<Rightarrow> string \<Rightarrow> odb \<Rightarrow> (worker_row option \<times> odb) result" where
  "resumeFederatedWorkerForTerminalRelay e i db =
     (case (getWorkerDispatch db i, getDispatchContextById db i) of
        (Some w, Some d) \<Rightarrow>
          if w_state w \<noteq> W_stopping then Inl (OErr Dispatch_inactive)
          else
          bindE (transition_worker False i [W_stopping] W_ready
              [Col_stage ''remote_report_pending'', Col_updated_at (iso_now e)] db) (\<lambda>db1.
          bindE (if map_option t_status (getTask db1 (d_task_id d)) = Some T_blocked
                 then transition_task False (d_task_id d) [T_blocked] T_dispatched [] db1
                 else Inr db1) (\<lambda>db2.
          Inr (getWorkerDispatch db2 i, db2)))
      | _ \<Rightarrow> Inl (OErr Dispatch_inactive))"

definition markWorkerStopUnknown ::
  "env \<Rightarrow> string \<Rightarrow> string \<Rightarrow> odb \<Rightarrow> (worker_row option \<times> odb) result" where
  "markWorkerStopUnknown e i reason db =
     (if map_option w_state (getWorkerDispatch db i) \<noteq> Some W_stopping then Inl (OErr Dispatch_inactive)
      else bindE (transition_worker False i [W_stopping] W_stop_unknown
          [Col_stage ''stop_outcome_unknown'', Col_last_error (Some reason), Col_updated_at (iso_now e)] db)
        (\<lambda>db1. Inr (getWorkerDispatch db1 i, db1)))"

section \<open>Abandoning\<close>

datatype abandon_disposition = Now_abandoned | Already_abandoned | Abandon_already_settled

datatype abandon_result =
    Abandon_worker abandon_disposition "worker_row option" bool \<comment> \<open>the flag is \<open>superseded\<close>\<close>
  | Abandon_context_only release_result

definition abandon_error :: "string option \<Rightarrow> string option \<Rightarrow> string" where
  "abandon_error lastError abandonedBy =
     join_with '' '' (filter (\<lambda>s. s \<noteq> [])
       [or_default lastError [],
        ''Abandoned by '' @ or_default abandonedBy ''an unidentified caller'' @ ''.''])"

definition abandonWorkerDispatch ::
  "env \<Rightarrow> string \<Rightarrow> string \<Rightarrow> string option \<Rightarrow> odb \<Rightarrow> (abandon_result \<times> odb) result" where
  "abandonWorkerDispatch e i epoch abandonedBy db =
     (case getDispatchContextById db i of
        None \<Rightarrow> Inl (OErr Dispatch_not_found)
      | Some d \<Rightarrow> (case getWorkerDispatch db i of
          None \<Rightarrow> bindE (release_context_only e i d True db)
            (\<lambda>(released, db1). Inr (Abandon_context_only released, db1))
        | Some w \<Rightarrow>
          let superseded = (map_option d_id (getDispatchContext db (d_task_id d)) \<noteq> Some i) in
          if w_state w = W_stopping \<and> \<not> isStopStrandedByAnotherRuntime w epoch
          then Inl (OErr Dispatch_inactive)
          else if worker_settled (w_state w)
          then Inr (Abandon_worker (if w_state w = W_abandoned then Already_abandoned
                  else Abandon_already_settled) (Some w) superseded, db)
          else
          bindE (transition_worker False i [w_state w] W_abandoned
              [Col_stage ''abandoned'', Col_last_error (Some (abandon_error (w_last_error w) abandonedBy)),
               Col_updated_at (iso_now e)] db) (\<lambda>db1.
          bindE (if active d then transition_dispatch False i [d_status d] D_failed
                   [Col_last_failure (Some ''abandoned''),
                    Col_capability_revoked_at (orElse (d_capability_revoked_at d) (Some (iso_now e))),
                    Col_completed_at (orElse (d_completed_at d) (Some (iso_now e)))] db1
                 else Inr db1) (\<lambda>db2.
          bindE (reconcileTaskAfterDispatchInterruption (d_task_id d) i db2) (\<lambda>db3.
          let db4 = close_questions e i db3;
              db5 = (case getWorkerTerminalResourceByOwner db4 i of
                  None \<Rightarrow> db4
                | Some r \<Rightarrow> if wr_ownership_state r = Own_owned
                    then snd (retainTerminalResourceInTransaction e (wr_id r) i default_retainable
                      RR_user_requested db4) else db4)
          in Inr (Abandon_worker Now_abandoned (getWorkerDispatch db5 i) superseded, db5))))))"

end
