(* ===== verification/Orc_Report.thy ===== *)
theory Orc_Report
  imports Orc_Stops
begin

text \<open>
  A worker's report (\<open>worker-report-admission.ts\<close>,
  \<open>db/dispatch-context/worker-report-settlement.ts\<close>) and the observations it leaves behind
  (\<open>db/attempt-observation-store.ts\<close>). A payload is its canonical form, so two payloads with the
  same canonical JSON are the same value here.
\<close>

section \<open>Admission\<close>

definition unproven_worker_states :: "worker_state list" where
  "unproven_worker_states = [W_start_unknown, W_stop_unknown]"

definition settleable_worker_states :: "worker_state list" where
  "settleable_worker_states = W_ready # unproven_worker_states"

definition isWorkerStateIn :: "worker_state list \<Rightarrow> worker_state option \<Rightarrow> bool" where
  "isWorkerStateIn states s = (case s of None \<Rightarrow> False | Some x \<Rightarrow> x \<in> set states)"

definition workerReportRefusal :: "worker_state option \<Rightarrow> bool \<Rightarrow> error_code option" where
  "workerReportRefusal workerState processCurrent =
     (if workerState = Some W_stopping then Some Dispatch_inactive
      else if \<not> processCurrent then Some Worker_identity_changed else None)"

definition assertWorkerCanReport :: "worker_state option \<Rightarrow> bool \<Rightarrow> unit result" where
  "assertWorkerCanReport workerState processCurrent =
     (case workerReportRefusal workerState processCurrent of None \<Rightarrow> Inr () | Some c \<Rightarrow> Inl (OErr c))"

definition agent_prompt_stalled_error :: string where
  "agent_prompt_stalled_error = ''agent_prompt_stalled''"

definition reportCorrectsUnobservedPrompt :: "dispatch_row \<Rightarrow> task_row \<Rightarrow> bool" where
  "reportCorrectsUnobservedPrompt d t =
     ((d_status d = D_failed \<or> d_status d = D_circuit_broken) \<and>
      d_last_failure d = Some agent_prompt_stalled_error \<and> t_status t = T_failed)"

section \<open>Observations\<close>

record observation_input =
  ob_id :: string
  ob_dispatchId :: string
  ob_sequence :: int
  ob_authorityId :: string
  ob_homeClock :: bool \<comment> \<open>\<open>authorityClock === 'home'\<close>\<close>
  ob_facet :: string
  ob_payload :: fact_payload
  ob_sourceObservedAt :: "int option"
  ob_executionReceivedAt :: "int option"
  ob_homeReceivedAt :: int

definition sameFact :: "fact_row \<Rightarrow> observation_input \<Rightarrow> bool" where
  "sameFact f obs =
     (f_dispatch_id f = ob_dispatchId obs \<and> f_sequence f = ob_sequence obs \<and>
      f_authority_id f = ob_authorityId obs \<and> f_home_clock f = ob_homeClock obs \<and>
      f_facet f = ob_facet obs \<and> f_payload f = ob_payload obs \<and>
      f_source_observed_at f = ob_sourceObservedAt obs \<and>
      f_execution_received_at f = ob_executionReceivedAt obs \<and>
      f_home_received_at f = ob_homeReceivedAt obs)"

definition nonnegative :: "int option \<Rightarrow> bool" where
  "nonnegative t = (case t of None \<Rightarrow> True | Some n \<Rightarrow> 0 \<le> n)"

definition validateInput :: "observation_input \<Rightarrow> unit result" where
  "validateInput obs =
     guardE (ob_id obs \<noteq> [] \<and> ob_dispatchId obs \<noteq> [] \<and> ob_authorityId obs \<noteq> [] \<and>
       \<bar>ob_sequence obs\<bar> \<le> 2 ^ 53 - 1 \<and> 0 \<le> ob_sequence obs \<and> nonnegative (ob_sourceObservedAt obs) \<and>
       nonnegative (ob_executionReceivedAt obs) \<and> 0 \<le> ob_homeReceivedAt obs) (OErr Invalid_observation)"

definition fact_of :: "env \<Rightarrow> observation_input \<Rightarrow> string \<Rightarrow> fact_row" where
  "fact_of e obs task = \<lparr>f_id = ob_id obs, f_dispatch_id = ob_dispatchId obs, f_task_id = task,
     f_sequence = ob_sequence obs, f_authority_id = ob_authorityId obs, f_home_clock = ob_homeClock obs,
     f_facet = ob_facet obs, f_payload = ob_payload obs, f_source_observed_at = ob_sourceObservedAt obs,
     f_execution_received_at = ob_executionReceivedAt obs, f_home_received_at = ob_homeReceivedAt obs,
     f_created_at = sql_now e\<rparr>"

definition recordAttemptObservation ::
  "env \<Rightarrow> observation_input \<Rightarrow> odb \<Rightarrow> ((fact_row \<times> bool) \<times> odb) result" where
  "recordAttemptObservation e obs db =
     bindE (validateInput obs) (\<lambda>_.
     case row_with f_id (ob_id obs) (facts db) of
       Some f \<Rightarrow> if \<not> sameFact f obs then Inl (OErr Observation_replay_conflict) else Inr ((f, True), db)
     | None \<Rightarrow> (case getDispatchContextById db (ob_dispatchId obs) of
           None \<Rightarrow> Inl (OErr Dispatch_not_found)
         | Some d \<Rightarrow>
             if list_ex (\<lambda>f. f_dispatch_id f = ob_dispatchId obs \<and> f_sequence f = ob_sequence obs) (facts db)
             then Inl (OErr Observation_order_conflict)
             else let f = fact_of e obs (d_task_id d)
               in Inr ((f, False), db\<lparr>facts := facts db @ [f]\<rparr>)))"

definition getAttemptObservationFacts :: "odb \<Rightarrow> string \<Rightarrow> fact_row list" where
  "getAttemptObservationFacts db i = sort_key f_sequence (filter (\<lambda>f. f_dispatch_id f = i) (facts db))"

section \<open>Settlement\<close>

record report_observation =
  ro_id :: string
  ro_authorityId :: string
  ro_homeReceivedAt :: int

record report_params =
  re_taskId :: string
  re_dispatchId :: string
  re_outcome :: report_outcome
  re_result :: string
  re_observation :: "report_observation option"

definition next_fact_sequence :: "odb \<Rightarrow> string \<Rightarrow> int" where
  "next_fact_sequence db i =
     (let ns = map f_sequence (filter (\<lambda>f. f_dispatch_id f = i) (facts db))
      in if ns = [] then 0 else Max (set ns) + 1)"

definition report_fact :: "report_params \<Rightarrow> report_observation \<Rightarrow> int \<Rightarrow> observation_input" where
  "report_fact p obs n = \<lparr>ob_id = ro_id obs, ob_dispatchId = re_dispatchId p, ob_sequence = n,
     ob_authorityId = ro_authorityId obs, ob_homeClock = True, ob_facet = ''worker_report'',
     ob_payload = Accepted_report (re_outcome p) (ro_id obs), ob_sourceObservedAt = None,
     ob_executionReceivedAt = None, ob_homeReceivedAt = ro_homeReceivedAt obs\<rparr>"

definition recordAcceptedReportFact :: "env \<Rightarrow> report_params \<Rightarrow> odb \<Rightarrow> odb result" where
  "recordAcceptedReportFact e p db =
     (case re_observation p of
        None \<Rightarrow> Inr db
      | Some obs \<Rightarrow>
          let known = find (\<lambda>f. f_id f = ro_id obs) (getAttemptObservationFacts db (re_dispatchId p));
              n = (case known of Some f \<Rightarrow> f_sequence f | None \<Rightarrow> next_fact_sequence db (re_dispatchId p))
          in bindE (recordAttemptObservation e (report_fact p obs n) db) (\<lambda>(_, db1). Inr db1))"

text \<open>The states a report finds a Dispatch, its task and its worker in.\<close>

definition report_succeeded :: "report_params \<Rightarrow> bool" where
  "report_succeeded p = (re_outcome p = Report_succeeded)"

definition expected_task :: "report_params \<Rightarrow> task_status" where
  "expected_task p = (if report_succeeded p then T_completed else T_failed)"

definition expected_dispatch :: "report_params \<Rightarrow> dispatch_status" where
  "expected_dispatch p = (if report_succeeded p then D_completed else D_failed)"

definition reconnecting_worker :: "dispatch_row \<Rightarrow> task_row \<Rightarrow> worker_row option \<Rightarrow> bool" where
  "reconnecting_worker d t w = (active d \<and> t_status t = T_blocked \<and>
     isWorkerStateIn unproven_worker_states (map_option w_state w))"

definition reporting_start :: "dispatch_row \<Rightarrow> task_row \<Rightarrow> worker_row option \<Rightarrow> bool" where
  "reporting_start d t w = (d_status d = D_pending \<and> t_status t = T_dispatched \<and>
     map_option w_state w = Some W_starting)"

definition already_reported :: "report_params \<Rightarrow> dispatch_row \<Rightarrow> task_row \<Rightarrow> bool" where
  "already_reported p d t =
     (\<not> reportCorrectsUnobservedPrompt d t \<and>
      (if d_status d = D_circuit_broken then D_failed else d_status d) = expected_dispatch p \<and>
      t_status t = expected_task p)"

text \<open>The task and Dispatch moves of a settling report.\<close>

definition settle_report_rows :: "env \<Rightarrow> report_params \<Rightarrow> dispatch_row \<Rightarrow> task_row \<Rightarrow>
  worker_row option \<Rightarrow> odb \<Rightarrow> odb result" where
  "settle_report_rows e p d t w db =
     (let i = re_dispatchId p; task = re_taskId p;
          proj = [Col_completed_at (Some (iso_now e)),
            Col_last_failure (if re_outcome p = Report_failed then Some (re_result p) else d_last_failure d),
            Col_capability_revoked_at (orElse (d_capability_revoked_at d) (Some (iso_now e)))];
          taskProj = [Col_result (Some (re_result p)), Col_completed_at (Some (iso_now e))]
      in if reportCorrectsUnobservedPrompt d t
         then bindE (transition_dispatch True i [d_status d]
                (if report_succeeded p then D_completed else d_status d) proj db)
              (transition_task True task [T_failed] (expected_task p) taskProj)
         else bindE (if reconnecting_worker d t w
                then transition_task False task [T_blocked] T_dispatched [] db else Inr db) (\<lambda>db1.
              bindE (transition_dispatch False i
                (if reconnecting_worker d t w \<or> reporting_start d t w then [D_pending, D_dispatched]
                 else [D_dispatched]) (expected_dispatch p) proj db1)
              (transition_task False task [T_dispatched] (expected_task p) taskProj)))"

definition settle_report_worker :: "env \<Rightarrow> report_params \<Rightarrow> dispatch_row \<Rightarrow> task_row \<Rightarrow>
  worker_row option \<Rightarrow> odb \<Rightarrow> odb result" where
  "settle_report_worker e p d t w db =
     (let i = re_dispatchId p; settled = [Col_stage ''settled'', Col_updated_at (iso_now e)];
          starting = reporting_start d t w
      in if reportCorrectsUnobservedPrompt d t
         then transition_worker True i [W_failed] (if report_succeeded p then W_succeeded else W_failed)
                settled db
         else if (isWorkerStateIn unproven_worker_states (map_option w_state w) \<or> starting) \<and>
            report_succeeded p
         then bindE (transition_worker False i (if starting then [W_starting] else unproven_worker_states)
                W_ready [Col_last_error None] db)
              (transition_worker False i [W_ready] W_succeeded settled)
         else if w \<noteq> None
         then transition_worker False i
                (if report_succeeded p then [W_ready] else settleable_worker_states @ [W_starting])
                (if report_succeeded p then W_succeeded else W_failed) settled db
         else Inr db)"

definition sibling_dispatch_ids :: "odb \<Rightarrow> string \<Rightarrow> string \<Rightarrow> string list" where
  "sibling_dispatch_ids db task i =
     map d_id (filter (\<lambda>d. d_task_id d = task \<and> d_id d \<noteq> i \<and> active d) (dispatches db))"

definition settle_report ::
  "env \<Rightarrow> bool \<Rightarrow> report_params \<Rightarrow> dispatch_row \<Rightarrow> task_row \<Rightarrow> worker_row option \<Rightarrow> odb \<Rightarrow> odb result" where
  "settle_report e enabled p d t w db =
     (let i = re_dispatchId p; task = re_taskId p; siblings = sibling_dispatch_ids db task i in
      bindE (settle_report_rows e p d t w db) (\<lambda>db1.
      bindE (settle_report_worker e p d t w db1) (\<lambda>db2.
      bindE (settleActiveDispatchesForTask e task (report_succeeded p)
          (if report_succeeded p then None else Some (re_result p)) db2) (\<lambda>db3.
      let db4 = fold (close_questions e) siblings (close_questions e i db3) in
      bindE (if report_succeeded p then promoteReadyTasks task db4 else Inr db4) (\<lambda>db5.
      let db6 = (if w \<noteq> None \<and> enabled then armWorkerTerminalAutoReleaseStatement e i db5 else db5) in
      bindE (recordAcceptedReportFact e p db6) (\<lambda>db7.
      Inr (markUnreadFollowUpMail e i db7)))))))"

text \<open>
  \<open>settleWorkerReportInTransaction\<close>. Both entry points run it inside a transaction that an error
  rolls back, and a rejection writes nothing.
\<close>

definition settleWorkerReport ::
  "env \<Rightarrow> bool \<Rightarrow> report_params \<Rightarrow> odb \<Rightarrow> (report_settlement \<times> odb) result" where
  "settleWorkerReport e enabled p db =
     (case getTask db (re_taskId p) of
        None \<Rightarrow> Inr (Rejected Unknown_task, db)
      | Some t \<Rightarrow> (case getDispatchContextById db (re_dispatchId p) of
          None \<Rightarrow> Inr (Rejected Unknown_dispatch, db)
        | Some d \<Rightarrow>
          let w = getWorkerDispatch db (re_dispatchId p);
              corrects = reportCorrectsUnobservedPrompt d t;
              reconnects = reconnecting_worker d t w;
              previousDispatch = (if corrects \<or> reconnects \<or> reporting_start d t w
                then d_status d else D_dispatched);
              previousTask = (if corrects then T_failed
                else if reconnects then T_blocked else T_dispatched)
          in if d_task_id d \<noteq> re_taskId p then Inr (Rejected Task_dispatch_mismatch, db)
             else if already_reported p d t
             then bindE (recordAcceptedReportFact e p db)
               (\<lambda>db1. Inr (Settled (re_outcome p) True, db1))
             else if d_status d \<noteq> previousDispatch \<or> t_status t \<noteq> previousTask
             then Inr (Rejected Inactive_dispatch, db)
             else if conflictingWorkerDispatch db (re_taskId p) (re_dispatchId p) \<noteq> None
             then Inr (Rejected Inactive_dispatch, db)
             else if w = None \<and>
               map_option d_id (getActiveDispatchForTask db (re_taskId p)) \<noteq> Some (re_dispatchId p)
             then Inr (Rejected Stale_dispatch, db)
             else bindE (settle_report e enabled p d t w db)
               (\<lambda>db1. Inr (Settled (re_outcome p) False, db1))))"

end
