(* ===== verification/Orc_Stable.thy ===== *)
theory Orc_Stable
  imports Orc_Report "HOL-Library.Sublist"
begin

text \<open>
  What the operations preserve. The locale \<open>store_relation\<close> is the contract of the writers: a
  reflexive, transitive relation between databases that one lifecycle transition, one update of
  passive Dispatch or worker columns and any write to the other tables respect. Every operation that
  creates no row of the three lifecycle tables then respects it, and that is proved once, for the
  relation \<open>dispatches_evolve\<close> (a settled Dispatch stays settled), for \<open>workers_evolve\<close> (a
  settled worker stays settled) and for \<open>same_keys\<close>.
\<close>

section \<open>Relations between databases\<close>

text \<open>A table over time: no row is removed and each row follows its earlier version.\<close>

definition grows :: "('r \<Rightarrow> 'r \<Rightarrow> bool) \<Rightarrow> 'r list \<Rightarrow> 'r list \<Rightarrow> bool" where
  "grows follows rows rows' \<longleftrightarrow>
     length rows \<le> length rows' \<and> list_all2 follows rows (take (length rows) rows')"

lemma grows_refl: "(\<And>x. F x x) \<Longrightarrow> grows F xs xs"
  by (simp add: grows_def list.rel_refl)

lemma grows_append: "(\<And>x. F x x) \<Longrightarrow> grows F xs (xs @ ys)"
  by (simp add: grows_def list.rel_refl)

lemma grows_map: "(\<And>x. x \<in> set xs \<Longrightarrow> F x (f x)) \<Longrightarrow> grows F xs (map f xs)"
  by (simp add: grows_def list_all2_conv_all_nth)

lemma grows_update:
  "(\<And>x. F x x) \<Longrightarrow> (\<And>x. x \<in> set xs \<Longrightarrow> P x \<Longrightarrow> F x (f x)) \<Longrightarrow> grows F xs (update_where P f xs)"
  unfolding update_where_def by (rule grows_map) simp

lemma grows_trans:
  assumes "\<And>x y z. F x y \<Longrightarrow> F y z \<Longrightarrow> F x z" and "grows F xs ys" and "grows F ys zs"
  shows "grows F xs zs"
  using assms(2,3) unfolding grows_def list_all2_conv_all_nth
  by (auto intro: assms(1))

text \<open>
  A terminal resource keeps its identity, its owners are only ever appended to, and once released it
  stays released with the same owners.
\<close>

definition custody_owners :: "resource_row \<Rightarrow> string list" where
  "custody_owners r = wr_prior_owner_dispatch_ids r @ [wr_owner_dispatch_id r]"

definition terminal_released :: "resource_row \<Rightarrow> bool" where
  "terminal_released r \<longleftrightarrow> wr_ownership_state r = Own_released \<and> wr_release_state r = Rel_released"

definition resource_follows :: "resource_row \<Rightarrow> resource_row \<Rightarrow> bool" where
  "resource_follows r r' \<longleftrightarrow> wr_id r' = wr_id r \<and> wr_origin_dispatch_id r' = wr_origin_dispatch_id r \<and>
     prefix (custody_owners r) (custody_owners r') \<and>
     (terminal_released r \<longrightarrow> terminal_released r' \<and> custody_owners r' = custody_owners r)"

lemma resource_follows_refl [simp]: "resource_follows r r"
  by (simp add: resource_follows_def)

lemma resource_follows_trans: "resource_follows x y \<Longrightarrow> resource_follows y z \<Longrightarrow> resource_follows x z"
  by (auto simp: resource_follows_def)

lemma resource_follows_open:
  "\<not> terminal_released r \<Longrightarrow> wr_id r' = wr_id r \<Longrightarrow> wr_origin_dispatch_id r' = wr_origin_dispatch_id r \<Longrightarrow>
     custody_owners r' = custody_owners r \<Longrightarrow> resource_follows r r'"
  by (simp add: resource_follows_def)

text \<open>The primary key matters here: a transfer reads the owners of the row it then writes by id.\<close>

definition resources_grow :: "odb \<Rightarrow> odb \<Rightarrow> bool" where
  "resources_grow db db' \<longleftrightarrow> (distinct (map wr_id (resources db)) \<longrightarrow>
     distinct (map wr_id (resources db')) \<and> grows resource_follows (resources db) (resources db'))"

lemma resources_grow_same: "resources db' = resources db \<Longrightarrow> resources_grow db db'"
  by (simp add: resources_grow_def grows_refl)

lemma resources_grow_refl [simp]: "resources_grow db db"
  by (rule resources_grow_same) simp

lemma resources_grow_trans: "resources_grow x y \<Longrightarrow> resources_grow y z \<Longrightarrow> resources_grow x z"
  unfolding resources_grow_def
  by (blast intro: grows_trans [of resource_follows] resource_follows_trans)

lemma resources_grow_touch:
  assumes "\<And>r. distinct (map wr_id (resources db)) \<Longrightarrow> r \<in> set (resources db) \<Longrightarrow> P r \<Longrightarrow>
    resource_follows r (f r)"
  shows "resources_grow db (touch_resources P f db)"
proof (unfold resources_grow_def, intro impI conjI)
  assume d: "distinct (map wr_id (resources db))"
  show "grows resource_follows (resources db) (resources (touch_resources P f db))"
    using assms d by (auto simp: touch_resources_def intro: grows_update)
  have "map wr_id (resources (touch_resources P f db)) = map wr_id (resources db)"
    using assms d by (auto simp: touch_resources_def update_where_def resource_follows_def)
  with d show "distinct (map wr_id (resources (touch_resources P f db)))" by simp
qed

lemma resources_grow_append:
  "row_with wr_id (wr_id r) (resources db) = None \<Longrightarrow> resources_grow db (db\<lparr>resources := resources db @ [r]\<rparr>)"
  by (auto simp: resources_grow_def grows_append row_with_None_iff)

definition same_lifecycle :: "odb \<Rightarrow> odb \<Rightarrow> bool" where
  "same_lifecycle db db' \<longleftrightarrow> tasks db' = tasks db \<and> dispatches db' = dispatches db \<and>
     workers db' = workers db \<and> resources_grow db db'"

text \<open>
  A write of Dispatch columns that are not lifecycle state; the assignee of a settled row may
  change (a failed start records it late).
\<close>

definition passive_dispatch :: "(dispatch_row \<Rightarrow> dispatch_row) \<Rightarrow> bool" where
  "passive_dispatch f \<longleftrightarrow> (\<forall>d. d_id (f d) = d_id d \<and> d_status (f d) = d_status d \<and>
     d_task_id (f d) = d_task_id d \<and> d_run_id (f d) = d_run_id d \<and> d_depth (f d) = d_depth d \<and>
     (active d \<longrightarrow> d_assignee_handle (f d) = d_assignee_handle d))"

definition passive_worker :: "(worker_row \<Rightarrow> worker_row) \<Rightarrow> bool" where
  "passive_worker f \<longleftrightarrow> (\<forall>w. w_dispatch_id (f w) = w_dispatch_id w \<and> w_state (f w) = w_state w)"

lemma same_lifecycle_touch:
  "(\<And>r. P r \<Longrightarrow> resource_follows r (f r)) \<Longrightarrow> same_lifecycle db (touch_resources P f db)"
  by (simp add: same_lifecycle_def resources_grow_touch) (simp add: touch_resources_def)

lemma same_lifecycle_refl [simp]: "same_lifecycle db db"
  by (simp add: same_lifecycle_def)

lemma same_lifecycle_trans [trans]:
  "same_lifecycle x y \<Longrightarrow> same_lifecycle y z \<Longrightarrow> same_lifecycle x z"
  unfolding same_lifecycle_def by (auto intro: resources_grow_trans)

lemma same_lifecycle_archive: "same_lifecycle db (drop_archive i db)"
  by (simp add: same_lifecycle_def drop_archive_def resources_grow_same)

text \<open>Retaining a terminal changes no owner, and a released one is not retainable.\<close>

lemma same_lifecycle_retain:
  assumes "\<And>r. P r \<Longrightarrow> \<not> terminal_released r"
  shows "same_lifecycle db (snd (retainTerminalResourceInTransaction e i j P reason db))"
proof -
  have row: "resource_follows r (retain_row e reason r)" if "P r" for r
    using assms [OF that] by (rule resource_follows_open) (simp_all add: retain_row_def custody_owners_def)
  have first: "same_lifecycle db (touch_resources (\<lambda>r. wr_id r = i \<and> P r) (retain_row e reason) db)"
    by (rule same_lifecycle_touch) (auto intro: row)
  have "same_lifecycle x (touch_resources (\<lambda>r. wr_id r = i)
      (\<lambda>r. r\<lparr>wr_archive_source := None, wr_archive_status := None\<rparr>) (drop_archive j x))" for x
    by (rule same_lifecycle_trans [OF same_lifecycle_archive same_lifecycle_touch])
      (simp add: resource_follows_def custody_owners_def terminal_released_def)
  with first show ?thesis
    unfolding retainTerminalResourceInTransaction_def
    by (auto simp: Let_def intro: same_lifecycle_trans)
qed

lemma default_retainable_open: "default_retainable r \<Longrightarrow> \<not> terminal_released r"
  by (auto simp: default_retainable_def terminal_released_def)

lemma same_lifecycle_arm: "same_lifecycle db (armWorkerTerminalAutoReleaseStatement e i db)"
  unfolding armWorkerTerminalAutoReleaseStatement_def
  by (rule same_lifecycle_touch) (simp add: resource_follows_def custody_owners_def terminal_released_def)

lemma createResource_frame:
  "createWorkerTerminalResourceStatement e p db = Inr (r, db') \<Longrightarrow> same_lifecycle db db'"
  by (auto simp: createWorkerTerminalResourceStatement_def insert_resource_def Let_def bindE_Inr_iff
    same_lifecycle_def split: if_splits intro!: resources_grow_append)

lemma transfer_frame:
  assumes "transferWorkerTerminalResourceStatement e p db = Inr (r, db')"
  shows "same_lifecycle db db'"
proof -
  from assms obtain x where x: "getWorkerTerminalResource db (tp_resourceId p) = Some x"
    and db': "db' = touch_resources (\<lambda>y. wr_id y = tp_resourceId p \<and> wr_ownership_state y = Own_owned)
      (transfer_row e p (wr_prior_owner_dispatch_ids x @ [wr_owner_dispatch_id x])) db"
    by (auto simp: transferWorkerTerminalResourceStatement_def Let_def split: option.splits if_splits)
  have "resources_grow db db'"
    unfolding db'
  proof (rule resources_grow_touch)
    fix y assume d: "distinct (map wr_id (resources db))" and y: "y \<in> set (resources db)"
      "wr_id y = tp_resourceId p \<and> wr_ownership_state y = Own_owned"
    from row_with_distinct [OF d y(1)] y(2) x have "y = x" by (simp add: getWorkerTerminalResource_def)
    with y(2) show "resource_follows y (transfer_row e p (wr_prior_owner_dispatch_ids x @ [wr_owner_dispatch_id x]) y)"
      by (simp add: resource_follows_def transfer_row_def custody_owners_def terminal_released_def)
  qed
  then show ?thesis unfolding db' by (simp add: same_lifecycle_def) (simp add: touch_resources_def)
qed

locale store_relation =
  fixes R :: "odb \<Rightarrow> odb \<Rightarrow> bool"
  assumes R_refl: "R db db"
    and R_trans: "R x y \<Longrightarrow> R y z \<Longrightarrow> R x z"
    and R_other: "same_lifecycle db db' \<Longrightarrow> R db db'"
    and R_task: "transition_task b i al to pr db = Inr db' \<Longrightarrow> R db db'"
    and R_dispatch: "transition_dispatch b i dal s pr db = Inr db' \<Longrightarrow> R db db'"
    and R_worker: "transition_worker b i wal ws pr db = Inr db' \<Longrightarrow> R db db'"
    and R_passive_dispatch:
      "passive_dispatch f \<Longrightarrow> R db (db\<lparr>dispatches := map f (dispatches db)\<rparr>)"
    and R_passive_worker:
      "passive_worker g \<Longrightarrow> R db (db\<lparr>workers := map g (workers db)\<rparr>)"
begin

lemma R_step: "R x y \<Longrightarrow> same_lifecycle y z \<Longrightarrow> R x z"
  by (blast intro: R_trans R_other)

lemma ens_task: "R a db \<Longrightarrow> ensures (R a) (transition_task b i al to pr db)"
  by (rule ensuresI) (blast intro: R_trans R_task)

lemma ens_dispatch: "R a db \<Longrightarrow> ensures (R a) (transition_dispatch b i al s pr db)"
  by (rule ensuresI) (blast intro: R_trans R_dispatch)

lemma ens_worker: "R a db \<Longrightarrow> ensures (R a) (transition_worker b i al ws pr db)"
  by (rule ensuresI) (blast intro: R_trans R_worker)

lemma R_close: "R a db \<Longrightarrow> R a (close_questions e i db)"
  by (erule R_step) (simp add: same_lifecycle_def resources_grow_same close_questions_frames)

lemma R_close_all: "R a db \<Longrightarrow> R a (fold (close_questions e) is db)"
  by (induction "is" arbitrary: db) (simp_all add: R_close)

lemma R_mark: "R a db \<Longrightarrow> R a (markUnreadFollowUpMail e i db)"
proof -
  assume a: "R a db"
  let ?f = "\<lambda>d. if d_id d = i \<and> list_ex (unread_follow_up_mail db d) (messages db)
    then d\<lparr>d_follow_up_mail_at := Some (sql_now e)\<rparr> else d"
  have "passive_dispatch ?f" by (simp add: passive_dispatch_def)
  from R_passive_dispatch [OF this, of db] a show ?thesis
    unfolding markUnreadFollowUpMail_def update_where_def by (rule R_trans [rotated])
qed

text \<open>The rules of the verification conditions: each step either is known or is split.\<close>

lemma bind_db:
  "ensures (R a) m \<Longrightarrow> (\<And>db. R a db \<Longrightarrow> ensures P (f db)) \<Longrightarrow> ensures P (bindE m f)"
  by (rule ensures_bind)

lemma bind_pair:
  "ensures (\<lambda>r. R a (snd r)) m \<Longrightarrow> (\<And>x db. R a db \<Longrightarrow> ensures P (f x db)) \<Longrightarrow>
     ensures P (bindE m (\<lambda>(x, db). f x db))"
  by (erule ensures_bind) auto

lemma bind_guard: "(b \<Longrightarrow> ensures P (f ())) \<Longrightarrow> ensures P (bindE (guardE b err) f)"
  by (cases b) simp_all

lemma bind_require: "(\<And>y. x = Some y \<Longrightarrow> ensures P (f y)) \<Longrightarrow> ensures P (bindE (requireE err x) f)"
  by (cases x) simp_all

lemma Inr_pair: "R a db \<Longrightarrow> ensures (\<lambda>r. R a (snd r)) (Inr (x, db))"
  by simp

lemmas vc = bind_guard bind_require bind_db bind_pair ensures_cases Inr_pair ensures_InrI
  ensures_simps(1) ens_task ens_dispatch ens_worker R_close R_close_all R_mark

lemma ens_settle_worker:
  "R a db \<Longrightarrow> ensures (R a) (settleWorkerForCompletedDispatch e i db)"
  unfolding settleWorkerForCompletedDispatch_def prod.case
  by (auto split: option.splits intro: ens_worker)

lemma ens_settle_one: "R a db \<Longrightarrow> ensures (R a) (settle_one e ok failure row db)"
  unfolding settle_one_def by (assumption | rule vc ens_settle_worker)+

lemma ens_settle_active:
  "R a db \<Longrightarrow> ensures (R a) (settleActiveDispatchesForTask e task ok failure db)"
  unfolding settleActiveDispatchesForTask_def by (rule ensures_foldE) (auto intro: ens_settle_one)

lemma ens_reconcile_settled: "R a db \<Longrightarrow> ensures (R a) (reconcileSettledWorkerDispatches e db)"
  unfolding reconcileSettledWorkerDispatches_def by (rule ensures_foldE) (auto intro: ens_settle_worker)

lemma ens_completeDispatch: "R a db \<Longrightarrow> ensures (R a) (completeDispatch e i db)"
  unfolding completeDispatch_def by (assumption | rule vc ens_settle_worker)+

lemma ens_promote: "R a db \<Longrightarrow> ensures (R a) (promoteReadyTasks c db)"
  unfolding promoteReadyTasks_def
  by (rule ensures_foldE) (auto simp: promote_one_def intro: ens_task)

lemma ens_interruption:
  "R a db \<Longrightarrow> ensures (R a) (reconcileTaskAfterDispatchInterruption task i db)"
  unfolding reconcileTaskAfterDispatchInterruption_def Let_def by (assumption | rule vc)+

lemma ens_failDispatch: "R a db \<Longrightarrow> ensures (\<lambda>r. R a (snd r)) (failDispatch e i err opts db)"
  unfolding failDispatch_def fail_worker_def fail_task_def Let_def by (assumption | rule vc)+

lemma ens_failActive:
  "R a db \<Longrightarrow> ensures (\<lambda>r. R a (snd r)) (failActiveDispatchForTask e task err db)"
  unfolding failActiveDispatchForTask_def by (assumption | rule vc ens_failDispatch)+

lemma ens_releaseContextOnly:
  "R a db \<Longrightarrow> ensures (\<lambda>r. R a (snd r)) (releaseContextOnlyDispatch e d abandon db)"
  unfolding releaseContextOnlyDispatch_def Let_def by (assumption | rule vc)+

lemma ens_updateTaskStatus:
  "R a db \<Longrightarrow> ensures (\<lambda>r. R a (snd r)) (updateTaskStatus e i status res db)"
proof -
  assume a: "R a db"
  have sum: "ensures P (case m of Inl err \<Rightarrow> f err | Inr db1 \<Rightarrow> g db1)"
    if "ensures (R a) m" "\<And>err. ensures P (f err)" "\<And>db1. R a db1 \<Longrightarrow> ensures P (g db1)"
    for m :: "oerror + odb" and P :: "(task_row option \<times> odb) \<Rightarrow> bool" and f :: "oerror \<Rightarrow> oerror + _" and g
    using that by (cases m) simp_all
  show ?thesis
    unfolding updateTaskStatus_def Let_def
    by (assumption | rule a vc sum ens_settle_active ens_promote)+
qed

lemmas vc_settle = vc ens_settle_worker ens_settle_active ens_promote ens_interruption
  ens_completeDispatch ens_failDispatch ens_releaseContextOnly ens_updateTaskStatus

text \<open>Writes to the other tables.\<close>

lemma R_gates: "R a db \<Longrightarrow> R a (db\<lparr>gates := gs\<rparr>)"
  by (erule R_step) (simp add: same_lifecycle_def resources_grow_same)

lemma R_messages: "R a db \<Longrightarrow> R a (db\<lparr>messages := ms\<rparr>)"
  by (erule R_step) (simp add: same_lifecycle_def resources_grow_same)

lemma R_questions: "R a db \<Longrightarrow> R a (db\<lparr>questions := qs\<rparr>)"
  by (erule R_step) (simp add: same_lifecycle_def resources_grow_same)

lemma R_receipts: "R a db \<Longrightarrow> R a (db\<lparr>receipts := rs\<rparr>)"
  by (erule R_step) (simp add: same_lifecycle_def resources_grow_same)

lemma R_federated: "R a db \<Longrightarrow> R a (db\<lparr>federated := fs\<rparr>)"
  by (erule R_step) (simp add: same_lifecycle_def resources_grow_same)

lemma R_facts: "R a db \<Longrightarrow> R a (db\<lparr>facts := fs\<rparr>)"
  by (erule R_step) (simp add: same_lifecycle_def resources_grow_same)

lemma R_resources:
  "(\<And>r. P r \<Longrightarrow> resource_follows r (f r)) \<Longrightarrow> R a db \<Longrightarrow> R a (touch_resources P f db)"
  by (erule R_step) (simp add: same_lifecycle_touch)

lemma R_fence: "R a db \<Longrightarrow> R a (fenceUnacknowledgedMailboxDeliveries i db)"
  by (erule R_step) (simp add: same_lifecycle_def resources_grow_same fenceUnacknowledgedMailboxDeliveries_def)

lemma R_read: "R a db \<Longrightarrow> R a (markAsReadAndDelivered e is db)"
  by (erule R_step) (simp add: same_lifecycle_def resources_grow_same markAsReadAndDelivered_def)

lemma R_retain: "(\<And>r. P r \<Longrightarrow> \<not> terminal_released r) \<Longrightarrow> R a db \<Longrightarrow>
    R a (snd (retainTerminalResourceInTransaction e i d P reason db))"
  by (erule R_step) (rule same_lifecycle_retain)

lemma R_arm: "R a db \<Longrightarrow> R a (armWorkerTerminalAutoReleaseStatement e i db)"
  by (erule R_step) (rule same_lifecycle_arm)

lemma R_failed_identity: "R a db \<Longrightarrow> R a (recordFailedStartDispatchIdentity e w db)"
proof -
  assume a: "R a db"
  have *: "R a (db\<lparr>dispatches := update_where
      (\<lambda>d. d_id d = i \<and> (d_status d = D_failed \<or> d_status d = D_circuit_broken) \<and> P d) f (dispatches db)\<rparr>)"
    if "\<And>d. d_id (f d) = d_id d \<and> d_status (f d) = d_status d \<and> d_task_id (f d) = d_task_id d \<and>
        d_run_id (f d) = d_run_id d \<and> d_depth (f d) = d_depth d" for i P f
  proof -
    let ?g = "\<lambda>d. if d_id d = i \<and> (d_status d = D_failed \<or> d_status d = D_circuit_broken) \<and> P d then f d else d"
    have "passive_dispatch ?g" using that by (auto simp: passive_dispatch_def active_status_def)
    from R_passive_dispatch [OF this, of db] a show ?thesis
      unfolding update_where_def by (rule R_trans [rotated])
  qed
  show ?thesis
    unfolding recordFailedStartDispatchIdentity_def by (auto split: option.splits intro!: a *)
qed

lemma R_heartbeat: "R a db \<Longrightarrow> R a (recordHeartbeat i at db)"
proof -
  assume a: "R a db"
  let ?f = "\<lambda>d. if d_id d = i \<and> d_status d = D_dispatched then d\<lparr>d_last_heartbeat_at := Some at\<rparr> else d"
  have "passive_dispatch ?f" by (simp add: passive_dispatch_def)
  from R_passive_dispatch [OF this, of db] a show ?thesis
    unfolding recordHeartbeat_def update_where_def by (rule R_trans [rotated])
qed

lemma R_observation:
  "R a db \<Longrightarrow> R a (retainWorkerLaunchObservation merge i db)"
proof -
  assume a: "R a db"
  have *: "R a (db\<lparr>workers := update_where (\<lambda>x. w_dispatch_id x = i)
      (\<lambda>x. x\<lparr>w_start_options := opts\<rparr>) (workers db)\<rparr>)" for opts
  proof -
    let ?g = "\<lambda>x. if w_dispatch_id x = i then x\<lparr>w_start_options := opts\<rparr> else x"
    have "passive_worker ?g" by (simp add: passive_worker_def)
    from R_passive_worker [OF this, of db] a show ?thesis
      unfolding update_where_def by (rule R_trans [rotated])
  qed
  show ?thesis
    unfolding retainWorkerLaunchObservation_def by (auto split: option.splits intro: a *)
qed

lemma ens_insertMessage: "R a db \<Longrightarrow> ensures (\<lambda>r. R a (snd r)) (insertMessage e m db)"
  by (rule ensuresI)
    (auto simp: insertMessage_def ensure_unbound_run_def Let_def bindE_Inr_iff same_lifecycle_def
         resources_grow_same split: if_splits elim!: R_step)

lemmas vc_other = vc_settle R_gates R_messages R_questions R_receipts R_federated R_facts
  R_fence R_read R_retain [OF default_retainable_open] R_arm R_failed_identity ens_insertMessage

section \<open>Gates and questions\<close>

lemma ens_createGate: "R a db \<Longrightarrow> ensures (\<lambda>r. R a (snd r)) (createGate e t q opts r db)"
  unfolding createGate_def completeActiveDispatchesForTask_def Let_def
  by (assumption | rule vc_other ensures_bind_any)+

lemma ens_resolveGate: "R a db \<Longrightarrow> ensures (\<lambda>r. R a (snd r)) (resolveGate e i res db)"
  unfolding resolveGate_def assertResolutionInOptions_def Let_def
  by (assumption | rule vc_other)+

lemma ens_resolveGateIfPending:
  "R a db \<Longrightarrow> ensures (\<lambda>r. R a (snd r)) (resolveGateIfPending e i res db)"
  unfolding resolveGateIfPending_def Let_def
  by (rule ensures_bind_any) (assumption | rule vc_other)+

lemma R_timeoutGate: "R a db \<Longrightarrow> R a (snd (timeoutGate e i db))"
  unfolding timeoutGate_def Let_def by (simp add: R_gates)

lemma ens_createQuestion: "R a db \<Longrightarrow> ensures (\<lambda>r. R a (snd r)) (createQuestion e p db)"
  unfolding createQuestion_def Let_def
  by (rule ensures_bind_any) (assumption | rule vc_other ensures_bind_any)+

lemma ens_answerQuestion: "R a db \<Longrightarrow> ensures (\<lambda>r. R a (snd r)) (answerQuestion e p db)"
proof -
  assume a: "R a db"
  have "ensures (\<lambda>r. R a (snd r)) (write_answer e p q db)" for q
    unfolding write_answer_def Let_def
    by (rule bind_pair [OF ens_insertMessage [OF a]])
      (auto intro!: R_questions R_read)
  with a show ?thesis
    unfolding answerQuestion_def
    by (intro ensures_bind_any) (auto split: option.splits question_status.splits)
qed

section \<open>Workers\<close>

lemma ens_recordWorkerStage: "R a db \<Longrightarrow> ensures (\<lambda>r. R a (snd r)) (recordWorkerStage e i p db)"
  unfolding recordWorkerStage_def by (assumption | rule vc_other)+

lemma ens_setupEvidence:
  "R a db \<Longrightarrow> ensures (\<lambda>r. R a (snd r)) (updateWorkerSetupEvidence e i st effs db)"
  unfolding updateWorkerSetupEvidence_def by (assumption | rule vc_other)+

lemma ens_markReady: "R a db \<Longrightarrow> ensures (\<lambda>r. R a (snd r)) (markWorkerDispatchReady i effs db)"
  unfolding markWorkerDispatchReady_def Let_def by (assumption | rule vc_other)+

lemma R_failed_now:
  "R a db \<Longrightarrow> R a (case getWorkerDispatch db i of None \<Rightarrow> db
     | Some w \<Rightarrow> recordFailedStartDispatchIdentity e w db)"
  by (simp add: R_failed_identity split: option.split)

lemma ens_failWorkerStart:
  "R a db \<Longrightarrow> ensures (\<lambda>r. R a (snd r)) (failWorkerStart e i stage reason db)"
  unfolding failWorkerStart_def Let_def by (assumption | rule vc_other R_failed_now)+

lemma ens_startUnknown:
  "R a db \<Longrightarrow> ensures (\<lambda>r. R a (snd r)) (markWorkerStartUnknown e i stage reason effs db)"
  unfolding markWorkerStartUnknown_def by (assumption | rule vc_other)+

lemma ens_release_context:
  "R a db \<Longrightarrow> ensures (\<lambda>r. R a (snd r)) (release_context_only e i d abandon db)"
  unfolding release_context_only_def
  by (rule bind_pair [OF ens_releaseContextOnly]) (auto intro: R_close)

lemma ens_beginWorkerStop: "R a db \<Longrightarrow> ensures (\<lambda>r. R a (snd r)) (beginWorkerStop e i epoch db)"
  unfolding beginWorkerStop_def refuseStopWhileKeptOpen_def Let_def
  by (assumption | rule vc_other ens_release_context)+

lemma ens_settleWorkerStop: "R a db \<Longrightarrow> ensures (\<lambda>r. R a (snd r)) (settleWorkerStop e i db)"
  unfolding settleWorkerStop_def Let_def by (assumption | rule vc_other)+

lemma ens_federatedStop:
  "R a db \<Longrightarrow> ensures (\<lambda>r. R a (snd r)) (reconcileFederatedWorkerStop e i db)"
  unfolding reconcileFederatedWorkerStop_def Let_def by (assumption | rule vc_other)+

lemma ens_resume:
  "R a db \<Longrightarrow> ensures (\<lambda>r. R a (snd r)) (resumeFederatedWorkerForTerminalRelay e i db)"
  unfolding resumeFederatedWorkerForTerminalRelay_def by (assumption | rule vc_other)+

lemma ens_stopUnknown:
  "R a db \<Longrightarrow> ensures (\<lambda>r. R a (snd r)) (markWorkerStopUnknown e i reason db)"
  unfolding markWorkerStopUnknown_def by (assumption | rule vc_other)+

lemma R_retain_owned: "R a db \<Longrightarrow>
    R a (snd (retainTerminalResourceInTransaction e i d default_retainable reason db))"
  by (rule R_retain [OF default_retainable_open])

lemma R_abandon_terminal:
  "R a db \<Longrightarrow> R a (case getWorkerTerminalResourceByOwner db i of None \<Rightarrow> db
     | Some r \<Rightarrow> if wr_ownership_state r = Own_owned
         then snd (retainTerminalResourceInTransaction e (wr_id r) i default_retainable reason db) else db)"
  by (simp add: R_retain_owned split: option.split)

lemma ens_abandon:
  "R a db \<Longrightarrow> ensures (\<lambda>r. R a (snd r)) (abandonWorkerDispatch e i epoch by db)"
  unfolding abandonWorkerDispatch_def Let_def
  by (assumption | rule vc_other ens_release_context R_abandon_terminal)+

section \<open>Reports\<close>

lemma ens_observation:
  "R a db \<Longrightarrow> ensures (\<lambda>r. R a (snd r)) (recordAttemptObservation e obs db)"
  unfolding recordAttemptObservation_def validateInput_def Let_def
  by (assumption | rule vc_other)+

lemma ens_report_fact: "R a db \<Longrightarrow> ensures (R a) (recordAcceptedReportFact e p db)"
  unfolding recordAcceptedReportFact_def Let_def
  by (assumption | rule vc_other ens_observation)+

lemma ens_report_rows: "R a db \<Longrightarrow> ensures (R a) (settle_report_rows e p d t w db)"
  unfolding settle_report_rows_def Let_def by (assumption | rule vc_other)+

lemma ens_report_worker: "R a db \<Longrightarrow> ensures (R a) (settle_report_worker e p d t w db)"
  unfolding settle_report_worker_def Let_def by (assumption | rule vc_other)+

lemma R_arm_if: "R a db \<Longrightarrow> R a (if b then armWorkerTerminalAutoReleaseStatement e i db else db)"
  by (simp add: R_arm)

lemma ens_settle_report: "R a db \<Longrightarrow> ensures (R a) (settle_report e enabled p d t w db)"
  unfolding settle_report_def Let_def
  by (assumption | rule vc_other ens_report_rows ens_report_worker ens_report_fact R_arm_if)+

lemma ens_settleWorkerReport:
  "R a db \<Longrightarrow> ensures (\<lambda>r. R a (snd r)) (settleWorkerReport e enabled p db)"
  unfolding settleWorkerReport_def Let_def
  by (assumption | rule vc_other ens_settle_report ens_report_fact)+

end

section \<open>Operations that create rows\<close>

text \<open>
  A relation that also allows the writers of live rows: a task, a claimed Dispatch, a starting
  Dispatch without an assignee, its worker, and the assignee a starting Dispatch is given.
\<close>

definition new_dispatch :: "odb \<Rightarrow> dispatch_row \<Rightarrow> bool" where
  "new_dispatch db d \<longleftrightarrow> getDispatchContextById db (d_id d) = None \<and> active d \<and> 1 \<le> d_depth d \<and>
     (case d_assignee_handle d of None \<Rightarrow> True
      | Some h \<Rightarrow> \<not> list_ex (\<lambda>x. d_assignee_handle x = Some h \<and> active x) (dispatches db))"

definition authority_free :: "odb \<Rightarrow> string \<Rightarrow> string \<Rightarrow> bool" where
  "authority_free db i h \<longleftrightarrow>
     (case last_row (\<lambda>d. d_assignee_handle d = Some h \<and> active d) (dispatches db) of
        None \<Rightarrow> True | Some d \<Rightarrow> d_id d = i)"

locale store_growth = store_relation +
  assumes R_new_task: "getTask db (t_id t) = None \<Longrightarrow> \<forall>k\<in>set (t_deps t). getTask db k \<noteq> None \<Longrightarrow>
      R db (db\<lparr>tasks := tasks db @ [t]\<rparr>)"
    and R_new_dispatch: "new_dispatch db d \<Longrightarrow> R db (db\<lparr>dispatches := dispatches db @ [d]\<rparr>)"
    and R_new_worker: "getWorkerDispatch db (w_dispatch_id w) = None \<Longrightarrow>
      R db (db\<lparr>workers := workers db @ [w]\<rparr>)"
    and R_authority: "authority_free db j (au_handle p) \<Longrightarrow>
      R db (db\<lparr>dispatches := update_where (\<lambda>d. d_id d = j \<and> d_status d = D_pending)
        (authority_row e p) (dispatches db)\<rparr>)"
begin

lemma ens_createTask: "R a db \<Longrightarrow> ensures (\<lambda>r. R a (snd r)) (createTask e p db)"
  by (rule ensuresI)
    (auto dest!: createTask_Inr intro!: R_trans [OF _ R_new_task]
       simp: list_all_iff task_in_run_def split: option.splits)

lemma ens_claim: "R a db \<Longrightarrow> ensures (\<lambda>r. R a (snd r)) (claimDispatchContextRow e p db)"
  unfolding claimDispatchContextRow_def assertStampedDepth_def
  by (rule ensuresI)
    (auto simp: bindE_Inr_iff guardE_Inr_iff insert_row_Inr_iff claim_free_def new_dispatch_def
       getDispatchContextById_def claim_row_def fresh_dispatch_def
       split: option.splits if_splits intro!: R_trans [OF _ R_new_dispatch])

lemma ens_createDispatchContext:
  "R a db \<Longrightarrow> ensures (\<lambda>r. R a (snd r)) (createDispatchContext e p db)"
  unfolding createDispatchContext_def
  by (assumption | rule vc_other ens_claim ensures_bind_any)+

lemma ens_insertStarting:
  "R a db \<Longrightarrow> ensures (R a) (insertStartingDispatchContextRow e p db)"
  unfolding insertStartingDispatchContextRow_def assertStampedDepth_def
  by (rule ensuresI)
    (auto simp: bindE_Inr_iff guardE_Inr_iff insert_row_Inr_iff new_dispatch_def
       getDispatchContextById_def starting_row_def fresh_dispatch_def
       intro!: R_trans [OF _ R_new_dispatch])

lemma ens_start_receipt: "R a db \<Longrightarrow> ensures (R a) (start_receipt e cutoff p db)"
  unfolding start_receipt_def ensureMutationReceiptCapacity_def insert_receipt_def Let_def
  by (assumption | rule vc_other ensures_bind_any)+

lemma ens_start_task: "R a db \<Longrightarrow> ensures (\<lambda>r. R a (snd r)) (start_task e p db)"
  unfolding start_task_def by (assumption | rule vc_other ens_createTask)+

lemma R_start_accept: "R a db \<Longrightarrow> R a (start_accept e p task i db)"
  unfolding start_accept_def by (auto split: option.split intro: R_receipts)

lemma ens_federation: "R a db \<Longrightarrow> ensures (R a) (start_federation e p i db)"
  unfolding start_federation_def by (assumption | rule vc_other ensures_bind_any)+

lemma R_take_mail: "R a db \<Longrightarrow> R a (if b then takeFollowUpMail e i j db else db)"
  unfolding takeFollowUpMail_def Let_def by (simp add: R_mark R_messages)

lemma ens_createStarting:
  "R a db \<Longrightarrow> ensures (\<lambda>r. R a (snd r)) (createStartingWorkerDispatch e cutoff p db)"
proof -
  assume a: "R a db"
  have worker: "ensures P (bindE (insert_row w_dispatch_id err w (workers db1)) (\<lambda>rows. f (db1\<lparr>workers := rows\<rparr>)))"
    if "R a db1" "\<And>db2. R a db2 \<Longrightarrow> ensures P (f db2)" for P err w f db1
    using that by (intro ensures_bind_any)
      (auto simp: insert_row_Inr_iff getWorkerDispatch_def intro!: that(2) R_trans [OF that(1) R_new_worker])
  show ?thesis
    unfolding createStartingWorkerDispatch_def start_follow_up_def Let_def
    by (assumption | rule a vc_other bind_db [OF ens_start_receipt] bind_pair [OF ens_start_task]
      bind_db [OF ens_insertStarting] worker bind_db [OF ens_federation] R_start_accept R_take_mail
      ensures_bind_any)+
qed

lemma ens_createResource:
  "R a db \<Longrightarrow> ensures (\<lambda>r. R a (snd r)) (createWorkerTerminalResourceStatement e cp db)"
  by (rule ensuresI, erule R_step) (auto dest: createResource_frame)

lemma ens_transfer:
  "R a db \<Longrightarrow> ensures (\<lambda>r. R a (snd r)) (transferWorkerTerminalResourceStatement e tp db)"
  by (rule ensuresI, erule R_step) (auto dest: transfer_frame)

lemma ens_authority_resource:
  "R a db \<Longrightarrow> ensures (R a) (authority_resource e p ep db)"
  unfolding authority_resource_def Let_def
  by (assumption | rule vc_other bind_pair [OF ens_createResource] bind_pair [OF ens_transfer]
    ensures_bind_any)+

lemma ens_prepareAuthority:
  "R a db \<Longrightarrow> ensures (R a) (prepareStartingWorkerAuthority e p db)"
proof -
  assume a: "R a db"
  let ?i = "au_dispatchId p"
  have free: "authority_free db ?i (au_handle p)"
    if "\<not> (findActiveDispatchForAssignee db (au_handle p) (au_paneKey p) \<noteq> None \<and>
      map_option d_id (findActiveDispatchForAssignee db (au_handle p) (au_paneKey p)) \<noteq> Some ?i)"
    using that unfolding authority_free_def findActiveDispatchForAssignee_def findDispatchForAssignee_def Let_def
    by (auto split: option.splits if_splits)
  have W: "R a (db'\<lparr>workers := update_where P (authority_worker e p) (workers db')\<rparr>)" if "R a db'" for db' P
  proof -
    have "passive_worker (\<lambda>w. if P w then authority_worker e p w else w)"
      by (simp add: passive_worker_def authority_worker_def)
    from R_passive_worker [OF this, of db'] that show ?thesis
      unfolding update_where_def by (rule R_trans [rotated])
  qed
  show ?thesis
    unfolding prepareStartingWorkerAuthority_def Let_def
    by (intro ensures_if ensures_simps(1) ens_authority_resource W R_fence)
      (blast intro: R_trans [OF a R_authority] free)
qed

lemma ens_custody:
  "R a db \<Longrightarrow> ensures (R a) (recordCreatedWorkerTerminalCustody e i h pk inc wt host db)"
  unfolding recordCreatedWorkerTerminalCustody_def
  by (assumption | rule vc_other bind_pair [OF ens_createResource])+

end

end
