(* ===== verification/Orc_System.thy ===== *)
theory Orc_System
  imports Orc_Stable
begin

text \<open>
  The store as a transition system. \<open>orc_step\<close> has one rule per operation of the modelled
  stores, with the parameters of its callers left free, and \<open>orc_reachable\<close> is what any sequence
  of operations, in any interleaving, leads to from an empty database. Two instances of the
  contract of \<open>Orc_Stable\<close> give its invariants: \<open>store_inv\<close> holds in every reachable database,
  and \<open>lifecycle_monotone\<close> relates every database to the later ones.
\<close>

section \<open>Rows over time\<close>

definition task_follows :: "task_row \<Rightarrow> task_row \<Rightarrow> bool" where
  "task_follows t t' \<longleftrightarrow> t_id t' = t_id t \<and> t_run_id t' = t_run_id t \<and> t_deps t' = t_deps t"

definition dispatch_follows :: "dispatch_row \<Rightarrow> dispatch_row \<Rightarrow> bool" where
  "dispatch_follows d d' \<longleftrightarrow> d_id d' = d_id d \<and> d_task_id d' = d_task_id d \<and>
     d_run_id d' = d_run_id d \<and> d_depth d' = d_depth d \<and>
     (\<not> active d \<longrightarrow> d_status d' = d_status d \<or> (d_status d \<noteq> D_completed \<and> d_status d' = D_completed))"

definition worker_follows :: "worker_row \<Rightarrow> worker_row \<Rightarrow> bool" where
  "worker_follows w w' \<longleftrightarrow> w_dispatch_id w' = w_dispatch_id w \<and>
     (worker_settled (w_state w) \<longrightarrow>
        w_state w' = w_state w \<or> (w_state w = W_failed \<and> w_state w' = W_succeeded))"

text \<open>No row is ever removed or renamed, and a settled row only ever becomes a corrected success.\<close>

definition lifecycle_monotone :: "odb \<Rightarrow> odb \<Rightarrow> bool" where
  "lifecycle_monotone db db' \<longleftrightarrow> grows task_follows (tasks db) (tasks db') \<and>
     grows dispatch_follows (dispatches db) (dispatches db') \<and>
     grows worker_follows (workers db) (workers db') \<and> resources_grow db db'"

lemma task_follows_refl [simp]: "task_follows t t"
  by (simp add: task_follows_def)

lemma dispatch_follows_refl [simp]: "dispatch_follows d d"
  by (simp add: dispatch_follows_def)

lemma worker_follows_refl [simp]: "worker_follows w w"
  by (simp add: worker_follows_def)

lemma task_follows_trans: "task_follows x y \<Longrightarrow> task_follows y z \<Longrightarrow> task_follows x z"
  by (simp add: task_follows_def)

lemma dispatch_follows_trans: "dispatch_follows x y \<Longrightarrow> dispatch_follows y z \<Longrightarrow> dispatch_follows x z"
  by (auto simp: dispatch_follows_def)

lemma worker_follows_trans: "worker_follows x y \<Longrightarrow> worker_follows y z \<Longrightarrow> worker_follows x z"
  by (auto simp: worker_follows_def)

lemma monotone_refl: "lifecycle_monotone db db"
  by (simp add: lifecycle_monotone_def grows_refl resources_grow_same)

lemma monotone_trans: "lifecycle_monotone x y \<Longrightarrow> lifecycle_monotone y z \<Longrightarrow> lifecycle_monotone x z"
  unfolding lifecycle_monotone_def
  by (blast intro: grows_trans [where F = task_follows] grows_trans [where F = dispatch_follows]
    grows_trans [where F = worker_follows] resources_grow_trans task_follows_trans dispatch_follows_trans worker_follows_trans)

lemma legal_dispatch_settled:
  "s' \<in> set (legal_dispatch s) \<or> dispatch_correction b s s' \<Longrightarrow> \<not> active_status s \<Longrightarrow>
     s' = s \<or> (s \<noteq> D_completed \<and> s' = D_completed)"
  by (cases s) (auto simp: dispatch_correction_def)

lemma legal_worker_settled:
  "s' \<in> set (legal_worker s) \<or> worker_correction b s s' \<Longrightarrow> worker_settled s \<Longrightarrow>
     s' = s \<or> (s = W_failed \<and> s' = W_succeeded)"
  by (cases s) (auto simp: worker_correction_def)

lemma dispatch_transition_rows:
  assumes "transition_dispatch b i al s pr db = Inr db'"
  shows "\<exists>f. db' = db\<lparr>dispatches := map f (dispatches db)\<rparr> \<and> (\<forall>d\<in>set (dispatches db).
    dispatch_follows d (f d) \<and> (active (f d) \<longrightarrow> active d) \<and>
    d_assignee_handle (f d) = d_assignee_handle d)"
proof -
  from assms obtain rows where t: "transition_rows d_id d_status write_dispatch dispatch_has_column
      legal_dispatch (dispatch_correction b) (dispatches db) i al s pr = Inr rows"
    and db': "db' = db\<lparr>dispatches := rows\<rparr>"
    by (auto simp: transition_dispatch_def bindE_Inr_iff)
  let ?f = "\<lambda>d. if d_id d = i \<and> d_status d \<in> set al then write_dispatch s pr d else d"
  from dispatch_lc.transition_Inr [OF t] db' have "db' = db\<lparr>dispatches := map ?f (dispatches db)\<rparr>"
    by (auto simp: update_where_def)
  moreover have "dispatch_follows d (?f d) \<and> (active (?f d) \<longrightarrow> active d) \<and>
      d_assignee_handle (?f d) = d_assignee_handle d" if d: "d \<in> set (dispatches db)" for d
  proof (cases "d_id d = i \<and> d_status d \<in> set al")
    case True
    with dispatch_lc.transition_legal [OF t d] legal_dispatch_settled [of s "d_status d" b]
    show ?thesis by (cases "active d") (auto simp: dispatch_follows_def)
  next
    case False
    then show ?thesis by auto
  qed
  ultimately show ?thesis by blast
qed

lemma worker_transition_rows:
  assumes "transition_worker b i al s pr db = Inr db'"
  shows "\<exists>f. db' = db\<lparr>workers := map f (workers db)\<rparr> \<and> (\<forall>w\<in>set (workers db). worker_follows w (f w))"
proof -
  from assms obtain rows where t: "transition_rows w_dispatch_id w_state write_worker worker_has_column
      legal_worker (worker_correction b) (workers db) i al s pr = Inr rows"
    and db': "db' = db\<lparr>workers := rows\<rparr>"
    by (auto simp: transition_worker_def bindE_Inr_iff)
  let ?f = "\<lambda>w. if w_dispatch_id w = i \<and> w_state w \<in> set al then write_worker s pr w else w"
  from worker_lc.transition_Inr [OF t] db' have "db' = db\<lparr>workers := map ?f (workers db)\<rparr>"
    by (auto simp: update_where_def)
  moreover have "worker_follows w (?f w)" if w: "w \<in> set (workers db)" for w
  proof (cases "w_dispatch_id w = i \<and> w_state w \<in> set al")
    case True
    with worker_lc.transition_legal [OF t w] legal_worker_settled [of s "w_state w" b]
    show ?thesis by (auto simp: worker_follows_def)
  next
    case False
    then show ?thesis by auto
  qed
  ultimately show ?thesis by blast
qed

lemma task_transition_rows:
  assumes "transition_task b i al s pr db = Inr db'"
  shows "\<exists>f. db' = db\<lparr>tasks := map f (tasks db)\<rparr> \<and> (\<forall>t\<in>set (tasks db). task_follows t (f t))"
proof -
  from assms obtain rows where t: "transition_rows t_id t_status write_task task_has_column
      legal_task (task_correction b) (tasks db) i al s pr = Inr rows"
    and db': "db' = db\<lparr>tasks := rows\<rparr>"
    by (auto simp: transition_task_def bindE_Inr_iff)
  let ?f = "\<lambda>x. if t_id x = i \<and> t_status x \<in> set al then write_task s pr x else x"
  from task_lc.transition_Inr [OF t] db' have "db' = db\<lparr>tasks := map ?f (tasks db)\<rparr>"
    by (auto simp: update_where_def)
  then show ?thesis by (intro exI [of _ ?f]) (auto simp: task_follows_def)
qed

interpretation monotone: store_growth lifecycle_monotone
proof unfold_locales
  show "lifecycle_monotone db db" for db by (rule monotone_refl)
next
  show "lifecycle_monotone x y \<Longrightarrow> lifecycle_monotone y z \<Longrightarrow> lifecycle_monotone x z" for x y z
    by (rule monotone_trans)
next
  show "same_lifecycle db db' \<Longrightarrow> lifecycle_monotone db db'" for db db'
    by (simp add: lifecycle_monotone_def same_lifecycle_def grows_refl)
next
  show "transition_task b i al to pr db = Inr db' \<Longrightarrow> lifecycle_monotone db db'" for b i al to pr db db'
    by (drule task_transition_rows) (elim exE conjE, simp add: lifecycle_monotone_def grows_refl resources_grow_same grows_map)
next
  show "transition_dispatch b i dal s pr db = Inr db' \<Longrightarrow> lifecycle_monotone db db'" for b i dal s pr db db'
    by (drule dispatch_transition_rows) (elim exE conjE, simp add: lifecycle_monotone_def grows_refl resources_grow_same grows_map)
next
  show "transition_worker b i wal ws pr db = Inr db' \<Longrightarrow> lifecycle_monotone db db'" for b i wal ws pr db db'
    by (drule worker_transition_rows) (elim exE conjE, simp add: lifecycle_monotone_def grows_refl resources_grow_same grows_map)
next
  show "passive_dispatch f \<Longrightarrow> lifecycle_monotone db (db\<lparr>dispatches := map f (dispatches db)\<rparr>)" for f db
    by (simp add: lifecycle_monotone_def grows_refl resources_grow_same grows_map passive_dispatch_def dispatch_follows_def)
next
  show "passive_worker g \<Longrightarrow> lifecycle_monotone db (db\<lparr>workers := map g (workers db)\<rparr>)" for g db
    by (simp add: lifecycle_monotone_def grows_refl resources_grow_same grows_map passive_worker_def worker_follows_def)
next
  show "lifecycle_monotone db (db\<lparr>tasks := tasks db @ [t]\<rparr>)" for db t
    by (simp add: lifecycle_monotone_def grows_refl resources_grow_same grows_append)
next
  show "lifecycle_monotone db (db\<lparr>dispatches := dispatches db @ [d]\<rparr>)" for db d
    by (simp add: lifecycle_monotone_def grows_refl resources_grow_same grows_append)
next
  show "lifecycle_monotone db (db\<lparr>workers := workers db @ [w]\<rparr>)" for db w
    by (simp add: lifecycle_monotone_def grows_refl resources_grow_same grows_append)
next
  show "lifecycle_monotone db (db\<lparr>dispatches := update_where (\<lambda>d. d_id d = j \<and> d_status d = D_pending)
      (authority_row e p) (dispatches db)\<rparr>)" for db j p e
    by (simp add: lifecycle_monotone_def grows_refl resources_grow_same grows_update dispatch_follows_def authority_row_def)
qed

section \<open>The store invariant\<close>

text \<open>No two live Dispatches have the same assignee.\<close>

definition exclusive_assignee :: "dispatch_row list \<Rightarrow> bool" where
  "exclusive_assignee ds \<longleftrightarrow> (\<forall>d\<in>set ds. \<forall>d'\<in>set ds.
     (case d_assignee_handle d of None \<Rightarrow> True
      | Some h \<Rightarrow> active d \<longrightarrow> active d' \<longrightarrow> d_assignee_handle d' = Some h \<longrightarrow> d_id d = d_id d'))"

lemma exclusiveD:
  assumes "exclusive_assignee ds" and "d \<in> set ds" and "d' \<in> set ds" and "active d" and "active d'"
    and h: "d_assignee_handle d = Some h" and "d_assignee_handle d' = Some h"
  shows "d_id d = d_id d'"
proof -
  from assms(1-3) have "case d_assignee_handle d of None \<Rightarrow> True
    | Some h \<Rightarrow> active d \<longrightarrow> active d' \<longrightarrow> d_assignee_handle d' = Some h \<longrightarrow> d_id d = d_id d'"
    unfolding exclusive_assignee_def by blast
  with assms(4-) show ?thesis unfolding h option.case by blast
qed

lemma exclusiveI:
  assumes "\<And>d d' h. d \<in> set ds \<Longrightarrow> d' \<in> set ds \<Longrightarrow> active d \<Longrightarrow> active d' \<Longrightarrow>
    d_assignee_handle d = Some h \<Longrightarrow> d_assignee_handle d' = Some h \<Longrightarrow> d_id d = d_id d'"
  shows "exclusive_assignee ds"
  unfolding exclusive_assignee_def
proof (intro ballI)
  fix d d' assume "d \<in> set ds" "d' \<in> set ds"
  with assms [of d d'] show "case d_assignee_handle d of None \<Rightarrow> True
    | Some h \<Rightarrow> active d \<longrightarrow> active d' \<longrightarrow> d_assignee_handle d' = Some h \<longrightarrow> d_id d = d_id d'"
    by (cases "d_assignee_handle d"; simp only: option.case; blast)
qed

text \<open>Every dependency of a task is an earlier row, so the tasks form a directed acyclic graph.\<close>

fun deps_known :: "string list \<Rightarrow> task_row list \<Rightarrow> bool" where
  "deps_known seen [] = True"
| "deps_known seen (t # ts) = (set (t_deps t) \<subseteq> set seen \<and> deps_known (t_id t # seen) ts)"

lemma deps_known_append:
  "deps_known seen (xs @ ys) = (deps_known seen xs \<and> deps_known (rev (map t_id xs) @ seen) ys)"
  by (induction xs arbitrary: seen) auto

lemma deps_known_map:
  "\<forall>t\<in>set ts. task_follows t (f t) \<Longrightarrow> deps_known seen (map f ts) = deps_known seen ts"
  by (induction ts arbitrary: seen) (auto simp: task_follows_def)

lemma deps_known_earlier:
  "deps_known seen ts \<Longrightarrow> i < length ts \<Longrightarrow> k \<in> set (t_deps (ts ! i)) \<Longrightarrow>
     k \<in> set seen \<or> (\<exists>j<i. t_id (ts ! j) = k)"
proof (induction ts arbitrary: seen i)
  case Nil
  then show ?case by simp
next
  case (Cons t ts)
  show ?case
  proof (cases i)
    case 0
    with Cons.prems show ?thesis by auto
  next
    case (Suc n)
    with Cons.IH [of "t_id t # seen" n] Cons.prems
    have "k \<in> set (t_id t # seen) \<or> (\<exists>j<n. t_id (ts ! j) = k)" by simp
    with Suc show ?thesis by (auto intro: exI [of _ 0] exI [of _ "Suc _"])
  qed
qed

definition store_inv :: "odb \<Rightarrow> bool" where
  "store_inv db \<longleftrightarrow> distinct (map t_id (tasks db)) \<and> distinct (map d_id (dispatches db)) \<and>
     distinct (map w_dispatch_id (workers db)) \<and> exclusive_assignee (dispatches db) \<and>
     (\<forall>d\<in>set (dispatches db). 1 \<le> d_depth d) \<and> deps_known [] (tasks db) \<and>
     distinct (map wr_id (resources db))"

lemma distinct_keys:
  "\<forall>x\<in>set xs. key (f x) = key x \<Longrightarrow> distinct (map (key \<circ> f) xs) = distinct (map key xs)"
  by (metis (mono_tags, lifting) comp_apply map_eq_conv)

lemma exclusive_map:
  assumes "exclusive_assignee ds"
    and f: "\<And>d. d \<in> set ds \<Longrightarrow> d_id (f d) = d_id d \<and> (active (f d) \<longrightarrow> active d \<and> d_assignee_handle (f d) = d_assignee_handle d)"
  shows "exclusive_assignee (map f ds)"
proof (rule exclusiveI)
  fix x y h assume "x \<in> set (map f ds)" "y \<in> set (map f ds)" and a: "active x" "active y"
    and h: "d_assignee_handle x = Some h" "d_assignee_handle y = Some h"
  then obtain d d' where d: "d \<in> set ds" "x = f d" and d': "d' \<in> set ds" "y = f d'" by auto
  have "active d" "active d'" "d_assignee_handle d = Some h" "d_assignee_handle d' = Some h"
    using f [OF d(1)] f [OF d'(1)] a h unfolding d(2) d'(2) by metis+
  with exclusiveD [OF assms(1) d(1) d'(1)] have "d_id d = d_id d'" by blast
  then show "d_id x = d_id y" using f [OF d(1)] f [OF d'(1)] unfolding d(2) d'(2) by simp
qed

lemma exclusive_append:
  assumes "exclusive_assignee (dispatches db)" and "new_dispatch db d"
  shows "exclusive_assignee (dispatches db @ [d])"
proof -
  from assms(2) have other: "\<not> active x \<or> d_assignee_handle x \<noteq> Some h"
    if "x \<in> set (dispatches db)" "d_assignee_handle d = Some h" for x h
    using that unfolding new_dispatch_def by (auto simp: list_ex_iff)
  show ?thesis
  proof (rule exclusiveI)
    fix x y h assume xy: "x \<in> set (dispatches db @ [d])" "y \<in> set (dispatches db @ [d])"
      and a: "active x" "active y" and h: "d_assignee_handle x = Some h" "d_assignee_handle y = Some h"
    consider "x = d" "y = d" | "x \<in> set (dispatches db)" "y \<in> set (dispatches db)"
      | "x \<in> set (dispatches db)" "y = d" | "x = d" "y \<in> set (dispatches db)" using xy by auto
    then show "d_id x = d_id y"
    proof cases
      case 2
      then show ?thesis using exclusiveD [OF assms(1)] a h by blast
    next
      case 3
      with other [of x h] a h show ?thesis by simp
    next
      case 4
      with other [of y h] a h show ?thesis by simp
    qed simp
  qed
qed

lemma exclusive_authority:
  assumes x: "exclusive_assignee (dispatches db)" and free: "authority_free db j (au_handle p)"
  shows "exclusive_assignee (update_where (\<lambda>d. d_id d = j \<and> d_status d = D_pending) (authority_row e p) (dispatches db))"
proof -
  have taken: "d_id d = j"
    if d: "d \<in> set (dispatches db)" "active d" "d_assignee_handle d = Some (au_handle p)" for d
  proof -
    let ?P = "\<lambda>d. d_assignee_handle d = Some (au_handle p) \<and> active d"
    from d have "last_row ?P (dispatches db) \<noteq> None" unfolding last_row_None_iff by blast
    then obtain l where l: "last_row ?P (dispatches db) = Some l" by blast
    from last_row_SomeD [OF l] exclusiveD [OF x d(1) _ d(2) _ d(3)] have "d_id d = d_id l" by blast
    with free l show ?thesis by (simp add: authority_free_def)
  qed
  let ?f = "\<lambda>d. if d_id d = j \<and> d_status d = D_pending then authority_row e p d else d"
  have row: "d_id (?f d) = d_id d" "d_id d \<noteq> j \<Longrightarrow> ?f d = d" "active (?f d) \<Longrightarrow> active d"
    "d_assignee_handle (?f d) = Some h \<Longrightarrow> d_assignee_handle d = Some h \<or> h = au_handle p" for d h
    by (auto simp: authority_row_def split: if_splits)
  show ?thesis
    unfolding update_where_def
  proof (rule exclusiveI)
    fix r r' h assume "r \<in> set (map ?f (dispatches db))" "r' \<in> set (map ?f (dispatches db))"
      and a: "active r" "active r'" and h: "d_assignee_handle r = Some h" "d_assignee_handle r' = Some h"
    then obtain d d' where d: "d \<in> set (dispatches db)" "r = ?f d"
      and d': "d' \<in> set (dispatches db)" "r' = ?f d'" by auto
    have act: "active d" "active d'" using a row(3) unfolding d(2) d'(2) by blast+
    have "d_id d = d_id d'"
    proof (cases "h = au_handle p")
      case True
      have "d_id d = j"
        using row(2) [of d] taken [OF d(1) act(1)] h(1) True unfolding d(2) by fastforce
      moreover have "d_id d' = j"
        using row(2) [of d'] taken [OF d'(1) act(2)] h(2) True unfolding d'(2) by fastforce
      ultimately show ?thesis by simp
    next
      case False
      then have "d_assignee_handle d = Some h" "d_assignee_handle d' = Some h"
        using row(4) h unfolding d(2) d'(2) by blast+
      with exclusiveD [OF x d(1) d'(1) act] show ?thesis by blast
    qed
    then show "d_id r = d_id r'" unfolding d(2) d'(2) row(1) .
  qed
qed

interpretation inv: store_growth "\<lambda>db db'. store_inv db \<longrightarrow> store_inv db'"
proof unfold_locales
  show "same_lifecycle db db' \<Longrightarrow> store_inv db \<longrightarrow> store_inv db'" for db db'
    by (auto simp: store_inv_def same_lifecycle_def resources_grow_def)
next
  fix b i al to pr db db' assume "transition_task b i al to pr db = Inr db'"
  from task_transition_rows [OF this] obtain f where "db' = db\<lparr>tasks := map f (tasks db)\<rparr>"
    and f: "\<forall>t\<in>set (tasks db). task_follows t (f t)" by auto
  moreover have "distinct (map (t_id \<circ> f) (tasks db)) = distinct (map t_id (tasks db))"
    using f by (intro distinct_keys) (simp add: task_follows_def)
  moreover have "deps_known [] (map f (tasks db)) = deps_known [] (tasks db)"
    using f by (rule deps_known_map)
  ultimately show "store_inv db \<longrightarrow> store_inv db'" by (simp add: store_inv_def)
next
  fix b i dal s pr db db' assume "transition_dispatch b i dal s pr db = Inr db'"
  from dispatch_transition_rows [OF this] obtain f where f: "db' = db\<lparr>dispatches := map f (dispatches db)\<rparr>"
    "\<forall>d\<in>set (dispatches db). dispatch_follows d (f d) \<and> (active (f d) \<longrightarrow> active d) \<and>
      d_assignee_handle (f d) = d_assignee_handle d" by auto
  moreover have "distinct (map (d_id \<circ> f) (dispatches db)) = distinct (map d_id (dispatches db))"
    using f(2) by (intro distinct_keys) (simp add: dispatch_follows_def)
  moreover have "exclusive_assignee (dispatches db) \<Longrightarrow> exclusive_assignee (map f (dispatches db))"
    using f(2) by (intro exclusive_map) (simp_all add: dispatch_follows_def)
  moreover have "\<forall>d\<in>set (dispatches db). d_depth (f d) = d_depth d"
    using f(2) by (simp add: dispatch_follows_def)
  ultimately show "store_inv db \<longrightarrow> store_inv db'" by (simp add: store_inv_def)
next
  fix b i wal ws pr db db' assume "transition_worker b i wal ws pr db = Inr db'"
  from worker_transition_rows [OF this] obtain f where "db' = db\<lparr>workers := map f (workers db)\<rparr>"
    and f: "\<forall>w\<in>set (workers db). worker_follows w (f w)" by auto
  moreover have "distinct (map (w_dispatch_id \<circ> f) (workers db)) = distinct (map w_dispatch_id (workers db))"
    using f by (intro distinct_keys) (simp add: worker_follows_def)
  ultimately show "store_inv db \<longrightarrow> store_inv db'" by (simp add: store_inv_def)
next
  fix f db assume "passive_dispatch f"
  then show "store_inv db \<longrightarrow> store_inv (db\<lparr>dispatches := map f (dispatches db)\<rparr>)"
    by (auto simp: store_inv_def passive_dispatch_def o_def intro!: exclusive_map)
next
  fix g db assume "passive_worker g"
  then show "store_inv db \<longrightarrow> store_inv (db\<lparr>workers := map g (workers db)\<rparr>)"
    by (simp add: store_inv_def passive_worker_def o_def)
next
  fix db and t :: task_row assume "getTask db (t_id t) = None"
    and "\<forall>k\<in>set (t_deps t). getTask db k \<noteq> None"
  then show "store_inv db \<longrightarrow> store_inv (db\<lparr>tasks := tasks db @ [t]\<rparr>)"
    by (auto simp: store_inv_def getTask_def row_with_None_iff deps_known_append)
next
  fix db and d :: dispatch_row assume d: "new_dispatch db d"
  then show "store_inv db \<longrightarrow> store_inv (db\<lparr>dispatches := dispatches db @ [d]\<rparr>)"
    by (auto simp: store_inv_def exclusive_append)
      (auto simp: new_dispatch_def getDispatchContextById_def row_with_None_iff)
next
  fix db and w :: worker_row assume "getWorkerDispatch db (w_dispatch_id w) = None"
  then show "store_inv db \<longrightarrow> store_inv (db\<lparr>workers := workers db @ [w]\<rparr>)"
    by (auto simp: store_inv_def getWorkerDispatch_def row_with_None_iff)
next
  fix db j e and p :: authority_params assume "authority_free db j (au_handle p)"
  moreover have "map d_id (update_where P (authority_row e p) ds) = map d_id ds" for P ds
    by (rule map_update_where_keep) (simp add: authority_row_def)
  ultimately show "store_inv db \<longrightarrow> store_inv (db\<lparr>dispatches := update_where
      (\<lambda>d. d_id d = j \<and> d_status d = D_pending) (authority_row e p) (dispatches db)\<rparr>)"
    by (auto simp: store_inv_def exclusive_authority set_update_where authority_row_def)
qed auto

section \<open>Writes outside the lifecycle tables\<close>

lemma frame_base [simp]:
  "same_lifecycle db (touch_federated Q g db)"
  "same_lifecycle db (drop_archive i db)"
  "same_lifecycle db (storeWorkerTerminalArchive e i j kind content db)"
  by (simp_all add: same_lifecycle_def touch_federated_def drop_archive_def resources_grow_same
    storeWorkerTerminalArchive_def)

lemma frame_retain_in:
  "(\<And>r. P r \<Longrightarrow> \<not> terminal_released r) \<Longrightarrow>
     same_lifecycle db (snd (retainTerminalResourceInTransaction e i j P reason db))"
  by (rule same_lifecycle_retain)

text \<open>A write that leaves the owners alone and is not of a released row.\<close>

lemma frame_touch:
  assumes "\<And>r. P r \<Longrightarrow> wr_id (f r) = wr_id r \<and> wr_origin_dispatch_id (f r) = wr_origin_dispatch_id r \<and>
    custody_owners (f r) = custody_owners r \<and> (terminal_released r \<longrightarrow> terminal_released (f r))"
  shows "same_lifecycle db (touch_resources P f db)"
  by (rule same_lifecycle_touch) (use assms in \<open>simp add: resource_follows_def\<close>)

lemmas touch_defs = custody_owners_def terminal_released_def releasable_row_def request_row_def
  dead_release_row_def commit_requested_def release_in_flight_def kept_resource_def allow_row_def
  due_row_def auto_release_live_def automatic_request_def replaced_resource_def

lemma frame_keep_each [simp]: "same_lifecycle db (snd (keep_each e rs db))"
proof (induction rs arbitrary: db)
  case (Cons r rs)
  have "same_lifecycle db (snd (retainTerminalResourceInTransaction e (wr_id r) (wr_owner_dispatch_id r)
      keepable_resource RR_user_kept db))"
    by (rule frame_retain_in) (simp add: keepable_resource_def terminal_released_def)
  with Cons.IH show ?case by (auto simp: split_beta Let_def intro: same_lifecycle_trans)
qed simp

lemma frame_allow_each [simp]: "same_lifecycle db (snd (allow_each e rest rs db))"
proof (induction rs arbitrary: db)
  case (Cons r rs)
  have "same_lifecycle db (touch_resources (\<lambda>x. wr_id x = wr_id r \<and> kept_resource x) (allow_row e db dl) db)" for dl
    by (rule frame_touch) (simp add: touch_defs)
  with Cons.IH show ?case by (auto simp: split_beta Let_def intro: same_lifecycle_trans)
qed simp

lemma frame_suspend [simp]:
  "same_lifecycle db (suspendWorkerTerminalAutoRelease e k db)"
  "same_lifecycle db (restartWorkerTerminalAutoRelease e k db)"
  unfolding suspendWorkerTerminalAutoRelease_def restartWorkerTerminalAutoRelease_def
  by (rule frame_touch, simp add: touch_defs)+

lemma frame_claim_each [simp]: "same_lifecycle db (snd (claim_each e now turn rs db))"
proof (induction rs arbitrary: db)
  case (Cons r rs)
  have "same_lifecycle db (touch_resources (\<lambda>x. wr_id x = wr_id r \<and> due_row now x)
      (\<lambda>x. x\<lparr>wr_release_state := Rel_requested, wr_retained_reason := None,
         wr_release_requested_at := Some (sql_now e), wr_release_error := None,
         wr_updated_at := sql_now e\<rparr>) db)"
    by (rule frame_touch) (simp add: touch_defs)
  with Cons.IH show ?case
    by (auto simp: split_beta Let_def intro: same_lifecycle_trans same_lifecycle_trans [OF frame_suspend(1)])
qed simp

lemma frame_claim_home [simp]: "same_lifecycle db (snd (claim_home_each e now is db))"
  by (induction "is" arbitrary: db)
    (auto simp: split_beta Let_def intro: same_lifecycle_trans [OF frame_base(1)])

lemma frame_defer [simp]: "same_lifecycle db (deferWorkerTerminalAutoRelease e i db)"
proof -
  have "same_lifecycle db (touch_resources (\<lambda>r. wr_id r = i \<and> wr_ownership_state r = Own_owned \<and> automatic_request r)
      (\<lambda>r. r\<lparr>wr_release_state := Rel_not_requested,
            wr_auto_release_at := None, wr_archive_source := None, wr_archive_status := None,
            wr_release_requested_at := None, wr_updated_at := sql_now e\<rparr>) db)"
    by (rule frame_touch) (simp add: touch_defs)
  then show ?thesis
    by (auto simp: deferWorkerTerminalAutoRelease_def Let_def split: option.split
      intro: same_lifecycle_trans [OF _ frame_base(2)])
qed

lemma frame_touches [simp]:
  "same_lifecycle db (snd (recordWorkerTerminalRecoveryAttempt e i db))"
  "same_lifecycle db (snd (retainReplacedWorkerTerminalResources e i j h k db))"
  "same_lifecycle db (snd (rekeyWorkerTerminalResourcePaneKey e i j db))"
  "same_lifecycle db (snd (settleWorkerTerminalRelease e i db))"
  "same_lifecycle db (snd (markWorkerTerminalReleaseUnknown e i j db))"
  "same_lifecycle db (snd (revertWorkerTerminalReleaseToRetained e i reason db))"
  unfolding recordWorkerTerminalRecoveryAttempt_def retainReplacedWorkerTerminalResources_def
    rekeyWorkerTerminalResourcePaneKey_def settleWorkerTerminalRelease_def
    markWorkerTerminalReleaseUnknown_def revertWorkerTerminalReleaseToRetained_def Let_def snd_conv
  by (rule frame_touch, auto simp: touch_defs)+

lemma frame_archive_before [simp]:
  "same_lifecycle db (storeWorkerTerminalArchiveBeforeStop e i j kind content src ast db)"
proof -
  have "same_lifecycle db (touch_resources P (\<lambda>r. r\<lparr>wr_archive_source := Some src,
      wr_archive_status := Some ast, wr_updated_at := sql_now e\<rparr>) db)" for P
    by (rule frame_touch) (simp add: touch_defs)
  then show ?thesis
    by (auto simp: storeWorkerTerminalArchiveBeforeStop_def Let_def
      intro: same_lifecycle_trans [OF _ frame_base(3)])
qed

lemma frame_admit [simp]: "same_lifecycle db (snd (admitWorkerChatReleaseClose e i turn db))"
proof -
  have "same_lifecycle db (touch_resources P (\<lambda>r. r\<lparr>wr_auto_release_at := None, wr_updated_at := sql_now e\<rparr>) db)" for P
    by (rule frame_touch) (simp add: touch_defs)
  then show ?thesis by (simp add: admitWorkerChatReleaseClose_def Let_def)
qed

lemma frame_sweeps [simp]:
  "same_lifecycle db (snd (keepWorkerTerminalOpen e i db))"
  "same_lifecycle db (snd (allowWorkerTerminalAutoClose e i rest db))"
  "same_lifecycle db (snd (claimDueWorkerTerminalAutoReleases e enabled now turn db))"
  "same_lifecycle db (armFederatedHomeAutoRelease e i db)"
  "same_lifecycle db (endFederatedHomeAutoRelease e i db)"
  "same_lifecycle db (snd (claimDueFederatedHomeAutoReleases e enabled now db))"
  by (simp_all add: keepWorkerTerminalOpen_def allowWorkerTerminalAutoClose_def
    claimDueWorkerTerminalAutoReleases_def armFederatedHomeAutoRelease_def
    endFederatedHomeAutoRelease_def claimDueFederatedHomeAutoReleases_def)

lemmas frame_terminal_writes = frame_touches frame_archive_before frame_admit frame_sweeps

lemma frame_other_writes [simp]:
  "same_lifecycle db (discardPendingMutationReceipt i j db)"
  "same_lifecycle db (settlePendingMutationReceipts e ids j db)"
  "same_lifecycle db (snd (updateCoordinatorRun e i cst db))"
  "same_lifecycle db (markAsReadAndDelivered e ids db)"
  "same_lifecycle db (handHelperMailToRun i db)"
  "same_lifecycle db (snd (closeQuestionsForDispatch e i db))"
  by (auto simp: same_lifecycle_def resources_grow_same discardPendingMutationReceipt_def settlePendingMutationReceipts_def
    updateCoordinatorRun_def markAsReadAndDelivered_def handHelperMailToRun_def Let_def
    fenceUnacknowledgedMailboxDeliveries_def closeQuestionsForDispatch_def split: option.splits)

text \<open>Operations that may throw.\<close>

lemma frame_request: "ensures (\<lambda>r. same_lifecycle db (snd r)) (requestWorkerTerminalRelease e i db)"
proof -
  have touch: "same_lifecycle x (touch_resources (\<lambda>y. wr_id y = k \<and> releasable_row y) (request_row e) x)" for x k
    by (rule frame_touch) (simp add: touch_defs)
  show ?thesis
    unfolding requestWorkerTerminalRelease_def
    by (auto simp: Let_def intro: touch same_lifecycle_trans [OF frame_base(2) touch]
      split: option.split release_decision.split)
qed

lemma frame_dead:
  "ensures (\<lambda>r. same_lifecycle db (snd r)) (settleDeadWorkerTerminalRelease e i j k db)"
proof -
  have "same_lifecycle x (touch_resources (\<lambda>y. wr_id y = j \<and> wr_process_incarnation y = Some k \<and> releasable_row y)
      (dead_release_row e b) x)" for x b
    by (rule frame_touch) (simp add: touch_defs)
  then show ?thesis
    unfolding settleDeadWorkerTerminalRelease_def by (auto simp: Let_def split: option.split)
qed

lemma frame_commit:
  "ensures (\<lambda>r. same_lifecycle db (snd r)) (commitWorkerTerminalArchiveForRelease e i j cap src ast db)"
proof -
  have touch: "same_lifecycle x (touch_resources (commit_requested i k)
      (\<lambda>x. x\<lparr>wr_release_state := Rel_releasing, wr_archive_source := Some src,
         wr_archive_status := Some ast, wr_updated_at := sql_now e\<rparr>) x)" for x k
    by (rule frame_touch) (simp add: touch_defs)
  show ?thesis
    unfolding commitWorkerTerminalArchiveForRelease_def
    by (auto simp: Let_def intro: touch same_lifecycle_trans [OF frame_base(3) touch] split: option.split)
qed

lemma frame_retain_owned:
  "ensures (\<lambda>r. same_lifecycle db (snd r)) (retainOwnedTerminalResource e i chk db)"
  unfolding retainOwnedTerminalResource_def
  by (intro ensures_bind_any)
    (auto simp: Let_def split_beta frame_retain_in default_retainable_open split: option.split)

lemma frame_receipts:
  "ensures (\<lambda>r. same_lifecycle db (snd r)) (beginMutationReceipt e cutoff p db)"
  "ensures (\<lambda>r. same_lifecycle db (snd r)) (completeMutationReceipt e p j db)"
  "ensures (\<lambda>r. same_lifecycle db (snd r)) (checkpointPendingMutationReceipt e p j db)"
  "ensures (\<lambda>r. same_lifecycle db (snd r)) (createCoordinatorRun e i j poll db)"
  by (rule ensuresI, auto simp: beginMutationReceipt_def completeMutationReceipt_def
    checkpointPendingMutationReceipt_def write_receipt_def createCoordinatorRun_def bindE_Inr_iff
    ensureMutationReceiptCapacity_def insert_receipt_def same_lifecycle_def resources_grow_same Let_def
    split: option.splits if_splits)+

lemma frame_insert_resource: "ensures (same_lifecycle db) (insert_resource r db)"
  by (auto simp: insert_resource_def same_lifecycle_def intro!: resources_grow_append)

lemma frame_backfill: "ensures (same_lifecycle db) (backfillWorkerTerminalResources e idf db)"
  unfolding backfillWorkerTerminalResources_def Let_def
proof (rule ensures_foldE)
  fix x s assume "same_lifecycle db s"
  then show "ensures (same_lifecycle db) (backfill_one e x s)"
    unfolding backfill_one_def
    by (auto split: prod.split intro!: ensures_mono [OF frame_insert_resource] intro: same_lifecycle_trans)
qed simp

section \<open>The step relation\<close>

text \<open>
  One rule per operation a caller of the stores may run; a call that throws changes nothing (its
  transaction rolls back). The parameters, the environment among them, are free in each rule. The
  last rule is for the stores that are not modelled, which write Runs, deliveries and the rows of
  federated and remote Dispatches.
\<close>

inductive orc_step :: "odb \<Rightarrow> odb \<Rightarrow> bool" where
  step_create_task: "createTask e ctp db = Inr (r, db') \<Longrightarrow> orc_step db db'"
| step_update_task_status: "updateTaskStatus e i st res db = Inr (r, db') \<Longrightarrow> orc_step db db'"
| step_promote: "promoteReadyTasks i db = Inr db' \<Longrightarrow> orc_step db db'"
| step_create_dispatch: "createDispatchContext e cdp db = Inr (r, db') \<Longrightarrow> orc_step db db'"
| step_create_starting_worker: "createStartingWorkerDispatch e cutoff sp db = Inr (r, db') \<Longrightarrow> orc_step db db'"
| step_prepare_authority: "prepareStartingWorkerAuthority e ap db = Inr db' \<Longrightarrow> orc_step db db'"
| step_terminal_custody: "recordCreatedWorkerTerminalCustody e i h pk inc wt host db = Inr db' \<Longrightarrow> orc_step db db'"
| step_worker_stage: "recordWorkerStage e i stp db = Inr (r, db') \<Longrightarrow> orc_step db db'"
| step_setup_evidence: "updateWorkerSetupEvidence e i j effs db = Inr (r, db') \<Longrightarrow> orc_step db db'"
| step_launch_observation: "orc_step db (retainWorkerLaunchObservation merge i db)"
| step_worker_ready: "markWorkerDispatchReady i oeffs db = Inr (r, db') \<Longrightarrow> orc_step db db'"
| step_fail_start: "failWorkerStart e i j k db = Inr (r, db') \<Longrightarrow> orc_step db db'"
| step_start_unknown: "markWorkerStartUnknown e i j k oeffs db = Inr (r, db') \<Longrightarrow> orc_step db db'"
| step_complete_dispatch: "completeDispatch e i db = Inr db' \<Longrightarrow> orc_step db db'"
| step_fail_dispatch: "failDispatch e i err opts db = Inr (r, db') \<Longrightarrow> orc_step db db'"
| step_fail_active: "failActiveDispatchForTask e i err db = Inr (r, db') \<Longrightarrow> orc_step db db'"
| step_reconcile_settled: "reconcileSettledWorkerDispatches e db = Inr db' \<Longrightarrow> orc_step db db'"
| step_heartbeat: "orc_step db (recordHeartbeat i j db)"
| step_begin_stop: "beginWorkerStop e i j db = Inr (r, db') \<Longrightarrow> orc_step db db'"
| step_settle_stop: "settleWorkerStop e i db = Inr (r, db') \<Longrightarrow> orc_step db db'"
| step_federated_stop: "reconcileFederatedWorkerStop e i db = Inr (r, db') \<Longrightarrow> orc_step db db'"
| step_resume_federated: "resumeFederatedWorkerForTerminalRelay e i db = Inr (r, db') \<Longrightarrow> orc_step db db'"
| step_stop_unknown: "markWorkerStopUnknown e i j db = Inr (r, db') \<Longrightarrow> orc_step db db'"
| step_abandon: "abandonWorkerDispatch e i j by db = Inr (r, db') \<Longrightarrow> orc_step db db'"
| step_observation: "recordAttemptObservation e obs db = Inr (r, db') \<Longrightarrow> orc_step db db'"
| step_settle_report: "settleWorkerReport e enabled rep db = Inr (r, db') \<Longrightarrow> orc_step db db'"
| step_create_gate: "createGate e i q gopts j db = Inr (r, db') \<Longrightarrow> orc_step db db'"
| step_resolve_gate: "resolveGate e i res db = Inr (r, db') \<Longrightarrow> orc_step db db'"
| step_resolve_gate_if_pending: "resolveGateIfPending e i res db = Inr (r, db') \<Longrightarrow> orc_step db db'"
| step_timeout_gate: "orc_step db (snd (timeoutGate e i db))"
| step_create_question: "createQuestion e qp db = Inr (r, db') \<Longrightarrow> orc_step db db'"
| step_answer_question: "answerQuestion e ansp db = Inr (r, db') \<Longrightarrow> orc_step db db'"
| step_close_questions: "orc_step db (snd (closeQuestionsForDispatch e i db))"
| step_insert_message: "insertMessage e msg db = Inr (r, db') \<Longrightarrow> orc_step db db'"
| step_read_mail: "orc_step db (markAsReadAndDelivered e ids db)"
| step_hand_back: "orc_step db (handHelperMailToRun i db)"
| step_take_mail: "orc_step db (takeFollowUpMail e i j db)"
| step_clear_mail: "orc_step db (clearFollowUpMail i db)"
| step_begin_receipt: "beginMutationReceipt e cutoff rcp db = Inr (r, db') \<Longrightarrow> orc_step db db'"
| step_complete_receipt: "completeMutationReceipt e rcp j db = Inr (r, db') \<Longrightarrow> orc_step db db'"
| step_checkpoint_receipt: "checkpointPendingMutationReceipt e rcp j db = Inr (r, db') \<Longrightarrow> orc_step db db'"
| step_discard_receipt: "orc_step db (discardPendingMutationReceipt i j db)"
| step_settle_receipts: "orc_step db (settlePendingMutationReceipts e ids j db)"
| step_create_run: "createCoordinatorRun e i j poll db = Inr (r, db') \<Longrightarrow> orc_step db db'"
| step_update_run: "orc_step db (snd (updateCoordinatorRun e i cst db))"
| step_create_resource: "createWorkerTerminalResourceStatement e crp db = Inr (r, db') \<Longrightarrow> orc_step db db'"
| step_backfill_resources: "backfillWorkerTerminalResources e idf db = Inr db' \<Longrightarrow> orc_step db db'"
| step_transfer_resource: "transferWorkerTerminalResourceStatement e trp db = Inr (r, db') \<Longrightarrow> orc_step db db'"
| step_recovery_attempt: "orc_step db (snd (recordWorkerTerminalRecoveryAttempt e i db))"
| step_replaced_resources: "orc_step db (snd (retainReplacedWorkerTerminalResources e i j h k db))"
| step_rekey_pane: "orc_step db (snd (rekeyWorkerTerminalResourcePaneKey e i j db))"
| step_request_release: "requestWorkerTerminalRelease e i db = Inr (r, db') \<Longrightarrow> orc_step db db'"
| step_dead_release: "settleDeadWorkerTerminalRelease e i j k db = Inr (r, db') \<Longrightarrow> orc_step db db'"
| step_archive_before_stop: "orc_step db (storeWorkerTerminalArchiveBeforeStop e i j kind content src ast db)"
| step_archive_for_release: "commitWorkerTerminalArchiveForRelease e i j cap src ast db = Inr (r, db') \<Longrightarrow> orc_step db db'"
| step_settle_release: "orc_step db (snd (settleWorkerTerminalRelease e i db))"
| step_release_unknown: "orc_step db (snd (markWorkerTerminalReleaseUnknown e i j db))"
| step_revert_release: "orc_step db (snd (revertWorkerTerminalReleaseToRetained e i reason db))"
| step_retain_resource: "retainWorkerTerminalResource e i db = Inr (r, db') \<Longrightarrow> orc_step db db'"
| step_retain_attachment: "retainRemoteAttachmentTerminalResource e i db = Inr (r, db') \<Longrightarrow> orc_step db db'"
| step_keep_open: "orc_step db (snd (keepWorkerTerminalOpen e i db))"
| step_allow_close: "orc_step db (snd (allowWorkerTerminalAutoClose e i rest db))"
| step_suspend_auto: "orc_step db (suspendWorkerTerminalAutoRelease e i db)"
| step_restart_auto: "orc_step db (restartWorkerTerminalAutoRelease e i db)"
| step_claim_auto: "orc_step db (snd (claimDueWorkerTerminalAutoReleases e enabled now turn db))"
| step_defer_auto: "orc_step db (deferWorkerTerminalAutoRelease e i db)"
| step_admit_chat_close: "orc_step db (snd (admitWorkerChatReleaseClose e i turn db))"
| step_arm_home: "orc_step db (armFederatedHomeAutoRelease e i db)"
| step_end_home: "orc_step db (endFederatedHomeAutoRelease e i db)"
| step_claim_home: "orc_step db (snd (claimDueFederatedHomeAutoReleases e enabled now db))"
| step_launch_token: "commitDispatchLaunchTokenHash i j db = Inr (r, db') \<Longrightarrow> orc_step db db'"
| step_elsewhere: "orc_step db (db\<lparr>runs := rns, deliveries := dls, federated := fds,
    attachments := ats, remote_questions := rqs\<rparr>)"

definition empty_db :: odb where
  "empty_db = \<lparr>runs = [], messages = [], deliveries = [], tasks = [], dispatches = [],
     workers = [], gates = [], questions = [], receipts = [], federated = [], attachments = [],
     remote_questions = [], coordinator_runs = [], resources = [], archives = [], facts = []\<rparr>"

inductive orc_reachable :: "odb \<Rightarrow> bool" where
  reach_empty: "orc_reachable empty_db"
| reach_step: "orc_reachable db \<Longrightarrow> orc_step db db' \<Longrightarrow> orc_reachable db'"

inductive orc_steps :: "odb \<Rightarrow> odb \<Rightarrow> bool" where
  steps_refl: "orc_steps db db"
| steps_step: "orc_steps db db' \<Longrightarrow> orc_step db' db'' \<Longrightarrow> orc_steps db db''"

section \<open>Every step respects the contract\<close>

context store_growth
begin

lemma R_frame: "same_lifecycle db db' \<Longrightarrow> R db db'"
  by (rule R_other)

lemma R_frame_ok: "ensures (\<lambda>r. same_lifecycle db (snd r)) m \<Longrightarrow> m = Inr (r, db') \<Longrightarrow> R db db'"
  by (rule R_other) simp

lemma R_ok: "ensures (\<lambda>r. R db (snd r)) m \<Longrightarrow> m = Inr (r, db') \<Longrightarrow> R db db'"
  by simp

lemma R_plain: "ensures (R db) m \<Longrightarrow> m = Inr db' \<Longrightarrow> R db db'"
  by simp

lemma R_clear_mail: "R db (clearFollowUpMail i db)"
proof -
  let ?f = "\<lambda>d. if d_id d = i then d\<lparr>d_follow_up_mail_at := None\<rparr> else d"
  have "passive_dispatch ?f" by (simp add: passive_dispatch_def)
  from R_passive_dispatch [OF this, of db] show ?thesis
    unfolding clearFollowUpMail_def update_where_def .
qed

lemma ens_launch_token: "R a db \<Longrightarrow> ensures (\<lambda>r. R a (snd r)) (commitDispatchLaunchTokenHash i hash db)"
proof -
  assume a: "R a db"
  let ?f = "\<lambda>d. if d_id d = i then d\<lparr>d_launch_token_hash := orElse (d_launch_token_hash d) (Some hash)\<rparr> else d"
  have "passive_dispatch ?f" by (simp add: passive_dispatch_def)
  from R_trans [OF a R_passive_dispatch [OF this, of db]] show ?thesis
    unfolding commitDispatchLaunchTokenHash_def update_where_def by (simp add: Let_def split: option.split)
qed

lemma R_take_follow_up: "R db (takeFollowUpMail e i j db)"
  using R_take_mail [OF R_refl, where b = True] by simp

lemmas ens_steps = ens_createTask ens_updateTaskStatus ens_createDispatchContext ens_createStarting
  ens_recordWorkerStage ens_setupEvidence ens_markReady ens_failWorkerStart ens_startUnknown
  ens_failDispatch ens_failActive ens_beginWorkerStop ens_settleWorkerStop ens_federatedStop ens_resume
  ens_stopUnknown ens_abandon ens_observation ens_settleWorkerReport ens_createGate ens_resolveGate
  ens_resolveGateIfPending ens_createQuestion ens_answerQuestion ens_insertMessage
  ens_createResource ens_transfer ens_launch_token

lemmas plain_steps = ens_promote ens_prepareAuthority ens_custody ens_completeDispatch ens_reconcile_settled

lemmas pure_steps = R_heartbeat R_observation R_timeoutGate

lemma step_respects: "orc_step db db' \<Longrightarrow> R db db'"
proof (induction rule: orc_step.induct)
  case (step_elsewhere db rns dls fds ats rqs)
  show ?case by (rule R_other) (simp add: same_lifecycle_def resources_grow_same)
next
  case (step_retain_resource e i db r db')
  then show ?case
    unfolding retainWorkerTerminalResource_def by (rule R_frame_ok [OF frame_retain_owned])
next
  case (step_retain_attachment e i db r db')
  then show ?case
    unfolding retainRemoteAttachmentTerminalResource_def by (rule R_frame_ok [OF frame_retain_owned])
next
  case (step_backfill_resources e idf db db')
  with frame_backfill [of db e idf] show ?case by (intro R_frame) simp
qed (rule pure_steps [OF R_refl] R_clear_mail R_take_follow_up |
  rule R_frame, rule frame_terminal_writes frame_other_writes frame_suspend frame_defer |
  erule ens_steps [OF R_refl, THEN R_ok] plain_steps [OF R_refl, THEN R_plain]
    frame_request [THEN R_frame_ok] frame_dead [THEN R_frame_ok] frame_commit [THEN R_frame_ok]
    frame_receipts [THEN R_frame_ok])+

lemma steps_respect: "orc_steps db db' \<Longrightarrow> R db db'"
  by (induction rule: orc_steps.induct) (blast intro: R_refl R_trans step_respects)+

end

lemma empty_inv: "store_inv empty_db"
  by (simp add: store_inv_def empty_db_def exclusive_assignee_def)

lemma reachable_inv: "orc_reachable db \<Longrightarrow> store_inv db"
  by (induction rule: orc_reachable.induct) (use empty_inv inv.step_respects in blast)+

lemma reachable_steps: "orc_steps db db' \<Longrightarrow> orc_reachable db \<Longrightarrow> orc_reachable db'"
  by (induction rule: orc_steps.induct) (blast intro: reach_step)+

text \<open>What the two invariants say of single rows.\<close>

lemma grows_member:
  "grows F xs ys \<Longrightarrow> x \<in> set xs \<Longrightarrow> \<exists>y\<in>set ys. F x y"
  unfolding grows_def list_all2_conv_all_nth by (auto simp: in_set_conv_nth) force

lemma inv_keys:
  assumes "store_inv db"
  shows "distinct (map t_id (tasks db))" "distinct (map d_id (dispatches db))"
    "distinct (map w_dispatch_id (workers db))" "exclusive_assignee (dispatches db)"
    "deps_known [] (tasks db)" "distinct (map wr_id (resources db))"
  using assms by (simp_all add: store_inv_def)

lemma inv_depth: "store_inv db \<Longrightarrow> d \<in> set (dispatches db) \<Longrightarrow> 1 \<le> d_depth d"
  by (simp add: store_inv_def)

end
