(* ===== verification/Samples.thy ===== *)
theory Samples
  imports Orc_System
begin

text \<open>
  Small databases at which the properties are instantiated: a Run with three tasks, the second
  waiting for the first, the third held by a live Dispatch with a ready worker and its terminal.
\<close>

definition sample_env :: env where
  "sample_env = \<lparr>iso_now = ''2026-01-01T00:00:00.000Z'', sql_now = ''2026-01-01 00:00:00'',
     now_ms = 0, gen = (\<lambda>prefix. prefix @ ''_1''), cleared_from = []\<rparr>"

definition sample_run :: run_row where
  "sample_run = \<lparr>r_id = ''run'', r_objective = [], r_home_database = [], r_coordinator_handle = Some ''term_c'',
     r_coordinator_pane_key = None, r_coordinator_orca_session_id = None,
     r_coordinator_orca_session_id_generation = None, r_consumer_generation = 1, r_legacy = 0,
     r_created_at = ''2026-01-01 00:00:00'', r_updated_at = ''2026-01-01 00:00:00''\<rparr>"

definition sample_task :: "string \<Rightarrow> task_status \<Rightarrow> string list \<Rightarrow> task_row" where
  "sample_task i s deps = \<lparr>t_id = i, t_run_id = ''run'', t_parent_id = None,
     t_created_by_terminal_handle = None, t_created_by_pane_key = None,
     t_created_by_process_incarnation = None, t_created_by_run_generation = None,
     t_task_title = None, t_display_name = None, t_spec = ''do it'', t_status = s, t_deps = deps,
     t_result = None, t_created_at = ''2026-01-01 00:00:00'', t_completed_at = None\<rparr>"

definition sample_dispatch :: "string \<Rightarrow> string \<Rightarrow> dispatch_status \<Rightarrow> string option \<Rightarrow> dispatch_row" where
  "sample_dispatch i t s h = (fresh_dispatch sample_env i ''run'' t 1)
     \<lparr>d_status := s, d_assignee_handle := h\<rparr>"

definition sample_worker :: "string \<Rightarrow> worker_state \<Rightarrow> worker_row" where
  "sample_worker i s = \<lparr>w_dispatch_id = i, w_runtime_epoch = Some ''epoch'', w_state = s,
     w_stage = ''running'', w_worktree_id = Some ''wt'', w_agent_terminal_handle = Some ''term_w'',
     w_setup_state = ''done'', w_effects = ''[]'', w_residual_resources = ''[]'', w_start_options = ''{}'',
     w_last_error = None, w_created_at = ''2026-01-01 00:00:00'', w_updated_at = ''2026-01-01 00:00:00''\<rparr>"

definition sample_db :: odb where
  "sample_db = empty_db\<lparr>runs := [sample_run],
     tasks := [sample_task ''t1'' T_ready [], sample_task ''t2'' T_pending [''t1''],
       sample_task ''t3'' T_dispatched []],
     dispatches := [sample_dispatch ''d1'' ''t3'' D_dispatched (Some ''term_w'')],
     workers := [sample_worker ''d1'' W_ready],
     resources := [fresh_resource sample_env ''wtr_0'' ''d1'' (Some ''wt'') ''term_w'']\<rparr>"

lemmas sample_defs = sample_env_def sample_run_def sample_task_def sample_dispatch_def
  sample_worker_def sample_db_def empty_db_def fresh_dispatch_def fresh_resource_def

text \<open>A reachable database: a Run is opened, two tasks are created, the first one is dispatched.\<close>

definition succeeded :: "'e + 'a \<Rightarrow> bool" where
  "succeeded m = (case m of Inl _ \<Rightarrow> False | Inr _ \<Rightarrow> True)"

definition outcome :: "oerror + 'a \<times> odb \<Rightarrow> odb" where
  "outcome m = (case m of Inl _ \<Rightarrow> empty_db | Inr r \<Rightarrow> snd r)"

lemma outcome_Inr: "succeeded m \<Longrightarrow> \<exists>r. m = Inr (r, outcome m)"
  by (cases m) (auto simp: succeeded_def outcome_def)

definition numbered_env :: "string \<Rightarrow> env" where
  "numbered_env n = sample_env\<lparr>gen := (\<lambda>prefix. prefix @ n)\<rparr>"

definition new_task :: "string list \<Rightarrow> create_task_params" where
  "new_task deps = \<lparr>ct_spec = ''build'', ct_taskTitle = None, ct_displayName = None,
     ct_deps = deps, ct_parentId = None, ct_createdByTerminalHandle = None,
     ct_createdByPaneKey = None, ct_createdByProcessIncarnation = None,
     ct_createdByRunGeneration = None, ct_runId = Some ''run''\<rparr>"

definition new_dispatch_params :: "string \<Rightarrow> string \<Rightarrow> create_dispatch_params" where
  "new_dispatch_params task handle = \<lparr>cd_taskId = task, cd_assigneeHandle = handle,
     cd_assigneePaneKey = None, cd_launchTokenHash = None, cd_processIncarnation = None,
     cd_hostScope = None, cd_creator = System_creator, cd_maxDepth = 2\<rparr>"

definition run_db :: odb where
  "run_db = empty_db\<lparr>runs := [sample_run], deliveries := [], federated := [], attachments := [],
     remote_questions := []\<rparr>"

definition reached_task :: odb where
  "reached_task = outcome (createTask (numbered_env ''1'') (new_task []) run_db)"

definition reached_tasks :: odb where
  "reached_tasks = outcome (createTask (numbered_env ''2'') (new_task [''task1'']) reached_task)"

definition reached_db :: odb where
  "reached_db = outcome (createDispatchContext (numbered_env ''3'') (new_dispatch_params ''task1'' ''term_w'')
     reached_tasks)"

lemma run_db_reachable: "orc_reachable run_db"
  unfolding run_db_def by (rule reach_step [OF reach_empty step_elsewhere])

lemma reached_tasks_reachable: "orc_reachable reached_tasks"
proof -
  have "succeeded (createTask (numbered_env ''1'') (new_task []) run_db)" by code_simp
  from outcome_Inr [OF this] have "orc_step run_db reached_task"
    unfolding reached_task_def by (blast intro: step_create_task)
  with run_db_reachable have 1: "orc_reachable reached_task" by (rule reach_step)
  have "succeeded (createTask (numbered_env ''2'') (new_task [''task1'']) reached_task)" by code_simp
  from outcome_Inr [OF this] have "orc_step reached_task reached_tasks"
    unfolding reached_tasks_def by (blast intro: step_create_task)
  with 1 show ?thesis by (rule reach_step)
qed

lemma reached_dispatch_step: "orc_step reached_tasks reached_db"
proof -
  have "succeeded (createDispatchContext (numbered_env ''3'') (new_dispatch_params ''task1'' ''term_w'')
     reached_tasks)" by code_simp
  from outcome_Inr [OF this] show ?thesis
    unfolding reached_db_def by (blast intro: step_create_dispatch)
qed

lemma reached_db_reachable: "orc_reachable reached_db"
  by (rule reach_step [OF reached_tasks_reachable reached_dispatch_step])

end
