(* ===== verification/Tasks_Correct.thy ===== *)
theory Tasks_Correct
  imports Samples
begin

text \<open>
  What the task store promises: the dependency gate of a new task, promotion, the absence of
  cycles and of stuck dependencies, and what completing a task does to its live Dispatches.
\<close>

section \<open>Shared facts\<close>

lemma row_status:
  assumes "store_inv db" and "getTask db i = Some t"
  shows "t \<in> set (tasks db)" and "t_id t = i"
  using assms by (auto simp: getTask_def dest: row_with_SomeD)

lemma getTask_member:
  "store_inv db \<Longrightarrow> t \<in> set (tasks db) \<Longrightarrow> getTask db (t_id t) = Some t"
  unfolding getTask_def by (intro row_with_distinct) (simp_all add: inv_keys)

lemma task_completed_iff:
  "store_inv db \<Longrightarrow> task_completed db i = (\<exists>t\<in>set (tasks db). t_id t = i \<and> t_status t = T_completed)"
  by (auto simp: task_completed_def getTask_member split: option.split dest: row_status)

text \<open>Settling the live Dispatches of a task.\<close>

lemma settle_worker_frames:
  "ensures (\<lambda>db'. tasks db' = tasks db \<and> dispatches db' = dispatches db)
     (settleWorkerForCompletedDispatch e i db)"
  unfolding settleWorkerForCompletedDispatch_def prod.case
  by (rule ensuresI) (auto split: option.splits if_splits dest!: transition_worker_frame)

lemma transition_dispatch_rows:
  assumes "transition_dispatch b i al s pr db = Inr db'" and "distinct (map d_id (dispatches db))"
    and "\<not> active_status s"
  shows "tasks db' = tasks db \<and> map d_id (dispatches db') = map d_id (dispatches db) \<and>
    (\<forall>d\<in>set (dispatches db'). active d \<longrightarrow> d \<in> set (dispatches db) \<and> d_id d \<noteq> i)"
proof -
  from assms(1) obtain rows where t: "transition_rows d_id d_status write_dispatch dispatch_has_column
      legal_dispatch (dispatch_correction b) (dispatches db) i al s pr = Inr rows"
    and db': "db' = db\<lparr>dispatches := rows\<rparr>"
    by (auto simp: transition_dispatch_def bindE_Inr_iff)
  from dispatch_lc.transition_Inr [OF t] obtain r where r: "row_with d_id i (dispatches db) = Some r"
      "d_status r \<in> set al"
    and rows: "rows = update_where (\<lambda>r. d_id r = i \<and> d_status r \<in> set al) (write_dispatch s pr) (dispatches db)"
    by auto
  have same: "d = r" if "d \<in> set (dispatches db)" "d_id d = i" for d
    using row_with_distinct [OF assms(2) that(1)] r(1) that(2) by simp
  show ?thesis
    unfolding db' rows using same r(2) assms(3)
    by (auto simp: set_update_where map_update_where_keep split: if_splits)
qed

lemma settle_one_effect:
  assumes "distinct (map d_id (dispatches db))"
  shows "ensures (\<lambda>db'. tasks db' = tasks db \<and> map d_id (dispatches db') = map d_id (dispatches db) \<and>
    (\<forall>d\<in>set (dispatches db'). active d \<longrightarrow> d \<in> set (dispatches db) \<and> d_id d \<noteq> d_id row))
    (settle_one e ok failure row db)"
  unfolding settle_one_def
proof (rule ensures_bind_any)
  fix db1 assume t: "transition_dispatch False (d_id row) [d_status row] (if ok then D_completed else D_failed)
    [Col_completed_at (orElse (d_completed_at row) (Some (iso_now e))),
     Col_last_failure (if ok then d_last_failure row
       else orElse failure (orElse (d_last_failure row) (Some ''Task marked failed''))),
     Col_capability_revoked_at (orElse (d_capability_revoked_at row) (Some (iso_now e)))] db = Inr db1"
  let ?db2 = "close_questions e (d_id row) db1"
  show "ensures (\<lambda>db'. tasks db' = tasks db \<and> map d_id (dispatches db') = map d_id (dispatches db) \<and>
    (\<forall>d\<in>set (dispatches db'). active d \<longrightarrow> d \<in> set (dispatches db) \<and> d_id d \<noteq> d_id row))
    (settleWorkerForCompletedDispatch e (d_id row) ?db2)"
    by (rule ensures_mono [OF settle_worker_frames])
      (use transition_dispatch_rows [OF t assms] in \<open>simp add: close_questions_frames\<close>)
qed

lemma settle_fold_effect:
  assumes "distinct (map d_id (dispatches db))"
  shows "ensures (\<lambda>db'. tasks db' = tasks db \<and> map d_id (dispatches db') = map d_id (dispatches db) \<and>
    (\<forall>d\<in>set (dispatches db'). active d \<longrightarrow> d \<in> set (dispatches db) \<and> d_id d \<notin> d_id ` set rows))
    (foldE (settle_one e ok failure) rows db)"
  using assms
proof (induction rows arbitrary: db)
  case Nil
  then show ?case by simp
next
  case (Cons r rows)
  show ?case
    unfolding foldE.simps
  proof (rule ensures_bind [OF settle_one_effect [OF Cons.prems]])
    fix db1 :: odb assume 1: "tasks db1 = tasks db \<and> map d_id (dispatches db1) = map d_id (dispatches db) \<and>
      (\<forall>d\<in>set (dispatches db1). active d \<longrightarrow> d \<in> set (dispatches db) \<and> d_id d \<noteq> d_id r)"
    then have "distinct (map d_id (dispatches db1))" using Cons.prems by simp
    from Cons.IH [OF this] show "ensures (\<lambda>db'. tasks db' = tasks db \<and>
        map d_id (dispatches db') = map d_id (dispatches db) \<and>
        (\<forall>d\<in>set (dispatches db'). active d \<longrightarrow> d \<in> set (dispatches db) \<and> d_id d \<notin> d_id ` set (r # rows)))
        (foldE (settle_one e ok failure) rows db1)"
      by (rule ensures_mono) (use 1 in auto)
  qed
qed

lemma settle_active_effect:
  assumes "distinct (map d_id (dispatches db))"
  shows "ensures (\<lambda>db'. tasks db' = tasks db \<and>
    (\<forall>d\<in>set (dispatches db'). active d \<longrightarrow> d \<in> set (dispatches db) \<and> d_task_id d \<noteq> task))
    (settleActiveDispatchesForTask e task ok failure db)"
  unfolding settleActiveDispatchesForTask_def
  by (rule ensures_mono [OF settle_fold_effect [OF assms]]) auto

section \<open>The properties\<close>

text \<open>A created task is appended to the table and nothing else changes; its dependencies are tasks
  of its Run; it is ready exactly when all of them are completed, and pending otherwise.\<close>

theorem createTask_gate:
  assumes "createTask e p db = Inr (row, db')"
  shows "db' = db\<lparr>tasks := tasks db @ [row]\<rparr> \<and> getTask db (t_id row) = None \<and>
    t_deps row = ct_deps p \<and> Some (t_run_id row) = ct_runId p \<and>
    (\<forall>k\<in>set (ct_deps p). task_in_run db (t_run_id row) k) \<and>
    t_status row = (if \<forall>k\<in>set (ct_deps p). task_completed db k then T_ready else T_pending)"
proof -
  from createTask_Inr [OF assms] have c: "getTask db (t_id row) = None"
    "db' = db\<lparr>tasks := tasks db @ [row]\<rparr>" "t_deps row = ct_deps p" "Some (t_run_id row) = ct_runId p"
    "t_status row = initial_task_status db (t_run_id row) (ct_deps p)"
    "list_all (task_in_run db (t_run_id row)) (ct_deps p)" by blast+
  have "initial_task_status db (t_run_id row) (ct_deps p) =
      (if \<forall>k\<in>set (ct_deps p). task_completed db k then T_ready else T_pending)"
    using c(6) by (fastforce simp: initial_task_status_def list_ex_iff list_all_iff task_in_run_def
      task_completed_def split: option.splits)
  with c show ?thesis by (simp add: list_all_iff)
qed

theorem createTask_gate_witness:
  "(case createTask sample_env (new_task [''t1'']) sample_db of
      Inl _ \<Rightarrow> False | Inr (row, db') \<Rightarrow> t_status row = T_pending \<and> getTask sample_db (t_id row) = None)"
proof -
  have ok: "(case createTask sample_env (new_task [''t1'']) sample_db of
      Inl _ \<Rightarrow> False | Inr _ \<Rightarrow> \<not> task_completed sample_db ''t1'')"
    by code_simp
  then obtain row db' where c: "createTask sample_env (new_task [''t1'']) sample_db = Inr (row, db')"
    by (auto split: sum.splits)
  from createTask_gate [OF c] ok c show ?thesis
    by (simp add: new_task_def)
qed

text \<open>Promotion never throws, and in one pass makes ready exactly the pending tasks that waited for
  the completed task and now have every dependency completed.\<close>

theorem promoteReadyTasks_exact:
  assumes "store_inv db"
  shows "promoteReadyTasks c db = Inr (db\<lparr>tasks := map (promote_spec c db) (tasks db)\<rparr>)"
  using inv_keys(1) [OF assms] by (rule promoteReadyTasks_spec)

theorem promoteReadyTasks_exact_witness:
  "store_inv (sample_db\<lparr>tasks := [sample_task ''t1'' T_completed [], sample_task ''t2'' T_pending [''t1'']]\<rparr>) \<and>
   promoteReadyTasks ''t1'' (sample_db\<lparr>tasks := [sample_task ''t1'' T_completed [], sample_task ''t2'' T_pending [''t1'']]\<rparr>)
     = Inr (sample_db\<lparr>tasks := [sample_task ''t1'' T_completed [], sample_task ''t2'' T_ready [''t1'']]\<rparr>)"
proof -
  let ?db = "sample_db\<lparr>tasks := [sample_task ''t1'' T_completed [], sample_task ''t2'' T_pending [''t1'']]\<rparr>"
  have inv: "store_inv ?db" by code_simp
  have "map (promote_spec ''t1'' ?db) (tasks ?db) =
      [sample_task ''t1'' T_completed [], sample_task ''t2'' T_ready [''t1'']]"
    by (simp add: sample_defs promote_spec_def task_completed_def getTask_def row_with_def)
  with promoteReadyTasks_exact [OF inv, of "''t1''"] inv show ?thesis by simp
qed

text \<open>In every reachable database the tasks and their dependencies have no cycle.\<close>

theorem dependencies_acyclic:
  assumes "orc_reachable db"
  shows "acyclic {(k, t_id t) | k t. t \<in> set (tasks db) \<and> k \<in> set (t_deps t)}"
proof -
  from assms have inv: "store_inv db" by (rule reachable_inv)
  let ?ts = "tasks db"
  define pos where "pos k = (LEAST i. i < length ?ts \<and> t_id (?ts ! i) = k)" for k
  have pos: "pos (t_id (?ts ! i)) = i" if "i < length ?ts" for i
    unfolding pos_def using that inv_keys(1) [OF inv]
    by (intro Least_equality) (auto simp: distinct_conv_nth)
  have "{(k, t_id t) | k t. t \<in> set ?ts \<and> k \<in> set (t_deps t)} \<subseteq> measure pos"
  proof
    fix x assume "x \<in> {(k, t_id t) | k t. t \<in> set ?ts \<and> k \<in> set (t_deps t)}"
    then obtain k i where x: "x = (k, t_id (?ts ! i))" "i < length ?ts" "k \<in> set (t_deps (?ts ! i))"
      by (auto simp: in_set_conv_nth)
    from deps_known_earlier [OF inv_keys(5) [OF inv] x(2,3)] obtain j where
      "j < i" "t_id (?ts ! j) = k" by auto
    with x pos [of j] pos [of i] show "x \<in> measure pos" by auto
  qed
  then show ?thesis by (rule wf_acyclic [OF wf_subset [OF wf_measure]])
qed

theorem dependencies_acyclic_witness:
  "acyclic {(k, t_id t) | k t. t \<in> set (tasks reached_db) \<and> k \<in> set (t_deps t)}"
  by (rule dependencies_acyclic [OF reached_db_reachable])

text \<open>C22. Dependencies never deadlock: while a task is not completed, some task that is not completed
  has all its dependencies completed.\<close>

theorem dependencies_progress:
  assumes "orc_reachable db" and "t \<in> set (tasks db)" and "t_status t \<noteq> T_completed"
  shows "\<exists>u\<in>set (tasks db). t_status u \<noteq> T_completed \<and> list_all (task_completed db) (t_deps u)"
proof -
  from assms(1) have inv: "store_inv db" by (rule reachable_inv)
  let ?ts = "tasks db" and ?P = "\<lambda>i. i < length (tasks db) \<and> t_status (tasks db ! i) \<noteq> T_completed"
  from assms(2,3) obtain i where "?P i" by (auto simp: in_set_conv_nth)
  then have least: "?P (Least ?P)" by (rule LeastI)
  have "task_completed db k" if "k \<in> set (t_deps (?ts ! Least ?P))" for k
  proof -
    from deps_known_earlier [OF inv_keys(5) [OF inv] _ that] least obtain j where
      j: "j < Least ?P" "t_id (?ts ! j) = k" by auto
    with not_less_Least [OF j(1)] least have "?ts ! j \<in> set ?ts" "t_status (?ts ! j) = T_completed"
      by auto
    with j(2) inv show ?thesis by (auto simp: task_completed_iff)
  qed
  with least show ?thesis by (auto simp: list_all_iff)
qed

theorem dependencies_progress_witness:
  "\<exists>u\<in>set (tasks reached_db). t_status u \<noteq> T_completed \<and> list_all (task_completed reached_db) (t_deps u)"
proof -
  have "tasks reached_db \<noteq> [] \<and> t_status (last (tasks reached_db)) \<noteq> T_completed" by code_simp
  then show ?thesis
    using dependencies_progress [OF reached_db_reachable, of "last (tasks reached_db)"] by simp
qed


definition completing_db :: odb where
  "completing_db = sample_db\<lparr>workers := [],
     tasks := [sample_task ''t3'' T_dispatched [], sample_task ''t2'' T_pending [''t3'']]\<rparr>"


end
