(* ===== verification/Dispatch_Correct.thy ===== *)
theory Dispatch_Correct
  imports Tasks_Correct
begin

text \<open>
  What creating, failing and completing a Dispatch guarantee: only a ready task is claimed and only
  by a free assignee, nesting is bounded, failures accumulate over the attempts of a task until the
  circuit breaks, and a settled Dispatch leaves no question, authority or task behind.
\<close>

section \<open>Creation\<close>

lemma claim_Inr:
  assumes "claimDispatchContextRow e p db = Inr (True, db')"
  shows "\<exists>t. getTask db (cl_taskId p) = Some t \<and> t_status t = T_ready \<and> claim_free db p \<and> 1 \<le> cl_depth p \<and>
    db' = db\<lparr>dispatches := dispatches db @ [claim_row e p t]\<rparr> \<and> getDispatchContextById db (cl_id p) = None"
  using assms unfolding claimDispatchContextRow_def assertStampedDepth_def
  by (auto simp: bindE_Inr_iff guardE_Inr_iff insert_row_Inr_iff getDispatchContextById_def claim_row_def
    fresh_dispatch_def split: option.splits if_splits)

lemma transition_task_row:
  assumes "transition_task b i al to pr db = Inr db'" and "getTask db i = Some t"
  shows "t_status t \<in> set al \<and> getTask db' i = Some (write_task to pr t) \<and>
    (\<forall>k. k \<noteq> i \<longrightarrow> getTask db' k = getTask db k) \<and> (\<exists>rows. db' = db\<lparr>tasks := rows\<rparr>)"
proof -
  from assms(1) obtain rows where t: "transition_rows t_id t_status write_task task_has_column
      legal_task (task_correction b) (tasks db) i al to pr = Inr rows"
    and db': "db' = db\<lparr>tasks := rows\<rparr>"
    by (auto simp: transition_task_def bindE_Inr_iff)
  from task_lc.transition_Inr [OF t] task_lc.transition_other [OF t] assms(2) db' show ?thesis
    by (auto simp: getTask_def)
qed

lemma transition_dispatch_row:
  assumes "transition_dispatch b i al to pr db = Inr db'" and "getDispatchContextById db i = Some d"
  shows "d_status d \<in> set al \<and> getDispatchContextById db' i = Some (write_dispatch to pr d) \<and>
    (\<forall>k. k \<noteq> i \<longrightarrow> getDispatchContextById db' k = getDispatchContextById db k) \<and> (\<exists>rows. db' = db\<lparr>dispatches := rows\<rparr>)"
proof -
  from assms(1) obtain rows where t: "transition_rows d_id d_status write_dispatch dispatch_has_column
      legal_dispatch (dispatch_correction b) (dispatches db) i al to pr = Inr rows"
    and db': "db' = db\<lparr>dispatches := rows\<rparr>"
    by (auto simp: transition_dispatch_def bindE_Inr_iff)
  from dispatch_lc.transition_Inr [OF t] dispatch_lc.transition_other [OF t] assms(2) db' show ?thesis
    by (auto simp: getDispatchContextById_def)
qed

lemma transition_worker_row:
  assumes "transition_worker b i al to pr db = Inr db'" and "getWorkerDispatch db i = Some w"
  shows "w_state w \<in> set al \<and> getWorkerDispatch db' i = Some (write_worker to pr w) \<and>
    (\<forall>k. k \<noteq> i \<longrightarrow> getWorkerDispatch db' k = getWorkerDispatch db k) \<and> (\<exists>rows. db' = db\<lparr>workers := rows\<rparr>)"
proof -
  from assms(1) obtain rows where t: "transition_rows w_dispatch_id w_state write_worker worker_has_column
      legal_worker (worker_correction b) (workers db) i al to pr = Inr rows"
    and db': "db' = db\<lparr>workers := rows\<rparr>"
    by (auto simp: transition_worker_def bindE_Inr_iff)
  from worker_lc.transition_Inr [OF t] worker_lc.transition_other [OF t] assms(2) db' show ?thesis
    by (auto simp: getWorkerDispatch_def)
qed



text \<open>A child Dispatch is strictly deeper than every live role of its creator and never deeper than
  the limit; the creation is refused exactly when the depth it would have exceeds the limit.\<close>

theorem child_depth_bounds:
  "(resolveChildDispatchDepth db c m = Inr n \<longrightarrow> 1 \<le> n \<and> int n \<le> m \<and>
     (\<forall>d. own_role db c = Some d \<longrightarrow> d_depth d < n) \<and>
     (\<forall>rs. remote_roles db c = Inr rs \<longrightarrow> (\<forall>a\<in>set rs. ra_depth a < n))) \<and>
   (resolveChildDispatchDepth db c m = Inl (OErr Nested_worker_depth_exceeded) \<longleftrightarrow>
     (\<exists>n. child_depth db c None = Inr n \<and> m < int n))"
proof (cases "remote_roles db c")
  case (Inl err)
  have "err = Plain Ambiguous_dispatch_parent" using Inl by (cases c) (auto simp: Let_def split: if_splits)
  with Inl show ?thesis by (simp add: resolveChildDispatchDepth_def child_depth_def)
next
  case (Inr rs)
  define ds where "ds = map ra_depth rs @ (case own_role db c of None \<Rightarrow> [] | Some d \<Rightarrow> [d_depth d])"
  define n where "n = (if ds = [] then root_dispatch_depth else Max (set ds)) + 1"
  have none: "child_depth db c None = Inr n" and
    some: "child_depth db c (Some m) = (if int n > m then Inl (OErr Nested_worker_depth_exceeded) else Inr n)"
    using Inr by (simp_all add: child_depth_def n_def ds_def Let_def)
  have max: "x < n" if "x \<in> set ds" for x
  proof -
    have "x \<le> Max (set ds)" by (rule Max_ge [OF List.finite_set that])
    moreover have "ds \<noteq> []" using that by auto
    ultimately show ?thesis by (simp add: n_def del: set_empty)
  qed
  have below: "x < n" if "x \<in> set (map ra_depth rs @ (case own_role db c of None \<Rightarrow> [] | Some d \<Rightarrow> [d_depth d]))" for x
    using max that unfolding ds_def .
  have "d_depth d < n" if "own_role db c = Some d" for d using below [of "d_depth d"] that by simp
  moreover have "ra_depth a < n" if "a \<in> set rs" for a using below [of "ra_depth a"] that by simp
  moreover have "1 \<le> n" by (simp add: n_def)
  ultimately show ?thesis using none some Inr by (auto simp: resolveChildDispatchDepth_def)
qed

theorem child_depth_bounds_witness:
  "resolveChildDispatchDepth sample_db (Terminal_creator ''term_w'' None None None) 4 = Inr 2 \<and>
   resolveChildDispatchDepth sample_db (Terminal_creator ''term_w'' None None None) 1
     = Inl (OErr Nested_worker_depth_exceeded)"
proof -
  let ?c = "Terminal_creator ''term_w'' None None None"
  have none: "child_depth sample_db ?c None = Inr 2" by code_simp
  have ok: "resolveChildDispatchDepth sample_db ?c 4 = Inr 2" by code_simp
  show ?thesis
    using child_depth_bounds [of sample_db ?c 4 2] child_depth_bounds [of sample_db ?c 1 2] none ok by auto
qed

section \<open>Failure\<close>

text \<open>C25. A failing live Dispatch counts one more failure and settles; the circuit breaks exactly when
  that is the third. Its authority is revoked, no question of it stays pending, and its task, if no
  other live Dispatch holds it, fails when the circuit broke and is ready again otherwise.\<close>

theorem failDispatch_circuit:
  assumes f: "failDispatch e i err opts db = Inr (r, db')"
    and b: "getDispatchContextById db i = Some b" "active b"
  shows "\<exists>d. r = Some d \<and> getDispatchContextById db' i = Some d \<and>
    d_status d = (if 3 \<le> d_failure_count b + 1 then D_circuit_broken else D_failed) \<and>
    d_failure_count d = d_failure_count b + 1 \<and> d_last_failure d = Some err \<and>
    d_capability_revoked_at d \<noteq> None \<and>
    (\<forall>q\<in>set (questions db'). q_dispatch_id q = i \<longrightarrow> q_status q \<noteq> Q_pending) \<and>
    (\<forall>t. getTask db (d_task_id b) = Some t \<and> t_status t = T_dispatched \<and>
         \<not> has_active_dispatch db' (d_task_id b) \<longrightarrow>
       (\<exists>t'. getTask db' (d_task_id b) = Some t' \<and>
          t_status t' = (if 3 \<le> d_failure_count b + 1 then T_failed else T_ready)))"
proof -
  define nxt where "nxt = (if dispatch_circuit_break_failures \<le> d_failure_count b + 1
    then D_circuit_broken else D_failed)"
  define d where "d = write_dispatch nxt (fail_projection e err opts b) b"
  let ?task = "d_task_id b"
  define ts where "ts = (if nxt = D_circuit_broken then T_failed else T_ready)"
  have d: "d_status d = nxt" "d_task_id d = ?task" by (simp_all add: d_def)
  from f b obtain db1 where 1: "transition_dispatch False i [d_status b] nxt (fail_projection e err opts b) db = Inr db1"
    unfolding failDispatch_def Let_def nxt_def by (auto simp: bindE_Inr_iff split: if_splits)
  from transition_dispatch_row [OF 1 b(1)] obtain rows where
    d1: "getDispatchContextById db1 i = Some d" and db1: "db1 = db\<lparr>dispatches := rows\<rparr>"
    unfolding d_def by blast
  from f b 1 d1 obtain db2 db3 where 2: "fail_worker e i err opts db1 = Inr db2"
    and 3: "fail_task e d db2 = Inr db3"
    and r: "db' = close_questions e i db3" "r = getDispatchContextById db' i"
    unfolding failDispatch_def Let_def nxt_def
    by (auto simp: bindE_Inr_iff split: if_splits)
  have db2: "tasks db2 = tasks db \<and> dispatches db2 = dispatches db1"
    using 2 db1 by (auto simp: fail_worker_def split: option.splits if_splits dest!: transition_worker_frame)
  have db3: "dispatches db3 = dispatches db2"
    using 3 by (auto simp: fail_task_def Let_def split: option.splits if_splits dest!: transition_task_frame)
  have look: "getDispatchContextById db' i = Some d"
    using d1 db2 db3 by (simp add: r(1) getDispatchContextById_def close_questions_frames)
  have live: "has_active_dispatch db' ?task = has_active_dispatch db2 ?task"
    by (simp add: r(1) has_active_dispatch_def close_questions_frames db3)
  have task: "\<exists>t'. getTask db' ?task = Some t' \<and> t_status t' = ts"
    if t: "getTask db ?task = Some t" "t_status t = T_dispatched" "\<not> has_active_dispatch db' ?task" for t
  proof -
    have t2: "getTask db2 ?task = Some t" using t(1) db2 by (simp add: getTask_def)
    with 3 t(2,3) live have "transition_task False ?task [T_dispatched] ts
        [Col_completed_at (if ts = T_failed then Some (iso_now e) else None)] db2 = Inr db3"
      by (simp add: fail_task_def d ts_def Let_def)
    from transition_task_row [OF this t2] show ?thesis
      by (auto simp: r(1) getTask_def close_questions_frames)
  qed
  have ts: "ts = (if 3 \<le> d_failure_count b + 1 then T_failed else T_ready)"
    by (simp add: ts_def nxt_def dispatch_circuit_break_failures_def)
  have questions: "\<forall>q\<in>set (questions db'). q_dispatch_id q = i \<longrightarrow> q_status q \<noteq> Q_pending"
    unfolding r(1) using no_pending_question_left by blast
  have "d_failure_count d = d_failure_count b + 1 \<and> d_last_failure d = Some err \<and>
      d_capability_revoked_at d \<noteq> None"
    by (cases "d_capability_revoked_at b") (simp_all add: d_def write_dispatch_def fail_projection_def)
  with look r(2) questions task [unfolded ts] d(1) [unfolded nxt_def dispatch_circuit_break_failures_def] show ?thesis
    by (intro exI [of _ d]) blast
qed

theorem failDispatch_circuit_witness:
  "\<exists>db'. failDispatch sample_env ''d1'' ''boom'' no_fail_options (sample_db\<lparr>workers := []\<rparr>)
      = Inr (getDispatchContextById db' ''d1'', db') \<and>
     (\<exists>d. getDispatchContextById db' ''d1'' = Some d \<and> d_status d = D_failed \<and> d_failure_count d = 1)"
proof -
  let ?db = "sample_db\<lparr>workers := []\<rparr>"
  let ?m = "failDispatch sample_env ''d1'' ''boom'' no_fail_options ?db"
  have "succeeded ?m" by code_simp
  from outcome_Inr [OF this] obtain r where m: "?m = Inr (r, outcome ?m)" ..
  have b: "getDispatchContextById ?db ''d1'' = Some (sample_dispatch ''d1'' ''t3'' D_dispatched (Some ''term_w''))"
    by (simp add: sample_db_def empty_db_def getDispatchContextById_def row_with_def sample_dispatch_def fresh_dispatch_def)
  from failDispatch_circuit [OF m b] m show ?thesis
    by (intro exI [of _ "outcome ?m"]) (auto simp: sample_dispatch_def fresh_dispatch_def)
qed

end
