(* ===== verification/Reports_Correct.thy ===== *)
theory Reports_Correct
  imports Dispatch_Correct
begin

text \<open>
  What a worker's report does: a rejected report writes nothing, an accepted one settles the task, the
  Dispatch and the worker, and delivering it again changes nothing more.
\<close>

section \<open>What the steps of a settlement keep\<close>

text \<open>A settled Dispatch row and a settled task row as a later step finds them.\<close>

definition keeps_settled :: "odb \<Rightarrow> odb \<Rightarrow> bool" where
  "keeps_settled db db' \<longleftrightarrow>
     (\<forall>i d. getDispatchContextById db i = Some d \<and> \<not> active d \<longrightarrow>
        (\<exists>d'. getDispatchContextById db' i = Some d' \<and> d_status d' = d_status d \<and>
           d_task_id d' = d_task_id d \<and> d_last_failure d' = d_last_failure d)) \<and>
     (\<forall>k t. getTask db k = Some t \<and> t_status t \<noteq> T_pending \<longrightarrow>
        (\<exists>t'. getTask db' k = Some t' \<and> t_status t' = t_status t))"

lemma keeps_refl [simp]: "keeps_settled db db"
  by (simp add: keeps_settled_def)

lemma keeps_trans: "keeps_settled x y \<Longrightarrow> keeps_settled y z \<Longrightarrow> keeps_settled x z"
  unfolding keeps_settled_def
proof (elim conjE, intro conjI allI impI, goal_cases)
  case (1 i d)
  then obtain d1 where d1: "getDispatchContextById y i = Some d1" "d_status d1 = d_status d"
    "d_task_id d1 = d_task_id d" "d_last_failure d1 = d_last_failure d" by blast
  with 1(5) have "\<not> active d1" by simp
  with 1(3) d1(1) obtain d2 where "getDispatchContextById z i = Some d2" "d_status d2 = d_status d1"
    "d_task_id d2 = d_task_id d1" "d_last_failure d2 = d_last_failure d1" by blast
  with d1 show ?case by auto
next
  case (2 k t)
  then obtain t1 where t1: "getTask y k = Some t1" "t_status t1 = t_status t" by blast
  with 2(4,5) obtain t2 where "getTask z k = Some t2" "t_status t2 = t_status t1" by (metis t1)
  with t1 show ?case by auto
qed

lemma keeps_same: "tasks db' = tasks db \<Longrightarrow> dispatches db' = dispatches db \<Longrightarrow> keeps_settled db db'"
  by (simp add: keeps_settled_def getTask_def getDispatchContextById_def)

lemma keeps_worker: "ensures (keeps_settled db) (transition_worker b i al s pr db)"
  by (rule ensuresI) (auto dest!: transition_worker_frame intro: keeps_same)

lemma keeps_close: "keeps_settled db (close_questions e i db)"
  by (rule keeps_same) (simp_all add: close_questions_frames)

lemma keeps_close_all: "keeps_settled db (fold (close_questions e) is db)"
  by (induction "is" arbitrary: db) (auto intro: keeps_trans [OF keeps_close])

lemma keeps_mark: "keeps_settled db (markUnreadFollowUpMail e i db)"
proof -
  let ?f = "\<lambda>d. if d_id d = i \<and> list_ex (unread_follow_up_mail db d) (messages db)
    then d\<lparr>d_follow_up_mail_at := Some (sql_now e)\<rparr> else d"
  have "getDispatchContextById (markUnreadFollowUpMail e i db) k = map_option ?f (getDispatchContextById db k)" for k
    unfolding getDispatchContextById_def row_with_def markUnreadFollowUpMail_def update_where_def
    by (simp add: find_map_keep)
  then show ?thesis
    unfolding keeps_settled_def by (auto simp: getTask_def mark_follow_up_frames)
qed

lemma keeps_arm: "keeps_settled db (armWorkerTerminalAutoReleaseStatement e i db)"
  by (rule keeps_same) (simp_all add: armWorkerTerminalAutoReleaseStatement_def touch_resources_def)

lemma keeps_fact: "ensures (keeps_settled db) (recordAcceptedReportFact e p db)"
  unfolding recordAcceptedReportFact_def recordAttemptObservation_def Let_def
  by (rule ensuresI) (auto simp: bindE_Inr_iff intro: keeps_same split: option.splits if_splits)

lemma keeps_promote:
  assumes "distinct (map t_id (tasks db))"
  shows "ensures (keeps_settled db) (promoteReadyTasks c db)"
proof -
  let ?db = "db\<lparr>tasks := map (promote_spec c db) (tasks db)\<rparr>"
  have "getTask ?db k = map_option (promote_spec c db) (getTask db k)" for k
    unfolding getTask_def row_with_def by (simp add: find_map_keep)
  then have "keeps_settled db ?db"
    by (auto simp: keeps_settled_def getDispatchContextById_def promote_spec_def)
  then show ?thesis using promoteReadyTasks_spec [OF assms] by simp
qed

text \<open>A settling step of an active row keeps the rows that are settled already.\<close>

lemma keeps_transition_dispatch:
  assumes "\<forall>x\<in>set al. active_status x"
  shows "ensures (keeps_settled db) (transition_dispatch b i al s pr db)"
proof (rule ensuresI)
  fix db' assume t: "transition_dispatch b i al s pr db = Inr db'"
  have "getDispatchContextById db' k = Some d" if d: "getDispatchContextById db k = Some d" "\<not> active d" for k d
  proof (cases "k = i")
    case True
    with transition_dispatch_row [OF t] d assms show ?thesis by blast
  next
    case False
    from t obtain d0 where "getDispatchContextById db i = Some d0"
      by (auto simp: transition_dispatch_def bindE_Inr_iff getDispatchContextById_def
        dest!: dispatch_lc.transition_Inr)
    from transition_dispatch_row [OF t this] False d show ?thesis by simp
  qed
  moreover have "tasks db' = tasks db" using t by (auto dest!: transition_dispatch_frame)
  ultimately show "keeps_settled db db'" by (simp add: keeps_settled_def getTask_def)
qed

lemma keeps_settle_worker: "ensures (keeps_settled db) (settleWorkerForCompletedDispatch e i db)"
  by (rule ensures_mono [OF settle_worker_frames]) (auto intro: keeps_same)

lemma keeps_settle_one:
  assumes "active row"
  shows "ensures (keeps_settled db) (settle_one e ok failure row db)"
  unfolding settle_one_def
proof (rule ensures_bind [OF keeps_transition_dispatch])
  fix db1 assume 1: "keeps_settled db db1"
  show "ensures (keeps_settled db) (settleWorkerForCompletedDispatch e (d_id row) (close_questions e (d_id row) db1))"
    by (rule ensures_mono [OF keeps_settle_worker]) (blast intro: keeps_trans 1 keeps_close)
qed (use assms in simp)

lemma keeps_settle_active:
  "ensures (keeps_settled db) (settleActiveDispatchesForTask e task ok failure db)"
  unfolding settleActiveDispatchesForTask_def
proof (rule ensures_foldE)
  fix x s assume "x \<in> set (filter (\<lambda>d. d_task_id d = task \<and> active d) (dispatches db))"
    and s: "keeps_settled db s"
  then have "active x" by simp
  then show "ensures (keeps_settled db) (settle_one e ok failure x s)"
    by (rule ensures_mono [OF keeps_settle_one]) (rule keeps_trans [OF s])
qed simp

section \<open>The settling steps\<close>

definition reported_status :: "dispatch_row \<Rightarrow> dispatch_status" where
  "reported_status d = (if d_status d = D_circuit_broken then D_failed else d_status d)"

lemma report_rows_effect:
  assumes rows: "settle_report_rows e p d t w db = Inr db'"
    and t: "getTask db (re_taskId p) = Some t" and d: "getDispatchContextById db (re_dispatchId p) = Some d"
  shows "\<exists>d' t'. getDispatchContextById db' (re_dispatchId p) = Some d' \<and> getTask db' (re_taskId p) = Some t' \<and>
    t_status t' = expected_task p \<and> reported_status d' = expected_dispatch p \<and> \<not> active d' \<and>
    d_task_id d' = d_task_id d \<and> (re_outcome p = Report_failed \<longrightarrow> d_last_failure d' = Some (re_result p))"
proof -
  define pr where "pr = [Col_completed_at (Some (iso_now e)),
    Col_last_failure (if re_outcome p = Report_failed then Some (re_result p) else d_last_failure d),
    Col_capability_revoked_at (orElse (d_capability_revoked_at d) (Some (iso_now e)))]"
  define tp where "tp = [Col_result (Some (re_result p)), Col_completed_at (Some (iso_now e))]"
  have fin: ?thesis
    if 1: "transition_dispatch b (re_dispatchId p) al s pr db1 = Inr db2" and
      d1: "getDispatchContextById db1 (re_dispatchId p) = Some d" and t1: "getTask db1 (re_taskId p) = Some t1"
      and 2: "transition_task b (re_taskId p) al2 (expected_task p) tp db2 = Inr db'"
      and s: "(if s = D_circuit_broken then D_failed else s) = expected_dispatch p" for b al s al2 db1 db2 t1
  proof -
    from transition_dispatch_row [OF 1 d1] obtain rs where
      d2: "getDispatchContextById db2 (re_dispatchId p) = Some (write_dispatch s pr d)"
      and db2: "db2 = db1\<lparr>dispatches := rs\<rparr>" by blast
    have "getTask db2 (re_taskId p) = Some t1" using t1 db2 by (simp add: getTask_def)
    from transition_task_row [OF 2 this] obtain rs' where
      "getTask db' (re_taskId p) = Some (write_task (expected_task p) tp t1)" "db' = db2\<lparr>tasks := rs'\<rparr>" by blast
    moreover have "reported_status (write_dispatch s pr d) = expected_dispatch p"
      unfolding reported_status_def write_dispatch_simps by (rule s)
    moreover have "\<not> active_status s" using s by (cases s) (auto simp: expected_dispatch_def active_status_def split: if_splits)
    moreover have "re_outcome p = Report_failed \<longrightarrow> d_last_failure (write_dispatch s pr d) = Some (re_result p)"
      by (simp add: write_dispatch_def pr_def)
    ultimately show ?thesis using d2 by (auto simp: getDispatchContextById_def)
  qed
  show ?thesis
  proof (cases "reportCorrectsUnobservedPrompt d t")
    case True
    with rows obtain db2 where
      "transition_dispatch True (re_dispatchId p) [d_status d]
        (if report_succeeded p then D_completed else d_status d) pr db = Inr db2"
      "transition_task True (re_taskId p) [T_failed] (expected_task p) tp db2 = Inr db'"
      unfolding settle_report_rows_def Let_def pr_def tp_def by (auto simp: bindE_Inr_iff)
    moreover from True have "d_status d = D_failed \<or> d_status d = D_circuit_broken"
      by (simp add: reportCorrectsUnobservedPrompt_def)
    ultimately show ?thesis
      by (intro fin [OF _ d t]) (auto simp: expected_dispatch_def)
  next
    case False
    with rows obtain db1 db2 where
      0: "(if reconnecting_worker d t w then transition_task False (re_taskId p) [T_blocked] T_dispatched [] db
         else Inr db) = Inr db1"
      and 1: "transition_dispatch False (re_dispatchId p)
        (if reconnecting_worker d t w \<or> reporting_start d t w then [D_pending, D_dispatched] else [D_dispatched])
        (expected_dispatch p) pr db1 = Inr db2"
      and 2: "transition_task False (re_taskId p) [T_dispatched] (expected_task p) tp db2 = Inr db'"
      unfolding settle_report_rows_def Let_def pr_def tp_def by (auto simp: bindE_Inr_iff)
    have "getDispatchContextById db1 (re_dispatchId p) = Some d \<and> (\<exists>t1. getTask db1 (re_taskId p) = Some t1)"
    proof (cases "reconnecting_worker d t w")
      case True
      with 0 have "transition_task False (re_taskId p) [T_blocked] T_dispatched [] db = Inr db1" by simp
      from transition_task_row [OF this t] d show ?thesis by (auto simp: getDispatchContextById_def)
    next
      case False
      with 0 t d show ?thesis by simp
    qed
    with fin [OF 1 _ _ 2] show ?thesis by (auto simp: expected_dispatch_def split: if_splits)
  qed
qed

lemma report_worker_settles:
  assumes "settle_report_worker e p d t w db = Inr db'" and "getWorkerDispatch db (re_dispatchId p) = w"
  shows "tasks db' = tasks db \<and> dispatches db' = dispatches db \<and>
    (\<forall>x. getWorkerDispatch db' (re_dispatchId p) = Some x \<longrightarrow> worker_settled (w_state x))"
proof (cases w)
  case None
  with assms show ?thesis
    by (auto simp: settle_report_worker_def Let_def isWorkerStateIn_def reporting_start_def
      transition_worker_def transition_rows_def getWorkerDispatch_def bindE_Inr_iff split: if_splits)
next
  case (Some x)
  have one: ?thesis
    if "transition_worker b (re_dispatchId p) al s pr db1 = Inr db'" "getWorkerDispatch db1 (re_dispatchId p) = Some y"
      "worker_settled s" "tasks db1 = tasks db" "dispatches db1 = dispatches db" for b al s pr db1 y
    using transition_worker_row [OF that(1,2)] that(3-5) by auto
  have two: ?thesis
    if "bindE (transition_worker b (re_dispatchId p) al s pr db) (transition_worker b' (re_dispatchId p) al' s' pr') = Inr db'"
      "worker_settled s'" for b al s pr b' al' s' pr'
  proof -
    from that(1) obtain db1 where 1: "transition_worker b (re_dispatchId p) al s pr db = Inr db1"
      and 2: "transition_worker b' (re_dispatchId p) al' s' pr' db1 = Inr db'" by (auto simp: bindE_Inr_iff)
    from transition_worker_row [OF 1] assms(2) Some have "getWorkerDispatch db1 (re_dispatchId p) = Some (write_worker s pr x)"
      "tasks db1 = tasks db" "dispatches db1 = dispatches db" by auto
    with one [OF 2 _ that(2)] show ?thesis by blast
  qed
  show ?thesis
    using assms Some one [of _ _ _ _ db] two
    unfolding settle_report_worker_def Let_def
    by (simp split: if_splits)
qed

lemma report_rows_workers:
  "ensures (\<lambda>db'. workers db' = workers db) (settle_report_rows e p d t w db)"
  unfolding settle_report_rows_def Let_def
  by (rule ensuresI)
    (auto simp: bindE_Inr_iff split: if_splits dest!: transition_task_frame transition_dispatch_frame)

lemma questions_close_all:
  "\<forall>q\<in>set (questions db). q_dispatch_id q = i \<longrightarrow> q_status q \<noteq> Q_pending \<Longrightarrow>
   \<forall>q\<in>set (questions (fold (close_questions e) is db)). q_dispatch_id q = i \<longrightarrow> q_status q \<noteq> Q_pending"
proof (induction "is" arbitrary: db)
  case (Cons j js)
  have "\<forall>q\<in>set (questions (close_questions e j db)). q_dispatch_id q = i \<longrightarrow> q_status q \<noteq> Q_pending"
    using Cons.prems by (auto simp: closed_questions set_update_where close_question_def)
  from Cons.IH [OF this] show ?case by simp
qed simp

lemma fact_frames:
  "ensures (\<lambda>db'. dispatches db' = dispatches db \<and> questions db' = questions db \<and> tasks db' = tasks db \<and>
     workers db' = workers db) (recordAcceptedReportFact e p db)"
  unfolding recordAcceptedReportFact_def recordAttemptObservation_def Let_def
  by (rule ensuresI) (auto simp: bindE_Inr_iff split: option.splits if_splits)

lemma mark_rows:
  "x \<in> set (dispatches (markUnreadFollowUpMail e i db)) \<Longrightarrow>
     \<exists>y\<in>set (dispatches db). d_task_id x = d_task_id y \<and> d_status x = d_status y"
  by (auto simp: markUnreadFollowUpMail_def set_update_where)

lemma worker_kept:
  assumes "lifecycle_monotone db db'" and "store_inv db'" and "getWorkerDispatch db i = Some w"
  shows "\<exists>w'. getWorkerDispatch db' i = Some w' \<and> worker_follows w w'"
proof -
  from assms(3) have w: "w \<in> set (workers db)" "w_dispatch_id w = i"
    by (auto simp: getWorkerDispatch_def dest: row_with_SomeD)
  from assms(1) have "grows worker_follows (workers db) (workers db')" by (simp add: lifecycle_monotone_def)
  from grows_member [OF this w(1)] obtain w' where w': "w' \<in> set (workers db')" "worker_follows w w'" by blast
  have "getWorkerDispatch db' (w_dispatch_id w') = Some w'"
    unfolding getWorkerDispatch_def by (rule row_with_distinct [OF inv_keys(3) [OF assms(2)] w'(1)])
  moreover from w'(2) w(2) have "w_dispatch_id w' = i" by (simp add: worker_follows_def)
  ultimately show ?thesis using w'(2) by blast
qed

lemma close_all_dispatches: "dispatches (fold (close_questions e) is db) = dispatches db"
  by (induction "is" arbitrary: db) (simp_all add: close_questions_frames)

text \<open>Everything a settling report leaves behind.\<close>

lemma settle_report_effect:
  assumes inv: "store_inv db" and t: "getTask db (re_taskId p) = Some t"
    and d: "getDispatchContextById db (re_dispatchId p) = Some d"
    and s: "settle_report e en p d t (getWorkerDispatch db (re_dispatchId p)) db = Inr db'"
  shows "\<exists>d' t'. getDispatchContextById db' (re_dispatchId p) = Some d' \<and> getTask db' (re_taskId p) = Some t' \<and>
    t_status t' = expected_task p \<and> reported_status d' = expected_dispatch p \<and> \<not> active d' \<and>
    d_task_id d' = d_task_id d \<and> (re_outcome p = Report_failed \<longrightarrow> d_last_failure d' = Some (re_result p)) \<and>
    (\<forall>x\<in>set (dispatches db'). d_task_id x = re_taskId p \<longrightarrow> \<not> active x) \<and>
    (\<forall>q\<in>set (questions db'). q_dispatch_id q = re_dispatchId p \<longrightarrow> q_status q \<noteq> Q_pending) \<and>
    (getWorkerDispatch db (re_dispatchId p) \<noteq> None \<longrightarrow>
      (\<exists>w'. getWorkerDispatch db' (re_dispatchId p) = Some w' \<and> worker_settled (w_state w')))"
proof -
  let ?i = "re_dispatchId p" and ?w = "getWorkerDispatch db (re_dispatchId p)"
  define sib where "sib = sibling_dispatch_ids db (re_taskId p) ?i"
  from s obtain db1 db2 db3 db4 db5 db6 db7 where
    1: "settle_report_rows e p d t ?w db = Inr db1"
    and 2: "settle_report_worker e p d t ?w db1 = Inr db2"
    and 3: "settleActiveDispatchesForTask e (re_taskId p) (report_succeeded p)
          (if report_succeeded p then None else Some (re_result p)) db2 = Inr db3"
    and 4: "db4 = fold (close_questions e) sib (close_questions e ?i db3)"
    and 5: "(if report_succeeded p then promoteReadyTasks (re_taskId p) db4 else Inr db4) = Inr db5"
    and 6: "db6 = (if ?w \<noteq> None \<and> en then armWorkerTerminalAutoReleaseStatement e ?i db5 else db5)"
    and 7: "recordAcceptedReportFact e p db6 = Inr db7" and db': "db' = markUnreadFollowUpMail e ?i db7"
    unfolding settle_report_def Let_def sib_def by (auto simp: bindE_Inr_iff)
  have inv1: "store_inv db1" using ensuresD [OF inv.ens_report_rows [OF inv.R_refl] 1] inv by blast
  have inv2: "store_inv db2" using ensuresD [OF inv.ens_report_worker [OF inv.R_refl] 2] inv1 by blast
  have inv3: "store_inv db3" using ensuresD [OF inv.ens_settle_active [OF inv.R_refl] 3] inv2 by blast
  have inv4: "store_inv db4" unfolding 4 using inv.R_close_all [OF inv.R_close [OF inv.R_refl]] inv3 by blast
  have inv': "store_inv db'"
    using ensuresD [OF inv.ens_settle_report [OF inv.R_refl] s] inv by blast
  have w1: "getWorkerDispatch db1 ?i = ?w"
    using ensuresD [OF report_rows_workers 1] by (simp add: getWorkerDispatch_def)
  note W = report_worker_settles [OF 2 w1]
  from report_rows_effect [OF 1 t d] obtain d1 t1 where
    r: "getDispatchContextById db1 ?i = Some d1" "getTask db1 (re_taskId p) = Some t1"
      "t_status t1 = expected_task p" "reported_status d1 = expected_dispatch p" "\<not> active d1"
      "d_task_id d1 = d_task_id d" "re_outcome p = Report_failed \<longrightarrow> d_last_failure d1 = Some (re_result p)"
    by blast
  have k2: "keeps_settled db1 db2" using W by (intro keeps_same) auto
  have k3: "keeps_settled db2 db3" by (rule ensuresD [OF keeps_settle_active 3])
  have k4: "keeps_settled db3 db4" unfolding 4 by (rule keeps_trans [OF keeps_close keeps_close_all])
  have k5: "keeps_settled db4 db5"
    using 5 ensuresD [OF keeps_promote [OF inv_keys(1) [OF inv4]]] by (auto split: if_splits)
  have k6: "keeps_settled db5 db6" unfolding 6 by (simp add: keeps_arm)
  have k7: "keeps_settled db6 db7" by (rule ensuresD [OF keeps_fact 7])
  have k8: "keeps_settled db7 db'" unfolding db' by (rule keeps_mark)
  have K: "keeps_settled db1 db'"
    by (rule keeps_trans [OF k2 keeps_trans [OF k3 keeps_trans [OF k4 keeps_trans [OF k5
      keeps_trans [OF k6 keeps_trans [OF k7 k8]]]]]])
  have pend: "expected_task p \<noteq> T_pending" by (simp add: expected_task_def)
  from K r(1,5) obtain d' where d': "getDispatchContextById db' ?i = Some d'" "d_status d' = d_status d1"
    "d_task_id d' = d_task_id d1" "d_last_failure d' = d_last_failure d1"
    unfolding keeps_settled_def by blast
  from K r(2,3) pend obtain t' where t': "getTask db' (re_taskId p) = Some t'" "t_status t' = expected_task p"
    unfolding keeps_settled_def by metis
  have f5: "dispatches db5 = dispatches db4 \<and> questions db5 = questions db4"
    using 5 promoteReadyTasks_spec [OF inv_keys(1) [OF inv4], of "re_taskId p"] by (auto split: if_splits)
  have f6: "dispatches db6 = dispatches db5 \<and> questions db6 = questions db5"
    by (simp add: 6 armWorkerTerminalAutoReleaseStatement_def touch_resources_def)
  have f4: "dispatches db4 = dispatches db3"
    unfolding 4 by (simp add: close_all_dispatches close_questions_frames)
  have live: "\<forall>x\<in>set (dispatches db'). d_task_id x = re_taskId p \<longrightarrow> \<not> active x"
  proof (intro ballI impI)
    fix x assume x: "x \<in> set (dispatches db')" "d_task_id x = re_taskId p"
    from mark_rows [OF x(1) [unfolded db']] obtain y where
      y: "y \<in> set (dispatches db7)" "d_task_id x = d_task_id y" "d_status x = d_status y" by blast
    from ensuresD [OF settle_active_effect [OF inv_keys(2) [OF inv2]] 3] y x(2)
      ensuresD [OF fact_frames 7] f4 f5 f6 show "\<not> active x" by auto
  qed
  have "\<forall>q\<in>set (questions db4). q_dispatch_id q = ?i \<longrightarrow> q_status q \<noteq> Q_pending"
    unfolding 4 by (rule questions_close_all) (use no_pending_question_left in blast)
  then have quiet: "\<forall>q\<in>set (questions db'). q_dispatch_id q = ?i \<longrightarrow> q_status q \<noteq> Q_pending"
    using ensuresD [OF fact_frames 7] f5 f6 by (simp add: db' mark_follow_up_frames)
  have worker: "\<exists>w'. getWorkerDispatch db' ?i = Some w' \<and> worker_settled (w_state w')" if "?w \<noteq> None"
  proof -
    from that obtain w0 where w0: "?w = Some w0" by blast
    have m2: "lifecycle_monotone db1 db2" by (rule ensuresD [OF monotone.ens_report_worker [OF monotone.R_refl] 2])
    from worker_kept [OF m2 inv2] w1 w0 obtain x where x: "getWorkerDispatch db2 ?i = Some x" by auto
    with W have settled: "worker_settled (w_state x)" by blast
    have m3: "lifecycle_monotone db2 db3" by (rule ensuresD [OF monotone.ens_settle_active [OF monotone.R_refl] 3])
    have m4: "lifecycle_monotone db2 db4"
      unfolding 4 by (rule monotone.R_close_all [OF monotone.R_close [OF m3]])
    have m5: "lifecycle_monotone db2 db5"
      using 5 ensuresD [OF monotone.ens_promote [OF m4]] m4 by (auto split: if_splits)
    have m6: "lifecycle_monotone db2 db6" unfolding 6 by (rule monotone.R_arm_if [OF m5])
    have "lifecycle_monotone db2 db'"
      unfolding db' by (rule monotone.R_mark [OF ensuresD [OF monotone.ens_report_fact [OF m6] 7]])
    from worker_kept [OF this inv' x] settled show ?thesis by (auto simp: worker_follows_def)
  qed
  show ?thesis
    using d' t' r live quiet worker by (intro exI [of _ d'] exI [of _ t']) (auto simp: reported_status_def)
qed

lemma settled_cases:
  assumes "settleWorkerReport e en p db = Inr (Settled oc dup, db')"
  shows "\<exists>t d. getTask db (re_taskId p) = Some t \<and> getDispatchContextById db (re_dispatchId p) = Some d \<and>
    d_task_id d = re_taskId p \<and> oc = re_outcome p \<and>
    (if dup then already_reported p d t \<and> recordAcceptedReportFact e p db = Inr db'
     else settle_report e en p d t (getWorkerDispatch db (re_dispatchId p)) db = Inr db')"
  using assms unfolding settleWorkerReport_def
  by (auto simp: Let_def bindE_Inr_iff split: option.splits if_splits)

section \<open>The properties\<close>


definition sample_report :: "string \<Rightarrow> report_outcome \<Rightarrow> report_params" where
  "sample_report task oc = \<lparr>re_taskId = task, re_dispatchId = ''d1'', re_outcome = oc, re_result = ''done'',
     re_observation = Some \<lparr>ro_id = ''obs1'', ro_authorityId = ''home'', ro_homeReceivedAt = 5\<rparr>\<rparr>"

definition reported_db :: odb where
  "reported_db = outcome (settleWorkerReport sample_env True (sample_report ''t3'' Report_succeeded) sample_db)"

lemma outcome_verdict:
  assumes "(case m of Inl _ \<Rightarrow> False | Inr (x, _) \<Rightarrow> x = y)"
  shows "m = Inr (y, outcome m)"
  using assms by (cases m) (auto simp: outcome_def)

lemma sample_report_settles:
  "settleWorkerReport sample_env True (sample_report ''t3'' Report_succeeded) sample_db
     = Inr (Settled Report_succeeded False, reported_db)"
  unfolding reported_db_def by (rule outcome_verdict) code_simp


text \<open>C27. A report that settles ends the work: the task and the Dispatch get the reported outcome, no
  live Dispatch of the task is left, the reporting worker is settled and none of its questions is
  pending.\<close>

theorem report_settles_everything:
  assumes "store_inv db" and "settleWorkerReport e en p db = Inr (Settled oc False, db')"
  shows "oc = re_outcome p \<and>
    (\<exists>t'. getTask db' (re_taskId p) = Some t' \<and> t_status t' = expected_task p) \<and>
    (\<exists>d'. getDispatchContextById db' (re_dispatchId p) = Some d' \<and> \<not> active d' \<and>
       reported_status d' = expected_dispatch p) \<and>
    (\<forall>x\<in>set (dispatches db'). d_task_id x = re_taskId p \<longrightarrow> \<not> active x) \<and>
    (\<forall>q\<in>set (questions db'). q_dispatch_id q = re_dispatchId p \<longrightarrow> q_status q \<noteq> Q_pending) \<and>
    (getWorkerDispatch db (re_dispatchId p) \<noteq> None \<longrightarrow>
      (\<exists>w'. getWorkerDispatch db' (re_dispatchId p) = Some w' \<and> worker_settled (w_state w')))"
proof -
  from settled_cases [OF assms(2)] obtain t d where
    t: "getTask db (re_taskId p) = Some t" "getDispatchContextById db (re_dispatchId p) = Some d"
      "oc = re_outcome p" "settle_report e en p d t (getWorkerDispatch db (re_dispatchId p)) db = Inr db'"
    by auto
  from settle_report_effect [OF assms(1) t(1,2,4)] t(3) show ?thesis by blast
qed

theorem report_settles_everything_witness:
  "(\<exists>t. getTask reported_db ''t3'' = Some t \<and> t_status t = T_completed) \<and>
   (\<exists>d. getDispatchContextById reported_db ''d1'' = Some d \<and> \<not> active d)"
proof -
  have inv: "store_inv sample_db" by code_simp
  from report_settles_everything [OF inv sample_report_settles] show ?thesis
    by (auto simp: sample_report_def expected_task_def report_succeeded_def)
qed

lemma find_known:
  "find (\<lambda>f. f_id f = k) (getAttemptObservationFacts db i) = Some f \<Longrightarrow>
     f \<in> set (facts db) \<and> f_id f = k \<and> f_dispatch_id f = i"
  by (drule find_SomeD) (auto simp: getAttemptObservationFacts_def)

text \<open>Recording the same accepted report again finds the fact it left.\<close>

lemma fact_replay:
  assumes r: "recordAcceptedReportFact e p db = Inr db1" and same: "facts db2 = facts db1"
  shows "recordAcceptedReportFact e' p db2 = Inr db2"
proof (cases "re_observation p")
  case None
  then show ?thesis by (simp add: recordAcceptedReportFact_def)
next
  case (Some obs)
  let ?known = "\<lambda>db. find (\<lambda>f. f_id f = ro_id obs) (getAttemptObservationFacts db (re_dispatchId p))"
  let ?n = "\<lambda>db. case ?known db of Some f \<Rightarrow> f_sequence f | None \<Rightarrow> next_fact_sequence db (re_dispatchId p)"
  have K: "?known db2 = ?known db1" by (simp add: getAttemptObservationFacts_def same)
  have R: "row_with f_id k (facts db2) = row_with f_id k (facts db1)" for k by (simp add: same)
  from r Some obtain x where x: "recordAttemptObservation e (report_fact p obs (?n db)) db = Inr (x, db1)"
    by (auto simp: recordAcceptedReportFact_def Let_def bindE_Inr_iff)
  have v: "validateInput (report_fact p obs (?n db)) = Inr ()"
    using x by (auto simp: recordAttemptObservation_def bindE_Inr_iff)
  have "\<exists>f. ?known db1 = Some f \<and> f_sequence f = ?n db \<and>
      (\<exists>g. row_with f_id (ro_id obs) (facts db1) = Some g \<and> sameFact g (report_fact p obs (?n db)))"
  proof (cases "row_with f_id (ro_id obs) (facts db)")
    case None
    with x have db1: "facts db1 = facts db @ [fact_of e (report_fact p obs (?n db))
        (d_task_id (the (getDispatchContextById db (re_dispatchId p))))]"
      by (auto simp: recordAttemptObservation_def bindE_Inr_iff report_fact_def Let_def split: option.splits if_splits)
    let ?f = "fact_of e (report_fact p obs (?n db)) (d_task_id (the (getDispatchContextById db (re_dispatchId p))))"
    have f: "f_id ?f = ro_id obs" "f_dispatch_id ?f = re_dispatchId p" "f_sequence ?f = ?n db"
      by (simp_all add: fact_of_def report_fact_def)
    have "f_id g \<noteq> ro_id obs" if "g \<in> set (facts db)" for g
      using None that unfolding row_with_None_iff by (metis imageI)
    then have only: "g = ?f" if "g \<in> set (facts db1)" "f_id g = ro_id obs" for g
      using that by (auto simp: db1)
    have "?known db1 \<noteq> None"
      using f by (auto simp: find_None_iff_ball getAttemptObservationFacts_def db1)
    then obtain g where g: "?known db1 = Some g" by blast
    from find_known [OF g] only have "g = ?f" by blast
    moreover have "row_with f_id (ro_id obs) (facts db1) = Some ?f"
      using None f by (simp add: db1 row_with_append)
    moreover have "sameFact ?f (report_fact p obs (?n db))" by (simp add: sameFact_def fact_of_def)
    ultimately show ?thesis using g f by blast
  next
    case (Some g)
    with x have g: "sameFact g (report_fact p obs (?n db))" and db1: "db1 = db"
      by (auto simp: recordAttemptObservation_def bindE_Inr_iff report_fact_def split: if_splits)
    from row_with_SomeD [OF Some] g have "g \<in> set (getAttemptObservationFacts db (re_dispatchId p))" "f_id g = ro_id obs"
      by (auto simp: getAttemptObservationFacts_def sameFact_def report_fact_def)
    then have "?known db \<noteq> None" unfolding find_None_iff_ball by blast
    then obtain h where "?known db = Some h" by blast
    with Some g db1 show ?thesis by simp
  qed
  then obtain f g where f: "?known db1 = Some f" "f_sequence f = ?n db"
    "row_with f_id (ro_id obs) (facts db1) = Some g" "sameFact g (report_fact p obs (?n db))" by blast
  have "recordAttemptObservation e' (report_fact p obs (?n db)) db2 = Inr ((g, True), db2)"
    using v f(3,4) by (simp add: recordAttemptObservation_def R) (simp add: report_fact_def R)
  then show ?thesis
    using Some f(1,2) by (simp add: recordAcceptedReportFact_def Let_def K)
qed

lemma mark_facts: "facts (markUnreadFollowUpMail e i db) = facts db"
  by (simp add: markUnreadFollowUpMail_def)

text \<open>Delivering a settled report once more is recognised as a duplicate and changes nothing. (The
  text \<open>agent_prompt_stalled\<close> as the result of a failed report is excluded: it is the marker of a
  prompt nobody saw, which a later report may correct.)\<close>

theorem report_is_idempotent:
  assumes inv: "store_inv db" and first: "settleWorkerReport e en p db = Inr (Settled oc dup, db')"
    and marker: "re_outcome p = Report_failed \<longrightarrow> re_result p \<noteq> agent_prompt_stalled_error"
  shows "settleWorkerReport e' en' p db' = Inr (Settled oc True, db')"
proof -
  from settled_cases [OF first] obtain t d where
    t: "getTask db (re_taskId p) = Some t" and d: "getDispatchContextById db (re_dispatchId p) = Some d"
    and task: "d_task_id d = re_taskId p" and oc: "oc = re_outcome p" and
    how: "if dup then already_reported p d t \<and> recordAcceptedReportFact e p db = Inr db'
     else settle_report e en p d t (getWorkerDispatch db (re_dispatchId p)) db = Inr db'" by blast
  have "\<exists>d' t'. getDispatchContextById db' (re_dispatchId p) = Some d' \<and> getTask db' (re_taskId p) = Some t' \<and>
      d_task_id d' = re_taskId p \<and> already_reported p d' t' \<and> recordAcceptedReportFact e' p db' = Inr db'"
  proof (cases dup)
    case True
    with how have r: "recordAcceptedReportFact e p db = Inr db'" and a: "already_reported p d t" by simp_all
    have "dispatches db' = dispatches db \<and> tasks db' = tasks db" using ensuresD [OF fact_frames r] by simp
    with t d task a fact_replay [OF r, of db' e'] show ?thesis
      by (simp add: getTask_def getDispatchContextById_def)
  next
    case False
    with how have s: "settle_report e en p d t (getWorkerDispatch db (re_dispatchId p)) db = Inr db'" by simp
    from settle_report_effect [OF inv t d s] obtain d' t' where
      r: "getDispatchContextById db' (re_dispatchId p) = Some d'" "getTask db' (re_taskId p) = Some t'"
        "t_status t' = expected_task p" "reported_status d' = expected_dispatch p" "d_task_id d' = d_task_id d"
        "re_outcome p = Report_failed \<longrightarrow> d_last_failure d' = Some (re_result p)" by blast
    have "\<not> reportCorrectsUnobservedPrompt d' t'"
    proof (cases "re_outcome p")
      case Report_succeeded
      with r(3) show ?thesis by (simp add: reportCorrectsUnobservedPrompt_def expected_task_def report_succeeded_def)
    next
      case Report_failed
      with r(6) marker show ?thesis by (simp add: reportCorrectsUnobservedPrompt_def)
    qed
    with r(3,4) have "already_reported p d' t'" by (simp add: already_reported_def reported_status_def)
    moreover from s obtain db6 db7 where "recordAcceptedReportFact e p db6 = Inr db7"
      "db' = markUnreadFollowUpMail e (re_dispatchId p) db7"
      unfolding settle_report_def Let_def by (auto simp: bindE_Inr_iff)
    then have "recordAcceptedReportFact e' p db' = Inr db'" using fact_replay mark_facts by metis
    ultimately show ?thesis using r task by auto
  qed
  then show ?thesis using oc by (auto simp: settleWorkerReport_def Let_def)
qed

theorem report_is_idempotent_witness:
  "settleWorkerReport sample_env False (sample_report ''t3'' Report_succeeded) reported_db
     = Inr (Settled Report_succeeded True, reported_db)"
proof -
  have inv: "store_inv sample_db" by code_simp
  show ?thesis
    by (rule report_is_idempotent [OF inv sample_report_settles]) (simp add: sample_report_def)
qed

end
