(* ===== verification/Threads_Correct.thy ===== *)
theory Threads_Correct
  imports Reports_Correct
begin

text \<open>
  Decision gates and question threads: creating a gate takes the task away from its workers, a gate is
  decided once, an answer is delivered once and never replaced.
\<close>

section \<open>Gates\<close>

lemma settle_worker_gates:
  "ensures (\<lambda>db'. gates db' = gates db) (settleWorkerForCompletedDispatch e i db)"
  unfolding settleWorkerForCompletedDispatch_def prod.case
  by (rule ensuresI) (auto split: option.splits if_splits dest!: transition_worker_frame)

lemma settle_active_gates:
  "ensures (\<lambda>db'. gates db' = gates db) (settleActiveDispatchesForTask e task ok failure db)"
  unfolding settleActiveDispatchesForTask_def
proof (rule ensures_foldE)
  fix x and s :: odb assume s: "gates s = gates db"
  show "ensures (\<lambda>db'. gates db' = gates db) (settle_one e ok failure x s)"
    unfolding settle_one_def
    by (rule ensures_bind_any, rule ensures_mono [OF settle_worker_gates])
      (use s in \<open>auto simp: close_questions_frames dest!: transition_dispatch_frame\<close>)
qed simp

text \<open>Creating a gate records it pending, blocks the task and leaves no live Dispatch of the task: no
  worker continues while the decision is open.\<close>

theorem createGate_blocks_task:
  assumes inv: "store_inv db" and c: "createGate e task q opts req db = Inr (r, db')"
  shows "(\<exists>t'. getTask db' task = Some t' \<and> t_status t' = T_blocked) \<and>
    (\<forall>x\<in>set (dispatches db'). d_task_id x = task \<longrightarrow> \<not> active x) \<and>
    activeWorkerDispatch db task = None \<and> (\<exists>g. r = Some g \<and> getGate db' (g_id g) = Some g \<and>
      g_task_id g = task \<and> g_status g = G_pending \<and> g_options g = opts)"
proof -
  from c obtain t g db1 where t: "getTask db task = Some t" and free: "activeWorkerDispatch db task = None"
    and g: "g = \<lparr>g_id = gen e ''gate'', g_run_id = t_run_id t, g_task_id = task, g_question = q,
           g_options = opts, g_status = G_pending, g_resolution = None,
           g_created_at = sql_now e, g_resolved_at = None\<rparr>"
    and new: "row_with g_id (g_id g) (gates db) = None"
    and 1: "settleActiveDispatchesForTask e task True None (db\<lparr>gates := gates db @ [g]\<rparr>) = Inr db1"
    and 2: "transition_task False task [t_status t] T_blocked [] db1 = Inr db'"
    and r: "r = getGate db' (g_id g)"
    unfolding createGate_def completeActiveDispatchesForTask_def Let_def
    by (auto simp: bindE_Inr_iff guardE_Inr_iff requireE_Inr_iff insert_row_Inr_iff)
  have gates1: "gates db1 = gates db @ [g]" using ensuresD [OF settle_active_gates 1] by simp
  have "distinct (map d_id (dispatches (db\<lparr>gates := gates db @ [g]\<rparr>)))" using inv_keys(2) [OF inv] by simp
  from ensuresD [OF settle_active_effect [OF this] 1] have s: "tasks db1 = tasks db"
    "\<forall>d\<in>set (dispatches db1). active d \<longrightarrow> d_task_id d \<noteq> task" by auto
  have t1: "getTask db1 task = Some t" using t s(1) by (simp add: getTask_def)
  from transition_task_row [OF 2 t1] obtain rows where
    "getTask db' task = Some (write_task T_blocked [] t)" "db' = db1\<lparr>tasks := rows\<rparr>" by blast
  then show ?thesis
    using s(2) free new r gates1 by (auto simp: getGate_def row_with_append g)
qed

theorem createGate_blocks_task_witness:
  "\<exists>db'. (\<exists>t'. getTask db' ''t3'' = Some t' \<and> t_status t' = T_blocked) \<and>
     (\<forall>x\<in>set (dispatches db'). d_task_id x = ''t3'' \<longrightarrow> \<not> active x)"
proof -
  let ?db = "sample_db\<lparr>workers := []\<rparr>"
  let ?m = "createGate sample_env ''t3'' ''which?'' [''a'', ''b''] None ?db"
  have inv: "store_inv ?db" by code_simp
  have "succeeded ?m" by code_simp
  from outcome_Inr [OF this] obtain r where r: "?m = Inr (r, outcome ?m)" ..
  from createGate_blocks_task [OF inv r] show ?thesis by blast
qed

lemma update_gate_frames:
  "updateTaskStatus e i T_ready None db = Inr (r, db') \<Longrightarrow> gates db' = gates db"
  unfolding updateTaskStatus_def Let_def
  by (auto simp: bindE_Inr_iff split: option.splits if_splits sum.splits dest!: transition_task_frame)

lemma gate_write_same:
  assumes "distinct (map g_id (gates db))" and "getGate db i = Some g" and "g_status g \<noteq> G_pending"
  shows "update_where (\<lambda>g. g_id g = i \<and> g_status g = G_pending) f (gates db) = gates db"
    and "count_where (\<lambda>g. g_id g = i \<and> g_status g = G_pending) (gates db) = 0"
proof -
  have "\<not> (g_id x = i \<and> g_status x = G_pending)" if "x \<in> set (gates db)" for x
    using row_with_distinct [OF assms(1) that] assms(2,3) by (auto simp: getGate_def)
  then show "update_where (\<lambda>g. g_id g = i \<and> g_status g = G_pending) f (gates db) = gates db"
    "count_where (\<lambda>g. g_id g = i \<and> g_status g = G_pending) (gates db) = 0"
    by (auto intro: update_where_none simp: count_where_def filter_empty_conv)
qed

text \<open>A gate is decided once. A resolution that succeeds found the gate pending and was one of the
  options; whatever races with it later, a timeout or another resolution, finds the gate decided,
  reports so and changes nothing.\<close>

theorem gate_decided_once:
  assumes keys: "distinct (map g_id (gates db))"
    and r: "resolveGateIfPending e i res db = Inr (Some g, db')"
  shows "(\<exists>g0. getGate db i = Some g0 \<and> g_status g0 = G_pending \<and> (g_options g0 \<noteq> [] \<longrightarrow> res \<in> set (g_options g0))) \<and>
    getGate db' i = Some g \<and> g_status g = G_resolved \<and> g_resolution g = Some res \<and>
    timeoutGate e' i db' = (Some g, db') \<and>
    ensures (\<lambda>x. x = (None, db')) (resolveGateIfPending e' i res' db')"
proof -
  let ?P = "\<lambda>g. g_id g = i \<and> g_status g = G_pending"
  define db1 where "db1 = db\<lparr>gates := update_where ?P (resolve_row e res) (gates db)\<rparr>"
  have keep: "keyed_table g_id (\<lambda>_::unit. resolve_row e res)" by unfold_locales (simp add: resolve_row_def)
  have look: "getGate db1 i = map_option (\<lambda>x. if ?P x then resolve_row e res x else x) (getGate db i)"
    using keyed_table.row_with_put [OF keep, of i ?P "gates db"] by (simp add: getGate_def db1_def)
  from r have checked: "(case getGate db i of None \<Rightarrow> Inr () | Some g \<Rightarrow> assertResolutionInOptions g res) = Inr ()"
    and c: "count_where ?P (gates db) \<noteq> 0" and g: "getGate db1 i = Some g"
    and "\<exists>x. updateTaskStatus e (g_task_id g) T_ready None db1 = Inr (x, db')"
    unfolding resolveGateIfPending_def Let_def db1_def [symmetric]
    by (auto simp: bindE_Inr_iff split: if_splits option.splits)
  then obtain x where u: "updateTaskStatus e (g_task_id g) T_ready None db1 = Inr (x, db')" by blast
  from g look obtain g0 where g0: "getGate db i = Some g0" by (cases "getGate db i") auto
  with checked have opt: "g_options g0 \<noteq> [] \<longrightarrow> res \<in> set (g_options g0)"
    by (simp add: assertResolutionInOptions_def guardE_Inr_iff)
  have pend: "g_status g0 = G_pending"
    using gate_write_same(2) [OF keys g0] c by blast
  have id: "g_id g0 = i" using g0 by (auto simp: getGate_def dest: row_with_SomeD)
  have gates': "gates db' = gates db1" by (rule update_gate_frames [OF u])
  have g': "getGate db' i = Some g" using g gates' by (simp add: getGate_def)
  have st: "g = resolve_row e res g0" using g g0 pend id by (simp add: look)
  have keys': "distinct (map g_id (gates db'))"
    using keys keyed_table.keys_put [OF keep, of ?P "gates db"] by (simp add: gates' db1_def)
  have nopend: "g_status g \<noteq> G_pending" by (simp add: st resolve_row_def)
  note same = gate_write_same [OF keys' g' nopend]
  have "timeoutGate e' i db' = (Some g, db')"
    using g' by (simp add: timeoutGate_def Let_def same(1))
  moreover have "ensures (\<lambda>x. x = (None, db')) (resolveGateIfPending e' i res' db')"
    unfolding resolveGateIfPending_def Let_def by (rule ensures_bind_any) (simp add: same)
  ultimately show ?thesis using g0 opt pend g' st by (simp add: resolve_row_def)
qed

definition gate_db :: odb where
  "gate_db = sample_db\<lparr>gates := [\<lparr>g_id = ''g1'', g_run_id = ''run'', g_task_id = ''t1'', g_question = ''which?'',
     g_options = [''a'', ''b''], g_status = G_pending, g_resolution = None,
     g_created_at = ''2026-01-01 00:00:00'', g_resolved_at = None\<rparr>]\<rparr>"

theorem gate_decided_once_witness:
  "\<exists>g db'. resolveGateIfPending sample_env ''g1'' ''a'' gate_db = Inr (Some g, db') \<and>
     g_resolution g = Some ''a'' \<and> timeoutGate sample_env ''g1'' db' = (Some g, db')"
proof -
  let ?m = "resolveGateIfPending sample_env ''g1'' ''a'' gate_db"
  have "(case ?m of Inl _ \<Rightarrow> False | Inr (g, _) \<Rightarrow> g \<noteq> None)" by code_simp
  then obtain g db' where m: "?m = Inr (Some g, db')" by (auto split: sum.splits)
  have keys: "distinct (map g_id (gates gate_db))" by (simp add: gate_db_def)
  from gate_decided_once [OF keys m] m show ?thesis by blast
qed

section \<open>Questions\<close>

lemma insert_message_some_run:
  assumes "insertMessage e m db = Inr (row, db')" and "mi_runId m = Some run" and "mi_id m = None"
  shows "\<exists>r. row = exposeMessageTimestamps r \<and> db' = db\<lparr>messages := messages db @ [r]\<rparr> \<and>
    m_id r = gen e ''msg'' \<and> getMessageRaw db (gen e ''msg'') = None"
  using assms unfolding insertMessage_def Let_def
  by (auto simp: bindE_Inr_iff insert_row_Inr_iff getMessageRaw_def)

lemma read_message:
  "getMessageRaw (markAsReadAndDelivered e is db) k =
     map_option (\<lambda>m. if m_id m \<in> set is then mark_read_delivered e m else m) (getMessageRaw db k)"
  unfolding getMessageRaw_def row_with_def markAsReadAndDelivered_def update_where_def
  by (simp add: find_map_keep mark_read_delivered_def)

lemma expose_to [simp]: "m_to_handle (exposeMessageTimestamps m) = m_to_handle m"
  "m_id (exposeMessageTimestamps m) = m_id m"
  by (simp_all add: exposeMessageTimestamps_def)

text \<open>What delivering an answer leaves for the next caller.\<close>

lemma write_answer_effect:
  assumes w: "write_answer e p q db = Inr (r, db')" and keys: "distinct (map q_message_id (questions db))"
    and q: "getQuestionRaw db (ap_messageId p) = Some q" "q_status q = Q_pending" and id: "gen e ''msg'' \<noteq> []"
  shows "\<exists>q' m. getQuestionRaw db' (ap_messageId p) = Some q' \<and> q_status q' = Q_answered \<and>
    q_run_id q' = q_run_id q \<and> q_message_id q' = q_message_id q \<and> q_answer_body q' = Some (ap_body p) \<and>
    q_answer_message_id q' = Some (gen e ''msg'') \<and> getMessageById db' (gen e ''msg'') = Some m \<and>
    runs db' = runs db \<and> dispatches db' = dispatches db \<and> an_duplicate r = False \<and>
    (\<forall>k. getMessageById db k \<noteq> None \<longrightarrow>
       map_option m_to_handle (getMessageById db' k) = map_option m_to_handle (getMessageById db k))"
proof -
  define i where "i = ap_messageId p"
  let ?P = "\<lambda>x. q_message_id x = q_message_id q \<and> q_status x = Q_pending"
  have qi: "q_message_id q = i" using q(1) by (auto simp: getQuestionRaw_def i_def dest: row_with_SomeD)
  from w obtain m db1 where
    1: "insertMessage e (answer_message p q) db = Inr (m, db1)"
    and db': "db' = (if getFederatedDispatch db1 (q_dispatch_id q) \<noteq> None
                then markAsReadAndDelivered e [m_id m] db1 else db1)\<lparr>questions :=
        update_where ?P (answer_row e p (m_id m)) (questions (if getFederatedDispatch db1 (q_dispatch_id q) \<noteq> None
                then markAsReadAndDelivered e [m_id m] db1 else db1))\<rparr>"
    and dup: "an_duplicate r = False"
    unfolding write_answer_def Let_def by (auto simp: bindE_Inr_iff)
  have "mi_runId (answer_message p q) = Some (ap_runId p)" "mi_id (answer_message p q) = None"
    by (simp_all add: answer_message_def blank_message_def)
  from insert_message_some_run [OF 1 this] obtain row where m: "m = exposeMessageTimestamps row"
    and db1: "db1 = db\<lparr>messages := messages db @ [row]\<rparr>" and row: "m_id row = gen e ''msg''"
      "getMessageRaw db (gen e ''msg'') = None" by blast
  define db2 where "db2 = (if getFederatedDispatch db1 (q_dispatch_id q) \<noteq> None
      then markAsReadAndDelivered e [m_id m] db1 else db1)"
  have f2: "questions db2 = questions db" "runs db2 = runs db" "dispatches db2 = dispatches db"
    by (simp_all add: db2_def db1 markAsReadAndDelivered_def)
  have db'2: "db' = db2\<lparr>questions := update_where ?P (answer_row e p (m_id m)) (questions db2)\<rparr>"
    by (simp add: db' db2_def)
  have "keyed_table q_message_id (\<lambda>_::unit. answer_row e p (m_id m))"
    by unfold_locales (simp add: answer_row_def)
  from keyed_table.row_with_put [OF this, of i ?P "questions db2"]
  have q': "getQuestionRaw db' i = Some (answer_row e p (m_id m) q)"
    using q qi by (simp add: getQuestionRaw_def db'2 f2 i_def)
  have msgs: "getMessageRaw db' k = (if getFederatedDispatch db1 (q_dispatch_id q) \<noteq> None
      then map_option (\<lambda>x. if m_id x \<in> set [m_id m] then mark_read_delivered e x else x) (getMessageRaw db1 k)
      else getMessageRaw db1 k)" for k
    by (simp add: db'2 db2_def getMessageRaw_def) (simp add: getMessageRaw_def [symmetric] read_message)
  have raw1: "getMessageRaw db1 k = (case getMessageRaw db k of None \<Rightarrow> if m_id row = k then Some row else None | Some x \<Rightarrow> Some x)" for k
    by (simp add: db1 getMessageRaw_def row_with_append split: option.split)
  have "getMessageById db' (gen e ''msg'') \<noteq> None"
    by (simp add: getMessageById_def msgs raw1 row)
  moreover have "map_option m_to_handle (getMessageById db' k) = map_option m_to_handle (getMessageById db k)"
    if "getMessageById db k \<noteq> None" for k
    using that by (auto simp: getMessageById_def msgs raw1 mark_read_delivered_def split: option.splits)
  ultimately show ?thesis
    using q' row dup by (auto simp: i_def [symmetric] answer_row_def m db'2 f2)
qed

text \<open>An answer is given once. After an answer was accepted, the same answer given again is reported
  as a duplicate with the stored message and changes nothing, and any other answer is refused.\<close>

theorem answer_given_once:
  assumes a: "answerQuestion e p db = Inr (r, db')" and keys: "distinct (map q_message_id (questions db))"
    and id: "gen e ''msg'' \<noteq> []"
  shows "(\<exists>r'. answerQuestion e' p db' = Inr (r', db') \<and> an_duplicate r') \<and>
    (body \<noteq> ap_body p \<longrightarrow> answerQuestion e' (p\<lparr>ap_body := body\<rparr>) db' = Inl (OErr Answer_conflict))"
proof -
  from a obtain q where
    consumer: "\<forall>g. ap_answerer p = By_consumer g \<longrightarrow> (\<exists>run. requireCurrentConsumer db (ap_runId p) g = Inr run)"
    and q: "getQuestionRaw db (ap_messageId p) = Some q" "q_run_id q = ap_runId p"
      "answerer_fence db (ap_answerer p) q"
    and how: "(q_status q = Q_answered \<and> q_answer_body q = Some (ap_body p) \<and> truthy (q_answer_message_id q) \<and>
        getMessageById db (the (q_answer_message_id q)) \<noteq> None \<and> db' = db) \<or>
      (q_status q = Q_pending \<and> write_answer e p q db = Inr (r, db'))"
    unfolding answerQuestion_def
    by (auto simp: bindE_Inr_iff split: option.splits if_splits question_status.splits answerer.splits)
  have "\<exists>q' m. getQuestionRaw db' (ap_messageId p) = Some q' \<and> q_run_id q' = ap_runId p \<and>
      q_status q' = Q_answered \<and> q_answer_body q' = Some (ap_body p) \<and> truthy (q_answer_message_id q') \<and>
      getMessageById db' (the (q_answer_message_id q')) = Some m \<and> answerer_fence db' (ap_answerer p) q' \<and>
      runs db' = runs db"
  proof (cases "q_status q")
    case Q_pending
    with how have w: "write_answer e p q db = Inr (r, db')" by simp
    from write_answer_effect [OF w keys q(1) Q_pending id] obtain q' m where
      e: "getQuestionRaw db' (ap_messageId p) = Some q'" "q_status q' = Q_answered" "q_run_id q' = q_run_id q"
        "q_message_id q' = q_message_id q" "q_answer_body q' = Some (ap_body p)"
        "q_answer_message_id q' = Some (gen e ''msg'')" "getMessageById db' (gen e ''msg'') = Some m"
        "runs db' = runs db" "dispatches db' = dispatches db"
        "\<forall>k. getMessageById db k \<noteq> None \<longrightarrow>
           map_option m_to_handle (getMessageById db' k) = map_option m_to_handle (getMessageById db k)"
      by blast
    have "answerer_fence db' (ap_answerer p) q'"
      using q(3) e(4,9,10) by (auto simp: answerer_fence_def getDispatchContextById_def split: answerer.splits)
    with e q(2) id show ?thesis by simp
  qed (use how q in auto)
  then obtain q' m where q': "getQuestionRaw db' (ap_messageId p) = Some q'" "q_run_id q' = ap_runId p"
      "q_status q' = Q_answered" "q_answer_body q' = Some (ap_body p)" "truthy (q_answer_message_id q')"
      "getMessageById db' (the (q_answer_message_id q')) = Some m" "answerer_fence db' (ap_answerer p) q'"
    and runs: "runs db' = runs db" by blast
  have consumer': "requireCurrentConsumer db' x g = requireCurrentConsumer db x g" for x g
    by (simp add: requireCurrentConsumer_def getRunRaw_def runs)
  show ?thesis
  proof (cases "ap_answerer p")
    case (By_consumer g)
    with consumer consumer' obtain run where "requireCurrentConsumer db' (ap_runId p) g = Inr run" by auto
    with By_consumer q' show ?thesis by (simp add: answerQuestion_def)
  next
    case (By_dispatch i g)
    with q' show ?thesis by (simp add: answerQuestion_def)
  qed
qed

definition question_db :: odb where
  "question_db = outcome (createQuestion sample_env \<lparr>qp_runId = ''run'', qp_dispatchId = ''d1'',
     qp_askerHandle = ''term_w'', qp_question = ''which?'', qp_options = [], qp_to = None\<rparr> sample_db)"

definition sample_answer :: answer_params where
  "sample_answer = \<lparr>ap_messageId = ''msg_1'', ap_runId = ''run'', ap_body = ''this one'', ap_captureSender = None,
     ap_answerer = By_consumer 1\<rparr>"

theorem answer_given_once_witness:
  "\<exists>db'. (\<exists>r. answerQuestion (numbered_env ''2'') sample_answer question_db = Inr (r, db')) \<and>
     answerQuestion sample_env (sample_answer\<lparr>ap_body := ''another''\<rparr>) db' = Inl (OErr Answer_conflict)"
proof -
  let ?m = "answerQuestion (numbered_env ''2'') sample_answer question_db"
  have "succeeded ?m" by code_simp
  from outcome_Inr [OF this] obtain r where m: "?m = Inr (r, outcome ?m)" ..
  have keys: "distinct (map q_message_id (questions question_db))" by code_simp
  have id: "gen (numbered_env ''2'') ''msg'' \<noteq> []" by (simp add: numbered_env_def)
  from answer_given_once [OF m keys id, of sample_env "''another''"] m show ?thesis
    by (auto simp: sample_answer_def)
qed

end
