(* ===== verification/Receipts_Correct.thy ===== *)
theory Receipts_Correct
  imports Threads_Correct
begin

text \<open>
  The mutation receipts: a request is admitted at most once, its receipt is returned to every later
  caller, and the ledger stays within its capacity without dropping a pending request.
\<close>

text \<open>C28. Admission keeps the ledger within its capacity and never drops a pending request: the rows
  left are at most one below the limit before the insert, every pending row is kept, and no row is
  invented.\<close>

theorem capacity_bounds:
  assumes "ensureMutationReceiptCapacity cutoff db = Inr db'"
  shows "length (receipts db') < mutation_receipt_max_rows \<and> set (receipts db') \<subseteq> set (receipts db) \<and>
    (\<forall>r\<in>set (receipts db). mr_state r = Mut_pending \<and>
       (\<forall>x\<in>set (receipts db). mr_key x = mr_key r \<longrightarrow> x = r) \<longrightarrow> r \<in> set (receipts db'))"
proof -
  define kept where "kept = filter (\<lambda>r. \<not> (mr_state r = Mut_completed \<and> mr_updated_at r < cutoff)) (receipts db)"
  define n where "n = length kept - mutation_receipt_max_rows + mutation_receipt_prune_batch_size"
  define rows where "rows = (if mutation_receipt_max_rows \<le> length kept then prune_receipts n kept else kept)"
  from assms have db': "db' = db\<lparr>receipts := rows\<rparr>" and len: "length rows < mutation_receipt_max_rows"
    unfolding ensureMutationReceiptCapacity_def Let_def kept_def [symmetric] n_def [symmetric] rows_def [symmetric]
    by (auto split: if_splits)
  have sub: "set rows \<subseteq> set kept" by (auto simp: rows_def prune_receipts_def)
  have pend: "r \<in> set rows" if r: "r \<in> set (receipts db)" "mr_state r = Mut_pending"
    and uniq: "\<forall>x\<in>set (receipts db). mr_key x = mr_key r \<longrightarrow> x = r" for r
  proof -
    from r have k: "r \<in> set kept" by (simp add: kept_def)
    have "mr_key r \<notin> mr_key ` set (oldest_completed n kept)"
    proof
      assume "mr_key r \<in> mr_key ` set (oldest_completed n kept)"
      then obtain x where x: "x \<in> set (oldest_completed n kept)" "mr_key x = mr_key r" by force
      then have "x \<in> set kept" "mr_state x = Mut_completed"
        by (auto simp: oldest_completed_def dest!: in_set_takeD)
      with uniq x(2) r(2) show False by (auto simp: kept_def)
    qed
    with k show ?thesis by (simp add: rows_def prune_receipts_def)
  qed
  show ?thesis using len sub pend by (auto simp: db' kept_def)
qed

definition sample_receipt :: "string \<Rightarrow> mutation_state \<Rightarrow> mutation_receipt_row" where
  "sample_receipt i s = \<lparr>mr_caller_fingerprint = ''caller'', mr_request_id = i, mr_method = ''task.create'',
     mr_payload_hash = ''hash'', mr_state = s, mr_receipt = None, mr_created_at = ''2026-01-01 00:00:00'',
     mr_updated_at = ''2026-01-01 00:00:00''\<rparr>"

definition receipt_db :: odb where
  "receipt_db = sample_db\<lparr>receipts := [sample_receipt ''r1'' Mut_pending, sample_receipt ''r2'' Mut_completed]\<rparr>"

theorem capacity_bounds_witness:
  "\<exists>db'. ensureMutationReceiptCapacity ''2026-02'' receipt_db = Inr db' \<and>
     sample_receipt ''r1'' Mut_pending \<in> set (receipts db')"
proof -
  have "(case ensureMutationReceiptCapacity ''2026-02'' receipt_db of Inl _ \<Rightarrow> False | Inr _ \<Rightarrow> True)"
    by code_simp
  then obtain db' where m: "ensureMutationReceiptCapacity ''2026-02'' receipt_db = Inr db'"
    by (auto split: sum.splits)
  from capacity_bounds [OF m] m show ?thesis
    by (auto simp: receipt_db_def sample_receipt_def mr_key_def)
qed

lemma prune_length:
  assumes "distinct (map mr_key rows)"
  shows "length (prune_receipts n rows) =
    length rows - min n (length (filter (\<lambda>r. mr_state r = Mut_completed) rows))"
proof -
  let ?oc = "oldest_completed n rows"
  have d: "distinct rows" using assms by (simp add: distinct_map)
  have sub: "set ?oc \<subseteq> set rows" by (auto simp: oldest_completed_def dest: in_set_takeD)
  have doc: "distinct ?oc" using d by (simp add: oldest_completed_def)
  have eq: "filter (\<lambda>r. mr_key r \<in> mr_key ` set ?oc) rows = filter (\<lambda>r. r \<in> set ?oc) rows"
    using assms sub by (intro filter_cong) (auto simp: distinct_map inj_on_def)
  have "set (filter (\<lambda>r. r \<in> set ?oc) rows) = set ?oc" using sub by auto
  then have "length (filter (\<lambda>r. mr_key r \<in> mr_key ` set ?oc) rows) = length ?oc"
    using d doc unfolding eq by (metis distinct_card distinct_filter)
  moreover have "length (prune_receipts n rows) + length (filter (\<lambda>r. mr_key r \<in> mr_key ` set ?oc) rows) = length rows"
    using sum_length_filter_compl [of "\<lambda>r. mr_key r \<in> mr_key ` set ?oc" rows] by (simp add: prune_receipts_def)
  moreover have "length ?oc = min n (length (filter (\<lambda>r. mr_state r = Mut_completed) rows))"
    by (simp add: oldest_completed_def)
  ultimately show ?thesis by simp
qed

text \<open>A request is refused for lack of space only when the whole ledger is pending requests: a
  completed receipt never blocks a new one.\<close>

theorem refused_only_when_all_pending:
  assumes keys: "distinct (map mr_key (receipts db))"
    and full: "ensureMutationReceiptCapacity cutoff db = Inl err"
  shows "err = OErr Mutation_ledger_full \<and>
    mutation_receipt_max_rows \<le> length (filter (\<lambda>r. mr_state r = Mut_pending) (receipts db))"
proof -
  define kept where "kept = filter (\<lambda>r. \<not> (mr_state r = Mut_completed \<and> mr_updated_at r < cutoff)) (receipts db)"
  define n where "n = length kept - mutation_receipt_max_rows + mutation_receipt_prune_batch_size"
  let ?c = "length (filter (\<lambda>r. mr_state r = Mut_completed) kept)"
  from full have err: "err = OErr Mutation_ledger_full" and
    len: "mutation_receipt_max_rows \<le> length (if mutation_receipt_max_rows \<le> length kept
      then prune_receipts n kept else kept)"
    unfolding ensureMutationReceiptCapacity_def Let_def kept_def [symmetric] n_def [symmetric]
    by (auto split: if_splits)
  have dk: "distinct (map mr_key kept)" using keys by (auto simp: kept_def distinct_map_filter)
  have big: "mutation_receipt_max_rows \<le> length kept - min n ?c" "mutation_receipt_max_rows \<le> length kept"
    using len prune_length [OF dk, of n] by (auto split: if_splits)
  have "?c < n"
  proof (rule ccontr)
    assume "\<not> ?c < n"
    with big show False
      by (simp add: n_def min_def mutation_receipt_prune_batch_size_def mutation_receipt_max_rows_def)
  qed
  with big have "mutation_receipt_max_rows \<le> length kept - ?c" by simp
  also have "length kept - ?c = length (filter (\<lambda>r. mr_state r \<noteq> Mut_completed) kept)"
    using sum_length_filter_compl [of "\<lambda>r. mr_state r = Mut_completed" kept] by simp
  also have "filter (\<lambda>r. mr_state r \<noteq> Mut_completed) kept = filter (\<lambda>r. mr_state r = Mut_pending) (receipts db)"
  proof -
    have "(mr_state r \<noteq> Mut_completed) = (mr_state r = Mut_pending)" for r :: mutation_receipt_row
      by (cases "mr_state r") simp_all
    then show ?thesis by (auto simp: kept_def intro: filter_cong)
  qed
  finally show ?thesis using err by simp
qed

definition full_db :: odb where
  "full_db = sample_db\<lparr>receipts :=
     map (\<lambda>n. sample_receipt (replicate n (CHR ''a'')) Mut_pending) [0..<mutation_receipt_max_rows]\<rparr>"

theorem refused_only_when_all_pending_witness:
  "ensureMutationReceiptCapacity ''2025'' full_db = Inl (OErr Mutation_ledger_full) \<and>
   mutation_receipt_max_rows \<le> length (filter (\<lambda>r. mr_state r = Mut_pending) (receipts full_db))"
proof -
  have keys: "distinct (map mr_key (receipts full_db))"
    by (simp add: full_db_def sample_receipt_def mr_key_def comp_def distinct_map inj_on_def)
  have none: "filter (\<lambda>r. mr_state r = Mut_completed) (receipts full_db) = []"
    by (auto simp: full_db_def sample_receipt_def filter_empty_conv)
  have all: "filter (\<lambda>r. \<not> (mr_state r = Mut_completed \<and> mr_updated_at r < ''2025'')) (receipts full_db) = receipts full_db"
    using none by (auto simp: filter_id_conv filter_empty_conv)
  have len: "length (receipts full_db) = mutation_receipt_max_rows" by (simp add: full_db_def)
  have prune: "prune_receipts n (receipts full_db) = receipts full_db" for n
    unfolding prune_receipts_def oldest_completed_def none by simp
  have full: "ensureMutationReceiptCapacity ''2025'' full_db = Inl (OErr Mutation_ledger_full)"
    unfolding ensureMutationReceiptCapacity_def Let_def all prune by (simp add: len)
  show ?thesis using refused_only_when_all_pending [OF keys full] full by simp
qed


definition sample_request :: receipt_params where
  "sample_request = \<lparr>rp_caller = ''caller'', rp_request = ''r3'', rp_method = ''task.create'', rp_payloadHash = ''hash''\<rparr>"


end
