(* ===== verification/Layout_Trees.thy ===== *)
theory Layout_Trees
  imports Texts Complex_Main
begin

text \<open>
  The two trees of a workspace layout, with the same shape: tab groups
  (\<open>TabGroupLayoutNode\<close>, \<open>tab-group-layout-tree.ts\<close>, \<open>tab-group-moves.ts\<close>) and the
  panes of a terminal tab (\<open>TerminalPaneLayoutNode\<close>, \<open>terminal-pane-tree.ts\<close>). A leaf holds a
  group id or a pane id. A ratio is the rational its decimal denotes; rounding inside a double is not
  modelled. Every edit is specified on \<open>node_ids\<close>, the leaves from left to right.
\<close>

named_theorems node_simps \<open>what a tree edit does to the leaves in order\<close>

datatype split_direction = Horizontal | Vertical

datatype layout_node =
    Leaf_node string
  | Split_node split_direction layout_node layout_node "rat option"

type_synonym tab_group_node = layout_node
type_synonym pane_node = layout_node

section \<open>Leaves in order\<close>

fun node_ids :: "layout_node \<Rightarrow> string list" where
  "node_ids (Leaf_node i) = [i]"
| "node_ids (Split_node d a b r) = node_ids a @ node_ids b"

definition groupTreeIds :: "tab_group_node option \<Rightarrow> string list" where
  "groupTreeIds n = (case n of None \<Rightarrow> [] | Some t \<Rightarrow> node_ids t)"

definition collectLayoutLeafIdsInOrder :: "pane_node option \<Rightarrow> string list" where
  "collectLayoutLeafIdsInOrder n = (case n of None \<Rightarrow> [] | Some t \<Rightarrow> node_ids t)"

lemma leaf_ids_simps [simp]:
  "groupTreeIds None = []" "groupTreeIds (Some t) = node_ids t"
  "collectLayoutLeafIdsInOrder None = []" "collectLayoutLeafIdsInOrder (Some t) = node_ids t"
  by (simp_all add: groupTreeIds_def collectLayoutLeafIdsInOrder_def)

lemma node_ids_not_Nil [simp]: "node_ids t \<noteq> []"
  by (induction t) auto

text \<open>The id of the leftmost leaf (\<open>findFirstLeaf\<close>, \<open>leadingId\<close>, \<open>firstLayoutLeafId\<close>).\<close>

fun findFirstLeaf :: "tab_group_node \<Rightarrow> string" where
  "findFirstLeaf (Leaf_node i) = i"
| "findFirstLeaf (Split_node d a b r) = findFirstLeaf a"

definition firstLayoutLeafId :: "pane_node option \<Rightarrow> string option" where
  "firstLayoutLeafId n = map_option findFirstLeaf n"

lemma findFirstLeaf_hd: "findFirstLeaf t = hd (node_ids t)"
  by (induction t) (simp_all add: hd_append)

fun holdsGroup :: "tab_group_node \<Rightarrow> string \<Rightarrow> bool" where
  "holdsGroup (Leaf_node i) x = (i = x)"
| "holdsGroup (Split_node d a b r) x = (holdsGroup a x \<or> holdsGroup b x)"

lemma holdsGroup_iff [node_simps]: "holdsGroup t x \<longleftrightarrow> x \<in> set (node_ids t)"
  by (induction t) auto

fun node_contains :: "pane_node \<Rightarrow> string \<Rightarrow> bool" where
  "node_contains (Leaf_node i) x = (i = x)"
| "node_contains (Split_node d a b r) x = (node_contains a x \<or> node_contains b x)"

definition layoutContainsLeafId :: "pane_node option \<Rightarrow> string \<Rightarrow> bool" where
  "layoutContainsLeafId n x = (case n of None \<Rightarrow> False | Some t \<Rightarrow> node_contains t x)"

lemma node_contains_iff [node_simps]: "node_contains t x \<longleftrightarrow> x \<in> set (node_ids t)"
  by (induction t) auto

lemma layoutContainsLeafId_iff [node_simps]:
  "layoutContainsLeafId n x \<longleftrightarrow> x \<in> set (collectLayoutLeafIdsInOrder n)"
  by (cases n) (simp_all add: layoutContainsLeafId_def node_contains_iff)

section \<open>Replacing and inserting\<close>

datatype split_position = First_position | Second_position

definition buildSplitNode :: "string \<Rightarrow> string \<Rightarrow> split_direction \<Rightarrow> split_position \<Rightarrow> tab_group_node" where
  "buildSplitNode existing new dir pos =
     Split_node dir
       (if pos = First_position then Leaf_node new else Leaf_node existing)
       (if pos = Second_position then Leaf_node new else Leaf_node existing)
       (Some (1 / 2))"

fun replaceLeaf :: "tab_group_node \<Rightarrow> string \<Rightarrow> tab_group_node \<Rightarrow> tab_group_node" where
  "replaceLeaf (Leaf_node i) x t = (if i = x then t else Leaf_node i)"
| "replaceLeaf (Split_node d a b r) x t = Split_node d (replaceLeaf a x t) (replaceLeaf b x t) r"

lemma node_ids_replaceLeaf [node_simps]:
  "node_ids (replaceLeaf t x u) = concat (map (\<lambda>i. if i = x then node_ids u else [i]) (node_ids t))"
  by (induction t) auto

lemma set_replaceLeaf [node_simps]:
  "set (node_ids (replaceLeaf t x u)) =
     (if x \<in> set (node_ids t) then set (node_ids t) - {x} \<union> set (node_ids u) else set (node_ids t))"
  by (induction t) auto

lemma distinct_replaceLeaf:
  "distinct (node_ids t) \<Longrightarrow> distinct (node_ids u) \<Longrightarrow> set (node_ids u) \<inter> (set (node_ids t) - {x}) = {} \<Longrightarrow>
     distinct (node_ids (replaceLeaf t x u))"
  by (induction t) (auto simp: set_replaceLeaf)

lemma node_ids_buildSplitNode [node_simps]:
  "node_ids (buildSplitNode a b d p) = (case p of First_position \<Rightarrow> [b, a] | Second_position \<Rightarrow> [a, b])"
  by (cases p) (simp_all add: buildSplitNode_def)

datatype pane_side = Pane_left | Pane_right | Pane_top | Pane_bottom

fun insertLeafBeside :: "pane_node \<Rightarrow> string \<Rightarrow> string \<Rightarrow> pane_side \<Rightarrow> rat option \<Rightarrow> pane_node" where
  "insertLeafBeside (Leaf_node i) target new side ratio =
     (if i \<noteq> target then Leaf_node i
      else let added = Leaf_node new;
               before = (side = Pane_left \<or> side = Pane_top)
           in Split_node (if side = Pane_left \<or> side = Pane_right then Vertical else Horizontal)
                (if before then added else Leaf_node i) (if before then Leaf_node i else added) ratio)"
| "insertLeafBeside (Split_node d a b r) target new side ratio =
     Split_node d (insertLeafBeside a target new side ratio) (insertLeafBeside b target new side ratio) r"

definition pane_before :: "pane_side \<Rightarrow> bool" where
  "pane_before side = (side = Pane_left \<or> side = Pane_top)"

lemma node_ids_insertLeafBeside [node_simps]:
  "node_ids (insertLeafBeside t x y side r) =
     concat (map (\<lambda>i. if i = x then (if pane_before side then [y, i] else [i, y]) else [i]) (node_ids t))"
  by (induction t) (auto simp: Let_def pane_before_def)

lemma set_insertLeafBeside [node_simps]:
  "set (node_ids (insertLeafBeside t x y side r)) =
     (if x \<in> set (node_ids t) then insert y (set (node_ids t)) else set (node_ids t))"
  by (induction t) (auto simp: Let_def)

lemma distinct_insertLeafBeside:
  "distinct (node_ids t) \<Longrightarrow> y \<notin> set (node_ids t) \<Longrightarrow> distinct (node_ids (insertLeafBeside t x y side r))"
  by (induction t) (auto simp: set_insertLeafBeside Let_def)

section \<open>Removing\<close>

fun removeLayoutLeaf :: "pane_node \<Rightarrow> string \<Rightarrow> pane_node option" where
  "removeLayoutLeaf (Leaf_node i) x = (if i = x then None else Some (Leaf_node i))"
| "removeLayoutLeaf (Split_node d a b r) x =
     (case (removeLayoutLeaf a x, removeLayoutLeaf b x) of
        (None, second) \<Rightarrow> second
      | (Some first, None) \<Rightarrow> Some first
      | (Some first, Some second) \<Rightarrow> Some (Split_node d first second r))"

fun removeTabGroupLayoutLeaf :: "tab_group_node \<Rightarrow> string \<Rightarrow> tab_group_node option" where
  "removeTabGroupLayoutLeaf (Leaf_node i) x = (if i = x then None else Some (Leaf_node i))"
| "removeTabGroupLayoutLeaf (Split_node d a b r) x =
     (case removeTabGroupLayoutLeaf a x of
        None \<Rightarrow> removeTabGroupLayoutLeaf b x
      | Some first \<Rightarrow>
          (case removeTabGroupLayoutLeaf b x of
             None \<Rightarrow> Some first
           | Some second \<Rightarrow> Some (Split_node d first second r)))"

fun removeGroupLayoutLeaf :: "tab_group_node \<Rightarrow> string \<Rightarrow> tab_group_node option" where
  "removeGroupLayoutLeaf (Leaf_node i) x = (if i = x then None else Some (Leaf_node i))"
| "removeGroupLayoutLeaf (Split_node d a b r) x =
     (if a = Leaf_node x then Some b
      else if b = Leaf_node x then Some a
      else case (removeGroupLayoutLeaf a x, removeGroupLayoutLeaf b x) of
        (None, second) \<Rightarrow> second
      | (Some first, None) \<Rightarrow> Some first
      | (Some first, Some second) \<Rightarrow> Some (Split_node d first second r))"

lemma removeLayoutLeaf_ids [node_simps]:
  "collectLayoutLeafIdsInOrder (removeLayoutLeaf t x) = filter (\<lambda>i. i \<noteq> x) (node_ids t)"
  by (induction t) (auto simp: collectLayoutLeafIdsInOrder_def split: option.splits)

lemma removeTabGroupLayoutLeaf_eq: "removeTabGroupLayoutLeaf t x = removeLayoutLeaf t x"
  by (induction t) (auto split: option.splits)

lemma removeLayoutLeaf_absent: "x \<notin> set (node_ids t) \<Longrightarrow> removeLayoutLeaf t x = Some t"
  by (induction t) auto

text \<open>The renderer's removal stops at a direct child; on a tree without repeated ids it is the other one.\<close>

lemma removeGroupLayoutLeaf_eq:
  "distinct (node_ids t) \<Longrightarrow> removeGroupLayoutLeaf t x = removeTabGroupLayoutLeaf t x"
  by (induction t) (auto simp: removeTabGroupLayoutLeaf_eq removeLayoutLeaf_absent split: option.splits)

lemma removeGroupLayoutLeaf_ids:
  "distinct (node_ids t) \<Longrightarrow> groupTreeIds (removeGroupLayoutLeaf t x) = filter (\<lambda>i. i \<noteq> x) (node_ids t)"
  using removeLayoutLeaf_ids [of t x]
  by (simp add: removeGroupLayoutLeaf_eq removeTabGroupLayoutLeaf_eq groupTreeIds_def collectLayoutLeafIdsInOrder_def)

lemma removeTabGroupLayoutLeaf_ids [node_simps]:
  "groupTreeIds (removeTabGroupLayoutLeaf t x) = filter (\<lambda>i. i \<noteq> x) (node_ids t)"
  using removeLayoutLeaf_ids [of t x]
  by (simp add: removeTabGroupLayoutLeaf_eq groupTreeIds_def collectLayoutLeafIdsInOrder_def)

lemma groupTreeIds_Nil [simp]: "groupTreeIds n = [] \<longleftrightarrow> n = None"
  by (cases n) simp_all

lemma collect_Nil [simp]: "collectLayoutLeafIdsInOrder n = [] \<longleftrightarrow> n = None"
  by (cases n) simp_all

fun findSiblingGroupId :: "tab_group_node \<Rightarrow> string \<Rightarrow> string option" where
  "findSiblingGroupId (Leaf_node i) x = None"
| "findSiblingGroupId (Split_node d a b r) x =
     (if a = Leaf_node x then Some (findFirstLeaf b)
      else if b = Leaf_node x then Some (findFirstLeaf a)
      else orElse (findSiblingGroupId a x) (findSiblingGroupId b x))"

lemma findSiblingGroupId_in:
  "findSiblingGroupId t x = Some y \<Longrightarrow> distinct (node_ids t) \<Longrightarrow> y \<in> set (node_ids t) \<and> y \<noteq> x \<and> x \<in> set (node_ids t)"
proof (induction t)
  case (Leaf_node i)
  then show ?case by simp
next
  case (Split_node d a b r)
  have hd_in: "findFirstLeaf u \<in> set (node_ids u)" for u by (simp add: findFirstLeaf_hd)
  show ?case
  proof (cases "findSiblingGroupId a x")
    case None
    with Split_node hd_in [of a] hd_in [of b] show ?thesis by (auto split: if_splits)
  next
    case (Some z)
    with Split_node hd_in [of a] hd_in [of b] show ?thesis by (auto split: if_splits)
  qed
qed

text \<open>Every group but the only one has a neighbour that takes the selection when it closes.\<close>

lemma findSiblingGroupId_total:
  "x \<in> set (node_ids t) \<Longrightarrow> t \<noteq> Leaf_node x \<Longrightarrow> \<exists>y. findSiblingGroupId t x = Some y"
proof (induction t)
  case (Leaf_node i)
  then show ?case by simp
next
  case (Split_node d a b r)
  then show ?case by (cases "findSiblingGroupId a x") auto
qed

definition collapseGroupLayout ::
  "(string \<times> tab_group_node) list \<Rightarrow> (string \<Rightarrow> string option) \<Rightarrow> string \<Rightarrow> string \<Rightarrow> string option \<Rightarrow>
   (string \<times> tab_group_node) list \<times> (string \<Rightarrow> string option)" where
  "collapseGroupLayout layouts active worktreeId groupId fallback =
     (case map_of layouts worktreeId of
        None \<Rightarrow> (layouts, active)
      | Some current \<Rightarrow>
          let sibling = findSiblingGroupId current groupId in
          (case removeGroupLayoutLeaf current groupId of
             Some collapsed \<Rightarrow> map (\<lambda>(k, t). if k = worktreeId then (k, collapsed) else (k, t)) layouts
           | None \<Rightarrow> filter (\<lambda>(k, t). k \<noteq> worktreeId) layouts,
           active(worktreeId := orElse sibling (orElse fallback (active worktreeId)))))"

section \<open>Moving a group beside another\<close>

datatype group_side = Side_left | Side_right | Side_up | Side_down

definition side_direction :: "group_side \<Rightarrow> split_direction" where
  "side_direction side = (if side = Side_left \<or> side = Side_right then Horizontal else Vertical)"

definition side_first :: "group_side \<Rightarrow> bool" where
  "side_first side = (side = Side_left \<or> side = Side_up)"

definition moveGroupLeafBeside :: "tab_group_node \<Rightarrow> string \<Rightarrow> string \<Rightarrow> group_side \<Rightarrow> tab_group_node" where
  "moveGroupLeafBeside tree groupId beside side =
     (let rest = (case removeGroupLayoutLeaf tree groupId of None \<Rightarrow> Leaf_node beside | Some t \<Rightarrow> t);
          position = (if side_first side then First_position else Second_position)
      in replaceLeaf rest beside (buildSplitNode beside groupId (side_direction side) position))"

fun besideBranch :: "split_direction \<Rightarrow> bool \<Rightarrow> string \<Rightarrow> string \<Rightarrow> string \<Rightarrow> tab_group_node \<Rightarrow> tab_group_node option" where
  "besideBranch dir leafFirst groupId fromId toId node =
     (if \<not> holdsGroup node fromId \<or> \<not> holdsGroup node toId then None
      else let leaf = Leaf_node groupId;
               here = Split_node dir (if leafFirst then leaf else node) (if leafFirst then node else leaf) (Some (1 / 2))
           in case node of
                Leaf_node i \<Rightarrow> Some here
              | Split_node d a b r \<Rightarrow>
                  (case besideBranch dir leafFirst groupId fromId toId a of
                     Some first \<Rightarrow> Some (Split_node d first b r)
                   | None \<Rightarrow>
                       (case besideBranch dir leafFirst groupId fromId toId b of
                          Some second \<Rightarrow> Some (Split_node d a second r)
                        | None \<Rightarrow> Some here)))"

declare besideBranch.simps [simp del]

definition moveGroupLeafBesideBranch ::
  "tab_group_node \<Rightarrow> string \<Rightarrow> string \<Rightarrow> string \<Rightarrow> group_side \<Rightarrow> tab_group_node option" where
  "moveGroupLeafBesideBranch tree groupId fromId toId side =
     (case removeGroupLayoutLeaf tree groupId of
        None \<Rightarrow> None
      | Some rest \<Rightarrow> besideBranch (side_direction side) (side_first side) groupId fromId toId rest)"

lemma besideBranch_total:
  "besideBranch d f g x y t \<noteq> None \<longleftrightarrow> x \<in> set (node_ids t) \<and> y \<in> set (node_ids t)"
  by (subst besideBranch.simps)
    (auto simp: holdsGroup_iff Let_def split: layout_node.splits option.splits)

lemma beside_here_ids:
  "\<exists>xs ys. node_ids t = xs @ ys \<and>
     node_ids (Split_node d (if f then Leaf_node g else t) (if f then t else Leaf_node g) r) = xs @ g # ys"
proof (cases f)
  case True
  then show ?thesis by (intro exI [of _ "[]"] exI [of _ "node_ids t"]) simp
next
  case False
  then show ?thesis by (intro exI [of _ "node_ids t"] exI [of _ "[]"]) simp
qed

lemma besideBranch_ids:
  "besideBranch d f g x y t = Some u \<Longrightarrow> \<exists>xs ys. node_ids t = xs @ ys \<and> node_ids u = xs @ g # ys"
proof (induction t arbitrary: u)
  case (Leaf_node i)
  then have "u = Split_node d (if f then Leaf_node g else Leaf_node i) (if f then Leaf_node i else Leaf_node g) (Some (1 / 2))"
    by (subst (asm) besideBranch.simps) (auto simp: Let_def split: if_splits)
  with beside_here_ids [of "Leaf_node i" d f g] show ?case by simp
next
  case (Split_node d' a b r)
  let ?t = "Split_node d' a b r"
  let ?here = "Split_node d (if f then Leaf_node g else ?t) (if f then ?t else Leaf_node g) (Some (1 / 2))"
  from Split_node.prems consider
      (first) v where "besideBranch d f g x y a = Some v" "u = Split_node d' v b r"
    | (second) v where "besideBranch d f g x y b = Some v" "u = Split_node d' a v r"
    | (here) "u = ?here"
    by (subst (asm) besideBranch.simps) (auto simp: Let_def split: if_splits option.splits)
  then show ?case
  proof cases
    case first
    from Split_node.IH(1) [OF first(1)] obtain xs ys where "node_ids a = xs @ ys" "node_ids v = xs @ g # ys" by auto
    then have "node_ids ?t = xs @ (ys @ node_ids b) \<and> node_ids u = xs @ g # (ys @ node_ids b)" using first(2) by simp
    then show ?thesis by blast
  next
    case second
    from Split_node.IH(2) [OF second(1)] obtain xs ys where "node_ids b = xs @ ys" "node_ids v = xs @ g # ys" by auto
    then have "node_ids ?t = (node_ids a @ xs) @ ys \<and> node_ids u = (node_ids a @ xs) @ g # ys" using second(2) by simp
    then show ?thesis by blast
  next
    case here
    with beside_here_ids [of ?t d f g] show ?thesis by simp
  qed
qed

end
