(* ===== verification/Layout_Ratios.thy ===== *)
theory Layout_Ratios
  imports Layout_Trees
begin

text \<open>
  Divider ratios (\<open>split-ratio-intents.ts\<close>, \<open>updateSplitRatio\<close>, \<open>equalizeLayout\<close>). A window names
  a divider by its path and by the first leaf on each side; main applies the ratio to that split of its
  own tree or refuses. A path is the text on the wire, its segments joined by dots.
\<close>

section \<open>Shapes\<close>

fun sameGroupsIgnoringRatios :: "tab_group_node \<Rightarrow> tab_group_node \<Rightarrow> bool" where
  "sameGroupsIgnoringRatios (Split_node d a b r) (Split_node d' a' b' r') =
     (d = d' \<and> sameGroupsIgnoringRatios a a' \<and> sameGroupsIgnoringRatios b b')"
| "sameGroupsIgnoringRatios (Leaf_node i) (Leaf_node j) = (i = j)"
| "sameGroupsIgnoringRatios _ _ = False"

fun samePanesIgnoringRatios :: "pane_node \<Rightarrow> pane_node \<Rightarrow> bool" where
  "samePanesIgnoringRatios (Split_node d a b r) (Split_node d' a' b' r') =
     (d = d' \<and> samePanesIgnoringRatios a a' \<and> samePanesIgnoringRatios b b')"
| "samePanesIgnoringRatios (Leaf_node i) (Leaf_node j) = (i = j)"
| "samePanesIgnoringRatios _ _ = False"

lemma samePanes_eq: "samePanesIgnoringRatios t u = sameGroupsIgnoringRatios t u"
  by (induction t u rule: samePanesIgnoringRatios.induct) simp_all

lemma same_node_ids: "sameGroupsIgnoringRatios t u \<Longrightarrow> node_ids u = node_ids t"
  by (induction t u rule: sameGroupsIgnoringRatios.induct) auto

lemma same_first: "sameGroupsIgnoringRatios t u \<Longrightarrow> findFirstLeaf u = findFirstLeaf t"
  by (simp add: findFirstLeaf_hd same_node_ids)

lemma same_refl [simp]: "sameGroupsIgnoringRatios t t"
  by (induction t) simp_all

lemma same_Leaf [simp]:
  "sameGroupsIgnoringRatios (Leaf_node i) t \<longleftrightarrow> t = Leaf_node i"
  "sameGroupsIgnoringRatios t (Leaf_node i) \<longleftrightarrow> t = Leaf_node i"
  by (cases t; auto)+

lemma same_trans:
  "sameGroupsIgnoringRatios t u \<Longrightarrow> sameGroupsIgnoringRatios u v \<Longrightarrow> sameGroupsIgnoringRatios t v"
proof (induction t u arbitrary: v rule: sameGroupsIgnoringRatios.induct)
  case (1 d a b r d' a' b' r')
  then show ?case by (cases v) auto
qed auto

section \<open>Paths and split identities\<close>

definition segmentsOf :: "string \<Rightarrow> string list" where
  "segmentsOf path = (if path \<noteq> [] then split_on CHR ''.'' path else [])"

definition childPath :: "string \<Rightarrow> string \<Rightarrow> string" where
  "childPath path segment = (if path \<noteq> [] then path @ CHR ''.'' # segment else segment)"

lemma segmentsOf_childPath:
  "s \<noteq> [] \<Longrightarrow> CHR ''.'' \<notin> set s \<Longrightarrow> segmentsOf (childPath p s) = segmentsOf p @ [s]"
  by (simp add: segmentsOf_def childPath_def split_on_append split_on_single)

lemma segmentsOf_Nil [simp]: "segmentsOf [] = []"
  by (simp add: segmentsOf_def)

record split_identity =
  si_direction :: split_direction
  si_first :: string
  si_second :: string

record split_ratio_intent =
  sri_path :: string
  sri_ratio :: rat
  sri_split :: "split_identity option"

definition identityOf :: "split_direction \<Rightarrow> layout_node \<Rightarrow> layout_node \<Rightarrow> split_identity" where
  "identityOf d a b = \<lparr>si_direction = d, si_first = findFirstLeaf a, si_second = findFirstLeaf b\<rparr>"

definition isSplitMeant :: "split_direction \<Rightarrow> layout_node \<Rightarrow> layout_node \<Rightarrow> split_identity option \<Rightarrow> bool" where
  "isSplitMeant d a b meant = (case meant of None \<Rightarrow> True | Some m \<Rightarrow> identityOf d a b = m)"

definition effective_ratio :: "rat option \<Rightarrow> rat" where
  "effective_ratio r = (case r of None \<Rightarrow> 1 / 2 | Some x \<Rightarrow> x)"

fun changedSplitRatios :: "layout_node \<Rightarrow> layout_node \<Rightarrow> string \<Rightarrow> split_ratio_intent list" where
  "changedSplitRatios (Split_node d a b r) (Split_node d' a' b' r') path =
     (let ratio = effective_ratio r' in
      (if effective_ratio r \<noteq> ratio
       then [\<lparr>sri_path = path, sri_ratio = ratio, sri_split = Some (identityOf d' a' b')\<rparr>] else [])
      @ changedSplitRatios a a' (childPath path ''first'')
      @ changedSplitRatios b b' (childPath path ''second''))"
| "changedSplitRatios _ _ path = []"

fun allSplitRatios :: "layout_node \<Rightarrow> string \<Rightarrow> split_ratio_intent list" where
  "allSplitRatios (Leaf_node i) path = []"
| "allSplitRatios (Split_node d a b r) path =
     \<lparr>sri_path = path, sri_ratio = effective_ratio r, sri_split = Some (identityOf d a b)\<rparr>
     # allSplitRatios a (childPath path ''first'') @ allSplitRatios b (childPath path ''second'')"

fun split_at_path :: "layout_node \<Rightarrow> string list \<Rightarrow> layout_node option" where
  "split_at_path t [] = Some t"
| "split_at_path (Leaf_node i) (s # ss) = None"
| "split_at_path (Split_node d a b r) (s # ss) =
     (if s = ''first'' then split_at_path a ss else if s = ''second'' then split_at_path b ss else None)"

definition splitRatioIntentAt :: "layout_node \<Rightarrow> string \<Rightarrow> rat \<Rightarrow> split_ratio_intent option" where
  "splitRatioIntentAt tree path ratio =
     (case split_at_path tree (segmentsOf path) of
        Some (Split_node d a b r) \<Rightarrow> Some \<lparr>sri_path = path, sri_ratio = ratio, sri_split = Some (identityOf d a b)\<rparr>
      | _ \<Rightarrow> None)"

section \<open>Applying intents\<close>

definition split_ratio_tolerance :: rat where
  "split_ratio_tolerance = 5 / 1000"

definition savedRatio :: "rat \<Rightarrow> rat option" where
  "savedRatio ratio = (if \<bar>ratio - 1 / 2\<bar> > split_ratio_tolerance then Some ratio else None)"

fun withPaneRatio :: "pane_node \<Rightarrow> string list \<Rightarrow> split_ratio_intent \<Rightarrow> pane_node option" where
  "withPaneRatio (Leaf_node i) segs intent = None"
| "withPaneRatio (Split_node d a b r) [] intent =
     (if isSplitMeant d a b (sri_split intent) then Some (Split_node d a b (savedRatio (sri_ratio intent))) else None)"
| "withPaneRatio (Split_node d a b r) (s # ss) intent =
     (if s = ''first'' then map_option (\<lambda>a'. Split_node d a' b r) (withPaneRatio a ss intent)
      else if s = ''second'' then map_option (\<lambda>b'. Split_node d a b' r) (withPaneRatio b ss intent)
      else None)"

fun withGroupRatio :: "tab_group_node \<Rightarrow> string list \<Rightarrow> split_ratio_intent \<Rightarrow> tab_group_node option" where
  "withGroupRatio (Leaf_node i) segs intent = None"
| "withGroupRatio (Split_node d a b r) [] intent =
     (if isSplitMeant d a b (sri_split intent) then Some (Split_node d a b (Some (sri_ratio intent))) else None)"
| "withGroupRatio (Split_node d a b r) (s # ss) intent =
     (if s = ''first'' then map_option (\<lambda>a'. Split_node d a' b r) (withGroupRatio a ss intent)
      else if s = ''second'' then map_option (\<lambda>b'. Split_node d a b' r) (withGroupRatio b ss intent)
      else None)"

fun withPaneSplitRatios :: "pane_node \<Rightarrow> split_ratio_intent list \<Rightarrow> pane_node option" where
  "withPaneSplitRatios tree [] = Some tree"
| "withPaneSplitRatios tree (i # is) =
     (case withPaneRatio tree (segmentsOf (sri_path i)) i of
        None \<Rightarrow> None | Some t \<Rightarrow> withPaneSplitRatios t is)"

fun withGroupSplitRatios :: "tab_group_node \<Rightarrow> split_ratio_intent list \<Rightarrow> tab_group_node option" where
  "withGroupSplitRatios tree [] = Some tree"
| "withGroupSplitRatios tree (i # is) =
     (case withGroupRatio tree (segmentsOf (sri_path i)) i of
        None \<Rightarrow> None | Some t \<Rightarrow> withGroupSplitRatios t is)"

lemma withPaneRatio_same: "withPaneRatio t ss i = Some u \<Longrightarrow> sameGroupsIgnoringRatios t u"
  by (induction t ss i arbitrary: u rule: withPaneRatio.induct) (auto split: if_splits)

lemma withGroupRatio_same: "withGroupRatio t ss i = Some u \<Longrightarrow> sameGroupsIgnoringRatios t u"
  by (induction t ss i arbitrary: u rule: withGroupRatio.induct) (auto split: if_splits)

lemma withPaneSplitRatios_same: "withPaneSplitRatios t is = Some u \<Longrightarrow> sameGroupsIgnoringRatios t u"
  by (induction t "is" rule: withPaneSplitRatios.induct)
    (auto split: option.splits dest: withPaneRatio_same intro: same_trans)

lemma withGroupSplitRatios_same: "withGroupSplitRatios t is = Some u \<Longrightarrow> sameGroupsIgnoringRatios t u"
  by (induction t "is" rule: withGroupSplitRatios.induct)
    (auto split: option.splits dest: withGroupRatio_same intro: same_trans)

fun updateSplitRatio :: "tab_group_node \<Rightarrow> string list \<Rightarrow> rat \<Rightarrow> tab_group_node" where
  "updateSplitRatio (Leaf_node i) path ratio = Leaf_node i"
| "updateSplitRatio (Split_node d a b r) [] ratio = Split_node d a b (Some ratio)"
| "updateSplitRatio (Split_node d a b r) (s # ss) ratio =
     (if s = ''first'' then Split_node d (updateSplitRatio a ss ratio) b r
      else if s = ''second'' then Split_node d a (updateSplitRatio b ss ratio) r
      else Split_node d a b r)"

text \<open>Where an intent without an identity resolves, main's update is the renderer's.\<close>

lemma withGroupRatio_update:
  "sri_split i = None \<Longrightarrow> withGroupRatio t ss i = Some u \<Longrightarrow> u = updateSplitRatio t ss (sri_ratio i)"
  by (induction t ss i arbitrary: u rule: withGroupRatio.induct) (auto split: if_splits)

subsection \<open>The dividers a window moved reach main's tree\<close>

text \<open>
  The intents with their paths as segments, relative to the split they were generated at, and their
  application. \<open>relay\<close> abstracts from the tree's kind: how a ratio is stored.
\<close>

fun relative_intents :: "layout_node \<Rightarrow> layout_node \<Rightarrow> (string list \<times> rat \<times> split_identity) list" where
  "relative_intents (Split_node d a b r) (Split_node d' a' b' r') =
     (if effective_ratio r \<noteq> effective_ratio r' then [([], effective_ratio r', identityOf d' a' b')] else [])
     @ map (apfst (Cons ''first'')) (relative_intents a a')
     @ map (apfst (Cons ''second'')) (relative_intents b b')"
| "relative_intents _ _ = []"

definition intent_parts :: "split_ratio_intent \<Rightarrow> string list \<times> rat \<times> split_identity option" where
  "intent_parts i = (segmentsOf (sri_path i), sri_ratio i, sri_split i)"

lemma changedSplitRatios_parts:
  "map intent_parts (changedSplitRatios t u p) =
     map (\<lambda>(ss, r, s). (segmentsOf p @ ss, r, Some s)) (relative_intents t u)"
  by (induction t u p rule: changedSplitRatios.induct)
    (simp_all add: intent_parts_def Let_def segmentsOf_childPath comp_def case_prod_unfold)

fun relay :: "(rat \<Rightarrow> rat option) \<Rightarrow> layout_node \<Rightarrow> string list \<Rightarrow> rat \<Rightarrow> split_identity option \<Rightarrow> layout_node option" where
  "relay f (Leaf_node i) segs x m = None"
| "relay f (Split_node d a b r) [] x m = (if isSplitMeant d a b m then Some (Split_node d a b (f x)) else None)"
| "relay f (Split_node d a b r) (s # ss) x m =
     (if s = ''first'' then map_option (\<lambda>a'. Split_node d a' b r) (relay f a ss x m)
      else if s = ''second'' then map_option (\<lambda>b'. Split_node d a b' r) (relay f b ss x m)
      else None)"

fun relay_all :: "(rat \<Rightarrow> rat option) \<Rightarrow> layout_node \<Rightarrow> (string list \<times> rat \<times> split_identity option) list \<Rightarrow> layout_node option" where
  "relay_all f t [] = Some t"
| "relay_all f t ((ss, x, m) # is) = (case relay f t ss x m of None \<Rightarrow> None | Some t' \<Rightarrow> relay_all f t' is)"

lemma withPaneRatio_relay: "withPaneRatio t ss i = relay savedRatio t ss (sri_ratio i) (sri_split i)"
  by (induction t ss i rule: withPaneRatio.induct) simp_all

lemma withGroupRatio_relay: "withGroupRatio t ss i = relay Some t ss (sri_ratio i) (sri_split i)"
  by (induction t ss i rule: withGroupRatio.induct) simp_all

lemma withPaneSplitRatios_relay: "withPaneSplitRatios t is = relay_all savedRatio t (map intent_parts is)"
  by (induction t "is" rule: withPaneSplitRatios.induct)
    (simp_all add: intent_parts_def withPaneRatio_relay split: option.splits)

lemma withGroupSplitRatios_relay: "withGroupSplitRatios t is = relay_all Some t (map intent_parts is)"
  by (induction t "is" rule: withGroupSplitRatios.induct)
    (simp_all add: intent_parts_def withGroupRatio_relay split: option.splits)

lemma relay_all_append:
  "relay_all f t (is @ js) = (case relay_all f t is of None \<Rightarrow> None | Some u \<Rightarrow> relay_all f u js)"
  by (induction f t "is" rule: relay_all.induct) (simp_all split: option.splits)

lemma relay_all_first:
  "relay_all f (Split_node d a b r) (map (apfst (Cons ''first'')) is) =
     map_option (\<lambda>a'. Split_node d a' b r) (relay_all f a is)"
  by (induction "is" arbitrary: a) (auto split: option.splits)

lemma relay_all_second:
  "relay_all f (Split_node d a b r) (map (apfst (Cons ''second'')) is) =
     map_option (\<lambda>b'. Split_node d a b' r) (relay_all f b is)"
  by (induction "is" arbitrary: b) (auto split: option.splits)

text \<open>
  What main's tree becomes: the dividers the window moved stand where the window has them, as stored by
  \<open>f\<close>; the others where main has them.
\<close>

fun merge_dividers :: "(rat \<Rightarrow> rat option) \<Rightarrow> layout_node \<Rightarrow> layout_node \<Rightarrow> layout_node \<Rightarrow> layout_node" where
  "merge_dividers f (Split_node d a b r) (Split_node d1 a1 b1 r1) (Split_node d2 a2 b2 r2) =
     Split_node d (merge_dividers f a a1 a2) (merge_dividers f b b1 b2)
       (if effective_ratio r1 \<noteq> effective_ratio r2 then f (effective_ratio r2) else r)"
| "merge_dividers f m t u = m"

lemma relay_all_relative:
  assumes "sameGroupsIgnoringRatios m t" and "sameGroupsIgnoringRatios t u"
  shows "relay_all f m (map (\<lambda>(ss, r, s). (ss, r, Some s)) (relative_intents t u)) = Some (merge_dividers f m t u)"
  using assms
proof (induction f m t u rule: merge_dividers.induct)
  case (1 f d a b r d1 a1 b1 r1 d2 a2 b2 r2)
  let ?parts = "map (\<lambda>(ss, r, s). (ss, r, Some s))"
  have shape: "d = d1" "sameGroupsIgnoringRatios a a1" "sameGroupsIgnoringRatios b b1"
    "d1 = d2" "sameGroupsIgnoringRatios a1 a2" "sameGroupsIgnoringRatios b1 b2" using "1.prems" by auto
  note IH = "1.IH"(1) [OF shape(2,5)] "1.IH"(2) [OF shape(3,6)]
  have first: "findFirstLeaf a2 = findFirstLeaf a" "findFirstLeaf b2 = findFirstLeaf b"
    using same_first [OF shape(2)] same_first [OF shape(3)] same_first [OF shape(5)] same_first [OF shape(6)] by simp_all
  have here: "relay_all f (Split_node d a b r)
      (?parts (if effective_ratio r1 \<noteq> effective_ratio r2 then [([], effective_ratio r2, identityOf d2 a2 b2)] else []))
    = Some (Split_node d a b (if effective_ratio r1 \<noteq> effective_ratio r2 then f (effective_ratio r2) else r))"
    using shape(1,4) by (simp add: isSplitMeant_def identityOf_def first)
  have parts: "?parts (map (apfst (Cons s)) is) = map (apfst (Cons s)) (?parts is)" for s "is"
    by (simp add: comp_def case_prod_unfold)
  show ?case
    by (simp only: relative_intents.simps map_append relay_all_append here parts)
      (simp add: relay_all_first relay_all_second IH del: map_map)
qed (auto elim: sameGroupsIgnoringRatios.elims)

lemma changed_ratios_reach:
  assumes "sameGroupsIgnoringRatios m t" and "sameGroupsIgnoringRatios t u"
  shows "relay_all f m (map intent_parts (changedSplitRatios t u [])) = Some (merge_dividers f m t u)"
  using relay_all_relative [OF assms] by (simp add: changedSplitRatios_parts)

fun effective :: "layout_node \<Rightarrow> layout_node" where
  "effective (Leaf_node i) = Leaf_node i"
| "effective (Split_node d a b r) = Split_node d (effective a) (effective b) (Some (effective_ratio r))"

lemma merge_effective: "sameGroupsIgnoringRatios t u \<Longrightarrow> effective (merge_dividers Some t t u) = effective u"
  by (induction t u rule: sameGroupsIgnoringRatios.induct) (auto simp: effective_ratio_def)

section \<open>Equal shares\<close>

fun equalizeWeight :: "pane_node \<Rightarrow> split_direction \<Rightarrow> nat" where
  "equalizeWeight (Leaf_node i) dir = 1"
| "equalizeWeight (Split_node d a b r) dir =
     (if d = dir then equalizeWeight a dir + equalizeWeight b dir else 1)"

definition round_thousandths :: "rat \<Rightarrow> rat" where
  "round_thousandths x = of_int \<lfloor>x * 1000 + 1 / 2\<rfloor> / 1000"

fun equalizeLayout :: "pane_node \<Rightarrow> pane_node" where
  "equalizeLayout (Leaf_node i) = Leaf_node i"
| "equalizeLayout (Split_node d a b r) =
     (let first = equalizeWeight a d; second = equalizeWeight b d;
          ratio = rat_of_nat first / rat_of_nat (first + second)
      in Split_node d (equalizeLayout a) (equalizeLayout b)
           (if \<bar>ratio - 1 / 2\<bar> > split_ratio_tolerance then Some (round_thousandths ratio) else None))"

lemma equalizeLayout_same: "sameGroupsIgnoringRatios t (equalizeLayout t)"
  by (induction t) (simp_all add: Let_def)

lemma equalizeWeight_equalize [simp]: "equalizeWeight (equalizeLayout t) d = equalizeWeight t d"
  by (induction t) (simp_all add: Let_def)

lemma equalizeLayout_idem: "equalizeLayout (equalizeLayout t) = equalizeLayout t"
  by (induction t) (simp_all add: Let_def)

lemma round_thousandths_near: "\<bar>round_thousandths x - x\<bar> \<le> 1 / 2000"
proof -
  let ?z = "rat_of_int \<lfloor>x * 1000 + 1 / 2\<rfloor>"
  have "?z \<le> x * 1000 + 1 / 2" and "x * 1000 + 1 / 2 < ?z + 1"
    by (rule of_int_floor_le) linarith
  then show ?thesis unfolding round_thousandths_def abs_le_iff by (auto simp: field_simps)
qed

text \<open>Each divider within half a percent of the share of the panes on its first side.\<close>

fun fair_shares :: "pane_node \<Rightarrow> bool" where
  "fair_shares (Leaf_node i) = True"
| "fair_shares (Split_node d a b r) =
     (\<bar>effective_ratio r - of_nat (equalizeWeight a d) / of_nat (equalizeWeight a d + equalizeWeight b d)\<bar>
        \<le> split_ratio_tolerance \<and> fair_shares a \<and> fair_shares b)"

lemma equalize_ratio_near:
  assumes "ratio = rat_of_nat n / rat_of_nat (n + m)"
  shows "\<bar>effective_ratio (if \<bar>ratio - 1 / 2\<bar> > split_ratio_tolerance then Some (round_thousandths ratio) else None) - ratio\<bar>
    \<le> split_ratio_tolerance"
  using round_thousandths_near [of ratio] unfolding effective_ratio_def split_ratio_tolerance_def
  by (auto simp: abs_minus_commute)

lemma equalizeLayout_fair: "fair_shares (equalizeLayout t)"
  by (induction t) (simp_all add: Let_def equalize_ratio_near del: of_nat_add)

end
