(* ===== verification/Layout_Types.thy ===== *)
theory Layout_Types
  imports Layout_Ratios "HOL-Library.AList"
begin

text \<open>
  The data of a workspace layout (\<open>workspace-layout-model.ts\<close>), the commands that edit it with their
  context, results and refusals (\<open>workspace-layout-command-types.ts\<close>) and the helpers on stored
  records. A JavaScript record is an association list in insertion order, whose update keeps the place of
  a key; an absent optional collection is the empty one, which the code reads alike. Payloads the layout
  only copies (titles of a vault session, an editor view, the rest of a file record) are text.
\<close>

section \<open>Stored records\<close>

definition withoutKey :: "('k \<times> 'v) list \<Rightarrow> 'k \<Rightarrow> ('k \<times> 'v) list" where
  "withoutKey r k = AList.delete k r"

definition filterRecord :: "('k \<times> 'v) list \<Rightarrow> ('k \<Rightarrow> bool) \<Rightarrow> ('k \<times> 'v) list" where
  "filterRecord r keep = filter (\<lambda>(k, v). keep k) r"

text \<open>\<open>Object.fromEntries\<close>: a later entry of a key replaces an earlier one in its place.\<close>

definition fromEntries :: "('k \<times> 'v) list \<Rightarrow> ('k \<times> 'v) list" where
  "fromEntries es = foldl (\<lambda>r (k, v). AList.update k v r) [] es"

text \<open>A \<open>Set\<close>, in insertion order.\<close>

definition set_add :: "'a list \<Rightarrow> 'a \<Rightarrow> 'a list" where
  "set_add xs x = (if x \<in> set xs then xs else xs @ [x])"

lemma set_set_add [simp]: "set (set_add xs x) = insert x (set xs)"
  by (auto simp: set_add_def)

lemma distinct_set_add [simp]: "distinct (set_add xs x) = distinct xs"
  by (simp add: set_add_def)

section \<open>Layout data\<close>

datatype content_kind =
    Editor_kind | Diff_kind | Conflict_review_kind | Check_details_kind
  | Agent_session_kind | Browser_kind | Simulator_kind

datatype view_mode = View_terminal | View_chat

record terminal_creation =
  tc_defaultTitle :: "string option"
  tc_shellOverride :: "string option"
  tc_forceHostRuntime :: "bool option"
  tc_startupCwd :: "string option"
  tc_launchAgent :: "string option"

record layout_panes =
  lp_root :: "pane_node option"
  lp_chatLeafId :: "string option"

datatype tab_body = Terminal_body terminal_creation layout_panes | Content_body content_kind

record layout_tab =
  lt_id :: string
  lt_entityId :: string
  lt_createdAt :: int
  lt_customTitle :: "string option"
  lt_generatedTitle :: "string option"
  lt_aiVaultTitle :: "string option"
  lt_quickCommandLabel :: "string option"
  lt_color :: "string option"
  lt_isPinned :: bool
  lt_viewMode :: "view_mode option"
  lt_isPreview :: bool
  lt_agentSessionAgent :: "string option"
  lt_body :: tab_body

record layout_group =
  lg_id :: string
  lg_tabOrder :: "string list"

record editor_file =
  ef_filePath :: string
  ef_runtimeEnvironmentId :: "string option"
  ef_rest :: string

record browser_tab =
  bt_id :: string
  bt_label :: "string option"
  bt_sessionProfileId :: "string option"
  bt_sessionPartition :: "string option"
  bt_pageIds :: "string list"
  bt_createdAt :: int

datatype session_origin = Origin_worktree_sleep | Origin_quit | Origin_live

record layout_sleeping =
  ls_origin :: "session_origin option"
  ls_rest :: string

record sleeping_record = layout_sleeping +
  ls_paneKey :: string
  ls_tabId :: "string option"
  ls_worktreeId :: string

datatype close_reason = Close_user | Close_cleanup | Close_pty_exit

record closed_tab =
  ct_closedAt :: int
  ct_reason :: "close_reason option"

record terminal_grid =
  tg_cols :: int
  tg_rows :: int

record layout_leaf =
  lf_ptyId :: "string option"
  lf_ptyGeneration :: "int option"
  lf_incarnationId :: "string option"
  lf_title :: "string option"
  lf_lastGrid :: "terminal_grid option"
  lf_sleeping :: "layout_sleeping option"
  lf_resume :: "layout_sleeping option"

definition empty_leaf :: layout_leaf where
  "empty_leaf = \<lparr>lf_ptyId = None, lf_ptyGeneration = None, lf_incarnationId = None, lf_title = None,
     lf_lastGrid = None, lf_sleeping = None, lf_resume = None\<rparr>"

record workspace_layout =
  wl_worktreeId :: string
  wl_tabs :: "layout_tab list"
  wl_groups :: "layout_group list"
  wl_groupLayout :: "tab_group_node option"
  wl_editorFiles :: "editor_file list"
  wl_editorViews :: "(string \<times> string) list"
  wl_browserTabs :: "browser_tab list"
  wl_leaves :: "(string \<times> layout_leaf) list"
  wl_closedTerminalTabs :: "(string \<times> closed_tab) list"

record closed_pane =
  cp_ptyId :: string
  cp_incarnationId :: string
  cp_worktreeId :: string
  cp_closedAt :: int

record layout_records =
  rc_defaultTabsApplied :: "string list"
  rc_clientHostedPages :: "(string \<times> string) list"
  rc_closedPanes :: "(string \<times> closed_pane) list"

record legacy_persistence =
  lpe_terminalRowOwners :: "string list"
  lpe_topologyRevision :: "(string \<times> nat) list"

record layout_model =
  lm_hostId :: string
  lm_workspaces :: "(string \<times> workspace_layout) list"
  lm_records :: layout_records
  lm_legacy :: legacy_persistence

definition paneKeyOf :: "string \<Rightarrow> string \<Rightarrow> string" where
  "paneKeyOf terminalTabId leafId = terminalTabId @ CHR '':'' # leafId"

definition is_terminal :: "layout_tab \<Rightarrow> bool" where
  "is_terminal t = (case lt_body t of Terminal_body c p \<Rightarrow> True | Content_body k \<Rightarrow> False)"

definition has_kind :: "content_kind \<Rightarrow> layout_tab \<Rightarrow> bool" where
  "has_kind k t = (lt_body t = Content_body k)"

definition tab_panes :: "layout_tab \<Rightarrow> layout_panes" where
  "tab_panes t = (case lt_body t of Terminal_body c p \<Rightarrow> p | Content_body k \<Rightarrow> \<lparr>lp_root = None, lp_chatLeafId = None\<rparr>)"

definition tab_creation :: "layout_tab \<Rightarrow> terminal_creation" where
  "tab_creation t = (case lt_body t of Terminal_body c p \<Rightarrow> c
     | Content_body k \<Rightarrow> \<lparr>tc_defaultTitle = None, tc_shellOverride = None, tc_forceHostRuntime = None,
         tc_startupCwd = None, tc_launchAgent = None\<rparr>)"

definition with_panes :: "layout_tab \<Rightarrow> layout_panes \<Rightarrow> layout_tab" where
  "with_panes t p = t\<lparr>lt_body := (case lt_body t of Terminal_body c q \<Rightarrow> Terminal_body c p | Content_body k \<Rightarrow> Content_body k)\<rparr>"

definition tabsInOrder :: "workspace_layout \<Rightarrow> layout_tab list" where
  "tabsInOrder w = concat (map (\<lambda>g. List.map_filter (\<lambda>i. find (\<lambda>t. lt_id t = i) (rev (wl_tabs w))) (lg_tabOrder g)) (wl_groups w))"

definition empty_workspace :: "string \<Rightarrow> workspace_layout" where
  "empty_workspace key = \<lparr>wl_worktreeId = key, wl_tabs = [], wl_groups = [], wl_groupLayout = None,
     wl_editorFiles = [], wl_editorViews = [], wl_browserTabs = [], wl_leaves = [], wl_closedTerminalTabs = []\<rparr>"

section \<open>Commands\<close>

datatype initial_surface = Surface_restore | Surface_activation

record new_group_split =
  ns_besideGroupId :: string
  ns_besideLastGroupId :: "string option"
  ns_direction :: group_side

record terminal_adoption =
  ta_ptyId :: string
  ta_incarnationId :: "string option"
  ta_recordedPaneKey :: "string option"

record tab_placement =
  tp_groupId :: "string option"
  tp_afterTabId :: "string option"
  tp_index :: "int option"

record create_terminal =
  cr_workspace :: string
  cr_tabId :: "string option"
  cr_leafId :: "string option"
  cr_placement :: tab_placement
  cr_title :: "string option"
  cr_color :: "string option"
  cr_viewMode :: "view_mode option"
  cr_createdAt :: "int option"
  cr_quickCommandLabel :: "string option"
  cr_creation :: "terminal_creation option"
  cr_initial :: "initial_surface option"
  cr_adopt :: "terminal_adoption option"
  cr_split :: "new_group_split option"

record pane_ref =
  pr_workspace :: string
  pr_tabId :: string
  pr_leafId :: string

record close_tabs =
  cl_workspace :: string
  cl_tabIds :: "string list"
  cl_force :: bool
  cl_refusePinned :: bool
  cl_dirtyTabIds :: "string list"
  cl_recordClose :: "close_reason option"

record move_tab =
  mt_workspace :: string
  mt_tabId :: string
  mt_toGroupId :: string
  mt_index :: int
  mt_afterTabId :: "string option option"
  mt_isPinned :: "bool option"

record window_detach =
  wd_ptyId :: "string option"
  wd_tabId :: "string option"
  wd_startupCwd :: "string option"

record move_pane_tab =
  mp_pane :: pane_ref
  mp_groupId :: "string option"
  mp_index :: "int option"
  mp_windowDetach :: "window_detach option"

record title_expectation =
  te_entityId :: string
  te_executionHostId :: string
  te_customTitle :: string

datatype tab_title =
    Custom_title "string option" "title_expectation option"
  | Generated_title "string option" bool
  | AiVault_title "string option"

record tab_props =
  sp_workspace :: string
  sp_tabId :: string
  sp_color :: "string option option"
  sp_isPinned :: "bool option"
  sp_viewMode :: "view_mode option"
  sp_clearLaunchAgent :: bool

record open_editor =
  oe_workspace :: string
  oe_tabId :: "string option"
  oe_fileId :: "string option"
  oe_contentType :: content_kind
  oe_file :: "editor_file option"
  oe_view :: "string option"
  oe_groupId :: "string option"
  oe_index :: "int option"
  oe_preview :: bool
  oe_dirtyTabIds :: "string list"
  oe_createdAt :: "int option"
  oe_split :: "new_group_split option"

record open_simulator =
  os_workspace :: string
  os_tabId :: string
  os_placement :: tab_placement
  os_createdAt :: "int option"
  os_split :: "new_group_split option"

record open_browser =
  ob_workspace :: string
  ob_profileId :: "string option"
  ob_sessionPartition :: "string option"
  ob_placement :: tab_placement
  ob_pageId :: "string option"
  ob_tabId :: "string option"
  ob_browserTabId :: "string option"
  ob_createdAt :: "int option"
  ob_browserCreatedAt :: "int option"
  ob_split :: "new_group_split option"

record open_agent_session =
  oa_workspace :: string
  oa_tabId :: "string option"
  oa_sessionId :: string
  oa_agent :: string
  oa_placement :: tab_placement
  oa_createdAt :: "int option"
  oa_initial :: "initial_surface option"
  oa_split :: "new_group_split option"

record workspace_move_tab =
  wm_tabId :: string
  wm_newTabId :: string
  wm_newEntityId :: string
  wm_view :: "string option"

record workspace_move =
  wm_workspace :: string
  wm_toWorkspace :: string
  wm_tabs :: "workspace_move_tab list"
  wm_groupId :: string
  wm_file :: "editor_file option"

record file_rename =
  fr_fileId :: string
  fr_newFileId :: string
  fr_record :: "(string \<times> editor_file) option"
  fr_view :: "string option"

record default_tab =
  dt_tabId :: string
  dt_leafId :: string
  dt_title :: "string option"
  dt_color :: "string option"
  dt_creation :: "terminal_creation option"

datatype layout_command =
    CreateTerminalTab create_terminal
  | SplitPane pane_ref split_direction "rat option" "string option"
  | ClosePane pane_ref bool
  | CloseTabs close_tabs
  | MoveTab move_tab
  | SplitGroup string string string group_side
  | SetGroupRatios string "tab_group_node option" "split_ratio_intent list option"
  | SetPaneRatios string string "pane_node option" "split_ratio_intent list option"
  | MovePane pane_ref string pane_side
  | EqualizePanes string string
  | MovePaneToNewTab move_pane_tab
  | RenameTab string string tab_title
  | RenamePane pane_ref "string option"
  | SetPaneGrid pane_ref terminal_grid
  | ReleasePaneTerminal pane_ref string
  | SetTabProps tab_props
  | SetChatPane string string "string option"
  | OpenEditorTab open_editor
  | PromotePreviewTab string string
  | OpenSimulatorTab open_simulator
  | MoveTabToWorkspace workspace_move
  | RenameEditorFiles string "file_rename list" "(string \<times> file_rename list) list"
  | OpenBrowserTab open_browser
  | OpenBrowserPage string string string
  | CloseBrowserPage string string string
  | ReplaceBrowserPage string string string string
  | SetBrowserTabProfile string string "string option" "string option"
  | OpenAgentSessionTab open_agent_session
  | StartPane string string
  | RestartPane string string
  | Sleep string "string list option" "sleeping_record list" bool
  | Wake string "string list option" bool
  | SetDefaultTabsApplied string
  | ApplyDefaultTabs string "default_tab list"

fun command_workspace :: "layout_command \<Rightarrow> string" where
  "command_workspace (CreateTerminalTab c) = cr_workspace c"
| "command_workspace (SplitPane p d r n) = pr_workspace p"
| "command_workspace (ClosePane p u) = pr_workspace p"
| "command_workspace (CloseTabs c) = cl_workspace c"
| "command_workspace (MoveTab c) = mt_workspace c"
| "command_workspace (SplitGroup w t g s) = w"
| "command_workspace (SetGroupRatios w l r) = w"
| "command_workspace (SetPaneRatios w t n r) = w"
| "command_workspace (MovePane p t s) = pr_workspace p"
| "command_workspace (EqualizePanes w t) = w"
| "command_workspace (MovePaneToNewTab c) = pr_workspace (mp_pane c)"
| "command_workspace (RenameTab w t n) = w"
| "command_workspace (RenamePane p t) = pr_workspace p"
| "command_workspace (SetPaneGrid p g) = pr_workspace p"
| "command_workspace (ReleasePaneTerminal p i) = pr_workspace p"
| "command_workspace (SetTabProps c) = sp_workspace c"
| "command_workspace (SetChatPane w t l) = w"
| "command_workspace (OpenEditorTab c) = oe_workspace c"
| "command_workspace (PromotePreviewTab w t) = w"
| "command_workspace (OpenSimulatorTab c) = os_workspace c"
| "command_workspace (MoveTabToWorkspace c) = wm_workspace c"
| "command_workspace (RenameEditorFiles w r a) = w"
| "command_workspace (OpenBrowserTab c) = ob_workspace c"
| "command_workspace (OpenBrowserPage w t p) = w"
| "command_workspace (CloseBrowserPage w t p) = w"
| "command_workspace (ReplaceBrowserPage w t p q) = w"
| "command_workspace (SetBrowserTabProfile w t p s) = w"
| "command_workspace (OpenAgentSessionTab c) = oa_workspace c"
| "command_workspace (StartPane w p) = w"
| "command_workspace (RestartPane w p) = w"
| "command_workspace (Sleep w p r o') = w"
| "command_workspace (Wake w p o') = w"
| "command_workspace (SetDefaultTabsApplied w) = w"
| "command_workspace (ApplyDefaultTabs w ts) = w"

section \<open>Refusals, results and context\<close>

datatype refusal_code =
    Workspace_not_found | Tab_not_found | Pane_not_found | Group_not_found | Invalid_params
  | Group_set_changed | Pane_structure_changed | Same_pane | Last_pane | Pane_already_bound
  | Workspace_exists | Tab_exists | Group_exists | Page_exists | Generated_title_kept
  | Pane_sleeping | Tab_closed | Pane_in_other_tab | Pty_mismatch

datatype refused_close = Tab_pinned | Editor_tab_has_unsaved_draft

record command_result =
  res_tabId :: "string option"
  res_leafId :: "string option"
  res_paneKey :: "string option"
  res_groupId :: "string option"
  res_pageId :: "string option"
  res_ptyId :: "string option option"
  res_tabClosed :: "bool option"
  res_alreadyClosed :: bool
  res_closed :: "string list"
  res_refused :: "(string \<times> refused_close) list"
  res_slept :: "string list"
  res_woken :: "string list"
  res_renamedTabIds :: "(string \<times> string) list"
  res_createdTabs :: "(string \<times> string \<times> string) list"

definition no_result :: command_result where
  "no_result = \<lparr>res_tabId = None, res_leafId = None, res_paneKey = None, res_groupId = None, res_pageId = None,
     res_ptyId = None, res_tabClosed = None, res_alreadyClosed = False, res_closed = [], res_refused = [],
     res_slept = [], res_woken = [], res_renamedTabIds = [], res_createdTabs = []\<rparr>"

datatype pane_outcome = Outcome_failed | Outcome_exited

record applied_layout =
  al_model :: layout_model
  al_result :: command_result
  al_stopPtyIds :: "string list"
  al_startPaneKeys :: "string list"
  al_outcomes :: "(string \<times> pane_outcome option) list"

type_synonym layout_applied = "refusal_code + applied_layout"

text \<open>
  The ids a command mints are given by the call that asks for one; no call is reached twice in a command
  (a first group is created once). \<open>lc_owner\<close> is the build constant
  \<open>ORCA_LAYOUT_OWNER_IS_MAIN\<close>; the callbacks' defaults when absent are \<open>\<lambda>_. False\<close>, and
  \<open>\<lambda>_ _. True\<close> for \<open>isBindingLive\<close>.
\<close>

datatype mint_site =
    Mint_terminal_tab | Mint_content_tab | Mint_first_group | Mint_split_group | Mint_moved_tab
  | Mint_browser_tab | Mint_browser_page

record layout_context =
  lc_owner :: bool
  lc_mintId :: "mint_site \<Rightarrow> string"
  lc_mintLeafId :: string
  lc_now :: int
  lc_isStarting :: "string \<Rightarrow> bool"
  lc_droppedLeafReason :: bool
  lc_isBindingLive :: "string \<Rightarrow> string \<Rightarrow> bool"
  lc_retiresBinding :: "string \<Rightarrow> string \<Rightarrow> bool"

end
