(* ===== verification/Layout_Order.thy ===== *)
theory Layout_Order
  imports Layout_Types Orc_Tasks "HOL-Library.Multiset"
begin

text \<open>
  The order of tabs in a group (\<open>tab-order.ts\<close>) and moves between groups
  (\<open>tab-group-moves.ts\<close>). \<open>listed gs i\<close> counts how often the groups list a tab: an edit is
  proved to keep it for every tab it does not move, group by group.
\<close>

section \<open>One order\<close>

fun dedupe_from :: "string list \<Rightarrow> string list \<Rightarrow> string list" where
  "dedupe_from seen [] = []"
| "dedupe_from seen (i # is) =
     (if i \<in> set seen then dedupe_from seen is else i # dedupe_from (i # seen) is)"

definition dedupeTabOrder :: "string list \<Rightarrow> string list" where
  "dedupeTabOrder is = dedupe_from [] is"

lemma dedupe_from_set: "set (dedupe_from seen is) = set is - set seen"
  by (induction seen "is" rule: dedupe_from.induct) auto

lemma dedupe_from_distinct: "distinct (dedupe_from seen is)"
  by (induction seen "is" rule: dedupe_from.induct) (auto simp: dedupe_from_set)

lemma dedupe_from_id: "distinct is \<Longrightarrow> set is \<inter> set seen = {} \<Longrightarrow> dedupe_from seen is = is"
  by (induction seen "is" rule: dedupe_from.induct) auto

lemma dedupeTabOrder_props [simp]:
  "set (dedupeTabOrder is) = set is" "distinct (dedupeTabOrder is)"
  by (simp_all add: dedupeTabOrder_def dedupe_from_set dedupe_from_distinct)

lemma dedupeTabOrder_id: "distinct is \<Longrightarrow> dedupeTabOrder is = is"
  by (simp add: dedupeTabOrder_def dedupe_from_id)

definition insert_at :: "nat \<Rightarrow> 'a \<Rightarrow> 'a list \<Rightarrow> 'a list" where
  "insert_at n x xs = take n xs @ x # drop n xs"

lemma mset_insert_at [simp]: "mset (insert_at n x xs) = add_mset x (mset xs)"
  unfolding insert_at_def by simp (metis append_take_drop_id mset_append)

lemma set_insert_at [simp]: "set (insert_at n x xs) = insert x (set xs)"
proof -
  have "set (insert_at n x xs) = set_mset (mset (insert_at n x xs))" by (rule set_mset_mset [symmetric])
  then show ?thesis by (simp only: mset_insert_at set_mset_add_mset_insert set_mset_mset)
qed

lemma count_insert_at [simp]: "count_list (insert_at n x xs) i = count_list xs i + (if i = x then 1 else 0)"
  by (simp add: count_mset [symmetric])

lemma distinct_insert_at [simp]: "distinct (insert_at n x xs) \<longleftrightarrow> x \<notin> set xs \<and> distinct xs"
proof -
  have "distinct (insert_at n x xs) \<longleftrightarrow> distinct (x # xs)" by (rule mset_eq_imp_distinct_iff) simp
  then show ?thesis by simp
qed

lemma filter_absent: "i \<notin> set xs \<Longrightarrow> filter (\<lambda>j. j \<noteq> i) xs = xs"
  by (induction xs) auto

lemma filter_remove1: "distinct xs \<Longrightarrow> filter (\<lambda>j. j \<noteq> i) xs = remove1 i xs"
  by (induction xs) (auto simp: filter_absent)

lemma count_pos: "i \<in> set xs \<Longrightarrow> 0 < count_list xs i"
  by (metis count_list_0_iff gr0I)

lemma insert_at_not_Nil [simp]: "insert_at n x xs \<noteq> []"
  by (simp add: insert_at_def)

definition clamp_index :: "int \<Rightarrow> nat \<Rightarrow> nat" where
  "clamp_index i n = nat (max 0 (min i (int n)))"

lemma clamp_index_le: "clamp_index i n \<le> n"
  by (simp add: clamp_index_def)

text \<open>A \<open>Map\<close> of the tabs by id: of two with one id, the later.\<close>

definition tab_by_id :: "layout_tab list \<Rightarrow> string \<Rightarrow> layout_tab option" where
  "tab_by_id tabs i = find (\<lambda>t. lt_id t = i) (rev tabs)"

definition pinned_in :: "layout_tab list \<Rightarrow> string \<Rightarrow> bool" where
  "pinned_in tabs i = (case tab_by_id tabs i of None \<Rightarrow> False | Some t \<Rightarrow> lt_isPinned t)"

definition partitionPinnedTabOrder :: "string list \<Rightarrow> layout_tab list \<Rightarrow> string \<Rightarrow> string list" where
  "partitionPinnedTabOrder order tabs moving =
     (let without = filter (\<lambda>i. i \<noteq> moving) (dedupeTabOrder order)
      in filter (pinned_in tabs) without @ moving # filter (\<lambda>i. \<not> pinned_in tabs i) without)"

definition insertTabIdIntoOrder ::
  "string list \<Rightarrow> layout_tab list \<Rightarrow> string \<Rightarrow> bool \<Rightarrow> string option \<Rightarrow> string list" where
  "insertTabIdIntoOrder tabOrder tabs tabId isPinned anchor =
     (let order = filter (\<lambda>i. i \<noteq> tabId) (dedupeTabOrder tabOrder);
          prefixEnd = (case find_index (\<lambda>i. \<not> pinned_in tabs i) order of None \<Rightarrow> length order | Some n \<Rightarrow> n);
          anchorIndex = (if truthy anchor then find_index (\<lambda>i. i = the anchor) order else None);
          index = (case anchorIndex of
             None \<Rightarrow> if isPinned then prefixEnd else length order
           | Some a \<Rightarrow> if pinned_in tabs (order ! a) = isPinned then a + 1 else prefixEnd)
      in insert_at index tabId order)"

lemma set_partitionPinned [simp]:
  "set (partitionPinnedTabOrder order tabs moving) = insert moving (set order)"
  by (auto simp: partitionPinnedTabOrder_def Let_def)

lemma distinct_partitionPinned [simp]: "distinct (partitionPinnedTabOrder order tabs moving)"
  by (auto simp: partitionPinnedTabOrder_def Let_def)

lemma set_insertTabIdIntoOrder [simp]:
  "set (insertTabIdIntoOrder order tabs i p a) = insert i (set order)"
  by (auto simp: insertTabIdIntoOrder_def Let_def)

lemma distinct_insertTabIdIntoOrder [simp]: "distinct (insertTabIdIntoOrder order tabs i p a)"
  by (simp add: insertTabIdIntoOrder_def Let_def)

definition isReplaceablePreviewContentType :: "content_kind \<Rightarrow> bool" where
  "isReplaceablePreviewContentType k = (k \<in> {Editor_kind, Diff_kind, Conflict_review_kind, Check_details_kind})"

definition canReplacePreviewContentType :: "content_kind \<Rightarrow> tab_body \<Rightarrow> bool" where
  "canReplacePreviewContentType incoming existing =
     (case existing of
        Terminal_body c p \<Rightarrow> False
      | Content_body k \<Rightarrow>
          if isReplaceablePreviewContentType incoming then isReplaceablePreviewContentType k else k = incoming)"

subsection \<open>Pinned tabs first\<close>

definition pinned_first :: "(string \<Rightarrow> bool) \<Rightarrow> string list \<Rightarrow> bool" where
  "pinned_first pin order = (\<exists>n. list_all pin (take n order) \<and> list_all (\<lambda>i. \<not> pin i) (drop n order))"

lemma pinned_firstI: "list_all pin xs \<Longrightarrow> list_all (\<lambda>i. \<not> pin i) ys \<Longrightarrow> pinned_first pin (xs @ ys)"
  unfolding pinned_first_def by (intro exI [of _ "length xs"]) simp

lemma pinned_firstE:
  assumes "pinned_first pin order"
  obtains xs ys where "order = xs @ ys" "list_all pin xs" "list_all (\<lambda>i. \<not> pin i) ys"
  using assms unfolding pinned_first_def by (metis append_take_drop_id)

lemma partitionPinned_first: "pinned_first (pinned_in tabs) (partitionPinnedTabOrder order tabs moving)"
proof (cases "pinned_in tabs moving")
  case True
  let ?without = "filter (\<lambda>i. i \<noteq> moving) (dedupeTabOrder order)"
  have "pinned_first (pinned_in tabs) ((filter (pinned_in tabs) ?without @ [moving]) @ filter (\<lambda>i. \<not> pinned_in tabs i) ?without)"
    using True by (intro pinned_firstI) (simp_all add: list_all_iff)
  then show ?thesis by (simp add: partitionPinnedTabOrder_def Let_def)
next
  case False
  let ?without = "filter (\<lambda>i. i \<noteq> moving) (dedupeTabOrder order)"
  have "pinned_first (pinned_in tabs) (filter (pinned_in tabs) ?without @ (moving # filter (\<lambda>i. \<not> pinned_in tabs i) ?without))"
    using False by (intro pinned_firstI) (simp_all add: list_all_iff)
  then show ?thesis by (simp add: partitionPinnedTabOrder_def Let_def)
qed

lemma pinned_first_filter: "pinned_first pin xs \<Longrightarrow> pinned_first pin (filter P xs)"
  by (elim pinned_firstE) (auto simp: list_all_iff intro!: pinned_firstI)

lemma first_unpinned:
  assumes "list_all pin xs" and "list_all (\<lambda>i. \<not> pin i) ys"
  shows "(case find_index (\<lambda>i. \<not> pin i) (xs @ ys) of None \<Rightarrow> length (xs @ ys) | Some n \<Rightarrow> n) = length xs"
  using assms by (induction xs) (cases ys, auto split: option.splits)+

lemma pinned_first_insert:
  assumes "list_all pin xs" and "list_all (\<lambda>i. \<not> pin i) ys"
    and "(if pin i then n \<le> length xs else length xs \<le> n)"
  shows "pinned_first pin (insert_at n i (xs @ ys))"
proof (cases "pin i")
  case True
  with assms(3) have n: "n \<le> length xs" by simp
  then have "insert_at n i (xs @ ys) = insert_at n i xs @ ys" by (simp add: insert_at_def)
  moreover have "list_all pin (insert_at n i xs)" using assms(1) True by (simp add: list_all_iff)
  ultimately show ?thesis using assms(2) by (simp add: pinned_firstI)
next
  case False
  with assms(3) have n: "length xs \<le> n" by simp
  then have "insert_at n i (xs @ ys) = xs @ insert_at (n - length xs) i ys" by (simp add: insert_at_def)
  moreover have "list_all (\<lambda>i. \<not> pin i) (insert_at (n - length xs) i ys)" using assms(2) False by (simp add: list_all_iff)
  ultimately show ?thesis using assms(1) by (simp add: pinned_firstI)
qed

text \<open>A new tab never breaks the pinned run: it goes after an anchor of its own kind, else to the edge.\<close>

lemma insertTabIdIntoOrder_first:
  assumes "pinned_first (pinned_in tabs) order" and "distinct order" and "pinned_in tabs i = p"
  shows "pinned_first (pinned_in tabs) (insertTabIdIntoOrder order tabs i p a)"
proof -
  let ?pin = "pinned_in tabs" and ?order = "filter (\<lambda>j. j \<noteq> i) order"
  from pinned_first_filter [OF assms(1)] obtain xs ys where
    o: "?order = xs @ ys" "list_all ?pin xs" "list_all (\<lambda>i. \<not> ?pin i) ys" by (rule pinned_firstE)
  let ?anchor = "if truthy a then find_index (\<lambda>j. j = the a) (xs @ ys) else None"
  have edge: "(case find_index (\<lambda>i. \<not> ?pin i) (xs @ ys) of None \<Rightarrow> length (xs @ ys) | Some n \<Rightarrow> n) = length xs"
    by (rule first_unpinned [OF o(2,3)])
  have pin_iff: "?pin ((xs @ ys) ! n) \<longleftrightarrow> n < length xs" if "n < length (xs @ ys)" for n
    using o(2,3) that by (auto simp: nth_append list_all_length)
  have "pinned_first ?pin (insert_at
      (case ?anchor of None \<Rightarrow> if p then length xs else length (xs @ ys)
       | Some n \<Rightarrow> if ?pin ((xs @ ys) ! n) = p then n + 1 else length xs) i (xs @ ys))"
  proof (rule pinned_first_insert [OF o(2,3)], cases ?anchor)
    case None
    then show "if ?pin i then (case ?anchor of None \<Rightarrow> if p then length xs else length (xs @ ys)
         | Some n \<Rightarrow> if ?pin ((xs @ ys) ! n) = p then n + 1 else length xs) \<le> length xs
       else length xs \<le> (case ?anchor of None \<Rightarrow> if p then length xs else length (xs @ ys)
         | Some n \<Rightarrow> if ?pin ((xs @ ys) ! n) = p then n + 1 else length xs)"
      using assms(3) by simp
  next
    case (Some n)
    then have "n < length (xs @ ys)" by (auto split: if_splits dest: find_index_Some)
    with Some pin_iff [of n] show "if ?pin i then (case ?anchor of None \<Rightarrow> if p then length xs else length (xs @ ys)
         | Some n \<Rightarrow> if ?pin ((xs @ ys) ! n) = p then n + 1 else length xs) \<le> length xs
       else length xs \<le> (case ?anchor of None \<Rightarrow> if p then length xs else length (xs @ ys)
         | Some n \<Rightarrow> if ?pin ((xs @ ys) ! n) = p then n + 1 else length xs)"
      using assms(3) by auto
  qed
  then show ?thesis
    unfolding insertTabIdIntoOrder_def Let_def dedupeTabOrder_id [OF assms(2)] o(1) edge .
qed

subsection \<open>Moves that replay an order\<close>

definition remove_first :: "string \<Rightarrow> string list \<Rightarrow> string list" where
  "remove_first i is = remove1 i is"

fun slot_moves :: "nat \<Rightarrow> string list \<Rightarrow> string list \<Rightarrow> (string \<times> nat) list" where
  "slot_moves index [] current = []"
| "slot_moves index (i # rest) current =
     (if index < length current \<and> current ! index = i then slot_moves (Suc index) rest current
      else (i, index) # slot_moves (Suc index) rest (insert_at index i (remove_first i current)))"

definition others :: "string \<Rightarrow> string list \<Rightarrow> string list" where
  "others i order = filter (\<lambda>j. j \<noteq> i) order"

definition tabOrderMoves :: "string list \<Rightarrow> string list \<Rightarrow> (string \<times> nat) list" where
  "tabOrderMoves from_order to_order =
     (let held = dedupeTabOrder from_order in
      if length held \<noteq> length from_order \<or> sort held \<noteq> sort to_order then []
      else if from_order = to_order then []
      else case find (\<lambda>(index, i). others i from_order = others i to_order) (List.enumerate 0 to_order) of
        Some (index, i) \<Rightarrow> [(i, index)]
      | None \<Rightarrow> slot_moves 0 to_order from_order)"

text \<open>One move as \<open>moveTab\<close> applies it to the order of its group.\<close>

definition reorder_tab :: "string list \<Rightarrow> string \<Rightarrow> int \<Rightarrow> string list" where
  "reorder_tab order i index =
     (let rest = filter (\<lambda>j. j \<noteq> i) order in insert_at (clamp_index index (length rest)) i rest)"

definition replay_moves :: "(string \<times> nat) list \<Rightarrow> string list \<Rightarrow> string list" where
  "replay_moves moves order = foldl (\<lambda>o' (i, index). reorder_tab o' i (int index)) order moves"

lemma mset_reorder: "distinct order \<Longrightarrow> i \<in> set order \<Longrightarrow> mset (reorder_tab order i n) = mset order"
  by (simp add: reorder_tab_def Let_def filter_remove1)

lemma others_split: "distinct order \<Longrightarrow> order = xs @ i # ys \<Longrightarrow> others i order = xs @ ys"
  by (auto simp: others_def filter_absent)

lemma reorder_single:
  assumes "distinct from_order" and "distinct to_order" and "i < length to_order"
    and "others (to_order ! i) from_order = others (to_order ! i) to_order"
  shows "reorder_tab from_order (to_order ! i) (int i) = to_order"
proof -
  let ?x = "to_order ! i"
  have split: "to_order = take i to_order @ ?x # drop (Suc i) to_order" using assms(3) by (rule id_take_nth_drop)
  have "others ?x to_order = take i to_order @ drop (Suc i) to_order" by (rule others_split [OF assms(2) split])
  moreover have "clamp_index (int i) (length (take i to_order @ drop (Suc i) to_order)) = i"
    using assms(3) by (simp add: clamp_index_def)
  ultimately have "reorder_tab from_order ?x (int i) = take i to_order @ ?x # drop (Suc i) to_order"
    using assms(3,4) by (simp add: reorder_tab_def others_def [symmetric] Let_def insert_at_def)
  then show ?thesis using split by simp
qed

lemma slot_moves_replay:
  "distinct (done @ rest) \<Longrightarrow> mset current = mset (done @ rest) \<Longrightarrow> take (length done) current = done \<Longrightarrow>
     replay_moves (slot_moves (length done) rest current) current = done @ rest"
proof (induction rest arbitrary: "done" current)
  case Nil
  then have "length current = length done" by (metis append_Nil2 mset_eq_length)
  with Nil show ?case by (simp add: replay_moves_def)
next
  case (Cons i rest)
  have len: "length current = length done + Suc (length rest)"
    using mset_eq_length [OF Cons.prems(2)] by simp
  have dc: "distinct current" using Cons.prems(1,2) by (metis mset_eq_imp_distinct_iff)
  have cur: "current = done @ drop (length done) current" using Cons.prems(3) by (metis append_take_drop_id)
  have i_in: "i \<in> set current" using Cons.prems(2) by (metis in_set_conv_decomp mset_eq_setD)
  have i_done: "i \<notin> set done" using Cons.prems(1) by simp
  show ?case
  proof (cases "current ! length done = i")
    case True
    have "take (length (done @ [i])) current = done @ [i]"
      using Cons.prems(3) len True by (simp add: take_Suc_conv_app_nth)
    with Cons.IH [of "done @ [i]" current] Cons.prems(1,2) True len show ?thesis by simp
  next
    case False
    let ?next = "insert_at (length done) i (remove_first i current)"
    have rm: "remove_first i current = filter (\<lambda>j. j \<noteq> i) current"
      using dc by (simp add: remove_first_def filter_remove1)
    have split: "remove_first i current = done @ filter (\<lambda>j. j \<noteq> i) (drop (length done) current)"
      unfolding rm by (subst cur, subst filter_append) (simp add: filter_absent i_done)
    have lrm: "length done \<le> length (remove_first i current)" by (simp add: split)
    have step: "reorder_tab current i (int (length done)) = ?next"
      using lrm by (simp add: reorder_tab_def Let_def rm clamp_index_def min_absorb1)
    have m: "mset ?next = mset ((done @ [i]) @ rest)"
      using Cons.prems(2) i_in by (simp add: remove_first_def)
    have pre: "take (length (done @ [i])) ?next = done @ [i]"
      by (simp add: insert_at_def split)
    have "replay_moves (slot_moves (length (done @ [i])) rest ?next) ?next = (done @ [i]) @ rest"
      by (rule Cons.IH [OF _ m pre]) (use Cons.prems(1) in simp)
    then show ?thesis using False by (simp add: replay_moves_def step)
  qed
qed

lemma sort_eq_mset: "sort xs = sort ys \<longleftrightarrow> mset xs = mset ys"
  by (metis mset_sort properties_for_sort sort_key_simps(1) sorted_sort)

section \<open>Groups\<close>

definition orders :: "layout_group list \<Rightarrow> string list" where
  "orders gs = concat (map lg_tabOrder gs)"

definition listed :: "layout_group list \<Rightarrow> string \<Rightarrow> nat" where
  "listed gs i = count_list (orders gs) i"

lemma listed_simps [simp]:
  "listed [] i = 0" "listed (g # gs) i = count_list (lg_tabOrder g) i + listed gs i"
  by (simp_all add: listed_def orders_def)

lemma listed_append [simp]: "listed (gs @ hs) i = listed gs i + listed hs i"
  by (simp add: listed_def orders_def)

lemma orders_eq_iff: "mset (orders gs) = mset xs \<longleftrightarrow> (\<forall>i. listed gs i = count_list xs i)"
  by (simp add: multiset_eq_iff count_mset listed_def)

lemma listed_map:
  "(\<And>g. g \<in> set gs \<Longrightarrow> count_list (lg_tabOrder (f g)) i = count_list (lg_tabOrder g) i) \<Longrightarrow>
     listed (map f gs) i = listed gs i"
  by (induction gs) auto

lemma listed_nonempty: "listed (filter (\<lambda>g. lg_tabOrder g \<noteq> []) gs) i = listed gs i"
  by (induction gs) auto

lemma listed_pos: "g \<in> set gs \<Longrightarrow> i \<in> set (lg_tabOrder g) \<Longrightarrow> 0 < listed gs i"
  by (induction gs) (auto simp: count_pos)

lemma listed_0_iff: "listed gs i = 0 \<longleftrightarrow> (\<forall>g\<in>set gs. i \<notin> set (lg_tabOrder g))"
  by (induction gs) (auto simp: count_list_0_iff)

lemma listed_one_group:
  "distinct (map lg_id gs) \<Longrightarrow> t \<in> lg_id ` set gs \<Longrightarrow> (\<And>g. g \<in> set gs \<Longrightarrow>
     count_list (lg_tabOrder (f g)) i = (if lg_id g = t then n else 0)) \<Longrightarrow> listed (map f gs) i = n"
proof (induction gs)
  case Nil
  then show ?case by simp
next
  case (Cons g gs)
  show ?case
  proof (cases "lg_id g = t")
    case True
    with Cons.prems have "listed (map f gs) i = 0"
      by (auto simp: listed_0_iff count_list_0_iff [symmetric] image_iff)
    with True Cons.prems(3) show ?thesis by simp
  next
    case False
    with Cons show ?thesis by auto
  qed
qed

text \<open>With every tab listed once, the group that lists a tab is the only one.\<close>

lemma listed_one_owner:
  assumes "listed gs i = 1" and "g \<in> set gs" and "i \<in> set (lg_tabOrder g)"
    and "h \<in> set gs" and "i \<in> set (lg_tabOrder h)"
  shows "h = g"
proof (rule ccontr)
  assume "h \<noteq> g"
  from split_list [OF assms(2)] obtain as bs where gs: "gs = as @ g # bs" by blast
  with assms(4) \<open>h \<noteq> g\<close> have "h \<in> set (as @ bs)" by auto
  then have "0 < listed (as @ bs) i" using assms(5) by (rule listed_pos)
  moreover have "0 < count_list (lg_tabOrder g) i" using assms(3) by (rule count_pos)
  ultimately show False using assms(1) gs by simp
qed

lemma listed_one_count:
  "listed gs i \<le> 1 \<Longrightarrow> g \<in> set gs \<Longrightarrow> count_list (lg_tabOrder g) i \<le> 1"
  by (induction gs) auto

lemma count_list_filter_neq: "count_list (filter (\<lambda>j. j \<noteq> x) xs) i = (if i = x then 0 else count_list xs i)"
  by (induction xs) auto

subsection \<open>Trees of groups that are gone\<close>

fun collect_ids :: "tab_group_node \<Rightarrow> string list \<Rightarrow> string list" where
  "collect_ids (Leaf_node i) acc = set_add acc i"
| "collect_ids (Split_node d a b r) acc = collect_ids b (collect_ids a acc)"

definition collectTabGroupLayoutGroupIds :: "tab_group_node option \<Rightarrow> string list" where
  "collectTabGroupLayoutGroupIds n = (case n of None \<Rightarrow> [] | Some t \<Rightarrow> collect_ids t [])"

lemma collect_ids_props:
  "set (collect_ids t acc) = set (node_ids t) \<union> set acc" "distinct acc \<Longrightarrow> distinct (collect_ids t acc)"
  by (induction t arbitrary: acc) auto

lemma set_collectTabGroup [simp]: "set (collectTabGroupLayoutGroupIds n) = set (groupTreeIds n)"
  by (cases n) (simp_all add: collectTabGroupLayoutGroupIds_def collect_ids_props)

definition remove_group_leaf :: "tab_group_node option \<Rightarrow> string \<Rightarrow> tab_group_node option" where
  "remove_group_leaf n g = (case n of None \<Rightarrow> None | Some t \<Rightarrow> removeTabGroupLayoutLeaf t g)"

definition prune_dead_groups :: "string list \<Rightarrow> tab_group_node option \<Rightarrow> string list \<Rightarrow> tab_group_node option" where
  "prune_dead_groups live layout ids =
     foldl (\<lambda>l g. if g \<in> set live then l else remove_group_leaf l g) layout ids"

lemma remove_group_leaf_ids: "groupTreeIds (remove_group_leaf n g) = filter (\<lambda>i. i \<noteq> g) (groupTreeIds n)"
  by (cases n) (simp_all add: remove_group_leaf_def removeTabGroupLayoutLeaf_ids)

lemma prune_dead_groups_ids:
  "groupTreeIds (prune_dead_groups live l ids) = filter (\<lambda>i. i \<in> set live \<or> i \<notin> set ids) (groupTreeIds l)"
proof (induction ids arbitrary: l)
  case Nil
  then show ?case by (simp add: prune_dead_groups_def)
next
  case (Cons g ids)
  have "groupTreeIds (prune_dead_groups live (if g \<in> set live then l else remove_group_leaf l g) ids) =
    filter (\<lambda>i. i \<in> set live \<or> i \<notin> set (g # ids)) (groupTreeIds l)"
    unfolding Cons.IH by (auto simp: remove_group_leaf_ids intro!: filter_cong)
  then show ?case by (simp add: prune_dead_groups_def)
qed

lemma prune_live_ids:
  "groupTreeIds (prune_dead_groups live l (collectTabGroupLayoutGroupIds l')) = filter (\<lambda>i. i \<in> set live) (groupTreeIds l)"
  if "l' = l"
  using that by (auto simp: prune_dead_groups_ids intro!: filter_cong)

subsection \<open>Moving and splitting off a tab\<close>

definition group_of_tab :: "layout_group list \<Rightarrow> string \<Rightarrow> layout_group option" where
  "group_of_tab gs i = find (\<lambda>g. i \<in> set (lg_tabOrder g)) gs"

definition group_named :: "layout_group list \<Rightarrow> string \<Rightarrow> layout_group option" where
  "group_named gs g = find (\<lambda>x. lg_id x = g) gs"

definition moved_groups :: "layout_group list \<Rightarrow> string \<Rightarrow> string \<Rightarrow> string \<Rightarrow> int option \<Rightarrow> layout_group list" where
  "moved_groups gs source target tabId index =
     map (\<lambda>g. if lg_id g = source then g\<lparr>lg_tabOrder := filter (\<lambda>i. i \<noteq> tabId) (lg_tabOrder g)\<rparr>
              else if lg_id g = target then
                let order = filter (\<lambda>i. i \<noteq> tabId) (lg_tabOrder g);
                    slot = (case index of None \<Rightarrow> length order | Some n \<Rightarrow> clamp_index n (length order))
                in g\<lparr>lg_tabOrder := insert_at slot tabId order\<rparr>
              else g) gs"

definition buildHeadlessTabGroupMove ::
  "layout_group list \<Rightarrow> tab_group_node option \<Rightarrow> string \<Rightarrow> string \<Rightarrow> int option \<Rightarrow>
   (layout_group list \<times> tab_group_node option) option" where
  "buildHeadlessTabGroupMove gs layout tabId target index =
     (case (group_of_tab gs tabId, group_named gs target) of
        (Some source, Some t) \<Rightarrow>
          if lg_id source = target then None
          else let groups = filter (\<lambda>g. lg_tabOrder g \<noteq> []) (moved_groups gs (lg_id source) target tabId index)
               in Some (groups, prune_dead_groups (map lg_id groups) layout (collectTabGroupLayoutGroupIds layout))
      | _ \<Rightarrow> None)"

definition buildHeadlessTabGroupSplit ::
  "layout_group list \<Rightarrow> tab_group_node option \<Rightarrow> string \<Rightarrow> string \<Rightarrow> group_side \<Rightarrow> string \<Rightarrow>
   (layout_group list \<times> tab_group_node) option" where
  "buildHeadlessTabGroupSplit gs layout tabId target side new =
     (case group_of_tab gs tabId of
        None \<Rightarrow> None
      | Some source \<Rightarrow>
          if lg_id source = target \<and> length (lg_tabOrder source) \<le> 1 then None
          else let base = (case layout of None \<Rightarrow> Leaf_node target | Some t \<Rightarrow> t);
                   position = (if side_first side then First_position else Second_position);
                   tree = replaceLeaf base target (buildSplitNode target new (side_direction side) position);
                   sourceOrder = filter (\<lambda>i. i \<noteq> tabId) (lg_tabOrder source);
                   all = map (\<lambda>g. if lg_id g = lg_id source then g\<lparr>lg_tabOrder := sourceOrder\<rparr> else g) gs
                         @ [\<lparr>lg_id = new, lg_tabOrder = [tabId]\<rparr>];
                   groups = filter (\<lambda>g. lg_tabOrder g \<noteq> []) all
               in Some (groups,
                    case prune_dead_groups (map lg_id groups) (Some tree) (collectTabGroupLayoutGroupIds (Some tree)) of
                      None \<Rightarrow> Leaf_node new | Some t \<Rightarrow> t))"

end
