(* ===== verification/Layout_Identity.thy ===== *)
theory Layout_Identity
  imports Orc_Tasks Orc_Identity Layout_Types "HOL-Library.Word"
begin

text \<open>
  The names the layout derives and compares: name-based UUIDs
  (\<open>workspace-layout-minted-ids.ts\<close>, FNV-1a on 32-bit words), URI components, execution hosts and
  relay terminal ids (\<open>execution-host.ts\<close>, \<open>ssh-pty-id.ts\<close>), when two bindings show the same
  terminal (\<open>terminal-owner-invariants.ts\<close>), the ids of editor files
  (\<open>workspace-layout-editor-tab-file.ts\<close>) and the next free terminal title
  (\<open>terminal-tab-ordinal.ts\<close>). Text is a list of 8-bit code units.
\<close>

unbundle bit_operations_syntax

section \<open>Name-based UUIDs\<close>

definition fnv_lanes :: "32 word list" where
  "fnv_lanes = [0x811c9dc5, 0x01000193, 0x9e3779b9, 0x85ebca6b]"

definition fnv_prime :: "32 word" where
  "fnv_prime = 0x01000193"

definition nameBits :: "string \<Rightarrow> 32 word list" where
  "nameBits name =
     map (\<lambda>(lane, offset).
        foldl (\<lambda>hash c. (hash XOR of_nat (of_char c)) * fnv_prime) (offset XOR of_nat lane) name)
       (List.enumerate 0 fnv_lanes)"

definition hex_digit :: "nat \<Rightarrow> char" where
  "hex_digit n = ''0123456789abcdef'' ! n"

definition hex_nibble :: "32 word \<Rightarrow> nat \<Rightarrow> nat" where
  "hex_nibble w i = unat (drop_bit (4 * (7 - i)) w AND 15)"

definition padded_hex :: "32 word \<Rightarrow> string" where
  "padded_hex w = map (\<lambda>i. hex_digit (hex_nibble w i)) [0..<8]"

definition hex_value :: "char \<Rightarrow> nat option" where
  "hex_value c =
     (if is_digit c then Some (of_char c - 48)
      else if (97::nat) \<le> of_char c \<and> of_char c \<le> (102::nat) then Some (of_char c - 87)
      else if (65::nat) \<le> of_char c \<and> of_char c \<le> (70::nat) then Some (of_char c - 55)
      else None)"

definition nameBasedUuid :: "string \<Rightarrow> string" where
  "nameBasedUuid name =
     (let hex = concat (map padded_hex (nameBits name));
          variant = hex_digit ((the (hex_value (hex ! 16)) AND 3) OR 8)
      in array_slice 0 8 hex @ ''-'' @ array_slice 8 12 hex @ ''-5'' @ array_slice 13 16 hex @ ''-'' @
         [variant] @ array_slice 17 20 hex @ ''-'' @ array_slice 20 32 hex)"

definition rootGroupSeed :: "string \<Rightarrow> string" where
  "rootGroupSeed key = ''group:'' @ key"

definition workspaceRootGroupId :: "string \<Rightarrow> string" where
  "workspaceRootGroupId key = nameBasedUuid (rootGroupSeed key)"

lemma matches_classes_append:
  "matches_classes ps xs \<Longrightarrow> matches_classes qs ys \<Longrightarrow> matches_classes (ps @ qs) (xs @ ys)"
  by (induction ps xs rule: matches_classes.induct) simp_all

lemma matches_classes_replicate: "matches_classes (replicate n p) xs \<longleftrightarrow> length xs = n \<and> list_all p xs"
proof (induction n arbitrary: xs)
  case 0
  then show ?case by (cases xs) simp_all
next
  case (Suc n)
  then show ?case by (cases xs) auto
qed

lemma hex_nibble_less: "hex_nibble w i < 16"
proof -
  have "drop_bit (4 * (7 - i)) w AND 15 \<le> 15" by (rule word_and_le1)
  then show ?thesis unfolding hex_nibble_def by (simp add: word_le_nat_alt)
qed

lemma hex_digit_cases: "n < 16 \<Longrightarrow> is_hex (hex_digit n) \<and> hex_value (hex_digit n) = Some n"
proof -
  assume "n < 16"
  then have "n \<in> set [0..<16]" by simp
  moreover have "\<forall>n\<in>set [0..<16]. is_hex (hex_digit n) \<and> hex_value (hex_digit n) = Some n" by code_simp
  ultimately show ?thesis by blast
qed

lemma padded_hex_props: "length (padded_hex w) = 8" "list_all is_hex (padded_hex w)"
  by (simp_all add: padded_hex_def list_all_iff hex_digit_cases hex_nibble_less)

lemma length_nameBits [simp]: "length (nameBits name) = 4"
  by (simp add: nameBits_def fnv_lanes_def)

lemma name_hex:
  "length (concat (map padded_hex (nameBits name))) = 32" "list_all is_hex (concat (map padded_hex (nameBits name)))"
proof -
  obtain a b c d where n: "nameBits name = [a, b, c, d]"
    by (simp add: nameBits_def fnv_lanes_def)
  show "length (concat (map padded_hex (nameBits name))) = 32" by (simp add: n padded_hex_props)
  show "list_all is_hex (concat (map padded_hex (nameBits name)))" by (simp add: n padded_hex_props)
qed

lemma slice_hex:
  assumes "list_all is_hex xs" and "j \<le> length xs"
  shows "matches_classes (replicate (j - i) is_hex) (array_slice i j xs)"
  using assms unfolding matches_classes_replicate array_slice_def list_all_iff
  by (auto dest: in_set_dropD in_set_takeD)

lemma variant_digit: "hex_digit ((n AND 3) OR 8) \<in> set ''89ab''"
proof -
  have "n AND 3 = n mod 4" using take_bit_eq_mask [of 2 n] by (simp add: take_bit_eq_mod mask_eq_exp_minus_1)
  then have "n AND 3 \<in> set [0..<4]" by simp
  moreover have "\<forall>m\<in>set [0..<4]. hex_digit (m OR 8) \<in> set ''89ab''" by code_simp
  ultimately show ?thesis by blast
qed

lemma nameBasedUuid_leaf: "isTerminalLeafId (nameBasedUuid name)"
proof -
  let ?hex = "concat (map padded_hex (nameBits name))"
  note m = slice_hex [OF name_hex(2) [of name]]
  have s: "matches_classes (replicate 8 is_hex) (array_slice 0 8 ?hex)"
    "matches_classes (replicate 4 is_hex) (array_slice 8 12 ?hex)"
    "matches_classes (replicate 3 is_hex) (array_slice 13 16 ?hex)"
    "matches_classes (replicate 3 is_hex) (array_slice 17 20 ?hex)"
    "matches_classes (replicate 12 is_hex) (array_slice 20 32 ?hex)"
    using m [of 8 0] m [of 12 8] m [of 16 13] m [of 20 17] m [of 32 20] by (simp_all add: name_hex(1))
  have five: "matches_classes [\<lambda>c. (49::nat) \<le> of_char c \<and> of_char c \<le> (53::nat)] ''5''" by simp
  have dash: "matches_classes [(=) CHR ''-''] ''-''" by simp
  have v: "matches_classes [\<lambda>c. c \<in> set ''89ab''] [hex_digit ((the (hex_value (?hex ! 16)) AND 3) OR 8)]"
    using variant_digit by simp
  have dash5: "''-5'' @ t = ''-'' @ ''5'' @ t" for t by simp
  show ?thesis
    unfolding isTerminalLeafId_def isStablePaneId_def uuid_classes_def nameBasedUuid_def Let_def dash5
    by (intro matches_classes_append s five dash v)
qed

section \<open>URI components, hosts and relay terminals\<close>

text \<open>\<open>encodeURIComponent\<close>: the unreserved marks stay, every other code unit is its UTF-8 bytes.\<close>

definition percent_byte :: "nat \<Rightarrow> string" where
  "percent_byte n = [CHR ''%'', ''0123456789ABCDEF'' ! (n div 16), ''0123456789ABCDEF'' ! (n mod 16)]"

definition encode_unit :: "char \<Rightarrow> string" where
  "encode_unit c =
     (let n = (of_char c :: nat) in
      if is_alnum c \<or> c \<in> set ''-_.!~*()'' \<or> n = 39 then [c]
      else if n < 128 then percent_byte n
      else percent_byte (192 + n div 64) @ percent_byte (128 + n mod 64))"

definition encodeURIComponent :: "string \<Rightarrow> string" where
  "encodeURIComponent s = concat (map encode_unit s)"

text \<open>\<open>decodeURIComponent\<close>, to code points; \<open>None\<close> is the thrown \<open>URIError\<close>.\<close>

definition percent_octet :: "string \<Rightarrow> (nat \<times> string) option" where
  "percent_octet s =
     (case s of
        p # h # l # rest \<Rightarrow>
          (if p = CHR ''%'' then
             (case (hex_value h, hex_value l) of (Some a, Some b) \<Rightarrow> Some (16 * a + b, rest) | _ \<Rightarrow> None)
           else None)
      | _ \<Rightarrow> None)"

fun continuation_octets :: "nat \<Rightarrow> string \<Rightarrow> (nat list \<times> string) option" where
  "continuation_octets 0 s = Some ([], s)"
| "continuation_octets (Suc n) s =
     (case percent_octet s of
        None \<Rightarrow> None
      | Some (b, rest) \<Rightarrow>
          if 128 \<le> b \<and> b < 192 then
            (case continuation_octets n rest of None \<Rightarrow> None | Some (bs, r) \<Rightarrow> Some (b mod 64 # bs, r))
          else None)"

lemma percent_octet_shorter: "percent_octet s = Some (b, rest) \<Longrightarrow> length rest < length s"
  by (auto simp: percent_octet_def split: list.splits if_splits option.splits)

lemma continuation_octets_shorter: "continuation_octets n s = Some (bs, rest) \<Longrightarrow> length rest \<le> length s"
  by (induction n s arbitrary: bs rest rule: continuation_octets.induct)
    (force split: option.splits if_splits dest: percent_octet_shorter)+

definition utf8_point :: "nat \<Rightarrow> nat list \<Rightarrow> nat option" where
  "utf8_point lead bs =
     (let v = foldl (\<lambda>n b. 64 * n + b) lead bs in
      case length bs of
        Suc 0 \<Rightarrow> if 0x80 \<le> v then Some v else None
      | Suc (Suc 0) \<Rightarrow> if 0x800 \<le> v \<and> \<not> (0xd800 \<le> v \<and> v < 0xe000) then Some v else None
      | _ \<Rightarrow> if 0x10000 \<le> v \<and> v \<le> 0x10ffff then Some v else None)"

definition octet_lead :: "nat \<Rightarrow> (nat \<times> nat) option" where
  "octet_lead b =
     (if b < 192 then None else if b < 224 then Some (1, b - 192)
      else if b < 240 then Some (2, b - 224) else if b < 248 then Some (3, b - 240) else None)"

function decodeURIComponent :: "string \<Rightarrow> nat list option" where
  "decodeURIComponent [] = Some []"
| "decodeURIComponent (c # cs) =
     (if c \<noteq> CHR ''%'' then map_option (Cons (of_char c)) (decodeURIComponent cs)
      else case percent_octet (c # cs) of
        None \<Rightarrow> None
      | Some (b, rest) \<Rightarrow>
          if b < 128 then map_option (Cons b) (decodeURIComponent rest)
          else (case octet_lead b of
            None \<Rightarrow> None
          | Some (n, lead) \<Rightarrow>
              (case continuation_octets n rest of
                 None \<Rightarrow> None
               | Some (bs, rest') \<Rightarrow>
                   (case utf8_point lead bs of
                      None \<Rightarrow> None
                    | Some v \<Rightarrow> map_option (Cons v) (decodeURIComponent rest')))))"
  by pat_completeness auto
termination
  by (relation "measure length") (auto dest!: percent_octet_shorter continuation_octets_shorter)

datatype host_kind = Host_local | Host_ssh | Host_runtime

definition parse_encoded_host :: "host_kind \<Rightarrow> string \<Rightarrow> host_kind option" where
  "parse_encoded_host kind encoded =
     (if encoded = [] \<or> CHR ''|'' \<in> set encoded then None
      else case decodeURIComponent encoded of
        None \<Rightarrow> None
      | Some target \<Rightarrow> if target \<noteq> [] then Some kind else None)"

text \<open>The kind \<open>parseExecutionHostId\<close> finds; the ids it also returns are not used by the layout.\<close>

definition parseExecutionHostId :: "string \<Rightarrow> host_kind option" where
  "parseExecutionHostId v =
     (let normalized = trim v in
      if normalized = [] then None
      else if normalized = ''local'' then Some Host_local
      else case strip_prefix ''ssh:'' normalized of
        Some encoded \<Rightarrow> parse_encoded_host Host_ssh encoded
      | None \<Rightarrow>
          (case strip_prefix ''runtime:'' normalized of
             Some encoded \<Rightarrow> parse_encoded_host Host_runtime encoded
           | None \<Rightarrow> None))"

definition isTerminalOwnerPartition :: "string \<Rightarrow> bool" where
  "isTerminalOwnerPartition hostId = (parseExecutionHostId hostId \<in> {Some Host_local, Some Host_ssh})"

definition parseAppSshPtyId :: "string \<Rightarrow> (nat list \<times> string) option" where
  "parseAppSshPtyId ptyId =
     (case strip_prefix ''ssh:'' ptyId of
        None \<Rightarrow> None
      | Some rest \<Rightarrow>
          (case split_at_mark ''@@'' rest of
             None \<Rightarrow> None
           | Some (encoded, relayId) \<Rightarrow>
               if encoded = [] \<or> relayId = [] then None
               else map_option (\<lambda>connection. (connection, relayId)) (decodeURIComponent encoded)))"

definition isRepeatingRelayPtyId :: "string \<Rightarrow> bool" where
  "isRepeatingRelayPtyId ptyId =
     (case parseAppSshPtyId ptyId of
        None \<Rightarrow> False
      | Some (connection, relayId) \<Rightarrow>
          (case strip_prefix ''pty-'' relayId of None \<Rightarrow> False | Some n \<Rightarrow> all_digits n))"

text \<open>A binding: the terminal's id and, when the host observed it, its incarnation.\<close>

definition isSameTerminal :: "string option \<times> string option \<Rightarrow> string option \<times> string option \<Rightarrow> bool" where
  "isSameTerminal left right =
     (case fst left of
        None \<Rightarrow> False
      | Some pty \<Rightarrow>
          if fst left \<noteq> fst right then False
          else (case (snd left, snd right) of
                  (Some a, Some b) \<Rightarrow> a = b
                | _ \<Rightarrow> \<not> isRepeatingRelayPtyId pty))"

lemma isSameTerminal_sym: "isSameTerminal a b = isSameTerminal b a"
  by (cases a; cases b) (auto simp: isSameTerminal_def split: option.splits)

definition getRepoIdFromWorktreeId :: "string \<Rightarrow> string" where
  "getRepoIdFromWorktreeId worktreeId =
     (case split_at_mark ''::'' worktreeId of None \<Rightarrow> worktreeId | Some (repo, path) \<Rightarrow> repo)"

datatype exit_cause_kind = Cause_operator_close | Cause_signaled | Cause_exited | Cause_unknown

definition resolveProcessExitCause :: "int \<Rightarrow> int option \<Rightarrow> bool option \<Rightarrow> exit_cause_kind" where
  "resolveProcessExitCause exitCode signal hostReports =
     (if hostReports = Some False then Cause_unknown
      else if (case signal of Some s \<Rightarrow> s > 0 | None \<Rightarrow> False) then Cause_signaled
      else if exitCode < 0 then Cause_unknown
      else Cause_exited)"

definition isProvenProcessExit :: "int \<Rightarrow> bool" where
  "isProvenProcessExit exitCode = (resolveProcessExitCause exitCode None None \<noteq> Cause_unknown)"

lemma isProvenProcessExit_iff [simp]: "isProvenProcessExit n \<longleftrightarrow> 0 \<le> n"
  by (simp add: isProvenProcessExit_def resolveProcessExitCause_def)

definition isPaneSleepRecord :: "'a layout_sleeping_scheme \<Rightarrow> bool" where
  "isPaneSleepRecord r = (ls_origin r = None \<or> ls_origin r = Some Origin_worktree_sleep)"

section \<open>Editor files\<close>

definition ownedEditorFileId :: "string \<Rightarrow> string \<Rightarrow> string option \<Rightarrow> string" where
  "ownedEditorFileId filePath worktreeId runtime =
     (let trimmed = (case runtime of None \<Rightarrow> [] | Some r \<Rightarrow> trim r);
          runtimeKey = (if trimmed = [] then ''local'' else trimmed)
      in ''editor:'' @ encodeURIComponent worktreeId @ '':'' @ encodeURIComponent runtimeKey @ '':''
         @ encodeURIComponent filePath)"

definition editorTabShowsFile :: "bool \<Rightarrow> string \<Rightarrow> editor_file \<Rightarrow> string \<Rightarrow> bool" where
  "editorTabShowsFile own entityId f worktreeId =
     (entityId = ef_filePath f \<or>
      own \<and> entityId = ownedEditorFileId (ef_filePath f) worktreeId (ef_runtimeEnvironmentId f))"

definition editorFileKey :: "bool \<Rightarrow> editor_file \<Rightarrow> string" where
  "editorFileKey own f =
     (if own then ownedEditorFileId (ef_filePath f) [] (ef_runtimeEnvironmentId f) else ef_filePath f)"

definition sameEditorFile :: "bool \<Rightarrow> editor_file \<Rightarrow> editor_file \<Rightarrow> bool" where
  "sameEditorFile own a b = (editorFileKey own a = editorFileKey own b)"

definition holdsEditorFileId :: "bool \<Rightarrow> workspace_layout \<Rightarrow> string \<Rightarrow> bool" where
  "holdsEditorFileId own w fileId =
     (\<exists>f\<in>set (wl_editorFiles w). editorTabShowsFile own fileId f (wl_worktreeId w))"

text \<open>\<open>editorTabFiles\<close>, reached in layout-owner builds only.\<close>

definition editorTabFiles :: "workspace_layout \<Rightarrow> string \<Rightarrow> editor_file list" where
  "editorTabFiles w entityId =
     (let shown = filter (\<lambda>f. editorTabShowsFile True entityId f (wl_worktreeId w)) (wl_editorFiles w) in
      if length shown < 2 then shown
      else let ids = map lt_entityId (wl_tabs w);
               unclaimed = filter (\<lambda>f. ownedEditorFileId (ef_filePath f) (wl_worktreeId w)
                 (ef_runtimeEnvironmentId f) \<notin> set ids) shown
           in if unclaimed \<noteq> [] then unclaimed else shown)"

definition editorTabFile :: "bool \<Rightarrow> workspace_layout \<Rightarrow> string \<Rightarrow> editor_file option" where
  "editorTabFile own w entityId =
     (if own then (case editorTabFiles w entityId of [] \<Rightarrow> None | f # fs \<Rightarrow> Some f)
      else find (\<lambda>f. editorTabShowsFile own entityId f (wl_worktreeId w)) (wl_editorFiles w))"

definition keptAfterEditorClose :: "workspace_layout \<Rightarrow> workspace_layout \<Rightarrow> string \<Rightarrow> editor_file \<Rightarrow> bool" where
  "keptAfterEditorClose before after entityId f =
     (f \<notin> set (editorTabFiles before entityId) \<or>
      (\<exists>t\<in>set (wl_tabs after). f \<in> set (editorTabFiles before (lt_entityId t))))"

definition editorOpenFileId :: "bool \<Rightarrow> workspace_layout \<Rightarrow> editor_file \<Rightarrow> string" where
  "editorOpenFileId own w f =
     (case find (\<lambda>t. has_kind Editor_kind t \<and>
          (case editorTabFile own w (lt_entityId t) of None \<Rightarrow> False | Some r \<Rightarrow> sameEditorFile own r f)) (wl_tabs w) of
        Some t \<Rightarrow> lt_entityId t
      | None \<Rightarrow> ownedEditorFileId (ef_filePath f) (wl_worktreeId w) (ef_runtimeEnvironmentId f))"

section \<open>The next terminal title\<close>

definition terminal_ordinal :: "string \<Rightarrow> nat option" where
  "terminal_ordinal title =
     (case strip_prefix ''Terminal '' title of
        None \<Rightarrow> None | Some n \<Rightarrow> if all_digits n then Some (decimal_value n) else None)"

function next_unused :: "nat list \<Rightarrow> nat \<Rightarrow> nat" where
  "next_unused used n = (if n \<in> set used then next_unused used (Suc n) else n)"
  by pat_completeness auto
termination
proof (relation "measure (\<lambda>(used, n). card {m \<in> set used. n \<le> m})")
  fix used :: "nat list" and n assume n: "n \<in> set used"
  have "n \<in> {m \<in> set used. n \<le> m}" "n \<notin> {m \<in> set used. Suc n \<le> m}" using n by simp_all
  moreover have "{m \<in> set used. Suc n \<le> m} \<subseteq> {m \<in> set used. n \<le> m}" by (rule Collect_mono) simp
  ultimately have "{m \<in> set used. Suc n \<le> m} \<subset> {m \<in> set used. n \<le> m}" by blast
  then show "((used, Suc n), (used, n)) \<in> measure (\<lambda>(used, n). card {m \<in> set used. n \<le> m})"
    by (simp add: psubset_card_mono)
qed simp

declare next_unused.simps [simp del]

definition getNextTerminalOrdinal :: "(string option \<times> string) list \<Rightarrow> nat" where
  "getNextTerminalOrdinal tabs =
     next_unused (List.map_filter (\<lambda>(defaultTitle, title).
        terminal_ordinal (case defaultTitle of Some t \<Rightarrow> t | None \<Rightarrow> title)) tabs) 1"

lemma next_unused_free: "next_unused used n \<notin> set used" "n \<le> next_unused used n"
proof (induction used n rule: next_unused.induct)
  case (1 used n)
  { case 1 with "1.IH" show ?case by (cases "n \<in> set used") (simp_all add: next_unused.simps [of used n]) next
    case 2 with "1.IH" show ?case by (cases "n \<in> set used") (simp_all add: next_unused.simps [of used n]) }
qed

lemma next_unused_least: "n \<le> m \<Longrightarrow> m < next_unused used n \<Longrightarrow> m \<in> set used"
proof (induction used n rule: next_unused.induct)
  case (1 used n)
  show ?case
  proof (cases "n \<in> set used")
    case True
    then have u: "next_unused used n = next_unused used (Suc n)" by (simp add: next_unused.simps [of used n])
    show ?thesis
    proof (cases "m = n")
      case False
      with "1.IH" [OF True] "1.prems" u show ?thesis by simp
    qed (use True in simp)
  next
    case False
    then have "next_unused used n = n" by (simp add: next_unused.simps [of used n])
    with "1.prems" show ?thesis by simp
  qed
qed

lemma next_unused_bound: "next_unused used n \<le> n + length used"
proof -
  have "{n..<next_unused used n} \<subseteq> set used" using next_unused_least [of n _ used] by auto
  then have "card {n..<next_unused used n} \<le> card (set used)" by (rule card_mono [rotated]) simp
  also have "\<dots> \<le> length used" by (rule card_length)
  finally show ?thesis by simp
qed

definition terminal_title :: "nat \<Rightarrow> string" where
  "terminal_title n = ''Terminal '' @ decimal_digits n"

lemma terminal_ordinal_title: "terminal_ordinal (terminal_title n) = Some n"
  using decimal_digits_ok [of n]
  by (simp add: terminal_ordinal_def terminal_title_def strip_prefix_def starts_with_def)

end
