(* ===== verification/Layout_Steps.thy ===== *)
theory Layout_Steps
  imports Layout_Order Layout_Identity
begin

text \<open>
  The steps every command is written in (\<open>workspace-layout-command-steps.ts\<close>,
  \<open>workspace-layout-removal.ts\<close>), the bookkeeping older builds read
  (\<open>workspace-layout-legacy-persistence.ts\<close>) and the record of panes a live edit dropped
  (\<open>workspace-layout-dropped-leaves.ts\<close>, \<open>closed-terminal-panes.ts\<close>). A command is guarded
  by the existence of its workspace; \<open>workspaceOrEmpty\<close> also reads the accesses the code asserts.
\<close>

fun find_map :: "('a \<Rightarrow> 'b option) \<Rightarrow> 'a list \<Rightarrow> 'b option" where
  "find_map f [] = None"
| "find_map f (x # xs) = (case f x of Some y \<Rightarrow> Some y | None \<Rightarrow> find_map f xs)"

lemma find_map_SomeD: "find_map f xs = Some y \<Longrightarrow> \<exists>x\<in>set xs. f x = Some y"
  by (induction xs) (auto split: option.splits)

section \<open>Reading and writing the model\<close>

definition ws_find :: "layout_model \<Rightarrow> string \<Rightarrow> workspace_layout option" where
  "ws_find m k = map_of (lm_workspaces m) k"

definition workspaceOrEmpty :: "layout_model \<Rightarrow> string \<Rightarrow> workspace_layout" where
  "workspaceOrEmpty m k = (case ws_find m k of Some w \<Rightarrow> w | None \<Rightarrow> empty_workspace k)"

definition withWorkspace :: "layout_model \<Rightarrow> string \<Rightarrow> workspace_layout \<Rightarrow> layout_model" where
  "withWorkspace m k w = m\<lparr>lm_workspaces := AList.update k w (lm_workspaces m)\<rparr>"

definition workspaces_of :: "layout_model \<Rightarrow> workspace_layout list" where
  "workspaces_of m = map snd (lm_workspaces m)"

lemma ws_find_with [simp]: "ws_find (withWorkspace m k w) k' = (if k' = k then Some w else ws_find m k')"
  by (simp add: ws_find_def withWorkspace_def update_conv')

lemma workspaceOrEmpty_with [simp]:
  "workspaceOrEmpty (withWorkspace m k w) k' = (if k' = k then w else workspaceOrEmpty m k')"
  by (simp add: workspaceOrEmpty_def)

lemma workspaceOrEmpty_Some: "ws_find m k = Some w \<Longrightarrow> workspaceOrEmpty m k = w"
  by (simp add: workspaceOrEmpty_def)

definition refuse :: "refusal_code \<Rightarrow> layout_applied" where
  "refuse code = Inl code"

definition applied ::
  "layout_model \<Rightarrow> command_result \<Rightarrow> string list \<Rightarrow> string list \<Rightarrow> (string \<times> pane_outcome option) list \<Rightarrow> layout_applied" where
  "applied m res stop start outcomes =
     Inr \<lparr>al_model = m, al_result = res, al_stopPtyIds = stop, al_startPaneKeys = start, al_outcomes = outcomes\<rparr>"

abbreviation applied_only :: "layout_model \<Rightarrow> layout_applied" where
  "applied_only m \<equiv> applied m no_result [] [] []"

definition findTab :: "workspace_layout \<Rightarrow> string \<Rightarrow> layout_tab option" where
  "findTab w i = find (\<lambda>t. lt_id t = i) (wl_tabs w)"

definition findTerminal :: "workspace_layout \<Rightarrow> string \<Rightarrow> layout_tab option" where
  "findTerminal w i = (case findTab w i of Some t \<Rightarrow> if is_terminal t then Some t else None | None \<Rightarrow> None)"

definition replaceTab :: "workspace_layout \<Rightarrow> layout_tab \<Rightarrow> workspace_layout" where
  "replaceTab w t = w\<lparr>wl_tabs := map (\<lambda>e. if lt_id e = lt_id t then t else e) (wl_tabs w)\<rparr>"

definition updateTab :: "layout_model \<Rightarrow> string \<Rightarrow> layout_tab \<Rightarrow> layout_applied" where
  "updateTab m k t = applied_only (withWorkspace m k (replaceTab (workspaceOrEmpty m k) t))"

definition leafIdsOf :: "layout_tab \<Rightarrow> string list" where
  "leafIdsOf t = collectLayoutLeafIdsInOrder (lp_root (tab_panes t))"

definition leaf_at :: "workspace_layout \<Rightarrow> string \<Rightarrow> layout_leaf option" where
  "leaf_at w l = map_of (wl_leaves w) l"

definition leaf_or_empty :: "workspace_layout \<Rightarrow> string \<Rightarrow> layout_leaf" where
  "leaf_or_empty w l = (case leaf_at w l of Some x \<Rightarrow> x | None \<Rightarrow> empty_leaf)"

definition leaf_pty :: "workspace_layout \<Rightarrow> string \<Rightarrow> string option" where
  "leaf_pty w l = lf_ptyId (leaf_or_empty w l)"

definition boundPtyIds :: "workspace_layout \<Rightarrow> layout_tab \<Rightarrow> string list" where
  "boundPtyIds w t = (if is_terminal t then List.map_filter (leaf_pty w) (leafIdsOf t) else [])"

definition setLeaf :: "workspace_layout \<Rightarrow> string \<Rightarrow> layout_leaf \<Rightarrow> workspace_layout" where
  "setLeaf w l x = w\<lparr>wl_leaves :=
     (if x = empty_leaf then AList.delete l (AList.update l x (wl_leaves w)) else AList.update l x (wl_leaves w))\<rparr>"

definition locatePane :: "workspace_layout \<Rightarrow> string \<Rightarrow> (layout_tab \<times> string) option" where
  "locatePane w key = find_map (\<lambda>t.
     if \<not> is_terminal t then None
     else case find (\<lambda>l. paneKeyOf (lt_entityId t) l = key) (leafIdsOf t) of
       Some l \<Rightarrow> if l \<noteq> [] then Some (t, l) else None
     | None \<Rightarrow> None) (wl_tabs w)"

lemma leaf_at_setLeaf:
  "leaf_at (setLeaf w l x) l' = (if l' = l then (if x = empty_leaf then None else Some x) else leaf_at w l')"
  by (simp add: leaf_at_def setLeaf_def delete_conv' update_conv')

lemma leaf_or_empty_setLeaf: "leaf_or_empty (setLeaf w l x) l' = (if l' = l then x else leaf_or_empty w l')"
  by (simp add: leaf_or_empty_def leaf_at_setLeaf)

section \<open>Placing a new tab\<close>

definition firstGroupId :: "string \<Rightarrow> tab_placement \<Rightarrow> layout_context \<Rightarrow> string" where
  "firstGroupId key placement ctx =
     (if lc_owner ctx then (case tp_groupId placement of Some g \<Rightarrow> g | None \<Rightarrow> workspaceRootGroupId key)
      else lc_mintId ctx Mint_first_group)"

definition first_group :: "layout_group list \<Rightarrow> layout_group option" where
  "first_group gs = (case gs of [] \<Rightarrow> None | g # _ \<Rightarrow> Some g)"

definition anchor_group :: "layout_group list \<Rightarrow> tab_placement \<Rightarrow> layout_group option" where
  "anchor_group gs placement =
     (if truthy (tp_afterTabId placement) then group_of_tab gs (the (tp_afterTabId placement)) else None)"

definition placement_group :: "layout_group list \<Rightarrow> tab_placement \<Rightarrow> layout_group option" where
  "placement_group gs placement =
     orElse (Option.bind (tp_groupId placement) (group_named gs)) (orElse (anchor_group gs placement) (first_group gs))"

definition placed_order ::
  "layout_group \<Rightarrow> layout_tab list \<Rightarrow> layout_tab \<Rightarrow> tab_placement \<Rightarrow> layout_group list \<Rightarrow> string list" where
  "placed_order g tabs tab placement gs =
     (case tp_index placement of
        Some index \<Rightarrow>
          let order = filter (\<lambda>i. i \<noteq> lt_id tab) (lg_tabOrder g)
          in insert_at (clamp_index index (length order)) (lt_id tab) order
      | None \<Rightarrow>
          insertTabIdIntoOrder (lg_tabOrder g) tabs (lt_id tab) (lt_isPinned tab)
            (if anchor_group gs placement = Some g then tp_afterTabId placement else None))"

definition placeNewTab ::
  "workspace_layout \<Rightarrow> string \<Rightarrow> layout_tab \<Rightarrow> tab_placement \<Rightarrow> layout_context \<Rightarrow> workspace_layout" where
  "placeNewTab w key tab placement ctx =
     (let tabs = wl_tabs w @ [tab];
          (g, groups) = (case placement_group (wl_groups w) placement of
             Some g \<Rightarrow> (g, wl_groups w)
           | None \<Rightarrow> let g = \<lparr>lg_id = firstGroupId key placement ctx, lg_tabOrder = []\<rparr> in (g, wl_groups w @ [g]));
          placed = g\<lparr>lg_tabOrder := placed_order g tabs tab placement (wl_groups w)\<rparr>
      in w\<lparr>wl_tabs := tabs, wl_groups := map (\<lambda>e. if lg_id e = lg_id placed then placed else e) groups\<rparr>)"

section \<open>Removal\<close>

definition findTerminalTab :: "layout_model \<Rightarrow> string \<Rightarrow> (string \<times> layout_tab) option" where
  "findTerminalTab m entity = find_map (\<lambda>(k, w).
     map_option (Pair k) (find (\<lambda>t. is_terminal t \<and> lt_entityId t = entity) (wl_tabs w))) (lm_workspaces m)"

fun remove_from_groups ::
  "string \<Rightarrow> layout_group list \<Rightarrow> tab_group_node option \<Rightarrow> layout_group list \<times> tab_group_node option" where
  "remove_from_groups i [] tree = ([], tree)"
| "remove_from_groups i (g # gs) tree =
     (if i \<notin> set (lg_tabOrder g) then
        let (rest, tree') = remove_from_groups i gs tree in (g # rest, tree')
      else
        let order = filter (\<lambda>j. j \<noteq> i) (lg_tabOrder g) in
        if order = [] then
          remove_from_groups i gs (case tree of None \<Rightarrow> None | Some t \<Rightarrow> removeGroupLayoutLeaf t (lg_id g))
        else
          let (rest, tree') = remove_from_groups i gs tree in (g\<lparr>lg_tabOrder := order\<rparr> # rest, tree'))"

definition removeTabFromWorkspace :: "workspace_layout \<Rightarrow> string \<Rightarrow> workspace_layout" where
  "removeTabFromWorkspace w i =
     (let (groups, tree) = remove_from_groups i (wl_groups w) (wl_groupLayout w)
      in w\<lparr>wl_tabs := filter (\<lambda>t. lt_id t \<noteq> i) (wl_tabs w), wl_groups := groups, wl_groupLayout := tree\<rparr>)"

definition remove_pane :: "pane_node option \<Rightarrow> string \<Rightarrow> pane_node option" where
  "remove_pane tree l = (case tree of None \<Rightarrow> None | Some t \<Rightarrow> removeLayoutLeaf t l)"

lemma remove_pane_ids [node_simps]:
  "collectLayoutLeafIdsInOrder (remove_pane t l) = filter (\<lambda>i. i \<noteq> l) (collectLayoutLeafIdsInOrder t)"
  by (cases t) (simp_all add: remove_pane_def removeLayoutLeaf_ids)

definition without_pane :: "layout_panes \<Rightarrow> string \<Rightarrow> layout_panes" where
  "without_pane p l = \<lparr>lp_root = remove_pane (lp_root p) l,
     lp_chatLeafId = (if lp_chatLeafId p = Some l then None else lp_chatLeafId p)\<rparr>"

definition retireTerminalPane :: "layout_model \<Rightarrow> string \<Rightarrow> layout_tab \<Rightarrow> string \<Rightarrow> layout_model" where
  "retireTerminalPane m k tab l =
     (let w = workspaceOrEmpty m k;
          panes = without_pane (tab_panes tab) l;
          next_w = (if lp_root panes = None then removeTabFromWorkspace w (lt_id tab)
            else replaceTab w (with_panes tab panes))
      in withWorkspace m k (next_w\<lparr>wl_leaves := withoutKey (wl_leaves next_w) l\<rparr>))"

record exited_surface =
  es_worktreeId :: string
  es_terminalTabId :: string
  es_leafId :: string
  es_ptyId :: string
  es_incarnationId :: "string option"

datatype exited_location = Located string layout_tab | Surface_gone | Surface_replaced

definition locateExitedSurface :: "layout_model \<Rightarrow> exited_surface \<Rightarrow> exited_location" where
  "locateExitedSurface m s =
     (case findTerminalTab m (es_terminalTabId s) of
        None \<Rightarrow> Surface_gone
      | Some (k, tab) \<Rightarrow>
          if \<not> layoutContainsLeafId (lp_root (tab_panes tab)) (es_leafId s) then Surface_gone
          else let leaf = leaf_or_empty (workspaceOrEmpty m k) (es_leafId s) in
            if truthy (es_incarnationId s) \<and> truthy (lf_incarnationId leaf) \<and> lf_incarnationId leaf \<noteq> es_incarnationId s
            then Surface_replaced
            else if truthy (lf_ptyId leaf) \<and> lf_ptyId leaf \<noteq> Some (es_ptyId s) then Surface_replaced
            else Located k tab)"

definition retireExitedSurface :: "layout_model \<Rightarrow> exited_surface \<Rightarrow> layout_model option" where
  "retireExitedSurface m s =
     (case locateExitedSurface m s of
        Surface_gone \<Rightarrow> Some m
      | Surface_replaced \<Rightarrow> None
      | Located k tab \<Rightarrow> Some (retireTerminalPane m k tab (es_leafId s)))"

section \<open>What older builds read\<close>

definition workspace_pane_keys :: "workspace_layout \<Rightarrow> string list" where
  "workspace_pane_keys w =
     concat (map (\<lambda>t. if is_terminal t then map (paneKeyOf (lt_entityId t)) (leafIdsOf t) else []) (wl_tabs w))"

record legacy_pass =
  ly_owners :: "string list"
  ly_left :: "(string \<times> string) list"
  ly_arrived :: "(string \<times> string) list"
  ly_departed :: "string list"

definition put_keys :: "string list \<Rightarrow> string \<Rightarrow> (string \<times> string) list \<Rightarrow> (string \<times> string) list" where
  "put_keys keys v r = foldl (\<lambda>r k. AList.update k v r) r keys"

text \<open>One key of the loop. The code skips a workspace object that is the same object; an equal one is.\<close>

definition legacy_step :: "layout_model \<Rightarrow> layout_model \<Rightarrow> legacy_pass \<Rightarrow> string \<Rightarrow> legacy_pass" where
  "legacy_step before after s k =
     (let old = ws_find before k; new = ws_find after k in
      if old = new then s
      else case new of
        None \<Rightarrow> s\<lparr>ly_owners := filter (\<lambda>o'. o' \<noteq> k) (ly_owners s),
            ly_departed := foldl set_add (ly_departed s) (case old of Some w \<Rightarrow> workspace_pane_keys w | None \<Rightarrow> [])\<rparr>
      | Some w \<Rightarrow>
          s\<lparr>ly_owners := (if \<exists>t\<in>set (wl_tabs w). is_terminal t then set_add (ly_owners s) k else ly_owners s),
            ly_left := (case old of Some v \<Rightarrow> put_keys (workspace_pane_keys v) (wl_worktreeId v) (ly_left s) | None \<Rightarrow> ly_left s),
            ly_arrived := put_keys (workspace_pane_keys w) (wl_worktreeId w) (ly_arrived s)\<rparr>)"

definition bump_revision :: "(string \<times> nat) list \<Rightarrow> string \<Rightarrow> (string \<times> nat) list" where
  "bump_revision r repo = AList.update repo ((case map_of r repo of Some n \<Rightarrow> n | None \<Rightarrow> 0) + 1) r"

definition updateLegacyPersistence :: "layout_model \<Rightarrow> layout_model \<Rightarrow> string list \<Rightarrow> layout_model" where
  "updateLegacyPersistence before after retired =
     (let keys = foldl set_add [] (map fst (lm_workspaces before) @ map fst (lm_workspaces after));
          s = foldl (legacy_step before after)
                \<lparr>ly_owners = lpe_terminalRowOwners (lm_legacy after), ly_left = [], ly_arrived = [], ly_departed = []\<rparr> keys;
          new_panes = filter (\<lambda>(p, wt). map_of (ly_left s) p = None \<and> p \<notin> set (ly_departed s)) (ly_arrived s);
          gone_panes = filter (\<lambda>(p, wt). map_of (ly_arrived s) p = None) (ly_left s);
          changed = foldl set_add [] (retired @ map snd new_panes @ map snd gone_panes);
          repos = foldl set_add [] (map getRepoIdFromWorktreeId changed);
          legacy = (lm_legacy after)\<lparr>lpe_terminalRowOwners := ly_owners s\<rparr>
      in after\<lparr>lm_legacy :=
           (if changed \<noteq> [] then legacy\<lparr>lpe_topologyRevision := foldl bump_revision (lpe_topologyRevision legacy) repos\<rparr>
            else legacy)\<rparr>)"

lemma updateLegacy_workspaces [simp]:
  "lm_workspaces (updateLegacyPersistence b a r) = lm_workspaces a"
  "lm_hostId (updateLegacyPersistence b a r) = lm_hostId a"
  "lm_records (updateLegacyPersistence b a r) = lm_records a"
  by (simp_all add: updateLegacyPersistence_def Let_def)

section \<open>Panes a live edit dropped\<close>

record dropped_leaf =
  dl_hostId :: string
  dl_worktreeId :: string
  dl_tabId :: string
  dl_leafId :: string
  dl_ptyId :: string
  dl_incarnationId :: "string option"

definition bound_leaf :: "workspace_layout \<Rightarrow> layout_tab \<Rightarrow> string \<Rightarrow> (string \<times> string \<times> string \<times> string option) option" where
  "bound_leaf w t l =
     (let leaf = leaf_or_empty w l in
      if truthy (lf_ptyId leaf) then
        Some (lt_entityId t, l, the (lf_ptyId leaf),
          if truthy (lf_incarnationId leaf) then lf_incarnationId leaf else None)
      else None)"

definition boundLeaves :: "workspace_layout \<Rightarrow> (string \<times> string \<times> string \<times> string option) list" where
  "boundLeaves w = concat (map (\<lambda>t. if is_terminal t then List.map_filter (bound_leaf w t) (leafIdsOf t) else []) (wl_tabs w))"

text \<open>\<open>terminalKey\<close>: the pair stands for the joined text.\<close>

definition terminalKey :: "string \<Rightarrow> string option \<Rightarrow> string \<times> string" where
  "terminalKey pty incarnation = (pty, case incarnation of Some i \<Rightarrow> i | None \<Rightarrow> [])"

definition held_terminals :: "layout_model \<Rightarrow> (string \<times> string) list" where
  "held_terminals m = concat (map (\<lambda>w. map (\<lambda>(t, l, p, i). terminalKey p i) (boundLeaves w)) (workspaces_of m))"

definition droppedLeavesOf :: "layout_model \<Rightarrow> layout_model \<Rightarrow> dropped_leaf list" where
  "droppedLeavesOf before after =
     (let held = held_terminals after in
      concat (map (\<lambda>(k, w).
        if ws_find after k = Some w then []
        else List.map_filter (\<lambda>(t, l, p, i).
            if (case ws_find after k of Some v \<Rightarrow> leaf_at v l = None | None \<Rightarrow> True) \<and> terminalKey p i \<notin> set held
            then Some \<lparr>dl_hostId = lm_hostId before, dl_worktreeId = wl_worktreeId w, dl_tabId = t, dl_leafId = l,
                   dl_ptyId = p, dl_incarnationId = i\<rparr>
            else None) (boundLeaves w)) (lm_workspaces before)))"

definition closed_ttl_ms :: int where "closed_ttl_ms = 30 * 24 * 60 * 60 * 1000"
definition max_closed :: nat where "max_closed = 500"

text \<open>\<open>pruneClosedTerminalTabTombstones\<close>: expired records go, then the newest 500 stay, newest first.\<close>

definition prune_closed :: "('r \<Rightarrow> int) \<Rightarrow> (string \<times> 'r) list \<Rightarrow> int \<Rightarrow> (string \<times> 'r) list" where
  "prune_closed closedAt r now =
     take max_closed (sort_key (\<lambda>(k, x). - closedAt x) (filter (\<lambda>(k, x). now - closedAt x \<le> closed_ttl_ms) r))"

definition recordClosedTerminalPanes ::
  "(string \<times> closed_pane) list \<Rightarrow> (string \<times> closed_pane) list \<Rightarrow> int \<Rightarrow> (string \<times> closed_pane) list" where
  "recordClosedTerminalPanes r dropped_panes now =
     prune_closed cp_closedAt (foldl (\<lambda>r (k, p). AList.update k (p\<lparr>cp_closedAt := now\<rparr>) r) r dropped_panes) now"

definition onDroppedLeaves :: "layout_model \<Rightarrow> dropped_leaf list \<Rightarrow> int \<Rightarrow> layout_model" where
  "onDroppedLeaves m dropped now =
     (let recs = lm_records m;
          recorded = map (\<lambda>(k, p). terminalKey (cp_ptyId p) (Some (cp_incarnationId p))) (rc_closedPanes recs);
          dropped_panes = fromEntries (List.map_filter (\<lambda>d.
            if truthy (dl_incarnationId d) \<and> terminalKey (dl_ptyId d) (dl_incarnationId d) \<notin> set recorded
            then Some (paneKeyOf (dl_tabId d) (dl_leafId d),
              \<lparr>cp_ptyId = dl_ptyId d, cp_incarnationId = the (dl_incarnationId d), cp_worktreeId = dl_worktreeId d, cp_closedAt = now\<rparr>)
            else None) dropped)
      in if dropped_panes = [] then m
         else m\<lparr>lm_records := recs\<lparr>rc_closedPanes := recordClosedTerminalPanes (rc_closedPanes recs) dropped_panes now\<rparr>\<rparr>)"

definition runDroppedLeafStep :: "bool \<Rightarrow> layout_model \<Rightarrow> layout_model \<Rightarrow> int \<Rightarrow> layout_model" where
  "runDroppedLeafStep own before after now =
     (if \<not> own \<or> lm_workspaces before = lm_workspaces after then after
      else onDroppedLeaves after (droppedLeavesOf before after) now)"

lemma runDroppedLeafStep_workspaces [simp]:
  "lm_workspaces (runDroppedLeafStep own b a now) = lm_workspaces a"
  "lm_hostId (runDroppedLeafStep own b a now) = lm_hostId a"
  by (simp_all add: runDroppedLeafStep_def onDroppedLeaves_def Let_def)

end
