(* ===== verification/Layout_Tabs.thy ===== *)
theory Layout_Tabs
  imports Layout_Steps
begin

text \<open>
  The tab commands (\<open>workspace-layout-tab-commands.ts\<close>, \<open>workspace-layout-tab-rename.ts\<close>,
  \<open>workspace-layout-initial-surface.ts\<close>, \<open>workspace-layout-terminal-adoption.ts\<close>,
  \<open>workspace-layout-default-tabs.ts\<close>): creating a terminal tab or adopting a live terminal,
  closing tabs, titles, colours, pins, previews, and the placement of a content tab that replaces a
  preview.
\<close>

section \<open>Creating a terminal tab\<close>

definition admitsInitialSurface :: "layout_model \<Rightarrow> string \<Rightarrow> initial_surface \<Rightarrow> bool" where
  "admitsInitialSurface m k reason =
     (if (case ws_find m k of Some w \<Rightarrow> wl_tabs w \<noteq> [] | None \<Rightarrow> False) then False
      else reason = Surface_activation \<or> k \<notin> set (lpe_terminalRowOwners (lm_legacy m)))"

definition heldPaneOfTerminal :: "workspace_layout \<Rightarrow> terminal_adoption \<Rightarrow> (string \<times> string \<times> string) option" where
  "heldPaneOfTerminal w a =
     (case find_map (\<lambda>t. if \<not> is_terminal t then None
         else case find (\<lambda>l. leaf_pty w l = Some (ta_ptyId a)) (leafIdsOf t) of
           Some l \<Rightarrow> if l \<noteq> [] then Some (lt_id t, l, paneKeyOf (lt_entityId t) l) else None
         | None \<Rightarrow> None) (wl_tabs w) of
        Some held \<Rightarrow> Some held
      | None \<Rightarrow>
          (if truthy (ta_recordedPaneKey a) then
             (case locatePane w (the (ta_recordedPaneKey a)) of
                Some (t, l) \<Rightarrow> if \<not> truthy (leaf_pty w l) then Some (lt_id t, l, paneKeyOf (lt_entityId t) l) else None
              | None \<Rightarrow> None)
           else None))"

text \<open>\<open>adoptedLeaf\<close> laid over a leaf: the terminal, and its incarnation when one was observed.\<close>

definition adopt_leaf :: "terminal_adoption \<Rightarrow> layout_leaf \<Rightarrow> layout_leaf" where
  "adopt_leaf a leaf =
     (if truthy (ta_incarnationId a) then leaf\<lparr>lf_ptyId := Some (ta_ptyId a), lf_incarnationId := ta_incarnationId a\<rparr>
      else leaf\<lparr>lf_ptyId := Some (ta_ptyId a)\<rparr>)"

definition adoptedLeaf :: "terminal_adoption \<Rightarrow> layout_leaf" where
  "adoptedLeaf a = adopt_leaf a empty_leaf"

definition pane_result :: "string \<Rightarrow> string \<Rightarrow> string \<Rightarrow> command_result" where
  "pane_result tabId leafId paneKey =
     no_result\<lparr>res_tabId := Some tabId, res_leafId := Some leafId, res_paneKey := Some paneKey\<rparr>"

definition appliedHeldAdoption :: "layout_model \<Rightarrow> string \<Rightarrow> terminal_adoption \<Rightarrow> layout_applied option" where
  "appliedHeldAdoption m k a =
     (case ws_find m k of
        None \<Rightarrow> None
      | Some w \<Rightarrow>
          (case heldPaneOfTerminal w a of
             None \<Rightarrow> None
           | Some (t, l, pk) \<Rightarrow>
               if leaf_pty w l = Some (ta_ptyId a) then Some (applied m (pane_result t l pk) [] [] [])
               else Some (applied (withWorkspace m k (setLeaf w l (adopt_leaf a (leaf_or_empty w l))))
                      (pane_result t l pk) [] [] [])))"

definition no_creation :: terminal_creation where
  "no_creation = \<lparr>tc_defaultTitle = None, tc_shellOverride = None, tc_forceHostRuntime = None,
     tc_startupCwd = None, tc_launchAgent = None\<rparr>"

definition overlay_creation :: "string \<Rightarrow> terminal_creation option \<Rightarrow> terminal_creation" where
  "overlay_creation title c =
     (case c of
        None \<Rightarrow> no_creation\<lparr>tc_defaultTitle := Some title\<rparr>
      | Some c \<Rightarrow> c\<lparr>tc_defaultTitle := orElse (tc_defaultTitle c) (Some title)\<rparr>)"

definition next_terminal_title :: "workspace_layout \<Rightarrow> string" where
  "next_terminal_title w =
     terminal_title (getNextTerminalOrdinal
       (map (\<lambda>t. (tc_defaultTitle (tab_creation t), [])) (filter is_terminal (wl_tabs w))))"

definition new_terminal_tab :: "create_terminal \<Rightarrow> layout_context \<Rightarrow> string \<Rightarrow> string \<Rightarrow> string \<Rightarrow> layout_tab" where
  "new_terminal_tab c ctx i leafId title =
     \<lparr>lt_id = i, lt_entityId = i,
      lt_createdAt = (case cr_createdAt c of Some n \<Rightarrow> n | None \<Rightarrow> lc_now ctx),
      lt_customTitle = cr_title c, lt_generatedTitle = None, lt_aiVaultTitle = None,
      lt_quickCommandLabel = (if truthy (cr_quickCommandLabel c) then cr_quickCommandLabel c else None),
      lt_color = cr_color c, lt_isPinned = False, lt_viewMode = cr_viewMode c, lt_isPreview = False,
      lt_agentSessionAgent = None,
      lt_body = Terminal_body (overlay_creation title (cr_creation c)) \<lparr>lp_root = Some (Leaf_node leafId), lp_chatLeafId = None\<rparr>\<rparr>"

definition createTerminalTab :: "layout_model \<Rightarrow> create_terminal \<Rightarrow> layout_context \<Rightarrow> layout_applied" where
  "createTerminalTab m c ctx =
     (let k = cr_workspace c in
      if (case cr_initial c of Some reason \<Rightarrow> \<not> admitsInitialSurface m k reason | None \<Rightarrow> False)
      then applied_only m
      else case Option.bind (cr_adopt c) (appliedHeldAdoption m k) of
        Some held \<Rightarrow> held
      | None \<Rightarrow>
          let w = workspaceOrEmpty m k;
              i = (case cr_tabId c of Some x \<Rightarrow> x | None \<Rightarrow> lc_mintId ctx Mint_terminal_tab);
              leafId = (case cr_leafId c of Some x \<Rightarrow> x | None \<Rightarrow> lc_mintLeafId ctx);
              tab = new_terminal_tab c ctx i leafId (next_terminal_title w);
              placed = placeNewTab w k tab (cr_placement c) ctx;
              paneKey = paneKeyOf i leafId
          in case cr_adopt c of
               Some a \<Rightarrow>
                 applied (withWorkspace m k (placed\<lparr>wl_leaves := AList.update leafId (adoptedLeaf a) (wl_leaves placed)\<rparr>))
                   (pane_result i leafId paneKey) [] [] []
             | None \<Rightarrow> applied (withWorkspace m k placed) (pane_result i leafId paneKey) [] [paneKey] [])"

section \<open>Closing\<close>

definition closeTab :: "bool \<Rightarrow> layout_model \<Rightarrow> string \<Rightarrow> layout_tab \<Rightarrow> layout_model" where
  "closeTab own m k tab =
     (let w = workspaceOrEmpty m k;
          removed = removeTabFromWorkspace w (lt_id tab);
          leaves = (if is_terminal tab then filterRecord (wl_leaves removed) (\<lambda>l. l \<notin> set (leafIdsOf tab))
            else wl_leaves removed);
          files = (if has_kind Editor_kind tab \<and> (\<forall>t\<in>set (wl_tabs removed). lt_entityId t \<noteq> lt_entityId tab)
            then filter (\<lambda>f. if own then keptAfterEditorClose w removed (lt_entityId tab) f
                else \<not> editorTabShowsFile own (lt_entityId tab) f (wl_worktreeId removed)) (wl_editorFiles removed)
            else wl_editorFiles removed);
          views = withoutKey (wl_editorViews removed) (lt_id tab);
          browsers = (if has_kind Browser_kind tab then filter (\<lambda>b. bt_id b \<noteq> lt_entityId tab) (wl_browserTabs removed)
            else wl_browserTabs removed)
      in withWorkspace m k (removed\<lparr>wl_leaves := leaves, wl_editorFiles := files, wl_editorViews := views,
           wl_browserTabs := browsers\<rparr>))"

record close_pass =
  cp_model :: layout_model
  cp_closed :: "string list"
  cp_recorded :: "string list"
  cp_refused :: "(string \<times> refused_close) list"
  cp_stop :: "string list"

definition close_step :: "bool \<Rightarrow> close_tabs \<Rightarrow> close_pass \<Rightarrow> string \<Rightarrow> close_pass" where
  "close_step own c s i =
     (let w = workspaceOrEmpty (cp_model s) (cl_workspace c) in
      case findTab w i of
        None \<Rightarrow> s\<lparr>cp_closed := cp_closed s @ [i], cp_recorded := cp_recorded s @ [i]\<rparr>
      | Some tab \<Rightarrow>
          if \<not> cl_force c \<and> cl_refusePinned c \<and> lt_isPinned tab then s\<lparr>cp_refused := cp_refused s @ [(i, Tab_pinned)]\<rparr>
          else if \<not> cl_force c \<and> i \<in> set (cl_dirtyTabIds c)
          then s\<lparr>cp_refused := cp_refused s @ [(i, Editor_tab_has_unsaved_draft)]\<rparr>
          else s\<lparr>cp_model := closeTab own (cp_model s) (cl_workspace c) tab,
                 cp_closed := cp_closed s @ [i],
                 cp_recorded := (if is_terminal tab then cp_recorded s @ [lt_entityId tab] else cp_recorded s),
                 cp_stop := cp_stop s @ boundPtyIds w tab\<rparr>)"

definition close_all :: "bool \<Rightarrow> layout_model \<Rightarrow> close_tabs \<Rightarrow> close_pass" where
  "close_all own m c = foldl (close_step own c)
     \<lparr>cp_model = m, cp_closed = [], cp_recorded = [], cp_refused = [], cp_stop = []\<rparr> (cl_tabIds c)"

definition recordClosedTerminalTabs :: "layout_model \<Rightarrow> string \<Rightarrow> string list \<Rightarrow> closed_tab \<Rightarrow> layout_model" where
  "recordClosedTerminalTabs m k ids rec =
     (let w = workspaceOrEmpty m k
      in withWorkspace m k (w\<lparr>wl_closedTerminalTabs := foldl (\<lambda>r i. AList.update i rec r) (wl_closedTerminalTabs w) ids\<rparr>))"

definition closeTabs :: "bool \<Rightarrow> layout_model \<Rightarrow> close_tabs \<Rightarrow> int option \<Rightarrow> layout_applied" where
  "closeTabs own m c now =
     (let s = close_all own m c;
          m' = (case (cl_recordClose c, now) of
            (Some reason, Some t) \<Rightarrow>
              if cp_recorded s \<noteq> [] then
                recordClosedTerminalTabs (cp_model s) (cl_workspace c) (cp_recorded s)
                  \<lparr>ct_closedAt = t, ct_reason = Some reason\<rparr>
              else cp_model s
          | _ \<Rightarrow> cp_model s)
      in applied m' (no_result\<lparr>res_closed := cp_closed s, res_refused := cp_refused s\<rparr>) (cp_stop s) [] [])"

section \<open>Titles and properties\<close>

definition renameTab :: "layout_model \<Rightarrow> string \<Rightarrow> string \<Rightarrow> tab_title \<Rightarrow> layout_applied" where
  "renameTab m k i title =
     (case findTab (workspaceOrEmpty m k) i of
        None \<Rightarrow> refuse Tab_not_found
      | Some tab \<Rightarrow>
          (case title of
             AiVault_title t \<Rightarrow> updateTab m k (tab\<lparr>lt_aiVaultTitle := t\<rparr>)
           | Custom_title t expected \<Rightarrow>
               (case expected of
                  Some x \<Rightarrow>
                    if \<not> has_kind Agent_session_kind tab \<or> lt_entityId tab \<noteq> te_entityId x \<or>
                       lm_hostId m \<noteq> te_executionHostId x \<or> lt_customTitle tab \<noteq> Some (te_customTitle x)
                    then refuse Tab_not_found
                    else updateTab m k (tab\<lparr>lt_customTitle := t\<rparr>)
                | None \<Rightarrow> updateTab m k (tab\<lparr>lt_customTitle := t\<rparr>))
           | Generated_title t replaceExisting \<Rightarrow>
               if truthy (map_option trim (lt_generatedTitle tab)) \<and> \<not> replaceExisting
               then refuse Generated_title_kept
               else updateTab m k (tab\<lparr>lt_generatedTitle := t\<rparr>)))"

definition apply_tab_props :: "tab_props \<Rightarrow> layout_tab \<Rightarrow> layout_tab" where
  "apply_tab_props c tab =
     (let t1 = (case sp_color c of Some x \<Rightarrow> tab\<lparr>lt_color := x\<rparr> | None \<Rightarrow> tab);
          t2 = (case sp_isPinned c of Some x \<Rightarrow> t1\<lparr>lt_isPinned := x\<rparr> | None \<Rightarrow> t1);
          t3 = (case sp_viewMode c of Some x \<Rightarrow> t2\<lparr>lt_viewMode := Some x\<rparr> | None \<Rightarrow> t2)
      in case (sp_clearLaunchAgent c, lt_body tab) of
           (True, Terminal_body cr p) \<Rightarrow> t3\<lparr>lt_body := Terminal_body (cr\<lparr>tc_launchAgent := None\<rparr>) p\<rparr>
         | _ \<Rightarrow> t3)"

definition setTabProps :: "layout_model \<Rightarrow> tab_props \<Rightarrow> layout_applied" where
  "setTabProps m c =
     (let w = workspaceOrEmpty m (sp_workspace c) in
      case findTab w (sp_tabId c) of
        None \<Rightarrow> refuse Tab_not_found
      | Some tab \<Rightarrow>
          if sp_clearLaunchAgent c \<and> \<not> is_terminal tab then refuse Invalid_params
          else
            let updated = replaceTab w (apply_tab_props c tab);
                pinned = (case sp_isPinned c of None \<Rightarrow> updated
                  | Some p \<Rightarrow> if p = lt_isPinned tab then updated
                      else updated\<lparr>wl_groups := map (\<lambda>g. if lt_id tab \<in> set (lg_tabOrder g)
                             then g\<lparr>lg_tabOrder := partitionPinnedTabOrder (lg_tabOrder g) (wl_tabs updated) (lt_id tab)\<rparr>
                             else g) (wl_groups updated)\<rparr>)
            in applied_only (withWorkspace m (sp_workspace c) pinned))"

definition setChatPane :: "layout_model \<Rightarrow> string \<Rightarrow> string \<Rightarrow> string option \<Rightarrow> layout_applied" where
  "setChatPane m k i leafId =
     (case findTerminal (workspaceOrEmpty m k) i of
        None \<Rightarrow> refuse Tab_not_found
      | Some tab \<Rightarrow>
          (case leafId of
             Some l \<Rightarrow>
               if \<not> layoutContainsLeafId (lp_root (tab_panes tab)) l then refuse Pane_not_found
               else updateTab m k (with_panes tab ((tab_panes tab)\<lparr>lp_chatLeafId := Some l\<rparr>))
           | None \<Rightarrow> updateTab m k (with_panes tab ((tab_panes tab)\<lparr>lp_chatLeafId := None\<rparr>))))"

definition promotePreviewTab :: "layout_model \<Rightarrow> string \<Rightarrow> string \<Rightarrow> layout_applied" where
  "promotePreviewTab m k i =
     (case findTab (workspaceOrEmpty m k) i of
        None \<Rightarrow> refuse Tab_not_found
      | Some tab \<Rightarrow> updateTab m k (tab\<lparr>lt_isPreview := False\<rparr>))"

section \<open>Placing a content tab\<close>

definition content_kind_of :: "layout_tab \<Rightarrow> content_kind" where
  "content_kind_of t = (case lt_body t of Content_body k \<Rightarrow> k | Terminal_body c p \<Rightarrow> Editor_kind)"

definition preview_replaced :: "workspace_layout \<Rightarrow> layout_group option \<Rightarrow> layout_tab \<Rightarrow> layout_tab option" where
  "preview_replaced w g tab =
     (if lt_isPreview tab then
        find (\<lambda>e. lt_isPreview e \<and> (case g of Some x \<Rightarrow> lt_id e \<in> set (lg_tabOrder x) | None \<Rightarrow> False) \<and>
          canReplacePreviewContentType (content_kind_of tab) (lt_body e)) (wl_tabs w)
      else None)"

definition placeContentTab ::
  "layout_model \<Rightarrow> string \<Rightarrow> layout_tab \<Rightarrow> tab_placement \<Rightarrow> string list \<Rightarrow> layout_context \<Rightarrow>
   layout_model \<times> (string \<times> refused_close) list" where
  "placeContentTab m k tab placement dirty ctx =
     (let w = workspaceOrEmpty m k;
          g = orElse (Option.bind (tp_groupId placement) (group_named (wl_groups w))) (first_group (wl_groups w));
          preview = preview_replaced w g tab;
          placed = withWorkspace m k (placeNewTab w k tab
            (placement\<lparr>tp_groupId := (case g of Some x \<Rightarrow> Some (lg_id x) | None \<Rightarrow> tp_groupId placement)\<rparr>) ctx)
      in case preview of
           None \<Rightarrow> (placed, [])
         | Some e \<Rightarrow>
             let s = close_all (lc_owner ctx) placed
               \<lparr>cl_workspace = k, cl_tabIds = [lt_id e], cl_force = False, cl_refusePinned = False,
                cl_dirtyTabIds = dirty, cl_recordClose = None\<rparr>
             in (cp_model s, cp_refused s))"

section \<open>Default tabs\<close>

definition setDefaultTabsApplied :: "layout_model \<Rightarrow> string \<Rightarrow> layout_applied" where
  "setDefaultTabsApplied m k =
     (if k \<in> set (rc_defaultTabsApplied (lm_records m)) then applied_only m
      else applied_only (m\<lparr>lm_records := (lm_records m)\<lparr>rc_defaultTabsApplied := rc_defaultTabsApplied (lm_records m) @ [k]\<rparr>\<rparr>))"

definition nonempty_text :: "string option \<Rightarrow> string option" where
  "nonempty_text x = (if truthy x then x else None)"

definition default_tab_command :: "string \<Rightarrow> default_tab \<Rightarrow> create_terminal" where
  "default_tab_command k d =
     \<lparr>cr_workspace = k, cr_tabId = Some (dt_tabId d), cr_leafId = Some (dt_leafId d),
      cr_placement = \<lparr>tp_groupId = None, tp_afterTabId = None, tp_index = None\<rparr>,
      cr_title = nonempty_text (dt_title d), cr_color = nonempty_text (dt_color d), cr_viewMode = None,
      cr_createdAt = None, cr_quickCommandLabel = None, cr_creation = dt_creation d, cr_initial = None,
      cr_adopt = None, cr_split = None\<rparr>"

fun apply_default_tabs ::
  "string \<Rightarrow> layout_context \<Rightarrow> default_tab list \<Rightarrow> layout_model \<Rightarrow> string list \<Rightarrow>
   refusal_code + layout_model \<times> string list" where
  "apply_default_tabs k ctx [] m starts = Inr (m, starts)"
| "apply_default_tabs k ctx (d # ds) m starts =
     (case createTerminalTab m (default_tab_command k d) ctx of
        Inl code \<Rightarrow> Inl code
      | Inr a \<Rightarrow> apply_default_tabs k ctx ds (al_model a) (starts @ al_startPaneKeys a))"

definition applyDefaultTabs :: "layout_model \<Rightarrow> string \<Rightarrow> default_tab list \<Rightarrow> layout_context \<Rightarrow> layout_applied" where
  "applyDefaultTabs m k ts ctx =
     (if k \<in> set (rc_defaultTabsApplied (lm_records m)) then applied_only m
      else case apply_default_tabs k ctx ts m [] of
        Inl code \<Rightarrow> refuse code
      | Inr (m', starts) \<Rightarrow>
          (case setDefaultTabsApplied m' k of
             Inl code \<Rightarrow> Inl code
           | Inr a \<Rightarrow> applied (al_model a)
               (no_result\<lparr>res_createdTabs := map (\<lambda>d. (dt_tabId d, dt_leafId d, paneKeyOf (dt_tabId d) (dt_leafId d))) ts\<rparr>)
               [] starts []))"

end
