(* ===== verification/Layout_Panes.thy ===== *)
theory Layout_Panes
  imports Layout_Tabs
begin

text \<open>
  The pane commands (\<open>workspace-layout-pane-commands.ts\<close>) and the process commands
  (\<open>workspace-layout-process-commands.ts\<close>): splitting, closing, moving and sizing panes, moving a
  pane into a tab of its own, and starting, restarting, sleeping and waking their terminals.
\<close>

section \<open>Panes\<close>

definition paneTab :: "layout_model \<Rightarrow> string \<Rightarrow> string \<Rightarrow> layout_tab option" where
  "paneTab m k i =
     (case findTerminal (workspaceOrEmpty m k) i of
        None \<Rightarrow> None | Some t \<Rightarrow> if lp_root (tab_panes t) = None then None else Some t)"

definition with_root :: "layout_tab \<Rightarrow> pane_node \<Rightarrow> layout_tab" where
  "with_root tab tree = with_panes tab ((tab_panes tab)\<lparr>lp_root := Some tree\<rparr>)"

definition splitPane ::
  "layout_model \<Rightarrow> pane_ref \<Rightarrow> split_direction \<Rightarrow> rat option \<Rightarrow> string option \<Rightarrow> layout_context \<Rightarrow> layout_applied" where
  "splitPane m p direction ratio newLeafId ctx =
     (case paneTab m (pr_workspace p) (pr_tabId p) of
        None \<Rightarrow> refuse Tab_not_found
      | Some tab \<Rightarrow>
          if \<not> layoutContainsLeafId (lp_root (tab_panes tab)) (pr_leafId p) then refuse Pane_not_found
          else
            let leafId = (case newLeafId of Some l \<Rightarrow> l | None \<Rightarrow> lc_mintLeafId ctx);
                side = (if direction = Vertical then Pane_right else Pane_bottom);
                tree = insertLeafBeside (the (lp_root (tab_panes tab))) (pr_leafId p) leafId side ratio;
                paneKey = paneKeyOf (lt_entityId tab) leafId
            in bindE (updateTab m (pr_workspace p) (with_root tab tree)) (\<lambda>a.
                 applied (al_model a) (no_result\<lparr>res_leafId := Some leafId, res_paneKey := Some paneKey\<rparr>) [] [paneKey] []))"

definition closePane :: "layout_model \<Rightarrow> pane_ref \<Rightarrow> bool \<Rightarrow> layout_applied" where
  "closePane m p userPaneClose =
     (let w = workspaceOrEmpty m (pr_workspace p);
          gone = applied m (no_result\<lparr>res_alreadyClosed := True\<rparr>) [] [] [] in
      case findTerminal w (pr_tabId p) of
        None \<Rightarrow> gone
      | Some tab \<Rightarrow>
          if \<not> layoutContainsLeafId (lp_root (tab_panes tab)) (pr_leafId p) then gone
          else if userPaneClose \<and> (case lp_root (tab_panes tab) of Some (Leaf_node l) \<Rightarrow> True | _ \<Rightarrow> False)
          then refuse Last_pane
          else
            let pty = leaf_pty w (pr_leafId p);
                retired = retireTerminalPane m (pr_workspace p) tab (pr_leafId p);
                tabClosed = (findTab (workspaceOrEmpty retired (pr_workspace p)) (lt_id tab) = None)
            in applied retired (no_result\<lparr>res_tabClosed := Some tabClosed\<rparr>)
                 (if truthy pty then [the pty] else []) [] [])"

definition movePane :: "layout_model \<Rightarrow> pane_ref \<Rightarrow> string \<Rightarrow> pane_side \<Rightarrow> layout_applied" where
  "movePane m p target side =
     (if pr_leafId p = target then refuse Same_pane
      else case paneTab m (pr_workspace p) (pr_tabId p) of
        None \<Rightarrow> refuse Tab_not_found
      | Some tab \<Rightarrow>
          let tree = lp_root (tab_panes tab) in
          if \<not> layoutContainsLeafId tree (pr_leafId p) \<or> \<not> layoutContainsLeafId tree target then refuse Pane_not_found
          else
            let without = the (remove_pane tree (pr_leafId p));
                moved = insertLeafBeside without target (pr_leafId p) side None
            in updateTab m (pr_workspace p) (with_root tab moved))"

definition setPaneRatios ::
  "layout_model \<Rightarrow> string \<Rightarrow> string \<Rightarrow> pane_node option \<Rightarrow> split_ratio_intent list option \<Rightarrow> layout_applied" where
  "setPaneRatios m k i given ratios =
     (case paneTab m k i of
        None \<Rightarrow> refuse Tab_not_found
      | Some tab \<Rightarrow>
          let current = the (lp_root (tab_panes tab));
              tree = (case ratios of
                Some rs \<Rightarrow> withPaneSplitRatios current rs
              | None \<Rightarrow> (case given of Some g \<Rightarrow> if samePanesIgnoringRatios current g then Some g else None | None \<Rightarrow> None))
          in case tree of
               None \<Rightarrow> refuse Pane_structure_changed
             | Some t \<Rightarrow> updateTab m k (with_root tab t))"

definition equalizePanes :: "layout_model \<Rightarrow> string \<Rightarrow> string \<Rightarrow> layout_applied" where
  "equalizePanes m k i =
     (case paneTab m k i of
        None \<Rightarrow> refuse Tab_not_found
      | Some tab \<Rightarrow> updateTab m k (with_root tab (equalizeLayout (the (lp_root (tab_panes tab))))))"

definition renamePane :: "layout_model \<Rightarrow> pane_ref \<Rightarrow> string option \<Rightarrow> layout_applied" where
  "renamePane m p title =
     (case paneTab m (pr_workspace p) (pr_tabId p) of
        None \<Rightarrow> refuse Tab_not_found
      | Some tab \<Rightarrow>
          if \<not> layoutContainsLeafId (lp_root (tab_panes tab)) (pr_leafId p) then refuse Pane_not_found
          else
            let w = workspaceOrEmpty m (pr_workspace p);
                leaf = leaf_or_empty w (pr_leafId p)
            in applied_only (withWorkspace m (pr_workspace p) (setLeaf w (pr_leafId p) (leaf\<lparr>lf_title := title\<rparr>))))"

definition setPaneGrid :: "layout_model \<Rightarrow> pane_ref \<Rightarrow> terminal_grid \<Rightarrow> layout_applied" where
  "setPaneGrid m p grid =
     (case paneTab m (pr_workspace p) (pr_tabId p) of
        None \<Rightarrow> refuse Tab_not_found
      | Some tab \<Rightarrow>
          if \<not> layoutContainsLeafId (lp_root (tab_panes tab)) (pr_leafId p) then refuse Pane_not_found
          else
            let w = workspaceOrEmpty m (pr_workspace p);
                leaf = leaf_or_empty w (pr_leafId p)
            in if lf_lastGrid leaf = Some grid then applied_only m
               else applied_only (withWorkspace m (pr_workspace p) (setLeaf w (pr_leafId p) (leaf\<lparr>lf_lastGrid := Some grid\<rparr>))))"

definition unbound_leaf :: "layout_leaf \<Rightarrow> layout_leaf" where
  "unbound_leaf leaf = leaf\<lparr>lf_ptyId := None, lf_incarnationId := None\<rparr>"

definition releasePaneTerminal :: "layout_model \<Rightarrow> pane_ref \<Rightarrow> string \<Rightarrow> layout_applied" where
  "releasePaneTerminal m p pty =
     (case paneTab m (pr_workspace p) (pr_tabId p) of
        None \<Rightarrow> refuse Pane_not_found
      | Some tab \<Rightarrow>
          if \<not> layoutContainsLeafId (lp_root (tab_panes tab)) (pr_leafId p) then refuse Pane_not_found
          else
            let w = workspaceOrEmpty m (pr_workspace p);
                leaf = leaf_or_empty w (pr_leafId p)
            in if lf_ptyId leaf \<noteq> Some pty then applied_only m
               else applied_only (withWorkspace m (pr_workspace p) (setLeaf w (pr_leafId p) (unbound_leaf leaf))))"

subsection \<open>A pane into a tab of its own\<close>

definition bindDetachedLeaf :: "workspace_layout \<Rightarrow> string \<Rightarrow> window_detach option \<Rightarrow> workspace_layout" where
  "bindDetachedLeaf w l detach =
     (let leaf = leaf_or_empty w l;
          pty = (case detach of None \<Rightarrow> None | Some d \<Rightarrow> wd_ptyId d) in
      if \<not> truthy pty \<or> lf_ptyId leaf = pty then w
      else if \<not> truthy (lf_ptyId leaf) then setLeaf w l (leaf\<lparr>lf_ptyId := pty\<rparr>)
      else setLeaf w l (leaf\<lparr>lf_ptyId := pty, lf_incarnationId := None\<rparr>))"

definition detached_cwd :: "workspace_layout \<Rightarrow> string \<Rightarrow> window_detach option \<Rightarrow> layout_tab \<Rightarrow> string option" where
  "detached_cwd w l detach tab =
     (let given = (case detach of None \<Rightarrow> None | Some d \<Rightarrow> wd_startupCwd d) in
      if \<not> truthy (leaf_pty w l) \<and> truthy given then given else tc_startupCwd (tab_creation tab))"

definition moved_pane_tab :: "layout_tab \<Rightarrow> string \<Rightarrow> string \<Rightarrow> string \<Rightarrow> string option \<Rightarrow> int \<Rightarrow> layout_tab" where
  "moved_pane_tab tab l i title cwd now =
     (let chat = (lp_chatLeafId (tab_panes tab) = Some l) in
      \<lparr>lt_id = i, lt_entityId = i, lt_createdAt = now, lt_customTitle = None, lt_generatedTitle = None,
       lt_aiVaultTitle = None, lt_quickCommandLabel = None, lt_color = None, lt_isPinned = False,
       lt_viewMode = (if chat then Some View_chat else None), lt_isPreview = False, lt_agentSessionAgent = None,
       lt_body = Terminal_body
         (no_creation\<lparr>tc_defaultTitle := Some title, tc_startupCwd := nonempty_text cwd,
            tc_shellOverride := nonempty_text (tc_shellOverride (tab_creation tab))\<rparr>)
         \<lparr>lp_root = Some (Leaf_node l), lp_chatLeafId = (if chat then Some l else None)\<rparr>\<rparr>)"

definition movePaneToNewTab :: "layout_model \<Rightarrow> move_pane_tab \<Rightarrow> layout_context \<Rightarrow> layout_applied" where
  "movePaneToNewTab m c ctx =
     (let p = mp_pane c; k = pr_workspace p; l = pr_leafId p; detach = mp_windowDetach c in
      case paneTab m k (pr_tabId p) of
        None \<Rightarrow> refuse Tab_not_found
      | Some tab \<Rightarrow>
          if \<not> layoutContainsLeafId (lp_root (tab_panes tab)) l then refuse Pane_not_found
          else if detach = None \<and> length (leafIdsOf tab) < 2 then refuse Last_pane
          else
            let w = bindDetachedLeaf (workspaceOrEmpty m k) l detach;
                cwd = detached_cwd w l detach tab;
                i = (case Option.bind detach wd_tabId of Some x \<Rightarrow> x | None \<Rightarrow> lc_mintId ctx Mint_moved_tab);
                moved = moved_pane_tab tab l i (next_terminal_title w) cwd (lc_now ctx);
                source = with_panes tab (without_pane (tab_panes tab) l);
                sourceGroup = group_of_tab (wl_groups w) (lt_id tab);
                withSource = replaceTab w source;
                placed = placeNewTab withSource k moved
                  \<lparr>tp_groupId = (case mp_groupId c of Some g \<Rightarrow> Some g | None \<Rightarrow> map_option lg_id sourceGroup),
                   tp_afterTabId = (if mp_index c = None then Some (lt_id tab) else None),
                   tp_index = mp_index c\<rparr> ctx
            in applied (withWorkspace m k placed)
                 (no_result\<lparr>res_tabId := Some i, res_ptyId := (if detach = None then None else Some (leaf_pty placed l))\<rparr>)
                 [] [] [])"

section \<open>Terminals of panes\<close>

definition workspacePanes :: "workspace_layout \<Rightarrow> (string \<times> string) list" where
  "workspacePanes w =
     concat (map (\<lambda>t. if is_terminal t then map (\<lambda>l. (paneKeyOf (lt_entityId t) l, l)) (leafIdsOf t) else []) (wl_tabs w))"

definition hasResumeRecord :: "layout_leaf \<Rightarrow> bool" where
  "hasResumeRecord leaf = (lf_sleeping leaf \<noteq> None \<or> lf_resume leaf \<noteq> None)"

definition restartPane :: "layout_model \<Rightarrow> string \<Rightarrow> string \<Rightarrow> layout_applied" where
  "restartPane m k paneKey =
     (let w = workspaceOrEmpty m k in
      case locatePane w paneKey of
        None \<Rightarrow> refuse Pane_not_found
      | Some (tab, l) \<Rightarrow>
          let leaf = leaf_or_empty w l
          in applied (withWorkspace m k (setLeaf w l (unbound_leaf leaf))) no_result
               (if truthy (lf_ptyId leaf) then [the (lf_ptyId leaf)] else []) [paneKey] [(l, None)])"

definition startPane :: "layout_model \<Rightarrow> string \<Rightarrow> string \<Rightarrow> layout_context \<Rightarrow> layout_applied" where
  "startPane m k paneKey ctx =
     (let w = workspaceOrEmpty m k in
      case locatePane w paneKey of
        None \<Rightarrow> refuse Pane_not_found
      | Some (tab, l) \<Rightarrow>
          let pty = leaf_pty w l in
          if truthy pty \<and> lc_retiresBinding ctx paneKey (the pty) then restartPane m k paneKey
          else if (truthy pty \<and> lc_isBindingLive ctx paneKey (the pty)) \<or> lc_isStarting ctx l then applied_only m
          else applied m no_result [] [paneKey] [(l, None)])"

definition sleep_leaf :: "sleeping_record list \<Rightarrow> workspace_layout \<Rightarrow> string \<times> string \<Rightarrow> workspace_layout" where
  "sleep_leaf records w pane =
     (case find (\<lambda>r. ls_paneKey r = fst pane) records of
        None \<Rightarrow> w
      | Some r \<Rightarrow>
          let kept = (leaf_or_empty w (snd pane))\<lparr>lf_sleeping := None, lf_resume := None\<rparr>;
              stored = layout_sleeping.truncate r
          in setLeaf w (snd pane) (if isPaneSleepRecord stored then kept\<lparr>lf_sleeping := Some stored\<rparr>
               else kept\<lparr>lf_resume := Some stored\<rparr>))"

definition sleep :: "layout_model \<Rightarrow> string \<Rightarrow> string list option \<Rightarrow> sleeping_record list \<Rightarrow> bool \<Rightarrow> layout_applied" where
  "sleep m k paneKeys records recordOnly =
     (let w = workspaceOrEmpty m k;
          targets = (case paneKeys of Some keys \<Rightarrow> filter (\<lambda>p. fst p \<in> set keys) (workspacePanes w) | None \<Rightarrow> workspacePanes w);
          stop = (if recordOnly then [] else List.map_filter (\<lambda>p. leaf_pty w (snd p)) targets)
      in applied (withWorkspace m k (foldl (sleep_leaf records) w targets))
           (no_result\<lparr>res_slept := map fst targets\<rparr>) stop [] [])"

definition wake :: "layout_model \<Rightarrow> string \<Rightarrow> string list option \<Rightarrow> bool \<Rightarrow> layout_applied" where
  "wake m k paneKeys recordOnly =
     (let w = workspaceOrEmpty m k;
          woken = filter (\<lambda>p. (case paneKeys of Some keys \<Rightarrow> fst p \<in> set keys | None \<Rightarrow> True) \<and>
            (if recordOnly then hasResumeRecord (leaf_or_empty w (snd p))
             else lf_sleeping (leaf_or_empty w (snd p)) \<noteq> None)) (workspacePanes w);
          keys = map fst woken
      in if \<not> recordOnly then applied m (no_result\<lparr>res_woken := keys\<rparr>) [] keys []
         else applied (withWorkspace m k (foldl (\<lambda>v p. setLeaf v (snd p)
                ((leaf_or_empty v (snd p))\<lparr>lf_sleeping := None, lf_resume := None\<rparr>)) w woken))
              (no_result\<lparr>res_woken := keys\<rparr>) [] [] [])"

end
