(* ===== verification/Layout_Groups.thy ===== *)
theory Layout_Groups
  imports Layout_Panes
begin

text \<open>
  The group commands (\<open>workspace-layout-group-commands.ts\<close>): moving a tab, splitting a group,
  divider ratios, and opening a tab in a group created with it; and the move of editor tabs to another
  workspace of the partition (\<open>workspace-layout-workspace-move.ts\<close>).
\<close>

definition is_editor_tab :: "layout_tab \<Rightarrow> bool" where
  "is_editor_tab t = (case lt_body t of Content_body k \<Rightarrow> k \<in> {Editor_kind, Diff_kind, Conflict_review_kind, Check_details_kind}
     | Terminal_body c p \<Rightarrow> False)"

definition sourceGroupOf :: "workspace_layout \<Rightarrow> string \<Rightarrow> layout_group option" where
  "sourceGroupOf w i = (if findTab w i = None then None else group_of_tab (wl_groups w) i)"

definition anchoredMoveIndex :: "string list \<Rightarrow> move_tab \<Rightarrow> int" where
  "anchoredMoveIndex order c =
     (case mt_afterTabId c of
        Some None \<Rightarrow> 0
      | None \<Rightarrow> mt_index c
      | Some (Some anchor) \<Rightarrow>
          (case find_index (\<lambda>i. i = anchor) order of None \<Rightarrow> mt_index c | Some n \<Rightarrow> int n + 1))"

definition withMovedPin :: "workspace_layout \<Rightarrow> move_tab \<Rightarrow> workspace_layout" where
  "withMovedPin w c =
     (case mt_isPinned c of None \<Rightarrow> w
      | Some p \<Rightarrow> w\<lparr>wl_tabs := map (\<lambda>t. if lt_id t = mt_tabId c then t\<lparr>lt_isPinned := p\<rparr> else t) (wl_tabs w)\<rparr>)"

definition groupShowsTabFile :: "bool \<Rightarrow> workspace_layout \<Rightarrow> string \<Rightarrow> layout_tab \<Rightarrow> bool" where
  "groupShowsTabFile own w groupId tab =
     (if \<not> own \<or> \<not> is_editor_tab tab then False
      else case group_named (wl_groups w) groupId of
        None \<Rightarrow> False
      | Some g \<Rightarrow> (\<exists>i\<in>set (lg_tabOrder g).
          i \<noteq> lt_id tab \<and> (case findTab w i of None \<Rightarrow> False
            | Some other \<Rightarrow> lt_body other = lt_body tab \<and> lt_entityId other = lt_entityId tab)))"

definition moveTab :: "bool \<Rightarrow> layout_model \<Rightarrow> move_tab \<Rightarrow> layout_applied" where
  "moveTab own m c =
     (let k = mt_workspace c; w = workspaceOrEmpty m k; i = mt_tabId c in
      case sourceGroupOf w i of
        None \<Rightarrow> refuse Tab_not_found
      | Some source \<Rightarrow>
          (case group_named (wl_groups w) (mt_toGroupId c) of
             None \<Rightarrow> refuse Group_not_found
           | Some target \<Rightarrow>
               let index = anchoredMoveIndex (filter (\<lambda>j. j \<noteq> i) (lg_tabOrder target)) c in
               if lg_id source = mt_toGroupId c then
                 let order = reorder_tab (lg_tabOrder source) i index;
                     groups = map (\<lambda>g. if lg_id g = lg_id source then g\<lparr>lg_tabOrder := order\<rparr> else g) (wl_groups w)
                 in applied_only (withWorkspace m k (withMovedPin (w\<lparr>wl_groups := groups\<rparr>) c))
               else if groupShowsTabFile own w (mt_toGroupId c) (the (findTab w i)) then refuse Tab_exists
               else case buildHeadlessTabGroupMove (wl_groups w) (wl_groupLayout w) i (mt_toGroupId c) (Some index) of
                 None \<Rightarrow> refuse Invalid_params
               | Some (groups, layout) \<Rightarrow>
                   applied_only (withWorkspace m k
                     (withMovedPin (w\<lparr>wl_groups := groups, wl_groupLayout := layout\<rparr>) c))))"

definition splitGroup ::
  "layout_model \<Rightarrow> string \<Rightarrow> string \<Rightarrow> string \<Rightarrow> group_side \<Rightarrow> layout_context \<Rightarrow> layout_applied" where
  "splitGroup m k i beside direction ctx =
     (let w = workspaceOrEmpty m k in
      case sourceGroupOf w i of
        None \<Rightarrow> refuse Tab_not_found
      | Some source \<Rightarrow>
          if group_named (wl_groups w) beside = None then refuse Group_not_found
          else if length (lg_tabOrder source) = 1 \<and> lg_id source \<noteq> beside then
            let tree = moveGroupLeafBeside
                  (case wl_groupLayout w of Some t \<Rightarrow> t | None \<Rightarrow> Leaf_node (lg_id source)) (lg_id source) beside direction
            in applied (withWorkspace m k (w\<lparr>wl_groupLayout := Some tree\<rparr>))
                 (no_result\<lparr>res_groupId := Some (lg_id source)\<rparr>) [] [] []
          else case buildHeadlessTabGroupSplit (wl_groups w) (wl_groupLayout w) i beside direction
                      (lc_mintId ctx Mint_split_group) of
            None \<Rightarrow> refuse Invalid_params
          | Some (groups, layout) \<Rightarrow>
              applied (withWorkspace m k (w\<lparr>wl_groups := groups, wl_groupLayout := Some layout\<rparr>))
                (no_result\<lparr>res_groupId := Some (lc_mintId ctx Mint_split_group)\<rparr>) [] [] [])"

definition current_group_tree :: "workspace_layout \<Rightarrow> tab_group_node option" where
  "current_group_tree w = orElse (wl_groupLayout w) (map_option (\<lambda>g. Leaf_node (lg_id g)) (first_group (wl_groups w)))"

definition setGroupRatios ::
  "layout_model \<Rightarrow> string \<Rightarrow> tab_group_node option \<Rightarrow> split_ratio_intent list option \<Rightarrow> layout_applied" where
  "setGroupRatios m k given ratios =
     (let w = workspaceOrEmpty m k;
          tree = (case current_group_tree w of
            None \<Rightarrow> None
          | Some current \<Rightarrow>
              (case ratios of
                 Some rs \<Rightarrow> withGroupSplitRatios current rs
               | None \<Rightarrow> (case given of Some g \<Rightarrow> if sameGroupsIgnoringRatios current g then Some g else None | None \<Rightarrow> None)))
      in case tree of
           None \<Rightarrow> refuse Group_set_changed
         | Some t \<Rightarrow> applied_only (withWorkspace m k (w\<lparr>wl_groupLayout := Some t\<rparr>)))"

section \<open>Opening in a new group\<close>

definition holds_tab :: "layout_model \<Rightarrow> string \<Rightarrow> bool" where
  "holds_tab m i = (\<exists>w\<in>set (workspaces_of m). \<exists>t\<in>set (wl_tabs w). lt_id t = i)"

definition holds_group :: "layout_model \<Rightarrow> string \<Rightarrow> bool" where
  "holds_group m g = (\<exists>w\<in>set (workspaces_of m). \<exists>x\<in>set (wl_groups w). lg_id x = g)"

text \<open>
  \<open>openInNewGroup m k tabId groupId split open\<close>: the opens give their own tab id, group and split.
\<close>

definition openInNewGroup ::
  "layout_model \<Rightarrow> string \<Rightarrow> string option \<Rightarrow> string option \<Rightarrow> new_group_split option \<Rightarrow>
   (layout_model \<Rightarrow> layout_applied) \<Rightarrow> layout_applied" where
  "openInNewGroup m k tabId groupId split open_tab =
     (case split of
        None \<Rightarrow> open_tab m
      | Some s \<Rightarrow>
          if truthy tabId \<and> holds_tab m (the tabId) then open_tab m
          else if \<not> truthy groupId then refuse Invalid_params
          else
            let w = workspaceOrEmpty m k; g = the groupId in
            if group_named (wl_groups w) g \<noteq> None then open_tab m
            else if holds_group m g then refuse Group_exists
            else
              let last_g = (case ns_besideLastGroupId s of Some x \<Rightarrow> x | None \<Rightarrow> ns_besideGroupId s);
                  besideHeld = (group_named (wl_groups w) (ns_besideGroupId s) \<noteq> None \<and> group_named (wl_groups w) last_g \<noteq> None)
              in if \<not> besideHeld \<and> wl_groups w \<noteq> [] then refuse Group_not_found
                 else
                   let tree = (if besideHeld then
                         moveGroupLeafBesideBranch
                           (case wl_groupLayout w of Some t \<Rightarrow> t | None \<Rightarrow> Leaf_node (ns_besideGroupId s))
                           g (ns_besideGroupId s) last_g (ns_direction s)
                       else None)
                   in if besideHeld \<and> tree = None then refuse Invalid_params
                      else
                        let grown = w\<lparr>wl_groups := wl_groups w @ [\<lparr>lg_id = g, lg_tabOrder = []\<rparr>],
                              wl_groupLayout := (case tree of Some t \<Rightarrow> Some t | None \<Rightarrow> wl_groupLayout w)\<rparr>
                        in case open_tab (withWorkspace m k grown) of
                             Inl code \<Rightarrow> Inl code
                           | Inr a \<Rightarrow>
                               if (case ws_find (al_model a) k of None \<Rightarrow> False
                                   | Some v \<Rightarrow> \<exists>x\<in>set (wl_groups v). lg_id x = g \<and> lg_tabOrder x \<noteq> [])
                               then Inr a
                               else applied m (al_result a) [] [] [])"

section \<open>Editor tabs into another workspace\<close>

type_synonym shown_files = "((tab_body \<times> string) \<times> string) list"

definition shownFiles :: "bool \<Rightarrow> workspace_layout \<Rightarrow> string \<Rightarrow> shown_files" where
  "shownFiles own w groupId =
     (if \<not> own then []
      else fromEntries (List.map_filter (\<lambda>i.
        case findTab w i of
          None \<Rightarrow> None
        | Some t \<Rightarrow> if is_editor_tab t then Some ((lt_body t, lt_entityId t), lt_id t) else None)
        (case group_named (wl_groups w) groupId of None \<Rightarrow> [] | Some g \<Rightarrow> lg_tabOrder g)))"

record move_plan =
  pl_shown :: shown_files
  pl_moves :: "(layout_tab \<times> workspace_move_tab) list"
  pl_folds :: "layout_tab list"
  pl_landed :: string

definition held_by_other :: "layout_model \<Rightarrow> string \<Rightarrow> layout_tab \<Rightarrow> bool" where
  "held_by_other m i tab = (\<exists>w\<in>set (workspaces_of m). \<exists>t\<in>set (wl_tabs w). lt_id t = i \<and> t \<noteq> tab)"

definition plan_step :: "bool \<Rightarrow> layout_model \<Rightarrow> workspace_layout \<Rightarrow> workspace_move_tab \<Rightarrow> move_plan \<Rightarrow> refusal_code + move_plan" where
  "plan_step own m source mv p =
     (case findTab source (wm_tabId mv) of
        None \<Rightarrow> Inl Tab_not_found
      | Some tab \<Rightarrow>
          if \<not> is_editor_tab tab then Inl Invalid_params
          else
            let key = (lt_body tab, wm_newEntityId mv) in
            case map_of (pl_shown p) key of
              Some kept \<Rightarrow> Inr (p\<lparr>pl_folds := pl_folds p @ [tab], pl_landed := kept\<rparr>)
            | None \<Rightarrow>
                if held_by_other m (wm_newTabId mv) tab then Inl Tab_exists
                else Inr (p\<lparr>pl_shown := (if own then AList.update key (wm_newTabId mv) (pl_shown p) else pl_shown p),
                       pl_moves := pl_moves p @ [(tab, mv)], pl_landed := wm_newTabId mv\<rparr>))"

definition withoutTab :: "workspace_layout \<Rightarrow> string \<Rightarrow> workspace_layout" where
  "withoutTab w i =
     (let removed = removeTabFromWorkspace w i
      in removed\<lparr>wl_editorViews := withoutKey (wl_editorViews removed) i\<rparr>)"

definition move_one ::
  "string \<Rightarrow> string \<Rightarrow> layout_context \<Rightarrow> workspace_layout \<times> workspace_layout \<Rightarrow> layout_tab \<times> workspace_move_tab \<Rightarrow>
   workspace_layout \<times> workspace_layout" where
  "move_one toKey groupId ctx st x =
     (let (source, target) = st; (tab, mv) = x;
          view = orElse (wm_view mv) (map_of (wl_editorViews source) (lt_id tab));
          len = (case group_named (wl_groups target) groupId of None \<Rightarrow> 0 | Some g \<Rightarrow> length (lg_tabOrder g));
          placed = placeNewTab target toKey (tab\<lparr>lt_id := wm_newTabId mv, lt_entityId := wm_newEntityId mv\<rparr>)
            \<lparr>tp_groupId = Some groupId, tp_afterTabId = None, tp_index = Some (int len)\<rparr> ctx
      in (withoutTab source (lt_id tab),
          case view of None \<Rightarrow> placed
          | Some v \<Rightarrow> placed\<lparr>wl_editorViews := AList.update (wm_newTabId mv) v (wl_editorViews placed)\<rparr>))"

definition move_editor_file :: "bool \<Rightarrow> editor_file \<Rightarrow> workspace_layout \<times> workspace_layout \<Rightarrow> workspace_layout \<times> workspace_layout" where
  "move_editor_file own f st =
     (let (source, target) = st; rest = filter (\<lambda>e. \<not> sameEditorFile own e f)
      in (source\<lparr>wl_editorFiles := rest (wl_editorFiles source)\<rparr>,
          target\<lparr>wl_editorFiles := rest (wl_editorFiles target) @ [f]\<rparr>))"

definition moveTabToWorkspace :: "layout_model \<Rightarrow> workspace_move \<Rightarrow> layout_context \<Rightarrow> layout_applied" where
  "moveTabToWorkspace m c ctx =
     (let fromKey = wm_workspace c; toKey = wm_toWorkspace c; own = lc_owner ctx in
      if fromKey = toKey \<or> wm_tabs c = [] \<or> \<not> distinct (map wm_tabId (wm_tabs c)) \<or>
         \<not> distinct (map wm_newTabId (wm_tabs c))
      then refuse Invalid_params
      else case ws_find m fromKey of
        None \<Rightarrow> refuse Workspace_not_found
      | Some source \<Rightarrow>
          let target = workspaceOrEmpty m toKey in
          (case foldE (plan_step own m source) (wm_tabs c)
             \<lparr>pl_shown = shownFiles own target (wm_groupId c), pl_moves = [], pl_folds = [], pl_landed = wm_groupId c\<rparr> of
             Inl code \<Rightarrow> refuse code
           | Inr p \<Rightarrow>
               if group_named (wl_groups target) (wm_groupId c) = None \<and> wl_groups target \<noteq> [] then refuse Group_not_found
               else
                 let target1 = (if group_named (wl_groups target) (wm_groupId c) = None
                       then target\<lparr>wl_groups := [\<lparr>lg_id = wm_groupId c, lg_tabOrder = []\<rparr>]\<rparr> else target);
                     source1 = foldl (\<lambda>s t. withoutTab s (lt_id t)) source (pl_folds p);
                     st = foldl (move_one toKey (wm_groupId c) ctx) (source1, target1) (pl_moves p);
                     (source2, target2) = (case wm_file c of None \<Rightarrow> st | Some f \<Rightarrow> move_editor_file own f st)
                 in applied (withWorkspace (withWorkspace m fromKey source2) toKey target2)
                      (no_result\<lparr>res_tabId := Some (pl_landed p), res_groupId := Some (wm_groupId c)\<rparr>) [] [] []))"

end
