(* ===== verification/Layout_Content.thy ===== *)
theory Layout_Content
  imports Layout_Groups
begin

text \<open>
  The opens of content tabs (\<open>workspace-layout-content-commands.ts\<close>,
  \<open>workspace-layout-simulator-tab.ts\<close>), the pages of browser tabs
  (\<open>workspace-layout-browser-commands.ts\<close>) and the renames of open files
  (\<open>workspace-layout-editor-rekey.ts\<close>).
\<close>

section \<open>Opens\<close>

definition contentTab :: "layout_context \<Rightarrow> content_kind \<Rightarrow> string \<Rightarrow> string option \<Rightarrow> int option \<Rightarrow> layout_tab" where
  "contentTab ctx kind entity tabId createdAt =
     \<lparr>lt_id = (case tabId of Some i \<Rightarrow> i | None \<Rightarrow> lc_mintId ctx Mint_content_tab), lt_entityId = entity,
      lt_createdAt = (case createdAt of Some n \<Rightarrow> n | None \<Rightarrow> lc_now ctx), lt_customTitle = None,
      lt_generatedTitle = None, lt_aiVaultTitle = None, lt_quickCommandLabel = None, lt_color = None,
      lt_isPinned = False, lt_viewMode = None, lt_isPreview = False, lt_agentSessionAgent = None,
      lt_body = Content_body kind\<rparr>"

text \<open>\<open>drawnTabOpen\<close>; \<open>Some\<close> ends the open with that outcome.\<close>

definition drawnTabOpen ::
  "layout_model \<Rightarrow> string \<Rightarrow> string option \<Rightarrow> (layout_tab \<Rightarrow> bool) \<Rightarrow> bool \<Rightarrow> layout_applied option" where
  "drawnTabOpen m k tabId sameContent refuseTaken =
     (if \<not> truthy tabId then None
      else case Option.bind (ws_find m k) (\<lambda>w. findTab w (the tabId)) of
        Some drawn \<Rightarrow>
          if sameContent drawn then Some (applied m (no_result\<lparr>res_tabId := Some (lt_id drawn)\<rparr>) [] [] [])
          else if refuseTaken \<and> holds_tab m (the tabId) then Some (refuse Tab_exists) else None
      | None \<Rightarrow> if refuseTaken \<and> holds_tab m (the tabId) then Some (refuse Tab_exists) else None)"

definition withSendersGroup :: "layout_model \<Rightarrow> string \<Rightarrow> string option \<Rightarrow> layout_model" where
  "withSendersGroup m k groupId =
     (if \<not> truthy groupId \<or> wl_groups (workspaceOrEmpty m k) \<noteq> [] then m
      else withWorkspace m k ((workspaceOrEmpty m k)\<lparr>wl_groups := [\<lparr>lg_id = the groupId, lg_tabOrder = []\<rparr>]\<rparr>))"

definition withEditorFile :: "bool \<Rightarrow> layout_model \<Rightarrow> string \<Rightarrow> editor_file option \<Rightarrow> layout_model" where
  "withEditorFile own m k f =
     (case f of None \<Rightarrow> m
      | Some f \<Rightarrow>
          let w = workspaceOrEmpty m k
          in withWorkspace m k (w\<lparr>wl_editorFiles := filter (\<lambda>e. \<not> sameEditorFile own e f) (wl_editorFiles w) @ [f]\<rparr>))"

definition withEditorView :: "layout_model \<Rightarrow> string \<Rightarrow> string \<Rightarrow> string option \<Rightarrow> layout_model" where
  "withEditorView m k i view =
     (case view of None \<Rightarrow> m
      | Some v \<Rightarrow>
          let w = workspaceOrEmpty m k
          in withWorkspace m k (w\<lparr>wl_editorViews := AList.update i v (wl_editorViews w)\<rparr>))"

definition names_missing_group :: "layout_model \<Rightarrow> string \<Rightarrow> string option \<Rightarrow> bool" where
  "names_missing_group m k groupId =
     (truthy groupId \<and> wl_groups (workspaceOrEmpty m k) \<noteq> [] \<and>
      group_named (wl_groups (workspaceOrEmpty m k)) (the groupId) = None)"

definition open_file_id :: "bool \<Rightarrow> layout_model \<Rightarrow> open_editor \<Rightarrow> string option" where
  "open_file_id own m c =
     orElse (oe_fileId c) (map_option (editorOpenFileId own (workspaceOrEmpty m (oe_workspace c))) (oe_file c))"

definition openEditorTab :: "layout_model \<Rightarrow> open_editor \<Rightarrow> layout_context \<Rightarrow> layout_applied" where
  "openEditorTab m c ctx =
     (let k = oe_workspace c; own = lc_owner ctx; w = workspaceOrEmpty m k in
      if \<not> truthy (open_file_id own m c) then refuse Invalid_params
      else
        let fileId = the (open_file_id own m c);
            sameFile = (\<lambda>t. lt_entityId t = fileId \<and> has_kind (oe_contentType c) t) in
        case drawnTabOpen m k (oe_tabId c) sameFile True of
          Some drawn \<Rightarrow>
            bindE drawn (\<lambda>a. applied (withEditorView (withEditorFile own (al_model a) k (oe_file c)) k (the (oe_tabId c)) (oe_view c))
              (al_result a) [] [] [])
        | None \<Rightarrow>
            if names_missing_group m k (oe_groupId c) then refuse Group_not_found
            else
              let target = withSendersGroup m k (oe_groupId c);
                  groups = wl_groups (workspaceOrEmpty target k);
                  g = orElse (Option.bind (oe_groupId c) (group_named groups)) (first_group groups);
                  existing = find (\<lambda>t. sameFile t \<and> (case g of Some x \<Rightarrow> lt_id t \<in> set (lg_tabOrder x) | None \<Rightarrow> False)) (wl_tabs w)
              in case existing of
                   Some e \<Rightarrow>
                     let pinned = (if lt_isPreview e \<and> \<not> oe_preview c then promotePreviewTab m k (lt_id e) else applied_only m);
                         m1 = (case pinned of Inl code \<Rightarrow> m | Inr a \<Rightarrow> al_model a)
                     in applied (withEditorView (withEditorFile own m1 k (oe_file c)) k (lt_id e) (oe_view c))
                          (no_result\<lparr>res_tabId := Some (lt_id e)\<rparr>) [] [] []
                 | None \<Rightarrow>
                     let tab = (contentTab ctx (oe_contentType c) fileId (nonempty_text (oe_tabId c)) (oe_createdAt c))
                           \<lparr>lt_isPreview := oe_preview c\<rparr>;
                         (placed, refused) = placeContentTab target k tab
                           \<lparr>tp_groupId = oe_groupId c, tp_afterTabId = None, tp_index = oe_index c\<rparr> (oe_dirtyTabIds c) ctx
                     in applied (withEditorView (withEditorFile own placed k (oe_file c)) k (lt_id tab) (oe_view c))
                          (no_result\<lparr>res_tabId := Some (lt_id tab), res_refused := refused\<rparr>) [] [] [])"

definition openSimulatorTab :: "layout_model \<Rightarrow> open_simulator \<Rightarrow> layout_context \<Rightarrow> layout_applied" where
  "openSimulatorTab m c ctx =
     (let k = os_workspace c; groupId = tp_groupId (os_placement c) in
      case drawnTabOpen m k (Some (os_tabId c)) (has_kind Simulator_kind) True of
        Some drawn \<Rightarrow> drawn
      | None \<Rightarrow>
          if names_missing_group m k groupId then refuse Group_not_found
          else
            let tab = contentTab ctx Simulator_kind (os_tabId c) (Some (os_tabId c)) (os_createdAt c)
            in applied (fst (placeContentTab (withSendersGroup m k groupId) k tab (os_placement c) [] ctx))
                 (no_result\<lparr>res_tabId := Some (lt_id tab)\<rparr>) [] [] [])"

definition openAgentSessionTab :: "layout_model \<Rightarrow> open_agent_session \<Rightarrow> layout_context \<Rightarrow> layout_applied" where
  "openAgentSessionTab m c ctx =
     (let k = oa_workspace c in
      if (case oa_initial c of Some reason \<Rightarrow> \<not> admitsInitialSurface m k reason | None \<Rightarrow> False) then applied_only m
      else case drawnTabOpen m k (oa_tabId c)
             (\<lambda>t. has_kind Agent_session_kind t \<and> lt_entityId t = oa_sessionId c) (lc_owner ctx) of
        Some drawn \<Rightarrow> drawn
      | None \<Rightarrow>
          let tab = (contentTab ctx Agent_session_kind (oa_sessionId c) (nonempty_text (oa_tabId c)) (oa_createdAt c))
                \<lparr>lt_agentSessionAgent := Some (oa_agent c)\<rparr>
          in applied (fst (placeContentTab (withSendersGroup m k (tp_groupId (oa_placement c))) k tab (oa_placement c) [] ctx))
               (no_result\<lparr>res_tabId := Some (lt_id tab)\<rparr>) [] [] [])"

section \<open>Browser tabs and their pages\<close>

definition holdsBrowserPage :: "layout_model \<Rightarrow> string \<Rightarrow> bool" where
  "holdsBrowserPage m p = (\<exists>w\<in>set (workspaces_of m). \<exists>b\<in>set (wl_browserTabs w). p \<in> set (bt_pageIds b))"

definition takenBrowserTabIds :: "layout_model \<Rightarrow> string \<Rightarrow> string \<Rightarrow> string \<Rightarrow> string \<Rightarrow> layout_applied option" where
  "takenBrowserTabIds m k tabId browserTabId pageId =
     (let w = workspaceOrEmpty m k;
          rec = find (\<lambda>b. bt_id b = browserTabId) (wl_browserTabs w) in
      if (case rec of Some b \<Rightarrow> pageId \<in> set (bt_pageIds b) | None \<Rightarrow> False) \<and>
         (\<exists>t\<in>set (wl_tabs w). lt_id t = tabId \<and> lt_entityId t = browserTabId)
      then Some (applied m (no_result\<lparr>res_tabId := Some tabId, res_pageId := Some pageId\<rparr>) [] [] [])
      else if \<exists>v\<in>set (workspaces_of m). \<exists>t\<in>set (wl_tabs v).
                lt_id t \<in> {tabId, browserTabId} \<or> lt_entityId t \<in> {tabId, browserTabId}
      then Some (refuse Tab_exists)
      else if holdsBrowserPage m pageId then Some (refuse Page_exists)
      else None)"

definition openBrowserTab :: "layout_model \<Rightarrow> open_browser \<Rightarrow> layout_context \<Rightarrow> layout_applied" where
  "openBrowserTab m c ctx =
     (let k = ob_workspace c;
          browserTabId = (case orElse (ob_browserTabId c) (ob_pageId c) of Some i \<Rightarrow> i | None \<Rightarrow> lc_mintId ctx Mint_browser_tab);
          tabId = (case ob_tabId c of Some i \<Rightarrow> i | None \<Rightarrow> browserTabId);
          pageId = (case ob_pageId c of Some i \<Rightarrow> i | None \<Rightarrow> lc_mintId ctx Mint_browser_page) in
      case (if truthy (ob_browserTabId c) then takenBrowserTabIds m k tabId browserTabId pageId else None) of
        Some taken \<Rightarrow> taken
      | None \<Rightarrow>
          let tab = contentTab ctx Browser_kind browserTabId (Some tabId) (ob_createdAt c);
              placed = fst (placeContentTab m k tab (ob_placement c) [] ctx);
              w = workspaceOrEmpty placed k;
              browserTab = \<lparr>bt_id = browserTabId, bt_label = None, bt_sessionProfileId = ob_profileId c,
                bt_sessionPartition = nonempty_text (ob_sessionPartition c), bt_pageIds = [pageId],
                bt_createdAt = (case ob_browserCreatedAt c of Some n \<Rightarrow> n | None \<Rightarrow> lt_createdAt tab)\<rparr>
          in applied (withWorkspace placed k (w\<lparr>wl_browserTabs := wl_browserTabs w @ [browserTab]\<rparr>))
               (no_result\<lparr>res_tabId := Some (lt_id tab), res_pageId := Some pageId\<rparr>) [] [] [])"

definition withRecord ::
  "layout_model \<Rightarrow> string \<Rightarrow> string \<Rightarrow> (browser_tab \<Rightarrow> browser_tab option) \<Rightarrow> layout_applied" where
  "withRecord m k browserTabId change =
     (let w = workspaceOrEmpty m k in
      case find (\<lambda>b. bt_id b = browserTabId) (wl_browserTabs w) of
        None \<Rightarrow> refuse Tab_not_found
      | Some rec \<Rightarrow>
          (case change rec of
             None \<Rightarrow> refuse Page_exists
           | Some new \<Rightarrow>
               applied (withWorkspace m k (w\<lparr>wl_browserTabs := map (\<lambda>b. if b = rec then new else b) (wl_browserTabs w)\<rparr>))
                 (no_result\<lparr>res_tabId := Some browserTabId\<rparr>) [] [] []))"

definition withPageIds ::
  "layout_model \<Rightarrow> string \<Rightarrow> string \<Rightarrow> (string list \<Rightarrow> string list option) \<Rightarrow> layout_applied" where
  "withPageIds m k browserTabId change =
     withRecord m k browserTabId (\<lambda>b. map_option (\<lambda>ids. b\<lparr>bt_pageIds := ids\<rparr>) (change (bt_pageIds b)))"

definition openBrowserPage :: "layout_model \<Rightarrow> string \<Rightarrow> string \<Rightarrow> string \<Rightarrow> layout_applied" where
  "openBrowserPage m k browserTabId pageId =
     withPageIds m k browserTabId (\<lambda>ids.
       if pageId \<in> set ids then Some ids
       else if holdsBrowserPage m pageId then None
       else Some (ids @ [pageId]))"

definition closeBrowserPage :: "layout_model \<Rightarrow> string \<Rightarrow> string \<Rightarrow> string \<Rightarrow> layout_applied" where
  "closeBrowserPage m k browserTabId pageId =
     withPageIds m k browserTabId (\<lambda>ids. Some (filter (\<lambda>i. i \<noteq> pageId) ids))"

definition replaceBrowserPage :: "layout_model \<Rightarrow> string \<Rightarrow> string \<Rightarrow> string \<Rightarrow> string \<Rightarrow> layout_applied" where
  "replaceBrowserPage m k browserTabId pageId newPageId =
     withPageIds m k browserTabId (\<lambda>ids.
       if newPageId \<in> set ids then Some ids
       else if holdsBrowserPage m newPageId then None
       else if pageId \<in> set ids then Some (map (\<lambda>i. if i = pageId then newPageId else i) ids)
       else Some (ids @ [newPageId]))"

definition setBrowserTabProfile ::
  "layout_model \<Rightarrow> string \<Rightarrow> string \<Rightarrow> string option \<Rightarrow> string option \<Rightarrow> layout_applied" where
  "setBrowserTabProfile m k browserTabId profile sessionPart =
     withRecord m k browserTabId (\<lambda>b. Some (b\<lparr>bt_sessionProfileId := profile, bt_sessionPartition := sessionPart\<rparr>))"

section \<open>Renames of open files\<close>

definition rename_ids :: "file_rename list \<Rightarrow> (string \<times> string) list" where
  "rename_ids rs = fromEntries (map (\<lambda>r. (fr_fileId r, fr_newFileId r)) rs)"

definition renamed_id :: "(string \<times> string) list \<Rightarrow> string \<Rightarrow> string" where
  "renamed_id ids i = (case map_of ids i of Some j \<Rightarrow> j | None \<Rightarrow> i)"

definition renamedEditorFiles :: "editor_file list \<Rightarrow> file_rename list \<Rightarrow> string list \<Rightarrow> editor_file list" where
  "renamedEditorFiles files rs held =
     (let moves = List.map_filter (\<lambda>r. map_option (\<lambda>(path, f). (path, f, fr_newFileId r)) (fr_record r)) rs;
          byOldPath = fromEntries (map (\<lambda>(path, f, n). (path, f)) moves);
          kept = map (\<lambda>f. case map_of byOldPath (ef_filePath f) of Some g \<Rightarrow> g | None \<Rightarrow> f) files;
          missing = filter (\<lambda>(path, f, n). n \<in> set held \<and> path \<notin> ef_filePath ` set files) moves
      in if moves = [] then files else kept @ map (\<lambda>(path, f, n). f) missing)"

definition renamed_tab_ids :: "(string \<times> string) list \<Rightarrow> layout_tab list \<Rightarrow> (string \<times> string) list" where
  "renamed_tab_ids ids tabs =
     fromEntries (map (\<lambda>t. (lt_id t, renamed_id ids (lt_id t)))
       (filter (\<lambda>t. is_editor_tab t \<and> renamed_id ids (lt_id t) \<noteq> lt_id t) tabs))"

definition rename_tab :: "(string \<times> string) list \<Rightarrow> (string \<times> string) list \<Rightarrow> layout_tab \<Rightarrow> layout_tab" where
  "rename_tab ids tabIds t =
     (if is_editor_tab t \<and> (map_of ids (lt_entityId t) \<noteq> None \<or> map_of tabIds (lt_id t) \<noteq> None)
      then t\<lparr>lt_id := renamed_id tabIds (lt_id t), lt_entityId := renamed_id ids (lt_entityId t)\<rparr> else t)"

definition renamed_views ::
  "file_rename list \<Rightarrow> (string \<times> string) list \<Rightarrow> layout_tab list \<Rightarrow> (string \<times> string) list \<Rightarrow> (string \<times> string) list" where
  "renamed_views rs tabIds tabs old =
     (let views = fromEntries (List.map_filter (\<lambda>r. map_option (Pair (fr_newFileId r)) (fr_view r)) rs);
          entityOf = fromEntries (map (\<lambda>t. (lt_id t, lt_entityId t)) tabs)
      in fromEntries (map (\<lambda>(i, v).
           (renamed_id tabIds i,
            case map_of views (case map_of entityOf (renamed_id tabIds i) of Some e \<Rightarrow> e | None \<Rightarrow> []) of
              Some v' \<Rightarrow> v' | None \<Rightarrow> v)) old))"

definition renameInWorkspace :: "layout_model \<Rightarrow> string \<Rightarrow> file_rename list \<Rightarrow> refusal_code + layout_model \<times> (string \<times> string) list" where
  "renameInWorkspace m k rs =
     (case ws_find m k of
        None \<Rightarrow> Inl Workspace_not_found
      | Some w \<Rightarrow>
          let ids = rename_ids rs; targets = map snd ids; tabIds = renamed_tab_ids ids (wl_tabs w) in
          if length ids \<noteq> length rs \<or> \<not> distinct targets then Inl Invalid_params
          else if \<exists>t\<in>set (wl_tabs w). is_editor_tab t \<and> lt_entityId t \<in> set targets \<and> map_of ids (lt_entityId t) = None
          then Inl Invalid_params
          else if \<exists>v\<in>set (workspaces_of m). \<exists>t\<in>set (wl_tabs v). lt_id t \<in> snd ` set tabIds \<and> map_of tabIds (lt_id t) = None
          then Inl Tab_exists
          else
            let tabs = map (rename_tab ids tabIds) (wl_tabs w);
                groups = map (\<lambda>g. if \<exists>i\<in>set (lg_tabOrder g). map_of tabIds i \<noteq> None
                    then g\<lparr>lg_tabOrder := map (renamed_id tabIds) (lg_tabOrder g)\<rparr> else g) (wl_groups w)
            in Inr (withWorkspace m k (w\<lparr>wl_tabs := tabs, wl_groups := groups,
                 wl_editorViews := renamed_views rs tabIds tabs (wl_editorViews w),
                 wl_editorFiles := renamedEditorFiles (wl_editorFiles w) rs (map lt_entityId tabs)\<rparr>), tabIds))"

fun rename_parts ::
  "(string \<times> file_rename list) list \<Rightarrow> layout_model \<Rightarrow> (string \<times> string) list \<Rightarrow>
   refusal_code + layout_model \<times> (string \<times> string) list" where
  "rename_parts [] m acc = Inr (m, acc)"
| "rename_parts ((k, rs) # parts) m acc =
     (case renameInWorkspace m k rs of
        Inl code \<Rightarrow> Inl code
      | Inr (m', ids) \<Rightarrow> rename_parts parts m' (foldl (\<lambda>r (i, j). AList.update i j r) acc ids))"

definition renameEditorFiles ::
  "layout_model \<Rightarrow> string \<Rightarrow> file_rename list \<Rightarrow> (string \<times> file_rename list) list \<Rightarrow> layout_applied" where
  "renameEditorFiles m k rs also_in =
     (let parts = (k, rs) # also_in in
      if \<not> distinct (map fst parts) then refuse Invalid_params
      else case rename_parts parts m [] of
        Inl code \<Rightarrow> refuse code
      | Inr (m', ids) \<Rightarrow> applied m' (no_result\<lparr>res_renamedTabIds := ids\<rparr>) [] [] [])"

end
