(* ===== verification/Layout_Apply.thy ===== *)
theory Layout_Apply
  imports Layout_Content
begin

text \<open>
  The two entries of the layout: \<open>applyLayoutCommand\<close> (\<open>workspace-layout-commands.ts\<close>) for the
  commands clients send, and \<open>applyLayoutTransition\<close> (\<open>workspace-layout-transitions.ts\<close>,
  \<open>workspace-layout-process-exit.ts\<close>, \<open>workspace-layout-owner-transitions.ts\<close>) for the facts
  only the runtime knows.
\<close>

section \<open>Commands\<close>

definition creates_workspace :: "layout_command \<Rightarrow> bool" where
  "creates_workspace c =
     (case c of
        CreateTerminalTab x \<Rightarrow> True | OpenEditorTab x \<Rightarrow> True | OpenBrowserTab x \<Rightarrow> True
      | OpenAgentSessionTab x \<Rightarrow> True | OpenSimulatorTab x \<Rightarrow> True | _ \<Rightarrow> False)"

definition run_command :: "layout_model \<Rightarrow> layout_command \<Rightarrow> layout_context \<Rightarrow> layout_applied" where
  "run_command m cmd ctx =
     (case cmd of
        CreateTerminalTab c \<Rightarrow>
          openInNewGroup m (cr_workspace c) (cr_tabId c) (tp_groupId (cr_placement c)) (cr_split c)
            (\<lambda>n. createTerminalTab n c ctx)
      | SplitPane p d r l \<Rightarrow> splitPane m p d r l ctx
      | ClosePane p u \<Rightarrow> closePane m p u
      | CloseTabs c \<Rightarrow> closeTabs (lc_owner ctx) m c (Some (lc_now ctx))
      | MoveTab c \<Rightarrow> moveTab (lc_owner ctx) m c
      | SplitGroup k i g s \<Rightarrow> splitGroup m k i g s ctx
      | SetGroupRatios k g rs \<Rightarrow> setGroupRatios m k g rs
      | SetPaneRatios k i g rs \<Rightarrow> setPaneRatios m k i g rs
      | MovePane p t s \<Rightarrow> movePane m p t s
      | EqualizePanes k i \<Rightarrow> equalizePanes m k i
      | MovePaneToNewTab c \<Rightarrow> movePaneToNewTab m c ctx
      | RenameTab k i t \<Rightarrow> renameTab m k i t
      | RenamePane p t \<Rightarrow> renamePane m p t
      | SetPaneGrid p g \<Rightarrow> setPaneGrid m p g
      | ReleasePaneTerminal p i \<Rightarrow> releasePaneTerminal m p i
      | SetTabProps c \<Rightarrow> setTabProps m c
      | SetChatPane k i l \<Rightarrow> setChatPane m k i l
      | OpenEditorTab c \<Rightarrow>
          openInNewGroup m (oe_workspace c) (oe_tabId c) (oe_groupId c) (oe_split c) (\<lambda>n. openEditorTab n c ctx)
      | PromotePreviewTab k i \<Rightarrow> promotePreviewTab m k i
      | OpenSimulatorTab c \<Rightarrow>
          openInNewGroup m (os_workspace c) (Some (os_tabId c)) (tp_groupId (os_placement c)) (os_split c)
            (\<lambda>n. openSimulatorTab n c ctx)
      | MoveTabToWorkspace c \<Rightarrow> moveTabToWorkspace m c ctx
      | RenameEditorFiles k rs a \<Rightarrow> renameEditorFiles m k rs a
      | OpenBrowserTab c \<Rightarrow>
          openInNewGroup m (ob_workspace c) (ob_tabId c) (tp_groupId (ob_placement c)) (ob_split c)
            (\<lambda>n. openBrowserTab n c ctx)
      | OpenBrowserPage k b p \<Rightarrow> openBrowserPage m k b p
      | CloseBrowserPage k b p \<Rightarrow> closeBrowserPage m k b p
      | ReplaceBrowserPage k b p q \<Rightarrow> replaceBrowserPage m k b p q
      | SetBrowserTabProfile k b p s \<Rightarrow> setBrowserTabProfile m k b p s
      | OpenAgentSessionTab c \<Rightarrow>
          openInNewGroup m (oa_workspace c) (oa_tabId c) (tp_groupId (oa_placement c)) (oa_split c)
            (\<lambda>n. openAgentSessionTab n c ctx)
      | StartPane k p \<Rightarrow> startPane m k p ctx
      | RestartPane k p \<Rightarrow> restartPane m k p
      | Sleep k ps rs r \<Rightarrow> sleep m k ps rs r
      | Wake k ps r \<Rightarrow> wake m k ps r
      | SetDefaultTabsApplied k \<Rightarrow> setDefaultTabsApplied m k
      | ApplyDefaultTabs k ts \<Rightarrow> applyDefaultTabs m k ts ctx)"

definition needs_workspace :: "layout_command \<Rightarrow> bool" where
  "needs_workspace cmd =
     (case cmd of SetDefaultTabsApplied k \<Rightarrow> False | ApplyDefaultTabs k ts \<Rightarrow> False | _ \<Rightarrow> \<not> creates_workspace cmd)"

definition applyCommand :: "layout_model \<Rightarrow> layout_command \<Rightarrow> layout_context \<Rightarrow> layout_applied" where
  "applyCommand m cmd ctx =
     (if needs_workspace cmd \<and> ws_find m (command_workspace cmd) = None then
        (case cmd of
           CloseTabs c \<Rightarrow> applied m (no_result\<lparr>res_alreadyClosed := True, res_closed := cl_tabIds c\<rparr>) [] [] []
         | ClosePane p u \<Rightarrow> applied m (no_result\<lparr>res_alreadyClosed := True\<rparr>) [] [] []
         | _ \<Rightarrow> refuse Workspace_not_found)
      else run_command m cmd ctx)"

definition applyLayoutCommand :: "layout_model \<Rightarrow> layout_command \<Rightarrow> layout_context \<Rightarrow> layout_applied" where
  "applyLayoutCommand m cmd ctx =
     bindE (applyCommand m cmd ctx) (\<lambda>a.
       let m' = updateLegacyPersistence m (al_model a) []
       in Inr (a\<lparr>al_model := (if lc_droppedLeafReason ctx then runDroppedLeafStep (lc_owner ctx) m m' (lc_now ctx) else m')\<rparr>))"

text \<open>\<open>renameTabCommandsOf\<close>: a batch of generated titles is one command for each.\<close>

definition renameTabCommandsOf :: "(string \<times> string \<times> string option \<times> bool) list \<Rightarrow> layout_command list" where
  "renameTabCommandsOf rs = map (\<lambda>(k, i, t, replace). RenameTab k i (Generated_title t replace)) rs"

section \<open>Facts of the runtime\<close>

record process_exit_facts =
  px_exitCode :: int
  px_local :: bool
  px_spawnedFresh :: bool
  px_tabHadPaneAtConnect :: bool
  px_restored :: bool
  px_inputWritten :: bool
  px_outputReceived :: bool
  px_attachAbsent :: bool

datatype exit_verdict = Verdict_retire | Verdict_keep | Verdict_unbind

definition exitVerdict :: "process_exit_facts \<Rightarrow> nat \<Rightarrow> exit_verdict" where
  "exitVerdict f paneCount =
     (if px_attachAbsent f \<or> \<not> isProvenProcessExit (px_exitCode f) then Verdict_unbind
      else if px_local f \<and> px_exitCode f \<noteq> 0 then Verdict_keep
      else if px_inputWritten f then Verdict_retire
      else if paneCount \<le> 1 then (if px_spawnedFresh f then Verdict_keep else Verdict_retire)
      else if px_tabHadPaneAtConnect f \<and> \<not> px_restored f \<and> \<not> px_outputReceived f then Verdict_keep
      else Verdict_retire)"

definition applyProcessExit :: "layout_model \<Rightarrow> exited_surface \<Rightarrow> process_exit_facts \<Rightarrow> layout_applied" where
  "applyProcessExit m s f =
     (case locateExitedSurface m s of
        Surface_replaced \<Rightarrow> applied_only m
      | Surface_gone \<Rightarrow>
          if exitVerdict f 1 = Verdict_unbind then applied_only m
          else applied_only (updateLegacyPersistence m m [es_worktreeId s])
      | Located k tab \<Rightarrow>
          let l = es_leafId s; w = workspaceOrEmpty m k in
          (case exitVerdict f (length (leafIdsOf tab)) of
             Verdict_keep \<Rightarrow> applied m no_result [] [] [(l, Some Outcome_exited)]
           | Verdict_unbind \<Rightarrow>
               applied (updateLegacyPersistence m (withWorkspace m k (setLeaf w l (unbound_leaf (leaf_or_empty w l)))) [])
                 no_result [] [] [(l, None)]
           | Verdict_retire \<Rightarrow>
               applied (updateLegacyPersistence m (retireTerminalPane m k tab l) [es_worktreeId s])
                 no_result [] [] [(l, None)]))"

definition boundElsewhere :: "layout_model \<Rightarrow> string \<Rightarrow> string option \<times> string option \<Rightarrow> bool" where
  "boundElsewhere m l binding =
     (\<exists>w\<in>set (workspaces_of m). \<exists>(l', leaf)\<in>set (wl_leaves w).
        l' \<noteq> l \<and> isSameTerminal (lf_ptyId leaf, lf_incarnationId leaf) binding)"

definition processStarted :: "layout_model \<Rightarrow> string \<Rightarrow> string \<Rightarrow> string \<Rightarrow> string option \<Rightarrow> layout_applied" where
  "processStarted m k paneKey pty incarnation =
     (case Option.bind (ws_find m k) (\<lambda>w. locatePane w paneKey) of
        None \<Rightarrow> refuse Pane_not_found
      | Some (tab, l) \<Rightarrow>
          if boundElsewhere m l (Some pty, incarnation) then refuse Pane_already_bound
          else
            let w = workspaceOrEmpty m k;
                leaf = (leaf_or_empty w l)\<lparr>lf_ptyId := Some pty\<rparr>;
                leaf' = (case incarnation of Some i \<Rightarrow> leaf\<lparr>lf_incarnationId := Some i\<rparr> | None \<Rightarrow> leaf)
            in applied_only (withWorkspace m k (setLeaf w l leaf')))"

definition lease_step :: "string list \<Rightarrow> workspace_layout \<Rightarrow> string \<times> layout_leaf \<Rightarrow> workspace_layout" where
  "lease_step ptyIds w x =
     (case lf_ptyId (snd x) of
        Some p \<Rightarrow> if p \<in> set ptyIds then setLeaf w (fst x) ((snd x)\<lparr>lf_ptyId := None\<rparr>) else w
      | None \<Rightarrow> w)"

definition sshLeaseTerminated :: "layout_model \<Rightarrow> string list \<Rightarrow> layout_applied" where
  "sshLeaseTerminated m ptyIds =
     applied_only (foldl (\<lambda>n (k, w).
       let updated = foldl (lease_step ptyIds) w (wl_leaves w)
       in if updated = w then n else withWorkspace n k updated) m (lm_workspaces m))"

definition removeWorkspaces :: "layout_model \<Rightarrow> string list \<Rightarrow> layout_model" where
  "removeWorkspaces m keys =
     m\<lparr>lm_workspaces := filter (\<lambda>(k, w). k \<notin> set keys) (lm_workspaces m),
       lm_records := (lm_records m)\<lparr>
         rc_defaultTabsApplied := filter (\<lambda>k. k \<notin> set keys) (rc_defaultTabsApplied (lm_records m)),
         rc_clientHostedPages := filterRecord (rc_clientHostedPages (lm_records m)) (\<lambda>k. k \<notin> set keys)\<rparr>\<rparr>"

definition renamed_key :: "string \<Rightarrow> string \<Rightarrow> string \<Rightarrow> string" where
  "renamed_key from_key to_key v = (if v = from_key then to_key else v)"

definition rekey_list :: "string \<Rightarrow> string \<Rightarrow> string list \<Rightarrow> string list" where
  "rekey_list from_key to_key ks = foldl set_add [] (map (renamed_key from_key to_key) ks)"

definition rekey_record :: "string \<Rightarrow> string \<Rightarrow> (string \<times> 'v) list \<Rightarrow> (string \<times> 'v) list" where
  "rekey_record from_key to_key r = fromEntries (map (\<lambda>(k, v). (renamed_key from_key to_key k, v)) r)"

text \<open>\<open>renameWorkspace\<close>: \<open>None\<close> when the destination is taken.\<close>

definition renameWorkspace :: "layout_model \<Rightarrow> string \<Rightarrow> string \<Rightarrow> layout_model option" where
  "renameWorkspace m from_key to_key =
     (case ws_find m from_key of
        None \<Rightarrow> Some m
      | Some w \<Rightarrow>
          if from_key = to_key then Some m
          else if ws_find m to_key \<noteq> None then None
          else Some (m\<lparr>
            lm_workspaces := AList.delete from_key (AList.update to_key
              (w\<lparr>wl_worktreeId := renamed_key from_key to_key (wl_worktreeId w)\<rparr>) (lm_workspaces m)),
            lm_records := (lm_records m)\<lparr>
              rc_defaultTabsApplied := rekey_list from_key to_key (rc_defaultTabsApplied (lm_records m)),
              rc_clientHostedPages := rekey_record from_key to_key (rc_clientHostedPages (lm_records m))\<rparr>,
            lm_legacy := (lm_legacy m)\<lparr>
              lpe_terminalRowOwners := rekey_list from_key to_key (lpe_terminalRowOwners (lm_legacy m))\<rparr>\<rparr>))"

datatype layout_transition =
    Process_started string string string "string option"
  | Process_exited exited_surface process_exit_facts
  | Ssh_lease_terminated "string list"
  | Owner_removed "string list"
  | Identity_renamed string string

definition applyTransition :: "layout_model \<Rightarrow> layout_transition \<Rightarrow> layout_applied" where
  "applyTransition m tr =
     (case tr of
        Process_started k p pty i \<Rightarrow> processStarted m k p pty i
      | Ssh_lease_terminated ptys \<Rightarrow> sshLeaseTerminated m ptys
      | Owner_removed ks \<Rightarrow> applied_only (removeWorkspaces m ks)
      | Identity_renamed a b \<Rightarrow>
          (case renameWorkspace m a b of Some n \<Rightarrow> applied_only n | None \<Rightarrow> refuse Workspace_exists)
      | Process_exited s f \<Rightarrow> applyProcessExit m s f)"

definition applyLayoutTransition :: "layout_model \<Rightarrow> layout_transition \<Rightarrow> layout_applied" where
  "applyLayoutTransition m tr =
     (case tr of
        Process_exited s f \<Rightarrow> applyProcessExit m s f
      | _ \<Rightarrow> bindE (applyTransition m tr) (\<lambda>a.
          Inr (a\<lparr>al_model := updateLegacyPersistence m (al_model a) []\<rparr>)))"

section \<open>Outcomes of panes\<close>

definition applyPaneOutcomeChanges ::
  "(string \<times> pane_outcome) list \<Rightarrow> (string \<times> pane_outcome option) list \<Rightarrow> (string \<times> pane_outcome) list" where
  "applyPaneOutcomeChanges outcomes changes =
     foldl (\<lambda>r (l, x). case x of Some v \<Rightarrow> AList.update l v r | None \<Rightarrow> AList.delete l r) outcomes changes"

end
