(* ===== verification/Layout_Rules.thy ===== *)
theory Layout_Rules
  imports Layout_Apply
begin

text \<open>
  The rules a layout keeps (\<open>workspace-layout-model-rules.ts\<close>, \<open>checkPaneOwners\<close> of
  \<open>workspace-layout-rules.ts\<close>): the check the code runs on its models, and the invariant
  \<open>model_ok\<close> the commands are proved to keep. A violation is its rule and the ids it names; the
  message is not modelled. \<open>ws_ok E\<close> lets the groups of \<open>E\<close> be empty, as the group an open
  creates is until its tab is placed.
\<close>

section \<open>The check of the code\<close>

datatype layout_rule =
    Rule_terminal_in_two_panes | Rule_pane_in_two_tabs | Rule_pane_twice_in_one_tab | Rule_tab_in_two_places
  | Rule_tab_without_group | Rule_group_empty | Rule_group_tree_mismatch | Rule_leaf_without_pane
  | Rule_leaf_sleeping_and_resume | Rule_tab_in_two_groups | Rule_group_lists_missing_tab
  | Rule_pane_without_tab | Rule_binding_without_pane | Rule_tab_bar_missing | Rule_tab_group_mismatch
  | Rule_tab_lists_disagree | Rule_tab_order_disagrees | Rule_pane_id_changed | Rule_tab_id_changed
  | Rule_group_id_changed

record layout_violation =
  lv_rule :: layout_rule
  lv_worktreeId :: "string option"
  lv_ids :: "string list"

record pane_owner =
  po_hostId :: string
  po_worktreeId :: string
  po_tabId :: string
  po_leafId :: string
  po_ptyId :: "string option"
  po_incarnationId :: "string option"

definition workspace_owners :: "string \<Rightarrow> workspace_layout \<Rightarrow> pane_owner list" where
  "workspace_owners host w =
     concat (map (\<lambda>t. if is_terminal t then
         map (\<lambda>l. \<lparr>po_hostId = host, po_worktreeId = wl_worktreeId w, po_tabId = lt_entityId t, po_leafId = l,
                po_ptyId = leaf_pty w l, po_incarnationId = lf_incarnationId (leaf_or_empty w l)\<rparr>) (leafIdsOf t)
       else []) (wl_tabs w))"

definition paneOwners :: "layout_model \<Rightarrow> pane_owner list" where
  "paneOwners m = concat (map (workspace_owners (lm_hostId m)) (workspaces_of m))"

definition paneOwnerGroups :: "layout_model list \<Rightarrow> pane_owner list list" where
  "paneOwnerGroups ms =
     (let shared = filter (\<lambda>m. isTerminalOwnerPartition (lm_hostId m)) ms;
          mirrors = filter (\<lambda>m. \<not> isTerminalOwnerPartition (lm_hostId m)) ms
      in concat (map paneOwners shared) # map paneOwners mirrors)"

definition owner_binding :: "pane_owner \<Rightarrow> string option \<times> string option" where
  "owner_binding p = (po_ptyId p, po_incarnationId p)"

definition owner_pair :: "pane_owner \<Rightarrow> pane_owner \<Rightarrow> layout_violation list" where
  "owner_pair l r =
     (if po_leafId l = po_leafId r then
        [\<lparr>lv_rule = (if po_tabId l = po_tabId r \<and> po_hostId l = po_hostId r then Rule_pane_twice_in_one_tab
            else Rule_pane_in_two_tabs), lv_worktreeId = Some (po_worktreeId l),
          lv_ids = [po_leafId l, po_tabId l, po_tabId r]\<rparr>]
      else if isSameTerminal (owner_binding l) (owner_binding r) then
        [\<lparr>lv_rule = Rule_terminal_in_two_panes, lv_worktreeId = Some (po_worktreeId l),
          lv_ids = [the (po_ptyId l), po_leafId l, po_leafId r]\<rparr>]
      else [])"

fun check_owner_list :: "pane_owner list \<Rightarrow> layout_violation list" where
  "check_owner_list [] = []"
| "check_owner_list (l # rs) = concat (map (owner_pair l) rs) @ check_owner_list rs"

definition checkPaneOwners :: "pane_owner list list \<Rightarrow> layout_violation list" where
  "checkPaneOwners groups = concat (map check_owner_list groups)"

definition groups_by_tab :: "layout_group list \<Rightarrow> string \<Rightarrow> string list" where
  "groups_by_tab gs i = concat (map (\<lambda>g. replicate (count_list (lg_tabOrder g) i) (lg_id g)) gs)"

definition tree_matches :: "tab_group_node option \<Rightarrow> string list \<Rightarrow> bool" where
  "tree_matches layout groupIds =
     (case layout of
        None \<Rightarrow> length groupIds \<le> 1
      | Some t \<Rightarrow> length (node_ids t) = length groupIds \<and> card (set (node_ids t @ groupIds)) = length groupIds)"

definition pane_ids :: "workspace_layout \<Rightarrow> string list" where
  "pane_ids w = concat (map (\<lambda>t. if is_terminal t then leafIdsOf t else []) (wl_tabs w))"

definition breach :: "workspace_layout \<Rightarrow> layout_rule \<Rightarrow> string list \<Rightarrow> layout_violation" where
  "breach w rule ids = \<lparr>lv_rule = rule, lv_worktreeId = Some (wl_worktreeId w), lv_ids = ids\<rparr>"

definition check_group :: "workspace_layout \<Rightarrow> layout_group \<Rightarrow> layout_violation list" where
  "check_group w g =
     (if lg_tabOrder g = [] then [breach w Rule_group_empty [lg_id g]] else []) @
     map (\<lambda>i. breach w Rule_group_lists_missing_tab [lg_id g, i])
       (filter (\<lambda>i. i \<notin> set (map lt_id (wl_tabs w))) (lg_tabOrder g))"

definition check_tab :: "workspace_layout \<Rightarrow> layout_tab \<Rightarrow> layout_violation list" where
  "check_tab w t =
     (let owners = groups_by_tab (wl_groups w) (lt_id t) in
      if owners = [] then [breach w Rule_tab_without_group [lt_id t]]
      else if length owners > 1 then [breach w Rule_tab_in_two_groups (lt_id t # owners)]
      else [])"

definition checkWorkspace :: "workspace_layout \<Rightarrow> layout_violation list" where
  "checkWorkspace w =
     (let strays = filter (\<lambda>l. l \<notin> set (pane_ids w)) (map fst (wl_leaves w));
          doubled = map fst (filter (\<lambda>(l, x). lf_sleeping x \<noteq> None \<and> lf_resume x \<noteq> None) (wl_leaves w))
      in concat (map (check_group w) (wl_groups w)) @
         concat (map (check_tab w) (wl_tabs w)) @
         (if tree_matches (wl_groupLayout w) (map lg_id (wl_groups w)) then []
          else [breach w Rule_group_tree_mismatch (groupTreeIds (wl_groupLayout w))]) @
         (if strays \<noteq> [] then [breach w Rule_leaf_without_pane strays] else []) @
         (if doubled \<noteq> [] then [breach w Rule_leaf_sleeping_and_resume doubled] else []))"

definition all_tab_ids :: "layout_model \<Rightarrow> string list" where
  "all_tab_ids m = concat (map (\<lambda>w. map lt_id (wl_tabs w)) (workspaces_of m))"

definition checkTabIds :: "layout_model \<Rightarrow> layout_violation list" where
  "checkTabIds m =
     map (\<lambda>i. \<lparr>lv_rule = Rule_tab_in_two_places, lv_worktreeId = None, lv_ids = [i]\<rparr>)
       (filter (\<lambda>i. count_list (all_tab_ids m) i > 1) (dedupeTabOrder (all_tab_ids m)))"

definition checkWorkspaceLayoutModelRules :: "layout_model list \<Rightarrow> layout_violation list" where
  "checkWorkspaceLayoutModelRules ms =
     checkPaneOwners (paneOwnerGroups ms) @ concat (map checkTabIds ms) @
     concat (map (\<lambda>m. concat (map checkWorkspace (workspaces_of m))) ms)"

section \<open>The invariant\<close>

definition tab_ids :: "workspace_layout \<Rightarrow> string list" where
  "tab_ids w = map lt_id (wl_tabs w)"

definition groups_ok :: "string set \<Rightarrow> layout_group list \<Rightarrow> string list \<Rightarrow> bool" where
  "groups_ok E gs ids =
     ((\<forall>g\<in>set gs. lg_tabOrder g = [] \<longrightarrow> lg_id g \<in> E) \<and> distinct (map lg_id gs) \<and>
      (\<forall>i. listed gs i = count_list ids i))"

definition tree_ok :: "tab_group_node option \<Rightarrow> layout_group list \<Rightarrow> bool" where
  "tree_ok layout gs =
     (case layout of
        None \<Rightarrow> length gs \<le> 1
      | Some t \<Rightarrow> distinct (node_ids t) \<and> set (node_ids t) = lg_id ` set gs)"

definition leaf_ok :: "layout_leaf \<Rightarrow> bool" where
  "leaf_ok x = (lf_sleeping x = None \<or> lf_resume x = None)"

definition leaves_ok :: "(string \<times> layout_leaf) list \<Rightarrow> string set \<Rightarrow> bool" where
  "leaves_ok ls P = (distinct (map fst ls) \<and> fst ` set ls \<subseteq> P \<and> (\<forall>x\<in>snd ` set ls. leaf_ok x))"

definition ws_ok :: "string set \<Rightarrow> workspace_layout \<Rightarrow> bool" where
  "ws_ok E w =
     (distinct (tab_ids w) \<and> groups_ok E (wl_groups w) (tab_ids w) \<and> tree_ok (wl_groupLayout w) (wl_groups w) \<and>
      distinct (pane_ids w) \<and> leaves_ok (wl_leaves w) (set (pane_ids w)))"

definition apart :: "workspace_layout \<Rightarrow> workspace_layout \<Rightarrow> bool" where
  "apart v w = (set (tab_ids v) \<inter> set (tab_ids w) = {} \<and> set (pane_ids v) \<inter> set (pane_ids w) = {})"

text \<open>\<open>model_okE X m\<close>: good but for the groups of \<open>X k\<close> that may be empty in workspace \<open>k\<close>.\<close>

definition model_okE :: "(string \<Rightarrow> string set) \<Rightarrow> layout_model \<Rightarrow> bool" where
  "model_okE X m =
     (distinct (map fst (lm_workspaces m)) \<and>
      (\<forall>k w. ws_find m k = Some w \<longrightarrow> ws_ok (X k) w) \<and>
      (\<forall>k w k' w'. ws_find m k = Some w \<longrightarrow> ws_find m k' = Some w' \<longrightarrow> k \<noteq> k' \<longrightarrow> apart w w'))"

definition model_ok :: "layout_model \<Rightarrow> bool" where
  "model_ok m = model_okE (\<lambda>_. {}) m"

lemma ws_okD:
  assumes "ws_ok E w"
  shows "distinct (tab_ids w)" "groups_ok E (wl_groups w) (tab_ids w)" "tree_ok (wl_groupLayout w) (wl_groups w)"
    "distinct (pane_ids w)" "leaves_ok (wl_leaves w) (set (pane_ids w))"
  using assms by (simp_all add: ws_ok_def)

lemma model_okED:
  assumes "model_okE X m"
  shows "distinct (map fst (lm_workspaces m))" "ws_find m k = Some w \<Longrightarrow> ws_ok (X k) w"
    "ws_find m k = Some w \<Longrightarrow> ws_find m k' = Some w' \<Longrightarrow> k \<noteq> k' \<Longrightarrow> apart w w'"
  using assms unfolding model_okE_def by blast+

lemma model_okD:
  assumes "model_ok m"
  shows "distinct (map fst (lm_workspaces m))" "ws_find m k = Some w \<Longrightarrow> ws_ok {} w"
    "ws_find m k = Some w \<Longrightarrow> ws_find m k' = Some w' \<Longrightarrow> k \<noteq> k' \<Longrightarrow> apart w w'"
  using assms unfolding model_ok_def by (blast dest: model_okED)+

lemma apart_sym: "apart v w \<longleftrightarrow> apart w v"
  by (auto simp: apart_def)

lemma ws_ok_mono: "ws_ok E w \<Longrightarrow> E \<subseteq> F \<Longrightarrow> ws_ok F w"
  by (auto simp: ws_ok_def groups_ok_def)

lemma empty_workspace_ok [simp]: "ws_ok E (empty_workspace k)"
  by (simp add: ws_ok_def empty_workspace_def groups_ok_def tree_ok_def tab_ids_def pane_ids_def leaves_ok_def)

lemma empty_workspace_ids [simp]: "tab_ids (empty_workspace k) = []" "pane_ids (empty_workspace k) = []"
  by (simp_all add: tab_ids_def pane_ids_def empty_workspace_def)

lemma workspaceOrEmpty_ok: "model_okE X m \<Longrightarrow> ws_ok (X k) (workspaceOrEmpty m k)"
  by (auto simp: workspaceOrEmpty_def dest: model_okED(2) split: option.splits)

text \<open>What a step on one workspace owes: a good workspace that gained only the tabs \<open>F\<close> and panes \<open>P\<close>.\<close>

definition ws_step :: "string set \<Rightarrow> string set \<Rightarrow> string set \<Rightarrow> workspace_layout \<Rightarrow> workspace_layout \<Rightarrow> bool" where
  "ws_step E F P v w =
     (ws_ok E w \<and> set (tab_ids w) \<subseteq> set (tab_ids v) \<union> F \<and> set (pane_ids w) \<subseteq> set (pane_ids v) \<union> P)"

definition tab_fresh :: "layout_model \<Rightarrow> string \<Rightarrow> bool" where
  "tab_fresh m i = (\<forall>k w. ws_find m k = Some w \<longrightarrow> i \<notin> set (tab_ids w))"

definition pane_fresh :: "layout_model \<Rightarrow> string \<Rightarrow> bool" where
  "pane_fresh m l = (\<forall>k w. ws_find m k = Some w \<longrightarrow> l \<notin> set (pane_ids w))"

lemma fresh_workspaceOrEmpty:
  "tab_fresh m i \<Longrightarrow> i \<notin> set (tab_ids (workspaceOrEmpty m k))"
  "pane_fresh m l \<Longrightarrow> l \<notin> set (pane_ids (workspaceOrEmpty m k))"
  by (auto simp: tab_fresh_def pane_fresh_def workspaceOrEmpty_def split: option.splits)

lemma model_okE_with:
  assumes m: "model_okE X m" and step: "ws_step E F P (workspaceOrEmpty m k) w"
    and F: "\<And>i. i \<in> F \<Longrightarrow> tab_fresh m i" and P: "\<And>l. l \<in> P \<Longrightarrow> pane_fresh m l"
  shows "model_okE (X(k := E)) (withWorkspace m k w)"
proof -
  have keys: "distinct (map fst (lm_workspaces (withWorkspace m k w)))"
    using model_okED(1) [OF m] by (simp add: withWorkspace_def distinct_update)
  have apart_old: "apart w v" if v: "ws_find m k' = Some v" and k: "k' \<noteq> k" for k' v
  proof -
    have "apart (workspaceOrEmpty m k) v"
      using model_okED(3) [OF m _ v] k by (auto simp: workspaceOrEmpty_def apart_def split: option.splits)
    moreover have "set (tab_ids v) \<inter> F = {}" "set (pane_ids v) \<inter> P = {}"
      using F P v by (auto simp: tab_fresh_def pane_fresh_def)
    ultimately show ?thesis using step unfolding apart_def ws_step_def by blast
  qed
  have ok: "ws_ok E w" using step by (simp add: ws_step_def)
  show ?thesis
    unfolding model_okE_def
  proof (intro conjI allI impI keys)
    fix k' v assume "ws_find (withWorkspace m k w) k' = Some v"
    then show "ws_ok ((X(k := E)) k') v" using ok model_okED(2) [OF m] by (auto split: if_splits)
  next
    fix a v b v' assume "ws_find (withWorkspace m k w) a = Some v" "ws_find (withWorkspace m k w) b = Some v'" "a \<noteq> b"
    then show "apart v v'"
      using apart_old apart_sym model_okED(3) [OF m] by (auto split: if_splits)
  qed
qed

section \<open>The check finds nothing in a good model\<close>

lemma groups_by_tab_length: "length (groups_by_tab gs i) = listed gs i"
  by (induction gs) (simp_all add: groups_by_tab_def)

lemma count_distinct: "distinct xs \<Longrightarrow> count_list xs x = (if x \<in> set xs then 1 else 0)"
  by (induction xs) auto

lemma owner_pair_Nil:
  "owner_pair l r = [] \<longleftrightarrow> po_leafId l \<noteq> po_leafId r \<and> \<not> isSameTerminal (owner_binding l) (owner_binding r)"
  by (simp add: owner_pair_def)

lemma check_owner_list_Nil:
  "check_owner_list os = [] \<longleftrightarrow>
     distinct (map po_leafId os) \<and> sorted_wrt (\<lambda>l r. \<not> isSameTerminal (owner_binding l) (owner_binding r)) os"
  by (induction os) (auto simp: owner_pair_Nil)

lemma workspace_owners_leaves: "map po_leafId (workspace_owners h w) = pane_ids w"
  unfolding workspace_owners_def pane_ids_def map_concat map_map
  by (rule arg_cong [of _ _ concat]) (auto simp: comp_def intro!: map_cong)

lemma paneOwners_leaves: "map po_leafId (paneOwners m) = concat (map pane_ids (workspaces_of m))"
  by (simp add: paneOwners_def map_concat comp_def workspace_owners_leaves)

lemma distinct_concat_keyed:
  assumes "distinct (map fst al)"
  shows "distinct (concat (map (\<lambda>(k, w). f w) al)) \<longleftrightarrow>
    (\<forall>k w. map_of al k = Some w \<longrightarrow> distinct (f w)) \<and>
    (\<forall>k w k' w'. map_of al k = Some w \<longrightarrow> map_of al k' = Some w' \<longrightarrow> k \<noteq> k' \<longrightarrow> set (f w) \<inter> set (f w') = {})"
  using assms
proof (induction al)
  case Nil
  then show ?case by simp
next
  case (Cons x al)
  obtain k w where x: "x = (k, w)" by (cases x)
  have k: "map_of al k = None" using Cons.prems x by (simp add: map_of_eq_None_iff)
  have mem: "(a, b) \<in> set al \<longleftrightarrow> map_of al a = Some b" for a b using Cons.prems by (simp add: map_of_eq_Some_iff)
  have disj: "set (f w) \<inter> set (concat (map (\<lambda>(k, w). f w) al)) = {} \<longleftrightarrow>
      (\<forall>k' w'. map_of al k' = Some w' \<longrightarrow> set (f w) \<inter> set (f w') = {})"
    by (auto simp: mem [symmetric] disjoint_iff)
  have IH: "distinct (concat (map (\<lambda>(k, w). f w) al)) \<longleftrightarrow>
    (\<forall>k w. map_of al k = Some w \<longrightarrow> distinct (f w)) \<and>
    (\<forall>k w k' w'. map_of al k = Some w \<longrightarrow> map_of al k' = Some w' \<longrightarrow> k \<noteq> k' \<longrightarrow> set (f w) \<inter> set (f w') = {})"
    using Cons by simp
  show ?case
  proof
    assume "distinct (concat (map (\<lambda>(k, w). f w) (x # al)))"
    then show "(\<forall>k w. map_of (x # al) k = Some w \<longrightarrow> distinct (f w)) \<and>
      (\<forall>k w k' w'. map_of (x # al) k = Some w \<longrightarrow> map_of (x # al) k' = Some w' \<longrightarrow> k \<noteq> k' \<longrightarrow>
         set (f w) \<inter> set (f w') = {})"
      unfolding x using IH disj by (auto split: if_splits)
  next
    assume r: "(\<forall>k w. map_of (x # al) k = Some w \<longrightarrow> distinct (f w)) \<and>
      (\<forall>k w k' w'. map_of (x # al) k = Some w \<longrightarrow> map_of (x # al) k' = Some w' \<longrightarrow> k \<noteq> k' \<longrightarrow>
         set (f w) \<inter> set (f w') = {})"
    have lift: "map_of al a = Some b \<Longrightarrow> map_of (x # al) a = Some b" for a b using k by (auto simp: x)
    have "distinct (concat (map (\<lambda>(k, w). f w) al))" unfolding IH using r lift by meson
    moreover have "distinct (f w)" using conjunct1 [OF r, THEN spec, of k] by (simp add: x)
    moreover have "set (f w) \<inter> set (concat (map (\<lambda>(k, w). f w) al)) = {}"
    proof -
      have "set (f w) \<inter> set (f w') = {}" if "map_of al k' = Some w'" for k' w'
      proof -
        have "k \<noteq> k'" using that k by auto
        with r lift [OF that] show ?thesis by (metis map_of_Cons_code(2) x)
      qed
      then show ?thesis unfolding disj by blast
    qed
    ultimately show "distinct (concat (map (\<lambda>(k, w). f w) (x # al)))" by (simp add: x)
  qed
qed

lemma concat_workspaces: "concat (map f (workspaces_of m)) = concat (map (\<lambda>(k, w). f w) (lm_workspaces m))"
  by (simp add: workspaces_of_def comp_def case_prod_unfold)

lemma count_list_gt_1_distinct: "(\<forall>i\<in>set xs. \<not> count_list xs i > 1) \<longleftrightarrow> distinct xs"
proof (induction xs)
  case Nil
  then show ?case by simp
next
  case (Cons a xs)
  show ?case
  proof (cases "a \<in> set xs")
    case True
    then have "count_list (a # xs) a > 1" using count_pos [OF True] by simp
    with True show ?thesis by auto
  next
    case False
    then have "count_list xs a = 0" by (simp add: count_list_0_iff)
    with False Cons show ?thesis by auto
  qed
qed

lemma checkTabIds_Nil: "checkTabIds m = [] \<longleftrightarrow> distinct (all_tab_ids m)"
proof -
  have "checkTabIds m = [] \<longleftrightarrow> (\<forall>i\<in>set (all_tab_ids m). \<not> count_list (all_tab_ids m) i > 1)"
    by (simp add: checkTabIds_def filter_empty_conv)
  then show ?thesis unfolding count_list_gt_1_distinct .
qed

text \<open>What the check leaves to itself: group ids, tree leaves and record keys without repetition.\<close>

definition unrepeated :: "workspace_layout \<Rightarrow> bool" where
  "unrepeated w = (distinct (map lg_id (wl_groups w)) \<and> distinct (groupTreeIds (wl_groupLayout w)) \<and>
     distinct (map fst (wl_leaves w)))"

lemma tree_matches_ok:
  assumes "distinct (map lg_id gs)" and "distinct (groupTreeIds layout)"
  shows "tree_matches layout (map lg_id gs) \<longleftrightarrow> tree_ok layout gs"
proof (cases layout)
  case None
  then show ?thesis by (simp add: tree_matches_def tree_ok_def)
next
  case (Some t)
  let ?ids = "map lg_id gs"
  have ct: "card (set (node_ids t)) = length (node_ids t)" and ci: "card (set ?ids) = length ?ids"
    using distinct_card [of "node_ids t"] distinct_card [of ?ids] assms Some by simp_all
  have "length (node_ids t) = length ?ids \<and> card (set (node_ids t @ ?ids)) = length ?ids \<longleftrightarrow> set (node_ids t) = set ?ids"
  proof
    assume l: "length (node_ids t) = length ?ids \<and> card (set (node_ids t @ ?ids)) = length ?ids"
    have A: "set ?ids = set (node_ids t @ ?ids)"
      by (rule card_seteq [OF List.finite_set]) (use l ci in simp_all)
    have B: "set (node_ids t) = set (node_ids t @ ?ids)"
      by (rule card_seteq [OF List.finite_set]) (use l ct in simp_all)
    show "set (node_ids t) = set ?ids" by (rule trans [OF B A [symmetric]])
  next
    assume "set (node_ids t) = set ?ids"
    with ct ci show "length (node_ids t) = length ?ids \<and> card (set (node_ids t @ ?ids)) = length ?ids" by simp
  qed
  with Some assms(2) show ?thesis by (simp add: tree_matches_def tree_ok_def)
qed

lemma listed_counts:
  assumes "distinct ids"
  shows "(\<forall>i. listed gs i = count_list ids i) \<longleftrightarrow>
    (\<forall>g\<in>set gs. \<forall>i\<in>set (lg_tabOrder g). i \<in> set ids) \<and> (\<forall>i\<in>set ids. listed gs i = 1)"
proof
  assume l: "\<forall>i. listed gs i = count_list ids i"
  show "(\<forall>g\<in>set gs. \<forall>i\<in>set (lg_tabOrder g). i \<in> set ids) \<and> (\<forall>i\<in>set ids. listed gs i = 1)"
    using l listed_pos [of _ gs] count_distinct [OF assms] by (metis count_notin less_numeral_extra(3))
next
  assume r: "(\<forall>g\<in>set gs. \<forall>i\<in>set (lg_tabOrder g). i \<in> set ids) \<and> (\<forall>i\<in>set ids. listed gs i = 1)"
  show "\<forall>i. listed gs i = count_list ids i"
  proof
    fix i
    show "listed gs i = count_list ids i"
      using r count_distinct [OF assms, of i] listed_0_iff [of gs i] by (cases "i \<in> set ids") auto
  qed
qed

lemma check_group_Nil:
  "check_group w g = [] \<longleftrightarrow> lg_tabOrder g \<noteq> [] \<and> (\<forall>i\<in>set (lg_tabOrder g). i \<in> set (tab_ids w))"
  by (auto simp: check_group_def tab_ids_def filter_empty_conv)

lemma check_tab_Nil: "check_tab w t = [] \<longleftrightarrow> listed (wl_groups w) (lt_id t) = 1"
  unfolding check_tab_def groups_by_tab_length [symmetric]
  by (cases "groups_by_tab (wl_groups w) (lt_id t)"; cases "tl (groups_by_tab (wl_groups w) (lt_id t))") auto

lemma checkWorkspace_Nil_parts:
  "checkWorkspace w = [] \<longleftrightarrow>
     (\<forall>g\<in>set (wl_groups w). check_group w g = []) \<and> (\<forall>t\<in>set (wl_tabs w). check_tab w t = []) \<and>
     tree_matches (wl_groupLayout w) (map lg_id (wl_groups w)) \<and>
     fst ` set (wl_leaves w) \<subseteq> set (pane_ids w) \<and> (\<forall>x\<in>snd ` set (wl_leaves w). leaf_ok x)"
proof -
  have strays: "filter (\<lambda>l. l \<notin> set (pane_ids w)) (map fst (wl_leaves w)) = [] \<longleftrightarrow>
      fst ` set (wl_leaves w) \<subseteq> set (pane_ids w)"
    by (auto simp: filter_empty_conv)
  have doubled: "map fst (filter (\<lambda>(l, x). lf_sleeping x \<noteq> None \<and> lf_resume x \<noteq> None) (wl_leaves w)) = []
      \<longleftrightarrow> (\<forall>x\<in>snd ` set (wl_leaves w). leaf_ok x)"
    by (auto simp: filter_empty_conv leaf_ok_def case_prod_unfold)
  have ifs: "(if b then [] else [v]) = [] \<longleftrightarrow> b" "(if xs \<noteq> [] then [v] else []) = [] \<longleftrightarrow> xs = []"
    for b and v :: layout_violation and xs :: "string list" by simp_all
  show ?thesis
    unfolding checkWorkspace_def Let_def append_is_Nil_conv concat_eq_Nil_conv set_map ball_simps ifs strays doubled
    by simp
qed

lemma checkWorkspace_Nil:
  assumes "distinct (tab_ids w)" and "distinct (pane_ids w)" and "unrepeated w"
  shows "checkWorkspace w = [] \<longleftrightarrow> ws_ok {} w"
proof -
  have tree: "tree_matches (wl_groupLayout w) (map lg_id (wl_groups w)) \<longleftrightarrow> tree_ok (wl_groupLayout w) (wl_groups w)"
    using assms(3) unfolding unrepeated_def by (intro tree_matches_ok) simp_all
  have tabs: "(\<forall>t\<in>set (wl_tabs w). listed (wl_groups w) (lt_id t) = 1) \<longleftrightarrow> (\<forall>i\<in>set (tab_ids w). listed (wl_groups w) i = 1)"
    by (simp add: tab_ids_def)
  show ?thesis
    using assms listed_counts [OF assms(1), of "wl_groups w"]
    unfolding checkWorkspace_Nil_parts check_group_Nil check_tab_Nil tree tabs
      ws_ok_def groups_ok_def leaves_ok_def unrepeated_def by blast
qed

definition terminals_ok :: "layout_model \<Rightarrow> bool" where
  "terminals_ok m = sorted_wrt (\<lambda>l r. \<not> isSameTerminal (owner_binding l) (owner_binding r)) (paneOwners m)"

lemma ws_find_members:
  assumes "distinct (map fst (lm_workspaces m))"
  shows "(\<forall>w\<in>set (workspaces_of m). P w) \<longleftrightarrow> (\<forall>k w. ws_find m k = Some w \<longrightarrow> P w)"
proof -
  have mem: "(k, w) \<in> set (lm_workspaces m) \<longleftrightarrow> ws_find m k = Some w" for k w
    unfolding ws_find_def by (rule map_of_eq_Some_iff [OF assms, symmetric])
  have "(\<forall>w\<in>set (workspaces_of m). P w) \<longleftrightarrow> (\<forall>x\<in>set (lm_workspaces m). P (snd x))"
    by (simp add: workspaces_of_def)
  also have "\<dots> \<longleftrightarrow> (\<forall>k w. (k, w) \<in> set (lm_workspaces m) \<longrightarrow> P w)" by fastforce
  finally show ?thesis unfolding mem .
qed

lemma check_model_Nil:
  assumes keys: "distinct (map fst (lm_workspaces m))" and un: "\<And>k w. ws_find m k = Some w \<Longrightarrow> unrepeated w"
  shows "checkWorkspaceLayoutModelRules [m] = [] \<longleftrightarrow> model_ok m \<and> terminals_ok m"
proof -
  let ?tabs = "distinct (all_tab_ids m)" and ?panes = "distinct (concat (map pane_ids (workspaces_of m)))"
  let ?ws = "\<forall>k w. ws_find m k = Some w \<longrightarrow> checkWorkspace w = []"
  have owners: "checkPaneOwners (paneOwnerGroups [m]) = [] \<longleftrightarrow> ?panes \<and> terminals_ok m"
    by (simp add: checkPaneOwners_def paneOwnerGroups_def check_owner_list_Nil paneOwners_leaves terminals_ok_def)
  have ws: "concat (map (\<lambda>m. concat (map checkWorkspace (workspaces_of m))) [m]) = [] \<longleftrightarrow> ?ws"
    using ws_find_members [OF keys, of "\<lambda>w. checkWorkspace w = []"] by simp
  have all: "checkWorkspaceLayoutModelRules [m] = [] \<longleftrightarrow> ?panes \<and> terminals_ok m \<and> ?tabs \<and> ?ws"
    unfolding checkWorkspaceLayoutModelRules_def append_is_Nil_conv owners ws by (simp add: checkTabIds_Nil conj_assoc)
  note D = distinct_concat_keyed [OF keys, folded ws_find_def]
  have tabs: "?tabs \<longleftrightarrow> (\<forall>k w. ws_find m k = Some w \<longrightarrow> distinct (tab_ids w)) \<and>
      (\<forall>k w k' w'. ws_find m k = Some w \<longrightarrow> ws_find m k' = Some w' \<longrightarrow> k \<noteq> k' \<longrightarrow> set (tab_ids w) \<inter> set (tab_ids w') = {})"
    unfolding all_tab_ids_def concat_workspaces tab_ids_def by (rule D)
  have panes: "?panes \<longleftrightarrow> (\<forall>k w. ws_find m k = Some w \<longrightarrow> distinct (pane_ids w)) \<and>
      (\<forall>k w k' w'. ws_find m k = Some w \<longrightarrow> ws_find m k' = Some w' \<longrightarrow> k \<noteq> k' \<longrightarrow> set (pane_ids w) \<inter> set (pane_ids w') = {})"
    unfolding concat_workspaces by (rule D)
  have "?panes \<and> ?tabs \<and> ?ws \<longleftrightarrow> model_ok m"
  proof
    assume l: "?panes \<and> ?tabs \<and> ?ws"
    then have "ws_ok {} w" if w: "ws_find m k = Some w" for k w
    proof -
      have "distinct (tab_ids w)" "distinct (pane_ids w)" "checkWorkspace w = []" using l tabs panes w by simp_all
      with checkWorkspace_Nil [OF _ _ un [OF w]] show ?thesis by simp
    qed
    with l tabs panes keys show "model_ok m" unfolding model_ok_def model_okE_def apart_def by blast
  next
    assume r: "model_ok m"
    have "distinct (tab_ids w) \<and> distinct (pane_ids w) \<and> checkWorkspace w = []" if w: "ws_find m k = Some w" for k w
    proof -
      have ok: "ws_ok {} w" by (rule model_okD(2) [OF r w])
      with checkWorkspace_Nil [OF ws_okD(1) [OF ok] ws_okD(4) [OF ok] un [OF w]] ws_okD(1,4) [OF ok] show ?thesis by simp
    qed
    then have each: "\<And>k w. ws_find m k = Some w \<Longrightarrow> distinct (tab_ids w)" "\<And>k w. ws_find m k = Some w \<Longrightarrow> distinct (pane_ids w)"
      and ?ws by blast+
    have apart: "\<And>k w k' w'. ws_find m k = Some w \<Longrightarrow> ws_find m k' = Some w' \<Longrightarrow> k \<noteq> k' \<Longrightarrow> apart w w'"
      by (rule model_okD(3) [OF r])
    have ?tabs unfolding tabs using each(1) apart unfolding apart_def by blast
    moreover have ?panes unfolding panes using each(2) apart unfolding apart_def by blast
    ultimately show "?panes \<and> ?tabs \<and> ?ws" using \<open>?ws\<close> by (intro conjI)
  qed
  with all show ?thesis by blast
qed

end
