(* ===== verification/Layout_Keeps.thy ===== *)
theory Layout_Keeps
  imports Layout_Rules
begin

text \<open>
  What each step on one workspace keeps: replacing a tab, writing a pane's data, placing a tab, removing
  a tab, moving it between groups and editing the group tree. The commands are compositions of these.
\<close>

section \<open>Shape and pane data\<close>

definition tab_leaves :: "layout_tab \<Rightarrow> string list" where
  "tab_leaves t = (if is_terminal t then leafIdsOf t else [])"

lemma pane_ids_tab_leaves: "pane_ids w = concat (map tab_leaves (wl_tabs w))"
  by (simp add: pane_ids_def tab_leaves_def [abs_def])

definition ws_shape :: "string set \<Rightarrow> workspace_layout \<Rightarrow> bool" where
  "ws_shape E w =
     (distinct (tab_ids w) \<and> groups_ok E (wl_groups w) (tab_ids w) \<and> tree_ok (wl_groupLayout w) (wl_groups w) \<and>
      distinct (pane_ids w))"

lemma ws_ok_shape: "ws_ok E w \<longleftrightarrow> ws_shape E w \<and> leaves_ok (wl_leaves w) (set (pane_ids w))"
  by (auto simp: ws_ok_def ws_shape_def)

text \<open>A workspace that differs in other fields only.\<close>

definition same_frame :: "workspace_layout \<Rightarrow> workspace_layout \<Rightarrow> bool" where
  "same_frame v w = (tab_ids w = tab_ids v \<and> pane_ids w = pane_ids v \<and> wl_groups w = wl_groups v \<and>
     wl_groupLayout w = wl_groupLayout v)"

lemma same_frame_shape: "same_frame v w \<Longrightarrow> ws_shape E w = ws_shape E v"
  by (simp add: same_frame_def ws_shape_def)

lemma same_frame_ok: "same_frame v w \<Longrightarrow> wl_leaves w = wl_leaves v \<Longrightarrow> ws_ok E w = ws_ok E v"
  by (simp add: same_frame_def ws_ok_def)

lemma same_frame_step:
  "ws_ok E v \<Longrightarrow> same_frame v w \<Longrightarrow> leaves_ok (wl_leaves w) (set (pane_ids v)) \<Longrightarrow> ws_step E F P v w"
  unfolding ws_step_def ws_ok_shape by (auto simp: same_frame_shape) (auto simp: same_frame_def)

lemma ws_step_refl: "ws_ok E w \<Longrightarrow> ws_step E F P w w"
  by (simp add: ws_step_def)

lemma ws_step_trans: "ws_step E F P u v \<Longrightarrow> ws_step E' F P v w \<Longrightarrow> ws_step E' F P u w"
  unfolding ws_step_def by blast

lemma ws_step_mono: "ws_step E F P v w \<Longrightarrow> E \<subseteq> E' \<Longrightarrow> F \<subseteq> F' \<Longrightarrow> P \<subseteq> P' \<Longrightarrow> ws_step E' F' P' v w"
  unfolding ws_step_def using ws_ok_mono by blast

lemma same_frame_fields [simp]:
  "same_frame w (w\<lparr>wl_leaves := a\<rparr>)" "same_frame w (w\<lparr>wl_editorFiles := b\<rparr>)" "same_frame w (w\<lparr>wl_editorViews := c\<rparr>)"
  "same_frame w (w\<lparr>wl_browserTabs := d\<rparr>)" "same_frame w (w\<lparr>wl_closedTerminalTabs := e\<rparr>)"
  "same_frame w (w\<lparr>wl_worktreeId := f\<rparr>)"
  by (simp_all add: same_frame_def tab_ids_def pane_ids_def)

subsection \<open>Pane data\<close>

lemma leaves_ok_map:
  "leaves_ok ls P \<longleftrightarrow> distinct (map fst ls) \<and> fst ` set ls \<subseteq> P \<and> (\<forall>l x. map_of ls l = Some x \<longrightarrow> leaf_ok x)"
proof (cases "distinct (map fst ls)")
  case True
  then have mem: "map_of ls l = Some x \<longleftrightarrow> (l, x) \<in> set ls" for l x by (rule map_of_eq_Some_iff)
  have "(\<forall>x\<in>snd ` set ls. leaf_ok x) \<longleftrightarrow> (\<forall>l x. (l, x) \<in> set ls \<longrightarrow> leaf_ok x)" by force
  then show ?thesis unfolding leaves_ok_def mem by simp
qed (simp add: leaves_ok_def)

lemma leaves_ok_mono: "leaves_ok ls P \<Longrightarrow> P \<subseteq> Q \<Longrightarrow> leaves_ok ls Q"
  by (auto simp: leaves_ok_def)

lemma leaves_ok_update: "leaves_ok ls P \<Longrightarrow> l \<in> P \<Longrightarrow> leaf_ok x \<Longrightarrow> leaves_ok (AList.update l x ls) P"
  unfolding leaves_ok_map by (auto simp: distinct_update update_conv' dom_update)

lemma leaves_ok_delete: "leaves_ok ls P \<Longrightarrow> leaves_ok (AList.delete l ls) P"
  unfolding leaves_ok_map using dom_delete_subset [of l ls] by (auto simp: distinct_delete delete_conv')

lemma leaves_ok_delete_shrink: "leaves_ok ls P \<Longrightarrow> leaves_ok (AList.delete l ls) (P - {l})"
  unfolding leaves_ok_map using dom_delete_subset [of l ls] delete_notin_dom [of l ls]
  by (auto simp: distinct_delete delete_conv')

lemma leaves_ok_filter: "leaves_ok ls P \<Longrightarrow> leaves_ok (filterRecord ls keep) {l \<in> P. keep l}"
  unfolding leaves_ok_def filterRecord_def by (auto simp: distinct_map_filter)

lemma leaves_ok_setLeaf:
  "leaves_ok (wl_leaves w) P \<Longrightarrow> l \<in> P \<Longrightarrow> leaf_ok x \<Longrightarrow> leaves_ok (wl_leaves (setLeaf w l x)) P"
  using leaves_ok_update [of "wl_leaves w" P l x] leaves_ok_delete [of "AList.update l x (wl_leaves w)" P l]
  by (auto simp: setLeaf_def)

lemma leaf_or_empty_ok: "leaves_ok (wl_leaves w) P \<Longrightarrow> leaf_ok (leaf_or_empty w l)"
  by (auto simp: leaf_or_empty_def leaf_at_def leaves_ok_map leaf_ok_def empty_leaf_def split: option.splits)

lemma setLeaf_frame [simp]: "same_frame w (setLeaf w l x)"
  by (simp add: setLeaf_def)

lemma setLeaf_step: "ws_ok E w \<Longrightarrow> l \<in> set (pane_ids w) \<Longrightarrow> leaf_ok x \<Longrightarrow> ws_step E F P w (setLeaf w l x)"
  by (rule same_frame_step) (auto intro: leaves_ok_setLeaf dest: ws_okD(5))

lemma ws_ok_leaf: "ws_ok E w \<Longrightarrow> leaf_ok (leaf_or_empty w l)"
  by (rule leaf_or_empty_ok) (rule ws_okD(5))

section \<open>Replacing a tab\<close>

lemma tab_ids_replaceTab [simp]: "tab_ids (replaceTab w t) = tab_ids w"
  by (auto simp: replaceTab_def tab_ids_def)

lemma replaceTab_fields [simp]:
  "wl_groups (replaceTab w t) = wl_groups w" "wl_groupLayout (replaceTab w t) = wl_groupLayout w"
  "wl_leaves (replaceTab w t) = wl_leaves w" "wl_worktreeId (replaceTab w t) = wl_worktreeId w"
  by (simp_all add: replaceTab_def)

lemma findTab_SomeD: "findTab w i = Some t \<Longrightarrow> t \<in> set (wl_tabs w) \<and> lt_id t = i"
  unfolding findTab_def by (auto dest: find_SomeD)

lemma findTerminal_SomeD: "findTerminal w i = Some t \<Longrightarrow> t \<in> set (wl_tabs w) \<and> lt_id t = i \<and> is_terminal t"
  by (auto simp: findTerminal_def split: option.splits if_splits dest: findTab_SomeD)

text \<open>The tabs around the replaced one, whose id is its own.\<close>

lemma replaceTab_split:
  assumes "distinct (tab_ids w)" and "t \<in> set (wl_tabs w)" and "lt_id t' = lt_id t"
  obtains as bs where "wl_tabs w = as @ t # bs" and "wl_tabs (replaceTab w t') = as @ t' # bs"
proof -
  obtain as bs where w: "wl_tabs w = as @ t # bs" using split_list [OF assms(2)] by blast
  have "lt_id e \<noteq> lt_id t" if "e \<in> set as \<union> set bs" for e
    using assms(1) that by (auto simp: tab_ids_def w image_iff)
  then have "map (\<lambda>e. if lt_id e = lt_id t' then t' else e) as = as" "map (\<lambda>e. if lt_id e = lt_id t' then t' else e) bs = bs"
    using assms(3) by (auto intro!: map_idI)
  then have "wl_tabs (replaceTab w t') = as @ t' # bs" by (simp add: replaceTab_def w assms(3))
  with w that show thesis by blast
qed

lemma tab_leaves_subset: "t \<in> set (wl_tabs w) \<Longrightarrow> set (tab_leaves t) \<subseteq> set (pane_ids w)"
  by (auto simp: pane_ids_tab_leaves)

lemma pane_ids_replaceTab:
  assumes "distinct (tab_ids w)" and "t \<in> set (wl_tabs w)" and "lt_id t' = lt_id t" and "distinct (pane_ids w)"
  shows "set (pane_ids (replaceTab w t')) = set (pane_ids w) - set (tab_leaves t) \<union> set (tab_leaves t')"
    and "distinct (tab_leaves t') \<Longrightarrow> set (tab_leaves t') \<inter> set (pane_ids w) \<subseteq> set (tab_leaves t) \<Longrightarrow>
      distinct (pane_ids (replaceTab w t'))"
proof -
  obtain as bs where w: "wl_tabs w = as @ t # bs" "wl_tabs (replaceTab w t') = as @ t' # bs"
    by (rule replaceTab_split [OF assms(1-3)])
  show "set (pane_ids (replaceTab w t')) = set (pane_ids w) - set (tab_leaves t) \<union> set (tab_leaves t')"
    using assms(4) unfolding pane_ids_tab_leaves w by auto
  show "distinct (pane_ids (replaceTab w t'))"
    if "distinct (tab_leaves t')" "set (tab_leaves t') \<inter> set (pane_ids w) \<subseteq> set (tab_leaves t)"
  proof -
    let ?A = "concat (map tab_leaves as)" and ?B = "concat (map tab_leaves bs)"
    have d: "distinct (?A @ tab_leaves t @ ?B)" using assms(4) by (simp add: pane_ids_tab_leaves w)
    moreover have "set (tab_leaves t') \<inter> (set ?A \<union> set ?B) \<subseteq> set (tab_leaves t)"
      using that(2) by (auto simp: pane_ids_tab_leaves w)
    ultimately have "distinct (?A @ tab_leaves t' @ ?B)" using that(1) unfolding distinct_append set_append by blast
    then show ?thesis by (simp add: pane_ids_tab_leaves w)
  qed
qed

text \<open>
  A tab given new panes, of its own and new ones \<open>P\<close>; the data of the panes it lost must be gone.
\<close>

lemma replaceTab_step:
  assumes ok: "ws_ok E w" and t: "t \<in> set (wl_tabs w)" and id: "lt_id t' = lt_id t"
    and leaves: "distinct (tab_leaves t')" "set (tab_leaves t') \<subseteq> set (tab_leaves t) \<union> P"
    and P: "P \<inter> set (pane_ids w) = {}"
    and data: "leaves_ok ls (set (pane_ids w) - set (tab_leaves t) \<union> set (tab_leaves t'))"
  shows "ws_step E F P w ((replaceTab w t')\<lparr>wl_leaves := ls\<rparr>)"
proof -
  note D = ws_okD [OF ok]
  have sub: "set (tab_leaves t') \<inter> set (pane_ids w) \<subseteq> set (tab_leaves t)" using leaves(2) P by blast
  note R = pane_ids_replaceTab [OF D(1) t id D(4)]
  have frame: "tab_ids ((replaceTab w t')\<lparr>wl_leaves := ls\<rparr>) = tab_ids w"
    "pane_ids ((replaceTab w t')\<lparr>wl_leaves := ls\<rparr>) = pane_ids (replaceTab w t')"
    using tab_ids_replaceTab [of w t'] by (simp_all add: tab_ids_def pane_ids_def)
  have "set (pane_ids (replaceTab w t')) \<subseteq> set (pane_ids w) \<union> P"
    unfolding R(1) using tab_leaves_subset [OF t] leaves(2) by blast
  moreover have "ws_ok E ((replaceTab w t')\<lparr>wl_leaves := ls\<rparr>)"
    unfolding ws_ok_def frame using D(1-3) R(2) [OF leaves(1) sub] data by (simp add: R(1))
  ultimately show ?thesis unfolding ws_step_def frame by simp
qed

text \<open>The common case: the tab keeps all its panes and may gain some.\<close>

lemma replaceTab_grows:
  assumes ok: "ws_ok E w" and t: "t \<in> set (wl_tabs w)" and id: "lt_id t' = lt_id t"
    and leaves: "distinct (tab_leaves t')" "set (tab_leaves t') = set (tab_leaves t) \<union> P"
    and P: "P \<inter> set (pane_ids w) = {}"
  shows "ws_step E F P w (replaceTab w t')"
proof -
  have "leaves_ok (wl_leaves w) (set (pane_ids w) - set (tab_leaves t) \<union> set (tab_leaves t'))"
    by (rule leaves_ok_mono [OF ws_okD(5) [OF ok]]) (use leaves(2) in blast)
  from replaceTab_step [OF ok t id leaves(1) _ P this] leaves(2)
  have "ws_step E F P w ((replaceTab w t')\<lparr>wl_leaves := wl_leaves w\<rparr>)" by blast
  moreover have "(replaceTab w t')\<lparr>wl_leaves := wl_leaves w\<rparr> = replaceTab w t'" by (simp add: replaceTab_def)
  ultimately show ?thesis by simp
qed

lemma tab_leaves_distinct: "ws_ok E w \<Longrightarrow> t \<in> set (wl_tabs w) \<Longrightarrow> distinct (tab_leaves t)"
  by (auto dest!: ws_okD(4) simp: pane_ids_tab_leaves distinct_concat_iff)

lemma replaceTab_same:
  assumes ok: "ws_ok E w" and t: "t \<in> set (wl_tabs w)" and id: "lt_id t' = lt_id t"
    and leaves: "tab_leaves t' = tab_leaves t"
  shows "ws_step E F P w (replaceTab w t')"
proof -
  have "ws_step E F {} w (replaceTab w t')"
    by (rule replaceTab_grows [OF ok t id]) (simp_all add: leaves tab_leaves_distinct [OF ok t])
  then show ?thesis by (rule ws_step_mono) simp_all
qed

section \<open>Placing a tab\<close>

lemma ws_shapeD:
  assumes "ws_shape E w"
  shows "distinct (tab_ids w)" "groups_ok E (wl_groups w) (tab_ids w)" "tree_ok (wl_groupLayout w) (wl_groups w)"
    "distinct (pane_ids w)"
  using assms by (simp_all add: ws_shape_def)

lemma ws_shape_mono: "ws_shape E w \<Longrightarrow> E \<subseteq> F \<Longrightarrow> ws_shape F w"
  by (auto simp: ws_shape_def groups_ok_def)

lemma ws_shape_empty_groups: "ws_shape E w \<Longrightarrow> wl_groups w = [] \<Longrightarrow> wl_groupLayout w = None"
  by (auto dest!: ws_shapeD(3) simp: tree_ok_def split: option.splits)

lemma group_named_SomeD: "group_named gs i = Some g \<Longrightarrow> g \<in> set gs \<and> lg_id g = i"
  unfolding group_named_def by (auto dest: find_SomeD)

lemma group_of_tab_SomeD: "group_of_tab gs i = Some g \<Longrightarrow> g \<in> set gs \<and> i \<in> set (lg_tabOrder g)"
  unfolding group_of_tab_def by (auto dest: find_SomeD)

lemma first_group_SomeD: "first_group gs = Some g \<Longrightarrow> g \<in> set gs"
  by (auto simp: first_group_def split: list.splits)

lemma orElse_cases: "orElse a b = Some x \<Longrightarrow> a = Some x \<or> b = Some x"
  by (cases a) auto

lemma placement_group_SomeD: "placement_group gs p = Some g \<Longrightarrow> g \<in> set gs"
  unfolding placement_group_def anchor_group_def
  by (auto dest!: orElse_cases group_named_SomeD group_of_tab_SomeD first_group_SomeD
      split: Option.bind_splits if_splits)

lemma placement_group_None: "placement_group gs p = None \<Longrightarrow> gs = []"
  unfolding placement_group_def first_group_def by (cases gs) (auto simp: orElse_def split: option.splits)

lemma placement_group_single: "placement_group [\<lparr>lg_id = g, lg_tabOrder = []\<rparr>] p = Some \<lparr>lg_id = g, lg_tabOrder = []\<rparr>"
  unfolding placement_group_def anchor_group_def first_group_def group_of_tab_def group_named_def
  by (auto simp: orElse_def split: option.splits Option.bind_splits)

definition place_in :: "layout_group list \<Rightarrow> string \<Rightarrow> string list \<Rightarrow> layout_group list" where
  "place_in gs i order = map (\<lambda>e. if lg_id e = i then e\<lparr>lg_tabOrder := order\<rparr> else e) gs"

lemma place_in_ids [simp]: "map lg_id (place_in gs i order) = map lg_id gs"
  by (simp add: place_in_def)

lemma place_in_id_set [simp]: "lg_id ` set (place_in gs i order) = lg_id ` set gs"
  unfolding set_map [symmetric] place_in_ids ..

lemma tree_ok_place_in [simp]: "tree_ok layout (place_in gs i order) = tree_ok layout gs"
proof -
  have "length (place_in gs i order) = length gs" by (simp add: place_in_def)
  then show ?thesis unfolding tree_ok_def place_in_id_set by (cases layout) simp_all
qed

lemma listed_place_in:
  assumes "distinct (map lg_id gs)" and "g \<in> set gs" and "mset order = add_mset t (mset (lg_tabOrder g))"
  shows "listed (place_in gs (lg_id g) order) i = listed gs i + (if i = t then 1 else 0)"
  using assms(1,2)
proof (induction gs)
  case Nil
  then show ?case by simp
next
  case (Cons e gs)
  have c: "count_list order i = count_list (lg_tabOrder g) i + (if i = t then 1 else 0)"
    using arg_cong [OF assms(3), of "\<lambda>m. count m i"] by (simp add: count_mset)
  show ?case
  proof (cases "e = g")
    case True
    with Cons.prems have "place_in gs (lg_id g) order = gs"
      unfolding place_in_def by (intro map_idI) (auto simp: image_iff)
    with True c show ?thesis by (simp add: place_in_def)
  next
    case False
    with Cons.prems have "lg_id e \<noteq> lg_id g" by (auto simp: image_iff)
    with False Cons show ?thesis by (simp add: place_in_def)
  qed
qed

lemma groups_ok_listed: "groups_ok E gs ids \<Longrightarrow> distinct ids \<Longrightarrow> listed gs i \<le> 1"
  using count_distinct [of ids i] by (simp add: groups_ok_def)

lemma groups_ok_order_distinct:
  assumes "groups_ok E gs ids" and "distinct ids" and "g \<in> set gs"
  shows "distinct (lg_tabOrder g)"
proof -
  have "count_list (lg_tabOrder g) i \<le> 1" for i
    by (rule listed_one_count [OF groups_ok_listed [OF assms(1,2)] assms(3)])
  then show ?thesis by (simp add: distinct_count_atmost_1 flip: count_mset) (metis (no_types) One_nat_def count_list_0_iff count_mset le_Suc_eq le_zero_eq)
qed

lemma groups_ok_members:
  assumes "groups_ok E gs ids" and "g \<in> set gs" and "i \<in> set (lg_tabOrder g)"
  shows "i \<in> set ids"
  using assms listed_pos [OF assms(2,3)] unfolding groups_ok_def by (metis count_notin less_irrefl)

lemma placed_order_mset:
  assumes "distinct (lg_tabOrder g)" and "lt_id t \<notin> set (lg_tabOrder g)"
  shows "mset (placed_order g tabs t p gs) = add_mset (lt_id t) (mset (lg_tabOrder g))"
  using assms
  by (auto simp: placed_order_def Let_def insertTabIdIntoOrder_def filter_absent dedupeTabOrder_id split: option.splits)

text \<open>The group a tab is placed in, and the groups after a first one is created.\<close>

definition placing :: "workspace_layout \<Rightarrow> string \<Rightarrow> tab_placement \<Rightarrow> layout_context \<Rightarrow> layout_group \<times> layout_group list" where
  "placing w key p ctx =
     (case placement_group (wl_groups w) p of
        Some g \<Rightarrow> (g, wl_groups w)
      | None \<Rightarrow> let g = \<lparr>lg_id = firstGroupId key p ctx, lg_tabOrder = []\<rparr> in (g, wl_groups w @ [g]))"

lemma placing_cases:
  assumes "placing w key p ctx = (g, gs)"
  shows "g \<in> set gs \<and> (gs = wl_groups w \<or> wl_groups w = [] \<and> gs = [g] \<and> lg_tabOrder g = [])"
  using assms unfolding placing_def
  by (auto simp: Let_def split: option.splits dest: placement_group_SomeD placement_group_None)

lemma placeNewTab_place:
  assumes "placing w key p ctx = (g, gs)" and "distinct (map lg_id gs)"
  shows "placeNewTab w key t p ctx = w\<lparr>wl_tabs := wl_tabs w @ [t],
    wl_groups := place_in gs (lg_id g) (placed_order g (wl_tabs w @ [t]) t p (wl_groups w))\<rparr>"
proof -
  have g: "g \<in> set gs" using placing_cases [OF assms(1)] by blast
  have eq: "e = g" if "e \<in> set gs" "lg_id e = lg_id g" for e
    using assms(2) g that by (metis distinct_map inj_on_def)
  let ?o = "placed_order g (wl_tabs w @ [t]) t p (wl_groups w)"
  have "map (\<lambda>e. if lg_id e = lg_id g then g\<lparr>lg_tabOrder := ?o\<rparr> else e) gs = place_in gs (lg_id g) ?o"
    unfolding place_in_def by (rule map_cong) (auto dest: eq)
  then show ?thesis using assms(1) by (auto simp: placeNewTab_def placing_def Let_def split: option.splits)
qed

lemma placeNewTab_shape:
  assumes shape: "ws_shape E w" and new: "lt_id t \<notin> set (tab_ids w)"
    and panes: "distinct (pane_ids w @ tab_leaves t)"
    and P: "placing w key p ctx = (g, gs)"
  shows "ws_shape (E - {lg_id g}) (placeNewTab w key t p ctx) \<and>
    tab_ids (placeNewTab w key t p ctx) = tab_ids w @ [lt_id t] \<and>
    pane_ids (placeNewTab w key t p ctx) = pane_ids w @ tab_leaves t \<and>
    wl_leaves (placeNewTab w key t p ctx) = wl_leaves w"
proof -
  note D = ws_shapeD [OF shape]
  let ?v = "placeNewTab w key t p ctx" and ?o = "placed_order g (wl_tabs w @ [t]) t p (wl_groups w)"
  from placing_cases [OF P] have g: "g \<in> set gs"
    and gs: "gs = wl_groups w \<or> wl_groups w = [] \<and> gs = [g] \<and> lg_tabOrder g = []" by blast+
  have ok: "distinct (map lg_id gs)" "\<And>i. listed gs i = count_list (tab_ids w) i"
    "\<And>e. e \<in> set gs \<Longrightarrow> lg_tabOrder e = [] \<Longrightarrow> lg_id e = lg_id g \<or> lg_id e \<in> E"
    using gs D(2) by (auto simp: groups_ok_def)
  have out: "lt_id t \<notin> set (lg_tabOrder g)" and dg: "distinct (lg_tabOrder g)"
    using gs g new groups_ok_members [OF D(2)] groups_ok_order_distinct [OF D(2,1)] by auto
  note eq = placeNewTab_place [OF P ok(1), of t]
  have mo: "mset ?o = add_mset (lt_id t) (mset (lg_tabOrder g))" by (rule placed_order_mset [OF dg out])
  then have ne: "?o \<noteq> []" by auto
  have ids: "tab_ids ?v = tab_ids w @ [lt_id t]" "pane_ids ?v = pane_ids w @ tab_leaves t" "wl_leaves ?v = wl_leaves w"
    unfolding eq by (simp_all add: tab_ids_def pane_ids_tab_leaves)
  have "groups_ok (E - {lg_id g}) (wl_groups ?v) (tab_ids ?v)"
    unfolding groups_ok_def
  proof (intro conjI ballI allI impI)
    show "distinct (map lg_id (wl_groups ?v))" unfolding eq by (simp add: ok(1))
    show "listed (wl_groups ?v) i = count_list (tab_ids ?v) i" for i
      unfolding ids using listed_place_in [OF ok(1) g mo, of i] ok(2) [of i] by (simp add: eq)
    fix e assume "e \<in> set (wl_groups ?v)" "lg_tabOrder e = []"
    then have "e \<in> set gs \<and> lg_id e \<noteq> lg_id g" using ne by (auto simp: eq place_in_def split: if_splits)
    with \<open>lg_tabOrder e = []\<close> ok(3) show "lg_id e \<in> E - {lg_id g}" by blast
  qed
  moreover have "tree_ok (wl_groupLayout ?v) (wl_groups ?v)"
    using gs D(3) ws_shape_empty_groups [OF shape] tree_ok_place_in [of "wl_groupLayout w" gs "lg_id g" ?o]
    unfolding eq by (auto simp: tree_ok_def [of None])
  moreover have "distinct (tab_ids ?v)" "distinct (pane_ids ?v)" unfolding ids using D(1) new panes by simp_all
  ultimately show ?thesis using ids unfolding ws_shape_def by blast
qed

lemma placeNewTab_step:
  assumes ok: "ws_ok E w" and new: "lt_id t \<notin> set (tab_ids w)"
    and panes: "distinct (tab_leaves t)" "set (tab_leaves t) \<inter> set (pane_ids w) = {}"
  shows "ws_step E {lt_id t} (set (tab_leaves t)) w (placeNewTab w key t p ctx)"
proof -
  have shape: "ws_shape E w" and leaves: "leaves_ok (wl_leaves w) (set (pane_ids w))"
    using ok unfolding ws_ok_shape by blast+
  obtain g gs where P: "placing w key p ctx = (g, gs)" by (cases "placing w key p ctx")
  have d: "distinct (pane_ids w @ tab_leaves t)" using ws_shapeD(4) [OF shape] panes by auto
  note R = placeNewTab_shape [OF shape new d P]
  have "ws_shape E (placeNewTab w key t p ctx)" using R ws_shape_mono [of "E - {lg_id g}" _ E] by blast
  moreover have "leaves_ok (wl_leaves w) (set (pane_ids w) \<union> set (tab_leaves t))" using leaves_ok_mono [OF leaves] by blast
  ultimately show ?thesis using R unfolding ws_step_def ws_ok_shape by simp
qed

text \<open>Placed into the only group, empty so far, the tab leaves no group empty.\<close>

lemma placeNewTab_only:
  assumes ok: "ws_ok E w" and new: "lt_id t \<notin> set (tab_ids w)"
    and panes: "distinct (tab_leaves t)" "set (tab_leaves t) \<inter> set (pane_ids w) = {}"
    and only: "wl_groups w = [\<lparr>lg_id = i, lg_tabOrder = []\<rparr>]"
  shows "ws_step (E - {i}) {lt_id t} (set (tab_leaves t)) w (placeNewTab w key t p ctx)"
proof -
  have shape: "ws_shape E w" using ok unfolding ws_ok_shape by blast
  have P: "placing w key p ctx = (\<lparr>lg_id = i, lg_tabOrder = []\<rparr>, wl_groups w)"
    by (simp add: placing_def only placement_group_single)
  have d: "distinct (pane_ids w @ tab_leaves t)" using ws_shapeD(4) [OF shape] panes by auto
  from placeNewTab_shape [OF shape new d P] have "ws_shape (E - {i}) (placeNewTab w key t p ctx)" by simp
  with placeNewTab_step [OF ok new panes, of key p ctx] show ?thesis unfolding ws_step_def ws_ok_shape by blast
qed

section \<open>Groups that go\<close>

lemma tree_ok_shrink:
  assumes ok: "tree_ok l gs" and ids: "groupTreeIds l' = filter P (groupTreeIds l)"
    and gs: "lg_id ` set gs' = {x \<in> lg_id ` set gs. P x}" and len: "length gs' \<le> length gs"
  shows "tree_ok l' gs'"
proof (cases l)
  case None
  with ids have "l' = None" by (metis filter.simps(1) groupTreeIds_Nil)
  with None ok len show ?thesis by (simp add: tree_ok_def)
next
  case (Some t)
  with ok ids gs have d: "distinct (groupTreeIds l')" "set (groupTreeIds l') = lg_id ` set gs'"
    by (auto simp: tree_ok_def)
  show ?thesis
  proof (cases l')
    case None
    with d(2) show ?thesis by (simp add: tree_ok_def)
  next
    case (Some u)
    with d show ?thesis by (simp add: tree_ok_def)
  qed
qed

lemma tree_ok_distinct: "tree_ok l gs \<Longrightarrow> distinct (groupTreeIds l)"
  by (cases l) (simp_all add: tree_ok_def)

definition left_empty :: "string \<Rightarrow> layout_group list \<Rightarrow> string set" where
  "left_empty i gs = lg_id ` {g \<in> set gs. i \<in> set (lg_tabOrder g) \<and> filter (\<lambda>j. j \<noteq> i) (lg_tabOrder g) = []}"

definition without_tab :: "string \<Rightarrow> layout_group list \<Rightarrow> layout_group list" where
  "without_tab i gs =
     map (\<lambda>g. if i \<in> set (lg_tabOrder g) then g\<lparr>lg_tabOrder := filter (\<lambda>j. j \<noteq> i) (lg_tabOrder g)\<rparr> else g)
       (filter (\<lambda>g. \<not> (i \<in> set (lg_tabOrder g) \<and> filter (\<lambda>j. j \<noteq> i) (lg_tabOrder g) = [])) gs)"

lemma remove_from_groups_groups: "fst (remove_from_groups i gs tree) = without_tab i gs"
  by (induction i gs tree rule: remove_from_groups.induct) (auto simp: without_tab_def Let_def split: prod.splits)

lemma remove_from_groups_tree:
  "distinct (groupTreeIds tree) \<Longrightarrow> groupTreeIds (snd (remove_from_groups i gs tree)) =
     filter (\<lambda>x. x \<notin> left_empty i gs) (groupTreeIds tree)"
proof (induction i gs tree rule: remove_from_groups.induct)
  case (1 i tree)
  then show ?case by (simp add: left_empty_def)
next
  case (2 i g gs tree)
  let ?rm = "case tree of None \<Rightarrow> None | Some t \<Rightarrow> removeGroupLayoutLeaf t (lg_id g)"
  have rm: "groupTreeIds ?rm = filter (\<lambda>x. x \<noteq> lg_id g) (groupTreeIds tree)"
    using "2.prems" by (cases tree) (simp_all add: removeGroupLayoutLeaf_ids)
  show ?case
  proof (cases "i \<in> set (lg_tabOrder g) \<and> filter (\<lambda>j. j \<noteq> i) (lg_tabOrder g) = []")
    case True
    then have "left_empty i (g # gs) = insert (lg_id g) (left_empty i gs)" by (auto simp: left_empty_def)
    moreover have "distinct (groupTreeIds ?rm)" unfolding rm using "2.prems" by simp
    ultimately show ?thesis using True "2.IH"(2) by (simp add: rm conj_commute)
  next
    case False
    then have "left_empty i (g # gs) = left_empty i gs" by (auto simp: left_empty_def)
    with False "2.IH" "2.prems" show ?thesis by (auto simp: Let_def split: prod.splits)
  qed
qed

lemma listed_without_tab: "listed (without_tab i gs) j = (if j = i then 0 else listed gs j)"
proof (induction gs)
  case Nil
  then show ?case by (simp add: without_tab_def)
next
  case (Cons g gs)
  have c: "count_list (filter (\<lambda>k. k \<noteq> i) (lg_tabOrder g)) j = (if j = i then 0 else count_list (lg_tabOrder g) j)"
    by (rule count_list_filter_neq)
  from Cons c show ?case by (auto simp: without_tab_def count_list_0_iff split: if_splits)
qed

lemma without_tab_id_set:
  assumes "distinct (map lg_id gs)"
  shows "lg_id ` set (without_tab i gs) = {x \<in> lg_id ` set gs. x \<notin> left_empty i gs}"
proof -
  let ?gone = "{g \<in> set gs. i \<in> set (lg_tabOrder g) \<and> filter (\<lambda>j. j \<noteq> i) (lg_tabOrder g) = []}"
  have "lg_id ` set (without_tab i gs) = lg_id ` {g \<in> set gs. \<not> (i \<in> set (lg_tabOrder g) \<and> filter (\<lambda>j. j \<noteq> i) (lg_tabOrder g) = [])}"
    unfolding without_tab_def set_map set_filter image_image by (rule image_cong) simp_all
  also have "\<dots> = lg_id ` (set gs - ?gone)" by (rule arg_cong [of _ _ "image lg_id"]) blast
  also have "\<dots> = lg_id ` set gs - lg_id ` ?gone"
    by (rule inj_on_image_set_diff [of _ "set gs"]) (use assms in \<open>auto simp: distinct_map\<close>)
  finally show ?thesis unfolding left_empty_def by blast
qed

lemma without_tab_groups_ok:
  assumes "groups_ok E gs ids"
  shows "groups_ok E (without_tab i gs) (filter (\<lambda>j. j \<noteq> i) ids)"
proof -
  have "distinct (map lg_id (without_tab i gs))"
    using assms by (simp add: groups_ok_def without_tab_def comp_def if_distrib distinct_map_filter cong: if_cong)
  moreover have "\<forall>g\<in>set (without_tab i gs). lg_tabOrder g = [] \<longrightarrow> lg_id g \<in> E"
    using assms by (auto simp: groups_ok_def without_tab_def split: if_splits)
  ultimately show ?thesis using assms by (simp add: groups_ok_def listed_without_tab count_list_filter_neq)
qed

lemma tab_leaves_filter:
  "distinct (map lt_id ts) \<Longrightarrow> t \<in> set ts \<Longrightarrow> distinct (concat (map tab_leaves ts)) \<Longrightarrow>
    set (concat (map tab_leaves (filter (\<lambda>e. lt_id e \<noteq> lt_id t) ts))) = set (concat (map tab_leaves ts)) - set (tab_leaves t)
    \<and> distinct (concat (map tab_leaves (filter (\<lambda>e. lt_id e \<noteq> lt_id t) ts)))"
proof (induction ts)
  case Nil
  then show ?case by simp
next
  case (Cons e ts)
  show ?case
  proof (cases "e = t")
    case True
    with Cons.prems have "filter (\<lambda>e. lt_id e \<noteq> lt_id t) ts = ts" by (intro filter_True) (auto simp: image_iff)
    with True Cons.prems show ?thesis by auto
  next
    case False
    with Cons.prems have "lt_id e \<noteq> lt_id t" by (auto simp: image_iff)
    with False Cons show ?thesis by auto
  qed
qed

lemma removeTab_shape:
  assumes shape: "ws_shape E w" and t: "t \<in> set (wl_tabs w)"
  shows "ws_shape E (removeTabFromWorkspace w (lt_id t)) \<and>
    tab_ids (removeTabFromWorkspace w (lt_id t)) = filter (\<lambda>j. j \<noteq> lt_id t) (tab_ids w) \<and>
    set (pane_ids (removeTabFromWorkspace w (lt_id t))) = set (pane_ids w) - set (tab_leaves t) \<and>
    wl_leaves (removeTabFromWorkspace w (lt_id t)) = wl_leaves w"
proof -
  note D = ws_shapeD [OF shape]
  let ?v = "removeTabFromWorkspace w (lt_id t)" and ?i = "lt_id t" and ?gs = "wl_groups w" and ?l = "wl_groupLayout w"
  have v: "wl_tabs ?v = filter (\<lambda>e. lt_id e \<noteq> ?i) (wl_tabs w)" "wl_groups ?v = without_tab ?i ?gs"
    "wl_groupLayout ?v = snd (remove_from_groups ?i ?gs ?l)" "wl_leaves ?v = wl_leaves w"
    using remove_from_groups_groups [of ?i ?gs ?l]
    by (auto simp: removeTabFromWorkspace_def Let_def split: prod.splits)
  have tabs: "tab_ids ?v = filter (\<lambda>j. j \<noteq> ?i) (tab_ids w)"
    by (simp add: tab_ids_def v filter_map comp_def)
  have panes: "set (pane_ids ?v) = set (pane_ids w) - set (tab_leaves t)" "distinct (pane_ids ?v)"
    using tab_leaves_filter [OF D(1) [unfolded tab_ids_def] t D(4) [unfolded pane_ids_tab_leaves]]
    unfolding pane_ids_tab_leaves v by blast+
  have "length (without_tab ?i ?gs) \<le> length ?gs" by (simp add: without_tab_def)
  then have "tree_ok (wl_groupLayout ?v) (wl_groups ?v)"
    unfolding v using D(2)
    by (intro tree_ok_shrink [OF D(3) remove_from_groups_tree [OF tree_ok_distinct [OF D(3)]] without_tab_id_set])
      (simp_all add: groups_ok_def)
  moreover have "groups_ok E (wl_groups ?v) (tab_ids ?v)" unfolding v tabs by (rule without_tab_groups_ok [OF D(2)])
  moreover have "distinct (tab_ids ?v)" unfolding tabs using D(1) by simp
  ultimately show ?thesis using panes tabs v(4) unfolding ws_shape_def by blast
qed

text \<open>
  A small layout at which the properties are instantiated: workspace \<open>w\<close> with a terminal tab of two panes,
  a pinned terminal tab and an editor tab, in two groups side by side, one pane bound to a terminal; and
  an empty workspace \<open>v\<close>.
\<close>

definition sample_terminal_tab :: "string \<Rightarrow> pane_node \<Rightarrow> bool \<Rightarrow> layout_tab" where
  "sample_terminal_tab i tree p = \<lparr>lt_id = i, lt_entityId = i, lt_createdAt = 1, lt_customTitle = None,
     lt_generatedTitle = None, lt_aiVaultTitle = None, lt_quickCommandLabel = None, lt_color = None,
     lt_isPinned = p, lt_viewMode = None, lt_isPreview = False, lt_agentSessionAgent = None,
     lt_body = Terminal_body (no_creation\<lparr>tc_defaultTitle := Some ''Terminal 1''\<rparr>)
       \<lparr>lp_root = Some tree, lp_chatLeafId = None\<rparr>\<rparr>"

definition sample_editor_tab :: "string \<Rightarrow> layout_tab" where
  "sample_editor_tab i = (sample_terminal_tab i (Leaf_node []) False)\<lparr>lt_body := Content_body Editor_kind\<rparr>"

definition sample_tabs :: "layout_tab list" where
  "sample_tabs = [sample_terminal_tab ''t1'' (Split_node Vertical (Leaf_node ''p1'') (Leaf_node ''p2'') None) False,
     sample_terminal_tab ''t2'' (Leaf_node ''p3'') True, sample_editor_tab ''e1'']"

definition sample_bound_leaf :: layout_leaf where
  "sample_bound_leaf = empty_leaf\<lparr>lf_ptyId := Some ''pty-1'', lf_incarnationId := Some ''inc-1''\<rparr>"

definition sample_workspace :: workspace_layout where
  "sample_workspace = (empty_workspace ''repo::w'')\<lparr>wl_tabs := sample_tabs,
     wl_groups := [\<lparr>lg_id = ''g1'', lg_tabOrder = [''t2'', ''t1'']\<rparr>, \<lparr>lg_id = ''g2'', lg_tabOrder = [''e1'']\<rparr>],
     wl_groupLayout := Some (Split_node Horizontal (Leaf_node ''g1'') (Leaf_node ''g2'') (Some (1 / 2))),
     wl_leaves := [(''p1'', sample_bound_leaf)]\<rparr>"

definition sample_layout :: layout_model where
  "sample_layout = \<lparr>lm_hostId = ''local'', lm_workspaces = [(''w'', sample_workspace), (''v'', empty_workspace ''repo::v'')],
     lm_records = \<lparr>rc_defaultTabsApplied = [], rc_clientHostedPages = [], rc_closedPanes = []\<rparr>,
     lm_legacy = \<lparr>lpe_terminalRowOwners = [], lpe_topologyRevision = []\<rparr>\<rparr>"

definition sample_ctx :: layout_context where
  "sample_ctx = \<lparr>lc_owner = True, lc_mintId = (\<lambda>site. ''minted''), lc_mintLeafId = ''new-pane'', lc_now = 5,
     lc_isStarting = (\<lambda>_. False), lc_droppedLeafReason = True, lc_isBindingLive = (\<lambda>_ _. True),
     lc_retiresBinding = (\<lambda>_ _. False)\<rparr>"

definition sample_exit :: exited_surface where
  "sample_exit = \<lparr>es_worktreeId = ''repo::w'', es_terminalTabId = ''t1'', es_leafId = ''p1'', es_ptyId = ''pty-1'',
     es_incarnationId = Some ''inc-1''\<rparr>"

definition sample_exit_facts :: process_exit_facts where
  "sample_exit_facts = \<lparr>px_exitCode = 0, px_local = True, px_spawnedFresh = False, px_tabHadPaneAtConnect = False,
     px_restored = False, px_inputWritten = True, px_outputReceived = True, px_attachAbsent = False\<rparr>"

lemmas layout_sample_defs = sample_terminal_tab_def sample_editor_tab_def sample_tabs_def sample_bound_leaf_def
  sample_workspace_def sample_layout_def sample_ctx_def sample_exit_def sample_exit_facts_def

lemma sample_find [simp]:
  "ws_find sample_layout ''w'' = Some sample_workspace" "ws_find sample_layout ''v'' = Some (empty_workspace ''repo::v'')"
  "workspaceOrEmpty sample_layout ''w'' = sample_workspace"
  by (simp_all add: ws_find_def workspaceOrEmpty_def sample_layout_def)

end
