(* ===== verification/Layout_Correct.thy ===== *)
theory Layout_Correct
  imports Layout_Keeps
begin

text \<open>
  Properties of the routines of the layout that do not need the invariant of a whole model: ids,
  dividers, orders, titles and the rules check.
\<close>

section \<open>Ids\<close>

text \<open>C37. A minted id can always stand in a pane key: the id derived from any name is a pane id, and with
  a tab id that a key can hold it makes the pane key from which exactly that tab and pane are parsed.\<close>

theorem minted_pane_keys:
  "isTerminalLeafId (nameBasedUuid name) \<and>
   (makePaneKey tab (nameBasedUuid name) = Some k \<longleftrightarrow> parsePaneKey k = Some (tab, nameBasedUuid name))"
  using nameBasedUuid_leaf makePaneKey_parse by blast

section \<open>Dividers\<close>

text \<open>C38. The dividers a window moved, and no others, reach main's tree. For a window that moved the
  dividers of its tree \<open>t\<close> to those of \<open>u\<close>, and a main whose tree \<open>m\<close> has the same panes: the command's
  ratios are accepted, a moved divider stands where the window has it (a pane's even one as none), every
  other where main had it; when main's tree is the window's, every group divider is the window's.\<close>

theorem moved_dividers_reach_main:
  assumes "samePanesIgnoringRatios m t" and "samePanesIgnoringRatios t u"
  shows "withGroupSplitRatios m (changedSplitRatios t u []) = Some (merge_dividers Some m t u) \<and>
    withPaneSplitRatios m (changedSplitRatios t u []) = Some (merge_dividers savedRatio m t u) \<and>
    effective (merge_dividers Some t t u) = effective u"
  using assms changed_ratios_reach [of m t u] merge_effective [of t u]
  by (simp add: samePanes_eq withGroupSplitRatios_relay withPaneSplitRatios_relay)

theorem moved_dividers_reach_main_witness:
  "withGroupSplitRatios (Split_node Vertical (Leaf_node ''a'') (Leaf_node ''b'') None)
     (changedSplitRatios (Split_node Vertical (Leaf_node ''a'') (Leaf_node ''b'') (Some (1 / 4)))
        (Split_node Vertical (Leaf_node ''a'') (Leaf_node ''b'') (Some (1 / 3))) [])
   = Some (Split_node Vertical (Leaf_node ''a'') (Leaf_node ''b'') (Some (1 / 3)))"
  using moved_dividers_reach_main
    [of "Split_node Vertical (Leaf_node ''a'') (Leaf_node ''b'') None"
       "Split_node Vertical (Leaf_node ''a'') (Leaf_node ''b'') (Some (1 / 4))"
       "Split_node Vertical (Leaf_node ''a'') (Leaf_node ''b'') (Some (1 / 3))"]
  by (simp add: effective_ratio_def)

text \<open>Equal shares: every divider is saved within half a percent of the share of the panes on its
  first side, the panes and their order stay, and equalizing again changes nothing.\<close>

theorem equalized_shares:
  "fair_shares (equalizeLayout t) \<and> node_ids (equalizeLayout t) = node_ids t \<and>
   equalizeLayout (equalizeLayout t) = equalizeLayout t"
  using equalizeLayout_fair same_node_ids [OF equalizeLayout_same] equalizeLayout_idem by blast

section \<open>Orders\<close>

lemma tabOrderMoves_replay:
  assumes "distinct from_order" and "mset to_order = mset from_order"
  shows "replay_moves (tabOrderMoves from_order to_order) from_order = to_order"
proof (cases "from_order = to_order")
  case True
  then show ?thesis by (simp add: tabOrderMoves_def Let_def replay_moves_def)
next
  case False
  let ?one = "find (\<lambda>(index, i). others i from_order = others i to_order) (List.enumerate 0 to_order)"
  have dt: "distinct to_order" using assms by (metis mset_eq_imp_distinct_iff)
  have moves: "tabOrderMoves from_order to_order =
      (case ?one of Some (index, i) \<Rightarrow> [(i, index)] | None \<Rightarrow> slot_moves 0 to_order from_order)"
    using False assms by (simp add: tabOrderMoves_def Let_def dedupeTabOrder_id sort_eq_mset)
  show ?thesis
  proof (cases ?one)
    case None
    with slot_moves_replay [of "[]" to_order from_order] dt assms(2) show ?thesis by (simp add: moves)
  next
    case (Some x)
    obtain index i where x: "x = (index, i)" by (cases x)
    from find_SomeD [OF Some] have "(index, i) \<in> set (List.enumerate 0 to_order)"
      and o: "others i from_order = others i to_order" by (auto simp: x)
    then have "index < length to_order" "to_order ! index = i"
      by (auto simp: in_set_enumerate_eq)
    with reorder_single [OF assms(1) dt, of index] o Some show ?thesis
      by (simp add: moves x replay_moves_def)
  qed
qed

text \<open>The moves a window sends for a new tab order replay it: carried out one after the other as
  main's move command does, they turn the order of the group into the window's.\<close>

theorem order_moves_replay:
  assumes "distinct from_order" and "mset to_order = mset from_order"
  shows "foldl (\<lambda>order (i, index). reorder_tab order i (int index)) from_order (tabOrderMoves from_order to_order) = to_order"
  using tabOrderMoves_replay [OF assms] by (simp add: replay_moves_def)

theorem order_moves_replay_witness:
  "foldl (\<lambda>order (i, index). reorder_tab order i (int index)) [''a'', ''b'', ''c'', ''d'']
     (tabOrderMoves [''a'', ''b'', ''c'', ''d''] [''d'', ''c'', ''b'', ''a'']) = [''d'', ''c'', ''b'', ''a'']"
  by (rule order_moves_replay) simp_all

text \<open>A new tab never breaks the run of pinned tabs: placed by its anchor or at the end of its kind,
  it leaves the pinned tabs before the others, lists itself once and keeps the order of the rest.\<close>

theorem new_tab_keeps_pinned_run:
  assumes "pinned_first (pinned_in tabs) order" and "distinct order" and "i \<notin> set order" and "pinned_in tabs i = p"
  shows "pinned_first (pinned_in tabs) (insertTabIdIntoOrder order tabs i p a) \<and>
    distinct (insertTabIdIntoOrder order tabs i p a) \<and> others i (insertTabIdIntoOrder order tabs i p a) = order"
proof -
  have "others i (insertTabIdIntoOrder order tabs i p a) = order"
    using assms(2,3)
    by (simp add: insertTabIdIntoOrder_def Let_def dedupeTabOrder_id filter_absent insert_at_def others_def)
      (metis append_take_drop_id filter_absent filter_append)
  with insertTabIdIntoOrder_first [OF assms(1,2,4)] show ?thesis by simp
qed

theorem new_tab_keeps_pinned_run_witness:
  "pinned_first (pinned_in sample_tabs) (insertTabIdIntoOrder [''t2'', ''t1''] sample_tabs ''e1'' False (Some ''t2'')) \<and>
   insertTabIdIntoOrder [''t2'', ''t1''] sample_tabs ''e1'' False (Some ''t2'') = [''t2'', ''e1'', ''t1'']"
proof -
  have run: "pinned_first (pinned_in sample_tabs) [''t2'', ''t1'']"
    using pinned_firstI [of "pinned_in sample_tabs" "[''t2'']" "[''t1'']"]
    by (simp add: pinned_in_def tab_by_id_def sample_tabs_def sample_terminal_tab_def sample_editor_tab_def)
  have pin: "pinned_in sample_tabs ''e1'' = False" by code_simp
  have "insertTabIdIntoOrder [''t2'', ''t1''] sample_tabs ''e1'' False (Some ''t2'') = [''t2'', ''e1'', ''t1'']" by code_simp
  with new_tab_keeps_pinned_run [OF run _ _ pin, of "Some ''t2''"] show ?thesis by simp
qed

section \<open>Titles\<close>

text \<open>C39. The number of a new terminal: the loop ends after at most as many steps as there are terminals,
  with the least positive number no default title has, which its own title then has.\<close>

theorem next_ordinal_terminates:
  "let n = getNextTerminalOrdinal tabs;
       used = List.map_filter (\<lambda>(d, t). terminal_ordinal (case d of Some x \<Rightarrow> x | None \<Rightarrow> t)) tabs
   in 1 \<le> n \<and> n \<le> length tabs + 1 \<and> n \<notin> set used \<and> {1..<n} \<subseteq> set used \<and>
      terminal_ordinal (terminal_title n) = Some n"
proof -
  let ?used = "List.map_filter (\<lambda>(d, t). terminal_ordinal (case d of Some x \<Rightarrow> x | None \<Rightarrow> t)) tabs"
  have "length ?used \<le> length tabs" by (simp add: List.map_filter_def)
  with next_unused_bound [of ?used 1] have "next_unused ?used 1 \<le> length tabs + 1" by simp
  then show ?thesis
    using next_unused_free [where n = 1 and used = ?used] next_unused_least [of 1 _ ?used]
    by (auto simp: getNextTerminalOrdinal_def Let_def terminal_ordinal_title)
qed

section \<open>Exits\<close>

text \<open>C40. Only a proven exit of the pane's own terminal removes a pane: after an exit the runtime cannot
  prove (a negative code, or an attach that found nothing), or of a terminal the pane no longer has, every
  workspace has the panes and the tabs it had.\<close>

theorem unproven_exit_keeps_panes:
  assumes "px_attachAbsent f \<or> px_exitCode f < 0 \<or> locateExitedSurface m s = Surface_replaced"
    and "applyProcessExit m s f = Inr a"
  shows "pane_ids (workspaceOrEmpty (al_model a) k) = pane_ids (workspaceOrEmpty m k) \<and>
    tab_ids (workspaceOrEmpty (al_model a) k) = tab_ids (workspaceOrEmpty m k)"
proof -
  have legacy: "workspaceOrEmpty (updateLegacyPersistence b n r) j = workspaceOrEmpty n j" for b n r j
    by (simp add: workspaceOrEmpty_def ws_find_def)
  have frame: "pane_ids (setLeaf w l x) = pane_ids w" "tab_ids (setLeaf w l x) = tab_ids w" for w l x
    using setLeaf_frame [of w l x] by (simp_all add: same_frame_def)
  have v: "px_attachAbsent f \<or> px_exitCode f < 0 \<Longrightarrow> exitVerdict f n = Verdict_unbind" for n
    by (auto simp: exitVerdict_def)
  show ?thesis
    using assms
    by (auto simp: applyProcessExit_def applied_def Let_def v legacy frame split: exited_location.splits)
qed

theorem unproven_exit_keeps_panes_witness:
  "\<exists>a. applyProcessExit sample_layout sample_exit (sample_exit_facts\<lparr>px_exitCode := -1\<rparr>) = Inr a \<and>
     leaf_pty (workspaceOrEmpty (al_model a) ''w'') ''p1'' = None \<and>
     pane_ids (workspaceOrEmpty (al_model a) ''w'') = [''p1'', ''p2'', ''p3'']"
proof -
  let ?r = "applyProcessExit sample_layout sample_exit (sample_exit_facts\<lparr>px_exitCode := -1\<rparr>)"
  have "case ?r of Inl c \<Rightarrow> False | Inr a \<Rightarrow> leaf_pty (workspaceOrEmpty (al_model a) ''w'') ''p1'' = None" by code_simp
  then obtain a where a: "?r = Inr a" "leaf_pty (workspaceOrEmpty (al_model a) ''w'') ''p1'' = None"
    by (auto split: sum.splits)
  have "pane_ids sample_workspace = [''p1'', ''p2'', ''p3'']" by code_simp
  with a unproven_exit_keeps_panes [OF _ a(1), of "''w''"] show ?thesis by (simp add: sample_exit_facts_def)
qed

section \<open>The check\<close>

text \<open>The check the code runs is complete: for a model whose keys, group ids, tree leaves and pane
  records do not repeat, it finds nothing exactly when every tab is listed by one group once, no group is
  empty, the tree has exactly the groups, every pane is in one tab, every record is of a pane, no tab or
  pane is in two workspaces, and no terminal is shown by two panes.\<close>

theorem rules_check_complete:
  assumes "distinct (map fst (lm_workspaces m))" and "\<And>k w. ws_find m k = Some w \<Longrightarrow> unrepeated w"
  shows "checkWorkspaceLayoutModelRules [m] = [] \<longleftrightarrow> model_ok m \<and> terminals_ok m"
  using assms by (rule check_model_Nil)

theorem rules_check_complete_witness: "model_ok sample_layout \<and> terminals_ok sample_layout"
proof -
  have keys: "distinct (map fst (lm_workspaces sample_layout))" by (simp add: sample_layout_def)
  have "unrepeated sample_workspace" "unrepeated (empty_workspace ''repo::v'')" by code_simp+
  then have un: "unrepeated w" if "ws_find sample_layout k = Some w" for k w
    using that by (auto simp: ws_find_def sample_layout_def split: if_splits)
  have "checkWorkspaceLayoutModelRules [sample_layout] = []" by code_simp
  with rules_check_complete [OF keys un] show ?thesis by simp
qed

text \<open>The hypothesis is needed: a tree that shows one group twice and another not at all passes.\<close>

definition gap_workspace :: workspace_layout where
  "gap_workspace = sample_workspace\<lparr>wl_groupLayout := Some (Split_node Horizontal (Leaf_node ''g1'') (Leaf_node ''g1'') None)\<rparr>"

lemma group_tree_check_gap:
  "checkWorkspace gap_workspace = [] \<and> \<not> tree_ok (wl_groupLayout gap_workspace) (wl_groups gap_workspace) \<and>
   ''g2'' \<notin> set (groupTreeIds (wl_groupLayout gap_workspace))"
proof -
  have "checkWorkspace gap_workspace = []" by code_simp
  then show ?thesis by (simp add: gap_workspace_def sample_workspace_def tree_ok_def)
qed

end
