(* ===== verification/Layout_Regroup.thy ===== *)
theory Layout_Regroup
  imports Layout_Keeps
begin

text \<open>
  What the edits of groups keep: permuted orders, a tab moved to another group, a group split off, a group
  moved beside another, and divider ratios.
\<close>

lemma group_id_unique: "distinct (map lg_id gs) \<Longrightarrow> g \<in> set gs \<Longrightarrow> h \<in> set gs \<Longrightarrow> lg_id g = lg_id h \<Longrightarrow> g = h"
  by (metis distinct_map inj_on_def)

lemma same_group_ids: "map lg_id gs' = map lg_id gs \<Longrightarrow> lg_id ` set gs' = lg_id ` set gs"
  by (metis list.set_map)

lemma groups_ok_reorder:
  assumes ok: "groups_ok E gs ids"
    and f: "\<And>g. g \<in> set gs \<Longrightarrow> lg_id (f g) = lg_id g \<and> mset (lg_tabOrder (f g)) = mset (lg_tabOrder g)"
  shows "groups_ok E (map f gs) ids" and "tree_ok l (map f gs) = tree_ok l gs"
proof -
  have ids: "map lg_id (map f gs) = map lg_id gs" using f by (induction gs) simp_all
  have "listed (map f gs) i = listed gs i" for i
    by (rule listed_map) (use f in \<open>simp add: count_mset [symmetric]\<close>)
  moreover have "lg_tabOrder (f g) = [] \<longleftrightarrow> lg_tabOrder g = []" if "g \<in> set gs" for g
    using f [OF that] by (metis mset_zero_iff)
  ultimately show "groups_ok E (map f gs) ids"
    using ok f ids unfolding groups_ok_def by (auto simp: ids [unfolded map_map])
  have "lg_id ` set (map f gs) = lg_id ` set gs" by (rule same_group_ids [OF ids])
  then show "tree_ok l (map f gs) = tree_ok l gs" unfolding tree_ok_def by (cases l) simp_all
qed

lemma ws_shape_regroup:
  assumes "ws_shape E w" and "groups_ok F gs (tab_ids w)" and "tree_ok l gs"
  shows "ws_shape F (w\<lparr>wl_groups := gs, wl_groupLayout := l\<rparr>)"
  using assms by (simp add: ws_shape_def tab_ids_def pane_ids_def)

lemma ws_step_regroup:
  assumes "ws_ok E w" and "groups_ok F gs (tab_ids w)" and "tree_ok l gs"
  shows "ws_step F T P w (w\<lparr>wl_groups := gs, wl_groupLayout := l\<rparr>)"
proof -
  have "ws_shape F (w\<lparr>wl_groups := gs, wl_groupLayout := l\<rparr>)"
    using assms ws_shape_regroup unfolding ws_ok_shape by blast
  with assms(1) show ?thesis unfolding ws_step_def ws_ok_shape by (simp add: tab_ids_def pane_ids_def)
qed

section \<open>A tab moved to another group\<close>

lemma listed_moved:
  assumes d: "distinct (map lg_id gs)" and one: "listed gs i = 1" and s: "g \<in> set gs" "i \<in> set (lg_tabOrder g)"
    and t: "target \<in> lg_id ` set gs" "lg_id g \<noteq> target"
  shows "listed (moved_groups gs (lg_id g) target i n) j = listed gs j"
proof (cases "j = i")
  case True
  have only: "i \<notin> set (lg_tabOrder h)" if "h \<in> set gs" "lg_id h \<noteq> lg_id g" for h
    using listed_one_owner [OF one s that(1)] that(2) by blast
  have "listed (moved_groups gs (lg_id g) target i n) i = 1"
    unfolding moved_groups_def
  proof (rule listed_one_group [OF d t(1)])
    fix h assume "h \<in> set gs"
    with only [of h] t(2) show "count_list (lg_tabOrder
        (if lg_id h = lg_id g then h\<lparr>lg_tabOrder := filter (\<lambda>k. k \<noteq> i) (lg_tabOrder h)\<rparr>
         else if lg_id h = target then
           let order = filter (\<lambda>k. k \<noteq> i) (lg_tabOrder h);
               slot = case n of None \<Rightarrow> length order | Some m \<Rightarrow> clamp_index m (length order)
           in h\<lparr>lg_tabOrder := insert_at slot i order\<rparr>
         else h)) i = (if lg_id h = target then 1 else 0)"
      by (auto simp: Let_def count_list_filter_neq count_list_0_iff)
  qed
  with True one show ?thesis by simp
next
  case False
  then show ?thesis unfolding moved_groups_def
    by (intro listed_map) (auto simp: Let_def count_list_filter_neq)
qed

lemma moved_groups_ids [simp]: "map lg_id (moved_groups gs s t i n) = map lg_id gs"
  by (simp add: moved_groups_def Let_def)

lemma live_groups:
  assumes d: "distinct (map lg_id gs)" and ids: "lg_id ` set gs = lg_id ` set gs0" and len: "length gs = length gs0"
    and tree: "tree_ok l gs0"
  shows "tree_ok (prune_dead_groups (map lg_id (filter (\<lambda>g. lg_tabOrder g \<noteq> []) gs)) l
      (collectTabGroupLayoutGroupIds l)) (filter (\<lambda>g. lg_tabOrder g \<noteq> []) gs)"
proof (rule tree_ok_shrink [OF tree prune_live_ids [OF refl]])
  show "lg_id ` set (filter (\<lambda>g. lg_tabOrder g \<noteq> []) gs) =
      {x \<in> lg_id ` set gs0. x \<in> set (map lg_id (filter (\<lambda>g. lg_tabOrder g \<noteq> []) gs))}"
    using ids by auto
  show "length (filter (\<lambda>g. lg_tabOrder g \<noteq> []) gs) \<le> length gs0" using len length_filter_le by metis
qed

lemma groups_ok_nonempty:
  "distinct (map lg_id gs) \<Longrightarrow> (\<And>j. listed gs j = count_list ids j) \<Longrightarrow> groups_ok {} (filter (\<lambda>g. lg_tabOrder g \<noteq> []) gs) ids"
  by (auto simp: groups_ok_def listed_nonempty distinct_map_filter)

lemma buildMove_ok:
  assumes ok: "groups_ok E gs ids" "distinct ids" "tree_ok l gs" and i: "i \<in> set ids"
    and build: "buildHeadlessTabGroupMove gs l i target n = Some (gs', l')"
  shows "groups_ok {} gs' ids" and "tree_ok l' gs'"
proof -
  from build obtain g t where g: "group_of_tab gs i = Some g" "group_named gs target = Some t" "lg_id g \<noteq> target"
    and gs': "gs' = filter (\<lambda>g. lg_tabOrder g \<noteq> []) (moved_groups gs (lg_id g) target i n)"
    and l': "l' = prune_dead_groups (map lg_id gs') l (collectTabGroupLayoutGroupIds l)"
    unfolding buildHeadlessTabGroupMove_def by (auto simp: Let_def split: option.splits if_splits)
  have d: "distinct (map lg_id gs)" and L: "\<And>j. listed gs j = count_list ids j" using ok(1) by (simp_all add: groups_ok_def)
  have one: "listed gs i = 1" using L count_distinct [OF ok(2)] i by simp
  have gin: "g \<in> set gs" "i \<in> set (lg_tabOrder g)" and tin: "target \<in> lg_id ` set gs"
    using group_of_tab_SomeD [OF g(1)] group_named_SomeD [OF g(2)] by auto
  show "groups_ok {} gs' ids"
    unfolding gs' using d L listed_moved [OF d one gin tin g(3)] by (intro groups_ok_nonempty) simp_all
  have "lg_id ` set (moved_groups gs (lg_id g) target i n) = lg_id ` set gs"
    by (rule same_group_ids) (rule moved_groups_ids)
  moreover have "length (moved_groups gs (lg_id g) target i n) = length gs" by (simp add: moved_groups_def)
  ultimately show "tree_ok l' gs'"
    unfolding l' gs' using d by (intro live_groups [OF _ _ _ ok(3)]) simp_all
qed

section \<open>A group split off\<close>

lemma tree_ok_single: "tree_ok None gs \<Longrightarrow> g \<in> set gs \<Longrightarrow> gs = [g]"
  by (cases gs) (auto simp: tree_ok_def)

lemma tree_ok_default:
  assumes "tree_ok l gs" and "i \<in> lg_id ` set gs"
  shows "tree_ok (Some (case l of None \<Rightarrow> Leaf_node i | Some t \<Rightarrow> t)) gs"
proof (cases l)
  case None
  with assms obtain g where "gs = [g]" "lg_id g = i" using tree_ok_single by blast
  with None show ?thesis by (simp add: tree_ok_def)
qed (use assms in simp)

lemma replaceLeaf_split_ids:
  assumes "distinct (node_ids t)" and "target \<in> set (node_ids t)" and "new \<notin> set (node_ids t)"
  shows "distinct (node_ids (replaceLeaf t target (buildSplitNode target new d p)))"
    and "set (node_ids (replaceLeaf t target (buildSplitNode target new d p))) = insert new (set (node_ids t))"
proof -
  have u: "set (node_ids (buildSplitNode target new d p)) = {target, new}" "distinct (node_ids (buildSplitNode target new d p))"
    using assms(2,3) by (auto simp: node_ids_buildSplitNode split: split_position.splits)
  show "distinct (node_ids (replaceLeaf t target (buildSplitNode target new d p)))"
    by (rule distinct_replaceLeaf [OF assms(1) u(2)]) (use assms(3) u(1) in auto)
  show "set (node_ids (replaceLeaf t target (buildSplitNode target new d p))) = insert new (set (node_ids t))"
    using assms(2) u(1) by (auto simp: set_replaceLeaf)
qed

lemma buildSplit_ok:
  assumes ok: "groups_ok E gs ids" "distinct ids" "tree_ok l gs" and i: "i \<in> set ids"
    and new: "new \<notin> lg_id ` set gs" and target: "target \<in> lg_id ` set gs"
    and build: "buildHeadlessTabGroupSplit gs l i target side new = Some (gs', t')"
  shows "groups_ok {} gs' ids" and "tree_ok (Some t') gs'"
proof -
  let ?drop = "\<lambda>g h. if lg_id h = lg_id g then h\<lparr>lg_tabOrder := filter (\<lambda>j. j \<noteq> i) (lg_tabOrder g)\<rparr> else h"
  let ?new = "\<lparr>lg_id = new, lg_tabOrder = [i]\<rparr>" and ?base = "case l of None \<Rightarrow> Leaf_node target | Some t \<Rightarrow> t"
  let ?tree = "replaceLeaf ?base target (buildSplitNode target new (side_direction side)
      (if side_first side then First_position else Second_position))"
  from build obtain g where g: "group_of_tab gs i = Some g"
    and gs': "gs' = filter (\<lambda>g. lg_tabOrder g \<noteq> []) (map (?drop g) gs @ [?new])"
    and t': "t' = (case prune_dead_groups (map lg_id gs') (Some ?tree) (collectTabGroupLayoutGroupIds (Some ?tree)) of
        None \<Rightarrow> Leaf_node new | Some t \<Rightarrow> t)"
    unfolding buildHeadlessTabGroupSplit_def by (auto simp: Let_def split: option.splits if_splits)
  have d: "distinct (map lg_id gs)" and L: "\<And>j. listed gs j = count_list ids j" using ok(1) by (simp_all add: groups_ok_def)
  have one: "listed gs i = 1" using L count_distinct [OF ok(2)] i by simp
  have gin: "g \<in> set gs" "i \<in> set (lg_tabOrder g)" using group_of_tab_SomeD [OF g] by auto
  have eq: "h = g" if "h \<in> set gs" "lg_id h = lg_id g" for h using group_id_unique [OF d] gin that by blast
  have drop: "listed (map (?drop g) gs) j = (if j = i then 0 else listed gs j)" for j
  proof (cases "j = i")
    case True
    have "i \<notin> set (lg_tabOrder (?drop g h))" if "h \<in> set gs" for h
      using listed_one_owner [OF one gin that] by auto
    then have "listed (map (?drop g) gs) i = 0" unfolding listed_0_iff by (metis (no_types, lifting) imageE list.set_map)
    with True show ?thesis by simp
  next
    case False
    have "listed (map (?drop g) gs) j = listed gs j"
      by (rule listed_map) (use False eq in \<open>auto simp: count_list_filter_neq\<close>)
    with False show ?thesis by simp
  qed
  have ids: "map lg_id (map (?drop g) gs @ [?new]) = map lg_id gs @ [new]" by simp
  then have ids_set: "lg_id ` set (map (?drop g) gs @ [?new]) = insert new (lg_id ` set gs)"
    by (metis Un_insert_right list.set_map list.simps(15) list.set(1) set_append sup_bot.right_neutral)
  have dn: "distinct (map lg_id (map (?drop g) gs @ [?new]))" unfolding ids using d new by simp
  show "groups_ok {} gs' ids"
    unfolding gs'
  proof (rule groups_ok_nonempty [OF dn])
    fix j show "listed (map (?drop g) gs @ [?new]) j = count_list ids j"
      using drop [of j] L [of j] one by (cases "j = i") simp_all
  qed
  have base: "distinct (node_ids ?base)" "set (node_ids ?base) = lg_id ` set gs"
    using tree_ok_default [OF ok(3) target] by (simp_all add: tree_ok_def)
  note R = replaceLeaf_split_ids [OF base(1), unfolded base(2), OF target new]
  have "tree_ok (Some ?tree) (map (?drop g) gs @ [?new])"
    unfolding tree_ok_def option.case ids_set using R by blast
  from live_groups [OF dn refl refl this]
  have pruned: "tree_ok (prune_dead_groups (map lg_id gs') (Some ?tree) (collectTabGroupLayoutGroupIds (Some ?tree))) gs'"
    unfolding gs' .
  have "new \<in> lg_id ` set gs'" unfolding gs' by (auto simp: image_iff)
  from tree_ok_default [OF pruned this] show "tree_ok (Some t') gs'" unfolding t' by (simp add: option.case_eq_if)
qed

section \<open>Groups beside one another\<close>

lemma moveGroupLeafBeside_ok:
  assumes "tree_ok (Some t) gs" and "x \<in> lg_id ` set gs" and "y \<in> lg_id ` set gs" and "x \<noteq> y"
  shows "tree_ok (Some (moveGroupLeafBeside t x y side)) gs"
proof -
  have t: "distinct (node_ids t)" "set (node_ids t) = lg_id ` set gs" using assms(1) by (simp_all add: tree_ok_def)
  let ?rest = "case removeGroupLayoutLeaf t x of None \<Rightarrow> Leaf_node y | Some t \<Rightarrow> t"
  have rest: "distinct (node_ids ?rest) \<and> set (node_ids ?rest) = lg_id ` set gs - {x}"
    using removeGroupLayoutLeaf_ids [OF t(1), of x] t assms(3,4)
    by (cases "removeGroupLayoutLeaf t x") (auto simp: filter_empty_conv dest: arg_cong [of _ _ set])
  have "y \<in> set (node_ids ?rest)" "x \<notin> set (node_ids ?rest)" using rest assms(3,4) by auto
  from replaceLeaf_split_ids [OF conjunct1 [OF rest] this] rest assms(2)
  show ?thesis unfolding moveGroupLeafBeside_def Let_def by (auto simp: tree_ok_def)
qed

lemma moveGroupLeafBesideBranch_ok:
  assumes "tree_ok (Some t) gs" and "g \<notin> lg_id ` set gs" and "moveGroupLeafBesideBranch t g x y side = Some u"
  shows "tree_ok (Some u) (gs @ [\<lparr>lg_id = g, lg_tabOrder = []\<rparr>])"
proof -
  have t: "distinct (node_ids t)" "set (node_ids t) = lg_id ` set gs" using assms(1) by (simp_all add: tree_ok_def)
  have "removeGroupLayoutLeaf t g = Some t"
    using t assms(2) removeLayoutLeaf_absent [of g t] by (simp add: removeGroupLayoutLeaf_eq removeTabGroupLayoutLeaf_eq)
  with assms(3) obtain xs ys where "node_ids t = xs @ ys" "node_ids u = xs @ g # ys"
    by (auto simp: moveGroupLeafBesideBranch_def dest: besideBranch_ids)
  with t assms(2) show ?thesis by (auto simp: tree_ok_def)
qed

lemma tree_ok_same: "tree_ok (Some t) gs \<Longrightarrow> sameGroupsIgnoringRatios t u \<Longrightarrow> tree_ok (Some u) gs"
  by (simp add: tree_ok_def same_node_ids)

end
