(* ===== verification/Layout_Invariant.thy ===== *)
theory Layout_Invariant
  imports Layout_Regroup
begin

text \<open>
  Every command keeps a well-formed model well-formed: \<open>ensures (good X)\<close> of each, for models whose
  groups of \<open>X k\<close> may be empty in workspace \<open>k\<close>. The ids a command is given must be unused where the
  code does not check it.
\<close>

definition good :: "(string \<Rightarrow> string set) \<Rightarrow> applied_layout \<Rightarrow> bool" where
  "good X a = model_okE X (al_model a)"

lemma good_refuse [simp]: "ensures (good X) (refuse c)"
  by (simp add: refuse_def)

lemma good_applied [simp]: "ensures (good X) (applied m r s t p) = model_okE X m"
  by (simp add: applied_def good_def)

lemma model_okE_cong: "lm_workspaces m' = lm_workspaces m \<Longrightarrow> model_okE X m' = model_okE X m"
  by (simp add: model_okE_def ws_find_def)

lemma model_okE_keeps:
  assumes "model_okE X m" and "ws_step (X k) F P (workspaceOrEmpty m k) w"
    and "\<And>i. i \<in> F \<Longrightarrow> tab_fresh m i" and "\<And>l. l \<in> P \<Longrightarrow> pane_fresh m l"
  shows "model_okE X (withWorkspace m k w)"
  using model_okE_with [OF assms] by (simp add: fun_upd_idem)

lemma model_okE_own:
  assumes "model_okE X m" and "ws_step (X k) {} {} (workspaceOrEmpty m k) w"
  shows "model_okE X (withWorkspace m k w)"
  by (rule model_okE_keeps [OF assms]) simp_all

lemma ws_ok_here: "model_okE X m \<Longrightarrow> ws_ok (X k) (workspaceOrEmpty m k)"
  by (rule workspaceOrEmpty_ok)

section \<open>Commands on one tab or pane\<close>

lemma updateTab_good:
  assumes ok: "model_okE X m" and t: "t \<in> set (wl_tabs (workspaceOrEmpty m k))" and "lt_id t' = lt_id t"
    and "tab_leaves t' = tab_leaves t"
  shows "ensures (good X) (updateTab m k t')"
  using model_okE_own [OF ok replaceTab_same [OF ws_ok_here [OF ok] t assms(3,4)]] by (simp add: updateTab_def)

lemma tab_leaves_with_panes [simp]: "tab_leaves (with_panes t p) = (if is_terminal t then collectLayoutLeafIdsInOrder (lp_root p) else [])"
  by (simp add: tab_leaves_def leafIdsOf_def with_panes_def is_terminal_def tab_panes_def split: tab_body.splits)

lemma tab_leaves_terminal: "is_terminal t \<Longrightarrow> tab_leaves t = collectLayoutLeafIdsInOrder (lp_root (tab_panes t))"
  by (simp add: tab_leaves_def leafIdsOf_def)

lemma with_panes_id [simp]: "lt_id (with_panes t p) = lt_id t"
  by (simp add: with_panes_def)

lemma tab_leaves_fields [simp]:
  "tab_leaves (t\<lparr>lt_id := i\<rparr>) = tab_leaves t" "tab_leaves (t\<lparr>lt_entityId := i\<rparr>) = tab_leaves t"
  "tab_leaves (t\<lparr>lt_customTitle := a\<rparr>) = tab_leaves t" "tab_leaves (t\<lparr>lt_generatedTitle := a\<rparr>) = tab_leaves t"
  "tab_leaves (t\<lparr>lt_aiVaultTitle := a\<rparr>) = tab_leaves t" "tab_leaves (t\<lparr>lt_color := a\<rparr>) = tab_leaves t"
  "tab_leaves (t\<lparr>lt_isPinned := b\<rparr>) = tab_leaves t" "tab_leaves (t\<lparr>lt_viewMode := v\<rparr>) = tab_leaves t"
  "tab_leaves (t\<lparr>lt_isPreview := b\<rparr>) = tab_leaves t" "tab_leaves (t\<lparr>lt_agentSessionAgent := a\<rparr>) = tab_leaves t"
  by (simp_all add: tab_leaves_def leafIdsOf_def is_terminal_def tab_panes_def)

lemma renameTab_good:
  assumes ok: "model_okE X m"
  shows "ensures (good X) (renameTab m k i title)"
proof (cases "findTab (workspaceOrEmpty m k) i")
  case (Some t)
  then have "t \<in> set (wl_tabs (workspaceOrEmpty m k))" by (simp add: findTab_SomeD)
  note U = updateTab_good [OF ok this]
  show ?thesis
    unfolding renameTab_def Some option.case
    by (auto split: tab_title.splits option.splits intro!: U)
qed (simp add: renameTab_def)

lemma promotePreviewTab_good:
  assumes ok: "model_okE X m"
  shows "ensures (good X) (promotePreviewTab m k i)"
proof (cases "findTab (workspaceOrEmpty m k) i")
  case (Some t)
  then have "t \<in> set (wl_tabs (workspaceOrEmpty m k))" by (simp add: findTab_SomeD)
  from updateTab_good [OF ok this] Some show ?thesis by (simp add: promotePreviewTab_def)
qed (simp add: promotePreviewTab_def)

lemma setChatPane_good:
  assumes ok: "model_okE X m"
  shows "ensures (good X) (setChatPane m k i l)"
proof (cases "findTerminal (workspaceOrEmpty m k) i")
  case (Some t)
  note t = findTerminal_SomeD [OF Some]
  note U = updateTab_good [OF ok conjunct1 [OF t]]
  show ?thesis
    unfolding setChatPane_def Some option.case
    using t by (auto simp: tab_leaves_terminal split: option.splits intro!: U)
qed (simp add: setChatPane_def)

subsection \<open>Panes\<close>

lemma paneTab_SomeD:
  assumes "paneTab m k i = Some t"
  obtains tree where "t \<in> set (wl_tabs (workspaceOrEmpty m k))" "is_terminal t"
    "lp_root (tab_panes t) = Some tree" "tab_leaves t = node_ids tree"
  using assms findTerminal_SomeD [of "workspaceOrEmpty m k" i t]
  by (auto simp: paneTab_def tab_leaves_terminal split: option.splits if_splits)

lemma tab_leaves_with_root [simp]: "is_terminal t \<Longrightarrow> tab_leaves (with_root t tree) = node_ids tree"
  by (simp add: with_root_def)

lemma with_root_id [simp]: "lt_id (with_root t tree) = lt_id t"
  by (simp add: with_root_def)

text \<open>A tab given a tree with the same panes.\<close>

lemma retree_good:
  assumes ok: "model_okE X m" and t: "t \<in> set (wl_tabs (workspaceOrEmpty m k))" "is_terminal t"
    and d: "distinct (node_ids tree)" and same: "set (node_ids tree) = set (tab_leaves t)"
  shows "ensures (good X) (updateTab m k (with_root t tree))"
proof -
  have "ws_step (X k) {} {} (workspaceOrEmpty m k) (replaceTab (workspaceOrEmpty m k) (with_root t tree))"
    by (rule replaceTab_grows [OF ws_ok_here [OF ok] t(1)]) (use d same t(2) in simp_all)
  from model_okE_own [OF ok this] show ?thesis by (simp add: updateTab_def)
qed

lemma pane_tab_distinct:
  "model_okE X m \<Longrightarrow> t \<in> set (wl_tabs (workspaceOrEmpty m k)) \<Longrightarrow> distinct (tab_leaves t)"
  by (rule tab_leaves_distinct [OF ws_ok_here])

lemma setPaneRatios_good:
  assumes ok: "model_okE X m"
  shows "ensures (good X) (setPaneRatios m k i given rs)"
proof (cases "paneTab m k i")
  case (Some t)
  then obtain tree where t: "t \<in> set (wl_tabs (workspaceOrEmpty m k))" "is_terminal t"
    "lp_root (tab_panes t) = Some tree" "tab_leaves t = node_ids tree" by (rule paneTab_SomeD)
  have R: "ensures (good X) (updateTab m k (with_root t u))" if "sameGroupsIgnoringRatios tree u" for u
    using retree_good [OF ok t(1,2), of u] same_node_ids [OF that] pane_tab_distinct [OF ok t(1)] t(4) by simp
  show ?thesis
    unfolding setPaneRatios_def Some option.case t(3)
    by (auto simp: Let_def samePanes_eq split: option.splits if_splits intro!: R dest: withPaneSplitRatios_same)
qed (simp add: setPaneRatios_def)

lemma equalizePanes_good:
  assumes ok: "model_okE X m"
  shows "ensures (good X) (equalizePanes m k i)"
proof (cases "paneTab m k i")
  case (Some t)
  then obtain tree where t: "t \<in> set (wl_tabs (workspaceOrEmpty m k))" "is_terminal t"
    "lp_root (tab_panes t) = Some tree" "tab_leaves t = node_ids tree" by (rule paneTab_SomeD)
  have "ensures (good X) (updateTab m k (with_root t (equalizeLayout tree)))"
    using retree_good [OF ok t(1,2)] same_node_ids [OF equalizeLayout_same [of tree]] pane_tab_distinct [OF ok t(1)] t(4)
    by simp
  with Some t(3) show ?thesis by (simp add: equalizePanes_def)
qed (simp add: equalizePanes_def)

lemma splitPane_good:
  assumes ok: "model_okE X m"
    and fresh: "pane_fresh m (case l of Some x \<Rightarrow> x | None \<Rightarrow> lc_mintLeafId ctx)"
  shows "ensures (good X) (splitPane m p d r l ctx)"
proof (cases "paneTab m (pr_workspace p) (pr_tabId p)")
  case (Some t)
  let ?k = "pr_workspace p" and ?l = "case l of Some x \<Rightarrow> x | None \<Rightarrow> lc_mintLeafId ctx"
  let ?side = "if d = Vertical then Pane_right else Pane_bottom"
  from Some obtain tree where t: "t \<in> set (wl_tabs (workspaceOrEmpty m ?k))" "is_terminal t"
    "lp_root (tab_panes t) = Some tree" "tab_leaves t = node_ids tree" by (rule paneTab_SomeD)
  note new = fresh_workspaceOrEmpty(2) [OF fresh, of ?k]
  have out: "?l \<notin> set (node_ids tree)" using new tab_leaves_subset [OF t(1)] t(4) by auto
  have "ensures (good X) (updateTab m ?k (with_root t (insertLeafBeside tree (pr_leafId p) ?l ?side r)))"
    if "pr_leafId p \<in> set (node_ids tree)"
  proof -
    have "ws_step (X ?k) {} {?l} (workspaceOrEmpty m ?k)
        (replaceTab (workspaceOrEmpty m ?k) (with_root t (insertLeafBeside tree (pr_leafId p) ?l ?side r)))"
      using that new out distinct_insertLeafBeside pane_tab_distinct [OF ok t(1)] t
      by (intro replaceTab_grows [OF ws_ok_here [OF ok] t(1)]) (auto simp: set_insertLeafBeside)
    from model_okE_keeps [OF ok this] fresh show ?thesis by (simp add: updateTab_def)
  qed
  then show ?thesis
    unfolding splitPane_def Some option.case t(3)
    by (auto simp: Let_def layoutContainsLeafId_def node_contains_iff updateTab_def applied_def good_def)
qed (simp add: splitPane_def)

lemma movePane_good:
  assumes ok: "model_okE X m"
  shows "ensures (good X) (movePane m p target side)"
proof (cases "paneTab m (pr_workspace p) (pr_tabId p)")
  case (Some t)
  let ?k = "pr_workspace p" and ?l = "pr_leafId p"
  from Some obtain tree where t: "t \<in> set (wl_tabs (workspaceOrEmpty m ?k))" "is_terminal t"
    "lp_root (tab_panes t) = Some tree" "tab_leaves t = node_ids tree" by (rule paneTab_SomeD)
  have d: "distinct (node_ids tree)" using pane_tab_distinct [OF ok t(1)] t(4) by simp
  have "ensures (good X) (updateTab m ?k (with_root t (insertLeafBeside (the (remove_pane (Some tree) ?l)) target ?l side None)))"
    if "?l \<in> set (node_ids tree)" "target \<in> set (node_ids tree)" "?l \<noteq> target"
  proof -
    obtain rest where rest: "remove_pane (Some tree) ?l = Some rest"
      using remove_pane_ids [of "Some tree" ?l] \<open>target \<in> set (node_ids tree)\<close> \<open>?l \<noteq> target\<close>
      by (cases "remove_pane (Some tree) ?l") (auto simp: filter_empty_conv dest: arg_cong [of _ _ set])
    have ids: "node_ids rest = filter (\<lambda>i. i \<noteq> ?l) (node_ids tree)" using remove_pane_ids [of "Some tree" ?l] rest by simp
    show ?thesis
      unfolding rest option.sel
      by (rule retree_good [OF ok t(1,2)])
        (use that d in \<open>auto simp: set_insertLeafBeside ids t(4) intro!: distinct_insertLeafBeside\<close>)
  qed
  then show ?thesis
    unfolding movePane_def Some option.case t(3)
    by (auto simp: Let_def layoutContainsLeafId_def node_contains_iff)
qed (simp add: movePane_def)

subsection \<open>Pane data\<close>

lemma setLeaf_good:
  assumes ok: "model_okE X m" and l: "l \<in> set (pane_ids (workspaceOrEmpty m k))" and "leaf_ok x"
  shows "model_okE X (withWorkspace m k (setLeaf (workspaceOrEmpty m k) l x))"
  by (rule model_okE_own [OF ok setLeaf_step [OF ws_ok_here [OF ok] l assms(3)]])

lemma leaf_ok_fields [simp]:
  "leaf_ok (x\<lparr>lf_title := a\<rparr>) = leaf_ok x" "leaf_ok (x\<lparr>lf_lastGrid := b\<rparr>) = leaf_ok x"
  "leaf_ok (x\<lparr>lf_ptyId := a\<rparr>) = leaf_ok x" "leaf_ok (x\<lparr>lf_incarnationId := a\<rparr>) = leaf_ok x"
  "leaf_ok (unbound_leaf x) = leaf_ok x" "leaf_ok (adopt_leaf a' x) = leaf_ok x"
  "leaf_ok (x\<lparr>lf_sleeping := None\<rparr>)" "leaf_ok (x\<lparr>lf_sleeping := None, lf_resume := r\<rparr>)"
  "leaf_ok (x\<lparr>lf_resume := None, lf_sleeping := s\<rparr>)"
  by (simp_all add: leaf_ok_def unbound_leaf_def adopt_leaf_def)

lemma here_leaf_ok [simp]: "model_okE X m \<Longrightarrow> leaf_ok (leaf_or_empty (workspaceOrEmpty m k) l)"
  by (rule ws_ok_leaf [OF ws_ok_here])

lemma paneTab_leaf:
  assumes "paneTab m k i = Some t" and "layoutContainsLeafId (lp_root (tab_panes t)) l"
  shows "l \<in> set (pane_ids (workspaceOrEmpty m k))"
proof -
  from assms(1) obtain tree where t: "t \<in> set (wl_tabs (workspaceOrEmpty m k))" "is_terminal t"
    "lp_root (tab_panes t) = Some tree" "tab_leaves t = node_ids tree" by (rule paneTab_SomeD)
  with assms(2) tab_leaves_subset [OF t(1)] show ?thesis by (auto simp: layoutContainsLeafId_def node_contains_iff)
qed

lemma renamePane_good: "model_okE X m \<Longrightarrow> ensures (good X) (renamePane m p title)"
  unfolding renamePane_def by (auto simp: Let_def split: option.splits intro!: setLeaf_good dest: paneTab_leaf)

lemma setPaneGrid_good: "model_okE X m \<Longrightarrow> ensures (good X) (setPaneGrid m p g)"
  unfolding setPaneGrid_def by (auto simp: Let_def split: option.splits intro!: setLeaf_good dest: paneTab_leaf)

lemma releasePaneTerminal_good: "model_okE X m \<Longrightarrow> ensures (good X) (releasePaneTerminal m p i)"
  unfolding releasePaneTerminal_def by (auto simp: Let_def split: option.splits intro!: setLeaf_good dest: paneTab_leaf)

lemma locatePane_SomeD:
  assumes "locatePane w key = Some (t, l)"
  shows "t \<in> set (wl_tabs w) \<and> is_terminal t \<and> l \<in> set (tab_leaves t) \<and> l \<in> set (pane_ids w)"
proof -
  from find_map_SomeD [OF assms [unfolded locatePane_def]] obtain t' where
    t: "t' \<in> set (wl_tabs w)" "is_terminal t'" "find (\<lambda>l. paneKeyOf (lt_entityId t') l = key) (leafIdsOf t') = Some l" "t' = t"
    by (auto split: if_splits option.splits)
  from find_SomeD [OF t(3)] t have "l \<in> set (tab_leaves t)" by (simp add: tab_leaves_def)
  with t tab_leaves_subset [of t w] show ?thesis by auto
qed

lemma restartPane_good: "model_okE X m \<Longrightarrow> ensures (good X) (restartPane m k key)"
  unfolding restartPane_def
  by (auto simp: Let_def split: option.splits intro!: setLeaf_good dest: locatePane_SomeD)

lemma startPane_good: "model_okE X m \<Longrightarrow> ensures (good X) (startPane m k key ctx)"
  unfolding startPane_def
  by (auto simp: Let_def restartPane_good split: option.splits)

lemma workspacePanes_ids: "map snd (workspacePanes w) = pane_ids w"
  unfolding workspacePanes_def pane_ids_def map_concat map_map
  by (rule arg_cong [of _ _ concat]) (auto simp: comp_def)

lemma workspacePanes_leaf: "p \<in> set (workspacePanes w) \<Longrightarrow> snd p \<in> set (pane_ids w)"
  using workspacePanes_ids [of w] by (metis image_eqI list.set_map)

text \<open>A run of steps that each keep the panes and the data of a workspace.\<close>

lemma foldl_ws_step:
  assumes "ws_ok E w" and "\<And>v x. x \<in> set xs \<Longrightarrow> ws_step E {} {} w v \<Longrightarrow> ws_step E {} {} v (f v x)"
  shows "ws_step E {} {} w (foldl f w xs)"
proof -
  have "ws_step E {} {} w v \<Longrightarrow> set ys \<subseteq> set xs \<Longrightarrow> ws_step E {} {} w (foldl f v ys)" for v ys
  proof (induction ys arbitrary: v)
    case Nil
    then show ?case by simp
  next
    case (Cons y ys)
    then show ?case using assms(2) ws_step_trans by (metis foldl_Cons insert_subset list.simps(15))
  qed
  with ws_step_refl [OF assms(1)] show ?thesis by blast
qed

text \<open>Writes of pane data leave the panes where they are, so the pane of a step stays a pane.\<close>

lemma foldl_leaf_step:
  assumes ok: "ws_ok E w"
    and f: "\<And>v x. x \<in> set xs \<Longrightarrow> f v x = v \<or> (\<exists>l y. l \<in> set (pane_ids w) \<and> f v x = setLeaf v l y \<and> (ws_ok E v \<longrightarrow> leaf_ok y))"
  shows "ws_step E {} {} w (foldl f w xs)"
proof -
  have "ws_ok E v \<Longrightarrow> set (pane_ids v) = set (pane_ids w) \<Longrightarrow> set ys \<subseteq> set xs \<Longrightarrow> ws_step E {} {} v (foldl f v ys)" for v ys
  proof (induction ys arbitrary: v)
    case Nil
    then show ?case by (simp add: ws_step_refl)
  next
    case (Cons y ys)
    from f [of y v] Cons.prems consider "f v y = v" | l z where "l \<in> set (pane_ids w)" "f v y = setLeaf v l z" "leaf_ok z" by auto
    then show ?case
    proof cases
      case 1
      with Cons show ?thesis by simp
    next
      case 2
      then have s: "ws_step E {} {} v (f v y)" using setLeaf_step [OF Cons.prems(1)] Cons.prems(2) by simp
      have "pane_ids (f v y) = pane_ids v" using 2(2) setLeaf_frame [of v l z] by (simp add: same_frame_def)
      with Cons s have "ws_step E {} {} (f v y) (foldl f (f v y) ys)" by (simp add: ws_step_def)
      with ws_step_trans [OF s] show ?thesis by simp
    qed
  qed
  from this [OF ok refl order_refl] show ?thesis .
qed

lemma sleep_good:
  assumes ok: "model_okE X m"
  shows "ensures (good X) (sleep m k keys records only)"
proof -
  let ?w = "workspaceOrEmpty m k"
  have "ws_step (X k) {} {} ?w (foldl (sleep_leaf records) ?w ps)" if ps: "set ps \<subseteq> set (workspacePanes ?w)" for ps
  proof (rule foldl_leaf_step [OF ws_ok_here [OF ok]])
    fix v p assume "p \<in> set ps"
    with ps workspacePanes_leaf have l: "snd p \<in> set (pane_ids ?w)" by blast
    show "sleep_leaf records v p = v \<or> (\<exists>l y. l \<in> set (pane_ids ?w) \<and> sleep_leaf records v p = setLeaf v l y \<and> (ws_ok (X k) v \<longrightarrow> leaf_ok y))"
    proof (cases "find (\<lambda>r. ls_paneKey r = fst p) records")
      case None
      then show ?thesis by (simp add: sleep_leaf_def)
    next
      case (Some r)
      let ?kept = "(leaf_or_empty v (snd p))\<lparr>lf_sleeping := None, lf_resume := None\<rparr>" and ?s = "layout_sleeping.truncate r"
      let ?y = "if isPaneSleepRecord ?s then ?kept\<lparr>lf_sleeping := Some ?s\<rparr> else ?kept\<lparr>lf_resume := Some ?s\<rparr>"
      have "sleep_leaf records v p = setLeaf v (snd p) ?y" using Some by (simp add: sleep_leaf_def Let_def)
      moreover have "leaf_ok ?y" by (simp add: leaf_ok_def)
      ultimately show ?thesis using l by blast
    qed
  qed
  then have "model_okE X (withWorkspace m k (foldl (sleep_leaf records) ?w ps))"
    if "set ps \<subseteq> set (workspacePanes ?w)" for ps using model_okE_own [OF ok] that by blast
  then show ?thesis unfolding sleep_def by (auto simp: Let_def split: option.splits)
qed

lemma wake_good:
  assumes ok: "model_okE X m"
  shows "ensures (good X) (wake m k keys only)"
proof -
  let ?w = "workspaceOrEmpty m k"
  let ?drop = "\<lambda>v (p :: string \<times> string). setLeaf v (snd p) ((leaf_or_empty v (snd p))\<lparr>lf_sleeping := None, lf_resume := None\<rparr>)"
  have "ws_step (X k) {} {} ?w (foldl ?drop ?w ps)" if ps: "set ps \<subseteq> set (workspacePanes ?w)" for ps
  proof (rule foldl_leaf_step [OF ws_ok_here [OF ok]])
    fix v p assume "p \<in> set ps"
    with ps workspacePanes_leaf have "snd p \<in> set (pane_ids ?w)" by blast
    then show "?drop v p = v \<or> (\<exists>l y. l \<in> set (pane_ids ?w) \<and> ?drop v p = setLeaf v l y \<and> (ws_ok (X k) v \<longrightarrow> leaf_ok y))"
      by (intro disjI2 exI [of _ "snd p"] exI conjI) auto
  qed
  then have "model_okE X (withWorkspace m k (foldl ?drop ?w ps))"
    if "set ps \<subseteq> set (workspacePanes ?w)" for ps using model_okE_own [OF ok] that by blast
  then show ?thesis unfolding wake_def by (auto simp: Let_def ok)
qed

end
