(* ===== verification/Layout_Opens.thy ===== *)
theory Layout_Opens
  imports Layout_Invariant
begin

text \<open>
  The commands that take panes and tabs away and those that regroup tabs keep the invariant: closing a pane
  or tabs, a retired pane, tab properties, moving a tab, splitting a group, divider ratios of the groups.
\<close>

lemma ws_step_data:
  "ws_step E F P v w \<Longrightarrow> same_frame w u \<Longrightarrow> wl_leaves u = wl_leaves w \<Longrightarrow> ws_step E F P v u"
  by (simp add: ws_step_def same_frame_ok) (simp add: same_frame_def)

section \<open>Removal\<close>

lemma removeTab_step:
  assumes ok: "ws_ok E w" and t: "t \<in> set (wl_tabs w)"
    and data: "leaves_ok ls (set (pane_ids w) - set (tab_leaves t))"
  shows "ws_step E {} {} w ((removeTabFromWorkspace w (lt_id t))\<lparr>wl_leaves := ls\<rparr>)"
proof -
  let ?v = "removeTabFromWorkspace w (lt_id t)"
  have "ws_shape E w" using ok unfolding ws_ok_shape by blast
  note R = removeTab_shape [OF this t]
  have f: "same_frame ?v (?v\<lparr>wl_leaves := ls\<rparr>)" by simp
  have "ws_ok E (?v\<lparr>wl_leaves := ls\<rparr>)"
    unfolding ws_ok_shape same_frame_shape [OF f] using f R data by (simp add: same_frame_def)
  then show ?thesis using f R unfolding ws_step_def by (auto simp: same_frame_def)
qed

lemma removeTab_leaves [simp]: "wl_leaves (removeTabFromWorkspace w i) = wl_leaves w"
  by (simp add: removeTabFromWorkspace_def split: prod.splits)

lemma tab_leaves_with_panes' [simp]: "is_terminal t \<Longrightarrow> tab_leaves (with_panes t p) = collectLayoutLeafIdsInOrder (lp_root p)"
  by simp

lemma retire_good:
  assumes ok: "model_okE X m" and t: "t \<in> set (wl_tabs (workspaceOrEmpty m k))" "is_terminal t"
    and l: "l \<in> set (tab_leaves t)"
  shows "model_okE X (retireTerminalPane m k t l)"
proof -
  let ?w = "workspaceOrEmpty m k" and ?p = "without_pane (tab_panes t) l"
  note ok' = ws_ok_here [OF ok, of k]
  have ids: "collectLayoutLeafIdsInOrder (lp_root ?p) = filter (\<lambda>i. i \<noteq> l) (tab_leaves t)"
    using t(2) by (simp add: without_pane_def remove_pane_ids tab_leaves_terminal)
  note gone = leaves_ok_delete_shrink [OF ws_okD(5) [OF ok'], of l]
  show ?thesis
  proof (cases "lp_root ?p = None")
    case True
    with ids have "filter (\<lambda>i. i \<noteq> l) (tab_leaves t) = []" by simp
    then have "set (tab_leaves t) \<subseteq> {l}" by (auto simp: filter_empty_conv)
    then have "leaves_ok (AList.delete l (wl_leaves ?w)) (set (pane_ids ?w) - set (tab_leaves t))"
      using leaves_ok_mono [OF gone] by blast
    from model_okE_own [OF ok removeTab_step [OF ok' t(1) this]] True show ?thesis
      by (simp add: retireTerminalPane_def Let_def withoutKey_def)
  next
    case False
    have "leaves_ok (AList.delete l (wl_leaves ?w)) (set (pane_ids ?w) - set (tab_leaves t) \<union> set (tab_leaves (with_panes t ?p)))"
      using t(2) ids by (auto intro!: leaves_ok_mono [OF gone])
    from replaceTab_step [OF ok' t(1) _ _ _ _ this, of "{}"]
    have "ws_step (X k) {} {} ?w ((replaceTab ?w (with_panes t ?p))\<lparr>wl_leaves := AList.delete l (wl_leaves ?w)\<rparr>)"
      using t(2) ids tab_leaves_distinct [OF ok' t(1)] by auto
    from model_okE_own [OF ok this] False show ?thesis
      by (auto simp: retireTerminalPane_def Let_def withoutKey_def)
  qed
qed

lemma closePane_good:
  assumes ok: "model_okE X m"
  shows "ensures (good X) (closePane m p u)"
proof (cases "findTerminal (workspaceOrEmpty m (pr_workspace p)) (pr_tabId p)")
  case None
  with ok show ?thesis by (simp add: closePane_def)
next
  case (Some t)
  then have t: "t \<in> set (wl_tabs (workspaceOrEmpty m (pr_workspace p)))" "is_terminal t"
    using findTerminal_SomeD by blast+
  have "model_okE X (retireTerminalPane m (pr_workspace p) t (pr_leafId p))"
    if "layoutContainsLeafId (lp_root (tab_panes t)) (pr_leafId p)"
    using that t by (intro retire_good [OF ok]) (auto simp: tab_leaves_terminal layoutContainsLeafId_def node_contains_iff split: option.splits)
  with ok Some show ?thesis by (auto simp: closePane_def Let_def)
qed

section \<open>Closing tabs\<close>

lemma closeTab_good:
  assumes ok: "model_okE X m" and t: "t \<in> set (wl_tabs (workspaceOrEmpty m k))"
  shows "model_okE X (closeTab own m k t)"
proof -
  let ?w = "workspaceOrEmpty m k"
  let ?ls = "if is_terminal t then filterRecord (wl_leaves ?w) (\<lambda>l. l \<notin> set (leafIdsOf t)) else wl_leaves ?w"
  note ok' = ws_ok_here [OF ok, of k]
  have "{l \<in> set (pane_ids ?w). l \<notin> set (leafIdsOf t)} = set (pane_ids ?w) - set (leafIdsOf t)" by blast
  then have "leaves_ok ?ls (set (pane_ids ?w) - set (tab_leaves t))"
    using leaves_ok_filter [OF ws_okD(5) [OF ok'], of "\<lambda>l. l \<notin> set (leafIdsOf t)"] ws_okD(5) [OF ok']
    by (simp add: tab_leaves_def)
  note S = removeTab_step [OF ok' t this]
  show ?thesis
    unfolding closeTab_def Let_def removeTab_leaves
    by (rule model_okE_own [OF ok ws_step_data [OF S]]) (simp_all add: same_frame_def tab_ids_def pane_ids_def)
qed

lemma close_all_good:
  assumes "model_okE X m"
  shows "model_okE X (cp_model (close_all own m c))"
proof -
  have step: "model_okE X (cp_model (close_step own c s i))" if "model_okE X (cp_model s)" for s i
    using that closeTab_good [OF that] by (auto simp: close_step_def Let_def dest: findTab_SomeD split: option.splits)
  have "model_okE X (cp_model s) \<Longrightarrow> model_okE X (cp_model (foldl (close_step own c) s is))" for s "is"
    by (induction "is" arbitrary: s) (simp_all add: step)
  with assms show ?thesis by (simp add: close_all_def)
qed

lemma closeTabs_good:
  assumes "model_okE X m"
  shows "ensures (good X) (closeTabs own m c now)"
proof -
  note ok = close_all_good [OF assms, of own c]
  have "model_okE X (recordClosedTerminalTabs (cp_model (close_all own m c)) k ids r)" for k ids r
    unfolding recordClosedTerminalTabs_def Let_def
    by (rule model_okE_own [OF ok ws_step_data [OF ws_step_refl [OF ws_ok_here [OF ok]]]]) simp_all
  with ok show ?thesis by (auto simp: closeTabs_def Let_def split: option.splits)
qed

section \<open>Orders and groups\<close>

lemma tab_leaves_apply_props [simp]: "tab_leaves (apply_tab_props c t) = tab_leaves t" "lt_id (apply_tab_props c t) = lt_id t"
  by (auto simp: apply_tab_props_def Let_def tab_leaves_def leafIdsOf_def is_terminal_def tab_panes_def
      split: option.splits bool.splits tab_body.splits)

lemma mset_partitionPinned:
  "distinct order \<Longrightarrow> i \<in> set order \<Longrightarrow> mset (partitionPinnedTabOrder order tabs i) = mset order"
  by (subst set_eq_iff_mset_eq_distinct [symmetric]) (simp_all add: insert_absorb)

lemma regroup_good:
  assumes ok: "model_okE X m" and "groups_ok {} gs (tab_ids (workspaceOrEmpty m k)) \<or> groups_ok (X k) gs (tab_ids (workspaceOrEmpty m k))"
    and "tree_ok l gs"
  shows "model_okE X (withWorkspace m k ((workspaceOrEmpty m k)\<lparr>wl_groups := gs, wl_groupLayout := l\<rparr>))"
proof -
  have "groups_ok (X k) gs (tab_ids (workspaceOrEmpty m k))" using assms(2) by (auto simp: groups_ok_def)
  from model_okE_own [OF ok ws_step_regroup [OF ws_ok_here [OF ok] this assms(3)]] show ?thesis .
qed

lemma reorder_step:
  assumes ok: "ws_ok E w"
    and f: "\<And>g. g \<in> set (wl_groups w) \<Longrightarrow> lg_id (f g) = lg_id g \<and> mset (lg_tabOrder (f g)) = mset (lg_tabOrder g)"
  shows "ws_step E F P w (w\<lparr>wl_groups := map f (wl_groups w)\<rparr>)"
proof -
  note D = ws_okD [OF ok]
  note R = groups_ok_reorder [OF D(2) f]
  have "tree_ok (wl_groupLayout w) (map f (wl_groups w))" using R(2) D(3) by simp
  from ws_step_regroup [OF ok R(1) this] show ?thesis by simp
qed

lemma setTabProps_good:
  assumes ok: "model_okE X m"
  shows "ensures (good X) (setTabProps m c)"
proof (cases "findTab (workspaceOrEmpty m (sp_workspace c)) (sp_tabId c)")
  case None
  then show ?thesis by (simp add: setTabProps_def)
next
  case (Some t)
  let ?w = "workspaceOrEmpty m (sp_workspace c)" and ?v = "replaceTab (workspaceOrEmpty m (sp_workspace c)) (apply_tab_props c t)"
  let ?f = "\<lambda>g. if lt_id t \<in> set (lg_tabOrder g)
      then g\<lparr>lg_tabOrder := partitionPinnedTabOrder (lg_tabOrder g) (wl_tabs ?v) (lt_id t)\<rparr> else g"
  have t: "t \<in> set (wl_tabs ?w)" using findTab_SomeD [OF Some] by blast
  note S = replaceTab_same [OF ws_ok_here [OF ok] t tab_leaves_apply_props(2,1), where F = "{}" and P = "{}"]
  have okv: "ws_ok (X (sp_workspace c)) ?v" using S by (simp add: ws_step_def)
  have "ws_step (X (sp_workspace c)) {} {} ?v (?v\<lparr>wl_groups := map ?f (wl_groups ?v)\<rparr>)"
    by (rule reorder_step [OF okv])
      (auto intro!: mset_partitionPinned groups_ok_order_distinct [OF ws_okD(2,1) [OF okv]])
  from model_okE_own [OF ok ws_step_trans [OF S this]] model_okE_own [OF ok S] Some show ?thesis
    by (auto simp: setTabProps_def Let_def split: option.splits)
qed

lemma withMovedPin_step: "ws_step E F P v w \<Longrightarrow> ws_step E F P v (withMovedPin w c)"
proof (rule ws_step_data)
  have "map f (map (\<lambda>t. if lt_id t = i then t\<lparr>lt_isPinned := p\<rparr> else t) ts) = map f ts"
    if "\<And>t. f (t\<lparr>lt_isPinned := p\<rparr>) = f t" for f :: "layout_tab \<Rightarrow> 'a" and i p ts
    using that by simp
  from this [of lt_id] this [of tab_leaves]
  show "same_frame w (withMovedPin w c)"
    unfolding withMovedPin_def same_frame_def tab_ids_def pane_ids_tab_leaves by (auto split: option.splits simp del: map_map)
  show "wl_leaves (withMovedPin w c) = wl_leaves w" by (simp add: withMovedPin_def split: option.splits)
qed

lemma sourceGroupOf_SomeD:
  "sourceGroupOf w i = Some g \<Longrightarrow> g \<in> set (wl_groups w) \<and> i \<in> set (lg_tabOrder g) \<and> i \<in> set (tab_ids w)"
  by (auto simp: sourceGroupOf_def tab_ids_def dest!: group_of_tab_SomeD findTab_SomeD split: if_splits)

lemma moveTab_good:
  assumes ok: "model_okE X m"
  shows "ensures (good X) (moveTab own m c)"
proof (cases "sourceGroupOf (workspaceOrEmpty m (mt_workspace c)) (mt_tabId c)")
  case None
  then show ?thesis by (simp add: moveTab_def)
next
  case (Some g)
  let ?k = "mt_workspace c" and ?w = "workspaceOrEmpty m (mt_workspace c)" and ?i = "mt_tabId c"
  note okw = ws_ok_here [OF ok, of ?k]
  note D = ws_okD [OF okw]
  have g: "g \<in> set (wl_groups ?w)" "?i \<in> set (lg_tabOrder g)" "?i \<in> set (tab_ids ?w)"
    using sourceGroupOf_SomeD [OF Some] by blast+
  have same: "model_okE X (withWorkspace m ?k (withMovedPin (?w\<lparr>wl_groups :=
      map (\<lambda>h. if lg_id h = j then h\<lparr>lg_tabOrder := reorder_tab (lg_tabOrder g) ?i n\<rparr> else h) (wl_groups ?w)\<rparr>) c))"
    if j: "lg_id g = j" for n j
  proof (rule model_okE_own [OF ok withMovedPin_step [OF reorder_step [OF okw]]])
    fix h assume h: "h \<in> set (wl_groups ?w)"
    have "distinct (map lg_id (wl_groups ?w))" using D(2) by (simp add: groups_ok_def)
    then have "h = g" if "lg_id h = j" using group_id_unique h g(1) that j by blast
    moreover have "distinct (lg_tabOrder g)" by (rule groups_ok_order_distinct [OF D(2,1) g(1)])
    ultimately show "lg_id (if lg_id h = j then h\<lparr>lg_tabOrder := reorder_tab (lg_tabOrder g) ?i n\<rparr> else h) = lg_id h \<and>
        mset (lg_tabOrder (if lg_id h = j then h\<lparr>lg_tabOrder := reorder_tab (lg_tabOrder g) ?i n\<rparr> else h)) = mset (lg_tabOrder h)"
      using mset_reorder g(2) by auto
  qed
  have other: "model_okE X (withWorkspace m ?k (withMovedPin (?w\<lparr>wl_groups := gs, wl_groupLayout := l\<rparr>) c))"
    if B: "buildHeadlessTabGroupMove (wl_groups ?w) (wl_groupLayout ?w) ?i (mt_toGroupId c) n = Some (gs, l)" for gs l n
  proof (rule model_okE_own [OF ok withMovedPin_step [OF ws_step_regroup [OF okw]]])
    note M = buildMove_ok [OF D(2,1,3) g(3) B]
    show "groups_ok (X ?k) gs (tab_ids ?w)" using M(1) by (auto simp: groups_ok_def)
    show "tree_ok l gs" by (rule M(2))
  qed
  show ?thesis
    unfolding moveTab_def Let_def Some option.case
    by (auto simp: same split: option.splits dest: other)
qed

lemma splitGroup_good:
  assumes ok: "model_okE X m" and fresh: "lc_mintId ctx Mint_split_group \<notin> lg_id ` set (wl_groups (workspaceOrEmpty m k))"
  shows "ensures (good X) (splitGroup m k i beside side ctx)"
proof (cases "sourceGroupOf (workspaceOrEmpty m k) i")
  case None
  then show ?thesis by (simp add: splitGroup_def)
next
  case (Some g)
  let ?w = "workspaceOrEmpty m k"
  note D = ws_okD [OF ws_ok_here [OF ok, of k]]
  have g: "g \<in> set (wl_groups ?w)" "i \<in> set (tab_ids ?w)" using sourceGroupOf_SomeD [OF Some] by blast+
  show ?thesis
  proof (cases "group_named (wl_groups ?w) beside")
    case None
    with Some show ?thesis by (simp add: splitGroup_def)
  next
    case (Some b)
    then have b: "beside \<in> lg_id ` set (wl_groups ?w)" using group_named_SomeD by blast
    have gi: "lg_id g \<in> lg_id ` set (wl_groups ?w)" using g(1) by blast
    let ?base = "case wl_groupLayout ?w of Some t \<Rightarrow> t | None \<Rightarrow> Leaf_node (lg_id g)"
    have base: "tree_ok (Some ?base) (wl_groups ?w)" using tree_ok_default [OF D(3) gi] by (simp add: option.case_eq_if)
    have "model_okE X (withWorkspace m k (?w\<lparr>wl_groups := wl_groups ?w,
        wl_groupLayout := Some (moveGroupLeafBeside ?base (lg_id g) beside side)\<rparr>))" if "lg_id g \<noteq> beside"
      using regroup_good [OF ok _ moveGroupLeafBeside_ok [OF base gi b that]] D(2) by blast
    then have move: "model_okE X (withWorkspace m k (?w\<lparr>wl_groupLayout := Some (moveGroupLeafBeside ?base (lg_id g) beside side)\<rparr>))"
      if "lg_id g \<noteq> beside" using that by simp
    have split: "model_okE X (withWorkspace m k (?w\<lparr>wl_groups := gs, wl_groupLayout := Some t\<rparr>))"
      if B: "buildHeadlessTabGroupSplit (wl_groups ?w) (wl_groupLayout ?w) i j side (lc_mintId ctx Mint_split_group) = Some (gs, t)"
        and j: "beside = j" for gs t j
      using regroup_good [OF ok] buildSplit_ok [OF D(2,1,3) g(2) fresh _ B] b j by blast
    show ?thesis
      unfolding splitGroup_def Let_def \<open>sourceGroupOf ?w i = Some g\<close> option.case
      using move by (auto simp: Some split: option.splits dest: split)
  qed
qed

lemma setGroupRatios_good:
  assumes ok: "model_okE X m"
  shows "ensures (good X) (setGroupRatios m k given rs)"
proof -
  let ?w = "workspaceOrEmpty m k"
  note D = ws_okD [OF ws_ok_here [OF ok, of k]]
  have put: "model_okE X (withWorkspace m k (?w\<lparr>wl_groupLayout := Some t\<rparr>))"
    if c: "current_group_tree ?w = Some c" and s: "sameGroupsIgnoringRatios c t" for c t
  proof -
    have "tree_ok (Some c) (wl_groups ?w)"
    proof (cases "wl_groupLayout ?w")
      case None
      with c obtain g where g: "first_group (wl_groups ?w) = Some g" "c = Leaf_node (lg_id g)" by (auto simp: current_group_tree_def)
      from first_group_SomeD [OF g(1)] have "lg_id g \<in> lg_id ` set (wl_groups ?w)" by blast
      from tree_ok_default [OF D(3) this] None g(2) show ?thesis by simp
    next
      case (Some u)
      with c D(3) show ?thesis by (simp add: current_group_tree_def)
    qed
    from regroup_good [OF ok _ tree_ok_same [OF this s]] D(2) show ?thesis by fastforce
  qed
  show ?thesis
    unfolding setGroupRatios_def Let_def
    by (auto split: option.splits if_splits intro!: put dest: withGroupSplitRatios_same)
qed

text \<open>
  The commands that open tabs keep the invariant: terminal tabs created or adopted, a pane moved to a tab of
  its own, content tabs, the opens in a group created with the tab, default tabs, and the pages of browsers.
\<close>

lemma model_okE_mono: "model_okE X m \<Longrightarrow> (\<And>k. X k \<subseteq> Y k) \<Longrightarrow> model_okE Y m"
  unfolding model_okE_def by (intro conjI) (blast, meson ws_ok_mono, blast)

section \<open>Unused ids\<close>

lemma ws_find_in: "ws_find m k = Some w \<Longrightarrow> w \<in> set (workspaces_of m)"
  unfolding ws_find_def workspaces_of_def by (force dest: map_of_SomeD)

lemma holds_tab_fresh: "\<not> holds_tab m i \<Longrightarrow> tab_fresh m i"
  unfolding holds_tab_def tab_fresh_def tab_ids_def by (auto dest!: ws_find_in)

lemma tab_fresh_with:
  "tab_fresh m i \<Longrightarrow> i \<notin> set (tab_ids w) \<Longrightarrow> tab_fresh (withWorkspace m k w) i"
  by (simp add: tab_fresh_def)

lemma pane_fresh_with:
  "pane_fresh m l \<Longrightarrow> l \<notin> set (pane_ids w) \<Longrightarrow> pane_fresh (withWorkspace m k w) l"
  by (simp add: pane_fresh_def)

lemma fresh_step:
  assumes "ws_step E F P (workspaceOrEmpty m k) w"
  shows "tab_fresh m i \<Longrightarrow> i \<notin> F \<Longrightarrow> tab_fresh (withWorkspace m k w) i"
    and "pane_fresh m l \<Longrightarrow> l \<notin> P \<Longrightarrow> pane_fresh (withWorkspace m k w) l"
  using assms fresh_workspaceOrEmpty [of m _ k]
  by (auto simp: ws_step_def intro!: tab_fresh_with pane_fresh_with)

section \<open>Terminal tabs\<close>

lemma held_pane_in:
  assumes "heldPaneOfTerminal w a = Some (t, l, pk)"
  shows "l \<in> set (pane_ids w)"
proof -
  consider e where "e \<in> set (wl_tabs w)" "is_terminal e" "find (\<lambda>l. leaf_pty w l = Some (ta_ptyId a)) (leafIdsOf e) = Some l"
    | e where "locatePane w (the (ta_recordedPaneKey a)) = Some (e, l)"
    using assms unfolding heldPaneOfTerminal_def
    by (auto split: option.splits if_splits dest!: find_map_SomeD)
  then show ?thesis
  proof cases
    case 1
    then have "l \<in> set (tab_leaves e)" using find_SomeD by (fastforce simp: tab_leaves_def)
    with tab_leaves_subset [OF 1(1)] show ?thesis by blast
  next
    case 2
    then show ?thesis using locatePane_SomeD by blast
  qed
qed

lemma heldAdoption_good:
  assumes ok: "model_okE X m" and "appliedHeldAdoption m k a = Some r"
  shows "ensures (good X) r"
proof -
  obtain w t l pk where w: "ws_find m k = Some w" "heldPaneOfTerminal w a = Some (t, l, pk)"
    and r: "r = applied m (pane_result t l pk) [] [] [] \<or>
      r = applied (withWorkspace m k (setLeaf w l (adopt_leaf a (leaf_or_empty w l)))) (pane_result t l pk) [] [] []"
    using assms(2) unfolding appliedHeldAdoption_def by (auto split: option.splits if_splits)
  have we: "workspaceOrEmpty m k = w" by (rule workspaceOrEmpty_Some [OF w(1)])
  have "leaf_ok (adopt_leaf a (leaf_or_empty w l))" using here_leaf_ok [OF ok, of k l] by (simp add: we)
  then have "model_okE X (withWorkspace m k (setLeaf w l (adopt_leaf a (leaf_or_empty w l))))"
    using setLeaf_good [OF ok, of l k] held_pane_in [OF w(2)] by (simp add: we)
  with r ok show ?thesis by auto
qed

definition created_tab_id :: "create_terminal \<Rightarrow> layout_context \<Rightarrow> string" where
  "created_tab_id c ctx = (case cr_tabId c of Some i \<Rightarrow> i | None \<Rightarrow> lc_mintId ctx Mint_terminal_tab)"

definition created_leaf_id :: "create_terminal \<Rightarrow> layout_context \<Rightarrow> string" where
  "created_leaf_id c ctx = (case cr_leafId c of Some l \<Rightarrow> l | None \<Rightarrow> lc_mintLeafId ctx)"

lemma new_terminal_tab_props [simp]:
  "lt_id (new_terminal_tab c ctx i l title) = i" "tab_leaves (new_terminal_tab c ctx i l title) = [l]"
  "lt_entityId (new_terminal_tab c ctx i l title) = i"
  by (simp_all add: new_terminal_tab_def tab_leaves_def is_terminal_def leafIdsOf_def tab_panes_def)

lemma created_step:
  assumes ok: "ws_ok E w" and "i \<notin> set (tab_ids w)" and "l \<notin> set (pane_ids w)"
  shows "ws_step E {i} {l} w (placeNewTab w k (new_terminal_tab c ctx i l title) p ctx)"
    and "ws_step E {i} {l} w ((placeNewTab w k (new_terminal_tab c ctx i l title) p ctx)
      \<lparr>wl_leaves := AList.update l (adoptedLeaf a) (wl_leaves (placeNewTab w k (new_terminal_tab c ctx i l title) p ctx))\<rparr>)"
proof -
  let ?v = "placeNewTab w k (new_terminal_tab c ctx i l title) p ctx"
  show S: "ws_step E {i} {l} w ?v"
    using placeNewTab_step [OF ok, of "new_terminal_tab c ctx i l title" k p ctx] assms(2,3) by simp
  have "pane_ids ?v = pane_ids w @ [l]"
    by (simp add: placeNewTab_def pane_ids_tab_leaves Let_def split: option.splits)
  moreover have okv: "ws_ok E ?v" using S by (simp add: ws_step_def)
  ultimately have "leaves_ok (AList.update l (adoptedLeaf a) (wl_leaves ?v)) (set (pane_ids ?v))"
    by (intro leaves_ok_update [OF ws_okD(5) [OF okv]]) (simp_all add: adoptedLeaf_def leaf_ok_def empty_leaf_def adopt_leaf_def)
  then show "ws_step E {i} {l} w (?v\<lparr>wl_leaves := AList.update l (adoptedLeaf a) (wl_leaves ?v)\<rparr>)"
    by (intro ws_step_trans [OF S same_frame_step [OF okv]]) simp_all
qed

lemma createTerminalTab_cases:
  assumes ok: "model_okE X m"
    and new: "tab_fresh m (created_tab_id c ctx)" "pane_fresh m (created_leaf_id c ctx)"
  shows "ensures (good X) (createTerminalTab m c ctx)"
    and "cr_adopt c = None \<Longrightarrow> cr_initial c = None \<Longrightarrow>
      \<exists>w. createTerminalTab m c ctx = applied (withWorkspace m (cr_workspace c) w)
          (pane_result (created_tab_id c ctx) (created_leaf_id c ctx) (paneKeyOf (created_tab_id c ctx) (created_leaf_id c ctx)))
          [] [paneKeyOf (created_tab_id c ctx) (created_leaf_id c ctx)] [] \<and>
        ws_step (X (cr_workspace c)) {created_tab_id c ctx} {created_leaf_id c ctx} (workspaceOrEmpty m (cr_workspace c)) w"
proof -
  let ?k = "cr_workspace c"
  note S = created_step [OF ws_ok_here [OF ok, of ?k] fresh_workspaceOrEmpty(1) [OF new(1)] fresh_workspaceOrEmpty(2) [OF new(2)]]
  have K: "ws_step (X ?k) {created_tab_id c ctx} {created_leaf_id c ctx} (workspaceOrEmpty m ?k) w \<Longrightarrow>
      model_okE X (withWorkspace m ?k w)" for w
    by (rule model_okE_keeps [OF ok]) (use new in auto)
  show "ensures (good X) (createTerminalTab m c ctx)"
  proof (cases "Option.bind (cr_adopt c) (appliedHeldAdoption m ?k)")
    case None
    then show ?thesis
      using ok K [OF S(1)] K [OF S(2)]
      by (auto simp: createTerminalTab_def Let_def created_tab_id_def created_leaf_id_def split: option.splits)
  next
    case (Some held)
    then have "ensures (good X) held" using heldAdoption_good [OF ok] by (auto simp: Option.bind_eq_Some_conv)
    with ok show ?thesis unfolding createTerminalTab_def Let_def Some option.case by simp
  qed
  assume "cr_adopt c = None" "cr_initial c = None"
  then have "createTerminalTab m c ctx = applied (withWorkspace m ?k (placeNewTab (workspaceOrEmpty m ?k) ?k
        (new_terminal_tab c ctx (created_tab_id c ctx) (created_leaf_id c ctx) (next_terminal_title (workspaceOrEmpty m ?k)))
        (cr_placement c) ctx))
      (pane_result (created_tab_id c ctx) (created_leaf_id c ctx) (paneKeyOf (created_tab_id c ctx) (created_leaf_id c ctx)))
      [] [paneKeyOf (created_tab_id c ctx) (created_leaf_id c ctx)] []"
    by (simp add: createTerminalTab_def Let_def created_tab_id_def created_leaf_id_def)
  with S(1) show "\<exists>w. createTerminalTab m c ctx = applied (withWorkspace m ?k w)
      (pane_result (created_tab_id c ctx) (created_leaf_id c ctx) (paneKeyOf (created_tab_id c ctx) (created_leaf_id c ctx)))
      [] [paneKeyOf (created_tab_id c ctx) (created_leaf_id c ctx)] [] \<and>
      ws_step (X ?k) {created_tab_id c ctx} {created_leaf_id c ctx} (workspaceOrEmpty m ?k) w" by blast
qed

section \<open>Default tabs\<close>

definition default_tabs_fresh :: "layout_model \<Rightarrow> default_tab list \<Rightarrow> bool" where
  "default_tabs_fresh m ts =
     (distinct (map dt_tabId ts) \<and> distinct (map dt_leafId ts) \<and>
      (\<forall>d\<in>set ts. tab_fresh m (dt_tabId d) \<and> pane_fresh m (dt_leafId d)))"

lemma apply_default_tabs_good:
  "model_okE X m \<Longrightarrow> default_tabs_fresh m ts \<Longrightarrow> \<exists>m' s'. apply_default_tabs k ctx ts m starts = Inr (m', s') \<and> model_okE X m'"
proof (induction ts arbitrary: m starts)
  case Nil
  then show ?case by simp
next
  case (Cons d ts)
  have ids: "created_tab_id (default_tab_command k d) ctx = dt_tabId d" "created_leaf_id (default_tab_command k d) ctx = dt_leafId d"
    by (simp_all add: created_tab_id_def created_leaf_id_def default_tab_command_def)
  have new: "tab_fresh m (dt_tabId d)" "pane_fresh m (dt_leafId d)" using Cons.prems(2) by (simp_all add: default_tabs_fresh_def)
  note C = createTerminalTab_cases [OF Cons.prems(1), of "default_tab_command k d" ctx, unfolded ids, OF new]
  have W: "cr_workspace (default_tab_command k d) = k" by (simp add: default_tab_command_def)
  obtain w where w: "createTerminalTab m (default_tab_command k d) ctx = applied (withWorkspace m k w)
      (pane_result (dt_tabId d) (dt_leafId d) (paneKeyOf (dt_tabId d) (dt_leafId d))) [] [paneKeyOf (dt_tabId d) (dt_leafId d)] []"
    "ws_step (X k) {dt_tabId d} {dt_leafId d} (workspaceOrEmpty m k) w"
    using C(2) W by (auto simp: default_tab_command_def)
  have ok: "model_okE X (withWorkspace m k w)" using C(1) unfolding w(1) by simp
  have "default_tabs_fresh (withWorkspace m k w) ts"
    using Cons.prems(2) fresh_step [OF w(2)] by (auto simp: default_tabs_fresh_def image_iff)
  from Cons.IH [OF ok this] show ?case by (simp add: w(1) applied_def)
qed

lemma setDefaultTabsApplied_good: "model_okE X m \<Longrightarrow> ensures (good X) (setDefaultTabsApplied m k)"
  by (auto simp: setDefaultTabsApplied_def model_okE_def ws_find_def)

lemma applyDefaultTabs_good:
  assumes "model_okE X m" and "default_tabs_fresh m ts"
  shows "ensures (good X) (applyDefaultTabs m k ts ctx)"
proof -
  obtain m' s' where r: "apply_default_tabs k ctx ts m [] = Inr (m', s')" "model_okE X m'"
    using apply_default_tabs_good [OF assms] by blast
  from setDefaultTabsApplied_good [OF r(2), of k] show ?thesis
    using assms(1) r(1) unfolding applyDefaultTabs_def by (auto simp: good_def split: sum.splits)
qed

section \<open>A pane moved to a tab of its own\<close>

lemma bindDetachedLeaf_frame [simp]: "same_frame w (bindDetachedLeaf w l d)"
  by (simp add: bindDetachedLeaf_def Let_def same_frame_def)
    (simp add: setLeaf_frame [unfolded same_frame_def])

lemma bindDetachedLeaf_step:
  assumes "ws_ok E w" and "l \<in> set (pane_ids w)"
  shows "ws_step E F P w (bindDetachedLeaf w l d)"
proof -
  have "leaf_ok ((leaf_or_empty w l)\<lparr>lf_ptyId := p\<rparr>)" "leaf_ok ((leaf_or_empty w l)\<lparr>lf_ptyId := p, lf_incarnationId := None\<rparr>)" for p
    using ws_ok_leaf [OF assms(1)] by simp_all
  then show ?thesis
    unfolding bindDetachedLeaf_def Let_def using setLeaf_step [OF assms] ws_step_refl [OF assms(1)] by simp
qed

lemma move_out_step:
  assumes ok: "ws_ok E w" and t: "t \<in> set (wl_tabs w)" "is_terminal t" and l: "l \<in> set (tab_leaves t)"
    and new: "lt_id u \<notin> set (tab_ids w)" "tab_leaves u = [l]"
  shows "ws_step E {lt_id u} {} w (placeNewTab (replaceTab w (with_panes t (without_pane (tab_panes t) l))) k u p ctx)"
proof -
  let ?s = "with_panes t (without_pane (tab_panes t) l)"
  let ?v = "replaceTab w ?s"
  note D = ws_okD [OF ok]
  have leaves: "tab_leaves ?s = filter (\<lambda>i. i \<noteq> l) (tab_leaves t)"
    using t(2) by (simp add: without_pane_def remove_pane_ids tab_leaves_terminal)
  note R = pane_ids_replaceTab [OF D(1) t(1) with_panes_id D(4), of "without_pane (tab_panes t) l"]
  have panes: "set (pane_ids ?v) = set (pane_ids w) - {l}" unfolding R(1) leaves using l tab_leaves_subset [OF t(1)] by auto
  have "distinct (pane_ids ?v)"
    by (rule R(2)) (unfold leaves, use tab_leaves_distinct [OF ok t(1)] in auto)
  then have shape: "ws_shape E ?v" using D(1-3) by (simp add: ws_shape_def)
  obtain g gs where P: "placing ?v k p ctx = (g, gs)" by (cases "placing ?v k p ctx")
  have "distinct (pane_ids ?v @ tab_leaves u)" using \<open>distinct (pane_ids ?v)\<close> panes new(2) by auto
  note N = placeNewTab_shape [OF shape _ this P]
  have "ws_shape E (placeNewTab ?v k u p ctx)" using N new(1) ws_shape_mono [of "E - {lg_id g}" _ E] by auto
  moreover have "set (pane_ids (placeNewTab ?v k u p ctx)) = set (pane_ids w)"
    using N new panes l tab_leaves_subset [OF t(1)] by auto
  ultimately show ?thesis using N new(1) D(5) unfolding ws_step_def ws_ok_shape by auto
qed

definition moved_tab_id :: "move_pane_tab \<Rightarrow> layout_context \<Rightarrow> string" where
  "moved_tab_id c ctx = (case Option.bind (mp_windowDetach c) wd_tabId of Some x \<Rightarrow> x | None \<Rightarrow> lc_mintId ctx Mint_moved_tab)"

lemma moved_pane_tab_props [simp]:
  "lt_id (moved_pane_tab t l i title cwd now) = i" "tab_leaves (moved_pane_tab t l i title cwd now) = [l]"
  by (simp_all add: moved_pane_tab_def Let_def tab_leaves_def is_terminal_def leafIdsOf_def tab_panes_def)

lemma movePaneToNewTab_good:
  assumes ok: "model_okE X m" and fresh: "tab_fresh m (moved_tab_id c ctx)"
  shows "ensures (good X) (movePaneToNewTab m c ctx)"
proof (cases "paneTab m (pr_workspace (mp_pane c)) (pr_tabId (mp_pane c))")
  case None
  then show ?thesis by (simp add: movePaneToNewTab_def)
next
  case (Some t)
  let ?k = "pr_workspace (mp_pane c)" and ?l = "pr_leafId (mp_pane c)"
  let ?old = "workspaceOrEmpty m ?k" let ?w = "bindDetachedLeaf ?old ?l (mp_windowDetach c)"
  from Some obtain tree where t: "t \<in> set (wl_tabs ?old)" "is_terminal t"
    "lp_root (tab_panes t) = Some tree" "tab_leaves t = node_ids tree" by (rule paneTab_SomeD)
  have "model_okE X (withWorkspace m ?k (placeNewTab (replaceTab ?w (with_panes t (without_pane (tab_panes t) ?l)))
      ?k (moved_pane_tab t ?l (moved_tab_id c ctx) title cwd now) p ctx))"
    if l: "layoutContainsLeafId (lp_root (tab_panes t)) ?l" for title cwd now p
  proof -
    have lt: "?l \<in> set (tab_leaves t)" using l t by (simp add: layoutContainsLeafId_def node_contains_iff)
    then have lp: "?l \<in> set (pane_ids ?old)" using tab_leaves_subset [OF t(1)] by blast
    note B = bindDetachedLeaf_step [OF ws_ok_here [OF ok] lp, where F = "{moved_tab_id c ctx}" and P = "{}"]
    have okw: "ws_ok (X ?k) ?w" using B by (simp add: ws_step_def)
    have ids: "tab_ids ?w = tab_ids ?old" using bindDetachedLeaf_frame [of ?old] by (simp add: same_frame_def)
    have tw: "t \<in> set (wl_tabs ?w)" using t(1) by (simp add: bindDetachedLeaf_def setLeaf_def Let_def)
    have "ws_step (X ?k) {moved_tab_id c ctx} {} ?w (placeNewTab (replaceTab ?w (with_panes t (without_pane (tab_panes t) ?l)))
        ?k (moved_pane_tab t ?l (moved_tab_id c ctx) title cwd now) p ctx)"
      using move_out_step [OF okw tw t(2) lt, of "moved_pane_tab t ?l (moved_tab_id c ctx) title cwd now"]
        fresh_workspaceOrEmpty(1) [OF fresh] ids by simp
    from model_okE_keeps [OF ok ws_step_trans [OF B this]] fresh show ?thesis by simp
  qed
  then show ?thesis
    unfolding movePaneToNewTab_def Let_def Some option.case
    by (auto simp: moved_tab_id_def [symmetric])
qed

end
