(* ===== verification/Layout_Contents.thy ===== *)
theory Layout_Contents
  imports Layout_Opens
begin

text \<open>
  The opens of content tabs, the group created with a tab, and the pages of browser tabs keep the
  invariant.
\<close>

section \<open>Writes of other data\<close>

lemma data_good:
  assumes ok: "model_okE X m" and "same_frame (workspaceOrEmpty m k) w" and "wl_leaves w = wl_leaves (workspaceOrEmpty m k)"
  shows "model_okE X (withWorkspace m k w)"
  by (rule model_okE_own [OF ok ws_step_data [OF ws_step_refl [OF ws_ok_here [OF ok]] assms(2,3)]])

lemma withEditorFile_good: "model_okE X m \<Longrightarrow> model_okE X (withEditorFile own m k f)"
  by (auto simp: withEditorFile_def Let_def split: option.splits intro!: data_good)

lemma withEditorView_good: "model_okE X m \<Longrightarrow> model_okE X (withEditorView m k i v)"
  by (auto simp: withEditorView_def Let_def split: option.splits intro!: data_good)

lemma withRecord_good: "model_okE X m \<Longrightarrow> ensures (good X) (withRecord m k b change)"
  by (auto simp: withRecord_def Let_def split: option.splits intro!: data_good)

lemma browser_pages_good:
  assumes "model_okE X m"
  shows "ensures (good X) (openBrowserPage m k b p)" "ensures (good X) (closeBrowserPage m k b p)"
    "ensures (good X) (replaceBrowserPage m k b p q)" "ensures (good X) (setBrowserTabProfile m k b pf sp)"
  using withRecord_good [OF assms]
  by (simp_all add: openBrowserPage_def closeBrowserPage_def replaceBrowserPage_def setBrowserTabProfile_def withPageIds_def)

section \<open>Placing content\<close>

lemma content_tab_props [simp]:
  "lt_id (contentTab ctx kind e i at_time) = (case i of Some j \<Rightarrow> j | None \<Rightarrow> lc_mintId ctx Mint_content_tab)"
  "tab_leaves (contentTab ctx kind e i at_time) = []"
  by (simp_all add: contentTab_def tab_leaves_def is_terminal_def)

lemma placeContentTab_from:
  assumes ok: "model_okE X m" and fresh: "tab_fresh m (lt_id t)" and body: "tab_leaves t = []"
    and step: "\<And>p. ws_step E {lt_id t} {} (workspaceOrEmpty m k) (placeNewTab (workspaceOrEmpty m k) k t p ctx)"
  shows "model_okE (X(k := E)) (fst (placeContentTab m k t p dirty ctx))"
proof -
  have "model_okE (X(k := E)) (withWorkspace m k (placeNewTab (workspaceOrEmpty m k) k t q ctx))" for q
    by (rule model_okE_with [OF ok step]) (use fresh in auto)
  then show ?thesis unfolding placeContentTab_def Let_def by (auto simp: close_all_good split: option.splits)
qed

lemma placeContentTab_good:
  assumes ok: "model_okE X m" and fresh: "tab_fresh m (lt_id t)" and body: "tab_leaves t = []"
  shows "model_okE X (fst (placeContentTab m k t p dirty ctx))"
proof -
  have "ws_step (X k) {lt_id t} {} (workspaceOrEmpty m k) (placeNewTab (workspaceOrEmpty m k) k t q ctx)" for q
    using placeNewTab_step [OF ws_ok_here [OF ok] fresh_workspaceOrEmpty(1) [OF fresh]] body by simp
  from placeContentTab_from [OF assms this] show ?thesis by simp
qed

text \<open>The sender's group is empty until its tab is placed; no other group is.\<close>

lemma first_group_step:
  assumes okw: "ws_ok E w" and "wl_groups w = []"
  shows "ws_step {i} F P w (w\<lparr>wl_groups := [\<lparr>lg_id = i, lg_tabOrder = []\<rparr>]\<rparr>)"
proof -
  note D = ws_okD [OF okw]
  have L: "wl_groupLayout w = None" using ws_shape_empty_groups assms unfolding ws_ok_shape by blast
  have "groups_ok {i} [\<lparr>lg_id = i, lg_tabOrder = []\<rparr>] (tab_ids w)"
    using D(2) assms(2) by (simp add: groups_ok_def)
  moreover have "tree_ok (wl_groupLayout w) [\<lparr>lg_id = i, lg_tabOrder = []\<rparr>]" by (simp add: L tree_ok_def)
  ultimately have "ws_step {i} F P w (w\<lparr>wl_groups := [\<lparr>lg_id = i, lg_tabOrder = []\<rparr>], wl_groupLayout := wl_groupLayout w\<rparr>)"
    by (rule ws_step_regroup [OF okw])
  then show ?thesis by simp
qed

lemma placeContentTab_sender:
  assumes ok: "model_okE X m" and fresh: "tab_fresh m (lt_id t)" and body: "tab_leaves t = []"
  shows "model_okE X (fst (placeContentTab (withSendersGroup m k g) k t p dirty ctx))"
proof (cases "truthy g \<and> wl_groups (workspaceOrEmpty m k) = []")
  case False
  then show ?thesis using placeContentTab_good [OF assms] by (auto simp: withSendersGroup_def)
next
  case True
  let ?w = "workspaceOrEmpty m k" and ?i = "the g"
  let ?v = "?w\<lparr>wl_groups := [\<lparr>lg_id = ?i, lg_tabOrder = []\<rparr>]\<rparr>"
  have m': "withSendersGroup m k g = withWorkspace m k ?v" using True by (simp add: withSendersGroup_def)
  have S: "ws_step {?i} {} {} ?w ?v" using first_group_step [OF ws_ok_here [OF ok]] True by blast
  have ok': "model_okE (X(k := {?i})) (withWorkspace m k ?v)" by (rule model_okE_with [OF ok S]) simp_all
  have fresh': "tab_fresh (withWorkspace m k ?v) (lt_id t)" using fresh_step(1) [OF S fresh] by simp
  have okv: "ws_ok {?i} ?v" using S by (simp add: ws_step_def)
  have "lt_id t \<notin> set (tab_ids ?v)" using fresh_workspaceOrEmpty(1) [OF fresh'] by (metis workspaceOrEmpty_with)
  then have "ws_step ({?i} - {?i}) {lt_id t} {} ?v (placeNewTab ?v k t q ctx)" for q
    using placeNewTab_only [OF okv, of t ?i k q ctx] body by simp
  then have "model_okE ((X(k := {?i}))(k := {})) (fst (placeContentTab (withWorkspace m k ?v) k t p dirty ctx))"
    by (intro placeContentTab_from [OF ok' fresh' body]) simp
  then show ?thesis unfolding m' by (rule model_okE_mono) simp
qed

lemma drawn_good:
  assumes "model_okE X m" and "drawnTabOpen m k i same r = Some d"
  shows "ensures (good X) d"
  using assms by (auto simp: drawnTabOpen_def split: if_splits option.splits)

lemma not_drawn_fresh:
  assumes "drawnTabOpen m k i same True = None" and "truthy i"
  shows "tab_fresh m (the i)"
  using assms by (intro holds_tab_fresh) (auto simp: drawnTabOpen_def split: if_splits option.splits)

section \<open>Opens\<close>

text \<open>The id an open gives its tab, where the code does not refuse one in use.\<close>

definition content_tab_id :: "layout_context \<Rightarrow> string option \<Rightarrow> string" where
  "content_tab_id ctx i = (case nonempty_text i of Some j \<Rightarrow> j | None \<Rightarrow> lc_mintId ctx Mint_content_tab)"

lemma content_id_fresh:
  assumes "drawnTabOpen m k i same True = None" and "\<not> truthy i \<Longrightarrow> tab_fresh m (lc_mintId ctx Mint_content_tab)"
  shows "tab_fresh m (content_tab_id ctx i)"
  using assms not_drawn_fresh [OF assms(1)]
  by (cases "truthy i") (auto simp: content_tab_id_def nonempty_text_def elim!: truthyE)

lemma openEditorTab_good:
  assumes ok: "model_okE X m"
    and minted: "\<not> truthy (oe_tabId c) \<Longrightarrow> tab_fresh m (lc_mintId ctx Mint_content_tab)"
  shows "ensures (good X) (openEditorTab m c ctx)"
proof -
  let ?k = "oe_workspace c"
  let ?same = "\<lambda>t. lt_entityId t = the (open_file_id (lc_owner ctx) m c) \<and> has_kind (oe_contentType c) t"
  let ?t = "(contentTab ctx (oe_contentType c) (the (open_file_id (lc_owner ctx) m c)) (nonempty_text (oe_tabId c))
    (oe_createdAt c))\<lparr>lt_isPreview := oe_preview c\<rparr>"
  have drawn: "ensures (good X) (bindE d (\<lambda>a. applied (withEditorView (withEditorFile (lc_owner ctx) (al_model a) ?k (oe_file c)) ?k
      (the (oe_tabId c)) (oe_view c)) (al_result a) [] [] []))" if "drawnTabOpen m ?k (oe_tabId c) ?same True = Some d" for d
    using drawn_good [OF ok that] by (cases d) (auto simp: good_def withEditorView_good withEditorFile_good)
  have new: "model_okE X a" if D: "drawnTabOpen m ?k (oe_tabId c) ?same True = None"
    and P: "placeContentTab (withSendersGroup m ?k (oe_groupId c)) ?k ?t p dirty ctx = (a, r)" for p dirty a r
  proof -
    have "lt_id ?t = content_tab_id ctx (oe_tabId c)" by (simp add: content_tab_id_def)
    with content_id_fresh [OF D minted] have "tab_fresh m (lt_id ?t)" by simp
    from placeContentTab_sender [OF ok this, of ?k "oe_groupId c" p dirty ctx] P show ?thesis by simp
  qed
  have pinned: "model_okE X (case (if b then promotePreviewTab m ?k i else applied_only m) of Inl code \<Rightarrow> m | Inr a \<Rightarrow> al_model a)"
    for b i using promotePreviewTab_good [OF ok, of ?k i] ok
    by (cases "promotePreviewTab m ?k i") (auto simp: good_def applied_def)
  show ?thesis
    unfolding openEditorTab_def Let_def
    by (intro ensures_if ensures_option ensures_prod good_refuse drawn good_applied [THEN iffD2] withEditorView_good
        withEditorFile_good pinned) (assumption | erule (1) new)+
qed

lemma openSimulatorTab_good:
  assumes ok: "model_okE X m" and "os_tabId c = [] \<Longrightarrow> tab_fresh m []"
  shows "ensures (good X) (openSimulatorTab m c ctx)"
proof (cases "drawnTabOpen m (os_workspace c) (Some (os_tabId c)) (has_kind Simulator_kind) True")
  case (Some d)
  from drawn_good [OF ok Some] Some show ?thesis by (simp add: openSimulatorTab_def)
next
  case None
  have "tab_fresh m (os_tabId c)" using not_drawn_fresh [OF None] assms(2) by (cases "os_tabId c = []") auto
  then show ?thesis
    using None placeContentTab_sender [OF ok, of "contentTab ctx Simulator_kind (os_tabId c) (Some (os_tabId c)) (os_createdAt c)"]
    by (simp add: openSimulatorTab_def Let_def)
qed

lemma openAgentSessionTab_good:
  assumes ok: "model_okE X m"
    and fresh: "\<not> truthy (oa_tabId c) \<or> \<not> lc_owner ctx \<Longrightarrow> tab_fresh m (content_tab_id ctx (oa_tabId c))"
  shows "ensures (good X) (openAgentSessionTab m c ctx)"
proof (cases "drawnTabOpen m (oa_workspace c) (oa_tabId c)
    (\<lambda>t. has_kind Agent_session_kind t \<and> lt_entityId t = oa_sessionId c) (lc_owner ctx)")
  case (Some d)
  from drawn_good [OF ok Some] Some ok show ?thesis by (auto simp: openAgentSessionTab_def Let_def split: option.splits)
next
  case None
  have "tab_fresh m (content_tab_id ctx (oa_tabId c))"
  proof (cases "truthy (oa_tabId c) \<and> lc_owner ctx")
    case True
    with content_id_fresh [of m "oa_workspace c" "oa_tabId c"] None show ?thesis by auto
  qed (use fresh in blast)
  then show ?thesis
    using None ok placeContentTab_sender [OF ok,
        of "(contentTab ctx Agent_session_kind (oa_sessionId c) (nonempty_text (oa_tabId c)) (oa_createdAt c))\<lparr>lt_agentSessionAgent := Some (oa_agent c)\<rparr>"]
    by (auto simp: openAgentSessionTab_def Let_def content_tab_id_def split: option.splits)
qed

definition browser_tab_id :: "open_browser \<Rightarrow> layout_context \<Rightarrow> string" where
  "browser_tab_id c ctx = (case ob_tabId c of Some i \<Rightarrow> i
     | None \<Rightarrow> (case orElse (ob_browserTabId c) (ob_pageId c) of Some i \<Rightarrow> i | None \<Rightarrow> lc_mintId ctx Mint_browser_tab))"

lemma openBrowserTab_good:
  assumes ok: "model_okE X m" and fresh: "\<not> truthy (ob_browserTabId c) \<Longrightarrow> tab_fresh m (browser_tab_id c ctx)"
  shows "ensures (good X) (openBrowserTab m c ctx)"
proof -
  let ?b = "case orElse (ob_browserTabId c) (ob_pageId c) of Some i \<Rightarrow> i | None \<Rightarrow> lc_mintId ctx Mint_browser_tab"
  let ?p = "case ob_pageId c of Some i \<Rightarrow> i | None \<Rightarrow> lc_mintId ctx Mint_browser_page"
  let ?t = "contentTab ctx Browser_kind ?b (Some (browser_tab_id c ctx)) (ob_createdAt c)"
  have taken: "ensures (good X) r" if "takenBrowserTabIds m k i b p = Some r" for k i b p r
    using that ok by (auto simp: takenBrowserTabIds_def Let_def split: if_splits)
  have untaken: "tab_fresh m i" if "takenBrowserTabIds m k i b p = None" for k i b p
    using that by (intro holds_tab_fresh) (auto simp: takenBrowserTabIds_def holds_tab_def Let_def split: if_splits)
  have new: "model_okE X (withWorkspace placed k (w\<lparr>wl_browserTabs := bs\<rparr>))"
    if "tab_fresh m (lt_id ?t)" "placed = fst (placeContentTab m k ?t q dirty ctx)" "w = workspaceOrEmpty placed k" for placed k q dirty w bs
    unfolding that(3) by (rule data_good) (simp_all add: that(2) placeContentTab_good [OF ok that(1)])
  show ?thesis
  proof (cases "if truthy (ob_browserTabId c) then takenBrowserTabIds m (ob_workspace c) (browser_tab_id c ctx) ?b ?p else None")
    case None
    then have "tab_fresh m (lt_id ?t)" using fresh untaken by (auto split: if_splits)
    note N = new [OF this refl refl]
    show ?thesis
      unfolding openBrowserTab_def Let_def browser_tab_id_def [symmetric] None option.case by (simp add: N)
  next
    case (Some r)
    then have "ensures (good X) r" using taken by (auto split: if_splits)
    then show ?thesis unfolding openBrowserTab_def Let_def browser_tab_id_def [symmetric] Some option.case .
  qed
qed

section \<open>The group created with a tab\<close>

lemma filled_group_ok:
  assumes ok: "model_okE (X(k := insert g (X k))) n" and v: "ws_find n k = Some v"
    and x: "x \<in> set (wl_groups v)" "lg_id x = g" "lg_tabOrder x \<noteq> []"
  shows "model_okE X n"
proof -
  have okv: "ws_ok (insert g (X k)) v" using model_okED(2) [OF ok v] by simp
  have "distinct (map lg_id (wl_groups v))" using ws_okD(2) [OF okv] by (simp add: groups_ok_def)
  then have "lg_tabOrder e \<noteq> []" if "e \<in> set (wl_groups v)" "lg_id e = g" for e
    using group_id_unique that x by metis
  then have "ws_ok (X k) v" using okv by (auto simp: ws_ok_def groups_ok_def)
  with ok v show ?thesis unfolding model_okE_def by (metis fun_upd_apply option.inject)
qed

lemma openInNewGroup_good:
  assumes ok: "model_okE X m"
    and opens: "\<And>X n. model_okE X n \<Longrightarrow> (\<And>i. tab_fresh m i \<Longrightarrow> tab_fresh n i) \<Longrightarrow> (\<And>l. pane_fresh m l \<Longrightarrow> pane_fresh n l) \<Longrightarrow>
      ensures (good X) (open_tab n)"
  shows "ensures (good X) (openInNewGroup m k i gid split open_tab)"
proof -
  have same: "ensures (good X) (open_tab m)" by (rule opens [OF ok])
  let ?w = "workspaceOrEmpty m k"
  note okw = ws_ok_here [OF ok, of k]
  note D = ws_okD [OF okw]
  let ?grown = "\<lambda>g l. ?w\<lparr>wl_groups := wl_groups ?w @ [\<lparr>lg_id = g, lg_tabOrder = []\<rparr>], wl_groupLayout := l\<rparr>"
  have grown: "ensures (good X) (case open_tab (withWorkspace m k (?grown g l)) of Inl code \<Rightarrow> Inl code
      | Inr a \<Rightarrow> if (case ws_find (al_model a) k of None \<Rightarrow> False
            | Some v \<Rightarrow> \<exists>x\<in>set (wl_groups v). lg_id x = g \<and> lg_tabOrder x \<noteq> [])
          then Inr a else applied m (al_result a) [] [] [])"
    if g: "group_named (wl_groups ?w) g = None" and l: "tree_ok l (wl_groups ?w @ [\<lparr>lg_id = g, lg_tabOrder = []\<rparr>])" for g l
  proof -
    have "g \<notin> lg_id ` set (wl_groups ?w)" using g by (auto simp: group_named_def find_None_iff)
    then have "groups_ok (insert g (X k)) (wl_groups ?w @ [\<lparr>lg_id = g, lg_tabOrder = []\<rparr>]) (tab_ids ?w)"
      using D(2) by (auto simp: groups_ok_def)
    note S = ws_step_regroup [OF okw this l, of "{}" "{}"]
    have "model_okE (X(k := insert g (X k))) (withWorkspace m k (?grown g l))" by (rule model_okE_with [OF ok S]) simp_all
    from opens [OF this] fresh_step [OF S]
    have E: "ensures (good (X(k := insert g (X k)))) (open_tab (withWorkspace m k (?grown g l)))" by blast
    show ?thesis
    proof (cases "open_tab (withWorkspace m k (?grown g l))")
      case (Inr a)
      with E have a: "model_okE (X(k := insert g (X k))) (al_model a)" by (simp add: good_def)
      have "model_okE X (al_model a)" if "ws_find (al_model a) k = Some v" "\<exists>x\<in>set (wl_groups v). lg_id x = g \<and> lg_tabOrder x \<noteq> []" for v
        using filled_group_ok [OF a that(1)] that(2) by blast
      with Inr ok show ?thesis by (cases "ws_find (al_model a) k") (simp_all add: good_def)
    qed simp
  qed
  have beside: "tree_ok (Some u) (wl_groups ?w @ [\<lparr>lg_id = g, lg_tabOrder = []\<rparr>])"
    if g: "group_named (wl_groups ?w) g = None" and b: "group_named (wl_groups ?w) b \<noteq> None"
      and u: "moveGroupLeafBesideBranch (case wl_groupLayout ?w of Some t \<Rightarrow> t | None \<Rightarrow> Leaf_node b) g b e side = Some u" for g b e side u
  proof -
    have "b \<in> lg_id ` set (wl_groups ?w)" using b by (auto simp: group_named_def find_None_iff)
    from tree_ok_default [OF D(3) this]
    have "tree_ok (Some (case wl_groupLayout ?w of Some t \<Rightarrow> t | None \<Rightarrow> Leaf_node b)) (wl_groups ?w)" by (simp add: option.case_eq_if)
    moreover have "g \<notin> lg_id ` set (wl_groups ?w)" using g by (auto simp: group_named_def find_None_iff)
    ultimately show ?thesis using u by (rule moveGroupLeafBesideBranch_ok)
  qed
  have first: "tree_ok (wl_groupLayout ?w) (wl_groups ?w @ [\<lparr>lg_id = g, lg_tabOrder = []\<rparr>])" if "wl_groups ?w = []" for g
    using that okw ws_shape_empty_groups unfolding ws_ok_shape by (auto simp: tree_ok_def [of None])
  have tree: "tree_ok (case (if group_named (wl_groups ?w) b \<noteq> None \<and> group_named (wl_groups ?w) e \<noteq> None
          then moveGroupLeafBesideBranch (case wl_groupLayout ?w of Some t \<Rightarrow> t | None \<Rightarrow> Leaf_node b) g b e side else None) of
        Some t \<Rightarrow> Some t | None \<Rightarrow> wl_groupLayout ?w) (wl_groups ?w @ [\<lparr>lg_id = g, lg_tabOrder = []\<rparr>])"
    if g: "\<not> group_named (wl_groups ?w) g \<noteq> None"
      and none: "\<not> (\<not> (group_named (wl_groups ?w) b \<noteq> None \<and> group_named (wl_groups ?w) e \<noteq> None) \<and> wl_groups ?w \<noteq> [])"
      and some: "\<not> ((group_named (wl_groups ?w) b \<noteq> None \<and> group_named (wl_groups ?w) e \<noteq> None) \<and>
        (if group_named (wl_groups ?w) b \<noteq> None \<and> group_named (wl_groups ?w) e \<noteq> None
         then moveGroupLeafBesideBranch (case wl_groupLayout ?w of Some t \<Rightarrow> t | None \<Rightarrow> Leaf_node b) g b e side else None) = None)"
    for b e g side
  proof (cases "group_named (wl_groups ?w) b \<noteq> None \<and> group_named (wl_groups ?w) e \<noteq> None")
    case False
    then have "wl_groups ?w = []" using none by blast
    from first [OF this] show ?thesis unfolding if_not_P [OF False] by simp
  next
    case True
    then have b: "group_named (wl_groups ?w) b \<noteq> None" by blast
    have g': "group_named (wl_groups ?w) g = None" using g by blast
    show ?thesis
    proof (cases "moveGroupLeafBesideBranch (case wl_groupLayout ?w of Some t \<Rightarrow> t | None \<Rightarrow> Leaf_node b) g b e side")
      case None
      with some True show ?thesis by simp
    next
      case (Some u)
      from beside [OF g' b Some] show ?thesis unfolding if_P [OF True] Some by simp
    qed
  qed
  show ?thesis
  proof (cases split)
    case None
    with same show ?thesis by (simp add: openInNewGroup_def)
  next
    case (Some s)
    show ?thesis
      unfolding openInNewGroup_def Let_def Some option.case
      by (intro ensures_if same good_refuse grown tree) (blast | assumption)+
  qed
qed

end
