(* ===== verification/Layout_Relocate.thy ===== *)
theory Layout_Relocate
  imports Layout_Contents
begin

text \<open>
  Moving editor tabs to another workspace and the renames of open files keep the invariant.
\<close>

section \<open>Tabs taken out of the source\<close>

lemma editor_leaves: "is_editor_tab t \<Longrightarrow> tab_leaves t = []"
  by (auto simp: is_editor_tab_def tab_leaves_def is_terminal_def split: tab_body.splits)

lemma withoutTab_tabs [simp]: "wl_tabs (withoutTab w i) = filter (\<lambda>t. lt_id t \<noteq> i) (wl_tabs w)"
  by (simp add: withoutTab_def removeTabFromWorkspace_def Let_def split: prod.splits)

lemma withoutTab_step:
  assumes ok: "ws_ok E w" and t: "t \<in> set (wl_tabs w)" "tab_leaves t = []"
  shows "ws_step E {} {} w (withoutTab w (lt_id t))"
proof -
  have "ws_step E {} {} w ((removeTabFromWorkspace w (lt_id t))\<lparr>wl_leaves := wl_leaves w\<rparr>)"
    by (rule removeTab_step [OF ok t(1)]) (simp add: t(2) ws_okD(5) [OF ok])
  moreover have "(removeTabFromWorkspace w i)\<lparr>wl_leaves := wl_leaves w\<rparr> = removeTabFromWorkspace w i" for i
    by (simp add: removeTabFromWorkspace_def split: prod.splits)
  ultimately have "ws_step E {} {} w (removeTabFromWorkspace w (lt_id t))" by simp
  then show ?thesis unfolding withoutTab_def Let_def by (rule ws_step_data) simp_all
qed

lemma without_tabs_step:
  assumes "ws_ok E w" and "set ts \<subseteq> set (wl_tabs w)" and "\<And>t. t \<in> set ts \<Longrightarrow> tab_leaves t = []"
    and "distinct (map lt_id ts)"
  shows "ws_step E {} {} w (foldl (\<lambda>s t. withoutTab s (lt_id t)) w ts) \<and>
    wl_tabs (foldl (\<lambda>s t. withoutTab s (lt_id t)) w ts) = filter (\<lambda>e. lt_id e \<notin> lt_id ` set ts) (wl_tabs w)"
  using assms
proof (induction ts arbitrary: w)
  case Nil
  then show ?case by (simp add: ws_step_refl)
next
  case (Cons t ts)
  let ?v = "withoutTab w (lt_id t)"
  have S: "ws_step E {} {} w ?v" using Cons.prems by (intro withoutTab_step) auto
  then have okv: "ws_ok E ?v" by (simp add: ws_step_def)
  have "lt_id e \<noteq> lt_id t" if "e \<in> set ts" for e using Cons.prems(4) that by (auto simp: image_iff)
  then have "set ts \<subseteq> set (wl_tabs ?v)" using Cons.prems(2) by auto
  from Cons.IH [OF okv this] Cons.prems(3,4) S show ?case
    by (auto intro: ws_step_trans simp: conj_commute)
qed

section \<open>The plan of a move\<close>

definition new_id :: "layout_tab \<times> workspace_move_tab \<Rightarrow> string" where
  "new_id x = wm_newTabId (snd x)"

lemma plan_ok:
  assumes "foldE (plan_step own m source) mvs p = Inr q"
    and "distinct (map wm_tabId mvs)" and "distinct (map wm_newTabId mvs)"
  shows "\<exists>ms fs. pl_moves q = pl_moves p @ ms \<and> pl_folds q = pl_folds p @ fs \<and>
    (\<forall>(t, mv)\<in>set ms. t \<in> set (wl_tabs source) \<and> is_editor_tab t \<and> lt_id t = wm_tabId mv \<and> mv \<in> set mvs \<and>
       \<not> held_by_other m (wm_newTabId mv) t) \<and>
    (\<forall>t\<in>set fs. t \<in> set (wl_tabs source) \<and> is_editor_tab t \<and> lt_id t \<in> wm_tabId ` set mvs) \<and>
    distinct (map lt_id (fs @ map fst ms)) \<and> distinct (map new_id ms) \<and>
    (pl_shown p = [] \<longrightarrow> mvs \<noteq> [] \<longrightarrow> ms \<noteq> [])"
  using assms
proof (induction mvs arbitrary: p)
  case Nil
  then show ?case by simp
next
  case (Cons mv mvs)
  from Cons.prems(1) obtain r where r: "plan_step own m source mv p = Inr r" "foldE (plan_step own m source) mvs r = Inr q"
    by (auto simp: bindE_Inr_iff)
  have "distinct (map wm_tabId mvs)" "distinct (map wm_newTabId mvs)" using Cons.prems(2,3) by simp_all
  from Cons.IH [OF r(2) this] obtain ms fs where I:
    "pl_moves q = pl_moves r @ ms" "pl_folds q = pl_folds r @ fs"
    "\<forall>(t, mv)\<in>set ms. t \<in> set (wl_tabs source) \<and> is_editor_tab t \<and> lt_id t = wm_tabId mv \<and> mv \<in> set mvs \<and>
       \<not> held_by_other m (wm_newTabId mv) t"
    "\<forall>t\<in>set fs. t \<in> set (wl_tabs source) \<and> is_editor_tab t \<and> lt_id t \<in> wm_tabId ` set mvs"
    "distinct (map lt_id (fs @ map fst ms))" "distinct (map new_id ms)"
    by (elim exE conjE)
  from r(1) obtain t where t: "findTab source (wm_tabId mv) = Some t" "is_editor_tab t"
    and c: "pl_moves r = pl_moves p \<and> pl_folds r = pl_folds p @ [t] \<and> pl_shown p \<noteq> [] \<or>
      pl_moves r = pl_moves p @ [(t, mv)] \<and> pl_folds r = pl_folds p \<and> \<not> held_by_other m (wm_newTabId mv) t"
    unfolding plan_step_def by (cases "pl_shown p = []") (auto simp: Let_def split: option.splits if_splits)
  from findTab_SomeD [OF t(1)] have tin: "t \<in> set (wl_tabs source)" "lt_id t = wm_tabId mv" by blast+
  have out: "wm_tabId mv \<notin> wm_tabId ` set mvs" "wm_newTabId mv \<notin> wm_newTabId ` set mvs" using Cons.prems(2,3) by auto
  have new: "\<forall>e\<in>set fs. lt_id e \<noteq> lt_id t" "\<forall>y\<in>set ms. lt_id (fst y) \<noteq> lt_id t \<and> new_id y \<noteq> wm_newTabId mv"
  proof -
    show "\<forall>e\<in>set fs. lt_id e \<noteq> lt_id t" using I(4) out(1) tin(2) by metis
    show "\<forall>y\<in>set ms. lt_id (fst y) \<noteq> lt_id t \<and> new_id y \<noteq> wm_newTabId mv"
    proof
      fix y assume "y \<in> set ms"
      with I(3) have "lt_id (fst y) = wm_tabId (snd y)" "snd y \<in> set mvs" by (cases y, auto)+
      with out tin(2) show "lt_id (fst y) \<noteq> lt_id t \<and> new_id y \<noteq> wm_newTabId mv"
        unfolding new_id_def by (metis image_eqI)
    qed
  qed
  from c show ?case
  proof (elim disjE conjE)
    assume k: "pl_moves r = pl_moves p" "pl_folds r = pl_folds p @ [t]" "pl_shown p \<noteq> []"
    show ?thesis
      using I k t(2) tin new by (intro exI [of _ ms] exI [of _ "t # fs"] conjI) (auto simp: image_iff)
  next
    assume k: "pl_moves r = pl_moves p @ [(t, mv)]" "pl_folds r = pl_folds p" "\<not> held_by_other m (wm_newTabId mv) t"
    show ?thesis
      using I k t(2) tin new by (intro exI [of _ "(t, mv) # ms"] exI [of _ fs] conjI) (auto simp: image_iff new_id_def [of "(t, mv)"])
  qed
qed

section \<open>Tabs moved one by one\<close>

lemma rest_apart: "S \<subseteq> insert a T \<Longrightarrow> a \<notin> A \<Longrightarrow> insert a A \<inter> T = {} \<Longrightarrow> A \<inter> S = {}"
  by blast

lemma move_one_source: "fst (move_one k g ctx (s, t) x) = withoutTab s (lt_id (fst x))"
  by (simp add: move_one_def Let_def split: prod.splits)

lemma move_one_target:
  "\<exists>p. same_frame (placeNewTab t k ((fst x)\<lparr>lt_id := wm_newTabId (snd x), lt_entityId := wm_newEntityId (snd x)\<rparr>) p ctx)
      (snd (move_one k g ctx (s, t) x)) \<and>
    wl_leaves (snd (move_one k g ctx (s, t) x)) =
      wl_leaves (placeNewTab t k ((fst x)\<lparr>lt_id := wm_newTabId (snd x), lt_entityId := wm_newEntityId (snd x)\<rparr>) p ctx)"
  by (rule exI [of _ "\<lparr>tp_groupId = Some g, tp_afterTabId = None,
      tp_index = Some (int (case group_named (wl_groups t) g of None \<Rightarrow> 0 | Some g \<Rightarrow> length (lg_tabOrder g)))\<rparr>"])
    (simp add: move_one_def Let_def split: prod.splits option.splits, simp add: same_frame_def)

lemma moves_source:
  "fst (foldl (move_one k g ctx) (s, t) ms) = foldl (\<lambda>s t. withoutTab s (lt_id t)) s (map fst ms)"
proof (induction ms arbitrary: s t)
  case (Cons x ms)
  obtain s' t' where "move_one k g ctx (s, t) x = (s', t')" by (cases "move_one k g ctx (s, t) x")
  with Cons move_one_source [of k g ctx s t x] show ?case by simp
qed simp

lemma moves_target:
  assumes "ws_ok E t" and "\<And>x. x \<in> set ms \<Longrightarrow> tab_leaves (fst x) = []" and "distinct (map new_id ms)"
    and "new_id ` set ms \<inter> set (tab_ids t) = {}"
  shows "ws_step E (new_id ` set ms) {} t (snd (foldl (move_one k g ctx) (s, t) ms))"
  using assms
proof (induction ms arbitrary: s t)
  case Nil
  then show ?case by (simp add: ws_step_refl)
next
  case (Cons x ms)
  obtain s' t' where st: "move_one k g ctx (s, t) x = (s', t')" by (cases "move_one k g ctx (s, t) x")
  let ?u = "(fst x)\<lparr>lt_id := wm_newTabId (snd x), lt_entityId := wm_newEntityId (snd x)\<rparr>"
  from move_one_target [where t = t and k = k and x = x and ctx = ctx and s = s and g = g] obtain p where p: "same_frame (placeNewTab t k ?u p ctx) t'"
    "wl_leaves t' = wl_leaves (placeNewTab t k ?u p ctx)" unfolding st by auto
  have "ws_step E {new_id x} {} t (placeNewTab t k ?u p ctx)"
    using placeNewTab_step [OF Cons.prems(1), of ?u k p ctx] Cons.prems(2,4) by (simp add: new_id_def)
  from ws_step_data [OF this p] have S: "ws_step E {new_id x} {} t t'" .
  then have ok': "ws_ok E t'" by (simp add: ws_step_def)
  have "set (tab_ids t') \<subseteq> insert (new_id x) (set (tab_ids t))" using S by (simp add: ws_step_def)
  moreover have "new_id x \<notin> new_id ` set ms" using Cons.prems(3) by simp
  ultimately have "new_id ` set ms \<inter> set (tab_ids t') = {}"
    by (rule rest_apart) (use Cons.prems(4) in simp)
  from Cons.IH [OF ok' _ _ this] Cons.prems(2,3)
  have "ws_step E (new_id ` set ms) {} t' (snd (foldl (move_one k g ctx) (s', t') ms))" by simp
  from ws_step_trans [OF ws_step_mono [OF S order_refl, of "new_id ` set (x # ms)" "{}"]
      ws_step_mono [OF this order_refl, of "new_id ` set (x # ms)" "{}"]]
  show ?case by (auto simp: st)
qed

lemma moves_target_first:
  assumes ok: "ws_ok E t" and "\<And>x. x \<in> set ms \<Longrightarrow> tab_leaves (fst x) = []" and "distinct (map new_id ms)"
    and "new_id ` set ms \<inter> set (tab_ids t) = {}" and "ms \<noteq> []"
    and only: "wl_groups t = [\<lparr>lg_id = i, lg_tabOrder = []\<rparr>]"
  shows "ws_step (E - {i}) (new_id ` set ms) {} t (snd (foldl (move_one k g ctx) (s, t) ms))"
proof -
  obtain x ns where ms: "ms = x # ns" using assms(5) by (cases ms) auto
  obtain s' t' where st: "move_one k g ctx (s, t) x = (s', t')" by (cases "move_one k g ctx (s, t) x")
  let ?u = "(fst x)\<lparr>lt_id := wm_newTabId (snd x), lt_entityId := wm_newEntityId (snd x)\<rparr>"
  from move_one_target [where t = t and k = k and x = x and ctx = ctx and s = s and g = g] obtain p where p: "same_frame (placeNewTab t k ?u p ctx) t'"
    "wl_leaves t' = wl_leaves (placeNewTab t k ?u p ctx)" unfolding st by auto
  have "ws_step (E - {i}) {new_id x} {} t (placeNewTab t k ?u p ctx)"
    using placeNewTab_only [OF ok, of ?u i k p ctx] assms(2,4) only by (simp add: ms new_id_def)
  from ws_step_data [OF this p] have S: "ws_step (E - {i}) {new_id x} {} t t'" .
  then have ok': "ws_ok (E - {i}) t'" by (simp add: ws_step_def)
  have "set (tab_ids t') \<subseteq> insert (new_id x) (set (tab_ids t))" using S by (simp add: ws_step_def)
  moreover have "new_id x \<notin> new_id ` set ns" using assms(3) by (simp add: ms)
  ultimately have "new_id ` set ns \<inter> set (tab_ids t') = {}"
    by (rule rest_apart) (use assms(4) ms in simp)
  from moves_target [OF ok' _ _ this] assms(2,3)
  have "ws_step (E - {i}) (new_id ` set ns) {} t' (snd (foldl (move_one k g ctx) (s', t') ns))" by (simp add: ms)
  from ws_step_trans [OF ws_step_mono [OF S order_refl, of "new_id ` set ms" "{}"]
      ws_step_mono [OF this order_refl, of "new_id ` set ms" "{}"]]
  show ?thesis by (auto simp: st ms)
qed

section \<open>The move\<close>

lemma moveTabToWorkspace_good:
  assumes ok: "model_okE X m"
  shows "ensures (good X) (moveTabToWorkspace m c ctx)"
proof (rule ensuresI)
  fix a assume R: "moveTabToWorkspace m c ctx = Inr a"
  let ?own = "lc_owner ctx" and ?from = "wm_workspace c" and ?to = "wm_toWorkspace c" and ?g = "wm_groupId c"
  let ?target = "workspaceOrEmpty m ?to"
  let ?p = "\<lparr>pl_shown = shownFiles ?own ?target ?g, pl_moves = [], pl_folds = [], pl_landed = ?g\<rparr>"
  let ?target1 = "if group_named (wl_groups ?target) ?g = None then ?target\<lparr>wl_groups := [\<lparr>lg_id = ?g, lg_tabOrder = []\<rparr>]\<rparr> else ?target"
  from R obtain source q where c: "?from \<noteq> ?to" "wm_tabs c \<noteq> []" "distinct (map wm_tabId (wm_tabs c))" "distinct (map wm_newTabId (wm_tabs c))"
    "ws_find m ?from = Some source" "foldE (plan_step ?own m source) (wm_tabs c) ?p = Inr q"
    "group_named (wl_groups ?target) ?g = None \<Longrightarrow> wl_groups ?target = []"
    and am: "\<exists>s t. (case wm_file c of None \<Rightarrow> foldl (move_one ?to ?g ctx) (foldl (\<lambda>s t. withoutTab s (lt_id t)) source (pl_folds q), ?target1) (pl_moves q)
        | Some f \<Rightarrow> move_editor_file ?own f (foldl (move_one ?to ?g ctx) (foldl (\<lambda>s t. withoutTab s (lt_id t)) source (pl_folds q), ?target1) (pl_moves q))) = (s, t) \<and>
        al_model a = withWorkspace (withWorkspace m ?from s) ?to t"
    unfolding moveTabToWorkspace_def Let_def refuse_def applied_def
    by (auto split: if_splits option.splits sum.splits prod.splits)
  from plan_ok [OF c(6,3,4)] obtain ms fs where P: "pl_moves q = ms" "pl_folds q = fs"
    "\<forall>(t, mv)\<in>set ms. t \<in> set (wl_tabs source) \<and> is_editor_tab t \<and> lt_id t = wm_tabId mv \<and> mv \<in> set (wm_tabs c) \<and>
       \<not> held_by_other m (wm_newTabId mv) t"
    "\<forall>t\<in>set fs. t \<in> set (wl_tabs source) \<and> is_editor_tab t \<and> lt_id t \<in> wm_tabId ` set (wm_tabs c)"
    "distinct (map lt_id (fs @ map fst ms))" "distinct (map new_id ms)"
    "shownFiles ?own ?target ?g = [] \<longrightarrow> wm_tabs c \<noteq> [] \<longrightarrow> ms \<noteq> []"
    by auto
  define s1 where "s1 = foldl (\<lambda>s t. withoutTab s (lt_id t)) source (pl_folds q)"
  define st where "st = foldl (move_one ?to ?g ctx) (s1, ?target1) ms"
  have ms: "\<And>x. x \<in> set ms \<Longrightarrow> fst x \<in> set (wl_tabs source) \<and> tab_leaves (fst x) = []"
    using P(3) editor_leaves by fastforce
  have only: "e = fst x" if "x \<in> set ms" "ws_find m k = Some v" "e \<in> set (wl_tabs v)" "lt_id e = new_id x" for x k v e
    using P(3) that ws_find_in [OF that(2)] by (fastforce simp: held_by_other_def new_id_def)
  note okS = model_okED(2) [OF ok c(5)]
  have S: "ws_step (X ?from) {} {} source (fst st) \<and>
      wl_tabs (fst st) = filter (\<lambda>e. lt_id e \<notin> lt_id ` set (fs @ map fst ms)) (wl_tabs source)"
    unfolding st_def s1_def moves_source P(2) foldl_append [symmetric]
    by (rule without_tabs_step [OF okS _ _ P(5)]) (use P(4) ms editor_leaves in auto)
  note okT = ws_ok_here [OF ok, of ?to]
  have other: "new_id ` set ms \<inter> set (tab_ids ?target) = {}"
  proof -
    have "new_id x \<notin> set (tab_ids ?target)" if x: "x \<in> set ms" for x
    proof
      assume "new_id x \<in> set (tab_ids ?target)"
      then obtain v e where v: "ws_find m ?to = Some v" "e \<in> set (wl_tabs v)" "lt_id e = new_id x"
        by (auto simp: workspaceOrEmpty_def tab_ids_def empty_workspace_def split: option.splits)
      from only [OF x v] ms [OF x] v(2) have "fst x \<in> set (wl_tabs v)" "fst x \<in> set (wl_tabs source)" by simp_all
      then have "lt_id (fst x) \<in> set (tab_ids v)" "lt_id (fst x) \<in> set (tab_ids source)" by (simp_all add: tab_ids_def)
      with model_okED(3) [OF ok v(1) c(5)] c(1) show False by (auto simp: apart_def)
    qed
    then show ?thesis by blast
  qed
  have T: "ws_step (X ?to) (new_id ` set ms) {} ?target (snd st)"
  proof (cases "group_named (wl_groups ?target) ?g = None")
    case False
    then show ?thesis unfolding st_def using moves_target [OF okT _ P(6) other] ms by auto
  next
    case True
    let ?t1 = "?target\<lparr>wl_groups := [\<lparr>lg_id = ?g, lg_tabOrder = []\<rparr>]\<rparr>"
    have F: "ws_step {?g} (new_id ` set ms) {} ?target ?t1" by (rule first_group_step [OF okT c(7) [OF True]])
    then have ok1: "ws_ok {?g} ?t1" by (simp add: ws_step_def)
    have "shownFiles ?own ?target ?g = []" using True by (simp add: shownFiles_def fromEntries_def)
    with P(7) c(2) have ne: "ms \<noteq> []" by blast
    have "new_id ` set ms \<inter> set (tab_ids ?t1) = {}" using other by (simp add: tab_ids_def)
    from moves_target_first [OF ok1 _ P(6) this ne] ms
    have "ws_step ({?g} - {?g}) (new_id ` set ms) {} ?t1 (snd st)" unfolding st_def using True by simp
    from ws_step_mono [OF ws_step_trans [OF F this], of "X ?to"] show ?thesis by simp
  qed
  from am obtain s t where fin: "al_model a = withWorkspace (withWorkspace m ?from s) ?to t"
    and fr: "same_frame (fst st) s" "wl_leaves s = wl_leaves (fst st)" "same_frame (snd st) t" "wl_leaves t = wl_leaves (snd st)"
  proof -
    from am obtain s t where st': "(case wm_file c of None \<Rightarrow> st | Some f \<Rightarrow> move_editor_file ?own f st) = (s, t)"
      "al_model a = withWorkspace (withWorkspace m ?from s) ?to t" unfolding st_def s1_def P(1) by blast
    have "same_frame (fst st) s \<and> wl_leaves s = wl_leaves (fst st) \<and> same_frame (snd st) t \<and> wl_leaves t = wl_leaves (snd st)"
      using st'(1) by (cases st) (auto simp: move_editor_file_def Let_def same_frame_def tab_ids_def pane_ids_def split: option.splits)
    with st'(2) that show thesis by blast
  qed
  have W: "workspaceOrEmpty m ?from = source" by (rule workspaceOrEmpty_Some [OF c(5)])
  have S': "ws_step (X ?from) {} {} (workspaceOrEmpty m ?from) s" using ws_step_data [OF _ fr(1,2)] S W by simp
  have ok1: "model_okE X (withWorkspace m ?from s)" by (rule model_okE_own [OF ok S'])
  have T': "ws_step (X ?to) (new_id ` set ms) {} (workspaceOrEmpty (withWorkspace m ?from s) ?to) t"
    using ws_step_data [OF T fr(3,4)] c(1) by simp
  have "tab_fresh (withWorkspace m ?from s) i" if "i \<in> new_id ` set ms" for i
    unfolding tab_fresh_def
  proof (intro allI impI notI)
    fix k v assume v: "ws_find (withWorkspace m ?from s) k = Some v" and i: "i \<in> set (tab_ids v)"
    from \<open>i \<in> new_id ` set ms\<close> obtain x where x: "x \<in> set ms" "i = new_id x" by blast
    show False
    proof (cases "k = ?from")
      case True
      with v fr(1) i have "i \<in> set (tab_ids (fst st))" by (simp add: same_frame_def)
      then obtain e where "e \<in> set (wl_tabs (fst st))" "lt_id e = i" by (auto simp: tab_ids_def)
      with S have e: "e \<in> set (wl_tabs source)" "lt_id e = i" "lt_id e \<notin> lt_id ` set (fs @ map fst ms)" by simp_all
      from only [OF x(1) c(5) e(1)] e(2) x(2) have "e = fst x" by simp
      with e(3) x(1) show False by auto
    next
      case False
      with v have v': "ws_find m k = Some v" by simp
      from i obtain e where e: "e \<in> set (wl_tabs v)" "lt_id e = new_id x" by (auto simp: tab_ids_def x(2))
      from only [OF x(1) v' e] ms [OF x(1)] e(1) have "fst x \<in> set (wl_tabs v)" "fst x \<in> set (wl_tabs source)" by simp_all
      then have "lt_id (fst x) \<in> set (tab_ids v)" "lt_id (fst x) \<in> set (tab_ids source)" by (simp_all add: tab_ids_def)
      with model_okED(3) [OF ok v' c(5) False] show False by (auto simp: apart_def)
    qed
  qed
  from model_okE_keeps [OF ok1 T' this] show "good X a" by (simp add: good_def fin)
qed

section \<open>Renames of open files\<close>

lemma fromEntries_distinct: "distinct (map fst (acc @ es)) \<Longrightarrow> foldl (\<lambda>r (k, v). AList.update k v r) acc es = acc @ es"
proof (induction es arbitrary: acc)
  case (Cons e es)
  have "AList.update (fst e) (snd e) acc = acc @ [e]"
    using Cons.prems by (induction acc) (auto simp: image_iff)
  with Cons.IH [of "acc @ [e]"] Cons.prems show ?case by (simp add: case_prod_beta)
qed simp

lemma fromEntries_id: "distinct (map fst es) \<Longrightarrow> fromEntries es = es"
  using fromEntries_distinct [of "[]" es] by (simp add: fromEntries_def)

lemma fromEntries_keys: "distinct (map fst (fromEntries es))"
proof -
  have "distinct (map fst acc) \<Longrightarrow> distinct (map fst (foldl (\<lambda>r (k, v). AList.update k v r) acc es))" for acc
    by (induction es arbitrary: acc) (auto simp: distinct_update)
  then show ?thesis by (simp add: fromEntries_def)
qed

lemma map_of_inj: "distinct (map snd r) \<Longrightarrow> map_of r a = Some x \<Longrightarrow> map_of r b = Some x \<Longrightarrow> a = b"
  by (auto dest!: map_of_SomeD simp: distinct_map inj_on_def) (metis prod.inject snd_conv)

text \<open>The ids the renames give the tabs of a workspace, and the tabs they name.\<close>

lemma renamed_tab_ids_map:
  assumes "distinct (map lt_id ts)"
  shows "map_of (renamed_tab_ids ids ts) i = Some j \<longleftrightarrow>
    (\<exists>t\<in>set ts. is_editor_tab t \<and> lt_id t = i \<and> renamed_id ids i = j \<and> j \<noteq> i)"
proof -
  let ?es = "map (\<lambda>t. (lt_id t, renamed_id ids (lt_id t))) (filter (\<lambda>t. is_editor_tab t \<and> renamed_id ids (lt_id t) \<noteq> lt_id t) ts)"
  have d: "distinct (map fst ?es)" using assms by (simp add: comp_def distinct_map_filter)
  then have "renamed_tab_ids ids ts = ?es" unfolding renamed_tab_ids_def by (rule fromEntries_id)
  with map_of_eq_Some_iff [OF d, of i j] show ?thesis by auto
qed

lemma rename_tab_id:
  assumes "distinct (map lt_id ts)" and "t \<in> set ts"
  shows "lt_id (rename_tab ids (renamed_tab_ids ids ts) t) = renamed_id (renamed_tab_ids ids ts) (lt_id t)"
proof -
  let ?r = "renamed_tab_ids ids ts"
  have "map_of ?r (lt_id t) = None" if "\<not> is_editor_tab t"
  proof (rule ccontr)
    assume "map_of ?r (lt_id t) \<noteq> None"
    then obtain e where "e \<in> set ts" "is_editor_tab e" "lt_id e = lt_id t" using renamed_tab_ids_map [OF assms(1)] by blast
    with assms that show False by (metis distinct_map inj_on_def)
  qed
  then show ?thesis by (auto simp: rename_tab_def renamed_id_def [of ?r] split: option.splits)
qed

lemma rename_tab_leaves [simp]: "tab_leaves (rename_tab ids tabIds t) = tab_leaves t"
  by (simp add: rename_tab_def)

lemma renamed_id_inj:
  assumes d: "distinct (map lt_id ts)" and targets: "distinct (map snd ids)"
    and free: "\<And>i. i \<in> lt_id ` set ts \<Longrightarrow> i \<in> snd ` set (renamed_tab_ids ids ts) \<Longrightarrow> map_of (renamed_tab_ids ids ts) i \<noteq> None"
  shows "inj_on (renamed_id (renamed_tab_ids ids ts)) (lt_id ` set ts)"
proof (rule inj_onI)
  let ?r = "renamed_tab_ids ids ts"
  fix a b assume a: "a \<in> lt_id ` set ts" and b: "b \<in> lt_id ` set ts" and e: "renamed_id ?r a = renamed_id ?r b"
  have val: "y \<in> snd ` set ?r" if "map_of ?r x = Some y" for x y using map_of_SomeD [OF that] by force
  have key: "map_of ids x = Some y" if "map_of ?r x = Some y" for x y
    using that unfolding renamed_tab_ids_map [OF d] by (auto simp: renamed_id_def split: option.splits)
  consider "map_of ?r a = None" "map_of ?r b = None" | y where "map_of ?r a = None" "map_of ?r b = Some y"
    | x where "map_of ?r a = Some x" "map_of ?r b = None" | x y where "map_of ?r a = Some x" "map_of ?r b = Some y"
    by (cases "map_of ?r a"; cases "map_of ?r b") auto
  then show "a = b"
  proof cases
    case 1
    with e show ?thesis by (simp add: renamed_id_def)
  next
    case (2 y)
    with e have "a = y" by (simp add: renamed_id_def)
    with val [OF 2(2)] free [OF a] 2(1) show ?thesis by simp
  next
    case (3 x)
    with e have "b = x" by (simp add: renamed_id_def)
    with val [OF 3(1)] free [OF b] 3(2) show ?thesis by simp
  next
    case (4 x y)
    with e have "x = y" by (simp add: renamed_id_def)
    with key [OF 4(1)] key [OF 4(2)] show ?thesis using map_of_inj [OF targets] by blast
  qed
qed

lemma listed_map_ids:
  assumes "\<And>i. listed gs i = count_list ids i" and "map lg_tabOrder gs' = map (\<lambda>g. map f (lg_tabOrder g)) gs"
  shows "listed gs' i = count_list (map f ids) i"
proof -
  have "orders gs' = map f (orders gs)" unfolding orders_def assms(2) by (simp add: map_concat comp_def)
  moreover have "mset (orders gs) = mset ids" using assms(1) orders_eq_iff by blast
  ultimately have "mset (orders gs') = mset (map f ids)" by simp
  then show ?thesis using orders_eq_iff by blast
qed

lemma renameInWorkspace_good:
  assumes ok: "model_okE X m" and R: "renameInWorkspace m k rs = Inr (m', r)"
  shows "model_okE X m'"
proof -
  define ids where "ids = rename_ids rs"
  from R obtain w where w: "ws_find m k = Some w" by (auto simp: renameInWorkspace_def split: option.splits)
  define tabIds where "tabIds = renamed_tab_ids ids (wl_tabs w)"
  let ?f = "renamed_id tabIds"
  let ?tabs = "map (rename_tab ids tabIds) (wl_tabs w)"
  let ?gs = "map (\<lambda>g. if \<exists>i\<in>set (lg_tabOrder g). map_of tabIds i \<noteq> None
      then g\<lparr>lg_tabOrder := map ?f (lg_tabOrder g)\<rparr> else g) (wl_groups w)"
  let ?w = "w\<lparr>wl_tabs := ?tabs, wl_groups := ?gs, wl_editorViews := renamed_views rs tabIds ?tabs (wl_editorViews w),
      wl_editorFiles := renamedEditorFiles (wl_editorFiles w) rs (map lt_entityId ?tabs)\<rparr>"
  from R w have targets: "distinct (map snd ids)"
    and free: "\<And>v t. v \<in> set (workspaces_of m) \<Longrightarrow> t \<in> set (wl_tabs v) \<Longrightarrow> lt_id t \<in> snd ` set tabIds \<Longrightarrow> map_of tabIds (lt_id t) \<noteq> None"
    and m': "m' = withWorkspace m k ?w"
    unfolding renameInWorkspace_def Let_def ids_def [symmetric] tabIds_def
    by (auto simp: ids_def [symmetric] split: if_splits)
  note okw = model_okED(2) [OF ok w]
  note D = ws_okD [OF okw]
  have d: "distinct (map lt_id (wl_tabs w))" using D(1) by (simp add: tab_ids_def)
  have ids': "tab_ids ?w = map ?f (tab_ids w)"
    using rename_tab_id [OF d] by (simp add: tab_ids_def tabIds_def)
  have inj: "inj_on ?f (set (tab_ids w))"
  proof -
    have "map_of tabIds i \<noteq> None" if "i \<in> lt_id ` set (wl_tabs w)" "i \<in> snd ` set tabIds" for i
      using that free [OF ws_find_in [OF w]] by blast
    from renamed_id_inj [OF d targets this [unfolded tabIds_def]] show ?thesis by (simp add: tabIds_def tab_ids_def)
  qed
  have same: "map ?f xs = xs" if "\<not> (\<exists>i\<in>set xs. map_of tabIds i \<noteq> None)" for xs
    using that by (auto intro!: map_idI simp: renamed_id_def)
  have orders: "map lg_tabOrder ?gs = map (\<lambda>g. map ?f (lg_tabOrder g)) (wl_groups w)" using same by auto
  have gids: "map lg_id ?gs = map lg_id (wl_groups w)" by simp
  have "groups_ok (X k) ?gs (tab_ids ?w)"
    unfolding groups_ok_def
  proof (intro conjI allI ballI impI)
    show "distinct (map lg_id ?gs)" unfolding gids using D(2) by (simp add: groups_ok_def)
    show "listed ?gs i = count_list (tab_ids ?w) i" for i
      unfolding ids' by (rule listed_map_ids [OF _ orders]) (use D(2) in \<open>simp add: groups_ok_def\<close>)
    show "lg_id g \<in> X k" if "g \<in> set ?gs" "lg_tabOrder g = []" for g
      using that D(2) by (auto simp: groups_ok_def split: if_splits)
  qed
  moreover have "tree_ok (wl_groupLayout w) ?gs"
    using D(3) same_group_ids [OF gids] unfolding tree_ok_def by (cases "wl_groupLayout w") simp_all
  moreover have panes: "pane_ids ?w = pane_ids w" by (simp add: pane_ids_tab_leaves comp_def)
  moreover have "distinct (tab_ids ?w)" unfolding ids' using D(1) inj by (simp add: distinct_map)
  ultimately have okw': "ws_ok (X k) ?w" using D(4,5) by (simp add: ws_ok_def)
  define F where "F = set (tab_ids ?w) - set (tab_ids w)"
  have W: "workspaceOrEmpty m k = w" by (rule workspaceOrEmpty_Some [OF w])
  have S: "ws_step (X k) F {} (workspaceOrEmpty m k) ?w" using okw' unfolding ws_step_def W panes F_def by blast
  have fresh: "tab_fresh m i" if "i \<in> F" for i
    unfolding tab_fresh_def
  proof (intro allI impI notI)
    fix k' v assume v: "ws_find m k' = Some v" and i: "i \<in> set (tab_ids v)"
    from that obtain j where j: "j \<in> set (tab_ids w)" "i = ?f j" and new: "i \<notin> set (tab_ids w)" unfolding F_def ids' by auto
    then have "map_of tabIds j = Some i" by (auto simp: renamed_id_def split: option.splits)
    then have "i \<in> snd ` set tabIds" by (force dest: map_of_SomeD)
    moreover obtain t where t: "t \<in> set (wl_tabs v)" "lt_id t = i" using i by (auto simp: tab_ids_def)
    ultimately obtain y where "map_of tabIds i = Some y" using free [OF ws_find_in [OF v] t(1)] by auto
    then have "i \<in> set (tab_ids w)" using renamed_tab_ids_map [OF d] by (auto simp: tabIds_def tab_ids_def)
    with new show False by blast
  qed
  show ?thesis unfolding m' by (rule model_okE_keeps [OF ok S fresh]) blast+
qed

lemma renameEditorFiles_good:
  assumes "model_okE X m"
  shows "ensures (good X) (renameEditorFiles m k rs also_in)"
proof -
  have parts: "model_okE X m \<Longrightarrow> rename_parts parts m acc = Inr (m', ids) \<Longrightarrow> model_okE X m'" for parts m acc m' ids
    by (induction parts m acc rule: rename_parts.induct)
      (auto split: sum.splits prod.splits dest: renameInWorkspace_good)
  show ?thesis unfolding renameEditorFiles_def Let_def
    by (auto simp del: rename_parts.simps split: sum.splits dest: parts [OF assms])
qed

end
