(* ===== verification/Layout_Kept.thy ===== *)
theory Layout_Kept
  imports Layout_Relocate
begin

text \<open>
  The facts of the runtime keep the invariant too, and so does every command applied as a whole; a layout
  reached from an empty one by commands and facts is well formed.
\<close>

section \<open>Facts of the runtime\<close>

lemma updateLegacy_ok [simp]: "model_okE X (updateLegacyPersistence b a r) = model_okE X a"
  by (rule model_okE_cong) simp

lemma findTerminalTab_SomeD:
  assumes ok: "model_okE X m" and f: "findTerminalTab m i = Some (k, t)"
  shows "\<exists>w. ws_find m k = Some w \<and> t \<in> set (wl_tabs w) \<and> is_terminal t"
proof -
  from find_map_SomeD [OF f [unfolded findTerminalTab_def]] obtain w where
    w: "(k, w) \<in> set (lm_workspaces m)" "t \<in> set (wl_tabs w)" "is_terminal t"
    by (auto dest: find_SomeD)
  from w(1) model_okED(1) [OF ok] have "ws_find m k = Some w" by (simp add: ws_find_def)
  with w show ?thesis by blast
qed

lemma exited_pane:
  assumes ok: "model_okE X m" and L: "locateExitedSurface m s = Located k t"
  shows "t \<in> set (wl_tabs (workspaceOrEmpty m k))" "is_terminal t" "es_leafId s \<in> set (tab_leaves t)"
proof -
  from L have f: "findTerminalTab m (es_terminalTabId s) = Some (k, t)"
    and l: "layoutContainsLeafId (lp_root (tab_panes t)) (es_leafId s)"
    unfolding locateExitedSurface_def by (auto simp: Let_def split: option.splits if_splits)
  from findTerminalTab_SomeD [OF ok f] obtain w where "ws_find m k = Some w" "t \<in> set (wl_tabs w)" "is_terminal t" by blast
  then show "t \<in> set (wl_tabs (workspaceOrEmpty m k))" and "is_terminal t" by (simp_all add: workspaceOrEmpty_Some)
  with l show "es_leafId s \<in> set (tab_leaves t)"
    by (auto simp: tab_leaves_terminal layoutContainsLeafId_def node_contains_iff split: option.splits)
qed

lemma applyProcessExit_good:
  assumes ok: "model_okE X m"
  shows "ensures (good X) (applyProcessExit m s f)"
proof (cases "locateExitedSurface m s")
  case (Located k t)
  note P = exited_pane [OF ok Located]
  have "es_leafId s \<in> set (pane_ids (workspaceOrEmpty m k))" using tab_leaves_subset [OF P(1)] P(3) by blast
  with setLeaf_good [OF ok this] retire_good [OF ok P] ok Located show ?thesis
    by (auto simp: applyProcessExit_def Let_def split: exit_verdict.splits)
qed (simp_all add: applyProcessExit_def ok)

lemma processStarted_good:
  assumes ok: "model_okE X m"
  shows "ensures (good X) (processStarted m k key pty inc)"
proof (cases "Option.bind (ws_find m k) (\<lambda>w. locatePane w key)")
  case None
  then show ?thesis by (simp add: processStarted_def)
next
  case (Some x)
  obtain t l where x: "x = (t, l)" by (cases x)
  from Some obtain w where w: "ws_find m k = Some w" "locatePane w key = Some (t, l)"
    unfolding x by (auto simp: Option.bind_eq_Some_conv)
  have W: "workspaceOrEmpty m k = w" by (rule workspaceOrEmpty_Some [OF w(1)])
  have "l \<in> set (pane_ids (workspaceOrEmpty m k))" using locatePane_SomeD [OF w(2)] W by simp
  note S = setLeaf_good [OF ok this]
  have "leaf_ok (leaf_or_empty (workspaceOrEmpty m k) l)" using ok by simp
  then show ?thesis
    unfolding processStarted_def Let_def Some x option.case prod.case
    by (auto intro!: S split: option.splits)
qed

lemma lease_step_step:
  assumes ok: "ws_ok E w"
  shows "ws_step E {} {} w (foldl (lease_step ptys) w (wl_leaves w))"
proof (rule foldl_leaf_step [OF ok])
  fix v x assume x: "x \<in> set (wl_leaves w)"
  then have "fst x \<in> set (pane_ids w)" "leaf_ok (snd x)" using ws_okD(5) [OF ok] by (auto simp: leaves_ok_def)
  moreover have "leaf_ok ((snd x)\<lparr>lf_ptyId := None\<rparr>)" using calculation(2) by simp
  moreover have "lease_step ptys v x = v \<or> lease_step ptys v x = setLeaf v (fst x) ((snd x)\<lparr>lf_ptyId := None\<rparr>)"
    by (simp add: lease_step_def split: option.splits)
  ultimately show "lease_step ptys v x = v \<or>
      (\<exists>l y. l \<in> set (pane_ids w) \<and> lease_step ptys v x = setLeaf v l y \<and> (ws_ok E v \<longrightarrow> leaf_ok y))" by blast
qed

lemma sshLeaseTerminated_good:
  assumes ok: "model_okE X m"
  shows "ensures (good X) (sshLeaseTerminated m ptys)"
proof -
  let ?f = "\<lambda>n (k, w). let updated = foldl (lease_step ptys) w (wl_leaves w) in if updated = w then n else withWorkspace n k updated"
  have "model_okE X (foldl ?f n xs)" if "model_okE X n" "distinct (map fst xs)" "\<And>k w. (k, w) \<in> set xs \<Longrightarrow> ws_find n k = Some w" for n xs
    using that
  proof (induction xs arbitrary: n)
    case Nil
    then show ?case by simp
  next
    case (Cons x xs)
    obtain k w where x: "x = (k, w)" by (cases x)
    then have w: "ws_find n k = Some w" using Cons.prems(3) by simp
    note S = lease_step_step [OF model_okED(2) [OF Cons.prems(1) w], of ptys]
    have "model_okE X (?f n (k, w))"
      using Cons.prems(1) model_okE_own [OF Cons.prems(1), of k] S workspaceOrEmpty_Some [OF w] by (auto simp: Let_def)
    moreover have "ws_find (?f n (k, w)) k' = Some w'" if "(k', w') \<in> set xs" for k' w'
    proof -
      have "k' \<noteq> k" using Cons.prems(2) that by (auto simp: x image_iff)
      with Cons.prems(3) [of k' w'] that show ?thesis by (simp add: Let_def)
    qed
    ultimately show ?case using Cons.IH [of "?f n x"] Cons.prems(2) by (simp add: x del: foldl.simps) (simp add: x)
  qed
  from this [OF ok model_okED(1) [OF ok]] model_okED(1) [OF ok]
  show ?thesis by (simp add: sshLeaseTerminated_def ws_find_def)
qed

lemma removeWorkspaces_good:
  assumes "model_okE X m"
  shows "model_okE X (removeWorkspaces m ks)"
proof -
  have "ws_find m k = Some w" if "ws_find (removeWorkspaces m ks) k = Some w" for k w
  proof -
    have "(k, w) \<in> set (lm_workspaces m)"
      using map_of_SomeD [OF that [unfolded ws_find_def]] by (auto simp: removeWorkspaces_def)
    with model_okED(1) [OF assms] show ?thesis by (simp add: ws_find_def)
  qed
  moreover have "distinct (map fst (lm_workspaces (removeWorkspaces m ks)))"
    using model_okED(1) [OF assms] by (simp add: removeWorkspaces_def distinct_map_filter)
  ultimately show ?thesis using assms unfolding model_okE_def by blast
qed

lemma renameWorkspace_good:
  assumes ok: "model_okE (\<lambda>_. E) m" and R: "renameWorkspace m a b = Some n"
  shows "model_okE (\<lambda>_. E) n"
proof (cases "ws_find m a = None \<or> a = b")
  case True
  with R ok show ?thesis by (auto simp: renameWorkspace_def split: option.splits)
next
  case False
  then obtain w where w: "ws_find m a = Some w" and ab: "a \<noteq> b" by auto
  let ?w = "w\<lparr>wl_worktreeId := renamed_key a b (wl_worktreeId w)\<rparr>"
  from R w ab have none: "ws_find m b = None"
    and n: "lm_workspaces n = AList.delete a (AList.update b ?w (lm_workspaces m))"
    by (auto simp: renameWorkspace_def split: if_splits)
  have F: "ws_find n k = (if k = a then None else if k = b then Some ?w else ws_find m k)" for k
    using ab by (simp add: ws_find_def n delete_conv' update_conv')
  have ids: "tab_ids ?w = tab_ids w" "pane_ids ?w = pane_ids w" by (simp_all add: tab_ids_def pane_ids_def)
  have "ws_ok E ?w" using model_okED(2) [OF ok w] same_frame_ok [of w ?w E] by simp
  moreover have "apart ?w v" if "ws_find m k = Some v" "k \<noteq> a" for k v
    using model_okED(3) [OF ok w that(1)] that(2) ids by (auto simp: apart_def)
  moreover have "distinct (map fst (lm_workspaces n))"
    unfolding n using model_okED(1) [OF ok] by (simp add: distinct_delete distinct_update)
  ultimately show ?thesis
    unfolding model_okE_def F using model_okED(2,3) [OF ok] apart_sym
    by (auto split: if_splits)
qed

lemma applyLayoutTransition_good:
  assumes ok: "model_okE (\<lambda>_. E) m"
  shows "ensures (good (\<lambda>_. E)) (applyLayoutTransition m tr)"
proof -
  have "ensures (good (\<lambda>_. E)) (applyTransition m tr)"
    using processStarted_good [OF ok] sshLeaseTerminated_good [OF ok] removeWorkspaces_good [OF ok] applyProcessExit_good [OF ok]
      renameWorkspace_good [OF ok]
    by (cases tr) (auto simp: applyTransition_def split: option.splits)
  then have "ensures (good (\<lambda>_. E)) (bindE (applyTransition m tr)
      (\<lambda>a. Inr (a\<lparr>al_model := updateLegacyPersistence m (al_model a) []\<rparr>)))"
    by (cases "applyTransition m tr") (simp_all add: good_def)
  with applyProcessExit_good [OF ok] show ?thesis
    unfolding applyLayoutTransition_def by (cases tr) simp_all
qed

section \<open>Commands\<close>

text \<open>
  The ids a command brings that the code takes on trust: minted ones, those of a created terminal tab and
  its pane, and content tab ids where no check refuses a used one.
\<close>

definition ids_unused :: "layout_model \<Rightarrow> layout_context \<Rightarrow> layout_command \<Rightarrow> bool" where
  "ids_unused m ctx cmd =
     (case cmd of
        CreateTerminalTab c \<Rightarrow> tab_fresh m (created_tab_id c ctx) \<and> pane_fresh m (created_leaf_id c ctx)
      | SplitPane p d r l \<Rightarrow> pane_fresh m (case l of Some x \<Rightarrow> x | None \<Rightarrow> lc_mintLeafId ctx)
      | SplitGroup k i g s \<Rightarrow> lc_mintId ctx Mint_split_group \<notin> lg_id ` set (wl_groups (workspaceOrEmpty m k))
      | MovePaneToNewTab c \<Rightarrow> tab_fresh m (moved_tab_id c ctx)
      | OpenEditorTab c \<Rightarrow> truthy (oe_tabId c) \<or> tab_fresh m (lc_mintId ctx Mint_content_tab)
      | OpenSimulatorTab c \<Rightarrow> os_tabId c \<noteq> [] \<or> tab_fresh m []
      | OpenAgentSessionTab c \<Rightarrow> truthy (oa_tabId c) \<and> lc_owner ctx \<or> tab_fresh m (content_tab_id ctx (oa_tabId c))
      | OpenBrowserTab c \<Rightarrow> truthy (ob_browserTabId c) \<or> tab_fresh m (browser_tab_id c ctx)
      | ApplyDefaultTabs k ts \<Rightarrow> default_tabs_fresh m ts
      | _ \<Rightarrow> True)"

lemma opens_good:
  assumes ok: "model_okE X m" and new: "ids_unused m ctx cmd"
    and cmd: "cmd \<in> {CreateTerminalTab c1, OpenEditorTab c2, OpenSimulatorTab c3, OpenBrowserTab c4, OpenAgentSessionTab c5}"
  shows "ensures (good X) (run_command m cmd ctx)"
  using cmd new unfolding run_command_def
  by (elim insertE emptyE;
      simp only: layout_command.case ids_unused_def;
      intro openInNewGroup_good [OF ok] createTerminalTab_cases(1) openEditorTab_good openSimulatorTab_good
        openBrowserTab_good openAgentSessionTab_good;
      blast)

lemma run_command_good:
  assumes ok: "model_okE X m" and new: "ids_unused m ctx cmd"
  shows "ensures (good X) (run_command m cmd ctx)"
proof (cases "\<exists>c1 c2 c3 c4 c5. cmd \<in> {CreateTerminalTab c1, OpenEditorTab c2, OpenSimulatorTab c3, OpenBrowserTab c4, OpenAgentSessionTab c5}")
  case True
  then show ?thesis using opens_good [OF ok new] by blast
next
  case False
  then show ?thesis
    using new unfolding ids_unused_def
    by (cases cmd)
      (auto simp: run_command_def ok splitPane_good closePane_good closeTabs_good moveTab_good splitGroup_good
        setGroupRatios_good setPaneRatios_good movePane_good equalizePanes_good movePaneToNewTab_good renameTab_good
        renamePane_good setPaneGrid_good releasePaneTerminal_good setTabProps_good setChatPane_good
        promotePreviewTab_good moveTabToWorkspace_good renameEditorFiles_good browser_pages_good
        startPane_good restartPane_good sleep_good wake_good setDefaultTabsApplied_good applyDefaultTabs_good)
qed

lemma applyCommand_good:
  assumes "model_okE X m" and "ids_unused m ctx cmd"
  shows "ensures (good X) (applyCommand m cmd ctx)"
  unfolding applyCommand_def
  using run_command_good [OF assms] assms(1) by (auto split: layout_command.split)

lemma applyLayoutCommand_good:
  assumes "model_okE X m" and "ids_unused m ctx cmd"
  shows "ensures (good X) (applyLayoutCommand m cmd ctx)"
proof -
  have "model_okE X (runDroppedLeafStep own b a now) = model_okE X a" for own b a now
    by (rule model_okE_cong) simp
  with applyCommand_good [OF assms] show ?thesis
    unfolding applyLayoutCommand_def by (cases "applyCommand m cmd ctx") (auto simp: good_def Let_def)
qed

section \<open>Reached layouts\<close>

definition empty_layout :: "string \<Rightarrow> layout_model" where
  "empty_layout host = \<lparr>lm_hostId = host, lm_workspaces = [],
     lm_records = \<lparr>rc_defaultTabsApplied = [], rc_clientHostedPages = [], rc_closedPanes = []\<rparr>,
     lm_legacy = \<lparr>lpe_terminalRowOwners = [], lpe_topologyRevision = []\<rparr>\<rparr>"

inductive layout_step :: "layout_model \<Rightarrow> layout_model \<Rightarrow> bool" where
  command_step: "ids_unused m ctx cmd \<Longrightarrow> applyLayoutCommand m cmd ctx = Inr a \<Longrightarrow> layout_step m (al_model a)"
| transition_step: "applyLayoutTransition m tr = Inr a \<Longrightarrow> layout_step m (al_model a)"

inductive layout_reached :: "layout_model \<Rightarrow> bool" where
  reached_empty: "layout_reached (empty_layout host)"
| reached_step: "layout_reached m \<Longrightarrow> layout_step m n \<Longrightarrow> layout_reached n"

lemma layout_step_ok:
  assumes "model_ok m" and "layout_step m n"
  shows "model_ok n"
  using assms(2)
proof (cases rule: layout_step.cases)
  case (command_step ctx cmd a)
  then show ?thesis using applyLayoutCommand_good [OF assms(1) [unfolded model_ok_def]] by (force simp: model_ok_def good_def)
next
  case (transition_step tr a)
  then show ?thesis using applyLayoutTransition_good [OF assms(1) [unfolded model_ok_def], of tr] by (simp add: model_ok_def good_def)
qed

lemma layout_reached_ok: "layout_reached m \<Longrightarrow> model_ok m"
  by (induction rule: layout_reached.induct)
    (simp_all add: layout_step_ok, simp add: model_ok_def model_okE_def empty_layout_def ws_find_def)

text \<open>
  Terminals and panes: the panes a terminal is shown by, what a started terminal does to them, and the
  record of panes that were dropped.
\<close>

section \<open>Who shows a terminal\<close>

definition pane_binding :: "workspace_layout \<Rightarrow> string \<Rightarrow> string option \<times> string option" where
  "pane_binding w l = (leaf_pty w l, lf_incarnationId (leaf_or_empty w l))"

lemma sorted_wrt_keys:
  assumes "distinct (map f xs)" and "\<And>x y. R x y \<longleftrightarrow> R y x"
  shows "sorted_wrt R xs \<longleftrightarrow> (\<forall>x\<in>set xs. \<forall>y\<in>set xs. f x \<noteq> f y \<longrightarrow> R x y)"
  using assms(1)
proof (induction xs)
  case (Cons x xs)
  then have "f x \<noteq> f y \<and> f y \<noteq> f x" if "y \<in> set xs" for y using that by (force simp: image_iff)
  moreover have "sorted_wrt R xs \<longleftrightarrow> (\<forall>x\<in>set xs. \<forall>y\<in>set xs. f x \<noteq> f y \<longrightarrow> R x y)" using Cons by simp
  moreover have "(\<forall>y\<in>set xs. R y x) \<longleftrightarrow> (\<forall>y\<in>set xs. R x y)" using assms(2) by blast
  ultimately show ?case by (simp add: ball_conj_distrib cong: ball_cong)
qed simp

lemma workspace_owners_set:
  "{(po_leafId x, owner_binding x) | x. x \<in> set (workspace_owners h w)} = {(l, pane_binding w l) | l. l \<in> set (pane_ids w)}"
  unfolding workspace_owners_def pane_ids_def owner_binding_def pane_binding_def by force

lemma paneOwners_bindings:
  assumes "distinct (map fst (lm_workspaces m))"
  shows "{(po_leafId x, owner_binding x) | x. x \<in> set (paneOwners m)} =
    {(l, pane_binding w l) | k w l. ws_find m k = Some w \<and> l \<in> set (pane_ids w)}"
proof -
  have "{(po_leafId x, owner_binding x) | x. x \<in> set (paneOwners m)} =
      (\<Union>w\<in>set (workspaces_of m). {(po_leafId x, owner_binding x) | x. x \<in> set (workspace_owners (lm_hostId m) w)})"
    unfolding paneOwners_def by auto
  also have "\<dots> = (\<Union>w\<in>set (workspaces_of m). {(l, pane_binding w l) | l. l \<in> set (pane_ids w)})"
    unfolding workspace_owners_set ..
  also have "\<dots> = {(l, pane_binding w l) | k w l. ws_find m k = Some w \<and> l \<in> set (pane_ids w)}"
  proof -
    have "w \<in> set (workspaces_of m) \<longleftrightarrow> (\<exists>k. ws_find m k = Some w)" for w
      using ws_find_members [OF assms, of "\<lambda>v. v \<noteq> w"] by auto
    then show ?thesis by (simp add: set_eq_iff) blast
  qed
  finally show ?thesis .
qed

text \<open>The condition of the check, by panes: two panes never have the same terminal.\<close>

definition shown_once :: "layout_model \<Rightarrow> bool" where
  "shown_once m =
     (\<forall>k w l k' w' l'. ws_find m k = Some w \<longrightarrow> l \<in> set (pane_ids w) \<longrightarrow> ws_find m k' = Some w' \<longrightarrow> l' \<in> set (pane_ids w') \<longrightarrow>
        l \<noteq> l' \<longrightarrow> \<not> isSameTerminal (pane_binding w l) (pane_binding w' l'))"

lemma model_ok_panes_distinct:
  assumes ok: "model_ok m"
  shows "distinct (concat (map pane_ids (workspaces_of m)))"
  unfolding concat_workspaces distinct_concat_keyed [OF model_okD(1) [OF ok], folded ws_find_def]
  by (intro conjI allI impI)
    (erule ws_okD(4) [OF model_okD(2) [OF ok]], use model_okD(3) [OF ok] in \<open>auto simp: apart_def\<close>)

lemma terminals_ok_shown_once:
  assumes ok: "model_ok m"
  shows "terminals_ok m \<longleftrightarrow> shown_once m"
proof -
  let ?B = "{(po_leafId x, owner_binding x) | x. x \<in> set (paneOwners m)}"
  have d: "distinct (map po_leafId (paneOwners m))" unfolding paneOwners_leaves by (rule model_ok_panes_distinct [OF ok])
  have "terminals_ok m \<longleftrightarrow> (\<forall>x\<in>set (paneOwners m). \<forall>y\<in>set (paneOwners m). po_leafId x \<noteq> po_leafId y \<longrightarrow>
      \<not> isSameTerminal (owner_binding x) (owner_binding y))"
    unfolding terminals_ok_def by (rule sorted_wrt_keys [OF d]) (simp add: isSameTerminal_sym)
  also have "\<dots> \<longleftrightarrow> (\<forall>a\<in>?B. \<forall>b\<in>?B. fst a \<noteq> fst b \<longrightarrow> \<not> isSameTerminal (snd a) (snd b))"
    by (simp add: Setcompr_eq_image)
  also have "\<dots> \<longleftrightarrow> shown_once m" unfolding paneOwners_bindings [OF model_okD(1) [OF ok]] shown_once_def
    by (simp only: Ball_def mem_Collect_eq) (metis fst_conv snd_conv)
  finally show ?thesis .
qed

section \<open>A started terminal\<close>

lemma pane_binding_setLeaf:
  "pane_binding (setLeaf w l x) l' = (if l' = l then (lf_ptyId x, lf_incarnationId x) else pane_binding w l')"
  by (simp add: pane_binding_def leaf_pty_def leaf_or_empty_setLeaf)

lemma not_bound_elsewhere:
  assumes "\<not> boundElsewhere m l b" and w: "ws_find m k = Some w" and "l' \<noteq> l" and "isSameTerminal (pane_binding w l') b"
  shows False
proof (cases "leaf_at w l'")
  case None
  with assms(4) show False by (simp add: isSameTerminal_def pane_binding_def leaf_pty_def leaf_or_empty_def empty_leaf_def)
next
  case (Some x)
  then have "(l', x) \<in> set (wl_leaves w)" by (simp add: leaf_at_def map_of_SomeD)
  moreover have "w \<in> set (workspaces_of m)" using w unfolding ws_find_def workspaces_of_def by (force dest: map_of_SomeD)
  moreover have "pane_binding w l' = (lf_ptyId x, lf_incarnationId x)"
    using Some by (simp add: pane_binding_def leaf_pty_def leaf_or_empty_def)
  ultimately show False using assms(1,3,4) unfolding boundElsewhere_def by fastforce
qed

lemma processStarted_once:
  assumes ok: "model_ok m" and once: "shown_once m"
    and R: "processStarted m k key pty inc = Inr a"
    and w: "ws_find m k = Some w" and loc: "locatePane w key = Some (t, l)"
    and known: "inc \<noteq> None \<or> lf_incarnationId (leaf_or_empty w l) = None"
  shows "shown_once (al_model a)" and "pane_binding (workspaceOrEmpty (al_model a) k) l = (Some pty, inc)"
proof -
  let ?leaf = "(leaf_or_empty w l)\<lparr>lf_ptyId := Some pty\<rparr>"
  let ?x = "case inc of Some i \<Rightarrow> ?leaf\<lparr>lf_incarnationId := Some i\<rparr> | None \<Rightarrow> ?leaf"
  have free: "\<not> boundElsewhere m l (Some pty, inc)" and a: "al_model a = withWorkspace m k (setLeaf w l ?x)"
    using R w loc by (auto simp: processStarted_def refuse_def applied_def Let_def workspaceOrEmpty_Some split: if_splits)
  have b: "(lf_ptyId ?x, lf_incarnationId ?x) = (Some pty, inc)" using known by (cases inc) simp_all
  show "pane_binding (workspaceOrEmpty (al_model a) k) l = (Some pty, inc)"
    unfolding a by (simp add: pane_binding_setLeaf b)
  have panes: "pane_ids (setLeaf w l x) = pane_ids w" for x using setLeaf_frame [of w l x] by (simp add: same_frame_def)
  have view: "\<exists>v. ws_find m j = Some v \<and> l' \<in> set (pane_ids v) \<and> pane_binding u l' = pane_binding v l'"
    if "ws_find (al_model a) j = Some u" "l' \<in> set (pane_ids u)" "l' \<noteq> l" for j u l'
    using that w unfolding a by (auto simp: panes pane_binding_setLeaf split: if_splits)
  have here: "pane_binding u l = (Some pty, inc)" if "ws_find (al_model a) j = Some u" "l \<in> set (pane_ids u)" for j u
  proof (cases "j = k")
    case True
    with that(1) have "u = setLeaf w l ?x" unfolding a by simp
    then show ?thesis by (simp only: pane_binding_setLeaf b if_True simp_thms)
  next
    case False
    then have "ws_find m j = Some u" using that(1) unfolding a by simp
    with model_okD(3) [OF ok this w False] locatePane_SomeD [OF loc] that(2) show ?thesis by (auto simp: apart_def)
  qed
  show "shown_once (al_model a)"
    unfolding shown_once_def
  proof (intro allI impI notI)
    fix j u l1 j' u' l2
    assume 1: "ws_find (al_model a) j = Some u" "l1 \<in> set (pane_ids u)" and 2: "ws_find (al_model a) j' = Some u'" "l2 \<in> set (pane_ids u')"
      and ne: "l1 \<noteq> l2" and same: "isSameTerminal (pane_binding u l1) (pane_binding u' l2)"
    consider "l1 = l" "l2 \<noteq> l" | "l2 = l" "l1 \<noteq> l" | "l1 \<noteq> l" "l2 \<noteq> l" using ne by blast
    then show False
    proof cases
      case 1
      from view [OF 2 1(2)] obtain v where v: "ws_find m j' = Some v" "pane_binding u' l2 = pane_binding v l2" by blast
      have "isSameTerminal (pane_binding v l2) (Some pty, inc)"
        using same here \<open>ws_find (al_model a) j = Some u\<close> \<open>l1 \<in> set (pane_ids u)\<close> 1(1) v(2) by (simp add: isSameTerminal_sym)
      from not_bound_elsewhere [OF free v(1) 1(2) this] show False .
    next
      case 2
      from view [OF \<open>ws_find (al_model a) j = Some u\<close> \<open>l1 \<in> set (pane_ids u)\<close> 2(2)]
      obtain v where v: "ws_find m j = Some v" "pane_binding u l1 = pane_binding v l1" by blast
      have "isSameTerminal (pane_binding v l1) (Some pty, inc)"
        using same here \<open>ws_find (al_model a) j' = Some u'\<close> \<open>l2 \<in> set (pane_ids u')\<close> 2(1) v(2) by simp
      from not_bound_elsewhere [OF free v(1) 2(2) this] show False .
    next
      case 3
      from view [OF 1 3(1)] obtain v where v: "ws_find m j = Some v" "l1 \<in> set (pane_ids v)" "pane_binding u l1 = pane_binding v l1" by blast
      from view [OF 2 3(2)] obtain v' where v': "ws_find m j' = Some v'" "l2 \<in> set (pane_ids v')" "pane_binding u' l2 = pane_binding v' l2" by blast
      from once v v' ne same show False unfolding shown_once_def by metis
    qed
  qed
qed

section \<open>Dropped panes\<close>

lemma take_sorted:
  assumes "sorted_wrt R xs" and "x \<in> set (take n xs)" and "y \<in> set (drop n xs)"
  shows "R x y"
  using assms by (metis append_take_drop_id sorted_wrt_append)

lemma prune_closed_props:
  "length (prune_closed cl r now) \<le> 500" "sorted_wrt (\<lambda>x y. cl (snd y) \<le> cl (snd x)) (prune_closed cl r now)"
  "x \<in> set (prune_closed cl r now) \<Longrightarrow> x \<in> set r \<and> now - cl (snd x) \<le> closed_ttl_ms"
  "y \<in> set r \<Longrightarrow> now - cl (snd y) \<le> closed_ttl_ms \<Longrightarrow> y \<notin> set (prune_closed cl r now) \<Longrightarrow>
     length (prune_closed cl r now) = 500 \<and> (\<forall>x\<in>set (prune_closed cl r now). cl (snd y) \<le> cl (snd x))"
proof -
  let ?live = "filter (\<lambda>(k, x). now - cl x \<le> closed_ttl_ms) r" and ?key = "\<lambda>(k, x). - cl x"
  have S: "sorted_wrt (\<lambda>x y. cl (snd y) \<le> cl (snd x)) (sort_key ?key ?live)"
    using sorted_sort_key [of ?key ?live] by (simp add: sorted_map case_prod_unfold)
  have E: "prune_closed cl r now = take 500 (sort_key ?key ?live)" by (simp add: prune_closed_def max_closed_def)
  show "length (prune_closed cl r now) \<le> 500" by (simp add: E)
  show "sorted_wrt (\<lambda>x y. cl (snd y) \<le> cl (snd x)) (prune_closed cl r now)" unfolding E by (rule sorted_wrt_take [OF S])
  show "x \<in> set (prune_closed cl r now) \<Longrightarrow> x \<in> set r \<and> now - cl (snd x) \<le> closed_ttl_ms"
    unfolding E by (auto dest!: in_set_takeD)
  assume y: "y \<in> set r" "now - cl (snd y) \<le> closed_ttl_ms" "y \<notin> set (prune_closed cl r now)"
  have "y \<in> set (sort_key ?key ?live)" using y(1,2) by auto
  then have "y \<in> set (take 500 (sort_key ?key ?live)) \<union> set (drop 500 (sort_key ?key ?live))"
    by (metis append_take_drop_id set_append)
  with y(3) have d: "y \<in> set (drop 500 (sort_key ?key ?live))" by (simp add: E)
  then have "500 < length (sort_key ?key ?live)" by (metis drop_all list.set(1) empty_iff not_le)
  then show "length (prune_closed cl r now) = 500 \<and> (\<forall>x\<in>set (prune_closed cl r now). cl (snd y) \<le> cl (snd x))"
    using take_sorted [OF S _ d] by (simp add: E)
qed

end
