(* ===== verification/Layout_Board.thy ===== *)
theory Layout_Board
  imports Layout_Kept
begin

text \<open>
  The board of a workspace, what a user sees of its groups: the tabs each group lists, in order, a group
  without tabs being no group. Moving, splitting off, closing and creating a tab are two abstract
  operations on it: lifting a tab off and putting it at a place.
\<close>

definition order_in :: "layout_group list \<Rightarrow> string \<Rightarrow> string list" where
  "order_in gs g = (case group_named gs g of Some x \<Rightarrow> lg_tabOrder x | None \<Rightarrow> [])"

definition board :: "workspace_layout \<Rightarrow> string \<Rightarrow> string list" where
  "board w = order_in (wl_groups w)"

definition board_lift :: "string \<Rightarrow> (string \<Rightarrow> string list) \<Rightarrow> string \<Rightarrow> string list" where
  "board_lift i b = (\<lambda>g. filter (\<lambda>j. j \<noteq> i) (b g))"

definition board_put :: "string \<Rightarrow> nat \<Rightarrow> string \<Rightarrow> (string \<Rightarrow> string list) \<Rightarrow> string \<Rightarrow> string list" where
  "board_put g n i b = b(g := insert_at n i (b g))"

section \<open>Orders of groups\<close>

lemma order_in_simps [simp]:
  "order_in [] g = []" "order_in (x # gs) g = (if lg_id x = g then lg_tabOrder x else order_in gs g)"
  by (simp_all add: order_in_def group_named_def)

lemma order_in_absent: "g \<notin> lg_id ` set gs \<Longrightarrow> order_in gs g = []"
  by (induction gs) auto

lemma order_in_member: "distinct (map lg_id gs) \<Longrightarrow> x \<in> set gs \<Longrightarrow> order_in gs (lg_id x) = lg_tabOrder x"
  by (induction gs) (auto simp: image_iff)

lemma order_in_put:
  "order_in (map (\<lambda>h. if lg_id h = j then h\<lparr>lg_tabOrder := order\<rparr> else h) gs) g =
     (if g = j \<and> j \<in> lg_id ` set gs then order else order_in gs g)"
  by (induction gs) auto

lemma order_in_moved:
  "order_in (moved_groups gs s target i (Some n)) g =
     (if g \<notin> lg_id ` set gs then []
      else if g = s then filter (\<lambda>j. j \<noteq> i) (order_in gs g)
      else if g = target then
        let order = filter (\<lambda>j. j \<noteq> i) (order_in gs g) in insert_at (clamp_index n (length order)) i order
      else order_in gs g)"
  by (induction gs) (auto simp: moved_groups_def Let_def)

lemma order_in_nonempty: "distinct (map lg_id gs) \<Longrightarrow> order_in (filter (\<lambda>x. lg_tabOrder x \<noteq> []) gs) g = order_in gs g"
proof (induction gs)
  case (Cons x gs)
  then show ?case using order_in_absent [of g "filter (\<lambda>x. lg_tabOrder x \<noteq> []) gs"] by auto
qed simp

lemma order_in_append: "g \<notin> lg_id ` set gs \<Longrightarrow> order_in (gs @ hs) g = order_in hs g"
  "g \<in> lg_id ` set gs \<Longrightarrow> order_in (gs @ hs) g = order_in gs g"
  by (induction gs) auto

text \<open>A tab of one group: lifting it off changes that group only.\<close>

lemma lift_only:
  assumes "listed gs i \<le> 1" and "distinct (map lg_id gs)" and "x \<in> set gs" "i \<in> set (lg_tabOrder x)"
  shows "board_lift i (order_in gs) g = (if g = lg_id x then filter (\<lambda>j. j \<noteq> i) (lg_tabOrder x) else order_in gs g)"
proof (cases "g \<in> lg_id ` set gs")
  case True
  then obtain y where y: "y \<in> set gs" "g = lg_id y" by blast
  have one: "listed gs i = 1" using assms(1) listed_pos [OF assms(3,4)] by simp
  show ?thesis
  proof (cases "y = x")
    case True
    with y assms(2,3) show ?thesis by (simp add: board_lift_def order_in_member)
  next
    case False
    then have "lg_id y \<noteq> lg_id x" using group_id_unique [OF assms(2) y(1) assms(3)] by blast
    moreover have "i \<notin> set (lg_tabOrder y)" using listed_one_owner [OF one assms(3,4) y(1)] False by blast
    ultimately show ?thesis using y assms(2) by (simp add: board_lift_def order_in_member filter_absent)
  qed
next
  case False
  then show ?thesis using assms(3) by (auto simp: board_lift_def order_in_absent)
qed

section \<open>The operations of the layout\<close>

lemma board_reorder:
  assumes "listed gs i \<le> 1" and d: "distinct (map lg_id gs)" and x: "x \<in> set gs" "i \<in> set (lg_tabOrder x)"
  shows "order_in (map (\<lambda>g. if lg_id g = lg_id x then g\<lparr>lg_tabOrder := reorder_tab (lg_tabOrder x) i n\<rparr> else g) gs) =
    board_put (lg_id x) (clamp_index n (length (board_lift i (order_in gs) (lg_id x)))) i (board_lift i (order_in gs))"
proof
  fix g
  have "lg_id x \<in> lg_id ` set gs" using x(1) by blast
  then show "order_in (map (\<lambda>g. if lg_id g = lg_id x then g\<lparr>lg_tabOrder := reorder_tab (lg_tabOrder x) i n\<rparr> else g) gs) g =
    board_put (lg_id x) (clamp_index n (length (board_lift i (order_in gs) (lg_id x)))) i (board_lift i (order_in gs)) g"
    by (simp add: order_in_put board_put_def lift_only [OF assms] reorder_tab_def Let_def)
qed

lemma board_move:
  assumes one: "listed gs i \<le> 1" and d: "distinct (map lg_id gs)"
    and build: "buildHeadlessTabGroupMove gs l i target (Some n) = Some (gs', l')"
  shows "order_in gs' = board_put target (clamp_index n (length (board_lift i (order_in gs) target))) i (board_lift i (order_in gs))"
proof
  fix g
  from build obtain x t where x: "group_of_tab gs i = Some x" "group_named gs target = Some t" "lg_id x \<noteq> target"
    and gs': "gs' = filter (\<lambda>g. lg_tabOrder g \<noteq> []) (moved_groups gs (lg_id x) target i (Some n))"
    unfolding buildHeadlessTabGroupMove_def by (auto simp: Let_def split: option.splits if_splits)
  have xin: "x \<in> set gs" "i \<in> set (lg_tabOrder x)" and tin: "target \<in> lg_id ` set gs"
    using group_of_tab_SomeD [OF x(1)] group_named_SomeD [OF x(2)] by auto
  note L = lift_only [OF one d xin]
  have "order_in gs' g = order_in (moved_groups gs (lg_id x) target i (Some n)) g"
    unfolding gs' using d by (intro order_in_nonempty) simp
  also have "\<dots> = board_put target (clamp_index n (length (board_lift i (order_in gs) target))) i (board_lift i (order_in gs)) g"
  proof (cases "g = target")
    case True
    with x(3) tin show ?thesis by (simp add: order_in_moved board_put_def board_lift_def Let_def)
  next
    case False
    then have "board_put target k i (board_lift i (order_in gs)) g = board_lift i (order_in gs) g" for k by (simp add: board_put_def)
    with False L [of g] show ?thesis
      using xin(1) by (auto simp: order_in_moved order_in_absent order_in_member [OF d xin(1)])
  qed
  finally show "order_in gs' g = \<dots>" .
qed

lemma board_split:
  assumes one: "listed gs i \<le> 1" and d: "distinct (map lg_id gs)" and new: "new \<notin> lg_id ` set gs"
    and build: "buildHeadlessTabGroupSplit gs l i target side new = Some (gs', t')"
  shows "order_in gs' = board_put new 0 i (board_lift i (order_in gs))"
proof
  fix g
  let ?drop = "\<lambda>x h. if lg_id h = lg_id x then h\<lparr>lg_tabOrder := filter (\<lambda>j. j \<noteq> i) (lg_tabOrder x)\<rparr> else h"
  from build obtain x where x: "group_of_tab gs i = Some x"
    and gs': "gs' = filter (\<lambda>g. lg_tabOrder g \<noteq> []) (map (?drop x) gs @ [\<lparr>lg_id = new, lg_tabOrder = [i]\<rparr>])"
    unfolding buildHeadlessTabGroupSplit_def by (auto simp: Let_def split: option.splits if_splits)
  have xin: "x \<in> set gs" "i \<in> set (lg_tabOrder x)" using group_of_tab_SomeD [OF x] by auto
  note L = lift_only [OF one d xin]
  have ids: "map lg_id (map (?drop x) gs) = map lg_id gs" by simp
  have dn: "distinct (map lg_id (map (?drop x) gs @ [\<lparr>lg_id = new, lg_tabOrder = [i]\<rparr>]))"
    unfolding map_append ids using d new by simp
  have old: "order_in (map (?drop x) gs) g = board_lift i (order_in gs) g"
    unfolding L order_in_put using xin(1) by (auto simp: order_in_absent)
  have "order_in gs' g = order_in (map (?drop x) gs @ [\<lparr>lg_id = new, lg_tabOrder = [i]\<rparr>]) g"
    unfolding gs' by (rule order_in_nonempty [OF dn])
  also have "\<dots> = board_put new 0 i (board_lift i (order_in gs)) g"
  proof (cases "g \<in> lg_id ` set gs")
    case True
    then have "g \<in> lg_id ` set (map (?drop x) gs)" using same_group_ids [OF ids] by simp
    with True new show ?thesis by (auto simp: order_in_append(2) old board_put_def)
  next
    case False
    then have "g \<notin> lg_id ` set (map (?drop x) gs)" using same_group_ids [OF ids] by simp
    moreover have "board_lift i (order_in gs) new = []" using new by (simp add: board_lift_def order_in_absent)
    ultimately show ?thesis using old False by (auto simp: order_in_append(1) board_put_def insert_at_def order_in_absent)
  qed
  finally show "order_in gs' g = \<dots>" .
qed

lemma board_remove:
  assumes d: "distinct (map lg_id (wl_groups w))"
  shows "board (removeTabFromWorkspace w i) = board_lift i (board w)"
proof
  fix g
  have "order_in (without_tab i gs) g = filter (\<lambda>j. j \<noteq> i) (order_in gs g)" if "distinct (map lg_id gs)" for gs
    using that
  proof (induction gs)
    case (Cons x gs)
    then show ?case
      using order_in_absent [of g gs] by (auto simp: without_tab_def filter_absent)
  qed (simp add: without_tab_def)
  moreover have "wl_groups (removeTabFromWorkspace w i) = without_tab i (wl_groups w)"
    using remove_from_groups_groups [of i "wl_groups w" "wl_groupLayout w"]
    by (auto simp: removeTabFromWorkspace_def Let_def split: prod.splits)
  ultimately show "board (removeTabFromWorkspace w i) g = board_lift i (board w) g"
    using d by (simp add: board_def board_lift_def)
qed

lemma board_pin [simp]: "board (withMovedPin w c) = board w"
  by (simp add: board_def withMovedPin_def split: option.splits)

lemma model_ok_groups:
  assumes "model_ok m"
  shows "distinct (map lg_id (wl_groups (workspaceOrEmpty m k)))" and "listed (wl_groups (workspaceOrEmpty m k)) i \<le> 1"
proof -
  note D = ws_okD [OF ws_ok_here [OF assms [unfolded model_ok_def], of k]]
  show "distinct (map lg_id (wl_groups (workspaceOrEmpty m k)))" using D(2) by (simp add: groups_ok_def)
  show "listed (wl_groups (workspaceOrEmpty m k)) i \<le> 1" by (rule groups_ok_listed [OF D(2,1)])
qed

text \<open>\<open>moveTab\<close> is the abstract move: lift the tab off the board, put it at the index the command names.\<close>

lemma moveTab_board:
  assumes ok: "model_ok m" and R: "moveTab own m c = Inr a"
  shows "let b = board_lift (mt_tabId c) (board (workspaceOrEmpty m (mt_workspace c)));
             there = b (mt_toGroupId c)
         in board (workspaceOrEmpty (al_model a) (mt_workspace c)) =
            board_put (mt_toGroupId c) (clamp_index (anchoredMoveIndex there c) (length there)) (mt_tabId c) b"
proof -
  let ?k = "mt_workspace c" let ?w = "workspaceOrEmpty m ?k"
  note G = model_ok_groups [OF ok, of ?k]
  from R obtain x t where x: "sourceGroupOf ?w (mt_tabId c) = Some x" and t: "group_named (wl_groups ?w) (mt_toGroupId c) = Some t"
    by (auto simp: moveTab_def refuse_def Let_def split: option.splits)
  have xin: "x \<in> set (wl_groups ?w)" "mt_tabId c \<in> set (lg_tabOrder x)" using sourceGroupOf_SomeD [OF x] by blast+
  have tin: "t \<in> set (wl_groups ?w)" "lg_id t = mt_toGroupId c" using group_named_SomeD [OF t] by blast+
  have there: "board_lift (mt_tabId c) (board ?w) (mt_toGroupId c) = filter (\<lambda>j. j \<noteq> mt_tabId c) (lg_tabOrder t)"
    using order_in_member [OF G(1) tin(1)] tin(2) by (simp add: board_lift_def board_def)
  let ?n = "anchoredMoveIndex (filter (\<lambda>j. j \<noteq> mt_tabId c) (lg_tabOrder t)) c"
  show ?thesis
  proof (cases "lg_id x = mt_toGroupId c")
    case True
    then have "al_model a = withWorkspace m ?k (withMovedPin (?w\<lparr>wl_groups :=
        map (\<lambda>g. if lg_id g = lg_id x then g\<lparr>lg_tabOrder := reorder_tab (lg_tabOrder x) (mt_tabId c) ?n\<rparr> else g) (wl_groups ?w)\<rparr>) c)"
      using R x t by (auto simp: moveTab_def Let_def applied_def)
    then show ?thesis using board_reorder [OF G(2,1) xin, of ?n] True there by (simp add: Let_def) (simp add: board_def)
  next
    case False
    with R x t obtain gs l where B: "buildHeadlessTabGroupMove (wl_groups ?w) (wl_groupLayout ?w) (mt_tabId c) (mt_toGroupId c) (Some ?n) = Some (gs, l)"
      and a: "al_model a = withWorkspace m ?k (withMovedPin (?w\<lparr>wl_groups := gs, wl_groupLayout := l\<rparr>) c)"
      by (auto simp: moveTab_def refuse_def applied_def Let_def split: option.splits if_splits)
    show ?thesis using board_move [OF G(2,1) B] there by (simp add: Let_def a) (simp add: board_def)
  qed
qed

text \<open>Splitting a group lifts its tab off and puts it in the new group; a group of one tab moves whole.\<close>

lemma splitGroup_board:
  assumes ok: "model_ok m" and new: "lc_mintId ctx Mint_split_group \<notin> lg_id ` set (wl_groups (workspaceOrEmpty m k))"
    and R: "splitGroup m k i beside side ctx = Inr a"
  shows "let b = board (workspaceOrEmpty m k); v = board (workspaceOrEmpty (al_model a) k) in
    (case sourceGroupOf (workspaceOrEmpty m k) i of
       Some x \<Rightarrow> if lg_tabOrder x = [i] \<and> lg_id x \<noteq> beside then v = b
         else v = board_put (lc_mintId ctx Mint_split_group) 0 i (board_lift i b)
     | None \<Rightarrow> False)"
proof -
  let ?w = "workspaceOrEmpty m k"
  note G = model_ok_groups [OF ok, of k]
  from R obtain x where x: "sourceGroupOf ?w i = Some x" by (auto simp: splitGroup_def refuse_def Let_def split: option.splits)
  have "length (lg_tabOrder x) = 1 \<longleftrightarrow> lg_tabOrder x = [i]"
    using sourceGroupOf_SomeD [OF x] by (auto simp: length_Suc_conv)
  then show ?thesis
    using R x board_split [OF G(2,1) new]
    by (auto simp: splitGroup_def refuse_def applied_def Let_def board_def split: option.splits if_splits)
qed

end
