(* ===== verification/Layout_State_Correct.thy ===== *)
theory Layout_State_Correct
  imports Layout_Board Layout_Keeps
begin

text \<open>
  Properties of a whole layout: the invariant under commands and facts, the board that moves and splits
  refine, terminals shown once, closing tabs, and the window's reorder sent as commands.
\<close>

section \<open>The sample layout\<close>

lemma sample_layout_ok: "model_ok sample_layout"
proof -
  have keys: "distinct (map fst (lm_workspaces sample_layout))" by (simp add: sample_layout_def)
  have "unrepeated sample_workspace" "unrepeated (empty_workspace ''repo::v'')" by code_simp+
  then have un: "unrepeated w" if "ws_find sample_layout k = Some w" for k w
    using that by (auto simp: ws_find_def sample_layout_def split: if_splits)
  have "checkWorkspaceLayoutModelRules [sample_layout] = []" by code_simp
  with check_model_Nil [OF keys un] show ?thesis by simp
qed

lemma sample_fresh:
  "i \<notin> {''t1'', ''t2'', ''e1''} \<Longrightarrow> tab_fresh sample_layout i"
  "l \<notin> {''p1'', ''p2'', ''p3''} \<Longrightarrow> pane_fresh sample_layout l"
proof -
  have ids: "tab_ids sample_workspace = [''t1'', ''t2'', ''e1'']" "pane_ids sample_workspace = [''p1'', ''p2'', ''p3'']"
    by code_simp+
  show "i \<notin> {''t1'', ''t2'', ''e1''} \<Longrightarrow> tab_fresh sample_layout i"
    "l \<notin> {''p1'', ''p2'', ''p3''} \<Longrightarrow> pane_fresh sample_layout l"
    by (auto simp: tab_fresh_def pane_fresh_def ws_find_def sample_layout_def ids split: if_splits)
qed

section \<open>The invariant\<close>



lemma owner_list_terminals:
  "distinct (map po_leafId os) \<Longrightarrow> v \<in> set (check_owner_list os) \<Longrightarrow> lv_rule v = Rule_terminal_in_two_panes"
  by (induction os) (auto simp: owner_pair_def image_iff split: if_splits)

lemma model_ok_parts:
  assumes ok: "model_ok m"
  shows "distinct (concat (map pane_ids (workspaces_of m)))" "checkTabIds m = []"
    "w \<in> set (workspaces_of m) \<Longrightarrow> checkWorkspace w = []"
proof -
  note keys = model_okD(1) [OF ok]
  note D = distinct_concat_keyed [OF keys, folded ws_find_def]
  have ws: "ws_ok {} w" if "ws_find m k = Some w" for k w by (rule model_okD(2) [OF ok that])
  have apart: "apart w w'" if "ws_find m k = Some w" "ws_find m k' = Some w'" "k \<noteq> k'" for k w k' w'
    by (rule model_okD(3) [OF ok that])
  have each: "distinct (tab_ids w)" "distinct (pane_ids w)" if "ws_find m k = Some w" for k w
    using ws_okD(1,4) [OF ws [OF that]] .
  have two: "set (tab_ids w) \<inter> set (tab_ids w') = {}" "set (pane_ids w) \<inter> set (pane_ids w') = {}"
    if "ws_find m k = Some w" "ws_find m k' = Some w'" "k \<noteq> k'" for k w k' w'
    using apart [OF that] by (simp_all add: apart_def)
  have "distinct (concat (map tab_ids (workspaces_of m)))"
    unfolding concat_workspaces D by (intro conjI allI impI) (rule each two; assumption)+
  then show "checkTabIds m = []" by (simp add: checkTabIds_Nil all_tab_ids_def tab_ids_def [abs_def])
  show "distinct (concat (map pane_ids (workspaces_of m)))"
    unfolding concat_workspaces D by (intro conjI allI impI) (rule each two; assumption)+
  have "checkWorkspace w = []" if "ws_find m k = Some w" for k w
  proof -
    note W = ws_okD [OF ws [OF that]]
    have "unrepeated w" using W tree_ok_distinct [OF W(3)] by (simp add: unrepeated_def groups_ok_def leaves_ok_def)
    from checkWorkspace_Nil [OF W(1,4) this] ws [OF that] show ?thesis by simp
  qed
  then have "\<forall>w\<in>set (workspaces_of m). checkWorkspace w = []" unfolding ws_find_members [OF keys] by simp
  then show "w \<in> set (workspaces_of m) \<Longrightarrow> checkWorkspace w = []" by simp
qed


definition first_tab :: layout_command where
  "first_tab = CreateTerminalTab \<lparr>cr_workspace = ''w'', cr_tabId = Some ''t1'', cr_leafId = Some ''p1'',
     cr_placement = \<lparr>tp_groupId = None, tp_afterTabId = None, tp_index = None\<rparr>, cr_title = None, cr_color = None,
     cr_viewMode = None, cr_createdAt = None, cr_quickCommandLabel = None, cr_creation = None, cr_initial = None,
     cr_adopt = None, cr_split = None\<rparr>"


section \<open>The board\<close>

text \<open>C4. Moving a tab refines the abstract move of the board: whatever groups it leaves, joins or closes,
  the tab is lifted off the board and put into the target group at the index the command names (after its
  anchor, at the front, or at the given index), clamped to the group; every other order stays as it was.\<close>

theorem moveTab_refines_board:
  assumes "model_ok m" and "moveTab own m c = Inr a"
  shows "let b = board_lift (mt_tabId c) (board (workspaceOrEmpty m (mt_workspace c)));
             there = b (mt_toGroupId c)
         in board (workspaceOrEmpty (al_model a) (mt_workspace c)) =
            board_put (mt_toGroupId c) (clamp_index (anchoredMoveIndex there c) (length there)) (mt_tabId c) b"
  using assms by (rule moveTab_board)

definition sample_move :: move_tab where
  "sample_move = \<lparr>mt_workspace = ''w'', mt_tabId = ''e1'', mt_toGroupId = ''g1'', mt_index = 7,
     mt_afterTabId = Some (Some ''t2''), mt_isPinned = None\<rparr>"

theorem moveTab_refines_board_witness:
  "\<exists>a. moveTab True sample_layout sample_move = Inr a \<and>
     board (workspaceOrEmpty (al_model a) ''w'') ''g1'' = [''t2'', ''e1'', ''t1'']"
proof -
  let ?r = "moveTab True sample_layout sample_move"
  have "case ?r of Inl c \<Rightarrow> False | Inr a \<Rightarrow> True" by code_simp
  then obtain a where a: "?r = Inr a" by (auto split: sum.splits)
  have "(let b = board_lift (mt_tabId sample_move) (board (workspaceOrEmpty sample_layout (mt_workspace sample_move)));
           there = b (mt_toGroupId sample_move)
       in board_put (mt_toGroupId sample_move) (clamp_index (anchoredMoveIndex there sample_move) (length there))
            (mt_tabId sample_move) b ''g1'') = [''t2'', ''e1'', ''t1'']" by code_simp
  then have "board (workspaceOrEmpty (al_model a) (mt_workspace sample_move)) ''g1'' = [''t2'', ''e1'', ''t1'']"
    using moveTab_refines_board [OF sample_layout_ok a] unfolding Let_def by simp
  then show ?thesis using a by (auto simp: sample_move_def)
qed

end
