(* ===== verification/Layout_Effects.thy ===== *)
theory Layout_Effects
  imports Layout_Board
begin

text \<open>
  What closing tabs, a started terminal and the moves of a new tab order do to a well-formed layout.
\<close>

section \<open>Closing tabs\<close>

definition close_refusal :: "close_tabs \<Rightarrow> workspace_layout \<Rightarrow> string \<Rightarrow> refused_close option" where
  "close_refusal c w i =
     (case findTab w i of
        None \<Rightarrow> None
      | Some t \<Rightarrow>
          if \<not> cl_force c \<and> cl_refusePinned c \<and> lt_isPinned t then Some Tab_pinned
          else if \<not> cl_force c \<and> i \<in> set (cl_dirtyTabIds c) then Some Editor_tab_has_unsaved_draft
          else None)"

definition closable :: "close_tabs \<Rightarrow> workspace_layout \<Rightarrow> string list" where
  "closable c w = filter (\<lambda>i. close_refusal c w i = None) (cl_tabIds c)"

definition terminals_of_tab :: "workspace_layout \<Rightarrow> string \<Rightarrow> string list" where
  "terminals_of_tab w i = (case findTab w i of Some t \<Rightarrow> boundPtyIds w t | None \<Rightarrow> [])"

definition without_ids :: "string set \<Rightarrow> (string \<Rightarrow> string list) \<Rightarrow> string \<Rightarrow> string list" where
  "without_ids S b = (\<lambda>g. filter (\<lambda>j. j \<notin> S) (b g))"

lemma closeTab_here:
  assumes ok: "model_ok m" and t: "t \<in> set (wl_tabs (workspaceOrEmpty m k))"
  shows "wl_tabs (workspaceOrEmpty (closeTab own m k t) k) = filter (\<lambda>e. lt_id e \<noteq> lt_id t) (wl_tabs (workspaceOrEmpty m k))"
    and "board (workspaceOrEmpty (closeTab own m k t) k) = board_lift (lt_id t) (board (workspaceOrEmpty m k))"
    and "l \<notin> set (tab_leaves t) \<Longrightarrow> leaf_pty (workspaceOrEmpty (closeTab own m k t) k) l = leaf_pty (workspaceOrEmpty m k) l"
proof -
  let ?w = "workspaceOrEmpty m k"
  show "wl_tabs (workspaceOrEmpty (closeTab own m k t) k) = filter (\<lambda>e. lt_id e \<noteq> lt_id t) (wl_tabs ?w)"
    by (simp add: closeTab_def Let_def removeTabFromWorkspace_def split: prod.splits)
  have "board (workspaceOrEmpty (closeTab own m k t) k) = board (removeTabFromWorkspace ?w (lt_id t))"
    by (simp add: closeTab_def Let_def board_def)
  then show "board (workspaceOrEmpty (closeTab own m k t) k) = board_lift (lt_id t) (board ?w)"
    using board_remove [OF model_ok_groups(1) [OF ok]] by simp
  have "map_of (filter (\<lambda>(k, v). P k) al) l = (if P l then map_of al l else None)" for P and al :: "(string \<times> layout_leaf) list"
    by (induction al) auto
  then show "l \<notin> set (tab_leaves t) \<Longrightarrow> leaf_pty (workspaceOrEmpty (closeTab own m k t) k) l = leaf_pty ?w l"
    by (simp add: closeTab_def Let_def leaf_pty_def leaf_or_empty_def leaf_at_def filterRecord_def tab_leaves_def)
qed

lemma board_members:
  assumes "model_ok m" and "j \<in> set (board (workspaceOrEmpty m k) g)"
  shows "j \<in> set (tab_ids (workspaceOrEmpty m k))"
proof -
  note D = ws_okD [OF ws_ok_here [OF assms(1) [unfolded model_ok_def], of k]]
  from assms(2) obtain x where x: "group_named (wl_groups (workspaceOrEmpty m k)) g = Some x" "j \<in> set (lg_tabOrder x)"
    by (cases "group_named (wl_groups (workspaceOrEmpty m k)) g") (simp_all add: board_def order_in_def)
  from group_named_SomeD [OF x(1)] x(2) show ?thesis using groups_ok_members [OF D(2)] by blast
qed

lemma findTab_None: "findTab w i = None \<longleftrightarrow> i \<notin> set (tab_ids w)"
  by (auto simp: findTab_def tab_ids_def find_None_iff_ball)

lemma findTab_filter: "i \<notin> S \<Longrightarrow> wl_tabs v = filter (\<lambda>t. lt_id t \<notin> S) (wl_tabs w) \<Longrightarrow> findTab v i = findTab w i"
proof -
  assume "i \<notin> S" "wl_tabs v = filter (\<lambda>t. lt_id t \<notin> S) (wl_tabs w)"
  moreover have "i \<notin> S \<Longrightarrow> find (\<lambda>t. lt_id t = i) (filter (\<lambda>t. lt_id t \<notin> S) ts) = find (\<lambda>t. lt_id t = i) ts" for ts
    by (induction ts) auto
  ultimately show ?thesis by (simp add: findTab_def)
qed

lemma boundPtyIds_cong: "(\<And>l. l \<in> set (tab_leaves t) \<Longrightarrow> leaf_pty v l = leaf_pty w l) \<Longrightarrow> boundPtyIds v t = boundPtyIds w t"
  by (auto simp: boundPtyIds_def tab_leaves_def List.map_filter_def intro!: arg_cong [of _ _ "map the"] filter_cong map_cong)

text \<open>The state of the pass after the ids \<open>xs\<close> of the command.\<close>

definition closed_upto :: "layout_model \<Rightarrow> close_tabs \<Rightarrow> string list \<Rightarrow> close_pass \<Rightarrow> bool" where
  "closed_upto m c xs s =
     (let w = workspaceOrEmpty m (cl_workspace c); v = workspaceOrEmpty (cp_model s) (cl_workspace c);
          done = filter (\<lambda>i. close_refusal c w i = None) xs in
      model_ok (cp_model s) \<and> cp_closed s = done \<and>
      cp_refused s = List.map_filter (\<lambda>i. map_option (Pair i) (close_refusal c w i)) xs \<and>
      cp_stop s = concat (map (terminals_of_tab w) done) \<and>
      wl_tabs v = filter (\<lambda>t. lt_id t \<notin> set done) (wl_tabs w) \<and>
      board v = without_ids (set done) (board w) \<and>
      (\<forall>t\<in>set (wl_tabs v). \<forall>l\<in>set (tab_leaves t). leaf_pty v l = leaf_pty w l))"

lemma close_step_upto:
  assumes ok: "model_ok m" and inv: "closed_upto m c xs s" and i: "i \<notin> set xs"
  shows "closed_upto m c (xs @ [i]) (close_step own c s i)"
proof -
  let ?k = "cl_workspace c" let ?w = "workspaceOrEmpty m ?k" and ?v = "workspaceOrEmpty (cp_model s) ?k"
  define D where "D = filter (\<lambda>i. close_refusal c ?w i = None) xs"
  note I = inv [unfolded closed_upto_def Let_def, folded D_def]
  from i have iD: "i \<notin> set D" by (simp add: D_def)
  have find: "findTab ?v i = findTab ?w i" by (rule findTab_filter [OF iD]) (use I in blast)
  show ?thesis
  proof (cases "findTab ?w i")
    case None
    then have "i \<notin> set (tab_ids ?w)" by (simp add: findTab_None)
    then have "without_ids (insert i (set D)) (board ?w) = without_ids (set D) (board ?w)"
      "filter (\<lambda>t. lt_id t \<notin> insert i (set D)) (wl_tabs ?w) = filter (\<lambda>t. lt_id t \<notin> set D) (wl_tabs ?w)"
      using board_members [OF ok] by (auto simp: without_ids_def tab_ids_def intro!: filter_cong)
    moreover have r: "close_refusal c ?w i = None" "terminals_of_tab ?w i = []"
      using None by (simp_all add: close_refusal_def terminals_of_tab_def)
    moreover have "filter (\<lambda>i. close_refusal c ?w i = None) (xs @ [i]) = D @ [i]" using r by (simp add: D_def)
    ultimately show ?thesis
      using None I find unfolding closed_upto_def close_step_def Let_def by (simp add: List.map_filter_def)
  next
    case (Some t)
    show ?thesis
    proof (cases "close_refusal c ?w i")
      case (Some r)
      with \<open>findTab ?w i = Some t\<close> have "close_step own c s i = s\<lparr>cp_refused := cp_refused s @ [(i, r)]\<rparr>"
        by (auto simp: close_step_def Let_def find close_refusal_def split: if_splits)
      moreover have "filter (\<lambda>i. close_refusal c ?w i = None) (xs @ [i]) = D" using Some by (simp add: D_def)
      ultimately show ?thesis using I Some unfolding closed_upto_def Let_def by (simp add: List.map_filter_def)
    next
      case None
      from findTab_SomeD [OF trans [OF find Some]] have t: "t \<in> set (wl_tabs ?v)" "lt_id t = i" by blast+
      let ?n = "closeTab own (cp_model s) ?k t"
      from None Some have step: "close_step own c s i = s\<lparr>cp_model := ?n, cp_closed := cp_closed s @ [i],
          cp_recorded := (if is_terminal t then cp_recorded s @ [lt_entityId t] else cp_recorded s),
          cp_stop := cp_stop s @ boundPtyIds ?v t\<rparr>"
        by (auto simp: close_step_def Let_def find close_refusal_def split: if_splits)
      have okv: "model_ok (cp_model s)" and tabs_v: "wl_tabs ?v = filter (\<lambda>t. lt_id t \<notin> set D) (wl_tabs ?w)"
        and board_v: "board ?v = without_ids (set D) (board ?w)"
        and leaf_v: "\<And>t l. t \<in> set (wl_tabs ?v) \<Longrightarrow> l \<in> set (tab_leaves t) \<Longrightarrow> leaf_pty ?v l = leaf_pty ?w l"
        using I by blast+
      note H = closeTab_here [OF okv t(1), where own = own, unfolded t(2)]
      have okn: "model_ok ?n" using closeTab_good [OF okv [unfolded model_ok_def] t(1)] by (simp add: model_ok_def)
      have tabs: "wl_tabs (workspaceOrEmpty ?n ?k) = filter (\<lambda>t. lt_id t \<notin> set (D @ [i])) (wl_tabs ?w)"
        unfolding H(1) tabs_v by (auto intro!: filter_cong)
      have brd: "board (workspaceOrEmpty ?n ?k) = without_ids (set (D @ [i])) (board ?w)"
        unfolding H(2) board_v by (auto simp: board_lift_def without_ids_def fun_eq_iff intro!: filter_cong)
      have stop: "boundPtyIds ?v t = terminals_of_tab ?w i"
        using boundPtyIds_cong [of t ?v ?w] leaf_v [OF t(1)] Some by (simp add: terminals_of_tab_def)
      have apart: "set (tab_leaves t) \<inter> set (tab_leaves e) = {}" if e: "e \<in> set (wl_tabs ?v)" "lt_id e \<noteq> i" for e
      proof -
        note W = ws_okD [OF ws_ok_here [OF okv [unfolded model_ok_def], of ?k]]
        from split_list [OF t(1)] obtain as bs where v: "wl_tabs ?v = as @ t # bs" by blast
        with e t(2) have "e \<in> set as \<or> e \<in> set bs" by auto
        with W(4) show ?thesis unfolding pane_ids_tab_leaves v by auto
      qed
      have leaves: "leaf_pty (workspaceOrEmpty ?n ?k) l = leaf_pty ?w l"
        if "e \<in> set (wl_tabs (workspaceOrEmpty ?n ?k))" "l \<in> set (tab_leaves e)" for e l
      proof -
        from that(1) have e: "e \<in> set (wl_tabs ?v)" "lt_id e \<noteq> i" unfolding H(1) by auto
        with apart that(2) have "l \<notin> set (tab_leaves t)" by blast
        with H(3) leaf_v [OF e(1) that(2)] show ?thesis by simp
      qed
      have done': "filter (\<lambda>i. close_refusal c ?w i = None) (xs @ [i]) = D @ [i]" using None by (simp add: D_def)
      have "cp_closed s = D" "cp_stop s = concat (map (terminals_of_tab ?w) D)"
        "cp_refused s = List.map_filter (\<lambda>i. map_option (Pair i) (close_refusal c ?w i)) xs" using I by blast+
      then show ?thesis
        unfolding closed_upto_def Let_def done' step using okn tabs brd stop leaves None
        by (simp add: List.map_filter_def)
    qed
  qed
qed

lemma closed_all:
  assumes ok: "model_ok m" and d: "distinct (cl_tabIds c)"
  shows "closed_upto m c (cl_tabIds c) (close_all own m c)"
proof -
  let ?s = "\<lparr>cp_model = m, cp_closed = [], cp_recorded = [], cp_refused = [], cp_stop = []\<rparr>"
  have "distinct xs \<Longrightarrow> closed_upto m c xs (foldl (close_step own c) ?s xs)" for xs
  proof (induction xs rule: rev_induct)
    case Nil
    then show ?case using ok by (simp add: closed_upto_def Let_def without_ids_def List.map_filter_def)
  next
    case (snoc x xs)
    then show ?case using close_step_upto [OF ok, of c xs "foldl (close_step own c) ?s xs" x own] by simp
  qed
  from this [OF d] show ?thesis by (simp add: close_all_def)
qed

lemma closeTabs_effect:
  assumes ok: "model_ok m" and d: "distinct (cl_tabIds c)"
  shows "\<exists>a. closeTabs own m c now = Inr a \<and>
    (let w = workspaceOrEmpty m (cl_workspace c); v = workspaceOrEmpty (al_model a) (cl_workspace c) in
     res_closed (al_result a) = closable c w \<and>
     res_refused (al_result a) = List.map_filter (\<lambda>i. map_option (Pair i) (close_refusal c w i)) (cl_tabIds c) \<and>
     wl_tabs v = filter (\<lambda>t. lt_id t \<notin> set (closable c w)) (wl_tabs w) \<and>
     board v = without_ids (set (closable c w)) (board w) \<and>
     al_stopPtyIds a = concat (map (terminals_of_tab w) (closable c w)))"
proof -
  note C = closed_all [OF assms, of own, unfolded closed_upto_def Let_def, folded closable_def]
  have rec: "wl_tabs (workspaceOrEmpty (recordClosedTerminalTabs n k ids r) k) = wl_tabs (workspaceOrEmpty n k)"
    "board (workspaceOrEmpty (recordClosedTerminalTabs n k ids r) k) = board (workspaceOrEmpty n k)" for n k ids r
    by (simp_all add: recordClosedTerminalTabs_def Let_def board_def)
  show ?thesis
    unfolding closeTabs_def Let_def applied_def using C rec by (auto split: option.splits)
qed

section \<open>A new tab order sent as moves\<close>

definition plain_move :: "string \<Rightarrow> string \<Rightarrow> string \<Rightarrow> nat \<Rightarrow> move_tab" where
  "plain_move k g i index = \<lparr>mt_workspace = k, mt_tabId = i, mt_toGroupId = g, mt_index = int index,
     mt_afterTabId = None, mt_isPinned = None\<rparr>"

definition run_move :: "bool \<Rightarrow> string \<Rightarrow> string \<Rightarrow> string \<times> nat \<Rightarrow> layout_model \<Rightarrow> refusal_code + layout_model" where
  "run_move own k g x m = bindE (moveTab own m (plain_move k g (fst x) (snd x))) (\<lambda>a. Inr (al_model a))"

lemma run_move_board:
  assumes ok: "model_ok m" and i: "i \<in> set (board (workspaceOrEmpty m k) g)"
  shows "\<exists>n. run_move own k g (i, j) m = Inr n \<and> model_ok n \<and>
    board (workspaceOrEmpty n k) = (board (workspaceOrEmpty m k))(g := reorder_tab (board (workspaceOrEmpty m k) g) i (int j))"
proof -
  let ?w = "workspaceOrEmpty m k" and ?c = "plain_move k g i j"
  note G = model_ok_groups [OF ok, of k]
  from i obtain x where x: "group_named (wl_groups ?w) g = Some x" "i \<in> set (lg_tabOrder x)"
    by (cases "group_named (wl_groups ?w) g") (simp_all add: board_def order_in_def)
  from group_named_SomeD [OF x(1)] have xin: "x \<in> set (wl_groups ?w)" "lg_id x = g" by blast+
  have tab: "findTab ?w i \<noteq> None" using board_members [OF ok i] findTab_None by blast
  obtain y where y: "group_of_tab (wl_groups ?w) i = Some y"
    using x(2) xin(1) by (cases "group_of_tab (wl_groups ?w) i") (auto simp: group_of_tab_def find_None_iff_ball)
  have one: "listed (wl_groups ?w) i = 1" using G(2) [of i] listed_pos [OF xin(1) x(2)] by simp
  have "y = x" using group_of_tab_SomeD [OF y] listed_one_owner [OF one xin(1) x(2), of y] by blast
  with tab y have src: "sourceGroupOf ?w i = Some x" by (simp add: sourceGroupOf_def)
  obtain a where a: "moveTab own m ?c = Inr a"
    using src x(1) xin(2) by (simp add: moveTab_def Let_def plain_move_def applied_def)
  have okn: "model_ok (al_model a)" using moveTab_good [OF ok [unfolded model_ok_def], of own ?c] a by (simp add: model_ok_def good_def)
  have L: "board_lift i (board ?w) h = (if h = g then filter (\<lambda>j. j \<noteq> i) (board ?w g) else board ?w h)" for h
    using lift_only [OF G(2,1) xin(1) x(2), of h] order_in_member [OF G(1) xin(1)] xin(2) by (simp add: board_def)
  have "board (workspaceOrEmpty (al_model a) k) =
      board_put g (clamp_index (int j) (length (board_lift i (board ?w) g))) i (board_lift i (board ?w))"
    using moveTab_board [OF ok a] by (simp add: Let_def plain_move_def anchoredMoveIndex_def)
  also have "\<dots> = (board ?w)(g := reorder_tab (board ?w g) i (int j))"
    by (rule ext) (simp add: board_put_def L reorder_tab_def Let_def)
  finally show ?thesis using a okn by (simp add: run_move_def)
qed

lemma run_moves_board:
  assumes "model_ok m" and "fst ` set moves \<subseteq> set (board (workspaceOrEmpty m k) g)"
  shows "\<exists>n. foldE (run_move own k g) moves m = Inr n \<and> model_ok n \<and>
    board (workspaceOrEmpty n k) = (board (workspaceOrEmpty m k))(g := replay_moves moves (board (workspaceOrEmpty m k) g))"
  using assms
proof (induction moves arbitrary: m)
  case Nil
  then show ?case by (simp add: replay_moves_def)
next
  case (Cons x moves)
  obtain i j where x: "x = (i, j)" by (cases x)
  let ?b = "board (workspaceOrEmpty m k)"
  have i: "i \<in> set (?b g)" using Cons.prems(2) by (simp add: x)
  from run_move_board [OF Cons.prems(1) i, of own j] obtain n where n: "run_move own k g (i, j) m = Inr n" "model_ok n"
    "board (workspaceOrEmpty n k) = ?b(g := reorder_tab (?b g) i (int j))" by blast
  have "set (reorder_tab (?b g) i (int j)) = set (?b g)" using i by (auto simp: reorder_tab_def Let_def)
  then have "fst ` set moves \<subseteq> set (board (workspaceOrEmpty n k) g)" using Cons.prems(2) by (simp add: n(3))
  from Cons.IH [OF n(2) this] obtain p where p: "foldE (run_move own k g) moves n = Inr p"
    "model_ok p" "board (workspaceOrEmpty p k) = (board (workspaceOrEmpty n k))(g := replay_moves moves (board (workspaceOrEmpty n k) g))" by blast
  have "board (workspaceOrEmpty p k) = ?b(g := replay_moves (x # moves) (?b g))"
    unfolding p(3) n(3) by (simp add: x replay_moves_def)
  with n(1) p(1,2) show ?case by (simp add: x fun_upd_def)
qed

lemma slot_moves_ids: "fst ` set (slot_moves n rest current) \<subseteq> set rest"
  by (induction n rest current rule: slot_moves.induct) auto

lemma tabOrderMoves_ids: "fst ` set (tabOrderMoves from_order to_order) \<subseteq> set to_order"
proof -
  have "i \<in> set to_order" if "find P (List.enumerate 0 to_order) = Some (n, i)" for P n i
  proof -
    have "(n, i) \<in> set (List.enumerate 0 to_order)" using find_SomeD [OF that] by blast
    then show ?thesis by (simp add: in_set_enumerate_eq) (metis nth_mem)
  qed
  then show ?thesis using slot_moves_ids [of 0 to_order from_order]
    by (auto simp: tabOrderMoves_def Let_def split: option.splits prod.splits)
qed

lemma board_order_distinct:
  assumes "model_ok m"
  shows "distinct (board (workspaceOrEmpty m k) g)"
proof -
  note D = ws_okD [OF ws_ok_here [OF assms [unfolded model_ok_def], of k]]
  show ?thesis
  proof (cases "group_named (wl_groups (workspaceOrEmpty m k)) g")
    case (Some x)
    with groups_ok_order_distinct [OF D(2,1), of x] group_named_SomeD [OF Some] show ?thesis
      by (simp add: board_def order_in_def)
  qed (simp add: board_def order_in_def)
qed

end
