(* ===== verification/Layout_Effects_Correct.thy ===== *)
theory Layout_Effects_Correct
  imports Layout_Effects Layout_Kept Layout_State_Correct Layout_Correct
begin

text \<open>
  Properties of single operations on a well-formed layout: a started terminal, closing tabs, the window's
  new order sent as commands, and the record of dropped panes.
\<close>

section \<open>A started terminal\<close>


lemma sample_terminals_ok: "terminals_ok sample_layout" by code_simp


text \<open>
  Without an incarnation the pane keeps the one it remembers, which is that of an earlier terminal. Here
  the lease of pane \<open>p1\<close> ended, so it has an incarnation and no terminal, and pane \<open>p3\<close> shows the relay's
  terminal \<open>pty-9\<close> of that incarnation: \<open>pty-9\<close> reported on \<open>p1\<close> without an incarnation is shown twice.
\<close>

definition stale_layout :: layout_model where
  "stale_layout = withWorkspace sample_layout ''w''
     (setLeaf (setLeaf sample_workspace ''p1'' (empty_leaf\<lparr>lf_incarnationId := Some ''inc-9''\<rparr>))
        ''p3'' (empty_leaf\<lparr>lf_ptyId := Some ''ssh:h@@pty-9'', lf_incarnationId := Some ''inc-9''\<rparr>))"

lemma stale_incarnation_shows_twice:
  "terminals_ok stale_layout \<and>
   (case processStarted stale_layout ''w'' ''t1:p1'' ''ssh:h@@pty-9'' None of
      Inl c \<Rightarrow> False | Inr a \<Rightarrow> \<not> terminals_ok (al_model a))"
  by (rule conjI; code_simp)

section \<open>Closing tabs\<close>

text \<open>C31. Closing tabs does exactly what was asked: it always succeeds; it closes the named tabs that may
  be closed (unforced, not a pinned one that is to be spared nor one with an unsaved draft), reports the
  others with the reason, stops exactly the terminals the closed tabs showed, takes the closed tabs out
  of the workspace and out of every group's order, and leaves every other tab and order as it was.\<close>

theorem closeTabs_does_what_was_asked:
  assumes "model_ok m" and "distinct (cl_tabIds c)"
  shows "\<exists>a. closeTabs own m c now = Inr a \<and>
    (let w = workspaceOrEmpty m (cl_workspace c); v = workspaceOrEmpty (al_model a) (cl_workspace c) in
     res_closed (al_result a) = closable c w \<and>
     res_refused (al_result a) = List.map_filter (\<lambda>i. map_option (Pair i) (close_refusal c w i)) (cl_tabIds c) \<and>
     wl_tabs v = filter (\<lambda>t. lt_id t \<notin> set (closable c w)) (wl_tabs w) \<and>
     board v = without_ids (set (closable c w)) (board w) \<and>
     al_stopPtyIds a = concat (map (terminals_of_tab w) (closable c w)))"
  by (rule closeTabs_effect [OF assms])

definition sample_close :: close_tabs where
  "sample_close = \<lparr>cl_workspace = ''w'', cl_tabIds = [''t1'', ''t2'', ''gone''], cl_force = False, cl_refusePinned = True,
     cl_dirtyTabIds = [], cl_recordClose = None\<rparr>"

theorem closeTabs_does_what_was_asked_witness:
  "\<exists>a. closeTabs True sample_layout sample_close None = Inr a \<and> res_closed (al_result a) = [''t1'', ''gone''] \<and>
     res_refused (al_result a) = [(''t2'', Tab_pinned)] \<and> al_stopPtyIds a = [''pty-1''] \<and>
     board (workspaceOrEmpty (al_model a) ''w'') ''g1'' = [''t2'']"
proof -
  have d: "distinct (cl_tabIds sample_close)" by (simp add: sample_close_def)
  have k: "cl_workspace sample_close = ''w''" by (simp add: sample_close_def)
  have c: "closable sample_close sample_workspace = [''t1'', ''gone'']" by code_simp
  moreover have "List.map_filter (\<lambda>i. map_option (Pair i) (close_refusal sample_close sample_workspace i)) (cl_tabIds sample_close)
      = [(''t2'', Tab_pinned)]" by code_simp
  moreover have "concat (map (terminals_of_tab sample_workspace) [''t1'', ''gone'']) = [''pty-1'']" by code_simp
  moreover have "without_ids (set [''t1'', ''gone'']) (board sample_workspace) ''g1'' = [''t2'']" by code_simp
  ultimately show ?thesis
    using closeTabs_does_what_was_asked [OF sample_layout_ok d, where own = True and now = None]
    unfolding Let_def k by auto
qed

section \<open>Orders\<close>



section \<open>Dropped panes\<close>

text \<open>The record of dropped panes is bounded and keeps the newest: after panes were dropped it has at
  most 500 entries, newest first, each a newly dropped pane or an earlier entry and none past its 30 days,
  and an entry within its days was left out only for 500 entries that are at least as new.\<close>

theorem dropped_pane_records_bounded:
  "let s = foldl (\<lambda>r (k, p). AList.update k (p\<lparr>cp_closedAt := now\<rparr>) r) r dropped_panes;
       kept = recordClosedTerminalPanes r dropped_panes now
   in length kept \<le> 500 \<and> sorted_wrt (\<lambda>x y. cp_closedAt (snd y) \<le> cp_closedAt (snd x)) kept \<and>
      (\<forall>x\<in>set kept. x \<in> set s \<and> now - cp_closedAt (snd x) \<le> 30 * 24 * 60 * 60 * 1000) \<and>
      (\<forall>y\<in>set s. now - cp_closedAt (snd y) \<le> 30 * 24 * 60 * 60 * 1000 \<longrightarrow> y \<notin> set kept \<longrightarrow>
         length kept = 500 \<and> (\<forall>x\<in>set kept. cp_closedAt (snd y) \<le> cp_closedAt (snd x)))"
  using prune_closed_props [where cl = cp_closedAt and now = now]
  unfolding Let_def recordClosedTerminalPanes_def closed_ttl_ms_def by blast

definition sample_dropped :: "(string \<times> closed_pane) list" where
  "sample_dropped = [(''t1:p1'', \<lparr>cp_ptyId = ''pty-1'', cp_incarnationId = ''inc-1'', cp_worktreeId = ''repo::w'', cp_closedAt = 0\<rparr>)]"

theorem dropped_pane_records_bounded_witness:
  "let kept = recordClosedTerminalPanes [(''t2:p3'', (snd (hd sample_dropped))\<lparr>cp_closedAt := 7\<rparr>)] sample_dropped 2592000007
   in map fst kept = [''t1:p1'', ''t2:p3''] \<and> sorted_wrt (\<lambda>x y. cp_closedAt (snd y) \<le> cp_closedAt (snd x)) kept"
proof -
  have "map fst (recordClosedTerminalPanes [(''t2:p3'', (snd (hd sample_dropped))\<lparr>cp_closedAt := 7\<rparr>)] sample_dropped 2592000007)
    = [''t1:p1'', ''t2:p3'']" by code_simp
  then show ?thesis
    using dropped_pane_records_bounded [of 2592000007 "[(''t2:p3'', (snd (hd sample_dropped))\<lparr>cp_closedAt := 7\<rparr>)]" sample_dropped]
    unfolding Let_def by blast
qed

end
