(* ===== verification/Queue_Types.thy ===== *)
theory Queue_Types
  imports Prelude "HOL-Library.List_Lexorder" "HOL-Library.Char_ord"
begin

text \<open>
  The data of a chat's queue of messages (\<open>src/main/native-chat/agent-session-journal\<close>): the cards of
  the queue, the submissions that hand them to the agent, the facts a refusal carries, and how a
  refusal is read. Optional fields are options; numbers are integers; a message's blocks stand as one
  text, for no rule of the queue looks into them.
\<close>

section \<open>Messages and cards\<close>

text \<open>A position in one journal; positions of two epochs do not compare.\<close>

record journal_cursor =
  jc_epoch :: string
  jc_sequence :: nat

text \<open>\<open>from\<close>: absent for the person, else another agent, with orchestration mail told apart.\<close>

datatype message_sender = From_person | From_agent | From_mail

record message_body =
  mb_text :: string
  mb_command :: "string option"
  mb_from :: message_sender

definition orchestrationMailNotice :: "message_sender \<Rightarrow> bool" where
  "orchestrationMailNotice s = (s = From_mail)"

datatype card_state = Card_waiting | Card_dispatched | Card_returned | Card_withdrawn

text \<open>A typed reason of a refusal as stored: any kind, and the host's proof that nothing was delivered.\<close>

record failure_fact =
  ff_kind :: string
  ff_neverReachedAgent :: bool

record queued_message =
  qm_messageId :: string
  qm_position :: int
  qm_body :: message_body
  qm_fingerprint :: string
  qm_state :: card_state
  qm_holdReason :: "string option"
  qm_returnedReason :: "string option"
  qm_returnedRejection :: "failure_fact option"
  qm_consumedAs :: "string option"
  qm_recovers :: "string option"
  qm_queuedAt :: "journal_cursor option"

definition isUnsettledQueuedMessage :: "queued_message \<Rightarrow> bool" where
  "isUnsettledQueuedMessage c = (qm_state c = Card_waiting \<or> qm_state c = Card_returned)"

section \<open>Submissions\<close>

datatype dispatch_state = Ds_pending | Ds_accepted | Ds_rejected | Ds_unknown

text \<open>
  \<open>sb_answeredInTurn\<close>: absent, recorded as none (\<open>Some None\<close>), or the turn it was answered into.
\<close>

record submission =
  sb_clientMessageId :: string
  sb_fence :: nat
  sb_payloadFingerprint :: string
  sb_dispatchState :: dispatch_state
  sb_providerItemId :: "string option"
  sb_reason :: "string option"
  sb_rejection :: "failure_fact option"
  sb_submittedSequence :: nat
  sb_answeredInTurn :: "string option option"
  sb_recovered :: bool
  sb_handoverRecorded :: bool
  sb_handedOverAt :: "int option"
  sb_acceptedSequence :: "nat option"
  sb_queuedMessageId :: "string option"
  sb_keptAsQueuedMessageId :: "string option"

definition isQueuedAgentJournalSubmission :: "submission \<Rightarrow> bool" where
  "isQueuedAgentJournalSubmission s =
     (sb_handoverRecorded s \<and> sb_dispatchState s = Ds_pending \<and> sb_handedOverAt s = None)"

section \<open>Failure facts\<close>

definition status_row_only_failure_kinds :: "string list" where
  "status_row_only_failure_kinds =
     [''compactionFailed'', ''compactionUnconfirmed'', ''cancelUnconfirmed'', ''stopRefused'', ''stopFailed'',
      ''backgroundTaskNotStopped'', ''answerUnconfirmed'', ''providerRetrying'', ''usageLimitReached'',
      ''previousExitUnverifiable'', ''sessionNotRestored'']"

text \<open>What a refusal means for the chat, by its kind: the category, and whether the person was failed.\<close>

datatype rejection_category = Rc_withdrawn | Rc_undelivered | Rc_startFailed | Rc_content | Rc_transport

definition kind_category :: "(string \<times> rejection_category) list" where
  "kind_category =
     [(''cancelled'', Rc_withdrawn), (''hostRestarted'', Rc_undelivered), (''chatClosed'', Rc_undelivered),
      (''notDelivered'', Rc_undelivered), (''unconfirmed'', Rc_undelivered), (''providerExited'', Rc_undelivered),
      (''hostStopped'', Rc_undelivered), (''providerStartFailed'', Rc_startFailed),
      (''savedConversationMissing'', Rc_startFailed), (''startFailed'', Rc_startFailed), (''notSignedIn'', Rc_startFailed),
      (''cliMissing'', Rc_startFailed), (''historyTooLarge'', Rc_startFailed), (''managedAccountEnvOverride'', Rc_startFailed),
      (''accountSwitchInProgress'', Rc_startFailed), (''managedAccountUnsupported'', Rc_startFailed),
      (''launchFolderMissing'', Rc_startFailed), (''historyInOtherAccount'', Rc_startFailed),
      (''claudeAccountFolderMissing'', Rc_startFailed), (''claudeAccountSetupFailed'', Rc_startFailed),
      (''agentCommandNotRunnable'', Rc_startFailed), (''runtimeNotInstalled'', Rc_startFailed),
      (''fullAccessAsRoot'', Rc_startFailed), (''launchPreparationFailed'', Rc_startFailed),
      (''conversationOpenInTerminal'', Rc_startFailed), (''conversationOpenElsewhere'', Rc_startFailed),
      (''restartFailed'', Rc_startFailed), (''providerRejected'', Rc_content), (''modelUnavailable'', Rc_content),
      (''claudeEffortInvalid'', Rc_content), (''attachmentInvalid'', Rc_content), (''attachmentUnreadable'', Rc_content),
      (''emptyMessage'', Rc_content), (''commandUnavailable'', Rc_content), (''commandRefused'', Rc_content),
      (''queueFull'', Rc_transport), (''writeFailed'', Rc_transport), (''hostFault'', Rc_transport)]"

definition kinds_without_verdict :: "string list" where
  "kinds_without_verdict = [''cancelled'', ''hostRestarted'', ''chatClosed'', ''notDelivered'', ''unconfirmed'']"

definition isAgentSessionFailureKind :: "string \<Rightarrow> bool" where
  "isAgentSessionFailureKind k = (k \<in> fst ` set kind_category \<or> k \<in> set status_row_only_failure_kinds)"

definition isSubmissionRejectionKind :: "string \<Rightarrow> bool" where
  "isSubmissionRejectionKind k = (isAgentSessionFailureKind k \<and> k \<notin> set status_row_only_failure_kinds)"

definition readAgentSessionFailureFact :: "failure_fact option \<Rightarrow> failure_fact option" where
  "readAgentSessionFailureFact v =
     (case v of Some f \<Rightarrow> if isAgentSessionFailureKind (ff_kind f) then Some f else None | None \<Rightarrow> None)"

text \<open>A fact this build cannot place keeps its kind and nothing else.\<close>

definition readStoredRejectionFact :: "failure_fact option \<Rightarrow> failure_fact option" where
  "readStoredRejectionFact v =
     orElse (readAgentSessionFailureFact v)
       (case v of Some f \<Rightarrow> if ff_kind f \<noteq> [] then Some \<lparr>ff_kind = ff_kind f, ff_neverReachedAgent = False\<rparr> else None
        | None \<Rightarrow> None)"

section \<open>What a refusal means\<close>

definition dispatch_rejected_write_failed :: string where
  "dispatch_rejected_write_failed = ''provider_write_failed''"

definition legacy_marker_kinds :: "(string \<times> string) list" where
  "legacy_marker_kinds =
     [(''provider_cancelled_before_start'', ''cancelled''), (''host_restarted_before_delivery'', ''hostRestarted''),
      (''provider_closed_before_delivery'', ''chatClosed''), (''claude structured dispatch queue is full'', ''queueFull''),
      (''codex structured dispatch queue is full'', ''queueFull''), (''not_delivered'', ''notDelivered'')]"

definition dispatchRejectionWasTransportWriteFailure :: "string option \<Rightarrow> bool" where
  "dispatchRejectionWasTransportWriteFailure reason =
     (case reason of
        None \<Rightarrow> False
      | Some r \<Rightarrow> r = dispatch_rejected_write_failed \<or>
          (let p = dispatch_rejected_write_failed @ '': '' in take (length p) r = p))"

definition legacyMarkerKind :: "string option \<Rightarrow> string option" where
  "legacyMarkerKind reason =
     (if dispatchRejectionWasTransportWriteFailure reason then Some ''writeFailed''
      else Option.bind reason (map_of legacy_marker_kinds))"

text \<open>The category of a refusal, and whether it is a failure.\<close>

definition classifyDispatchRejection :: "string option \<Rightarrow> failure_fact option \<Rightarrow> rejection_category \<times> bool" where
  "classifyDispatchRejection reason rejection =
     (let factKind = map_option ff_kind (readAgentSessionFailureFact rejection);
          rejectionKind = (case factKind of Some k \<Rightarrow> isSubmissionRejectionKind k | None \<Rightarrow> False) in
      if rejection \<noteq> None \<and> \<not> rejectionKind then (Rc_undelivered, False)
      else
        (case (if rejectionKind then factKind else legacyMarkerKind reason) of
           None \<Rightarrow> (Rc_content, True)
         | Some k \<Rightarrow> (the (map_of kind_category k), k \<notin> set kinds_without_verdict)))"

definition dispatchWasWithdrawn :: "submission \<Rightarrow> bool" where
  "dispatchWasWithdrawn s =
     (sb_dispatchState s = Ds_rejected \<and> fst (classifyDispatchRejection (sb_reason s) (sb_rejection s)) = Rc_withdrawn)"

definition isWriteFailureSubmission :: "submission \<Rightarrow> bool" where
  "isWriteFailureSubmission s =
     (map_option ff_kind (readAgentSessionFailureFact (sb_rejection s)) = Some ''writeFailed'' \<or>
      dispatchRejectionWasTransportWriteFailure (sb_reason s))"

section \<open>Proof of non-delivery\<close>

definition answered_in_a_turn :: "submission \<Rightarrow> bool" where
  "answered_in_a_turn s = (case sb_answeredInTurn s of Some (Some t) \<Rightarrow> True | _ \<Rightarrow> False)"

definition agentJournalSubmissionProvenUnwritten :: "submission \<Rightarrow> bool" where
  "agentJournalSubmissionProvenUnwritten s =
     ((sb_handoverRecorded s \<and> sb_handedOverAt s = None) \<or>
      ((case readAgentSessionFailureFact (sb_rejection s) of Some f \<Rightarrow> ff_neverReachedAgent f | None \<Rightarrow> False) \<and>
       \<not> answered_in_a_turn s))"

text \<open>Late rows never reopen a send that was accepted or rejected.\<close>

definition journalDispatchRowApplies :: "submission option \<Rightarrow> bool" where
  "journalDispatchRowApplies s =
     (case s of Some x \<Rightarrow> sb_dispatchState x \<noteq> Ds_rejected \<and> sb_dispatchState x \<noteq> Ds_accepted | None \<Rightarrow> False)"

datatype hand_off_outcome = Outcome_returned | Outcome_waiting | Outcome_in_doubt

definition queuedHandOffOutcome :: "submission \<Rightarrow> hand_off_outcome" where
  "queuedHandOffOutcome s =
     (if snd (classifyDispatchRejection (sb_reason s) (sb_rejection s)) then Outcome_returned
      else if agentJournalSubmissionProvenUnwritten s then Outcome_waiting else Outcome_in_doubt)"

definition queuedHandOffInDoubt :: "submission \<Rightarrow> bool" where
  "queuedHandOffInDoubt s =
     (if sb_dispatchState s = Ds_rejected then queuedHandOffOutcome s = Outcome_in_doubt
      else journalDispatchRowApplies (Some s) \<and> \<not> agentJournalSubmissionProvenUnwritten s)"

end
