(* ===== verification/Queue_Pause.thy ===== *)
theory Queue_Pause
  imports Queue_Types
begin

text \<open>
  The pauses of a queue (\<open>queued-message-pause.ts\<close>), derived from marks in the journal: a personal Stop, a
  failed turn, a clear, a reopened chat. The settling of a Stop, kept in memory for display only, is
  left out.
\<close>

section \<open>Marks\<close>

record stop_event =
  se_reason :: string
  se_turnId :: "string option"
  se_at :: int
  se_caller :: "string option"

record queue_clear =
  qc_operationId :: string
  qc_messageIds :: "string list"
  qc_lifted :: bool

record pause_marks =
  pm_cleared :: "(nat \<times> queue_clear) option"
  pm_latestStop :: "(nat \<times> stop_event) option"
  pm_resumedSequence :: nat
  pm_reopenedSequence :: nat

definition createJournalQueuePauseMarks :: pause_marks where
  "createJournalQueuePauseMarks =
     \<lparr>pm_cleared = None, pm_latestStop = None, pm_resumedSequence = 0, pm_reopenedSequence = 0\<rparr>"

text \<open>A field of a stored row: absent, of a form this build does not read, or read.\<close>

datatype 'a stored = Absent | Unreadable | Readable 'a

record mark_row =
  mr_seq :: nat
  mr_stopEvent :: "stop_event stored"
  mr_queueResume :: "bool stored"
  mr_queueReopen :: "bool stored"
  mr_queueReopenSince :: "nat option"
  mr_queueClear :: "queue_clear stored"

definition isJournalStopOrResumeRow :: "mark_row \<Rightarrow> bool" where
  "isJournalStopOrResumeRow row =
     (mr_stopEvent row \<noteq> Absent \<or> mr_queueResume row \<noteq> Absent \<or> mr_queueReopen row \<noteq> Absent \<or> mr_queueClear row \<noteq> Absent)"

definition isReadableQueueClear :: "queue_clear stored \<Rightarrow> queue_clear option" where
  "isReadableQueueClear v =
     (case v of
        Readable c \<Rightarrow> if qc_operationId c \<noteq> [] \<and> [] \<notin> set (qc_messageIds c) then Some c else None
      | _ \<Rightarrow> None)"

definition foldJournalQueuePauseMark :: "pause_marks \<Rightarrow> mark_row \<Rightarrow> pause_marks" where
  "foldJournalQueuePauseMark marks row =
     (case mr_stopEvent row of
        Readable e \<Rightarrow> marks\<lparr>pm_latestStop := Some (mr_seq row, e)\<rparr>
      | _ \<Rightarrow>
          if mr_queueResume row = Readable True then marks\<lparr>pm_resumedSequence := mr_seq row\<rparr>
          else if mr_queueReopen row = Readable True then
            let start = (case mr_queueReopenSince row of
                  Some since \<Rightarrow> if since > 0 \<and> since \<le> mr_seq row then since else mr_seq row
                | None \<Rightarrow> mr_seq row)
            in marks\<lparr>pm_reopenedSequence := max (pm_reopenedSequence marks) start\<rparr>
          else (case isReadableQueueClear (mr_queueClear row) of
                  Some c \<Rightarrow> marks\<lparr>pm_cleared := Some (mr_seq row, c)\<rparr>
                | None \<Rightarrow> marks))"

section \<open>Pauses\<close>

datatype pause_reason = Pause_stopped | Pause_failed | Pause_cleared | Pause_restarted

record queue_pause =
  qp_reason :: pause_reason
  qp_since :: "journal_cursor option"
  qp_messageIds :: "string list"

text \<open>Only a person's Stop pauses; any later Stop, accepted turn or Resume supersedes it.\<close>

definition journalUserStopInForce :: "pause_marks \<Rightarrow> nat \<Rightarrow> (nat \<times> stop_event) option" where
  "journalUserStopInForce marks latestAccepted =
     (case pm_latestStop marks of
        Some (sequence, e) \<Rightarrow>
          if se_reason e = ''user-stop'' \<and> sequence > max latestAccepted (pm_resumedSequence marks)
          then Some (sequence, e) else None
      | None \<Rightarrow> None)"

definition journalQueueStopHolds :: "pause_marks \<Rightarrow> nat \<Rightarrow> bool" where
  "journalQueueStopHolds marks latestAccepted = (journalUserStopInForce marks latestAccepted \<noteq> None)"

definition failedQueueTurnSequence :: "nat \<Rightarrow> nat \<Rightarrow> nat" where
  "failedQueueTurnSequence failedAt resumed = (if failedAt > 0 \<and> failedAt \<ge> resumed then failedAt else 0)"

definition queuedBefore :: "queue_pause \<Rightarrow> queued_message \<Rightarrow> bool" where
  "queuedBefore pause c =
     (case qp_reason pause of
        Pause_failed \<Rightarrow> True
      | Pause_cleared \<Rightarrow> qm_messageId c \<in> set (qp_messageIds pause)
      | _ \<Rightarrow>
          (case (qp_since pause, qm_queuedAt c) of
             (Some since, Some at_) \<Rightarrow> jc_epoch at_ \<noteq> jc_epoch since \<or> jc_sequence at_ < jc_sequence since
           | _ \<Rightarrow> True))"

definition reopenPause :: "string \<Rightarrow> pause_marks \<Rightarrow> nat \<Rightarrow> journal_cursor option \<Rightarrow> queue_pause option" where
  "reopenPause epoch marks latestAccepted reopenFloor =
     (let floor = (case reopenFloor of Some f \<Rightarrow> if jc_epoch f = epoch then jc_sequence f else 0 | None \<Rightarrow> 0);
          sequence = max (pm_reopenedSequence marks) floor
      in if sequence = 0 then None
         else if max latestAccepted (pm_resumedSequence marks) \<ge> sequence then None
         else Some \<lparr>qp_reason = Pause_restarted, qp_since = Some \<lparr>jc_epoch = epoch, jc_sequence = sequence\<rparr>,
                qp_messageIds = []\<rparr>)"

definition clear_pause :: "string \<Rightarrow> pause_marks \<Rightarrow> nat \<Rightarrow> queued_message list \<Rightarrow> queue_pause list" where
  "clear_pause epoch marks latestAccepted waiting =
     (case pm_cleared marks of
        Some (sequence, c) \<Rightarrow>
          if \<not> qc_lifted c \<and> sequence > max latestAccepted (pm_resumedSequence marks) then
            let ids = filter (\<lambda>i. i \<noteq> [] \<and> i \<in> set (qc_messageIds c)) (map qm_messageId waiting) in
            if ids \<noteq> [] then [\<lparr>qp_reason = Pause_cleared, qp_since = Some \<lparr>jc_epoch = epoch, jc_sequence = sequence\<rparr>,
              qp_messageIds = ids\<rparr>] else []
          else []
      | None \<Rightarrow> [])"

definition deriveQueuePauses ::
  "string \<Rightarrow> pause_marks \<Rightarrow> nat \<Rightarrow> nat \<Rightarrow> queued_message list \<Rightarrow> journal_cursor option \<Rightarrow> queue_pause list" where
  "deriveQueuePauses epoch marks latestAccepted failedAt cards reopenFloor =
     (let pause = (\<lambda>reason sequence. \<lparr>qp_reason = reason, qp_since = Some \<lparr>jc_epoch = epoch, jc_sequence = sequence\<rparr>,
            qp_messageIds = []\<rparr>);
          stopped = (case journalUserStopInForce marks latestAccepted of
            Some (sequence, e) \<Rightarrow> [pause Pause_stopped sequence] | None \<Rightarrow> []);
          failed = failedQueueTurnSequence failedAt (pm_resumedSequence marks);
          waiting = filter (\<lambda>c. qm_state c = Card_waiting) cards;
          reopened = (case reopenPause epoch marks latestAccepted reopenFloor of
            Some p \<Rightarrow> if \<exists>c\<in>set waiting. qm_holdReason c = None \<and> queuedBefore p c then [p] else []
          | None \<Rightarrow> [])
      in stopped @ (if failed > 0 then [pause Pause_failed failed] else []) @
         clear_pause epoch marks latestAccepted waiting @ reopened)"

section \<open>What a pause holds\<close>

definition queuePauseHolding :: "queue_pause list \<Rightarrow> queued_message \<Rightarrow> queue_pause option" where
  "queuePauseHolding pauses c =
     (if qm_state c \<noteq> Card_waiting \<or> qm_holdReason c \<noteq> None then None else find (\<lambda>p. queuedBefore p c) pauses)"

fun nextSendableQueuedCard :: "queue_pause list \<Rightarrow> queued_message list \<Rightarrow> string set \<Rightarrow> queued_message option" where
  "nextSendableQueuedCard pauses [] editHeld = None"
| "nextSendableQueuedCard pauses (c # cards) editHeld =
     (if qm_state c = Card_returned \<or> queuePauseHolding pauses c \<noteq> None then None
      else if qm_state c = Card_waiting \<and> qm_holdReason c = None then
        (if qm_messageId c \<in> editHeld then None else Some c)
      else nextSendableQueuedCard pauses cards editHeld)"

fun resumableQueuePause :: "queue_pause list \<Rightarrow> queued_message list \<Rightarrow> queue_pause option" where
  "resumableQueuePause pauses [] = None"
| "resumableQueuePause pauses (c # cards) =
     (if qm_state c = Card_returned then None
      else case queuePauseHolding pauses c of
             Some p \<Rightarrow> Some p
           | None \<Rightarrow> resumableQueuePause pauses cards)"

definition queuePauseLiftOnItsWay :: "queue_pause \<Rightarrow> submission list \<Rightarrow> (submission \<Rightarrow> bool) \<Rightarrow> bool" where
  "queuePauseLiftOnItsWay pause submissions owesSend =
     (let anchor = (case qp_since pause of Some s \<Rightarrow> jc_sequence s | None \<Rightarrow> 0) in
      \<exists>s\<in>set submissions. sb_dispatchState s = Ds_pending \<and>
        (case sb_acceptedSequence s of Some n \<Rightarrow> n | None \<Rightarrow> 0) > anchor \<and> owesSend s)"

record pause_restatement =
  rs_lifted :: bool
  rs_failureHeld :: bool
  rs_liveStop :: "stop_event option"
  rs_reopened :: bool
  rs_cleared :: "queue_clear option"

definition journalQueuePauseRestatement :: "pause_marks \<Rightarrow> nat \<Rightarrow> queue_pause list \<Rightarrow> pause_restatement" where
  "journalQueuePauseRestatement marks latestAccepted pauses =
     \<lparr>rs_lifted = (latestAccepted > 0 \<or> pm_resumedSequence marks > 0),
      rs_failureHeld = (\<exists>p\<in>set pauses. qp_reason p = Pause_failed),
      rs_liveStop = map_option snd (journalUserStopInForce marks latestAccepted),
      rs_reopened = (\<exists>p\<in>set pauses. qp_reason p = Pause_restarted),
      rs_cleared = (case pm_cleared marks of
        None \<Rightarrow> None
      | Some (sequence, c) \<Rightarrow> Some \<lparr>qc_operationId = qc_operationId c,
          qc_messageIds = (case find (\<lambda>p. qp_reason p = Pause_cleared) pauses of Some p \<Rightarrow> qp_messageIds p | None \<Rightarrow> []),
          qc_lifted = (qc_lifted c \<or> max latestAccepted (pm_resumedSequence marks) \<ge> sequence)\<rparr>)\<rparr>"

section \<open>The next card\<close>

text \<open>A card that stands aside: handed off, withdrawn, or held by its own reason.\<close>

definition stands_aside :: "queued_message \<Rightarrow> bool" where
  "stands_aside c = (qm_state c = Card_dispatched \<or> qm_state c = Card_withdrawn \<or> (qm_state c = Card_waiting \<and> qm_holdReason c \<noteq> None))"

lemma aside_not_held [simp]: "stands_aside c \<Longrightarrow> queuePauseHolding pauses c = None"
  by (auto simp: stands_aside_def queuePauseHolding_def)

definition sends_itself :: "queue_pause list \<Rightarrow> queued_message \<Rightarrow> bool" where
  "sends_itself pauses c = (qm_state c = Card_waiting \<and> qm_holdReason c = None \<and> (\<forall>p\<in>set pauses. \<not> queuedBefore p c))"

lemma nextSendable_Cons:
  "nextSendableQueuedCard pauses (c # cards) held =
     (if stands_aside c then nextSendableQueuedCard pauses cards held
      else if sends_itself pauses c \<and> qm_messageId c \<notin> held then Some c else None)"
proof -
  have "queuePauseHolding pauses c = None \<longleftrightarrow> (\<forall>p\<in>set pauses. \<not> queuedBefore p c)"
    if "qm_state c = Card_waiting" "qm_holdReason c = None"
    using that by (auto simp: queuePauseHolding_def find_None_iff)
  then show ?thesis by (cases "qm_state c") (auto simp: stands_aside_def sends_itself_def queuePauseHolding_def)
qed

lemma nextSendable_iff:
  "nextSendableQueuedCard pauses cards held = Some c \<longleftrightarrow>
     (\<exists>before later. cards = before @ c # later \<and> list_all stands_aside before \<and> sends_itself pauses c \<and> qm_messageId c \<notin> held)"
    (is "?l cards \<longleftrightarrow> ?r cards")
proof
  show "?l cards \<Longrightarrow> ?r cards"
  proof (induction cards)
    case (Cons d cards)
    show ?case
    proof (cases "stands_aside d")
      case True
      with Cons obtain before later where "cards = before @ c # later" "list_all stands_aside before" "sends_itself pauses c"
        "qm_messageId c \<notin> held" by (auto simp: nextSendable_Cons simp del: nextSendableQueuedCard.simps)
      with True show ?thesis by (intro exI [of _ "d # before"] exI [of _ later]) simp
    next
      case False
      with Cons.prems have "d = c" "sends_itself pauses c" "qm_messageId c \<notin> held"
        by (auto simp: nextSendable_Cons simp del: nextSendableQueuedCard.simps split: if_splits)
      then show ?thesis by (intro exI [of _ "[]"] exI [of _ cards]) simp
    qed
  qed simp
  have "sends_itself pauses c \<Longrightarrow> \<not> stands_aside c" by (auto simp: sends_itself_def stands_aside_def)
  then have "nextSendableQueuedCard pauses (before @ c # later) held = Some c"
    if "list_all stands_aside before" "sends_itself pauses c" "qm_messageId c \<notin> held" for before later
    using that by (induction before) (simp_all add: nextSendable_Cons del: nextSendableQueuedCard.simps)
  then show "?r cards \<Longrightarrow> ?l cards" by blast
qed

section \<open>What lifts the pauses\<close>

definition mark_sequences :: "string \<Rightarrow> pause_marks \<Rightarrow> journal_cursor option \<Rightarrow> nat list" where
  "mark_sequences epoch marks reopenFloor =
     pm_reopenedSequence marks # (case pm_latestStop marks of Some (n, e) \<Rightarrow> [n] | None \<Rightarrow> []) @
     (case pm_cleared marks of Some (n, c) \<Rightarrow> [n] | None \<Rightarrow> []) @
     (case reopenFloor of Some f \<Rightarrow> if jc_epoch f = epoch then [jc_sequence f] else [] | None \<Rightarrow> [])"

lemma later_turn_lifts:
  assumes marks: "\<forall>n\<in>set (mark_sequences epoch marks reopenFloor). n \<le> max latestAccepted (pm_resumedSequence marks)"
    and p: "p \<in> set (deriveQueuePauses epoch marks latestAccepted failedAt cards reopenFloor)"
  shows "qp_reason p = Pause_failed"
proof -
  let ?n = "max latestAccepted (pm_resumedSequence marks)"
  have "journalUserStopInForce marks latestAccepted = None"
    using marks by (auto simp: journalUserStopInForce_def mark_sequences_def not_less split: option.split)
  moreover have "clear_pause epoch marks latestAccepted ws = []" for ws
    using marks by (auto simp: clear_pause_def mark_sequences_def not_less split: option.split)
  moreover have "reopenPause epoch marks latestAccepted reopenFloor = None"
  proof -
    have "(case reopenFloor of Some f \<Rightarrow> if jc_epoch f = epoch then jc_sequence f else 0 | None \<Rightarrow> 0) \<le> ?n"
      using marks by (auto simp: mark_sequences_def split: option.split)
    moreover have "pm_reopenedSequence marks \<le> ?n" using marks by (simp add: mark_sequences_def)
    ultimately show ?thesis by (simp add: reopenPause_def Let_def)
  qed
  ultimately show ?thesis using p by (auto simp: deriveQueuePauses_def Let_def split: if_splits)
qed

end
