(* ===== verification/Queue_Journal.thy ===== *)
theory Queue_Journal
  imports Queue_Pause "HOL-Library.AList"
begin

text \<open>
  The queue in the journal: how submission, dispatch and queue rows fold into the submissions and the
  cards (\<open>journal-submission-fold.ts\<close>, \<open>journal-dispatch-reducer.ts\<close>, \<open>journal-queue-fold.ts\<close>), and the
  rows the queue's operations plan (\<open>journal-queued-messages.ts\<close>, \<open>queued-message-move.ts\<close>). A card's
  fingerprint is a hash of its body, the argument \<open>fp\<close> of the definitions. Of the chat's items the model
  has the identities that are shown; where items stand and how they read is left out, and so are the
  cards of the table older builds wrote.
\<close>

section \<open>State and rows\<close>

datatype item_identity = Orca_item string | Provider_item string

record queue_journal =
  qj_epoch :: string
  qj_lastSequence :: nat
  qj_highestFence :: nat
  qj_items :: "item_identity list"
  qj_submissions :: "(string \<times> submission) list"
  qj_latestAccepted :: nat
  qj_marks :: pause_marks
  qj_cards :: "(string \<times> queued_message) list"
  qj_returnedCommands :: "string list"
  qj_revision :: nat

definition createJournalQueueState :: "string \<Rightarrow> queue_journal" where
  "createJournalQueueState epoch =
     \<lparr>qj_epoch = epoch, qj_lastSequence = 0, qj_highestFence = 0, qj_items = [], qj_submissions = [], qj_latestAccepted = 0,
      qj_marks = createJournalQueuePauseMarks, qj_cards = [], qj_returnedCommands = [], qj_revision = 0\<rparr>"

record queued_change =
  qd_body :: message_body
  qd_position :: int
  qd_queuedAt :: "journal_cursor option"
  qd_holdReason :: "string option"
  qd_attempt :: "string option"
  qd_recovers :: "string option"
  qd_returned :: "(string option \<times> failure_fact option) option"

datatype queue_change =
    Queued queued_change
  | Edited message_body
  | Moved int
  | Held string
  | Withdrawn

record submission_row =
  sr_clientMessageId :: string
  sr_payloadFingerprint :: string
  sr_handoverRecorded :: bool
  sr_queuedMessageId :: "string option"

record dispatch_row =
  dr_clientMessageId :: string
  dr_state :: dispatch_state
  dr_providerItemId :: "string option"
  dr_reason :: "string option"
  dr_rejection :: "failure_fact option"
  dr_keptAsQueuedMessageId :: "string option"
  dr_answeredInTurn :: "string option option"
  dr_recovered :: bool

datatype row_content =
    Queue_row string queue_change
  | Submission_row submission_row
  | Dispatch_row dispatch_row
  | Mark_row mark_row

record journal_row =
  jr_seq :: nat
  jr_fence :: nat
  jr_ts :: int
  jr_content :: row_content

definition submission_of :: "queue_journal \<Rightarrow> string \<Rightarrow> submission option" where
  "submission_of s i = map_of (qj_submissions s) i"

definition card_of :: "queue_journal \<Rightarrow> string \<Rightarrow> queued_message option" where
  "card_of s i = map_of (qj_cards s) i"

definition put_submission :: "queue_journal \<Rightarrow> submission \<Rightarrow> queue_journal" where
  "put_submission s x = s\<lparr>qj_submissions := AList.update (sb_clientMessageId x) x (qj_submissions s)\<rparr>"

section \<open>Submissions\<close>

definition applyJournalSubmission :: "queue_journal \<Rightarrow> nat \<Rightarrow> nat \<Rightarrow> submission_row \<Rightarrow> queue_journal" where
  "applyJournalSubmission s seq fence row =
     put_submission s
       \<lparr>sb_clientMessageId = sr_clientMessageId row, sb_fence = fence, sb_payloadFingerprint = sr_payloadFingerprint row,
        sb_dispatchState = Ds_pending, sb_providerItemId = None, sb_reason = None, sb_rejection = None,
        sb_submittedSequence = seq, sb_answeredInTurn = None, sb_recovered = False,
        sb_handoverRecorded = sr_handoverRecorded row, sb_handedOverAt = None,
        sb_acceptedSequence = (if sr_handoverRecorded row then Some seq else None),
        sb_queuedMessageId = (if truthy (sr_queuedMessageId row) then sr_queuedMessageId row else None),
        sb_keptAsQueuedMessageId = None\<rparr>"

definition noteTurnAccepted :: "queue_journal \<Rightarrow> submission \<Rightarrow> queue_journal" where
  "noteTurnAccepted s x =
     (case sb_acceptedSequence x of
        Some n \<Rightarrow> s\<lparr>qj_latestAccepted := max (qj_latestAccepted s) n\<rparr>
      | None \<Rightarrow> s)"

definition dispatched_submission :: "nat \<Rightarrow> int \<Rightarrow> dispatch_row \<Rightarrow> submission \<Rightarrow> submission" where
  "dispatched_submission fence ts row x =
     (let rejected = (dr_state row = Ds_rejected) in
      x\<lparr>sb_fence := fence, sb_dispatchState := dr_state row, sb_providerItemId := dr_providerItemId row,
        sb_reason := dr_reason row,
        sb_rejection := (if rejected then readStoredRejectionFact (dr_rejection row) else None),
        sb_keptAsQueuedMessageId := (if rejected \<and> truthy (dr_keptAsQueuedMessageId row) then dr_keptAsQueuedMessageId row
          else sb_keptAsQueuedMessageId x),
        sb_answeredInTurn := (if rejected then dr_answeredInTurn row else None),
        sb_handedOverAt := (if dr_state row = Ds_pending then Some ts else sb_handedOverAt x),
        sb_recovered := dr_recovered row\<rparr>)"

definition applyJournalDispatchRow :: "queue_journal \<Rightarrow> nat \<Rightarrow> int \<Rightarrow> dispatch_row \<Rightarrow> queue_journal" where
  "applyJournalDispatchRow s fence ts row =
     (case submission_of s (dr_clientMessageId row) of
        None \<Rightarrow> s
      | Some x \<Rightarrow>
          if \<not> journalDispatchRowApplies (Some x) then s
          else
            let y = dispatched_submission fence ts row x; s1 = put_submission s y
            in if dr_state row = Ds_accepted then noteTurnAccepted s1 y else s1)"

text \<open>A provider item that echoes a send accepts it.\<close>

definition acceptSubmissionFromProviderItem :: "queue_journal \<Rightarrow> nat \<Rightarrow> string \<Rightarrow> string \<Rightarrow> queue_journal" where
  "acceptSubmissionFromProviderItem s fence providerItemId i =
     (case submission_of s i of
        None \<Rightarrow> s
      | Some x \<Rightarrow>
          if \<not> journalDispatchRowApplies (Some x) then s
          else
            let y = x\<lparr>sb_fence := fence, sb_dispatchState := Ds_accepted, sb_providerItemId := Some providerItemId,
                  sb_reason := None, sb_recovered := False\<rparr>
            in noteTurnAccepted (put_submission s y) y)"

section \<open>Cards\<close>

definition setCard :: "queue_journal \<Rightarrow> queued_message \<Rightarrow> queue_journal" where
  "setCard s c =
     (if card_of s (qm_messageId c) = Some c then s
      else s\<lparr>qj_cards := AList.update (qm_messageId c) c (qj_cards s),
             qj_returnedCommands :=
               (if qm_state c = Card_returned \<and> mb_command (qm_body c) \<noteq> None \<and> qm_consumedAs c \<noteq> None
                then List.insert (qm_messageId c) (qj_returnedCommands s)
                else removeAll (qm_messageId c) (qj_returnedCommands s)),
             qj_revision := qj_revision s + 1\<rparr>)"

definition commandTurnReported :: "queue_journal \<Rightarrow> string \<Rightarrow> bool" where
  "commandTurnReported s i = (Orca_item (''command-turn:'' @ i) \<in> set (qj_items s))"

text \<open>Proven non-delivery waits again, doubt stays spent, a refusal comes back unless its command's turn shows it.\<close>

definition rejectedCardTransition :: "queued_message \<Rightarrow> submission \<Rightarrow> bool \<Rightarrow> queued_message" where
  "rejectedCardTransition c rejected reported =
     (case queuedHandOffOutcome rejected of
        Outcome_waiting \<Rightarrow> c\<lparr>qm_state := Card_waiting, qm_holdReason := None, qm_consumedAs := None\<rparr>
      | Outcome_in_doubt \<Rightarrow> c
      | Outcome_returned \<Rightarrow>
          if mb_command (qm_body c) \<noteq> None \<and> reported then c\<lparr>qm_state := Card_withdrawn\<rparr>
          else c\<lparr>qm_state := Card_returned, qm_returnedReason := sb_reason rejected,
                 qm_returnedRejection := sb_rejection rejected\<rparr>)"

definition settledHandOff :: "queue_journal \<Rightarrow> queued_message \<Rightarrow> submission \<Rightarrow> queued_message" where
  "settledHandOff s c x =
     (if sb_dispatchState x \<noteq> Ds_rejected then c
      else rejectedCardTransition c x (commandTurnReported s (sb_clientMessageId x)))"

definition queued_message_held_delivery_unconfirmed :: string where
  "queued_message_held_delivery_unconfirmed = ''delivery_unconfirmed''"

definition queuedCardFromChange :: "(message_body \<Rightarrow> string) \<Rightarrow> queue_journal \<Rightarrow> string \<Rightarrow> queued_change \<Rightarrow> queued_message" where
  "queuedCardFromChange fp s i d =
     (let c = \<lparr>qm_messageId = i, qm_position = qd_position d, qm_body = qd_body d, qm_fingerprint = fp (qd_body d),
            qm_state = Card_waiting, qm_holdReason = qd_holdReason d, qm_returnedReason = None, qm_returnedRejection = None,
            qm_consumedAs = None, qm_recovers = qd_recovers d, qm_queuedAt = qd_queuedAt d\<rparr>;
          attempt = (if truthy (qd_attempt d) then qd_attempt d else None)
      in case Option.bind attempt (submission_of s) of
           Some x \<Rightarrow> settledHandOff s (c\<lparr>qm_state := Card_dispatched, qm_holdReason := None, qm_consumedAs := attempt\<rparr>) x
         | None \<Rightarrow>
             (case qd_returned d of
                Some (reason, stored) \<Rightarrow>
                  let rejection = readStoredRejectionFact stored;
                      independent = (truthy (qm_recovers c) \<and> attempt = None \<and> map_option ff_kind rejection = Some ''unconfirmed'')
                  in c\<lparr>qm_state := (if independent then Card_waiting else Card_returned),
                       qm_holdReason := (if independent then Some queued_message_held_delivery_unconfirmed else None),
                       qm_consumedAs := attempt, qm_returnedReason := reason, qm_returnedRejection := rejection\<rparr>
              | None \<Rightarrow>
                  if attempt \<noteq> None then c\<lparr>qm_state := Card_dispatched, qm_holdReason := None, qm_consumedAs := attempt\<rparr>
                  else c))"

text \<open>
  A hand-off refused while it may have reached the agent reads as sent: under the older reading the
  submission says so itself, and a withdrawal answered into no turn leaves its card either way.
\<close>

definition foldQueuedHandOffInDoubt :: "submission \<Rightarrow> submission" where
  "foldQueuedHandOffInDoubt x =
     (if dispatchWasWithdrawn x \<and> \<not> answered_in_a_turn x then x
      else x\<lparr>sb_dispatchState := Ds_unknown, sb_reason := Some ''provider_ended_before_acknowledgement'',
             sb_recovered := True, sb_rejection := None\<rparr>)"

definition placeQueuedHandOffInDoubt :: "submission \<Rightarrow> submission" where
  "placeQueuedHandOffInDoubt x =
     (if dispatchWasWithdrawn x \<and> \<not> answered_in_a_turn x then x\<lparr>sb_queuedMessageId := None\<rparr> else x)"

definition settleHandOffInDoubt :: "bool \<Rightarrow> queue_journal \<Rightarrow> string \<Rightarrow> queue_journal" where
  "settleHandOffInDoubt marker5 s i =
     (case submission_of s i of
        None \<Rightarrow> s
      | Some x \<Rightarrow>
          if (if marker5 then sb_dispatchState x = Ds_rejected \<and> queuedHandOffOutcome x = Outcome_in_doubt
              else queuedHandOffInDoubt x)
          then put_submission s
            (let y = placeQueuedHandOffInDoubt x in if marker5 then foldQueuedHandOffInDoubt y else y)
          else s)"

definition applyQueueRow :: "(message_body \<Rightarrow> string) \<Rightarrow> bool \<Rightarrow> queue_journal \<Rightarrow> string \<Rightarrow> queue_change \<Rightarrow> queue_journal" where
  "applyQueueRow fp marker5 s i change =
     (case change of
        Queued d \<Rightarrow>
          let c = queuedCardFromChange fp s i d;
              s1 = setCard s c;
              s2 = (case qd_recovers d of
                  Some source \<Rightarrow>
                    if source \<noteq> [] \<and> Option.bind (submission_of s1 source) sb_queuedMessageId = Some i
                    then settleHandOffInDoubt marker5 s1 source else s1
                | None \<Rightarrow> s1)
          in (case qm_consumedAs c of Some a \<Rightarrow> settleHandOffInDoubt marker5 s2 a | None \<Rightarrow> s2)
      | _ \<Rightarrow>
          (case card_of s i of
             None \<Rightarrow> s
           | Some c \<Rightarrow>
               (case change of
                  Edited b \<Rightarrow> setCard s (c\<lparr>qm_body := b, qm_fingerprint := fp b\<rparr>)
                | Moved p \<Rightarrow> setCard s (c\<lparr>qm_position := p\<rparr>)
                | Held r \<Rightarrow> setCard s (if qm_state c = Card_waiting then c\<lparr>qm_holdReason := Some r\<rparr> else c)
                | _ \<Rightarrow> setCard s (c\<lparr>qm_state := Card_withdrawn, qm_holdReason := None\<rparr>))))"

text \<open>Only the hand-off a card was last given can move it.\<close>

definition cardHandedOffAs :: "queue_journal \<Rightarrow> submission \<Rightarrow> queued_message option" where
  "cardHandedOffAs s x =
     (case Option.bind (sb_queuedMessageId x) (card_of s) of
        Some c \<Rightarrow> if qm_state c = Card_dispatched \<and> qm_consumedAs c = Some (sb_clientMessageId x) then Some c else None
      | None \<Rightarrow> None)"

definition spend_reported :: "queue_journal \<Rightarrow> string \<Rightarrow> queue_journal" where
  "spend_reported s i =
     (case card_of s i of
        None \<Rightarrow> s
      | Some c \<Rightarrow>
          if qm_state c = Card_returned \<and> mb_command (qm_body c) \<noteq> None \<and>
             (case qm_consumedAs c of Some a \<Rightarrow> commandTurnReported s a | None \<Rightarrow> False)
          then setCard s (c\<lparr>qm_state := Card_withdrawn\<rparr>) else s)"

definition spendReportedCommandCards :: "queue_journal \<Rightarrow> queue_journal" where
  "spendReportedCommandCards s = foldl spend_reported s (qj_returnedCommands s)"

definition foldJournalQueueRow :: "(message_body \<Rightarrow> string) \<Rightarrow> bool \<Rightarrow> queue_journal \<Rightarrow> row_content \<Rightarrow> queue_journal" where
  "foldJournalQueueRow fp marker5 s row =
     (case row of
        Queue_row i change \<Rightarrow> applyQueueRow fp marker5 s i change
      | Submission_row r \<Rightarrow>
          (case Option.bind (sr_queuedMessageId r) (card_of s) of
             None \<Rightarrow> s
           | Some c \<Rightarrow> setCard s (c\<lparr>qm_state := Card_dispatched, qm_holdReason := None,
               qm_consumedAs := Some (sr_clientMessageId r), qm_returnedReason := None, qm_returnedRejection := None\<rparr>))
      | Dispatch_row r \<Rightarrow>
          (case submission_of s (dr_clientMessageId r) of
             None \<Rightarrow> s
           | Some x \<Rightarrow>
               (case cardHandedOffAs s x of
                  None \<Rightarrow> s
                | Some c \<Rightarrow> settleHandOffInDoubt marker5 (setCard s (settledHandOff s c x)) (dr_clientMessageId r)))
      | Mark_row r \<Rightarrow> s)"

section \<open>One row\<close>

definition applyJournalRowFacts :: "queue_journal \<Rightarrow> journal_row \<Rightarrow> queue_journal" where
  "applyJournalRowFacts s row =
     (let s1 = s\<lparr>qj_lastSequence := max (qj_lastSequence s) (jr_seq row),
                 qj_highestFence := max (qj_highestFence s) (jr_fence row)\<rparr>
      in case jr_content row of
           Queue_row i change \<Rightarrow> s1
         | Submission_row r \<Rightarrow> applyJournalSubmission s1 (jr_seq row) (jr_fence row) r
         | Dispatch_row r \<Rightarrow> applyJournalDispatchRow s1 (jr_fence row) (jr_ts row) r
         | Mark_row r \<Rightarrow> if isJournalStopOrResumeRow r then s1\<lparr>qj_marks := foldJournalQueuePauseMark (qj_marks s1) r\<rparr> else s1)"

definition applyJournalRow :: "(message_body \<Rightarrow> string) \<Rightarrow> bool \<Rightarrow> queue_journal \<Rightarrow> journal_row \<Rightarrow> queue_journal" where
  "applyJournalRow fp marker5 s row = foldJournalQueueRow fp marker5 (applyJournalRowFacts s row) (jr_content row)"

end
