(* ===== verification/Queue_Candidates.thy ===== *)
theory Queue_Candidates
  imports Queue_Types "HOL-Library.AList" "HOL-Library.Product_Lexorder"
begin

text \<open>
  The candidates of the queue (\<open>journal-input-candidates.ts\<close>): the live cards that could be sent next,
  kept in a height-balanced tree by position and id, and the walk past a head that cannot be sent now.
  The code updates nodes in place; here a write returns the new tree. The memo of the walk
  (\<open>pastHead\<close>) is left out, for it returns what the walk it remembers returned.
\<close>

section \<open>The tree\<close>

definition precedes :: "queued_message \<Rightarrow> queued_message \<Rightarrow> bool" where
  "precedes a b =
     (qm_position a < qm_position b \<or> (qm_position a = qm_position b \<and> qm_messageId a < qm_messageId b))"

datatype card_tree = No_node | Card_node queued_message nat card_tree card_tree

fun node_height :: "card_tree \<Rightarrow> nat" where
  "node_height No_node = 0"
| "node_height (Card_node c h l r) = h"

text \<open>The code calls these on a node; on none they do nothing.\<close>

fun update_node :: "card_tree \<Rightarrow> card_tree" where
  "update_node No_node = No_node"
| "update_node (Card_node c h l r) = Card_node c (1 + max (node_height l) (node_height r)) l r"

text \<open>A rotation needs the child it lifts; where the code would throw for want of one, the node stays.\<close>

fun rotateLeft :: "card_tree \<Rightarrow> card_tree" where
  "rotateLeft (Card_node c h l (Card_node d k m r)) = update_node (Card_node d k (update_node (Card_node c h l m)) r)"
| "rotateLeft t = t"

fun rotateRight :: "card_tree \<Rightarrow> card_tree" where
  "rotateRight (Card_node c h (Card_node d k l m) r) = update_node (Card_node d k l (update_node (Card_node c h m r)))"
| "rotateRight t = t"

fun left_node :: "card_tree \<Rightarrow> card_tree" where
  "left_node No_node = No_node"
| "left_node (Card_node c h l r) = l"

fun right_node :: "card_tree \<Rightarrow> card_tree" where
  "right_node No_node = No_node"
| "right_node (Card_node c h l r) = r"

definition balance :: "queued_message \<Rightarrow> card_tree \<Rightarrow> card_tree \<Rightarrow> card_tree" where
  "balance c l r =
     (let h = 1 + max (node_height l) (node_height r) in
      if node_height l > node_height r + 1 then
        rotateRight (Card_node c h (if node_height (right_node l) > node_height (left_node l) then rotateLeft l else l) r)
      else if node_height r > node_height l + 1 then
        rotateLeft (Card_node c h l (if node_height (left_node r) > node_height (right_node r) then rotateRight r else r))
      else Card_node c h l r)"

fun first_card :: "queued_message \<Rightarrow> card_tree \<Rightarrow> queued_message" where
  "first_card c No_node = c"
| "first_card c (Card_node d h l r) = first_card d l"

fun put_card :: "card_tree \<Rightarrow> queued_message \<Rightarrow> bool \<Rightarrow> card_tree" where
  "put_card No_node x gone = (if gone then No_node else Card_node x 1 No_node No_node)"
| "put_card (Card_node c h l r) x gone =
     (if precedes x c then balance c (put_card l x gone) r
      else if precedes c x then balance c l (put_card r x gone)
      else if \<not> gone then balance x l r
      else if l = No_node then r
      else if r = No_node then l
      else let successor = first_card c r in balance successor l (put_card r successor True))"

section \<open>The candidates\<close>

record candidates =
  ca_byId :: "(string \<times> queued_message) list"
  ca_root :: card_tree
  ca_mailCount :: int
  ca_revision :: nat

definition no_candidates :: candidates where
  "no_candidates = \<lparr>ca_byId = [], ca_root = No_node, ca_mailCount = 0, ca_revision = 0\<rparr>"

definition mail_weight :: "queued_message \<Rightarrow> int" where
  "mail_weight c = (if orchestrationMailNotice (mb_from (qm_body c)) then 1 else 0)"

text \<open>\<open>set\<close>: the prior card of that id goes, the new one comes if it is a candidate.\<close>

definition set_candidate :: "candidates \<Rightarrow> queued_message \<Rightarrow> bool \<Rightarrow> candidates" where
  "set_candidate s x candidate =
     (let i = qm_messageId x; prior = map_of (ca_byId s) i in
      if (prior = Some x \<and> candidate) \<or> (prior = None \<and> \<not> candidate) then s
      else
        let s1 = (case prior of
              None \<Rightarrow> s
            | Some p \<Rightarrow> s\<lparr>ca_mailCount := ca_mailCount s - mail_weight p, ca_root := put_card (ca_root s) p True,
                ca_byId := AList.delete i (ca_byId s)\<rparr>);
            s2 = (if candidate
              then s1\<lparr>ca_mailCount := ca_mailCount s1 + mail_weight x, ca_root := put_card (ca_root s1) x False,
                ca_byId := AList.update i x (ca_byId s1)\<rparr>
              else s1)
        in s2\<lparr>ca_revision := ca_revision s2 + 1\<rparr>)"

definition clear_candidates :: "candidates \<Rightarrow> candidates" where
  "clear_candidates s = \<lparr>ca_byId = [], ca_root = No_node, ca_mailCount = 0, ca_revision = ca_revision s + 1\<rparr>"

definition hasMail :: "candidates \<Rightarrow> bool" where
  "hasMail s = (ca_mailCount s > 0)"

text \<open>
  \<open>after\<close>: the descent leaves on a stack the nodes with a position greater than the card's, the walk
  yields the top and pushes the left spine of its right subtree.
\<close>

fun descend :: "int \<Rightarrow> card_tree \<Rightarrow> (queued_message \<times> card_tree) list \<Rightarrow> (queued_message \<times> card_tree) list" where
  "descend p No_node path = path"
| "descend p (Card_node c h l r) path = (if qm_position c > p then descend p l ((c, r) # path) else descend p r path)"

fun left_spine :: "card_tree \<Rightarrow> (queued_message \<times> card_tree) list \<Rightarrow> (queued_message \<times> card_tree) list" where
  "left_spine No_node path = path"
| "left_spine (Card_node c h l r) path = left_spine l ((c, r) # path)"

fun tree_count :: "card_tree \<Rightarrow> nat" where
  "tree_count No_node = 0"
| "tree_count (Card_node c h l r) = Suc (tree_count l + tree_count r)"

definition path_count :: "(queued_message \<times> card_tree) list \<Rightarrow> nat" where
  "path_count path = sum_list (map (\<lambda>(c, r). Suc (tree_count r)) path)"

lemma path_count_simps [simp]: "path_count [] = 0" "path_count ((c, r) # path) = Suc (tree_count r + path_count path)"
  by (simp_all add: path_count_def)

lemma path_count_spine [simp]: "path_count (left_spine t path) = tree_count t + path_count path"
  by (induction t path rule: left_spine.induct) simp_all

function walk_path :: "(queued_message \<times> card_tree) list \<Rightarrow> queued_message list" where
  "walk_path [] = []"
| "walk_path ((c, r) # path) = c # walk_path (left_spine r path)"
  by pat_completeness auto
termination by (relation "measure path_count") simp_all

definition after_card :: "candidates \<Rightarrow> queued_message \<Rightarrow> queued_message list" where
  "after_card s x = walk_path (descend (qm_position x) (ca_root s) [])"

section \<open>The order\<close>

definition queue_key :: "queued_message \<Rightarrow> int \<times> string" where
  "queue_key c = (qm_position c, qm_messageId c)"

lemma precedes_key: "precedes a b \<longleftrightarrow> queue_key a < queue_key b"
  by (auto simp: precedes_def queue_key_def)

fun inorder :: "card_tree \<Rightarrow> queued_message list" where
  "inorder No_node = []"
| "inorder (Card_node c h l r) = inorder l @ c # inorder r"

definition in_order :: "card_tree \<Rightarrow> bool" where
  "in_order t = sorted_wrt (\<lambda>a b. queue_key a < queue_key b) (inorder t)"

lemma in_order_Node [simp]:
  "in_order (Card_node c h l r) \<longleftrightarrow> in_order l \<and> in_order r \<and>
     (\<forall>x\<in>set (inorder l). queue_key x < queue_key c) \<and> (\<forall>y\<in>set (inorder r). queue_key c < queue_key y)"
  by (auto simp: in_order_def sorted_wrt_append intro: less_trans)

lemma inorder_update [simp]: "inorder (update_node t) = inorder t"
  by (cases t) simp_all

lemma inorder_rotate [simp]: "inorder (rotateLeft t) = inorder t" "inorder (rotateRight t) = inorder t"
  by (cases t rule: rotateLeft.cases; simp) (cases t rule: rotateRight.cases; simp)

lemma inorder_balance [simp]: "inorder (balance c l r) = inorder l @ c # inorder r"
  by (simp add: balance_def Let_def)

lemma first_card_inorder: "first_card c t = hd (inorder t @ [c])"
  by (induction c t rule: first_card.induct) (auto simp: hd_append)

lemma inorder_eq_Nil [simp]: "inorder t = [] \<longleftrightarrow> t = No_node"
  by (cases t) simp_all

section \<open>What a write does to the cards\<close>

lemma filter_below: "\<forall>y\<in>set ys. (k :: int \<times> string) < queue_key y \<Longrightarrow> filter (\<lambda>y. queue_key y < k) ys = []"
  by (auto simp: filter_empty_conv not_less_iff_gr_or_eq)

lemma filter_above: "\<forall>y\<in>set ys. queue_key y < (k :: int \<times> string) \<Longrightarrow> filter (\<lambda>y. k < queue_key y) ys = []"
  by (auto simp: filter_empty_conv not_less_iff_gr_or_eq)

lemma put_gone:
  "in_order t \<Longrightarrow> inorder (put_card t x True) = filter (\<lambda>y. queue_key y \<noteq> queue_key x) (inorder t)"
proof (induction t arbitrary: x)
  case (Card_node c h l r)
  then have s: "in_order l" "in_order r" "\<forall>y\<in>set (inorder l). queue_key y < queue_key c" "\<forall>y\<in>set (inorder r). queue_key c < queue_key y"
    by simp_all
  note IH = Card_node.IH(1) [OF s(1)] Card_node.IH(2) [OF s(2)]
  consider (less) "queue_key x < queue_key c" | (more) "queue_key c < queue_key x" | (same) "queue_key x = queue_key c"
    by (rule linorder_cases) auto
  then show ?case
  proof cases
    case less
    then have "filter (\<lambda>y. queue_key y \<noteq> queue_key x) (inorder r) = inorder r" using s(4) by (auto simp: filter_id_conv)
    with less IH show ?thesis by (auto simp: precedes_key)
  next
    case more
    then have "filter (\<lambda>y. queue_key y \<noteq> queue_key x) (inorder l) = inorder l" using s(3) by (auto simp: filter_id_conv)
    with more IH show ?thesis by (auto simp: precedes_key)
  next
    case same
    have rest: "filter (\<lambda>y. queue_key y \<noteq> queue_key x) (inorder l @ c # inorder r) = inorder l @ inorder r"
    proof -
      have "filter (\<lambda>y. queue_key y \<noteq> queue_key x) (inorder l) = inorder l" using same s(3) by (auto simp: filter_id_conv)
      moreover have "filter (\<lambda>y. queue_key y \<noteq> queue_key x) (inorder r) = inorder r" using same s(4) by (auto simp: filter_id_conv)
      ultimately show ?thesis using same by simp
    qed
    show ?thesis
    proof (cases "l = No_node \<or> r = No_node")
      case True
      with same rest show ?thesis by (auto simp: precedes_key)
    next
      case False
      then obtain d ds where r: "inorder r = d # ds" by (cases "inorder r") auto
      then have d: "first_card c r = d" by (simp add: first_card_inorder)
      have "sorted_wrt (\<lambda>a b. queue_key a < queue_key b) (d # ds)" using s(2) unfolding in_order_def r .
      then have "filter (\<lambda>y. queue_key y \<noteq> queue_key d) (d # ds) = ds" by (auto simp: filter_id_conv)
      with IH(2) [of d] have "inorder (put_card r d True) = ds" unfolding r by simp
      with False same rest d r show ?thesis by (simp add: precedes_key Let_def)
    qed
  qed
qed simp

lemma put_card_in:
  "in_order t \<Longrightarrow>
   inorder (put_card t x False) = filter (\<lambda>y. queue_key y < queue_key x) (inorder t) @ x # filter (\<lambda>y. queue_key x < queue_key y) (inorder t)"
proof (induction t arbitrary: x)
  case (Card_node c h l r)
  then have s: "in_order l" "in_order r" "\<forall>y\<in>set (inorder l). queue_key y < queue_key c" "\<forall>y\<in>set (inorder r). queue_key c < queue_key y"
    by simp_all
  note IH = Card_node.IH(1) [OF s(1)] Card_node.IH(2) [OF s(2)]
  consider (less) "queue_key x < queue_key c" | (more) "queue_key c < queue_key x" | (same) "queue_key x = queue_key c"
    by (rule linorder_cases) auto
  then show ?case
  proof cases
    case less
    then have r: "\<forall>y\<in>set (inorder r). queue_key x < queue_key y" using s(4) by (auto intro: less_trans)
    then have "filter (\<lambda>y. queue_key x < queue_key y) (inorder r) = inorder r" by (simp add: filter_id_conv)
    with less IH filter_below [OF r] show ?thesis by (auto simp: precedes_key)
  next
    case more
    then have l: "\<forall>y\<in>set (inorder l). queue_key y < queue_key x" using s(3) by (auto intro: less_trans)
    then have "filter (\<lambda>y. queue_key y < queue_key x) (inorder l) = inorder l" by (simp add: filter_id_conv)
    with more IH filter_above [OF l] show ?thesis by (auto simp: precedes_key)
  next
    case same
    have "filter (\<lambda>y. queue_key y < queue_key c) (inorder l) = inorder l"
      "filter (\<lambda>y. queue_key c < queue_key y) (inorder r) = inorder r" using s by (simp_all add: filter_id_conv)
    with same filter_above [OF s(3)] filter_below [OF s(4)] show ?thesis by (simp add: precedes_key)
  qed
qed simp

lemma put_in_order [simp]: "in_order t \<Longrightarrow> in_order (put_card t x gone)"
proof (cases gone)
  case True
  assume "in_order t"
  then show ?thesis using True by (simp add: in_order_def put_gone [unfolded in_order_def] sorted_wrt_filter)
next
  case False
  assume s: "in_order t"
  then show ?thesis
    using False by (auto simp: in_order_def [of "put_card t x gone"] put_card_in sorted_wrt_append in_order_def sorted_wrt_filter intro: less_trans)
qed

section \<open>Balance\<close>

fun balanced :: "card_tree \<Rightarrow> bool" where
  "balanced No_node = True"
| "balanced (Card_node c h l r) =
     (balanced l \<and> balanced r \<and> h = 1 + max (node_height l) (node_height r) \<and>
      node_height l \<le> node_height r + 1 \<and> node_height r \<le> node_height l + 1)"

lemma height_0 [simp]: "balanced t \<Longrightarrow> node_height t = 0 \<longleftrightarrow> t = No_node"
  by (cases t) auto

text \<open>Subtrees that differ by two at most are balanced by at most one double rotation.\<close>

lemma balance_balanced:
  assumes "balanced l" "balanced r" "node_height l \<le> node_height r + 2" "node_height r \<le> node_height l + 2"
  shows "balanced (balance c l r) \<and>
    node_height (balance c l r) \<in> {max (node_height l) (node_height r), 1 + max (node_height l) (node_height r)} \<and>
    (node_height l \<le> node_height r + 1 \<and> node_height r \<le> node_height l + 1 \<longrightarrow>
       node_height (balance c l r) = 1 + max (node_height l) (node_height r))"
proof -
  have big: "\<exists>d k m n. t = Card_node d k m n" if "0 < node_height t" for t using that by (cases t) auto
  consider (left) "node_height l = node_height r + 2" | (right) "node_height r = node_height l + 2"
    | (even) "node_height l \<le> node_height r + 1" "node_height r \<le> node_height l + 1" using assms(3,4) by linarith
  then show ?thesis
  proof cases
    case left
    then obtain d k m n where l: "l = Card_node d k m n" using big [of l] by auto
    show ?thesis
    proof (cases "node_height n > node_height m")
      case True
      then obtain e j p q where "n = Card_node e j p q" using big [of n] by auto
      with left True assms show ?thesis unfolding l by (auto simp: balance_def Let_def)
    next
      case False
      with left assms show ?thesis unfolding l by (auto simp: balance_def Let_def)
    qed
  next
    case right
    then obtain d k m n where r: "r = Card_node d k m n" using big [of r] by auto
    show ?thesis
    proof (cases "node_height m > node_height n")
      case True
      then obtain e j p q where "m = Card_node e j p q" using big [of m] by auto
      with right True assms show ?thesis unfolding r by (auto simp: balance_def Let_def)
    next
      case False
      with right assms show ?thesis unfolding r by (auto simp: balance_def Let_def)
    qed
  next
    case even
    with assms show ?thesis by (auto simp: balance_def Let_def)
  qed
qed

lemma put_balanced:
  "balanced t \<Longrightarrow> balanced (put_card t x gone) \<and>
     (if gone then node_height (put_card t x gone) \<le> node_height t \<and> node_height t \<le> node_height (put_card t x gone) + 1
      else node_height t \<le> node_height (put_card t x gone) \<and> node_height (put_card t x gone) \<le> node_height t + 1)"
proof (induction t arbitrary: x gone)
  case (Card_node c h l r)
  then have b: "balanced l" "balanced r" and h: "h = 1 + max (node_height l) (node_height r)"
      "node_height l \<le> node_height r + 1" "node_height r \<le> node_height l + 1" by simp_all
  note L = Card_node.IH(1) [OF b(1)] and R = Card_node.IH(2) [OF b(2)]
  have left: ?case if "put_card (Card_node c h l r) x gone = balance c (put_card l x gone) r"
    using balance_balanced [of "put_card l x gone" r c] L [of x gone] b h that by (cases gone) auto
  have right: ?case if "put_card (Card_node c h l r) x gone = balance e l (put_card r y gone)" for e y
    using balance_balanced [of l "put_card r y gone" e] R [of y gone] b h that by (cases gone) auto
  consider (less) "precedes x c" | (more) "\<not> precedes x c" "precedes c x" | (put) "\<not> precedes x c" "\<not> precedes c x" "\<not> gone"
    | (lone) "\<not> precedes x c" "\<not> precedes c x" "gone" "l = No_node \<or> r = No_node"
    | (both) "\<not> precedes x c" "\<not> precedes c x" "gone" "l \<noteq> No_node" "r \<noteq> No_node" by blast
  then show ?case
  proof cases
    case less then show ?thesis by (intro left) simp
  next
    case more then show ?thesis by (intro right) simp
  next
    case put
    with balance_balanced [of l r x] b h show ?thesis by auto
  next
    case lone
    with b h show ?thesis by auto
  next
    case both then show ?thesis by (intro right [of "first_card c r" "first_card c r"]) (simp add: Let_def)
  qed
qed auto

text \<open>A balanced tree is shallow: its height is at most twice the logarithm of its size.\<close>

lemma balanced_shallow: "balanced t \<Longrightarrow> 2 ^ (node_height t div 2) \<le> tree_count t + 1"
proof (induction t)
  case (Card_node c h l r)
  then have l: "2 ^ (node_height l div 2) \<le> tree_count l + 1" and r: "2 ^ (node_height r div 2) \<le> tree_count r + 1"
    and h: "h = 1 + max (node_height l) (node_height r)" "node_height l \<le> node_height r + 1" "node_height r \<le> node_height l + 1"
    by simp_all
  show ?case
  proof (cases "h < 2")
    case False
    have half: "2 ^ ((h - 2) div 2) \<le> tree_count u + 1" if "2 ^ (node_height u div 2) \<le> tree_count u + 1" "h - 2 \<le> node_height u" for u
    proof -
      have "(h - 2) div 2 \<le> node_height u div 2" using that(2) by (rule div_le_mono)
      then have "(2::nat) ^ ((h - 2) div 2) \<le> 2 ^ (node_height u div 2)" by (rule power_increasing) simp
      with that(1) show ?thesis by linarith
    qed
    from False have "h div 2 = Suc ((h - 2) div 2)" by linarith
    then have "(2::nat) ^ (h div 2) = 2 ^ ((h - 2) div 2) + 2 ^ ((h - 2) div 2)" by simp
    also have "\<dots> \<le> (tree_count l + 1) + (tree_count r + 1)"
      using half [OF l] half [OF r] h by (intro add_mono) auto
    finally show ?thesis by simp
  next
    case True
    then have "h div 2 = 0" by simp
    then show ?thesis by simp
  qed
qed simp

section \<open>The walk\<close>

definition path_out :: "(queued_message \<times> card_tree) list \<Rightarrow> queued_message list" where
  "path_out path = concat (map (\<lambda>(c, r). c # inorder r) path)"

lemma path_out_simps [simp]: "path_out [] = []" "path_out ((c, r) # path) = c # inorder r @ path_out path"
  by (simp_all add: path_out_def)

lemma path_out_spine [simp]: "path_out (left_spine t path) = inorder t @ path_out path"
  by (induction t path rule: left_spine.induct) simp_all

lemma walk_path_out: "walk_path path = path_out path"
  by (induction path rule: walk_path.induct) simp_all

lemma path_out_descend:
  "in_order t \<Longrightarrow> path_out (descend p t path) = filter (\<lambda>y. p < qm_position y) (inorder t) @ path_out path"
proof (induction p t path rule: descend.induct)
  case (2 p c h l r path)
  have later: "qm_position a \<le> qm_position b" if "queue_key a < queue_key b" for a b using that by (auto simp: queue_key_def)
  show ?case
  proof (cases "p < qm_position c")
    case True
    have "\<forall>y\<in>set (inorder r). p < qm_position y" using 2(3) True later by fastforce
    then have "filter (\<lambda>y. p < qm_position y) (inorder r) = inorder r" by (simp add: filter_id_conv)
    with True 2 show ?thesis by simp
  next
    case False
    have "\<forall>y\<in>set (inorder l). \<not> p < qm_position y" using 2(3) False later by fastforce
    then have "filter (\<lambda>y. p < qm_position y) (inorder l) = []" by (simp add: filter_empty_conv)
    with False 2 show ?thesis by simp
  qed
qed simp

lemma after_card_filter:
  "in_order (ca_root s) \<Longrightarrow> after_card s x = filter (\<lambda>y. qm_position x < qm_position y) (inorder (ca_root s))"
  by (simp add: after_card_def walk_path_out path_out_descend)

section \<open>The candidates, as a map\<close>

definition candidate_map :: "candidates \<Rightarrow> string \<Rightarrow> queued_message option" where
  "candidate_map s = map_of (ca_byId s)"

text \<open>What the parts of the state say of one another.\<close>

definition candidates_ok :: "candidates \<Rightarrow> bool" where
  "candidates_ok s =
     (in_order (ca_root s) \<and> balanced (ca_root s) \<and> set (inorder (ca_root s)) = ran (candidate_map s) \<and>
      (\<forall>i c. candidate_map s i = Some c \<longrightarrow> qm_messageId c = i) \<and>
      ca_mailCount s = (\<Sum>c\<in>ran (candidate_map s). mail_weight c))"

lemma no_candidates_ok [simp]: "candidates_ok no_candidates" "candidate_map no_candidates = Map.empty"
  by (simp_all add: candidates_ok_def no_candidates_def candidate_map_def in_order_def)

lemma candidate_map_steps:
  "candidate_map (s\<lparr>ca_mailCount := n, ca_root := t, ca_byId := AList.delete i (ca_byId s)\<rparr>) = (candidate_map s)(i := None)"
  "candidate_map (s\<lparr>ca_mailCount := n, ca_root := t, ca_byId := AList.update i x (ca_byId s)\<rparr>) = (candidate_map s)(i \<mapsto> x)"
  "candidate_map (s\<lparr>ca_revision := k\<rparr>) = candidate_map s"
  by (simp_all add: candidate_map_def delete_conv' update_conv')

lemma candidates_finite: "finite (ran (candidate_map s))"
  unfolding candidate_map_def by (rule finite_ran [OF finite_dom_map_of])

lemma ran_delete: "(\<And>j c. m j = Some c \<Longrightarrow> qm_messageId c = j) \<Longrightarrow> m i = Some p \<Longrightarrow> ran (m(i := None)) = ran m - {p}"
  by (auto simp: ran_def) (metis option.inject)+

lemma remove_candidate:
  assumes ok: "candidates_ok s" and p: "candidate_map s i = Some p"
  shows "candidates_ok (s\<lparr>ca_mailCount := ca_mailCount s - mail_weight p, ca_root := put_card (ca_root s) p True,
    ca_byId := AList.delete i (ca_byId s)\<rparr>)" (is "candidates_ok ?s")
proof -
  note O = ok [unfolded candidates_ok_def]
  have map: "candidate_map ?s = (candidate_map s)(i := None)" by (rule candidate_map_steps)
  have ran: "ran (candidate_map ?s) = ran (candidate_map s) - {p}" unfolding map by (rule ran_delete) (use O p in auto)
  have own: "y = p" if "y \<in> set (inorder (ca_root s))" "queue_key y = queue_key p" for y
  proof -
    from that(1) O obtain j where j: "candidate_map s j = Some y" by (auto simp: ran_def)
    with O p that(2) have "j = i" by (auto simp: queue_key_def)
    with j p show ?thesis by simp
  qed
  have "set (inorder (ca_root ?s)) = ran (candidate_map ?s)"
    unfolding ran using O own by (auto simp: put_gone)
  moreover have "(\<Sum>c\<in>ran (candidate_map ?s). mail_weight c) = ca_mailCount ?s"
    unfolding ran using O p candidates_finite [of s] by (simp add: sum_diff1 ranI)
  moreover have "\<forall>j c. candidate_map ?s j = Some c \<longrightarrow> qm_messageId c = j" unfolding map using O by auto
  ultimately show ?thesis using O put_balanced [of "ca_root s" p True] by (simp add: candidates_ok_def)
qed

lemma add_candidate:
  assumes ok: "candidates_ok s" and n: "candidate_map s (qm_messageId x) = None"
  shows "candidates_ok (s\<lparr>ca_mailCount := ca_mailCount s + mail_weight x, ca_root := put_card (ca_root s) x False,
    ca_byId := AList.update (qm_messageId x) x (ca_byId s)\<rparr>)" (is "candidates_ok ?s")
proof -
  note O = ok [unfolded candidates_ok_def]
  have map: "candidate_map ?s = (candidate_map s)(qm_messageId x \<mapsto> x)" by (rule candidate_map_steps)
  have ran: "ran (candidate_map ?s) = insert x (ran (candidate_map s))" unfolding map using n by (rule ran_map_upd)
  have other: "qm_messageId y \<noteq> qm_messageId x" if "y \<in> ran (candidate_map s)" for y
    using that O n by (auto simp: ran_def)
  then have fresh: "queue_key y \<noteq> queue_key x" if "y \<in> set (inorder (ca_root s))" for y
    using that O by (auto simp: queue_key_def)
  have "set (inorder (ca_root ?s)) = ran (candidate_map ?s)"
    unfolding ran using O fresh by (auto simp: put_card_in linorder_neq_iff)
  moreover have "(\<Sum>c\<in>ran (candidate_map ?s). mail_weight c) = ca_mailCount ?s"
    unfolding ran using O other candidates_finite [of s] by (subst sum.insert) auto
  moreover have "\<forall>j c. candidate_map ?s j = Some c \<longrightarrow> qm_messageId c = j" unfolding map using O by auto
  ultimately show ?thesis using O put_balanced [of "ca_root s" x False] by (simp add: candidates_ok_def)
qed

text \<open>\<open>set\<close> is one update of the map.\<close>

lemma set_candidate_map:
  assumes ok: "candidates_ok s"
  shows "candidates_ok (set_candidate s x b) \<and>
    candidate_map (set_candidate s x b) = (candidate_map s)(qm_messageId x := (if b then Some x else None))"
proof -
  let ?i = "qm_messageId x"
  have bump: "candidates_ok (s'\<lparr>ca_revision := k\<rparr>) = candidates_ok s'" for s' k
    by (simp add: candidates_ok_def candidate_map_def)
  consider (same) "candidate_map s ?i = Some x" "b" | (absent) "candidate_map s ?i = None" "\<not> b"
    | (new) "candidate_map s ?i = None" "b" | (gone) p where "candidate_map s ?i = Some p" "\<not> b"
    | (replaced) p where "candidate_map s ?i = Some p" "b" "p \<noteq> x" by (cases "candidate_map s ?i"; cases b) auto
  then show ?thesis
  proof cases
    case same with ok show ?thesis by (simp add: set_candidate_def Let_def candidate_map_def map_upd_triv)
  next
    case absent with ok show ?thesis by (simp add: set_candidate_def Let_def candidate_map_def fun_upd_idem)
  next
    case new
    with add_candidate [OF ok new(1)] show ?thesis
      by (simp add: set_candidate_def Let_def bump candidate_map_steps candidate_map_def [of s])
  next
    case gone
    with remove_candidate [OF ok gone(1)] show ?thesis
      by (simp add: set_candidate_def Let_def bump candidate_map_steps candidate_map_def [of s])
  next
    case replaced
    let ?r = "s\<lparr>ca_mailCount := ca_mailCount s - mail_weight p, ca_root := put_card (ca_root s) p True,
      ca_byId := AList.delete ?i (ca_byId s)\<rparr>"
    have "candidate_map ?r ?i = None" by (simp add: candidate_map_steps)
    from add_candidate [OF remove_candidate [OF ok replaced(1)] this] replaced show ?thesis
      by (simp add: set_candidate_def Let_def bump candidate_map_steps candidate_map_def [of s] del: fun_upd_apply)
        (simp add: candidate_map_def update_conv' delete_conv')
  qed
qed

lemma hasMail_exists:
  assumes "candidates_ok s"
  shows "hasMail s \<longleftrightarrow> (\<exists>c\<in>ran (candidate_map s). orchestrationMailNotice (mb_from (qm_body c)))"
proof -
  let ?M = "{c \<in> ran (candidate_map s). orchestrationMailNotice (mb_from (qm_body c))}"
  have "ca_mailCount s = int (card ?M)"
    using assms candidates_finite [of s]
    by (simp add: candidates_ok_def mail_weight_def sum.If_cases Int_def)
  moreover have "finite ?M" using candidates_finite [of s] by simp
  ultimately show ?thesis by (auto simp: hasMail_def card_gt_0_iff)
qed

text \<open>\<open>clear\<close> forgets every card.\<close>

lemma clear_candidates_map: "candidates_ok (clear_candidates s) \<and> candidate_map (clear_candidates s) = Map.empty"
  by (simp add: clear_candidates_def candidates_ok_def candidate_map_def in_order_def)

end
