(* ===== verification/Queue_Operations.thy ===== *)
theory Queue_Operations
  imports Queue_Journal Queue_Candidates
begin

text \<open>
  What the queue's owner does (\<open>journal-queued-messages.ts\<close>, \<open>queued-message-move.ts\<close>,
  \<open>journal-queue-mail-eligibility.ts\<close>): list, insert, hold, withdraw and move cards by rows of the journal,
  choose the card to hand over next, and hand it over. Rows are written one after the other on one lane,
  so a plan is made and folded in one step. Edits of a card's text, uploads and the operations' receipts
  are left out.
\<close>

section \<open>The list\<close>

definition isLiveJournalQueueCard :: "queue_journal \<Rightarrow> queued_message \<Rightarrow> bool" where
  "isLiveJournalQueueCard s c =
     (qm_state c = Card_waiting \<or> qm_state c = Card_returned \<or>
      (qm_state c = Card_dispatched \<and>
       (case (if truthy (qm_consumedAs c) then submission_of s (the (qm_consumedAs c)) else None) of
          Some x \<Rightarrow> isQueuedAgentJournalSubmission x | None \<Rightarrow> False)))"

definition queueNeedsReopen :: "queue_journal \<Rightarrow> queued_message list \<Rightarrow> bool" where
  "queueNeedsReopen s cards =
     (\<exists>c\<in>set cards. qm_state c = Card_waiting \<or>
        (qm_state c = Card_dispatched \<and>
         (case (if truthy (qm_consumedAs c) then submission_of s (the (qm_consumedAs c)) else None) of
            Some x \<Rightarrow> sb_dispatchState x = Ds_pending \<or> (sb_dispatchState x = Ds_unknown \<and> \<not> sb_recovered x)
          | None \<Rightarrow> False)))"

text \<open>Live cards by position; cards of one position stand in the order they were added.\<close>

definition list_cards :: "queue_journal \<Rightarrow> queued_message list" where
  "list_cards s = sort_key qm_position (filter (isLiveJournalQueueCard s) (map snd (qj_cards s)))"

definition last_position :: "queue_journal \<Rightarrow> int" where
  "last_position s = foldl max 0 (map (qm_position \<circ> snd) (qj_cards s))"

section \<open>Writes\<close>

definition write_change ::
  "(message_body \<Rightarrow> string) \<Rightarrow> int \<Rightarrow> queue_journal \<Rightarrow> string \<times> queue_change \<Rightarrow> queue_journal" where
  "write_change fp ts s x =
     applyJournalRow fp False s \<lparr>jr_seq = qj_lastSequence s + 1, jr_fence = qj_highestFence s, jr_ts = ts,
       jr_content = Queue_row (fst x) (snd x)\<rparr>"

definition write_changes ::
  "(message_body \<Rightarrow> string) \<Rightarrow> int \<Rightarrow> queue_journal \<Rightarrow> (string \<times> queue_change) list \<Rightarrow> queue_journal" where
  "write_changes fp ts s changes = foldl (write_change fp ts) s changes"

text \<open>An id that is known is the same accepted card again, never new work.\<close>

definition insert_card ::
  "(message_body \<Rightarrow> string) \<Rightarrow> int \<Rightarrow> queue_journal \<Rightarrow> string \<Rightarrow> message_body \<Rightarrow> string option \<Rightarrow> queue_journal" where
  "insert_card fp ts s i body holdReason =
     write_changes fp ts s
       (if card_of s i \<noteq> None then []
        else [(i, Queued \<lparr>qd_body = body, qd_position = last_position s + 1,
                qd_queuedAt = Some \<lparr>jc_epoch = qj_epoch s, jc_sequence = qj_lastSequence s\<rparr>,
                qd_holdReason = holdReason, qd_attempt = None, qd_recovers = None, qd_returned = None\<rparr>)])"

definition hold_cards ::
  "(message_body \<Rightarrow> string) \<Rightarrow> int \<Rightarrow> queue_journal \<Rightarrow> string list \<Rightarrow> string \<Rightarrow> queue_journal" where
  "hold_cards fp ts s ids reason =
     write_changes fp ts s
       (List.map_filter (\<lambda>i. case card_of s i of
          Some c \<Rightarrow> if qm_state c = Card_waiting \<and> qm_holdReason c \<noteq> Some reason then Some (i, Held reason) else None
        | None \<Rightarrow> None) ids)"

definition withdraw_cards ::
  "(message_body \<Rightarrow> string) \<Rightarrow> int \<Rightarrow> queue_journal \<Rightarrow> string list \<Rightarrow> queued_message list \<times> queue_journal" where
  "withdraw_cards fp ts s ids =
     (let cards = List.map_filter (\<lambda>i. case card_of s i of
            Some c \<Rightarrow> if isUnsettledQueuedMessage c then Some c else None | None \<Rightarrow> None) ids
      in (map (\<lambda>c. c\<lparr>qm_state := Card_withdrawn, qm_holdReason := None\<rparr>) cards,
          write_changes fp ts s (map (\<lambda>c. (qm_messageId c, Withdrawn)) cards)))"

section \<open>Moving a card\<close>

datatype move_anchor = Before_message "string option" | After_message string

datatype move_status = Move_moved | Move_unchanged | Move_gone | Move_stale

definition anchor_id :: "move_anchor \<Rightarrow> string option" where
  "anchor_id a = (case a of Before_message x \<Rightarrow> x | After_message i \<Rightarrow> Some i)"

definition queuedMessageMovePlan ::
  "queued_message list \<Rightarrow> string \<Rightarrow> move_anchor \<Rightarrow> (string \<times> queue_change) list \<times> move_status" where
  "queuedMessageMovePlan cards i anchor =
     (let unsettled = filter isUnsettledQueuedMessage cards in
      case find (\<lambda>c. qm_messageId c = i) unsettled of
        None \<Rightarrow> ([], Move_gone)
      | Some moving \<Rightarrow>
          if anchor_id anchor = Some i then ([], Move_unchanged)
          else
            let rest = filter (\<lambda>c. qm_messageId c \<noteq> i) unsettled;
                neighbor = (case anchor_id anchor of
                  None \<Rightarrow> Some (length rest)
                | Some a \<Rightarrow> find_index (\<lambda>c. qm_messageId c = a) rest)
            in case neighbor of
                 None \<Rightarrow> ([], Move_stale)
               | Some n \<Rightarrow>
                   let index = n + (case anchor of After_message a \<Rightarrow> 1 | Before_message b \<Rightarrow> 0);
                       placed = take index rest @ moving # drop index rest;
                       changes = List.map_filter (\<lambda>(c, u).
                         if qm_position u = qm_position c then None
                         else Some (qm_messageId c, Moved (qm_position u))) (zip placed unsettled)
                   in (changes, if changes = [] then Move_unchanged else Move_moved))"

definition move_card ::
  "(message_body \<Rightarrow> string) \<Rightarrow> int \<Rightarrow> queue_journal \<Rightarrow> string \<Rightarrow> move_anchor \<Rightarrow> queue_journal \<times> move_status" where
  "move_card fp ts s i anchor =
     (let (changes, status) = queuedMessageMovePlan (list_cards s) i anchor in (write_changes fp ts s changes, status))"

section \<open>The next card\<close>

text \<open>
  The head is the candidate the order of the chat's inputs names, and whether that order pauses a card
  is its answer too; both are arguments here, and so is whether a card's mail can be confirmed now.
\<close>

record selection =
  sl_get :: "string \<Rightarrow> queued_message option"
  sl_paused :: "queued_message \<Rightarrow> bool"
  sl_editHeld :: "string \<Rightarrow> bool"
  sl_unavailable :: "queued_message \<Rightarrow> bool"

definition ready_card :: "selection \<Rightarrow> queued_message \<Rightarrow> bool" where
  "ready_card x c = (qm_state c \<noteq> Card_returned \<and> \<not> sl_paused x c \<and> \<not> sl_editHeld x (qm_messageId c))"

definition current_card :: "selection \<Rightarrow> queued_message \<Rightarrow> queued_message" where
  "current_card x row = (case sl_get x (qm_messageId row) of Some c \<Rightarrow> c | None \<Rightarrow> row)"

definition is_mail :: "queued_message \<Rightarrow> bool" where
  "is_mail c = orchestrationMailNotice (mb_from (qm_body c))"

fun past_mail :: "selection \<Rightarrow> queued_message list \<Rightarrow> queued_message option" where
  "past_mail x [] = None"
| "past_mail x (row # rows) =
     (let c = current_card x row in
      if \<not> ready_card x c then None else if \<not> is_mail c then Some c else past_mail x rows)"

datatype steer_kind = Steer_mail | Steer_pass | Steer_stop

definition steer_candidate :: "selection \<Rightarrow> queued_message \<Rightarrow> steer_kind" where
  "steer_candidate x c =
     (if \<not> ready_card x c then Steer_stop
      else if is_mail c then Steer_mail
      else if mb_command (qm_body c) \<noteq> None \<or> mb_from (qm_body c) \<noteq> From_person then Steer_stop
      else Steer_pass)"

fun past_person :: "selection \<Rightarrow> queued_message list \<Rightarrow> queued_message option" where
  "past_person x [] = None"
| "past_person x (row # rows) =
     (let c = current_card x row in
      case steer_candidate x c of
        Steer_pass \<Rightarrow> past_person x rows
      | Steer_mail \<Rightarrow> Some c
      | Steer_stop \<Rightarrow> None)"

definition nextEligibleQueuedCard :: "queued_message option \<Rightarrow> selection \<Rightarrow> candidates \<Rightarrow> bool \<Rightarrow> queued_message option" where
  "nextEligibleQueuedCard identity x candidates steer =
     (case Option.bind identity (\<lambda>h. sl_get x (qm_messageId h)) of
        None \<Rightarrow> None
      | Some head \<Rightarrow>
          if \<not> ready_card x head then None
          else if steer then
            if \<not> hasMail candidates then None
            else
              let found = (case steer_candidate x head of
                    Steer_mail \<Rightarrow> Some head
                  | Steer_stop \<Rightarrow> None
                  | Steer_pass \<Rightarrow> past_person x (after_card candidates head))
              in case found of Some c \<Rightarrow> if sl_unavailable x c then None else Some c | None \<Rightarrow> None
          else if \<not> is_mail head \<or> \<not> sl_unavailable x head then Some head
          else past_mail x (after_card candidates head))"

section \<open>Handing a card over\<close>

datatype owed = Owed | Owed_stale | Owed_unavailable

datatype consume_error = Not_consumable | Not_owed owed | Submission_id_used

record consume =
  cn_messageId :: string
  cn_expect :: card_state
  cn_yieldsToPause :: bool
  cn_owed :: owed

definition queuedCardConsumable :: "consume \<Rightarrow> string \<Rightarrow> string \<Rightarrow> queued_message option \<Rightarrow> queued_message option \<Rightarrow> bool" where
  "queuedCardConsumable n consumedAs fingerprint c following =
     (case c of
        None \<Rightarrow> False
      | Some q \<Rightarrow> qm_state q = cn_expect n \<and> qm_fingerprint q = fingerprint \<and> consumedAs \<noteq> cn_messageId n \<and>
          (\<not> cn_yieldsToPause n \<or> map_option qm_messageId following = Some (cn_messageId n)))"

text \<open>The hand-off of a card: the checks on the write lane, then the submission's row that names the card.\<close>

definition consume_card ::
  "(message_body \<Rightarrow> string) \<Rightarrow> int \<Rightarrow> nat \<Rightarrow> queue_journal \<Rightarrow> string \<Rightarrow> string \<Rightarrow> bool \<Rightarrow> consume \<Rightarrow> queued_message option \<Rightarrow>
   consume_error + queue_journal" where
  "consume_card fp ts fence s clientMessageId fingerprint handover n following =
     (if \<not> queuedCardConsumable n clientMessageId fingerprint (card_of s (cn_messageId n)) following then Inl Not_consumable
      else if cn_owed n \<noteq> Owed then Inl (Not_owed (cn_owed n))
      else if submission_of s clientMessageId \<noteq> None then Inl Submission_id_used
      else Inr (applyJournalRow fp False s \<lparr>jr_seq = qj_lastSequence s + 1, jr_fence = fence, jr_ts = ts,
        jr_content = Submission_row \<lparr>sr_clientMessageId = clientMessageId, sr_payloadFingerprint = fingerprint,
          sr_handoverRecorded = handover, sr_queuedMessageId = Some (cn_messageId n)\<rparr>\<rparr>))"

text \<open>The provider's answer to a hand-off, and a late acceptance, which settled sends ignore.\<close>

definition resolve_dispatch ::
  "(message_body \<Rightarrow> string) \<Rightarrow> int \<Rightarrow> nat \<Rightarrow> queue_journal \<Rightarrow> dispatch_row \<Rightarrow> queue_journal" where
  "resolve_dispatch fp ts fence s row =
     applyJournalRow fp False s \<lparr>jr_seq = qj_lastSequence s + 1, jr_fence = fence, jr_ts = ts, jr_content = Dispatch_row row\<rparr>"

definition acceptLate ::
  "(message_body \<Rightarrow> string) \<Rightarrow> int \<Rightarrow> nat \<Rightarrow> queue_journal \<Rightarrow> dispatch_row \<Rightarrow> queue_journal" where
  "acceptLate fp ts fence s row =
     (if journalDispatchRowApplies (submission_of s (dr_clientMessageId row)) then resolve_dispatch fp ts fence s row else s)"

end
