(* ===== verification/Queue_Kept.thy ===== *)
theory Queue_Kept
  imports Queue_Operations
begin

text \<open>
  What rows keep: the tables of cards and submissions keep their keys, a settled send stays settled, and a
  card handed off stays handed off until its send is refused with proof that it can go again. The steps
  of a journal are the rows its owner writes; what the chat's items do to it is any change of the shown
  items, and any acceptance a provider's item gives a send.
\<close>

section \<open>Reads after writes\<close>

lemma card_of_setCard [simp]: "card_of (setCard s c) i = (if i = qm_messageId c then Some c else card_of s i)"
  by (simp add: setCard_def card_of_def update_conv')

lemma setCard_rest [simp]:
  "qj_submissions (setCard s c) = qj_submissions s" "submission_of (setCard s c) a = submission_of s a"
  "qj_items (setCard s c) = qj_items s" "qj_lastSequence (setCard s c) = qj_lastSequence s"
  "qj_highestFence (setCard s c) = qj_highestFence s" "qj_epoch (setCard s c) = qj_epoch s"
  "qj_marks (setCard s c) = qj_marks s" "qj_latestAccepted (setCard s c) = qj_latestAccepted s"
  by (simp_all add: setCard_def submission_of_def)

lemma submission_of_put [simp]:
  "submission_of (put_submission s x) a = (if a = sb_clientMessageId x then Some x else submission_of s a)"
  "card_of (put_submission s x) i = card_of s i" "qj_cards (put_submission s x) = qj_cards s"
  "qj_items (put_submission s x) = qj_items s"
  by (simp_all add: put_submission_def submission_of_def card_of_def update_conv')

lemma noteTurnAccepted_rest [simp]:
  "submission_of (noteTurnAccepted s x) a = submission_of s a" "card_of (noteTurnAccepted s x) i = card_of s i"
  "qj_cards (noteTurnAccepted s x) = qj_cards s" "qj_submissions (noteTurnAccepted s x) = qj_submissions s"
  by (simp_all add: noteTurnAccepted_def submission_of_def card_of_def split: option.split)

lemma reads_of_updates [simp]:
  "submission_of (s\<lparr>qj_lastSequence := n\<rparr>) a = submission_of s a" "submission_of (s\<lparr>qj_highestFence := n\<rparr>) a = submission_of s a"
  "submission_of (s\<lparr>qj_marks := k\<rparr>) a = submission_of s a" "submission_of (s\<lparr>qj_items := t\<rparr>) a = submission_of s a"
  "card_of (s\<lparr>qj_lastSequence := n\<rparr>) i = card_of s i" "card_of (s\<lparr>qj_highestFence := n\<rparr>) i = card_of s i"
  "card_of (s\<lparr>qj_marks := k\<rparr>) i = card_of s i" "card_of (s\<lparr>qj_items := t\<rparr>) i = card_of s i"
  by (simp_all add: submission_of_def card_of_def)

section \<open>Keys\<close>

definition journal_ok :: "queue_journal \<Rightarrow> bool" where
  "journal_ok s =
     (distinct (map fst (qj_cards s)) \<and> (\<forall>(i, c)\<in>set (qj_cards s). qm_messageId c = i) \<and>
      distinct (map fst (qj_submissions s)) \<and> (\<forall>(a, x)\<in>set (qj_submissions s). sb_clientMessageId x = a))"

lemma journal_okD:
  assumes "journal_ok s"
  shows "card_of s i = Some c \<Longrightarrow> qm_messageId c = i" "submission_of s a = Some x \<Longrightarrow> sb_clientMessageId x = a"
  using assms by (auto simp: journal_ok_def card_of_def submission_of_def dest!: map_of_SomeD)

lemma set_AList_update: "distinct (map fst al) \<Longrightarrow> set (AList.update k v al) = {(j, w) \<in> set al. j \<noteq> k} \<union> {(k, v)}"
proof (induction al)
  case (Cons x al)
  obtain j w where x: "x = (j, w)" by (cases x)
  show ?case
  proof (cases "j = k")
    case True
    with Cons.prems x have "\<forall>(i, u)\<in>set al. i \<noteq> k" by force
    with True x show ?thesis by auto
  next
    case False
    with Cons x show ?thesis by auto
  qed
qed simp

lemma journal_ok_setCard [simp]: "journal_ok s \<Longrightarrow> journal_ok (setCard s c)"
  by (auto simp: journal_ok_def setCard_def distinct_update set_AList_update)

lemma journal_ok_put [simp]: "journal_ok s \<Longrightarrow> journal_ok (put_submission s x)"
  by (auto simp: journal_ok_def put_submission_def distinct_update set_AList_update)

lemma journal_ok_updates [simp]:
  "journal_ok (s\<lparr>qj_lastSequence := n\<rparr>) = journal_ok s" "journal_ok (s\<lparr>qj_highestFence := n\<rparr>) = journal_ok s"
  "journal_ok (s\<lparr>qj_marks := k\<rparr>) = journal_ok s" "journal_ok (s\<lparr>qj_items := t\<rparr>) = journal_ok s"
  "journal_ok (noteTurnAccepted s x) = journal_ok s"
  by (simp_all add: journal_ok_def noteTurnAccepted_def split: option.split)

lemma journal_ok_settle [simp]: "journal_ok s \<Longrightarrow> journal_ok (settleHandOffInDoubt k s a)"
  by (auto simp: settleHandOffInDoubt_def Let_def split: option.split)

lemma journal_ok_queue_row [simp]: "journal_ok s \<Longrightarrow> journal_ok (applyQueueRow fp k s i change)"
  by (cases change; cases "card_of s i") (simp_all add: applyQueueRow_def Let_def split: option.split)

lemma journal_ok_fold [simp]: "journal_ok s \<Longrightarrow> journal_ok (foldJournalQueueRow fp k s row)"
  by (cases row) (simp_all add: foldJournalQueueRow_def split: option.split)

lemma journal_ok_dispatch [simp]: "journal_ok s \<Longrightarrow> journal_ok (applyJournalDispatchRow s fence ts r)"
  by (simp add: applyJournalDispatchRow_def Let_def split: option.split)

lemma journal_ok_row [simp]: "journal_ok s \<Longrightarrow> journal_ok (applyJournalRow fp k s row)"
  unfolding applyJournalRow_def applyJournalRowFacts_def Let_def
  by (rule journal_ok_fold, cases "jr_content row") (simp_all add: applyJournalSubmission_def)

lemma journal_ok_spend [simp]: "journal_ok s \<Longrightarrow> journal_ok (spendReportedCommandCards s)"
proof -
  have "journal_ok s \<Longrightarrow> journal_ok (foldl spend_reported s is)" for "is"
    by (induction "is" arbitrary: s) (auto simp: spend_reported_def split: option.split)
  then show "journal_ok s \<Longrightarrow> journal_ok (spendReportedCommandCards s)" by (simp add: spendReportedCommandCards_def)
qed

section \<open>Settled sends\<close>

text \<open>The part of a send that its settlement rests on.\<close>

definition settled_same :: "submission \<Rightarrow> submission \<Rightarrow> bool" where
  "settled_same x y =
     (sb_dispatchState y = sb_dispatchState x \<and> sb_reason y = sb_reason x \<and> sb_rejection y = sb_rejection x \<and>
      sb_handoverRecorded y = sb_handoverRecorded x \<and> sb_handedOverAt y = sb_handedOverAt x \<and>
      sb_answeredInTurn y = sb_answeredInTurn x \<and> sb_clientMessageId y = sb_clientMessageId x)"

lemma settled_same_refl [simp]: "settled_same x x"
  by (simp add: settled_same_def)

lemma settled_same_trans: "settled_same x y \<Longrightarrow> settled_same y z \<Longrightarrow> settled_same x z"
  by (simp add: settled_same_def)

lemma settled_same_outcome: "settled_same x y \<Longrightarrow> queuedHandOffOutcome y = queuedHandOffOutcome x"
  by (simp add: settled_same_def queuedHandOffOutcome_def agentJournalSubmissionProvenUnwritten_def answered_in_a_turn_def)

lemma place_same [simp]: "settled_same x (placeQueuedHandOffInDoubt x)"
  by (simp add: settled_same_def placeQueuedHandOffInDoubt_def)

text \<open>A settled send \<open>a\<close> stays as it was settled.\<close>

definition keeps_settled_send :: "string \<Rightarrow> queue_journal \<Rightarrow> queue_journal \<Rightarrow> bool" where
  "keeps_settled_send a s s' =
     (\<forall>x. submission_of s a = Some x \<longrightarrow> sb_dispatchState x = Ds_rejected \<or> sb_dispatchState x = Ds_accepted \<longrightarrow>
        (\<exists>y. submission_of s' a = Some y \<and> settled_same x y))"

lemma keeps_settled_refl: "(\<And>x. submission_of s' a = submission_of s a) \<Longrightarrow> keeps_settled_send a s s'"
  by (auto simp: keeps_settled_send_def)

lemma keeps_settled_trans:
  assumes "keeps_settled_send a s t" and "keeps_settled_send a t u"
  shows "keeps_settled_send a s u"
  unfolding keeps_settled_send_def
proof (intro allI impI)
  fix x assume x: "submission_of s a = Some x" "sb_dispatchState x = Ds_rejected \<or> sb_dispatchState x = Ds_accepted"
  with assms(1) obtain y where y: "submission_of t a = Some y" "settled_same x y" unfolding keeps_settled_send_def by blast
  from y(2) x(2) have "sb_dispatchState y = Ds_rejected \<or> sb_dispatchState y = Ds_accepted" by (simp add: settled_same_def)
  with assms(2) y(1) obtain z where "submission_of u a = Some z" "settled_same y z" unfolding keeps_settled_send_def by blast
  with settled_same_trans [OF y(2)] show "\<exists>y. submission_of u a = Some y \<and> settled_same x y" by blast
qed

lemma keeps_settled_put:
  assumes "\<And>x. submission_of s (sb_clientMessageId y) = Some x \<Longrightarrow>
      sb_dispatchState x = Ds_rejected \<or> sb_dispatchState x = Ds_accepted \<Longrightarrow> settled_same x y"
  shows "keeps_settled_send a s (put_submission s y)"
  using assms by (simp add: keeps_settled_send_def)

lemma settle_keeps:
  assumes "journal_ok s"
  shows "keeps_settled_send a s (settleHandOffInDoubt False s b)"
proof (cases "submission_of s b")
  case None
  then show ?thesis by (simp add: settleHandOffInDoubt_def keeps_settled_send_def)
next
  case (Some x)
  have "sb_clientMessageId (placeQueuedHandOffInDoubt x) = b"
    using journal_okD(2) [OF assms Some] place_same [of x] by (simp only: settled_same_def)
  then have "keeps_settled_send a s (put_submission s (placeQueuedHandOffInDoubt x))"
    by (intro keeps_settled_put) (simp add: Some)
  moreover have "keeps_settled_send a s s" by (rule keeps_settled_refl) simp
  ultimately show ?thesis by (simp add: settleHandOffInDoubt_def Some Let_def)
qed

lemma card_of_settle [simp]: "card_of (settleHandOffInDoubt k s a) i = card_of s i"
  by (simp add: settleHandOffInDoubt_def Let_def split: option.split)

lemma queue_row_keeps: "journal_ok s \<Longrightarrow> keeps_settled_send a s (applyQueueRow fp False s i change)"
proof (cases change)
  case (Queued d)
  assume ok: "journal_ok s"
  let ?c = "queuedCardFromChange fp s i d"
  have base: "keeps_settled_send a s (setCard s ?c)" by (rule keeps_settled_refl) simp
  note S = settle_keeps [THEN keeps_settled_trans [OF base]]
  show ?thesis
    unfolding applyQueueRow_def Queued Let_def queue_change.case
    using ok base
    by (auto split: option.split intro!: S keeps_settled_trans [OF S settle_keeps] keeps_settled_trans [OF base settle_keeps])
qed (auto simp: applyQueueRow_def Let_def intro!: keeps_settled_refl split: option.split)

lemma dispatch_keeps:
  assumes "journal_ok s"
  shows "keeps_settled_send a s (applyJournalDispatchRow s fence ts r)"
proof (cases "submission_of s (dr_clientMessageId r)")
  case None
  then show ?thesis by (simp add: applyJournalDispatchRow_def keeps_settled_send_def)
next
  case (Some x)
  have same: "keeps_settled_send a s s" by (rule keeps_settled_refl) simp
  show ?thesis
  proof (cases "journalDispatchRowApplies (Some x)")
    case True
    let ?y = "dispatched_submission fence ts r x"
    have id: "sb_clientMessageId ?y = dr_clientMessageId r"
      using journal_okD(2) [OF assms Some] by (simp add: dispatched_submission_def Let_def)
    have "keeps_settled_send a s (put_submission s ?y)"
      by (rule keeps_settled_put) (use True in \<open>auto simp: id Some journalDispatchRowApplies_def\<close>)
    moreover have "keeps_settled_send a s (noteTurnAccepted t y) = keeps_settled_send a s t" for t y
      by (simp add: keeps_settled_send_def)
    ultimately show ?thesis using True by (simp add: applyJournalDispatchRow_def Some Let_def)
  next
    case False
    with same show ?thesis by (simp add: applyJournalDispatchRow_def Some)
  qed
qed

lemma card_of_dispatch [simp]: "card_of (applyJournalDispatchRow s fence ts r) i = card_of s i"
  by (simp add: applyJournalDispatchRow_def Let_def split: option.split)

lemma keeps_settled_update:
  "keeps_settled_send a (s\<lparr>qj_lastSequence := n, qj_highestFence := k\<rparr>) t = keeps_settled_send a s t"
  by (simp add: keeps_settled_send_def)

lemma accept_keeps:
  assumes "journal_ok s"
  shows "keeps_settled_send a s (acceptSubmissionFromProviderItem s fence p b)"
    and "journal_ok (acceptSubmissionFromProviderItem s fence p b)"
    and "card_of (acceptSubmissionFromProviderItem s fence p b) i = card_of s i"
proof -
  show "journal_ok (acceptSubmissionFromProviderItem s fence p b)"
    using assms by (simp add: acceptSubmissionFromProviderItem_def Let_def split: option.split)
  show "card_of (acceptSubmissionFromProviderItem s fence p b) i = card_of s i"
    by (simp add: acceptSubmissionFromProviderItem_def Let_def split: option.split)
  show "keeps_settled_send a s (acceptSubmissionFromProviderItem s fence p b)"
    using journal_okD(2) [OF assms, of b]
    by (auto simp: acceptSubmissionFromProviderItem_def Let_def keeps_settled_send_def journalDispatchRowApplies_def
        split: option.split)
qed

section \<open>The steps of a journal\<close>

text \<open>
  The rows the queue's owner and the sender write, and what the chat's items do: they change which items
  are shown and accept sends.
\<close>

inductive queue_step :: "(message_body \<Rightarrow> string) \<Rightarrow> queue_journal \<Rightarrow> queue_journal \<Rightarrow> bool" for fp where
  change_row: "(\<And>d. change \<noteq> Queued d) \<Longrightarrow> queue_step fp s (write_change fp ts s (i, change))"
| insert_row: "queue_step fp s (insert_card fp ts s i body holdReason)"
| consume_row: "cn_expect n \<noteq> Card_dispatched \<Longrightarrow> cn_expect n \<noteq> Card_withdrawn \<Longrightarrow>
    consume_card fp ts fence s m fingerprint handover n following = Inr s' \<Longrightarrow> queue_step fp s s'"
| send_row: "submission_of s (sr_clientMessageId r) = None \<Longrightarrow> sr_queuedMessageId r = None \<Longrightarrow>
    queue_step fp s (applyJournalRow fp False s \<lparr>jr_seq = n, jr_fence = fence, jr_ts = ts, jr_content = Submission_row r\<rparr>)"
| dispatch_step: "queue_step fp s (resolve_dispatch fp ts fence s row)"
| mark_step: "queue_step fp s (applyJournalRow fp False s \<lparr>jr_seq = n, jr_fence = fence, jr_ts = ts, jr_content = Mark_row r\<rparr>)"
| items_step: "queue_step fp s (spendReportedCommandCards (acceptSubmissionFromProviderItem s fence p a\<lparr>qj_items := items\<rparr>))"

inductive queue_steps :: "(message_body \<Rightarrow> string) \<Rightarrow> queue_journal \<Rightarrow> queue_journal \<Rightarrow> bool" for fp where
  queue_refl: "queue_steps fp s s"
| queue_next: "queue_steps fp s t \<Longrightarrow> queue_step fp t u \<Longrightarrow> queue_steps fp s u"

text \<open>A card that \<open>a\<close> took: handed off as it, or withdrawn since.\<close>

definition taken :: "queue_journal \<Rightarrow> string \<Rightarrow> string \<Rightarrow> bool" where
  "taken s i a =
     (\<exists>c. card_of s i = Some c \<and> (qm_state c = Card_withdrawn \<or> (qm_state c = Card_dispatched \<and> qm_consumedAs c = Some a)))"

text \<open>The send \<open>a\<close> was refused, with a failure to show or with proof that it never reached the agent.\<close>

definition refused_for_good :: "queue_journal \<Rightarrow> string \<Rightarrow> bool" where
  "refused_for_good s a =
     (\<exists>x. submission_of s a = Some x \<and> sb_dispatchState x = Ds_rejected \<and> queuedHandOffOutcome x \<noteq> Outcome_in_doubt)"

lemma refused_kept: "keeps_settled_send a s t \<Longrightarrow> refused_for_good s a \<Longrightarrow> refused_for_good t a"
  unfolding keeps_settled_send_def refused_for_good_def
  by (metis settled_same_def settled_same_outcome)

lemma taken_cong: "card_of t i = card_of s i \<Longrightarrow> taken t i a = taken s i a"
  by (simp add: taken_def)

lemma write_change_parts:
  assumes "\<And>d. change \<noteq> Queued d" and "journal_ok s"
  shows "keeps_settled_send a s (write_change fp ts s (j, change))" and "taken s i a \<Longrightarrow> taken (write_change fp ts s (j, change)) i a"
    and "journal_ok (write_change fp ts s (j, change))"
proof -
  let ?s = "s\<lparr>qj_lastSequence := max (qj_lastSequence s) (qj_lastSequence s + 1), qj_highestFence := max (qj_highestFence s) (qj_highestFence s)\<rparr>"
  have ok: "journal_ok ?s" using assms(2) by simp
  have w: "write_change fp ts s (j, change) = applyQueueRow fp False ?s j change"
    by (simp add: write_change_def applyJournalRow_def applyJournalRowFacts_def foldJournalQueueRow_def Let_def)
  show "keeps_settled_send a s (write_change fp ts s (j, change))"
    using queue_row_keeps [OF ok, of a fp j change] unfolding w keeps_settled_update .
  show "journal_ok (write_change fp ts s (j, change))" unfolding w using ok by simp
  have id: "qm_messageId c = j" if "card_of s j = Some c" for c using journal_okD(1) [OF assms(2) that] .
  show "taken s i a \<Longrightarrow> taken (write_change fp ts s (j, change)) i a"
    unfolding w using assms(1) id
    by (cases change; cases "card_of s j") (auto simp: applyQueueRow_def Let_def taken_def)
qed

text \<open>What one step does to a send \<open>a\<close> and the card \<open>i\<close> it took.\<close>

definition step_keeps :: "string \<Rightarrow> string \<Rightarrow> queue_journal \<Rightarrow> queue_journal \<Rightarrow> bool" where
  "step_keeps i a s t = (journal_ok t \<and> keeps_settled_send a s t \<and> (taken s i a \<longrightarrow> taken t i a \<or> refused_for_good t a))"

lemma insert_parts:
  assumes "journal_ok s"
  shows "step_keeps i a s (insert_card fp ts s j body holdReason)"
proof (cases "card_of s j")
  case None
  let ?d = "\<lparr>qd_body = body, qd_position = last_position s + 1,
      qd_queuedAt = Some \<lparr>jc_epoch = qj_epoch s, jc_sequence = qj_lastSequence s\<rparr>,
      qd_holdReason = holdReason, qd_attempt = None, qd_recovers = None, qd_returned = None\<rparr>"
  let ?s = "s\<lparr>qj_lastSequence := max (qj_lastSequence s) (qj_lastSequence s + 1), qj_highestFence := max (qj_highestFence s) (qj_highestFence s)\<rparr>"
  have c: "qm_consumedAs (queuedCardFromChange fp ?s j ?d) = None" "qm_messageId (queuedCardFromChange fp ?s j ?d) = j"
    by (simp_all add: queuedCardFromChange_def Let_def)
  have w: "insert_card fp ts s j body holdReason = setCard ?s (queuedCardFromChange fp ?s j ?d)"
    using None c by (simp add: insert_card_def write_changes_def write_change_def applyJournalRow_def applyJournalRowFacts_def
        foldJournalQueueRow_def applyQueueRow_def Let_def)
  have "keeps_settled_send a s (setCard ?s x)" for x by (rule keeps_settled_refl) simp
  moreover have "taken s i a \<Longrightarrow> taken (setCard ?s (queuedCardFromChange fp ?s j ?d)) i a" using None c by (auto simp: taken_def)
  ultimately show ?thesis using assms unfolding step_keeps_def w by simp
next
  case (Some c)
  have "keeps_settled_send a s s" by (rule keeps_settled_refl) simp
  with Some assms show ?thesis by (simp add: step_keeps_def insert_card_def write_changes_def)
qed

lemma submission_row_parts:
  assumes "journal_ok s" and "submission_of s (sr_clientMessageId r) = None"
    and "\<And>j c. sr_queuedMessageId r = Some j \<Longrightarrow> card_of s j = Some c \<Longrightarrow> qm_state c \<noteq> Card_dispatched \<and> qm_state c \<noteq> Card_withdrawn"
  shows "step_keeps i a s (applyJournalRow fp False s \<lparr>jr_seq = n, jr_fence = fence, jr_ts = ts, jr_content = Submission_row r\<rparr>)"
    (is "step_keeps i a s ?t")
proof -
  let ?s = "s\<lparr>qj_lastSequence := max (qj_lastSequence s) n, qj_highestFence := max (qj_highestFence s) fence\<rparr>"
  let ?s1 = "applyJournalSubmission ?s n fence r"
  have t: "?t = foldJournalQueueRow fp False ?s1 (Submission_row r)"
    by (simp add: applyJournalRow_def applyJournalRowFacts_def Let_def)
  have subs: "submission_of ?t b = submission_of ?s1 b" for b
    unfolding t by (simp add: foldJournalQueueRow_def split: option.split)
  have "keeps_settled_send a s ?t"
    using assms(2) unfolding keeps_settled_send_def subs by (auto simp: applyJournalSubmission_def)
  moreover have "taken s i a \<Longrightarrow> taken ?t i a"
  proof -
    assume took: "taken s i a"
    then obtain c where c: "card_of s i = Some c" by (auto simp: taken_def)
    have cs: "card_of ?s1 = card_of s" by (rule ext) (simp add: applyJournalSubmission_def)
    have "card_of ?t i = card_of s i"
    proof (cases "Option.bind (sr_queuedMessageId r) (card_of s)")
      case (Some d)
      then obtain j where j: "sr_queuedMessageId r = Some j" "card_of s j = Some d" by (auto simp: Option.bind_eq_Some_conv)
      have "qm_messageId d = j" by (rule journal_okD(1) [OF assms(1) j(2)])
      moreover have "j \<noteq> i" using assms(3) [OF j] took j(2) by (auto simp: taken_def)
      ultimately show ?thesis unfolding t using j by (simp add: foldJournalQueueRow_def cs)
    next
      case None
      then show ?thesis unfolding t by (simp add: foldJournalQueueRow_def cs)
    qed
    from took show ?thesis unfolding taken_cong [OF \<open>card_of ?t i = card_of s i\<close>] .
  qed
  ultimately show ?thesis using assms(1) by (simp add: step_keeps_def)
qed

lemma consume_parts:
  assumes "journal_ok s" and "cn_expect n \<noteq> Card_dispatched" and "cn_expect n \<noteq> Card_withdrawn"
    and "consume_card fp ts fence s m fingerprint handover n following = Inr t"
  shows "step_keeps i a s t"
proof -
  let ?r = "\<lparr>sr_clientMessageId = m, sr_payloadFingerprint = fingerprint, sr_handoverRecorded = handover,
    sr_queuedMessageId = Some (cn_messageId n)\<rparr>"
  from assms(4) have g: "queuedCardConsumable n m fingerprint (card_of s (cn_messageId n)) following" "submission_of s m = None"
    and t: "t = applyJournalRow fp False s \<lparr>jr_seq = qj_lastSequence s + 1, jr_fence = fence, jr_ts = ts, jr_content = Submission_row ?r\<rparr>"
    by (auto simp: consume_card_def split: if_splits)
  from g(1) assms(2,3) have "qm_state c \<noteq> Card_dispatched \<and> qm_state c \<noteq> Card_withdrawn" if "card_of s (cn_messageId n) = Some c" for c
    using that by (auto simp: queuedCardConsumable_def)
  then show ?thesis unfolding t by (intro submission_row_parts) (use assms(1) g(2) in simp_all)
qed

lemma dispatch_parts:
  assumes ok: "journal_ok s"
  shows "step_keeps i a s (resolve_dispatch fp ts fence s r)"
proof -
  let ?b = "dr_clientMessageId r"
  let ?s = "s\<lparr>qj_lastSequence := max (qj_lastSequence s) (qj_lastSequence s + 1), qj_highestFence := max (qj_highestFence s) fence\<rparr>"
  let ?s1 = "applyJournalDispatchRow ?s fence ts r"
  have ok1: "journal_ok ?s1" using ok by simp
  have k1: "keeps_settled_send a s ?s1"
    using dispatch_keeps [of ?s a fence ts r] ok by (simp add: keeps_settled_update)
  have t: "resolve_dispatch fp ts fence s r = foldJournalQueueRow fp False ?s1 (Dispatch_row r)"
    by (simp add: resolve_dispatch_def applyJournalRow_def applyJournalRowFacts_def Let_def)
  have same: "taken ?s1 i a = taken s i a" by (rule taken_cong) simp
  have stay: "step_keeps i a s ?s1"
    using ok1 k1 same unfolding step_keeps_def by blast
  show ?thesis
  proof (cases "submission_of ?s1 ?b")
    case None
    with stay show ?thesis by (simp add: t foldJournalQueueRow_def)
  next
    case (Some x)
    have bx: "sb_clientMessageId x = ?b" by (rule journal_okD(2) [OF ok1 Some])
    show ?thesis
    proof (cases "cardHandedOffAs ?s1 x")
      case None
      with Some stay show ?thesis by (simp add: t foldJournalQueueRow_def)
    next
      case (Some c)
      let ?c = "settledHandOff ?s1 c x" and ?s2 = "setCard ?s1 (settledHandOff ?s1 c x)"
      let ?t = "settleHandOffInDoubt False ?s2 ?b"
      from Some obtain j where j: "sb_queuedMessageId x = Some j" "card_of ?s1 j = Some c"
        and c: "qm_state c = Card_dispatched" "qm_consumedAs c = Some ?b"
        by (auto simp: cardHandedOffAs_def bx Option.bind_eq_Some_conv split: option.splits if_splits)
      have jc: "qm_messageId c = j" by (rule journal_okD(1) [OF ok1 j(2)])
      have mid: "qm_messageId ?c = j"
        using jc by (simp add: settledHandOff_def rejectedCardTransition_def split: hand_off_outcome.split)
      have tt: "resolve_dispatch fp ts fence s r = ?t"
        using \<open>submission_of ?s1 ?b = Some x\<close> Some by (simp add: t foldJournalQueueRow_def)
      have ok2: "journal_ok ?s2" using ok1 by simp
      have k2: "keeps_settled_send a ?s1 ?s2" by (rule keeps_settled_refl) simp
      have k: "keeps_settled_send a s ?t"
        by (rule keeps_settled_trans [OF keeps_settled_trans [OF k1 k2] settle_keeps [OF ok2]])
      have "taken s i a \<Longrightarrow> taken ?t i a \<or> refused_for_good ?t a"
      proof -
        assume took: "taken s i a"
        then have took1: "taken ?s1 i a" by (simp only: same)
        show ?thesis
        proof (cases "i = j")
          case False
          then have c: "card_of ?t i = card_of ?s1 i" using mid by simp
          from took1 show ?thesis unfolding taken_cong [OF c] ..
        next
          case True
          with took1 j(2) c have a: "a = ?b" by (simp add: taken_def)
          show ?thesis
          proof (cases "sb_dispatchState x = Ds_rejected \<and> queuedHandOffOutcome x \<noteq> Outcome_in_doubt")
            case True
            then have "refused_for_good ?s2 a" using \<open>submission_of ?s1 ?b = Some x\<close> a by (simp add: refused_for_good_def)
            with refused_kept [OF settle_keeps [OF ok2]] show ?thesis by blast
          next
            case no: False
            then have "?c = c" by (auto simp: settledHandOff_def rejectedCardTransition_def split: hand_off_outcome.split)
            with c a True mid show ?thesis by (simp add: taken_def)
          qed
        qed
      qed
      then show ?thesis unfolding step_keeps_def tt using k ok2 by simp
    qed
  qed
qed

lemma mark_parts:
  assumes "journal_ok s"
  shows "step_keeps i a s (applyJournalRow fp False s \<lparr>jr_seq = n, jr_fence = fence, jr_ts = ts, jr_content = Mark_row r\<rparr>)"
    (is "step_keeps i a s ?t")
proof -
  have c: "card_of ?t i = card_of s i" and "submission_of ?t a = submission_of s a"
    by (simp_all add: applyJournalRow_def applyJournalRowFacts_def foldJournalQueueRow_def Let_def)
  then have "keeps_settled_send a s ?t" by (intro keeps_settled_refl) simp
  with assms show ?thesis unfolding step_keeps_def taken_cong [OF c] by simp
qed

lemma spend_parts:
  assumes "journal_ok s"
  shows "step_keeps i a s (spendReportedCommandCards s)"
proof -
  have "journal_ok s \<Longrightarrow> submission_of (foldl spend_reported s is) a = submission_of s a \<and>
      (taken s i a \<longrightarrow> taken (foldl spend_reported s is) i a)" for "is"
  proof (induction "is" arbitrary: s)
    case (Cons j "is")
    let ?t = "spend_reported s j"
    have ok: "journal_ok ?t" using Cons.prems by (simp add: spend_reported_def split: option.split)
    have sub: "submission_of ?t a = submission_of s a" by (simp add: spend_reported_def split: option.split)
    have "taken s i a \<Longrightarrow> taken ?t i a"
      using journal_okD(1) [OF Cons.prems, of j] by (auto simp: spend_reported_def taken_def split: option.split)
    with Cons.IH [OF ok] sub show ?case by simp
  qed simp
  from this [of "qj_returnedCommands s"] assms
  have "submission_of (spendReportedCommandCards s) a = submission_of s a" "taken s i a \<longrightarrow> taken (spendReportedCommandCards s) i a"
    by (simp_all add: spendReportedCommandCards_def)
  then show ?thesis using assms by (simp add: step_keeps_def keeps_settled_send_def)
qed

lemma queue_step_keeps:
  assumes "queue_step fp s t" and "journal_ok s"
  shows "step_keeps i a s t"
  using assms
proof (cases rule: queue_step.cases)
  case (change_row change ts j)
  have "\<And>d. change \<noteq> Queued d" by (rule change_row(2))
  note W = write_change_parts [OF this assms(2)]
  show ?thesis using W unfolding step_keeps_def change_row(1) by blast
next
  case (insert_row ts j body holdReason)
  with insert_parts [OF assms(2)] show ?thesis by simp
next
  case (consume_row n ts fence m fingerprint handover following)
  with consume_parts [OF assms(2)] show ?thesis by blast
next
  case (send_row r n fence ts)
  with submission_row_parts [OF assms(2), of r] show ?thesis by simp
next
  case (dispatch_step ts fence row)
  with dispatch_parts [OF assms(2)] show ?thesis by simp
next
  case (mark_step n fence ts r)
  with mark_parts [OF assms(2)] show ?thesis by simp
next
  case (items_step items fence p b)
  let ?s1 = "acceptSubmissionFromProviderItem s fence p b\<lparr>qj_items := items\<rparr>"
  have ok1: "journal_ok ?s1" using accept_keeps(2) [OF assms(2)] by simp
  have k1: "keeps_settled_send a s ?s1" using accept_keeps(1) [OF assms(2), of a fence p b] by (simp add: keeps_settled_send_def)
  have "taken s i a \<Longrightarrow> taken ?s1 i a" by (simp add: taken_def accept_keeps(3) [OF assms(2)])
  with spend_parts [OF ok1, of i a] keeps_settled_trans [OF k1] show ?thesis by (auto simp: step_keeps_def items_step)
qed

text \<open>Over any run: what \<open>a\<close> took stays taken until \<open>a\<close> is refused for good, and a settled send stays settled.\<close>

lemma queue_steps_keep:
  assumes "queue_steps fp s t" and "journal_ok s"
  shows "step_keeps i a s t"
  using assms
proof (induction rule: queue_steps.induct)
  case (queue_refl s)
  have "keeps_settled_send a s s" by (rule keeps_settled_refl) simp
  with queue_refl show ?case by (simp add: step_keeps_def)
next
  case (queue_next s t u)
  then have st: "step_keeps i a s t" by simp
  then have "journal_ok t" by (simp add: step_keeps_def)
  from queue_step_keeps [OF queue_next.hyps(2) this, of i a] have tu: "step_keeps i a t u" .
  have "keeps_settled_send a s u" using st tu unfolding step_keeps_def by (blast intro: keeps_settled_trans)
  moreover have "taken s i a \<longrightarrow> taken u i a \<or> refused_for_good u a"
    using st tu refused_kept [of a t u] unfolding step_keeps_def by blast
  ultimately show ?case using tu unfolding step_keeps_def by blast
qed

end
