(* ===== verification/Queue_List.thy ===== *)
theory Queue_List
  imports Queue_Kept "HOL-Library.Multiset"
begin

text \<open>
  The queue as a list of ids: what inserting, holding, withdrawing, moving and handing over a card do to
  the order its cards are sent in.
\<close>

section \<open>Changes of single cards\<close>

definition change_card :: "(message_body \<Rightarrow> string) \<Rightarrow> queue_change \<Rightarrow> queued_message \<Rightarrow> queued_message" where
  "change_card fp change c =
     (case change of
        Queued d \<Rightarrow> c
      | Edited b \<Rightarrow> c\<lparr>qm_body := b, qm_fingerprint := fp b\<rparr>
      | Moved p \<Rightarrow> c\<lparr>qm_position := p\<rparr>
      | Held r \<Rightarrow> if qm_state c = Card_waiting then c\<lparr>qm_holdReason := Some r\<rparr> else c
      | Withdrawn \<Rightarrow> c\<lparr>qm_state := Card_withdrawn, qm_holdReason := None\<rparr>)"

lemma change_card_id [simp]: "qm_messageId (change_card fp change c) = qm_messageId c"
  by (simp add: change_card_def split: queue_change.split)

definition on_card :: "string \<Rightarrow> (queued_message \<Rightarrow> queued_message) \<Rightarrow> (string \<times> queued_message) list \<Rightarrow> (string \<times> queued_message) list" where
  "on_card i f cards = map (\<lambda>(j, c). (j, if j = i then f c else c)) cards"

lemma update_on_card:
  "distinct (map fst al) \<Longrightarrow> map_of al i = Some c \<Longrightarrow> AList.update i (f c) al = on_card i f al"
proof (induction al)
  case (Cons x al)
  obtain j d where x: "x = (j, d)" by (cases x)
  show ?case
  proof (cases "j = i")
    case True
    with Cons.prems x have "map (\<lambda>(k, c). (k, if k = i then f c else c)) al = al"
      by (intro map_idI) (force split: prod.splits)
    with True Cons.prems x show ?thesis by (simp add: on_card_def)
  next
    case False
    with Cons x show ?thesis by (simp add: on_card_def)
  qed
qed simp

lemma on_card_absent: "map_of al i = None \<Longrightarrow> on_card i f al = al"
  unfolding on_card_def by (intro map_idI) (force simp: map_of_eq_None_iff split: prod.splits)

lemma on_card_fix:
  assumes "distinct (map fst al)" and "map_of al i = Some c" and "f c = c"
  shows "on_card i f al = al"
proof -
  have "d = c" if "(i, d) \<in> set al" for d using map_of_is_SomeI [OF assms(1) that] assms(2) by simp
  with assms(3) show ?thesis unfolding on_card_def by (intro map_idI) (auto split: prod.splits)
qed

lemma qj_cards_setCard:
  assumes "journal_ok s" and "card_of s i = Some c" and "qm_messageId (f c) = i"
  shows "qj_cards (setCard s (f c)) = on_card i f (qj_cards s)"
proof (cases "f c = c")
  case True
  have "on_card i f (qj_cards s) = qj_cards s"
    using on_card_fix [of "qj_cards s" i c f] assms True by (simp add: journal_ok_def card_of_def)
  with True assms show ?thesis by (simp add: setCard_def)
next
  case False
  with assms update_on_card [of "qj_cards s" i c f] show ?thesis by (simp add: setCard_def journal_ok_def card_of_def)
qed

lemma qj_cards_write:
  assumes ok: "journal_ok s" and n: "\<And>d. change \<noteq> Queued d"
  shows "qj_cards (write_change fp ts s (i, change)) = on_card i (change_card fp change) (qj_cards s)"
proof -
  let ?s = "s\<lparr>qj_lastSequence := max (qj_lastSequence s) (qj_lastSequence s + 1), qj_highestFence := max (qj_highestFence s) (qj_highestFence s)\<rparr>"
  have w: "write_change fp ts s (i, change) = applyQueueRow fp False ?s i change"
    by (simp add: write_change_def applyJournalRow_def applyJournalRowFacts_def foldJournalQueueRow_def Let_def)
  show ?thesis
  proof (cases "card_of s i")
    case None
    have "applyQueueRow fp False ?s i change = ?s"
    proof (cases change)
      case (Queued d)
      with n show ?thesis by blast
    qed (use None in \<open>simp_all add: applyQueueRow_def\<close>)
    moreover have "on_card i (change_card fp change) (qj_cards s) = qj_cards s"
      by (rule on_card_absent) (use None in \<open>simp add: card_of_def\<close>)
    ultimately show ?thesis by (simp add: w)
  next
    case (Some c)
    have "applyQueueRow fp False ?s i change = setCard ?s (change_card fp change c)"
    proof (cases change)
      case (Queued d)
      with n show ?thesis by blast
    qed (use Some in \<open>simp_all add: applyQueueRow_def change_card_def\<close>)
    moreover have "qj_cards (setCard ?s (change_card fp change c)) = on_card i (change_card fp change) (qj_cards ?s)"
      by (rule qj_cards_setCard) (use ok Some journal_okD(1) [OF ok Some] in simp_all)
    ultimately show ?thesis by (simp add: w)
  qed
qed

text \<open>A plan touches a card at most once.\<close>

lemma qj_cards_writes:
  assumes "journal_ok s" and "distinct (map fst changes)" and "\<And>i d. (i, Queued d) \<notin> set changes"
  shows "journal_ok (write_changes fp ts s changes) \<and>
    qj_cards (write_changes fp ts s changes) =
      map (\<lambda>(j, c). (j, case map_of changes j of Some ch \<Rightarrow> change_card fp ch c | None \<Rightarrow> c)) (qj_cards s)"
  using assms
proof (induction changes arbitrary: s)
  case Nil
  then show ?case by (simp add: write_changes_def case_prod_unfold)
next
  case (Cons x changes)
  obtain i change where x: "x = (i, change)" by (cases x)
  have n: "\<And>d. change \<noteq> Queued d" using Cons.prems(3) x by auto
  let ?t = "write_change fp ts s (i, change)"
  have ok: "journal_ok ?t" using write_change_parts(3) [OF n Cons.prems(1)] .
  have cards: "qj_cards ?t = on_card i (change_card fp change) (qj_cards s)" by (rule qj_cards_write [OF Cons.prems(1) n])
  have "map_of changes i = None" using Cons.prems(2) x by (simp add: map_of_eq_None_iff)
  then have "map (\<lambda>(j, c). (j, case map_of changes j of Some ch \<Rightarrow> change_card fp ch c | None \<Rightarrow> c)) (on_card i (change_card fp change) (qj_cards s))
      = map (\<lambda>(j, c). (j, case map_of (x # changes) j of Some ch \<Rightarrow> change_card fp ch c | None \<Rightarrow> c)) (qj_cards s)"
    unfolding on_card_def map_map by (intro map_cong refl) (auto simp: x)
  moreover have "write_changes fp ts s (x # changes) = write_changes fp ts ?t changes" by (simp add: write_changes_def x)
  ultimately show ?case using Cons.IH [OF ok] Cons.prems(2,3) cards by (simp add: x)
qed

section \<open>The order\<close>

definition unsettled :: "queue_journal \<Rightarrow> queued_message list" where
  "unsettled s = filter isUnsettledQueuedMessage (map snd (qj_cards s))"

definition queue_order :: "queue_journal \<Rightarrow> string list" where
  "queue_order s = map qm_messageId (filter isUnsettledQueuedMessage (list_cards s))"

definition positions_apart :: "queue_journal \<Rightarrow> bool" where
  "positions_apart s = distinct (map qm_position (unsettled s))"

lemma filter_list_cards: "filter isUnsettledQueuedMessage (list_cards s) = sort_key qm_position (unsettled s)"
proof -
  have "filter isUnsettledQueuedMessage (list_cards s) =
      sort_key qm_position (filter isUnsettledQueuedMessage (filter (isLiveJournalQueueCard s) (map snd (qj_cards s))))"
    by (simp add: list_cards_def filter_sort)
  also have "filter isUnsettledQueuedMessage (filter (isLiveJournalQueueCard s) (map snd (qj_cards s))) = unsettled s"
    unfolding unsettled_def filter_filter
    by (intro filter_cong refl) (auto simp: isLiveJournalQueueCard_def isUnsettledQueuedMessage_def)
  finally show ?thesis .
qed

lemma queue_order_sorted: "queue_order s = map qm_messageId (sort_key qm_position (unsettled s))"
  by (simp add: queue_order_def filter_list_cards)

lemma sort_key_unique:
  fixes f :: "'a \<Rightarrow> 'b :: linorder"
  assumes "sorted_wrt (\<lambda>a b. f a < f b) ys" and "mset xs = mset ys"
  shows "sort_key f xs = ys"
proof (rule properties_for_sort_key)
  show "mset ys = mset xs" using assms(2) by simp
  show "sorted (map f ys)"
    unfolding sorted_map by (rule sorted_wrt_mono_rel [OF _ assms(1)]) simp
  fix k assume "k \<in> set ys"
  then obtain as bs where ys: "ys = as @ k # bs" by (auto dest: split_list)
  have "\<forall>x\<in>set as. f x < f k" and "\<forall>x\<in>set bs. f k < f x" using assms(1) by (auto simp: ys sorted_wrt_append)
  then have "filter (\<lambda>x. f k = f x) as = []" and "filter (\<lambda>x. f k = f x) bs = []"
    by (auto simp: filter_empty_conv)
  then have one: "filter (\<lambda>x. f k = f x) ys = [k]" by (simp add: ys)
  have "mset (filter (\<lambda>x. f k = f x) xs) = mset (filter (\<lambda>x. f k = f x) ys)" using assms(2) by (simp add: mset_filter)
  then have "mset (filter (\<lambda>x. f k = f x) xs) = {#k#}" by (simp add: one del: mset_filter)
  then have "filter (\<lambda>x. f k = f x) xs = [k]" by (simp only: mset_single_iff)
  then show "filter (\<lambda>x. f k = f x) ys = filter (\<lambda>x. f k = f x) xs" by (simp only: one)
qed

lemma strictly_sorted_positions:
  assumes "positions_apart s"
  shows "sorted_wrt (\<lambda>a b. qm_position a < qm_position b) (sort_key qm_position (unsettled s))"
proof -
  let ?xs = "sort_key qm_position (unsettled s)"
  have "mset (map qm_position ?xs) = mset (map qm_position (unsettled s))" by simp
  then have "distinct (map qm_position ?xs)" using assms unfolding positions_apart_def by (metis mset_eq_imp_distinct_iff)
  then have "sorted_wrt (<) (map qm_position ?xs)" by (simp add: strict_sorted_iff)
  then show ?thesis by (simp add: sorted_wrt_map)
qed

section \<open>Withdrawing and holding\<close>

lemma map_of_constant: "map_of (map (\<lambda>c. (f c, v)) cs) j = (if j \<in> f ` set cs then Some v else None)"
  by (induction cs) auto

lemma qj_cards_writes_same:
  assumes "journal_ok s" and "distinct (map qm_messageId cs)" and "\<And>d. ch \<noteq> Queued d"
  shows "qj_cards (write_changes fp ts s (map (\<lambda>c. (qm_messageId c, ch)) cs)) =
    map (\<lambda>(j, c). (j, if j \<in> qm_messageId ` set cs then change_card fp ch c else c)) (qj_cards s)"
proof -
  have "distinct (map fst (map (\<lambda>c. (qm_messageId c, ch)) cs))" using assms(2) by (simp add: comp_def)
  moreover have "(i, Queued d) \<notin> set (map (\<lambda>c. (qm_messageId c, ch)) cs)" for i d using assms(3) by force
  ultimately show ?thesis
    using qj_cards_writes [OF assms(1), of "map (\<lambda>c. (qm_messageId c, ch)) cs" fp ts]
    by (auto simp: map_of_constant intro!: map_cong)
qed

text \<open>The cards of a list of ids that are there and unsettled.\<close>

definition unsettled_of :: "queue_journal \<Rightarrow> string list \<Rightarrow> queued_message list" where
  "unsettled_of s ids = List.map_filter (\<lambda>i. case card_of s i of
     Some c \<Rightarrow> if isUnsettledQueuedMessage c then Some c else None | None \<Rightarrow> None) ids"

lemma unsettled_of_ids:
  "journal_ok s \<Longrightarrow> map qm_messageId (unsettled_of s ids) = filter (\<lambda>i. \<exists>c. card_of s i = Some c \<and> isUnsettledQueuedMessage c) ids"
  using journal_okD(1) [of s] by (induction ids) (auto simp: unsettled_of_def List.map_filter_def split: option.split)

lemma withdraw_order:
  assumes ok: "journal_ok s" and d: "distinct ids"
  shows "queue_order (snd (withdraw_cards fp ts s ids)) = filter (\<lambda>i. i \<notin> set ids) (queue_order s)"
proof -
  define cs where "cs = unsettled_of s ids"
  have ids: "map qm_messageId cs = filter (\<lambda>i. \<exists>c. card_of s i = Some c \<and> isUnsettledQueuedMessage c) ids"
    unfolding cs_def by (rule unsettled_of_ids [OF ok])
  have w: "snd (withdraw_cards fp ts s ids) = write_changes fp ts s (map (\<lambda>c. (qm_messageId c, Withdrawn)) cs)"
    by (simp add: withdraw_cards_def cs_def unsettled_of_def Let_def)
  have cards: "qj_cards (snd (withdraw_cards fp ts s ids)) =
      map (\<lambda>(j, c). (j, if j \<in> qm_messageId ` set cs then change_card fp Withdrawn c else c)) (qj_cards s)"
    unfolding w by (rule qj_cards_writes_same [OF ok]) (simp_all add: ids d)
  have mem: "j \<in> qm_messageId ` set cs \<longleftrightarrow> j \<in> set ids \<and> (\<exists>c. card_of s j = Some c \<and> isUnsettledQueuedMessage c)" for j
    using arg_cong [OF ids, of set] by auto
  have "filter isUnsettledQueuedMessage (map snd (map (\<lambda>(j, c). (j, if j \<in> qm_messageId ` set cs then change_card fp Withdrawn c else c)) xs))
      = filter (\<lambda>c. qm_messageId c \<notin> set ids) (filter isUnsettledQueuedMessage (map snd xs))"
    if "set xs \<subseteq> set (qj_cards s)" for xs
    using that
  proof (induction xs)
    case (Cons x xs)
    obtain j c where x: "x = (j, c)" by (cases x)
    with Cons.prems ok have "card_of s j = Some c" "qm_messageId c = j" by (auto simp: card_of_def journal_ok_def)
    then show ?case using Cons by (auto simp: x mem change_card_def isUnsettledQueuedMessage_def)
  qed simp
  from this [OF subset_refl] have "unsettled (snd (withdraw_cards fp ts s ids)) = filter (\<lambda>c. qm_messageId c \<notin> set ids) (unsettled s)"
    unfolding unsettled_def cards .
  then show ?thesis by (simp add: queue_order_sorted filter_sort [symmetric] filter_map comp_def)
qed

text \<open>
  Inserting and moving as operations of a list of ids: a new card joins the end, a moved card stands where
  its anchor asks, and the positions of the other cards permute under it.
\<close>

section \<open>Inserting\<close>

lemma foldl_max_ge: "a \<le> foldl max a xs \<and> (\<forall>x\<in>set xs. x \<le> foldl max a xs)" for a :: "'a :: linorder"
proof (induction xs arbitrary: a)
  case (Cons y xs)
  from Cons [of "max a y"] show ?case by auto
qed simp

lemma position_below_last: "(i, c) \<in> set (qj_cards s) \<Longrightarrow> qm_position c \<le> last_position s"
  unfolding last_position_def using foldl_max_ge [of 0 "map (qm_position \<circ> snd) (qj_cards s)"] by force

lemma update_absent: "map_of al k = None \<Longrightarrow> AList.update k v al = al @ [(k, v)]"
  by (induction al) (auto split: if_splits)

definition new_card :: "(message_body \<Rightarrow> string) \<Rightarrow> queue_journal \<Rightarrow> string \<Rightarrow> message_body \<Rightarrow> string option \<Rightarrow> queued_message" where
  "new_card fp s i body holdReason =
     \<lparr>qm_messageId = i, qm_position = last_position s + 1, qm_body = body, qm_fingerprint = fp body, qm_state = Card_waiting,
      qm_holdReason = holdReason, qm_returnedReason = None, qm_returnedRejection = None, qm_consumedAs = None,
      qm_recovers = None, qm_queuedAt = Some \<lparr>jc_epoch = qj_epoch s, jc_sequence = qj_lastSequence s\<rparr>\<rparr>"

lemma insert_card_cards:
  "qj_cards (insert_card fp ts s i body holdReason) =
     (if card_of s i = None then qj_cards s @ [(i, new_card fp s i body holdReason)] else qj_cards s)"
proof (cases "card_of s i")
  case None
  let ?d = "\<lparr>qd_body = body, qd_position = last_position s + 1,
    qd_queuedAt = Some \<lparr>jc_epoch = qj_epoch s, jc_sequence = qj_lastSequence s\<rparr>,
    qd_holdReason = holdReason, qd_attempt = None, qd_recovers = None, qd_returned = None\<rparr>"
  let ?s = "s\<lparr>qj_lastSequence := max (qj_lastSequence s) (qj_lastSequence s + 1), qj_highestFence := max (qj_highestFence s) (qj_highestFence s)\<rparr>"
  have "insert_card fp ts s i body holdReason = applyQueueRow fp False ?s i (Queued ?d)"
    using None by (simp add: insert_card_def write_changes_def write_change_def applyJournalRow_def applyJournalRowFacts_def
        foldJournalQueueRow_def Let_def)
  moreover have c: "queuedCardFromChange fp ?s i ?d = new_card fp s i body holdReason"
    by (simp add: queuedCardFromChange_def new_card_def truthy_def)
  have "applyQueueRow fp False ?s i (Queued ?d) = setCard ?s (new_card fp s i body holdReason)"
    unfolding applyQueueRow_def queue_change.case c Let_def by (simp add: new_card_def)
  moreover have "qj_cards (setCard ?s (new_card fp s i body holdReason)) = qj_cards s @ [(i, new_card fp s i body holdReason)]"
    using None update_absent [of "qj_cards s" i] by (simp add: setCard_def new_card_def card_of_def)
  ultimately show ?thesis using None by simp
qed (simp add: insert_card_def write_changes_def)

lemma insort_key_last: "(\<And>x. x \<in> set xs \<Longrightarrow> f x < f a) \<Longrightarrow> insort_key f a xs = xs @ [a]"
proof (induction xs)
  case (Cons x xs)
  then have "f x < f a" by simp
  with Cons show ?case by (simp add: not_le [symmetric])
qed simp

lemma sort_key_last:
  assumes "\<And>x. x \<in> set xs \<Longrightarrow> f x < f a"
  shows "sort_key f (xs @ [a]) = sort_key f xs @ [a]"
proof -
  have "sort_key f (xs @ [a]) = insort_key f a (sort_key f xs)"
    using assms
  proof (induction xs)
    case (Cons x xs)
    then have "f x \<noteq> f a" by (simp add: less_imp_neq)
    with Cons show ?case by (simp add: insort_key_left_comm)
  qed simp
  also have "\<dots> = sort_key f xs @ [a]" using assms by (intro insort_key_last) simp
  finally show ?thesis .
qed

lemma insert_unsettled:
  assumes "card_of s i = None"
  shows "unsettled (insert_card fp ts s i body holdReason) = unsettled s @ [new_card fp s i body holdReason]"
  using assms by (simp add: unsettled_def insert_card_cards new_card_def isUnsettledQueuedMessage_def)

lemma unsettled_member: "c \<in> set (unsettled s) \<Longrightarrow> \<exists>i. (i, c) \<in> set (qj_cards s)"
  by (auto simp: unsettled_def)

lemma unsettled_below_new: "c \<in> set (unsettled s) \<Longrightarrow> qm_position c < qm_position (new_card fp s i body holdReason)"
  using position_below_last [of _ c s] by (force dest!: unsettled_member simp: new_card_def)

lemma insert_order:
  "queue_order (insert_card fp ts s i body holdReason) = (if card_of s i = None then queue_order s @ [i] else queue_order s)"
proof (cases "card_of s i")
  case None
  have "sort_key qm_position (unsettled s @ [new_card fp s i body holdReason])
      = sort_key qm_position (unsettled s) @ [new_card fp s i body holdReason]"
    by (rule sort_key_last) (rule unsettled_below_new)
  with None show ?thesis by (simp add: queue_order_sorted insert_unsettled) (simp add: new_card_def)
next
  case (Some c)
  then have "insert_card fp ts s i body holdReason = s" by (simp add: insert_card_def write_changes_def)
  with Some show ?thesis by simp
qed

lemma insert_positions_apart:
  assumes "positions_apart s"
  shows "positions_apart (insert_card fp ts s i body holdReason)"
proof (cases "card_of s i")
  case None
  have "qm_position (new_card fp s i body holdReason) \<notin> qm_position ` set (unsettled s)"
    using unsettled_below_new [of _ s fp i body holdReason] by (metis image_iff less_irrefl)
  with assms None show ?thesis by (simp add: positions_apart_def insert_unsettled)
qed (use assms in \<open>simp add: insert_card_def write_changes_def\<close>)

section \<open>Moving\<close>

text \<open>The list operation a move stands for: take the id out and put it back beside its anchor.\<close>

definition moved_ids :: "string \<Rightarrow> move_anchor \<Rightarrow> string list \<Rightarrow> string list" where
  "moved_ids i anchor ids =
     (let rest = removeAll i ids in
      case anchor of
        Before_message None \<Rightarrow> rest @ [i]
      | Before_message (Some a) \<Rightarrow> takeWhile (\<lambda>j. j \<noteq> a) rest @ i # dropWhile (\<lambda>j. j \<noteq> a) rest
      | After_message a \<Rightarrow> takeWhile (\<lambda>j. j \<noteq> a) rest @ a # i # tl (dropWhile (\<lambda>j. j \<noteq> a) rest))"

definition movable :: "string \<Rightarrow> move_anchor \<Rightarrow> string list \<Rightarrow> bool" where
  "movable i anchor ids = (i \<in> set ids \<and> anchor_id anchor \<noteq> Some i \<and> (\<forall>a. anchor_id anchor = Some a \<longrightarrow> a \<in> set ids))"

lemma take_drop_while:
  assumes "find_index P xs = Some n"
  shows "take n xs = takeWhile (\<lambda>x. \<not> P x) xs" and "drop n xs = dropWhile (\<lambda>x. \<not> P x) xs"
    and "xs ! n \<in> set xs" and "P (xs ! n)" and "n < length xs"
  using assms by (induction xs arbitrary: n) (auto split: if_splits)

lemma moved_placed:
  assumes ids: "map qm_messageId rest = removeAll i ids" and m: "qm_messageId m = i"
    and n: "(case anchor_id anchor of None \<Rightarrow> Some (length rest) | Some a \<Rightarrow> find_index (\<lambda>c. qm_messageId c = a) rest) = Some n"
    and k: "k = n + (case anchor of After_message a \<Rightarrow> 1 | Before_message b \<Rightarrow> 0)"
  shows "map qm_messageId (take k rest @ m # drop k rest) = moved_ids i anchor ids"
proof (cases "anchor_id anchor")
  case None
  then have "anchor = Before_message None" by (cases anchor) (auto simp: anchor_id_def)
  with n k ids m show ?thesis by (simp add: anchor_id_def moved_ids_def Let_def)
next
  case (Some a)
  let ?P = "\<lambda>c. qm_messageId c = a"
  have f: "find_index ?P rest = Some n" using n Some by simp
  note T = take_drop_while [OF f]
  have tw: "map qm_messageId (take n rest) = takeWhile (\<lambda>j. j \<noteq> a) (removeAll i ids)"
    "map qm_messageId (drop n rest) = dropWhile (\<lambda>j. j \<noteq> a) (removeAll i ids)"
    unfolding T(1,2) ids [symmetric] by (simp_all add: takeWhile_map dropWhile_map comp_def)
  show ?thesis
  proof (cases anchor)
    case (Before_message b)
    with Some have "anchor = Before_message (Some a)" by (simp add: anchor_id_def)
    with tw m k show ?thesis by (simp add: moved_ids_def Let_def)
  next
    case (After_message b)
    with Some have a: "anchor = After_message a" by (simp add: anchor_id_def)
    have "take (n + 1) rest = take n rest @ [rest ! n]" and "drop (n + 1) rest = tl (drop n rest)"
      using T(5) by (simp_all add: take_Suc_conv_app_nth drop_Suc tl_drop)
    with tw m k T(4) a show ?thesis by (simp add: moved_ids_def Let_def map_tl)
  qed
qed

text \<open>The positions a plan gives out.\<close>

definition moves_between :: "queued_message list \<Rightarrow> queued_message list \<Rightarrow> (string \<times> queue_change) list" where
  "moves_between placed cs =
     List.map_filter (\<lambda>(c, u). if qm_position u = qm_position c then None else Some (qm_messageId c, Moved (qm_position u)))
       (zip placed cs)"

lemma set_map_filter: "set (List.map_filter F xs) = {y. \<exists>x\<in>set xs. F x = Some y}"
  by (force simp: List.map_filter_def)

lemma moves_between_set:
  "set (moves_between placed cs) =
     {(qm_messageId c, Moved (qm_position u)) |c u. (c, u) \<in> set (zip placed cs) \<and> qm_position u \<noteq> qm_position c}"
  unfolding moves_between_def set_map_filter by (auto split: if_splits) (blast, force)

lemma moves_between_keys: "fst ` set (moves_between placed cs) \<subseteq> qm_messageId ` set placed"
  by (auto simp: moves_between_set dest: set_zip_leftD)

lemma moves_between_distinct: "distinct (map qm_messageId placed) \<Longrightarrow> distinct (map fst (moves_between placed cs))"
proof (induction placed arbitrary: cs)
  case (Cons c placed)
  show ?case
  proof (cases cs)
    case Nil
    then show ?thesis by (simp add: moves_between_def)
  next
    case (Cons u us)
    have "moves_between (c # placed) (u # us) =
        (if qm_position u = qm_position c then [] else [(qm_messageId c, Moved (qm_position u))]) @ moves_between placed us"
      by (simp add: moves_between_def)
    moreover have "qm_messageId c \<notin> fst ` set (moves_between placed us)"
      using Cons.prems moves_between_keys [of placed us] by auto
    ultimately show ?thesis using Cons.IH [of us] Cons.prems local.Cons by simp
  qed
qed (simp add: moves_between_def)

lemma moves_between_nth:
  assumes "distinct (map qm_messageId placed)" and "(c, u) \<in> set (zip placed cs)"
  shows "map_of (moves_between placed cs) (qm_messageId c) =
    (if qm_position u = qm_position c then None else Some (Moved (qm_position u)))"
proof (cases "qm_position u = qm_position c")
  case False
  then have "(qm_messageId c, Moved (qm_position u)) \<in> set (moves_between placed cs)"
    using assms(2) by (auto simp: moves_between_set)
  with False show ?thesis using moves_between_distinct [OF assms(1)] by (simp add: map_of_is_SomeI)
next
  case True
  have "d = c \<and> v = u" if dv: "(d, v) \<in> set (zip placed cs)" "qm_messageId d = qm_messageId c" for d v
  proof -
    obtain k where k: "placed ! k = c" "cs ! k = u" "k < length placed"
      using assms(2) unfolding in_set_zip by auto
    obtain l where l: "placed ! l = d" "cs ! l = v" "l < length placed"
      using dv(1) unfolding in_set_zip by auto
    have "map qm_messageId placed ! k = map qm_messageId placed ! l" using dv(2) k(1,3) l(1,3) by simp
    then have "k = l" using nth_eq_iff_index_eq [OF assms(1), of k l] k(3) l(3) by simp
    then show ?thesis using k(1,2) l(1,2) by simp
  qed
  with True have "qm_messageId c \<notin> fst ` set (moves_between placed cs)"
    unfolding moves_between_set by auto
  with True show ?thesis by (simp add: map_of_eq_None_iff)
qed

lemma moves_between_self: "moves_between cs cs = []"
  by (induction cs) (simp_all add: moves_between_def)

lemma card_ids_distinct: "journal_ok s \<Longrightarrow> distinct (map qm_messageId (map snd (qj_cards s)))"
proof -
  assume ok: "journal_ok s"
  then have "map qm_messageId (map snd (qj_cards s)) = map fst (qj_cards s)"
    by (auto simp: journal_ok_def intro!: map_cong)
  with ok show ?thesis unfolding journal_ok_def by argo
qed

lemma card_ids_inj: "journal_ok s \<Longrightarrow> inj_on qm_messageId (set (map snd (qj_cards s)))"
  using card_ids_distinct unfolding distinct_map by blast

lemma unsettled_ids_distinct: "journal_ok s \<Longrightarrow> distinct (map qm_messageId (unsettled s))"
  unfolding unsettled_def by (rule distinct_map_filter) (rule card_ids_distinct)

lemma only_one:
  assumes "distinct (map f xs)" and "x \<in> set xs"
  shows "filter (\<lambda>y. f y = f x) xs = [x]"
  using assms
proof (induction xs)
  case (Cons y ys)
  show ?case
  proof (cases "x = y")
    case True
    with Cons.prems(1) have "f x \<notin> f ` set ys" by simp
    then have "\<forall>z\<in>set ys. f z \<noteq> f x" by (metis imageI)
    then have "filter (\<lambda>z. f z = f x) ys = []" by (simp add: filter_empty_conv)
    with True show ?thesis by simp
  next
    case False
    with Cons.prems have "f y \<noteq> f x" by auto
    with False Cons show ?thesis by simp
  qed
qed simp

text \<open>Handing the positions of the queue to any rearrangement of its cards makes that the queue.\<close>

lemma rearranged_order:
  fixes fp :: "message_body \<Rightarrow> string" and ts :: int
  assumes ok: "journal_ok s" and apart: "positions_apart s"
    and perm: "mset placed = mset (unsettled s)"
  defines "t \<equiv> write_changes fp ts s (moves_between placed (sort_key qm_position (unsettled s)))"
  shows "queue_order t = map qm_messageId placed" and "positions_apart t" and "journal_ok t"
    and "mset (map (qm_position \<circ> snd) (qj_cards t)) = mset (map (qm_position \<circ> snd) (qj_cards s))"
proof -
  let ?cs = "sort_key qm_position (unsettled s)" and ?ch = "moves_between placed (sort_key qm_position (unsettled s))"
  have len: "length placed = length ?cs" using arg_cong [OF perm, of size] by simp
  have "distinct (map qm_messageId (unsettled s))" by (rule unsettled_ids_distinct [OF ok])
  then have dp: "distinct (map qm_messageId placed)"
    using perm by (metis mset_eq_imp_distinct_iff mset_map)
  have noq: "(i, Queued d) \<notin> set ?ch" for i d by (auto simp: moves_between_def List.map_filter_def split: if_splits)
  have writes: "journal_ok t" "qj_cards t =
      map (\<lambda>(j, c). (j, case map_of ?ch j of Some ch \<Rightarrow> change_card fp ch c | None \<Rightarrow> c)) (qj_cards s)"
    using qj_cards_writes [OF ok moves_between_distinct [OF dp] noq, of fp ts] unfolding t_def by blast+
  show "journal_ok t" by (rule writes(1))
  define g where "g c = (case map_of ?ch (qm_messageId c) of Some ch \<Rightarrow> change_card fp ch c | None \<Rightarrow> c)" for c
  have moved: "map_of ?ch j = Some ch \<Longrightarrow> \<exists>p. ch = Moved p" for j ch
    by (auto dest!: map_of_SomeD simp: moves_between_def List.map_filter_def split: if_splits)
  have gs: "isUnsettledQueuedMessage (g c) = isUnsettledQueuedMessage c" "qm_messageId (g c) = qm_messageId c" for c
    using moved [of "qm_messageId c"] by (auto simp: g_def change_card_def isUnsettledQueuedMessage_def split: option.split)
  have all_g: "map snd (qj_cards t) = map g (map snd (qj_cards s))"
  proof -
    have "(case map_of ?ch j of Some ch \<Rightarrow> change_card fp ch c | None \<Rightarrow> c) = g c" if "(j, c) \<in> set (qj_cards s)" for j c
      using ok that unfolding g_def journal_ok_def by fastforce
    then show ?thesis unfolding writes(2) by (auto simp: comp_def case_prod_unfold intro!: map_cong)
  qed
  from all_g have uns: "unsettled t = map g (unsettled s)"
    by (simp add: unsettled_def filter_map comp_def gs(1))
  have pos: "map qm_position (map g placed) = map qm_position ?cs"
  proof (rule nth_equalityI)
    fix k assume "k < length (map qm_position (map g placed))"
    then have k: "k < length placed" by simp
    have "(placed ! k, ?cs ! k) \<in> set (zip placed ?cs)" using k len by (auto simp: set_zip)
    from moves_between_nth [OF dp this] show "map qm_position (map g placed) ! k = map qm_position ?cs ! k"
      using k len by (simp add: g_def change_card_def)
  qed (simp add: len)
  have "sorted_wrt (<) (map qm_position ?cs)"
    using strictly_sorted_positions [OF apart] by (simp add: sorted_wrt_map)
  then have "sorted_wrt (\<lambda>a b. qm_position a < qm_position b) (map g placed)"
    unfolding pos [symmetric] sorted_wrt_map by simp
  moreover have "mset (unsettled t) = mset (map g placed)" by (simp add: uns perm)
  ultimately have sorted: "sort_key qm_position (unsettled t) = map g placed" by (rule sort_key_unique)
  then show "queue_order t = map qm_messageId placed" by (simp add: queue_order_sorted gs(2) comp_def)
  have "mset (map qm_position (unsettled t)) = mset (map qm_position (unsettled s))"
    using arg_cong [OF pos, of mset] by (simp add: uns perm)
  note permuted = this
  then show "positions_apart t" using apart unfolding positions_apart_def by (metis mset_eq_imp_distinct_iff)
  let ?all = "map snd (qj_cards s)"
  have "g c = c" if c: "c \<in> set ?all" "\<not> isUnsettledQueuedMessage c" for c
  proof (cases "map_of ?ch (qm_messageId c)")
    case (Some ch)
    then have "qm_messageId c \<in> qm_messageId ` set placed"
      using moves_between_keys [of placed ?cs] by (metis map_of_SomeD image_eqI fst_conv subsetD)
    then obtain d where d: "d \<in> set (unsettled s)" "qm_messageId d = qm_messageId c" using mset_eq_setD [OF perm] by auto
    then have "d \<in> set ?all" "isUnsettledQueuedMessage d" by (auto simp: unsettled_def)
    moreover have "d = c" using card_ids_inj [OF ok] d(2) c(1) \<open>d \<in> set ?all\<close> by (auto dest: inj_onD)
    ultimately show ?thesis using c(2) by simp
  qed (simp add: g_def)
  then have rest: "map g (filter (\<lambda>c. \<not> isUnsettledQueuedMessage c) ?all) = filter (\<lambda>c. \<not> isUnsettledQueuedMessage c) ?all"
    by (intro map_idI) auto
  have split: "mset (map f ?all) = mset (map f (unsettled s)) + mset (map f (filter (\<lambda>c. \<not> isUnsettledQueuedMessage c) ?all))"
    for f :: "queued_message \<Rightarrow> int"
    unfolding unsettled_def mset_map mset_filter image_mset_union [symmetric] by (simp flip: multiset_partition)
  have "map (qm_position \<circ> snd) (qj_cards t) = map (qm_position \<circ> g) ?all"
    using arg_cong [OF all_g, of "map qm_position"] by simp
  moreover have "map (qm_position \<circ> g) (filter (\<lambda>c. \<not> isUnsettledQueuedMessage c) ?all)
      = map qm_position (filter (\<lambda>c. \<not> isUnsettledQueuedMessage c) ?all)"
    using arg_cong [OF rest, of "map qm_position"] by simp
  moreover have "mset (map (qm_position \<circ> g) (unsettled s)) = mset (map qm_position (unsettled s))"
    using permuted unfolding uns by (simp add: multiset.map_comp)
  ultimately show "mset (map (qm_position \<circ> snd) (qj_cards t)) = mset (map (qm_position \<circ> snd) (qj_cards s))"
    using split [of "qm_position \<circ> g"] split [of qm_position] by (simp only: map_map)
qed

text \<open>The plan of a move, and what folding it does to the queue.\<close>

lemma move_card_order:
  assumes ok: "journal_ok s" and apart: "positions_apart s"
  shows "queue_order (fst (move_card fp ts s i anchor)) =
      (if movable i anchor (queue_order s) then moved_ids i anchor (queue_order s) else queue_order s)"
    and "positions_apart (fst (move_card fp ts s i anchor))" and "journal_ok (fst (move_card fp ts s i anchor))"
    and "snd (move_card fp ts s i anchor) =
      (if i \<notin> set (queue_order s) then Move_gone else if anchor_id anchor = Some i then Move_unchanged
       else if \<not> movable i anchor (queue_order s) then Move_stale
       else if moved_ids i anchor (queue_order s) = queue_order s then Move_unchanged else Move_moved)"
    and "mset (map (qm_position \<circ> snd) (qj_cards (fst (move_card fp ts s i anchor)))) = mset (map (qm_position \<circ> snd) (qj_cards s))"
proof -
  let ?cs = "sort_key qm_position (unsettled s)" and ?ids = "queue_order s"
  have "distinct (map qm_messageId ?cs)"
    using unsettled_ids_distinct [OF ok] by (metis mset_eq_imp_distinct_iff mset_map mset_sort)
  note dcs = this
  have cs: "filter isUnsettledQueuedMessage (list_cards s) = ?cs" by (rule filter_list_cards)
  have ids: "map qm_messageId ?cs = ?ids" by (simp add: queue_order_sorted)
  define R where "R t st = (queue_order t = (if movable i anchor ?ids then moved_ids i anchor ?ids else ?ids) \<and>
      positions_apart t \<and> journal_ok t \<and>
      mset (map (qm_position \<circ> snd) (qj_cards t)) = mset (map (qm_position \<circ> snd) (qj_cards s)) \<and> st = (if i \<notin> set ?ids then Move_gone else if anchor_id anchor = Some i then Move_unchanged
       else if \<not> movable i anchor ?ids then Move_stale else if moved_ids i anchor ?ids = ?ids then Move_unchanged else Move_moved))" for t st
  have stay: "R s st" if "\<not> movable i anchor ?ids"
      "st = (if i \<notin> set ?ids then Move_gone else if anchor_id anchor = Some i then Move_unchanged else Move_stale)" for st
    using that ok apart by (simp add: R_def)
  have "R (fst (move_card fp ts s i anchor)) (snd (move_card fp ts s i anchor))"
  proof (cases "find (\<lambda>c. qm_messageId c = i) ?cs")
    case None
    then have "i \<notin> set ?ids" unfolding ids [symmetric] by (auto simp: find_None_iff)
    then show ?thesis using stay [of Move_gone] None
      by (simp add: move_card_def queuedMessageMovePlan_def cs Let_def write_changes_def movable_def)
  next
    case (Some m)
    note found = Some
    from Some have m: "qm_messageId m = i" "m \<in> set ?cs" unfolding find_Some_iff by (metis nth_mem)+
    then have i: "i \<in> set ?ids" unfolding ids [symmetric] by auto
    show ?thesis
    proof (cases "anchor_id anchor = Some i")
      case True
      then show ?thesis using stay [of Move_unchanged] Some i
        by (simp add: move_card_def queuedMessageMovePlan_def cs Let_def write_changes_def movable_def)
    next
      case False
      define rest where "rest = filter (\<lambda>c. qm_messageId c \<noteq> i) ?cs"
      have rest: "map qm_messageId rest = removeAll i ?ids"
        unfolding rest_def ids [symmetric] by (simp add: removeAll_filter_not_eq filter_map comp_def eq_commute)
      define nb where "nb = (case anchor_id anchor of None \<Rightarrow> Some (length rest) | Some a \<Rightarrow> find_index (\<lambda>c. qm_messageId c = a) rest)"
      show ?thesis
      proof (cases nb)
        case None
        then obtain a where a: "anchor_id anchor = Some a" "\<forall>c\<in>set rest. qm_messageId c \<noteq> a"
          by (auto simp: nb_def find_index_None split: option.splits)
        then have "a \<notin> set (removeAll i ?ids)" unfolding rest [symmetric] by auto
        then have "\<not> movable i anchor ?ids" using a False by (auto simp: movable_def)
        then show ?thesis using stay [of Move_stale] Some i False None
          by (simp add: move_card_def queuedMessageMovePlan_def cs Let_def write_changes_def rest_def [symmetric] nb_def [symmetric])
      next
        case (Some n)
        let ?k = "n + (case anchor of After_message a \<Rightarrow> 1 | Before_message b \<Rightarrow> 0)"
        let ?placed = "take ?k rest @ m # drop ?k rest"
        have placed: "map qm_messageId ?placed = moved_ids i anchor ?ids"
          using moved_placed [OF rest m(1)] Some by (simp add: nb_def)
        have mv: "movable i anchor ?ids"
        proof -
          have "a \<in> set ?ids" if "anchor_id anchor = Some a" for a
            using Some that take_drop_while(3,4) [of "\<lambda>c. qm_messageId c = a" rest n]
            unfolding ids [symmetric] by (auto simp: nb_def rest_def)
          with i False show ?thesis by (simp add: movable_def)
        qed
        have perm: "mset ?placed = mset ?cs"
        proof -
          have "filter (\<lambda>c. \<not> qm_messageId c \<noteq> i) ?cs = [m]" using only_one [OF dcs m(2)] m(1) by simp
          then have "mset ?cs = mset rest + {#m#}"
            using multiset_partition [of "mset ?cs" "\<lambda>c. qm_messageId c \<noteq> i"] unfolding rest_def
            by (metis mset_filter mset_single_iff)
          moreover have "mset (take ?k rest) + mset (drop ?k rest) = mset rest" by (metis append_take_drop_id mset_append)
          ultimately show ?thesis by (simp add: add.commute)
        qed
        have t: "fst (move_card fp ts s i anchor) = write_changes fp ts s (moves_between ?placed ?cs)"
          "snd (move_card fp ts s i anchor) = (if moves_between ?placed ?cs = [] then Move_unchanged else Move_moved)"
          using found False Some by (simp_all add: move_card_def queuedMessageMovePlan_def cs Let_def rest_def [symmetric]
              nb_def [symmetric] moves_between_def)
        have "mset ?placed = mset (unsettled s)" using perm by simp
        note O = rearranged_order [OF ok apart this, of fp ts, folded t(1)]
        have "moves_between ?placed ?cs = [] \<longleftrightarrow> moved_ids i anchor ?ids = ?ids"
        proof
          assume "moves_between ?placed ?cs = []"
          then have "fst (move_card fp ts s i anchor) = s" unfolding t(1) by (simp add: write_changes_def)
          with O(1) placed show "moved_ids i anchor ?ids = ?ids" by simp
        next
          assume "moved_ids i anchor ?ids = ?ids"
          then have "map qm_messageId ?placed = map qm_messageId ?cs" using placed ids by simp
          moreover have "inj_on qm_messageId (set ?placed \<union> set ?cs)"
            using dcs mset_eq_setD [OF perm] by (simp add: distinct_map)
          ultimately have "?placed = ?cs" by (rule map_inj_on)
          then show "moves_between ?placed ?cs = []" by (simp add: moves_between_self)
        qed
        with O placed mv i False t(2) show ?thesis by (simp add: R_def)
      qed
    qed
  qed
  then show "queue_order (fst (move_card fp ts s i anchor)) =
      (if movable i anchor (queue_order s) then moved_ids i anchor (queue_order s) else queue_order s)"
    and "positions_apart (fst (move_card fp ts s i anchor))" and "journal_ok (fst (move_card fp ts s i anchor))"
    and "snd (move_card fp ts s i anchor) =
      (if i \<notin> set (queue_order s) then Move_gone else if anchor_id anchor = Some i then Move_unchanged
       else if \<not> movable i anchor (queue_order s) then Move_stale
       else if moved_ids i anchor (queue_order s) = queue_order s then Move_unchanged else Move_moved)"
    and "mset (map (qm_position \<circ> snd) (qj_cards (fst (move_card fp ts s i anchor)))) = mset (map (qm_position \<circ> snd) (qj_cards s))"
    unfolding R_def by blast+
qed

end
