(* ===== verification/Queue_Use.thy ===== *)
theory Queue_Use
  imports Queue_List
begin

text \<open>
  Runs of the queue's operations from an empty journal: no two of its cards share a position, settled ones
  included, so a card that comes back from a hand-off takes its old place among the others.
\<close>

section \<open>Positions under single rows\<close>

definition card_positions :: "queue_journal \<Rightarrow> (string \<times> int) list" where
  "card_positions s = map (\<lambda>(i, c). (i, qm_position c)) (qj_cards s)"

definition cards_apart :: "queue_journal \<Rightarrow> bool" where
  "cards_apart s = distinct (map (qm_position \<circ> snd) (qj_cards s))"

lemma apart_keep: "cards_apart s \<Longrightarrow> card_positions t = card_positions s \<Longrightarrow> cards_apart t"
proof -
  have "map (qm_position \<circ> snd) (qj_cards s) = map snd (card_positions s)" for s
    by (simp add: card_positions_def case_prod_unfold comp_def)
  then show "cards_apart s \<Longrightarrow> card_positions t = card_positions s \<Longrightarrow> cards_apart t" by (simp add: cards_apart_def)
qed

lemma apart_unsettled: "cards_apart s \<Longrightarrow> positions_apart s"
  unfolding positions_apart_def unsettled_def cards_apart_def by (rule distinct_map_filter) simp

lemma positions_on_card:
  assumes "\<And>c. (i, c) \<in> set al \<Longrightarrow> qm_position (f c) = qm_position c"
  shows "map (\<lambda>(i, c). (i, qm_position c)) (on_card i f al) = map (\<lambda>(i, c). (i, qm_position c)) al"
  using assms by (auto simp: on_card_def)

lemma positions_setCard:
  assumes ok: "journal_ok s" and c: "card_of s (qm_messageId d) = Some c" and p: "qm_position d = qm_position c"
  shows "card_positions (setCard s d) = card_positions s"
proof -
  have "qj_cards (setCard s d) = on_card (qm_messageId d) (\<lambda>_. d) (qj_cards s)"
    using qj_cards_setCard [OF ok c, of "\<lambda>_. d"] by simp
  moreover have "x = c" if "(qm_messageId d, x) \<in> set (qj_cards s)" for x
    using ok c that unfolding journal_ok_def card_of_def by (metis map_of_is_SomeI option.inject)
  ultimately show ?thesis using p unfolding card_positions_def by (simp add: positions_on_card)
qed

lemma positions_rest [simp]:
  "card_positions (put_submission s x) = card_positions s" "card_positions (s\<lparr>qj_lastSequence := n\<rparr>) = card_positions s"
  "card_positions (s\<lparr>qj_highestFence := n\<rparr>) = card_positions s" "card_positions (s\<lparr>qj_items := it\<rparr>) = card_positions s"
  "card_positions (s\<lparr>qj_marks := m\<rparr>) = card_positions s" "card_positions (noteTurnAccepted s x) = card_positions s"
  by (simp_all add: card_positions_def)

lemma positions_settle [simp]: "card_positions (settleHandOffInDoubt m s a) = card_positions s"
  by (simp add: settleHandOffInDoubt_def Let_def split: option.split)

lemma positions_dispatchRow [simp]: "card_positions (applyJournalDispatchRow s f ts r) = card_positions s"
  by (simp add: applyJournalDispatchRow_def Let_def split: option.split)

lemma positions_submission [simp]: "card_positions (applyJournalSubmission s n f r) = card_positions s"
  by (simp add: applyJournalSubmission_def)

lemma settled_position [simp]:
  "qm_position (settledHandOff s c x) = qm_position c" "qm_messageId (settledHandOff s c x) = qm_messageId c"
  by (simp_all add: settledHandOff_def rejectedCardTransition_def split: hand_off_outcome.split)

lemma positions_write:
  assumes ok: "journal_ok s" and n: "\<And>d. change \<noteq> Queued d" and m: "\<And>p. change \<noteq> Moved p"
  shows "card_positions (write_change fp ts s (i, change)) = card_positions s"
proof -
  have "qm_position (change_card fp change c) = qm_position c" for c
    using n m by (cases change) (auto simp: change_card_def)
  then show ?thesis unfolding card_positions_def qj_cards_write [OF ok n] by (intro positions_on_card) simp
qed

lemma writes_keep:
  assumes "journal_ok s" and "\<forall>x\<in>set changes. (\<forall>d. snd x \<noteq> Queued d) \<and> (\<forall>p. snd x \<noteq> Moved p)"
  shows "journal_ok (write_changes fp ts s changes) \<and> card_positions (write_changes fp ts s changes) = card_positions s"
  using assms
proof (induction changes arbitrary: s)
  case (Cons x changes)
  obtain i change where x: "x = (i, change)" by (cases x)
  then have n: "\<And>d. change \<noteq> Queued d" "\<And>p. change \<noteq> Moved p" using Cons.prems(2) by auto
  have ok: "journal_ok (write_change fp ts s (i, change))" by (rule write_change_parts(3) [OF n(1) Cons.prems(1)])
  have "write_changes fp ts s (x # changes) = write_changes fp ts (write_change fp ts s (i, change)) changes"
    by (simp add: write_changes_def x)
  with Cons.IH [OF ok] Cons.prems(2) positions_write [OF Cons.prems(1) n] show ?case by simp
qed (simp add: write_changes_def)

lemma positions_row:
  assumes ok: "journal_ok s" and c: "jr_content row = Submission_row r \<or> jr_content row = Dispatch_row r' \<or> jr_content row = Mark_row r''"
  shows "card_positions (applyJournalRow fp m s row) = card_positions s"
proof -
  let ?t = "applyJournalRowFacts s row"
  have p: "card_positions ?t = card_positions s"
    by (simp add: applyJournalRowFacts_def Let_def split: row_content.split)
  have cards: "card_of ?t i = card_of s i" for i
    by (simp add: applyJournalRowFacts_def Let_def applyJournalDispatchRow_def applyJournalSubmission_def split: row_content.split option.split)
  have "journal_ok ?t"
    using ok by (simp add: applyJournalRowFacts_def Let_def applyJournalDispatchRow_def applyJournalSubmission_def split: row_content.split option.split)
  note okt = this
  have id: "card_of ?t i = Some d \<Longrightarrow> qm_messageId d = i" for i d using journal_okD(1) [OF okt] .
  have "card_positions (foldJournalQueueRow fp m ?t (jr_content row)) = card_positions ?t"
  proof (cases "jr_content row")
    case (Submission_row x)
    show ?thesis
    proof (cases "Option.bind (sr_queuedMessageId x) (card_of ?t)")
      case (Some d)
      then have "card_of ?t (qm_messageId d) = Some d" using id by (auto simp: bind_eq_Some_conv)
      with Some Submission_row show ?thesis by (simp add: foldJournalQueueRow_def positions_setCard [OF okt, of _ d])
    qed (simp add: foldJournalQueueRow_def Submission_row)
  next
    case (Dispatch_row x)
    show ?thesis
    proof (cases "submission_of ?t (dr_clientMessageId x)")
      case (Some y)
      show ?thesis
      proof (cases "cardHandedOffAs ?t y")
        case (Some d)
        then have "card_of ?t (qm_messageId d) = Some d"
          using id by (auto simp: cardHandedOffAs_def bind_eq_Some_conv split: option.splits if_splits)
        with Some \<open>submission_of ?t (dr_clientMessageId x) = Some y\<close> Dispatch_row show ?thesis
          by (simp add: foldJournalQueueRow_def positions_setCard [OF okt, of _ d])
      qed (simp add: foldJournalQueueRow_def Dispatch_row Some)
    qed (simp add: foldJournalQueueRow_def Dispatch_row)
  qed (use c in \<open>auto simp: foldJournalQueueRow_def\<close>)
  then show ?thesis unfolding applyJournalRow_def p .
qed

lemma positions_spend:
  assumes "journal_ok s"
  shows "card_positions (spendReportedCommandCards s) = card_positions s"
proof -
  have "journal_ok s \<Longrightarrow> card_positions (foldl spend_reported s is) = card_positions s" for "is"
  proof (induction "is" arbitrary: s)
    case (Cons i "is")
    have "journal_ok (spend_reported s i) \<and> card_positions (spend_reported s i) = card_positions s"
    proof (cases "card_of s i")
      case (Some c)
      with journal_okD(1) [OF Cons.prems Some] Cons.prems positions_setCard [OF Cons.prems, of "c\<lparr>qm_state := Card_withdrawn\<rparr>" c]
      show ?thesis by (simp add: spend_reported_def split: option.split)
    qed (use Cons.prems in \<open>simp add: spend_reported_def\<close>)
    with Cons.IH [of "spend_reported s i"] show ?case by simp
  qed simp
  with assms show ?thesis by (simp add: spendReportedCommandCards_def)
qed

section \<open>Runs\<close>

inductive queue_run :: "(message_body \<Rightarrow> string) \<Rightarrow> queue_journal \<Rightarrow> bool" for fp where
  run_create: "queue_run fp (createJournalQueueState epoch)"
| run_insert: "queue_run fp s \<Longrightarrow> queue_run fp (insert_card fp ts s i body holdReason)"
| run_edit: "queue_run fp s \<Longrightarrow> queue_run fp (write_change fp ts s (i, Edited body))"
| run_hold: "queue_run fp s \<Longrightarrow> queue_run fp (hold_cards fp ts s ids reason)"
| run_withdraw: "queue_run fp s \<Longrightarrow> queue_run fp (snd (withdraw_cards fp ts s ids))"
| run_move: "queue_run fp s \<Longrightarrow> queue_run fp (fst (move_card fp ts s i anchor))"
| run_consume: "queue_run fp s \<Longrightarrow> cn_expect n \<noteq> Card_dispatched \<Longrightarrow> cn_expect n \<noteq> Card_withdrawn \<Longrightarrow>
    consume_card fp ts fence s m fingerprint handover n following = Inr s' \<Longrightarrow> queue_run fp s'"
| run_send: "queue_run fp s \<Longrightarrow> submission_of s (sr_clientMessageId r) = None \<Longrightarrow> sr_queuedMessageId r = None \<Longrightarrow>
    queue_run fp (applyJournalRow fp False s \<lparr>jr_seq = n, jr_fence = fence, jr_ts = ts, jr_content = Submission_row r\<rparr>)"
| run_dispatch: "queue_run fp s \<Longrightarrow> queue_run fp (resolve_dispatch fp ts fence s row)"
| run_mark: "queue_run fp s \<Longrightarrow>
    queue_run fp (applyJournalRow fp False s \<lparr>jr_seq = n, jr_fence = fence, jr_ts = ts, jr_content = Mark_row r'\<rparr>)"
| run_items: "queue_run fp s \<Longrightarrow>
    queue_run fp (spendReportedCommandCards (acceptSubmissionFromProviderItem s fence p a\<lparr>qj_items := items\<rparr>))"

lemma step_ok: "queue_step fp s t \<Longrightarrow> journal_ok s \<Longrightarrow> journal_ok t"
  using queue_step_keeps [of fp s t] by (simp add: step_keeps_def)

lemma insert_apart:
  assumes "cards_apart s"
  shows "cards_apart (insert_card fp ts s i body holdReason)"
proof (cases "card_of s i")
  case None
  have "last_position s + 1 \<notin> (qm_position \<circ> snd) ` set (qj_cards s)"
    using position_below_last [of _ _ s] by fastforce
  with assms None show ?thesis by (simp add: cards_apart_def insert_card_cards) (simp add: new_card_def)
qed (use assms in \<open>simp add: cards_apart_def insert_card_cards\<close>)

lemma move_apart:
  assumes "journal_ok s" and "cards_apart s"
  shows "cards_apart (fst (move_card fp ts s i anchor))"
  using assms move_card_order(5) [OF assms(1) apart_unsettled [OF assms(2)]]
  unfolding cards_apart_def by (metis mset_eq_imp_distinct_iff)

lemma queue_run_apart: "queue_run fp s \<Longrightarrow> journal_ok s \<and> cards_apart s"
proof (induction rule: queue_run.induct)
  case (run_create epoch)
  show ?case by (simp add: journal_ok_def cards_apart_def createJournalQueueState_def)
next
  case (run_insert s ts i body holdReason)
  then show ?case using insert_apart step_ok [OF insert_row] by blast
next
  case (run_edit s ts i body)
  then have ok: "journal_ok s" and a: "cards_apart s" by auto
  have "journal_ok (write_change fp ts s (i, Edited body))" by (rule write_change_parts(3) [OF _ ok]) simp
  moreover have "card_positions (write_change fp ts s (i, Edited body)) = card_positions s" by (rule positions_write [OF ok]) simp_all
  ultimately show ?case using apart_keep [OF a] by blast
next
  case (run_hold s ts ids reason)
  define changes where "changes = List.map_filter (\<lambda>i. case card_of s i of
      Some c \<Rightarrow> if qm_state c = Card_waiting \<and> qm_holdReason c \<noteq> Some reason then Some (i, Held reason) else None
    | None \<Rightarrow> None) ids"
  have "\<forall>x\<in>set changes. snd x = Held reason"
    unfolding changes_def set_map_filter by (auto split: option.splits if_splits)
  then have "\<forall>x\<in>set changes. (\<forall>d. snd x \<noteq> Queued d) \<and> (\<forall>p. snd x \<noteq> Moved p)" by simp
  with run_hold.IH writes_keep [of s changes fp ts] show ?case
    by (auto simp: hold_cards_def changes_def [symmetric] intro: apart_keep)
next
  case (run_withdraw s ts ids)
  define changes where "changes = map (\<lambda>c. (qm_messageId c, Withdrawn)) (unsettled_of s ids)"
  have "\<forall>x\<in>set changes. (\<forall>d. snd x \<noteq> Queued d) \<and> (\<forall>p. snd x \<noteq> Moved p)" by (simp add: changes_def)
  moreover have "snd (withdraw_cards fp ts s ids) = write_changes fp ts s changes"
    by (simp add: withdraw_cards_def changes_def unsettled_of_def Let_def)
  ultimately show ?case using run_withdraw.IH writes_keep [of s changes fp ts] by (auto intro: apart_keep)
next
  case (run_move s ts i anchor)
  then show ?case using move_card_order(3) [OF _ apart_unsettled] move_apart by blast
next
  case (run_consume s n ts fence m fingerprint handover following s')
  then have ok: "journal_ok s" and a: "cards_apart s" by auto
  have "card_positions s' = card_positions s"
    using run_consume.hyps(4) positions_row [OF ok] by (auto simp: consume_card_def split: if_splits)
  moreover have "journal_ok s'" by (rule step_ok [OF consume_row [OF run_consume.hyps(2-4)] ok])
  ultimately show ?case using apart_keep [OF a] by blast
next
  case (run_send s r n fence ts)
  then have ok: "journal_ok s" and a: "cards_apart s" by auto
  with positions_row [OF ok] step_ok [OF send_row [OF run_send.hyps(2,3)] ok] apart_keep [OF a] show ?case by simp
next
  case (run_dispatch s ts fence row)
  then have ok: "journal_ok s" and a: "cards_apart s" by auto
  have "card_positions (resolve_dispatch fp ts fence s row) = card_positions s"
    unfolding resolve_dispatch_def by (rule positions_row [OF ok]) simp
  with step_ok [OF dispatch_step ok] apart_keep [OF a] show ?case by blast
next
  case (run_mark s n fence ts r)
  then have ok: "journal_ok s" and a: "cards_apart s" by auto
  with positions_row [OF ok] step_ok [OF mark_step ok] apart_keep [OF a] show ?case by simp
next
  case (run_items s items fence p b)
  then have ok: "journal_ok s" and a: "cards_apart s" by auto
  let ?s = "acceptSubmissionFromProviderItem s fence p b\<lparr>qj_items := items\<rparr>"
  have "journal_ok ?s" "card_positions ?s = card_positions s"
    using accept_keeps(2) [OF ok] by (simp_all add: acceptSubmissionFromProviderItem_def Let_def split: option.split)
  with positions_spend [of ?s] step_ok [OF items_step ok] apart_keep [OF a] show ?case by simp
qed

section \<open>The order under the other operations\<close>

lemma sort_key_map_same: "(\<And>x. k (f x) = k x) \<Longrightarrow> sort_key k (map f xs) = map f (sort_key k xs)"
proof -
  assume same: "\<And>x. k (f x) = k x"
  have "insort_key k (f x) (map f ys) = map f (insort_key k x ys)" for x ys
    by (induction ys) (simp_all add: same)
  then show ?thesis by (induction xs) simp_all
qed

lemma write_order:
  assumes ok: "journal_ok s" and n: "\<And>d. change \<noteq> Queued d" and m: "\<And>p. change \<noteq> Moved p" and w: "change \<noteq> Withdrawn"
  shows "queue_order (write_change fp ts s (i, change)) = queue_order s"
proof -
  define f where "f c = (if qm_messageId c = i then change_card fp change c else c)" for c
  have f: "qm_position (f c) = qm_position c" "qm_messageId (f c) = qm_messageId c"
    "isUnsettledQueuedMessage (f c) = isUnsettledQueuedMessage c" for c
    using n m w by (cases change; auto simp: f_def change_card_def isUnsettledQueuedMessage_def)+
  have "map snd (on_card i (change_card fp change) (qj_cards s)) = map f (map snd (qj_cards s))"
    using ok by (auto simp: on_card_def f_def journal_ok_def)
  then have "unsettled (write_change fp ts s (i, change)) = map f (unsettled s)"
    unfolding unsettled_def qj_cards_write [OF ok n] by (simp add: filter_map comp_def f(3))
  then show ?thesis by (simp add: queue_order_sorted sort_key_map_same f comp_def)
qed

lemma hold_order:
  assumes ok: "journal_ok s"
  shows "queue_order (hold_cards fp ts s ids reason) = queue_order s"
proof -
  have "\<forall>x\<in>set changes. snd x = Held reason \<Longrightarrow> journal_ok s \<Longrightarrow> queue_order (write_changes fp ts s changes) = queue_order s"
    for changes
  proof (induction changes arbitrary: s)
    case (Cons x changes)
    obtain i where x: "x = (i, Held reason)" using Cons.prems(1) by (cases x) simp
    have "journal_ok (write_change fp ts s x)" unfolding x by (rule write_change_parts(3) [OF _ Cons.prems(2)]) simp
    moreover have "queue_order (write_change fp ts s x) = queue_order s" unfolding x by (rule write_order [OF Cons.prems(2)]) simp_all
    ultimately show ?case using Cons by (simp add: write_changes_def)
  qed (simp add: write_changes_def)
  then show ?thesis
    unfolding hold_cards_def by this (auto simp: set_map_filter ok split: option.splits if_splits)
qed

lemma consume_card_of:
  assumes "consume_card fp ts fence s m fingerprint handover n following = Inr t"
  obtains c where "card_of s (cn_messageId n) = Some c" and "qm_state c = cn_expect n"
    and "t = setCard (applyJournalSubmission (s\<lparr>qj_lastSequence := max (qj_lastSequence s) (qj_lastSequence s + 1),
          qj_highestFence := max (qj_highestFence s) fence\<rparr>) (qj_lastSequence s + 1) fence
        \<lparr>sr_clientMessageId = m, sr_payloadFingerprint = fingerprint, sr_handoverRecorded = handover,
          sr_queuedMessageId = Some (cn_messageId n)\<rparr>)
      (c\<lparr>qm_state := Card_dispatched, qm_holdReason := None, qm_consumedAs := Some m,
        qm_returnedReason := None, qm_returnedRejection := None\<rparr>)"
proof -
  from assms have g: "queuedCardConsumable n m fingerprint (card_of s (cn_messageId n)) following"
    by (auto simp: consume_card_def split: if_splits)
  then obtain c where c: "card_of s (cn_messageId n) = Some c" "qm_state c = cn_expect n"
    by (auto simp: queuedCardConsumable_def split: option.splits)
  show thesis
    by (rule that [OF c])
      (use assms c in \<open>auto simp: consume_card_def applyJournalRow_def applyJournalRowFacts_def foldJournalQueueRow_def Let_def
         applyJournalSubmission_def split: if_splits\<close>)
qed

lemma consume_order:
  assumes ok: "journal_ok s" and c: "consume_card fp ts fence s m fingerprint handover n following = Inr t"
  shows "queue_order t = removeAll (cn_messageId n) (queue_order s)"
proof -
  let ?i = "cn_messageId n"
  obtain c where c: "card_of s ?i = Some c" and t: "t = setCard (applyJournalSubmission (s\<lparr>qj_lastSequence := max (qj_lastSequence s) (qj_lastSequence s + 1),
          qj_highestFence := max (qj_highestFence s) fence\<rparr>) (qj_lastSequence s + 1) fence
        \<lparr>sr_clientMessageId = m, sr_payloadFingerprint = fingerprint, sr_handoverRecorded = handover,
          sr_queuedMessageId = Some (cn_messageId n)\<rparr>)
      (c\<lparr>qm_state := Card_dispatched, qm_holdReason := None, qm_consumedAs := Some m,
        qm_returnedReason := None, qm_returnedRejection := None\<rparr>)"
    using consume_card_of [OF assms(2)] by metis
  let ?f = "\<lambda>c. c\<lparr>qm_state := Card_dispatched, qm_holdReason := None, qm_consumedAs := Some m,
        qm_returnedReason := None, qm_returnedRejection := None\<rparr> :: queued_message"
  let ?u = "applyJournalSubmission (s\<lparr>qj_lastSequence := max (qj_lastSequence s) (qj_lastSequence s + 1),
          qj_highestFence := max (qj_highestFence s) fence\<rparr>) (qj_lastSequence s + 1) fence
        \<lparr>sr_clientMessageId = m, sr_payloadFingerprint = fingerprint, sr_handoverRecorded = handover,
          sr_queuedMessageId = Some (cn_messageId n)\<rparr>"
  have u: "journal_ok ?u" "card_of ?u ?i = Some c" "qj_cards ?u = qj_cards s"
    using ok c by (simp_all add: applyJournalSubmission_def)
  have cards: "qj_cards t = on_card ?i ?f (qj_cards s)"
    unfolding t using qj_cards_setCard [OF u(1,2), of ?f] journal_okD(1) [OF ok c] u(3) by simp
  have "filter isUnsettledQueuedMessage (map snd (on_card ?i ?f xs)) =
      filter (\<lambda>c. qm_messageId c \<noteq> ?i) (filter isUnsettledQueuedMessage (map snd xs))"
    if "\<forall>(i, c)\<in>set xs. qm_messageId c = i" for xs
    using that by (induction xs) (auto simp: on_card_def isUnsettledQueuedMessage_def)
  from this [of "qj_cards s"] have "unsettled t = filter (\<lambda>c. qm_messageId c \<noteq> ?i) (unsettled s)"
    using ok unfolding unsettled_def cards journal_ok_def by blast
  then show ?thesis by (simp add: queue_order_sorted filter_sort [symmetric] filter_map comp_def removeAll_filter_not_eq eq_commute)
qed

end
