(* ===== verification/Queue_Held.thy ===== *)
theory Queue_Held
  imports Queue_Operations
begin

text \<open>
  The edit leases of the queue (\<open>queued-message-edit-leases.ts\<close>): an editor that holds a card keeps it
  from being sent for two minutes, or until the card changes under it. The clock is read once per
  operation, as an integer of milliseconds; the card an id stands for now is an argument. The key's JSON
  text is the pair it encodes. The timer is its deadline; the callback that wakes the queue is counted.
\<close>

section \<open>State\<close>

definition queued_message_edit_lease_ms :: int where
  "queued_message_edit_lease_ms = 120000"

type_synonym lease_key = "string \<times> string"

record edit_lease =
  el_messageId :: string
  el_fingerprint :: string
  el_state :: card_state
  el_consumedAs :: "string option"
  el_until :: int

record edit_leases =
  le_leases :: "(lease_key \<times> edit_lease) list"
  le_byId :: "(string \<times> lease_key list) list"
  le_timerAt :: "int option"
  le_wakes :: nat
  le_disposed :: bool
  le_revision :: nat

definition no_leases :: edit_leases where
  "no_leases = \<lparr>le_leases = [], le_byId = [], le_timerAt = None, le_wakes = 0, le_disposed = False, le_revision = 0\<rparr>"

datatype edit_hold_result =
    Edit_held string int int
  | Edit_changed
  | Edit_gone
  | Edit_expired

definition leaseMatchesRow :: "edit_lease \<Rightarrow> queued_message \<Rightarrow> bool" where
  "leaseMatchesRow l c =
     (isUnsettledQueuedMessage c \<and> qm_fingerprint c = el_fingerprint l \<and> qm_state c = el_state l \<and>
      qm_consumedAs c = el_consumedAs l)"

section \<open>Upkeep\<close>

text \<open>Only the deadline of the earliest lease is scheduled.\<close>

definition next_deadline :: "edit_leases \<Rightarrow> int option" where
  "next_deadline s =
     (case map (el_until \<circ> snd) (le_leases s) of [] \<Rightarrow> None | u # us \<Rightarrow> Some (foldl min u us))"

definition schedule :: "edit_leases \<Rightarrow> edit_leases" where
  "schedule s = (if next_deadline s = le_timerAt s then s else s\<lparr>le_timerAt := next_deadline s\<rparr>)"

definition keys_of :: "edit_leases \<Rightarrow> string \<Rightarrow> lease_key list" where
  "keys_of s i = (case map_of (le_byId s) i of Some ks \<Rightarrow> ks | None \<Rightarrow> [])"

definition remove_lease :: "lease_key \<Rightarrow> edit_leases \<Rightarrow> edit_leases" where
  "remove_lease k s =
     (case map_of (le_leases s) k of
        None \<Rightarrow> s
      | Some l \<Rightarrow>
          let ks = removeAll k (keys_of s (el_messageId l)) in
          s\<lparr>le_leases := AList.delete k (le_leases s),
            le_byId := (if ks = [] then AList.delete (el_messageId l) (le_byId s)
                        else AList.update (el_messageId l) ks (le_byId s)),
            le_revision := le_revision s + 1\<rparr>)"

definition add_key :: "lease_key \<Rightarrow> lease_key list \<Rightarrow> lease_key list" where
  "add_key k ks = (if k \<in> set ks then ks else ks @ [k])"

text \<open>A loop over keys or leases that removes the ones a test refuses; a set and a map allow that.\<close>

definition remove_keys :: "lease_key list \<Rightarrow> edit_leases \<Rightarrow> edit_leases" where
  "remove_keys ks s = foldl (\<lambda>s k. remove_lease k s) s ks"

definition drop_expired :: "int \<Rightarrow> edit_leases \<Rightarrow> edit_leases" where
  "drop_expired now s = remove_keys (map fst (filter (\<lambda>(k, l). el_until l \<le> now) (le_leases s))) s"

definition expire :: "int \<Rightarrow> edit_leases \<Rightarrow> edit_leases" where
  "expire now s =
     (case le_timerAt s of
        None \<Rightarrow> s
      | Some t \<Rightarrow>
          if t > now then s
          else let s1 = schedule (drop_expired now s) in s1\<lparr>le_wakes := le_wakes s1 + 1\<rparr>)"

text \<open>What the timer's callback does when it fires.\<close>

definition timer_fires :: "int \<Rightarrow> edit_leases \<Rightarrow> edit_leases" where
  "timer_fires now s =
     (let s1 = schedule (drop_expired now (s\<lparr>le_timerAt := None\<rparr>)) in s1\<lparr>le_wakes := le_wakes s1 + 1\<rparr>)"

definition stale_lease :: "(string \<Rightarrow> queued_message option) \<Rightarrow> string \<Rightarrow> edit_lease \<Rightarrow> bool" where
  "stale_lease get i l = (case get i of None \<Rightarrow> True | Some c \<Rightarrow> \<not> leaseMatchesRow l c)"

section \<open>Operations\<close>

definition lease_version :: "int \<Rightarrow> edit_leases \<Rightarrow> nat \<times> edit_leases" where
  "lease_version now s = (let s1 = expire now s in (le_revision s1, s1))"

definition isHeld :: "(string \<Rightarrow> queued_message option) \<Rightarrow> int \<Rightarrow> string \<Rightarrow> edit_leases \<Rightarrow> bool \<times> edit_leases" where
  "isHeld get now i s =
     (let s1 = expire now s in
      if map_of (le_byId s1) i = None then (False, s1)
      else
        let s2 = remove_keys (filter (\<lambda>k. case map_of (le_leases s1) k of
                Some l \<Rightarrow> stale_lease get i l | None \<Rightarrow> False) (keys_of s1 i)) s1;
            s3 = (if le_revision s2 \<noteq> le_revision s1 then schedule s2 else s2)
        in (map_of (le_byId s3) i \<noteq> None, s3))"

definition heldIds :: "(string \<Rightarrow> queued_message option) \<Rightarrow> int \<Rightarrow> edit_leases \<Rightarrow> string list \<times> edit_leases" where
  "heldIds get now s =
     (let s1 = expire now s;
          s2 = schedule (remove_keys (map fst (filter (\<lambda>(k, l). stale_lease get (el_messageId l) l) (le_leases s1))) s1)
      in (map fst (le_byId s2), s2))"

definition lease_answer :: "int \<Rightarrow> edit_lease \<Rightarrow> edit_hold_result" where
  "lease_answer now l = Edit_held (el_fingerprint l) queued_message_edit_lease_ms (max 0 (el_until l - now))"

definition acquire ::
  "(string \<Rightarrow> queued_message option) \<Rightarrow> int \<Rightarrow> lease_key \<Rightarrow> string \<Rightarrow> string \<Rightarrow> edit_leases \<Rightarrow> edit_hold_result \<times> edit_leases" where
  "acquire get now k i fingerprint s =
     (let s1 = expire now s;
          s2 = snd (isHeld get now (case map_of (le_leases s1) k of Some l \<Rightarrow> el_messageId l | None \<Rightarrow> i) s1)
      in case map_of (le_leases s2) k of
           Some l \<Rightarrow>
             (if el_messageId l = i \<and> el_fingerprint l = fingerprint then lease_answer now l else Edit_changed, s2)
         | None \<Rightarrow>
             (case get i of
                None \<Rightarrow> (Edit_gone, s2)
              | Some c \<Rightarrow>
                  if le_disposed s2 \<or> \<not> isUnsettledQueuedMessage c then (Edit_gone, s2)
                  else if qm_fingerprint c \<noteq> fingerprint then (Edit_changed, s2)
                  else
                    let l = \<lparr>el_messageId = qm_messageId c, el_fingerprint = qm_fingerprint c, el_state = qm_state c,
                             el_consumedAs = qm_consumedAs c, el_until = now + queued_message_edit_lease_ms\<rparr>;
                        s3 = s2\<lparr>le_leases := AList.update k l (le_leases s2),
                                le_byId := AList.update (el_messageId l) (add_key k (keys_of s2 (el_messageId l))) (le_byId s2),
                                le_revision := le_revision s2 + 1\<rparr>
                    in (lease_answer now l, schedule s3)))"

definition renew ::
  "(string \<Rightarrow> queued_message option) \<Rightarrow> int \<Rightarrow> lease_key \<Rightarrow> string \<Rightarrow> edit_leases \<Rightarrow> edit_hold_result \<times> edit_leases" where
  "renew get now k i s =
     (let s1 = snd (isHeld get now i s) in
      case map_of (le_leases s1) k of
        None \<Rightarrow> (Edit_expired, s1)
      | Some l \<Rightarrow>
          if el_messageId l \<noteq> i then (Edit_expired, s1)
          else
            let l2 = l\<lparr>el_until := now + queued_message_edit_lease_ms\<rparr>
            in (lease_answer now l2, schedule (s1\<lparr>le_leases := AList.update k l2 (le_leases s1)\<rparr>)))"

definition release_lease :: "lease_key \<Rightarrow> string \<Rightarrow> edit_leases \<Rightarrow> edit_leases" where
  "release_lease k i s =
     (case map_of (le_leases s) k of
        Some l \<Rightarrow> if el_messageId l = i then schedule (remove_lease k s) else s
      | None \<Rightarrow> s)"

definition retire :: "string \<Rightarrow> edit_leases \<Rightarrow> edit_leases" where
  "retire i s = schedule (remove_keys (keys_of s i) s)"

definition dispose :: "edit_leases \<Rightarrow> edit_leases" where
  "dispose s = schedule (s\<lparr>le_disposed := True, le_leases := [], le_byId := [], le_revision := le_revision s + 1\<rparr>)"

text \<open>
  What the leases' tables say of one another, what each operation does to them, and what a run of
  operations keeps.
\<close>

section \<open>What the tables say of one another\<close>

definition lease_links :: "edit_leases \<Rightarrow> bool" where
  "lease_links s =
     (distinct (map fst (le_leases s)) \<and> (le_disposed s \<longrightarrow> le_leases s = []) \<and>
      (\<forall>i. map_of (le_byId s) i \<noteq> Some []) \<and>
      (\<forall>i k. k \<in> set (keys_of s i) \<longleftrightarrow> (\<exists>l. map_of (le_leases s) k = Some l \<and> el_messageId l = i)))"

definition leases_ok :: "edit_leases \<Rightarrow> bool" where
  "leases_ok s = (lease_links s \<and> le_timerAt s = next_deadline s)"

lemma no_leases_ok [simp]: "leases_ok no_leases"
  by (simp add: leases_ok_def lease_links_def no_leases_def next_deadline_def keys_of_def)

lemma schedule_parts [simp]:
  "le_leases (schedule s) = le_leases s" "le_byId (schedule s) = le_byId s" "le_timerAt (schedule s) = next_deadline s"
  "le_revision (schedule s) = le_revision s" "le_disposed (schedule s) = le_disposed s"
  by (simp_all add: schedule_def)

lemma links_cong:
  assumes "le_leases t = le_leases s" and "le_byId t = le_byId s" and "le_disposed t = le_disposed s"
  shows "lease_links t = lease_links s" and "next_deadline t = next_deadline s"
  using assms by (simp_all add: lease_links_def keys_of_def next_deadline_def)

lemma schedule_ok [simp]: "leases_ok (schedule s) = lease_links s"
  using links_cong [of "schedule s" s] by (simp add: leases_ok_def)

lemma linksD:
  "lease_links s \<Longrightarrow> k \<in> set (keys_of s i) \<longleftrightarrow> (\<exists>l. map_of (le_leases s) k = Some l \<and> el_messageId l = i)"
  unfolding lease_links_def by blast

lemma held_iff_lease:
  assumes "lease_links s"
  shows "map_of (le_byId s) i \<noteq> None \<longleftrightarrow> (\<exists>k l. map_of (le_leases s) k = Some l \<and> el_messageId l = i)"
proof -
  have "map_of (le_byId s) i \<noteq> None \<longleftrightarrow> keys_of s i \<noteq> []"
    using assms by (auto simp: lease_links_def keys_of_def split: option.split)
  also have "\<dots> \<longleftrightarrow> (\<exists>k. k \<in> set (keys_of s i))" by (cases "keys_of s i") auto
  finally show ?thesis using assms unfolding lease_links_def by blast
qed

lemma remove_links:
  assumes "lease_links s"
  shows "lease_links (remove_lease k s) \<and> map_of (le_leases (remove_lease k s)) = (map_of (le_leases s))(k := None)"
proof (cases "map_of (le_leases s) k")
  case None
  then have "(map_of (le_leases s))(k := None) = map_of (le_leases s)" by auto
  with None assms show ?thesis by (simp add: remove_lease_def)
next
  case (Some l)
  let ?t = "remove_lease k s" and ?i = "el_messageId l"
  let ?ks = "removeAll k (keys_of s ?i)"
  have m: "map_of (le_leases ?t) = (map_of (le_leases s))(k := None)"
    using Some by (simp add: remove_lease_def Let_def delete_conv')
  have b: "map_of (le_byId ?t) = (map_of (le_byId s))(?i := (if ?ks = [] then None else Some ?ks))"
    using Some by (auto simp: remove_lease_def Let_def delete_conv' update_conv')
  have keys: "keys_of ?t j = (if j = ?i then ?ks else keys_of s j)" for j
    unfolding keys_of_def [of ?t] b by (simp add: keys_of_def)
  have "map_of (le_byId ?t) j \<noteq> Some []" for j using assms unfolding b lease_links_def by simp
  moreover have "k' \<in> set (keys_of ?t j) \<longleftrightarrow> (\<exists>l. map_of (le_leases ?t) k' = Some l \<and> el_messageId l = j)" for j k'
    using Some by (auto simp: keys m linksD [OF assms])
  moreover have "distinct (map fst (le_leases ?t))" "le_disposed ?t \<longrightarrow> le_leases ?t = []"
    using assms Some by (auto simp: remove_lease_def Let_def lease_links_def distinct_delete)
  ultimately show ?thesis using m by (simp add: lease_links_def)
qed

lemma remove_keys_links:
  "lease_links s \<Longrightarrow> lease_links (remove_keys ks s) \<and>
     map_of (le_leases (remove_keys ks s)) = (\<lambda>k. if k \<in> set ks then None else map_of (le_leases s) k)"
proof (induction ks arbitrary: s)
  case (Cons k ks)
  from Cons.IH [of "remove_lease k s"] remove_links [OF Cons.prems, of k] show ?case
    by (auto simp: remove_keys_def)
qed (simp add: remove_keys_def)

lemma deadline_least: "next_deadline s = Some t \<Longrightarrow> (k, l) \<in> set (le_leases s) \<Longrightarrow> t \<le> el_until l"
proof -
  have "foldl min u us \<le> u \<and> (\<forall>v\<in>set us. foldl min u us \<le> v)" for u :: int and us
  proof (induction us arbitrary: u)
    case (Cons a us)
    from Cons [of "min u a"] show ?case by auto
  qed simp
  note least = this
  assume t: "next_deadline s = Some t" and kl: "(k, l) \<in> set (le_leases s)"
  then obtain u us where us: "map (el_until \<circ> snd) (le_leases s) = u # us" "t = foldl min u us"
    by (auto simp: next_deadline_def split: list.splits)
  have "el_until l \<in> set (u # us)" unfolding us(1) [symmetric] using kl by force
  then show ?thesis using least [of u us] us(2) by auto
qed

lemma deadline_None [simp]: "next_deadline s = None \<longleftrightarrow> le_leases s = []"
  by (auto simp: next_deadline_def split: list.splits)

text \<open>The leases an operation at a time sees.\<close>

definition live_lease :: "int \<Rightarrow> edit_leases \<Rightarrow> lease_key \<Rightarrow> edit_lease option" where
  "live_lease now s k = (case map_of (le_leases s) k of Some l \<Rightarrow> if now < el_until l then Some l else None | None \<Rightarrow> None)"

lemma filtered_keys:
  "distinct (map fst al) \<Longrightarrow> k \<in> set (map fst (filter P al)) \<longleftrightarrow> (\<exists>l. map_of al k = Some l \<and> P (k, l))"
  by (auto simp: image_iff)

lemma drop_expired_links:
  assumes "lease_links s"
  shows "lease_links (drop_expired now s)" and "map_of (le_leases (drop_expired now s)) = live_lease now s"
proof -
  let ?ks = "map fst (filter (\<lambda>(k, l). el_until l \<le> now) (le_leases s))"
  note R = remove_keys_links [OF assms, of ?ks]
  show "lease_links (drop_expired now s)" using R by (simp add: drop_expired_def)
  have "k \<in> set ?ks \<longleftrightarrow> (\<exists>l. map_of (le_leases s) k = Some l \<and> el_until l \<le> now)" for k
    using filtered_keys [of "le_leases s" k "\<lambda>(k, l). el_until l \<le> now"] assms by (simp add: lease_links_def)
  then show "map_of (le_leases (drop_expired now s)) = live_lease now s"
    using R by (auto simp: drop_expired_def live_lease_def fun_eq_iff split: option.split)
qed

lemma expire_ok:
  assumes "leases_ok s"
  shows "leases_ok (expire now s)" and "map_of (le_leases (expire now s)) = live_lease now s"
proof -
  have links: "lease_links s" using assms by (simp add: leases_ok_def)
  let ?t = "schedule (drop_expired now s)"
  have d: "leases_ok (?t\<lparr>le_wakes := le_wakes ?t + 1\<rparr>)"
    using drop_expired_links(1) [OF links, of now] schedule_ok [of "drop_expired now s"]
    by (simp add: leases_ok_def lease_links_def keys_of_def next_deadline_def)
  have early: "live_lease now s = map_of (le_leases s)" if "\<forall>t. le_timerAt s = Some t \<longrightarrow> now < t"
  proof (rule ext)
    fix k
    show "live_lease now s k = map_of (le_leases s) k"
    proof (cases "map_of (le_leases s) k")
      case (Some l)
      then have kl: "(k, l) \<in> set (le_leases s)" by (rule map_of_SomeD)
      then obtain t where t: "next_deadline s = Some t" by (cases "next_deadline s") auto
      then have "now < el_until l" using that deadline_least [OF t kl] assms by (force simp: leases_ok_def)
      with Some show ?thesis by (simp add: live_lease_def)
    qed (simp add: live_lease_def)
  qed
  show "leases_ok (expire now s)" using assms d by (simp add: expire_def Let_def split: option.split)
  show "map_of (le_leases (expire now s)) = live_lease now s"
    using early drop_expired_links(2) [OF links, of now] by (simp add: expire_def Let_def split: option.split)
qed

section \<open>What the operations do to the leases\<close>

lemma leases_okD [dest]: "leases_ok s \<Longrightarrow> lease_links s"
  by (simp add: leases_ok_def)

lemma remove_keys_rest: "le_disposed (remove_keys ks s) = le_disposed s"
proof (induction ks arbitrary: s)
  case (Cons k ks)
  have "le_disposed (remove_lease k s) = le_disposed s" by (simp add: remove_lease_def Let_def split: option.split)
  with Cons [of "remove_lease k s"] show ?case by (simp add: remove_keys_def)
qed (simp add: remove_keys_def)

lemma remove_keys_revision:
  "lease_links s \<Longrightarrow> le_revision (remove_keys ks s) = le_revision s \<Longrightarrow> remove_keys ks s = s"
proof -
  have up: "le_revision s \<le> le_revision (remove_keys ks s)" for ks s
  proof (induction ks arbitrary: s)
    case (Cons k ks)
    have "le_revision s \<le> le_revision (remove_lease k s)" by (simp add: remove_lease_def Let_def split: option.split)
    with Cons [of "remove_lease k s"] show ?case by (simp add: remove_keys_def)
  qed (simp add: remove_keys_def)
  have one: "remove_lease k s = s \<or> le_revision (remove_lease k s) = le_revision s + 1" for k s
    by (simp add: remove_lease_def Let_def split: option.split)
  show "le_revision (remove_keys ks s) = le_revision s \<Longrightarrow> remove_keys ks s = s"
  proof (induction ks)
    case (Cons k ks)
    have r: "remove_keys (k # ks) s = remove_keys ks (remove_lease k s)" by (simp add: remove_keys_def)
    have "remove_lease k s = s"
      using one [of k s] up [of "remove_lease k s" ks] Cons.prems unfolding r by auto
    with Cons show ?case unfolding r by simp
  qed (simp add: remove_keys_def)
qed

definition kept_lease :: "(string \<Rightarrow> queued_message option) \<Rightarrow> int \<Rightarrow> edit_leases \<Rightarrow> string \<Rightarrow> lease_key \<Rightarrow> edit_lease option" where
  "kept_lease get now s i k =
     (case live_lease now s k of
        Some l \<Rightarrow> if el_messageId l = i \<and> stale_lease get i l then None else Some l
      | None \<Rightarrow> None)"

lemma unless_Some:
  "(case x of None \<Rightarrow> None | Some l \<Rightarrow> if P l then None else Some l) = Some m \<longleftrightarrow> x = Some m \<and> \<not> P m"
  by (auto split: option.split)

lemma isHeld_parts:
  assumes "leases_ok s"
  shows "leases_ok (snd (isHeld get now i s))"
    and "map_of (le_leases (snd (isHeld get now i s))) = kept_lease get now s i"
    and "fst (isHeld get now i s) \<longleftrightarrow> (\<exists>k l. live_lease now s k = Some l \<and> el_messageId l = i \<and> \<not> stale_lease get i l)"
proof -
  let ?s1 = "expire now s"
  have ok1: "leases_ok ?s1" and m1: "map_of (le_leases ?s1) = live_lease now s" using expire_ok [OF assms] by blast+
  have l1: "lease_links ?s1" using ok1 by blast
  define t where "t = snd (isHeld get now i s)"
  have "leases_ok t \<and> map_of (le_leases t) = kept_lease get now s i \<and> (fst (isHeld get now i s) \<longleftrightarrow> map_of (le_byId t) i \<noteq> None)"
  proof (cases "map_of (le_byId ?s1) i")
    case None
    then have "\<forall>k l. live_lease now s k = Some l \<longrightarrow> el_messageId l \<noteq> i" using held_iff_lease [OF l1, of i] unfolding m1 by blast
    then have "kept_lease get now s i = live_lease now s" by (auto simp: kept_lease_def fun_eq_iff split: option.split)
    with None ok1 m1 show ?thesis by (simp add: t_def isHeld_def Let_def)
  next
    case (Some ks0)
    define ks where "ks = filter (\<lambda>k. case map_of (le_leases ?s1) k of Some l \<Rightarrow> stale_lease get i l | None \<Rightarrow> False) (keys_of ?s1 i)"
    let ?s2 = "remove_keys ks ?s1"
    have t: "t = (if le_revision ?s2 \<noteq> le_revision ?s1 then schedule ?s2 else ?s2)"
      "fst (isHeld get now i s) \<longleftrightarrow> map_of (le_byId t) i \<noteq> None"
      using Some by (simp_all add: t_def isHeld_def Let_def ks_def)
    have links: "lease_links ?s2" and m2: "map_of (le_leases ?s2) = (\<lambda>k. if k \<in> set ks then None else live_lease now s k)"
      using remove_keys_links [OF l1, of ks] m1 by auto
    have ok: "leases_ok t"
      using links ok1 remove_keys_revision [OF l1, of ks] unfolding t(1) by auto
    have "(\<lambda>k. if k \<in> set ks then None else live_lease now s k) = kept_lease get now s i"
      by (auto simp: ks_def linksD [OF l1] m1 kept_lease_def fun_eq_iff split: option.split)
    with ok m2 t show ?thesis by simp
  qed
  then have all: "leases_ok t" "map_of (le_leases t) = kept_lease get now s i" "fst (isHeld get now i s) \<longleftrightarrow> map_of (le_byId t) i \<noteq> None"
    by blast+
  show "leases_ok (snd (isHeld get now i s))" and "map_of (le_leases (snd (isHeld get now i s))) = kept_lease get now s i"
    using all(1,2) by (simp_all add: t_def)
  show "fst (isHeld get now i s) \<longleftrightarrow> (\<exists>k l. live_lease now s k = Some l \<and> el_messageId l = i \<and> \<not> stale_lease get i l)"
    unfolding all(3) held_iff_lease [OF leases_okD [OF all(1)]] all(2) kept_lease_def unless_Some
    by auto
qed

lemma live_kept: "live_lease now s k = Some l \<Longrightarrow> now < el_until l \<and> map_of (le_leases s) k = Some l"
  by (auto simp: live_lease_def split: option.splits if_splits)

lemma live_iff: "live_lease now s k = Some l \<longleftrightarrow> map_of (le_leases s) k = Some l \<and> now < el_until l"
  by (auto simp: live_lease_def split: option.split)

lemma fresh_iff: "\<not> stale_lease get i l \<longleftrightarrow> (\<exists>c. get i = Some c \<and> leaseMatchesRow l c)"
  by (simp add: stale_lease_def split: option.split)

lemma heldIds_parts:
  assumes "leases_ok s"
  shows "leases_ok (snd (heldIds get now s))"
    and "map_of (le_leases (snd (heldIds get now s))) k =
      (case live_lease now s k of Some l \<Rightarrow> if stale_lease get (el_messageId l) l then None else Some l | None \<Rightarrow> None)"
    and "i \<in> set (fst (heldIds get now s)) \<longleftrightarrow> fst (isHeld get now i s)"
proof -
  let ?s1 = "expire now s"
  have l1: "lease_links ?s1" and m1: "map_of (le_leases ?s1) = live_lease now s" using expire_ok [OF assms] by blast+
  let ?ks = "map fst (filter (\<lambda>(k, l). stale_lease get (el_messageId l) l) (le_leases ?s1))"
  have t: "snd (heldIds get now s) = schedule (remove_keys ?ks ?s1)" "fst (heldIds get now s) = map fst (le_byId (remove_keys ?ks ?s1))"
    by (simp_all add: heldIds_def Let_def)
  have links: "lease_links (remove_keys ?ks ?s1)"
    and m2: "map_of (le_leases (remove_keys ?ks ?s1)) = (\<lambda>k. if k \<in> set ?ks then None else live_lease now s k)"
    using remove_keys_links [OF l1, of ?ks] m1 by auto
  show "leases_ok (snd (heldIds get now s))" using links by (simp add: t)
  have ks: "k \<in> set ?ks \<longleftrightarrow> (\<exists>l. live_lease now s k = Some l \<and> stale_lease get (el_messageId l) l)" for k
    using filtered_keys [of "le_leases ?s1" k "\<lambda>(k, l). stale_lease get (el_messageId l) l"] l1 m1
    by (simp add: lease_links_def)
  have m: "map_of (le_leases (snd (heldIds get now s))) k =
      (case live_lease now s k of Some l \<Rightarrow> if stale_lease get (el_messageId l) l then None else Some l | None \<Rightarrow> None)" for k
    unfolding t(1) schedule_parts m2 ks by (auto split: option.split)
  show "map_of (le_leases (snd (heldIds get now s))) k =
      (case live_lease now s k of Some l \<Rightarrow> if stale_lease get (el_messageId l) l then None else Some l | None \<Rightarrow> None)"
    by (rule m)
  have "i \<in> set (fst (heldIds get now s)) \<longleftrightarrow> map_of (le_byId (remove_keys ?ks ?s1)) i \<noteq> None"
    by (simp add: t(2) map_of_eq_None_iff)
  also have "\<dots> \<longleftrightarrow> (\<exists>k l. map_of (le_leases (snd (heldIds get now s))) k = Some l \<and> el_messageId l = i)"
    using held_iff_lease [OF links] by (simp add: t(1))
  also have "\<dots> \<longleftrightarrow> fst (isHeld get now i s)"
    unfolding isHeld_parts(3) [OF assms] m unless_Some by auto
  finally show "i \<in> set (fst (heldIds get now s)) \<longleftrightarrow> fst (isHeld get now i s)" .
qed

lemma disposed_expire [simp]: "le_disposed (expire now s) = le_disposed s"
  by (simp add: expire_def drop_expired_def remove_keys_rest Let_def split: option.split)

lemma disposed_isHeld [simp]: "le_disposed (snd (isHeld get now i s)) = le_disposed s"
  by (simp add: isHeld_def Let_def remove_keys_rest)

lemma live_again: "leases_ok s \<Longrightarrow> live_lease now (expire now s) = live_lease now s"
  by (auto simp: live_lease_def [of now "expire now s"] expire_ok(2) fun_eq_iff dest: live_kept split: option.split)

lemma add_lease_links:
  assumes "lease_links s" and "map_of (le_leases s) k = None" and "\<not> le_disposed s"
  shows "lease_links (s\<lparr>le_leases := AList.update k l (le_leases s),
    le_byId := AList.update (el_messageId l) (add_key k (keys_of s (el_messageId l))) (le_byId s), le_revision := n\<rparr>)"
    (is "lease_links ?t")
proof -
  let ?i = "el_messageId l"
  have m: "map_of (le_leases ?t) = (map_of (le_leases s))(k \<mapsto> l)" by (simp add: update_conv')
  have b: "map_of (le_byId ?t) = (map_of (le_byId s))(?i \<mapsto> add_key k (keys_of s ?i))" by (simp add: update_conv')
  have keys: "keys_of ?t j = (if j = ?i then add_key k (keys_of s ?i) else keys_of s j)" for j
    unfolding keys_of_def [of ?t] b by (simp add: keys_of_def)
  have "k' \<in> set (keys_of ?t j) \<longleftrightarrow> (\<exists>x. map_of (le_leases ?t) k' = Some x \<and> el_messageId x = j)" for j k'
    unfolding keys m using assms(2) by (auto simp: add_key_def linksD [OF assms(1)])
  moreover have "map_of (le_byId ?t) j \<noteq> Some []" for j using assms(1) unfolding b by (simp add: lease_links_def add_key_def) force
  moreover have "distinct (map fst (le_leases ?t))" "le_disposed ?t \<longrightarrow> le_leases ?t = []"
    using assms(1,3) by (simp_all add: lease_links_def distinct_update)
  ultimately show ?thesis by (simp add: lease_links_def)
qed

text \<open>Acquiring: the same editor asking again for the same text gets its lease back, unextended.\<close>

lemma acquire_parts:
  fixes k :: lease_key and now :: int and fingerprint :: string
  assumes ok: "leases_ok s" and get: "\<And>c. get i = Some c \<Longrightarrow> qm_messageId c = i"
  defines "r \<equiv> acquire get now k i fingerprint s"
  defines "seen \<equiv> (case live_lease now s k of
      Some l \<Rightarrow> if stale_lease get (el_messageId l) l then None else Some l | None \<Rightarrow> None)"
  shows "leases_ok (snd r)"
    and "fst r = (case seen of
        Some l \<Rightarrow> if el_messageId l = i \<and> el_fingerprint l = fingerprint then lease_answer now l else Edit_changed
      | None \<Rightarrow>
          (case get i of
             None \<Rightarrow> Edit_gone
           | Some c \<Rightarrow> if le_disposed s \<or> \<not> isUnsettledQueuedMessage c then Edit_gone
               else if qm_fingerprint c \<noteq> fingerprint then Edit_changed
               else Edit_held fingerprint queued_message_edit_lease_ms queued_message_edit_lease_ms))"
    and "map_of (le_leases (snd r)) k = (case seen of
        Some l \<Rightarrow> Some l
      | None \<Rightarrow>
          (case get i of
             None \<Rightarrow> None
           | Some c \<Rightarrow> if le_disposed s \<or> \<not> isUnsettledQueuedMessage c \<or> qm_fingerprint c \<noteq> fingerprint then None
               else Some \<lparr>el_messageId = i, el_fingerprint = fingerprint, el_state = qm_state c, el_consumedAs = qm_consumedAs c,
                          el_until = now + queued_message_edit_lease_ms\<rparr>))"
    and "k' \<noteq> k \<Longrightarrow> map_of (le_leases (snd r)) k' = Some l \<Longrightarrow> live_lease now s k' = Some l"
proof -
  let ?s1 = "expire now s"
  define j where "j = (case map_of (le_leases ?s1) k of Some l \<Rightarrow> el_messageId l | None \<Rightarrow> i)"
  define s2 where "s2 = snd (isHeld get now j ?s1)"
  have ok1: "leases_ok ?s1" and m1: "map_of (le_leases ?s1) = live_lease now s" using expire_ok [OF ok] by blast+
  have ok2: "leases_ok s2" and m2: "map_of (le_leases s2) = kept_lease get now ?s1 j"
    using isHeld_parts(1,2) [OF ok1] by (simp_all add: s2_def)
  have live: "kept_lease get now ?s1 j k' = Some x \<Longrightarrow> live_lease now s k' = Some x" for k' x
    unfolding kept_lease_def unless_Some live_again [OF ok] by blast
  have k2: "map_of (le_leases s2) k = seen"
    unfolding m2 kept_lease_def live_again [OF ok] seen_def j_def m1 by (auto split: option.split)
  have d2: "le_disposed s2 = le_disposed s" by (simp add: s2_def)
  define new where "new c = \<lparr>el_messageId = qm_messageId c, el_fingerprint = qm_fingerprint c, el_state = qm_state c,
    el_consumedAs = qm_consumedAs c, el_until = now + queued_message_edit_lease_ms\<rparr>" for c :: queued_message
  define s3 where "s3 c = s2\<lparr>le_leases := AList.update k (new c) (le_leases s2),
    le_byId := AList.update (el_messageId (new c)) (add_key k (keys_of s2 (el_messageId (new c)))) (le_byId s2),
    le_revision := le_revision s2 + 1\<rparr>" for c
  have r: "r = (case seen of
      Some l \<Rightarrow> (if el_messageId l = i \<and> el_fingerprint l = fingerprint then lease_answer now l else Edit_changed, s2)
    | None \<Rightarrow> (case get i of
        None \<Rightarrow> (Edit_gone, s2)
      | Some c \<Rightarrow> if le_disposed s \<or> \<not> isUnsettledQueuedMessage c then (Edit_gone, s2)
          else if qm_fingerprint c \<noteq> fingerprint then (Edit_changed, s2)
          else (lease_answer now (new c), schedule (s3 c))))"
    unfolding r_def acquire_def Let_def k2 [symmetric] d2 [symmetric] s3_def new_def unfolding s2_def j_def
    by (simp split: option.split)
  have links3: "lease_links (s3 c)" if "seen = None" "\<not> le_disposed s" for c
    unfolding s3_def by (rule add_lease_links) (use ok2 k2 d2 that in auto)
  have m3: "map_of (le_leases (s3 c)) = (map_of (le_leases s2))(k \<mapsto> new c)" for c by (simp add: s3_def update_conv')
  show "leases_ok (snd r)" using ok2 links3 unfolding r by (simp split: option.split)
  show "fst r = (case seen of
        Some l \<Rightarrow> if el_messageId l = i \<and> el_fingerprint l = fingerprint then lease_answer now l else Edit_changed
      | None \<Rightarrow>
          (case get i of
             None \<Rightarrow> Edit_gone
           | Some c \<Rightarrow> if le_disposed s \<or> \<not> isUnsettledQueuedMessage c then Edit_gone
               else if qm_fingerprint c \<noteq> fingerprint then Edit_changed
               else Edit_held fingerprint queued_message_edit_lease_ms queued_message_edit_lease_ms))"
    unfolding r by (simp add: lease_answer_def new_def queued_message_edit_lease_ms_def split: option.split)
  show "map_of (le_leases (snd r)) k = (case seen of
        Some l \<Rightarrow> Some l
      | None \<Rightarrow>
          (case get i of
             None \<Rightarrow> None
           | Some c \<Rightarrow> if le_disposed s \<or> \<not> isUnsettledQueuedMessage c \<or> qm_fingerprint c \<noteq> fingerprint then None
               else Some \<lparr>el_messageId = i, el_fingerprint = fingerprint, el_state = qm_state c, el_consumedAs = qm_consumedAs c,
                          el_until = now + queued_message_edit_lease_ms\<rparr>))"
    unfolding r using get by (simp add: m3 k2 new_def split: option.split)
  show "k' \<noteq> k \<Longrightarrow> map_of (le_leases (snd r)) k' = Some l \<Longrightarrow> live_lease now s k' = Some l"
    using live [of k' l] unfolding r by (auto simp: m2 m3 split: option.splits if_splits)
qed

lemma expire_leases_subset:
  "leases_ok s \<Longrightarrow> map_of (le_leases (snd (isHeld get now i s))) k = Some l \<Longrightarrow> map_of (le_leases s) k = Some l"
  by (auto simp: isHeld_parts(2) kept_lease_def unless_Some dest: live_kept)

lemma update_lease_links:
  assumes "lease_links s" and "map_of (le_leases s) k = Some l" and "el_messageId l2 = el_messageId l"
  shows "lease_links (s\<lparr>le_leases := AList.update k l2 (le_leases s)\<rparr>)" (is "lease_links ?t")
proof -
  have m: "map_of (le_leases ?t) = (map_of (le_leases s))(k \<mapsto> l2)" by (simp add: update_conv')
  have keys: "keys_of ?t j = keys_of s j" for j by (simp add: keys_of_def)
  have "k' \<in> set (keys_of ?t j) \<longleftrightarrow> (\<exists>x. map_of (le_leases ?t) k' = Some x \<and> el_messageId x = j)" for j k'
    unfolding keys m using assms(2,3) by (auto simp: linksD [OF assms(1)])
  moreover have "distinct (map fst (le_leases ?t))" "le_disposed ?t \<longrightarrow> le_leases ?t = []" "\<forall>j. map_of (le_byId ?t) j \<noteq> Some []"
    using assms(1,2) by (auto simp: lease_links_def distinct_update)
  ultimately show ?thesis by (simp add: lease_links_def)
qed

lemma renew_parts:
  fixes k :: lease_key and now :: int and get :: "string \<Rightarrow> queued_message option" and i :: string
  assumes ok: "leases_ok s"
  defines "r \<equiv> renew get now k i s"
  shows "leases_ok (snd r)"
    and "fst r = (case kept_lease get now s i k of
        Some l \<Rightarrow> if el_messageId l = i then Edit_held (el_fingerprint l) queued_message_edit_lease_ms queued_message_edit_lease_ms
          else Edit_expired
      | None \<Rightarrow> Edit_expired)"
    and "map_of (le_leases (snd r)) k' = (case kept_lease get now s i k' of
        Some l \<Rightarrow> Some (if k' = k \<and> el_messageId l = i then l\<lparr>el_until := now + queued_message_edit_lease_ms\<rparr> else l)
      | None \<Rightarrow> None)"
proof -
  define s1 where "s1 = snd (isHeld get now i s)"
  have ok1: "leases_ok s1" and m1: "map_of (le_leases s1) = kept_lease get now s i"
    using isHeld_parts(1,2) [OF ok] by (simp_all add: s1_def)
  have r: "r = (case kept_lease get now s i k of
      None \<Rightarrow> (Edit_expired, s1)
    | Some l \<Rightarrow> if el_messageId l \<noteq> i then (Edit_expired, s1)
        else (lease_answer now (l\<lparr>el_until := now + queued_message_edit_lease_ms\<rparr>),
          schedule (s1\<lparr>le_leases := AList.update k (l\<lparr>el_until := now + queued_message_edit_lease_ms\<rparr>) (le_leases s1)\<rparr>)))"
    unfolding r_def renew_def Let_def s1_def [symmetric] m1 by simp
  have links: "lease_links (s1\<lparr>le_leases := AList.update k (l\<lparr>el_until := u\<rparr>) (le_leases s1)\<rparr>)"
    if "kept_lease get now s i k = Some l" for l u
    by (rule update_lease_links [of s1 k l]) (use ok1 m1 that in auto)
  show "leases_ok (snd r)" using ok1 links unfolding r by (simp split: option.split)
  show "fst r = (case kept_lease get now s i k of
        Some l \<Rightarrow> if el_messageId l = i then Edit_held (el_fingerprint l) queued_message_edit_lease_ms queued_message_edit_lease_ms
          else Edit_expired
      | None \<Rightarrow> Edit_expired)"
    unfolding r by (simp add: lease_answer_def queued_message_edit_lease_ms_def split: option.split)
  show "map_of (le_leases (snd r)) k' = (case kept_lease get now s i k' of
        Some l \<Rightarrow> Some (if k' = k \<and> el_messageId l = i then l\<lparr>el_until := now + queued_message_edit_lease_ms\<rparr> else l)
      | None \<Rightarrow> None)"
    unfolding r by (auto simp: m1 update_conv' split: option.split)
qed

lemma other_parts:
  assumes ok: "leases_ok s"
  shows "leases_ok (release_lease k i s)" "leases_ok (retire i s)" "leases_ok (dispose s)" "leases_ok (timer_fires now s)"
    "leases_ok (snd (lease_version now s))"
    and "map_of (le_leases (release_lease k i s)) k' = Some l \<Longrightarrow> map_of (le_leases s) k' = Some l"
    "map_of (le_leases (retire i s)) k' = Some l \<Longrightarrow> map_of (le_leases s) k' = Some l"
    "map_of (le_leases (dispose s)) k' = None"
    "map_of (le_leases (timer_fires now s)) k' = Some l \<Longrightarrow> map_of (le_leases s) k' = Some l"
    "map_of (le_leases (snd (lease_version now s))) k' = Some l \<Longrightarrow> map_of (le_leases s) k' = Some l"
proof -
  have links: "lease_links s" using ok by blast
  have s0: "lease_links (s\<lparr>le_timerAt := None\<rparr>)" using links links_cong [of "s\<lparr>le_timerAt := None\<rparr>" s] by simp
  have l0: "live_lease now (s\<lparr>le_timerAt := None\<rparr>) = live_lease now s" by (simp add: live_lease_def fun_eq_iff)
  note T = drop_expired_links [OF s0, of now]
  show "leases_ok (release_lease k i s)"
    using ok remove_links [OF links, of k] by (simp add: release_lease_def split: option.split)
  show "leases_ok (retire i s)" using remove_keys_links [OF links] by (simp add: retire_def)
  show "leases_ok (dispose s)" "map_of (le_leases (dispose s)) k' = None"
    by (simp_all add: dispose_def lease_links_def keys_of_def)
  show "leases_ok (timer_fires now s)"
    using T(1) schedule_ok [of "drop_expired now (s\<lparr>le_timerAt := None\<rparr>)"]
    by (simp add: timer_fires_def Let_def leases_ok_def lease_links_def keys_of_def next_deadline_def)
  show "leases_ok (snd (lease_version now s))" using expire_ok(1) [OF ok] by (simp add: lease_version_def Let_def)
  show "map_of (le_leases (release_lease k i s)) k' = Some l \<Longrightarrow> map_of (le_leases s) k' = Some l"
    using remove_links [OF links, of k] by (auto simp: release_lease_def split: option.splits if_splits)
  show "map_of (le_leases (retire i s)) k' = Some l \<Longrightarrow> map_of (le_leases s) k' = Some l"
    using remove_keys_links [OF links] by (auto simp: retire_def split: if_splits)
  show "map_of (le_leases (timer_fires now s)) k' = Some l \<Longrightarrow> map_of (le_leases s) k' = Some l"
    using T(2) live_kept [of now s k' l] unfolding l0 by (simp add: timer_fires_def Let_def)
  show "map_of (le_leases (snd (lease_version now s))) k' = Some l \<Longrightarrow> map_of (le_leases s) k' = Some l"
    using expire_ok(2) [OF ok, of now] live_kept [of now s k' l] by (simp add: lease_version_def Let_def)
qed

section \<open>Runs\<close>

text \<open>
  The operations in any order, under a clock that never goes back; between two of them the cards may
  change.
\<close>

inductive lease_run :: "int \<Rightarrow> edit_leases \<Rightarrow> bool" where
  run_start: "lease_run now no_leases"
| run_acquire: "lease_run t s \<Longrightarrow> t \<le> now \<Longrightarrow> (\<And>c. get i = Some c \<Longrightarrow> qm_messageId c = i) \<Longrightarrow>
    lease_run now (snd (acquire get now k i fingerprint s))"
| run_renew: "lease_run t s \<Longrightarrow> t \<le> now \<Longrightarrow> lease_run now (snd (renew get now k i s))"
| run_release: "lease_run t s \<Longrightarrow> lease_run t (release_lease k i s)"
| run_retire: "lease_run t s \<Longrightarrow> lease_run t (retire i s)"
| run_dispose: "lease_run t s \<Longrightarrow> lease_run t (dispose s)"
| run_isHeld: "lease_run t s \<Longrightarrow> t \<le> now \<Longrightarrow> lease_run now (snd (isHeld get now i s))"
| run_heldIds: "lease_run t s \<Longrightarrow> t \<le> now \<Longrightarrow> lease_run now (snd (heldIds get now s))"
| run_version: "lease_run t s \<Longrightarrow> t \<le> now \<Longrightarrow> lease_run now (snd (lease_version now s))"
| run_timer: "lease_run t s \<Longrightarrow> t \<le> now \<Longrightarrow> lease_run now (timer_fires now s)"

definition leases_bounded :: "int \<Rightarrow> edit_leases \<Rightarrow> bool" where
  "leases_bounded now s = (\<forall>k l. map_of (le_leases s) k = Some l \<longrightarrow> el_until l \<le> now + queued_message_edit_lease_ms)"

lemma bounded_subset:
  "leases_bounded t s \<Longrightarrow> t \<le> now \<Longrightarrow> (\<And>k l. map_of (le_leases u) k = Some l \<Longrightarrow> map_of (le_leases s) k = Some l) \<Longrightarrow>
   leases_bounded now u"
  unfolding leases_bounded_def by (meson add_right_mono order_trans)

lemma bounded_at:
  "leases_bounded t s \<Longrightarrow> t \<le> now \<Longrightarrow> map_of (le_leases s) k = Some l \<Longrightarrow> el_until l \<le> now + queued_message_edit_lease_ms"
  unfolding leases_bounded_def by (meson add_right_mono order_trans)

lemma lease_run_ok: "lease_run t s \<Longrightarrow> leases_ok s \<and> leases_bounded t s"
proof (induction rule: lease_run.induct)
  case (run_acquire t s now get i k fingerprint)
  then have ok: "leases_ok s" and b: "leases_bounded t s" by auto
  note A = acquire_parts [where get = get and now = now and k = k and fingerprint = fingerprint, OF ok run_acquire.hyps(3)]
  have "el_until l \<le> now + queued_message_edit_lease_ms"
    if "map_of (le_leases (snd (acquire get now k i fingerprint s))) k' = Some l" for k' l
  proof (cases "map_of (le_leases s) k' = Some l")
    case True
    show ?thesis by (rule bounded_at [OF b run_acquire.hyps(2) True])
  next
    case False
    have old: "live_lease now s k' \<noteq> Some l" using False live_kept by blast
    show ?thesis
    proof (cases "k' = k")
      case True
      with that old A(3) show ?thesis by (auto split: option.splits if_splits)
    next
      case False
      with A(4) that old show ?thesis by blast
    qed
  qed
  with A(1) show ?case by (simp add: leases_bounded_def)
next
  case (run_renew t s now get k i)
  then have ok: "leases_ok s" and b: "leases_bounded t s" by auto
  note R = renew_parts [OF ok, of get now k i]
  have "el_until l \<le> now + queued_message_edit_lease_ms"
    if "map_of (le_leases (snd (renew get now k i s))) k' = Some l" for k' l
  proof (cases "map_of (le_leases s) k' = Some l")
    case True
    show ?thesis by (rule bounded_at [OF b run_renew.hyps(2) True])
  next
    case False
    then have "kept_lease get now s i k' \<noteq> Some l" unfolding kept_lease_def unless_Some using live_kept by blast
    with that show ?thesis unfolding R(3) by (auto split: option.splits if_splits)
  qed
  with R(1) show ?case by (simp add: leases_bounded_def)
next
  case (run_heldIds t s now get)
  then show ?case
    using heldIds_parts(1,2) [of s get now] bounded_subset [of t s now "snd (heldIds get now s)"]
    by (auto simp: unless_Some dest: live_kept)
next
  case (run_dispose t s)
  then show ?case using other_parts(3,8) by (auto simp: leases_bounded_def)
next
  case (run_isHeld t s now get i)
  then have ok: "leases_ok s" by blast
  with run_isHeld isHeld_parts(1) [OF ok] show ?case by (auto intro: bounded_subset dest: expire_leases_subset [OF ok])
next
  case (run_release t s k i)
  then have ok: "leases_ok s" by blast
  with run_release other_parts(1) [OF ok] show ?case by (auto intro: bounded_subset dest: other_parts(6) [OF ok])
next
  case (run_retire t s i)
  then have ok: "leases_ok s" by blast
  with run_retire other_parts(2) [OF ok] show ?case by (auto intro: bounded_subset dest: other_parts(7) [OF ok])
next
  case (run_version t s now)
  then have ok: "leases_ok s" by blast
  with run_version other_parts(5) [OF ok] show ?case by (auto intro: bounded_subset dest: other_parts(10) [OF ok])
next
  case (run_timer t s now)
  then have ok: "leases_ok s" by blast
  with run_timer other_parts(4) [OF ok] show ?case by (auto intro: bounded_subset dest: other_parts(9) [OF ok])
next
  case (run_start now)
  have "leases_bounded now no_leases" by (simp add: leases_bounded_def no_leases_def)
  then show ?case by simp
qed

text \<open>
  What the choice of the next card passes and where it stops.
\<close>

text \<open>The cards a choice passes on its way: mail that cannot be confirmed now, or, for mail that steers a
  running turn, the person's plain messages.\<close>

definition passable :: "selection \<Rightarrow> bool \<Rightarrow> queued_message \<Rightarrow> bool" where
  "passable x steer c =
     (ready_card x c \<and> (if steer then \<not> is_mail c \<and> mb_command (qm_body c) = None \<and> mb_from (qm_body c) = From_person else is_mail c))"

lemma past_mail_passes:
  "past_mail x rows = Some c \<Longrightarrow>
   \<exists>before row later. rows = before @ row # later \<and> c = current_card x row \<and> ready_card x c \<and> \<not> is_mail c \<and>
     (\<forall>d\<in>set before. passable x False (current_card x d))"
proof (induction rows)
  case (Cons row rows)
  let ?d = "current_card x row"
  show ?case
  proof (cases "is_mail ?d")
    case True
    with Cons.prems have ready: "ready_card x ?d" and "past_mail x rows = Some c" by (auto simp: Let_def split: if_splits)
    from Cons.IH [OF this(2)] obtain before row' later where "rows = before @ row' # later" "c = current_card x row'"
      "ready_card x c" "\<not> is_mail c" "\<forall>d\<in>set before. passable x False (current_card x d)" by blast
    with ready True show ?thesis by (intro exI [of _ "row # before"] exI [of _ row'] exI [of _ later]) (simp add: passable_def)
  next
    case False
    with Cons.prems show ?thesis
      by (intro exI [of _ "[]"] exI [of _ row] exI [of _ rows]) (auto simp: Let_def split: if_splits)
  qed
qed simp

lemma steer_kinds:
  "steer_candidate x c = Steer_pass \<longleftrightarrow> passable x True c"
  "steer_candidate x c = Steer_mail \<longleftrightarrow> ready_card x c \<and> is_mail c"
  by (auto simp: steer_candidate_def passable_def)

lemma past_person_passes:
  "past_person x rows = Some c \<Longrightarrow>
   \<exists>before row later. rows = before @ row # later \<and> c = current_card x row \<and> ready_card x c \<and> is_mail c \<and>
     (\<forall>d\<in>set before. passable x True (current_card x d))"
proof (induction rows)
  case (Cons row rows)
  let ?d = "current_card x row"
  show ?case
  proof (cases "steer_candidate x ?d")
    case Steer_pass
    with Cons.prems have "past_person x rows = Some c" by (simp add: Let_def)
    from Cons.IH [OF this] obtain before row' later where "rows = before @ row' # later" "c = current_card x row'"
      "ready_card x c" "is_mail c" "\<forall>d\<in>set before. passable x True (current_card x d)" by blast
    with Steer_pass show ?thesis
      by (intro exI [of _ "row # before"] exI [of _ row'] exI [of _ later]) (simp add: steer_kinds)
  next
    case Steer_mail
    with Cons.prems show ?thesis
      by (intro exI [of _ "[]"] exI [of _ row] exI [of _ rows]) (auto simp: Let_def steer_kinds)
  next
    case Steer_stop
    with Cons.prems show ?thesis by (simp add: Let_def)
  qed
qed simp

lemma next_eligible_cases:
  assumes "nextEligibleQueuedCard identity x candidates steer = Some c"
  obtains head where "Option.bind identity (\<lambda>h. sl_get x (qm_messageId h)) = Some head" and "ready_card x c"
    and "is_mail c \<longrightarrow> \<not> sl_unavailable x c" and "steer \<longrightarrow> is_mail c"
    and "c = head \<or> (passable x steer head \<and> (\<exists>before row later. after_card candidates head = before @ row # later \<and>
      c = current_card x row \<and> (\<forall>d\<in>set before. passable x steer (current_card x d))))"
proof -
  obtain head where head: "Option.bind identity (\<lambda>h. sl_get x (qm_messageId h)) = Some head"
    using assms by (auto simp: nextEligibleQueuedCard_def split: option.splits)
  have ready: "ready_card x head" using assms head by (auto simp: nextEligibleQueuedCard_def split: if_splits)
  show thesis
  proof (cases steer)
    case True
    from assms head ready True have found: "(case steer_candidate x head of Steer_mail \<Rightarrow> Some head | Steer_stop \<Rightarrow> None
        | Steer_pass \<Rightarrow> past_person x (after_card candidates head)) = Some c" "\<not> sl_unavailable x c"
      by (auto simp: nextEligibleQueuedCard_def Let_def split: if_splits option.splits)
    show thesis
    proof (cases "steer_candidate x head")
      case Steer_mail
      with found head that True show thesis by (auto simp: steer_kinds)
    next
      case Steer_pass
      with found have "past_person x (after_card candidates head) = Some c" by simp
      from past_person_passes [OF this] Steer_pass found(2) head that True show thesis by (auto simp: steer_kinds)
    qed (use found in simp)
  next
    case False
    show thesis
    proof (cases "\<not> is_mail head \<or> \<not> sl_unavailable x head")
      case True
      with assms head ready False have "c = head" by (simp add: nextEligibleQueuedCard_def)
      with True head ready that False show thesis by blast
    next
      case mail: False
      with assms head ready False have "past_mail x (after_card candidates head) = Some c"
        by (simp add: nextEligibleQueuedCard_def)
      from past_mail_passes [OF this] mail ready head that False show thesis by (auto simp: passable_def)
    qed
  qed
qed

end
