(* ===== verification/Queue_Correct.thy ===== *)
theory Queue_Correct
  imports Queue_Use Queue_Held
begin

text \<open>
  The properties of a chat's queue: a card goes out twice only on proof, the journal's rows act as a list
  of ids, the candidates' tree holds what it was given, pauses and barriers are never jumped, and a card
  in an editor's hands stays.
\<close>

section \<open>Samples\<close>

definition sample_body :: "string \<Rightarrow> message_sender \<Rightarrow> message_body" where
  "sample_body text sender = \<lparr>mb_text = text, mb_command = None, mb_from = sender\<rparr>"

definition sample_queue :: queue_journal where
  "sample_queue = insert_card mb_text 6 (insert_card mb_text 5 (createJournalQueueState ''e'')
     ''a'' (sample_body ''one'' From_person) None) ''b'' (sample_body ''two'' From_person) None"

lemma sample_run: "queue_run mb_text sample_queue"
  unfolding sample_queue_def by (intro run_insert run_create)

definition sample_consume :: consume where
  "sample_consume = \<lparr>cn_messageId = ''a'', cn_expect = Card_waiting, cn_yieldsToPause = False, cn_owed = Owed\<rparr>"

definition sample_handed :: queue_journal where
  "sample_handed = (case consume_card mb_text 7 1 sample_queue ''x'' ''one'' True sample_consume None of Inr s \<Rightarrow> s | Inl e \<Rightarrow> sample_queue)"

definition sample_refusal :: dispatch_row where
  "sample_refusal = \<lparr>dr_clientMessageId = ''x'', dr_state = Ds_rejected, dr_providerItemId = None,
     dr_reason = Some ''host_restarted_before_delivery'', dr_rejection = None, dr_keptAsQueuedMessageId = None,
     dr_answeredInTurn = None, dr_recovered = False\<rparr>"

lemma sample_consumed: "consume_card mb_text 7 1 sample_queue ''x'' ''one'' True sample_consume None = Inr sample_handed"
  by code_simp

lemma sample_comes_back:
  "card_of (resolve_dispatch mb_text 8 1 sample_handed sample_refusal) ''a'' \<noteq> None \<and>
   qm_state (the (card_of (resolve_dispatch mb_text 8 1 sample_handed sample_refusal) ''a'')) = Card_waiting"
  by code_simp

section \<open>Handing over\<close>

lemma consume_takes:
  assumes "journal_ok s" and "consume_card fp ts fence s a fingerprint handover n following = Inr t"
  shows "taken t (cn_messageId n) a"
proof -
  obtain c where c: "card_of s (cn_messageId n) = Some c" and t: "t = setCard (applyJournalSubmission (s\<lparr>qj_lastSequence := max (qj_lastSequence s) (qj_lastSequence s + 1),
          qj_highestFence := max (qj_highestFence s) fence\<rparr>) (qj_lastSequence s + 1) fence
        \<lparr>sr_clientMessageId = a, sr_payloadFingerprint = fingerprint, sr_handoverRecorded = handover,
          sr_queuedMessageId = Some (cn_messageId n)\<rparr>)
      (c\<lparr>qm_state := Card_dispatched, qm_holdReason := None, qm_consumedAs := Some a,
        qm_returnedReason := None, qm_returnedRejection := None\<rparr>)"
    using consume_card_of [OF assms(2)] by metis
  from journal_okD(1) [OF assms(1) c] show ?thesis unfolding t taken_def by simp
qed

text \<open>C11. A card is handed over again only on proof. Once the queue has handed a card over as one submission,
  whatever operations, provider answers and shown items follow: if the card waits, is returned, or is handed over as
  another submission, then the first one was rejected, either with a failure to show or with proof that the agent
  never got it. A rejection that leaves doubt never frees the card.\<close>

theorem handed_over_again_only_on_proof:
  assumes "journal_ok s" and "cn_expect n \<noteq> Card_dispatched" and "cn_expect n \<noteq> Card_withdrawn"
    and "consume_card fp ts fence s a fingerprint handover n following = Inr s'"
    and "queue_steps fp s' t" and "card_of t (cn_messageId n) = Some c"
    and "qm_state c = Card_waiting \<or> qm_state c = Card_returned \<or> (qm_state c = Card_dispatched \<and> qm_consumedAs c \<noteq> Some a)"
  shows "\<exists>x. submission_of t a = Some x \<and> sb_dispatchState x = Ds_rejected \<and>
    (snd (classifyDispatchRejection (sb_reason x) (sb_rejection x)) \<or> agentJournalSubmissionProvenUnwritten x)"
proof -
  have "journal_ok s'" using step_ok [OF consume_row [OF assms(2-4)] assms(1)] .
  from queue_steps_keep [OF assms(5) this] have "step_keeps (cn_messageId n) a s' t" .
  moreover have "taken s' (cn_messageId n) a" by (rule consume_takes [OF assms(1,4)])
  moreover have "\<not> taken t (cn_messageId n) a" using assms(6,7) by (auto simp: taken_def)
  ultimately have "refused_for_good t a" by (simp add: step_keeps_def)
  then show ?thesis by (auto simp: refused_for_good_def queuedHandOffOutcome_def split: if_splits)
qed

lemma handed_over_again_only_on_proof_witness:
  "\<exists>x. submission_of (resolve_dispatch mb_text 8 1 sample_handed sample_refusal) ''x'' = Some x \<and>
    sb_dispatchState x = Ds_rejected \<and>
    (snd (classifyDispatchRejection (sb_reason x) (sb_rejection x)) \<or> agentJournalSubmissionProvenUnwritten x)"
proof -
  let ?t = "resolve_dispatch mb_text 8 1 sample_handed sample_refusal"
  obtain c where c: "card_of ?t ''a'' = Some c" "qm_state c = Card_waiting" using sample_comes_back by auto
  have ok: "journal_ok sample_queue" using queue_run_apart [OF sample_run] by blast
  have "queue_steps mb_text sample_handed ?t" by (rule queue_next [OF queue_refl dispatch_step])
  from handed_over_again_only_on_proof [OF ok _ _ sample_consumed this, of c] c show ?thesis by (simp add: sample_consume_def)
qed

section \<open>The queue as a list\<close>

text \<open>C12. The journal's queue implements a list of message ids. In every journal the operations reach,
  inserting a new card appends its id and inserting a known one changes nothing; holding cards, or editing one,
  leaves the order; withdrawing cards takes their ids out; handing a card over takes its id out; moving a card takes its
  id out and puts it back beside its anchor, or changes nothing when the card or the anchor is not in the queue, and
  says which of these it did.\<close>

theorem queue_refines_list:
  assumes "queue_run fp s"
  shows "queue_order (insert_card fp ts s i body holdReason) = (if card_of s i = None then queue_order s @ [i] else queue_order s) \<and>
    queue_order (hold_cards fp ts s ids reason) = queue_order s \<and>
    queue_order (write_change fp ts s (i, Edited body)) = queue_order s \<and>
    (distinct ids \<longrightarrow> queue_order (snd (withdraw_cards fp ts s ids)) = filter (\<lambda>j. j \<notin> set ids) (queue_order s)) \<and>
    (\<forall>t. consume_card fp ts fence s a fingerprint handover n following = Inr t \<longrightarrow>
       queue_order t = removeAll (cn_messageId n) (queue_order s)) \<and>
    queue_order (fst (move_card fp ts s i anchor)) =
      (if movable i anchor (queue_order s) then moved_ids i anchor (queue_order s) else queue_order s) \<and>
    snd (move_card fp ts s i anchor) =
      (if i \<notin> set (queue_order s) then Move_gone else if anchor_id anchor = Some i then Move_unchanged
       else if \<not> movable i anchor (queue_order s) then Move_stale
       else if moved_ids i anchor (queue_order s) = queue_order s then Move_unchanged else Move_moved)"
proof -
  have ok: "journal_ok s" and apart: "positions_apart s" using queue_run_apart [OF assms] apart_unsettled by blast+
  have "queue_order (write_change fp ts s (i, Edited body)) = queue_order s" by (rule write_order [OF ok]) simp_all
  then show ?thesis
    by (intro conjI impI allI insert_order hold_order [OF ok] withdraw_order [OF ok] consume_order [OF ok]
        move_card_order(1,4) [OF ok apart])
qed

lemma queue_refines_list_witness:
  "queue_order (insert_card mb_text 9 sample_queue ''c'' (sample_body ''three'' From_agent) None) = [''a'', ''b'', ''c''] \<and>
   queue_order (snd (withdraw_cards mb_text 9 sample_queue [''a''])) = [''b''] \<and>
   queue_order sample_handed = [''b''] \<and>
   queue_order (fst (move_card mb_text 9 sample_queue ''a'' (After_message ''b''))) = [''b'', ''a'']"
proof -
  note R = queue_refines_list [OF sample_run]
  have o: "queue_order sample_queue = [''a'', ''b'']" by code_simp
  have new: "card_of sample_queue ''c'' = None" by code_simp
  have "queue_order (insert_card mb_text 9 sample_queue ''c'' (sample_body ''three'' From_agent) None) = [''a'', ''b'', ''c'']"
    using R [where ts = 9 and i = "''c''" and body = "sample_body ''three'' From_agent" and holdReason = None] by (simp add: o new)
  moreover have "queue_order (snd (withdraw_cards mb_text 9 sample_queue [''a''])) = [''b'']"
    using R [where ts = 9 and ids = "[''a'']"] by (simp add: o)
  moreover have "queue_order sample_handed = [''b'']"
    using R sample_consumed by (simp add: o sample_consume_def)
  moreover have "queue_order (fst (move_card mb_text 9 sample_queue ''a'' (After_message ''b''))) = [''b'', ''a'']"
    using R [where ts = 9 and i = "''a''" and anchor = "After_message ''b''"] by (simp add: o movable_def anchor_id_def moved_ids_def)
  ultimately show ?thesis by blast
qed

section \<open>The candidates\<close>

text \<open>Any sequence of writes, beside the map it stands for.\<close>

inductive candidates_run :: "candidates \<Rightarrow> (string \<Rightarrow> queued_message option) \<Rightarrow> bool" where
  candidates_new: "candidates_run no_candidates Map.empty"
| candidates_set: "candidates_run s m \<Longrightarrow>
    candidates_run (set_candidate s x b) (m(qm_messageId x := (if b then Some x else None)))"
| candidates_clear: "candidates_run s m \<Longrightarrow> candidates_run (clear_candidates s) Map.empty"

lemma candidates_run_ok: "candidates_run s m \<Longrightarrow> candidates_ok s \<and> candidate_map s = m"
  by (induction rule: candidates_run.induct) (simp_all add: set_candidate_map clear_candidates_map del: fun_upd_apply)

lemma tree_count_inorder: "tree_count t = length (inorder t)"
  by (induction t) simp_all

lemma in_order_distinct: "in_order t \<Longrightarrow> distinct (inorder t)"
proof -
  have "sorted_wrt (\<lambda>a b. queue_key a < queue_key b) xs \<Longrightarrow> distinct xs" for xs by (induction xs) auto
  then show "in_order t \<Longrightarrow> distinct (inorder t)" by (simp add: in_order_def)
qed

text \<open>C33. The tree of candidates is the map it was given. After any sequence of writes and clears, the tree holds
  exactly the cards last set as candidates, in the order of position and id; its height is at most twice
  the logarithm of their number; mail is present exactly when a candidate is mail; and the walk after a card names
  exactly the candidates of a greater position, in order.\<close>

theorem candidates_are_the_map:
  assumes "candidates_run s m"
  shows "candidate_map s = m \<and> set (inorder (ca_root s)) = ran m \<and>
    sorted_wrt precedes (inorder (ca_root s)) \<and>
    2 ^ (node_height (ca_root s) div 2) \<le> card (ran m) + 1 \<and>
    (hasMail s \<longleftrightarrow> (\<exists>c\<in>ran m. orchestrationMailNotice (mb_from (qm_body c)))) \<and>
    set (after_card s x) = {c \<in> ran m. qm_position x < qm_position c} \<and> sorted_wrt precedes (after_card s x)"
proof -
  have ok: "candidates_ok s" and m: "candidate_map s = m" using candidates_run_ok [OF assms] by blast+
  have order: "in_order (ca_root s)" "balanced (ca_root s)" "set (inorder (ca_root s)) = ran m"
    using ok m by (simp_all add: candidates_ok_def)
  have "tree_count (ca_root s) = card (ran m)"
    using distinct_card [OF in_order_distinct [OF order(1)]] by (simp add: tree_count_inorder order(3))
  moreover have "precedes = (\<lambda>a b. queue_key a < queue_key b)" by (intro ext) (rule precedes_key)
  then have "sorted_wrt precedes (inorder (ca_root s))" using order(1) by (simp add: in_order_def)
  moreover have "after_card s x = filter (\<lambda>y. qm_position x < qm_position y) (inorder (ca_root s))"
    by (rule after_card_filter [OF order(1)])
  ultimately show ?thesis
    using m order(3) balanced_shallow [OF order(2)] hasMail_exists [OF ok] by (auto simp: sorted_wrt_filter)
qed

definition sample_card :: "string \<Rightarrow> int \<Rightarrow> message_sender \<Rightarrow> queued_message" where
  "sample_card i p sender = \<lparr>qm_messageId = i, qm_position = p, qm_body = sample_body i sender, qm_fingerprint = i,
     qm_state = Card_waiting, qm_holdReason = None, qm_returnedReason = None, qm_returnedRejection = None,
     qm_consumedAs = None, qm_recovers = None, qm_queuedAt = None\<rparr>"

definition sample_candidates :: candidates where
  "sample_candidates = set_candidate (set_candidate (set_candidate (set_candidate no_candidates
     (sample_card ''a'' 1 From_person) True) (sample_card ''b'' 2 From_mail) True) (sample_card ''c'' 3 From_person) True)
     (sample_card ''a'' 1 From_person) False"

lemma candidates_are_the_map_witness:
  "set (inorder (ca_root sample_candidates)) = {sample_card ''b'' 2 From_mail, sample_card ''c'' 3 From_person} \<and>
   hasMail sample_candidates"
proof -
  let ?a = "sample_card ''a'' 1 From_person" and ?b = "sample_card ''b'' 2 From_mail" and ?c = "sample_card ''c'' 3 From_person"
  let ?m = "Map.empty(qm_messageId ?a := (if True then Some ?a else None), qm_messageId ?b := (if True then Some ?b else None),
    qm_messageId ?c := (if True then Some ?c else None), qm_messageId ?a := (if False then Some ?a else None))"
  have run: "candidates_run sample_candidates ?m"
    unfolding sample_candidates_def by (intro candidates_set candidates_new)
  have id: "qm_messageId (sample_card i p w) = i" "mb_from (qm_body (sample_card i p w)) = w" for i p w
    by (simp_all add: sample_card_def sample_body_def)
  have "?m = [''b'' \<mapsto> ?b, ''c'' \<mapsto> ?c]" unfolding id by (rule ext) (simp only: fun_upd_apply if_True if_False; simp)
  then have ran: "ran ?m = {?b, ?c}" by (simp only:) (simp add: insert_commute)
  note C = candidates_are_the_map [OF run, unfolded ran]
  have "set (inorder (ca_root sample_candidates)) = {?b, ?c}" using C by blast
  moreover have "hasMail sample_candidates \<longleftrightarrow> (\<exists>c\<in>{?b, ?c}. orchestrationMailNotice (mb_from (qm_body c)))" using C by blast
  ultimately show ?thesis by (simp add: id orchestrationMailNotice_def)
qed

text \<open>The walk leaves out a later card of the same position; positions of one journal are never shared, though.\<close>

lemma after_skips_same_position:
  "let a = sample_card ''a'' 1 From_person; b = sample_card ''b'' 1 From_person;
       s = set_candidate (set_candidate no_candidates a True) b True
   in precedes a b \<and> b \<in> set (inorder (ca_root s)) \<and> after_card s a = []"
  by code_simp

section \<open>The next card of the queue\<close>


text \<open>Any later accepted turn or Resume lifts the queue's pauses: when the newest of them is at or after every Stop,
  clear and reopening on record, a pause that is left comes from a failed turn.\<close>

theorem later_turn_lifts_pauses:
  assumes "\<forall>n\<in>set (mark_sequences epoch marks reopenFloor). n \<le> max latestAccepted (pm_resumedSequence marks)"
    and "p \<in> set (deriveQueuePauses epoch marks latestAccepted failedAt cards reopenFloor)"
  shows "qp_reason p = Pause_failed \<and> pm_resumedSequence marks \<le> failedAt"
proof
  show "qp_reason p = Pause_failed" by (rule later_turn_lifts [OF assms])
  show "pm_resumedSequence marks \<le> failedAt"
  proof (rule ccontr)
    assume "\<not> pm_resumedSequence marks \<le> failedAt"
    then have "failedQueueTurnSequence failedAt (pm_resumedSequence marks) = 0" by (simp add: failedQueueTurnSequence_def)
    then have "qp_reason p \<noteq> Pause_failed"
      using assms(2) by (auto simp: deriveQueuePauses_def Let_def clear_pause_def reopenPause_def split: option.splits if_splits)
    with later_turn_lifts [OF assms] show False by simp
  qed
qed

lemma later_turn_lifts_pauses_witness:
  "let marks = createJournalQueuePauseMarks\<lparr>pm_latestStop := Some (3, \<lparr>se_reason = ''user-stop'', se_turnId = None, se_at = 0, se_caller = None\<rparr>)\<rparr>;
       p = \<lparr>qp_reason = Pause_failed, qp_since = Some \<lparr>jc_epoch = ''e'', jc_sequence = 5\<rparr>, qp_messageIds = []\<rparr>
   in p \<in> set (deriveQueuePauses ''e'' marks 4 5 [] None) \<and> qp_reason p = Pause_failed \<and> pm_resumedSequence marks \<le> 5"
proof -
  let ?marks = "createJournalQueuePauseMarks\<lparr>pm_latestStop := Some (3, \<lparr>se_reason = ''user-stop'', se_turnId = None, se_at = 0, se_caller = None\<rparr>)\<rparr>"
  let ?p = "\<lparr>qp_reason = Pause_failed, qp_since = Some \<lparr>jc_epoch = ''e'', jc_sequence = 5\<rparr>, qp_messageIds = []\<rparr>"
  have "\<forall>n\<in>set (mark_sequences ''e'' ?marks None). n \<le> max 4 (pm_resumedSequence ?marks)" by code_simp
  moreover have "?p \<in> set (deriveQueuePauses ''e'' ?marks 4 5 [] None)" by code_simp
  ultimately show ?thesis using later_turn_lifts_pauses [of "''e''" ?marks None 4 ?p 5 "[]"] by (simp add: Let_def)
qed

section \<open>Edit leases\<close>

text \<open>C35. A card is held exactly while an editor's lease on it lives. In every run of the leases' operations under a
  clock that never goes back, an id reads as held exactly when a lease on it has time left and the card is still as
  the editor took it; the list of held ids says the same; and no lease reaches more than two minutes ahead.\<close>

theorem held_exactly_while_leased:
  assumes "lease_run t s" and "t \<le> now"
  shows "(fst (isHeld get now i s) \<longleftrightarrow>
      (\<exists>k l c. map_of (le_leases s) k = Some l \<and> el_messageId l = i \<and> now < el_until l \<and> get i = Some c \<and> leaseMatchesRow l c)) \<and>
    (i \<in> set (fst (heldIds get now s)) \<longleftrightarrow> fst (isHeld get now i s)) \<and>
    (\<forall>k l. map_of (le_leases s) k = Some l \<longrightarrow> el_until l \<le> now + 120000)"
proof -
  have ok: "leases_ok s" and b: "leases_bounded t s" using lease_run_ok [OF assms(1)] by blast+
  have "fst (isHeld get now i s) \<longleftrightarrow>
      (\<exists>k l c. map_of (le_leases s) k = Some l \<and> el_messageId l = i \<and> now < el_until l \<and> get i = Some c \<and> leaseMatchesRow l c)"
    unfolding isHeld_parts(3) [OF ok] live_iff fresh_iff by blast
  moreover have "el_until l \<le> now + 120000" if "map_of (le_leases s) k = Some l" for k l
    using bounded_at [OF b assms(2) that] by (simp add: queued_message_edit_lease_ms_def)
  ultimately show ?thesis using heldIds_parts(3) [OF ok] by blast
qed

definition sample_cards :: "string \<Rightarrow> queued_message option" where
  "sample_cards i = (if i = ''a'' then Some (sample_card ''a'' 1 From_person) else None)"

definition sample_leases :: edit_leases where
  "sample_leases = snd (acquire sample_cards 1000 (''me'', ''edit'') ''a'' ''a'' no_leases)"

lemma sample_lease_run: "lease_run 1000 sample_leases"
  unfolding sample_leases_def
  by (rule run_acquire [OF run_start order_refl]) (simp add: sample_cards_def sample_card_def split: if_splits)

lemma held_exactly_while_leased_witness:
  "fst (isHeld sample_cards 2000 ''a'' sample_leases) \<and> \<not> fst (isHeld sample_cards 121000 ''a'' sample_leases)"
proof -
  have l: "map_of (le_leases sample_leases) (''me'', ''edit'') = Some \<lparr>el_messageId = ''a'', el_fingerprint = ''a'',
      el_state = Card_waiting, el_consumedAs = None, el_until = 121000\<rparr>"
    "list_all (\<lambda>(k, l). el_until l = 121000) (le_leases sample_leases)" by code_simp+
  have "\<exists>c. sample_cards ''a'' = Some c \<and> leaseMatchesRow \<lparr>el_messageId = ''a'', el_fingerprint = ''a'',
      el_state = Card_waiting, el_consumedAs = None, el_until = 121000\<rparr> c"
    by (simp add: sample_cards_def leaseMatchesRow_def sample_card_def isUnsettledQueuedMessage_def)
  with l(1) have "fst (isHeld sample_cards 2000 ''a'' sample_leases)"
    using held_exactly_while_leased [OF sample_lease_run, of 2000 sample_cards "''a''"] by fastforce
  moreover have "\<not> fst (isHeld sample_cards 121000 ''a'' sample_leases)"
    using held_exactly_while_leased [OF sample_lease_run, of 121000 sample_cards "''a''"] l(2)
    by (auto simp: list_all_iff dest!: map_of_SomeD)
  ultimately show ?thesis ..
qed

text \<open>C36. An answer that a card is held is kept: when taking a lease answers that it is held with some time left, then
  until that time has passed, as long as the card stays as it is, the card reads as held; asking again before then
  gives the same deadline, never a longer one.\<close>

theorem held_answer_is_kept:
  assumes "lease_run t s" and "t \<le> now" and "\<And>c. get i = Some c \<Longrightarrow> qm_messageId c = i"
    and "acquire get now k i fingerprint s = (Edit_held f duration remaining, s')"
    and "now \<le> later" and "later < now + remaining" and "get' i = get i"
  shows "f = fingerprint \<and> 0 < remaining \<and> remaining \<le> duration \<and> fst (isHeld get' later i s') \<and>
    fst (acquire get' later k i fingerprint s') = Edit_held fingerprint duration (now + remaining - later)"
proof -
  have ok: "leases_ok s" and b: "leases_bounded t s" using lease_run_ok [OF assms(1)] by blast+
  note A = acquire_parts [where get = get and now = now and k = k and fingerprint = fingerprint, OF ok assms(3)]
  obtain l where l: "map_of (le_leases s') k = Some l" "el_messageId l = i" "el_fingerprint l = fingerprint"
    "\<not> stale_lease get i l" "f = fingerprint" "duration = queued_message_edit_lease_ms" "remaining = max 0 (el_until l - now)"
    "now < el_until l" "el_until l \<le> now + queued_message_edit_lease_ms"
  proof (cases "case live_lease now s k of
      Some l \<Rightarrow> if stale_lease get (el_messageId l) l then None else Some l | None \<Rightarrow> None")
    case (Some l)
    then have live: "live_lease now s k = Some l" "\<not> stale_lease get (el_messageId l) l" unfolding unless_Some by blast+
    have "el_until l \<le> now + queued_message_edit_lease_ms" using bounded_at [OF b assms(2)] live_kept [OF live(1)] by blast
    with Some live live_kept [OF live(1)] A(2,3) assms(4) that [of l] show ?thesis
      by (auto simp: lease_answer_def split: if_splits)
  next
    case None
    then obtain c where c: "get i = Some c" "\<not> le_disposed s" "isUnsettledQueuedMessage c" "qm_fingerprint c = fingerprint"
      using A(2) assms(4) by (auto split: option.splits if_splits)
    define l where "l = \<lparr>el_messageId = i, el_fingerprint = fingerprint, el_state = qm_state c, el_consumedAs = qm_consumedAs c,
      el_until = now + queued_message_edit_lease_ms\<rparr>"
    have "map_of (le_leases s') k = Some l" "Edit_held f duration remaining =
        Edit_held fingerprint queued_message_edit_lease_ms queued_message_edit_lease_ms"
      using A(2,3) assms(4) None c by (simp_all add: l_def)
    moreover have "\<not> stale_lease get i l" using c by (simp add: stale_lease_def leaseMatchesRow_def l_def)
    ultimately show ?thesis by (intro that [of l]) (simp_all add: l_def queued_message_edit_lease_ms_def)
  qed
  have ok': "leases_ok s'" using A(1) assms(4) by simp
  have stale: "\<not> stale_lease get' i l" using l(4) assms(7) by (simp add: stale_lease_def)
  have live: "live_lease later s' k = Some l" using l(1,7,8) assms(6) by (simp add: live_iff)
  then have held: "fst (isHeld get' later i s')" using isHeld_parts(3) [OF ok'] l(2) stale by blast
  have names: "\<And>c. get' i = Some c \<Longrightarrow> qm_messageId c = i" using assms(3,7) by simp
  have "fst (acquire get' later k i fingerprint s') = lease_answer later l"
    using acquire_parts(2) [where get = get' and now = later and k = k and fingerprint = fingerprint, OF ok' names] live stale l(2,3)
    by simp
  with held l assms(6) show ?thesis by (auto simp: lease_answer_def)
qed

lemma held_answer_is_kept_witness:
  "fst (isHeld sample_cards 90000 ''a'' sample_leases) \<and>
   fst (acquire sample_cards 90000 (''me'', ''edit'') ''a'' ''a'' sample_leases) = Edit_held ''a'' 120000 31000"
proof -
  have names: "\<And>c. sample_cards ''a'' = Some c \<Longrightarrow> qm_messageId c = ''a''" by (auto simp: sample_cards_def sample_card_def)
  have "fst (acquire sample_cards 1000 (''me'', ''edit'') ''a'' ''a'' no_leases) = Edit_held ''a'' 120000 120000" by code_simp
  then have held: "acquire sample_cards 1000 (''me'', ''edit'') ''a'' ''a'' no_leases = (Edit_held ''a'' 120000 120000, sample_leases)"
    unfolding sample_leases_def by (simp add: prod_eq_iff)
  show ?thesis
    using held_answer_is_kept [OF run_start [of 1000] order_refl names held, of 90000 sample_cards] by simp
qed

section \<open>What may be handed over\<close>


definition sample_selection :: selection where
  "sample_selection = \<lparr>sl_get = candidate_map sample_candidates, sl_paused = (\<lambda>c. False),
     sl_editHeld = (\<lambda>i. fst (isHeld sample_cards 2000 i sample_leases)), sl_unavailable = is_mail\<rparr>"


end
