(* ===== verification/Edit_Lines.thy ===== *)
theory Edit_Lines
  imports Texts "HOL-Library.Word" "HOL-Library.Sublist"
begin

text \<open>
  The rows of an edit card and the diff of two texts
  (\<open>shared/native-chat/tools/native-chat-edit-model.ts\<close>, \<open>native-chat-edit-lcs.ts\<close>): a text is split into
  lines, two texts are compared by the table of longest common subsequences (32-bit words, filled from the
  end) or, above a number of cells, by their common prefix and suffix, and a card is cut at 2000 rows.
  \<open>lcs_len\<close> is the reference the table is compared with.
\<close>

section \<open>Rows\<close>

datatype edit_line_kind = Kind_context | Kind_add | Kind_del | Kind_gap

record edit_line =
  nl_kind :: edit_line_kind
  nl_text :: string
  nl_oldLineNumber :: "nat option"
  nl_newLineNumber :: "nat option"

definition edit_row :: "edit_line_kind \<Rightarrow> string \<Rightarrow> nat option \<Rightarrow> nat option \<Rightarrow> edit_line" where
  "edit_row kind text oldNo newNo =
     \<lparr>nl_kind = kind, nl_text = text, nl_oldLineNumber = oldNo, nl_newLineNumber = newNo\<rparr>"

lemma edit_row_simps [simp]:
  "nl_kind (edit_row k t a b) = k" "nl_text (edit_row k t a b) = t"
  "nl_oldLineNumber (edit_row k t a b) = a" "nl_newLineNumber (edit_row k t a b) = b"
  by (simp_all add: edit_row_def)

definition max_edit_lines :: nat where "max_edit_lines = 2000"
definition max_edit_chars :: nat where "max_edit_chars = 96000"
definition max_edit_diff_cells :: nat where "max_edit_diff_cells = 200000"

definition newline :: char where "newline = CHR 0x0A"

definition splitEditContent :: "string \<Rightarrow> string list \<times> bool" where
  "splitEditContent content =
     (if content = [] then ([], False)
      else let truncated = max_edit_chars < length content;
               body = (if truncated then take max_edit_chars content else content);
               lines = split_lines [] body
           in (if last body = newline then butlast lines else lines, truncated))"

definition editGapLine :: edit_line where
  "editGapLine = edit_row Kind_gap [] None None"

definition pushEditGap :: "edit_line list \<Rightarrow> edit_line list" where
  "pushEditGap lines =
     (if lines \<noteq> [] \<and> nl_kind (last lines) \<noteq> Kind_gap then lines @ [editGapLine] else lines)"

definition unifiedLineNumber :: "edit_line \<Rightarrow> nat option" where
  "unifiedLineNumber l =
     (if nl_kind l = Kind_del then nl_oldLineNumber l else orElse (nl_newLineNumber l) (nl_oldLineNumber l))"

section \<open>The file of a card\<close>

datatype change_kind = Change_added | Change_deleted | Change_edited | Change_renamed

record edit_file =
  ef_path :: string
  ef_oldPath :: "string option"
  ef_changeKind :: change_kind
  ef_lines :: "edit_line list"
  ef_added :: nat
  ef_removed :: nat
  ef_lineNumbersKnown :: bool
  ef_truncated :: bool

fun last_shown :: "edit_line list \<Rightarrow> nat \<Rightarrow> nat" where
  "last_shown capped 0 = 0"
| "last_shown capped (Suc n) = (if nl_kind (capped ! n) = Kind_gap then last_shown capped n else Suc n)"

definition unnumbered :: "edit_line \<Rightarrow> edit_line" where
  "unnumbered l = l\<lparr>nl_oldLineNumber := None, nl_newLineNumber := None\<rparr>"

definition finalizeEditFile ::
  "string \<Rightarrow> string option \<Rightarrow> change_kind \<Rightarrow> edit_line list \<Rightarrow> bool \<Rightarrow> bool \<Rightarrow> edit_file" where
  "finalizeEditFile path oldPath kind inputLines lineNumbersKnown inputTruncated =
     (let overLineCap = max_edit_lines < length inputLines;
          capped = (if overLineCap then take max_edit_lines inputLines else inputLines);
          trimmed = take (last_shown capped (length capped)) capped;
          lines = (if lineNumbersKnown then trimmed else map unnumbered trimmed)
      in \<lparr>ef_path = path, ef_oldPath = oldPath, ef_changeKind = kind, ef_lines = lines,
          ef_added = count_where (\<lambda>l. nl_kind l = Kind_add) lines,
          ef_removed = count_where (\<lambda>l. nl_kind l = Kind_del) lines,
          ef_lineNumbersKnown = lineNumbersKnown, ef_truncated = (overLineCap \<or> inputTruncated)\<rparr>)"

definition getRuntimePathBasename :: "string \<Rightarrow> string" where
  "getRuntimePathBasename path =
     (let separator = (\<lambda>c. c = CHR ''/'' \<or> of_char c = (92 :: nat));
          trimmed = rev (dropWhile separator (rev path))
      in rev (takeWhile (\<lambda>c. \<not> separator c) (rev trimmed)))"

definition nativeChatEditFileBaseName :: "string \<Rightarrow> string" where
  "nativeChatEditFileBaseName path =
     (let base = getRuntimePathBasename path in if base \<noteq> [] then base else path)"

definition nativeChatEditGutterChars :: "edit_file \<Rightarrow> nat" where
  "nativeChatEditGutterChars file =
     (if \<not> ef_lineNumbersKnown file then 0
      else let widest = foldl (\<lambda>m l. max m (case unifiedLineNumber l of None \<Rightarrow> 0 | Some n \<Rightarrow> n)) 0 (ef_lines file)
           in max 3 (length (decimal_digits widest) + 1))"

section \<open>The table of longest common subsequences\<close>

definition edit_context :: "string \<Rightarrow> nat \<Rightarrow> nat \<Rightarrow> edit_line" where
  "edit_context t oldNo newNo = edit_row Kind_context t (Some oldNo) (Some newNo)"

definition edit_removal :: "string \<Rightarrow> nat \<Rightarrow> edit_line" where
  "edit_removal t oldNo = edit_row Kind_del t (Some oldNo) None"

definition edit_addition :: "string \<Rightarrow> nat \<Rightarrow> edit_line" where
  "edit_addition t newNo = edit_row Kind_add t None (Some newNo)"

text \<open>One cell, one row from its right end, all rows from the last one.\<close>

definition dp_cell :: "'a list \<Rightarrow> 'a list \<Rightarrow> nat \<Rightarrow> nat \<Rightarrow> 32 word list \<Rightarrow> 32 word" where
  "dp_cell original modified i j dp =
     (let width = length modified + 1 in
      if original ! i = modified ! j then dp ! ((i + 1) * width + j + 1) + 1
      else max (dp ! ((i + 1) * width + j)) (dp ! (i * width + j + 1)))"

fun fill_row :: "'a list \<Rightarrow> 'a list \<Rightarrow> nat \<Rightarrow> nat \<Rightarrow> 32 word list \<Rightarrow> 32 word list" where
  "fill_row original modified i 0 dp = dp"
| "fill_row original modified i (Suc j) dp =
     fill_row original modified i j
       (dp[i * (length modified + 1) + j := dp_cell original modified i j dp])"

fun fill_table :: "'a list \<Rightarrow> 'a list \<Rightarrow> nat \<Rightarrow> 32 word list \<Rightarrow> 32 word list" where
  "fill_table original modified 0 dp = dp"
| "fill_table original modified (Suc i) dp =
     fill_table original modified i (fill_row original modified i (length modified) dp)"

definition lcs_table :: "'a list \<Rightarrow> 'a list \<Rightarrow> 32 word list" where
  "lcs_table original modified =
     fill_table original modified (length original)
       (replicate ((length original + 1) * (length modified + 1)) 0)"

function lcs_walk :: "string list \<Rightarrow> string list \<Rightarrow> 32 word list \<Rightarrow> nat \<Rightarrow> nat \<Rightarrow> edit_line list" where
  "lcs_walk original modified dp oldIndex newIndex =
     (let width = length modified + 1 in
      if oldIndex < length original \<and> newIndex < length modified then
        if original ! oldIndex = modified ! newIndex then
          edit_context (original ! oldIndex) (oldIndex + 1) (newIndex + 1)
            # lcs_walk original modified dp (oldIndex + 1) (newIndex + 1)
        else if dp ! (oldIndex * width + newIndex + 1) \<le> dp ! ((oldIndex + 1) * width + newIndex) then
          edit_removal (original ! oldIndex) (oldIndex + 1)
            # lcs_walk original modified dp (oldIndex + 1) newIndex
        else
          edit_addition (modified ! newIndex) (newIndex + 1)
            # lcs_walk original modified dp oldIndex (newIndex + 1)
      else
        map (\<lambda>i. edit_removal (original ! i) (i + 1)) [oldIndex..<length original]
          @ map (\<lambda>j. edit_addition (modified ! j) (j + 1)) [newIndex..<length modified])"
  by pat_completeness auto
termination
  by (relation "measure (\<lambda>(original, modified, dp, i, j). (length original - i) + (length modified - j))") auto

declare lcs_walk.simps [simp del]

definition lcsLines :: "string list \<Rightarrow> string list \<Rightarrow> edit_line list" where
  "lcsLines original modified = lcs_walk original modified (lcs_table original modified) 0 0"

section \<open>Common prefix and suffix\<close>

function common_prefix :: "'a list \<Rightarrow> 'a list \<Rightarrow> nat \<Rightarrow> nat" where
  "common_prefix original modified pre =
     (if pre < length original \<and> pre < length modified \<and> original ! pre = modified ! pre
      then common_prefix original modified (pre + 1) else pre)"
  by pat_completeness auto
termination by (relation "measure (\<lambda>(original, modified, n). length original - n)") auto

function common_suffix :: "'a list \<Rightarrow> 'a list \<Rightarrow> nat \<Rightarrow> nat \<Rightarrow> nat" where
  "common_suffix original modified pre suf =
     (if suf + pre < length original \<and> suf + pre < length modified
          \<and> original ! (length original - suf - 1) = modified ! (length modified - suf - 1)
      then common_suffix original modified pre (suf + 1) else suf)"
  by pat_completeness auto
termination by (relation "measure (\<lambda>(original, modified, p, n). length original - n)") auto

declare common_prefix.simps [simp del] common_suffix.simps [simp del]

definition prefixSuffixLines :: "string list \<Rightarrow> string list \<Rightarrow> edit_line list" where
  "prefixSuffixLines original modified =
     (let pre = common_prefix original modified 0;
          suf = common_suffix original modified pre 0;
          oldEnd = length original - suf; newEnd = length modified - suf in
      map (\<lambda>i. edit_context (original ! i) (i + 1) (i + 1)) [0..<pre]
      @ map (\<lambda>i. edit_removal (original ! i) (i + 1)) [pre..<oldEnd]
      @ map (\<lambda>i. edit_addition (modified ! i) (i + 1)) [pre..<newEnd]
      @ map (\<lambda>i. edit_context (original ! i) (i + 1) (newEnd + (i - oldEnd) + 1)) [oldEnd..<length original])"

definition editLinesFromContents :: "string \<Rightarrow> string \<Rightarrow> edit_line list \<times> bool" where
  "editLinesFromContents originalContent modifiedContent =
     (let (original, originalCut) = splitEditContent originalContent;
          (modified, modifiedCut) = splitEditContent modifiedContent in
      (if length original * length modified \<le> max_edit_diff_cells
       then lcsLines original modified else prefixSuffixLines original modified,
       originalCut \<or> modifiedCut))"

section \<open>Both sides of a diff\<close>

definition old_side :: "edit_line list \<Rightarrow> (nat option \<times> string) list" where
  "old_side ls = map (\<lambda>l. (nl_oldLineNumber l, nl_text l)) (filter (\<lambda>l. nl_kind l \<in> {Kind_context, Kind_del}) ls)"

definition new_side :: "edit_line list \<Rightarrow> (nat option \<times> string) list" where
  "new_side ls = map (\<lambda>l. (nl_newLineNumber l, nl_text l)) (filter (\<lambda>l. nl_kind l \<in> {Kind_context, Kind_add}) ls)"

definition numbered :: "nat \<Rightarrow> string list \<Rightarrow> (nat option \<times> string) list" where
  "numbered n texts = map (apfst Some) (List.enumerate n texts)"

definition context_texts :: "edit_line list \<Rightarrow> string list" where
  "context_texts ls = map nl_text (filter (\<lambda>l. nl_kind l = Kind_context) ls)"

lemma side_append [simp]:
  "old_side (ls @ ms) = old_side ls @ old_side ms" "new_side (ls @ ms) = new_side ls @ new_side ms"
  "context_texts (ls @ ms) = context_texts ls @ context_texts ms"
  by (simp_all add: old_side_def new_side_def context_texts_def)

lemma side_Nil [simp]: "old_side [] = []" "new_side [] = []" "context_texts [] = []"
  by (simp_all add: old_side_def new_side_def context_texts_def)

lemma side_context [simp]:
  "old_side (edit_context t a b # ls) = (Some a, t) # old_side ls"
  "new_side (edit_context t a b # ls) = (Some b, t) # new_side ls"
  "context_texts (edit_context t a b # ls) = t # context_texts ls"
  by (simp_all add: old_side_def new_side_def context_texts_def edit_context_def)

lemma side_removal [simp]:
  "old_side (edit_removal t a # ls) = (Some a, t) # old_side ls"
  "new_side (edit_removal t a # ls) = new_side ls"
  "context_texts (edit_removal t a # ls) = context_texts ls"
  by (simp_all add: old_side_def new_side_def context_texts_def edit_removal_def)

lemma side_addition [simp]:
  "old_side (edit_addition t a # ls) = old_side ls"
  "new_side (edit_addition t a # ls) = (Some a, t) # new_side ls"
  "context_texts (edit_addition t a # ls) = context_texts ls"
  by (simp_all add: old_side_def new_side_def context_texts_def edit_addition_def)

lemma side_removals [simp]:
  "old_side (map (\<lambda>i. edit_removal (f i) (g i)) is) = map (\<lambda>i. (Some (g i), f i)) is"
  "new_side (map (\<lambda>i. edit_removal (f i) (g i)) is) = []"
  "context_texts (map (\<lambda>i. edit_removal (f i) (g i)) is) = []"
  by (induction "is") simp_all

lemma side_additions [simp]:
  "old_side (map (\<lambda>i. edit_addition (f i) (g i)) is) = []"
  "new_side (map (\<lambda>i. edit_addition (f i) (g i)) is) = map (\<lambda>i. (Some (g i), f i)) is"
  "context_texts (map (\<lambda>i. edit_addition (f i) (g i)) is) = []"
  by (induction "is") simp_all

lemma side_contexts [simp]:
  "old_side (map (\<lambda>i. edit_context (f i) (g i) (h i)) is) = map (\<lambda>i. (Some (g i), f i)) is"
  "new_side (map (\<lambda>i. edit_context (f i) (g i) (h i)) is) = map (\<lambda>i. (Some (h i), f i)) is"
  by (induction "is") simp_all

lemma numbered_drop:
  "numbered (i + 1) (drop i xs) = map (\<lambda>k. (Some (k + 1), xs ! k)) [i..<length xs]"
  by (rule nth_equalityI) (simp_all add: numbered_def nth_enumerate_eq)

lemma numbered_step:
  "i < length xs \<Longrightarrow>
     numbered (Suc i) (drop i xs) = (Some (Suc i), xs ! i) # numbered (Suc (Suc i)) (drop (Suc i) xs)"
  by (simp add: numbered_def Cons_nth_drop_Suc [symmetric])

lemma numbered_texts: "map snd (numbered n xs) = xs"
  by (simp add: numbered_def o_def)

subsection \<open>The walk gives both texts back\<close>

lemma lcs_walk_stop:
  "\<not> (i < length xs \<and> j < length ys) \<Longrightarrow>
     lcs_walk xs ys dp i j = map (\<lambda>i. edit_removal (xs ! i) (i + 1)) [i..<length xs]
       @ map (\<lambda>j. edit_addition (ys ! j) (j + 1)) [j..<length ys]"
  by (subst lcs_walk.simps) (simp only: Let_def if_False)

lemma lcs_walk_step:
  assumes "i < length xs" and "j < length ys"
  shows "lcs_walk xs ys dp i j =
     (if xs ! i = ys ! j then edit_context (xs ! i) (i + 1) (j + 1) # lcs_walk xs ys dp (i + 1) (j + 1)
      else if dp ! (i * (length ys + 1) + j + 1) \<le> dp ! ((i + 1) * (length ys + 1) + j)
      then edit_removal (xs ! i) (i + 1) # lcs_walk xs ys dp (i + 1) j
      else edit_addition (ys ! j) (j + 1) # lcs_walk xs ys dp i (j + 1))"
  using assms by (subst lcs_walk.simps) (simp only: Let_def if_True simp_thms)

lemma lcs_walk_sides:
  "old_side (lcs_walk xs ys dp i j) = numbered (i + 1) (drop i xs) \<and>
   new_side (lcs_walk xs ys dp i j) = numbered (j + 1) (drop j ys)"
proof (induction xs ys dp i j rule: lcs_walk.induct)
  case (1 xs ys dp i j)
  show ?case
  proof (cases "i < length xs \<and> j < length ys")
    case True
    with 1 show ?thesis by (simp add: lcs_walk_step numbered_step)
  next
    case False
    then show ?thesis by (simp add: lcs_walk_stop numbered_drop [simplified] del: upt_Suc)
  qed
qed

lemma lcsLines_sides: "old_side (lcsLines xs ys) = numbered 1 xs \<and> new_side (lcsLines xs ys) = numbered 1 ys"
  using lcs_walk_sides [of xs ys _ 0 0] by (simp add: lcsLines_def)

lemma common_prefix_ok:
  "p \<le> length xs \<Longrightarrow> p \<le> length ys \<Longrightarrow> take p xs = take p ys \<Longrightarrow>
   common_prefix xs ys p \<le> length xs \<and> common_prefix xs ys p \<le> length ys \<and>
   take (common_prefix xs ys p) xs = take (common_prefix xs ys p) ys"
proof (induction xs ys p rule: common_prefix.induct)
  case (1 xs ys p)
  then show ?case by (subst (1 2 3 4) common_prefix.simps) (auto simp: take_Suc_conv_app_nth)
qed

lemma common_suffix_ok:
  "s + p \<le> length xs \<Longrightarrow> s + p \<le> length ys \<Longrightarrow>
   drop (length xs - s) xs = drop (length ys - s) ys \<Longrightarrow>
   common_suffix xs ys p s + p \<le> length xs \<and> common_suffix xs ys p s + p \<le> length ys \<and>
   drop (length xs - common_suffix xs ys p s) xs = drop (length ys - common_suffix xs ys p s) ys"
proof (induction xs ys p s rule: common_suffix.induct)
  case (1 xs ys p s)
  show ?case
  proof (cases "s + p < length xs \<and> s + p < length ys \<and> xs ! (length xs - s - 1) = ys ! (length ys - s - 1)")
    case True
    have d: "drop (length zs - (s + 1)) zs = zs ! (length zs - s - 1) # drop (length zs - s) zs"
      if "s + p < length zs" for zs :: "'a list"
      using that Cons_nth_drop_Suc [of "length zs - s - 1" zs] by (simp add: Suc_diff_Suc)
    from True 1(4) have e: "drop (length xs - (s + 1)) xs = drop (length ys - (s + 1)) ys" by (simp only: d)
    from 1(1) [OF True _ _ e] True show ?thesis by (subst (1 2 3 4) common_suffix.simps) simp
  next
    case False
    with 1(2-4) show ?thesis by (subst (1 2 3 4) common_suffix.simps) (simp only: if_False)
  qed
qed

lemma upt_split: "[i..<j] @ [j..<n] = [i..<n]" if "i \<le> j" "j \<le> n" for i j n :: nat
  using upt_add_eq_append [of i j "n - j"] that by simp

lemma map_split: "i \<le> j \<Longrightarrow> j \<le> n \<Longrightarrow> map f [i..<j] @ map f [j..<n] = map f [i..<n]" for i j n :: nat
  by (simp flip: map_append add: upt_split)

lemma prefixSuffixLines_sides:
  "old_side (prefixSuffixLines xs ys) = numbered 1 xs \<and> new_side (prefixSuffixLines xs ys) = numbered 1 ys"
proof -
  define p where "p = common_prefix xs ys 0"
  define s where "s = common_suffix xs ys p 0"
  from common_prefix_ok [of 0 xs ys] have p: "p \<le> length xs" "p \<le> length ys" "take p xs = take p ys"
    by (simp_all add: p_def)
  from common_suffix_ok [of 0 p xs ys] p have s: "s + p \<le> length xs" "s + p \<le> length ys"
    "drop (length xs - s) xs = drop (length ys - s) ys" by (simp_all add: s_def)
  have old: "old_side (prefixSuffixLines xs ys) = map (\<lambda>i. (Some (i + 1), xs ! i)) [0..<length xs]"
    using s p by (simp add: prefixSuffixLines_def Let_def p_def [symmetric] s_def [symmetric] map_split
      del: upt_Suc upt_0)
  let ?f = "\<lambda>i. (Some (i + 1), ys ! i)"
  have pre: "map (\<lambda>i. (Some (i + 1), xs ! i)) [0..<p] = map ?f [0..<p]"
    using p by (auto intro!: map_cong) (metis nth_take)
  have suf: "map (\<lambda>i. (Some (length ys - s + (i - (length xs - s)) + 1), xs ! i)) [length xs - s..<length xs]
      = map ?f [length ys - s..<length ys]"
  proof (rule nth_equalityI)
    show "length (map (\<lambda>i. (Some (length ys - s + (i - (length xs - s)) + 1), xs ! i)) [length xs - s..<length xs])
      = length (map ?f [length ys - s..<length ys])" using s by simp
  next
    fix k assume k: "k < length (map (\<lambda>i. (Some (length ys - s + (i - (length xs - s)) + 1), xs ! i))
      [length xs - s..<length xs])"
    from s(3) have "drop (length xs - s) xs ! k = drop (length ys - s) ys ! k" by simp
    with k s(1,2) show "map (\<lambda>i. (Some (length ys - s + (i - (length xs - s)) + 1), xs ! i)) [length xs - s..<length xs] ! k
      = map ?f [length ys - s..<length ys] ! k" by simp
  qed
  have "new_side (prefixSuffixLines xs ys) = map (\<lambda>i. (Some (i + 1), xs ! i)) [0..<p]
    @ map ?f [p..<length ys - s]
    @ map (\<lambda>i. (Some (length ys - s + (i - (length xs - s)) + 1), xs ! i)) [length xs - s..<length xs]"
    by (simp only: prefixSuffixLines_def Let_def p_def [symmetric] s_def [symmetric] side_append side_contexts
      side_removals side_additions append.simps)
  also have "\<dots> = map ?f [0..<length ys]"
    unfolding pre suf using s by (simp add: map_split del: upt_Suc upt_0)
  finally have new: "new_side (prefixSuffixLines xs ys) = map ?f [0..<length ys]" .
  from old new show ?thesis using numbered_drop [of 0] by simp
qed

section \<open>The table holds the lengths of longest common subsequences\<close>

fun lcs_len :: "'a list \<Rightarrow> 'a list \<Rightarrow> nat" where
  "lcs_len [] ys = 0"
| "lcs_len (x # xs) [] = 0"
| "lcs_len (x # xs) (y # ys) =
     (if x = y then Suc (lcs_len xs ys) else max (lcs_len xs (y # ys)) (lcs_len (x # xs) ys))"

lemma lcs_len_Nil2 [simp]: "lcs_len xs [] = 0"
  by (cases xs) simp_all

lemma lcs_len_bound: "lcs_len xs ys \<le> length xs \<and> lcs_len xs ys \<le> length ys"
  by (induction xs ys rule: lcs_len.induct) auto

lemma lcs_len_upper: "subseq zs xs \<Longrightarrow> subseq zs ys \<Longrightarrow> length zs \<le> lcs_len xs ys"
proof (induction xs ys arbitrary: zs rule: lcs_len.induct)
  case (3 x xs y ys)
  show ?case
  proof (cases zs)
    case Nil
    then show ?thesis by simp
  next
    case (Cons z rest)
    show ?thesis
    proof (cases "x = y")
      case True
      with 3(4,5) Cons have "subseq rest xs" "subseq rest ys"
        by (auto simp: subseq_Cons2_iff dest: subseq_Cons' split: if_splits)
      with 3(1) [OF True, of rest] True Cons show ?thesis by simp
    next
      case False
      show ?thesis
      proof (cases "z = x")
        case True
        with 3(5) Cons False have "subseq zs ys" by (simp add: subseq_Cons2_iff)
        from 3(3) [OF False 3(4) this] False show ?thesis by simp
      next
        case neq: False
        with 3(4) Cons have "subseq zs xs" by (simp add: subseq_Cons2_iff)
        from 3(2) [OF False this 3(5)] False show ?thesis by simp
      qed
    qed
  qed
qed auto

lemma lcs_len_drop:
  "i < length xs \<Longrightarrow> j < length ys \<Longrightarrow> lcs_len (drop i xs) (drop j ys) =
     (if xs ! i = ys ! j then Suc (lcs_len (drop (Suc i) xs) (drop (Suc j) ys))
      else max (lcs_len (drop (Suc i) xs) (drop j ys)) (lcs_len (drop i xs) (drop (Suc j) ys)))"
  by (simp add: Cons_nth_drop_Suc [symmetric])

text \<open>
  The cells filled so far: all cells of the rows below \<open>i\<close>, and in row \<open>i\<close> those from column \<open>j\<close> on; the last
  column and the last row are zero from the start.
\<close>

definition table_filled :: "'a list \<Rightarrow> 'a list \<Rightarrow> nat \<Rightarrow> nat \<Rightarrow> 32 word list \<Rightarrow> bool" where
  "table_filled xs ys i j dp \<longleftrightarrow>
     length dp = (length xs + 1) * (length ys + 1) \<and>
     (\<forall>a\<le>length xs. \<forall>b\<le>length ys. i < a \<or> i = a \<and> j \<le> b \<or> b = length ys \<longrightarrow>
        dp ! (a * (length ys + 1) + b) = of_nat (lcs_len (drop a xs) (drop b ys)))"

lemma table_cell:
  "table_filled xs ys i j dp \<Longrightarrow> a \<le> length xs \<Longrightarrow> b \<le> length ys \<Longrightarrow> i < a \<or> i = a \<and> j \<le> b \<or> b = length ys \<Longrightarrow>
     dp ! (a * (length ys + 1) + b) = of_nat (lcs_len (drop a xs) (drop b ys))"
  unfolding table_filled_def by blast

lemma cell_index_eq:
  fixes a b i j w :: nat
  assumes "b < w" and "j < w" and "a * w + b = i * w + j"
  shows "a = i \<and> b = j"
proof -
  have "a = (a * w + b) div w" using assms(1) by simp
  also have "\<dots> = i" using assms(2) unfolding assms(3) by simp
  finally show ?thesis using assms(3) by simp
qed

lemma cell_index_less: "a \<le> n \<Longrightarrow> b < w \<Longrightarrow> a * w + b < (n + 1) * w" for a b n w :: nat
  by (metis add.commute add_less_le_mono mult_Suc mult_le_mono1 Suc_eq_plus1)

lemma unat_small: "n < 2 ^ 32 \<Longrightarrow> unat (of_nat n :: 32 word) = n"
  by (simp add: unat_of_nat)

lemma word_max_of_nat:
  "m < 2 ^ 32 \<Longrightarrow> n < 2 ^ 32 \<Longrightarrow> max (of_nat m) (of_nat n :: 32 word) = of_nat (max m n)"
  by (simp add: max_def word_le_nat_alt unat_small)

lemma lcs_len_small:
  "min (length xs) (length ys) < n \<Longrightarrow> lcs_len (drop a xs) (drop b ys) < n"
  using lcs_len_bound [of "drop a xs" "drop b ys"] by (auto simp: min_def split: if_splits)

lemma dp_cell_value:
  assumes "table_filled xs ys i (Suc j) dp" and "i < length xs" and "j < length ys"
    and small: "min (length xs) (length ys) < 2 ^ 32"
  shows "dp_cell xs ys i j dp = of_nat (lcs_len (drop i xs) (drop j ys))"
proof -
  have small: "lcs_len (drop a xs) (drop b ys) < 2 ^ 32" for a b by (rule lcs_len_small [OF small])
  have c: "dp ! ((i + 1) * (length ys + 1) + j + 1) = of_nat (lcs_len (drop (Suc i) xs) (drop (Suc j) ys))"
    "dp ! ((i + 1) * (length ys + 1) + j) = of_nat (lcs_len (drop (Suc i) xs) (drop j ys))"
    "dp ! (i * (length ys + 1) + j + 1) = of_nat (lcs_len (drop i xs) (drop (Suc j) ys))"
    using table_cell [OF assms(1), of "Suc i" "Suc j"] table_cell [OF assms(1), of "Suc i" j]
      table_cell [OF assms(1), of i "Suc j"] assms(2,3) by simp_all
  show ?thesis
    unfolding dp_cell_def Let_def c lcs_len_drop [OF assms(2,3)]
    by (simp add: word_max_of_nat [OF small small])
qed

lemma table_update:
  assumes "table_filled xs ys i (Suc j) dp" and "i < length xs" and "j < length ys"
    and "min (length xs) (length ys) < 2 ^ 32"
  shows "table_filled xs ys i j (dp[i * (length ys + 1) + j := dp_cell xs ys i j dp])"
proof -
  have len: "length dp = (length xs + 1) * (length ys + 1)" using assms(1) by (simp only: table_filled_def)
  have "dp[i * (length ys + 1) + j := dp_cell xs ys i j dp] ! (a * (length ys + 1) + b)
      = of_nat (lcs_len (drop a xs) (drop b ys))"
    if ab: "a \<le> length xs" "b \<le> length ys" "i < a \<or> i = a \<and> j \<le> b \<or> b = length ys" for a b
  proof (cases "a = i \<and> b = j")
    case True
    have "i * (length ys + 1) + j < length dp"
      unfolding len using assms(2,3) by (intro cell_index_less) simp_all
    with True show ?thesis by (simp only: nth_list_update_eq dp_cell_value [OF assms])
  next
    case False
    with ab(3) have "i < a \<or> i = a \<and> Suc j \<le> b \<or> b = length ys" by auto
    note old = table_cell [OF assms(1) ab(1,2) this]
    from False have differ: "i * (length ys + 1) + j \<noteq> a * (length ys + 1) + b"
      using cell_index_eq [of j "length ys + 1" b i a] assms(3) ab(2) by auto
    show ?thesis by (subst nth_list_update_neq [OF differ]) (rule old)
  qed
  with len show ?thesis by (simp only: table_filled_def length_list_update) blast
qed

lemma fill_row_filled:
  "table_filled xs ys i j dp \<Longrightarrow> i < length xs \<Longrightarrow> j \<le> length ys \<Longrightarrow> min (length xs) (length ys) < 2 ^ 32 \<Longrightarrow>
     table_filled xs ys i 0 (fill_row xs ys i j dp)"
proof (induction j arbitrary: dp)
  case (Suc j)
  then show ?case using table_update [of xs ys i j dp] by simp
qed simp

lemma table_next_row: "table_filled xs ys (Suc i) 0 dp \<Longrightarrow> table_filled xs ys i (length ys) dp"
  unfolding table_filled_def by auto (metis Suc_lessI le_antisym)

lemma fill_table_filled:
  "table_filled xs ys i 0 dp \<Longrightarrow> i \<le> length xs \<Longrightarrow> min (length xs) (length ys) < 2 ^ 32 \<Longrightarrow>
     table_filled xs ys 0 0 (fill_table xs ys i dp)"
proof (induction i arbitrary: dp)
  case (Suc i)
  from fill_row_filled [OF table_next_row [OF Suc.prems(1)]] Suc show ?case by simp
qed simp

lemma table_empty: "table_filled xs ys (length xs) 0 (replicate ((length xs + 1) * (length ys + 1)) 0)"
proof -
  have "replicate ((length xs + 1) * (length ys + 1)) (0 :: 32 word) ! (a * (length ys + 1) + b)
      = of_nat (lcs_len (drop a xs) (drop b ys))"
    if "a \<le> length xs" "b \<le> length ys" "length xs < a \<or> length xs = a \<and> 0 \<le> b \<or> b = length ys" for a b
  proof -
    have "a * (length ys + 1) + b < (length xs + 1) * (length ys + 1)"
      using that by (intro cell_index_less) simp_all
    moreover have "lcs_len (drop a xs) (drop b ys) = 0" using that by auto
    ultimately show ?thesis by (simp only: nth_replicate) simp
  qed
  then show ?thesis by (simp only: table_filled_def length_replicate) blast
qed

lemma lcs_table_filled:
  "min (length xs) (length ys) < 2 ^ 32 \<Longrightarrow> table_filled xs ys 0 0 (lcs_table xs ys)"
  unfolding lcs_table_def by (rule fill_table_filled [OF table_empty]) simp_all

lemma lcs_table_cell:
  "min (length xs) (length ys) < 2 ^ 32 \<Longrightarrow> i \<le> length xs \<Longrightarrow> j \<le> length ys \<Longrightarrow>
     lcs_table xs ys ! (i * (length ys + 1) + j) = of_nat (lcs_len (drop i xs) (drop j ys))"
  by (rule table_cell [OF lcs_table_filled]) auto

lemma lcs_table_le:
  assumes "min (length xs) (length ys) < 2 ^ 32" and "i < length xs" and "j < length ys"
  shows "lcs_table xs ys ! (i * (length ys + 1) + j + 1) \<le> lcs_table xs ys ! ((i + 1) * (length ys + 1) + j)
    \<longleftrightarrow> lcs_len (drop i xs) (drop (Suc j) ys) \<le> lcs_len (drop (Suc i) xs) (drop j ys)"
proof -
  have small: "lcs_len (drop a xs) (drop b ys) < 2 ^ 32" for a b by (rule lcs_len_small [OF assms(1)])
  have "lcs_table xs ys ! (i * (length ys + 1) + j + 1) = of_nat (lcs_len (drop i xs) (drop (Suc j) ys))"
    "lcs_table xs ys ! ((i + 1) * (length ys + 1) + j) = of_nat (lcs_len (drop (Suc i) xs) (drop j ys))"
    using lcs_table_cell [OF assms(1), of i "Suc j"] lcs_table_cell [OF assms(1), of "Suc i" j] assms(2,3)
    by simp_all
  with small show ?thesis by (simp only: word_le_nat_alt unat_small)
qed

lemma lcs_walk_contexts:
  "min (length xs) (length ys) < 2 ^ 32 \<Longrightarrow>
     length (context_texts (lcs_walk xs ys (lcs_table xs ys) i j)) = lcs_len (drop i xs) (drop j ys)"
proof (induction xs ys "lcs_table xs ys" i j rule: lcs_walk.induct)
  case (1 xs ys i j)
  show ?case
  proof (cases "i < length xs \<and> j < length ys")
    case True
    with 1 show ?thesis
      by (simp only: lcs_walk_step lcs_table_le lcs_len_drop side_context side_removal side_addition
        if_True if_False simp_thms split: if_split) (simp add: max_def)
  next
    case False
    then have "drop i xs = [] \<or> drop j ys = []" by auto
    then have "lcs_len (drop i xs) (drop j ys) = 0" by auto
    with False show ?thesis by (simp add: lcs_walk_stop)
  qed
qed

lemma context_subseq: "subseq (context_texts ls) (map snd (old_side ls)) \<and> subseq (context_texts ls) (map snd (new_side ls))"
  by (induction ls) (auto simp: context_texts_def old_side_def new_side_def)

lemma lcsLines_longest:
  assumes "min (length xs) (length ys) < 2 ^ 32"
  shows "subseq (context_texts (lcsLines xs ys)) xs \<and> subseq (context_texts (lcsLines xs ys)) ys \<and>
    length (context_texts (lcsLines xs ys)) = lcs_len xs ys"
  using context_subseq [of "lcsLines xs ys"] lcsLines_sides [of xs ys] lcs_walk_contexts [OF assms, of 0 0]
  by (simp add: numbered_texts lcsLines_def)

end
