(* ===== verification/Edit_Patch.thy ===== *)
theory Edit_Patch
  imports Edit_Lines
begin

text \<open>
  Unified patches (\<open>native-chat-unified-patch.ts\<close>, with \<open>isFileHeaderPair\<close> and the section markers of
  \<open>native-chat-diff.ts\<close>): the scan that visits the rows of a patch, used once to build rows and once only to
  count them, the sections of a patch of several files, and the text of a card's rows
  (\<open>native-chat-edit-cards.ts\<close>). The scan takes its visitor as a function on a state, as the code takes a callback.
\<close>

section \<open>Markers\<close>

definition row_at :: "string list \<Rightarrow> nat \<Rightarrow> string" where
  "row_at rows index = (if index < length rows then rows ! index else [])"

definition isFileHeaderPair :: "string list \<Rightarrow> nat \<Rightarrow> bool" where
  "isFileHeaderPair rows index \<longleftrightarrow>
     starts_with ''--- '' (row_at rows index) \<and> starts_with ''+++ '' (row_at rows (index + 1))"

definition file_section_start :: "string \<Rightarrow> bool" where
  "file_section_start row = list_ex (\<lambda>p. starts_with p row)
     [''diff '', ''index '', ''old mode '', ''new mode '', ''new file mode '', ''deleted file mode '',
      ''similarity index '', ''dissimilarity index '', ''rename '', ''copy '', ''Binary files '']"

text \<open>\<open>HUNK_RANGES\<close>: the numbers behind the minus and the plus of a hunk header.\<close>

definition number_at :: "string \<Rightarrow> (nat \<times> string) option" where
  "number_at s = (let digits = takeWhile is_digit s in
     if digits = [] then None else Some (decimal_value digits, dropWhile is_digit s))"

definition skip_count :: "string \<Rightarrow> string" where
  "skip_count s = (case strip_prefix '','' s of None \<Rightarrow> s
     | Some r \<Rightarrow> (case number_at r of None \<Rightarrow> s | Some (n, t) \<Rightarrow> t))"

definition hunk_ranges :: "string \<Rightarrow> (nat \<times> nat) option" where
  "hunk_ranges raw =
     (case strip_prefix ''@@'' raw of None \<Rightarrow> None | Some r \<Rightarrow>
      (case strip_prefix '' -'' (dropWhile (\<lambda>c. c = CHR ''@'') r) of None \<Rightarrow> None | Some r \<Rightarrow>
      (case number_at r of None \<Rightarrow> None | Some (oldNo, r) \<Rightarrow>
      (case strip_prefix '' +'' (skip_count r) of None \<Rightarrow> None | Some r \<Rightarrow>
      (case number_at r of None \<Rightarrow> None | Some (newNo, r) \<Rightarrow>
        if starts_with '' @@'' (skip_count r) then Some (oldNo, newNo) else None)))))"

section \<open>The scan\<close>

record patch_scan =
  ps_rowCount :: nat
  ps_lastWasGap :: bool
  ps_oldNo :: "nat option"
  ps_newNo :: "nat option"
  ps_sawHunk :: bool
  ps_ranged :: bool
  ps_inHunk :: bool

definition scan_start :: "bool \<Rightarrow> patch_scan" where
  "scan_start implicitFirstHunk =
     \<lparr>ps_rowCount = 0, ps_lastWasGap = False, ps_oldNo = None, ps_newNo = None,
      ps_sawHunk = implicitFirstHunk, ps_ranged = True, ps_inHunk = implicitFirstHunk\<rparr>"

type_synonym 's visitor = "edit_line_kind \<Rightarrow> string \<Rightarrow> nat option \<Rightarrow> nat option \<Rightarrow> 's \<Rightarrow> 's"

definition visit_hunk :: "'s visitor \<Rightarrow> string \<Rightarrow> patch_scan \<times> 's \<Rightarrow> patch_scan \<times> 's" where
  "visit_hunk visit raw = (\<lambda>(st, s).
     (let m = hunk_ranges raw; gap = (0 < ps_rowCount st \<and> \<not> ps_lastWasGap st) in
      (st\<lparr>ps_oldNo := map_option fst m, ps_newNo := map_option snd m,
          ps_rowCount := (if gap then ps_rowCount st + 1 else ps_rowCount st),
          ps_lastWasGap := (gap \<or> ps_lastWasGap st), ps_sawHunk := True, ps_inHunk := True\<rparr>,
       if gap then visit Kind_gap [] None None s else s)))"

definition visit_row :: "'s visitor \<Rightarrow> string \<Rightarrow> patch_scan \<times> 's \<Rightarrow> patch_scan \<times> 's" where
  "visit_row visit raw = (\<lambda>(st0, s).
     (let oldNo = ps_oldNo st0; newNo = ps_newNo st0;
          st = st0\<lparr>ps_ranged := (ps_ranged st0 \<and> (oldNo \<noteq> None \<or> newNo \<noteq> None)),
                    ps_rowCount := ps_rowCount st0 + 1, ps_lastWasGap := False\<rparr> in
      if starts_with ''+'' raw then
        (st\<lparr>ps_newNo := map_option Suc newNo\<rparr>, visit Kind_add (drop 1 raw) None newNo s)
      else if starts_with ''-'' raw then
        (st\<lparr>ps_oldNo := map_option Suc oldNo\<rparr>, visit Kind_del (drop 1 raw) oldNo None s)
      else
        (st\<lparr>ps_oldNo := map_option Suc oldNo, ps_newNo := map_option Suc newNo\<rparr>,
         visit Kind_context (if starts_with '' '' raw then drop 1 raw else raw) oldNo newNo s)))"

function visit_rows :: "'s visitor \<Rightarrow> string list \<Rightarrow> patch_scan \<times> 's \<Rightarrow> patch_scan \<times> 's" where
  "visit_rows visit [] c = c"
| "visit_rows visit (raw # rest) c =
     (if starts_with ''@@'' raw then visit_rows visit rest (visit_hunk visit raw c)
      else if starts_with [CHR 0x5C] raw then visit_rows visit rest c
      else if \<not> ps_inHunk (fst c) \<and> isFileHeaderPair (raw # rest) 0 then visit_rows visit (tl rest) c
      else if file_section_start raw then visit_rows visit rest (apfst (ps_inHunk_update (\<lambda>_. False)) c)
      else if \<not> ps_inHunk (fst c) then visit_rows visit rest c
      else visit_rows visit rest (visit_row visit raw c))"
  by pat_completeness auto
termination by (relation "measure (\<lambda>(visit, rows, c). length rows)") auto

text \<open>The result: whether all rows had numbers and whether the text was cut, or nothing without a hunk.\<close>

definition visitUnifiedPatch :: "string \<Rightarrow> 's visitor \<Rightarrow> bool \<Rightarrow> 's \<Rightarrow> (bool \<times> bool) option \<times> 's" where
  "visitUnifiedPatch text visit implicitFirstHunk s =
     (let (rows, truncated) = splitEditContent text;
          (st, s') = visit_rows visit rows (scan_start implicitFirstHunk, s)
      in (if ps_sawHunk st \<and> 0 < ps_rowCount st then Some (ps_ranged st, truncated) else None, s'))"

definition push_row :: "edit_line list visitor" where
  "push_row kind text oldNo newNo lines = lines @ [edit_row kind text oldNo newNo]"

definition editLinesFromUnifiedPatch :: "string \<Rightarrow> bool \<Rightarrow> (edit_line list \<times> bool \<times> bool) option" where
  "editLinesFromUnifiedPatch text implicitFirstHunk =
     (let (metadata, lines) = visitUnifiedPatch text push_row implicitFirstHunk []
      in map_option (\<lambda>(known, truncated). (lines, known, truncated)) metadata)"

record row_counts =
  rc_added :: nat
  rc_removed :: nat
  rc_rowCount :: nat

definition count_row :: "row_counts visitor" where
  "count_row kind text oldNo newNo c =
     (let n = rc_rowCount c + 1 in
      if n \<le> max_edit_lines
      then c\<lparr>rc_rowCount := n, rc_added := rc_added c + of_bool (kind = Kind_add),
             rc_removed := rc_removed c + of_bool (kind = Kind_del)\<rparr>
      else c\<lparr>rc_rowCount := n\<rparr>)"

definition summarizeUnifiedPatch :: "string \<Rightarrow> (nat \<times> nat \<times> bool) option" where
  "summarizeUnifiedPatch text =
     (let (metadata, c) = visitUnifiedPatch text count_row False \<lparr>rc_added = 0, rc_removed = 0, rc_rowCount = 0\<rparr>
      in map_option (\<lambda>(known, truncated).
           (rc_added c, rc_removed c, truncated \<or> max_edit_lines < rc_rowCount c)) metadata)"

section \<open>The text of a card's rows\<close>

definition row_sign :: "edit_line \<Rightarrow> char" where
  "row_sign l = (if nl_kind l = Kind_add then CHR ''+'' else if nl_kind l = Kind_del then CHR ''-'' else CHR '' '')"

definition nativeChatEditFilePatchText :: "edit_line list \<Rightarrow> string" where
  "nativeChatEditFilePatchText lines =
     join_with [newline] (map (\<lambda>l. row_sign l # nl_text l) (filter (\<lambda>l. nl_kind l \<noteq> Kind_gap) lines))"

section \<open>Whole files\<close>

definition editLinesFromWholeFile :: "string \<Rightarrow> edit_line_kind \<Rightarrow> edit_line list \<times> bool" where
  "editLinesFromWholeFile content kind =
     (let (texts, truncated) = splitEditContent content in
      (map (\<lambda>(i, t). edit_row kind t (if kind = Kind_del then Some (i + 1) else None)
              (if kind = Kind_add then Some (i + 1) else None)) (List.enumerate 0 texts), truncated))"

section \<open>Sections of a patch of several files\<close>

record patch_section =
  sc_rows :: "string list"
  sc_oldPath :: "string option"
  sc_newPath :: "string option"
  sc_named :: bool
  sc_hasHeaderPair :: bool
  sc_fromGitHeader :: bool

definition open_section :: patch_section where
  "open_section = \<lparr>sc_rows = [], sc_oldPath = None, sc_newPath = None, sc_named = False,
     sc_hasHeaderPair = False, sc_fromGitHeader = False\<rparr>"

definition git_diff_header :: string where "git_diff_header = ''diff --git ''"

definition without_prefix :: "string \<Rightarrow> string \<Rightarrow> string" where
  "without_prefix p s = (case strip_prefix p s of None \<Rightarrow> s | Some t \<Rightarrow> t)"

definition sourceHeaderPath :: "string \<Rightarrow> string option" where
  "sourceHeaderPath line =
     (let path = trim (hd (split_on CHR 0x09 (drop 4 line))) in
      if path = [] \<or> path = ''/dev/null'' then None
      else Some (if starts_with ''a/'' path \<or> starts_with ''b/'' path then drop 2 path else path))"

text \<open>\<open>lastIndexOf\<close>: what is before the last occurrence and what follows it.\<close>

fun split_at_last :: "string \<Rightarrow> string \<Rightarrow> (string \<times> string) option" where
  "split_at_last mark [] = None"
| "split_at_last mark (c # cs) =
     (case split_at_last mark cs of
        Some (before, after) \<Rightarrow> Some (c # before, after)
      | None \<Rightarrow> if starts_with mark (c # cs) then Some ([], drop (length mark) (c # cs)) else None)"

definition gitHeaderPaths :: "string \<Rightarrow> string option \<times> string option" where
  "gitHeaderPaths line =
     (case split_at_last '' b/'' (drop (length git_diff_header) line) of
        None \<Rightarrow> (None, None)
      | Some (before, after) \<Rightarrow> (Some (without_prefix ''a/'' before), Some after))"

definition sectionChangeKind :: "patch_section \<Rightarrow> change_kind" where
  "sectionChangeKind sc =
     (if \<not> sc_named sc then Change_edited
      else if sc_newPath sc = None then Change_deleted
      else if sc_oldPath sc = None then Change_added
      else if sc_oldPath sc = sc_newPath sc then Change_edited
      else if sc_fromGitHeader sc then Change_renamed else Change_edited)"

text \<open>The sections opened so far, the current one first.\<close>

fun scan_sections :: "string list \<Rightarrow> bool \<Rightarrow> patch_section list \<Rightarrow> patch_section list" where
  "scan_sections [] inHunk opened = opened"
| "scan_sections (raw # rest) inHunk opened =
     (if starts_with git_diff_header raw then
        let (old, new) = gitHeaderPaths raw in
        scan_sections rest False
          (open_section\<lparr>sc_oldPath := old, sc_newPath := new, sc_named := True, sc_fromGitHeader := True\<rparr> # opened)
      else if isFileHeaderPair (raw # rest) 0 \<and> (\<not> inHunk \<or> starts_with ''@@'' (row_at (raw # rest) 2)) then
        let opened' = (if opened = [] \<or> sc_hasHeaderPair (hd opened) then open_section # opened else opened) in
        scan_sections (tl rest) False
          ((hd opened')\<lparr>sc_oldPath := sourceHeaderPath raw, sc_newPath := sourceHeaderPath (row_at (raw # rest) 1),
             sc_named := True, sc_hasHeaderPair := True\<rparr> # tl opened')
      else
        let inHunk' = (if starts_with ''@@'' raw then True
                       else if file_section_start raw then False else inHunk);
            opened' = (if opened = [] then [open_section] else opened) in
        scan_sections rest inHunk' ((hd opened')\<lparr>sc_rows := sc_rows (hd opened') @ [raw]\<rparr> # tl opened'))"

record unified_section =
  us_path :: "string option"
  us_oldPath :: "string option"
  us_changeKind :: change_kind
  us_body :: string

definition section_result :: "patch_section \<Rightarrow> unified_section" where
  "section_result sc =
     \<lparr>us_path = orElse (sc_newPath sc) (sc_oldPath sc),
      us_oldPath = (if sectionChangeKind sc = Change_renamed then sc_oldPath sc else None),
      us_changeKind = sectionChangeKind sc, us_body = join_with [newline] (sc_rows sc)\<rparr>"

definition unifiedPatchSections :: "string \<Rightarrow> unified_section list \<times> bool" where
  "unifiedPatchSections text =
     (let (rows, truncated) = splitEditContent text in
      (map section_result (rev (scan_sections rows False [])), truncated))"

end
