(* ===== verification/Edit_Cards.thy ===== *)
theory Edit_Cards
  imports Edit_Patch Complex_Main
begin

text \<open>
  The files of an edit card, from whatever a tool call carries
  (\<open>native-chat-begin-patch.ts\<close>, \<open>native-chat-edit-patch-files.ts\<close>, \<open>native-chat-edit-normalize.ts\<close>):
  patch envelopes, patch text in sections, resolved hunks, pairs of snippets, whole contents and lists of changes.
  A tool's input is a JSON value; parsing JSON (\<open>JSON.parse\<close>) and removing the marker of a clipped text (whose
  characters are not 8-bit) are arguments.
\<close>

section \<open>Patch envelopes\<close>

definition begin_mark :: string where "begin_mark = ''*** Begin Patch''"
definition end_mark :: string where "end_mark = ''*** End Patch''"

datatype patch_op = Op_add | Op_update | Op_delete

text \<open>\<open>(.+)$\<close>: something without a line break, up to the end.\<close>

definition one_line :: "string \<Rightarrow> bool" where
  "one_line s \<longleftrightarrow> s \<noteq> [] \<and> list_all (\<lambda>c. c \<noteq> newline \<and> c \<noteq> CHR 0x0D) s"

definition line_after :: "string \<Rightarrow> string \<Rightarrow> string option" where
  "line_after p s = (case strip_prefix p s of Some r \<Rightarrow> if one_line r then Some r else None | None \<Rightarrow> None)"

definition file_header :: "string \<Rightarrow> (patch_op \<times> string) option" where
  "file_header raw =
     (case line_after ''*** Add File: '' raw of Some p \<Rightarrow> Some (Op_add, p) | None \<Rightarrow>
      (case line_after ''*** Update File: '' raw of Some p \<Rightarrow> Some (Op_update, p) | None \<Rightarrow>
        map_option (Pair Op_delete) (line_after ''*** Delete File: '' raw)))"

definition control_line :: "string \<Rightarrow> bool" where
  "control_line raw \<longleftrightarrow> starts_with ''*** End of File'' raw \<or> starts_with ''*** Environment ID:'' raw"

record envelope_section =
  en_kind :: patch_op
  en_path :: string
  en_body :: "string list"

definition envelope_row ::
  "string \<Rightarrow> envelope_section list \<times> (nat \<Rightarrow> string option) \<Rightarrow> envelope_section list \<times> (nat \<Rightarrow> string option)" where
  "envelope_row raw = (\<lambda>(sections, moves).
     (case file_header raw of
        Some (kind, path) \<Rightarrow> (sections @ [\<lparr>en_kind = kind, en_path = trim path, en_body = []\<rparr>], moves)
      | None \<Rightarrow>
          (case (line_after ''*** Move to: '' raw, sections = []) of
             (Some target, False) \<Rightarrow> (sections, moves(length sections - 1 \<mapsto> trim target))
           | _ \<Rightarrow>
               if raw = begin_mark \<or> raw = end_mark \<or> control_line raw \<or> sections = [] then (sections, moves)
               else (sections[length sections - 1 :=
                       (last sections)\<lparr>en_body := en_body (last sections) @ [raw]\<rparr>], moves))))"

definition envelope_file :: "(nat \<Rightarrow> string option) \<Rightarrow> nat \<times> envelope_section \<Rightarrow> edit_file" where
  "envelope_file moves = (\<lambda>(index, sc).
     (if en_kind sc = Op_add \<or> en_kind sc = Op_delete then
        let sign = (if en_kind sc = Op_add then ''+'' else ''-'');
            stripped = join_with [newline]
              (map (\<lambda>line. if starts_with sign line then drop 1 line else line) (en_body sc));
            (lines, truncated) = editLinesFromWholeFile stripped (if en_kind sc = Op_add then Kind_add else Kind_del)
        in finalizeEditFile (en_path sc) None
             (if en_kind sc = Op_add then Change_added else Change_deleted) lines True truncated
      else
        let moved = moves index;
            (lines, known, truncated) =
              (case editLinesFromUnifiedPatch (join_with [newline] (en_body sc)) True of
                 None \<Rightarrow> ([], False, False) | Some p \<Rightarrow> p)
        in finalizeEditFile (case moved of None \<Rightarrow> en_path sc | Some m \<Rightarrow> m)
             (if truthy moved then Some (en_path sc) else None)
             (if truthy moved then Change_renamed else Change_edited) lines known truncated))"

definition editFilesFromBeginPatch :: "string \<Rightarrow> edit_file list" where
  "editFilesFromBeginPatch envelope =
     (let (sections, moves) = fold envelope_row (split_lines [] envelope) ([], \<lambda>_. None)
      in map (envelope_file moves) (List.enumerate 0 sections))"

section \<open>JSON values\<close>

datatype json = J_null | J_bool bool | J_number rat | J_string string | J_array "json list"
  | J_object "(string \<times> json) list"

text \<open>A property of a value that may be absent, and the checks \<open>record\<close> and \<open>text\<close>.\<close>

definition is_record :: "json \<Rightarrow> bool" where
  "is_record v = (case v of J_array _ \<Rightarrow> True | J_object _ \<Rightarrow> True | _ \<Rightarrow> False)"

definition json_record :: "json option \<Rightarrow> json option" where
  "json_record v = (case v of Some j \<Rightarrow> if is_record j then Some j else None | None \<Rightarrow> None)"

definition json_prop :: "json option \<Rightarrow> string \<Rightarrow> json option" where
  "json_prop v key = (case v of Some (J_object members) \<Rightarrow> map_of members key | _ \<Rightarrow> None)"

definition json_text :: "json option \<Rightarrow> string option" where
  "json_text v = (case v of Some (J_string s) \<Rightarrow> Some s | _ \<Rightarrow> None)"

section \<open>Finding the envelope of a call\<close>

definition text_includes :: "string \<Rightarrow> string \<Rightarrow> bool" where
  "text_includes mark s \<longleftrightarrow> split_at_mark mark s \<noteq> None"

definition apply_command :: "string \<Rightarrow> bool" where
  "apply_command s \<longleftrightarrow> text_includes ''apply_patch'' s \<or> text_includes ''applypatch'' s"

definition argument_words :: "json option \<Rightarrow> string list" where
  "argument_words v = (case v of Some (J_string s) \<Rightarrow> [s]
     | Some (J_array entries) \<Rightarrow> List.map_filter (\<lambda>e. json_text (Some e)) entries | _ \<Rightarrow> [])"

fun envelope_argument :: "bool \<Rightarrow> json \<Rightarrow> string list \<Rightarrow> string option" where
  "envelope_argument requireApply members [] = None"
| "envelope_argument requireApply members (key # keys) =
     (let words = argument_words (json_prop (Some members) key) in
      if requireApply \<and> \<not> list_ex apply_command words then envelope_argument requireApply members keys
      else case find (text_includes begin_mark) words of
        Some word \<Rightarrow> Some word | None \<Rightarrow> envelope_argument requireApply members keys)"

definition envelope_arguments :: "string list" where
  "envelope_arguments = [''input'', ''command'', ''patch'', ''arguments'', ''script'']"

definition jsonRecord :: "(string \<Rightarrow> json option) \<Rightarrow> string \<Rightarrow> json option" where
  "jsonRecord parse s =
     (if \<not> starts_with ''{'' (dropWhile js_space s) then None
      else case parse s of Some (J_object members) \<Rightarrow> Some (J_object members) | _ \<Rightarrow> None)"

definition envelopeSource :: "(string \<Rightarrow> json option) \<Rightarrow> json \<Rightarrow> bool \<Rightarrow> string option" where
  "envelopeSource parse input requireApply =
     (case input of
        J_string s \<Rightarrow>
          (case jsonRecord parse s of
             Some members \<Rightarrow> envelope_argument requireApply members envelope_arguments
           | None \<Rightarrow> if \<not> requireApply \<or> apply_command s then Some s else None)
      | _ \<Rightarrow> if is_record input then envelope_argument requireApply input envelope_arguments else None)"

definition unwrapBeginPatch :: "(string \<Rightarrow> json option) \<Rightarrow> json \<Rightarrow> bool \<Rightarrow> string option" where
  "unwrapBeginPatch parse input requireApply =
     (case envelopeSource parse input requireApply of None \<Rightarrow> None
      | Some source \<Rightarrow>
          (case split_at_mark begin_mark source of None \<Rightarrow> None
           | Some (before, after) \<Rightarrow>
               (case split_at_mark end_mark (drop (length before) source) of None \<Rightarrow> None
                | Some (inside, rest) \<Rightarrow> Some (inside @ end_mark))))"

section \<open>Patch text\<close>

definition isNativeChatFileCountPath :: "string \<Rightarrow> bool" where
  "isNativeChatFileCountPath path \<longleftrightarrow>
     takeWhile is_digit path \<noteq> [] \<and> dropWhile is_digit path \<in> {'' file'', '' files''}"

text \<open>The move marker: the last line of a patch, when it says \<open>Moved to: \<dots>\<close>.\<close>

fun move_line :: "string \<Rightarrow> (string \<times> string) option" where
  "move_line [] = None"
| "move_line (c # cs) =
     (case (if c = newline then line_after ''Moved to: '' cs else None) of
        Some target \<Rightarrow> Some ([], target)
      | None \<Rightarrow> map_option (apfst (Cons c)) (move_line cs))"

definition splitMoveMarker :: "string \<Rightarrow> string \<times> string option" where
  "splitMoveMarker patch =
     (case line_after ''Moved to: '' patch of
        Some target \<Rightarrow> ([], Some (trim target))
      | None \<Rightarrow> (case move_line patch of
          Some (body, target) \<Rightarrow> (body, Some (trim target)) | None \<Rightarrow> (patch, None)))"

definition section_name :: "string option \<Rightarrow> unified_section list \<Rightarrow> unified_section \<Rightarrow> string" where
  "section_name callerPath sections sc =
     (let namedSections = count_where (\<lambda>s. us_path s \<noteq> None) sections;
          name = (if namedSections \<le> 1 \<and> us_oldPath sc = None then orElse callerPath (us_path sc)
                  else orElse (us_path sc) callerPath)
      in case name of None \<Rightarrow> ''file'' | Some n \<Rightarrow> n)"

definition patch_file ::
  "string option \<Rightarrow> bool \<Rightarrow> unified_section list \<Rightarrow> unified_section \<Rightarrow> edit_file option" where
  "patch_file callerPath clip sections sc =
     (let parsed = editLinesFromUnifiedPatch (us_body sc) False in
      if parsed = None \<and> us_path sc = None then None
      else let (lines, known, truncated) = (case parsed of None \<Rightarrow> ([], False, False) | Some p \<Rightarrow> p)
      in Some (finalizeEditFile (section_name callerPath sections sc) (us_oldPath sc) (us_changeKind sc)
           lines known (clip \<or> truncated)))"

text \<open>The call with \<open>summaryOnly\<close> has no rows: \<open>edit_summary\<close> is what is left of a file.\<close>

record edit_summary =
  es_path :: string
  es_oldPath :: "string option"
  es_changeKind :: change_kind
  es_added :: nat
  es_removed :: nat
  es_truncated :: bool

definition patch_summary ::
  "string option \<Rightarrow> bool \<Rightarrow> unified_section list \<Rightarrow> unified_section \<Rightarrow> edit_summary option" where
  "patch_summary callerPath clip sections sc =
     (let parsed = summarizeUnifiedPatch (us_body sc) in
      if parsed = None \<and> us_path sc = None then None
      else let (added, removed, truncated) = (case parsed of None \<Rightarrow> (0, 0, False) | Some p \<Rightarrow> p)
      in Some \<lparr>es_path = section_name callerPath sections sc, es_oldPath = us_oldPath sc,
           es_changeKind = us_changeKind sc, es_added = added, es_removed = removed,
           es_truncated = (clip \<or> truncated)\<rparr>)"

definition patch_sections ::
  "(string \<Rightarrow> string \<times> bool) \<Rightarrow> string \<Rightarrow> unified_section list \<times> bool \<times> string option" where
  "patch_sections strip patchText =
     (let (text, clipped) = strip patchText;
          (body, movedTo) = splitMoveMarker text;
          (sections, truncated) = unifiedPatchSections body
      in (sections, clipped \<or> truncated, movedTo))"

definition editFilesFromPatchText ::
  "(string \<Rightarrow> string \<times> bool) \<Rightarrow> string \<Rightarrow> string option \<Rightarrow> edit_file list option" where
  "editFilesFromPatchText strip patchText callerPath =
     (if (case callerPath of None \<Rightarrow> False | Some p \<Rightarrow> isNativeChatFileCountPath p) then None
      else let (sections, clip, movedTo) = patch_sections strip patchText;
               files = List.map_filter (patch_file callerPath clip sections) sections
           in case (movedTo, files) of
                (Some target, [f]) \<Rightarrow>
                  Some [f\<lparr>ef_path := target, ef_oldPath := Some (ef_path f), ef_changeKind := Change_renamed\<rparr>]
              | _ \<Rightarrow> if files \<noteq> [] then Some files else None)"

definition editSummariesFromPatchText ::
  "(string \<Rightarrow> string \<times> bool) \<Rightarrow> string \<Rightarrow> string option \<Rightarrow> edit_summary list option" where
  "editSummariesFromPatchText strip patchText callerPath =
     (if (case callerPath of None \<Rightarrow> False | Some p \<Rightarrow> isNativeChatFileCountPath p) then None
      else let (sections, clip, movedTo) = patch_sections strip patchText;
               files = List.map_filter (patch_summary callerPath clip sections) sections
           in case (movedTo, files) of
                (Some target, [f]) \<Rightarrow>
                  Some [f\<lparr>es_path := target, es_oldPath := Some (es_path f), es_changeKind := Change_renamed\<rparr>]
              | _ \<Rightarrow> if files \<noteq> [] then Some files else None)"

section \<open>Tool calls\<close>

record patch_hunk =
  ph_oldStart :: nat
  ph_newStart :: nat
  ph_lines :: "string list"

record edit_patch =
  ep_filePath :: "string option"
  ep_hunks :: "patch_hunk list"

fun hunk_rows :: "string list \<Rightarrow> nat \<Rightarrow> nat \<Rightarrow> edit_line list" where
  "hunk_rows [] oldNo newNo = []"
| "hunk_rows (raw # rest) oldNo newNo =
     (if starts_with ''+'' raw then edit_addition (drop 1 raw) newNo # hunk_rows rest oldNo (newNo + 1)
      else if starts_with ''-'' raw then edit_removal (drop 1 raw) oldNo # hunk_rows rest (oldNo + 1) newNo
      else edit_context (if starts_with '' '' raw then drop 1 raw else raw) oldNo newNo
             # hunk_rows rest (oldNo + 1) (newNo + 1))"

definition linesFromEditPatch :: "edit_patch \<Rightarrow> edit_line list" where
  "linesFromEditPatch patch =
     fold (\<lambda>h lines. pushEditGap lines @ hunk_rows (ph_lines h) (ph_oldStart h) (ph_newStart h)) (ep_hunks patch) []"

definition wholeContentChangeKind :: "json \<Rightarrow> string option \<Rightarrow> change_kind" where
  "wholeContentChangeKind input output =
     (if json_text (json_prop (Some input) ''command'') = Some ''create'' then Change_added
      else case output of None \<Rightarrow> Change_edited
        | Some o' \<Rightarrow> if starts_with ''File created successfully'' (dropWhile js_space o') then Change_added
                    else Change_edited)"

definition either_text :: "json option \<Rightarrow> string \<Rightarrow> string \<Rightarrow> string option" where
  "either_text v key key' = orElse (json_text (json_prop v key)) (json_text (json_prop v key'))"

definition snippet_step :: "json \<Rightarrow> edit_line list \<times> bool \<Rightarrow> edit_line list \<times> bool" where
  "snippet_step entry = (\<lambda>(lines, truncated).
     (let edit = json_record (Some entry);
          oldString = either_text edit ''old_string'' ''oldString'';
          newString = either_text edit ''new_string'' ''newString'' in
      if oldString = None \<and> newString = None then (lines, truncated)
      else let (rows, clip) = editLinesFromContents (case oldString of None \<Rightarrow> [] | Some s \<Rightarrow> s)
                 (case newString of None \<Rightarrow> [] | Some s \<Rightarrow> s)
           in (pushEditGap lines @ rows, truncated \<or> clip)))"

definition multiEditFiles :: "json \<Rightarrow> string \<Rightarrow> edit_file list option" where
  "multiEditFiles input path =
     (case json_prop (Some input) ''edits'' of
        Some (J_array entries) \<Rightarrow>
          (let (lines, truncated) = fold snippet_step entries ([], False) in
           if lines = [] then None
           else Some [finalizeEditFile path None Change_edited lines False truncated])
      | _ \<Rightarrow> None)"

definition claudeEditFiles :: "string \<Rightarrow> json \<Rightarrow> string option \<Rightarrow> edit_file list option" where
  "claudeEditFiles name input output =
     (let path = (case either_text (Some input) ''file_path'' ''path'' of None \<Rightarrow> ''file'' | Some p \<Rightarrow> p) in
      if name = ''MultiEdit'' then multiEditFiles input path
      else let oldString = either_text (Some input) ''old_string'' ''oldString'';
               newString = either_text (Some input) ''new_string'' ''newString'';
               content = either_text (Some input) ''content'' ''file_text'' in
      case (oldString, content) of
        (None, Some body) \<Rightarrow>
          (let (lines, truncated) = editLinesFromWholeFile body Kind_add in
           Some [finalizeEditFile path None (wholeContentChangeKind input output) lines True truncated])
      | _ \<Rightarrow>
          if oldString = None \<and> newString = None then None
          else let (lines, truncated) = editLinesFromContents (case oldString of None \<Rightarrow> [] | Some s \<Rightarrow> s)
                     (case orElse newString content of None \<Rightarrow> [] | Some s \<Rightarrow> s)
               in Some [finalizeEditFile path None Change_edited lines False truncated])"

definition codex_change :: "json \<Rightarrow> edit_file list" where
  "codex_change entry =
     (let change = json_record (Some entry);
          path = json_text (json_prop change ''path''); diff = json_text (json_prop change ''diff'') in
      if change = None \<or> \<not> truthy path \<or> \<not> truthy diff then []
      else
        let kind = json_record (json_prop change ''kind'');
            kindType = (case orElse (json_text (json_prop kind ''type'')) (json_text (json_prop change ''kind'')) of
              None \<Rightarrow> ''update'' | Some k \<Rightarrow> k);
            movePath = orElse (json_text (json_prop kind ''move_path'')) (json_text (json_prop change ''movePath'')) in
        if kindType = ''add'' \<or> kindType = ''delete'' then
          let (lines, truncated) =
                editLinesFromWholeFile (the diff) (if kindType = ''add'' then Kind_add else Kind_del)
          in [finalizeEditFile (the path) None (if kindType = ''add'' then Change_added else Change_deleted)
                lines True truncated]
        else case editLinesFromUnifiedPatch (fst (splitMoveMarker (the diff))) False of
          None \<Rightarrow> []
        | Some (lines, known, truncated) \<Rightarrow>
            [finalizeEditFile (the (orElse movePath path)) (if truthy movePath then path else None)
               (if truthy movePath then Change_renamed else Change_edited) lines known truncated])"

definition codexChangeFiles :: "json list \<Rightarrow> edit_file list" where
  "codexChangeFiles changes = concat (map codex_change changes)"

datatype call_state = Call_running | Call_completed | Call_failed

record tool_result =
  tr_output :: "string option"
  tr_isError :: bool
  tr_editPatch :: "edit_patch option"

definition claude_edit_tools :: "string list" where
  "claude_edit_tools = [''Edit'', ''MultiEdit'', ''Write'', ''str_replace'']"
definition command_patch_tools :: "string list" where
  "command_patch_tools = [''exec'', ''shell'', ''local_shell'']"
definition patch_envelope_tools :: "string list" where
  "patch_envelope_tools = ''apply_patch'' # command_patch_tools"
definition patch_text_tools :: "string list" where
  "patch_text_tools = [''apply_patch'', ''Diff'']"

definition isEditToolName :: "string \<Rightarrow> bool" where
  "isEditToolName name \<longleftrightarrow> name \<in> set claude_edit_tools \<or> name \<in> set patch_envelope_tools \<or> name \<in> set patch_text_tools"

text \<open>What is tried in turn once the call is known to have landed.\<close>

definition envelope_files :: "(string \<Rightarrow> json option) \<Rightarrow> string \<Rightarrow> json \<Rightarrow> edit_file list" where
  "envelope_files parse name input =
     (if name \<in> set patch_envelope_tools
      then case unwrapBeginPatch parse input (name \<in> set command_patch_tools) of
        Some envelope \<Rightarrow> if envelope = [] then [] else editFilesFromBeginPatch envelope | None \<Rightarrow> []
      else [])"

definition change_files :: "json option \<Rightarrow> edit_file list" where
  "change_files input = (case json_prop input ''changes'' of Some (J_array changes) \<Rightarrow> codexChangeFiles changes | _ \<Rightarrow> [])"

definition landed_edit_files ::
  "(string \<Rightarrow> json option) \<Rightarrow> (string \<Rightarrow> string \<times> bool) \<Rightarrow> string \<Rightarrow> json \<Rightarrow> tool_result option \<Rightarrow> edit_file list option" where
  "landed_edit_files parse strip name rawInput result =
     (let input = json_record (Some rawInput);
          envelope = envelope_files parse name rawInput;
          changes = change_files input;
          output = (case result of None \<Rightarrow> None | Some r \<Rightarrow> tr_output r) in
      if envelope \<noteq> [] then Some envelope
      else if changes \<noteq> [] then Some changes
      else if input \<noteq> None \<and> name \<in> set claude_edit_tools then claudeEditFiles name (the input) output
      else if name \<notin> set patch_text_tools then None
      else let patchText = orElse (either_text input ''patch'' ''diff'') (if name = ''Diff'' then output else None) in
        if \<not> truthy patchText then None
        else editFilesFromPatchText strip (the patchText) (either_text input ''path'' ''file_path''))"

definition editFilesFromToolPair ::
  "(string \<Rightarrow> json option) \<Rightarrow> (string \<Rightarrow> string \<times> bool) \<Rightarrow> string \<Rightarrow> json \<Rightarrow> call_state option \<Rightarrow>
     tool_result option \<Rightarrow> edit_file list option" where
  "editFilesFromToolPair parse strip name rawInput state result =
     (if state = Some Call_failed \<or> state = Some Call_running
           \<or> (case result of None \<Rightarrow> False | Some r \<Rightarrow> tr_isError r) then None
      else if state \<noteq> Some Call_completed \<and> result = None then None
      else case (case result of None \<Rightarrow> None | Some r \<Rightarrow> tr_editPatch r) of
        Some patch \<Rightarrow>
          if ep_hunks patch \<noteq> [] then
            Some [finalizeEditFile
              (case orElse (ep_filePath patch) (json_text (json_prop (json_record (Some rawInput)) ''file_path'')) of
                 None \<Rightarrow> ''file'' | Some p \<Rightarrow> p) None Change_edited (linesFromEditPatch patch) True False]
          else landed_edit_files parse strip name rawInput result
      | None \<Rightarrow> landed_edit_files parse strip name rawInput result)"

end
