(* ===== verification/Edit_Rows.thy ===== *)
theory Edit_Rows
  imports Edit_Cards
begin

text \<open>
  What the producers of rows guarantee: gap rows stand only between rows, every row carries the numbers of its
  kind or none does, and rows built and rows counted by the scan of a patch agree.
\<close>

section \<open>Cards that are well formed\<close>

fun gaps_apart :: "bool \<Rightarrow> edit_line list \<Rightarrow> bool" where
  "gaps_apart after_gap [] = True"
| "gaps_apart after_gap (l # ls) =
     ((nl_kind l = Kind_gap \<longrightarrow> \<not> after_gap) \<and> gaps_apart (nl_kind l = Kind_gap) ls)"

definition ends_in_gap :: "bool \<Rightarrow> edit_line list \<Rightarrow> bool" where
  "ends_in_gap b ls = (if ls = [] then b else nl_kind (last ls) = Kind_gap)"

definition row_numbered :: "edit_line \<Rightarrow> bool" where
  "row_numbered l =
     (case nl_kind l of
        Kind_context \<Rightarrow> nl_oldLineNumber l \<noteq> None \<and> nl_newLineNumber l \<noteq> None
      | Kind_add \<Rightarrow> nl_oldLineNumber l = None \<and> nl_newLineNumber l \<noteq> None
      | Kind_del \<Rightarrow> nl_oldLineNumber l \<noteq> None \<and> nl_newLineNumber l = None
      | Kind_gap \<Rightarrow> nl_oldLineNumber l = None \<and> nl_newLineNumber l = None)"

definition row_bare :: "edit_line \<Rightarrow> bool" where
  "row_bare l \<longleftrightarrow> nl_oldLineNumber l = None \<and> nl_newLineNumber l = None"

definition card_ok :: "edit_file \<Rightarrow> bool" where
  "card_ok f \<longleftrightarrow>
     length (ef_lines f) \<le> max_edit_lines \<and>
     gaps_apart True (ef_lines f) \<and> \<not> ends_in_gap False (ef_lines f) \<and>
     list_all (if ef_lineNumbersKnown f then row_numbered else row_bare) (ef_lines f) \<and>
     ef_added f = count_where (\<lambda>l. nl_kind l = Kind_add) (ef_lines f) \<and>
     ef_removed f = count_where (\<lambda>l. nl_kind l = Kind_del) (ef_lines f)"

definition rows_ok :: "bool \<Rightarrow> edit_line list \<Rightarrow> bool" where
  "rows_ok known ls \<longleftrightarrow> gaps_apart True ls \<and> (known \<longrightarrow> list_all row_numbered ls)"

lemma ends_in_gap_Cons: "ends_in_gap b (l # ls) = ends_in_gap (nl_kind l = Kind_gap) ls"
  by (simp add: ends_in_gap_def)

lemma gaps_apart_append:
  "gaps_apart b (xs @ ys) \<longleftrightarrow> gaps_apart b xs \<and> gaps_apart (ends_in_gap b xs) ys"
  by (induction xs arbitrary: b) (auto simp: ends_in_gap_def)

lemma gaps_apart_take: "gaps_apart b xs \<Longrightarrow> gaps_apart b (take n xs)"
  by (metis append_take_drop_id gaps_apart_append)

lemma gaps_apart_map: "(\<And>l. nl_kind (f l) = nl_kind l) \<Longrightarrow> gaps_apart b (map f xs) = gaps_apart b xs"
  by (induction xs arbitrary: b) auto

lemma ends_in_gap_map: "(\<And>l. nl_kind (f l) = nl_kind l) \<Longrightarrow> ends_in_gap b (map f xs) = ends_in_gap b xs"
  by (auto simp: ends_in_gap_def last_map)

lemma unnumbered_simps [simp]: "nl_kind (unnumbered l) = nl_kind l" "row_bare (unnumbered l)"
  by (simp_all add: unnumbered_def row_bare_def)

lemma last_shown_ok:
  "n \<le> length xs \<Longrightarrow> last_shown xs n \<le> n \<and> \<not> ends_in_gap False (take (last_shown xs n) xs)"
proof (induction n)
  case (Suc n)
  then have "take (Suc n) xs = take n xs @ [xs ! n]" by (simp add: take_Suc_conv_app_nth)
  with Suc show ?case by (cases "nl_kind (xs ! n) = Kind_gap") (auto simp: ends_in_gap_def)
qed (simp add: ends_in_gap_def)

lemma list_all_take: "list_all P xs \<Longrightarrow> list_all P (take n xs)"
  by (metis append_take_drop_id list_all_append)

lemma finalize_ok:
  assumes "rows_ok known lines"
  shows "card_ok (finalizeEditFile path oldPath kind lines known truncated)"
proof -
  define capped where "capped = (if max_edit_lines < length lines then take max_edit_lines lines else lines)"
  define trimmed where "trimmed = take (last_shown capped (length capped)) capped"
  from last_shown_ok [of "length capped" capped] have l: "length trimmed \<le> length capped"
    and e: "\<not> ends_in_gap False trimmed" by (simp_all add: trimmed_def)
  have c: "length capped \<le> max_edit_lines" by (simp add: capped_def)
  from assms have g: "gaps_apart True trimmed" and n: "known \<longrightarrow> list_all row_numbered trimmed"
    by (simp_all add: rows_ok_def trimmed_def capped_def gaps_apart_take list_all_take)
  have lines: "ef_lines (finalizeEditFile path oldPath kind lines known truncated)
      = (if known then trimmed else map unnumbered trimmed)"
    and rest: "ef_lineNumbersKnown (finalizeEditFile path oldPath kind lines known truncated) = known"
    "ef_added (finalizeEditFile path oldPath kind lines known truncated)
      = count_where (\<lambda>l. nl_kind l = Kind_add) (if known then trimmed else map unnumbered trimmed)"
    "ef_removed (finalizeEditFile path oldPath kind lines known truncated)
      = count_where (\<lambda>l. nl_kind l = Kind_del) (if known then trimmed else map unnumbered trimmed)"
    by (simp_all add: finalizeEditFile_def Let_def trimmed_def capped_def)
  show ?thesis
    unfolding card_ok_def lines rest using l c e g n
    by (cases known) (simp_all add: gaps_apart_map ends_in_gap_map list_all_length)
qed

section \<open>Diffs\<close>

fun consecutive :: "nat \<Rightarrow> nat \<Rightarrow> edit_line list \<Rightarrow> bool" where
  "consecutive oldNo newNo [] = True"
| "consecutive oldNo newNo (l # ls) =
     (case nl_kind l of
        Kind_context \<Rightarrow> l = edit_context (nl_text l) oldNo newNo \<and> consecutive (Suc oldNo) (Suc newNo) ls
      | Kind_add \<Rightarrow> l = edit_addition (nl_text l) newNo \<and> consecutive oldNo (Suc newNo) ls
      | Kind_del \<Rightarrow> l = edit_removal (nl_text l) oldNo \<and> consecutive (Suc oldNo) newNo ls
      | Kind_gap \<Rightarrow> False)"

lemma edit_kinds [simp]:
  "nl_kind (edit_context t a b) = Kind_context" "nl_text (edit_context t a b) = t"
  "nl_kind (edit_addition t b) = Kind_add" "nl_text (edit_addition t b) = t"
  "nl_kind (edit_removal t a) = Kind_del" "nl_text (edit_removal t a) = t"
  by (simp_all add: edit_context_def edit_addition_def edit_removal_def)

lemma edit_numbered [simp]:
  "row_numbered (edit_context t a b)" "row_numbered (edit_addition t b)" "row_numbered (edit_removal t a)"
  by (simp_all add: edit_context_def edit_addition_def edit_removal_def row_numbered_def)

lemma consecutive_rows: "consecutive a b ls \<Longrightarrow> gaps_apart g ls \<and> list_all row_numbered ls \<and> \<not> ends_in_gap False ls"
proof (induction ls arbitrary: a b g)
  case (Cons l ls)
  have n: "l = edit_context t i j \<or> l = edit_addition t j \<or> l = edit_removal t i \<Longrightarrow> row_numbered l" for t i j
    by auto
  from Cons show ?case
    by (cases "nl_kind l") (auto simp: ends_in_gap_Cons intro: n)
qed (simp add: ends_in_gap_def)

lemma consecutive_append:
  "consecutive a b (xs @ ys) \<longleftrightarrow>
     consecutive a b xs \<and> consecutive (a + length (old_side xs)) (b + length (new_side xs)) ys"
proof (induction xs arbitrary: a b)
  case (Cons l xs)
  then show ?case by (cases "nl_kind l") (auto simp: old_side_def new_side_def)
qed simp

lemma consecutive_removals: "consecutive (a + 1) b (map (\<lambda>i. edit_removal (f i) (i + 1)) [a..<n])"
proof (induction "n - a" arbitrary: a)
  case (Suc k)
  then have "[a..<n] = a # [Suc a..<n]" by (simp add: upt_conv_Cons)
  with Suc show ?case using Suc(1) [of "Suc a"] by simp
qed simp

lemma consecutive_additions: "consecutive a (b + 1) (map (\<lambda>i. edit_addition (f i) (i + 1)) [b..<n])"
proof (induction "n - b" arbitrary: b)
  case (Suc k)
  then have "[b..<n] = b # [Suc b..<n]" by (simp add: upt_conv_Cons)
  with Suc show ?case using Suc(1) [of "Suc b"] by simp
qed simp

lemma consecutive_contexts:
  "consecutive (a + 1) (c + 1) (map (\<lambda>i. edit_context (f i) (i + 1) (c + (i - a) + 1)) [a..<n])"
proof (induction "n - a" arbitrary: a c)
  case (Suc k)
  then have s: "[a..<n] = a # [Suc a..<n]" by (simp add: upt_conv_Cons)
  have e: "map (\<lambda>i. edit_context (f i) (i + 1) (c + (i - a) + 1)) [Suc a..<n]
      = map (\<lambda>i. edit_context (f i) (i + 1) (Suc c + (i - Suc a) + 1)) [Suc a..<n]"
  proof (rule map_cong [OF refl])
    fix x assume "x \<in> set [Suc a..<n]"
    then have "c + (x - a) = Suc c + (x - Suc a)" by auto
    then show "edit_context (f x) (x + 1) (c + (x - a) + 1) = edit_context (f x) (x + 1) (Suc c + (x - Suc a) + 1)"
      by simp
  qed
  show ?case unfolding s using Suc(1) [of "Suc a" "Suc c"] Suc(2) unfolding e [symmetric]
    by simp
qed simp

lemma lcs_walk_consecutive: "consecutive (i + 1) (j + 1) (lcs_walk xs ys dp i j)"
proof (induction xs ys dp i j rule: lcs_walk.induct)
  case (1 xs ys dp i j)
  show ?case
  proof (cases "i < length xs \<and> j < length ys")
    case True
    with 1 show ?thesis by (simp add: lcs_walk_step)
  next
    case False
    then show ?thesis
      using consecutive_removals [of i "j + 1" "(!) xs" "length xs"]
        consecutive_additions [of "i + 1 + (length xs - i)" j "(!) ys" "length ys"]
      by (simp add: lcs_walk_stop consecutive_append)
  qed
qed

lemma prefixSuffixLines_consecutive: "consecutive 1 1 (prefixSuffixLines xs ys)"
proof -
  define p where "p = common_prefix xs ys 0"
  define s where "s = common_suffix xs ys p 0"
  from common_prefix_ok [of 0 xs ys] have p: "p \<le> length xs" "p \<le> length ys" by (simp_all add: p_def)
  from common_suffix_ok [of 0 p xs ys] p have s: "s + p \<le> length xs" "s + p \<le> length ys"
    by (simp_all add: s_def)
  have eq: "prefixSuffixLines xs ys =
      map (\<lambda>i. edit_context (xs ! i) (i + 1) (0 + (i - 0) + 1)) [0..<p]
      @ map (\<lambda>i. edit_removal (xs ! i) (i + 1)) [p..<length xs - s]
      @ map (\<lambda>i. edit_addition (ys ! i) (i + 1)) [p..<length ys - s]
      @ map (\<lambda>i. edit_context (xs ! i) (i + 1) (length ys - s + (i - (length xs - s)) + 1)) [length xs - s..<length xs]"
    by (simp add: prefixSuffixLines_def Let_def p_def [symmetric] s_def [symmetric])
  show ?thesis
    unfolding eq consecutive_append side_contexts side_removals side_additions length_map
    using consecutive_contexts [of 0 0 "(!) xs" p]
      consecutive_removals [of p "p + 1" "(!) xs" "length xs - s"]
      consecutive_additions [of "length xs - s + 1" p "(!) ys" "length ys - s"]
      consecutive_contexts [of "length xs - s" "length ys - s" "(!) xs" "length xs"] s
    by simp
qed

lemma editLines_consecutive: "consecutive 1 1 (fst (editLinesFromContents a b))"
  using lcs_walk_consecutive [of 0 0] prefixSuffixLines_consecutive
  by (simp add: editLinesFromContents_def lcsLines_def split_beta Let_def)

section \<open>The scan of a patch\<close>

text \<open>
  Two visitors whose states stay related are driven through the same scan; a property of scan and state that
  the two steps keep holds at the end.
\<close>

lemma visit_hunk_rel:
  assumes "\<And>k t a b s s'. R s s' \<Longrightarrow> R (v k t a b s) (v' k t a b s')" and "R s s'"
  shows "fst (visit_hunk v raw (st, s)) = fst (visit_hunk v' raw (st, s')) \<and>
    R (snd (visit_hunk v raw (st, s))) (snd (visit_hunk v' raw (st, s')))"
  using assms by (simp add: visit_hunk_def Let_def)

lemma visit_row_rel:
  assumes "\<And>k t a b s s'. R s s' \<Longrightarrow> R (v k t a b s) (v' k t a b s')" and "R s s'"
  shows "fst (visit_row v raw (st, s)) = fst (visit_row v' raw (st, s')) \<and>
    R (snd (visit_row v raw (st, s))) (snd (visit_row v' raw (st, s')))"
  using assms by (simp add: visit_row_def Let_def)

declare visit_rows.simps(2) [simp del]

lemma visit_rows_rel:
  assumes "\<And>k t a b s s'. R s s' \<Longrightarrow> R (v k t a b s) (v' k t a b s')" and "R s s'"
  shows "fst (visit_rows v rows (st, s)) = fst (visit_rows v' rows (st, s')) \<and>
    R (snd (visit_rows v rows (st, s))) (snd (visit_rows v' rows (st, s')))"
  using assms(2)
proof (induction rows arbitrary: st s s' rule: length_induct)
  case (1 rows)
  show ?case
  proof (cases rows)
    case Nil
    with 1(2) show ?thesis by simp
  next
    case (Cons raw rest)
    have IH: "fst (visit_rows v rs (t, u)) = fst (visit_rows v' rs (t, u')) \<and>
        R (snd (visit_rows v rs (t, u))) (snd (visit_rows v' rs (t, u')))"
      if "length rs \<le> length rest" "R u u'" for rs t u u'
      using 1(1) that Cons by (simp add: le_imp_less_Suc)
    from visit_hunk_rel [where R = R and v = v and v' = v', OF assms(1) 1(2), of raw st]
    obtain t u u' where h: "visit_hunk v raw (st, s) = (t, u)" "visit_hunk v' raw (st, s') = (t, u')" "R u u'"
      by (metis prod.collapse)
    from visit_row_rel [where R = R and v = v and v' = v', OF assms(1) 1(2), of raw st]
    obtain q w w' where r: "visit_row v raw (st, s) = (q, w)" "visit_row v' raw (st, s') = (q, w')" "R w w'"
      by (metis prod.collapse)
    show ?thesis
      unfolding Cons using IH h r 1(2) by (simp add: visit_rows.simps(2))
  qed
qed

lemma visit_rows_inv:
  assumes "\<And>raw c. P c \<Longrightarrow> P (visit_hunk v raw c)" and "\<And>raw c. P c \<Longrightarrow> P (visit_row v raw c)"
    and "\<And>b c. P c \<Longrightarrow> P (apfst (ps_inHunk_update (\<lambda>_. b)) c)" and "P c"
  shows "P (visit_rows v rows c)"
  using assms(4)
proof (induction rows arbitrary: c rule: length_induct)
  case (1 rows)
  show ?case
  proof (cases rows)
    case (Cons raw rest)
    have IH: "P (visit_rows v rs c)" if "length rs \<le> length rest" "P c" for rs c
      using 1(1) that Cons by (cases c) (simp add: le_imp_less_Suc)
    show ?thesis unfolding Cons using IH assms(1-3) 1(2) by (simp add: visit_rows.simps(2))
  qed (simp add: 1(2))
qed

definition scan_ok :: "patch_scan \<times> edit_line list \<Rightarrow> bool" where
  "scan_ok c \<longleftrightarrow> (case c of (st, lines) \<Rightarrow>
     ps_rowCount st = length lines \<and> ps_lastWasGap st = ends_in_gap False lines \<and>
     (ps_oldNo st = None \<longleftrightarrow> ps_newNo st = None) \<and> rows_ok (ps_ranged st) lines)"

lemma rows_ok_append:
  "rows_ok k (xs @ ys) \<longleftrightarrow> rows_ok k xs \<and> gaps_apart (ends_in_gap True xs) ys \<and> (k \<longrightarrow> list_all row_numbered ys)"
  by (auto simp: rows_ok_def gaps_apart_append)

lemma scan_ok_steps:
  "scan_ok c \<Longrightarrow> scan_ok (visit_hunk push_row raw c)"
  "scan_ok c \<Longrightarrow> scan_ok (visit_row push_row raw c)"
  "scan_ok c \<Longrightarrow> scan_ok (apfst (ps_inHunk_update (\<lambda>_. b)) c)"
proof -
  obtain st lines where c: "c = (st, lines)" by (cases c)
  show "scan_ok c \<Longrightarrow> scan_ok (visit_hunk push_row raw c)"
    unfolding c by (auto simp: scan_ok_def visit_hunk_def Let_def push_row_def rows_ok_append ends_in_gap_def
      row_numbered_def split: if_splits)
  show "scan_ok c \<Longrightarrow> scan_ok (visit_row push_row raw c)"
    unfolding c by (auto simp: scan_ok_def visit_row_def Let_def push_row_def rows_ok_append ends_in_gap_def
      row_numbered_def) (auto simp: rows_ok_def)
  show "scan_ok c \<Longrightarrow> scan_ok (apfst (ps_inHunk_update (\<lambda>_. b)) c)"
    unfolding c by (simp add: scan_ok_def)
qed

lemma unified_rows_ok:
  assumes "editLinesFromUnifiedPatch text b = Some (lines, known, truncated)"
  shows "rows_ok known lines"
proof -
  define c where "c = visit_rows push_row (fst (splitEditContent text)) (scan_start b, [])"
  have "scan_ok (scan_start b, [])" by (simp add: scan_ok_def scan_start_def ends_in_gap_def rows_ok_def)
  then have "scan_ok c" unfolding c_def by (intro visit_rows_inv [where P = scan_ok] scan_ok_steps)
  with assms show ?thesis
    by (auto simp: editLinesFromUnifiedPatch_def visitUnifiedPatch_def c_def [symmetric] scan_ok_def
      split_beta Let_def split: if_splits)
qed

subsection \<open>Counting agrees with building\<close>

definition counted :: "edit_line list \<Rightarrow> row_counts \<Rightarrow> bool" where
  "counted lines c \<longleftrightarrow> rc_rowCount c = length lines \<and>
     rc_added c = count_where (\<lambda>l. nl_kind l = Kind_add) (take max_edit_lines lines) \<and>
     rc_removed c = count_where (\<lambda>l. nl_kind l = Kind_del) (take max_edit_lines lines)"

lemma counted_push: "counted lines c \<Longrightarrow> counted (push_row k t a b lines) (count_row k t a b c)"
  by (auto simp: counted_def push_row_def count_row_def Let_def count_where_def)

lemma count_last_shown:
  "k \<noteq> Kind_gap \<Longrightarrow> n \<le> length xs \<Longrightarrow>
     count_where (\<lambda>l. nl_kind l = k) (take (last_shown xs n) xs) = count_where (\<lambda>l. nl_kind l = k) (take n xs)"
proof (induction n)
  case (Suc n)
  then have "take (Suc n) xs = take n xs @ [xs ! n]" by (simp add: take_Suc_conv_app_nth)
  with Suc show ?case by (cases "nl_kind (xs ! n) = Kind_gap") (auto simp: count_where_def)
qed simp

lemma count_where_map_same: "(\<And>x. P (f x) = P x) \<Longrightarrow> count_where P (map f xs) = count_where P xs"
  by (simp add: count_where_def filter_map o_def)

lemma finalize_counts:
  "ef_added (finalizeEditFile path oldPath kind lines known truncated)
     = count_where (\<lambda>l. nl_kind l = Kind_add) (take max_edit_lines lines)"
  "ef_removed (finalizeEditFile path oldPath kind lines known truncated)
     = count_where (\<lambda>l. nl_kind l = Kind_del) (take max_edit_lines lines)"
  by (simp_all add: finalizeEditFile_def Let_def count_where_map_same count_last_shown)

lemma finalize_fields [simp]:
  "ef_path (finalizeEditFile path oldPath kind lines known truncated) = path"
  "ef_oldPath (finalizeEditFile path oldPath kind lines known truncated) = oldPath"
  "ef_changeKind (finalizeEditFile path oldPath kind lines known truncated) = kind"
  "ef_truncated (finalizeEditFile path oldPath kind lines known truncated)
     \<longleftrightarrow> max_edit_lines < length lines \<or> truncated"
  by (simp_all add: finalizeEditFile_def Let_def)

lemma summary_of_patch:
  "summarizeUnifiedPatch text =
     map_option (\<lambda>(lines, known, truncated).
       (count_where (\<lambda>l. nl_kind l = Kind_add) (take max_edit_lines lines),
        count_where (\<lambda>l. nl_kind l = Kind_del) (take max_edit_lines lines),
        truncated \<or> max_edit_lines < length lines)) (editLinesFromUnifiedPatch text False)"
proof -
  let ?rows = "fst (splitEditContent text)"
  let ?c0 = "\<lparr>rc_added = 0, rc_removed = 0, rc_rowCount = 0\<rparr>"
  have "counted [] ?c0" by (simp add: counted_def count_where_def)
  from visit_rows_rel [where R = counted and rows = ?rows and st = "scan_start False", OF counted_push this]
  have "fst (visit_rows push_row ?rows (scan_start False, [])) = fst (visit_rows count_row ?rows (scan_start False, ?c0))"
    "counted (snd (visit_rows push_row ?rows (scan_start False, []))) (snd (visit_rows count_row ?rows (scan_start False, ?c0)))"
    by simp_all
  then show ?thesis
    by (simp add: summarizeUnifiedPatch_def editLinesFromUnifiedPatch_def visitUnifiedPatch_def split_beta Let_def
      counted_def)
qed

end
