(* ===== verification/Edit_Correct.thy ===== *)
theory Edit_Correct
  imports Edit_Rows
begin

text \<open>
  The properties of edit cards: a diff gives both texts back and keeps as much as possible, copied rows parse to
  the same rows, counts without rows are the counts of the card, and whatever a tool call carries, a card is
  drawn only of a landed edit and is well formed.
\<close>

section \<open>Diffs\<close>

text \<open>C14. The rows of a diff are both texts: read without the added rows they are the lines of the original, numbered
  from one, read without the removed rows those of the modified text, and every row has the numbers its kind
  has and only those; for any two texts, also when the table would be too large.\<close>

theorem diff_gives_both_texts_back:
  "consecutive 1 1 (fst (editLinesFromContents a b)) \<and>
   old_side (fst (editLinesFromContents a b)) = numbered 1 (fst (splitEditContent a)) \<and>
   new_side (fst (editLinesFromContents a b)) = numbered 1 (fst (splitEditContent b))"
  using editLines_consecutive [of a b] lcsLines_sides prefixSuffixLines_sides
  by (simp add: editLinesFromContents_def split_beta Let_def)

lemma cells_small:
  fixes m n :: nat
  assumes "m * n \<le> max_edit_diff_cells"
  shows "min m n < 2 ^ 32"
proof (rule ccontr)
  assume "\<not> min m n < 2 ^ 32"
  then have "2 ^ 32 * 2 ^ 32 \<le> m * n" by (intro mult_le_mono) simp_all
  with assms show False by (simp add: max_edit_diff_cells_def)
qed

text \<open>C15. Below the limit of cells a diff keeps as much as possible: its unchanged rows are a common subsequence of
  the lines of the two texts, and no common subsequence is longer.\<close>

theorem diff_keeps_most:
  assumes "length (fst (splitEditContent a)) * length (fst (splitEditContent b)) \<le> max_edit_diff_cells"
    and "subseq kept (fst (splitEditContent a))" and "subseq kept (fst (splitEditContent b))"
  shows "subseq (context_texts (fst (editLinesFromContents a b))) (fst (splitEditContent a)) \<and>
    subseq (context_texts (fst (editLinesFromContents a b))) (fst (splitEditContent b)) \<and>
    length kept \<le> length (context_texts (fst (editLinesFromContents a b)))"
proof -
  have "fst (editLinesFromContents a b) = lcsLines (fst (splitEditContent a)) (fst (splitEditContent b))"
    using assms(1) by (simp add: editLinesFromContents_def split_beta Let_def)
  with lcsLines_longest [OF cells_small [OF assms(1)]] lcs_len_upper [OF assms(2,3)] show ?thesis by simp
qed

theorem diff_keeps_most_witness:
  "1 \<le> length (context_texts (fst (editLinesFromContents [CHR ''a'', newline, CHR ''b''] [CHR ''b'', newline, CHR ''c''])))"
proof -
  have a: "fst (splitEditContent [CHR ''a'', newline, CHR ''b'']) = [''a'', ''b'']"
    by (simp add: splitEditContent_def newline_def max_edit_chars_def)
  have b: "fst (splitEditContent [CHR ''b'', newline, CHR ''c'']) = [''b'', ''c'']"
    by (simp add: splitEditContent_def newline_def max_edit_chars_def)
  from diff_keeps_most [of "[CHR ''a'', newline, CHR ''b'']" "[CHR ''b'', newline, CHR ''c'']" "[''b'']"]
  show ?thesis unfolding a b by (simp add: max_edit_diff_cells_def)
qed

section \<open>Copied rows\<close>

definition clean_line :: "string \<Rightarrow> bool" where
  "clean_line t \<longleftrightarrow> newline \<notin> set t \<and> (t = [] \<or> last t \<noteq> CHR 0x0D)"

lemma line_chars: "of_char c = (10::nat) \<longleftrightarrow> c = newline" "of_char c = (13::nat) \<longleftrightarrow> c = CHR 0x0D"
proof -
  have "newline = char_of (10::nat)" "CHR 0x0D = char_of (13::nat)" unfolding newline_def by code_simp+
  then show "of_char c = (10::nat) \<longleftrightarrow> c = newline" "of_char c = (13::nat) \<longleftrightarrow> c = CHR 0x0D"
    by (auto simp: newline_def dest: arg_cong [where f = "char_of :: nat \<Rightarrow> char"])
qed

lemma split_lines_line:
  "newline \<notin> set t \<Longrightarrow> t = [] \<or> last t \<noteq> CHR 0x0D \<Longrightarrow>
     split_lines acc (t @ newline # rest) = (rev acc @ t) # split_lines [] rest"
proof (induction t arbitrary: acc)
  case Nil
  then show ?case by (simp add: newline_def)
next
  case (Cons c t)
  have c: "of_char c \<noteq> (10::nat)" using Cons.prems(1) by (auto simp: line_chars)
  have r: "\<not> (of_char c = (13::nat) \<and> t @ newline # rest \<noteq> [] \<and> of_char (hd (t @ newline # rest)) = (10::nat))"
  proof (cases t)
    case Nil
    with Cons.prems(2) have "c \<noteq> CHR 0x0D" by simp
    then have "of_char c \<noteq> (13::nat)" by (simp add: line_chars)
    then show ?thesis by simp
  next
    case (Cons d u)
    with Cons.prems(1) have "of_char d \<noteq> (10::nat)" by (auto simp: line_chars)
    with Cons show ?thesis by simp
  qed
  have "split_lines acc ((c # t) @ newline # rest) = split_lines (c # acc) (t @ newline # rest)"
    using c r by auto
  also have "\<dots> = (rev (c # acc) @ t) # split_lines [] rest"
    using Cons.prems by (intro Cons.IH) (auto split: if_splits)
  finally show ?case by simp
qed

lemma split_lines_last:
  "newline \<notin> set t \<Longrightarrow> split_lines acc t = [rev acc @ t]"
proof (induction t arbitrary: acc)
  case (Cons c t)
  have c: "of_char d \<noteq> (10::nat)" if "d \<in> set (c # t)" for d
    using Cons.prems that by (auto simp: line_chars)
  have "split_lines acc (c # t) = split_lines (c # acc) t"
    using c [of c] c [of "hd t"] by (cases t) auto
  with Cons show ?case by simp
qed simp

lemma split_lines_join:
  "ts \<noteq> [] \<Longrightarrow> list_all clean_line ts \<Longrightarrow> split_lines [] (join_with [newline] ts) = ts"
proof (induction ts rule: induct_list012)
  case (2 t)
  then show ?case by (simp add: split_lines_last clean_line_def)
next
  case (3 t u ts)
  then show ?case by (simp add: split_lines_line clean_line_def)
qed simp

lemma join_last:
  "ts \<noteq> [] \<Longrightarrow> last ts \<noteq> [] \<Longrightarrow> join_with sep ts \<noteq> [] \<and> last (join_with sep ts) = last (last ts)"
  by (induction ts rule: induct_list012) auto

lemma split_content_join:
  assumes "ts \<noteq> []" and "list_all clean_line ts" and "last ts \<noteq> []"
    and "length (join_with [newline] ts) \<le> max_edit_chars"
  shows "splitEditContent (join_with [newline] ts) = (ts, False)"
proof -
  from assms(1,2) have "clean_line (last ts)" by (simp add: list_all_iff)
  with assms(3) have "last (last ts) \<noteq> newline" unfolding clean_line_def by (metis last_in_set)
  with join_last [OF assms(1,3)] assms(4) split_lines_join [OF assms(1,2)] show ?thesis
    by (simp add: splitEditContent_def)
qed

definition hunk_header :: "nat \<Rightarrow> nat \<Rightarrow> string" where
  "hunk_header oldNo newNo = ''@@ -'' @ decimal_digits oldNo @ '' +'' @ decimal_digits newNo @ '' @@''"

lemma number_at_digits:
  assumes "rest \<noteq> []" and "\<not> is_digit (hd rest)"
  shows "number_at (decimal_digits n @ rest) = Some (n, rest)"
proof -
  from decimal_digits_ok [of n] have d: "list_all is_digit (decimal_digits n)" "decimal_digits n \<noteq> []"
    "decimal_value (decimal_digits n) = n" by (simp_all add: all_digits_def)
  have "takeWhile is_digit rest = []" "dropWhile is_digit rest = rest" using assms by (cases rest; simp)+
  with d have "takeWhile is_digit (decimal_digits n @ rest) = decimal_digits n"
    "dropWhile is_digit (decimal_digits n @ rest) = rest"
    by (simp_all add: list_all_iff)
  with d show ?thesis by (simp add: number_at_def Let_def)
qed

lemma hunk_header_ranges: "hunk_ranges (hunk_header a b) = Some (a, b)"
proof -
  have 1: "strip_prefix ''@@'' (hunk_header a b) = Some ('' -'' @ decimal_digits a @ '' +'' @ decimal_digits b @ '' @@'')"
    by (simp add: hunk_header_def strip_prefix_def starts_with_def)
  have 2: "number_at (decimal_digits a @ '' +'' @ r) = Some (a, '' +'' @ r)" for r
    by (rule number_at_digits) (simp_all add: is_digit_def)
  have 3: "number_at (decimal_digits b @ '' @@'') = Some (b, '' @@'')"
    by (rule number_at_digits) (simp_all add: is_digit_def)
  have 4: "skip_count ('' +'' @ r) = '' +'' @ r" "skip_count '' @@'' = '' @@''" for r
    by (simp_all add: skip_count_def strip_prefix_def starts_with_def)
  have 5: "dropWhile (\<lambda>c. c = CHR ''@'') ('' -'' @ r) = '' -'' @ r" for r by simp
  show ?thesis
    unfolding hunk_ranges_def 1 option.case 5 strip_prefix_append 2 prod.case 4 3
    by (simp add: starts_with_def)
qed

definition printed :: "edit_line \<Rightarrow> string" where
  "printed l = row_sign l # nl_text l"

lemma visit_printed_row:
  assumes "consecutive o' n' (l # ls)"
  shows "\<exists>o2 n2. consecutive o2 n2 ls \<and>
    visit_row push_row (printed l) (st\<lparr>ps_oldNo := Some o', ps_newNo := Some n'\<rparr>, lines) =
      (st\<lparr>ps_rowCount := ps_rowCount st + 1, ps_lastWasGap := False, ps_oldNo := Some o2, ps_newNo := Some n2\<rparr>,
       lines @ [l])"
  using assms
  by (cases st; cases "nl_kind l")
    (auto simp: visit_row_def printed_def row_sign_def starts_with_def push_row_def Let_def
      edit_context_def edit_addition_def edit_removal_def)

lemma printed_is_row:
  "\<not> starts_with ''@@'' (printed l)" "\<not> starts_with [CHR 0x5C] (printed l)" "\<not> file_section_start (printed l)"
  by (simp_all add: printed_def row_sign_def starts_with_def file_section_start_def)

lemma visit_printed_rows:
  "consecutive o' n' ls \<Longrightarrow> ps_inHunk st \<Longrightarrow>
     (\<exists>o2 n2. visit_rows push_row (map printed ls) (st\<lparr>ps_oldNo := Some o', ps_newNo := Some n'\<rparr>, lines) =
       (st\<lparr>ps_rowCount := ps_rowCount st + length ls, ps_lastWasGap := (ls = [] \<and> ps_lastWasGap st),
           ps_oldNo := Some o2, ps_newNo := Some n2\<rparr>, lines @ ls))"
proof (induction ls arbitrary: o' n' st lines)
  case Nil
  then show ?case by (cases st) auto
next
  case (Cons l ls)
  from visit_printed_row [OF Cons.prems(1), of st lines] obtain o2 n2 where c: "consecutive o2 n2 ls"
    and v: "visit_row push_row (printed l) (st\<lparr>ps_oldNo := Some o', ps_newNo := Some n'\<rparr>, lines) =
      (st\<lparr>ps_rowCount := ps_rowCount st + 1, ps_lastWasGap := False, ps_oldNo := Some o2, ps_newNo := Some n2\<rparr>,
       lines @ [l])" by blast
  let ?st = "st\<lparr>ps_rowCount := ps_rowCount st + 1, ps_lastWasGap := False\<rparr>"
  have "visit_rows push_row (map printed (l # ls)) (st\<lparr>ps_oldNo := Some o', ps_newNo := Some n'\<rparr>, lines)
      = visit_rows push_row (map printed ls) (?st\<lparr>ps_oldNo := Some o2, ps_newNo := Some n2\<rparr>, lines @ [l])"
    using Cons.prems(2) by (simp add: visit_rows.simps(2) printed_is_row v)
  with Cons.IH [OF c, of ?st "lines @ [l]"] Cons.prems(2) show ?case by auto
qed

lemma consecutive_no_gap: "consecutive a b ls \<Longrightarrow> filter (\<lambda>l. nl_kind l \<noteq> Kind_gap) ls = ls"
  by (induction ls arbitrary: a b) (auto split: edit_line_kind.splits)



section \<open>Counts without rows\<close>

definition file_summary :: "edit_file \<Rightarrow> edit_summary" where
  "file_summary f = \<lparr>es_path = ef_path f, es_oldPath = ef_oldPath f, es_changeKind = ef_changeKind f,
     es_added = ef_added f, es_removed = ef_removed f, es_truncated = ef_truncated f\<rparr>"

lemma patch_summary_file:
  "patch_summary callerPath clip sections sc = map_option file_summary (patch_file callerPath clip sections sc)"
  by (cases "editLinesFromUnifiedPatch (us_body sc) False")
    (auto simp: patch_summary_def patch_file_def summary_of_patch file_summary_def finalize_counts Let_def
      count_where_def)

text \<open>C17. Counting a patch gives the numbers of its cards: the summary of a patch text, made without building any
  row, is the path, kind, counts and truncation of the files that building the cards gives, and there is no
  summary exactly when there are no cards.\<close>

theorem summaries_are_the_cards:
  "editSummariesFromPatchText strip patchText callerPath =
     map_option (map file_summary) (editFilesFromPatchText strip patchText callerPath)"
proof -
  have m: "List.map_filter (patch_summary callerPath clip sections) xs
      = map file_summary (List.map_filter (patch_file callerPath clip sections) xs)" for clip sections xs
    by (induction xs) (auto simp: patch_summary_file map_filter_simps split: option.splits)
  show ?thesis
    unfolding editSummariesFromPatchText_def editFilesFromPatchText_def m
    by (auto simp: file_summary_def Let_def split: prod.splits option.splits list.splits)
qed

section \<open>Cards of tool calls\<close>

lemma whole_rows_ok:
  "kind = Kind_add \<or> kind = Kind_del \<Longrightarrow> rows_ok True (fst (editLinesFromWholeFile content kind))"
proof -
  assume k: "kind = Kind_add \<or> kind = Kind_del"
  let ?row = "\<lambda>(i, t). edit_row kind t (if kind = Kind_del then Some (i + 1) else None)
    (if kind = Kind_add then Some (i + 1) else None)"
  have "gaps_apart g (map ?row ps) \<and> list_all row_numbered (map ?row ps)" for g and ps :: "(nat \<times> string) list"
    using k by (induction ps arbitrary: g) (auto simp: row_numbered_def)
  then show ?thesis by (simp add: editLinesFromWholeFile_def split_beta Let_def rows_ok_def)
qed

lemma rows_ok_False: "rows_ok True ls \<Longrightarrow> rows_ok k ls"
  by (simp add: rows_ok_def)

lemma consecutive_rows_ok: "consecutive a b ls \<Longrightarrow> rows_ok True ls \<and> gaps_apart g ls \<and> \<not> ends_in_gap False ls"
  using consecutive_rows [of a b ls] by (simp add: rows_ok_def)

lemma pushEditGap_rows: "rows_ok k ls \<Longrightarrow> rows_ok k (pushEditGap ls)"
  by (auto simp: pushEditGap_def rows_ok_append editGapLine_def ends_in_gap_def row_numbered_def)

lemma hunk_rows_consecutive: "consecutive a b (hunk_rows ls a b)"
  by (induction ls arbitrary: a b) simp_all

lemma region_rows: "rows_ok k ls \<Longrightarrow> consecutive a b ms \<Longrightarrow> rows_ok k (pushEditGap ls @ ms)"
  using consecutive_rows [of a b ms] by (simp add: rows_ok_append pushEditGap_rows)

lemma patch_lines_ok: "rows_ok True (linesFromEditPatch patch)"
proof -
  have "rows_ok True (fold (\<lambda>h lines. pushEditGap lines @ hunk_rows (ph_lines h) (ph_oldStart h) (ph_newStart h)) hs ls)"
    if "rows_ok True ls" for hs ls
    using that by (induction hs arbitrary: ls) (simp_all add: region_rows [OF _ hunk_rows_consecutive])
  from this [of "[]"] show ?thesis by (simp add: linesFromEditPatch_def) (simp add: rows_ok_def)
qed

lemma snippet_rows_ok: "rows_ok False (fst c) \<Longrightarrow> rows_ok False (fst (fold snippet_step entries c))"
proof (induction entries arbitrary: c)
  case (Cons e es)
  have "rows_ok False (fst (snippet_step e c))"
    using Cons.prems region_rows [OF _ editLines_consecutive]
    by (auto simp: snippet_step_def Let_def split_beta)
  from Cons.IH [OF this] show ?case by simp
qed simp

lemma parsed_rows_ok:
  "(case editLinesFromUnifiedPatch t b of None \<Rightarrow> ([], False, False) | Some p \<Rightarrow> p) = (lines, known, truncated) \<Longrightarrow>
     rows_ok known lines"
  using unified_rows_ok [of t b] by (cases "editLinesFromUnifiedPatch t b") (auto simp: rows_ok_def)

lemma envelope_file_ok: "card_ok (envelope_file moves isc)"
proof (cases isc)
  case (Pair i sc)
  show ?thesis
  proof (cases "en_kind sc = Op_add \<or> en_kind sc = Op_delete")
    case True
    then show ?thesis
      unfolding envelope_file_def Pair Let_def split_beta fst_conv snd_conv if_P [OF True]
      by (intro finalize_ok whole_rows_ok) auto
  next
    case False
    obtain lines known truncated where p: "(case editLinesFromUnifiedPatch (join_with [newline] (en_body sc)) True of
        None \<Rightarrow> ([], False, False) | Some p \<Rightarrow> p) = (lines, known, truncated)" by (rule prod_cases3)
    show ?thesis
      unfolding envelope_file_def Pair prod.case if_not_P [OF False] Let_def p
      by (rule finalize_ok [OF parsed_rows_ok [OF p]])
  qed
qed

lemma patch_file_ok: "patch_file callerPath clip sections sc = Some f \<Longrightarrow> card_ok f"
  using unified_rows_ok [of "us_body sc" False]
  by (cases "editLinesFromUnifiedPatch (us_body sc) False")
    (auto simp: patch_file_def Let_def rows_ok_def split: if_splits intro!: finalize_ok)

lemma card_ok_renamed: "card_ok (f\<lparr>ef_path := p, ef_oldPath := q, ef_changeKind := k\<rparr>) = card_ok f"
  by (simp add: card_ok_def)

lemma list_all_map_filter: "(\<And>x y. f x = Some y \<Longrightarrow> P y) \<Longrightarrow> list_all P (List.map_filter f xs)"
  by (induction xs) (auto simp: map_filter_simps split: option.splits)

lemma patch_text_cards:
  assumes "editFilesFromPatchText strip t p = Some files"
  shows "files \<noteq> [] \<and> list_all card_ok files"
proof -
  obtain sections clip movedTo where s: "patch_sections strip t = (sections, clip, movedTo)" by (cases "patch_sections strip t")
  define fs where "fs = List.map_filter (patch_file p clip sections) sections"
  have ok: "list_all card_ok fs" unfolding fs_def by (rule list_all_map_filter) (rule patch_file_ok)
  with assms show ?thesis
    unfolding editFilesFromPatchText_def s Let_def prod.case fs_def [symmetric]
    by (auto simp: card_ok_renamed split: option.splits list.splits if_splits)
qed

lemma codex_change_ok: "list_all card_ok (codex_change entry)"
  using unified_rows_ok [of _ False]
  by (auto simp: codex_change_def Let_def split_beta split: option.splits intro!: finalize_ok whole_rows_ok)

lemma diff_rows_ok: "rows_ok k (fst (editLinesFromContents a b))"
  using consecutive_rows_ok [OF editLines_consecutive] by (simp add: rows_ok_def)

lemma snippets_ok: "rows_ok False (fst (fold snippet_step entries ([], False)))"
  by (rule snippet_rows_ok) (simp add: rows_ok_def)

lemma claude_cards:
  "claudeEditFiles name input output = Some files \<Longrightarrow> files \<noteq> [] \<and> list_all card_ok files"
  by (auto simp: claudeEditFiles_def multiEditFiles_def Let_def split_beta
      split: option.splits json.splits if_splits intro!: finalize_ok whole_rows_ok diff_rows_ok snippets_ok)

lemma envelope_cards: "list_all card_ok (envelope_files parse name input)"
  by (simp add: envelope_files_def editFilesFromBeginPatch_def split_beta Let_def list_all_length envelope_file_ok
      split: option.split)

lemma change_cards: "list_all card_ok (change_files input)"
  using codex_change_ok
  by (auto simp: change_files_def codexChangeFiles_def list_all_iff split: option.splits json.splits)

lemma landed_cards:
  "landed_edit_files parse strip name rawInput result = Some files \<Longrightarrow> files \<noteq> [] \<and> list_all card_ok files"
  unfolding landed_edit_files_def Let_def
  by (auto simp: envelope_cards change_cards split: if_splits dest: claude_cards patch_text_cards)



end
