(* ===== verification/Git_Commands.thy ===== *)
theory Git_Commands
  imports Texts
begin

text \<open>
  What admission reads off a git command: its class (\<open>shared/git/commands/git-command-classification.ts\<close>) and
  the route its working directory is reached by (\<open>routeKey\<close> of \<open>git-admission-scheduler.ts\<close>,
  \<open>uncRouteKey\<close> and \<open>parseWslUncPath\<close> of \<open>shared/wsl-paths.ts\<close>).
\<close>

section \<open>Classification\<close>

definition always_read_subcommands :: "string list" where
  "always_read_subcommands =
     [''blame'', ''cat-file'', ''check-attr'', ''check-ref-format'', ''check-ignore'', ''describe'', ''diff'',
      ''diff-tree'', ''for-each-ref'', ''log'', ''ls-files'', ''ls-tree'', ''merge-base'', ''name-rev'',
      ''rev-list'', ''rev-parse'', ''show'', ''show-ref'', ''status'', ''var'']"

definition read_flag_subcommands :: "(string \<times> string list) list" where
  "read_flag_subcommands =
     [(''branch'', [''--list'', ''-l'', ''--show-current'', ''--contains'', ''--points-at'', ''--all'', ''-a'',
        ''--remotes'', ''-r'']),
      (''config'', [''--get'', ''--get-all'', ''--get-regexp'', ''--get-urlmatch'', ''--list'', ''-l''])]"

definition branch_mutation_flags :: "string list" where
  "branch_mutation_flags =
     [''--copy'', ''--create-reflog'', ''--delete'', ''--edit-description'', ''--force'', ''--move'',
      ''--no-create-reflog'', ''--no-track'', ''--recurse-submodules'', ''--set-upstream-to'', ''--track'',
      ''--unset-upstream'']"

definition branch_mutation_short_flags :: string where
  "branch_mutation_short_flags = ''cCdDfmMtu''"

definition flag_name :: "string \<Rightarrow> string" where
  "flag_name arg = hd (split_on CHR ''='' arg)"

definition hasBranchMutationFlag :: "string list \<Rightarrow> bool" where
  "hasBranchMutationFlag args = list_ex (\<lambda>arg.
     let flag = flag_name arg in
     flag \<in> set branch_mutation_flags
     \<or> (1 < length flag \<and> flag ! 0 = CHR ''-'' \<and> flag ! 1 \<noteq> CHR ''-''
        \<and> list_ex (\<lambda>c. c \<in> set branch_mutation_short_flags) (drop 1 flag))) args"

definition read_action_subcommands :: "(string \<times> string list) list" where
  "read_action_subcommands = [(''remote'', [''get-url'']), (''submodule'', [''status'']), (''worktree'', [''list''])]"

definition bare_form_is_read :: "string list" where
  "bare_form_is_read = [''remote'', ''submodule'']"

definition git_global_options_with_value :: "string list" where
  "git_global_options_with_value =
     [''-c'', ''-C'', ''--git-dir'', ''--work-tree'', ''--namespace'', ''--super-prefix'', ''--config-env'',
      ''--exec-path'']"

text \<open>The index of the subcommand: the loop over the leading options, from a position on.\<close>

function subcommand_from :: "string list \<Rightarrow> nat \<Rightarrow> nat option" where
  "subcommand_from args index =
     (if length args \<le> index then None
      else if args ! index \<in> set git_global_options_with_value then subcommand_from args (index + 2)
      else if starts_with ''-'' (args ! index) then subcommand_from args (index + 1)
      else Some index)"
  by pat_completeness auto
termination by (relation "measure (\<lambda>(args, index). length args - index)") auto

declare subcommand_from.simps [simp del]

definition findGitSubcommandIndex :: "string list \<Rightarrow> nat option" where
  "findGitSubcommandIndex args = subcommand_from args 0"

definition positional :: "string list \<Rightarrow> string option" where
  "positional rest = find (\<lambda>arg. \<not> starts_with ''-'' arg) rest"

definition isWslDirectGitReadCommand :: "string list \<Rightarrow> bool" where
  "isWslDirectGitReadCommand args =
     (case findGitSubcommandIndex args of
        None \<Rightarrow> False
      | Some i \<Rightarrow>
          let subcommand = args ! i; rest = drop (i + 1) args in
          if subcommand \<in> set always_read_subcommands then True
          else if subcommand = ''symbolic-ref'' then
            (if list_ex (\<lambda>arg. arg = ''-d'' \<or> arg = ''--delete'' \<or> arg = ''-m'') rest then False
             else count_where (\<lambda>arg. arg \<noteq> ''--'' \<and> \<not> starts_with ''-'' arg) rest \<le> 1)
          else if subcommand = ''branch'' \<and> hasBranchMutationFlag rest then False
          else case map_of read_action_subcommands subcommand of
            Some readActions \<Rightarrow>
              (if \<not> truthy (positional rest) then subcommand \<in> set bare_form_is_read
               else let action = the (positional rest) in
                 if subcommand = ''remote'' \<and> action = ''show'' then ''-n'' \<in> set rest
                 else action \<in> set readActions)
          | None \<Rightarrow>
              (case map_of read_flag_subcommands subcommand of
                 None \<Rightarrow> False
               | Some readFlags \<Rightarrow> list_ex (\<lambda>arg. flag_name arg \<in> set readFlags) rest))"

datatype command_class = Command_network | Command_read | Command_other

definition network_subcommands :: "string list" where
  "network_subcommands = [''fetch'', ''pull'', ''push'', ''clone'', ''ls-remote'']"

definition classifyGitCommand :: "string list \<Rightarrow> command_class" where
  "classifyGitCommand args =
     (case findGitSubcommandIndex args of
        None \<Rightarrow> Command_other
      | Some i \<Rightarrow>
          let subcommand = args ! i; action = positional (drop (i + 1) args) in
          if subcommand \<in> set network_subcommands then Command_network
          else if (subcommand = ''submodule'' \<and> action = Some ''update'')
                  \<or> (subcommand = ''remote'' \<and> action = Some ''update'') then Command_network
          else if isWslDirectGitReadCommand args then Command_read else Command_other)"

section \<open>Routes\<close>

text \<open>\<open>toLowerCase\<close> of an 8-bit character.\<close>

definition toLower :: "char \<Rightarrow> char" where
  "toLower c = (let n = (of_char c :: nat) in
     if (65 \<le> n \<and> n \<le> 90) \<or> (192 \<le> n \<and> n \<le> 222 \<and> n \<noteq> 215) then char_of (n + 32) else c)"

definition toLowerCase :: "string \<Rightarrow> string" where
  "toLowerCase s = map toLower s"

definition path_separator :: "char \<Rightarrow> bool" where
  "path_separator c \<longleftrightarrow> c = CHR ''/'' \<or> c = CHR 0x5C"

definition line_break :: "char \<Rightarrow> bool" where
  "line_break c \<longleftrightarrow> c = CHR 0x0A \<or> c = CHR 0x0D"

text \<open>The distro and the Linux path of a UNC path of WSL.\<close>

definition parseWslUncPath :: "string \<Rightarrow> (string \<times> string) option" where
  "parseWslUncPath path =
     (if length path < 2 \<or> \<not> path_separator (path ! 0) \<or> \<not> path_separator (path ! 1) then None
      else
        let normalized = map (\<lambda>c. if c = CHR 0x5C then CHR ''/'' else c) path;
            host = takeWhile (\<lambda>c. c \<noteq> CHR ''/'') (drop 2 normalized);
            behind = drop (length host + 2) normalized in
        if map lower_char host \<notin> {''wsl.localhost'', ''wsl$''} \<or> behind = [] then None
        else
          let distro = takeWhile (\<lambda>c. c \<noteq> CHR ''/'') (drop 1 behind);
              linuxPath = drop (length distro + 1) behind in
          if distro = [] \<or> list_ex line_break linuxPath then None
          else Some (distro, if linuxPath = [] then ''/'' else linuxPath))"

definition uncRouteKey :: "string \<Rightarrow> string option" where
  "uncRouteKey cwd =
     (if \<not> starts_with [CHR 0x5C, CHR 0x5C] cwd then None
      else case parseWslUncPath cwd of
        Some (distro, linuxPath) \<Rightarrow> Some (''wsl:'' @ toLowerCase (trim distro))
      | None \<Rightarrow> Some (''unc:'' @ toLowerCase (takeWhile (\<lambda>c. \<not> path_separator c) (drop 2 cwd))))"

definition routeKey :: "string option \<Rightarrow> string \<Rightarrow> string option" where
  "routeKey wslDistro cwd =
     (let distro = map_option (\<lambda>d. toLowerCase (trim d)) wslDistro in
      if truthy distro then Some (''wsl:'' @ the distro) else uncRouteKey cwd)"

lemma routeKey_not_empty: "routeKey d cwd \<noteq> Some []"
  by (auto simp: routeKey_def uncRouteKey_def Let_def split: option.splits if_splits)

end
