(* ===== verification/Git_Heap.thy ===== *)
theory Git_Heap
  imports Prelude "HOL-Library.Multiset"
begin

text \<open>
  The binary heap of candidates (\<open>shared/git/admission/git-admission-candidate-heap.ts\<close>): an array ordered by
  the id of the waiter, pushed with a hole that moves up and popped with a hole that moves down. Waiters and
  lanes are named by their number; a candidate is valid or stale by a test of its user. The locale
  \<open>least_first\<close> is what a user of the heap relies on.
\<close>

record candidate =
  cd_lane :: nat
  cd_waiter :: nat
  cd_version :: nat

definition candidate_heap_compaction_slack :: nat where
  "candidate_heap_compaction_slack = 64"

section \<open>The operations\<close>

function sift_up :: "candidate list \<Rightarrow> candidate \<Rightarrow> nat \<Rightarrow> candidate list" where
  "sift_up items c index =
     (if 0 < index then
        let parent = (index - 1) div 2 in
        if cd_waiter (items ! parent) \<le> cd_waiter c then items[index := c]
        else sift_up (items[index := items ! parent]) c parent
      else items[index := c])"
  by pat_completeness auto
termination by (relation "measure (\<lambda>(items, c, index). index)") auto

definition push :: "candidate \<Rightarrow> candidate list \<Rightarrow> candidate list" where
  "push c items = sift_up (items @ [c]) c (length items)"

function sift_hole :: "candidate list \<Rightarrow> candidate \<Rightarrow> nat \<Rightarrow> candidate list" where
  "sift_hole items c cursor =
     (let left = cursor * 2 + 1 in
      if length items \<le> left then items[cursor := c]
      else
        let right = left + 1;
            child = (if right < length items \<and> cd_waiter (items ! right) < cd_waiter (items ! left)
                     then right else left) in
        if cd_waiter c \<le> cd_waiter (items ! child) then items[cursor := c]
        else sift_hole (items[cursor := items ! child]) c child)"
  by pat_completeness auto
termination by (relation "measure (\<lambda>(items, c, cursor). length items - cursor)") auto

declare sift_up.simps [simp del] sift_hole.simps [simp del]

definition siftDown :: "nat \<Rightarrow> candidate list \<Rightarrow> candidate list" where
  "siftDown index items = sift_hole items (items ! index) index"

definition pop :: "candidate list \<Rightarrow> candidate list" where
  "pop items =
     (if items = [] \<or> length items = 1 then []
      else siftDown 0 ((butlast items)[0 := last items]))"

lemma length_sift_up [simp]: "length (sift_up items c i) = length items"
  by (induction items c i rule: sift_up.induct) (subst sift_up.simps, simp add: Let_def)

lemma length_sift_hole [simp]: "length (sift_hole items c i) = length items"
  by (induction items c i rule: sift_hole.induct) (subst sift_hole.simps, simp add: Let_def)

lemma length_push [simp]: "length (push c items) = Suc (length items)"
  by (simp add: push_def)

lemma length_siftDown [simp]: "length (siftDown i items) = length items"
  by (simp add: siftDown_def)

lemma length_pop [simp]: "length (pop items) = length items - 1"
  by (cases items) (auto simp: pop_def)

text \<open>\<open>peek\<close> drops stale candidates from the top; the heap is left without them.\<close>

function drop_stale :: "(candidate \<Rightarrow> bool) \<Rightarrow> candidate list \<Rightarrow> candidate list" where
  "drop_stale valid items = (if items \<noteq> [] \<and> \<not> valid (items ! 0) then drop_stale valid (pop items) else items)"
  by pat_completeness auto
termination by (relation "measure (\<lambda>(valid, items). length items)") auto

declare drop_stale.simps [simp del]

definition peek :: "(candidate \<Rightarrow> bool) \<Rightarrow> candidate list \<Rightarrow> candidate option \<times> candidate list" where
  "peek valid items =
     (let items' = drop_stale valid items in (if items' = [] then None else Some (items' ! 0), items'))"

fun heapify :: "nat \<Rightarrow> candidate list \<Rightarrow> candidate list" where
  "heapify 0 items = items"
| "heapify (Suc index) items = heapify index (siftDown index items)"

definition compactIfOversized :: "nat \<Rightarrow> (candidate \<Rightarrow> bool) \<Rightarrow> candidate list \<Rightarrow> candidate list" where
  "compactIfOversized maxLiveCandidates valid items =
     (if length items \<le> maxLiveCandidates * 2 + candidate_heap_compaction_slack then items
      else let kept = filter valid items in heapify (length kept div 2) kept)"

section \<open>Heap order\<close>

definition up :: "nat \<Rightarrow> nat" where
  "up i = (i - 1) div 2"

definition in_order :: "candidate list \<Rightarrow> nat \<Rightarrow> bool" where
  "in_order items i \<longleftrightarrow> cd_waiter (items ! up i) \<le> cd_waiter (items ! i)"

definition ordered_from :: "nat \<Rightarrow> candidate list \<Rightarrow> bool" where
  "ordered_from lo items \<longleftrightarrow> (\<forall>i. 0 < i \<and> i < length items \<and> lo \<le> up i \<longrightarrow> in_order items i)"

lemma up_less: "0 < i \<Longrightarrow> up i < i"
  by (simp add: up_def)

lemma up_child: "0 < i \<and> up i = n \<longleftrightarrow> i = 2 * n + 1 \<or> i = 2 * n + 2"
  unfolding up_def by presburger

lemma mset_hole_move:
  assumes "i < length items" and "j < length items" and "i \<noteq> j"
  shows "mset (items[i := items ! j, j := c]) = mset (items[i := c])"
proof -
  have "items[i := items ! j, j := c] = (items[i := c])[i := (items[i := c]) ! j, j := (items[i := c]) ! i]"
    using assms by simp
  also have "mset \<dots> = mset (items[i := c])" using assms by (intro mset_swap) simp_all
  finally show ?thesis .
qed

text \<open>The hole is at \<open>i\<close>: everything else is in order, and what is below the hole is not below its parent.\<close>

definition hole_up :: "candidate list \<Rightarrow> candidate \<Rightarrow> nat \<Rightarrow> bool" where
  "hole_up items c i \<longleftrightarrow> i < length items \<and>
     (\<forall>k. 0 < k \<and> k < length items \<and> k \<noteq> i \<longrightarrow> in_order (items[i := c]) k) \<and>
     (\<forall>k. 0 < i \<and> 0 < k \<and> k < length items \<and> up k = i \<longrightarrow> cd_waiter (items ! up i) \<le> cd_waiter (items ! k))"

lemma sift_up_order:
  "hole_up items c i \<Longrightarrow>
     ordered_from 0 (sift_up items c i) \<and> mset (sift_up items c i) = mset (items[i := c])"
proof (induction items c i rule: sift_up.induct)
  case (1 items c i)
  have i: "i < length items"
    and o1: "\<And>k. 0 < k \<Longrightarrow> k < length items \<Longrightarrow> k \<noteq> i \<Longrightarrow> in_order (items[i := c]) k"
    and o2: "\<And>k. 0 < i \<Longrightarrow> 0 < k \<Longrightarrow> k < length items \<Longrightarrow> up k = i \<Longrightarrow> cd_waiter (items ! up i) \<le> cd_waiter (items ! k)"
    using 1(2) by (auto simp: hole_up_def)
  show ?case
  proof (cases "0 < i \<and> cd_waiter c < cd_waiter (items ! up i)")
    case False
    have "sift_up items c i = items[i := c]"
      using False by (subst sift_up.simps) (auto simp: up_def Let_def)
    moreover have "in_order (items[i := c]) k" if "0 < k" "k < length items" for k
    proof (cases "k = i")
      case True
      with False that i up_less [of i] show ?thesis by (simp add: in_order_def)
    qed (use o1 that in simp)
    ultimately show ?thesis by (simp add: ordered_from_def)
  next
    case True
    let ?p = "up i"
    have p: "?p < i" "?p < length items" using up_less [of i] True i by simp_all
    have step: "sift_up items c i = sift_up (items[i := items ! ?p]) c ?p"
      using True by (subst sift_up.simps) (simp add: up_def Let_def)
    have hole: "hole_up (items[i := items ! ?p]) c ?p"
      unfolding hole_up_def
    proof (intro conjI allI impI)
      show "?p < length (items[i := items ! ?p])" using p by simp
    next
      fix k assume k: "0 < k \<and> k < length (items[i := items ! ?p]) \<and> k \<noteq> ?p"
      show "in_order (items[i := items ! ?p, ?p := c]) k"
      proof (cases "k = i")
        case True': True
        with True p i show ?thesis by (simp add: in_order_def)
      next
        case False
        show ?thesis
        proof (cases "up k = i")
          case True': True
          with k False o2 [of k] True p i show ?thesis by (simp add: in_order_def)
        next
          case n: False
          show ?thesis
          proof (cases "up k = ?p")
            case True': True
            from o1 [of k] k False have "in_order (items[i := c]) k" by simp
            with True' True k False n p i show ?thesis by (simp add: in_order_def)
          next
            case m: False
            from o1 [of k] k False have "in_order (items[i := c]) k" by simp
            with m n k False p i show ?thesis by (simp add: in_order_def)
          qed
        qed
      qed
    next
      fix k assume k: "0 < ?p \<and> 0 < k \<and> k < length (items[i := items ! ?p]) \<and> up k = ?p"
      have pp: "up ?p < ?p" using k up_less by blast
      have pord: "cd_waiter (items ! up ?p) \<le> cd_waiter (items ! ?p)"
        using o1 [of ?p] k p pp by (simp add: in_order_def)
      show "cd_waiter (items[i := items ! ?p] ! up ?p) \<le> cd_waiter (items[i := items ! ?p] ! k)"
      proof (cases "k = i")
        case True': True
        with pord p pp i show ?thesis by simp
      next
        case False
        from o1 [of k] k False p have "cd_waiter (items ! ?p) \<le> cd_waiter (items ! k)" by (simp add: in_order_def)
        with pord False k pp p show ?thesis by simp
      qed
    qed
    from True have "0 < i" "\<not> cd_waiter (items ! ((i - 1) div 2)) \<le> cd_waiter c" by (simp_all add: up_def)
    from 1(1) [OF this(1) refl this(2)] hole mset_hole_move [of i items ?p c] i p
    show ?thesis unfolding step by (simp add: up_def)
  qed
qed

definition hole_down :: "nat \<Rightarrow> candidate list \<Rightarrow> candidate \<Rightarrow> nat \<Rightarrow> bool" where
  "hole_down lo items c i \<longleftrightarrow> i < length items \<and> lo \<le> i \<and>
     (\<forall>k. 0 < k \<and> k < length items \<and> lo \<le> up k \<and> up k \<noteq> i \<longrightarrow> in_order (items[i := c]) k) \<and>
     (\<forall>k. 0 < i \<and> lo \<le> up i \<and> 0 < k \<and> k < length items \<and> up k = i \<longrightarrow> cd_waiter (items ! up i) \<le> cd_waiter (items ! k))"

lemma sift_hole_order:
  "hole_down lo items c i \<Longrightarrow>
     ordered_from lo (sift_hole items c i) \<and> mset (sift_hole items c i) = mset (items[i := c])"
proof (induction items c i rule: sift_hole.induct)
  case (1 items c i)
  have i: "i < length items" "lo \<le> i"
    and o1: "\<And>k. 0 < k \<Longrightarrow> k < length items \<Longrightarrow> lo \<le> up k \<Longrightarrow> up k \<noteq> i \<Longrightarrow> in_order (items[i := c]) k"
    and o2: "\<And>k. 0 < i \<Longrightarrow> lo \<le> up i \<Longrightarrow> 0 < k \<Longrightarrow> k < length items \<Longrightarrow> up k = i \<Longrightarrow>
      cd_waiter (items ! up i) \<le> cd_waiter (items ! k)"
    using 1(2) by (auto simp: hole_down_def)
  define left where "left = i * 2 + 1"
  define child where "child = (if left + 1 < length items \<and> cd_waiter (items ! (left + 1)) < cd_waiter (items ! left)
    then left + 1 else left)"
  have children: "k = left \<or> k = left + 1" if "0 < k" "up k = i" for k
    using that up_child [of k i] by (auto simp: left_def)
  have unfold: "sift_hole items c i = (if length items \<le> left then items[i := c]
      else if cd_waiter c \<le> cd_waiter (items ! child) then items[i := c]
      else sift_hole (items[i := items ! child]) c child)"
    by (subst sift_hole.simps) (simp only: Let_def left_def child_def)
  show ?case
  proof (cases "left < length items \<and> cd_waiter (items ! child) < cd_waiter c")
    case False
    have "sift_hole items c i = items[i := c]"
      using False unfolding unfold by auto
    moreover have "in_order (items[i := c]) k" if k: "0 < k" "k < length items" "lo \<le> up k" for k
    proof (cases "up k = i")
      case True
      from children [OF k(1) True] have "cd_waiter (items ! child) \<le> cd_waiter (items ! k)" and "left < length items"
        using k(2) by (auto simp: child_def)
      with False have "cd_waiter c \<le> cd_waiter (items ! k)" by simp
      moreover have "k \<noteq> i" using True k(1) up_less [of k] by auto
      ultimately show ?thesis using True i(1) by (simp add: in_order_def)
    qed (use o1 k in simp)
    ultimately show ?thesis by (simp add: ordered_from_def)
  next
    case True
    have ch: "child < length items" "up child = i" "i < child" "0 < child"
      using True up_child [of child i] by (auto simp: child_def left_def)
    have least: "cd_waiter (items ! child) \<le> cd_waiter (items ! k)" if "0 < k" "up k = i" "k < length items" for k
      using children [OF that(1,2)] that(3) by (auto simp: child_def)
    have step: "sift_hole items c i = sift_hole (items[i := items ! child]) c child"
      using True unfolding unfold by simp
    have hole: "hole_down lo (items[i := items ! child]) c child"
      unfolding hole_down_def
    proof (intro conjI allI impI)
      show "child < length (items[i := items ! child])" "lo \<le> child" using ch i by simp_all
    next
      fix k assume k: "0 < k \<and> k < length (items[i := items ! child]) \<and> lo \<le> up k \<and> up k \<noteq> child"
      show "in_order (items[i := items ! child, child := c]) k"
      proof (cases "up k = i")
        case True': True
        have "k \<noteq> i" using True' k up_less [of k] by auto
        with least [of k] True' k True ch i show ?thesis
          by (cases "k = child") (simp_all add: in_order_def)
      next
        case False
        show ?thesis
        proof (cases "k = i")
          case True': True
          from o2 [of child] True' k ch have "cd_waiter (items ! up i) \<le> cd_waiter (items ! child)" by simp
          moreover have "up i < i" using True' k up_less by simp
          ultimately show ?thesis using True' ch i by (simp add: in_order_def)
        next
          case n: False
          have "k \<noteq> child" using False ch by auto
          with o1 [of k] n False k ch i show ?thesis by (simp add: in_order_def)
        qed
      qed
    next
      fix k assume k: "0 < child \<and> lo \<le> up child \<and> 0 < k \<and> k < length (items[i := items ! child]) \<and> up k = child"
      have ne: "k \<noteq> i" "up k \<noteq> i" "k \<noteq> child" using k ch up_less [of k] by auto
      from o1 [of k] k ne ch i have "cd_waiter (items ! child) \<le> cd_waiter (items ! k)" by (simp add: in_order_def)
      with ne ch i show "cd_waiter (items[i := items ! child] ! up child) \<le> cd_waiter (items[i := items ! child] ! k)"
        by simp
    qed
    have c1: "\<not> length items \<le> i * 2 + 1" "\<not> cd_waiter c \<le> cd_waiter (items ! child)" using True by (simp_all add: left_def)
    have e: "child = (if i * 2 + 1 + 1 < length items \<and> cd_waiter (items ! (i * 2 + 1 + 1)) < cd_waiter (items ! (i * 2 + 1))
      then i * 2 + 1 + 1 else i * 2 + 1)" by (simp add: child_def left_def)
    from 1(1) [OF refl c1(1) refl e c1(2)] hole mset_hole_move [of i items child c] i ch
    show ?thesis unfolding step by simp
  qed
qed

section \<open>What the operations do\<close>

lemma ordered_least:
  "ordered_from 0 items \<Longrightarrow> k < length items \<Longrightarrow> cd_waiter (items ! 0) \<le> cd_waiter (items ! k)"
proof (induction k rule: less_induct)
  case (less k)
  show ?case
  proof (cases "k = 0")
    case False
    then have u: "up k < k" by (simp add: up_less)
    with less have "cd_waiter (items ! 0) \<le> cd_waiter (items ! up k)" by simp
    also have "\<dots> \<le> cd_waiter (items ! k)" using less.prems False by (simp add: ordered_from_def in_order_def)
    finally show ?thesis .
  qed simp
qed

lemma push_ok:
  assumes "ordered_from 0 items"
  shows "ordered_from 0 (push c items) \<and> mset (push c items) = add_mset c (mset items)"
proof -
  have "in_order ((items @ [c])[length items := c]) k" if "0 < k" "k < length (items @ [c])" "k \<noteq> length items" for k
  proof -
    have k: "k < length items" using that by simp
    moreover from k up_less [OF that(1)] have "up k < length items" by simp
    ultimately show ?thesis using assms that(1) by (simp add: ordered_from_def in_order_def nth_append)
  qed
  moreover have "up k \<noteq> length items" if "0 < k" "k < length (items @ [c])" for k
    using up_less [OF that(1)] that(2) by simp
  ultimately have "hole_up (items @ [c]) c (length items)" by (auto simp: hole_up_def)
  from sift_up_order [OF this] show ?thesis by (simp add: push_def)
qed

lemma siftDown_ok:
  assumes "i < length items" and "ordered_from (Suc i) items"
  shows "ordered_from i (siftDown i items) \<and> mset (siftDown i items) = mset items"
proof -
  have "0 < i \<Longrightarrow> \<not> i \<le> up i" using up_less [of i] by simp
  with assms have "hole_down i items (items ! i) i"
    by (auto simp: hole_down_def ordered_from_def)
  from sift_hole_order [OF this] show ?thesis by (simp add: siftDown_def)
qed

lemma pop_ok:
  assumes "ordered_from 0 items" and "items \<noteq> []"
  shows "ordered_from 0 (pop items) \<and> mset (pop items) = mset items - {#items ! 0#}"
proof (cases "length items = 1")
  case True
  then obtain x where "items = [x]" by (cases items) auto
  then show ?thesis by (simp add: pop_def ordered_from_def)
next
  case False
  let ?b = "(butlast items)[0 := last items]"
  from False assms(2) have l: "0 < length ?b" by (cases items) (auto simp: length_butlast)
  have "in_order ?b k" if "0 < k" "k < length ?b" "Suc 0 \<le> up k" for k
  proof -
    have "k < length items" using that(2) by simp
    with assms(1) that(1) have "in_order items k" by (simp add: ordered_from_def)
    moreover have "up k < length (butlast items)" using up_less [OF that(1)] that(2) by simp
    ultimately show ?thesis using that by (simp add: in_order_def nth_butlast)
  qed
  then have "ordered_from (Suc 0) ?b" by (simp add: ordered_from_def)
  from siftDown_ok [OF l this] have s: "ordered_from 0 (siftDown 0 ?b)" "mset (siftDown 0 ?b) = mset ?b" by simp_all
  obtain x xs where xs: "items = x # xs" "xs \<noteq> []" using False assms(2) by (cases items) auto
  have "mset xs = mset (butlast xs) + {#last xs#}"
    by (subst append_butlast_last_id [OF xs(2), symmetric]) (simp only: mset_append mset.simps)
  with xs have "mset ?b = mset items - {#items ! 0#}" by simp
  with s False assms(2) show ?thesis by (simp add: pop_def)
qed

lemma drop_stale_ok:
  "ordered_from 0 items \<Longrightarrow>
     ordered_from 0 (drop_stale valid items) \<and> set (drop_stale valid items) \<subseteq> set items \<and>
     (\<forall>c\<in>set items. valid c \<longrightarrow> c \<in> set (drop_stale valid items)) \<and>
     (drop_stale valid items \<noteq> [] \<longrightarrow> valid (drop_stale valid items ! 0))"
proof (induction valid items rule: drop_stale.induct)
  case (1 valid items)
  show ?case
  proof (cases "items \<noteq> [] \<and> \<not> valid (items ! 0)")
    case False
    then have "drop_stale valid items = items" by (subst drop_stale.simps) (simp only: if_False)
    with False 1(2) show ?thesis by auto
  next
    case True
    then have step: "drop_stale valid items = drop_stale valid (pop items)"
      by (subst drop_stale.simps) simp
    from True pop_ok [OF 1(2)] have p: "ordered_from 0 (pop items)" "mset (pop items) = mset items - {#items ! 0#}"
      by simp_all
    have sub: "set (pop items) \<subseteq> set items" by (metis p(2) in_diffD set_mset_mset subsetI)
    have keep: "c \<in> set (pop items)" if "c \<in> set items" "valid c" for c
    proof -
      have "c \<noteq> items ! 0" using that True by auto
      with that(1) have "c \<in># mset (pop items)" by (simp add: p(2) in_diff_count)
      then show ?thesis by simp
    qed
    from 1(1) [OF True p(1)] sub keep show ?thesis unfolding step by blast
  qed
qed

lemma peek_ok:
  assumes "ordered_from 0 items" and "peek valid items = (found, items')"
  shows "ordered_from 0 items'" and "set items' \<subseteq> set items"
    and "\<And>c. c \<in> set items \<Longrightarrow> valid c \<Longrightarrow> c \<in> set items'"
    and "found = None \<Longrightarrow> c \<in> set items \<Longrightarrow> \<not> valid c"
    and "found = Some d \<Longrightarrow> d \<in> set items \<and> valid d"
    and "found = Some d \<Longrightarrow> c \<in> set items \<Longrightarrow> valid c \<Longrightarrow> cd_waiter d \<le> cd_waiter c"
proof -
  from assms(2) have p: "items' = drop_stale valid items" "found = (if items' = [] then None else Some (items' ! 0))"
    by (auto simp: peek_def Let_def)
  note ok = drop_stale_ok [OF assms(1), of valid]
  from ok show o': "ordered_from 0 items'" and sub: "set items' \<subseteq> set items"
    and keep: "\<And>c. c \<in> set items \<Longrightarrow> valid c \<Longrightarrow> c \<in> set items'" by (auto simp: p(1))
  show "found = None \<Longrightarrow> c \<in> set items \<Longrightarrow> \<not> valid c" using keep [of c] by (auto simp: p(2) split: if_splits)
  show "found = Some d \<Longrightarrow> d \<in> set items \<and> valid d"
    using ok sub by (auto simp: p(1,2) split: if_splits)
  show "cd_waiter d \<le> cd_waiter c" if "found = Some d" "c \<in> set items" "valid c"
  proof -
    from keep [OF that(2,3)] obtain k where "k < length items'" "items' ! k = c" by (metis in_set_conv_nth)
    with ordered_least [OF o'] that(1) show ?thesis by (auto simp: p(2) split: if_splits)
  qed
qed

lemma heapify_ok:
  "n \<le> length items \<Longrightarrow> ordered_from n items \<Longrightarrow>
     ordered_from 0 (heapify n items) \<and> mset (heapify n items) = mset items"
proof (induction n items rule: heapify.induct)
  case (2 n items)
  with siftDown_ok [of n items] show ?case by simp
qed simp

lemma compact_ok:
  assumes "ordered_from 0 items"
  shows "ordered_from 0 (compactIfOversized n valid items)"
    and "set (compactIfOversized n valid items) \<subseteq> set items"
    and "\<And>c. c \<in> set items \<Longrightarrow> valid c \<Longrightarrow> c \<in> set (compactIfOversized n valid items)"
    and "length (compactIfOversized n valid items) \<le> max (n * 2 + candidate_heap_compaction_slack)
      (length (filter valid items))"
proof -
  let ?k = "filter valid items"
  have "ordered_from (length ?k div 2) ?k"
    unfolding ordered_from_def up_def by (intro allI impI) linarith
  from heapify_ok [OF _ this] have h: "ordered_from 0 (heapify (length ?k div 2) ?k)"
    "mset (heapify (length ?k div 2) ?k) = mset ?k" by simp_all
  from mset_eq_setD [OF h(2)] mset_eq_length [OF h(2)] h(1) assms
  show "ordered_from 0 (compactIfOversized n valid items)"
    and "set (compactIfOversized n valid items) \<subseteq> set items"
    and "\<And>c. c \<in> set items \<Longrightarrow> valid c \<Longrightarrow> c \<in> set (compactIfOversized n valid items)"
    and "length (compactIfOversized n valid items) \<le> max (n * 2 + candidate_heap_compaction_slack)
      (length (filter valid items))"
    by (auto simp: compactIfOversized_def Let_def)
qed

section \<open>The interface\<close>

text \<open>
  A store of candidates that hands out the valid one with the least waiter. What its user needs to know of an
  operation is which candidates it keeps: of the valid ones all, and no new ones.
\<close>

locale least_first =
  fixes store_ok :: "'h \<Rightarrow> bool"
    and members :: "'h \<Rightarrow> candidate set"
    and add :: "candidate \<Rightarrow> 'h \<Rightarrow> 'h"
    and look :: "(candidate \<Rightarrow> bool) \<Rightarrow> 'h \<Rightarrow> candidate option \<times> 'h"
    and tidy :: "nat \<Rightarrow> (candidate \<Rightarrow> bool) \<Rightarrow> 'h \<Rightarrow> 'h"
  assumes add_ok: "store_ok h \<Longrightarrow> store_ok (add c h)"
    and members_add: "store_ok h \<Longrightarrow> members (add c h) = insert c (members h)"
    and look_ok: "store_ok h \<Longrightarrow> store_ok (snd (look valid h))"
    and look_members: "store_ok h \<Longrightarrow> members (snd (look valid h)) \<subseteq> members h"
    and look_keeps: "store_ok h \<Longrightarrow> c \<in> members h \<Longrightarrow> valid c \<Longrightarrow> c \<in> members (snd (look valid h))"
    and look_None: "store_ok h \<Longrightarrow> fst (look valid h) = None \<Longrightarrow> c \<in> members h \<Longrightarrow> \<not> valid c"
    and look_Some: "store_ok h \<Longrightarrow> fst (look valid h) = Some d \<Longrightarrow> d \<in> members h \<and> valid d"
    and look_least: "store_ok h \<Longrightarrow> fst (look valid h) = Some d \<Longrightarrow> c \<in> members h \<Longrightarrow> valid c \<Longrightarrow>
      cd_waiter d \<le> cd_waiter c"
    and tidy_ok: "store_ok h \<Longrightarrow> store_ok (tidy n valid h)"
    and tidy_members: "store_ok h \<Longrightarrow> members (tidy n valid h) \<subseteq> members h"
    and tidy_keeps: "store_ok h \<Longrightarrow> c \<in> members h \<Longrightarrow> valid c \<Longrightarrow> c \<in> members (tidy n valid h)"
begin

definition holds_valid :: "(candidate \<Rightarrow> bool) \<Rightarrow> (candidate \<Rightarrow> bool) \<Rightarrow> candidate set \<Rightarrow> 'h \<Rightarrow> bool" where
  "holds_valid own valid needed h \<longleftrightarrow>
     store_ok h \<and> (\<forall>c\<in>members h. own c) \<and> (\<forall>c\<in>needed. valid c \<and> c \<in> members h)"

lemma holds_add:
  "holds_valid own valid needed h \<Longrightarrow> own c \<Longrightarrow> holds_valid own valid needed (add c h)"
  by (auto simp: holds_valid_def add_ok members_add)

lemma holds_add_new:
  "holds_valid own valid needed h \<Longrightarrow> own c \<Longrightarrow> valid c \<Longrightarrow> holds_valid own valid (insert c needed) (add c h)"
  by (auto simp: holds_valid_def add_ok members_add)

lemma holds_look:
  "holds_valid own valid needed h \<Longrightarrow> holds_valid own valid needed (snd (look valid h))"
  using look_members [of h valid] by (auto simp: holds_valid_def look_ok look_keeps)

lemma holds_tidy:
  "holds_valid own valid needed h \<Longrightarrow> holds_valid own valid needed (tidy n valid h)"
  using tidy_members [of h n valid] by (auto simp: holds_valid_def tidy_ok tidy_keeps)

text \<open>When the valid members are exactly the needed ones, looking finds the needed one with the least waiter.\<close>

lemma look_needed:
  assumes "holds_valid own valid needed h" and "\<And>c. c \<in> members h \<Longrightarrow> valid c \<Longrightarrow> c \<in> needed"
  shows "(fst (look valid h) = None \<longrightarrow> needed = {}) \<and>
    (\<forall>d. fst (look valid h) = Some d \<longrightarrow> d \<in> needed \<and> (\<forall>c\<in>needed. cd_waiter d \<le> cd_waiter c))"
proof -
  from assms(1) have h: "store_ok h" and n: "\<And>c. c \<in> needed \<Longrightarrow> valid c \<and> c \<in> members h"
    by (auto simp: holds_valid_def)
  show ?thesis
    using look_None [OF h, of valid] look_Some [OF h, of valid] look_least [OF h, of valid] n assms(2) by blast
qed

end

interpretation candidate_heap: least_first "ordered_from 0" set push peek compactIfOversized
proof
  fix h c n valid
  assume h: "ordered_from 0 h"
  from push_ok [OF h] show "ordered_from 0 (push c h)" by simp
  from push_ok [OF h, of c] show "set (push c h) = insert c (set h)" by (metis mset_eq_setD mset.simps(2) list.simps(15))
  from peek_ok [OF h prod.collapse [symmetric]]
  show "ordered_from 0 (snd (peek valid h))" "set (snd (peek valid h)) \<subseteq> set h" by auto
  from compact_ok [OF h]
  show "ordered_from 0 (compactIfOversized n valid h)" "set (compactIfOversized n valid h) \<subseteq> set h" by auto
next
  fix h c d n valid
  assume h: "ordered_from 0 h" and c: "c \<in> set h"
  show "valid c \<Longrightarrow> c \<in> set (snd (peek valid h))" by (rule peek_ok(3) [OF h prod.collapse [symmetric] c])
  show "fst (peek valid h) = None \<Longrightarrow> \<not> valid c" by (rule peek_ok(4) [OF h prod.collapse [symmetric] _ c])
  show "fst (peek valid h) = Some d \<Longrightarrow> valid c \<Longrightarrow> cd_waiter d \<le> cd_waiter c"
    by (rule peek_ok(6) [OF h prod.collapse [symmetric] _ c])
  show "valid c \<Longrightarrow> c \<in> set (compactIfOversized n valid h)" by (rule compact_ok(3) [OF h c])
next
  fix h d valid
  assume h: "ordered_from 0 h"
  show "fst (peek valid h) = Some d \<Longrightarrow> d \<in> set h \<and> valid d" by (rule peek_ok(5) [OF h prod.collapse [symmetric]])
qed

end
