(* ===== verification/Git_Waiters.thy ===== *)
theory Git_Waiters
  imports Git_Commands Git_Heap Complex_Main
begin

text \<open>
  The queue of waiting git commands (\<open>shared/git/admission/git-admission-waiter-queue.ts\<close>, with the types of
  \<open>git-admission-state.ts\<close>). Waiters and lanes are shared objects of the code: a waiter is named by its id, which
  is its place in the list of all waiters ever made, a lane by its place in the list of all lanes ever made; the
  maps from routes to lanes are association lists in insertion order.
\<close>

section \<open>Waiters\<close>

datatype adm_class = Class_general | Class_network
datatype adm_tier = Tier_interactive | Tier_status | Tier_background
datatype slot_kind = Slot_base | Slot_headroom
datatype wait_state = Wait_queued | Wait_granted | Wait_settled

text \<open>
  The calls \<open>resolve\<close> and \<open>reject\<close> are the state of the waiter's promise; \<open>wt_released\<close> is the variable
  \<open>released\<close> of the grant's closure; a signal is named by a number.
\<close>

datatype wait_promise = Promise_pending | Promise_resolved | Promise_rejected

record waiter =
  wt_args :: "string list"
  wt_tier :: adm_tier
  wt_class :: adm_class
  wt_route :: "string option"
  wt_enqueuedAt :: rat
  wt_budgetKeys :: "string list"
  wt_signal :: "nat option"
  wt_state :: wait_state
  wt_slotKind :: "slot_kind option"
  wt_promise :: wait_promise
  wt_released :: bool

definition is_queued :: "waiter list \<Rightarrow> nat \<Rightarrow> bool" where
  "is_queued ws i \<longleftrightarrow> i < length ws \<and> wt_state (ws ! i) = Wait_queued"

section \<open>Lanes and candidates\<close>

record lane =
  ln_items :: "nat list"
  ln_head :: nat
  ln_count :: int
  ln_baseEligible :: bool
  ln_headroomEligible :: bool
  ln_version :: nat

definition createLane :: lane where
  "createLane = \<lparr>ln_items = [], ln_head = 0, ln_count = 0, ln_baseEligible = False,
     ln_headroomEligible = False, ln_version = 0\<rparr>"

record wait_queue =
  wq_lanes :: "lane list"
  wq_table :: "adm_class \<Rightarrow> adm_tier \<Rightarrow> (string option \<times> nat) list"
  wq_counts :: "string \<Rightarrow> nat option"
  wq_base :: "adm_class \<Rightarrow> adm_tier \<Rightarrow> candidate list"
  wq_headroom :: "adm_class \<Rightarrow> candidate list"
  wq_total :: int

definition empty_queue :: wait_queue where
  "empty_queue = \<lparr>wq_lanes = [], wq_table = (\<lambda>c t. []), wq_counts = (\<lambda>k. None),
     wq_base = (\<lambda>c t. []), wq_headroom = (\<lambda>c. []), wq_total = 0\<rparr>"

definition tiers :: "adm_tier list" where
  "tiers = [Tier_interactive, Tier_status, Tier_background]"

definition candidateCount :: "wait_queue \<Rightarrow> nat" where
  "candidateCount q = length (wq_headroom q Class_general) + length (wq_headroom q Class_network)
     + sum_list (map (\<lambda>c. sum_list (map (\<lambda>t. length (wq_base q c t)) tiers)) [Class_general, Class_network])"

definition lane_head :: "lane \<Rightarrow> nat option" where
  "lane_head l = (if ln_head l < length (ln_items l) then Some (ln_items l ! ln_head l) else None)"

definition update2 :: "('a \<Rightarrow> 'b \<Rightarrow> 'c) \<Rightarrow> 'a \<Rightarrow> 'b \<Rightarrow> 'c \<Rightarrow> 'a \<Rightarrow> 'b \<Rightarrow> 'c" where
  "update2 f a b v = f(a := (f a)(b := v))"

lemma update2_apply: "update2 f a b v x y = (if x = a \<and> y = b then v else f x y)"
  by (simp add: update2_def)

definition candidateIsValid :: "waiter list \<Rightarrow> wait_queue \<Rightarrow> slot_kind \<Rightarrow> candidate \<Rightarrow> bool" where
  "candidateIsValid ws q slot cd =
     (let l = wq_lanes q ! cd_lane cd in
      cd_version cd = ln_version l \<and> lane_head l = Some (cd_waiter cd) \<and> is_queued ws (cd_waiter cd)
      \<and> (if slot = Slot_base then ln_baseEligible l else ln_headroomEligible l))"

definition push_base :: "adm_class \<Rightarrow> adm_tier \<Rightarrow> candidate \<Rightarrow> wait_queue \<Rightarrow> wait_queue" where
  "push_base c t cd q = q\<lparr>wq_base := update2 (wq_base q) c t (push cd (wq_base q c t))\<rparr>"

definition push_headroom :: "adm_class \<Rightarrow> candidate \<Rightarrow> wait_queue \<Rightarrow> wait_queue" where
  "push_headroom c cd q = q\<lparr>wq_headroom := (wq_headroom q)(c := push cd (wq_headroom q c))\<rparr>"

definition publishLaneHead :: "waiter list \<Rightarrow> adm_class \<Rightarrow> adm_tier \<Rightarrow> nat \<Rightarrow> wait_queue \<Rightarrow> wait_queue" where
  "publishLaneHead ws c t l q =
     (let la = wq_lanes q ! l in
      case lane_head la of
        None \<Rightarrow> q
      | Some i \<Rightarrow>
          if \<not> is_queued ws i then q
          else
            let cd = \<lparr>cd_lane = l, cd_waiter = i, cd_version = ln_version la\<rparr>;
                q1 = (if ln_baseEligible la then push_base c t cd q else q)
            in if t = Tier_interactive \<and> ln_headroomEligible la then push_headroom c cd q1 else q1)"

definition compactCandidateHeaps :: "waiter list \<Rightarrow> adm_class \<Rightarrow> adm_tier \<Rightarrow> wait_queue \<Rightarrow> wait_queue" where
  "compactCandidateHeaps ws c t q =
     (let liveLaneCount = length (wq_table q c t);
          q1 = q\<lparr>wq_base := update2 (wq_base q) c t
                 (compactIfOversized liveLaneCount (candidateIsValid ws q Slot_base) (wq_base q c t))\<rparr>
      in if t = Tier_interactive
         then q1\<lparr>wq_headroom := (wq_headroom q1)(c :=
                 compactIfOversized liveLaneCount (candidateIsValid ws q1 Slot_headroom) (wq_headroom q1 c))\<rparr>
         else q1)"

definition set_lane :: "nat \<Rightarrow> lane \<Rightarrow> wait_queue \<Rightarrow> wait_queue" where
  "set_lane l la q = q\<lparr>wq_lanes := (wq_lanes q)[l := la]\<rparr>"

section \<open>Operations\<close>

fun count_up :: "string list \<Rightarrow> (string \<Rightarrow> nat option) \<Rightarrow> string \<Rightarrow> nat option" where
  "count_up [] m = m"
| "count_up (k # ks) m = count_up ks (m(k \<mapsto> (case m k of None \<Rightarrow> 0 | Some n \<Rightarrow> n) + 1))"

fun count_down :: "string list \<Rightarrow> (string \<Rightarrow> nat option) \<Rightarrow> string \<Rightarrow> nat option" where
  "count_down [] m = m"
| "count_down (k # ks) m = count_down ks
     (case m k of None \<Rightarrow> m | Some n \<Rightarrow> if n = 1 then m(k := None) else m(k \<mapsto> n - 1))"

text \<open>\<open>enqueue\<close> finds the lane of the waiter or makes it.\<close>

definition lane_for :: "adm_class \<Rightarrow> adm_tier \<Rightarrow> string option \<Rightarrow> wait_queue \<Rightarrow> nat \<times> wait_queue" where
  "lane_for c t r q =
     (case map_of (wq_table q c t) r of
        Some l \<Rightarrow> (l, q)
      | None \<Rightarrow>
          (length (wq_lanes q),
           q\<lparr>wq_lanes := wq_lanes q @ [createLane],
             wq_table := update2 (wq_table q) c t (wq_table q c t @ [(r, length (wq_lanes q))])\<rparr>))"

definition enqueue :: "waiter list \<Rightarrow> nat \<Rightarrow> wait_queue \<Rightarrow> wait_queue" where
  "enqueue ws i q =
     (let w = ws ! i; c = wt_class w; t = wt_tier w;
          (l, q1) = lane_for c t (wt_route w) q;
          la = wq_lanes q1 ! l;
          la' = la\<lparr>ln_items := ln_items la @ [i], ln_count := ln_count la + 1\<rparr>;
          q2 = (set_lane l la' q1)\<lparr>wq_total := wq_total q1 + 1, wq_counts := count_up (wt_budgetKeys w) (wq_counts q1)\<rparr>
      in if ln_count la' = 1 then publishLaneHead ws c t l q2 else q2)"

text \<open>The first place from a head on that holds a queued waiter.\<close>

function next_queued :: "waiter list \<Rightarrow> nat list \<Rightarrow> nat \<Rightarrow> nat" where
  "next_queued ws items head =
     (if head < length items \<and> \<not> is_queued ws (items ! head) then next_queued ws items (head + 1) else head)"
  by pat_completeness auto
termination by (relation "measure (\<lambda>(ws, items, head). length items - head)") auto

declare next_queued.simps [simp del]

definition compact_lane :: "waiter list \<Rightarrow> lane \<Rightarrow> lane" where
  "compact_lane ws la =
     (let head = next_queued ws (ln_items la) (ln_head la) in
      if ln_count la = 0 then la\<lparr>ln_items := [], ln_head := 0\<rparr>
      else
        let tombstones = int (length (ln_items la)) - int head - ln_count la in
        if head < 256 \<and> (length (ln_items la) < 256 \<or> tombstones \<le> ln_count la) then la\<lparr>ln_head := head\<rparr>
        else la\<lparr>ln_items := filter (is_queued ws) (drop head (ln_items la)), ln_head := 0\<rparr>)"

definition new_version :: "lane \<Rightarrow> lane" where
  "new_version la = la\<lparr>ln_version := ln_version la + 1\<rparr>"

definition dequeue :: "waiter list \<Rightarrow> nat \<Rightarrow> wait_queue \<Rightarrow> wait_queue" where
  "dequeue ws i q =
     (let w = ws ! i; c = wt_class w; t = wt_tier w in
      case map_of (wq_table q c t) (wt_route w) of
        None \<Rightarrow> q
      | Some l \<Rightarrow>
          let la = wq_lanes q ! l;
              ln1 = la\<lparr>ln_count := ln_count la - 1\<rparr>;
              previousHead = lane_head ln1;
              ln2 = compact_lane ws ln1;
              q1 = q\<lparr>wq_total := wq_total q - 1, wq_counts := count_down (wt_budgetKeys w) (wq_counts q)\<rparr>
          in if ln_count ln2 = 0 then
               compactCandidateHeaps ws c t
                 ((set_lane l (new_version ln2) q1)
                    \<lparr>wq_table := update2 (wq_table q1) c t (filter (\<lambda>e. fst e \<noteq> wt_route w) (wq_table q1 c t))\<rparr>)
             else if lane_head ln2 \<noteq> previousHead then
               compactCandidateHeaps ws c t (publishLaneHead ws c t l (set_lane l (new_version ln2) q1))
             else set_lane l ln2 q1)"

definition update_tier ::
  "waiter list \<Rightarrow> adm_class \<Rightarrow> string option \<Rightarrow> bool \<Rightarrow> bool \<Rightarrow> adm_tier \<Rightarrow> wait_queue \<Rightarrow> wait_queue" where
  "update_tier ws c r baseEligible headroomEligible t q =
     (case map_of (wq_table q c t) r of
        None \<Rightarrow> q
      | Some l \<Rightarrow>
          let la = wq_lanes q ! l in
          if ln_baseEligible la = baseEligible \<and> ln_headroomEligible la = headroomEligible then q
          else compactCandidateHeaps ws c t (publishLaneHead ws c t l
                 (set_lane l (new_version (la\<lparr>ln_baseEligible := baseEligible, ln_headroomEligible := headroomEligible\<rparr>)) q)))"

definition updateRouteEligibility ::
  "waiter list \<Rightarrow> adm_class \<Rightarrow> string option \<Rightarrow> bool \<Rightarrow> bool \<Rightarrow> wait_queue \<Rightarrow> wait_queue" where
  "updateRouteEligibility ws c r baseEligible headroomEligible q =
     fold (update_tier ws c r baseEligible headroomEligible) tiers q"

definition hasBudget :: "string \<Rightarrow> wait_queue \<Rightarrow> bool" where
  "hasBudget key q \<longleftrightarrow> wq_counts q key \<noteq> None"

definition queue_snapshot :: "waiter list \<Rightarrow> wait_queue \<Rightarrow> nat list" where
  "queue_snapshot ws q =
     sort (concat (map (\<lambda>c. concat (map (\<lambda>t. concat (map (\<lambda>(r, l).
       let la = wq_lanes q ! l in filter (is_queued ws) (drop (ln_head la) (ln_items la)))
       (wq_table q c t))) tiers)) [Class_general, Class_network]))"

end
