(* ===== verification/Git_Scheduler.thy ===== *)
theory Git_Scheduler
  imports Git_Waiters
begin

text \<open>
  The scheduler of git children (\<open>shared/git/admission/git-admission-scheduler.ts\<close>, with the budgets and events
  of \<open>git-admission-state.ts\<close>). An operation takes the whole state, the configuration's clock is read by
  number (\<open>ad_reads\<close>), and the resolution of a grant, which the code leaves to a microtask, is a step of its own.
  An aborted signal is a number in \<open>ad_aborted\<close>.
\<close>

section \<open>Configuration and budgets\<close>

record adm_config =
  cf_generalCap :: nat
  cf_networkCap :: nat
  cf_generalHeadroom :: nat
  cf_networkHeadroom :: nat
  cf_routeCap :: nat
  cf_routeHeadroom :: nat
  cf_agingMs :: rat
  cf_now :: "nat \<Rightarrow> rat"
  cf_listens :: bool

definition general_cap :: "int \<Rightarrow> nat" where
  "general_cap parallelism = nat (max 2 (min 4 (parallelism - 4)))"

definition max_git_children :: nat where
  "max_git_children = 10"

definition default_config :: "int \<Rightarrow> (nat \<Rightarrow> rat) \<Rightarrow> adm_config" where
  "default_config parallelism now =
     \<lparr>cf_generalCap = general_cap parallelism, cf_networkCap = 3, cf_generalHeadroom = 2, cf_networkHeadroom = 1,
      cf_routeCap = 2, cf_routeHeadroom = 1, cf_agingMs = 15000, cf_now = now, cf_listens = False\<rparr>"

record budget =
  bg_baseCapacity :: nat
  bg_headroomCapacity :: nat
  bg_baseUsed :: int
  bg_headroomUsed :: int

datatype event_phase = Phase_grant | Phase_release

record adm_event =
  ae_sequence :: nat
  ae_phase :: event_phase
  ae_waiterId :: nat
  ae_slotKind :: slot_kind
  ae_queueWaitMs :: rat
  ae_queued :: int
  ae_budgets :: "(string \<times> budget) list"

record admission =
  ad_waiters :: "waiter list"
  ad_queue :: wait_queue
  ad_budgets :: "(string \<times> budget) list"
  ad_reads :: nat
  ad_events :: "adm_event list"
  ad_aborted :: "nat set"

definition empty_admission :: admission where
  "empty_admission = \<lparr>ad_waiters = [], ad_queue = empty_queue, ad_budgets = [], ad_reads = 0, ad_events = [],
     ad_aborted = {}\<rparr>"

definition class_key :: "adm_class \<Rightarrow> string" where
  "class_key c = (case c of Class_general \<Rightarrow> ''general'' | Class_network \<Rightarrow> ''network'')"

definition route_budget :: "adm_class \<Rightarrow> string \<Rightarrow> string" where
  "route_budget c r = ''route:'' @ class_key c @ '':'' @ r"

definition is_route_key :: "string \<Rightarrow> bool" where
  "is_route_key key = starts_with ''route:'' key"

definition new_budget :: "adm_config \<Rightarrow> string \<Rightarrow> budget" where
  "new_budget cf key =
     \<lparr>bg_baseCapacity = (if is_route_key key then cf_routeCap cf
         else if key = ''network'' then cf_networkCap cf else cf_generalCap cf),
      bg_headroomCapacity = (if is_route_key key then cf_routeHeadroom cf
         else if key = ''network'' then cf_networkHeadroom cf else cf_generalHeadroom cf),
      bg_baseUsed = 0, bg_headroomUsed = 0\<rparr>"

definition ensureBudget :: "adm_config \<Rightarrow> string \<Rightarrow> (string \<times> budget) list \<Rightarrow> (string \<times> budget) list" where
  "ensureBudget cf key bs = (if map_of bs key = None then bs @ [(key, new_budget cf key)] else bs)"

definition read_clock :: "adm_config \<Rightarrow> admission \<Rightarrow> rat \<times> admission" where
  "read_clock cf s = (cf_now cf (ad_reads s), s\<lparr>ad_reads := ad_reads s + 1\<rparr>)"

definition tier_value :: "adm_tier \<Rightarrow> int" where
  "tier_value t = (case t of Tier_interactive \<Rightarrow> 0 | Tier_status \<Rightarrow> 1 | Tier_background \<Rightarrow> 2)"

definition effectiveTier :: "adm_config \<Rightarrow> waiter \<Rightarrow> rat \<Rightarrow> int" where
  "effectiveTier cf w now =
     (let promotions = \<lfloor>(now - wt_enqueuedAt w) / cf_agingMs cf\<rfloor> in max 0 (tier_value (wt_tier w) - promotions))"

definition has_room :: "slot_kind \<Rightarrow> budget \<Rightarrow> bool" where
  "has_room slot b = (case slot of Slot_base \<Rightarrow> bg_baseUsed b < int (bg_baseCapacity b)
     | Slot_headroom \<Rightarrow> bg_headroomUsed b < int (bg_headroomCapacity b))"

text \<open>\<open>fits\<close> makes the budgets it asks for; it stops at the first one without room.\<close>

fun fits_keys :: "adm_config \<Rightarrow> slot_kind \<Rightarrow> string list \<Rightarrow> (string \<times> budget) list \<Rightarrow> bool \<times> (string \<times> budget) list" where
  "fits_keys cf slot [] bs = (True, bs)"
| "fits_keys cf slot (key # keys) bs =
     (let bs' = ensureBudget cf key bs in
      if has_room slot (the (map_of bs' key)) then fits_keys cf slot keys bs' else (False, bs'))"

definition slotKindFor ::
  "adm_config \<Rightarrow> waiter \<Rightarrow> (string \<times> budget) list \<Rightarrow> slot_kind option \<times> (string \<times> budget) list" where
  "slotKindFor cf w bs =
     (let (base, bs1) = fits_keys cf Slot_base (wt_budgetKeys w) bs in
      if base then (Some Slot_base, bs1)
      else if wt_tier w = Tier_interactive then
        let (headroom, bs2) = fits_keys cf Slot_headroom (wt_budgetKeys w) bs1 in
        (if headroom then Some Slot_headroom else None, bs2)
      else (None, bs1))"

definition use_slot :: "slot_kind \<Rightarrow> int \<Rightarrow> budget \<Rightarrow> budget" where
  "use_slot slot n b = (case slot of Slot_base \<Rightarrow> b\<lparr>bg_baseUsed := bg_baseUsed b + n\<rparr>
     | Slot_headroom \<Rightarrow> b\<lparr>bg_headroomUsed := bg_headroomUsed b + n\<rparr>)"

definition change_budget :: "string \<Rightarrow> (budget \<Rightarrow> budget) \<Rightarrow> (string \<times> budget) list \<Rightarrow> (string \<times> budget) list" where
  "change_budget key f bs = map (\<lambda>(k, b). (k, if k = key then f b else b)) bs"

definition use_keys ::
  "adm_config \<Rightarrow> slot_kind \<Rightarrow> int \<Rightarrow> string list \<Rightarrow> (string \<times> budget) list \<Rightarrow> (string \<times> budget) list" where
  "use_keys cf slot n keys bs = fold (\<lambda>key bs. change_budget key (use_slot slot n) (ensureBudget cf key bs)) keys bs"

section \<open>Operations\<close>

definition change_waiter :: "nat \<Rightarrow> (waiter \<Rightarrow> waiter) \<Rightarrow> admission \<Rightarrow> admission" where
  "change_waiter i f s = s\<lparr>ad_waiters := (ad_waiters s)[i := f (ad_waiters s ! i)]\<rparr>"

definition refreshRouteEligibility :: "adm_config \<Rightarrow> adm_class \<Rightarrow> string option \<Rightarrow> admission \<Rightarrow> admission" where
  "refreshRouteEligibility cf c r s =
     (let (budgets, room) =
            (if truthy r then
               let bs = ensureBudget cf (route_budget c (the r)) (ad_budgets s);
                   b = the (map_of bs (route_budget c (the r))) in (bs, \<lambda>slot. has_room slot b)
             else (ad_budgets s, \<lambda>slot. True))
      in s\<lparr>ad_budgets := budgets,
           ad_queue := updateRouteEligibility (ad_waiters s) c r (room Slot_base) (room Slot_headroom) (ad_queue s)\<rparr>)"

definition prunable :: "admission \<Rightarrow> string \<Rightarrow> bool" where
  "prunable s key = (case map_of (ad_budgets s) key of None \<Rightarrow> False
     | Some b \<Rightarrow> is_route_key key \<and> bg_baseUsed b = 0 \<and> bg_headroomUsed b = 0 \<and> \<not> hasBudget key (ad_queue s))"

definition pruneRouteBudgets :: "string list \<Rightarrow> admission \<Rightarrow> admission" where
  "pruneRouteBudgets keys s =
     fold (\<lambda>key s. if prunable s key then s\<lparr>ad_budgets := filter (\<lambda>e. fst e \<noteq> key) (ad_budgets s)\<rparr> else s) keys s"

definition publishEvent :: "adm_config \<Rightarrow> nat \<Rightarrow> slot_kind \<Rightarrow> event_phase \<Rightarrow> rat \<Rightarrow> admission \<Rightarrow> admission" where
  "publishEvent cf i slot phase queueWaitMs s =
     (if \<not> cf_listens cf then s
      else s\<lparr>ad_events := ad_events s @ [\<lparr>ae_sequence = length (ad_events s), ae_phase = phase, ae_waiterId = i,
               ae_slotKind = slot, ae_queueWaitMs = queueWaitMs, ae_queued = wq_total (ad_queue s),
               ae_budgets = ad_budgets s\<rparr>]\<rparr>)"

text \<open>What \<open>abort\<close> does to a waiter that is still queued.\<close>

definition abort_queued :: "nat \<Rightarrow> admission \<Rightarrow> admission" where
  "abort_queued i s =
     (let s1 = change_waiter i (\<lambda>w. w\<lparr>wt_state := Wait_settled\<rparr>) s;
          s2 = s1\<lparr>ad_queue := dequeue (ad_waiters s1) i (ad_queue s1)\<rparr>;
          s3 = pruneRouteBudgets (wt_budgetKeys (ad_waiters s2 ! i)) s2
      in change_waiter i (\<lambda>w. w\<lparr>wt_promise := Promise_rejected\<rparr>) s3)"

definition signal_aborted :: "admission \<Rightarrow> nat \<Rightarrow> bool" where
  "signal_aborted s i = (case wt_signal (ad_waiters s ! i) of None \<Rightarrow> False | Some g \<Rightarrow> g \<in> ad_aborted s)"

text \<open>The comparison of \<open>sort\<close>: effective tier, then id, then base before headroom.\<close>

definition comes_before :: "adm_config \<Rightarrow> waiter list \<Rightarrow> rat \<Rightarrow> nat \<times> slot_kind \<Rightarrow> nat \<times> slot_kind \<Rightarrow> bool" where
  "comes_before cf ws now l r =
     (let a = effectiveTier cf (ws ! fst l) now; b = effectiveTier cf (ws ! fst r) now in
      if a \<noteq> b then a < b else if fst l \<noteq> fst r then fst l < fst r else snd l = Slot_base)"

definition first_of :: "('a \<Rightarrow> 'a \<Rightarrow> bool) \<Rightarrow> 'a list \<Rightarrow> 'a option" where
  "first_of earlier xs = (case xs of [] \<Rightarrow> None
     | x # rest \<Rightarrow> Some (foldl (\<lambda>best y. if earlier y best then y else best) x rest))"

definition peek_base :: "adm_class \<Rightarrow> adm_tier \<Rightarrow> admission \<Rightarrow> candidate option \<times> admission" where
  "peek_base c t s =
     (let q = ad_queue s; (found, items) = peek (candidateIsValid (ad_waiters s) q Slot_base) (wq_base q c t)
      in (found, s\<lparr>ad_queue := q\<lparr>wq_base := update2 (wq_base q) c t items\<rparr>\<rparr>))"

definition peek_headroom :: "adm_class \<Rightarrow> admission \<Rightarrow> candidate option \<times> admission" where
  "peek_headroom c s =
     (let q = ad_queue s; (found, items) = peek (candidateIsValid (ad_waiters s) q Slot_headroom) (wq_headroom q c)
      in (found, s\<lparr>ad_queue := q\<lparr>wq_headroom := (wq_headroom q)(c := items)\<rparr>\<rparr>))"

definition found_slot :: "slot_kind \<Rightarrow> candidate option \<Rightarrow> (nat \<times> slot_kind) list" where
  "found_slot slot found = (case found of None \<Rightarrow> [] | Some cd \<Rightarrow> [(cd_waiter cd, slot)])"

fun base_candidates :: "adm_class \<Rightarrow> adm_tier list \<Rightarrow> admission \<Rightarrow> (nat \<times> slot_kind) list \<times> admission" where
  "base_candidates c [] s = ([], s)"
| "base_candidates c (t # ts) s =
     (let (found, s1) = peek_base c t s; (more, s2) = base_candidates c ts s1
      in (found_slot Slot_base found @ more, s2))"

definition all_candidates :: "adm_class \<Rightarrow> bool \<Rightarrow> bool \<Rightarrow> admission \<Rightarrow> (nat \<times> slot_kind) list \<times> admission" where
  "all_candidates c allowBase allowHeadroom s =
     (let (base, s1) = (if allowBase then base_candidates c tiers s else ([], s)) in
      if allowHeadroom then
        let (found, s2) = peek_headroom c s1 in (base @ found_slot Slot_headroom found, s2)
      else (base, s1))"

section \<open>Termination: how many waiters are queued\<close>

definition queued_count :: "admission \<Rightarrow> nat" where
  "queued_count s = count_where (\<lambda>w. wt_state w = Wait_queued) (ad_waiters s)"

lemma peek_valid: "fst (peek valid items) = Some d \<Longrightarrow> valid d"
proof -
  have "drop_stale valid items \<noteq> [] \<Longrightarrow> valid (drop_stale valid items ! 0)"
    by (induction valid items rule: drop_stale.induct) (metis drop_stale.simps)
  then show "fst (peek valid items) = Some d \<Longrightarrow> valid d" by (auto simp: peek_def Let_def split: if_splits)
qed

lemma peek_base_simps:
  "ad_waiters (snd (peek_base c t s)) = ad_waiters s"
  "fst (peek_base c t s) = Some d \<Longrightarrow> is_queued (ad_waiters s) (cd_waiter d)"
  using peek_valid [of "candidateIsValid (ad_waiters s) (ad_queue s) Slot_base" "wq_base (ad_queue s) c t" d]
  by (auto simp: peek_base_def split_beta Let_def candidateIsValid_def)

lemma peek_headroom_simps:
  "ad_waiters (snd (peek_headroom c s)) = ad_waiters s"
  "fst (peek_headroom c s) = Some d \<Longrightarrow> is_queued (ad_waiters s) (cd_waiter d)"
  using peek_valid [of "candidateIsValid (ad_waiters s) (ad_queue s) Slot_headroom" "wq_headroom (ad_queue s) c" d]
  by (auto simp: peek_headroom_def split_beta Let_def candidateIsValid_def)

lemma base_candidates_simps:
  "ad_waiters (snd (base_candidates c ts s)) = ad_waiters s \<and>
   (\<forall>x\<in>set (fst (base_candidates c ts s)). is_queued (ad_waiters s) (fst x))"
proof (induction ts arbitrary: s)
  case (Cons t ts)
  from Cons.IH [of "snd (peek_base c t s)"] show ?case
    by (auto simp: split_beta Let_def peek_base_simps found_slot_def split: option.splits)
qed simp

lemma all_candidates_simps:
  "ad_waiters (snd (all_candidates c b h s)) = ad_waiters s \<and>
   (\<forall>x\<in>set (fst (all_candidates c b h s)). is_queued (ad_waiters s) (fst x))"
  using base_candidates_simps [of c tiers s]
  by (auto simp: all_candidates_def split_beta Let_def peek_headroom_simps found_slot_def split: option.splits)
    (metis peek_headroom_simps(2))

lemma first_of_mem: "first_of earlier xs = Some x \<Longrightarrow> x \<in> set xs"
proof -
  have "foldl (\<lambda>best y. if earlier y best then y else best) a ys \<in> insert a (set ys)" for a ys
    by (induction ys arbitrary: a) (auto split: if_splits)
  then show "first_of earlier xs = Some x \<Longrightarrow> x \<in> set xs"
    by (cases xs) (auto simp: first_of_def)
qed

lemma prune_simps: "ad_waiters (pruneRouteBudgets keys s) = ad_waiters s"
  unfolding pruneRouteBudgets_def by (induction keys arbitrary: s) simp_all

lemma count_where_update:
  "i < length xs \<Longrightarrow> P (xs ! i) \<Longrightarrow> \<not> P y \<Longrightarrow> count_where P (xs[i := y]) < count_where P xs"
proof (induction xs arbitrary: i)
  case (Cons x xs)
  then show ?case by (cases i) (auto simp: count_where_def)
qed simp

lemma count_where_keep:
  "(i < length xs \<Longrightarrow> P y = P (xs ! i)) \<Longrightarrow> count_where P (xs[i := y]) = count_where P xs"
proof (induction xs arbitrary: i)
  case (Cons x xs)
  then show ?case by (cases i) (auto simp: count_where_def)
qed (simp add: count_where_def)

lemma abort_queued_waiters:
  "ad_waiters (abort_queued i s) =
     (ad_waiters s)[i := (ad_waiters s ! i)\<lparr>wt_state := Wait_settled, wt_promise := Promise_rejected\<rparr>]"
  by (cases "i < length (ad_waiters s)") (simp_all add: abort_queued_def Let_def change_waiter_def prune_simps list_update_beyond)

lemma abort_queued_fewer: "is_queued (ad_waiters s) i \<Longrightarrow> queued_count (abort_queued i s) < queued_count s"
  unfolding queued_count_def abort_queued_waiters by (rule count_where_update) (simp_all add: is_queued_def)

section \<open>Choosing and granting\<close>

function nextFitting ::
  "adm_config \<Rightarrow> adm_class \<Rightarrow> rat \<Rightarrow> bool \<Rightarrow> bool \<Rightarrow> admission \<Rightarrow> (nat \<times> slot_kind) option \<times> admission" where
  "nextFitting cf c now allowBase allowHeadroom s =
     (let (candidates, s1) = all_candidates c allowBase allowHeadroom s in
      case first_of (comes_before cf (ad_waiters s1) now) candidates of
        None \<Rightarrow> (None, s1)
      | Some (i, slot) \<Rightarrow>
          if signal_aborted s1 i then nextFitting cf c now allowBase allowHeadroom (abort_queued i s1)
          else (Some (i, slot), s1))"
  by pat_completeness auto
termination
proof (relation "measure (\<lambda>(cf, c, now, b, h, s). queued_count s)")
  fix cf c now b h s x candidates s1 y i slot
  assume "x = all_candidates c b h s" "(candidates, s1) = x"
    and "first_of (comes_before cf (ad_waiters s1) now) candidates = Some y" "(i, slot) = y"
  with all_candidates_simps [of c b h s] first_of_mem [of "comes_before cf (ad_waiters s1) now" candidates y]
  have "is_queued (ad_waiters s1) i" "ad_waiters s1 = ad_waiters s" by (auto simp: prod_eq_iff)
  with abort_queued_fewer [of s1 i]
  show "((cf, c, now, b, h, abort_queued i s1), cf, c, now, b, h, s) \<in> measure (\<lambda>(cf, c, now, b, h, s). queued_count s)"
    by (simp add: queued_count_def)
qed simp

declare nextFitting.simps [simp del]

lemma nextFitting_queued:
  "nextFitting cf c now b h s = (Some (i, slot), s') \<Longrightarrow>
     is_queued (ad_waiters s') i \<and> queued_count s' \<le> queued_count s"
proof (induction cf c now b h s rule: nextFitting.induct)
  case (1 cf c now b h s)
  obtain candidates s1 where a: "all_candidates c b h s = (candidates, s1)" by (cases "all_candidates c b h s")
  with all_candidates_simps [of c b h s] have w: "ad_waiters s1 = ad_waiters s"
    and m: "\<forall>x\<in>set candidates. is_queued (ad_waiters s) (fst x)" by simp_all
  show ?case
  proof (cases "first_of (comes_before cf (ad_waiters s1) now) candidates")
    case None
    with 1(2) a show ?thesis by (simp add: nextFitting.simps)
  next
    case (Some p)
    obtain j k where p: "p = (j, k)" by (cases p)
    from first_of_mem [OF Some] m p have j: "is_queued (ad_waiters s) j" by auto
    show ?thesis
    proof (cases "signal_aborted s1 j")
      case True
      with 1(2) a Some p have "nextFitting cf c now b h (abort_queued j s1) = (Some (i, slot), s')"
        by (simp add: nextFitting.simps [of cf c now b h s])
      from 1(1) [OF a [symmetric] refl Some p [symmetric] True this] abort_queued_fewer [of s1 j] j w
      show ?thesis by (simp add: queued_count_def)
    next
      case False
      with 1(2) a Some p have "s' = s1" "i = j" by (simp_all add: nextFitting.simps [of cf c now b h s])
      with j w show ?thesis by (simp add: queued_count_def)
    qed
  qed
qed

definition grant :: "adm_config \<Rightarrow> nat \<Rightarrow> slot_kind \<Rightarrow> rat \<Rightarrow> admission \<Rightarrow> admission" where
  "grant cf i slot now s =
     (let s1 = change_waiter i (\<lambda>w. w\<lparr>wt_state := Wait_granted, wt_slotKind := Some slot\<rparr>) s;
          w = ad_waiters s1 ! i;
          s2 = s1\<lparr>ad_budgets := use_keys cf slot 1 (wt_budgetKeys w) (ad_budgets s1)\<rparr>;
          s3 = refreshRouteEligibility cf (wt_class w) (wt_route w) s2;
          s4 = s3\<lparr>ad_queue := dequeue (ad_waiters s3) i (ad_queue s3)\<rparr>
      in publishEvent cf i slot Phase_grant (max 0 (now - wt_enqueuedAt w)) s4)"

lemma refresh_waiters [simp]: "ad_waiters (refreshRouteEligibility cf c r s) = ad_waiters s"
  by (simp add: refreshRouteEligibility_def Let_def)

lemma publish_waiters [simp]: "ad_waiters (publishEvent cf i slot phase w s) = ad_waiters s"
  by (simp add: publishEvent_def)

lemma grant_waiters:
  "ad_waiters (grant cf i slot now s) =
     (ad_waiters s)[i := (ad_waiters s ! i)\<lparr>wt_state := Wait_granted, wt_slotKind := Some slot\<rparr>]"
  by (simp add: grant_def Let_def change_waiter_def)

lemma grant_fewer: "is_queued (ad_waiters s) i \<Longrightarrow> queued_count (grant cf i slot now s) < queued_count s"
  unfolding queued_count_def grant_waiters by (rule count_where_update) (simp_all add: is_queued_def)

text \<open>\<open>drain\<close>: grant what fits, one waiter after the other. The loop ends because each round settles a waiter.\<close>

definition drain_round :: "adm_config \<Rightarrow> adm_class \<Rightarrow> admission \<Rightarrow> ((nat \<times> slot_kind) \<times> rat) option \<times> admission" where
  "drain_round cf c s =
     (let (now, s1) = read_clock cf s;
          s2 = s1\<lparr>ad_budgets := ensureBudget cf (class_key c) (ad_budgets s1)\<rparr>;
          b = the (map_of (ad_budgets s2) (class_key c));
          (selected, s3) = nextFitting cf c now (has_room Slot_base b) (has_room Slot_headroom b) s2
      in (map_option (\<lambda>x. (x, now)) selected, s3))"

lemma drain_round_queued:
  "drain_round cf c s = (Some ((i, slot), now), s') \<Longrightarrow>
     is_queued (ad_waiters s') i \<and> queued_count s' \<le> queued_count s"
  using nextFitting_queued [of cf c now _ _ _ i slot s']
  by (fastforce simp: drain_round_def read_clock_def split_beta Let_def prod_eq_iff queued_count_def)

function drain :: "adm_config \<Rightarrow> adm_class \<Rightarrow> admission \<Rightarrow> admission" where
  "drain cf c s =
     (case drain_round cf c s of
        (None, s') \<Rightarrow> s'
      | (Some ((i, slot), now), s') \<Rightarrow> drain cf c (grant cf i slot now s'))"
  by pat_completeness auto
termination
proof (relation "measure (\<lambda>(cf, c, s). queued_count s)")
  fix cf c s x s' y z now i slot
  assume "(x, s') = drain_round cf c s" "x = Some y" "(z, now) = y" "(i, slot) = z"
  with drain_round_queued [of cf c s i slot now s'] grant_fewer [of s' i cf slot now]
  show "((cf, c, grant cf i slot now s'), cf, c, s) \<in> measure (\<lambda>(cf, c, s). queued_count s)" by auto
qed simp

declare drain.simps [simp del]

section \<open>The calls\<close>

text \<open>The body of the closure \<open>releaseOnce\<close> makes.\<close>

definition release_slot :: "adm_config \<Rightarrow> nat \<Rightarrow> slot_kind \<Rightarrow> rat \<Rightarrow> admission \<Rightarrow> admission" where
  "release_slot cf i slot queueWaitMs s =
     (let s1 = change_waiter i (\<lambda>w. w\<lparr>wt_released := True\<rparr>) s;
          w = ad_waiters s1 ! i;
          s2 = s1\<lparr>ad_budgets := use_keys cf slot (- 1) (wt_budgetKeys w) (ad_budgets s1)\<rparr>;
          s3 = refreshRouteEligibility cf (wt_class w) (wt_route w) s2;
          s4 = publishEvent cf i slot Phase_release queueWaitMs s3;
          s5 = pruneRouteBudgets (wt_budgetKeys w) s4
      in drain cf (wt_class w) s5)"

definition abort_waiter :: "adm_config \<Rightarrow> nat \<Rightarrow> admission \<Rightarrow> admission" where
  "abort_waiter cf i s =
     (let w = ad_waiters s ! i in
      case wt_state w of
        Wait_settled \<Rightarrow> s
      | Wait_queued \<Rightarrow> abort_queued i s
      | Wait_granted \<Rightarrow>
          let s1 = (case wt_slotKind w of
                None \<Rightarrow> s
              | Some slot \<Rightarrow>
                  let (now, s0) = read_clock cf s in release_slot cf i slot (max 0 (now - wt_enqueuedAt w)) s0)
          in change_waiter i (\<lambda>w. w\<lparr>wt_state := Wait_settled, wt_promise := Promise_rejected\<rparr>) s1)"

record adm_request =
  rq_args :: "string list"
  rq_cwd :: string
  rq_wslDistro :: "string option"
  rq_tier :: "adm_tier option"
  rq_signal :: "nat option"

definition request_class :: "adm_request \<Rightarrow> adm_class" where
  "request_class rq = (if classifyGitCommand (rq_args rq) = Command_network then Class_network else Class_general)"

definition request_keys :: "adm_request \<Rightarrow> string list" where
  "request_keys rq =
     (let c = request_class rq; r = routeKey (rq_wslDistro rq) (rq_cwd rq) in
      class_key c # (if truthy r then [route_budget c (the r)] else []))"

definition new_waiter :: "adm_request \<Rightarrow> rat \<Rightarrow> waiter" where
  "new_waiter rq enqueuedAt =
     \<lparr>wt_args = rq_args rq, wt_tier = (case rq_tier rq of None \<Rightarrow> Tier_status | Some t \<Rightarrow> t),
      wt_class = request_class rq, wt_route = routeKey (rq_wslDistro rq) (rq_cwd rq), wt_enqueuedAt = enqueuedAt,
      wt_budgetKeys = request_keys rq, wt_signal = rq_signal rq, wt_state = Wait_queued, wt_slotKind = None,
      wt_promise = Promise_pending, wt_released = False\<rparr>"

text \<open>\<open>acquire\<close>: an aborted request is rejected at once, without a waiter.\<close>

definition enqueue_request :: "adm_config \<Rightarrow> adm_request \<Rightarrow> admission \<Rightarrow> admission" where
  "enqueue_request cf rq s =
     (let (enqueuedAt, s1) = read_clock cf s;
          s2 = s1\<lparr>ad_budgets := fold (ensureBudget cf) (request_keys rq) (ad_budgets s1)\<rparr>;
          w = new_waiter rq enqueuedAt;
          s3 = s2\<lparr>ad_waiters := ad_waiters s2 @ [w]\<rparr>;
          s4 = s3\<lparr>ad_queue := enqueue (ad_waiters s3) (length (ad_waiters s2)) (ad_queue s3)\<rparr>
      in refreshRouteEligibility cf (wt_class w) (wt_route w) s4)"

definition acquire_waiter :: "adm_config \<Rightarrow> adm_request \<Rightarrow> admission \<Rightarrow> admission" where
  "acquire_waiter cf rq s =
     (if (case rq_signal rq of None \<Rightarrow> False | Some g \<Rightarrow> g \<in> ad_aborted s) then s
      else
        let i = length (ad_waiters s); s5 = enqueue_request cf rq s; w = ad_waiters s5 ! i in
        if signal_aborted s5 i then abort_waiter cf i s5
        else
          let (slot, budgets) = slotKindFor cf w (ad_budgets s5); s6 = s5\<lparr>ad_budgets := budgets\<rparr>
          in if slot \<noteq> None then drain cf (wt_class w) s6 else s6)"

text \<open>The microtask that resolves a grant, the closure it hands out, and the abort of a signal.\<close>

definition settle_grant :: "nat \<Rightarrow> admission \<Rightarrow> admission" where
  "settle_grant i s =
     (if wt_state (ad_waiters s ! i) \<noteq> Wait_granted then s
      else change_waiter i (\<lambda>w. w\<lparr>wt_state := Wait_settled, wt_promise := Promise_resolved\<rparr>) s)"

definition release_grant :: "adm_config \<Rightarrow> nat \<Rightarrow> rat \<Rightarrow> admission \<Rightarrow> admission" where
  "release_grant cf i queueWaitMs s =
     (let w = ad_waiters s ! i in
      if wt_released w then s
      else case wt_slotKind w of None \<Rightarrow> s | Some slot \<Rightarrow> release_slot cf i slot queueWaitMs s)"

definition abort_signal :: "adm_config \<Rightarrow> nat \<Rightarrow> admission \<Rightarrow> admission" where
  "abort_signal cf g s =
     fold (abort_waiter cf) (filter (\<lambda>i. wt_signal (ad_waiters s ! i) = Some g) [0..<length (ad_waiters s)])
       (s\<lparr>ad_aborted := insert g (ad_aborted s)\<rparr>)"

definition admission_snapshot :: "admission \<Rightarrow> int \<times> (nat \<times> string list \<times> adm_tier) list \<times> (string \<times> int \<times> int) list \<times> nat" where
  "admission_snapshot s =
     (wq_total (ad_queue s),
      map (\<lambda>i. (i, wt_args (ad_waiters s ! i), wt_tier (ad_waiters s ! i))) (queue_snapshot (ad_waiters s) (ad_queue s)),
      map (\<lambda>(k, b). (k, bg_baseUsed b, bg_headroomUsed b)) (ad_budgets s), candidateCount (ad_queue s))"

end
