(* ===== verification/Git_Queue.thy ===== *)
theory Git_Queue
  imports Git_Scheduler
begin

text \<open>
  The invariant of the waiter queue. A lane holds the queued waiters of one class, tier and route in order of
  arrival and shows the oldest of them, the heaps hold a current candidate for every lane that is eligible,
  and the counters count. Between the moment a waiter stops being queued and its \<open>dequeue\<close> the lane still counts
  it: it is the pending waiter of the invariant.
\<close>

section \<open>The invariant\<close>

type_synonym place = "adm_class \<times> adm_tier \<times> string option"

definition place_of :: "waiter list \<Rightarrow> nat \<Rightarrow> place" where
  "place_of ws i = (wt_class (ws ! i), wt_tier (ws ! i), wt_route (ws ! i))"

definition queued_at :: "waiter list \<Rightarrow> place \<Rightarrow> nat list" where
  "queued_at ws k = filter (\<lambda>i. is_queued ws i \<and> place_of ws i = k) [0..<length ws]"

definition lane_at :: "wait_queue \<Rightarrow> place \<Rightarrow> nat option" where
  "lane_at q k = (case k of (c, t, r) \<Rightarrow> map_of (wq_table q c t) r)"

definition pending_at :: "waiter list \<Rightarrow> nat option \<Rightarrow> place \<Rightarrow> bool" where
  "pending_at ws p k \<longleftrightarrow> (case p of None \<Rightarrow> False | Some i \<Rightarrow> place_of ws i = k)"

definition lane_ok :: "waiter list \<Rightarrow> nat option \<Rightarrow> place \<Rightarrow> bool \<times> bool \<Rightarrow> lane \<Rightarrow> bool" where
  "lane_ok ws p k e la \<longleftrightarrow>
     set (ln_items la) \<subseteq> {..<length ws} \<and>
     filter (is_queued ws) (drop (ln_head la) (ln_items la)) = queued_at ws k \<and>
     ln_count la = int (length (queued_at ws k)) + (if pending_at ws p k then 1 else 0) \<and>
     (ln_baseEligible la, ln_headroomEligible la) = e \<and>
     (queued_at ws k \<noteq> [] \<and> lane_head la = Some (hd (queued_at ws k)) \<or> pending_at ws p k \<and> lane_head la = p)"

definition own_candidate :: "waiter list \<Rightarrow> wait_queue \<Rightarrow> adm_class \<Rightarrow> adm_tier \<Rightarrow> candidate \<Rightarrow> bool" where
  "own_candidate ws q c t cd \<longleftrightarrow>
     cd_lane cd < length (wq_lanes q) \<and> cd_waiter cd < length ws \<and>
     wt_class (ws ! cd_waiter cd) = c \<and> wt_tier (ws ! cd_waiter cd) = t"

definition lane_candidates :: "waiter list \<Rightarrow> nat set \<Rightarrow> wait_queue \<Rightarrow> slot_kind \<Rightarrow> adm_class \<Rightarrow> adm_tier \<Rightarrow> candidate set" where
  "lane_candidates ws X q slot c t =
     {cd. (\<exists>r. lane_at q (c, t, r) = Some (cd_lane cd)) \<and> cd_lane cd \<notin> X \<and> candidateIsValid ws q slot cd}"

definition heaps_ok :: "waiter list \<Rightarrow> nat set \<Rightarrow> wait_queue \<Rightarrow> bool" where
  "heaps_ok ws X q \<longleftrightarrow>
     (\<forall>c t. candidate_heap.holds_valid (own_candidate ws q c t) (candidateIsValid ws q Slot_base)
        (lane_candidates ws X q Slot_base c t) (wq_base q c t)) \<and>
     (\<forall>c. candidate_heap.holds_valid (own_candidate ws q c Tier_interactive) (candidateIsValid ws q Slot_headroom)
        (lane_candidates ws X q Slot_headroom c Tier_interactive) (wq_headroom q c))"

definition lanes_ok :: "waiter list \<Rightarrow> nat option \<Rightarrow> (place \<Rightarrow> bool \<times> bool) \<Rightarrow> wait_queue \<Rightarrow> bool" where
  "lanes_ok ws p el q \<longleftrightarrow>
     (\<forall>k l. lane_at q k = Some l \<longrightarrow> l < length (wq_lanes q) \<and> lane_ok ws p k (el k) (wq_lanes q ! l)) \<and>
     (\<forall>k k' l. lane_at q k = Some l \<and> lane_at q k' = Some l \<longrightarrow> k = k') \<and>
     (\<forall>k. lane_at q k \<noteq> None \<longleftrightarrow> queued_at ws k \<noteq> [] \<or> pending_at ws p k) \<and>
     (\<forall>l<length (wq_lanes q). (\<forall>k. lane_at q k \<noteq> Some l) \<longrightarrow> ln_items (wq_lanes q ! l) = [])"

text \<open>The counters: all queued waiters, and those of a budget.\<close>

definition key_count :: "waiter list \<Rightarrow> nat option \<Rightarrow> string \<Rightarrow> nat" where
  "key_count ws p key = count_where (\<lambda>w. wt_state w = Wait_queued \<and> key \<in> set (wt_budgetKeys w)) ws
     + (case p of None \<Rightarrow> 0 | Some i \<Rightarrow> of_bool (key \<in> set (wt_budgetKeys (ws ! i))))"

definition counts_ok :: "waiter list \<Rightarrow> nat option \<Rightarrow> wait_queue \<Rightarrow> bool" where
  "counts_ok ws p q \<longleftrightarrow>
     (\<forall>key. wq_counts q key = (if key_count ws p key = 0 then None else Some (key_count ws p key))) \<and>
     wq_total q = int (count_where (\<lambda>w. wt_state w = Wait_queued) ws) + (if p = None then 0 else 1)"

definition queue_ok :: "waiter list \<Rightarrow> nat option \<Rightarrow> (place \<Rightarrow> bool \<times> bool) \<Rightarrow> wait_queue \<Rightarrow> bool" where
  "queue_ok ws p el q \<longleftrightarrow> lanes_ok ws p el q \<and> heaps_ok ws {} q \<and> counts_ok ws p q"

lemma lanes_okD:
  assumes "lanes_ok ws p el q"
  shows "lane_at q k = Some l \<Longrightarrow> l < length (wq_lanes q)"
    and "lane_at q k = Some l \<Longrightarrow> lane_ok ws p k (el k) (wq_lanes q ! l)"
    and "lane_at q k = Some l \<Longrightarrow> lane_at q k' = Some l \<Longrightarrow> k = k'"
    and "lane_at q k \<noteq> None \<longleftrightarrow> queued_at ws k \<noteq> [] \<or> pending_at ws p k"
    and "l < length (wq_lanes q) \<Longrightarrow> ln_items (wq_lanes q ! l) \<noteq> [] \<Longrightarrow> \<exists>k. lane_at q k = Some l"
  using assms unfolding lanes_ok_def by blast+

lemma lanes_okI:
  assumes "\<And>k l. lane_at q k = Some l \<Longrightarrow> l < length (wq_lanes q) \<and> lane_ok ws p k (el k) (wq_lanes q ! l)"
    and "\<And>k k' l. lane_at q k = Some l \<Longrightarrow> lane_at q k' = Some l \<Longrightarrow> k = k'"
    and "\<And>k. lane_at q k \<noteq> None \<longleftrightarrow> queued_at ws k \<noteq> [] \<or> pending_at ws p k"
    and "\<And>l. l < length (wq_lanes q) \<Longrightarrow> (\<And>k. lane_at q k \<noteq> Some l) \<Longrightarrow> ln_items (wq_lanes q ! l) = []"
  shows "lanes_ok ws p el q"
  using assms unfolding lanes_ok_def by blast

section \<open>Candidates of lanes\<close>

lemma lane_head_drop:
  "lane_head la = Some i \<Longrightarrow> drop (ln_head la) (ln_items la) = i # drop (Suc (ln_head la)) (ln_items la)"
  by (auto simp: lane_head_def Cons_nth_drop_Suc [symmetric] split: if_splits)

lemma candidateIsValid_cong:
  "wq_lanes q ! cd_lane cd = wq_lanes q' ! cd_lane cd \<Longrightarrow> candidateIsValid ws q slot cd = candidateIsValid ws q' slot cd"
  by (simp add: candidateIsValid_def)

lemma valid_in_lane:
  assumes "lanes_ok ws p el q" and "candidateIsValid ws q slot cd" and "cd_lane cd < length (wq_lanes q)"
  shows "lane_at q (place_of ws (cd_waiter cd)) = Some (cd_lane cd)"
proof -
  let ?la = "wq_lanes q ! cd_lane cd"
  from assms(2) have h: "lane_head ?la = Some (cd_waiter cd)" and qd: "is_queued ws (cd_waiter cd)"
    by (simp_all add: candidateIsValid_def Let_def)
  then have "ln_items ?la \<noteq> []" by (auto simp: lane_head_def split: if_splits)
  from lanes_okD(5) [OF assms(1,3) this] obtain k where k: "lane_at q k = Some (cd_lane cd)" by blast
  from lanes_okD(2) [OF assms(1) k] have f: "filter (is_queued ws) (drop (ln_head ?la) (ln_items ?la)) = queued_at ws k" by (simp add: lane_ok_def)
  from lane_head_drop [OF h] qd f have "cd_waiter cd \<in> set (queued_at ws k)" by (metis filter.simps(2) list.set_intros(1))
  then have "place_of ws (cd_waiter cd) = k" by (simp add: queued_at_def)
  with k show ?thesis by simp
qed

text \<open>The only heaps the queue's helpers touch, and how.\<close>

lemma publish_fields [simp]:
  "wq_lanes (publishLaneHead ws c t l q) = wq_lanes q" "wq_table (publishLaneHead ws c t l q) = wq_table q"
  "wq_counts (publishLaneHead ws c t l q) = wq_counts q" "wq_total (publishLaneHead ws c t l q) = wq_total q"
  by (simp_all add: publishLaneHead_def push_base_def push_headroom_def Let_def split: option.split)

lemma compact_fields [simp]:
  "wq_lanes (compactCandidateHeaps ws c t q) = wq_lanes q" "wq_table (compactCandidateHeaps ws c t q) = wq_table q"
  "wq_counts (compactCandidateHeaps ws c t q) = wq_counts q" "wq_total (compactCandidateHeaps ws c t q) = wq_total q"
  by (simp_all add: compactCandidateHeaps_def Let_def)

lemma lane_at_cong: "wq_table q = wq_table q' \<Longrightarrow> lane_at q = lane_at q'"
  by (auto simp: lane_at_def fun_eq_iff)

lemma lanes_ok_cong:
  "wq_lanes q = wq_lanes q' \<Longrightarrow> wq_table q = wq_table q' \<Longrightarrow> lanes_ok ws p el q = lanes_ok ws p el q'"
  using lane_at_cong [of q q'] by (simp add: lanes_ok_def)

lemma counts_ok_cong:
  "wq_counts q = wq_counts q' \<Longrightarrow> wq_total q = wq_total q' \<Longrightarrow> counts_ok ws p q = counts_ok ws p q'"
  by (simp add: counts_ok_def)

lemma valid_cong: "wq_lanes q = wq_lanes q' \<Longrightarrow> candidateIsValid ws q = candidateIsValid ws q'"
  by (simp add: candidateIsValid_def fun_eq_iff)

lemma own_cong: "wq_lanes q = wq_lanes q' \<Longrightarrow> own_candidate ws q = own_candidate ws q'"
  by (simp add: own_candidate_def fun_eq_iff)

lemma lane_candidates_cong:
  "wq_lanes q = wq_lanes q' \<Longrightarrow> wq_table q = wq_table q' \<Longrightarrow> lane_candidates ws X q = lane_candidates ws X q'"
  using lane_at_cong [of q q'] valid_cong [of q q' ws] by (simp add: lane_candidates_def fun_eq_iff)

lemma compact_heaps_ok:
  assumes "heaps_ok ws X q"
  shows "heaps_ok ws X (compactCandidateHeaps ws c t q)"
proof -
  let ?q = "compactCandidateHeaps ws c t q"
  have v: "candidateIsValid ws ?q = candidateIsValid ws q" by (rule valid_cong) simp
  have o': "own_candidate ws ?q = own_candidate ws q" by (rule own_cong) simp
  have n: "lane_candidates ws X ?q = lane_candidates ws X q" by (rule lane_candidates_cong) simp_all
  have v1: "candidateIsValid ws (q\<lparr>wq_base := b\<rparr>) = candidateIsValid ws q" for b by (rule valid_cong) simp
  show ?thesis
    using assms unfolding heaps_ok_def v o' n
    by (auto simp: compactCandidateHeaps_def Let_def update2_apply v1 intro!: candidate_heap.holds_tidy)
qed

lemma lane_candidates_insert:
  assumes "lane_at q (c, t, r) = Some l" and "lanes_ok ws p el q"
  shows "lane_candidates ws X q slot c' t' \<subseteq> lane_candidates ws (insert l X) q slot c' t' \<union>
    (if c' = c \<and> t' = t then {cd. cd_lane cd = l \<and> candidateIsValid ws q slot cd} else {})"
proof -
  have "c' = c \<and> t' = t" if "lane_at q (c', t', r') = Some l" for r'
    using lanes_okD(3) [OF assms(2) assms(1) that] by simp
  then show ?thesis unfolding lane_candidates_def by (intro subsetI) (simp, metis)
qed

lemma valid_of_lane:
  "cd_lane cd = l \<Longrightarrow> candidateIsValid ws q slot cd \<Longrightarrow>
     lane_head (wq_lanes q ! l) = Some (cd_waiter cd) \<and> is_queued ws (cd_waiter cd) \<and>
     cd = \<lparr>cd_lane = l, cd_waiter = cd_waiter cd, cd_version = ln_version (wq_lanes q ! l)\<rparr> \<and>
     (if slot = Slot_base then ln_baseEligible (wq_lanes q ! l) else ln_headroomEligible (wq_lanes q ! l))"
  by (cases cd) (simp add: candidateIsValid_def Let_def)

lemma holds_weaken:
  "candidate_heap.holds_valid own valid needed h \<Longrightarrow> needed' \<subseteq> needed \<Longrightarrow> candidate_heap.holds_valid own valid needed' h"
  unfolding candidate_heap.holds_valid_def by blast

text \<open>Publishing the head of a lane restores the one lane whose candidate was missing.\<close>

lemma publish_heaps_ok:
  assumes "heaps_ok ws {l} q" and "lane_at q (c, t, r) = Some l" and "lanes_ok ws p el q"
  shows "heaps_ok ws {} (publishLaneHead ws c t l q)"
proof -
  let ?q = "publishLaneHead ws c t l q"
  let ?la = "wq_lanes q ! l"
  have v: "candidateIsValid ws ?q = candidateIsValid ws q" by (rule valid_cong) simp
  have o': "own_candidate ws ?q = own_candidate ws q" by (rule own_cong) simp
  have n: "lane_candidates ws {} ?q = lane_candidates ws {} q" by (rule lane_candidates_cong) simp_all
  note ins = lane_candidates_insert [OF assms(2,3), of "{}"]
  have l: "l < length (wq_lanes q)" by (rule lanes_okD(1) [OF assms(3,2)])
  show ?thesis
  proof (cases "\<exists>i. lane_head ?la = Some i \<and> is_queued ws i")
    case False
    then have "?q = q" by (auto simp: publishLaneHead_def Let_def split: option.split)
    moreover have "lane_candidates ws {} q slot c' t' \<subseteq> lane_candidates ws {l} q slot c' t'" for slot c' t'
      using ins [of slot c' t'] False valid_of_lane by (fastforce split: if_splits)
    ultimately show ?thesis using assms(1) holds_weaken unfolding heaps_ok_def by (metis (no_types, lifting))
  next
    case True
    then obtain i where i: "lane_head ?la = Some i" "is_queued ws i" by blast
    let ?cd = "\<lparr>cd_lane = l, cd_waiter = i, cd_version = ln_version ?la\<rparr>"
    have valid: "candidateIsValid ws q slot ?cd \<longleftrightarrow> (if slot = Slot_base then ln_baseEligible ?la else ln_headroomEligible ?la)"
      for slot using i by (simp add: candidateIsValid_def)
    have place: "place_of ws i = (c, t, r)"
    proof -
      have "i \<in> set (queued_at ws (c, t, r))"
      proof -
        have "filter (is_queued ws) (drop (ln_head ?la) (ln_items ?la)) = queued_at ws (c, t, r)"
          using lanes_okD(2) [OF assms(3,2)] by (simp add: lane_ok_def)
        with lane_head_drop [OF i(1)] show ?thesis using i(2) by (metis filter.simps(2) list.set_intros(1))
      qed
      then show ?thesis by (simp add: queued_at_def)
    qed
    then have own: "own_candidate ws q c t ?cd"
      using l i(2) by (simp add: own_candidate_def place_of_def is_queued_def)
    have only: "{cd. cd_lane cd = l \<and> candidateIsValid ws q slot cd}
        = (if (if slot = Slot_base then ln_baseEligible ?la else ln_headroomEligible ?la) then {?cd} else {})" for slot
      using valid_of_lane [of _ l ws q slot] i(1) valid [of slot] by (auto split: if_splits)
    let ?pub = "publishLaneHead ws c t l q"
    have base: "wq_base ?pub c' t' = (if c' = c \<and> t' = t \<and> ln_baseEligible ?la then push ?cd (wq_base q c t) else wq_base q c' t')"
      and head: "wq_headroom ?pub c' = (if c' = c \<and> t = Tier_interactive \<and> ln_headroomEligible ?la
          then push ?cd (wq_headroom q c) else wq_headroom q c')" for c' t'
      using i by (auto simp: publishLaneHead_def Let_def push_base_def push_headroom_def update2_apply)
    show ?thesis
      unfolding heaps_ok_def v o' n
    proof (intro conjI allI)
      fix c' t'
      have h: "candidate_heap.holds_valid (own_candidate ws q c' t') (candidateIsValid ws q Slot_base)
          (lane_candidates ws {l} q Slot_base c' t') (wq_base q c' t')"
        using assms(1) by (simp add: heaps_ok_def)
      show "candidate_heap.holds_valid (own_candidate ws q c' t') (candidateIsValid ws q Slot_base)
          (lane_candidates ws {} q Slot_base c' t') (wq_base ?pub c' t')"
      proof (cases "c' = c \<and> t' = t \<and> ln_baseEligible ?la")
        case True
        with h have "candidate_heap.holds_valid (own_candidate ws q c t) (candidateIsValid ws q Slot_base)
            (insert ?cd (lane_candidates ws {l} q Slot_base c t)) (push ?cd (wq_base q c t))"
          using candidate_heap.holds_add_new own valid [of Slot_base] by auto
        with True ins [of Slot_base c t] only [of Slot_base] show ?thesis
          unfolding base by (auto intro: holds_weaken)
      next
        case False
        with ins [of Slot_base c' t'] only [of Slot_base] h show ?thesis
          unfolding base by (auto intro: holds_weaken split: if_splits)
      qed
    next
      fix c'
      have h: "candidate_heap.holds_valid (own_candidate ws q c' Tier_interactive) (candidateIsValid ws q Slot_headroom)
          (lane_candidates ws {l} q Slot_headroom c' Tier_interactive) (wq_headroom q c')"
        using assms(1) by (simp add: heaps_ok_def)
      show "candidate_heap.holds_valid (own_candidate ws q c' Tier_interactive) (candidateIsValid ws q Slot_headroom)
          (lane_candidates ws {} q Slot_headroom c' Tier_interactive) (wq_headroom ?pub c')"
      proof (cases "c' = c \<and> t = Tier_interactive \<and> ln_headroomEligible ?la")
        case True
        with h own have "candidate_heap.holds_valid (own_candidate ws q c Tier_interactive) (candidateIsValid ws q Slot_headroom)
            (insert ?cd (lane_candidates ws {l} q Slot_headroom c Tier_interactive)) (push ?cd (wq_headroom q c))"
          using candidate_heap.holds_add_new valid [of Slot_headroom] by auto
        with True ins [of Slot_headroom c Tier_interactive] only [of Slot_headroom] show ?thesis
          unfolding head by (auto intro: holds_weaken)
      next
        case False
        with ins [of Slot_headroom c' Tier_interactive] only [of Slot_headroom] h show ?thesis
          unfolding head by (auto intro: holds_weaken split: if_splits)
      qed
    qed
  qed
qed

text \<open>
  Every operation of the waiter queue keeps its invariant: a waiter stops being queued, \<open>dequeue\<close> takes the pending
  waiter out, \<open>enqueue\<close> takes a new one in, and a change of a route's eligibility reaches the lanes of the route.
\<close>

section \<open>Changes the heaps survive\<close>

lemma holds_change:
  assumes "candidate_heap.holds_valid own valid needed h"
    and "\<And>cd. own cd \<Longrightarrow> own' cd" and "needed' \<subseteq> needed" and "\<And>cd. cd \<in> needed' \<Longrightarrow> valid' cd"
  shows "candidate_heap.holds_valid own' valid' needed' h"
  using assms unfolding candidate_heap.holds_valid_def by blast

lemma heaps_change:
  assumes "heaps_ok ws X q" and "wq_base q' = wq_base q" and "wq_headroom q' = wq_headroom q"
    and "length (wq_lanes q) \<le> length (wq_lanes q')" and "length ws \<le> length ws'"
    and place: "\<And>i. i < length ws \<Longrightarrow> place_of ws' i = place_of ws i"
    and sub: "\<And>slot c t. lane_candidates ws' X' q' slot c t \<subseteq> lane_candidates ws X q slot c t"
  shows "heaps_ok ws' X' q'"
proof -
  have own: "own_candidate ws q c t cd \<Longrightarrow> own_candidate ws' q' c t cd" for c t cd
    using assms(4,5) place [of "cd_waiter cd"] by (auto simp: own_candidate_def place_of_def)
  have valid: "cd \<in> lane_candidates ws' X' q' slot c t \<Longrightarrow> candidateIsValid ws' q' slot cd" for cd slot c t
    by (simp add: lane_candidates_def)
  from assms(1) have base: "candidate_heap.holds_valid (own_candidate ws q c t) (candidateIsValid ws q Slot_base)
      (lane_candidates ws X q Slot_base c t) (wq_base q c t)"
    and head: "candidate_heap.holds_valid (own_candidate ws q c Tier_interactive) (candidateIsValid ws q Slot_headroom)
      (lane_candidates ws X q Slot_headroom c Tier_interactive) (wq_headroom q c)" for c t
    unfolding heaps_ok_def by blast+
  show ?thesis
    unfolding heaps_ok_def assms(2,3)
  proof (intro conjI allI)
    fix c t
    show "candidate_heap.holds_valid (own_candidate ws' q' c t) (candidateIsValid ws' q' Slot_base)
      (lane_candidates ws' X' q' Slot_base c t) (wq_base q c t)"
      by (rule holds_change [OF base own sub valid])
  next
    fix c
    show "candidate_heap.holds_valid (own_candidate ws' q' c Tier_interactive) (candidateIsValid ws' q' Slot_headroom)
      (lane_candidates ws' X' q' Slot_headroom c Tier_interactive) (wq_headroom q c)"
      by (rule holds_change [OF head own sub valid])
  qed
qed

lemma new_version_simps [simp]:
  "ln_items (new_version la) = ln_items la" "ln_head (new_version la) = ln_head la"
  "ln_count (new_version la) = ln_count la" "ln_baseEligible (new_version la) = ln_baseEligible la"
  "ln_headroomEligible (new_version la) = ln_headroomEligible la" "lane_head (new_version la) = lane_head la"
  "ln_version (new_version la) = Suc (ln_version la)"
  by (simp_all add: new_version_def lane_head_def)

lemma lane_head_eligible [simp]:
  "lane_head (la\<lparr>ln_baseEligible := b, ln_headroomEligible := h\<rparr>) = lane_head la"
  "lane_head (la\<lparr>ln_count := n\<rparr>) = lane_head la"
  by (simp_all add: lane_head_def)

lemma set_lane_fields [simp]:
  "wq_lanes (set_lane l la q) = (wq_lanes q)[l := la]" "wq_table (set_lane l la q) = wq_table q"
  "wq_counts (set_lane l la q) = wq_counts q" "wq_total (set_lane l la q) = wq_total q"
  "wq_base (set_lane l la q) = wq_base q" "wq_headroom (set_lane l la q) = wq_headroom q"
  by (simp_all add: set_lane_def)

lemma lane_at_set_lane [simp]: "lane_at (set_lane l la q) = lane_at q"
  by (rule lane_at_cong) simp

lemma set_lane_heaps:
  assumes "heaps_ok ws {} q"
  shows "heaps_ok ws {l} (set_lane l la q)"
proof (rule heaps_change [OF assms])
  fix slot c t
  show "lane_candidates ws {l} (set_lane l la q) slot c t \<subseteq> lane_candidates ws {} q slot c t"
    by (auto simp: lane_candidates_def candidateIsValid_def Let_def)
qed simp_all

lemma set_lane_lanes:
  assumes "lanes_ok ws p el q" and "lane_at q k = Some l" and "lane_ok ws p k e la"
  shows "lanes_ok ws p (el(k := e)) (set_lane l la q)"
proof (rule lanes_okI)
  fix k' l'
  assume a: "lane_at (set_lane l la q) k' = Some l'"
  then have a': "lane_at q k' = Some l'" by simp
  show "l' < length (wq_lanes (set_lane l la q)) \<and> lane_ok ws p k' ((el(k := e)) k') (wq_lanes (set_lane l la q) ! l')"
  proof (cases "l' = l")
    case True
    with lanes_okD(3) [OF assms(1,2)] a' have "k' = k" by simp
    with True assms(3) lanes_okD(1) [OF assms(1,2)] show ?thesis by simp
  next
    case False
    then have "k' \<noteq> k" using a' assms(2) by auto
    with False lanes_okD(1,2) [OF assms(1) a'] show ?thesis by simp
  qed
next
  fix l' assume l': "l' < length (wq_lanes (set_lane l la q))" "\<And>k. lane_at (set_lane l la q) k \<noteq> Some l'"
  have "l' \<noteq> l" using l'(2) [of k] assms(2) by auto
  with l' lanes_okD(5) [OF assms(1), of l'] show "ln_items (wq_lanes (set_lane l la q) ! l') = []" by auto
qed (use lanes_okD(3,4) [OF assms(1)] in auto)

section \<open>Eligibility\<close>

lemma update_tier_ok:
  assumes "queue_ok ws p el q"
  shows "queue_ok ws p (el((c, t, r) := (b, h))) (update_tier ws c r b h t q)"
proof -
  from assms have l': "lanes_ok ws p el q" and hp: "heaps_ok ws {} q" and ct: "counts_ok ws p q"
    by (simp_all add: queue_ok_def)
  show ?thesis
  proof (cases "map_of (wq_table q c t) r")
    case None
    then have n: "lane_at q (c, t, r) = None" by (simp add: lane_at_def)
    have "lanes_ok ws p (el((c, t, r) := (b, h))) q"
    proof (rule lanes_okI)
      fix k l assume "lane_at q k = Some l"
      with n have "k \<noteq> (c, t, r)" by auto
      with lanes_okD(1,2) [OF l' \<open>lane_at q k = Some l\<close>]
      show "l < length (wq_lanes q) \<and> lane_ok ws p k ((el((c, t, r) := (b, h))) k) (wq_lanes q ! l)" by simp
    qed (use lanes_okD(3-5) [OF l'] in blast)+
    with None hp ct show ?thesis by (simp add: update_tier_def queue_ok_def)
  next
    case (Some l)
    then have s: "lane_at q (c, t, r) = Some l" by (simp add: lane_at_def)
    let ?la = "wq_lanes q ! l"
    note ok = lanes_okD(2) [OF l' s]
    show ?thesis
    proof (cases "ln_baseEligible ?la = b \<and> ln_headroomEligible ?la = h")
      case True
      with ok have "el (c, t, r) = (b, h)" by (auto simp: lane_ok_def)
      then have "el((c, t, r) := (b, h)) = el" by auto
      with True Some assms show ?thesis by (simp add: update_tier_def Let_def)
    next
      case False
      define la where "la = new_version (?la\<lparr>ln_baseEligible := b, ln_headroomEligible := h\<rparr>)"
      define q1 where "q1 = set_lane l la q"
      have "lane_ok ws p (c, t, r) (b, h) la"
        using ok by (simp add: lane_ok_def la_def)
      from set_lane_lanes [OF l' s this] have l1: "lanes_ok ws p (el((c, t, r) := (b, h))) q1" by (simp add: q1_def)
      have h1: "heaps_ok ws {l} q1" unfolding q1_def by (rule set_lane_heaps [OF hp])
      have s1: "lane_at q1 (c, t, r) = Some l" using s by (simp add: q1_def)
      from compact_heaps_ok [OF publish_heaps_ok [OF h1 s1 l1]]
      have "heaps_ok ws {} (compactCandidateHeaps ws c t (publishLaneHead ws c t l q1))" .
      moreover have "lanes_ok ws p (el((c, t, r) := (b, h))) (compactCandidateHeaps ws c t (publishLaneHead ws c t l q1))"
        using l1 by (subst lanes_ok_cong [of _ q1]) simp_all
      moreover have "counts_ok ws p (compactCandidateHeaps ws c t (publishLaneHead ws c t l q1))"
        using ct by (subst counts_ok_cong [of _ q]) (simp_all add: q1_def)
      moreover have "update_tier ws c r b h t q = compactCandidateHeaps ws c t (publishLaneHead ws c t l q1)"
        using Some False by (simp add: update_tier_def Let_def q1_def la_def if_not_P)
      ultimately show ?thesis by (simp add: queue_ok_def)
    qed
  qed
qed

definition eligible_at :: "adm_class \<Rightarrow> string option \<Rightarrow> bool \<times> bool \<Rightarrow> (place \<Rightarrow> bool \<times> bool) \<Rightarrow> place \<Rightarrow> bool \<times> bool" where
  "eligible_at c r e el k = (case k of (c', t', r') \<Rightarrow> if c' = c \<and> r' = r then e else el k)"

lemma updateRouteEligibility_ok:
  assumes "queue_ok ws p el q"
  shows "queue_ok ws p (eligible_at c r (b, h) el) (updateRouteEligibility ws c r b h q)"
proof -
  have "eligible_at c r (b, h) el = el((c, Tier_interactive, r) := (b, h), (c, Tier_status, r) := (b, h),
      (c, Tier_background, r) := (b, h))"
    by (rule ext) (auto simp: eligible_at_def split: prod.splits elim: adm_tier.exhaust,
      (metis adm_tier.exhaust)+)
  with assms show ?thesis by (simp add: updateRouteEligibility_def tiers_def update_tier_ok)
qed

section \<open>A waiter stops being queued\<close>

lemma distinct_queued_at: "distinct (queued_at ws k)"
  by (simp add: queued_at_def)

lemma sorted_queued_at: "sorted (queued_at ws k)"
  unfolding queued_at_def by (rule sorted_wrt_filter) (simp add: sorted_upt)

lemma set_queued_at: "set (queued_at ws k) = {i. is_queued ws i \<and> place_of ws i = k}"
  by (auto simp: queued_at_def is_queued_def)

lemma count_where_change:
  "i < length xs \<Longrightarrow> count_where P (xs[i := y]) + of_bool (P (xs ! i)) = count_where P xs + of_bool (P y)"
proof (induction xs arbitrary: i)
  case (Cons x xs)
  then show ?case by (cases i) (auto simp: count_where_def)
qed simp

definition unqueues :: "waiter list \<Rightarrow> nat \<Rightarrow> waiter \<Rightarrow> bool" where
  "unqueues ws i w \<longleftrightarrow> is_queued ws i \<and> wt_state w \<noteq> Wait_queued \<and> wt_class w = wt_class (ws ! i)
     \<and> wt_tier w = wt_tier (ws ! i) \<and> wt_route w = wt_route (ws ! i) \<and> wt_budgetKeys w = wt_budgetKeys (ws ! i)"

lemma filter_neq_hd:
  "distinct xs \<Longrightarrow> xs \<noteq> [] \<Longrightarrow> hd xs \<noteq> i \<Longrightarrow> filter (\<lambda>x. x \<noteq> i) xs \<noteq> [] \<and> hd (filter (\<lambda>x. x \<noteq> i) xs) = hd xs"
  by (cases xs) auto

lemma filter_neq_id: "i \<notin> set xs \<Longrightarrow> filter (\<lambda>x. x \<noteq> i) xs = xs"
  by (induction xs) auto

lemma filter_neq_length: "distinct xs \<Longrightarrow> i \<in> set xs \<Longrightarrow> Suc (length (filter (\<lambda>x. x \<noteq> i) xs)) = length xs"
  by (induction xs) (auto simp: filter_neq_id)

lemma unqueue_ok:
  assumes "queue_ok ws None el q" and u: "unqueues ws i w"
  shows "queue_ok (ws[i := w]) (Some i) el q"
proof -
  let ?ws = "ws[i := w]"
  from assms(1) have l': "lanes_ok ws None el q" and hp: "heaps_ok ws {} q" and ct: "counts_ok ws None q"
    by (simp_all add: queue_ok_def)
  from u have i: "i < length ws" by (simp add: unqueues_def is_queued_def)
  have place: "place_of ?ws j = place_of ws j" for j
    using u i by (cases "j = i") (simp_all add: place_of_def unqueues_def)
  have queued: "is_queued ?ws j \<longleftrightarrow> is_queued ws j \<and> j \<noteq> i" for j
    using u i by (cases "j = i") (simp_all add: is_queued_def unqueues_def)
  have qa: "queued_at ?ws k = filter (\<lambda>x. x \<noteq> i) (queued_at ws k)" for k
    unfolding queued_at_def by (auto simp: queued place conj_ac intro: filter_cong)
  have mem: "i \<in> set (queued_at ws k) \<longleftrightarrow> place_of ws i = k" for k
    using u by (auto simp: set_queued_at unqueues_def)
  have pend: "pending_at ?ws (Some i) k \<longleftrightarrow> place_of ws i = k" for k by (simp add: pending_at_def place)
  have "lanes_ok ?ws (Some i) el q"
  proof (rule lanes_okI)
    fix k l assume s: "lane_at q k = Some l"
    let ?la = "wq_lanes q ! l"
    from lanes_okD(2) [OF l' s] have ok: "lane_ok ws None k (el k) ?la" .
    then have f: "filter (is_queued ws) (drop (ln_head ?la) (ln_items ?la)) = queued_at ws k"
      and n: "queued_at ws k \<noteq> []" and h: "lane_head ?la = Some (hd (queued_at ws k))"
      and c: "ln_count ?la = int (length (queued_at ws k))" and e: "(ln_baseEligible ?la, ln_headroomEligible ?la) = el k"
      by (auto simp: lane_ok_def pending_at_def split: if_splits)
    from ok have b: "set (ln_items ?la) \<subseteq> {..<length ?ws}" by (simp add: lane_ok_def)
    have flt: "filter (is_queued ?ws) xs = filter (\<lambda>x. x \<noteq> i) (filter (is_queued ws) xs)" for xs
      unfolding filter_filter by (rule filter_cong) (auto simp: queued)
    have f': "filter (is_queued ?ws) (drop (ln_head ?la) (ln_items ?la)) = queued_at ?ws k"
      unfolding flt f qa ..
    have c': "ln_count ?la = int (length (queued_at ?ws k)) + (if pending_at ?ws (Some i) k then 1 else 0)"
    proof (cases "place_of ws i = k")
      case True
      with filter_neq_length [OF distinct_queued_at, of i ws k] mem c show ?thesis by (simp add: qa pend)
    next
      case False
      with mem [of k] have "filter (\<lambda>x. x \<noteq> i) (queued_at ws k) = queued_at ws k" by (intro filter_neq_id) simp
      with False c show ?thesis by (simp add: qa pend)
    qed
    have "lane_head ?la = Some (hd (queued_at ?ws k)) \<and> queued_at ?ws k \<noteq> [] \<or>
        pending_at ?ws (Some i) k \<and> lane_head ?la = Some i"
    proof (cases "hd (queued_at ws k) = i")
      case True
      with n mem [of k] h show ?thesis by (auto simp: pend)
    next
      case False
      from filter_neq_hd [OF distinct_queued_at n False] h show ?thesis by (simp add: qa)
    qed
    with b f' c' e lanes_okD(1) [OF l' s] show "l < length (wq_lanes q) \<and> lane_ok ?ws (Some i) k (el k) ?la"
      by (auto simp: lane_ok_def)
  next
    fix k
    have "queued_at ws k \<noteq> [] \<longleftrightarrow> queued_at ?ws k \<noteq> [] \<or> place_of ws i = k"
    proof (cases "place_of ws i = k")
      case True
      with mem [of k] show ?thesis by auto
    next
      case False
      with mem [of k] have "queued_at ?ws k = queued_at ws k" unfolding qa by (intro filter_neq_id) simp
      with False show ?thesis by simp
    qed
    with lanes_okD(4) [OF l', of k] show "lane_at q k \<noteq> None \<longleftrightarrow> queued_at ?ws k \<noteq> [] \<or> pending_at ?ws (Some i) k"
      by (simp only: pend) (simp add: pending_at_def)
  qed (use lanes_okD(3,5) [OF l'] in blast)+
  moreover have "heaps_ok ?ws {} q"
    by (rule heaps_change [OF hp]) (auto simp: place lane_candidates_def candidateIsValid_def Let_def queued)
  moreover have "counts_ok ?ws (Some i) q"
  proof -
    have "key_count ?ws (Some i) key = key_count ws None key" for key
      using count_where_change [OF i, of "\<lambda>w. wt_state w = Wait_queued \<and> key \<in> set (wt_budgetKeys w)" w] u i
      by (auto simp: key_count_def unqueues_def is_queued_def split: if_splits)
    moreover have "int (count_where (\<lambda>w. wt_state w = Wait_queued) ?ws) + 1
        = int (count_where (\<lambda>w. wt_state w = Wait_queued) ws)"
      using count_where_change [OF i, of "\<lambda>w. wt_state w = Wait_queued" w] u
      by (auto simp: unqueues_def is_queued_def)
    ultimately show ?thesis using ct by (simp add: counts_ok_def)
  qed
  ultimately show ?thesis by (simp add: queue_ok_def)
qed

section \<open>Taking a waiter out\<close>

lemma next_queued_ok:
  "filter (is_queued ws) (drop (next_queued ws items head) items) = filter (is_queued ws) (drop head items) \<and>
   (next_queued ws items head < length items \<longrightarrow> is_queued ws (items ! next_queued ws items head))"
proof (induction ws items head rule: next_queued.induct)
  case (1 ws items head)
  show ?case
  proof (cases "head < length items \<and> \<not> is_queued ws (items ! head)")
    case True
    then have "drop head items = items ! head # drop (head + 1) items" by (simp add: Cons_nth_drop_Suc)
    with 1 [OF True] True show ?thesis by (simp add: next_queued.simps [of ws items head])
  next
    case False
    then show ?thesis by (simp add: next_queued.simps [of ws items head]) blast
  qed
qed

lemma next_queued_head:
  assumes "filter (is_queued ws) (drop head items) = j # js"
  shows "next_queued ws items head < length items \<and> items ! next_queued ws items head = j"
proof -
  let ?n = "next_queued ws items head"
  note ok = next_queued_ok [of ws items head]
  have n: "?n < length items"
  proof (rule ccontr)
    assume "\<not> ?n < length items"
    with ok assms show False by simp
  qed
  then have "drop ?n items = items ! ?n # drop (Suc ?n) items" by (simp add: Cons_nth_drop_Suc)
  with ok n assms show ?thesis by auto
qed

lemma compact_lane_fields [simp]:
  "ln_count (compact_lane ws la) = ln_count la" "ln_baseEligible (compact_lane ws la) = ln_baseEligible la"
  "ln_headroomEligible (compact_lane ws la) = ln_headroomEligible la" "ln_version (compact_lane ws la) = ln_version la"
  by (simp_all add: compact_lane_def Let_def)

lemma compact_lane_items: "set (ln_items (compact_lane ws la)) \<subseteq> set (ln_items la)"
  by (auto simp: compact_lane_def Let_def dest: in_set_dropD)

lemma compact_lane_ok:
  assumes "filter (is_queued ws) (drop (ln_head la) (ln_items la)) = qs" and "ln_count la = int (length qs)" and "qs \<noteq> []"
  shows "filter (is_queued ws) (drop (ln_head (compact_lane ws la)) (ln_items (compact_lane ws la))) = qs \<and>
    lane_head (compact_lane ws la) = Some (hd qs)"
proof -
  let ?n = "next_queued ws (ln_items la) (ln_head la)"
  obtain j js where qs: "qs = j # js" using assms(3) by (cases qs) auto
  with assms(1) have head: "?n < length (ln_items la)" "ln_items la ! ?n = j"
    using next_queued_head [of ws "ln_head la" "ln_items la" j js] by simp_all
  have f: "filter (is_queued ws) (drop ?n (ln_items la)) = qs"
    using next_queued_ok [of ws "ln_items la" "ln_head la"] assms(1) by simp
  have ff: "filter (is_queued ws) qs = qs" unfolding f [symmetric] by simp
  have "ln_count la \<noteq> 0" using assms(2) qs by simp
  then have "compact_lane ws la = la\<lparr>ln_head := ?n\<rparr> \<or>
      compact_lane ws la = la\<lparr>ln_items := qs, ln_head := 0\<rparr>"
    by (simp only: compact_lane_def Let_def if_False f) meson
  then show ?thesis
  proof
    assume e: "compact_lane ws la = la\<lparr>ln_head := ?n\<rparr>"
    show ?thesis unfolding e using f head qs by (simp add: lane_head_def)
  next
    assume e: "compact_lane ws la = la\<lparr>ln_items := qs, ln_head := 0\<rparr>"
    show ?thesis unfolding e using ff qs by (simp add: lane_head_def)
  qed
qed

lemma map_of_without: "map_of (filter (\<lambda>e. fst e \<noteq> k) xs) k' = (if k' = k then None else map_of xs k')"
  by (induction xs) auto

lemma count_down_spec:
  "distinct ks \<Longrightarrow> count_down ks m k =
     (if k \<in> set ks then (case m k of None \<Rightarrow> None | Some n \<Rightarrow> if n = 1 then None else Some (n - 1)) else m k)"
proof (induction ks arbitrary: m)
  case (Cons a ks)
  then show ?case by (cases "m a") auto
qed simp

lemma count_up_spec:
  "distinct ks \<Longrightarrow> count_up ks m k = (if k \<in> set ks then Some ((case m k of None \<Rightarrow> 0 | Some n \<Rightarrow> n) + 1) else m k)"
proof (induction ks arbitrary: m)
  case (Cons a ks)
  then show ?case by auto
qed simp

lemma count_down_ok:
  assumes "counts_ok ws (Some i) q" and "distinct (wt_budgetKeys (ws ! i))"
  shows "counts_ok ws None (q\<lparr>wq_total := wq_total q - 1, wq_counts := count_down (wt_budgetKeys (ws ! i)) (wq_counts q)\<rparr>)"
  using assms by (auto simp: counts_ok_def count_down_spec key_count_def)

lemma pending_None [simp]: "pending_at ws None k \<longleftrightarrow> False"
  by (simp add: pending_at_def)

lemma dequeue_ok:
  assumes "queue_ok ws (Some i) el q" and "distinct (wt_budgetKeys (ws ! i))"
  shows "queue_ok ws None el (dequeue ws i q)"
proof -
  from assms(1) have l': "lanes_ok ws (Some i) el q" and hp: "heaps_ok ws {} q" and ct: "counts_ok ws (Some i) q"
    by (simp_all add: queue_ok_def)
  define c where "c = wt_class (ws ! i)"
  define t where "t = wt_tier (ws ! i)"
  define r where "r = wt_route (ws ! i)"
  have pend: "pending_at ws (Some i) k \<longleftrightarrow> k = (c, t, r)" for k
    by (auto simp: pending_at_def place_of_def c_def t_def r_def)
  from lanes_okD(4) [OF l', of "(c, t, r)"] pend obtain l where s: "lane_at q (c, t, r) = Some l" by auto
  then have m: "map_of (wq_table q c t) r = Some l" by (simp add: lane_at_def)
  let ?la = "wq_lanes q ! l"
  define la1 where "la1 = ?la\<lparr>ln_count := ln_count ?la - 1\<rparr>"
  define la2 where "la2 = compact_lane ws la1"
  define q1 where "q1 = q\<lparr>wq_total := wq_total q - 1, wq_counts := count_down (wt_budgetKeys (ws ! i)) (wq_counts q)\<rparr>"
  let ?qs = "queued_at ws (c, t, r)"
  from lanes_okD(2) [OF l' s] have f: "filter (is_queued ws) (drop (ln_head la1) (ln_items la1)) = ?qs"
    and n: "ln_count la1 = int (length ?qs)"
    and e: "(ln_baseEligible la1, ln_headroomEligible la1) = el (c, t, r)"
    and hd: "?qs \<noteq> [] \<and> lane_head ?la = Some (hd ?qs) \<or> lane_head ?la = Some i"
    and b: "set (ln_items la1) \<subseteq> {..<length ws}"
    by (auto simp: lane_ok_def la1_def pend)
  have c1: "counts_ok ws None q1" unfolding q1_def by (rule count_down_ok [OF ct assms(2)])
  have l1: "lanes_ok ws (Some i) el q1" using l' by (subst lanes_ok_cong [of _ q]) (simp_all add: q1_def)
  have h1: "heaps_ok ws {} q1"
    using hp by (rule heaps_change) (auto simp: q1_def lane_candidates_def candidateIsValid_def lane_at_def)
  have s1: "lane_at q1 (c, t, r) = Some l" using s by (simp add: q1_def lane_at_def)
  have lq: "wq_lanes q1 = wq_lanes q" "wq_table q1 = wq_table q" by (simp_all add: q1_def)
  have deq: "dequeue ws i q = (if ln_count la2 = 0 then
        compactCandidateHeaps ws c t ((set_lane l (new_version la2) q1)
          \<lparr>wq_table := update2 (wq_table q1) c t (filter (\<lambda>e. fst e \<noteq> r) (wq_table q1 c t))\<rparr>)
      else if lane_head la2 \<noteq> lane_head la1 then
        compactCandidateHeaps ws c t (publishLaneHead ws c t l (set_lane l (new_version la2) q1))
      else set_lane l la2 q1)"
    unfolding dequeue_def Let_def c_def [symmetric] t_def [symmetric] r_def [symmetric] m option.case
      la1_def [symmetric] la2_def [symmetric] q1_def [symmetric] by simp
  have keep: "lanes_ok ws None el q2" if q2: "wq_lanes q2 = (wq_lanes q)[l := la]" "wq_table q2 = wq_table q"
      and ok: "lane_ok ws None (c, t, r) (el (c, t, r)) la" and ne: "?qs \<noteq> []" for q2 la
  proof (rule lanes_okI)
    have at: "lane_at q2 = lane_at q" by (rule lane_at_cong [OF q2(2)])
    {
      fix k l' assume a: "lane_at q2 k = Some l'"
      then have a': "lane_at q k = Some l'" by (simp add: at)
      show "l' < length (wq_lanes q2) \<and> lane_ok ws None k (el k) (wq_lanes q2 ! l')"
      proof (cases "l' = l")
        case True
        with lanes_okD(3) [OF l' s] a' have "k = (c, t, r)" by simp
        with True ok lanes_okD(1) [OF l' s] show ?thesis by (simp add: q2)
      next
        case False
        then have "k \<noteq> (c, t, r)" using a' s by auto
        with False lanes_okD(1,2) [OF l' a'] show ?thesis by (simp add: q2 lane_ok_def pend)
      qed
    next
      fix k show "lane_at q2 k \<noteq> None \<longleftrightarrow> queued_at ws k \<noteq> [] \<or> pending_at ws None k"
        using lanes_okD(4) [OF l', of k] ne unfolding at pend pending_None by blast
    next
      fix l' assume a: "l' < length (wq_lanes q2)" "\<And>k. lane_at q2 k \<noteq> Some l'"
      have "l' \<noteq> l" using a(2) [of "(c, t, r)"] s by (auto simp: at)
      with a lanes_okD(5) [OF l', of l'] show "ln_items (wq_lanes q2 ! l') = []" by (auto simp: q2 at)
    }
  qed (use lanes_okD(3) [OF l'] lane_at_cong [OF q2(2)] in auto)
  show ?thesis
  proof (cases "?qs = []")
    case True
    with n have zero: "ln_count la1 = 0" by simp
    then have empty: "ln_items la2 = []" by (simp add: la2_def compact_lane_def)
    define q2 where "q2 = (set_lane l (new_version la2) q1)
      \<lparr>wq_table := update2 (wq_table q1) c t (filter (\<lambda>e. fst e \<noteq> r) (wq_table q1 c t))\<rparr>"
    have at: "lane_at q2 k = (if k = (c, t, r) then None else lane_at q k)" for k
      by (cases k) (auto simp: q2_def lane_at_def update2_apply map_of_without lq)
    have ls: "wq_lanes q2 = (wq_lanes q)[l := new_version la2]" by (simp add: q2_def lq)
    have other: "l' \<noteq> l" if "lane_at q k = Some l'" "k \<noteq> (c, t, r)" for k l'
      using lanes_okD(3) [OF l' s, of k] that by auto
    have "lanes_ok ws None el q2"
    proof (rule lanes_okI)
      fix k l' assume a: "lane_at q2 k = Some l'"
      then have k: "k \<noteq> (c, t, r)" "lane_at q k = Some l'" by (auto simp: at split: if_splits)
      from lanes_okD(1,2) [OF l' k(2)] other [OF k(2,1)] k(1)
      show "l' < length (wq_lanes q2) \<and> lane_ok ws None k (el k) (wq_lanes q2 ! l')"
        by (simp add: ls lane_ok_def pend)
    next
      fix k k' l' assume "lane_at q2 k = Some l'" "lane_at q2 k' = Some l'"
      then show "k = k'" using lanes_okD(3) [OF l', of k l' k'] by (auto simp: at split: if_splits)
    next
      fix k show "lane_at q2 k \<noteq> None \<longleftrightarrow> queued_at ws k \<noteq> [] \<or> pending_at ws None k"
        using lanes_okD(4) [OF l', of k] True by (auto simp: at pend)
    next
      fix l' assume a: "l' < length (wq_lanes q2)" "\<And>k. lane_at q2 k \<noteq> Some l'"
      show "ln_items (wq_lanes q2 ! l') = []"
      proof (cases "l' = l")
        case True
        with a(1) empty show ?thesis by (simp add: ls)
      next
        case False
        have "lane_at q k \<noteq> Some l'" for k using a(2) [of k] s False by (auto simp: at split: if_splits)
        with a(1) False lanes_okD(5) [OF l', of l'] show ?thesis by (auto simp: ls)
      qed
    qed
    moreover have "heaps_ok ws {} q2"
    proof (rule heaps_change [OF hp])
      fix slot c' t'
      have "candidateIsValid ws q slot cd" if "cd_lane cd \<noteq> l" "candidateIsValid ws q2 slot cd" for cd
        using that by (simp add: candidateIsValid_def Let_def ls)
      then show "lane_candidates ws {} q2 slot c' t' \<subseteq> lane_candidates ws {} q slot c' t'"
        using other by (auto simp: lane_candidates_def at split: if_splits)
    qed (simp_all add: q2_def lq q1_def)
    moreover have "counts_ok ws None q2" using c1 by (simp add: counts_ok_def q2_def)
    ultimately have "queue_ok ws None el (compactCandidateHeaps ws c t q2)"
      unfolding queue_ok_def using compact_heaps_ok
      by (simp add: lanes_ok_cong [of "compactCandidateHeaps ws c t q2" q2] counts_ok_cong [of "compactCandidateHeaps ws c t q2" q2])
    then show ?thesis using zero by (simp add: deq la2_def q2_def)
  next
    case False
    from compact_lane_ok [OF f n False] have f2: "filter (is_queued ws) (drop (ln_head la2) (ln_items la2)) = ?qs"
      and hd2: "lane_head la2 = Some (hd ?qs)" by (simp_all add: la2_def)
    have ok2: "lane_ok ws None (c, t, r) (el (c, t, r)) la2"
      using f2 hd2 n e False subset_trans [OF compact_lane_items b] by (simp add: lane_ok_def la2_def)
    have nz: "ln_count la2 \<noteq> 0" using n False by (simp add: la2_def)
    show ?thesis
    proof (cases "lane_head la2 = lane_head la1")
      case False
      define q2 where "q2 = set_lane l (new_version la2) q1"
      have ok3: "lane_ok ws None (c, t, r) (el (c, t, r)) (new_version la2)" using ok2 by (simp add: lane_ok_def)
      have l2: "lanes_ok ws None el q2"
        by (rule keep [OF _ _ ok3 \<open>?qs \<noteq> []\<close>]) (simp_all add: q2_def lq)
      have s2: "lane_at q2 (c, t, r) = Some l" using s1 by (simp add: q2_def)
      have "heaps_ok ws {l} q2" unfolding q2_def by (rule set_lane_heaps [OF h1])
      from compact_heaps_ok [OF publish_heaps_ok [OF this s2 l2]]
      have "heaps_ok ws {} (compactCandidateHeaps ws c t (publishLaneHead ws c t l q2))" .
      moreover have "lanes_ok ws None el (compactCandidateHeaps ws c t (publishLaneHead ws c t l q2))"
        using l2 by (subst lanes_ok_cong [of _ q2]) simp_all
      moreover have "counts_ok ws None (compactCandidateHeaps ws c t (publishLaneHead ws c t l q2))"
        using c1 by (subst counts_ok_cong [of _ q1]) (simp_all add: q2_def)
      ultimately show ?thesis using False nz by (simp add: queue_ok_def deq q2_def)
    next
      case True
      define q2 where "q2 = set_lane l la2 q1"
      have "lanes_ok ws None el q2" by (rule keep [OF _ _ ok2 \<open>?qs \<noteq> []\<close>]) (simp_all add: q2_def lq)
      moreover have "heaps_ok ws {} q2"
      proof (rule heaps_change [OF h1])
        fix slot c' t'
        have "lane_head la2 = lane_head ?la" "ln_version la2 = ln_version ?la"
          "ln_baseEligible la2 = ln_baseEligible ?la" "ln_headroomEligible la2 = ln_headroomEligible ?la"
          using True by (simp_all add: la1_def la2_def)
        then have "candidateIsValid ws q2 slot cd = candidateIsValid ws q1 slot cd" for cd
          using lanes_okD(1) [OF l' s] by (cases "cd_lane cd = l") (simp_all add: candidateIsValid_def Let_def q2_def lq)
        then show "lane_candidates ws {} q2 slot c' t' \<subseteq> lane_candidates ws {} q1 slot c' t'"
          by (simp add: lane_candidates_def q2_def)
      qed (simp_all add: q2_def)
      moreover have "counts_ok ws None q2" using c1 by (subst counts_ok_cong [of _ q1]) (simp_all add: q2_def)
      ultimately show ?thesis using True nz by (simp add: queue_ok_def deq q2_def)
    qed
  qed
qed

section \<open>Taking a waiter in\<close>

lemma append_waiter:
  assumes "wt_state w = Wait_queued" and "k = (wt_class w, wt_tier w, wt_route w)"
  shows "j < length ws \<Longrightarrow> place_of (ws @ [w]) j = place_of ws j"
    and "j < length ws \<Longrightarrow> is_queued (ws @ [w]) j = is_queued ws j"
    and "queued_at (ws @ [w]) k' = queued_at ws k' @ (if k' = k then [length ws] else [])"
proof -
  show p: "j < length ws \<Longrightarrow> place_of (ws @ [w]) j = place_of ws j" for j by (simp add: place_of_def nth_append)
  show qd: "j < length ws \<Longrightarrow> is_queued (ws @ [w]) j = is_queued ws j" for j by (simp add: is_queued_def nth_append)
  have "filter (\<lambda>i. is_queued (ws @ [w]) i \<and> place_of (ws @ [w]) i = k') [0..<length ws]
      = filter (\<lambda>i. is_queued ws i \<and> place_of ws i = k') [0..<length ws]"
    by (rule filter_cong) (simp_all add: p qd)
  moreover have "is_queued (ws @ [w]) (length ws)" "place_of (ws @ [w]) (length ws) = k"
    using assms by (simp_all add: is_queued_def place_of_def)
  ultimately show "queued_at (ws @ [w]) k' = queued_at ws k' @ (if k' = k then [length ws] else [])"
    by (auto simp: queued_at_def)
qed

lemma lane_items_bound:
  assumes "lanes_ok ws None el q" and "lane_at q k = Some l"
  shows "lane_head (wq_lanes q ! l) = Some (hd (queued_at ws k))" and "queued_at ws k \<noteq> []"
    and "hd (queued_at ws k) < length ws" and "is_queued ws (hd (queued_at ws k))"
proof -
  from lanes_okD(2) [OF assms] show h: "lane_head (wq_lanes q ! l) = Some (hd (queued_at ws k))"
    and n: "queued_at ws k \<noteq> []" by (auto simp: lane_ok_def)
  from n have "hd (queued_at ws k) \<in> set (queued_at ws k)" by simp
  then show "hd (queued_at ws k) < length ws" and "is_queued ws (hd (queued_at ws k))"
    by (simp_all add: set_queued_at is_queued_def)
qed

lemma count_up_ok:
  assumes "counts_ok ws None q" and "wt_state w = Wait_queued" and "distinct (wt_budgetKeys w)"
    and "wq_total q' = wq_total q + 1" and "wq_counts q' = count_up (wt_budgetKeys w) (wq_counts q)"
  shows "counts_ok (ws @ [w]) None q'"
  using assms by (auto simp: counts_ok_def count_up_spec key_count_def count_where_def)

lemma enqueue_ok:
  assumes ok: "queue_ok ws None el q" and w: "wt_state w = Wait_queued" and keys: "distinct (wt_budgetKeys w)"
    and k: "k = (wt_class w, wt_tier w, wt_route w)"
  shows "queue_ok (ws @ [w]) None (if lane_at q k = None then el(k := (False, False)) else el)
    (enqueue (ws @ [w]) (length ws) q)"
proof -
  let ?ws = "ws @ [w]"
  let ?i = "length ws"
  from ok have l': "lanes_ok ws None el q" and hp: "heaps_ok ws {} q" and ct: "counts_ok ws None q"
    by (simp_all add: queue_ok_def)
  note place = append_waiter(1) [OF w k] and queued = append_waiter(2) [OF w k] and qa = append_waiter(3) [OF w k]
  obtain l q1 where lf: "lane_for (wt_class w) (wt_tier w) (wt_route w) q = (l, q1)" by (rule prod.exhaust)
  define la where "la = wq_lanes q1 ! l"
  define la' where "la' = la\<lparr>ln_items := ln_items la @ [?i], ln_count := ln_count la + 1\<rparr>"
  define q2 where "q2 = (set_lane l la' q1)
    \<lparr>wq_total := wq_total q1 + 1, wq_counts := count_up (wt_budgetKeys w) (wq_counts q1)\<rparr>"
  have enq: "enqueue ?ws ?i q = (if ln_count la' = 1 then publishLaneHead ?ws (wt_class w) (wt_tier w) l q2 else q2)"
    by (simp add: enqueue_def Let_def lf la_def la'_def q2_def)
  have flt: "filter (is_queued ?ws) (drop n xs) = filter (is_queued ws) (drop n xs)" if "set xs \<subseteq> {..<?i}" for n xs
    using that queued by (intro filter_cong) (auto dest!: in_set_dropD)
  have iq: "is_queued ?ws ?i" using w by (simp add: is_queued_def)
  have c2: "counts_ok ?ws None q2" if "wq_total q1 = wq_total q" "wq_counts q1 = wq_counts q"
    using count_up_ok [OF ct w keys] that by (simp add: q2_def)
  have other: "lane_ok ?ws None k' (el k') (wq_lanes q ! l'')" if "lane_at q k' = Some l''" "k' \<noteq> k" for k' l''
  proof -
    from lanes_okD(2) [OF l' that(1)] have o': "lane_ok ws None k' (el k') (wq_lanes q ! l'')" .
    then have b: "set (ln_items (wq_lanes q ! l'')) \<subseteq> {..<?i}" by (simp add: lane_ok_def)
    with o' that(2) show ?thesis by (auto simp: lane_ok_def flt [OF b] qa)
  qed
  have cands: "lane_candidates ?ws {} q2 slot c t \<subseteq> lane_candidates ws {} q slot c t"
    if same: "\<And>k' l''. lane_at q2 k' = Some l'' \<Longrightarrow> lane_at q k' = Some l'' \<and>
        lane_head (wq_lanes q2 ! l'') = lane_head (wq_lanes q ! l'') \<and>
        ln_version (wq_lanes q2 ! l'') = ln_version (wq_lanes q ! l'') \<and>
        ln_baseEligible (wq_lanes q2 ! l'') = ln_baseEligible (wq_lanes q ! l'') \<and>
        ln_headroomEligible (wq_lanes q2 ! l'') = ln_headroomEligible (wq_lanes q ! l'')
      \<or> \<not> ln_baseEligible (wq_lanes q2 ! l'') \<and> \<not> ln_headroomEligible (wq_lanes q2 ! l'')" for slot c t
  proof
    fix cd assume cd: "cd \<in> lane_candidates ?ws {} q2 slot c t"
    then obtain r where r: "lane_at q2 (c, t, r) = Some (cd_lane cd)" and v: "candidateIsValid ?ws q2 slot cd"
      by (auto simp: lane_candidates_def)
    from same [OF r] v have s: "lane_at q (c, t, r) = Some (cd_lane cd)"
      and h: "lane_head (wq_lanes q ! cd_lane cd) = Some (cd_waiter cd)"
      and e: "cd_version cd = ln_version (wq_lanes q ! cd_lane cd)"
        "if slot = Slot_base then ln_baseEligible (wq_lanes q ! cd_lane cd) else ln_headroomEligible (wq_lanes q ! cd_lane cd)"
      by (auto simp: candidateIsValid_def Let_def split: if_splits)
    from lane_items_bound [OF l' s] h have "is_queued ws (cd_waiter cd)" by simp
    with s h e show "cd \<in> lane_candidates ws {} q slot c t"
      by (auto simp: lane_candidates_def candidateIsValid_def Let_def)
  qed
  show ?thesis
  proof (cases "lane_at q k")
    case (Some l0)
    then have e: "l = l0" "q1 = q" using lf by (auto simp: k lane_for_def lane_at_def)
    note s = Some [folded e(1)]
    note bound = lane_items_bound [OF l' s]
    from lanes_okD(2) [OF l' s] have lok: "lane_ok ws None k (el k) la" by (simp add: la_def e)
    then have b: "set (ln_items la) \<subseteq> {..<?i}" and cnt: "ln_count la = int (length (queued_at ws k))"
      and f: "filter (is_queued ws) (drop (ln_head la) (ln_items la)) = queued_at ws k"
      by (simp_all add: lane_ok_def)
    have f': "filter (is_queued ?ws) (drop (ln_head la) (ln_items la)) = queued_at ws k" unfolding flt [OF b] f ..
    have hl: "ln_head la \<le> length (ln_items la)"
      using bound(1) by (auto simp: la_def e lane_head_def split: if_splits)
    have hd: "lane_head la' = lane_head la"
      using bound(1) by (auto simp: la'_def la_def e lane_head_def nth_append split: if_splits)
    have len: "l < length (wq_lanes q)" by (rule lanes_okD(1) [OF l' s])
    have at: "lane_at q2 = lane_at q" by (rule lane_at_cong) (simp add: q2_def e)
    have lq: "wq_lanes q2 = (wq_lanes q)[l := la']" by (simp add: q2_def e)
    have ok': "lane_ok ?ws None k (el k) la'"
      using lok bound hd b cnt hl f' by (auto simp: lane_ok_def qa la'_def iq la_def e)
    have "lanes_ok ?ws None el q2"
    proof (rule lanes_okI)
      fix k' l'' assume a: "lane_at q2 k' = Some l''"
      then have a': "lane_at q k' = Some l''" by (simp add: at)
      show "l'' < length (wq_lanes q2) \<and> lane_ok ?ws None k' (el k') (wq_lanes q2 ! l'')"
      proof (cases "k' = k")
        case True
        with a' s ok' len show ?thesis by (simp add: lq)
      next
        case False
        then have "l'' \<noteq> l" using lanes_okD(3) [OF l' s, of k'] a' by auto
        with other [OF a' False] lanes_okD(1) [OF l' a'] show ?thesis by (simp add: lq)
      qed
    next
      fix k' show "lane_at q2 k' \<noteq> None \<longleftrightarrow> queued_at ?ws k' \<noteq> [] \<or> pending_at ?ws None k'"
        using lanes_okD(4) [OF l', of k'] s by (auto simp: at qa)
    next
      fix l'' assume a: "l'' < length (wq_lanes q2)" "\<And>k. lane_at q2 k \<noteq> Some l''"
      then have "l'' \<noteq> l" using s a(2) [of k] by (auto simp: at)
      with a lanes_okD(5) [OF l', of l''] show "ln_items (wq_lanes q2 ! l'') = []" by (auto simp: lq at)
    qed (use lanes_okD(3) [OF l'] in \<open>auto simp: at\<close>)
    moreover have "heaps_ok ?ws {} q2"
    proof (rule heaps_change [OF hp])
      fix slot c t
      show "lane_candidates ?ws {} q2 slot c t \<subseteq> lane_candidates ws {} q slot c t"
      proof (rule cands)
        fix k' l'' assume "lane_at q2 k' = Some l''"
        then show "lane_at q k' = Some l'' \<and>
            lane_head (wq_lanes q2 ! l'') = lane_head (wq_lanes q ! l'') \<and>
            ln_version (wq_lanes q2 ! l'') = ln_version (wq_lanes q ! l'') \<and>
            ln_baseEligible (wq_lanes q2 ! l'') = ln_baseEligible (wq_lanes q ! l'') \<and>
            ln_headroomEligible (wq_lanes q2 ! l'') = ln_headroomEligible (wq_lanes q ! l'')
          \<or> \<not> ln_baseEligible (wq_lanes q2 ! l'') \<and> \<not> ln_headroomEligible (wq_lanes q2 ! l'')"
          using len hd by (cases "l'' = l") (simp_all add: at lq la'_def la_def e)
      qed
    qed (simp_all add: q2_def e place set_lane_def)
    moreover have "ln_count la' \<noteq> 1" using cnt bound(2) by (simp add: la'_def)
    ultimately show ?thesis using s c2 e by (simp add: queue_ok_def enq)
  next
    case None
    then have e: "l = length (wq_lanes q)" "q1 = q\<lparr>wq_lanes := wq_lanes q @ [createLane],
        wq_table := update2 (wq_table q) (wt_class w) (wt_tier w) (wq_table q (wt_class w) (wt_tier w) @ [(wt_route w, length (wq_lanes q))])\<rparr>"
      using lf by (auto simp: k lane_for_def lane_at_def)
    have la: "la' = createLane\<lparr>ln_items := [?i], ln_count := 1\<rparr>" by (simp add: la'_def la_def e createLane_def)
    have at: "lane_at q2 k' = (if k' = k then Some l else lane_at q k')" for k'
      using None by (cases k') (auto simp: q2_def e lane_at_def update2_apply k map_add_def split: option.splits)
    have lq: "wq_lanes q2 = wq_lanes q @ [la']" by (simp add: q2_def e)
    have none: "queued_at ws k = []" using lanes_okD(4) [OF l', of k] None by auto
    have ok': "lane_ok ?ws None k (False, False) la'"
      using none iq by (simp add: lane_ok_def qa la createLane_def lane_head_def)
    have "lanes_ok ?ws None (el(k := (False, False))) q2"
    proof (rule lanes_okI)
      fix k' l'' assume a: "lane_at q2 k' = Some l''"
      show "l'' < length (wq_lanes q2) \<and> lane_ok ?ws None k' ((el(k := (False, False))) k') (wq_lanes q2 ! l'')"
      proof (cases "k' = k")
        case True
        with a have "l'' = length (wq_lanes q)" by (simp add: at e)
        with True ok' show ?thesis by (simp add: lq)
      next
        case False
        with a have a': "lane_at q k' = Some l''" by (simp add: at)
        from other [OF a' False] lanes_okD(1) [OF l' a'] False show ?thesis by (simp add: lq nth_append)
      qed
    next
      fix k1 k2 l'' assume "lane_at q2 k1 = Some l''" "lane_at q2 k2 = Some l''"
      then show "k1 = k2"
        using lanes_okD(3) [OF l', of k1 l'' k2] lanes_okD(1) [OF l', of k1 l''] lanes_okD(1) [OF l', of k2 l'']
        by (auto simp: at e split: if_splits)
    next
      fix k' show "lane_at q2 k' \<noteq> None \<longleftrightarrow> queued_at ?ws k' \<noteq> [] \<or> pending_at ?ws None k'"
        using lanes_okD(4) [OF l', of k'] by (auto simp: at qa)
    next
      fix l'' assume a: "l'' < length (wq_lanes q2)" "\<And>k. lane_at q2 k \<noteq> Some l''"
      have "l'' \<noteq> l" using a(2) [of k] by (simp add: at)
      with a(1) have less: "l'' < length (wq_lanes q)" by (simp add: lq e)
      have "lane_at q k' \<noteq> Some l''" for k' using a(2) [of k'] None by (auto simp: at split: if_splits)
      with lanes_okD(5) [OF l' less] less show "ln_items (wq_lanes q2 ! l'') = []" by (auto simp: lq nth_append)
    qed
    moreover have hp2: "heaps_ok ?ws {} q2"
    proof (rule heaps_change [OF hp])
      fix slot c t
      show "lane_candidates ?ws {} q2 slot c t \<subseteq> lane_candidates ws {} q slot c t"
      proof (rule cands)
        fix k' l'' assume "lane_at q2 k' = Some l''"
        then show "lane_at q k' = Some l'' \<and>
            lane_head (wq_lanes q2 ! l'') = lane_head (wq_lanes q ! l'') \<and>
            ln_version (wq_lanes q2 ! l'') = ln_version (wq_lanes q ! l'') \<and>
            ln_baseEligible (wq_lanes q2 ! l'') = ln_baseEligible (wq_lanes q ! l'') \<and>
            ln_headroomEligible (wq_lanes q2 ! l'') = ln_headroomEligible (wq_lanes q ! l'')
          \<or> \<not> ln_baseEligible (wq_lanes q2 ! l'') \<and> \<not> ln_headroomEligible (wq_lanes q2 ! l'')"
          using lanes_okD(1) [OF l', of k' l''] by (auto simp: at lq e la createLane_def nth_append split: if_splits)
      qed
    qed (simp_all add: q2_def e place)
    moreover have "publishLaneHead ?ws (wt_class w) (wt_tier w) l q2 = q2"
      by (simp add: publishLaneHead_def Let_def lq e la createLane_def lane_head_def)
    moreover have "counts_ok ?ws None q2" using c2 by (simp add: e)
    ultimately show ?thesis using None by (simp add: queue_ok_def enq)
  qed
qed

end
