(* ===== verification/Git_Admission.thy ===== *)
theory Git_Admission
  imports Git_Queue
begin

text \<open>
  The invariant of the scheduler: the budgets count the waiters that hold a slot and never exceed their capacity,
  a lane is eligible exactly when its route's budget has room, and every operation keeps this. Two budgets differ
  when their keys do: the keys of the classes are no routes and the keys of routes differ by class and route.
\<close>

section \<open>Budgets as maps\<close>

definition used :: "slot_kind \<Rightarrow> budget \<Rightarrow> int" where
  "used slot b = (case slot of Slot_base \<Rightarrow> bg_baseUsed b | Slot_headroom \<Rightarrow> bg_headroomUsed b)"

definition capacity :: "slot_kind \<Rightarrow> budget \<Rightarrow> nat" where
  "capacity slot b = (case slot of Slot_base \<Rightarrow> bg_baseCapacity b | Slot_headroom \<Rightarrow> bg_headroomCapacity b)"

lemma has_room_used: "has_room slot b \<longleftrightarrow> used slot b < int (capacity slot b)"
  by (simp add: has_room_def used_def capacity_def split: slot_kind.split)

lemma use_slot_simps [simp]:
  "used slot (use_slot slot' n b) = used slot b + (if slot = slot' then n else 0)"
  "capacity slot (use_slot slot' n b) = capacity slot b"
  by (auto simp: use_slot_def used_def capacity_def split: slot_kind.split)

lemma new_budget_used [simp]: "used slot (new_budget cf key) = 0"
  by (simp add: new_budget_def used_def split: slot_kind.split)

lemma map_of_ensure:
  "map_of (ensureBudget cf key bs) k =
     (if k = key \<and> map_of bs key = None then Some (new_budget cf key) else map_of bs k)"
  by (auto simp: ensureBudget_def map_add_def split: option.split)

lemma ensure_present [simp]: "map_of bs key \<noteq> None \<Longrightarrow> ensureBudget cf key bs = bs"
  by (simp add: ensureBudget_def)

lemma map_of_change: "map_of (change_budget key f bs) k = map_option (\<lambda>b. if k = key then f b else b) (map_of bs k)"
  unfolding change_budget_def by (induction bs) auto

lemma use_keys_simps [simp]:
  "use_keys cf slot n [] bs = bs"
  "use_keys cf slot n (key # keys) bs = use_keys cf slot n keys (change_budget key (use_slot slot n) (ensureBudget cf key bs))"
  by (simp_all add: use_keys_def)

lemma map_of_use_keys:
  "distinct keys \<Longrightarrow> (\<And>k. k \<in> set keys \<Longrightarrow> map_of bs k \<noteq> None) \<Longrightarrow>
     map_of (use_keys cf slot n keys bs) k = map_option (\<lambda>b. if k \<in> set keys then use_slot slot n b else b) (map_of bs k)"
proof (induction keys arbitrary: bs)
  case Nil
  then show ?case by (cases "map_of bs k") simp_all
next
  case (Cons key keys)
  let ?bs = "change_budget key (use_slot slot n) (ensureBudget cf key bs)"
  have p: "map_of bs key \<noteq> None" using Cons.prems(2) by simp
  have "map_of (use_keys cf slot n keys ?bs) k = map_option (\<lambda>b. if k \<in> set keys then use_slot slot n b else b) (map_of ?bs k)"
    by (rule Cons.IH) (use Cons.prems p in \<open>auto simp: map_of_change\<close>)
  with Cons.prems(1) p show ?case by (cases "map_of bs k") (auto simp: map_of_change)
qed

lemma fits_keys_present:
  "(\<And>k. k \<in> set keys \<Longrightarrow> map_of bs k \<noteq> None) \<Longrightarrow>
     fits_keys cf slot keys bs = ((\<forall>k\<in>set keys. has_room slot (the (map_of bs k))), bs)"
  by (induction keys) (auto simp: Let_def)

section \<open>Keys\<close>

lemma class_key_not_route: "\<not> is_route_key (class_key c)"
  by (cases c) (simp_all add: class_key_def is_route_key_def starts_with_def)

lemma route_budget_is_route: "is_route_key (route_budget c r)"
  by (simp add: route_budget_def is_route_key_def starts_with_def)

lemma class_key_inj [simp]: "class_key c = class_key c' \<longleftrightarrow> c = c'"
  by (cases c; cases c') (simp_all add: class_key_def)

lemma route_budget_inj [simp]: "route_budget c r = route_budget c' r' \<longleftrightarrow> c = c' \<and> r = r'"
  by (cases c; cases c') (simp_all add: route_budget_def class_key_def)

lemma class_key_route [simp]: "class_key c \<noteq> route_budget c' r" "route_budget c' r \<noteq> class_key c"
  using class_key_not_route route_budget_is_route by metis+

definition keys_of :: "adm_class \<Rightarrow> string option \<Rightarrow> string list" where
  "keys_of c r = class_key c # (if truthy r then [route_budget c (the r)] else [])"

lemma distinct_keys_of [simp]: "distinct (keys_of c r)"
  by (simp add: keys_of_def)

lemma request_keys_of: "request_keys rq = keys_of (request_class rq) (routeKey (rq_wslDistro rq) (rq_cwd rq))"
  by (simp add: request_keys_def keys_of_def Let_def)

section \<open>The invariant\<close>

definition holds_slot :: "slot_kind \<Rightarrow> waiter \<Rightarrow> bool" where
  "holds_slot slot w \<longleftrightarrow> wt_slotKind w = Some slot \<and> \<not> wt_released w"

definition holders :: "waiter list \<Rightarrow> slot_kind \<Rightarrow> string \<Rightarrow> nat" where
  "holders ws slot key = count_where (\<lambda>w. holds_slot slot w \<and> key \<in> set (wt_budgetKeys w)) ws"

definition wait_ok :: "waiter \<Rightarrow> bool" where
  "wait_ok w \<longleftrightarrow> wt_budgetKeys w = keys_of (wt_class w) (wt_route w) \<and>
     (wt_state w = Wait_queued \<longrightarrow> wt_slotKind w = None \<and> \<not> wt_released w)"

definition budgets_ok :: "adm_config \<Rightarrow> waiter list \<Rightarrow> (string \<times> budget) list \<Rightarrow> bool" where
  "budgets_ok cf ws bs \<longleftrightarrow> (\<forall>key slot. case map_of bs key of
       None \<Rightarrow> holders ws slot key = 0
     | Some b \<Rightarrow> capacity slot b = capacity slot (new_budget cf key) \<and> used slot b = int (holders ws slot key) \<and>
         used slot b \<le> int (capacity slot b))"

definition active_waiter :: "waiter \<Rightarrow> bool" where
  "active_waiter w \<longleftrightarrow> wt_state w = Wait_queued \<or> (\<exists>slot. holds_slot slot w)"

definition present :: "waiter list \<Rightarrow> (string \<times> budget) list \<Rightarrow> bool" where
  "present ws bs \<longleftrightarrow> (\<forall>w\<in>set ws. active_waiter w \<longrightarrow> (\<forall>key\<in>set (wt_budgetKeys w). map_of bs key \<noteq> None))"

definition route_room :: "slot_kind \<Rightarrow> (string \<times> budget) list \<Rightarrow> adm_class \<Rightarrow> string option \<Rightarrow> bool" where
  "route_room slot bs c r \<longleftrightarrow> (truthy r \<longrightarrow> (case map_of bs (route_budget c (the r)) of
     None \<Rightarrow> True | Some b \<Rightarrow> has_room slot b))"

definition room_at :: "(string \<times> budget) list \<Rightarrow> place \<Rightarrow> bool \<times> bool" where
  "room_at bs k = (case k of (c, t, r) \<Rightarrow> (route_room Slot_base bs c r, route_room Slot_headroom bs c r))"

definition adm_ok :: "adm_config \<Rightarrow> admission \<Rightarrow> bool" where
  "adm_ok cf s \<longleftrightarrow> (\<forall>w\<in>set (ad_waiters s). wait_ok w) \<and> budgets_ok cf (ad_waiters s) (ad_budgets s) \<and>
     present (ad_waiters s) (ad_budgets s) \<and> queue_ok (ad_waiters s) None (room_at (ad_budgets s)) (ad_queue s)"

lemma adm_okD:
  assumes "adm_ok cf s"
  shows "i < length (ad_waiters s) \<Longrightarrow> wait_ok (ad_waiters s ! i)"
    and "budgets_ok cf (ad_waiters s) (ad_budgets s)" and "present (ad_waiters s) (ad_budgets s)"
    and "queue_ok (ad_waiters s) None (room_at (ad_budgets s)) (ad_queue s)"
  using assms by (simp_all add: adm_ok_def)

lemma present_key:
  "present ws bs \<Longrightarrow> i < length ws \<Longrightarrow> active_waiter (ws ! i) \<Longrightarrow> key \<in> set (wt_budgetKeys (ws ! i)) \<Longrightarrow> map_of bs key \<noteq> None"
  unfolding present_def by (meson nth_mem)

lemma budgets_okD:
  assumes "budgets_ok cf ws bs"
  shows "map_of bs key = None \<Longrightarrow> holders ws slot key = 0"
    and "map_of bs key = Some b \<Longrightarrow> capacity slot b = capacity slot (new_budget cf key) \<and>
      used slot b = int (holders ws slot key) \<and> used slot b \<le> int (capacity slot b)"
proof -
  from assms have a: "case map_of bs key of None \<Rightarrow> holders ws slot key = 0
     | Some b \<Rightarrow> capacity slot b = capacity slot (new_budget cf key) \<and> used slot b = int (holders ws slot key) \<and>
         used slot b \<le> int (capacity slot b)" unfolding budgets_ok_def by blast
  show "map_of bs key = None \<Longrightarrow> holders ws slot key = 0" using a by simp
  show "map_of bs key = Some b \<Longrightarrow> capacity slot b = capacity slot (new_budget cf key) \<and>
      used slot b = int (holders ws slot key) \<and> used slot b \<le> int (capacity slot b)" using a by simp
qed

lemma budgets_okI:
  assumes "\<And>key slot. map_of bs key = None \<Longrightarrow> holders ws slot key = 0"
    and "\<And>key slot b. map_of bs key = Some b \<Longrightarrow> capacity slot b = capacity slot (new_budget cf key) \<and>
      used slot b = int (holders ws slot key) \<and> used slot b \<le> int (capacity slot b)"
  shows "budgets_ok cf ws bs"
  unfolding budgets_ok_def
proof (intro allI)
  fix key slot
  show "case map_of bs key of None \<Rightarrow> holders ws slot key = 0
     | Some b \<Rightarrow> capacity slot b = capacity slot (new_budget cf key) \<and> used slot b = int (holders ws slot key) \<and>
         used slot b \<le> int (capacity slot b)"
    using assms(1) [of key slot] assms(2) [of key _ slot] by (cases "map_of bs key") simp_all
qed

lemma holders_change:
  assumes "i < length ws" and "wt_budgetKeys w = wt_budgetKeys (ws ! i)"
  shows "holders (ws[i := w]) slot key + of_bool (holds_slot slot (ws ! i) \<and> key \<in> set (wt_budgetKeys w))
    = holders ws slot key + of_bool (holds_slot slot w \<and> key \<in> set (wt_budgetKeys w))"
  using count_where_change [OF assms(1), of "\<lambda>w. holds_slot slot w \<and> key \<in> set (wt_budgetKeys w)" w] assms(2)
  unfolding holders_def by simp

lemma holders_same:
  "i < length ws \<Longrightarrow> wt_budgetKeys w = wt_budgetKeys (ws ! i) \<Longrightarrow> holds_slot slot w = holds_slot slot (ws ! i) \<Longrightarrow>
     holders (ws[i := w]) slot key = holders ws slot key"
  using holders_change [of i ws w slot key] by simp

lemma budgets_ok_cong:
  assumes "\<And>slot key. holders ws' slot key = holders ws slot key"
  shows "budgets_ok cf ws' bs = budgets_ok cf ws bs"
proof -
  have "holders ws' = holders ws" by (intro ext) (rule assms)
  then show ?thesis by (simp only: budgets_ok_def)
qed

text \<open>Two views of eligibility that agree on the lanes there are are the same.\<close>

lemma lanes_ok_el_cong:
  assumes "lanes_ok ws p el q" and "\<And>k l. lane_at q k = Some l \<Longrightarrow> el' k = el k"
  shows "lanes_ok ws p el' q"
  using assms unfolding lanes_ok_def by metis

lemma queue_ok_el_cong:
  "queue_ok ws p el q \<Longrightarrow> (\<And>k l. lane_at q k = Some l \<Longrightarrow> el' k = el k) \<Longrightarrow> queue_ok ws p el' q"
  unfolding queue_ok_def using lanes_ok_el_cong by blast

lemma queued_place_active:
  assumes "queued_at ws (c, t, r) \<noteq> []"
  shows "\<exists>i<length ws. wt_state (ws ! i) = Wait_queued \<and> wt_class (ws ! i) = c \<and> wt_tier (ws ! i) = t \<and> wt_route (ws ! i) = r"
proof -
  from assms have "hd (queued_at ws (c, t, r)) \<in> set (queued_at ws (c, t, r))" by simp
  then show ?thesis by (auto simp: set_queued_at is_queued_def place_of_def)
qed

section \<open>Waiters that change without being queued or unqueued\<close>

lemma touch_ok:
  assumes ok: "queue_ok ws None el q"
    and same: "wt_state w = Wait_queued \<longleftrightarrow> wt_state (ws ! i) = Wait_queued" "wt_class w = wt_class (ws ! i)"
    "wt_tier w = wt_tier (ws ! i)" "wt_route w = wt_route (ws ! i)" "wt_budgetKeys w = wt_budgetKeys (ws ! i)"
  shows "queue_ok (ws[i := w]) None el q"
proof -
  let ?ws = "ws[i := w]"
  have place: "place_of ?ws j = place_of ws j" for j
    using same by (cases "j = i \<and> i < length ws") (auto simp: place_of_def list_update_beyond)
  have queued: "is_queued ?ws j = is_queued ws j" for j
    using same by (cases "j = i \<and> i < length ws") (auto simp: is_queued_def list_update_beyond)
  have qa: "queued_at ?ws k = queued_at ws k" for k by (simp add: queued_at_def place queued)
  have qf: "is_queued ?ws = is_queued ws" by (rule ext) (rule queued)
  have cnt: "count_where P ?ws = count_where P ws" if "P w = P (ws ! i)" for P
    by (rule count_where_keep) (simp add: that)
  have kc: "key_count ?ws None key = key_count ws None key" for key
    unfolding key_count_def by (simp add: cnt same)
  have "lanes_ok ?ws None el q"
    using ok by (simp add: queue_ok_def lanes_ok_def lane_ok_def qa qf pending_at_def)
  moreover have "heaps_ok ?ws {} q"
    by (rule heaps_change [of ws "{}" q]) (use ok in \<open>auto simp: queue_ok_def place lane_candidates_def candidateIsValid_def Let_def queued\<close>)
  moreover have "counts_ok ?ws None q" using ok by (simp add: queue_ok_def counts_ok_def kc cnt same)
  ultimately show ?thesis by (simp add: queue_ok_def)
qed

section \<open>Pruning and aborting\<close>

lemma prune_step_ok:
  assumes ok: "adm_ok cf s" and "prunable s key"
  shows "adm_ok cf (s\<lparr>ad_budgets := filter (\<lambda>e. fst e \<noteq> key) (ad_budgets s)\<rparr>)"
proof -
  let ?ws = "ad_waiters s" and ?bs = "ad_budgets s"
  let ?bs' = "filter (\<lambda>e. fst e \<noteq> key) ?bs"
  have m: "map_of ?bs' k = (if k = key then None else map_of ?bs k)" for k by (rule map_of_without)
  from assms(2) obtain b where b: "map_of ?bs key = Some b" and z: "bg_baseUsed b = 0" "bg_headroomUsed b = 0"
    and nb: "\<not> hasBudget key (ad_queue s)" and rk: "is_route_key key"
    by (auto simp: prunable_def split: option.splits)
  have none: "holders ?ws slot key = 0" for slot
    using budgets_okD(2) [OF adm_okD(2) [OF ok] b, of slot] z by (cases slot) (simp_all add: used_def)
  have unq: "count_where (\<lambda>w. wt_state w = Wait_queued \<and> key \<in> set (wt_budgetKeys w)) ?ws = 0"
  proof -
    from adm_okD(4) [OF ok] have "counts_ok ?ws None (ad_queue s)" by (simp add: queue_ok_def)
    then have "wq_counts (ad_queue s) key = (if key_count ?ws None key = 0 then None else Some (key_count ?ws None key))"
      by (simp add: counts_ok_def)
    with nb have "key_count ?ws None key = 0" by (simp add: hasBudget_def split: if_splits)
    then show ?thesis by (simp add: key_count_def)
  qed
  have zero: "\<not> P w" if "count_where P xs = 0" "w \<in> set xs" for P xs and w :: waiter
    using that by (auto simp: count_where_def filter_empty_conv)
  have idle: "\<not> active_waiter w" if "w \<in> set ?ws" "key \<in> set (wt_budgetKeys w)" for w
    using zero [OF unq that(1)] zero [OF none [unfolded holders_def] that(1)] that(2) by (auto simp: active_waiter_def)
  have "budgets_ok cf ?ws ?bs'"
  proof (rule budgets_okI)
    fix k slot assume "map_of ?bs' k = None"
    then show "holders ?ws slot k = 0" using none budgets_okD(1) [OF adm_okD(2) [OF ok]] by (auto simp: m split: if_splits)
  next
    fix k slot b assume "map_of ?bs' k = Some b"
    then have "map_of ?bs k = Some b" by (simp add: m split: if_splits)
    from budgets_okD(2) [OF adm_okD(2) [OF ok] this]
    show "capacity slot b = capacity slot (new_budget cf k) \<and> used slot b = int (holders ?ws slot k) \<and>
      used slot b \<le> int (capacity slot b)" .
  qed
  moreover have "present ?ws ?bs'"
    using adm_okD(3) [OF ok] idle by (auto simp: present_def m)
  moreover have "queue_ok ?ws None (room_at ?bs') (ad_queue s)"
  proof (rule queue_ok_el_cong [OF adm_okD(4) [OF ok]])
    fix k l assume l: "lane_at (ad_queue s) k = Some l"
    obtain c t r where k: "k = (c, t, r)" by (rule prod_cases3)
    from adm_okD(4) [OF ok] have "lanes_ok ?ws None (room_at ?bs) (ad_queue s)" by (simp add: queue_ok_def)
    from lanes_okD(4) [OF this, of k] l have "queued_at ?ws (c, t, r) \<noteq> []" by (auto simp: k)
    from queued_place_active [OF this] obtain i where i: "i < length ?ws" "wt_state (?ws ! i) = Wait_queued"
      "wt_class (?ws ! i) = c" "wt_route (?ws ! i) = r" by blast
    with adm_okD(1) [OF ok i(1)] have "wt_budgetKeys (?ws ! i) = keys_of c r" by (simp add: wait_ok_def)
    with idle [of "?ws ! i"] i have "truthy r \<Longrightarrow> route_budget c (the r) \<noteq> key"
      by (auto simp: active_waiter_def keys_of_def)
    then show "room_at ?bs' k = room_at ?bs k" by (auto simp: room_at_def k route_room_def m)
  qed
  ultimately show ?thesis using ok by (simp add: adm_ok_def)
qed

lemma prune_ok: "adm_ok cf s \<Longrightarrow> adm_ok cf (pruneRouteBudgets keys s)"
  unfolding pruneRouteBudgets_def by (induction keys arbitrary: s) (simp_all add: prune_step_ok)

lemma prune_fields [simp]:
  "ad_waiters (pruneRouteBudgets keys s) = ad_waiters s" "ad_queue (pruneRouteBudgets keys s) = ad_queue s"
  "ad_reads (pruneRouteBudgets keys s) = ad_reads s" "ad_aborted (pruneRouteBudgets keys s) = ad_aborted s"
  unfolding pruneRouteBudgets_def by (induction keys arbitrary: s) simp_all

lemma prune_budgets:
  "map_of (ad_budgets (pruneRouteBudgets keys s)) k = map_of (ad_budgets s) k \<or>
     k \<in> set keys \<and> is_route_key k \<and> map_of (ad_budgets (pruneRouteBudgets keys s)) k = None"
  unfolding pruneRouteBudgets_def
proof (induction keys arbitrary: s)
  case (Cons key keys)
  let ?s = "if prunable s key then s\<lparr>ad_budgets := filter (\<lambda>e. fst e \<noteq> key) (ad_budgets s)\<rparr> else s"
  have "map_of (ad_budgets ?s) k = map_of (ad_budgets s) k \<or> k = key \<and> is_route_key k \<and> map_of (ad_budgets ?s) k = None"
    by (auto simp: map_of_without prunable_def split: option.splits)
  with Cons.IH [of ?s] show ?case by auto
qed simp

lemma unqueue_wait:
  assumes ok: "adm_ok cf s" and i: "is_queued (ad_waiters s) i" and w: "unqueues (ad_waiters s) i w" "wait_ok w"
    and slot: "\<And>slot. \<not> holds_slot slot w"
  shows "adm_ok cf (s\<lparr>ad_waiters := (ad_waiters s)[i := w], ad_queue := dequeue ((ad_waiters s)[i := w]) i (ad_queue s)\<rparr>)"
proof -
  let ?ws = "ad_waiters s"
  from i have il: "i < length ?ws" by (simp add: is_queued_def)
  from adm_okD(1) [OF ok il] i have q: "wt_slotKind (?ws ! i) = None" by (simp add: wait_ok_def is_queued_def)
  have h: "holders (?ws[i := w]) slot key = holders ?ws slot key" for slot key
    by (rule holders_same [OF il]) (use w(1) slot q in \<open>auto simp: unqueues_def holds_slot_def\<close>)
  have "distinct (wt_budgetKeys w)" using w(2) by (simp add: wait_ok_def)
  with unqueue_ok [OF adm_okD(4) [OF ok] w(1)] il
  have "queue_ok (?ws[i := w]) None (room_at (ad_budgets s)) (dequeue (?ws[i := w]) i (ad_queue s))"
    by (intro dequeue_ok) simp_all
  moreover have "present (?ws[i := w]) (ad_budgets s)"
    using adm_okD(3) [OF ok] slot w(1)
    by (auto simp: present_def active_waiter_def unqueues_def dest!: set_update_subset_insert [THEN subsetD])
  moreover have "budgets_ok cf (?ws[i := w]) (ad_budgets s)"
    using adm_okD(2) [OF ok] budgets_ok_cong [OF h] by simp
  moreover have "\<forall>v\<in>set (?ws[i := w]). wait_ok v"
    using ok w(2) by (auto simp: adm_ok_def dest!: set_update_subset_insert [THEN subsetD])
  ultimately show ?thesis by (simp add: adm_ok_def)
qed

lemma touch_waiter:
  assumes ok: "adm_ok cf s"
    and f: "wt_state (f w) = Wait_queued \<longleftrightarrow> wt_state w = Wait_queued" "wt_class (f w) = wt_class w"
      "wt_tier (f w) = wt_tier w" "wt_route (f w) = wt_route w" "wt_budgetKeys (f w) = wt_budgetKeys w"
      "wt_slotKind (f w) = wt_slotKind w" "wt_released (f w) = wt_released w"
    and w: "w = ad_waiters s ! i"
  shows "adm_ok cf (change_waiter i f s)"
proof (cases "i < length (ad_waiters s)")
  case False
  with ok show ?thesis by (simp add: change_waiter_def list_update_beyond)
next
  case True
  have h: "holders ((ad_waiters s)[i := f w]) slot key = holders (ad_waiters s) slot key" for slot key
    by (rule holders_same [OF True]) (use f in \<open>auto simp: holds_slot_def w\<close>)
  have "queue_ok ((ad_waiters s)[i := f w]) None (room_at (ad_budgets s)) (ad_queue s)"
    by (rule touch_ok [OF adm_okD(4) [OF ok]]) (use f in \<open>auto simp: w\<close>)
  moreover have "wait_ok (f w)" using adm_okD(1) [OF ok True] f by (simp add: wait_ok_def w)
  moreover have "active_waiter (f w) = active_waiter w" using f by (simp add: active_waiter_def holds_slot_def)
  moreover have "budgets_ok cf ((ad_waiters s)[i := f w]) (ad_budgets s)"
    using adm_okD(2) [OF ok] budgets_ok_cong [OF h] by simp
  ultimately show ?thesis
    using ok f True unfolding adm_ok_def change_waiter_def w
    by (auto simp: present_def dest!: set_update_subset_insert [THEN subsetD])
qed

lemma abort_queued_ok:
  assumes ok: "adm_ok cf s" and i: "is_queued (ad_waiters s) i"
  shows "adm_ok cf (abort_queued i s)"
proof -
  let ?w = "(ad_waiters s ! i)\<lparr>wt_state := Wait_settled\<rparr>"
  from i have il: "i < length (ad_waiters s)" by (simp add: is_queued_def)
  from adm_okD(1) [OF ok il] i have q: "wt_slotKind (ad_waiters s ! i) = None" by (simp add: wait_ok_def is_queued_def)
  have u: "unqueues (ad_waiters s) i ?w" using i by (simp add: unqueues_def)
  have wo: "wait_ok ?w" using adm_okD(1) [OF ok il] by (simp add: wait_ok_def)
  have ns: "\<not> holds_slot slot ?w" for slot using q by (simp add: holds_slot_def)
  define s2 where "s2 = s\<lparr>ad_waiters := (ad_waiters s)[i := ?w], ad_queue := dequeue ((ad_waiters s)[i := ?w]) i (ad_queue s)\<rparr>"
  have "adm_ok cf s2" unfolding s2_def by (rule unqueue_wait [OF ok i u wo ns])
  then have "adm_ok cf (pruneRouteBudgets (wt_budgetKeys (ad_waiters s2 ! i)) s2)" by (rule prune_ok)
  moreover have "abort_queued i s = change_waiter i (\<lambda>w. w\<lparr>wt_promise := Promise_rejected\<rparr>)
      (pruneRouteBudgets (wt_budgetKeys (ad_waiters s2 ! i)) s2)"
    by (simp add: abort_queued_def change_waiter_def Let_def s2_def)
  ultimately show ?thesis using touch_waiter [where f = "\<lambda>w. w\<lparr>wt_promise := Promise_rejected\<rparr>"] by simp
qed

text \<open>
  Granting, releasing and choosing keep the invariant; the choice looks at one candidate per tier and slot, and these
  are, of all waiters that could be granted, the oldest of each tier.
\<close>

section \<open>Refreshing the eligibility of a route\<close>

lemma refresh_ok:
  assumes q: "queue_ok (ad_waiters s) p el (ad_queue s)"
    and key: "truthy r \<Longrightarrow> map_of (ad_budgets s) (route_budget c (the r)) \<noteq> None"
    and other: "\<And>c' t r'. c' \<noteq> c \<or> r' \<noteq> r \<Longrightarrow> el (c', t, r') = room_at (ad_budgets s) (c', t, r')"
  shows "ad_budgets (refreshRouteEligibility cf c r s) = ad_budgets s \<and>
    queue_ok (ad_waiters s) p (room_at (ad_budgets s)) (ad_queue (refreshRouteEligibility cf c r s))"
proof -
  define e where "e = (route_room Slot_base (ad_budgets s) c r, route_room Slot_headroom (ad_budgets s) c r)"
  have el: "eligible_at c r e el = room_at (ad_budgets s)"
  proof
    fix k :: place
    obtain c' t r' where k: "k = (c', t, r')" by (rule prod_cases3)
    show "eligible_at c r e el k = room_at (ad_budgets s) k"
      using other [of c' r' t] by (auto simp: k eligible_at_def e_def room_at_def)
  qed
  have room: "truthy r \<Longrightarrow> route_room slot (ad_budgets s) c r = has_room slot (the (map_of (ad_budgets s) (route_budget c (the r))))"
    "\<not> truthy r \<Longrightarrow> route_room slot (ad_budgets s) c r" for slot
    using key by (auto simp: route_room_def)
  have "refreshRouteEligibility cf c r s = s\<lparr>ad_queue := updateRouteEligibility (ad_waiters s) c r (fst e) (snd e) (ad_queue s)\<rparr>"
    using key by (cases "truthy r") (simp_all add: refreshRouteEligibility_def Let_def e_def room)
  with updateRouteEligibility_ok [OF q, of c r "fst e" "snd e"] el show ?thesis by simp
qed

lemma room_at_other:
  assumes "\<And>k. k \<notin> set (keys_of c r) \<Longrightarrow> map_of bs' k = map_of bs k" and "c' \<noteq> c \<or> r' \<noteq> r"
  shows "room_at bs (c', t, r') = room_at bs' (c', t, r')"
proof -
  have "map_of bs' (route_budget c' (the r')) = map_of bs (route_budget c' (the r'))" if "truthy r'"
    by (rule assms(1)) (use assms(2) that in \<open>auto simp: keys_of_def elim!: truthyE\<close>)
  then show ?thesis by (auto simp: room_at_def route_room_def)
qed

section \<open>Granting\<close>

definition fits_slot :: "(string \<times> budget) list \<Rightarrow> waiter \<Rightarrow> slot_kind \<Rightarrow> bool" where
  "fits_slot bs w slot \<longleftrightarrow> (slot = Slot_headroom \<longrightarrow> wt_tier w = Tier_interactive) \<and>
     (\<forall>key\<in>set (wt_budgetKeys w). has_room slot (the (map_of bs key)))"

lemma wait_keys: "wait_ok w \<Longrightarrow> wt_budgetKeys w = keys_of (wt_class w) (wt_route w)"
  by (simp add: wait_ok_def)

lemma room_keys:
  assumes "\<And>key. key \<in> set (keys_of c r) \<Longrightarrow> map_of bs key \<noteq> None"
  shows "(\<forall>key\<in>set (keys_of c r). has_room slot (the (map_of bs key))) \<longleftrightarrow>
    has_room slot (the (map_of bs (class_key c))) \<and> route_room slot bs c r"
proof (cases "truthy r")
  case True
  with assms [of "route_budget c (the r)"] obtain b where "map_of bs (route_budget c (the r)) = Some b"
    by (auto simp: keys_of_def)
  with True show ?thesis by (simp add: keys_of_def route_room_def)
qed (simp add: keys_of_def route_room_def)

lemma use_keys_other:
  "(\<And>key. key \<in> set (keys_of c r) \<Longrightarrow> map_of bs key \<noteq> None) \<Longrightarrow> k \<notin> set (keys_of c r) \<Longrightarrow>
     map_of (use_keys cf slot n (keys_of c r) bs) k = map_of bs k"
  by (cases "map_of bs k") (simp_all add: map_of_use_keys)

lemma publish_fields_ad [simp]:
  "ad_budgets (publishEvent cf i slot phase w s) = ad_budgets s" "ad_queue (publishEvent cf i slot phase w s) = ad_queue s"
  "ad_reads (publishEvent cf i slot phase w s) = ad_reads s" "ad_aborted (publishEvent cf i slot phase w s) = ad_aborted s"
  by (simp_all add: publishEvent_def)

lemma use_budgets_ok:
  assumes ok: "budgets_ok cf ws bs" and keys: "\<And>key. key \<in> set keys \<Longrightarrow> map_of bs key \<noteq> None" "distinct keys"
    and more: "\<And>k slot'. int (holders ws' slot' k) = int (holders ws slot' k) + (if slot' = slot \<and> k \<in> set keys then n else 0)"
    and room: "\<And>key b. key \<in> set keys \<Longrightarrow> map_of bs key = Some b \<Longrightarrow> used slot b + n \<le> int (capacity slot b)"
  shows "budgets_ok cf ws' (use_keys cf slot n keys bs)"
proof (rule budgets_okI)
  fix k slot'
  assume "map_of (use_keys cf slot n keys bs) k = None"
  then have none: "map_of bs k = None" by (simp add: map_of_use_keys [OF keys(2) keys(1)])
  then have "k \<notin> set keys" using keys(1) by blast
  with more [of slot' k] budgets_okD(1) [OF ok none, of slot'] show "holders ws' slot' k = 0" by simp
next
  fix k slot' b'
  assume "map_of (use_keys cf slot n keys bs) k = Some b'"
  then obtain b where b: "map_of bs k = Some b" "b' = (if k \<in> set keys then use_slot slot n b else b)"
    by (auto simp: map_of_use_keys [OF keys(2) keys(1)])
  from budgets_okD(2) [OF ok b(1), of slot'] more [of slot' k] room [of k b] b
  show "capacity slot' b' = capacity slot' (new_budget cf k) \<and> used slot' b' = int (holders ws' slot' k) \<and>
      used slot' b' \<le> int (capacity slot' b')"
    by (cases "k \<in> set keys"; cases "slot' = slot") simp_all
qed

lemma grant_ok:
  assumes ok: "adm_ok cf s" and i: "is_queued (ad_waiters s) i" and fit: "fits_slot (ad_budgets s) (ad_waiters s ! i) slot"
  shows "adm_ok cf (grant cf i slot now s)"
proof -
  let ?ws = "ad_waiters s" and ?bs = "ad_budgets s"
  let ?w = "?ws ! i"
  let ?w' = "?w\<lparr>wt_state := Wait_granted, wt_slotKind := Some slot\<rparr>"
  let ?ws' = "?ws[i := ?w']"
  from i have il: "i < length ?ws" and iq: "wt_state ?w = Wait_queued" by (simp_all add: is_queued_def)
  note wo = adm_okD(1) [OF ok il]
  define c where "c = wt_class ?w"
  define r where "r = wt_route ?w"
  have kw: "wt_budgetKeys ?w = keys_of c r" using wait_keys [OF wo] by (simp add: c_def r_def)
  have have_key: "map_of ?bs key \<noteq> None" if "key \<in> set (keys_of c r)" for key
    using present_key [OF adm_okD(3) [OF ok] il] iq that kw by (simp add: active_waiter_def)
  define bs' where "bs' = use_keys cf slot 1 (keys_of c r) ?bs"
  have other: "map_of bs' k = map_of ?bs k" if "k \<notin> set (keys_of c r)" for k
    unfolding bs'_def by (rule use_keys_other [OF have_key that])
  have some: "map_of bs' k \<noteq> None" if "map_of ?bs k \<noteq> None" for k
    unfolding bs'_def using that by (simp add: map_of_use_keys [OF distinct_keys_of have_key])
  have u: "unqueues ?ws i ?w'" using i by (simp add: unqueues_def)
  note q1 = unqueue_ok [OF adm_okD(4) [OF ok] u]
  define s2 where "s2 = s\<lparr>ad_waiters := ?ws', ad_budgets := bs'\<rparr>"
  have rf: "ad_budgets (refreshRouteEligibility cf c r s2) = bs' \<and>
      queue_ok ?ws' (Some i) (room_at bs') (ad_queue (refreshRouteEligibility cf c r s2))"
  proof -
    have "queue_ok (ad_waiters s2) (Some i) (room_at ?bs) (ad_queue s2)" using q1 by (simp add: s2_def)
    moreover have "truthy r \<Longrightarrow> map_of (ad_budgets s2) (route_budget c (the r)) \<noteq> None"
      using some have_key by (simp add: s2_def keys_of_def)
    moreover have "room_at ?bs (c', t, r') = room_at (ad_budgets s2) (c', t, r')" if "c' \<noteq> c \<or> r' \<noteq> r" for c' t r'
      using room_at_other [OF other that] by (simp add: s2_def)
    ultimately show ?thesis using refresh_ok [of s2 "Some i" "room_at ?bs" r c cf] by (simp add: s2_def)
  qed
  define s3 where "s3 = refreshRouteEligibility cf c r s2"
  have q4: "queue_ok ?ws' None (room_at bs') (dequeue ?ws' i (ad_queue s3))"
    by (rule dequeue_ok) (use rf kw il in \<open>simp_all add: s3_def\<close>)
  have g: "ad_waiters (grant cf i slot now s) = ?ws'" "ad_budgets (grant cf i slot now s) = bs'"
    "ad_queue (grant cf i slot now s) = dequeue ?ws' i (ad_queue s3)"
  proof -
    have cr: "wt_class ?w = c" "wt_route ?w = r" by (simp_all add: c_def r_def)
    show "ad_waiters (grant cf i slot now s) = ?ws'" "ad_budgets (grant cf i slot now s) = bs'"
      "ad_queue (grant cf i slot now s) = dequeue ?ws' i (ad_queue s3)"
      using il rf [unfolded s2_def] by (simp_all add: grant_def Let_def change_waiter_def kw cr bs'_def [symmetric] s3_def s2_def)
  qed
  have nh: "\<not> holds_slot slot' ?w" for slot' using wo iq by (simp add: wait_ok_def holds_slot_def)
  have "budgets_ok cf ?ws' bs'"
    unfolding bs'_def
  proof (rule use_budgets_ok [OF adm_okD(2) [OF ok] have_key distinct_keys_of])
    fix k slot'
    have "holds_slot slot' ?w' \<longleftrightarrow> slot' = slot" using wo iq by (auto simp: holds_slot_def wait_ok_def)
    with holders_change [OF il, of ?w' slot' k] nh [of slot'] kw
    show "int (holders ?ws' slot' k) = int (holders ?ws slot' k) + (if slot' = slot \<and> k \<in> set (keys_of c r) then 1 else 0)"
      by (cases "slot' = slot"; cases "k \<in> set (keys_of c r)") simp_all
  next
    fix key b assume "key \<in> set (keys_of c r)" "map_of ?bs key = Some b"
    with fit kw have "has_room slot b" unfolding fits_slot_def by force
    then show "used slot b + 1 \<le> int (capacity slot b)" by (simp add: has_room_used)
  qed
  moreover have "present ?ws' bs'"
    using adm_okD(3) [OF ok] some kw have_key
    by (auto simp: present_def dest!: set_update_subset_insert [THEN subsetD])
  moreover have "\<forall>v\<in>set ?ws'. wait_ok v"
    using ok wo by (auto simp: adm_ok_def wait_ok_def dest!: set_update_subset_insert [THEN subsetD])
  ultimately show ?thesis using q4 by (simp add: adm_ok_def g)
qed

lemma grant_budgets_eq:
  assumes ok: "adm_ok cf s" and i: "is_queued (ad_waiters s) i"
  shows "ad_budgets (grant cf i slot now s) = use_keys cf slot 1 (wt_budgetKeys (ad_waiters s ! i)) (ad_budgets s)"
proof -
  let ?w = "ad_waiters s ! i"
  from i have il: "i < length (ad_waiters s)" and iq: "wt_state ?w = Wait_queued" by (simp_all add: is_queued_def)
  note kw = wait_keys [OF adm_okD(1) [OF ok il]]
  have have_key: "map_of (ad_budgets s) k \<noteq> None" if "k \<in> set (wt_budgetKeys ?w)" for k
    using present_key [OF adm_okD(3) [OF ok] il] iq that by (simp add: active_waiter_def)
  let ?bs = "use_keys cf slot 1 (wt_budgetKeys ?w) (ad_budgets s)"
  have r: "truthy (wt_route ?w) \<Longrightarrow> map_of ?bs (route_budget (wt_class ?w) (the (wt_route ?w))) \<noteq> None"
  proof -
    assume "truthy (wt_route ?w)"
    then have m: "route_budget (wt_class ?w) (the (wt_route ?w)) \<in> set (wt_budgetKeys ?w)" by (simp add: kw keys_of_def)
    from map_of_use_keys [of "wt_budgetKeys ?w" "ad_budgets s" cf slot 1] have_key have_key [OF m]
    show ?thesis by (simp add: kw)
  qed
  show ?thesis
    using il r by (cases "truthy (wt_route ?w)") (simp_all add: grant_def Let_def change_waiter_def refreshRouteEligibility_def)
qed

lemma grant_budgets:
  assumes ok: "adm_ok cf s" and i: "is_queued (ad_waiters s) i" and k: "key \<notin> set (wt_budgetKeys (ad_waiters s ! i))"
  shows "map_of (ad_budgets (grant cf i slot now s)) key = map_of (ad_budgets s) key"
proof -
  let ?w = "ad_waiters s ! i"
  from i have il: "i < length (ad_waiters s)" and iq: "wt_state ?w = Wait_queued" by (simp_all add: is_queued_def)
  have "map_of (ad_budgets s) k \<noteq> None" if "k \<in> set (wt_budgetKeys ?w)" for k
    using present_key [OF adm_okD(3) [OF ok] il] iq that by (simp add: active_waiter_def)
  with use_keys_other [of "wt_class ?w" "wt_route ?w" "ad_budgets s" key cf slot 1] k show ?thesis
    unfolding grant_budgets_eq [OF ok i] wait_keys [OF adm_okD(1) [OF ok il]] by blast
qed

section \<open>Releasing\<close>

definition before_drain :: "adm_config \<Rightarrow> nat \<Rightarrow> slot_kind \<Rightarrow> rat \<Rightarrow> admission \<Rightarrow> admission" where
  "before_drain cf i slot queueWaitMs s =
     (let s1 = change_waiter i (\<lambda>w. w\<lparr>wt_released := True\<rparr>) s;
          w = ad_waiters s1 ! i;
          s2 = s1\<lparr>ad_budgets := use_keys cf slot (- 1) (wt_budgetKeys w) (ad_budgets s1)\<rparr>;
          s3 = refreshRouteEligibility cf (wt_class w) (wt_route w) s2;
          s4 = publishEvent cf i slot Phase_release queueWaitMs s3
      in pruneRouteBudgets (wt_budgetKeys w) s4)"

lemma before_drain_waiters [simp]:
  "ad_waiters (before_drain cf i slot wait s) = (ad_waiters s)[i := (ad_waiters s ! i)\<lparr>wt_released := True\<rparr>]"
  by (simp add: before_drain_def Let_def change_waiter_def)

lemma release_slot_drain:
  "i < length (ad_waiters s) \<Longrightarrow>
     release_slot cf i slot wait s = drain cf (wt_class (ad_waiters s ! i)) (before_drain cf i slot wait s)"
  by (simp add: release_slot_def before_drain_def Let_def change_waiter_def)

lemma before_drain_ok:
  assumes ok: "adm_ok cf s" and il: "i < length (ad_waiters s)" and nq: "wt_state (ad_waiters s ! i) \<noteq> Wait_queued"
    and hold: "holds_slot slot (ad_waiters s ! i)"
  shows "adm_ok cf (before_drain cf i slot wait s)"
    and "k \<notin> set (wt_budgetKeys (ad_waiters s ! i)) \<Longrightarrow>
      map_of (ad_budgets (before_drain cf i slot wait s)) k = map_of (ad_budgets s) k"
proof -
  let ?ws = "ad_waiters s" and ?bs = "ad_budgets s"
  let ?w = "?ws ! i"
  let ?w' = "?w\<lparr>wt_released := True\<rparr>"
  let ?ws' = "?ws[i := ?w']"
  note wo = adm_okD(1) [OF ok il]
  define c where "c = wt_class ?w"
  define r where "r = wt_route ?w"
  have kw: "wt_budgetKeys ?w = keys_of c r" using wait_keys [OF wo] by (simp add: c_def r_def)
  have "active_waiter ?w" using hold by (auto simp: active_waiter_def)
  from present_key [OF adm_okD(3) [OF ok] il this] kw
  have have_key: "map_of ?bs key \<noteq> None" if "key \<in> set (keys_of c r)" for key using that by simp
  define bs' where "bs' = use_keys cf slot (- 1) (keys_of c r) ?bs"
  have other: "map_of bs' k = map_of ?bs k" if "k \<notin> set (keys_of c r)" for k
    unfolding bs'_def by (rule use_keys_other [OF have_key that])
  have some: "map_of bs' k \<noteq> None" if "map_of ?bs k \<noteq> None" for k
    unfolding bs'_def using that by (simp add: map_of_use_keys [OF distinct_keys_of have_key])
  have q1: "queue_ok ?ws' None (room_at ?bs) (ad_queue s)"
    by (rule touch_ok [OF adm_okD(4) [OF ok]]) simp_all
  define s2 where "s2 = s\<lparr>ad_waiters := ?ws', ad_budgets := bs'\<rparr>"
  have rf: "ad_budgets (refreshRouteEligibility cf c r s2) = bs' \<and>
      queue_ok ?ws' None (room_at bs') (ad_queue (refreshRouteEligibility cf c r s2))"
  proof -
    have "queue_ok (ad_waiters s2) None (room_at ?bs) (ad_queue s2)" using q1 by (simp add: s2_def)
    moreover have "truthy r \<Longrightarrow> map_of (ad_budgets s2) (route_budget c (the r)) \<noteq> None"
      using some have_key by (simp add: s2_def keys_of_def)
    moreover have "room_at ?bs (c', t, r') = room_at (ad_budgets s2) (c', t, r')" if "c' \<noteq> c \<or> r' \<noteq> r" for c' t r'
      using room_at_other [OF other that] by (simp add: s2_def)
    ultimately show ?thesis using refresh_ok [of s2 None "room_at ?bs" r c cf] by (simp add: s2_def)
  qed
  define s4 where "s4 = publishEvent cf i slot Phase_release wait (refreshRouteEligibility cf c r s2)"
  have b: "before_drain cf i slot wait s = pruneRouteBudgets (keys_of c r) s4"
    using il by (simp add: before_drain_def Let_def change_waiter_def kw s4_def s2_def bs'_def c_def r_def)
  have "budgets_ok cf ?ws' bs'"
    unfolding bs'_def
  proof (rule use_budgets_ok [OF adm_okD(2) [OF ok] have_key distinct_keys_of])
    fix k slot'
    have "holds_slot slot' ?w \<longleftrightarrow> slot' = slot" "\<not> holds_slot slot' ?w'" using hold by (auto simp: holds_slot_def)
    with holders_change [OF il, of ?w' slot' k] kw
    show "int (holders ?ws' slot' k) = int (holders ?ws slot' k) + (if slot' = slot \<and> k \<in> set (keys_of c r) then - 1 else 0)"
      by (cases "slot' = slot"; cases "k \<in> set (keys_of c r)") simp_all
  next
    fix key b assume "map_of ?bs key = Some b"
    from budgets_okD(2) [OF adm_okD(2) [OF ok] this, of slot] show "used slot b + - 1 \<le> int (capacity slot b)" by simp
  qed
  moreover have "present ?ws' bs'"
    using adm_okD(3) [OF ok] some kw have_key
    by (auto simp: present_def dest!: set_update_subset_insert [THEN subsetD])
  moreover have "\<forall>v\<in>set ?ws'. wait_ok v"
    using ok wo nq by (auto simp: adm_ok_def wait_ok_def dest!: set_update_subset_insert [THEN subsetD])
  ultimately have "adm_ok cf s4" using rf by (simp add: adm_ok_def s4_def s2_def)
  then show "adm_ok cf (before_drain cf i slot wait s)" unfolding b by (rule prune_ok)
  have s4b: "ad_budgets s4 = bs'" using rf by (simp add: s4_def)
  show "map_of (ad_budgets (before_drain cf i slot wait s)) k = map_of ?bs k" if "k \<notin> set (wt_budgetKeys ?w)"
    using prune_budgets [of "keys_of c r" s4 k] that other unfolding b s4b kw by auto
qed

section \<open>Choosing\<close>

lemma lane_oldest:
  assumes "lanes_ok ws None el q" and "lane_at q k = Some l" and "j \<in> set (queued_at ws k)"
  shows "hd (queued_at ws k) \<le> j"
  using sorted_queued_at [of ws k] assms(3) by (cases "queued_at ws k") auto

lemma heap_look:
  assumes q: "queue_ok ws None el q"
    and h: "candidate_heap.holds_valid (own_candidate ws q c t) (candidateIsValid ws q slot) (lane_candidates ws {} q slot c t) h"
  shows "(fst (peek (candidateIsValid ws q slot) h) = None \<longrightarrow>
      (\<forall>j. is_queued ws j \<and> wt_class (ws ! j) = c \<and> wt_tier (ws ! j) = t \<longrightarrow>
        \<not> (if slot = Slot_base then fst (el (place_of ws j)) else snd (el (place_of ws j))))) \<and>
    (\<forall>d. fst (peek (candidateIsValid ws q slot) h) = Some d \<longrightarrow>
      is_queued ws (cd_waiter d) \<and> wt_class (ws ! cd_waiter d) = c \<and> wt_tier (ws ! cd_waiter d) = t \<and>
      (if slot = Slot_base then fst (el (place_of ws (cd_waiter d))) else snd (el (place_of ws (cd_waiter d)))) \<and>
      (\<forall>j. is_queued ws j \<and> wt_class (ws ! j) = c \<and> wt_tier (ws ! j) = t \<and>
        (if slot = Slot_base then fst (el (place_of ws j)) else snd (el (place_of ws j))) \<longrightarrow> cd_waiter d \<le> j))"
proof -
  from q have l': "lanes_ok ws None el q" by (simp add: queue_ok_def)
  have own: "cd \<in> lane_candidates ws {} q slot c t" if "cd \<in> set h" "candidateIsValid ws q slot cd" for cd
  proof -
    from h that(1) have o': "own_candidate ws q c t cd" by (simp add: candidate_heap.holds_valid_def)
    then have "place_of ws (cd_waiter cd) = (c, t, wt_route (ws ! cd_waiter cd))"
      by (simp add: own_candidate_def place_of_def)
    with valid_in_lane [OF l' that(2)] o' that(2) show ?thesis by (auto simp: own_candidate_def lane_candidates_def)
  qed
  note look = candidate_heap.look_needed [OF h own]
  have cand: "\<exists>d\<in>lane_candidates ws {} q slot c t. cd_waiter d \<le> j"
    if j: "is_queued ws j" "wt_class (ws ! j) = c" "wt_tier (ws ! j) = t"
      "if slot = Slot_base then fst (el (place_of ws j)) else snd (el (place_of ws j))" for j
  proof -
    define k where "k = place_of ws j"
    have k: "k = (c, t, wt_route (ws ! j))" using j by (simp add: k_def place_of_def)
    have mem: "j \<in> set (queued_at ws k)" using j by (simp add: set_queued_at k_def)
    then have "queued_at ws k \<noteq> []" by auto
    with lanes_okD(4) [OF l', of k] obtain l where l: "lane_at q k = Some l" by auto
    note b = lane_items_bound [OF l' l]
    from lanes_okD(2) [OF l' l] have e: "(ln_baseEligible (wq_lanes q ! l), ln_headroomEligible (wq_lanes q ! l)) = el k"
      by (simp add: lane_ok_def)
    let ?d = "\<lparr>cd_lane = l, cd_waiter = hd (queued_at ws k), cd_version = ln_version (wq_lanes q ! l)\<rparr>"
    from j(4) have "if slot = Slot_base then ln_baseEligible (wq_lanes q ! l) else ln_headroomEligible (wq_lanes q ! l)"
      using e unfolding k_def [symmetric] by (cases "el k") auto
    then have "?d \<in> lane_candidates ws {} q slot c t"
      using b l k by (auto simp: lane_candidates_def candidateIsValid_def Let_def)
    moreover have "cd_waiter ?d \<le> j" using lane_oldest [OF l' l mem] by simp
    ultimately show ?thesis by blast
  qed
  have fact: "is_queued ws (cd_waiter d) \<and> wt_class (ws ! cd_waiter d) = c \<and> wt_tier (ws ! cd_waiter d) = t \<and>
      (if slot = Slot_base then fst (el (place_of ws (cd_waiter d))) else snd (el (place_of ws (cd_waiter d))))"
    if d: "d \<in> lane_candidates ws {} q slot c t" for d
  proof -
    from d obtain r where r: "lane_at q (c, t, r) = Some (cd_lane d)" and v: "candidateIsValid ws q slot d"
      by (auto simp: lane_candidates_def)
    from v have hd: "lane_head (wq_lanes q ! cd_lane d) = Some (cd_waiter d)" and iq: "is_queued ws (cd_waiter d)"
      and e: "if slot = Slot_base then ln_baseEligible (wq_lanes q ! cd_lane d) else ln_headroomEligible (wq_lanes q ! cd_lane d)"
      by (simp_all add: candidateIsValid_def Let_def)
    from lane_items_bound [OF l' r] hd have "cd_waiter d \<in> set (queued_at ws (c, t, r))" by simp
    then have p: "place_of ws (cd_waiter d) = (c, t, r)" by (simp add: set_queued_at)
    from lanes_okD(2) [OF l' r] have "(ln_baseEligible (wq_lanes q ! cd_lane d), ln_headroomEligible (wq_lanes q ! cd_lane d)) = el (c, t, r)"
      by (simp add: lane_ok_def)
    with e p iq show ?thesis by (cases "el (c, t, r)") (auto simp: place_of_def)
  qed
  show ?thesis
  proof (intro conjI impI allI)
    assume "fst (peek (candidateIsValid ws q slot) h) = None"
    with look have "lane_candidates ws {} q slot c t = {}" by blast
    then show "\<not> (if slot = Slot_base then fst (el (place_of ws j)) else snd (el (place_of ws j)))"
      if "is_queued ws j \<and> wt_class (ws ! j) = c \<and> wt_tier (ws ! j) = t" for j using cand [of j] that by blast
  next
    fix d assume "fst (peek (candidateIsValid ws q slot) h) = Some d"
    with look have d: "d \<in> lane_candidates ws {} q slot c t" "\<And>c'. c' \<in> lane_candidates ws {} q slot c t \<Longrightarrow> cd_waiter d \<le> cd_waiter c'"
      by blast+
    from fact [OF d(1)] show "is_queued ws (cd_waiter d)" "wt_class (ws ! cd_waiter d) = c" "wt_tier (ws ! cd_waiter d) = t"
      "if slot = Slot_base then fst (el (place_of ws (cd_waiter d))) else snd (el (place_of ws (cd_waiter d)))" by blast+
    show "cd_waiter d \<le> j" if "is_queued ws j \<and> wt_class (ws ! j) = c \<and> wt_tier (ws ! j) = t \<and>
        (if slot = Slot_base then fst (el (place_of ws j)) else snd (el (place_of ws j)))" for j
      using cand [of j] d(2) that by (meson order_trans)
  qed
qed

end
