(* ===== verification/Git_Choice.thy ===== *)
theory Git_Choice
  imports Git_Admission
begin

text \<open>
  What \<open>nextFitting\<close> chooses: of all waiters of a class that fit, with their slot, the first in the order of the
  code's comparison, although it looks at the tops of the heaps only; when it chooses nobody, nobody fits. And what
  choosing may change on the way: waiters of aborted signals leave, nothing else moves.
\<close>

section \<open>What can be granted\<close>

definition could :: "admission \<Rightarrow> adm_class \<Rightarrow> slot_kind \<Rightarrow> adm_tier \<Rightarrow> nat \<Rightarrow> bool" where
  "could s c slot t j \<longleftrightarrow> is_queued (ad_waiters s) j \<and> wt_class (ad_waiters s ! j) = c \<and>
     wt_tier (ad_waiters s ! j) = t \<and> route_room slot (ad_budgets s) c (wt_route (ad_waiters s ! j))"

definition fitting :: "admission \<Rightarrow> adm_class \<Rightarrow> nat \<Rightarrow> slot_kind \<Rightarrow> bool" where
  "fitting s c i slot \<longleftrightarrow> is_queued (ad_waiters s) i \<and> wt_class (ad_waiters s ! i) = c \<and>
     fits_slot (ad_budgets s) (ad_waiters s ! i) slot"

definition class_room :: "slot_kind \<Rightarrow> admission \<Rightarrow> adm_class \<Rightarrow> bool" where
  "class_room slot s c \<longleftrightarrow> has_room slot (the (map_of (ad_budgets s) (class_key c)))"

lemma queued_key:
  assumes "adm_ok cf s" and "is_queued (ad_waiters s) i" and "key \<in> set (wt_budgetKeys (ad_waiters s ! i))"
  shows "map_of (ad_budgets s) key \<noteq> None"
  using present_key [OF adm_okD(3) [OF assms(1)], of i key] assms(2,3) by (simp add: is_queued_def active_waiter_def)

lemma queued_keys_of:
  assumes "adm_ok cf s" and "is_queued (ad_waiters s) i"
  shows "wt_budgetKeys (ad_waiters s ! i) = keys_of (wt_class (ad_waiters s ! i)) (wt_route (ad_waiters s ! i))"
  using wait_keys [OF adm_okD(1) [OF assms(1)], of i] assms(2) by (simp add: is_queued_def)

lemma fitting_could:
  assumes "adm_ok cf s"
  shows "fitting s c i slot \<longleftrightarrow> class_room slot s c \<and> could s c slot (wt_tier (ad_waiters s ! i)) i \<and>
    (slot = Slot_headroom \<longrightarrow> wt_tier (ad_waiters s ! i) = Tier_interactive)"
proof (cases "is_queued (ad_waiters s) i")
  case True
  note k = queued_keys_of [OF assms True]
  with queued_key [OF assms True] room_keys [of "wt_class (ad_waiters s ! i)" "wt_route (ad_waiters s ! i)" "ad_budgets s" slot]
  show ?thesis by (auto simp: fitting_def could_def class_room_def fits_slot_def)
qed (simp add: fitting_def could_def)

section \<open>Looking at a heap\<close>

definition heaps_only :: "admission \<Rightarrow> admission \<Rightarrow> bool" where
  "heaps_only s s' \<longleftrightarrow> ad_waiters s' = ad_waiters s \<and> ad_budgets s' = ad_budgets s \<and> ad_reads s' = ad_reads s \<and>
     ad_aborted s' = ad_aborted s"

definition least_of :: "(nat \<Rightarrow> bool) \<Rightarrow> nat option \<Rightarrow> bool" where
  "least_of P x \<longleftrightarrow> (case x of None \<Rightarrow> \<forall>j. \<not> P j | Some i \<Rightarrow> P i \<and> (\<forall>j. P j \<longrightarrow> i \<le> j))"

lemma heaps_only_trans: "heaps_only s s1 \<Longrightarrow> heaps_only s1 s2 \<Longrightarrow> heaps_only s s2"
  by (simp add: heaps_only_def)

lemma could_heaps: "heaps_only s s' \<Longrightarrow> could s' c slot t = could s c slot t"
  by (simp add: heaps_only_def could_def fun_eq_iff)

lemma fitting_heaps: "heaps_only s s' \<Longrightarrow> fitting s' c i slot = fitting s c i slot"
  by (simp add: heaps_only_def fitting_def)

lemma heap_look_least:
  assumes ok: "adm_ok cf s"
    and h: "candidate_heap.holds_valid (own_candidate (ad_waiters s) (ad_queue s) c t)
      (candidateIsValid (ad_waiters s) (ad_queue s) slot) (lane_candidates (ad_waiters s) {} (ad_queue s) slot c t) h"
  shows "least_of (could s c slot t) (map_option cd_waiter (fst (peek (candidateIsValid (ad_waiters s) (ad_queue s) slot) h)))"
proof -
  have e: "is_queued (ad_waiters s) j \<and> wt_class (ad_waiters s ! j) = c \<and> wt_tier (ad_waiters s ! j) = t \<and>
      (if slot = Slot_base then fst (room_at (ad_budgets s) (place_of (ad_waiters s) j))
       else snd (room_at (ad_budgets s) (place_of (ad_waiters s) j))) \<longleftrightarrow> could s c slot t j" for j
    by (cases slot) (auto simp: could_def room_at_def place_of_def)
  note look = heap_look [OF adm_okD(4) [OF ok] h]
  show ?thesis
  proof (cases "fst (peek (candidateIsValid (ad_waiters s) (ad_queue s) slot) h)")
    case None
    with look e show ?thesis unfolding least_of_def by auto
  next
    case (Some d)
    from look Some have "is_queued (ad_waiters s) (cd_waiter d) \<and> wt_class (ad_waiters s ! cd_waiter d) = c \<and>
        wt_tier (ad_waiters s ! cd_waiter d) = t \<and>
        (if slot = Slot_base then fst (room_at (ad_budgets s) (place_of (ad_waiters s) (cd_waiter d)))
         else snd (room_at (ad_budgets s) (place_of (ad_waiters s) (cd_waiter d))))" by blast
    then have "could s c slot t (cd_waiter d)" unfolding e .
    moreover have "cd_waiter d \<le> j" if "could s c slot t j" for j
      using look Some that unfolding e [symmetric] by blast
    ultimately show ?thesis using Some by (simp add: least_of_def)
  qed
qed

lemma new_heaps_ok:
  assumes ok: "adm_ok cf s" and same: "wq_lanes q = wq_lanes (ad_queue s)" "wq_table q = wq_table (ad_queue s)"
      "wq_counts q = wq_counts (ad_queue s)" "wq_total q = wq_total (ad_queue s)"
    and heaps: "\<And>c t ws own valid needed. valid = candidateIsValid ws (ad_queue s) Slot_base \<Longrightarrow> ws = ad_waiters s \<Longrightarrow>
      candidate_heap.holds_valid own valid needed (wq_base (ad_queue s) c t) \<Longrightarrow>
      candidate_heap.holds_valid own valid needed (wq_base q c t)"
    and head: "\<And>c ws own valid needed. valid = candidateIsValid ws (ad_queue s) Slot_headroom \<Longrightarrow> ws = ad_waiters s \<Longrightarrow>
      candidate_heap.holds_valid own valid needed (wq_headroom (ad_queue s) c) \<Longrightarrow>
      candidate_heap.holds_valid own valid needed (wq_headroom q c)"
  shows "adm_ok cf (s\<lparr>ad_queue := q\<rparr>)"
proof -
  let ?ws = "ad_waiters s"
  have v: "candidateIsValid ?ws q = candidateIsValid ?ws (ad_queue s)" by (rule valid_cong [OF same(1)])
  have o': "own_candidate ?ws q = own_candidate ?ws (ad_queue s)" by (rule own_cong [OF same(1)])
  have n: "lane_candidates ?ws X q = lane_candidates ?ws X (ad_queue s)" for X by (rule lane_candidates_cong [OF same(1,2)])
  from adm_okD(4) [OF ok] have q: "lanes_ok ?ws None (room_at (ad_budgets s)) (ad_queue s)" "heaps_ok ?ws {} (ad_queue s)"
    "counts_ok ?ws None (ad_queue s)" by (simp_all add: queue_ok_def)
  from q(2) have "heaps_ok ?ws {} q"
    unfolding heaps_ok_def v o' n using heaps [OF refl refl] head [OF refl refl] by blast
  with q ok show ?thesis
    by (simp add: adm_ok_def queue_ok_def lanes_ok_cong [OF same(1,2)] counts_ok_cong [OF same(3,4)])
qed

lemma peek_base_ok:
  assumes ok: "adm_ok cf s" and p: "peek_base c t s = (found, s')"
  shows "adm_ok cf s'" and "heaps_only s s'" and "least_of (could s c Slot_base t) (map_option cd_waiter found)"
proof -
  let ?v = "candidateIsValid (ad_waiters s) (ad_queue s) Slot_base"
  let ?q = "(ad_queue s)\<lparr>wq_base := update2 (wq_base (ad_queue s)) c t (snd (peek ?v (wq_base (ad_queue s) c t)))\<rparr>"
  from p have s': "s' = s\<lparr>ad_queue := ?q\<rparr>" and f: "found = fst (peek ?v (wq_base (ad_queue s) c t))"
    by (auto simp: peek_base_def Let_def split_beta)
  show "heaps_only s s'" by (simp add: s' heaps_only_def)
  show "adm_ok cf s'"
    unfolding s' by (rule new_heaps_ok [OF ok]) (auto simp: update2_apply intro: candidate_heap.holds_look)
  have "candidate_heap.holds_valid (own_candidate (ad_waiters s) (ad_queue s) c t) ?v
      (lane_candidates (ad_waiters s) {} (ad_queue s) Slot_base c t) (wq_base (ad_queue s) c t)"
    using adm_okD(4) [OF ok] by (simp add: queue_ok_def heaps_ok_def)
  from heap_look_least [OF ok this] show "least_of (could s c Slot_base t) (map_option cd_waiter found)" by (simp add: f)
qed

lemma peek_headroom_ok:
  assumes ok: "adm_ok cf s" and p: "peek_headroom c s = (found, s')"
  shows "adm_ok cf s'" and "heaps_only s s'"
    and "least_of (could s c Slot_headroom Tier_interactive) (map_option cd_waiter found)"
proof -
  let ?v = "candidateIsValid (ad_waiters s) (ad_queue s) Slot_headroom"
  let ?q = "(ad_queue s)\<lparr>wq_headroom := (wq_headroom (ad_queue s))(c := snd (peek ?v (wq_headroom (ad_queue s) c)))\<rparr>"
  from p have s': "s' = s\<lparr>ad_queue := ?q\<rparr>" and f: "found = fst (peek ?v (wq_headroom (ad_queue s) c))"
    by (auto simp: peek_headroom_def Let_def split_beta)
  show "heaps_only s s'" by (simp add: s' heaps_only_def)
  show "adm_ok cf s'"
    unfolding s' by (rule new_heaps_ok [OF ok]) (auto intro: candidate_heap.holds_look)
  have "candidate_heap.holds_valid (own_candidate (ad_waiters s) (ad_queue s) c Tier_interactive) ?v
      (lane_candidates (ad_waiters s) {} (ad_queue s) Slot_headroom c Tier_interactive) (wq_headroom (ad_queue s) c)"
    using adm_okD(4) [OF ok] by (simp add: queue_ok_def heaps_ok_def)
  from heap_look_least [OF ok this]
  show "least_of (could s c Slot_headroom Tier_interactive) (map_option cd_waiter found)" by (simp add: f)
qed

section \<open>The candidates\<close>

text \<open>Every candidate could be granted, and every waiter that could has a candidate of its tier that is no younger.\<close>

definition covers :: "admission \<Rightarrow> adm_class \<Rightarrow> (slot_kind \<times> adm_tier) set \<Rightarrow> (nat \<times> slot_kind) list \<Rightarrow> bool" where
  "covers s c K cands \<longleftrightarrow>
     (\<forall>(i, slot)\<in>set cands. \<exists>t. (slot, t) \<in> K \<and> could s c slot t i) \<and>
     (\<forall>slot t j. (slot, t) \<in> K \<longrightarrow> could s c slot t j \<longrightarrow> (\<exists>i\<le>j. (i, slot) \<in> set cands \<and> could s c slot t i))"

lemma covers_found:
  assumes "least_of (could s c slot t) (map_option cd_waiter found)"
  shows "covers s c {(slot, t)} (found_slot slot found)"
  using assms by (cases found) (auto simp: covers_def found_slot_def least_of_def)

lemma covers_append:
  assumes "covers s c K xs" and "covers s c L ys"
  shows "covers s c (K \<union> L) (xs @ ys)"
  using assms unfolding covers_def by (fastforce split: prod.splits)

lemma covers_heaps: "heaps_only s s' \<Longrightarrow> covers s' c K xs = covers s c K xs"
  by (simp add: covers_def could_heaps)

lemma base_candidates_ok:
  "adm_ok cf s \<Longrightarrow> base_candidates c ts s = (cands, s') \<Longrightarrow>
     adm_ok cf s' \<and> heaps_only s s' \<and> covers s c (Pair Slot_base ` set ts) cands"
proof (induction ts arbitrary: s cands s')
  case (Cons t ts)
  obtain found s1 where p: "peek_base c t s = (found, s1)" by (cases "peek_base c t s")
  note ok1 = peek_base_ok [OF Cons.prems(1) p]
  obtain more s2 where m: "base_candidates c ts s1 = (more, s2)" by (cases "base_candidates c ts s1")
  from Cons.IH [OF ok1(1) m] have ih: "adm_ok cf s2" "heaps_only s1 s2" "covers s c (Pair Slot_base ` set ts) more"
    by (simp_all add: covers_heaps [OF ok1(2)])
  from covers_append [OF covers_found [OF ok1(3)] ih(3)] heaps_only_trans [OF ok1(2) ih(2)] ih(1) p m Cons.prems(2)
  show ?case by simp
qed (auto simp: covers_def heaps_only_def)

definition slots_asked :: "bool \<Rightarrow> bool \<Rightarrow> (slot_kind \<times> adm_tier) set" where
  "slots_asked b h = (if b then Pair Slot_base ` UNIV else {}) \<union> (if h then {(Slot_headroom, Tier_interactive)} else {})"

lemma set_tiers: "set tiers = UNIV"
  unfolding tiers_def by (auto simp: adm_tier.nchotomy) (metis adm_tier.exhaust)

lemma all_candidates_ok:
  assumes "adm_ok cf s" and "all_candidates c b h s = (cands, s')"
  shows "adm_ok cf s' \<and> heaps_only s s' \<and> covers s c (slots_asked b h) cands"
proof -
  obtain base s1 where bs: "(if b then base_candidates c tiers s else ([], s)) = (base, s1)"
    by (cases "if b then base_candidates c tiers s else ([], s)")
  have 1: "adm_ok cf s1 \<and> heaps_only s s1 \<and> covers s c (if b then Pair Slot_base ` UNIV else {}) base"
    using base_candidates_ok [OF assms(1), of c tiers base s1] bs assms(1)
    by (cases b) (auto simp: set_tiers heaps_only_def covers_def)
  show ?thesis
  proof (cases h)
    case True
    obtain found s2 where p: "peek_headroom c s1 = (found, s2)" by (cases "peek_headroom c s1")
    from 1 have ok1: "adm_ok cf s1" and h1: "heaps_only s s1" by simp_all
    note ok2 = peek_headroom_ok [OF ok1 p]
    from covers_found [OF ok2(3)] have "covers s c {(Slot_headroom, Tier_interactive)} (found_slot Slot_headroom found)"
      by (simp add: covers_heaps [OF h1])
    from covers_append [OF conjunct2 [OF conjunct2 [OF 1]] this] 1 ok2 heaps_only_trans [OF h1 ok2(2)] p bs True assms(2)
    show ?thesis by (simp add: all_candidates_def slots_asked_def)
  next
    case False
    with 1 bs assms(2) show ?thesis by (simp add: all_candidates_def slots_asked_def)
  qed
qed

section \<open>The order of the comparison\<close>

lemma first_of_least:
  assumes "first_of earlier xs = Some x" and "y \<in> set xs"
    and trans: "\<And>a b c. earlier a b \<Longrightarrow> earlier b c \<Longrightarrow> earlier a c" and total: "\<And>a b. \<not> earlier a b \<Longrightarrow> a = b \<or> earlier b a"
  shows "y = x \<or> earlier x y"
proof -
  define best where "best = foldl (\<lambda>best y. if earlier y best then y else best)"
  have step: "best a (z # zs) = best (if earlier z a then z else a) zs" for a z zs by (simp add: best_def)
  have all: "\<forall>y\<in>insert a (set ys). y = best a ys \<or> earlier (best a ys) y" for a ys
  proof (induction ys arbitrary: a)
    case (Cons z zs)
    show ?case
    proof
      fix y assume Cons_prems: "y \<in> insert a (set (z # zs))"
      define a' where "a' = (if earlier z a then z else a)"
      have near: "a' = w \<or> earlier a' w" if "w = a \<or> w = z" for w using total [of z a] that by (auto simp: a'_def)
      show "y = best a (z # zs) \<or> earlier (best a (z # zs)) y"
      proof (cases "y \<in> set zs")
        case True
        with Cons.IH [of a'] show ?thesis by (simp add: step a'_def)
      next
        case False
        with Cons_prems near have "a' = y \<or> earlier a' y" by auto
        moreover from Cons.IH [of a'] have "a' = best a' zs \<or> earlier (best a' zs) a'" by blast
        ultimately show ?thesis unfolding step a'_def [symmetric] using trans [of "best a' zs" a' y] by auto
      qed
    qed
  qed (simp add: best_def)
  show ?thesis using assms(1,2) all by (cases xs) (auto simp: first_of_def best_def)
qed

lemma comes_before_trans: "comes_before cf ws now a b \<Longrightarrow> comes_before cf ws now b c \<Longrightarrow> comes_before cf ws now a c"
  by (auto simp: comes_before_def Let_def split: if_splits)

lemma comes_before_total: "\<not> comes_before cf ws now a b \<Longrightarrow> a = b \<or> comes_before cf ws now b a"
  by (cases "snd a"; cases "snd b") (auto simp: comes_before_def Let_def prod_eq_iff split: if_splits)

definition in_arrival_order :: "waiter list \<Rightarrow> bool" where
  "in_arrival_order ws \<longleftrightarrow> (\<forall>i j. i \<le> j \<and> j < length ws \<longrightarrow> wt_enqueuedAt (ws ! i) \<le> wt_enqueuedAt (ws ! j))"

lemma effectiveTier_older:
  assumes "0 < cf_agingMs cf" and "wt_enqueuedAt v \<le> wt_enqueuedAt w" and "wt_tier v = wt_tier w"
  shows "effectiveTier cf v now \<le> effectiveTier cf w now"
proof -
  have "(now - wt_enqueuedAt w) / cf_agingMs cf \<le> (now - wt_enqueuedAt v) / cf_agingMs cf"
    by (rule divide_right_mono) (use assms in simp_all)
  from floor_mono [OF this] show ?thesis by (simp add: effectiveTier_def Let_def assms(3))
qed

lemma older_comes_before:
  assumes "0 < cf_agingMs cf" and "in_arrival_order ws" and "i \<le> j" "j < length ws" and "wt_tier (ws ! i) = wt_tier (ws ! j)"
  shows "(i, slot) = (j, slot) \<or> comes_before cf ws now (i, slot) (j, slot)"
proof -
  have "wt_enqueuedAt (ws ! i) \<le> wt_enqueuedAt (ws ! j)" using assms(2-4) by (simp add: in_arrival_order_def)
  from effectiveTier_older [OF assms(1) this assms(5), of now] assms(3) show ?thesis
    by (auto simp: comes_before_def Let_def)
qed

section \<open>What choosing changes\<close>

definition drops :: "adm_class \<Rightarrow> admission \<Rightarrow> admission \<Rightarrow> bool" where
  "drops c s s' \<longleftrightarrow> length (ad_waiters s') = length (ad_waiters s) \<and> ad_aborted s' = ad_aborted s \<and> ad_reads s' = ad_reads s \<and>
     (\<forall>j<length (ad_waiters s). ad_waiters s' ! j = ad_waiters s ! j \<or>
       signal_aborted s j \<and> wt_class (ad_waiters s ! j) = c \<and> wt_state (ad_waiters s ! j) = Wait_queued \<and>
       ad_waiters s' ! j = (ad_waiters s ! j)\<lparr>wt_state := Wait_settled, wt_promise := Promise_rejected\<rparr>) \<and>
     (\<forall>key. (\<forall>r. key \<noteq> route_budget c r) \<longrightarrow> map_of (ad_budgets s') key = map_of (ad_budgets s) key)"

lemma drops_refl [simp]: "drops c s s"
  by (simp add: drops_def)

lemma drops_waiter:
  assumes "drops c s s'" and "j < length (ad_waiters s)"
  shows "ad_waiters s' ! j = ad_waiters s ! j \<or>
    signal_aborted s j \<and> wt_class (ad_waiters s ! j) = c \<and> wt_state (ad_waiters s ! j) = Wait_queued \<and>
    ad_waiters s' ! j = (ad_waiters s ! j)\<lparr>wt_state := Wait_settled, wt_promise := Promise_rejected\<rparr>"
  using assms by (simp add: drops_def)

lemma drops_trans:
  assumes a: "drops c s s1" and b: "drops c s1 s2"
  shows "drops c s s2"
proof -
  from a b have l: "length (ad_waiters s1) = length (ad_waiters s)" "ad_aborted s1 = ad_aborted s" "ad_reads s1 = ad_reads s"
    "length (ad_waiters s2) = length (ad_waiters s1)" "ad_aborted s2 = ad_aborted s1" "ad_reads s2 = ad_reads s1"
    by (simp_all add: drops_def)
  have "ad_waiters s2 ! j = ad_waiters s ! j \<or>
       signal_aborted s j \<and> wt_class (ad_waiters s ! j) = c \<and> wt_state (ad_waiters s ! j) = Wait_queued \<and>
       ad_waiters s2 ! j = (ad_waiters s ! j)\<lparr>wt_state := Wait_settled, wt_promise := Promise_rejected\<rparr>"
    if j: "j < length (ad_waiters s)" for j
  proof -
    have "ad_waiters s1 ! j = ad_waiters s ! j \<Longrightarrow> signal_aborted s1 j = signal_aborted s j"
      using l by (simp add: signal_aborted_def split: option.split)
    with drops_waiter [OF a j] drops_waiter [OF b, of j] j l show ?thesis by (elim disjE conjE) simp_all
  qed
  moreover have "map_of (ad_budgets s2) key = map_of (ad_budgets s) key" if "\<forall>r. key \<noteq> route_budget c r" for key
    using a b that by (simp add: drops_def)
  ultimately show ?thesis using l by (simp add: drops_def)
qed

lemma drops_order: "drops c s s' \<Longrightarrow> in_arrival_order (ad_waiters s) \<Longrightarrow> in_arrival_order (ad_waiters s')"
proof -
  assume d: "drops c s s'" and o': "in_arrival_order (ad_waiters s)"
  have e: "wt_enqueuedAt (ad_waiters s' ! j) = wt_enqueuedAt (ad_waiters s ! j)" if "j < length (ad_waiters s)" for j
    using drops_waiter [OF d that] by auto
  from d have l: "length (ad_waiters s') = length (ad_waiters s)" by (simp add: drops_def)
  show ?thesis
    unfolding in_arrival_order_def l
  proof (intro allI impI)
    fix i j assume ij: "i \<le> j \<and> j < length (ad_waiters s)"
    then show "wt_enqueuedAt (ad_waiters s' ! i) \<le> wt_enqueuedAt (ad_waiters s' ! j)"
      using o' e [of i] e [of j] by (simp add: in_arrival_order_def)
  qed
qed

lemma drops_heaps: "heaps_only s s' \<Longrightarrow> drops c s s'"
  by (simp add: heaps_only_def drops_def)

lemma drops_abort:
  assumes ok: "adm_ok cf s" and i: "is_queued (ad_waiters s) i" "wt_class (ad_waiters s ! i) = c" "signal_aborted s i"
  shows "drops c s (abort_queued i s)"
proof -
  have keys: "map_of (ad_budgets (abort_queued i s)) key = map_of (ad_budgets s) key" if k: "\<forall>r. key \<noteq> route_budget c r" for key
  proof -
    let ?s2 = "(change_waiter i (\<lambda>w. w\<lparr>wt_state := Wait_settled\<rparr>) s)\<lparr>ad_queue :=
      dequeue (ad_waiters (change_waiter i (\<lambda>w. w\<lparr>wt_state := Wait_settled\<rparr>) s)) i
        (ad_queue (change_waiter i (\<lambda>w. w\<lparr>wt_state := Wait_settled\<rparr>) s))\<rparr>"
    have b: "ad_budgets (abort_queued i s) = ad_budgets (pruneRouteBudgets (keys_of c (wt_route (ad_waiters s ! i))) ?s2)"
      using queued_keys_of [OF ok i(1)] i by (simp add: abort_queued_def Let_def change_waiter_def is_queued_def)
    show ?thesis
      using prune_budgets [of "keys_of c (wt_route (ad_waiters s ! i))" ?s2 key] k class_key_not_route
      unfolding b by (auto simp: keys_of_def change_waiter_def split: if_splits)
  qed
  have f: "ad_aborted (abort_queued i s) = ad_aborted s" "ad_reads (abort_queued i s) = ad_reads s"
    by (simp_all add: abort_queued_def Let_def change_waiter_def)
  show ?thesis
    unfolding drops_def using i keys f by (auto simp: abort_queued_waiters nth_list_update is_queued_def)
qed

text \<open>
  One round of \<open>drain\<close> and the whole of it: a round selects the first waiter that fits, when it selects nobody nobody
  fits, and the whole leaves nobody of its class waiting who could be granted. A drain touches the waiters and
  budgets of its class only.
\<close>

section \<open>Choosing the next\<close>

definition selects :: "adm_config \<Rightarrow> adm_class \<Rightarrow> rat \<Rightarrow> (nat \<times> slot_kind) option \<Rightarrow> admission \<Rightarrow> bool" where
  "selects cf c now sel s \<longleftrightarrow>
     (case sel of
        None \<Rightarrow> \<forall>i slot. \<not> fitting s c i slot
      | Some x \<Rightarrow> fitting s c (fst x) (snd x) \<and> \<not> signal_aborted s (fst x) \<and>
          (0 < cf_agingMs cf \<and> in_arrival_order (ad_waiters s) \<longrightarrow>
            (\<forall>y. fitting s c (fst y) (snd y) \<longrightarrow> y = x \<or> comes_before cf (ad_waiters s) now x y)))"

lemma class_room_fields: "ad_budgets s' = ad_budgets s \<Longrightarrow> class_room slot s' c = class_room slot s c"
  by (simp add: class_room_def)

lemma fitting_covered:
  assumes ok: "adm_ok cf s" and cov: "covers s c (slots_asked (class_room Slot_base s c) (class_room Slot_headroom s c)) cands"
  shows "x \<in> set cands \<Longrightarrow> fitting s c (fst x) (snd x)"
    and "fitting s c j slot \<Longrightarrow> \<exists>i\<le>j. (i, slot) \<in> set cands \<and> wt_tier (ad_waiters s ! i) = wt_tier (ad_waiters s ! j)"
proof -
  have asked: "(slot, t) \<in> slots_asked (class_room Slot_base s c) (class_room Slot_headroom s c) \<longleftrightarrow>
      class_room slot s c \<and> (slot = Slot_headroom \<longrightarrow> t = Tier_interactive)" for slot t
    by (cases slot) (auto simp: slots_asked_def)
  show "fitting s c (fst x) (snd x)" if "x \<in> set cands"
  proof -
    obtain i slot where x: "x = (i, slot)" by (cases x)
    with cov that obtain t where "could s c slot t i" "class_room slot s c" "slot = Slot_headroom \<longrightarrow> t = Tier_interactive"
      unfolding covers_def asked by fast
    then show ?thesis by (auto simp: x fitting_could [OF ok] could_def)
  qed
  show "\<exists>i\<le>j. (i, slot) \<in> set cands \<and> wt_tier (ad_waiters s ! i) = wt_tier (ad_waiters s ! j)" if f: "fitting s c j slot"
  proof -
    have "\<exists>i\<le>j. (i, slot) \<in> set cands \<and> could s c slot (wt_tier (ad_waiters s ! j)) i"
      using cov f unfolding covers_def asked fitting_could [OF ok] by blast
    then show ?thesis by (auto simp: could_def)
  qed
qed

lemma nextFitting_ok:
  "nextFitting cf c now b h s = (sel, s') \<Longrightarrow> adm_ok cf s \<Longrightarrow> b = class_room Slot_base s c \<Longrightarrow> h = class_room Slot_headroom s c \<Longrightarrow>
     adm_ok cf s' \<and> drops c s s' \<and> selects cf c now sel s'"
proof (induction cf c now b h s rule: nextFitting.induct)
  case (1 cf c now b h s)
  obtain cands s1 where a: "all_candidates c b h s = (cands, s1)" by (cases "all_candidates c b h s")
  from all_candidates_ok [OF "1.prems"(2) a] have ok1: "adm_ok cf s1" and h1: "heaps_only s s1"
    and cov: "covers s c (slots_asked b h) cands" by simp_all
  have room: "class_room slot s1 c = class_room slot s c" for slot
    by (rule class_room_fields) (use h1 in \<open>simp add: heaps_only_def\<close>)
  have cov1: "covers s1 c (slots_asked (class_room Slot_base s1 c) (class_room Slot_headroom s1 c)) cands"
    using cov "1.prems"(3,4) by (simp add: room covers_heaps [OF h1])
  note covered = fitting_covered [OF ok1 cov1]
  show ?case
  proof (cases "first_of (comes_before cf (ad_waiters s1) now) cands")
    case None
    then have "cands = []" by (simp add: first_of_def split: list.splits)
    with covered(2) have "\<forall>i slot. \<not> fitting s1 c i slot" by fastforce
    moreover from None a "1.prems"(1) have "sel = None" "s' = s1" by (simp_all add: nextFitting.simps [of cf c now b h s])
    ultimately show ?thesis using ok1 drops_heaps [OF h1] by (simp add: selects_def)
  next
    case (Some p)
    obtain i slot where p: "p = (i, slot)" by (cases p)
    note mem = first_of_mem [OF Some]
    from covered(1) [OF mem] have f: "fitting s1 c i slot" by (simp add: p)
    then have i: "is_queued (ad_waiters s1) i" "wt_class (ad_waiters s1 ! i) = c" by (simp_all add: fitting_def)
    show ?thesis
    proof (cases "signal_aborted s1 i")
      case True
      have d: "drops c s1 (abort_queued i s1)" by (rule drops_abort [OF ok1 i True])
      have r: "class_room slot' (abort_queued i s1) c = class_room slot' s c" for slot'
        using d room by (simp add: drops_def class_room_def)
      from True a Some p "1.prems"(1) have n: "nextFitting cf c now b h (abort_queued i s1) = (sel, s')"
        by (simp add: nextFitting.simps [of cf c now b h s])
      from "1.IH" [OF a [symmetric] refl Some p [symmetric] True n abort_queued_ok [OF ok1 i(1)]] "1.prems"(3,4) r
      have "adm_ok cf s' \<and> drops c (abort_queued i s1) s' \<and> selects cf c now sel s'" by simp
      with d drops_heaps [OF h1] show ?thesis using drops_trans by blast
    next
      case False
      with a Some p "1.prems"(1) have e: "sel = Some (i, slot)" "s' = s1" by (simp_all add: nextFitting.simps [of cf c now b h s])
      have "y = (i, slot) \<or> comes_before cf (ad_waiters s1) now (i, slot) y"
        if "0 < cf_agingMs cf" "in_arrival_order (ad_waiters s1)" "fitting s1 c (fst y) (snd y)" for y
      proof -
        obtain j slot' where y: "y = (j, slot')" by (cases y)
        from covered(2) that(3) y obtain k where k: "k \<le> j" "(k, slot') \<in> set cands"
          "wt_tier (ad_waiters s1 ! k) = wt_tier (ad_waiters s1 ! j)" by auto
        have j: "j < length (ad_waiters s1)" using that(3) y by (simp add: fitting_def is_queued_def)
        have le: "(k, slot') = p \<or> comes_before cf (ad_waiters s1) now p (k, slot')"
          by (rule first_of_least [OF Some k(2)]) (erule (1) comes_before_trans, erule comes_before_total)
        from older_comes_before [OF that(1,2) k(1) j k(3), of slot' now] le show ?thesis
          unfolding y p using comes_before_trans [of cf "ad_waiters s1" now "(i, slot)" "(k, slot')" "(j, slot')"] by auto
      qed
      with f False show ?thesis using ok1 drops_heaps [OF h1] by (simp add: selects_def e)
    qed
  qed
qed

section \<open>Making a budget\<close>

lemma ensure_ok:
  assumes ok: "adm_ok cf s"
  shows "adm_ok cf (s\<lparr>ad_budgets := ensureBudget cf key (ad_budgets s)\<rparr>)"
proof -
  let ?bs = "ensureBudget cf key (ad_budgets s)"
  have keep: "map_of ?bs k = map_of (ad_budgets s) k" if "map_of (ad_budgets s) k \<noteq> None" for k
    using that by (auto simp: map_of_ensure)
  have "queue_ok (ad_waiters s) None (room_at ?bs) (ad_queue s)"
  proof (rule queue_ok_el_cong [OF adm_okD(4) [OF ok]])
    fix k l assume l: "lane_at (ad_queue s) k = Some l"
    obtain c t r where k: "k = (c, t, r)" by (rule prod_cases3)
    from adm_okD(4) [OF ok] have "lanes_ok (ad_waiters s) None (room_at (ad_budgets s)) (ad_queue s)" by (simp add: queue_ok_def)
    from lane_items_bound(2) [OF this l] queued_place_active [of "ad_waiters s" c t r]
    obtain i where i: "i < length (ad_waiters s)" "wt_state (ad_waiters s ! i) = Wait_queued"
      "wt_class (ad_waiters s ! i) = c" "wt_route (ad_waiters s ! i) = r" by (auto simp: k)
    then have q: "is_queued (ad_waiters s) i" by (simp add: is_queued_def)
    have "map_of (ad_budgets s) (route_budget c (the r)) \<noteq> None" if "truthy r"
      using queued_key [OF ok q] queued_keys_of [OF ok q] i that by (simp add: keys_of_def)
    with keep show "room_at ?bs k = room_at (ad_budgets s) k" by (auto simp: k room_at_def route_room_def)
  qed
  moreover have "budgets_ok cf (ad_waiters s) ?bs"
  proof (rule budgets_okI)
    fix k slot assume "map_of ?bs k = None"
    then show "holders (ad_waiters s) slot k = 0"
      using budgets_okD(1) [OF adm_okD(2) [OF ok], of k slot] by (auto simp: map_of_ensure split: if_splits)
  next
    fix k slot b assume b: "map_of ?bs k = Some b"
    show "capacity slot b = capacity slot (new_budget cf k) \<and> used slot b = int (holders (ad_waiters s) slot k) \<and>
        used slot b \<le> int (capacity slot b)"
    proof (cases "map_of (ad_budgets s) k")
      case None
      with b budgets_okD(1) [OF adm_okD(2) [OF ok] None, of slot] show ?thesis by (auto simp: map_of_ensure split: if_splits)
    next
      case (Some b')
      with b keep [of k] budgets_okD(2) [OF adm_okD(2) [OF ok] Some, of slot] show ?thesis by simp
    qed
  qed
  moreover have "present (ad_waiters s) ?bs" using adm_okD(3) [OF ok] keep unfolding present_def by fastforce
  ultimately show ?thesis using ok by (simp add: adm_ok_def)
qed

lemma ensure_fitting:
  assumes ok: "adm_ok cf s"
  shows "fitting (s\<lparr>ad_budgets := ensureBudget cf key (ad_budgets s)\<rparr>) c i slot = fitting s c i slot"
proof (cases "is_queued (ad_waiters s) i")
  case True
  have "map_of (ensureBudget cf key (ad_budgets s)) k = map_of (ad_budgets s) k" if "k \<in> set (wt_budgetKeys (ad_waiters s ! i))" for k
    using queued_key [OF ok True that] by (auto simp: map_of_ensure)
  then show ?thesis by (simp add: fitting_def fits_slot_def)
qed (simp add: fitting_def)

lemma reads_ok: "adm_ok cf (s\<lparr>ad_reads := n\<rparr>) = adm_ok cf s"
  by (simp add: adm_ok_def)

section \<open>What serving a class changes\<close>

definition aborted_in :: "nat set \<Rightarrow> waiter \<Rightarrow> bool" where
  "aborted_in A w \<longleftrightarrow> (case wt_signal w of None \<Rightarrow> False | Some g \<Rightarrow> g \<in> A)"

lemma signal_aborted_in: "signal_aborted s i = aborted_in (ad_aborted s) (ad_waiters s ! i)"
  by (simp add: signal_aborted_def aborted_in_def)

definition served :: "nat set \<Rightarrow> waiter \<Rightarrow> waiter \<Rightarrow> bool" where
  "served A w w' \<longleftrightarrow> wt_state w = Wait_queued \<and>
     (w' = w\<lparr>wt_state := Wait_settled, wt_promise := Promise_rejected\<rparr> \<or>
      \<not> aborted_in A w \<and> (\<exists>slot. w' = w\<lparr>wt_state := Wait_granted, wt_slotKind := Some slot\<rparr>))"

definition serves :: "adm_class \<Rightarrow> admission \<Rightarrow> admission \<Rightarrow> bool" where
  "serves c s s' \<longleftrightarrow> length (ad_waiters s') = length (ad_waiters s) \<and> ad_aborted s' = ad_aborted s \<and> ad_reads s \<le> ad_reads s' \<and>
     (\<forall>j<length (ad_waiters s). ad_waiters s' ! j = ad_waiters s ! j \<or>
       wt_class (ad_waiters s ! j) = c \<and> served (ad_aborted s) (ad_waiters s ! j) (ad_waiters s' ! j)) \<and>
     (\<forall>c' r key. c' \<noteq> c \<longrightarrow> key \<in> set (keys_of c' r) \<longrightarrow> map_of (ad_budgets s') key = map_of (ad_budgets s) key)"

lemma serves_refl [simp]: "serves c s s"
  by (simp add: serves_def)

lemma servesD:
  assumes "serves c s s'"
  shows "length (ad_waiters s') = length (ad_waiters s)" "ad_aborted s' = ad_aborted s" "ad_reads s \<le> ad_reads s'"
    and "j < length (ad_waiters s) \<Longrightarrow> ad_waiters s' ! j = ad_waiters s ! j \<or>
       wt_class (ad_waiters s ! j) = c \<and> served (ad_aborted s) (ad_waiters s ! j) (ad_waiters s' ! j)"
    and "c' \<noteq> c \<Longrightarrow> key \<in> set (keys_of c' r) \<Longrightarrow> map_of (ad_budgets s') key = map_of (ad_budgets s) key"
  using assms unfolding serves_def by blast+

lemma serves_trans:
  assumes a: "serves c s s1" and b: "serves c s1 s2"
  shows "serves c s s2"
proof -
  have "ad_waiters s2 ! j = ad_waiters s ! j \<or> wt_class (ad_waiters s ! j) = c \<and> served (ad_aborted s) (ad_waiters s ! j) (ad_waiters s2 ! j)"
    if j: "j < length (ad_waiters s)" for j
  proof -
    have "\<not> served A w' w''" if "served A w w'" for A w w' w'' using that by (auto simp: served_def)
    then show ?thesis using servesD(4) [OF a j] servesD(4) [OF b, of j] j servesD(1,2) [OF a] by metis
  qed
  with servesD [OF a] servesD [OF b] show ?thesis unfolding serves_def by (auto intro: order_trans)
qed

lemma keys_other_class: "c' \<noteq> c \<Longrightarrow> key \<in> set (keys_of c' r) \<Longrightarrow> key \<notin> set (keys_of c r')"
  by (auto simp: keys_of_def split: if_splits)

lemma drops_serves:
  assumes "drops c s s'"
  shows "serves c s s'"
proof -
  have "map_of (ad_budgets s') key = map_of (ad_budgets s) key" if "c' \<noteq> c" "key \<in> set (keys_of c' r)" for c' r key
  proof -
    have "\<forall>r. key \<noteq> route_budget c r" using that by (auto simp: keys_of_def split: if_splits)
    with assms show ?thesis by (simp add: drops_def)
  qed
  with assms drops_waiter [OF assms] show ?thesis by (auto simp: serves_def drops_def served_def)
qed

lemma serves_order:
  assumes s: "serves c s s'" and o': "in_arrival_order (ad_waiters s)"
  shows "in_arrival_order (ad_waiters s')"
proof -
  have "wt_enqueuedAt (ad_waiters s' ! j) = wt_enqueuedAt (ad_waiters s ! j)" if "j < length (ad_waiters s)" for j
    using servesD(4) [OF s that] by (auto simp: served_def)
  then show ?thesis using o' unfolding in_arrival_order_def servesD(1) [OF s] by fastforce
qed

lemma serves_other:
  assumes s: "serves c s s'" and ok: "adm_ok cf s" and c': "c' \<noteq> c"
  shows "fitting s' c' j slot = fitting s c' j slot"
proof (cases "j < length (ad_waiters s)")
  case True
  have cl: "wt_class (ad_waiters s' ! j) = wt_class (ad_waiters s ! j)" using servesD(4) [OF s True] by (auto simp: served_def)
  show ?thesis
  proof (cases "wt_class (ad_waiters s ! j) = c' \<and> wt_state (ad_waiters s ! j) = Wait_queued")
    case True': True
    with servesD(4) [OF s True] c' have e: "ad_waiters s' ! j = ad_waiters s ! j" by auto
    have "is_queued (ad_waiters s) j" using True True' by (simp add: is_queued_def)
    from queued_keys_of [OF ok this] servesD(5) [OF s c'] True'
    have "map_of (ad_budgets s') k = map_of (ad_budgets s) k" if "k \<in> set (wt_budgetKeys (ad_waiters s ! j))" for k
      using that by simp
    then show ?thesis using servesD(1) [OF s] by (simp add: fitting_def fits_slot_def is_queued_def e)
  next
    case False
    with servesD(4) [OF s True] cl show ?thesis by (auto simp: fitting_def is_queued_def served_def)
  qed
qed (use servesD(1) [OF s] in \<open>simp add: fitting_def is_queued_def\<close>)

lemma fitting_waiter:
  assumes "length (ad_waiters s') = length (ad_waiters s)" and "ad_waiters s' ! j = ad_waiters s ! j"
    and "\<And>key. key \<in> set (wt_budgetKeys (ad_waiters s ! j)) \<Longrightarrow> map_of (ad_budgets s') key = map_of (ad_budgets s) key"
  shows "fitting s' c j slot = fitting s c j slot"
  using assms by (simp add: fitting_def is_queued_def fits_slot_def)

section \<open>A round and the whole drain\<close>

lemma drain_round_ok:
  assumes ok: "adm_ok cf s" and r: "drain_round cf c s = (sel, s')"
  shows "adm_ok cf s' \<and> serves c s s' \<and> selects cf c (cf_now cf (ad_reads s)) (map_option fst sel) s' \<and>
    (\<forall>x. sel = Some x \<longrightarrow> snd x = cf_now cf (ad_reads s)) \<and>
    (\<forall>j<length (ad_waiters s). ad_waiters s' ! j = ad_waiters s ! j \<or> signal_aborted s j)"
proof -
  let ?now = "cf_now cf (ad_reads s)"
  let ?s1 = "s\<lparr>ad_reads := ad_reads s + 1\<rparr>"
  define s2 where "s2 = ?s1\<lparr>ad_budgets := ensureBudget cf (class_key c) (ad_budgets s)\<rparr>"
  define b where "b = the (map_of (ad_budgets s2) (class_key c))"
  obtain x s3 where n: "nextFitting cf c ?now (has_room Slot_base b) (has_room Slot_headroom b) s2 = (x, s3)"
    by (cases "nextFitting cf c ?now (has_room Slot_base b) (has_room Slot_headroom b) s2")
  from r n have e: "sel = map_option (\<lambda>y. (y, ?now)) x" "s' = s3"
    by (auto simp: drain_round_def read_clock_def Let_def s2_def b_def)
  have "adm_ok cf s2" unfolding s2_def using ensure_ok [of cf ?s1 "class_key c"] ok by (simp add: reads_ok)
  from nextFitting_ok [OF n this] have m: "adm_ok cf s3" "drops c s2 s3" "selects cf c ?now x s3"
    by (simp_all add: b_def class_room_def)
  have "map_of (ad_budgets s2) key = map_of (ad_budgets s) key" if "c' \<noteq> c" "key \<in> set (keys_of c' r')" for c' r' key
  proof -
    have "key \<noteq> class_key c" using keys_other_class [OF that, of None] by (simp add: keys_of_def)
    then show ?thesis by (simp add: s2_def map_of_ensure)
  qed
  then have "serves c s s2" by (simp add: serves_def s2_def)
  from serves_trans [OF this drops_serves [OF m(2)]] have "serves c s s3" .
  moreover have "ad_waiters s3 ! j = ad_waiters s ! j \<or> signal_aborted s j" if "j < length (ad_waiters s)" for j
  proof -
    have "ad_waiters s2 = ad_waiters s" "ad_aborted s2 = ad_aborted s" by (simp_all add: s2_def)
    with drops_waiter [OF m(2), of j] that show ?thesis by (auto simp: signal_aborted_def cong: option.case_cong)
  qed
  ultimately show ?thesis using m by (auto simp: e option.map_comp comp_def option.map_ident)
qed

lemma grant_serves:
  assumes ok: "adm_ok cf s" and f: "fitting s c i slot" and a: "\<not> signal_aborted s i"
  shows "serves c s (grant cf i slot now s)"
proof -
  from f have i: "i < length (ad_waiters s)" "wt_state (ad_waiters s ! i) = Wait_queued" "wt_class (ad_waiters s ! i) = c"
    and q: "is_queued (ad_waiters s) i" by (simp_all add: fitting_def is_queued_def)
  have keys: "map_of (ad_budgets (grant cf i slot now s)) key = map_of (ad_budgets s) key"
    if "c' \<noteq> c" "key \<in> set (keys_of c' r)" for c' r key
    by (rule grant_budgets [OF ok q]) (use queued_keys_of [OF ok q] keys_other_class [OF that] i in simp)
  have fields: "ad_aborted (grant cf i slot now s) = ad_aborted s" "ad_reads (grant cf i slot now s) = ad_reads s"
    by (simp_all add: grant_def Let_def refreshRouteEligibility_def change_waiter_def)
  show ?thesis
    unfolding serves_def using keys i a [unfolded signal_aborted_in] by (auto simp: fields grant_waiters nth_list_update served_def)
qed

lemma drain_ok:
  "adm_ok cf s \<Longrightarrow> adm_ok cf (drain cf c s) \<and> serves c s (drain cf c s) \<and> (\<forall>i slot. \<not> fitting (drain cf c s) c i slot)"
proof (induction cf c s rule: drain.induct)
  case (1 cf c s)
  obtain sel s1 where r: "drain_round cf c s = (sel, s1)" by (cases "drain_round cf c s")
  from drain_round_ok [OF "1.prems" r] have m: "adm_ok cf s1" "serves c s s1"
    "selects cf c (cf_now cf (ad_reads s)) (map_option fst sel) s1" by blast+
  show ?case
  proof (cases sel)
    case None
    with m r show ?thesis by (simp add: drain.simps [of cf c s] selects_def)
  next
    case (Some x)
    obtain i slot now where x: "x = ((i, slot), now)" by (metis prod.exhaust)
    from m(3) Some x have f: "fitting s1 c i slot" "\<not> signal_aborted s1 i" by (simp_all add: selects_def)
    let ?s2 = "grant cf i slot now s1"
    have ok2: "adm_ok cf ?s2" by (rule grant_ok [OF m(1)]) (use f in \<open>simp_all add: fitting_def\<close>)
    from "1.IH" [OF r [symmetric] Some x [symmetric] refl ok2] serves_trans [OF m(2) serves_trans [OF grant_serves [OF m(1) f, of now]]] r Some x
    show ?thesis by (simp add: drain.simps [of cf c s])
  qed
qed

end
