(* ===== verification/Git_Steps.thy ===== *)
theory Git_Steps
  imports Git_Choice
begin

text \<open>
  The calls of the scheduler as steps, the states they reach, and the invariant of those states: the books are
  right, nobody waits who could be granted, no request of an aborted signal is still open, and a waiter's
  life runs from queued over granted to settled.
\<close>

section \<open>The invariant\<close>

definition life_ok :: "waiter \<Rightarrow> bool" where
  "life_ok w \<longleftrightarrow>
     (case wt_state w of
        Wait_queued \<Rightarrow> wt_promise w = Promise_pending \<and> wt_slotKind w = None \<and> \<not> wt_released w
      | Wait_granted \<Rightarrow> wt_promise w = Promise_pending \<and> wt_slotKind w \<noteq> None \<and> \<not> wt_released w
      | Wait_settled \<Rightarrow> wt_promise w = Promise_resolved \<and> wt_slotKind w \<noteq> None \<or>
          wt_promise w = Promise_rejected \<and> (wt_slotKind w \<noteq> None \<longleftrightarrow> wt_released w))"

definition idle :: "admission \<Rightarrow> bool" where
  "idle s \<longleftrightarrow> (\<forall>c i slot. \<not> fitting s c i slot)"

definition on_time :: "adm_config \<Rightarrow> admission \<Rightarrow> bool" where
  "on_time cf s \<longleftrightarrow> in_arrival_order (ad_waiters s) \<and> (\<forall>w\<in>set (ad_waiters s). wt_enqueuedAt w \<le> cf_now cf (ad_reads s))"

definition closed_when_aborted :: "admission \<Rightarrow> bool" where
  "closed_when_aborted s \<longleftrightarrow> (\<forall>w\<in>set (ad_waiters s). aborted_in (ad_aborted s) w \<longrightarrow> wt_state w = Wait_settled)"

definition books_ok :: "adm_config \<Rightarrow> admission \<Rightarrow> bool" where
  "books_ok cf s \<longleftrightarrow> adm_ok cf s \<and> (\<forall>w\<in>set (ad_waiters s). life_ok w) \<and> (mono (cf_now cf) \<longrightarrow> on_time cf s)"

section \<open>What keeps it\<close>

lemma nth_update: "j < length xs \<Longrightarrow> (xs[i := y]) ! j = (if i = j then y else xs ! j)"
  by (cases "i < length xs") (auto simp: nth_list_update)

lemma on_timeI:
  assumes "on_time cf s" and "mono (cf_now cf)" and "ad_reads s \<le> ad_reads s'"
    and l: "length (ad_waiters s') = length (ad_waiters s)"
    and same: "\<And>j. j < length (ad_waiters s) \<Longrightarrow> wt_enqueuedAt (ad_waiters s' ! j) = wt_enqueuedAt (ad_waiters s ! j)"
  shows "on_time cf s'"
proof -
  have le: "cf_now cf (ad_reads s) \<le> cf_now cf (ad_reads s')" using assms(2,3) by (rule monoD)
  have "wt_enqueuedAt (ad_waiters s' ! j) \<le> cf_now cf (ad_reads s')" if "j < length (ad_waiters s)" for j
  proof -
    have "wt_enqueuedAt (ad_waiters s ! j) \<le> cf_now cf (ad_reads s)" using assms(1) that by (simp add: on_time_def)
    with le same [OF that] show ?thesis by simp
  qed
  moreover have "in_arrival_order (ad_waiters s')"
    using assms(1) same unfolding on_time_def in_arrival_order_def l by fastforce
  ultimately show ?thesis by (auto simp: on_time_def in_set_conv_nth l)
qed

lemma served_life: "life_ok w \<Longrightarrow> served A w w' \<Longrightarrow> life_ok w'"
  by (auto simp: served_def life_ok_def)

lemma serves_life_at:
  "serves c s s' \<Longrightarrow> j < length (ad_waiters s) \<Longrightarrow> life_ok (ad_waiters s ! j) \<Longrightarrow> life_ok (ad_waiters s' ! j)"
  using servesD(4) [of c s s' j] served_life by metis

lemma serves_life:
  assumes "serves c s s'" and "\<forall>w\<in>set (ad_waiters s). life_ok w"
  shows "\<forall>w\<in>set (ad_waiters s'). life_ok w"
  using assms(2) serves_life_at [OF assms(1)] servesD(1) [OF assms(1)] by (simp add: all_set_conv_all_nth)

lemma serves_on_time:
  assumes "serves c s s'" and "on_time cf s" and "mono (cf_now cf)"
  shows "on_time cf s'"
proof (rule on_timeI [OF assms(2,3) servesD(3,1) [OF assms(1)]])
  fix j assume "j < length (ad_waiters s)"
  from servesD(4) [OF assms(1) this] show "wt_enqueuedAt (ad_waiters s' ! j) = wt_enqueuedAt (ad_waiters s ! j)"
    by (auto simp: served_def)
qed

lemma serves_closed:
  assumes "serves c s s'" and "closed_when_aborted s"
  shows "closed_when_aborted s'"
  unfolding closed_when_aborted_def
proof (intro ballI impI)
  fix w assume w: "w \<in> set (ad_waiters s')" "aborted_in (ad_aborted s') w"
  then obtain j where j: "j < length (ad_waiters s)" "w = ad_waiters s' ! j"
    using servesD(1) [OF assms(1)] by (auto simp: in_set_conv_nth)
  from j(1) assms(2) have c: "aborted_in (ad_aborted s) (ad_waiters s ! j) \<Longrightarrow> wt_state (ad_waiters s ! j) = Wait_settled"
    by (simp add: closed_when_aborted_def)
  from servesD(4) [OF assms(1) j(1)] servesD(2) [OF assms(1)] c w j show "wt_state w = Wait_settled"
    by (auto simp: served_def aborted_in_def)
qed

lemma drain_books:
  assumes "books_ok cf s"
  shows "books_ok cf (drain cf c s)"
  using assms drain_ok [of cf s c] serves_life [of c s "drain cf c s"] serves_on_time [of c s "drain cf c s" cf]
  by (simp add: books_ok_def)

lemma drain_idle:
  assumes "adm_ok cf s" and "\<And>c' i slot. c' \<noteq> c \<Longrightarrow> \<not> fitting s c' i slot"
  shows "idle (drain cf c s)"
  unfolding idle_def
proof (intro allI)
  fix c' i slot
  from drain_ok [OF assms(1), of c] have d: "serves c s (drain cf c s)" "\<not> fitting (drain cf c s) c i slot" by blast+
  with serves_other [OF d(1) assms(1), of c' i slot] assms(2) show "\<not> fitting (drain cf c s) c' i slot" by metis
qed

text \<open>A change of one waiter that is not queued, before and after.\<close>

lemma change_idle:
  assumes "wt_state (f (ad_waiters s ! i)) \<noteq> Wait_queued" and "idle s"
  shows "idle (change_waiter i f s)"
  using assms by (auto simp: idle_def fitting_def change_waiter_def is_queued_def nth_update split: if_splits)

lemma change_books:
  assumes ok: "books_ok cf s" and i: "i < length (ad_waiters s)"
    and f: "wt_state (f w) = Wait_queued \<longleftrightarrow> wt_state w = Wait_queued" "wt_class (f w) = wt_class w"
      "wt_tier (f w) = wt_tier w" "wt_route (f w) = wt_route w" "wt_budgetKeys (f w) = wt_budgetKeys w"
      "wt_slotKind (f w) = wt_slotKind w" "wt_released (f w) = wt_released w" "wt_enqueuedAt (f w) = wt_enqueuedAt w"
    and w: "w = ad_waiters s ! i" and life: "life_ok (f w)"
  shows "books_ok cf (change_waiter i f s)"
proof -
  have "adm_ok cf (change_waiter i f s)"
    by (rule touch_waiter [of cf s f w]) (use ok f w in \<open>simp_all add: books_ok_def\<close>)
  moreover have "on_time cf (change_waiter i f s)" if "mono (cf_now cf)"
    by (rule on_timeI [OF _ that]) (use ok that f(8) w in \<open>auto simp: books_ok_def change_waiter_def nth_update\<close>)
  moreover have "\<forall>v\<in>set (ad_waiters (change_waiter i f s)). life_ok v"
    using ok life i w by (auto simp: books_ok_def change_waiter_def dest!: set_update_subset_insert [THEN subsetD])
  ultimately show ?thesis by (simp add: books_ok_def)
qed

lemma gone_fitting:
  assumes ok: "adm_ok cf s'" and l: "length (ad_waiters s') = length (ad_waiters s)"
    and w: "\<And>j. is_queued (ad_waiters s') j \<Longrightarrow> ad_waiters s' ! j = ad_waiters s ! j"
    and b: "\<And>key. map_of (ad_budgets s') key = map_of (ad_budgets s) key \<or> map_of (ad_budgets s') key = None"
    and f: "fitting s' c j slot"
  shows "fitting s c j slot"
proof -
  from f have q: "is_queued (ad_waiters s') j" by (simp add: fitting_def)
  have k: "map_of (ad_budgets s') key = map_of (ad_budgets s) key" if "key \<in> set (wt_budgetKeys (ad_waiters s' ! j))" for key
    using queued_key [OF ok q that] b [of key] by metis
  have "fitting s' c j slot = fitting s c j slot"
    by (rule fitting_waiter) (use l w [OF q] k in auto)
  with f show ?thesis by simp
qed

section \<open>Aborting a queued waiter\<close>

lemma abort_queued_budgets:
  "i < length (ad_waiters s) \<Longrightarrow>
     map_of (ad_budgets (abort_queued i s)) key = map_of (ad_budgets s) key \<or>
     map_of (ad_budgets (abort_queued i s)) key = None"
  using prune_budgets [of "wt_budgetKeys (ad_waiters s ! i)" "s\<lparr>ad_waiters := (ad_waiters s)[i := (ad_waiters s ! i)\<lparr>wt_state := Wait_settled\<rparr>],
    ad_queue := dequeue ((ad_waiters s)[i := (ad_waiters s ! i)\<lparr>wt_state := Wait_settled\<rparr>]) i (ad_queue s)\<rparr>" key]
  by (auto simp: abort_queued_def Let_def change_waiter_def)

lemma abort_queued_fields [simp]:
  "ad_aborted (abort_queued i s) = ad_aborted s" "ad_reads (abort_queued i s) = ad_reads s"
  by (simp_all add: abort_queued_def Let_def change_waiter_def)

lemma abort_queued_books:
  assumes ok: "books_ok cf s" and i: "is_queued (ad_waiters s) i"
  shows "books_ok cf (abort_queued i s)" and "idle s \<Longrightarrow> idle (abort_queued i s)"
proof -
  have il: "i < length (ad_waiters s)" using i by (simp add: is_queued_def)
  have a: "adm_ok cf (abort_queued i s)" by (rule abort_queued_ok [OF _ i]) (use ok in \<open>simp add: books_ok_def\<close>)
  have "life_ok (ad_waiters s ! i)" using ok il by (simp add: books_ok_def)
  then have "life_ok ((ad_waiters s ! i)\<lparr>wt_state := Wait_settled, wt_promise := Promise_rejected\<rparr>)"
    using i by (simp add: life_ok_def is_queued_def)
  then have "\<forall>v\<in>set (ad_waiters (abort_queued i s)). life_ok v"
    using ok by (auto simp: books_ok_def abort_queued_waiters dest!: set_update_subset_insert [THEN subsetD])
  moreover have "on_time cf (abort_queued i s)" if "mono (cf_now cf)"
    by (rule on_timeI [OF _ that]) (use ok that in \<open>auto simp: books_ok_def abort_queued_waiters nth_update\<close>)
  ultimately show "books_ok cf (abort_queued i s)" using a by (simp add: books_ok_def)
  show "idle (abort_queued i s)" if "idle s"
    unfolding idle_def
  proof (intro allI notI)
    fix c j slot assume f: "fitting (abort_queued i s) c j slot"
    have "fitting s c j slot"
      by (rule gone_fitting [OF a _ _ abort_queued_budgets [OF il] f])
        (auto simp: abort_queued_waiters is_queued_def nth_update split: if_splits)
    with that show False by (simp add: idle_def)
  qed
qed

section \<open>Releasing and aborting\<close>

lemma before_drain_fields [simp]:
  "ad_aborted (before_drain cf i slot wait s) = ad_aborted s" "ad_reads (before_drain cf i slot wait s) = ad_reads s"
  by (simp_all add: before_drain_def Let_def change_waiter_def refreshRouteEligibility_def)

lemma before_drain_other:
  assumes ok: "adm_ok cf s" and il: "i < length (ad_waiters s)" and nq: "wt_state (ad_waiters s ! i) \<noteq> Wait_queued"
    and hold: "holds_slot slot (ad_waiters s ! i)" and c: "c' \<noteq> wt_class (ad_waiters s ! i)"
  shows "fitting (before_drain cf i slot wait s) c' j slot' = fitting s c' j slot'"
proof (cases "is_queued (ad_waiters s) j \<and> wt_class (ad_waiters s ! j) = c'")
  case True
  then have ne: "i \<noteq> j" and jl: "j < length (ad_waiters s)" using nq by (auto simp: is_queued_def)
  have k: "map_of (ad_budgets (before_drain cf i slot wait s)) key = map_of (ad_budgets s) key"
    if "key \<in> set (wt_budgetKeys (ad_waiters s ! j))" for key
  proof (rule before_drain_ok(2) [OF ok il nq hold])
    from that queued_keys_of [OF ok] True have "key \<in> set (keys_of c' (wt_route (ad_waiters s ! j)))" by simp
    from keys_other_class [OF c this] wait_keys [OF adm_okD(1) [OF ok il]]
    show "key \<notin> set (wt_budgetKeys (ad_waiters s ! i))" by simp
  qed
  show ?thesis by (rule fitting_waiter) (use ne jl k in \<open>auto simp: nth_update\<close>)
next
  case False
  with nq il show ?thesis by (auto simp: fitting_def is_queued_def nth_update split: if_splits)
qed

lemma release_core:
  assumes ok: "adm_ok cf s" and il: "i < length (ad_waiters s)" and nq: "wt_state (ad_waiters s ! i) \<noteq> Wait_queued"
    and hold: "holds_slot slot (ad_waiters s ! i)"
  shows "adm_ok cf (release_slot cf i slot wait s)"
    and "serves (wt_class (ad_waiters s ! i)) (before_drain cf i slot wait s) (release_slot cf i slot wait s)"
    and "idle s \<Longrightarrow> idle (release_slot cf i slot wait s)"
proof -
  let ?c = "wt_class (ad_waiters s ! i)"
  note b = before_drain_ok(1) [OF ok il nq hold, of wait]
  from drain_ok [OF b, of ?c] show "adm_ok cf (release_slot cf i slot wait s)"
    and "serves ?c (before_drain cf i slot wait s) (release_slot cf i slot wait s)"
    by (simp_all add: release_slot_drain [OF il])
  show "idle (release_slot cf i slot wait s)" if "idle s"
    unfolding release_slot_drain [OF il]
    by (rule drain_idle [OF b]) (use that before_drain_other [OF ok il nq hold] in \<open>simp add: idle_def\<close>)
qed

lemma released_on_time:
  assumes "on_time cf s" and "mono (cf_now cf)" and "serves c (before_drain cf i slot wait s) s'"
  shows "on_time cf s'"
proof (rule serves_on_time [OF assms(3) _ assms(2)])
  show "on_time cf (before_drain cf i slot wait s)"
    by (rule on_timeI [OF assms(1,2)]) (simp_all add: nth_update)
qed

lemma released_closed:
  assumes "closed_when_aborted s" and "serves c (before_drain cf i slot wait s) s'"
  shows "closed_when_aborted s'"
proof (rule serves_closed [OF assms(2)])
  have "aborted_in A (w\<lparr>wt_released := True\<rparr>) = aborted_in A w" for A w by (simp add: aborted_in_def)
  then show "closed_when_aborted (before_drain cf i slot wait s)"
    using assms(1) by (cases "i < length (ad_waiters s)")
      (auto simp: closed_when_aborted_def list_update_beyond dest!: set_update_subset_insert [THEN subsetD])
qed

lemma released_life:
  assumes "serves c (before_drain cf i slot wait s) s'" and "j < length (ad_waiters s)" and "life_ok (ad_waiters s ! j)"
    and "j = i \<Longrightarrow> wt_promise (ad_waiters s ! i) = Promise_resolved"
  shows "life_ok (ad_waiters s' ! j)"
proof (rule serves_life_at [OF assms(1)])
  show "life_ok (ad_waiters (before_drain cf i slot wait s) ! j)"
    using assms(2-4) by (auto simp: nth_update life_ok_def split: wait_state.splits)
qed (use assms(2) in simp)

definition step_ok :: "adm_config \<Rightarrow> admission \<Rightarrow> bool" where
  "step_ok cf s \<longleftrightarrow> books_ok cf s \<and> idle s \<and> closed_when_aborted s"

lemma release_grant_ok:
  assumes ok: "step_ok cf s" and il: "i < length (ad_waiters s)" and p: "wt_promise (ad_waiters s ! i) = Promise_resolved"
  shows "step_ok cf (release_grant cf i wait s)"
proof (cases "wt_released (ad_waiters s ! i)")
  case True
  with ok show ?thesis by (simp add: release_grant_def)
next
  case False
  have life: "life_ok (ad_waiters s ! j)" if "j < length (ad_waiters s)" for j using ok that by (simp add: step_ok_def books_ok_def)
  from life [OF il] p have st: "wt_state (ad_waiters s ! i) = Wait_settled" "wt_slotKind (ad_waiters s ! i) \<noteq> None"
    by (auto simp: life_ok_def split: wait_state.splits)
  then obtain slot where slot: "wt_slotKind (ad_waiters s ! i) = Some slot" by auto
  with False have h: "holds_slot slot (ad_waiters s ! i)" by (simp add: holds_slot_def)
  have a: "adm_ok cf s" using ok by (simp add: step_ok_def books_ok_def)
  have nq: "wt_state (ad_waiters s ! i) \<noteq> Wait_queued" by (simp add: st)
  note r = release_core [OF a il nq h, of wait]
  have l: "length (ad_waiters (release_slot cf i slot wait s)) = length (ad_waiters s)" using servesD(1) [OF r(2)] by simp
  have "books_ok cf (release_slot cf i slot wait s)"
    unfolding books_ok_def
    using r(1) released_life [OF r(2) _ life] p released_on_time [OF _ _ r(2)] ok
    by (auto simp: in_set_conv_nth l step_ok_def books_ok_def)
  with r(3) released_closed [OF _ r(2)] ok False slot show ?thesis by (simp add: step_ok_def release_grant_def Let_def)
qed

lemma settle_grant_ok:
  assumes ok: "step_ok cf s" and il: "i < length (ad_waiters s)"
  shows "step_ok cf (settle_grant i s)"
proof (cases "wt_state (ad_waiters s ! i) = Wait_granted")
  case True
  let ?f = "\<lambda>w. w\<lparr>wt_state := Wait_settled, wt_promise := Promise_resolved\<rparr>"
  have life: "life_ok (ad_waiters s ! i)" using ok il by (simp add: step_ok_def books_ok_def)
  have "books_ok cf (change_waiter i ?f s)"
    by (rule change_books [of cf s i ?f "ad_waiters s ! i"])
      (use ok il True life in \<open>simp_all add: step_ok_def life_ok_def\<close>)
  moreover have "idle (change_waiter i ?f s)" by (rule change_idle) (use ok in \<open>simp_all add: step_ok_def\<close>)
  moreover have "closed_when_aborted (change_waiter i ?f s)"
    using ok by (auto simp: step_ok_def closed_when_aborted_def change_waiter_def aborted_in_def
      dest!: set_update_subset_insert [THEN subsetD])
  ultimately show ?thesis using True by (simp add: step_ok_def settle_grant_def)
qed (use ok in \<open>simp add: settle_grant_def\<close>)

text \<open>\<open>abort\<close> of one waiter, and what it leaves alone.\<close>

definition closes :: "nat \<Rightarrow> admission \<Rightarrow> admission \<Rightarrow> bool" where
  "closes i s s' \<longleftrightarrow> length (ad_waiters s') = length (ad_waiters s) \<and> ad_aborted s' = ad_aborted s \<and>
     (\<forall>j<length (ad_waiters s). wt_signal (ad_waiters s' ! j) = wt_signal (ad_waiters s ! j) \<and>
       (wt_state (ad_waiters s ! j) = Wait_settled \<longrightarrow> wt_state (ad_waiters s' ! j) = Wait_settled)) \<and>
     wt_state (ad_waiters s' ! i) = Wait_settled"

lemma abort_granted_ok:
  assumes ok: "books_ok cf s" "idle s" and il: "i < length (ad_waiters s)" and g: "wt_state (ad_waiters s ! i) = Wait_granted"
  shows "books_ok cf (abort_waiter cf i s) \<and> idle (abort_waiter cf i s) \<and> closes i s (abort_waiter cf i s)"
proof -
  let ?f = "\<lambda>w. w\<lparr>wt_state := Wait_settled, wt_promise := Promise_rejected\<rparr>"
  define s0 where "s0 = s\<lparr>ad_reads := ad_reads s + 1\<rparr>"
  define wait where "wait = max 0 (cf_now cf (ad_reads s) - wt_enqueuedAt (ad_waiters s ! i))"
  have s0: "ad_waiters s0 = ad_waiters s" "ad_aborted s0 = ad_aborted s" "ad_reads s \<le> ad_reads s0" by (simp_all add: s0_def)
  have life: "life_ok (ad_waiters s ! j)" if "j < length (ad_waiters s)" for j using ok(1) that by (simp add: books_ok_def)
  from life [OF il] g obtain slot where slot: "wt_slotKind (ad_waiters s ! i) = Some slot" "\<not> wt_released (ad_waiters s ! i)"
    by (auto simp: life_ok_def)
  have h: "holds_slot slot (ad_waiters s0 ! i)" and nq: "wt_state (ad_waiters s0 ! i) \<noteq> Wait_queued" and il0: "i < length (ad_waiters s0)"
    using slot g il by (simp_all add: holds_slot_def s0)
  have a: "adm_ok cf s0" using ok(1) by (simp add: books_ok_def s0_def reads_ok)
  have id0: "idle s0" using ok(2) by (simp add: idle_def fitting_def s0_def)
  note r = release_core [OF a il0 nq h, of wait]
  define s1 where "s1 = release_slot cf i slot wait s0"
  let ?b = "before_drain cf i slot wait s0"
  have sv: "serves (wt_class (ad_waiters s0 ! i)) ?b s1" using r(2) by (simp add: s1_def)
  have e: "abort_waiter cf i s = change_waiter i ?f s1"
    using g slot by (simp add: abort_waiter_def Let_def read_clock_def s1_def s0_def wait_def)
  have l: "length (ad_waiters s1) = length (ad_waiters s)" using servesD(1) [OF sv] by (simp add: s0)
  have bi: "ad_waiters ?b ! j = (if i = j then (ad_waiters s ! i)\<lparr>wt_released := True\<rparr> else ad_waiters s ! j)"
    if "j < length (ad_waiters s)" for j using that by (simp add: s0 nth_update)
  have wi: "ad_waiters s1 ! i = (ad_waiters s ! i)\<lparr>wt_released := True\<rparr>"
    using servesD(4) [OF sv, of i] il g bi [OF il] by (simp add: s0 served_def)
  have "adm_ok cf (change_waiter i ?f s1)"
    by (rule touch_waiter [where w = "ad_waiters s1 ! i"]) (use r(1) wi g in \<open>simp_all add: s1_def\<close>)
  moreover have "on_time cf (change_waiter i ?f s1)" if m: "mono (cf_now cf)"
  proof (rule on_timeI [OF _ m])
    have "on_time cf s0" by (rule on_timeI [OF _ m s0(3)]) (use ok(1) m in \<open>simp_all add: books_ok_def s0\<close>)
    from released_on_time [OF this m sv] show "on_time cf s1" .
  qed (simp_all add: change_waiter_def nth_update)
  moreover have "life_ok (ad_waiters (change_waiter i ?f s1) ! j)" if j: "j < length (ad_waiters s)" for j
  proof (cases "j = i")
    case True
    then show ?thesis using il l wi slot by (simp add: change_waiter_def life_ok_def)
  next
    case False
    with released_life [OF sv, of j] j life [OF j] l show ?thesis by (simp add: s0 change_waiter_def)
  qed
  moreover have "idle (change_waiter i ?f s1)" by (rule change_idle) (use r(3) [OF id0] in \<open>simp_all add: s1_def\<close>)
  moreover have "closes i s (change_waiter i ?f s1)"
  proof -
    have "wt_signal (ad_waiters s1 ! j) = wt_signal (ad_waiters s ! j) \<and>
        (wt_state (ad_waiters s ! j) = Wait_settled \<longrightarrow> wt_state (ad_waiters s1 ! j) = Wait_settled)"
      if j: "j < length (ad_waiters s)" for j
      using servesD(4) [OF sv, of j] j g by (auto simp: s0 served_def nth_update split: if_splits)
    then show ?thesis
      using servesD(2) [OF sv] l il by (simp add: closes_def change_waiter_def nth_update s0)
  qed
  ultimately show ?thesis using l by (auto simp: e books_ok_def in_set_conv_nth change_waiter_def)
qed

lemma abort_waiter_ok:
  assumes ok: "books_ok cf s" "idle s" and il: "i < length (ad_waiters s)"
  shows "books_ok cf (abort_waiter cf i s) \<and> idle (abort_waiter cf i s) \<and> closes i s (abort_waiter cf i s)"
proof (cases "wt_state (ad_waiters s ! i)")
  case Wait_queued
  then have q: "is_queued (ad_waiters s) i" using il by (simp add: is_queued_def)
  have "closes i s (abort_queued i s)" using il by (simp add: closes_def abort_queued_waiters nth_update)
  with abort_queued_books [OF ok(1) q] ok(2) Wait_queued show ?thesis by (simp add: abort_waiter_def)
next
  case Wait_granted
  from abort_granted_ok [OF ok il this] show ?thesis .
next
  case Wait_settled
  with ok show ?thesis by (simp add: abort_waiter_def closes_def)
qed

lemma abort_all_ok:
  "books_ok cf s \<Longrightarrow> idle s \<Longrightarrow> set is \<subseteq> {..<length (ad_waiters s)} \<Longrightarrow>
     (\<forall>j<length (ad_waiters s). aborted_in (ad_aborted s) (ad_waiters s ! j) \<longrightarrow> wt_state (ad_waiters s ! j) = Wait_settled \<or> j \<in> set is) \<Longrightarrow>
     step_ok cf (fold (abort_waiter cf) is s)"
proof (induction "is" arbitrary: s)
  case Nil
  then show ?case by (auto simp: step_ok_def closed_when_aborted_def in_set_conv_nth)
next
  case (Cons i "is")
  from Cons.prems(3) have il: "i < length (ad_waiters s)" by simp
  from abort_waiter_ok [OF Cons.prems(1,2) il] have m: "books_ok cf (abort_waiter cf i s)" "idle (abort_waiter cf i s)"
    "closes i s (abort_waiter cf i s)" by simp_all
  have "wt_state (ad_waiters (abort_waiter cf i s) ! j) = Wait_settled \<or> j \<in> set is"
    if j: "j < length (ad_waiters s)" "aborted_in (ad_aborted (abort_waiter cf i s)) (ad_waiters (abort_waiter cf i s) ! j)" for j
  proof -
    from m(3) j have "aborted_in (ad_aborted s) (ad_waiters s ! j)" by (simp add: closes_def aborted_in_def)
    with Cons.prems(4) j(1) m(3) show ?thesis by (auto simp: closes_def)
  qed
  with Cons.IH [OF m(1,2)] m(3) Cons.prems(3) show ?case by (simp add: closes_def)
qed

lemma abort_signal_ok:
  assumes "step_ok cf s"
  shows "step_ok cf (abort_signal cf g s)"
proof -
  let ?s = "s\<lparr>ad_aborted := insert g (ad_aborted s)\<rparr>"
  have b: "books_ok cf ?s" "idle ?s" using assms by (simp_all add: step_ok_def books_ok_def adm_ok_def on_time_def idle_def fitting_def)
  show ?thesis
    unfolding abort_signal_def
  proof (rule abort_all_ok [OF b])
    have c: "aborted_in (ad_aborted s) (ad_waiters s ! j) \<Longrightarrow> wt_state (ad_waiters s ! j) = Wait_settled"
      if "j < length (ad_waiters s)" for j using assms that by (simp add: step_ok_def closed_when_aborted_def)
    show "\<forall>j<length (ad_waiters ?s). aborted_in (ad_aborted ?s) (ad_waiters ?s ! j) \<longrightarrow>
        wt_state (ad_waiters ?s ! j) = Wait_settled \<or> j \<in> set (filter (\<lambda>i. wt_signal (ad_waiters s ! i) = Some g) [0..<length (ad_waiters s)])"
    proof (intro allI impI)
      fix j assume j: "j < length (ad_waiters ?s)" "aborted_in (ad_aborted ?s) (ad_waiters ?s ! j)"
      then have "aborted_in (ad_aborted s) (ad_waiters s ! j) \<or> wt_signal (ad_waiters s ! j) = Some g"
        by (auto simp: aborted_in_def split: option.splits)
      with c j show "wt_state (ad_waiters ?s ! j) = Wait_settled \<or> j \<in> set (filter (\<lambda>i. wt_signal (ad_waiters s ! i) = Some g) [0..<length (ad_waiters s)])"
        by auto
    qed
  qed auto
qed

text \<open>
  \<open>acquire\<close>: a new waiter joins the queue; it is granted, with others of its class, when it fits. A waiter that does
  not fit changes nothing for the others, which is why the code skips the drain.
\<close>

section \<open>Joining the queue\<close>

lemma ensure_all_ok:
  "adm_ok cf s \<Longrightarrow> adm_ok cf (s\<lparr>ad_budgets := fold (ensureBudget cf) keys (ad_budgets s)\<rparr>)"
proof (induction keys arbitrary: s)
  case (Cons key keys)
  from Cons.IH [OF ensure_ok [OF Cons.prems, of key]] show ?case by simp
qed simp

lemma map_of_ensure_all:
  "map_of bs k = Some b \<Longrightarrow> map_of (fold (ensureBudget cf) keys bs) k = Some b"
proof (induction keys arbitrary: bs)
  case (Cons key keys)
  from Cons.prems have "map_of (ensureBudget cf key bs) k = Some b" by (auto simp: map_of_ensure)
  from Cons.IH [OF this] show ?case by simp
qed simp

lemma ensure_all_present: "k \<in> set keys \<Longrightarrow> map_of (fold (ensureBudget cf) keys bs) k \<noteq> None"
proof (induction keys arbitrary: bs)
  case (Cons key keys)
  show ?case
  proof (cases "k = key")
    case True
    obtain b where "map_of (ensureBudget cf key bs) key = Some b" by (cases "map_of bs key") (simp_all add: map_of_ensure)
    from map_of_ensure_all [OF this, of cf keys] True show ?thesis by simp
  next
    case False
    with Cons show ?thesis by simp
  qed
qed simp

lemma new_waiter_simps [simp]:
  "wt_state (new_waiter rq n) = Wait_queued" "wt_slotKind (new_waiter rq n) = None" "\<not> wt_released (new_waiter rq n)"
  "wt_promise (new_waiter rq n) = Promise_pending" "wt_enqueuedAt (new_waiter rq n) = n" "wt_class (new_waiter rq n) = request_class rq"
  "wt_budgetKeys (new_waiter rq n) = request_keys rq" "wt_signal (new_waiter rq n) = rq_signal rq"
  "wt_route (new_waiter rq n) = routeKey (rq_wslDistro rq) (rq_cwd rq)"
  by (simp_all add: new_waiter_def)

lemma enqueue_request_ok:
  assumes ok: "adm_ok cf s"
  shows "adm_ok cf (enqueue_request cf rq s) \<and>
    ad_waiters (enqueue_request cf rq s) = ad_waiters s @ [new_waiter rq (cf_now cf (ad_reads s))] \<and>
    ad_budgets (enqueue_request cf rq s) = fold (ensureBudget cf) (request_keys rq) (ad_budgets s) \<and>
    ad_reads (enqueue_request cf rq s) = ad_reads s + 1 \<and> ad_aborted (enqueue_request cf rq s) = ad_aborted s"
proof -
  define bs where "bs = fold (ensureBudget cf) (request_keys rq) (ad_budgets s)"
  define w where "w = new_waiter rq (cf_now cf (ad_reads s))"
  define c where "c = request_class rq"
  define r where "r = routeKey (rq_wslDistro rq) (rq_cwd rq)"
  let ?ws = "ad_waiters s @ [w]"
  have kw: "wt_budgetKeys w = keys_of c r" "wt_class w = c" "wt_route w = r" by (simp_all add: w_def c_def r_def request_keys_of)
  have q: "wt_state w = Wait_queued" by (simp add: w_def)
  define s2 where "s2 = s\<lparr>ad_reads := ad_reads s + 1, ad_budgets := bs\<rparr>"
  have ok2: "adm_ok cf s2"
    using ensure_all_ok [of cf "s\<lparr>ad_reads := ad_reads s + 1\<rparr>" "request_keys rq"] ok by (simp add: s2_def bs_def reads_ok)
  define el where "el = (if lane_at (ad_queue s) (c, wt_tier w, r) = None
    then (room_at bs)((c, wt_tier w, r) := (False, False)) else room_at bs)"
  define s4 where "s4 = s2\<lparr>ad_waiters := ?ws, ad_queue := enqueue ?ws (length (ad_waiters s)) (ad_queue s)\<rparr>"
  have q4: "queue_ok (ad_waiters s4) None el (ad_queue s4)"
    using enqueue_ok [of "ad_waiters s" "room_at bs" "ad_queue s" w "(c, wt_tier w, r)"] adm_okD(4) [OF ok2] kw q
    by (simp add: s4_def s2_def el_def)
  have present_key: "map_of bs key \<noteq> None" if "key \<in> set (keys_of c r)" for key
    unfolding bs_def by (rule ensure_all_present) (use that in \<open>simp add: request_keys_of c_def r_def\<close>)
  have e: "enqueue_request cf rq s = refreshRouteEligibility cf c r s4"
    by (simp add: enqueue_request_def read_clock_def Let_def s4_def s2_def bs_def w_def c_def r_def)
  have rf: "ad_budgets (refreshRouteEligibility cf c r s4) = bs \<and>
      queue_ok ?ws None (room_at bs) (ad_queue (refreshRouteEligibility cf c r s4))"
  proof -
    have "truthy r \<Longrightarrow> map_of (ad_budgets s4) (route_budget c (the r)) \<noteq> None"
      using present_key by (simp add: s4_def s2_def keys_of_def)
    moreover have "el (c', t, r') = room_at (ad_budgets s4) (c', t, r')" if "c' \<noteq> c \<or> r' \<noteq> r" for c' t r'
      using that by (auto simp: el_def s4_def s2_def)
    ultimately show ?thesis using refresh_ok [OF q4, of r c cf] by (simp add: s4_def s2_def)
  qed
  have h: "holders ?ws slot key = holders (ad_waiters s) slot key" for slot key
    by (simp add: holders_def count_where_def holds_slot_def w_def)
  have "budgets_ok cf ?ws bs" using adm_okD(2) [OF ok2] budgets_ok_cong [OF h] by (simp add: s2_def)
  moreover have "present ?ws bs" using adm_okD(3) [OF ok2] present_key kw by (auto simp: present_def s2_def)
  moreover have "wait_ok w" using kw by (simp add: wait_ok_def w_def)
  ultimately have "adm_ok cf (refreshRouteEligibility cf c r s4)"
    using ok rf by (simp add: adm_ok_def s4_def)
  moreover have "ad_reads (refreshRouteEligibility cf c r s4) = ad_reads s + 1 \<and> ad_aborted (refreshRouteEligibility cf c r s4) = ad_aborted s"
    by (simp add: refreshRouteEligibility_def Let_def s4_def s2_def)
  ultimately show ?thesis using rf by (simp add: e s4_def bs_def [symmetric] w_def)
qed

lemma enqueue_request_fitting:
  assumes ok: "adm_ok cf s" and j: "j < length (ad_waiters s)"
  shows "fitting (enqueue_request cf rq s) c j slot = fitting s c j slot"
proof (cases "is_queued (ad_waiters s) j")
  case True
  have "map_of (fold (ensureBudget cf) (request_keys rq) (ad_budgets s)) key = map_of (ad_budgets s) key"
    if key: "key \<in> set (wt_budgetKeys (ad_waiters s ! j))" for key
  proof -
    from queued_key [OF ok True key] obtain b where b: "map_of (ad_budgets s) key = Some b" by auto
    with map_of_ensure_all [OF b] show ?thesis by simp
  qed
  with enqueue_request_ok [OF ok, of rq] j show ?thesis by (simp add: fitting_def fits_slot_def is_queued_def nth_append)
next
  case False
  with enqueue_request_ok [OF ok, of rq] j show ?thesis by (simp add: fitting_def is_queued_def nth_append)
qed

lemma slotKindFor_present:
  assumes "\<And>k. k \<in> set (wt_budgetKeys w) \<Longrightarrow> map_of bs k \<noteq> None"
  shows "snd (slotKindFor cf w bs) = bs" and "fst (slotKindFor cf w bs) = None \<longleftrightarrow> (\<forall>slot. \<not> fits_slot bs w slot)"
proof -
  note f = fits_keys_present [OF assms, of _ cf]
  show "snd (slotKindFor cf w bs) = bs" by (simp add: slotKindFor_def f)
  have all: "(\<forall>slot. P slot) \<longleftrightarrow> P Slot_base \<and> P Slot_headroom" for P by (metis slot_kind.exhaust)
  show "fst (slotKindFor cf w bs) = None \<longleftrightarrow> (\<forall>slot. \<not> fits_slot bs w slot)"
    unfolding all by (simp add: slotKindFor_def f fits_slot_def)
qed

section \<open>The call\<close>

lemma enqueue_request_books:
  assumes ok: "step_ok cf s"
  shows "books_ok cf (enqueue_request cf rq s)"
proof -
  from ok have a: "adm_ok cf s" and life: "\<forall>w\<in>set (ad_waiters s). life_ok w" by (simp_all add: step_ok_def books_ok_def)
  note e = enqueue_request_ok [OF a, of rq]
  have "on_time cf (enqueue_request cf rq s)" if m: "mono (cf_now cf)"
  proof -
    have le: "cf_now cf (ad_reads s) \<le> cf_now cf (ad_reads s + 1)" by (rule monoD [OF m]) simp
    have o': "wt_enqueuedAt w \<le> cf_now cf (ad_reads s)" if "w \<in> set (ad_waiters s)" for w
      using ok m that by (simp add: step_ok_def books_ok_def on_time_def)
    have "in_arrival_order (ad_waiters s)" using ok m by (simp add: step_ok_def books_ok_def on_time_def)
    then have "in_arrival_order (ad_waiters s @ [new_waiter rq (cf_now cf (ad_reads s))])"
      using o' by (auto simp: in_arrival_order_def nth_append)
    then show ?thesis using e o' le by (auto simp: on_time_def intro: order_trans)
  qed
  moreover have "life_ok (new_waiter rq n)" for n by (simp add: life_ok_def)
  ultimately show ?thesis using e life by (auto simp: books_ok_def)
qed

text \<open>Past the check for an aborted signal, a call is a join and, when the newcomer fits, a drain.\<close>

lemma acquire_drains:
  assumes a: "adm_ok cf s" and na: "\<not> (case rq_signal rq of None \<Rightarrow> False | Some g \<Rightarrow> g \<in> ad_aborted s)"
  shows "acquire_waiter cf rq s =
    (if \<exists>slot. fits_slot (ad_budgets (enqueue_request cf rq s)) (new_waiter rq (cf_now cf (ad_reads s))) slot
     then drain cf (request_class rq) (enqueue_request cf rq s) else enqueue_request cf rq s)"
proof -
  let ?s = "enqueue_request cf rq s" and ?i = "length (ad_waiters s)"
  let ?w = "new_waiter rq (cf_now cf (ad_reads s))"
  note e = enqueue_request_ok [OF a, of rq]
  have wi: "ad_waiters ?s ! ?i = ?w" using e by simp
  have na5: "\<not> signal_aborted ?s ?i" using na e wi by (simp add: signal_aborted_def split: option.splits)
  have q: "is_queued (ad_waiters ?s) ?i" using e by (simp add: is_queued_def)
  have keys: "map_of (ad_budgets ?s) k \<noteq> None" if "k \<in> set (wt_budgetKeys ?w)" for k
    using queued_key [of cf ?s, OF _ q] e that wi by metis
  have sk: "snd (slotKindFor cf ?w (ad_budgets ?s)) = ad_budgets ?s"
    by (rule slotKindFor_present(1)) (use keys in blast)
  have "fst (slotKindFor cf ?w (ad_budgets ?s)) = None \<longleftrightarrow> (\<forall>slot. \<not> fits_slot (ad_budgets ?s) ?w slot)"
    by (rule slotKindFor_present(2)) (use keys in blast)
  then have fe: "(\<exists>slot. fits_slot (ad_budgets ?s) ?w slot) \<longleftrightarrow> fst (slotKindFor cf ?w (ad_budgets ?s)) \<noteq> None"
    by (auto simp del: not_None_eq)
  show ?thesis
    unfolding fe using na na5 wi sk by (subst acquire_waiter_def) (simp add: Let_def split_beta)
qed

lemma acquire_waiter_ok:
  assumes ok: "step_ok cf s"
  shows "step_ok cf (acquire_waiter cf rq s)"
proof (cases "case rq_signal rq of None \<Rightarrow> False | Some g \<Rightarrow> g \<in> ad_aborted s")
  case True
  with ok show ?thesis by (simp add: acquire_waiter_def)
next
  case False
  from ok have a: "adm_ok cf s" and id: "idle s" and cl: "closed_when_aborted s" by (simp_all add: step_ok_def books_ok_def)
  let ?s = "enqueue_request cf rq s" and ?i = "length (ad_waiters s)"
  let ?w = "new_waiter rq (cf_now cf (ad_reads s))"
  note e = enqueue_request_ok [OF a, of rq]
  have wi: "ad_waiters ?s ! ?i = ?w" and a5: "adm_ok cf ?s" using e by simp_all
  have b: "books_ok cf ?s" by (rule enqueue_request_books [OF ok])
  have cl5: "closed_when_aborted ?s" using cl e False by (auto simp: closed_when_aborted_def aborted_in_def)
  have old: "\<not> fitting ?s c j slot" if "j \<noteq> ?i" for c j slot
  proof (cases "j < ?i")
    case True
    with enqueue_request_fitting [OF a, of j rq c slot] id show ?thesis by (simp add: idle_def)
  next
    case False
    with that e show ?thesis by (simp add: fitting_def is_queued_def)
  qed
  show ?thesis
  proof (cases "\<exists>slot. fits_slot (ad_budgets ?s) ?w slot")
    case True
    have "\<not> fitting ?s c' j slot" if "c' \<noteq> request_class rq" for c' j slot
      using old that wi by (cases "j = ?i") (auto simp: fitting_def)
    then have "idle (drain cf (request_class rq) ?s)" by (rule drain_idle [OF a5])
    moreover have "closed_when_aborted (drain cf (request_class rq) ?s)"
      using serves_closed [OF _ cl5] drain_ok [OF a5] by blast
    ultimately show ?thesis using drain_books [OF b] True by (simp add: acquire_drains [OF a False] step_ok_def)
  next
    case n: False
    have "\<not> fitting ?s c j slot" for c j slot using old n wi by (cases "j = ?i") (auto simp: fitting_def)
    with b cl5 n show ?thesis by (simp add: acquire_drains [OF a False] step_ok_def idle_def)
  qed
qed

section \<open>The states that are reached\<close>

text \<open>
  A step is a call of \<open>acquire\<close>, a microtask that resolves a grant, a call of a release closure that was handed out,
  or the abort of a signal; they come in any order.
\<close>

inductive git_step :: "adm_config \<Rightarrow> admission \<Rightarrow> admission \<Rightarrow> bool" for cf where
  step_acquire: "git_step cf s (acquire_waiter cf rq s)"
| step_settle: "i < length (ad_waiters s) \<Longrightarrow> git_step cf s (settle_grant i s)"
| step_release: "i < length (ad_waiters s) \<Longrightarrow> wt_promise (ad_waiters s ! i) = Promise_resolved \<Longrightarrow>
    git_step cf s (release_grant cf i wait s)"
| step_abort: "git_step cf s (abort_signal cf g s)"

inductive git_reached :: "adm_config \<Rightarrow> admission \<Rightarrow> bool" for cf where
  reached_empty: "git_reached cf empty_admission"
| reached_step: "git_reached cf s \<Longrightarrow> git_step cf s s' \<Longrightarrow> git_reached cf s'"

lemma git_step_ok: "git_step cf s s' \<Longrightarrow> step_ok cf s \<Longrightarrow> step_ok cf s'"
  by (induction rule: git_step.induct) (simp_all add: acquire_waiter_ok settle_grant_ok release_grant_ok abort_signal_ok)

lemma empty_step_ok: "step_ok cf empty_admission"
proof -
  have "queue_ok [] None el empty_queue" for el
    by (simp add: queue_ok_def lanes_ok_def heaps_ok_def counts_ok_def empty_queue_def lane_at_def queued_at_def key_count_def
      count_where_def lane_candidates_def candidate_heap.holds_valid_def ordered_from_def split: prod.split)
  then show ?thesis
    by (simp add: step_ok_def books_ok_def adm_ok_def budgets_ok_def present_def empty_admission_def holders_def count_where_def
      on_time_def in_arrival_order_def idle_def fitting_def is_queued_def closed_when_aborted_def)
qed

lemma git_reached_ok: "git_reached cf s \<Longrightarrow> step_ok cf s"
  by (induction rule: git_reached.induct) (auto simp: empty_step_ok intro: git_step_ok)

end
