(* ===== verification/Git_Scan.thy ===== *)
theory Git_Scan
  imports Git_Steps
begin

text \<open>
  The scheduler without its queue: what the calls do to the waiters and budgets when the next waiter is found by
  looking at all of them. It is what the lanes, heaps, versions and tombstones have to agree with.
\<close>

section \<open>The scanning scheduler\<close>

record scan =
  sc_waiters :: "waiter list"
  sc_budgets :: "(string \<times> budget) list"
  sc_reads :: nat
  sc_aborted :: "nat set"

definition view :: "admission \<Rightarrow> scan" where
  "view s = \<lparr>sc_waiters = ad_waiters s, sc_budgets = ad_budgets s, sc_reads = ad_reads s, sc_aborted = ad_aborted s\<rparr>"

lemma view_simps [simp]:
  "sc_waiters (view s) = ad_waiters s" "sc_budgets (view s) = ad_budgets s" "sc_reads (view s) = ad_reads s"
  "sc_aborted (view s) = ad_aborted s"
  by (simp_all add: view_def)

definition scan_pairs :: "adm_class \<Rightarrow> scan \<Rightarrow> (nat \<times> slot_kind) list" where
  "scan_pairs c v =
     filter (\<lambda>(i, slot). is_queued (sc_waiters v) i \<and> wt_class (sc_waiters v ! i) = c \<and> fits_slot (sc_budgets v) (sc_waiters v ! i) slot)
       (List.product [0..<length (sc_waiters v)] [Slot_base, Slot_headroom])"

definition needed :: "waiter list \<Rightarrow> string \<Rightarrow> bool" where
  "needed ws key \<longleftrightarrow> list_ex (\<lambda>w. wt_state w = Wait_queued \<and> key \<in> set (wt_budgetKeys w)) ws"

definition scan_prune :: "string list \<Rightarrow> waiter list \<Rightarrow> (string \<times> budget) list \<Rightarrow> (string \<times> budget) list" where
  "scan_prune keys ws bs =
     fold (\<lambda>key bs. if (case map_of bs key of None \<Rightarrow> False
                        | Some b \<Rightarrow> is_route_key key \<and> bg_baseUsed b = 0 \<and> bg_headroomUsed b = 0 \<and> \<not> needed ws key)
                    then filter (\<lambda>e. fst e \<noteq> key) bs else bs) keys bs"

definition scan_drop :: "nat \<Rightarrow> scan \<Rightarrow> scan" where
  "scan_drop i v =
     (let ws = (sc_waiters v)[i := (sc_waiters v ! i)\<lparr>wt_state := Wait_settled, wt_promise := Promise_rejected\<rparr>]
      in v\<lparr>sc_waiters := ws, sc_budgets := scan_prune (wt_budgetKeys (sc_waiters v ! i)) ws (sc_budgets v)\<rparr>)"

definition scan_aborted :: "scan \<Rightarrow> nat \<Rightarrow> bool" where
  "scan_aborted v i = aborted_in (sc_aborted v) (sc_waiters v ! i)"

definition scan_queued :: "scan \<Rightarrow> nat" where
  "scan_queued v = count_where (\<lambda>w. wt_state w = Wait_queued) (sc_waiters v)"

lemma scan_pairs_queued: "x \<in> set (scan_pairs c v) \<Longrightarrow> is_queued (sc_waiters v) (fst x)"
  by (auto simp: scan_pairs_def)

lemma scan_unqueue_fewer:
  "is_queued ws i \<Longrightarrow> wt_state w \<noteq> Wait_queued \<Longrightarrow>
     count_where (\<lambda>w. wt_state w = Wait_queued) (ws[i := w]) < count_where (\<lambda>w. wt_state w = Wait_queued) ws"
  by (rule count_where_update) (simp_all add: is_queued_def)

lemma scan_drop_fewer: "is_queued (sc_waiters v) i \<Longrightarrow> scan_queued (scan_drop i v) < scan_queued v"
  by (simp add: scan_queued_def scan_drop_def Let_def scan_unqueue_fewer)

function scan_next :: "adm_config \<Rightarrow> adm_class \<Rightarrow> rat \<Rightarrow> scan \<Rightarrow> (nat \<times> slot_kind) option \<times> scan" where
  "scan_next cf c now v =
     (case first_of (comes_before cf (sc_waiters v) now) (scan_pairs c v) of
        None \<Rightarrow> (None, v)
      | Some x \<Rightarrow> if scan_aborted v (fst x) then scan_next cf c now (scan_drop (fst x) v) else (Some x, v))"
  by pat_completeness auto
termination
proof (relation "measure (\<lambda>(cf, c, now, v). scan_queued v)")
  fix cf c now v x
  assume "first_of (comes_before cf (sc_waiters v) now) (scan_pairs c v) = Some x"
  from scan_pairs_queued [OF first_of_mem [OF this]]
  show "((cf, c, now, scan_drop (fst x) v), cf, c, now, v) \<in> measure (\<lambda>(cf, c, now, v). scan_queued v)"
    by (simp add: scan_drop_fewer)
qed simp

declare scan_next.simps [simp del]

lemma scan_next_queued:
  "scan_next cf c now v = (Some x, v') \<Longrightarrow> is_queued (sc_waiters v') (fst x) \<and> scan_queued v' \<le> scan_queued v"
proof (induction cf c now v rule: scan_next.induct)
  case (1 cf c now v)
  show ?case
  proof (cases "first_of (comes_before cf (sc_waiters v) now) (scan_pairs c v)")
    case (Some y)
    note q = scan_pairs_queued [OF first_of_mem [OF Some]]
    show ?thesis
    proof (cases "scan_aborted v (fst y)")
      case True
      with "1.prems" Some have "scan_next cf c now (scan_drop (fst y) v) = (Some x, v')" by (simp add: scan_next.simps [of cf c now v])
      with "1.IH" [OF Some True] scan_drop_fewer [OF q] show ?thesis by simp
    qed (use "1.prems" Some q in \<open>simp add: scan_next.simps [of cf c now v]\<close>)
  qed (use "1.prems" in \<open>simp add: scan_next.simps [of cf c now v]\<close>)
qed

definition scan_grant :: "adm_config \<Rightarrow> nat \<times> slot_kind \<Rightarrow> scan \<Rightarrow> scan" where
  "scan_grant cf x v =
     v\<lparr>sc_waiters := (sc_waiters v)[fst x := (sc_waiters v ! fst x)\<lparr>wt_state := Wait_granted, wt_slotKind := Some (snd x)\<rparr>],
       sc_budgets := use_keys cf (snd x) 1 (wt_budgetKeys (sc_waiters v ! fst x)) (sc_budgets v)\<rparr>"

lemma scan_grant_fewer: "is_queued (sc_waiters v) (fst x) \<Longrightarrow> scan_queued (scan_grant cf x v) < scan_queued v"
  by (simp add: scan_queued_def scan_grant_def scan_unqueue_fewer)

definition scan_round :: "adm_config \<Rightarrow> adm_class \<Rightarrow> scan \<Rightarrow> (nat \<times> slot_kind) option \<times> scan" where
  "scan_round cf c v = scan_next cf c (cf_now cf (sc_reads v))
     (v\<lparr>sc_reads := sc_reads v + 1, sc_budgets := ensureBudget cf (class_key c) (sc_budgets v)\<rparr>)"

function scan_drain :: "adm_config \<Rightarrow> adm_class \<Rightarrow> scan \<Rightarrow> scan" where
  "scan_drain cf c v =
     (case scan_round cf c v of (None, v') \<Rightarrow> v' | (Some x, v') \<Rightarrow> scan_drain cf c (scan_grant cf x v'))"
  by pat_completeness auto
termination
proof (relation "measure (\<lambda>(cf, c, v). scan_queued v)")
  fix cf c v p v' x
  assume "(p, v') = scan_round cf c v" "p = Some x"
  then have "scan_next cf c (cf_now cf (sc_reads v))
      (v\<lparr>sc_reads := sc_reads v + 1, sc_budgets := ensureBudget cf (class_key c) (sc_budgets v)\<rparr>) = (Some x, v')"
    by (simp add: scan_round_def)
  from scan_next_queued [OF this] have "is_queued (sc_waiters v') (fst x)" "scan_queued v' \<le> scan_queued v"
    by (simp_all add: scan_queued_def)
  with scan_grant_fewer [of v' x cf]
  show "((cf, c, scan_grant cf x v'), cf, c, v) \<in> measure (\<lambda>(cf, c, v). scan_queued v)"
    by simp
qed simp

declare scan_drain.simps [simp del]

section \<open>The calls\<close>

definition scan_acquire :: "adm_config \<Rightarrow> adm_request \<Rightarrow> scan \<Rightarrow> scan" where
  "scan_acquire cf rq v =
     (if (case rq_signal rq of None \<Rightarrow> False | Some g \<Rightarrow> g \<in> sc_aborted v) then v
      else
        let w = new_waiter rq (cf_now cf (sc_reads v));
            v1 = v\<lparr>sc_waiters := sc_waiters v @ [w], sc_reads := sc_reads v + 1,
                   sc_budgets := fold (ensureBudget cf) (request_keys rq) (sc_budgets v)\<rparr>
        in if fits_slot (sc_budgets v1) w Slot_base \<or> fits_slot (sc_budgets v1) w Slot_headroom
           then scan_drain cf (request_class rq) v1 else v1)"

definition scan_release :: "adm_config \<Rightarrow> nat \<Rightarrow> slot_kind \<Rightarrow> scan \<Rightarrow> scan" where
  "scan_release cf i slot v =
     (let w = sc_waiters v ! i; ws = (sc_waiters v)[i := w\<lparr>wt_released := True\<rparr>]
      in scan_drain cf (wt_class w)
           (v\<lparr>sc_waiters := ws,
              sc_budgets := scan_prune (wt_budgetKeys w) ws (use_keys cf slot (- 1) (wt_budgetKeys w) (sc_budgets v))\<rparr>))"

definition scan_close :: "adm_config \<Rightarrow> nat \<Rightarrow> scan \<Rightarrow> scan" where
  "scan_close cf i v =
     (let w = sc_waiters v ! i in
      case wt_state w of
        Wait_settled \<Rightarrow> v
      | Wait_queued \<Rightarrow> scan_drop i v
      | Wait_granted \<Rightarrow>
          let v1 = scan_release cf i (the (wt_slotKind w)) (v\<lparr>sc_reads := sc_reads v + 1\<rparr>)
          in v1\<lparr>sc_waiters := (sc_waiters v1)[i := (sc_waiters v1 ! i)\<lparr>wt_state := Wait_settled, wt_promise := Promise_rejected\<rparr>]\<rparr>)"

definition scan_settle :: "nat \<Rightarrow> scan \<Rightarrow> scan" where
  "scan_settle i v =
     (if wt_state (sc_waiters v ! i) = Wait_granted
      then v\<lparr>sc_waiters := (sc_waiters v)[i := (sc_waiters v ! i)\<lparr>wt_state := Wait_settled, wt_promise := Promise_resolved\<rparr>]\<rparr>
      else v)"

definition scan_return :: "adm_config \<Rightarrow> nat \<Rightarrow> scan \<Rightarrow> scan" where
  "scan_return cf i v =
     (if wt_released (sc_waiters v ! i) then v else scan_release cf i (the (wt_slotKind (sc_waiters v ! i))) v)"

definition scan_abort :: "adm_config \<Rightarrow> nat \<Rightarrow> scan \<Rightarrow> scan" where
  "scan_abort cf g v =
     fold (scan_close cf) (filter (\<lambda>i. wt_signal (sc_waiters v ! i) = Some g) [0..<length (sc_waiters v)])
       (v\<lparr>sc_aborted := insert g (sc_aborted v)\<rparr>)"

section \<open>The queue's choice is the scan's\<close>

lemma scan_pairs_fitting: "x \<in> set (scan_pairs c (view s)) \<longleftrightarrow> fitting s c (fst x) (snd x)"
proof -
  have "\<forall>slot. slot \<in> {Slot_base, Slot_headroom}" by (metis insertCI slot_kind.exhaust)
  then show ?thesis by (cases x) (auto simp: scan_pairs_def fitting_def is_queued_def)
qed

lemma comes_before_antisym: "comes_before cf ws now x y \<Longrightarrow> comes_before cf ws now y x \<Longrightarrow> x = y"
  by (cases "snd x"; cases "snd y") (auto simp: comes_before_def Let_def prod_eq_iff split: if_splits)

lemma first_of_None: "first_of earlier xs = None \<longleftrightarrow> xs = []"
  by (simp add: first_of_def split: list.split)

lemma first_of_unique:
  assumes x: "first_of (comes_before cf ws now) xs = Some x" and y: "first_of (comes_before cf ws now) ys = Some y"
    and sub: "set xs \<subseteq> set ys" and cov: "\<And>z. z \<in> set ys \<Longrightarrow> \<exists>z'\<in>set xs. z' = z \<or> comes_before cf ws now z' z"
  shows "x = y"
proof -
  have least: "z = a \<or> comes_before cf ws now a z" if "first_of (comes_before cf ws now) zs = Some a" "z \<in> set zs" for a z zs
    by (rule first_of_least [OF that]) (erule (1) comes_before_trans, erule comes_before_total)
  have yx: "x = y \<or> comes_before cf ws now y x" using least [OF y, of x] first_of_mem [OF x] sub by blast
  from cov [OF first_of_mem [OF y]] obtain z where z: "z \<in> set xs" "z = y \<or> comes_before cf ws now z y" by blast
  have "z = x \<or> comes_before cf ws now x z" by (rule least [OF x z(1)])
  with z(2) have "x = y \<or> comes_before cf ws now x y" using comes_before_trans by blast
  with yx comes_before_antisym show ?thesis by blast
qed

lemma choice_ok:
  assumes ok: "adm_ok cf s" and cov: "covers s c (slots_asked (class_room Slot_base s c) (class_room Slot_headroom s c)) cands"
    and time: "0 < cf_agingMs cf" "in_arrival_order (ad_waiters s)"
  shows "first_of (comes_before cf (ad_waiters s) now) cands = first_of (comes_before cf (ad_waiters s) now) (scan_pairs c (view s))"
proof -
  note covered = fitting_covered [OF ok cov]
  have sub: "set cands \<subseteq> set (scan_pairs c (view s))" using covered(1) by (auto simp: scan_pairs_fitting)
  have near: "\<exists>z'\<in>set cands. z' = z \<or> comes_before cf (ad_waiters s) now z' z" if "z \<in> set (scan_pairs c (view s))" for z
  proof -
    obtain j slot where z: "z = (j, slot)" by (cases z)
    with that have f: "fitting s c j slot" by (simp add: scan_pairs_fitting)
    from covered(2) [OF this] obtain i where i: "i \<le> j" "(i, slot) \<in> set cands"
      "wt_tier (ad_waiters s ! i) = wt_tier (ad_waiters s ! j)" by auto
    have "j < length (ad_waiters s)" using f by (simp add: fitting_def is_queued_def)
    from older_comes_before [OF time i(1) this i(3)] i(2) show ?thesis unfolding z by blast
  qed
  show ?thesis
  proof (cases "first_of (comes_before cf (ad_waiters s) now) cands")
    case None
    then have "cands = []" by (simp add: first_of_None)
    with near have "scan_pairs c (view s) = []" by (metis empty_iff last_in_set list.set(1))
    with \<open>cands = []\<close> show ?thesis by simp
  next
    case (Some x)
    with first_of_mem [OF Some] sub obtain y where y: "first_of (comes_before cf (ad_waiters s) now) (scan_pairs c (view s)) = Some y"
      by (cases "first_of (comes_before cf (ad_waiters s) now) (scan_pairs c (view s))") (auto simp: first_of_None)
    from first_of_unique [OF Some y sub near] Some y show ?thesis by simp
  qed
qed

text \<open>
  Every call of the scheduler does to the waiters and the budgets what the scanning scheduler does.
\<close>

section \<open>Pruning\<close>

lemma has_needed:
  assumes "queue_ok ws None el q"
  shows "hasBudget key q \<longleftrightarrow> needed ws key"
proof -
  have "key_count ws None key = 0 \<longleftrightarrow> \<not> needed ws key"
    by (auto simp: key_count_def count_where_def needed_def filter_empty_conv list_ex_iff)
  with assms show ?thesis by (auto simp: queue_ok_def counts_ok_def hasBudget_def)
qed

lemma prune_scan:
  "(\<And>key. hasBudget key (ad_queue s) \<longleftrightarrow> needed ws key) \<Longrightarrow>
     ad_budgets (pruneRouteBudgets keys s) = scan_prune keys ws (ad_budgets s)"
proof (induction keys arbitrary: s)
  case (Cons key keys)
  let ?s = "if prunable s key then s\<lparr>ad_budgets := filter (\<lambda>e. fst e \<noteq> key) (ad_budgets s)\<rparr> else s"
  have "ad_budgets (pruneRouteBudgets keys ?s) = scan_prune keys ws (ad_budgets ?s)" by (rule Cons.IH) (simp add: Cons.prems)
  moreover have "prunable s key \<longleftrightarrow> (case map_of (ad_budgets s) key of None \<Rightarrow> False
      | Some b \<Rightarrow> is_route_key key \<and> bg_baseUsed b = 0 \<and> bg_headroomUsed b = 0 \<and> \<not> needed ws key)"
    by (simp add: prunable_def Cons.prems split: option.split)
  ultimately show ?case by (simp add: pruneRouteBudgets_def scan_prune_def)
qed (simp add: pruneRouteBudgets_def scan_prune_def)

lemma abort_queued_view:
  assumes ok: "adm_ok cf s" and i: "is_queued (ad_waiters s) i"
  shows "view (abort_queued i s) = scan_drop i (view s)"
proof -
  let ?w = "(ad_waiters s ! i)\<lparr>wt_state := Wait_settled\<rparr>"
  let ?s2 = "s\<lparr>ad_waiters := (ad_waiters s)[i := ?w], ad_queue := dequeue ((ad_waiters s)[i := ?w]) i (ad_queue s)\<rparr>"
  let ?ws = "(ad_waiters s)[i := (ad_waiters s ! i)\<lparr>wt_state := Wait_settled, wt_promise := Promise_rejected\<rparr>]"
  have il: "i < length (ad_waiters s)" using i by (simp add: is_queued_def)
  have "ad_queue (abort_queued i s) = ad_queue ?s2" by (simp add: abort_queued_def Let_def change_waiter_def)
  moreover have "queue_ok (ad_waiters (abort_queued i s)) None (room_at (ad_budgets (abort_queued i s))) (ad_queue (abort_queued i s))"
    by (rule adm_okD(4) [OF abort_queued_ok [OF ok i]])
  ultimately have n: "hasBudget key (ad_queue ?s2) \<longleftrightarrow> needed ?ws key" for key
    using has_needed by (simp add: abort_queued_waiters)
  have "ad_budgets (abort_queued i s) = ad_budgets (pruneRouteBudgets (wt_budgetKeys (ad_waiters s ! i)) ?s2)"
    using il by (simp add: abort_queued_def Let_def change_waiter_def)
  also have "\<dots> = scan_prune (wt_budgetKeys (ad_waiters s ! i)) ?ws (ad_budgets s)"
    using prune_scan [of ?s2 ?ws, OF n] by simp
  finally show ?thesis by (simp add: view_def scan_drop_def Let_def abort_queued_waiters)
qed

section \<open>Draining\<close>

lemma nextFitting_view:
  "nextFitting cf c now b h s = (sel, s') \<Longrightarrow> adm_ok cf s \<Longrightarrow> b = class_room Slot_base s c \<Longrightarrow> h = class_room Slot_headroom s c \<Longrightarrow>
     0 < cf_agingMs cf \<Longrightarrow> in_arrival_order (ad_waiters s) \<Longrightarrow> scan_next cf c now (view s) = (sel, view s')"
proof (induction cf c now b h s rule: nextFitting.induct)
  case (1 cf c now b h s)
  obtain cands s1 where a: "all_candidates c b h s = (cands, s1)" by (cases "all_candidates c b h s")
  from all_candidates_ok [OF "1.prems"(2) a] have ok1: "adm_ok cf s1" and h1: "heaps_only s s1"
    and cov: "covers s c (slots_asked b h) cands" by simp_all
  have v1: "view s1 = view s" using h1 by (simp add: heaps_only_def view_def)
  have room: "class_room slot s1 c = class_room slot s c" for slot
    by (rule class_room_fields) (use h1 in \<open>simp add: heaps_only_def\<close>)
  have cov1: "covers s1 c (slots_asked (class_room Slot_base s1 c) (class_room Slot_headroom s1 c)) cands"
    using cov "1.prems"(3,4) by (simp add: room covers_heaps [OF h1])
  have order1: "in_arrival_order (ad_waiters s1)" using "1.prems"(6) h1 by (simp add: heaps_only_def)
  have e: "first_of (comes_before cf (sc_waiters (view s)) now) (scan_pairs c (view s)) = first_of (comes_before cf (ad_waiters s1) now) cands"
    using choice_ok [OF ok1 cov1 "1.prems"(5) order1, of now] v1 [symmetric] by simp
  show ?case
  proof (cases "first_of (comes_before cf (ad_waiters s1) now) cands")
    case None
    with e a "1.prems"(1) v1 show ?thesis by (simp add: scan_next.simps [of cf c now "view s"] nextFitting.simps [of cf c now b h s])
  next
    case (Some p)
    obtain i slot where p: "p = (i, slot)" by (cases p)
    from fitting_covered(1) [OF ok1 cov1 first_of_mem [OF Some]] have f: "is_queued (ad_waiters s1) i" "wt_class (ad_waiters s1 ! i) = c"
      by (simp_all add: p fitting_def)
    have sa: "scan_aborted (view s) i = signal_aborted s1 i" using v1 [symmetric] by (simp add: scan_aborted_def signal_aborted_in)
    show ?thesis
    proof (cases "signal_aborted s1 i")
      case True
      from True a Some p "1.prems"(1) have n: "nextFitting cf c now b h (abort_queued i s1) = (sel, s')"
        by (simp add: nextFitting.simps [of cf c now b h s])
      have d: "drops c s1 (abort_queued i s1)" by (rule drops_abort [OF ok1 f True])
      have r: "class_room slot' (abort_queued i s1) c = class_room slot' s c" for slot'
        using d room by (simp add: drops_def class_room_def)
      from "1.IH" [OF a [symmetric] refl Some p [symmetric] True n abort_queued_ok [OF ok1 f(1)] _ _ "1.prems"(5) drops_order [OF d order1]]
        "1.prems"(3,4) r
      have "scan_next cf c now (view (abort_queued i s1)) = (sel, view s')" by simp
      with abort_queued_view [OF ok1 f(1)] e Some p sa True v1 show ?thesis by (simp add: scan_next.simps [of cf c now "view s"])
    next
      case False
      with a Some p "1.prems"(1) have "sel = Some (i, slot)" "s' = s1" by (simp_all add: nextFitting.simps [of cf c now b h s])
      with e Some p sa False v1 show ?thesis by (simp add: scan_next.simps [of cf c now "view s"])
    qed
  qed
qed

lemma drain_round_view:
  assumes ok: "adm_ok cf s" and time: "0 < cf_agingMs cf" "in_arrival_order (ad_waiters s)" and r: "drain_round cf c s = (sel, s')"
  shows "scan_round cf c (view s) = (map_option fst sel, view s')"
proof -
  let ?now = "cf_now cf (ad_reads s)"
  let ?s1 = "s\<lparr>ad_reads := ad_reads s + 1\<rparr>"
  define s2 where "s2 = ?s1\<lparr>ad_budgets := ensureBudget cf (class_key c) (ad_budgets s)\<rparr>"
  define b where "b = the (map_of (ad_budgets s2) (class_key c))"
  obtain x s3 where n: "nextFitting cf c ?now (has_room Slot_base b) (has_room Slot_headroom b) s2 = (x, s3)"
    by (cases "nextFitting cf c ?now (has_room Slot_base b) (has_room Slot_headroom b) s2")
  from r n have e: "sel = map_option (\<lambda>y. (y, ?now)) x" "s' = s3"
    by (auto simp: drain_round_def read_clock_def Let_def s2_def b_def)
  have "adm_ok cf s2" unfolding s2_def using ensure_ok [of cf ?s1 "class_key c"] ok by (simp add: reads_ok)
  from nextFitting_view [OF n this _ _ time(1)] time(2) have "scan_next cf c ?now (view s2) = (x, view s3)"
    by (simp add: b_def class_room_def s2_def)
  moreover have "view s2 = (view s)\<lparr>sc_reads := ad_reads s + 1, sc_budgets := ensureBudget cf (class_key c) (ad_budgets s)\<rparr>"
    by (simp add: s2_def view_def)
  ultimately show ?thesis by (simp add: scan_round_def e option.map_comp comp_def option.map_ident)
qed

lemma grant_view:
  assumes ok: "adm_ok cf s" and i: "is_queued (ad_waiters s) i"
  shows "view (grant cf i slot now s) = scan_grant cf (i, slot) (view s)"
proof -
  have il: "i < length (ad_waiters s)" using i by (simp add: is_queued_def)
  have "ad_reads (grant cf i slot now s) = ad_reads s" "ad_aborted (grant cf i slot now s) = ad_aborted s"
    by (simp_all add: grant_def Let_def refreshRouteEligibility_def change_waiter_def)
  with grant_budgets_eq [OF ok i, of slot now] show ?thesis by (simp add: view_def scan_grant_def grant_waiters)
qed

lemma drain_view:
  "adm_ok cf s \<Longrightarrow> 0 < cf_agingMs cf \<Longrightarrow> in_arrival_order (ad_waiters s) \<Longrightarrow> view (drain cf c s) = scan_drain cf c (view s)"
proof (induction cf c s rule: drain.induct)
  case (1 cf c s)
  obtain sel s1 where r: "drain_round cf c s = (sel, s1)" by (cases "drain_round cf c s")
  from drain_round_ok [OF "1.prems"(1) r] have m: "adm_ok cf s1" "serves c s s1"
    "selects cf c (cf_now cf (ad_reads s)) (map_option fst sel) s1" by blast+
  note v = drain_round_view [OF "1.prems" r]
  show ?case
  proof (cases sel)
    case None
    with r v show ?thesis by (simp add: drain.simps [of cf c s] scan_drain.simps [of cf c "view s"])
  next
    case (Some x)
    obtain i slot now where x: "x = ((i, slot), now)" by (metis prod.exhaust)
    from m(3) Some x have f: "fitting s1 c i slot" "\<not> signal_aborted s1 i" by (simp_all add: selects_def)
    then have q: "is_queued (ad_waiters s1) i" by (simp add: fitting_def)
    let ?s2 = "grant cf i slot now s1"
    have ok2: "adm_ok cf ?s2" by (rule grant_ok [OF m(1) q]) (use f in \<open>simp add: fitting_def\<close>)
    have o2: "in_arrival_order (ad_waiters ?s2)"
      by (rule serves_order [OF serves_trans [OF m(2) grant_serves [OF m(1) f]] "1.prems"(3)])
    from "1.IH" [OF r [symmetric] Some x [symmetric] refl ok2 "1.prems"(2) o2] grant_view [OF m(1) q, of slot now] v r Some x
    show ?thesis by (simp add: drain.simps [of cf c s] scan_drain.simps [of cf c "view s"])
  qed
qed

section \<open>The calls\<close>

lemma before_drain_view:
  assumes ok: "adm_ok cf s" and il: "i < length (ad_waiters s)" and nq: "wt_state (ad_waiters s ! i) \<noteq> Wait_queued"
    and hold: "holds_slot slot (ad_waiters s ! i)"
  shows "scan_drain cf (wt_class (ad_waiters s ! i)) (view (before_drain cf i slot wait s)) = scan_release cf i slot (view s)"
proof -
  let ?w = "ad_waiters s ! i"
  let ?ws = "(ad_waiters s)[i := ?w\<lparr>wt_released := True\<rparr>]"
  let ?bs = "use_keys cf slot (- 1) (wt_budgetKeys ?w) (ad_budgets s)"
  let ?s2 = "s\<lparr>ad_waiters := ?ws, ad_budgets := ?bs\<rparr>"
  let ?s4 = "publishEvent cf i slot Phase_release wait (refreshRouteEligibility cf (wt_class ?w) (wt_route ?w) ?s2)"
  note kw = wait_keys [OF adm_okD(1) [OF ok il]]
  have "active_waiter ?w" using hold by (auto simp: active_waiter_def)
  note have_key = present_key [OF adm_okD(3) [OF ok] il this]
  have r: "map_of ?bs (route_budget (wt_class ?w) (the (wt_route ?w))) \<noteq> None" if "truthy (wt_route ?w)"
  proof -
    from that have m: "route_budget (wt_class ?w) (the (wt_route ?w)) \<in> set (wt_budgetKeys ?w)" by (simp add: kw keys_of_def)
    from map_of_use_keys [of "wt_budgetKeys ?w" "ad_budgets s" cf slot "- 1"] have_key have_key [OF m]
    show ?thesis by (simp add: kw)
  qed
  then have b4: "ad_budgets ?s4 = ?bs" by (cases "truthy (wt_route ?w)") (simp_all add: refreshRouteEligibility_def Let_def)
  have e: "before_drain cf i slot wait s = pruneRouteBudgets (wt_budgetKeys ?w) ?s4"
    using il by (simp add: before_drain_def Let_def change_waiter_def)
  from adm_okD(4) [OF before_drain_ok(1) [OF ok il nq hold, of wait]]
  have "hasBudget key (ad_queue ?s4) \<longleftrightarrow> needed ?ws key" for key using has_needed by (simp add: e)
  from prune_scan [of ?s4 ?ws, OF this] b4 have "ad_budgets (before_drain cf i slot wait s) = scan_prune (wt_budgetKeys ?w) ?ws ?bs"
    by (simp add: e)
  then have "view (before_drain cf i slot wait s) = (view s)\<lparr>sc_waiters := ?ws, sc_budgets := scan_prune (wt_budgetKeys ?w) ?ws ?bs\<rparr>"
    by (simp add: view_def)
  then show ?thesis by (simp add: scan_release_def Let_def)
qed

lemma release_view:
  assumes ok: "adm_ok cf s" and il: "i < length (ad_waiters s)" and nq: "wt_state (ad_waiters s ! i) \<noteq> Wait_queued"
    and hold: "holds_slot slot (ad_waiters s ! i)" and time: "0 < cf_agingMs cf" "in_arrival_order (ad_waiters s)"
  shows "view (release_slot cf i slot wait s) = scan_release cf i slot (view s)"
proof -
  have "in_arrival_order (ad_waiters (before_drain cf i slot wait s))"
    using time(2) by (auto simp: in_arrival_order_def nth_update)
  from drain_view [OF before_drain_ok(1) [OF ok il nq hold] time(1) this] before_drain_view [OF ok il nq hold]
  show ?thesis by (simp add: release_slot_drain [OF il])
qed

lemma change_view:
  "view (change_waiter i f s) = (view s)\<lparr>sc_waiters := (sc_waiters (view s))[i := f (sc_waiters (view s) ! i)]\<rparr>"
  by (simp add: change_waiter_def view_def)

lemma abort_waiter_view:
  assumes ok: "books_ok cf s" and il: "i < length (ad_waiters s)" and time: "0 < cf_agingMs cf" "mono (cf_now cf)"
  shows "view (abort_waiter cf i s) = scan_close cf i (view s)"
proof (cases "wt_state (ad_waiters s ! i)")
  case Wait_queued
  then have q: "is_queued (ad_waiters s) i" using il by (simp add: is_queued_def)
  have "adm_ok cf s" using ok by (simp add: books_ok_def)
  from abort_queued_view [OF this q] Wait_queued show ?thesis by (simp add: abort_waiter_def scan_close_def)
next
  case Wait_granted
  let ?s0 = "s\<lparr>ad_reads := ad_reads s + 1\<rparr>"
  have "life_ok (ad_waiters s ! i)" using ok il by (simp add: books_ok_def)
  with Wait_granted obtain slot where slot: "wt_slotKind (ad_waiters s ! i) = Some slot" "\<not> wt_released (ad_waiters s ! i)"
    by (auto simp: life_ok_def)
  have "adm_ok cf ?s0" "in_arrival_order (ad_waiters ?s0)" using ok time(2) by (simp_all add: books_ok_def reads_ok on_time_def)
  from release_view [OF this(1), of i slot, OF _ _ _ time(1) this(2)] slot Wait_granted il
  have r: "view (release_slot cf i slot wait ?s0) = scan_release cf i slot (view ?s0)" for wait by (simp add: holds_slot_def)
  let ?wait = "max 0 (cf_now cf (ad_reads s) - wt_enqueuedAt (ad_waiters s ! i))"
  have "abort_waiter cf i s = change_waiter i (\<lambda>w. w\<lparr>wt_state := Wait_settled, wt_promise := Promise_rejected\<rparr>)
      (release_slot cf i slot ?wait ?s0)"
    using slot Wait_granted by (simp add: abort_waiter_def read_clock_def Let_def)
  moreover have "view ?s0 = (view s)\<lparr>sc_reads := ad_reads s + 1\<rparr>" by (simp add: view_def)
  ultimately have "view (abort_waiter cf i s) = (let v1 = scan_release cf i slot ((view s)\<lparr>sc_reads := ad_reads s + 1\<rparr>)
      in v1\<lparr>sc_waiters := (sc_waiters v1)[i := (sc_waiters v1 ! i)\<lparr>wt_state := Wait_settled, wt_promise := Promise_rejected\<rparr>]\<rparr>)"
    using r [of ?wait] by (simp add: change_view Let_def del: view_simps)
  then show ?thesis using slot Wait_granted by (simp add: scan_close_def Let_def)
next
  case Wait_settled
  then show ?thesis by (simp add: abort_waiter_def scan_close_def)
qed

lemma abort_all_view:
  "books_ok cf s \<Longrightarrow> idle s \<Longrightarrow> set is \<subseteq> {..<length (ad_waiters s)} \<Longrightarrow> 0 < cf_agingMs cf \<Longrightarrow> mono (cf_now cf) \<Longrightarrow>
     view (fold (abort_waiter cf) is s) = fold (scan_close cf) is (view s)"
proof (induction "is" arbitrary: s)
  case (Cons i "is")
  from Cons.prems(3) have il: "i < length (ad_waiters s)" by simp
  from abort_waiter_ok [OF Cons.prems(1,2) il] have "books_ok cf (abort_waiter cf i s)" "idle (abort_waiter cf i s)"
    "length (ad_waiters (abort_waiter cf i s)) = length (ad_waiters s)" by (simp_all add: closes_def)
  with Cons abort_waiter_view [OF Cons.prems(1) il Cons.prems(4,5)] show ?case by simp
qed simp

lemma acquire_view:
  assumes ok: "step_ok cf s" and time: "0 < cf_agingMs cf" "mono (cf_now cf)"
  shows "view (acquire_waiter cf rq s) = scan_acquire cf rq (view s)"
proof (cases "case rq_signal rq of None \<Rightarrow> False | Some g \<Rightarrow> g \<in> ad_aborted s")
  case True
  then show ?thesis by (simp add: acquire_waiter_def scan_acquire_def cong: option.case_cong)
next
  case False
  from ok have a: "adm_ok cf s" by (simp add: step_ok_def books_ok_def)
  let ?s = "enqueue_request cf rq s" and ?w = "new_waiter rq (cf_now cf (ad_reads s))"
  note e = enqueue_request_ok [OF a, of rq]
  have b: "books_ok cf ?s" by (rule enqueue_request_books [OF ok])
  then have a5: "adm_ok cf ?s" and o5: "in_arrival_order (ad_waiters ?s)" using time(2) by (simp_all add: books_ok_def on_time_def)
  have "(\<exists>slot. P slot) \<longleftrightarrow> P Slot_base \<or> P Slot_headroom" for P by (metis slot_kind.exhaust)
  with acquire_drains [OF a, of rq] False drain_view [OF a5 time(1) o5] e show ?thesis
    by (simp add: scan_acquire_def Let_def view_def cong: option.case_cong)
qed

lemma release_grant_view:
  assumes ok: "step_ok cf s" and il: "i < length (ad_waiters s)" and p: "wt_promise (ad_waiters s ! i) = Promise_resolved"
    and time: "0 < cf_agingMs cf" "mono (cf_now cf)"
  shows "view (release_grant cf i wait s) = scan_return cf i (view s)"
proof (cases "wt_released (ad_waiters s ! i)")
  case False
  from ok have a: "adm_ok cf s" "in_arrival_order (ad_waiters s)" and life: "life_ok (ad_waiters s ! i)"
    using il time(2) by (simp_all add: step_ok_def books_ok_def on_time_def)
  from life p obtain slot where slot: "wt_slotKind (ad_waiters s ! i) = Some slot" and nq: "wt_state (ad_waiters s ! i) \<noteq> Wait_queued"
    by (auto simp: life_ok_def split: wait_state.splits)
  from release_view [OF a(1) il nq _ time(1) a(2), of slot wait] slot False show ?thesis
    by (simp add: holds_slot_def release_grant_def scan_return_def Let_def)
qed (simp add: release_grant_def scan_return_def)

lemma settle_view: "view (settle_grant i s) = scan_settle i (view s)"
  by (simp add: settle_grant_def scan_settle_def change_waiter_def view_def)

lemma abort_signal_view:
  assumes ok: "step_ok cf s" and time: "0 < cf_agingMs cf" "mono (cf_now cf)"
  shows "view (abort_signal cf g s) = scan_abort cf g (view s)"
proof -
  have b: "books_ok cf (s\<lparr>ad_aborted := insert g (ad_aborted s)\<rparr>)" "idle (s\<lparr>ad_aborted := insert g (ad_aborted s)\<rparr>)"
    using ok by (simp_all add: step_ok_def books_ok_def adm_ok_def on_time_def idle_def fitting_def)
  have "view (s\<lparr>ad_aborted := insert g (ad_aborted s)\<rparr>) = (view s)\<lparr>sc_aborted := insert g (ad_aborted s)\<rparr>" by (simp add: view_def)
  moreover have "set (filter (\<lambda>i. wt_signal (ad_waiters s ! i) = Some g) [0..<length (ad_waiters s)])
      \<subseteq> {..<length (ad_waiters (s\<lparr>ad_aborted := insert g (ad_aborted s)\<rparr>))}" by auto
  from abort_all_view [OF b this time] show ?thesis using calculation by (simp add: abort_signal_def scan_abort_def)
qed

end
