(* ===== verification/Git_Correct.thy ===== *)
theory Git_Correct
  imports Git_Scan
begin

text \<open>
  The properties of git admission.
\<close>

section \<open>How many children run\<close>

definition may_run :: "waiter \<Rightarrow> bool" where
  "may_run w \<longleftrightarrow> wt_state w = Wait_granted \<or> wt_promise w = Promise_resolved \<and> \<not> wt_released w"

lemma may_run_holds: "life_ok w \<Longrightarrow> may_run w \<longleftrightarrow> holds_slot Slot_base w \<or> holds_slot Slot_headroom w"
proof -
  assume l: "life_ok w"
  have "wt_slotKind w \<noteq> None \<longleftrightarrow> wt_slotKind w = Some Slot_base \<or> wt_slotKind w = Some Slot_headroom"
    by (metis not_None_eq option.distinct(1) slot_kind.exhaust)
  with l show ?thesis by (cases "wt_state w") (auto simp: may_run_def holds_slot_def life_ok_def)
qed

lemma holders_bound:
  assumes "adm_ok cf s"
  shows "holders (ad_waiters s) slot key \<le> capacity slot (new_budget cf key)"
proof (cases "map_of (ad_budgets s) key")
  case None
  with budgets_okD(1) [OF adm_okD(2) [OF assms] None, of slot] show ?thesis by simp
next
  case (Some b)
  from budgets_okD(2) [OF adm_okD(2) [OF assms] Some, of slot] show ?thesis by simp
qed

lemma count_where_split:
  "(\<And>x. x \<in> set xs \<Longrightarrow> P x \<Longrightarrow> Q x \<or> R x) \<Longrightarrow> count_where P xs \<le> count_where Q xs + count_where R xs"
  unfolding count_where_def by (induction xs) (auto intro: le_SucI)

lemma running_bound:
  assumes ok: "step_ok cf s"
    and key: "\<And>w. w \<in> set (ad_waiters s) \<Longrightarrow> P w \<Longrightarrow> key \<in> set (wt_budgetKeys w)"
  shows "count_where (\<lambda>w. may_run w \<and> P w) (ad_waiters s) \<le>
    capacity Slot_base (new_budget cf key) + capacity Slot_headroom (new_budget cf key)"
proof -
  from ok have a: "adm_ok cf s" and life: "\<And>w. w \<in> set (ad_waiters s) \<Longrightarrow> life_ok w" by (simp_all add: step_ok_def books_ok_def)
  have "count_where (\<lambda>w. may_run w \<and> P w) (ad_waiters s) \<le> holders (ad_waiters s) Slot_base key + holders (ad_waiters s) Slot_headroom key"
    unfolding holders_def by (rule count_where_split) (use may_run_holds life key in blast)
  with holders_bound [OF a, of Slot_base key] holders_bound [OF a, of Slot_headroom key] show ?thesis by linarith
qed

lemma class_bound:
  assumes "step_ok cf s"
  shows "count_where (\<lambda>w. may_run w \<and> wt_class w = c) (ad_waiters s) \<le>
    capacity Slot_base (new_budget cf (class_key c)) + capacity Slot_headroom (new_budget cf (class_key c))"
  by (rule running_bound [OF assms]) (use assms in \<open>auto simp: step_ok_def books_ok_def adm_ok_def wait_ok_def keys_of_def\<close>)

lemma route_bound:
  assumes "step_ok cf s" and "truthy r"
  shows "count_where (\<lambda>w. may_run w \<and> wt_class w = c \<and> wt_route w = r) (ad_waiters s) \<le> cf_routeCap cf + cf_routeHeadroom cf"
proof -
  have "capacity Slot_base (new_budget cf (route_budget c (the r))) + capacity Slot_headroom (new_budget cf (route_budget c (the r)))
      = cf_routeCap cf + cf_routeHeadroom cf" by (simp add: capacity_def new_budget_def route_budget_is_route)
  moreover have "count_where (\<lambda>w. may_run w \<and> (wt_class w = c \<and> wt_route w = r)) (ad_waiters s) \<le>
      capacity Slot_base (new_budget cf (route_budget c (the r))) + capacity Slot_headroom (new_budget cf (route_budget c (the r)))"
    by (rule running_bound [OF assms(1)])
      (use assms in \<open>auto simp: step_ok_def books_ok_def adm_ok_def wait_ok_def keys_of_def\<close>)
  ultimately show ?thesis by simp
qed

text \<open>A small scheduler for the examples: one general and one network child, no headroom, a clock that ticks.\<close>

definition small_config :: adm_config where
  "small_config = \<lparr>cf_generalCap = 1, cf_networkCap = 1, cf_generalHeadroom = 0, cf_networkHeadroom = 0, cf_routeCap = 1,
     cf_routeHeadroom = 0, cf_agingMs = 15000, cf_now = of_nat, cf_listens = False\<rparr>"

definition status_request :: adm_request where
  "status_request = \<lparr>rq_args = [''status''], rq_cwd = ''/r'', rq_wslDistro = None, rq_tier = None, rq_signal = Some 7\<rparr>"

definition two_waiters :: admission where
  "two_waiters = acquire_waiter small_config status_request (acquire_waiter small_config status_request empty_admission)"

lemma small_time: "0 < cf_agingMs small_config" "mono (cf_now small_config)"
  by (simp_all add: small_config_def mono_def)

lemma two_waiters_reached: "git_reached small_config two_waiters"
  unfolding two_waiters_def by (intro reached_step [OF _ step_acquire] reached_empty)

definition scan_two :: scan where
  "scan_two = scan_acquire small_config status_request (scan_acquire small_config status_request (view empty_admission))"

lemma two_waiters_view: "view two_waiters = scan_two"
  by (simp add: two_waiters_def scan_two_def acquire_view [OF _ small_time] git_reached_ok [OF reached_empty]
    git_reached_ok [OF reached_step [OF reached_empty step_acquire]])

lemma scan_two_second: "is_queued (sc_waiters scan_two) 1"
  by code_simp

text \<open>C6. With the default configuration never more than ten git children hold a slot: at most six general and four
  network ones, and of one WSL or UNC route at most three of a class, whatever the calls and their order.\<close>

theorem at_most_ten_git_children:
  assumes "git_reached (default_config parallelism now) s"
  shows "count_where may_run (ad_waiters s) \<le> max_git_children \<and>
    count_where (\<lambda>w. may_run w \<and> wt_class w = Class_general) (ad_waiters s) \<le> 6 \<and>
    count_where (\<lambda>w. may_run w \<and> wt_class w = Class_network) (ad_waiters s) \<le> 4 \<and>
    count_where (\<lambda>w. may_run w \<and> wt_class w = c \<and> wt_route w = Some (x # r)) (ad_waiters s) \<le> 3"
proof -
  let ?cf = "default_config parallelism now"
  note ok = git_reached_ok [OF assms]
  have g: "count_where (\<lambda>w. may_run w \<and> wt_class w = Class_general) (ad_waiters s) \<le> 6"
    using class_bound [OF ok, of Class_general]
    by (simp add: capacity_def new_budget_def class_key_def is_route_key_def starts_with_def default_config_def general_cap_def)
  have n: "count_where (\<lambda>w. may_run w \<and> wt_class w = Class_network) (ad_waiters s) \<le> 4"
    using class_bound [OF ok, of Class_network]
    by (simp add: capacity_def new_budget_def class_key_def is_route_key_def starts_with_def default_config_def)
  have "count_where may_run (ad_waiters s) \<le> count_where (\<lambda>w. may_run w \<and> wt_class w = Class_general) (ad_waiters s)
      + count_where (\<lambda>w. may_run w \<and> wt_class w = Class_network) (ad_waiters s)"
    by (rule count_where_split) (use adm_class.exhaust in blast)
  with g n have "count_where may_run (ad_waiters s) \<le> max_git_children" by (simp add: max_git_children_def)
  moreover have "count_where (\<lambda>w. may_run w \<and> wt_class w = c \<and> wt_route w = Some (x # r)) (ad_waiters s) \<le> 3"
    using route_bound [OF ok, of "Some (x # r)" c] by (simp add: default_config_def truthy_def)
  ultimately show ?thesis using g n by blast
qed

theorem at_most_ten_git_children_witness:
  "count_where may_run (ad_waiters (acquire_waiter (default_config 8 of_nat) status_request empty_admission)) \<le> max_git_children"
  using at_most_ten_git_children [OF reached_step [OF reached_empty step_acquire], of 8 of_nat status_request] by blast

section \<open>Nobody waits for nothing\<close>

lemma queued_not_fits:
  assumes "step_ok cf s" and "is_queued (ad_waiters s) i"
  shows "\<not> fits_slot (ad_budgets s) (ad_waiters s ! i) slot"
  using assms by (simp add: step_ok_def idle_def fitting_def)

text \<open>C7. Work conservation: in every state that is reached, the code's own test \<open>slotKindFor\<close> answers null for every
  request that waits. A call never returns with a slot free that a waiting request could take.\<close>

theorem no_slot_is_left_idle:
  assumes "git_reached cf s" and "is_queued (ad_waiters s) i"
  shows "fst (slotKindFor cf (ad_waiters s ! i) (ad_budgets s)) = None"
proof -
  note ok = git_reached_ok [OF assms(1)]
  then have a: "adm_ok cf s" by (simp add: step_ok_def books_ok_def)
  show ?thesis
    by (subst slotKindFor_present(2)) (use queued_key [OF a assms(2)] queued_not_fits [OF ok assms(2)] in blast)+
qed

theorem no_slot_is_left_idle_witness:
  "fst (slotKindFor small_config (ad_waiters two_waiters ! 1) (ad_budgets two_waiters)) = None"
  using no_slot_is_left_idle [OF two_waiters_reached, of 1] scan_two_second two_waiters_view by (metis view_simps(1))

text \<open>C19. No deadlock: when the capacities are not zero, a request that waits does so behind a child of its own class
  that holds a slot, so that a release is still to come, and with it the drain of that class.\<close>

theorem waiting_is_behind_a_child:
  assumes "git_reached cf s" and "is_queued (ad_waiters s) i"
    and "0 < cf_generalCap cf" "0 < cf_networkCap cf" "0 < cf_routeCap cf"
  shows "list_ex (\<lambda>w. may_run w \<and> wt_class w = wt_class (ad_waiters s ! i)) (ad_waiters s)"
proof (rule ccontr)
  assume none: "\<not> list_ex (\<lambda>w. may_run w \<and> wt_class w = wt_class (ad_waiters s ! i)) (ad_waiters s)"
  note ok = git_reached_ok [OF assms(1)]
  then have a: "adm_ok cf s" and life: "\<And>w. w \<in> set (ad_waiters s) \<Longrightarrow> life_ok w" by (simp_all add: step_ok_def books_ok_def)
  have "has_room Slot_base (the (map_of (ad_budgets s) key))" if key: "key \<in> set (wt_budgetKeys (ad_waiters s ! i))" for key
  proof -
    from queued_key [OF a assms(2) key] obtain b where b: "map_of (ad_budgets s) key = Some b" by auto
    have "wt_class w = wt_class (ad_waiters s ! i)" if "w \<in> set (ad_waiters s)" "key \<in> set (wt_budgetKeys w)" for w
      using a that key [unfolded queued_keys_of [OF a assms(2)]] keys_other_class [of "wt_class w" _ key "wt_route w"]
      by (metis adm_ok_def wait_keys)
    then have "holders (ad_waiters s) Slot_base key = 0"
      using none may_run_holds life by (fastforce simp: holders_def count_where_def filter_empty_conv list_ex_iff)
    moreover have "0 < capacity Slot_base (new_budget cf key)" using assms(3-5) by (simp add: capacity_def new_budget_def)
    ultimately show ?thesis using budgets_okD(2) [OF adm_okD(2) [OF a] b, of Slot_base] b by (simp add: has_room_used)
  qed
  then have "fits_slot (ad_budgets s) (ad_waiters s ! i) Slot_base" by (simp add: fits_slot_def)
  with queued_not_fits [OF ok assms(2)] show False by simp
qed

theorem waiting_is_behind_a_child_witness:
  "list_ex (\<lambda>w. may_run w \<and> wt_class w = wt_class (ad_waiters two_waiters ! 1)) (ad_waiters two_waiters)"
proof -
  have "is_queued (ad_waiters two_waiters) 1" using scan_two_second two_waiters_view by (metis view_simps(1))
  then show ?thesis by (rule waiting_is_behind_a_child [OF two_waiters_reached]) (simp_all add: small_config_def)
qed

section \<open>The queue and the scan\<close>

text \<open>C5. The lanes, candidate heaps, lane versions, tombstones and eligibility flags are an implementation of looking at all
  waiters: in every state that is reached, each call changes waiters, budgets, clock reads and aborted signals exactly as the
  scanning scheduler does, which grants the first of all requests that fit in the order of effective tier, arrival and slot.
  The clock must not go back and the aging step must be positive.\<close>

theorem queue_refines_scan:
  assumes "git_reached cf s" and "mono (cf_now cf)" and "0 < cf_agingMs cf"
    and "i < length (ad_waiters s)" and "wt_promise (ad_waiters s ! i) = Promise_resolved"
  shows "view (acquire_waiter cf rq s) = scan_acquire cf rq (view s) \<and>
    view (release_grant cf i wait s) = scan_return cf i (view s) \<and>
    view (abort_signal cf g s) = scan_abort cf g (view s) \<and> view (settle_grant j s) = scan_settle j (view s)"
  using acquire_view [OF git_reached_ok [OF assms(1)] assms(3,2)] release_grant_view [OF git_reached_ok [OF assms(1)] assms(4,5,3,2)]
    abort_signal_view [OF git_reached_ok [OF assms(1)] assms(3,2)] settle_view by blast

lemma scan_settled_first: "0 < length (sc_waiters scan_two) \<and> wt_promise (sc_waiters (scan_settle 0 scan_two) ! 0) = Promise_resolved"
  by code_simp

lemma settled_reached: "git_reached small_config (settle_grant 0 two_waiters)"
  by (rule reached_step [OF two_waiters_reached step_settle])
    (metis scan_settled_first two_waiters_view view_simps(1))

lemma settled_first:
  "0 < length (ad_waiters (settle_grant 0 two_waiters)) \<and> wt_promise (ad_waiters (settle_grant 0 two_waiters) ! 0) = Promise_resolved"
proof -
  have "sc_waiters (view (settle_grant 0 two_waiters)) = sc_waiters (scan_settle 0 scan_two)" by (simp only: settle_view two_waiters_view)
  with scan_settled_first show ?thesis by (auto simp: scan_settle_def)
qed

theorem queue_refines_scan_witness:
  "view (release_grant small_config 0 0 (settle_grant 0 two_waiters)) = scan_return small_config 0 (view (settle_grant 0 two_waiters))"
  using queue_refines_scan [OF settled_reached small_time(2,1) conjunct1 [OF settled_first] conjunct2 [OF settled_first]] by blast

section \<open>Aborted requests\<close>


definition first_of_aborted :: waiter where
  "first_of_aborted = ad_waiters (abort_signal small_config 7 two_waiters) ! 0"

lemma abort_two_view: "view (abort_signal small_config 7 two_waiters) = scan_abort small_config 7 scan_two"
  using abort_signal_view [OF git_reached_ok [OF two_waiters_reached] small_time, of 7] by (simp add: two_waiters_view)

lemma scan_aborted_first:
  "0 < length (sc_waiters (scan_abort small_config 7 scan_two)) \<and>
   aborted_in (sc_aborted (scan_abort small_config 7 scan_two)) (sc_waiters (scan_abort small_config 7 scan_two) ! 0)"
  by code_simp


end
