(* ===== verification/Spec2Isabelle.thy ===== *)
theory Spec2Isabelle
  imports Dispatch_Correct Reports_Correct Threads_Correct Receipts_Correct
    Layout_Correct Layout_State_Correct Layout_Effects_Correct Queue_Correct
    Edit_Correct Git_Correct
begin

text \<open>
  A model of the core of Wakii (Orca), an editor that runs coding agents: the store that orchestrates
  workers, the layout of tabs and panes, the queue of messages of an agent's chat, the cards that show what an agent
  edited, and the admission of git commands. These parts are the code's own decisions; around them the program is
  I/O (terminals, agents' processes, git itself, browsers, the user interface), which is not modelled.

  \<^bold>\<open>Orchestration\<close> (\<open>src/main/runtime/orchestration\<close>, theories \<open>Orc_*\<close>). A database \<open>odb\<close> is a record of tables,
  each a list of rows in row order (\<open>Orc_Types\<close>); an operation takes the database to an error or to a result and a
  new database, and an error leaves the old one, as the transactions of the code do. \<open>Orc_Lifecycle\<close> is
  \<open>db/lifecycle-transition.ts\<close>, the one writer of task, Dispatch and worker status. The stores follow: \<open>Orc_Tasks\<close>
  (\<open>task-store.ts\<close>), \<open>Orc_Identity\<close> (pane keys, session addresses, assignees), \<open>Orc_Mail\<close> (messages),
  \<open>Orc_Dispatch\<close> and \<open>Orc_Create\<close> (lookup, settlement, creation, nesting depth), \<open>Orc_Terminals\<close> and \<open>Orc_Release\<close>
  (custody and release of worker terminals), \<open>Orc_Threads\<close> (gates and questions), \<open>Orc_Workers\<close> and \<open>Orc_Stops\<close> (start,
  stages, stop, abandon), \<open>Orc_Report\<close> (reports and observations), \<open>Orc_Receipts\<close> (request idempotency).
  \<open>Orc_System\<close> makes them one transition system, \<open>orc_step\<close> with a rule per operation, and proves what every run
  keeps; the locales \<open>store_relation\<close> and \<open>store_growth\<close> of \<open>Orc_Stable\<close> are the contract the writers share, interpreted
  for the invariant and for monotone growth. The properties are here and in \<open>Tasks_Correct\<close>,
  \<open>Dispatch_Correct\<close>, \<open>Reports_Correct\<close>, \<open>Threads_Correct\<close> and \<open>Receipts_Correct\<close>; \<open>Samples\<close> has the small databases
  they are instantiated at.

  \<^bold>\<open>Layout\<close> (\<open>src/shared/workspace-layout\<close>, theories \<open>Layout_*\<close>). A model holds, per workspace, tabs, groups with
  their order, and two trees of splits (\<open>Layout_Types\<close>, \<open>Layout_Trees\<close>). \<open>Layout_Apply\<close> has the two entries,
  \<open>applyLayoutCommand\<close> for the 34 commands and \<open>applyLayoutTransition\<close> for the facts of the runtime; the commands stand
  in \<open>Layout_Tabs\<close>, \<open>Layout_Panes\<close>, \<open>Layout_Groups\<close> and \<open>Layout_Content\<close>, written in the steps of \<open>Layout_Steps\<close>;
  \<open>Layout_Order\<close> (orders and moves), \<open>Layout_Ratios\<close> (dividers), \<open>Layout_Identity\<close> (ids) and \<open>Layout_Rules\<close> (the check
  of a model) are the routines they use. \<open>Layout_Keeps\<close> to \<open>Layout_Kept\<close> prove that every command and fact keeps
  a well-formed model well formed; \<open>Layout_Board\<close> is the abstract view, a board of tab orders on which moves and
  splits are lifting a tab and putting it down; \<open>Layout_Effects\<close> says what single commands do.
  The properties are in \<open>Layout_State_Correct\<close>, \<open>Layout_Effects_Correct\<close> and \<open>Layout_Correct\<close>.

  \<^bold>\<open>Queue\<close> (\<open>src/main/native-chat/agent-session-journal\<close>, theories \<open>Queue_*\<close>). A chat's journal folds rows into
  submissions and queued cards (\<open>Queue_Types\<close>, \<open>Queue_Journal\<close>); \<open>Queue_Pause\<close> derives its pauses,
  \<open>Queue_Candidates\<close> keeps the cards that could go next in a balanced tree, \<open>Queue_Operations\<close> has what the owner does
  with the cards, \<open>Queue_Held\<close> also the editors' holds on them. \<open>Queue_Kept\<close> proves what every row keeps of a card handed
  off; \<open>Queue_List\<close> and \<open>Queue_Use\<close> that the rows act on a list of ids and that positions are never
  shared; \<open>Queue_Held\<close> what leases and the choice of the next card do. The properties are in
  \<open>Queue_Correct\<close>.

  \<^bold>\<open>Edits\<close> (\<open>src/shared/native-chat/tools\<close>, theories \<open>Edit_*\<close>). A tool call of an agent becomes cards of the files it
  changed. \<open>Edit_Lines\<close> has the rows of a card and the diff of two texts (\<open>native-chat-edit-model.ts\<close>,
  \<open>native-chat-edit-lcs.ts\<close>: a table of 32-bit words for small texts, common head and tail for large ones), \<open>Edit_Patch\<close> the
  reader of unified patches with a visitor, once to rows and once to counts (\<open>native-chat-unified-patch.ts\<close>),
  \<open>Edit_Cards\<close> the envelopes, the providers' forms and the choice among them (\<open>native-chat-begin-patch.ts\<close>,
  \<open>native-chat-edit-patch-files.ts\<close>, \<open>native-chat-edit-normalize.ts\<close>). \<open>Edit_Rows\<close> proves what every card keeps and that two
  visitors that agree stay in step; the properties are in \<open>Edit_Correct\<close>.

  \<^bold>\<open>Git admission\<close> (\<open>src/shared/git\<close>, theories \<open>Git_*\<close>). Git children run under budgets per class of command and per remote
  route. \<open>Git_Commands\<close> sorts commands and working directories; \<open>Git_Heap\<close> and \<open>Git_Waiters\<close> are the queue: a lane per class,
  tier and route, binary heaps of candidates for the lanes that are eligible, versions that make old candidates void, lazy
  deletion and compaction; \<open>Git_Scheduler\<close> is the scheduler (acquire, drain, grant, release, abort, aging of tiers). The
  heap's contract is the locale \<open>least_first\<close>, interpreted as \<open>candidate_heap\<close>. \<open>Git_Queue\<close> proves the queue's invariant,
  \<open>Git_Admission\<close> that of the budgets, \<open>Git_Choice\<close> what is chosen and what a drain leaves, \<open>Git_Steps\<close> that every call in
  any order keeps it all; \<open>Git_Scan\<close> has the scheduler that looks at all waiters and proves that the queue does the same.
  The properties are in \<open>Git_Correct\<close>.

  The parts meet in identities: panes, terminals and sessions are named alike in the layout and in the store
  (\<open>Orc_Identity\<close>, \<open>Layout_Identity\<close>), and orchestration mail arrives in a chat as queued cards. \<open>Prelude\<close> has the
  results with errors, keyed tables (locale \<open>keyed_table\<close>) and the lemmas on lists all of them share, \<open>Texts\<close> the
  string routines.

  \<^bold>\<open>Conventions.\<close> Strings are lists of 8-bit characters, so rules on surrogate pairs never apply and two strings
  compare byte by byte. JavaScript numbers are naturals or integers where the code counts, and rationals for
  ratios of dividers; 32-bit arithmetic (the hash of name-based ids, the table of
  the diff) is on words. Objects compare by their contents
  where the code compares references; an absent optional collection is the empty one. Maps and records are
  association lists in insertion order. Times and fresh ids are arguments. Loops are recursive functions proved
  to terminate, without fuel: the search of the next terminal number ends because some number up to the count of tabs
  is free, the walk of the candidates because the nodes on its stack and below them get fewer, a drain because each round
  leaves fewer waiters queued. Of the scheduler's surroundings the clock is a function of the number of its reads, a signal a
  number, the microtask that hands a grant out a step of its own, and an event listener does not call back.

  \<^bold>\<open>Not modelled\<close>: SQL schema and migrations, the coordinator's loop and the RPC services around the stores, federation
  relays, inbox queries; layout load, save, publication and the comparison of two saved layouts; of the chat's journal its
  storage, epochs, rendered items and turns, the input order's index (its head and whether it pauses a card are arguments
  of the choice), attachments and receipts of single operations; and the rest of the program, which drives terminals,
  agents, remote hosts, git and services, or draws the interface (of edits the journal's truncation markers and JSON parsing
  are arguments, and card caches and highlighting are left out). These are asynchronous I/O, or code over libraries
  outside the repository.

  What the model showed: the check of a model accepts a group tree that repeats a group and leaves another out
  (\<open>group_tree_check_gap\<close>); a process start without an incarnation id keeps the pane's old one, so two panes can come
  to show one terminal (\<open>stale_incarnation_shows_twice\<close>); the walk after a candidate skips those of its own position,
  though the order its comment names goes on to the id (\<open>after_skips_same_position\<close>). And the tables of git read actions are
  plain objects, so a subcommand named like a member of \<open>Object.prototype\<close> is found in them; the model looks up the
  table's own names only.
\<close>

section \<open>Properties of the whole store\<close>

text \<open>C1. In every database the operations can reach, keys are unique, no two live Dispatches have the
  same assignee, every Dispatch has a stamped depth and every dependency is an earlier task.\<close>

theorem reachable_store_inv:
  assumes "orc_reachable db"
  shows "store_inv db"
  using assms by (rule reachable_inv)

theorem reachable_store_inv_witness: "store_inv reached_db"
  by (rule reachable_store_inv [OF reached_db_reachable])



definition settled_db :: odb where
  "settled_db = sample_db\<lparr>dispatches := [sample_dispatch ''d1'' ''t3'' D_failed (Some ''term_w'')],
     workers := [sample_worker ''d1'' W_failed]\<rparr>"

definition settled_next :: odb where
  "settled_next = outcome (updateTaskStatus sample_env ''t3'' T_completed None settled_db)"

lemma settled_run: "orc_steps settled_db settled_next"
proof -
  have "succeeded (updateTaskStatus sample_env ''t3'' T_completed None settled_db)" by code_simp
  from outcome_Inr [OF this] have "orc_step settled_db settled_next"
    unfolding settled_next_def by (blast intro: step_update_task_status)
  then show ?thesis by (rule steps_step [OF steps_refl])
qed

text \<open>C8. A settled Dispatch is never reopened: whatever operations follow, its row stays, with the same
  task, Run and depth, and its status changes at most to completed (the corrected late report).\<close>

theorem settled_dispatch_stays:
  assumes "orc_steps db db'" and "d \<in> set (dispatches db)" and "\<not> active d"
  shows "\<exists>d'\<in>set (dispatches db'). d_id d' = d_id d \<and> d_task_id d' = d_task_id d \<and>
    d_run_id d' = d_run_id d \<and> d_depth d' = d_depth d \<and>
    (d_status d' = d_status d \<or> d_status d' = D_completed)"
proof -
  from monotone.steps_respect [OF assms(1)] have "grows dispatch_follows (dispatches db) (dispatches db')"
    by (simp add: lifecycle_monotone_def)
  from grows_member [OF this assms(2)] assms(3) show ?thesis by (auto simp: dispatch_follows_def)
qed

theorem settled_dispatch_stays_witness:
  "\<exists>d'\<in>set (dispatches settled_next). d_id d' = ''d1'' \<and> d_status d' \<in> {D_failed, D_completed}"
  using settled_dispatch_stays [OF settled_run, of "sample_dispatch ''d1'' ''t3'' D_failed (Some ''term_w'')"]
  by (auto simp: settled_db_def sample_dispatch_def fresh_dispatch_def)

text \<open>C9. A settled worker is never revived: whatever operations follow, it stays settled, and only a
  failed worker can still change, to succeeded.\<close>

theorem settled_worker_stays:
  assumes "orc_steps db db'" and "w \<in> set (workers db)" and "worker_settled (w_state w)"
  shows "\<exists>w'\<in>set (workers db'). w_dispatch_id w' = w_dispatch_id w \<and>
    (w_state w' = w_state w \<or> (w_state w = W_failed \<and> w_state w' = W_succeeded))"
proof -
  from monotone.steps_respect [OF assms(1)] have "grows worker_follows (workers db) (workers db')"
    by (simp add: lifecycle_monotone_def)
  from grows_member [OF this assms(2)] assms(3) show ?thesis by (auto simp: worker_follows_def)
qed

theorem settled_worker_stays_witness:
  "\<exists>w'\<in>set (workers settled_next). w_dispatch_id w' = ''d1'' \<and> w_state w' \<in> {W_failed, W_succeeded}"
  using settled_worker_stays [OF settled_run, of "sample_worker ''d1'' W_failed"]
  by (auto simp: settled_db_def sample_worker_def)

text \<open>Tasks are never lost, renamed, moved to another Run or rewired: the task table of every later
  database extends the earlier one row by row.\<close>

theorem tasks_are_kept:
  assumes "orc_steps db db'" and "i < length (tasks db)"
  shows "i < length (tasks db') \<and> t_id (tasks db' ! i) = t_id (tasks db ! i) \<and>
    t_run_id (tasks db' ! i) = t_run_id (tasks db ! i) \<and> t_deps (tasks db' ! i) = t_deps (tasks db ! i)"
proof -
  from monotone.steps_respect [OF assms(1)] have "grows task_follows (tasks db) (tasks db')"
    by (simp add: lifecycle_monotone_def)
  with assms(2) show ?thesis
    by (auto simp: grows_def list_all2_conv_all_nth task_follows_def)
qed

theorem tasks_are_kept_witness: "t_id (tasks settled_next ! 1) = ''t2''"
  using tasks_are_kept [OF settled_run, of 1] by (simp add: settled_db_def sample_defs)


definition released_row :: resource_row where
  "released_row = (fresh_resource sample_env ''wtr_0'' ''d1'' (Some ''wt'') ''term_w'')
     \<lparr>wr_ownership_state := Own_released, wr_release_state := Rel_released, wr_pane_key := Some ''pane''\<rparr>"

definition released_db :: odb where
  "released_db = settled_db\<lparr>resources := [released_row]\<rparr>"


end
